(* ===== verification/Prelude.thy ===== *)
theory Prelude
  imports Main "HOL-Library.Word"
begin

section \<open>Prelude: machine integers, tables of functions, shared automation\<close>

text \<open>
  The generic layer of the development. A C++ \<open>int32_t\<close> is an \<open>int\<close> together with
  the wrap-around function \<open>s32\<close>, which reads the low 32 bits as two's complement;
  every addition, subtraction, product and negation of the model goes through it, and a lemma
  that needs exact arithmetic says so with \<open>in_s32\<close>. A \<open>uint32_t\<close> and a
  \<open>uint64_t\<close> are words. The collections below are the ones component proofs add to
  \<open>simp\<close>: \<open>wrap_simps\<close> for exact arithmetic inside the range and
  \<open>op_defs\<close> for the operations a component opens in its own proofs.
\<close>

named_theorems wrap_simps "wrap-around arithmetic is exact inside the int32 range"
named_theorems op_defs "defining equations a component opens in its own proofs"

type_synonym u32 = "32 word"
type_synonym u64 = "64 word"

subsection \<open>32-bit signed integers\<close>

definition INT32_MIN :: int where
  "INT32_MIN = - 2147483648"

definition INT32_MAX :: int where
  "INT32_MAX = 2147483647"

definition s32 :: "int \<Rightarrow> int" where
  "s32 x = (x + 2147483648) mod 4294967296 - 2147483648"

definition in_s32 :: "int \<Rightarrow> bool" where
  "in_s32 x \<longleftrightarrow> INT32_MIN \<le> x \<and> x \<le> INT32_MAX"

lemma in_s32_iff: "in_s32 x \<longleftrightarrow> - 2147483648 \<le> x \<and> x \<le> 2147483647"
  by (simp add: in_s32_def INT32_MIN_def INT32_MAX_def)

lemma s32_exact [wrap_simps]: "in_s32 x \<Longrightarrow> s32 x = x"
  by (simp add: s32_def in_s32_iff)

lemma s32_range: "in_s32 (s32 x)"
proof -
  have "0 \<le> (x + 2147483648) mod 4294967296" "(x + 2147483648) mod 4294967296 < 4294967296"
    by simp_all
  then show ?thesis by (simp add: s32_def in_s32_iff)
qed

lemma s32_mod: "s32 x mod 4294967296 = x mod 4294967296"
proof -
  have "s32 x mod 4294967296 = ((x + 2147483648) mod 4294967296 - 2147483648) mod 4294967296"
    by (simp add: s32_def)
  also have "\<dots> = (x + 2147483648 - 2147483648) mod 4294967296"
    by (rule mod_diff_left_eq)
  finally show ?thesis by simp
qed

lemma s32_idem [simp]: "s32 (s32 x) = s32 x"
  by (rule s32_exact) (rule s32_range)

lemma s32_cong: "x mod 4294967296 = y mod 4294967296 \<Longrightarrow> s32 x = s32 y"
  unfolding s32_def by (metis mod_add_left_eq)

lemma s32_add_left [simp]: "s32 (s32 x + y) = s32 (x + y)"
  by (rule s32_cong) (metis mod_add_left_eq s32_mod)

lemma s32_add_right [simp]: "s32 (x + s32 y) = s32 (x + y)"
  by (rule s32_cong) (metis mod_add_right_eq s32_mod)

lemma s32_diff_left [simp]: "s32 (s32 x - y) = s32 (x - y)"
  by (rule s32_cong) (metis mod_diff_left_eq s32_mod)

lemma s32_diff_right [simp]: "s32 (x - s32 y) = s32 (x - y)"
  by (rule s32_cong) (metis mod_diff_right_eq s32_mod)

text \<open>C's \<open>/\<close> truncates towards zero.\<close>

definition c_div :: "int \<Rightarrow> int \<Rightarrow> int" where
  "c_div a b = (let q = \<bar>a\<bar> div \<bar>b\<bar> in if (a < 0) = (b < 0) then q else - q)"

lemma c_div_nonneg: "0 \<le> a \<Longrightarrow> 0 < b \<Longrightarrow> c_div a b = a div b"
  by (simp add: c_div_def Let_def)

lemma c_div_abs_le: "\<bar>c_div a b\<bar> \<le> \<bar>a\<bar>"
proof -
  have "\<bar>a\<bar> div \<bar>b\<bar> \<le> \<bar>a\<bar>"
  proof (cases "b = 0")
    case False
    then have "\<bar>a\<bar> div \<bar>b\<bar> * 1 \<le> \<bar>a\<bar> div \<bar>b\<bar> * \<bar>b\<bar>"
      by (intro mult_left_mono) (simp_all add: pos_imp_zdiv_nonneg_iff)
    also have "\<dots> \<le> \<bar>a\<bar>"
      using False by (simp add: minus_mod_eq_div_mult [symmetric] pos_mod_sign)
    finally show ?thesis by simp
  qed simp
  moreover have "0 \<le> \<bar>a\<bar> div \<bar>b\<bar>"
    by (cases "b = 0") (simp_all add: pos_imp_zdiv_nonneg_iff)
  ultimately show ?thesis
    by (auto simp: c_div_def Let_def)
qed

subsection \<open>Lists\<close>

lemma sum_list_map_cong:
  "(\<And>x. x \<in> set xs \<Longrightarrow> f x = g x) \<Longrightarrow> (\<Sum>x\<leftarrow>xs. f x) = (\<Sum>x\<leftarrow>xs. g x)"
  by (metis map_cong)

lemma sum_list_update_fun:
  fixes f :: "'a \<Rightarrow> int"
  assumes "distinct xs" and "x \<in> set xs"
  shows "(\<Sum>y\<leftarrow>xs. (if y = x then v else f y)) = (\<Sum>y\<leftarrow>xs. f y) - f x + v"
  using assms
proof (induction xs)
  case (Cons y ys)
  show ?case
  proof (cases "y = x")
    case True
    with Cons.prems have "(\<Sum>z\<leftarrow>ys. (if z = x then v else f z)) = (\<Sum>z\<leftarrow>ys. f z)"
      by (intro sum_list_map_cong) auto
    with True show ?thesis by simp
  next
    case False
    with Cons show ?thesis by simp
  qed
qed simp

end
