(* ===== verification/StdMap.thy ===== *)
theory StdMap
  imports Prelude
begin

section \<open>Ordered maps: the std::map operations the code uses\<close>

text \<open>
  A \<open>std::map\<close> is an association list whose keys increase strictly; iteration from
  \<open>begin()\<close> to \<open>end()\<close> is the list itself. \<open>insert\<close> keeps an existing
  entry, assignment through an iterator replaces the value of an existing key,
  \<open>operator[]\<close> does both, \<open>erase\<close> removes one entry. The contract the rest of
  the development relies on is the locale \<open>ordered_map\<close>; it is interpreted on these
  lists at the end of the theory.
\<close>

type_synonym ('k, 'v) stdmap = "('k \<times> 'v) list"

definition sm_find :: "('k, 'v) stdmap \<Rightarrow> 'k \<Rightarrow> 'v option" where
  "sm_find m k = map_of m k"

primrec sm_insert :: "('k::linorder, 'v) stdmap \<Rightarrow> 'k \<Rightarrow> 'v \<Rightarrow> ('k, 'v) stdmap" where
  "sm_insert [] k v = [(k, v)]"
| "sm_insert (e # m) k v =
     (if k < fst e then (k, v) # e # m
      else if k = fst e then e # m
      else e # sm_insert m k v)"

primrec sm_assign :: "('k, 'v) stdmap \<Rightarrow> 'k \<Rightarrow> 'v \<Rightarrow> ('k, 'v) stdmap" where
  "sm_assign [] k v = []"
| "sm_assign (e # m) k v = (if fst e = k then (k, v) # m else e # sm_assign m k v)"

primrec sm_erase :: "('k, 'v) stdmap \<Rightarrow> 'k \<Rightarrow> ('k, 'v) stdmap" where
  "sm_erase [] k = []"
| "sm_erase (e # m) k = (if fst e = k then m else e # sm_erase m k)"

definition sm_put :: "('k::linorder, 'v) stdmap \<Rightarrow> 'k \<Rightarrow> 'v \<Rightarrow> ('k, 'v) stdmap" where
  "sm_put m k v = sm_assign (sm_insert m k v) k v"

text \<open>
  The find-or-insert idiom: look the key up and, when it is missing, insert a freshly built value.
\<close>

definition sm_get_or_create ::
    "('k::linorder, 'v) stdmap \<Rightarrow> 'k \<Rightarrow> 'v \<Rightarrow> ('k, 'v) stdmap \<times> 'v" where
  "sm_get_or_create m k d =
     (case sm_find m k of Some v \<Rightarrow> (m, v) | None \<Rightarrow> (sm_insert m k d, d))"

definition sm_ok :: "('k::linorder, 'v) stdmap \<Rightarrow> bool" where
  "sm_ok m \<longleftrightarrow> sorted_wrt (<) (map fst m)"

subsection \<open>Keys and lookups\<close>

lemma sm_ok_simps [simp]:
  "sm_ok []"
  "sm_ok (e # m) \<longleftrightarrow> (\<forall>x \<in> set m. fst e < fst x) \<and> sm_ok m"
  by (auto simp: sm_ok_def)

lemma sm_ok_distinct: "sm_ok m \<Longrightarrow> distinct (map fst m)"
  by (induction m) auto

lemma sm_find_simps [simp]:
  "sm_find [] k = None"
  "sm_find (e # m) k = (if fst e = k then Some (snd e) else sm_find m k)"
  by (auto simp: sm_find_def)

lemma sm_find_in_set: "sm_find m k = Some v \<Longrightarrow> (k, v) \<in> set m"
  by (simp add: sm_find_def map_of_SomeD)

lemma sm_find_iff: "sm_ok m \<Longrightarrow> sm_find m k = Some v \<longleftrightarrow> (k, v) \<in> set m"
  by (simp add: sm_find_def sm_ok_distinct)

lemma sm_find_None_iff: "sm_find m k = None \<longleftrightarrow> k \<notin> fst ` set m"
  by (simp add: sm_find_def map_of_eq_None_iff)

lemma sm_find_less: "\<forall>x \<in> set m. k < fst x \<Longrightarrow> sm_find m k = None" for k :: "'k::linorder"
  by (induction m) auto

lemma sm_keys_insert: "fst ` set (sm_insert m k v) = insert k (fst ` set m)"
  by (induction m) auto

lemma sm_keys_assign [simp]: "map fst (sm_assign m k v) = map fst m"
  by (induction m) auto

lemma sm_insert_subset: "set (sm_insert m k v) \<subseteq> insert (k, v) (set m)"
  by (induction m) auto

lemma sm_assign_subset: "set (sm_assign m k v) \<subseteq> insert (k, v) (set m)"
  by (induction m) auto

lemma sm_keys_erase_subset: "set (sm_erase m k) \<subseteq> set m"
  by (induction m) auto

lemma sm_find_insert:
  "sm_ok m \<Longrightarrow> sm_find (sm_insert m k v) k' =
     (if k' = k then Some (case sm_find m k of None \<Rightarrow> v | Some w \<Rightarrow> w) else sm_find m k')"
proof (induction m)
  case (Cons e m)
  then have "sm_find m k = None" if "k < fst e"
    using that by (intro sm_find_less) auto
  with Cons show ?case by auto
qed simp

lemma sm_find_assign:
  "sm_find (sm_assign m k v) k' =
     (if k' = k \<and> sm_find m k \<noteq> None then Some v else sm_find m k')"
  by (induction m) auto

lemma sm_find_erase:
  "sm_ok m \<Longrightarrow> sm_find (sm_erase m k) k' = (if k' = k then None else sm_find m k')"
  by (induction m) (auto simp: sm_find_less)

lemma sm_ok_insert: "sm_ok m \<Longrightarrow> sm_ok (sm_insert m k v)"
proof (induction m)
  case (Cons e m)
  have "\<forall>x \<in> set (sm_insert m k v). fst e < fst x" if "fst e < k"
  proof
    fix x assume "x \<in> set (sm_insert m k v)"
    then have "fst x \<in> insert k (fst ` set m)"
      by (metis image_eqI sm_keys_insert)
    with Cons.prems that show "fst e < fst x" by auto
  qed
  with Cons show ?case by (auto simp: not_less_iff_gr_or_eq)
qed simp

lemma sm_ok_assign [simp]: "sm_ok (sm_assign m k v) \<longleftrightarrow> sm_ok m"
  by (simp add: sm_ok_def)

lemma sm_ok_erase: "sm_ok m \<Longrightarrow> sm_ok (sm_erase m k)"
  by (induction m) (auto dest: subsetD [OF sm_keys_erase_subset])

lemma sm_find_put:
  "sm_ok m \<Longrightarrow> sm_find (sm_put m k v) k' = (if k' = k then Some v else sm_find m k')"
  by (auto simp: sm_put_def sm_find_assign sm_find_insert split: option.splits)

lemma sm_ok_put: "sm_ok m \<Longrightarrow> sm_ok (sm_put m k v)"
  by (simp add: sm_put_def sm_ok_insert)

subsection \<open>The contract, and what it gives its clients\<close>

locale ordered_map =
  fixes find :: "'m \<Rightarrow> 'k \<Rightarrow> 'v option"
    and insert_new :: "'m \<Rightarrow> 'k \<Rightarrow> 'v \<Rightarrow> 'm"
    and assign :: "'m \<Rightarrow> 'k \<Rightarrow> 'v \<Rightarrow> 'm"
    and erase :: "'m \<Rightarrow> 'k \<Rightarrow> 'm"
    and invar :: "'m \<Rightarrow> bool"
  assumes find_insert_new: "invar m \<Longrightarrow> find (insert_new m k v) k' =
      (if k' = k then Some (case find m k of None \<Rightarrow> v | Some w \<Rightarrow> w) else find m k')"
    and find_assign: "invar m \<Longrightarrow> find (assign m k v) k' =
      (if k' = k \<and> find m k \<noteq> None then Some v else find m k')"
    and find_erase: "invar m \<Longrightarrow> find (erase m k) k' = (if k' = k then None else find m k')"
    and invar_insert_new: "invar m \<Longrightarrow> invar (insert_new m k v)"
    and invar_assign: "invar m \<Longrightarrow> invar (assign m k v)"
    and invar_erase: "invar m \<Longrightarrow> invar (erase m k)"
begin

lemma insert_keeps: "invar m \<Longrightarrow> find m k = Some w \<Longrightarrow> find (insert_new m k v) = find m"
  by (auto simp: find_insert_new fun_eq_iff)

lemma insert_erase: "invar m \<Longrightarrow> find m k = None \<Longrightarrow> find (erase (insert_new m k v) k) = find m"
  by (auto simp: find_insert_new find_erase invar_insert_new fun_eq_iff)

lemma assign_present:
  "invar m \<Longrightarrow> find m k = Some w \<Longrightarrow> find (assign m k v) = (find m)(k := Some v)"
  by (auto simp: find_assign fun_eq_iff)

text \<open>Find-or-insert followed by a write through the iterator behaves as one map update.\<close>

lemma upsert:
  "invar m \<Longrightarrow> find (assign (insert_new m k d) k v) = (find m)(k := Some v)"
  by (auto simp: find_assign find_insert_new invar_insert_new fun_eq_iff)

end

interpretation sm: ordered_map sm_find sm_insert sm_assign sm_erase "sm_ok :: ('k::linorder, 'v) stdmap \<Rightarrow> bool"
  by unfold_locales
    (simp_all add: sm_find_insert sm_find_assign sm_find_erase sm_ok_insert sm_ok_erase)

lemma sm_get_or_create_ok: "sm_ok m \<Longrightarrow> sm_ok (fst (sm_get_or_create m k d))"
  by (simp add: sm_get_or_create_def sm.invar_insert_new split: option.splits)

lemma sm_get_or_create_find:
  "sm_ok m \<Longrightarrow> sm_find (fst (sm_get_or_create m k d)) =
     (sm_find m)(k := Some (snd (sm_get_or_create m k d)))"
  by (auto simp: sm_get_or_create_def sm.find_insert_new fun_eq_iff split: option.splits)

subsection \<open>Sums over the entries\<close>

lemma sum_list_sm_insert:
  fixes f :: "'k::linorder \<times> 'v \<Rightarrow> int"
  assumes "sm_find m k = None"
  shows "(\<Sum>e\<leftarrow>sm_insert m k v. f e) = (\<Sum>e\<leftarrow>m. f e) + f (k, v)"
  using assms by (induction m) (auto split: if_splits)

lemma sum_list_sm_erase:
  fixes f :: "'k \<times> 'v \<Rightarrow> int"
  assumes "sm_find m k = Some v"
  shows "(\<Sum>e\<leftarrow>sm_erase m k. f e) = (\<Sum>e\<leftarrow>m. f e) - f (k, v)"
  using assms by (induction m) (auto split: if_splits)

lemma sm_erase_absent: "sm_find m k = None \<Longrightarrow> sm_erase m k = m"
  by (induction m) (auto split: if_splits)

end
