(* ===== verification/TypeWrap.thy ===== *)
theory TypeWrap
  imports Prelude
begin

section \<open>Wrapped integers: Ticks and Size (common/type\_wrap.h, price/defs.h)\<close>

text \<open>
  \<open>TypeWrap<int32_t, TTypeDefault>\<close> wraps an \<open>int32_t\<close> whose minimum value
  stands for "invalid". The value is an \<open>int\<close>; the template's second argument (what
  \<open>clear()\<close> writes) is the first argument \<open>dflt\<close> of the operations that clear:
  \<open>False\<close> for \<open>Ticks\<close>, \<open>True\<close> for \<open>Size\<close>. Two families of
  operators exist in the code and differ on invalid operands: \<open>a + b\<close> yields the invalid
  value, \<open>a += b\<close> calls \<open>clear()\<close>, which for \<open>Size\<close> is the valid value 0.
\<close>

type_synonym ticks = int
type_synonym size = int

definition tw_INVALID_VALUE :: int where
  "tw_INVALID_VALUE = INT32_MIN"

definition tw_isValid :: "int \<Rightarrow> bool" where
  "tw_isValid v \<longleftrightarrow> v \<noteq> tw_INVALID_VALUE"

definition tw_min :: "int \<Rightarrow> int \<Rightarrow> int" where
  "tw_min a b = (if b < a then b else a)"

definition tw_max :: "int \<Rightarrow> int \<Rightarrow> int" where
  "tw_max a b = (if a < b then b else a)"

definition tw_clear :: "bool \<Rightarrow> int" where
  "tw_clear dflt = (if dflt then 0 else tw_INVALID_VALUE)"

definition tw_abs :: "int \<Rightarrow> int" where
  "tw_abs v = (if \<not> tw_isValid v then v else if v > 0 then v else s32 (- v))"

definition tw_add :: "int \<Rightarrow> int \<Rightarrow> int" where
  "tw_add a b = (if tw_isValid a \<and> tw_isValid b then s32 (a + b) else tw_INVALID_VALUE)"

definition tw_sub :: "int \<Rightarrow> int \<Rightarrow> int" where
  "tw_sub a b = (if tw_isValid a \<and> tw_isValid b then s32 (a - b) else tw_INVALID_VALUE)"

definition tw_add_eq :: "bool \<Rightarrow> int \<Rightarrow> int \<Rightarrow> int" where
  "tw_add_eq dflt a b = (if tw_isValid a \<and> tw_isValid b then s32 (a + b) else tw_clear dflt)"

definition tw_sub_eq :: "bool \<Rightarrow> int \<Rightarrow> int \<Rightarrow> int" where
  "tw_sub_eq dflt a b = (if tw_isValid a \<and> tw_isValid b then s32 (a - b) else tw_clear dflt)"

definition tw_mul :: "int \<Rightarrow> int \<Rightarrow> int" where
  "tw_mul a b = (if tw_isValid a \<and> tw_isValid b then s32 (a * b) else tw_INVALID_VALUE)"

definition tw_mul_eq :: "bool \<Rightarrow> int \<Rightarrow> int \<Rightarrow> int" where
  "tw_mul_eq dflt a b = (if tw_isValid a \<and> tw_isValid b then s32 (a * b) else tw_clear dflt)"

text \<open>Integer division by zero traps: \<open>None\<close>.\<close>

definition tw_div :: "int \<Rightarrow> int \<Rightarrow> int option" where
  "tw_div a b =
     (if tw_isValid a \<and> tw_isValid b
      then (if b = 0 then None else Some (s32 (c_div a b)))
      else Some tw_INVALID_VALUE)"

definition tw_div_eq :: "bool \<Rightarrow> int \<Rightarrow> int \<Rightarrow> int option" where
  "tw_div_eq dflt a b =
     (if tw_isValid a \<and> tw_isValid b
      then (if b = 0 then None else Some (s32 (c_div a b)))
      else Some (tw_clear dflt))"

definition tw_inc :: "int \<Rightarrow> int" where
  "tw_inc a = (if tw_isValid a then s32 (a + 1) else a)"

definition tw_dec :: "int \<Rightarrow> int" where
  "tw_dec a = (if tw_isValid a then s32 (a - 1) else a)"

definition tw_neg :: "int \<Rightarrow> int" where
  "tw_neg a = (if tw_isValid a then s32 (- 1 * a) else tw_INVALID_VALUE)"

text \<open>The two instances of price/defs.h.\<close>

abbreviation invalid_ticks :: ticks where
  "invalid_ticks \<equiv> tw_clear False"

abbreviation size_add_eq :: "size \<Rightarrow> size \<Rightarrow> size" where
  "size_add_eq \<equiv> tw_add_eq True"

abbreviation size_sub_eq :: "size \<Rightarrow> size \<Rightarrow> size" where
  "size_sub_eq \<equiv> tw_sub_eq True"

lemmas tw_defs [op_defs] =
  tw_abs_def tw_add_def tw_sub_def tw_add_eq_def tw_sub_eq_def tw_mul_def tw_mul_eq_def
  tw_div_def tw_div_eq_def tw_inc_def tw_dec_def tw_neg_def tw_clear_def

subsection \<open>Valid results, exact arithmetic\<close>

text \<open>A value strictly inside the range, so neither overflowing nor the invalid marker.\<close>

definition tw_ok :: "int \<Rightarrow> bool" where
  "tw_ok v \<longleftrightarrow> INT32_MIN < v \<and> v \<le> INT32_MAX"

lemma tw_ok_iff: "tw_ok v \<longleftrightarrow> - 2147483648 < v \<and> v \<le> 2147483647"
  by (simp add: tw_ok_def INT32_MIN_def INT32_MAX_def)

lemma tw_ok_valid [simp, intro]: "tw_ok v \<Longrightarrow> tw_isValid v"
  by (auto simp: tw_ok_iff tw_isValid_def tw_INVALID_VALUE_def INT32_MIN_def)

lemma tw_ok_in_s32 [simp, intro]: "tw_ok v \<Longrightarrow> in_s32 v"
  by (auto simp: tw_ok_iff in_s32_iff)

lemma tw_ok_iff_valid: "in_s32 v \<Longrightarrow> tw_ok v \<longleftrightarrow> tw_isValid v"
  by (auto simp: tw_ok_iff in_s32_iff tw_isValid_def tw_INVALID_VALUE_def INT32_MIN_def)

lemma tw_ok_0 [simp]: "tw_ok 0"
  by (simp add: tw_ok_iff)

lemma tw_invalid_not_valid [simp]: "\<not> tw_isValid tw_INVALID_VALUE"
  by (simp add: tw_isValid_def)

lemma tw_clear_simps [simp]:
  "tw_clear True = 0" "tw_clear False = tw_INVALID_VALUE"
  by (simp_all add: tw_clear_def)

lemma tw_exact [wrap_simps]:
  "tw_ok a \<Longrightarrow> tw_ok b \<Longrightarrow> in_s32 (a + b) \<Longrightarrow> tw_add a b = a + b"
  "tw_ok a \<Longrightarrow> tw_ok b \<Longrightarrow> in_s32 (a - b) \<Longrightarrow> tw_sub a b = a - b"
  "tw_ok a \<Longrightarrow> tw_ok b \<Longrightarrow> in_s32 (a + b) \<Longrightarrow> tw_add_eq d a b = a + b"
  "tw_ok a \<Longrightarrow> tw_ok b \<Longrightarrow> in_s32 (a - b) \<Longrightarrow> tw_sub_eq d a b = a - b"
  "tw_ok a \<Longrightarrow> tw_ok b \<Longrightarrow> in_s32 (a * b) \<Longrightarrow> tw_mul a b = a * b"
  by (simp_all add: tw_defs s32_exact)

lemma in_s32_markers [simp]: "in_s32 tw_INVALID_VALUE" "in_s32 0" "in_s32 (s32 x)"
  by (simp_all add: tw_INVALID_VALUE_def in_s32_def INT32_MIN_def INT32_MAX_def s32_range [unfolded in_s32_def INT32_MIN_def INT32_MAX_def])

lemma tw_result_range:
  "in_s32 (tw_add a b)" "in_s32 (tw_sub a b)" "in_s32 (tw_add_eq d a b)" "in_s32 (tw_sub_eq d a b)"
  by (simp_all add: tw_defs)

text \<open>
  Every binary operator that builds a new value is invalid as soon as one operand is; the
  compound assignments agree with it on valid operands and clear the target otherwise.
\<close>

lemma tw_binop_invalid:
  "\<not> tw_isValid a \<or> \<not> tw_isValid b \<Longrightarrow> \<not> tw_isValid (tw_add a b)"
  "\<not> tw_isValid a \<or> \<not> tw_isValid b \<Longrightarrow> \<not> tw_isValid (tw_sub a b)"
  "\<not> tw_isValid a \<or> \<not> tw_isValid b \<Longrightarrow> \<not> tw_isValid (tw_mul a b)"
  by (auto simp: tw_defs)

lemma tw_add_eq_invalid:
  "\<not> tw_isValid a \<or> \<not> tw_isValid b \<Longrightarrow> tw_add_eq d a b = tw_clear d"
  "\<not> tw_isValid a \<or> \<not> tw_isValid b \<Longrightarrow> tw_sub_eq d a b = tw_clear d"
  by (auto simp: tw_add_eq_def tw_sub_eq_def)

lemma tw_neg_neg: "tw_ok v \<Longrightarrow> tw_neg (tw_neg v) = v"
proof -
  assume v: "tw_ok v"
  then have n: "tw_ok (- v)" by (auto simp: tw_ok_iff)
  with v show ?thesis by (simp add: tw_neg_def wrap_simps)
qed

lemma tw_abs_nonneg: "tw_ok v \<Longrightarrow> 0 \<le> tw_abs v \<and> tw_ok (tw_abs v)"
proof -
  assume v: "tw_ok v"
  then have n: "tw_ok (- v)" by (auto simp: tw_ok_iff)
  with v show ?thesis by (auto simp: tw_abs_def wrap_simps)
qed

subsection \<open>The ordered-group contract that clients of Ticks and Size rely on\<close>

locale exact_counter =
  fixes add :: "int \<Rightarrow> int \<Rightarrow> int"
    and sub :: "int \<Rightarrow> int \<Rightarrow> int"
    and ok :: "int \<Rightarrow> bool"
  assumes add_exact: "ok a \<Longrightarrow> ok b \<Longrightarrow> ok (a + b) \<Longrightarrow> add a b = a + b"
    and sub_exact: "ok a \<Longrightarrow> ok b \<Longrightarrow> ok (a - b) \<Longrightarrow> sub a b = a - b"
    and ok_zero: "ok 0"
begin

lemma add_sub: "ok a \<Longrightarrow> ok b \<Longrightarrow> ok (a + b) \<Longrightarrow> sub (add a b) b = a"
  by (simp add: add_exact sub_exact)

lemma sub_add: "ok a \<Longrightarrow> ok b \<Longrightarrow> ok (a - b) \<Longrightarrow> add (sub a b) b = a"
  by (simp add: add_exact sub_exact)

lemma add_zero: "ok a \<Longrightarrow> add a 0 = a"
  by (simp add: add_exact ok_zero)

lemma sub_self: "ok a \<Longrightarrow> sub a a = 0"
  by (simp add: sub_exact ok_zero)

end

interpretation size_ops: exact_counter size_add_eq size_sub_eq tw_ok
  by unfold_locales (simp_all add: wrap_simps)

interpretation ticks_ops: exact_counter tw_add tw_sub tw_ok
  by unfold_locales (simp_all add: wrap_simps)

end
