(* ===== verification/OrDefs.thy ===== *)
theory OrDefs
  imports StdMap TypeWrap "HOL-Library.Product_Lexorder"
begin

section \<open>Order-routing data: enums and structs (src/xml/channel\_or\_defs.xml, risk\_defs.xml, instrument.xml)\<close>

text \<open>
  The enums and structs that the build expands from the XML descriptions. Every generated enum
  has a value \<open>kUnknown\<close> in front of the listed ones; here it carries the enum's name.
  Struct inheritance (\<open>parent=...\<close>) is record extension. A \<open>double\<close> is a type
  variable \<open>'d\<close>: definitions use only its arithmetic operations, so they do not commit
  to a rounding rule. A \<open>TOrderPtr\<close> is an address (\<open>optr\<close>) into a store of orders,
  so that two references to one order see each other's writes.

  Left out of the records: the callback object \<open>Client\<close> of an order, and the timestamps
  other than \<open>timestamp1\<close>, which no modelled operation reads.
\<close>

type_synonym account_id = u32
type_synonym strategy_id = u32
type_synonym instr_id = u32

text \<open>\<open>TUuidBuffer\<close> compares its two 64-bit halves lexicographically.\<close>

type_synonym uuid = "u64 \<times> u64"
type_synonym order_id = uuid
type_synonym optr = nat

subsection \<open>Enums\<close>

datatype eOrderState =
  kUnknownState | kPending | kWorking | kModifying | kCancelling | kCancelled | kRejected | kFilled

datatype eOrderType =
  kUnknownType | kMarket | kLimit | kSim | kPassive | kPassiveOffset | kModTo | kModAway

datatype eOrderSide = kUnknownSide | kBuy | kSell

datatype eTimeInForce = kUnknownTimeInForce | kDay | kIOC | kGTC

datatype eRejectType = kUnknownRejectType | kInternal | kExternalRej

datatype eRejectSubType =
  kUnknownRejectSubType | kProcessorOrders | kProcessorThrottle | kProcessorRisk | kProcessorPnL
| kProcessorWTP | kStrategyContainer | kProcessorRouter | kConnection | kTranslator | kExchange

datatype eRejectReason =
  kUnknownReason | kSystemError | kInvalidOrderState | kDuplicateOrderId | kAccountNotConfigured
| kAccountDisabled | kSymbolNotConfigured | kSymbolDisabled | kSymbolClipSize | kSymbolMaxPos
| kMaxRealizedDrawdownAccount | kMaxUnrealizedDrawdownAccount | kMaxRealizedLossAccount
| kMaxUnrealizedLossAccount | kMaxTotalLossAccount | kMaxRealizedDrawdownStrategy
| kMaxUnrealizedDrawdownStrategy | kMaxRealizedLossStrategy | kMaxUnrealizedLossStrategy
| kExceededMaxMPS | kWashTradePrevention | kConnectionDown | kType | kSide | kTimeInForce
| kTooLateToCancel | kInvalidOrderSide | kInvalidOrderPrice | kSameOrderPrice | kInvalidOrderQty
| kInvalidOrderSymbol | kMaxModCounter | kMaxModRejCounter | kMaxCxlRejCounter

datatype eLiqInd = kUnknownLiqInd | kAdd | kRem

datatype eFillType = kUnknownFillType | kNormal | kBusted | kExternal

datatype eFillSubType = kUnknownFillSubType | kOutright | kLeg | kSpreadSumm

datatype eInstrType = kUnknownInstrType | kEquity | kFuture | kSpread

datatype eExchange = kUnknownExchange | kCME | kICE

datatype eCommandSubType =
  kUnknownSubType | kLogon | kLogout | kTestRequest | kSeqReset | kExtFill | kOrNew | kOrMod | kOrCxl
| kOrNewAck | kOrNewRej | kOrModAck | kOrModRej | kOrCxlAck | kOrCxlRej | kOrFill | kList | kStatus
| kOpenOrders | kSub | kUnsub | kAlert | kParams | kFillDropCopy | kPosUpdateDropCopy
| kUpdateAccount | kUpdateAccountInstrument | kSettlement

subsection \<open>Instruments, accounts, rejects\<close>

record 'd fees =
  fee_exLiqAdd :: 'd
  fee_exLiqRem :: 'd
  fee_exClearing :: 'd
  fee_brokerage :: 'd
  fee_perTrade :: 'd

text \<open>The fields of an instrument that the modelled operations read.\<close>

record 'd instrument =
  ins_keyId :: instr_id
  ins_instrType :: eInstrType
  ins_contractSize :: 'd
  ins_tickNumerator :: u32
  ins_tickDenominator :: u32
  ins_symbol :: string
  ins_displayName :: string
  ins_exchange :: eExchange
  ins_displayFormat :: 'd
  ins_tickValue :: 'd
  ins_numberOfLegs :: u32
  ins_precision :: int
  ins_fees :: "'d fees"

definition fees_clear :: "('d::zero) fees" where
  "fees_clear = \<lparr>fee_exLiqAdd = 0, fee_exLiqRem = 0, fee_exClearing = 0, fee_brokerage = 0, fee_perTrade = 0\<rparr>"

definition instrument_clear :: "('d::zero) instrument" where
  "instrument_clear = \<lparr>ins_keyId = 0, ins_instrType = kUnknownInstrType, ins_contractSize = 0,
     ins_tickNumerator = 0, ins_tickDenominator = 0, ins_symbol = '''', ins_displayName = '''',
     ins_exchange = kUnknownExchange, ins_displayFormat = 0, ins_tickValue = 0, ins_numberOfLegs = 0, ins_precision = 0,
     ins_fees = fees_clear\<rparr>"

text \<open>The generated \<open>isValid\<close>: the valid ranges of instrument.xml.\<close>

definition ins_isValid :: "('d::{zero,ord}) instrument \<Rightarrow> bool" where
  "ins_isValid i \<longleftrightarrow> ins_contractSize i > 0 \<and> ins_tickNumerator i \<noteq> 0 \<and> ins_tickDenominator i \<noteq> 0 \<and>
     ins_displayFormat i \<ge> 0 \<and> ins_tickValue i \<ge> 0 \<and> ins_numberOfLegs i < 5 \<and>
     (ins_instrType i = kSpread \<longrightarrow> ins_numberOfLegs i > 1)"

record reject =
  rej_rejType :: eRejectType
  rej_rejSubType :: eRejectSubType
  rej_rejReason :: eRejectReason
  rej_text :: string

definition no_reject :: reject where
  "no_reject = \<lparr>rej_rejType = kUnknownRejectType, rej_rejSubType = kUnknownRejectSubType,
     rej_rejReason = kUnknownReason, rej_text = ''''\<rparr>"

text \<open>\<open>getRej\<close> of every processor: an internal reject of that processor.\<close>

definition internal_rej :: "eRejectSubType \<Rightarrow> eRejectReason \<Rightarrow> reject" where
  "internal_rej t r = no_reject\<lparr>rej_rejType := kInternal, rej_rejSubType := t, rej_rejReason := r\<rparr>"

record 'd account =
  acc_id :: account_id
  acc_name :: string
  acc_maxMPSNew :: u32
  acc_maxMPSMod :: u32
  acc_maxMPSCxl :: u32
  acc_maxRealizedDrawdown :: 'd
  acc_maxUnrealizedDrawdown :: 'd
  acc_maxRealizedLoss :: 'd
  acc_maxUnrealizedLoss :: 'd
  acc_maxTotalLoss :: 'd
  acc_tradeEnabled :: bool

record 'd strategy_limits =
  str_id :: strategy_id
  str_name :: string
  str_accountId :: account_id
  str_maxRealizedDrawdown :: 'd
  str_maxUnrealizedDrawdown :: 'd
  str_maxRealizedLoss :: 'd
  str_maxUnrealizedLoss :: 'd
  str_lastStarted :: string
  str_tradeEnabled :: bool

record account_risk_params =
  arp_accountId :: account_id
  arp_displayName :: string
  arp_exchange :: eExchange
  arp_clipSize :: u32
  arp_maxPos :: u32
  arp_tradeEnabled :: bool

record throttle_counters =
  tc_counterMPSNew :: u32
  tc_counterMPSMod :: u32
  tc_counterMPSCxl :: u32

subsection \<open>Orders and fills\<close>

record messaging =
  ms_newMsgs :: u32
  ms_modMsgs :: u32
  ms_cxlMsgs :: u32
  ms_totalVolume :: u32

record messaging_internal = messaging +
  mi_newMPS :: u32
  mi_modMPS :: u32
  mi_cxlMPS :: u32

record messaging_for_exchange = messaging +
  mx_symbol :: string
  mx_exchange :: eExchange
  mx_accountId :: account_id
  mx_messaging_YYYYMMDD :: string

record 'd order_wire = messaging_internal +
  ord_state :: eOrderState
  ord_type :: eOrderType
  ord_side :: eOrderSide
  ord_timeInForce :: eTimeInForce
  ord_action :: eCommandSubType
  ord_accountId :: account_id
  ord_strategyId :: strategy_id
  ord_instrumentId :: instr_id
  ord_orderId :: order_id
  ord_qty :: size
  ord_cumQty :: size
  ord_price :: ticks
  ord_newPrice :: ticks
  ord_exPrice :: 'd
  ord_exNewPrice :: 'd
  ord_manual :: bool
  ord_cancelOnAck :: bool
  ord_stopLoss :: bool
  ord_modCounter :: u32
  ord_modRejCounter :: u32
  ord_cxlRejCounter :: u32

record 'd order = "'d order_wire" +
  ord_timestamp1 :: int
  ord_origClOrderId :: string
  ord_clOrderId :: string
  ord_corrClOrderId :: string
  ord_exOrderId :: string
  ord_exSessionName :: string
  ord_stratReason :: string
  ord_stratReasonMod :: string
  ord_stratReasonCxl :: string
  ord_memo :: string
  ord_instrument :: "'d instrument option"

record 'd fill_wire = messaging +
  fl_type :: eFillType
  fl_subType :: eFillSubType
  fl_accountId :: account_id
  fl_strategyId :: strategy_id
  fl_instrumentId :: instr_id
  fl_orderId :: order_id
  fl_fillId :: uuid
  fl_side :: eOrderSide
  fl_qty :: size
  fl_posAccount :: size
  fl_posStrategy :: size
  fl_price :: ticks
  fl_exPrice :: 'd
  fl_avgPrice :: 'd
  fl_liqInd :: eLiqInd
  fl_pickOff :: bool

record 'd fill = "'d fill_wire" +
  fl_exchangeFillId :: string
  fl_order :: "optr option"

record 'd pos_update =
  pu_accountId :: account_id
  pu_strategyId :: strategy_id
  pu_displayName :: string
  pu_exchange :: eExchange
  pu_pos :: int
  pu_avgPrice :: 'd

record instr_open_orders_pos =
  iop_instrumentId :: instr_id
  iop_displayName :: string
  iop_bids :: size
  iop_asks :: size
  iop_pos :: int

text \<open>
  \<open>AccountInstrOpenOrdersPos\<close> and \<open>StrategyInstrOpenOrdersPos\<close> add one owner
  field each: the account id and the strategy id.
\<close>

record owned_open_orders_pos = instr_open_orders_pos +
  oop_ownerId :: u32

text \<open>A default-constructed order: every field as its type's constructor leaves it.\<close>

definition order_default :: "('d::zero) order" where
  "order_default = \<lparr>ms_newMsgs = 0, ms_modMsgs = 0, ms_cxlMsgs = 0, ms_totalVolume = 0,
     mi_newMPS = 0, mi_modMPS = 0, mi_cxlMPS = 0,
     ord_state = kUnknownState, ord_type = kUnknownType, ord_side = kUnknownSide,
     ord_timeInForce = kUnknownTimeInForce, ord_action = kUnknownSubType,
     ord_accountId = 0, ord_strategyId = 0, ord_instrumentId = 0, ord_orderId = (0, 0),
     ord_qty = tw_clear True, ord_cumQty = tw_clear True,
     ord_price = invalid_ticks, ord_newPrice = invalid_ticks,
     ord_exPrice = 0, ord_exNewPrice = 0, ord_manual = False, ord_cancelOnAck = False,
     ord_stopLoss = False, ord_modCounter = 0, ord_modRejCounter = 0, ord_cxlRejCounter = 0,
     ord_timestamp1 = 0, ord_origClOrderId = '''', ord_clOrderId = '''', ord_corrClOrderId = '''',
     ord_exOrderId = '''', ord_exSessionName = '''', ord_stratReason = '''',
     ord_stratReasonMod = '''', ord_stratReasonCxl = '''', ord_memo = '''',
     ord_instrument = None\<rparr>"

definition fill_default :: "('d::zero) fill" where
  "fill_default = \<lparr>ms_newMsgs = 0, ms_modMsgs = 0, ms_cxlMsgs = 0, ms_totalVolume = 0,
     fl_type = kUnknownFillType, fl_subType = kUnknownFillSubType,
     fl_accountId = 0, fl_strategyId = 0, fl_instrumentId = 0, fl_orderId = (0, 0),
     fl_fillId = (0, 0), fl_side = kUnknownSide, fl_qty = tw_clear True,
     fl_posAccount = tw_clear True, fl_posStrategy = tw_clear True, fl_price = invalid_ticks,
     fl_exPrice = 0, fl_avgPrice = 0, fl_liqInd = kUnknownLiqInd, fl_pickOff = False,
     fl_exchangeFillId = '''', fl_order = None\<rparr>"

text \<open>\<open>TUuidBuffer\<close>: validity, and the copy assignment, which clears its target first.\<close>

definition uuid_isValid :: "uuid \<Rightarrow> bool" where
  "uuid_isValid u \<longleftrightarrow> \<not> (fst u = 0 \<and> snd u = 0)"

definition uuid_assign :: "bool \<Rightarrow> uuid \<Rightarrow> uuid" where
  "uuid_assign same_object rhs = (if \<not> same_object then rhs else (0, 0))"

end
