(* ===== verification/OrdersTable.thy ===== *)
theory OrdersTable
  imports OrDefs
begin

section \<open>The table of orders by id (channel\_or/orders\_table.h)\<close>

text \<open>
  \<open>OrderTable\<close> maps an order id to a pointer. \<open>add\<close> and \<open>rem\<close> report with a
  flag whether they changed the table. The filters are predicates on the order a pointer refers
  to, read through the store \<open>h\<close>; \<open>get(filter)\<close> collects the pointers in key order.
\<close>

type_synonym order_table = "(order_id, optr) stdmap"
type_synonym 'd order_heap = "optr \<Rightarrow> 'd order"

definition ot_exist :: "order_table \<Rightarrow> order_id \<Rightarrow> bool" where
  "ot_exist t k \<longleftrightarrow> sm_find t k \<noteq> None"

definition ot_add :: "order_table \<Rightarrow> order_id \<Rightarrow> optr \<Rightarrow> bool \<times> order_table" where
  "ot_add t k p = (if ot_exist t k then (False, t) else (True, sm_insert t k p))"

definition ot_rem :: "order_table \<Rightarrow> order_id \<Rightarrow> bool \<times> order_table" where
  "ot_rem t k = (case sm_find t k of None \<Rightarrow> (False, t) | Some _ \<Rightarrow> (True, sm_erase t k))"

definition ot_get :: "order_table \<Rightarrow> order_id \<Rightarrow> optr option" where
  "ot_get t k = sm_find t k"

primrec orders_filter :: "('d order \<Rightarrow> bool) \<Rightarrow> 'd order_heap \<Rightarrow> optr list \<Rightarrow> order_table \<Rightarrow> optr list" where
  "orders_filter f h acc [] = acc"
| "orders_filter f h acc (e # t) =
     orders_filter f h (if f (h (snd e)) then acc @ [snd e] else acc) t"

definition ot_get_filter :: "('d order \<Rightarrow> bool) \<Rightarrow> 'd order_heap \<Rightarrow> order_table \<Rightarrow> optr list" where
  "ot_get_filter f h t = orders_filter f h [] t"

definition FilterNull :: "'d order \<Rightarrow> bool" where
  "FilterNull ord = True"

definition FilterAccountId :: "account_id \<Rightarrow> 'd order \<Rightarrow> bool" where
  "FilterAccountId v ord \<longleftrightarrow> v = ord_accountId ord"

definition FilterAccountIdStrategyId :: "account_id \<Rightarrow> strategy_id \<Rightarrow> 'd order \<Rightarrow> bool" where
  "FilterAccountIdStrategyId a v ord \<longleftrightarrow> FilterAccountId a ord \<and> v = ord_strategyId ord"

definition FilterAccountIdStrategyIdInstr ::
    "account_id \<Rightarrow> strategy_id \<Rightarrow> instr_id \<Rightarrow> 'd order \<Rightarrow> bool" where
  "FilterAccountIdStrategyIdInstr a st v ord \<longleftrightarrow>
     FilterAccountIdStrategyId a st ord \<and> v = ord_instrumentId ord"

definition FilterInstrumentId :: "instr_id \<Rightarrow> 'd order \<Rightarrow> bool" where
  "FilterInstrumentId v ord \<longleftrightarrow> v = ord_instrumentId ord"

lemmas filter_defs [op_defs] =
  FilterNull_def FilterAccountId_def FilterAccountIdStrategyId_def
  FilterAccountIdStrategyIdInstr_def FilterInstrumentId_def

subsection \<open>Lemmas\<close>

lemma orders_filter_eq: "orders_filter f h acc t = acc @ filter (f \<circ> h) (map snd t)"
  by (induction t arbitrary: acc) auto

lemma ot_get_filter_eq: "ot_get_filter f h t = filter (f \<circ> h) (map snd t)"
  by (simp add: ot_get_filter_def orders_filter_eq)

lemma ot_add_iff: "fst (ot_add t k p) \<longleftrightarrow> sm_find t k = None"
  by (simp add: ot_add_def ot_exist_def)

lemma ot_add_table: "snd (ot_add t k p) = (if sm_find t k = None then sm_insert t k p else t)"
  by (auto simp: ot_add_def ot_exist_def)

lemma ot_rem_table: "snd (ot_rem t k) = sm_erase t k"
  by (simp add: ot_rem_def sm_erase_absent split: option.splits)

lemma ot_rem_iff: "fst (ot_rem t k) \<longleftrightarrow> sm_find t k \<noteq> None"
  by (auto simp: ot_rem_def split: option.splits)

text \<open>
  The table as its clients see it: \<open>add\<close> never overwrites, an added order is found until
  it is removed, and removing what was added restores every lookup.
\<close>

locale id_table =
  fixes get :: "'t \<Rightarrow> 'k \<Rightarrow> 'p option"
    and add :: "'t \<Rightarrow> 'k \<Rightarrow> 'p \<Rightarrow> bool \<times> 't"
    and rem :: "'t \<Rightarrow> 'k \<Rightarrow> bool \<times> 't"
    and invar :: "'t \<Rightarrow> bool"
  assumes add_flag: "fst (add t k p) \<longleftrightarrow> get t k = None"
    and add_get: "invar t \<Longrightarrow> get t k = None \<Longrightarrow> get (snd (add t k p)) = (get t)(k := Some p)"
    and add_refused: "get t k \<noteq> None \<Longrightarrow> snd (add t k p) = t"
    and rem_flag: "fst (rem t k) \<longleftrightarrow> get t k \<noteq> None"
    and rem_get: "invar t \<Longrightarrow> get (snd (rem t k)) = (get t)(k := None)"
    and add_invar: "invar t \<Longrightarrow> invar (snd (add t k p))"
    and rem_invar: "invar t \<Longrightarrow> invar (snd (rem t k))"
begin

lemma add_never_overwrites: "invar t \<Longrightarrow> get t k = Some q \<Longrightarrow> get (snd (add t k' p)) k = Some q"
  by (cases "get t k' = None") (auto simp: add_get add_refused)

lemma add_rem_roundtrip: "invar t \<Longrightarrow> get t k = None \<Longrightarrow> get (snd (rem (snd (add t k p)) k)) = get t"
  by (simp add: add_get rem_get add_invar fun_eq_iff)

lemma rem_twice: "invar t \<Longrightarrow> \<not> fst (rem (snd (rem t k)) k)"
  by (simp add: rem_flag rem_get)

end

interpretation ot: id_table ot_get ot_add ot_rem sm_ok
proof unfold_locales
  show "fst (ot_add t k p) \<longleftrightarrow> ot_get t k = None" for t k p
    by (simp add: ot_add_iff ot_get_def)
  show "ot_get (snd (ot_add t k p)) = (ot_get t)(k := Some p)"
    if "sm_ok t" "ot_get t k = None" for t k p
    using that by (auto simp: ot_add_table ot_get_def sm.find_insert_new fun_eq_iff)
  show "snd (ot_add t k p) = t" if "ot_get t k \<noteq> None" for t k p
    using that by (auto simp: ot_add_table ot_get_def)
  show "fst (ot_rem t k) \<longleftrightarrow> ot_get t k \<noteq> None" for t k
    by (simp add: ot_rem_iff ot_get_def)
  show "ot_get (snd (ot_rem t k)) = (ot_get t)(k := None)" if "sm_ok t" for t k
    using that by (auto simp: ot_rem_table ot_get_def sm.find_erase fun_eq_iff)
  show "sm_ok (snd (ot_add t k p))" if "sm_ok t" for t k p
    using that by (simp add: ot_add_table sm.invar_insert_new)
  show "sm_ok (snd (ot_rem t k))" if "sm_ok t" for t k
    using that by (simp add: ot_rem_table sm.invar_erase)
qed

end
