(* ===== verification/ProcessorOrders.thy ===== *)
theory ProcessorOrders
  imports OrdersTable
begin

section \<open>ProcessorOrders: the order state machine and the open-order counters (channel\_or/processor\_orders.cpp)\<close>

text \<open>
  The processor owns the order table and, per account and per strategy, the open bids, the open
  asks and the position of every instrument. Its state is a record over a store of orders;
  operations take the state and the order's address and return the new state, with
  \<open>Some rej\<close> where the code returns \<open>false\<close> and fills in its reject argument.
  Looking an instrument up goes through \<open>instr_lookup\<close>, the two queries of the instrument
  manager.
\<close>

record 'd instr_lookup =
  il_getByKeyId :: "instr_id \<Rightarrow> 'd instrument option"
  il_getByDisplayName :: "string \<Rightarrow> 'd instrument option"

type_synonym oop_map = "(u32, (instr_id, owned_open_orders_pos) stdmap) stdmap"

record 'd po_state =
  po_heap :: "'d order_heap"
  po_table :: order_table
  po_account :: oop_map
  po_strategy :: oop_map
  po_stuck_timeout :: u32

definition MAX_MOD_COUNTER :: u32 where "MAX_MOD_COUNTER = 5"
definition MAX_MOD_REJ_COUNTER :: u32 where "MAX_MOD_REJ_COUNTER = 5"
definition MAX_CXL_REJ_COUNTER :: u32 where "MAX_CXL_REJ_COUNTER = 5"

abbreviation po_order :: "'d po_state \<Rightarrow> optr \<Rightarrow> 'd order" where
  "po_order s p \<equiv> po_heap s p"

definition po_set :: "optr \<Rightarrow> ('d order \<Rightarrow> 'd order) \<Rightarrow> 'd po_state \<Rightarrow> 'd po_state" where
  "po_set p f s = s\<lparr>po_heap := (po_heap s)(p := f (po_heap s p))\<rparr>"

definition po_getRej :: "eRejectReason \<Rightarrow> reject" where
  "po_getRej r = internal_rej kProcessorOrders r"

definition po_clear :: "'d po_state \<Rightarrow> 'd po_state" where
  "po_clear s = s\<lparr>po_table := [], po_account := [], po_strategy := []\<rparr>"

definition po_stop :: "'d po_state \<Rightarrow> 'd po_state" where
  "po_stop s = s\<lparr>po_table := [], po_account := []\<rparr>"

subsection \<open>Queries\<close>

definition po_get :: "'d po_state \<Rightarrow> order_id \<Rightarrow> optr option" where
  "po_get s k = ot_get (po_table s) k"

definition po_getAll :: "'d po_state \<Rightarrow> optr list" where
  "po_getAll s = ot_get_filter FilterNull (po_heap s) (po_table s)"

definition po_getAllForAccount :: "'d po_state \<Rightarrow> account_id \<Rightarrow> optr list" where
  "po_getAllForAccount s x = ot_get_filter (FilterAccountId x) (po_heap s) (po_table s)"

definition po_getAllForAccountStrategy :: "'d po_state \<Rightarrow> account_id \<Rightarrow> strategy_id \<Rightarrow> optr list" where
  "po_getAllForAccountStrategy s x y =
     ot_get_filter (FilterAccountIdStrategyId x y) (po_heap s) (po_table s)"

definition po_getAllForAccountStrategyInstr ::
    "'d po_state \<Rightarrow> account_id \<Rightarrow> strategy_id \<Rightarrow> instr_id \<Rightarrow> optr list" where
  "po_getAllForAccountStrategyInstr s x y z =
     ot_get_filter (FilterAccountIdStrategyIdInstr x y z) (po_heap s) (po_table s)"

definition po_getAllForInstrument :: "'d po_state \<Rightarrow> instr_id \<Rightarrow> optr list" where
  "po_getAllForInstrument s x = ot_get_filter (FilterInstrumentId x) (po_heap s) (po_table s)"

fun isOrderLive :: "'d order option \<Rightarrow> bool" where
  "isOrderLive None = False"
| "isOrderLive (Some ord) =
     (case ord_state ord of
        kUnknownState \<Rightarrow> False | kRejected \<Rightarrow> False | kCancelled \<Rightarrow> False | kFilled \<Rightarrow> False
      | _ \<Rightarrow> True)"

subsection \<open>Open-order and position counters\<close>

definition oop_fresh :: "'d instr_lookup \<Rightarrow> u32 \<Rightarrow> instr_id \<Rightarrow> owned_open_orders_pos" where
  "oop_fresh il x y =
     \<lparr>iop_instrumentId = y,
      iop_displayName = (case il_getByKeyId il y of None \<Rightarrow> '''' | Some i \<Rightarrow> ins_displayName i),
      iop_bids = 0, iop_asks = 0, iop_pos = 0, oop_ownerId = x\<rparr>"

definition oop_getAll :: "oop_map \<Rightarrow> u32 \<Rightarrow> oop_map \<times> (instr_id, owned_open_orders_pos) stdmap" where
  "oop_getAll m x = sm_get_or_create m x []"

definition oop_get :: "'d instr_lookup \<Rightarrow> oop_map \<Rightarrow> u32 \<Rightarrow> instr_id \<Rightarrow> oop_map \<times> owned_open_orders_pos" where
  "oop_get il m x y =
     (let (m1, inner) = oop_getAll m x;
          (inner1, v) = sm_get_or_create inner y (oop_fresh il x y)
      in (sm_assign m1 x inner1, v))"

text \<open>A write through the reference that \<open>oop_get\<close> returned.\<close>

definition oop_write :: "oop_map \<Rightarrow> u32 \<Rightarrow> instr_id \<Rightarrow> owned_open_orders_pos \<Rightarrow> oop_map" where
  "oop_write m x y v =
     (case sm_find m x of None \<Rightarrow> m | Some inner \<Rightarrow> sm_assign m x (sm_assign inner y v))"

definition oop_update ::
    "'d instr_lookup \<Rightarrow> oop_map \<Rightarrow> u32 \<Rightarrow> instr_id \<Rightarrow> (owned_open_orders_pos \<Rightarrow> owned_open_orders_pos) \<Rightarrow> oop_map" where
  "oop_update il m x y f = (let (m1, v) = oop_get il m x y in oop_write m1 x y (f v))"

definition po_getAllInstrOpenOrdersPosForAccount ::
    "'d po_state \<Rightarrow> account_id \<Rightarrow> 'd po_state \<times> (instr_id, owned_open_orders_pos) stdmap" where
  "po_getAllInstrOpenOrdersPosForAccount s x =
     (let (m, inner) = oop_getAll (po_account s) x in (s\<lparr>po_account := m\<rparr>, inner))"

definition po_getInstrOpenOrdersPosForAccountInstr ::
    "'d instr_lookup \<Rightarrow> 'd po_state \<Rightarrow> account_id \<Rightarrow> instr_id \<Rightarrow> 'd po_state \<times> owned_open_orders_pos" where
  "po_getInstrOpenOrdersPosForAccountInstr il s x y =
     (let (m, v) = oop_get il (po_account s) x y in (s\<lparr>po_account := m\<rparr>, v))"

definition po_getAllInstrOpenOrdersPosForStrategy ::
    "'d po_state \<Rightarrow> strategy_id \<Rightarrow> 'd po_state \<times> (instr_id, owned_open_orders_pos) stdmap" where
  "po_getAllInstrOpenOrdersPosForStrategy s x =
     (let (m, inner) = oop_getAll (po_strategy s) x in (s\<lparr>po_strategy := m\<rparr>, inner))"

definition po_getInstrOpenOrdersPosForStrategyInstr ::
    "'d instr_lookup \<Rightarrow> 'd po_state \<Rightarrow> strategy_id \<Rightarrow> instr_id \<Rightarrow> 'd po_state \<times> owned_open_orders_pos" where
  "po_getInstrOpenOrdersPosForStrategyInstr il s x y =
     (let (m, v) = oop_get il (po_strategy s) x y in (s\<lparr>po_strategy := m\<rparr>, v))"

text \<open>The change one order makes to a counter entry, added or taken back.\<close>

definition count_open :: "'d order \<Rightarrow> int \<Rightarrow> owned_open_orders_pos \<Rightarrow> owned_open_orders_pos" where
  "count_open ord mult v =
     (let delta = tw_sub (ord_qty ord) (ord_cumQty ord) in
      case ord_side ord of
        kBuy \<Rightarrow> v\<lparr>iop_bids := (if 1 = mult then size_add_eq (iop_bids v) delta
                                  else size_sub_eq (iop_bids v) delta)\<rparr>
      | kSell \<Rightarrow> v\<lparr>iop_asks := (if 1 = mult then size_add_eq (iop_asks v) delta
                                   else size_sub_eq (iop_asks v) delta)\<rparr>
      | _ \<Rightarrow> v)"

definition po_changeOpenOrdersCounts ::
    "'d instr_lookup \<Rightarrow> optr \<Rightarrow> int \<Rightarrow> 'd po_state \<Rightarrow> 'd po_state" where
  "po_changeOpenOrdersCounts il p mult s =
     (let ord = po_order s p in
      s\<lparr>po_account := oop_update il (po_account s) (ord_accountId ord) (ord_instrumentId ord) (count_open ord mult),
        po_strategy := oop_update il (po_strategy s) (ord_strategyId ord) (ord_instrumentId ord) (count_open ord mult)\<rparr>)"

definition count_fill :: "'d fill \<Rightarrow> owned_open_orders_pos \<Rightarrow> owned_open_orders_pos" where
  "count_fill f v =
     (let q = fl_qty f in
      case fl_side f of
        kBuy \<Rightarrow>
          (case fl_type f of
             kNormal \<Rightarrow> v\<lparr>iop_bids := size_sub_eq (iop_bids v) q, iop_pos := s32 (iop_pos v + q)\<rparr>
           | kExternal \<Rightarrow> v\<lparr>iop_pos := s32 (iop_pos v + q)\<rparr>
           | kBusted \<Rightarrow>
               (let v1 = v\<lparr>iop_pos := s32 (iop_pos v - q)\<rparr> in
                if fl_order f \<noteq> None then v1\<lparr>iop_bids := size_add_eq (iop_bids v1) q\<rparr> else v1)
           | _ \<Rightarrow> v)
      | kSell \<Rightarrow>
          (case fl_type f of
             kNormal \<Rightarrow> v\<lparr>iop_asks := size_sub_eq (iop_asks v) q, iop_pos := s32 (iop_pos v - q)\<rparr>
           | kExternal \<Rightarrow> v\<lparr>iop_pos := s32 (iop_pos v - q)\<rparr>
           | kBusted \<Rightarrow>
               (let v1 = v\<lparr>iop_pos := s32 (iop_pos v + q)\<rparr> in
                if fl_order f \<noteq> None then v1\<lparr>iop_asks := size_add_eq (iop_asks v1) q\<rparr> else v1)
           | _ \<Rightarrow> v)
      | _ \<Rightarrow> v)"

definition po_changePosCounts ::
    "'d instr_lookup \<Rightarrow> 'd fill \<Rightarrow> 'd po_state \<Rightarrow> 'd po_state \<times> 'd fill" where
  "po_changePosCounts il f s =
     (let a = oop_update il (po_account s) (fl_accountId f) (fl_instrumentId f) (count_fill f);
          st = oop_update il (po_strategy s) (fl_strategyId f) (fl_instrumentId f) (count_fill f);
          v = snd (oop_get il a (fl_accountId f) (fl_instrumentId f))
      in (s\<lparr>po_account := a, po_strategy := st\<rparr>, f\<lparr>fl_posAccount := iop_pos v\<rparr>))"

definition po_remove :: "'d instr_lookup \<Rightarrow> optr \<Rightarrow> 'd po_state \<Rightarrow> 'd po_state" where
  "po_remove il p s =
     (let s1 = po_changeOpenOrdersCounts il p (- 1) s
      in s1\<lparr>po_table := snd (ot_rem (po_table s1) (ord_orderId (po_order s1 p)))\<rparr>)"

subsection \<open>Responses from the exchange side (ProcessorIn)\<close>

definition po_onNewAck :: "optr \<Rightarrow> 'd po_state \<Rightarrow> 'd po_state" where
  "po_onNewAck p s =
     (let s1 = po_set p (\<lambda>ord. ord\<lparr>ord_action := kOrNewAck\<rparr>) s in
      if ord_state (po_order s1 p) \<noteq> kPending then s1
      else po_set p (\<lambda>ord. ord\<lparr>ord_state := kWorking\<rparr>) s1)"

definition po_onNewRej :: "'d instr_lookup \<Rightarrow> optr \<Rightarrow> reject \<Rightarrow> 'd po_state \<Rightarrow> 'd po_state" where
  "po_onNewRej il p rej s =
     (let s1 = po_set p (\<lambda>ord. ord\<lparr>ord_action := kOrNewRej\<rparr>) s in
      if ord_state (po_order s1 p) \<noteq> kPending \<and> ord_state (po_order s1 p) \<noteq> kUnknownState then s1
      else po_remove il p (po_set p (\<lambda>ord. ord\<lparr>ord_state := kRejected\<rparr>) s1))"

definition po_onModAck :: "optr \<Rightarrow> 'd po_state \<Rightarrow> 'd po_state" where
  "po_onModAck p s = po_set p (\<lambda>ord. ord\<lparr>ord_action := kOrModAck, ord_modRejCounter := 0\<rparr>) s"

definition po_onModRej :: "optr \<Rightarrow> reject \<Rightarrow> 'd po_state \<Rightarrow> 'd po_state" where
  "po_onModRej p rej s =
     po_set p (\<lambda>ord. ord\<lparr>ord_action := kOrModRej, ord_modRejCounter := ord_modRejCounter ord + 1\<rparr>) s"

definition po_doOnModPost :: "optr \<Rightarrow> bool \<Rightarrow> ('d::zero) po_state \<Rightarrow> 'd po_state" where
  "po_doOnModPost p updatePrice s =
     (if ord_state (po_order s p) \<noteq> kModifying then s
      else
        (let s1 = po_set p (\<lambda>ord. ord\<lparr>ord_modCounter := ord_modCounter ord - 1\<rparr>) s;
             s2 = (if 0 = ord_modCounter (po_order s1 p)
                   then po_set p (\<lambda>ord. ord\<lparr>ord_state := kWorking\<rparr>) s1 else s1);
             s3 = (if updatePrice
                   then po_set p (\<lambda>ord. ord\<lparr>ord_price := ord_newPrice ord, ord_exPrice := ord_exNewPrice ord\<rparr>) s2
                   else s2)
         in po_set p (\<lambda>ord. ord\<lparr>ord_newPrice := invalid_ticks, ord_exNewPrice := 0\<rparr>) s3))"

definition po_onModAckPost :: "optr \<Rightarrow> ('d::zero) po_state \<Rightarrow> 'd po_state" where
  "po_onModAckPost p s = po_doOnModPost p True s"

definition po_onModRejPost :: "optr \<Rightarrow> reject \<Rightarrow> ('d::zero) po_state \<Rightarrow> 'd po_state" where
  "po_onModRejPost p rej s =
     (if kInternal = rej_rejType rej \<and> kProcessorOrders = rej_rejSubType rej
      then po_set p (\<lambda>ord. ord\<lparr>ord_newPrice := invalid_ticks, ord_exNewPrice := 0\<rparr>) s
      else po_doOnModPost p False s)"

definition po_onCxlAck :: "'d instr_lookup \<Rightarrow> optr \<Rightarrow> 'd po_state \<Rightarrow> 'd po_state" where
  "po_onCxlAck il p s =
     po_remove il p (po_set p (\<lambda>ord. ord\<lparr>ord_action := kOrCxlAck, ord_state := kCancelled\<rparr>) s)"

definition po_onCxlRej :: "optr \<Rightarrow> reject \<Rightarrow> 'd po_state \<Rightarrow> 'd po_state" where
  "po_onCxlRej p rej s =
     (let s1 = po_set p (\<lambda>ord. ord\<lparr>ord_action := kOrCxlRej, ord_cxlRejCounter := ord_cxlRejCounter ord + 1\<rparr>) s in
      if kCancelling \<noteq> ord_state (po_order s1 p) then s1
      else po_set p (\<lambda>ord. ord\<lparr>ord_state := kWorking\<rparr>) s1)"

definition po_onFill :: "'d instr_lookup \<Rightarrow> 'd fill \<Rightarrow> 'd po_state \<Rightarrow> 'd po_state \<times> 'd fill" where
  "po_onFill il f s =
     (case fl_order f of
        None \<Rightarrow> if kExternal \<noteq> fl_type f then (s, f) else po_changePosCounts il f s
      | Some p \<Rightarrow>
          (case fl_type f of
             kNormal \<Rightarrow>
               if kFilled = ord_state (po_order s p) then (s, f)
               else
                 (let s1 = po_set p (\<lambda>ord. ord\<lparr>ord_cumQty := size_add_eq (ord_cumQty ord) (fl_qty f)\<rparr>) s;
                      s2 = (if ord_qty (po_order s1 p) \<le> ord_cumQty (po_order s1 p)
                            then po_remove il p (po_set p (\<lambda>ord. ord\<lparr>ord_state := kFilled\<rparr>) s1)
                            else s1)
                  in po_changePosCounts il f s2)
           | kBusted \<Rightarrow>
               (let s1 = po_set p (\<lambda>ord. ord\<lparr>ord_cumQty := size_sub_eq (ord_cumQty ord) (fl_qty f)\<rparr>) s;
                    s2 = (if kFilled = ord_state (po_order s1 p)
                          then po_set p (\<lambda>ord. ord\<lparr>ord_state := kWorking\<rparr>) s1 else s1)
                in po_changePosCounts il f s2)
           | _ \<Rightarrow> po_changePosCounts il f s))"

definition po_onRebuildOrderRej :: "'d instr_lookup \<Rightarrow> optr \<Rightarrow> reject \<Rightarrow> 'd po_state \<Rightarrow> 'd po_state" where
  "po_onRebuildOrderRej il p rej s = po_remove il p s"

subsection \<open>Requests from the strategy side (ProcessorOut)\<close>

definition po_sendNew :: "'d instr_lookup \<Rightarrow> optr \<Rightarrow> 'd po_state \<Rightarrow> 'd po_state \<times> reject option" where
  "po_sendNew il p s =
     (let s1 = po_set p (\<lambda>ord. ord\<lparr>ord_action := kOrNew\<rparr>) s in
      if kUnknownState \<noteq> ord_state (po_order s1 p)
      then (s1, Some (po_getRej kInvalidOrderState))
      else
        (let s2 = po_set p (\<lambda>ord. ord\<lparr>ord_state := kPending\<rparr>) s1;
             ord = po_order s2 p in
         if 0 \<ge> ord_qty ord
         then (po_onNewRej il p (po_getRej kInvalidOrderQty) s2, Some (po_getRej kInvalidOrderQty))
         else if kLimit = ord_type ord \<and> \<not> tw_isValid (ord_price ord)
         then (po_onNewRej il p (po_getRej kInvalidOrderPrice) s2, Some (po_getRej kInvalidOrderPrice))
         else
           (let (added, t) = ot_add (po_table s2) (ord_orderId ord) p in
            if \<not> added
            then (po_onNewRej il p (po_getRej kDuplicateOrderId) s2, Some (po_getRej kDuplicateOrderId))
            else (po_changeOpenOrdersCounts il p 1 (s2\<lparr>po_table := t\<rparr>), None))))"

definition po_sendMod :: "optr \<Rightarrow> 'd po_state \<Rightarrow> 'd po_state \<times> reject option" where
  "po_sendMod p s =
     (let s1 = po_set p (\<lambda>ord. ord\<lparr>ord_action := kOrMod\<rparr>) s;
          ord = po_order s1 p in
      if \<not> tw_isValid (ord_newPrice ord) then (s1, Some (po_getRej kInvalidOrderPrice))
      else if ord_newPrice ord = ord_price ord then (s1, Some (po_getRej kSameOrderPrice))
      else if MAX_MOD_REJ_COUNTER < ord_modRejCounter ord then (s1, Some (po_getRej kMaxModRejCounter))
      else if ord_state ord = kWorking \<or> ord_state ord = kModifying
      then
        (let s2 = po_set p (\<lambda>ord. ord\<lparr>ord_state := kModifying\<rparr>) s1;
             s3 = po_set p (\<lambda>ord. ord\<lparr>ord_modCounter := ord_modCounter ord + 1\<rparr>) s2 in
         if MAX_MOD_COUNTER < ord_modCounter (po_order s3 p)
         then (po_set p (\<lambda>ord. ord\<lparr>ord_modCounter := ord_modCounter ord - 1\<rparr>) s3,
               Some (po_getRej kMaxModCounter))
         else (s3, None))
      else (s1, Some (po_getRej kInvalidOrderState)))"

definition po_sendCxl :: "optr \<Rightarrow> 'd po_state \<Rightarrow> 'd po_state \<times> reject option" where
  "po_sendCxl p s =
     (let s1 = po_set p (\<lambda>ord. ord\<lparr>ord_action := kOrCxl\<rparr>) s;
          ord = po_order s1 p in
      if MAX_CXL_REJ_COUNTER < ord_cxlRejCounter ord then (s1, Some (po_getRej kMaxCxlRejCounter))
      else if ord_state ord = kWorking \<or> ord_state ord = kModifying
      then (po_set p (\<lambda>ord. ord\<lparr>ord_state := kCancelling\<rparr>) s1, None)
      else (po_set p (\<lambda>ord. ord\<lparr>ord_cancelOnAck := True\<rparr>) s1, None))"

definition po_rebuildOrder :: "'d instr_lookup \<Rightarrow> optr \<Rightarrow> 'd po_state \<Rightarrow> 'd po_state \<times> reject option" where
  "po_rebuildOrder il p s =
     (let (added, t) = ot_add (po_table s) (ord_orderId (po_order s p)) p in
      if \<not> added then (s, Some (po_getRej kDuplicateOrderId))
      else
        (let s1 = po_set p (\<lambda>ord. ord\<lparr>ord_instrument := il_getByKeyId il (ord_instrumentId ord)\<rparr>)
                    (s\<lparr>po_table := t\<rparr>) in
         if ord_instrument (po_order s1 p) = None then (s1, Some (po_getRej kSymbolNotConfigured))
         else (po_changeOpenOrdersCounts il p 1 s1, None)))"

definition po_recordFill :: "'d instr_lookup \<Rightarrow> 'd fill \<Rightarrow> 'd po_state \<Rightarrow> 'd po_state \<times> 'd fill" where
  "po_recordFill il f s = po_onFill il f s"

definition po_rebuildPos :: "'d instr_lookup \<Rightarrow> 'd pos_update \<Rightarrow> 'd po_state \<Rightarrow> 'd po_state" where
  "po_rebuildPos il u s =
     (case il_getByDisplayName il (pu_displayName u) of
        None \<Rightarrow> s
      | Some i \<Rightarrow>
          (let add = (\<lambda>v. v\<lparr>iop_pos := s32 (iop_pos v + pu_pos u)\<rparr>) in
           s\<lparr>po_account := oop_update il (po_account s) (pu_accountId u) (ins_keyId i) add,
             po_strategy := oop_update il (po_strategy s) (pu_strategyId u) (ins_keyId i) add\<rparr>))"

subsection \<open>The stuck-order timer\<close>

definition po_is_stuck :: "int \<Rightarrow> u32 \<Rightarrow> 'd order \<Rightarrow> bool" where
  "po_is_stuck now timeout ord \<longleftrightarrow>
     ord_state ord \<in> {kPending, kModifying, kCancelling} \<and>
     (word_of_int (now - ord_timestamp1 ord) :: u64) > ucast (timeout * 1000)"

primrec po_collect_stuck ::
    "int \<Rightarrow> u32 \<Rightarrow> 'd order_heap \<Rightarrow> (strategy_id, optr list) stdmap \<Rightarrow> optr list \<Rightarrow>
     (strategy_id, optr list) stdmap" where
  "po_collect_stuck now timeout h m [] = m"
| "po_collect_stuck now timeout h m (p # ps) =
     po_collect_stuck now timeout h
       (if po_is_stuck now timeout (h p)
        then (let (m1, l) = sm_get_or_create m (ord_strategyId (h p)) []
              in sm_assign m1 (ord_strategyId (h p)) (l @ [p]))
        else m) ps"

text \<open>The alerts of one timeout: per strategy, the ids of its stuck orders in table order.\<close>

definition po_onTimeout :: "int \<Rightarrow> 'd po_state \<Rightarrow> (strategy_id \<times> order_id list) list" where
  "po_onTimeout now s =
     map (\<lambda>(st, ps). (st, map (\<lambda>p. ord_orderId (po_order s p)) ps))
       (po_collect_stuck now (po_stuck_timeout s) (po_heap s) [] (po_getAll s))"

end
