(* ===== verification/ProcessorWTP.thy ===== *)
theory ProcessorWTP
  imports ProcessorOrders
begin

section \<open>ProcessorWTP: wash trade prevention (channel\_or/processor\_wtp.h, processor\_wtp.cpp)\<close>

text \<open>
  Per instrument, the buy and the sell orders sent so far. A new order or price is refused when
  an own unfinished order on the other side would trade with it. Finished orders are dropped from
  the lists lazily, while they are searched. Orders are pointers into the shared store; the quote
  store is the argument \<open>quotes\<close>. Operations on an order without instrument dereference a
  null pointer: \<open>None\<close>.
\<close>

record top_quote =
  tq_trade :: ticks
  tq_bid :: ticks
  tq_ask :: ticks

type_synonym wtp_book = "optr list \<times> optr list"

record pw_state =
  pw_use_quotes :: bool
  pw_ordersBooks :: "(instr_id, wtp_book) stdmap"

definition pw_clear :: "pw_state \<Rightarrow> pw_state" where
  "pw_clear w = w\<lparr>pw_ordersBooks := []\<rparr>"

definition pw_stop :: "pw_state \<Rightarrow> pw_state" where
  "pw_stop w = pw_clear w"

definition pw_init :: "bool \<Rightarrow> pw_state \<Rightarrow> pw_state" where
  "pw_init use_quotes w = w\<lparr>pw_use_quotes := use_quotes\<rparr>"

definition pw_getRej :: "eRejectReason \<Rightarrow> reject" where
  "pw_getRej r = internal_rej kProcessorWTP r"

definition isCrossingOrderAtBestPrice :: "ticks \<Rightarrow> ticks \<Rightarrow> eOrderSide \<Rightarrow> bool" where
  "isCrossingOrderAtBestPrice quotePrice orderPrice sd =
     (if \<not> tw_isValid quotePrice \<or> \<not> tw_isValid orderPrice \<or> kUnknownSide = sd then True
      else if (kBuy = sd \<and> orderPrice < quotePrice) \<or> (kSell = sd \<and> orderPrice > quotePrice) then False
      else True)"

definition pw_getOrCreateOrdersBook :: "pw_state \<Rightarrow> instr_id \<Rightarrow> pw_state \<times> wtp_book" where
  "pw_getOrCreateOrdersBook w v =
     (let (m, b) = sm_get_or_create (pw_ordersBooks w) v ([], []) in (w\<lparr>pw_ordersBooks := m\<rparr>, b))"

text \<open>A write through the reference that \<open>getOrCreateOrdersBook\<close> returned.\<close>

definition pw_write_book :: "pw_state \<Rightarrow> instr_id \<Rightarrow> wtp_book \<Rightarrow> pw_state" where
  "pw_write_book w v b = w\<lparr>pw_ordersBooks := sm_assign (pw_ordersBooks w) v b\<rparr>"

text \<open>The search with its lazy erase: the list it leaves, and the first crossing order.\<close>

fun pw_getCrossingOrder ::
    "(ticks \<Rightarrow> ticks \<Rightarrow> bool) \<Rightarrow> 'd order_heap \<Rightarrow> ticks \<Rightarrow> optr list \<Rightarrow> optr list \<times> optr option" where
  "pw_getCrossingOrder cmp h price [] = ([], None)"
| "pw_getCrossingOrder cmp h price (p # ps) =
     (if ord_state (h p) = kCancelled \<or> ord_state (h p) = kRejected \<or> ord_state (h p) = kFilled
      then pw_getCrossingOrder cmp h price ps
      else if ord_state (h p) = kModifying \<and> tw_isValid (ord_newPrice (h p)) \<and> cmp price (ord_newPrice (h p))
      then (p # ps, Some p)
      else if tw_isValid (ord_price (h p)) \<and> cmp price (ord_price (h p))
      then (p # ps, Some p)
      else (let (rest, c) = pw_getCrossingOrder cmp h price ps in (p # rest, c)))"

definition pw_order_price :: "'d order \<Rightarrow> ticks" where
  "pw_order_price ord =
     (if kModifying = ord_state ord \<and>
         ((kBuy = ord_side ord \<and> ord_newPrice ord > ord_price ord) \<or>
          (kSell = ord_side ord \<and> ord_newPrice ord < ord_price ord))
      then ord_newPrice ord else ord_price ord)"

definition pw_canSend ::
    "(instr_id \<Rightarrow> top_quote) \<Rightarrow> 'd order_heap \<Rightarrow> instr_id \<Rightarrow> eOrderSide \<Rightarrow> ticks \<Rightarrow> pw_state \<Rightarrow> pw_state \<times> reject option" where
  "pw_canSend quotes h key sd price w =
     (let (w1, book) = pw_getOrCreateOrdersBook w key;
          (book1, crossing) =
            (if kBuy = sd
             then (let (asks, c) = pw_getCrossingOrder (\<ge>) h price (snd book) in ((fst book, asks), c))
             else (let (bids, c) = pw_getCrossingOrder (\<le>) h price (fst book) in ((bids, snd book), c)));
          w2 = pw_write_book w1 key book1
      in case crossing of
           None \<Rightarrow> (w2, None)
         | Some c \<Rightarrow>
             (let ord = h c; q = quotes key; opx = pw_order_price ord in
              if pw_use_quotes w \<and>
                 \<not> isCrossingOrderAtBestPrice (tq_trade q) opx (ord_side ord) \<and>
                 \<not> isCrossingOrderAtBestPrice (if kBuy = ord_side ord then tq_bid q else tq_ask q) opx (ord_side ord)
              then (w2, None)
              else (w2, Some (pw_getRej kWashTradePrevention))))"

definition pw_canSend_order ::
    "(instr_id \<Rightarrow> top_quote) \<Rightarrow> 'd order_heap \<Rightarrow> optr \<Rightarrow> ticks \<Rightarrow> pw_state \<Rightarrow> (pw_state \<times> reject option) option" where
  "pw_canSend_order quotes h p price w =
     (if ord_stopLoss (h p) then Some (w, None)
      else case ord_instrument (h p) of
             None \<Rightarrow> None
           | Some i \<Rightarrow> Some (pw_canSend quotes h (ins_keyId i) (ord_side (h p)) price w))"

definition pw_push :: "instr_id \<Rightarrow> eOrderSide \<Rightarrow> optr \<Rightarrow> pw_state \<Rightarrow> pw_state" where
  "pw_push key sd p w =
     (let (w1, b) = pw_getOrCreateOrdersBook w key in
      pw_write_book w1 key (if kBuy = sd then (fst b @ [p], snd b) else (fst b, snd b @ [p])))"

definition pw_sendNew ::
    "(instr_id \<Rightarrow> top_quote) \<Rightarrow> 'd order_heap \<Rightarrow> optr \<Rightarrow> pw_state \<Rightarrow> (pw_state \<times> reject option) option" where
  "pw_sendNew quotes h p w =
     (case pw_canSend_order quotes h p (ord_price (h p)) w of
        None \<Rightarrow> None
      | Some (w1, Some rej) \<Rightarrow> Some (w1, Some rej)
      | Some (w1, None) \<Rightarrow> Some (pw_push (ord_instrumentId (h p)) (ord_side (h p)) p w1, None))"

definition pw_sendMod ::
    "(instr_id \<Rightarrow> top_quote) \<Rightarrow> 'd order_heap \<Rightarrow> optr \<Rightarrow> pw_state \<Rightarrow> (pw_state \<times> reject option) option" where
  "pw_sendMod quotes h p w = pw_canSend_order quotes h p (ord_newPrice (h p)) w"

definition pw_sendCxl :: "pw_state \<Rightarrow> pw_state \<times> reject option" where
  "pw_sendCxl w = (w, None)"

subsection \<open>What the search finds\<close>

definition finished :: "'d order \<Rightarrow> bool" where
  "finished ord \<longleftrightarrow> ord_state ord \<in> {kCancelled, kRejected, kFilled}"

definition crosses :: "(ticks \<Rightarrow> ticks \<Rightarrow> bool) \<Rightarrow> ticks \<Rightarrow> 'd order \<Rightarrow> bool" where
  "crosses cmp price ord \<longleftrightarrow> \<not> finished ord \<and>
     (tw_isValid (ord_price ord) \<and> cmp price (ord_price ord) \<or>
      ord_state ord = kModifying \<and> tw_isValid (ord_newPrice ord) \<and> cmp price (ord_newPrice ord))"

lemma getCrossingOrder_unfold:
  "pw_getCrossingOrder cmp h price (p # ps) =
     (if finished (h p) then pw_getCrossingOrder cmp h price ps
      else if crosses cmp price (h p) then (p # ps, Some p)
      else (let (rest, c) = pw_getCrossingOrder cmp h price ps in (p # rest, c)))"
  by (auto simp: finished_def crosses_def)

declare pw_getCrossingOrder.simps(2) [simp del]
lemmas crossing_simps = pw_getCrossingOrder.simps(1) getCrossingOrder_unfold

lemma crossing_spec:
  assumes "pw_getCrossingOrder cmp h price ps = (rest, c)"
  shows "(c = None \<longleftrightarrow> (\<forall>p \<in> set ps. \<not> crosses cmp price (h p))) \<and>
    (\<forall>p. c = Some p \<longrightarrow> p \<in> set ps \<and> crosses cmp price (h p)) \<and>
    set rest \<subseteq> set ps \<and> (\<forall>p \<in> set ps. \<not> finished (h p) \<longrightarrow> p \<in> set rest)"
  using assms
proof (induction ps arbitrary: rest c)
  case Nil
  then show ?case by simp
next
  case (Cons p ps)
  obtain rest' c' where r: "pw_getCrossingOrder cmp h price ps = (rest', c')" by fastforce
  have fc: "finished (h p) \<Longrightarrow> \<not> crosses cmp price (h p)" by (simp add: crosses_def)
  from Cons.IH [OF r] Cons.prems fc show ?case
    by (auto simp: crossing_simps r split: if_splits)
qed

text \<open>The order the search returns is the first one of the list that crosses.\<close>

lemma crossing_first:
  "snd (pw_getCrossingOrder cmp h price ps) = find (\<lambda>p. crosses cmp price (h p)) ps"
proof (induction ps)
  case (Cons p ps)
  have "finished (h p) \<Longrightarrow> \<not> crosses cmp price (h p)" by (simp add: crosses_def)
  with Cons show ?case by (auto simp: crossing_simps split: prod.splits)
qed simp

text \<open>
  The quote rule, written out: the price of the crossing order is behind both the last trade and
  the best quote of its own side, where all three prices are known.
\<close>

definition off_market :: "top_quote \<Rightarrow> 'd order \<Rightarrow> bool" where
  "off_market q ord \<longleftrightarrow> tw_isValid (pw_order_price ord) \<and> tw_isValid (tq_trade q) \<and>
     (ord_side ord = kBuy \<and> tw_isValid (tq_bid q) \<and>
        pw_order_price ord < tq_trade q \<and> pw_order_price ord < tq_bid q \<or>
      ord_side ord = kSell \<and> tw_isValid (tq_ask q) \<and>
        tq_trade q < pw_order_price ord \<and> tq_ask q < pw_order_price ord)"

lemma off_market_iff:
  "off_market q ord \<longleftrightarrow>
     \<not> isCrossingOrderAtBestPrice (tq_trade q) (pw_order_price ord) (ord_side ord) \<and>
     \<not> isCrossingOrderAtBestPrice (if kBuy = ord_side ord then tq_bid q else tq_ask q)
         (pw_order_price ord) (ord_side ord)"
  by (auto simp: off_market_def isCrossingOrderAtBestPrice_def)

subsection \<open>Books as seen by a client\<close>

definition pw_book :: "pw_state \<Rightarrow> instr_id \<Rightarrow> wtp_book" where
  "pw_book w v = (case sm_find (pw_ordersBooks w) v of None \<Rightarrow> ([], []) | Some b \<Rightarrow> b)"

definition pw_ok :: "pw_state \<Rightarrow> bool" where
  "pw_ok w \<longleftrightarrow> sm_ok (pw_ordersBooks w)"

lemma getOrCreate_spec:
  assumes "pw_ok w" and "pw_getOrCreateOrdersBook w v = (w1, b)"
  shows "b = pw_book w v" and "pw_ok w1" and "sm_find (pw_ordersBooks w1) v = Some b"
    and "pw_book w1 v' = pw_book w v'" and "pw_use_quotes w1 = pw_use_quotes w"
proof -
  have ok: "sm_ok (pw_ordersBooks w)" using assms(1) by (simp add: pw_ok_def)
  obtain m x where g: "sm_get_or_create (pw_ordersBooks w) v ([], []) = (m, x)" by (rule prod.exhaust)
  from assms(2) g have w1: "w1 = w\<lparr>pw_ordersBooks := m\<rparr>" and b: "b = x"
    by (simp_all add: pw_getOrCreateOrdersBook_def)
  from sm_get_or_create_ok [OF ok, of v "([], [])"] g show "pw_ok w1" by (simp add: pw_ok_def w1)
  from sm_get_or_create_find [OF ok, of v "([], [])"] g
  have m: "sm_find m = (sm_find (pw_ordersBooks w))(v := Some x)" by simp
  show "sm_find (pw_ordersBooks w1) v = Some b" by (simp add: w1 m b)
  from g show "b = pw_book w v"
    by (auto simp: b pw_book_def sm_get_or_create_def split: option.splits)
  then show "pw_book w1 v' = pw_book w v'" by (simp add: pw_book_def w1 m b)
  show "pw_use_quotes w1 = pw_use_quotes w" by (simp add: w1)
qed

lemma write_book_spec:
  assumes "pw_ok w" and "sm_find (pw_ordersBooks w) v = Some b0"
  shows "pw_ok (pw_write_book w v b)"
    and "pw_book (pw_write_book w v b) v' = (if v' = v then b else pw_book w v')"
  using assms by (simp_all add: pw_ok_def pw_write_book_def pw_book_def sm_find_assign)

lemma push_spec:
  assumes "pw_ok w"
  shows "pw_ok (pw_push v sd p w)"
    and "pw_book (pw_push v sd p w) v' =
      (if v' = v then (if sd = kBuy then (fst (pw_book w v) @ [p], snd (pw_book w v))
                       else (fst (pw_book w v), snd (pw_book w v) @ [p])) else pw_book w v')"
proof -
  obtain w1 b where g: "pw_getOrCreateOrdersBook w v = (w1, b)" by (rule prod.exhaust)
  note gs = getOrCreate_spec [OF assms g]
  have p: "pw_push v sd p w = pw_write_book w1 v (if sd = kBuy then (fst b @ [p], snd b) else (fst b, snd b @ [p]))"
    by (simp add: pw_push_def g eq_commute)
  note ws = write_book_spec [OF gs(2) gs(3)]
  show "pw_ok (pw_push v sd p w)" unfolding p by (rule ws(1))
  show "pw_book (pw_push v sd p w) v' =
      (if v' = v then (if sd = kBuy then (fst (pw_book w v) @ [p], snd (pw_book w v))
                       else (fst (pw_book w v), snd (pw_book w v) @ [p])) else pw_book w v')"
    unfolding p ws(2) by (simp add: gs(1) [symmetric] gs(4))
qed

definition opposite :: "eOrderSide \<Rightarrow> wtp_book \<Rightarrow> optr list" where
  "opposite sd b = (if sd = kBuy then snd b else fst b)"

definition cross_cmp :: "eOrderSide \<Rightarrow> ticks \<Rightarrow> ticks \<Rightarrow> bool" where
  "cross_cmp sd = (if sd = kBuy then (\<ge>) else (\<le>))"

definition first_crossing :: "eOrderSide \<Rightarrow> ticks \<Rightarrow> 'd order_heap \<Rightarrow> wtp_book \<Rightarrow> optr option" where
  "first_crossing sd price h b = find (\<lambda>p. crosses (cross_cmp sd) price (h p)) (opposite sd b)"

lemma first_crossing_None:
  "first_crossing sd price h b = None \<longleftrightarrow> (\<forall>p \<in> set (opposite sd b). \<not> crosses (cross_cmp sd) price (h p))"
  by (auto simp: first_crossing_def find_None_iff)

lemma canSend_spec:
  assumes ok: "pw_ok w" and res: "pw_canSend quotes h key sd price w = (w', r)"
  shows "pw_ok w'" and "pw_use_quotes w' = pw_use_quotes w"
    and "r = (case first_crossing sd price h (pw_book w key) of None \<Rightarrow> None
      | Some c \<Rightarrow> if pw_use_quotes w \<and> off_market (quotes key) (h c) then None
                 else Some (pw_getRej kWashTradePrevention))"
    and "\<And>sd' v p. \<not> finished (h p) \<Longrightarrow> p \<in> set (opposite sd' (pw_book w' v)) \<longleftrightarrow> p \<in> set (opposite sd' (pw_book w v))"
proof -
  obtain w1 b where g: "pw_getOrCreateOrdersBook w key = (w1, b)" by (rule prod.exhaust)
  note gs = getOrCreate_spec [OF ok g]
  obtain rest c where s: "pw_getCrossingOrder (cross_cmp sd) h price (opposite sd b) = (rest, c)" by fastforce
  note cs = crossing_spec [OF s]
  have c: "c = first_crossing sd price h (pw_book w key)"
    using crossing_first [of "cross_cmp sd" h price "opposite sd b"] s by (simp add: first_crossing_def gs(1))
  define b1 where "b1 = (if sd = kBuy then (fst b, rest) else (rest, snd b))"
  have w': "w' = pw_write_book w1 key b1"
    and r: "r = (case c of None \<Rightarrow> None
      | Some c \<Rightarrow> if pw_use_quotes w \<and> off_market (quotes key) (h c) then None
                 else Some (pw_getRej kWashTradePrevention))"
    using res s unfolding pw_canSend_def cross_cmp_def opposite_def b1_def off_market_iff
    by (auto simp: g Let_def split: if_splits option.splits)
  note ws = write_book_spec [OF gs(2) gs(3), of b1]
  show "pw_ok w'" unfolding w' by (rule ws(1))
  show "pw_use_quotes w' = pw_use_quotes w" by (simp add: w' pw_write_book_def gs(5))
  show "r = (case first_crossing sd price h (pw_book w key) of None \<Rightarrow> None
      | Some c \<Rightarrow> if pw_use_quotes w \<and> off_market (quotes key) (h c) then None
                 else Some (pw_getRej kWashTradePrevention))"
    using r by (simp add: c)
  fix sd' v p assume live: "\<not> finished (h p)"
  have bk: "pw_book w' v = (if v = key then b1 else pw_book w v)" unfolding w' ws(2) gs(4) ..
  have "p \<in> set rest \<longleftrightarrow> p \<in> set (opposite sd b)" using cs live by blast
  then show "p \<in> set (opposite sd' (pw_book w' v)) \<longleftrightarrow> p \<in> set (opposite sd' (pw_book w v))"
    unfolding bk by (simp add: b1_def opposite_def gs(1))
qed

subsection \<open>Properties\<close>

text \<open>
  C27: the check is exactly this. It takes the first own unfinished order on the other side of the
  instrument's book that would trade at the price (at its own price or at the price it is being
  modified to). Without such an order it passes. Otherwise it refuses the price, except with the
  quote rule (the setting is on by default) when that one order is priced behind both the last
  trade and the best quote of its side. So without the quote rule it refuses exactly the prices
  that cross any own unfinished order. The lazy clean-up never drops an unfinished order.
\<close>

theorem wash_trade_check_exact:
  assumes "pw_ok w" and "pw_canSend quotes h key sd price w = (w', r)"
  shows "r = (case find (\<lambda>p. crosses (cross_cmp sd) price (h p)) (opposite sd (pw_book w key)) of
        None \<Rightarrow> None
      | Some c \<Rightarrow> if pw_use_quotes w \<and> off_market (quotes key) (h c) then None
                 else Some (pw_getRej kWashTradePrevention)) \<and>
    (\<not> pw_use_quotes w \<longrightarrow> (r = Some (pw_getRej kWashTradePrevention) \<longleftrightarrow>
      (\<exists>p \<in> set (opposite sd (pw_book w key)). crosses (cross_cmp sd) price (h p)))) \<and>
    (\<forall>sd' v p. \<not> finished (h p) \<longrightarrow>
       (p \<in> set (opposite sd' (pw_book w' v)) \<longleftrightarrow> p \<in> set (opposite sd' (pw_book w v))))"
proof -
  note cs = canSend_spec [OF assms]
  have "\<not> pw_use_quotes w \<Longrightarrow> r = Some (pw_getRej kWashTradePrevention) \<longleftrightarrow>
      (\<exists>p \<in> set (opposite sd (pw_book w key)). crosses (cross_cmp sd) price (h p))"
    using cs(3) first_crossing_None [of sd price h "pw_book w key"] by (auto split: option.splits)
  then show ?thesis using cs(3,4) by (simp add: first_crossing_def)
qed

lemma pw_sendNew_accepted:
  assumes "pw_ok w" and "\<not> ord_stopLoss (h p)"
    and "ord_instrument (h p) = Some i" and "ins_keyId i = ord_instrumentId (h p)"
    and "pw_sendNew quotes h p w = Some (w', None)"
  shows "\<exists>w1. pw_canSend quotes h (ord_instrumentId (h p)) (ord_side (h p)) (ord_price (h p)) w = (w1, None) \<and>
    w' = pw_push (ord_instrumentId (h p)) (ord_side (h p)) p w1 \<and> pw_ok w1"
proof -
  let ?r = "pw_canSend quotes h (ord_instrumentId (h p)) (ord_side (h p)) (ord_price (h p)) w"
  obtain w1 r where c: "?r = (w1, r)" by (rule prod.exhaust)
  have "pw_sendNew quotes h p w = (case r of Some rej \<Rightarrow> Some (w1, Some rej)
      | None \<Rightarrow> Some (pw_push (ord_instrumentId (h p)) (ord_side (h p)) p w1, None))"
    using assms(2-4) c by (simp add: pw_sendNew_def pw_canSend_order_def split: option.splits)
  with assms(5) c canSend_spec(1) [OF assms(1) c] show ?thesis by (auto split: option.splits)
qed

text \<open>
  C28: an accepted new order (not a stop-loss order, which is never checked) joins its side of the
  book, and no unfinished order that was or is on the other side of its instrument's book would
  trade at its price, unless the quote rule is on and the first order that would is priced behind
  the last trade and the best quote of its side. An order without a price counts with the smallest
  integer as its price, so a market order to buy crosses nothing
  (\<open>market_orders_one_sided\<close>).
\<close>

theorem accepted_order_crosses_nothing:
  assumes "pw_ok w" and "\<not> ord_stopLoss (h p)"
    and "ord_instrument (h p) = Some i" and "ins_keyId i = ord_instrumentId (h p)"
    and "pw_sendNew quotes h p w = Some (w', None)"
  shows "p \<in> set (if ord_side (h p) = kBuy then fst (pw_book w' (ord_instrumentId (h p)))
                   else snd (pw_book w' (ord_instrumentId (h p)))) \<and>
    ((\<forall>q \<in> set (opposite (ord_side (h p)) (pw_book w (ord_instrumentId (h p)))) \<union>
             set (opposite (ord_side (h p)) (pw_book w' (ord_instrumentId (h p)))).
        \<not> crosses (cross_cmp (ord_side (h p))) (ord_price (h p)) (h q)) \<or>
     pw_use_quotes w \<and>
       (\<exists>c. find (\<lambda>q. crosses (cross_cmp (ord_side (h p))) (ord_price (h p)) (h q))
              (opposite (ord_side (h p)) (pw_book w (ord_instrumentId (h p)))) = Some c \<and>
            off_market (quotes (ord_instrumentId (h p))) (h c)))"
proof -
  let ?k = "ord_instrumentId (h p)" and ?sd = "ord_side (h p)"
  obtain w1 where c: "pw_canSend quotes h ?k ?sd (ord_price (h p)) w = (w1, None)"
    and w': "w' = pw_push ?k ?sd p w1" and ok1: "pw_ok w1"
    using pw_sendNew_accepted [OF assms] by blast
  note cs = canSend_spec [OF assms(1) c] and ps = push_spec [OF ok1]
  have joined: "p \<in> set (if ?sd = kBuy then fst (pw_book w' ?k) else snd (pw_book w' ?k))"
    by (simp add: w' ps(2))
  have opp: "opposite ?sd (pw_book w' ?k) = opposite ?sd (pw_book w1 ?k)"
    by (simp add: w' ps(2) opposite_def)
  show ?thesis
  proof (cases "first_crossing ?sd (ord_price (h p)) h (pw_book w ?k)")
    case None
    then have none: "\<not> crosses (cross_cmp ?sd) (ord_price (h p)) (h q)" if "q \<in> set (opposite ?sd (pw_book w ?k))" for q
      using that by (simp add: first_crossing_None)
    have "\<not> crosses (cross_cmp ?sd) (ord_price (h p)) (h q)" if "q \<in> set (opposite ?sd (pw_book w' ?k))" for q
    proof (cases "finished (h q)")
      case True
      then show ?thesis by (simp add: crosses_def)
    next
      case False
      then show ?thesis using none cs(4) [OF False, of ?sd ?k] that by (simp add: opp)
    qed
    with none joined show ?thesis by auto
  next
    case (Some d)
    with cs(3) joined show ?thesis by (auto simp: first_crossing_def split: if_splits)
  qed
qed

text \<open>
  An order without a price (a market order) is never refused when it buys, whatever own
  sell orders are in the book: the invalid price is the smallest integer, so the comparison with
  every offer fails. A market order that sells is refused as soon as one own buy order is priced.
\<close>

theorem market_orders_one_sided:
  assumes "pw_ok w" and "\<not> pw_use_quotes w" and "\<forall>q. in_s32 (ord_price (h q)) \<and> in_s32 (ord_newPrice (h q))"
  shows "snd (pw_canSend quotes h key kBuy tw_INVALID_VALUE w) = None \<and>
    (snd (pw_canSend quotes h key kSell tw_INVALID_VALUE w) \<noteq> None \<longleftrightarrow>
      (\<exists>p \<in> set (fst (pw_book w key)). \<not> finished (h p) \<and>
         (tw_isValid (ord_price (h p)) \<or> ord_state (h p) = kModifying \<and> tw_isValid (ord_newPrice (h p)))))"
proof -
  have lo: "tw_INVALID_VALUE \<le> ord_price (h q)" "tw_INVALID_VALUE \<le> ord_newPrice (h q)" for q
    using assms(3) by (simp_all add: in_s32_def tw_INVALID_VALUE_def)
  have buy: "\<not> crosses (\<ge>) tw_INVALID_VALUE (h q)" for q
    using lo [of q] by (auto simp: crosses_def tw_isValid_def)
  have sell: "crosses (\<le>) tw_INVALID_VALUE (h q) \<longleftrightarrow> \<not> finished (h q) \<and>
      (tw_isValid (ord_price (h q)) \<or> ord_state (h q) = kModifying \<and> tw_isValid (ord_newPrice (h q)))" for q
    using lo [of q] by (auto simp: crosses_def)
  obtain wb rb ws rs where r: "pw_canSend quotes h key kBuy tw_INVALID_VALUE w = (wb, rb)"
      "pw_canSend quotes h key kSell tw_INVALID_VALUE w = (ws, rs)" by (metis surj_pair)
  have "first_crossing kBuy tw_INVALID_VALUE h (pw_book w key) = None"
    using buy by (simp add: first_crossing_None cross_cmp_def)
  then have "rb = None" using canSend_spec(3) [OF assms(1) r(1)] by simp
  moreover have "rs \<noteq> None \<longleftrightarrow> (\<exists>p \<in> set (fst (pw_book w key)). crosses (\<le>) tw_INVALID_VALUE (h p))"
    using canSend_spec(3) [OF assms(1) r(2)] assms(2)
      first_crossing_None [of kSell tw_INVALID_VALUE h "pw_book w key"]
    by (auto simp: cross_cmp_def opposite_def split: option.splits)
  ultimately show ?thesis by (simp add: r sell)
qed

subsection \<open>Concrete books\<close>

definition ex_wtp_heap :: "int order_heap" where
  "ex_wtp_heap = (\<lambda>_. order_default)(
     0 := order_default\<lparr>ord_state := kWorking, ord_side := kSell, ord_price := 105, ord_instrumentId := 3\<rparr>,
     1 := order_default\<lparr>ord_state := kWorking, ord_side := kSell, ord_price := 100, ord_instrumentId := 3\<rparr>,
     2 := order_default\<lparr>ord_state := kPending, ord_side := kBuy, ord_price := 99, ord_instrumentId := 3,
       ord_instrument := Some (instrument_clear\<lparr>ins_keyId := 3, ins_symbol := ''ES''\<rparr>)\<rparr>)"

definition ex_wtp :: "bool \<Rightarrow> pw_state" where
  "ex_wtp quotes = \<lparr>pw_use_quotes = quotes, pw_ordersBooks = [(3, ([], [0, 1]))]\<rparr>"

definition ex_quotes :: "instr_id \<Rightarrow> top_quote" where
  "ex_quotes _ = \<lparr>tq_trade = 100, tq_bid = 99, tq_ask = 100\<rparr>"

lemmas ex_wtp_defs = ex_wtp_heap_def ex_wtp_def ex_quotes_def order_default_def instrument_clear_def

lemma ex_wtp_ok: "pw_ok (ex_wtp b)" "\<not> pw_use_quotes (ex_wtp False)"
  "pw_book (ex_wtp b) 3 = ([], [0, 1])"
  by (simp_all add: pw_ok_def pw_book_def ex_wtp_def)

lemma ticks_valid: "tw_isValid x \<longleftrightarrow> x \<noteq> - 2147483648"
  by (simp add: tw_isValid_def tw_INVALID_VALUE_def INT32_MIN_def)

lemma ex_wtp_fields:
  "ord_state (ex_wtp_heap 0) = kWorking" "ord_price (ex_wtp_heap 0) = 105" "ord_side (ex_wtp_heap 0) = kSell"
  "ord_state (ex_wtp_heap (Suc 0)) = kWorking" "ord_price (ex_wtp_heap (Suc 0)) = 100"
  "ord_side (ex_wtp_heap (Suc 0)) = kSell"
  by (simp_all add: ex_wtp_defs)

lemma ex_wtp_crosses:
  "crosses (\<ge>) x (ex_wtp_heap 0) \<longleftrightarrow> 105 \<le> x" "crosses (\<ge>) x (ex_wtp_heap (Suc 0)) \<longleftrightarrow> 100 \<le> x"
  by (simp_all add: crosses_def finished_def ex_wtp_fields ticks_valid)

lemma ex_wtp_off_market: "off_market (ex_quotes 3) (ex_wtp_heap 0)" "\<not> off_market (ex_quotes 3) (ex_wtp_heap (Suc 0))"
  by (simp_all add: off_market_def pw_order_price_def ex_wtp_fields ticks_valid ex_quotes_def)

theorem wash_trade_check_exact_witness:
  "snd (pw_canSend ex_quotes ex_wtp_heap 3 kBuy 101 (ex_wtp True)) = Some (pw_getRej kWashTradePrevention) \<and>
   snd (pw_canSend ex_quotes ex_wtp_heap 3 kBuy 105 (ex_wtp True)) = None"
  using wash_trade_check_exact [OF ex_wtp_ok(1) surjective_pairing, of ex_quotes ex_wtp_heap 3 kBuy 101 True]
    wash_trade_check_exact [OF ex_wtp_ok(1) surjective_pairing, of ex_quotes ex_wtp_heap 3 kBuy 105 True]
  by (simp add: ex_wtp_ok(3) opposite_def cross_cmp_def ex_wtp_crosses ex_wtp_off_market)
    (simp add: ex_wtp_def)

theorem accepted_order_crosses_nothing_witness:
  "let w' = fst (the (pw_sendNew ex_quotes ex_wtp_heap 2 (ex_wtp True))) in
   2 \<in> set (fst (pw_book w' 3)) \<and> (\<forall>q \<in> set (snd (pw_book w' 3)). \<not> crosses (\<ge>) 99 (ex_wtp_heap q))"
proof -
  have f: "\<not> ord_stopLoss (ex_wtp_heap 2)" "ord_instrumentId (ex_wtp_heap 2) = 3"
    "ord_side (ex_wtp_heap 2) = kBuy" "ord_price (ex_wtp_heap 2) = 99"
    by (simp_all add: ex_wtp_defs)
  obtain i where i: "ord_instrument (ex_wtp_heap 2) = Some i" "ins_keyId i = ord_instrumentId (ex_wtp_heap 2)"
    by (simp add: ex_wtp_defs)
  have s: "snd (the (pw_sendNew ex_quotes ex_wtp_heap 2 (ex_wtp True))) = None"
    "pw_sendNew ex_quotes ex_wtp_heap 2 (ex_wtp True) \<noteq> None"
    by (simp_all add: pw_sendNew_def pw_canSend_order_def pw_canSend_def pw_getOrCreateOrdersBook_def
        sm_get_or_create_def crossing_simps finished_def crosses_def ex_wtp_defs ticks_valid)
  then have sent: "pw_sendNew ex_quotes ex_wtp_heap 2 (ex_wtp True) =
      Some (fst (the (pw_sendNew ex_quotes ex_wtp_heap 2 (ex_wtp True))), None)"
    by (metis option.collapse prod.collapse)
  have "find (\<lambda>q. crosses (cross_cmp kBuy) 99 (ex_wtp_heap q)) (opposite kBuy (pw_book (ex_wtp True) 3)) = None"
    by (simp add: ex_wtp_ok(3) opposite_def cross_cmp_def ex_wtp_crosses)
  then show ?thesis
    using accepted_order_crosses_nothing [where h = ex_wtp_heap and p = 2, OF ex_wtp_ok(1) f(1) i sent]
    by (simp add: Let_def f cross_cmp_def opposite_def)
qed

theorem market_orders_one_sided_witness:
  "snd (pw_canSend ex_quotes ex_wtp_heap 3 kBuy tw_INVALID_VALUE (ex_wtp False)) = None"
proof -
  have "\<forall>q. in_s32 (ord_price (ex_wtp_heap q)) \<and> in_s32 (ord_newPrice (ex_wtp_heap q))"
    by (simp add: ex_wtp_defs in_s32_def INT32_MIN_def INT32_MAX_def tw_INVALID_VALUE_def)
  from market_orders_one_sided [OF ex_wtp_ok(1,2) this] show ?thesis by simp
qed

text \<open>
  With the quote rule on, only the first crossing order of the list decides. Own offers at
  105 (sent first) and at 100, the best offer and the last trade: a buy at 105 is let through
  because the order at 105 is not at the best price, although it trades with the own order at
  100. Without the first order it is refused.
\<close>

theorem quote_rule_misses_best_order:
  "snd (pw_canSend ex_quotes ex_wtp_heap 3 kBuy 105 (ex_wtp True)) = None \<and>
   crosses (\<ge>) 105 (ex_wtp_heap 1) \<and>
   isCrossingOrderAtBestPrice (tq_ask (ex_quotes 3)) (ord_price (ex_wtp_heap 1)) kSell \<and>
   snd (pw_canSend ex_quotes ex_wtp_heap 3 kBuy 105 \<lparr>pw_use_quotes = True, pw_ordersBooks = [(3, ([], [1]))]\<rparr>) =
     Some (pw_getRej kWashTradePrevention)"
  by (simp add: pw_canSend_def pw_getOrCreateOrdersBook_def sm_get_or_create_def crossing_simps finished_def
      crosses_def ex_wtp_defs ticks_valid isCrossingOrderAtBestPrice_def pw_order_price_def)

end
