(* ===== verification/ProcessorMessaging.thy ===== *)
theory ProcessorMessaging
  imports ProcessorOrders
begin

section \<open>ProcessorMessaging: exchange messaging statistics (channel\_or/processor\_messaging.cpp)\<close>

text \<open>
  One record of counters per symbol, exchange and account, shared by all instruments of that
  symbol, and an index from instrument and account to its record. The code keeps the records in
  a \<open>std::list\<close> that only grows, so a pointer to a record is its position here. The
  counters are 32-bit unsigned and wrap.
\<close>

record pm_state =
  pm_infos :: "messaging_for_exchange list"
  pm_index :: "(instr_id \<times> account_id, nat) stdmap"

definition pm_clear :: pm_state where
  "pm_clear = \<lparr>pm_infos = [], pm_index = []\<rparr>"

definition pm_stop :: "pm_state \<Rightarrow> pm_state" where
  "pm_stop s = pm_clear"

definition pm_init :: "messaging_for_exchange list \<Rightarrow> pm_state \<Rightarrow> pm_state" where
  "pm_init v s = s\<lparr>pm_infos := pm_infos s @ v\<rparr>"

definition new_messaging :: "string \<Rightarrow> eExchange \<Rightarrow> account_id \<Rightarrow> messaging_for_exchange" where
  "new_messaging smb ex w =
     \<lparr>ms_newMsgs = 0, ms_modMsgs = 0, ms_cxlMsgs = 0, ms_totalVolume = 0,
      mx_symbol = smb, mx_exchange = ex, mx_accountId = w, mx_messaging_YYYYMMDD = ''''\<rparr>"

definition info_matches :: "'d instrument \<Rightarrow> account_id \<Rightarrow> messaging_for_exchange \<Rightarrow> bool" where
  "info_matches i w m \<longleftrightarrow> ins_symbol i = mx_symbol m \<and> ins_exchange i = mx_exchange m \<and> w = mx_accountId m"

text \<open>The search loop: the position of the first matching record.\<close>

fun pm_search :: "'d instrument \<Rightarrow> account_id \<Rightarrow> nat \<Rightarrow> messaging_for_exchange list \<Rightarrow> nat option" where
  "pm_search i w n [] = None"
| "pm_search i w n (m # ms) = (if info_matches i w m then Some n else pm_search i w (n + 1) ms)"

definition pm_getInfo ::
    "'d instr_lookup \<Rightarrow> instr_id \<Rightarrow> account_id \<Rightarrow> pm_state \<Rightarrow> pm_state \<times> nat option" where
  "pm_getInfo il v w s =
     (case sm_find (pm_index s) (v, w) of
        Some n \<Rightarrow> (s, Some n)
      | None \<Rightarrow>
          (case il_getByKeyId il v of
             None \<Rightarrow> (s, None)
           | Some i \<Rightarrow>
               (let (s1, n) =
                  (case pm_search i w 0 (pm_infos s) of
                     Some n \<Rightarrow> (s, n)
                   | None \<Rightarrow> (s\<lparr>pm_infos := pm_infos s @ [new_messaging (ins_symbol i) (ins_exchange i) w]\<rparr>,
                              length (pm_infos s)))
                in (s1\<lparr>pm_index := sm_insert (pm_index s1) (v, w) n\<rparr>, Some n))))"

text \<open>Update the record and copy its \<open>Messaging\<close> part into the order.\<close>

definition copy_messaging :: "messaging_for_exchange \<Rightarrow> 'd order \<Rightarrow> 'd order" where
  "copy_messaging m ord = ord\<lparr>ms_newMsgs := ms_newMsgs m, ms_modMsgs := ms_modMsgs m,
     ms_cxlMsgs := ms_cxlMsgs m, ms_totalVolume := ms_totalVolume m\<rparr>"

definition pm_bump ::
    "'d instr_lookup \<Rightarrow> (messaging_for_exchange \<Rightarrow> messaging_for_exchange) \<Rightarrow> 'd order \<Rightarrow> pm_state \<Rightarrow> 'd order \<times> pm_state" where
  "pm_bump il f ord s =
     (case pm_getInfo il (ord_instrumentId ord) (ord_accountId ord) s of
        (s1, None) \<Rightarrow> (ord, s1)
      | (s1, Some n) \<Rightarrow>
          (let m = f (pm_infos s1 ! n)
           in (copy_messaging m ord, s1\<lparr>pm_infos := (pm_infos s1)[n := m]\<rparr>)))"

definition pm_sendNew :: "'d instr_lookup \<Rightarrow> 'd order \<Rightarrow> pm_state \<Rightarrow> 'd order \<times> pm_state" where
  "pm_sendNew il ord s = pm_bump il (\<lambda>m. m\<lparr>ms_newMsgs := ms_newMsgs m + 1\<rparr>) ord s"

definition pm_sendMod :: "'d instr_lookup \<Rightarrow> 'd order \<Rightarrow> pm_state \<Rightarrow> 'd order \<times> pm_state" where
  "pm_sendMod il ord s = pm_bump il (\<lambda>m. m\<lparr>ms_modMsgs := ms_modMsgs m + 1\<rparr>) ord s"

definition pm_sendCxl :: "'d instr_lookup \<Rightarrow> 'd order \<Rightarrow> pm_state \<Rightarrow> 'd order \<times> pm_state" where
  "pm_sendCxl il ord s = pm_bump il (\<lambda>m. m\<lparr>ms_cxlMsgs := ms_cxlMsgs m + 1\<rparr>) ord s"

definition pm_onNewRej :: "'d instr_lookup \<Rightarrow> 'd order \<Rightarrow> reject \<Rightarrow> pm_state \<Rightarrow> 'd order \<times> pm_state" where
  "pm_onNewRej il ord rej s =
     (if kInternal \<noteq> rej_rejType rej then (ord, s)
      else pm_bump il (\<lambda>m. m\<lparr>ms_newMsgs := ms_newMsgs m - 1\<rparr>) ord s)"

definition pm_onModRej :: "'d instr_lookup \<Rightarrow> 'd order \<Rightarrow> reject \<Rightarrow> pm_state \<Rightarrow> 'd order \<times> pm_state" where
  "pm_onModRej il ord rej s =
     (if kInternal \<noteq> rej_rejType rej then (ord, s)
      else pm_bump il (\<lambda>m. m\<lparr>ms_modMsgs := ms_modMsgs m - 1\<rparr>) ord s)"

definition pm_onCxlRej :: "'d instr_lookup \<Rightarrow> 'd order \<Rightarrow> reject \<Rightarrow> pm_state \<Rightarrow> 'd order \<times> pm_state" where
  "pm_onCxlRej il ord rej s =
     (if kInternal \<noteq> rej_rejType rej then (ord, s)
      else pm_bump il (\<lambda>m. m\<lparr>ms_cxlMsgs := ms_cxlMsgs m - 1\<rparr>) ord s)"

definition pm_onFill :: "'d instr_lookup \<Rightarrow> 'd fill \<Rightarrow> pm_state \<Rightarrow> 'd fill \<times> pm_state" where
  "pm_onFill il f s =
     (case pm_getInfo il (fl_instrumentId f) (fl_accountId f) s of
        (s1, None) \<Rightarrow> (f, s1)
      | (s1, Some n) \<Rightarrow>
          (let m = (pm_infos s1 ! n)\<lparr>ms_totalVolume := ms_totalVolume (pm_infos s1 ! n) + word_of_int (fl_qty f)\<rparr>
           in (f\<lparr>ms_newMsgs := ms_newMsgs m, ms_modMsgs := ms_modMsgs m, ms_cxlMsgs := ms_cxlMsgs m,
                 ms_totalVolume := ms_totalVolume m\<rparr>,
               s1\<lparr>pm_infos := (pm_infos s1)[n := m]\<rparr>)))"

definition pm_recordFill :: "'d instr_lookup \<Rightarrow> 'd fill \<Rightarrow> pm_state \<Rightarrow> 'd fill \<times> pm_state" where
  "pm_recordFill il f s = pm_onFill il f s"

subsection \<open>The index\<close>

text \<open>
  Every index entry points at the first record of its instrument's symbol and exchange and of
  its account.
\<close>

definition entry_ok :: "'d instr_lookup \<Rightarrow> messaging_for_exchange list \<Rightarrow> instr_id \<Rightarrow> account_id \<Rightarrow> nat \<Rightarrow> bool" where
  "entry_ok il infos v w n \<longleftrightarrow> n < length infos \<and>
     (\<exists>i. il_getByKeyId il v = Some i \<and> info_matches i w (infos ! n) \<and>
        (\<forall>j < n. \<not> info_matches i w (infos ! j)))"

definition pm_inv :: "'d instr_lookup \<Rightarrow> pm_state \<Rightarrow> bool" where
  "pm_inv il s \<longleftrightarrow> sm_ok (pm_index s) \<and>
     (\<forall>v w n. sm_find (pm_index s) (v, w) = Some n \<longrightarrow> entry_ok il (pm_infos s) v w n)"

lemma entry_ok_append: "entry_ok il infos v w n \<Longrightarrow> entry_ok il (infos @ xs) v w n"
  by (auto simp: entry_ok_def nth_append)

lemma entry_ok_new:
  assumes "il_getByKeyId il v = Some i" and "\<forall>m \<in> set infos. \<not> info_matches i w m"
  shows "entry_ok il (infos @ [new_messaging (ins_symbol i) (ins_exchange i) w]) v w (length infos)"
  using assms by (auto simp: entry_ok_def nth_append new_messaging_def info_matches_def)

lemma pm_search_Some:
  "pm_search i w k ms = Some n \<Longrightarrow>
     k \<le> n \<and> n - k < length ms \<and> info_matches i w (ms ! (n - k)) \<and>
     (\<forall>j < n - k. \<not> info_matches i w (ms ! j))"
proof (induction ms arbitrary: k)
  case (Cons m ms)
  show ?case
  proof (cases "info_matches i w m")
    case True
    with Cons.prems show ?thesis by simp
  next
    case False
    with Cons.prems have r: "pm_search i w (k + 1) ms = Some n" by simp
    from Cons.IH [OF r] have *: "k + 1 \<le> n" "n - (k + 1) < length ms" "info_matches i w (ms ! (n - (k + 1)))"
        "\<forall>j < n - (k + 1). \<not> info_matches i w (ms ! j)" by auto
    then obtain d where n: "n = Suc (k + d)" by (metis Suc_eq_plus1 add_Suc le_iff_add)
    show ?thesis using * False by (auto simp: n nth_Cons less_Suc_eq_0_disj split: nat.splits)
  qed
qed simp

lemma pm_search_None: "pm_search i w k ms = None \<longleftrightarrow> (\<forall>m \<in> set ms. \<not> info_matches i w m)"
  by (induction ms arbitrary: k) auto

lemma pm_getInfo_spec:
  assumes inv: "pm_inv il s" and i: "il_getByKeyId il v = Some i" and g: "pm_getInfo il v w s = (s1, r)"
  shows "pm_inv il s1" and "\<exists>n. r = Some n \<and> n < length (pm_infos s1) \<and> info_matches i w (pm_infos s1 ! n) \<and>
      sm_find (pm_index s1) (v, w) = Some n"
    and "\<exists>xs. pm_infos s1 = pm_infos s @ xs \<and> (\<forall>m \<in> set xs. ms_newMsgs m = 0 \<and> ms_totalVolume m = 0)"
proof -
  have ok: "sm_ok (pm_index s)" using inv by (simp add: pm_inv_def)
  consider (hit) n where "sm_find (pm_index s) (v, w) = Some n"
    | (found) n where "sm_find (pm_index s) (v, w) = None" "pm_search i w 0 (pm_infos s) = Some n"
    | (fresh) "sm_find (pm_index s) (v, w) = None" "pm_search i w 0 (pm_infos s) = None"
    by (cases "sm_find (pm_index s) (v, w)"; cases "pm_search i w 0 (pm_infos s)") auto
  note cases3 = this
  show "pm_inv il s1"
  proof (cases rule: cases3)
    case hit
    then show ?thesis using g inv by (simp add: pm_getInfo_def)
  next
    case found
    from pm_search_Some [OF found(2)] i have "entry_ok il (pm_infos s) v w n" by (auto simp: entry_ok_def)
    with inv g i found show ?thesis
      by (auto simp: pm_getInfo_def pm_inv_def sm_ok_insert sm_find_insert [OF ok] split: if_splits)
  next
    case fresh
    have "entry_ok il (pm_infos s @ [new_messaging (ins_symbol i) (ins_exchange i) w]) v w (length (pm_infos s))"
      using fresh(2) by (intro entry_ok_new [OF i]) (simp add: pm_search_None)
    with g i fresh inv show ?thesis
      by (auto simp: pm_getInfo_def pm_inv_def sm_ok_insert sm_find_insert [OF ok] entry_ok_append split: if_splits)
  qed
  show "\<exists>n. r = Some n \<and> n < length (pm_infos s1) \<and> info_matches i w (pm_infos s1 ! n) \<and>
      sm_find (pm_index s1) (v, w) = Some n"
  proof (cases rule: cases3)
    case hit
    with inv have "entry_ok il (pm_infos s) v w n" by (simp add: pm_inv_def)
    with hit g i have "r = Some n \<and> n < length (pm_infos s1) \<and> info_matches i w (pm_infos s1 ! n) \<and>
        sm_find (pm_index s1) (v, w) = Some n" by (auto simp: pm_getInfo_def entry_ok_def)
    then show ?thesis by blast
  next
    case found
    from pm_search_Some [OF found(2)] g i found show ?thesis
      by (intro exI [of _ n]) (auto simp: pm_getInfo_def sm_find_insert [OF ok])
  next
    case fresh
    from g i fresh show ?thesis
      by (auto simp: pm_getInfo_def sm_find_insert [OF ok] info_matches_def new_messaging_def)
  qed
  show "\<exists>xs. pm_infos s1 = pm_infos s @ xs \<and> (\<forall>m \<in> set xs. ms_newMsgs m = 0 \<and> ms_totalVolume m = 0)"
    using g i by (auto simp: pm_getInfo_def new_messaging_def split: option.splits)
qed

lemma pm_getInfo_hit: "sm_find (pm_index s) (v, w) = Some n \<Longrightarrow> pm_getInfo il v w s = (s, Some n)"
  by (simp add: pm_getInfo_def)

lemma entry_ok_update:
  assumes "entry_ok il infos v w n" and "\<And>m. mx_symbol (f m) = mx_symbol m \<and> mx_exchange (f m) = mx_exchange m \<and> mx_accountId (f m) = mx_accountId m"
  shows "entry_ok il (infos[k := f (infos ! k)]) v w n"
proof -
  have "info_matches i w (infos[k := f (infos ! k)] ! j) \<longleftrightarrow> info_matches i w (infos ! j)"
      for i :: "'a instrument" and j
    using assms(2) by (cases "k < length infos") (auto simp: info_matches_def nth_list_update list_update_beyond)
  with assms(1) show ?thesis by (simp add: entry_ok_def)
qed

text \<open>A change of the counters that keeps the identity of the record.\<close>

definition counts_only :: "(messaging_for_exchange \<Rightarrow> messaging_for_exchange) \<Rightarrow> bool" where
  "counts_only f \<longleftrightarrow> (\<forall>m. mx_symbol (f m) = mx_symbol m \<and> mx_exchange (f m) = mx_exchange m \<and> mx_accountId (f m) = mx_accountId m)"

lemma pm_bump_spec:
  assumes inv: "pm_inv il s" and i: "il_getByKeyId il (ord_instrumentId ord) = Some i" and f: "counts_only f"
    and b: "pm_bump il f ord s = (ord', s')"
  obtains s1 n where "pm_getInfo il (ord_instrumentId ord) (ord_accountId ord) s = (s1, Some n)"
    and "n < length (pm_infos s1)" and "s' = s1\<lparr>pm_infos := (pm_infos s1)[n := f (pm_infos s1 ! n)]\<rparr>"
    and "ord' = copy_messaging (f (pm_infos s1 ! n)) ord" and "pm_inv il s'"
    and "sm_find (pm_index s') (ord_instrumentId ord, ord_accountId ord) = Some n"
proof -
  obtain s1 r where g: "pm_getInfo il (ord_instrumentId ord) (ord_accountId ord) s = (s1, r)" by fastforce
  note gs = pm_getInfo_spec [OF inv i g]
  from gs(2) obtain n where n: "r = Some n" "n < length (pm_infos s1)"
      "sm_find (pm_index s1) (ord_instrumentId ord, ord_accountId ord) = Some n" by blast
  have s': "s' = s1\<lparr>pm_infos := (pm_infos s1)[n := f (pm_infos s1 ! n)]\<rparr>"
    and o': "ord' = copy_messaging (f (pm_infos s1 ! n)) ord"
    using b by (simp_all add: pm_bump_def g n(1) Let_def)
  have "pm_inv il s'" using gs(1) f by (auto simp: s' pm_inv_def counts_only_def intro!: entry_ok_update)
  then show thesis using that [of s1 n] g n s' o' by simp
qed

text \<open>
  A new order that is refused inside the system is not counted: the reject takes the message
  back, every record has the counters it had (a record created on the way has zeroes) and the
  order's copy agrees. An external reject keeps the count, since the exchange saw the message.
\<close>

theorem messaging_internal_reject_neutral:
  assumes "pm_inv il s" and "il_getByKeyId il (ord_instrumentId ord) = Some i"
    and "pm_sendNew il ord s = (ord1, s1)" and "pm_onNewRej il ord1 rej s1 = (ord2, s2)"
  shows "(rej_rejType rej = kInternal \<longrightarrow>
      (\<exists>xs. pm_infos s2 = pm_infos s @ xs \<and> (\<forall>m \<in> set xs. ms_newMsgs m = 0))) \<and>
    (rej_rejType rej \<noteq> kInternal \<longrightarrow> s2 = s1 \<and> ord2 = ord1)"
proof -
  have f: "counts_only (\<lambda>m. m\<lparr>ms_newMsgs := ms_newMsgs m + 1\<rparr>)" "counts_only (\<lambda>m. m\<lparr>ms_newMsgs := ms_newMsgs m - 1\<rparr>)"
    by (simp_all add: counts_only_def)
  from pm_bump_spec [OF assms(1,2) f(1) assms(3) [unfolded pm_sendNew_def]]
  obtain t n where t: "pm_getInfo il (ord_instrumentId ord) (ord_accountId ord) s = (t, Some n)"
      "n < length (pm_infos t)" "s1 = t\<lparr>pm_infos := (pm_infos t)[n := (pm_infos t ! n)\<lparr>ms_newMsgs := ms_newMsgs (pm_infos t ! n) + 1\<rparr>]\<rparr>"
      and o1: "ord1 = copy_messaging ((pm_infos t ! n)\<lparr>ms_newMsgs := ms_newMsgs (pm_infos t ! n) + 1\<rparr>) ord"
      and inv1: "pm_inv il s1" and idx: "sm_find (pm_index s1) (ord_instrumentId ord, ord_accountId ord) = Some n"
    by blast
  have ids: "ord_instrumentId ord1 = ord_instrumentId ord" "ord_accountId ord1 = ord_accountId ord"
    by (simp_all add: o1 copy_messaging_def)
  have undone: "pm_infos s2 = pm_infos t" if "rej_rejType rej = kInternal"
  proof -
    from assms(4) that have "pm_infos s2 = (pm_infos s1)[n := (pm_infos s1 ! n)\<lparr>ms_newMsgs := ms_newMsgs (pm_infos s1 ! n) - 1\<rparr>]"
      by (auto simp: pm_onNewRej_def pm_bump_def ids pm_getInfo_hit [OF idx] Let_def)
    then show ?thesis using t(2) by (simp add: t(3))
  qed
  from pm_getInfo_spec(3) [OF assms(1,2) t(1)] have "\<exists>xs. pm_infos t = pm_infos s @ xs \<and> (\<forall>m \<in> set xs. ms_newMsgs m = 0)"
    by blast
  with undone assms(4) show ?thesis by (auto simp: pm_onNewRej_def)
qed

definition ex_msg_lookup :: "int instr_lookup" where
  "ex_msg_lookup = \<lparr>il_getByKeyId = (\<lambda>k. Some (instrument_clear\<lparr>ins_keyId := k, ins_symbol := ''ES'', ins_exchange := kCME\<rparr>)),
    il_getByDisplayName = (\<lambda>_. None)\<rparr>"

definition ex_order0 :: "int order" where "ex_order0 = order_default"

theorem messaging_internal_reject_neutral_witness:
  "let (ord1, s1) = pm_sendNew ex_msg_lookup ex_order0 pm_clear;
       (ord2, s2) = pm_onNewRej ex_msg_lookup ord1 (internal_rej kProcessorRisk kSymbolMaxPos) s1 in
   \<exists>xs. pm_infos s2 = xs \<and> (\<forall>m \<in> set xs. ms_newMsgs m = 0)"
proof -
  have inv: "pm_inv ex_msg_lookup pm_clear" by (simp add: pm_inv_def pm_clear_def)
  obtain i where i: "il_getByKeyId ex_msg_lookup (ord_instrumentId ex_order0) = Some i"
    by (simp add: ex_msg_lookup_def)
  obtain ord1 s1 where s: "pm_sendNew ex_msg_lookup ex_order0 pm_clear = (ord1, s1)" by (rule prod.exhaust)
  obtain ord2 s2 where r: "pm_onNewRej ex_msg_lookup ord1 (internal_rej kProcessorRisk kSymbolMaxPos) s1 = (ord2, s2)"
    by (rule prod.exhaust)
  from messaging_internal_reject_neutral [OF inv i s r] have "\<forall>m \<in> set (pm_infos s2). ms_newMsgs m = 0"
    by (simp add: pm_clear_def internal_rej_def)
  then show ?thesis by (simp add: s r)
qed

text \<open>
  Instruments of one symbol and exchange share one record per account: after both have been
  used, the index sends both to the same record.
\<close>

theorem messaging_shared_by_symbol:
  assumes "pm_inv il s" and "il_getByKeyId il v = Some i" and "il_getByKeyId il v' = Some i'"
    and "ins_symbol i = ins_symbol i'" and "ins_exchange i = ins_exchange i'"
    and "pm_getInfo il v w s = (s1, r)" and "pm_getInfo il v' w s1 = (s2, r')"
  shows "r = r' \<and> r \<noteq> None"
proof -
  have same: "info_matches i w m \<longleftrightarrow> info_matches i' w m" for m using assms(4,5) by (simp add: info_matches_def)
  note g1 = pm_getInfo_spec [OF assms(1,2,6)]
  note g2 = pm_getInfo_spec [OF g1(1) assms(3,7)]
  obtain n where n: "r = Some n" "sm_find (pm_index s1) (v, w) = Some n" using g1(2) by blast
  obtain n' where n': "r' = Some n'" "sm_find (pm_index s2) (v', w) = Some n'" using g2(2) by blast
  have e1: "entry_ok il (pm_infos s2) v w n"
    using g1(1) n(2) g2(3) entry_ok_append by (fastforce simp: pm_inv_def)
  have e2: "entry_ok il (pm_infos s2) v' w n'" using g2(1) n'(2) by (simp add: pm_inv_def)
  from e1 e2 assms(2,3) same have "\<not> n < n'" "\<not> n' < n" by (auto simp: entry_ok_def)
  then show ?thesis using n(1) n'(1) by simp
qed

theorem messaging_shared_by_symbol_witness:
  "let (s1, r) = pm_getInfo ex_msg_lookup 1 9 pm_clear; (s2, r') = pm_getInfo ex_msg_lookup 2 9 s1 in r = r'"
proof -
  have inv: "pm_inv ex_msg_lookup pm_clear" by (simp add: pm_inv_def pm_clear_def)
  obtain i i' where i: "il_getByKeyId ex_msg_lookup 1 = Some i" "il_getByKeyId ex_msg_lookup 2 = Some i'"
      "ins_symbol i = ins_symbol i'" "ins_exchange i = ins_exchange i'"
    by (simp add: ex_msg_lookup_def)
  obtain s1 r where a: "pm_getInfo ex_msg_lookup 1 9 pm_clear = (s1, r)" by (rule prod.exhaust)
  obtain s2 r' where b: "pm_getInfo ex_msg_lookup 2 9 s1 = (s2, r')" by (rule prod.exhaust)
  from messaging_shared_by_symbol [OF inv i a b] show ?thesis by (simp add: a b)
qed

end
