(* ===== verification/TicksConverter.thy ===== *)
theory TicksConverter
  imports Complex_Main OrDefs
begin

section \<open>TicksConverter: exchange prices and ticks (price/ticks\_converter.h, ticks\_converter.cpp)\<close>

text \<open>
  An instrument's tick size is \<open>numerator / denominator\<close>. The class picks one of four
  converters, with the multiplications and divisions that the tick size needs. Prices are
  elements of an ordered field with floor and ceiling, so the arithmetic is exact; a conversion
  of a double to an integer truncates towards zero.
\<close>

definition g_epsilon :: "'d::floor_ceiling" where
  "g_epsilon = 1 / 10000"

text \<open>\<open>static_cast<int32_t>\<close> of a double; C++ leaves values outside the range undefined.\<close>

definition cast_int :: "'d::floor_ceiling \<Rightarrow> int" where
  "cast_int x = (if 0 \<le> x then \<lfloor>x\<rfloor> else \<lceil>x\<rceil>)"

datatype converter = ConverterNull | ConverterNum u32 | ConverterDenom u32 | ConverterFull u32 u32

definition u32_val :: "u32 \<Rightarrow> 'd::floor_ceiling" where
  "u32_val w = of_int (uint w)"

text \<open>\<open>resetWithNewInstrument\<close>; \<open>None\<close> where it throws.\<close>

definition tc_resetWithNewInstrument :: "('d::floor_ceiling) instrument option \<Rightarrow> converter option" where
  "tc_resetWithNewInstrument ins =
     (case ins of
        None \<Rightarrow> None
      | Some i \<Rightarrow>
          if \<not> ins_isValid i then None
          else if ins_tickNumerator i = ins_tickDenominator i then Some ConverterNull
          else if 1 = ins_tickDenominator i then Some (ConverterNum (ins_tickNumerator i))
          else if 1 = ins_tickNumerator i then Some (ConverterDenom (ins_tickDenominator i))
          else Some (ConverterFull (ins_tickNumerator i) (ins_tickDenominator i)))"

fun tc_fractionalTicks :: "converter \<Rightarrow> 'd::floor_ceiling \<Rightarrow> 'd" where
  "tc_fractionalTicks ConverterNull x = x"
| "tc_fractionalTicks (ConverterNum n) x = x / u32_val n"
| "tc_fractionalTicks (ConverterDenom d) x = x * u32_val d"
| "tc_fractionalTicks (ConverterFull n d) x = (x * u32_val d) / u32_val n"

fun tc_fromExchangePrice :: "converter \<Rightarrow> 'd::floor_ceiling \<Rightarrow> ticks" where
  "tc_fromExchangePrice ConverterNull x = cast_int x"
| "tc_fromExchangePrice c x = cast_int (tc_fractionalTicks c x + g_epsilon)"

text \<open>
  \<open>ConverterNum\<close> multiplies a signed by an unsigned 32-bit integer, which C++ does in
  unsigned arithmetic.
\<close>

fun tc_toExchangePrice :: "converter \<Rightarrow> ticks \<Rightarrow> 'd::floor_ceiling" where
  "tc_toExchangePrice ConverterNull t = of_int t"
| "tc_toExchangePrice (ConverterNum n) t = u32_val (word_of_int t * n)"
| "tc_toExchangePrice (ConverterDenom d) t = of_int t / u32_val d"
| "tc_toExchangePrice (ConverterFull n d) t = of_int t * u32_val n / u32_val d"

fun tc_toFractionalExchangePrice :: "converter \<Rightarrow> 'd::floor_ceiling \<Rightarrow> 'd" where
  "tc_toFractionalExchangePrice ConverterNull x = x"
| "tc_toFractionalExchangePrice (ConverterNum n) x = x * u32_val n"
| "tc_toFractionalExchangePrice (ConverterDenom d) x = x / u32_val d"
| "tc_toFractionalExchangePrice (ConverterFull n d) x = x * u32_val n / u32_val d"

text \<open>\<open>rint\<close> in the default rounding mode: halves go to the even neighbour.\<close>

definition tc_nearestTick :: "'d::floor_ceiling \<Rightarrow> ticks" where
  "tc_nearestTick x =
     (let f = \<lfloor>x\<rfloor>; r = x - of_int f in
      if r < 1 / 2 then f else if 1 / 2 < r then f + 1 else if even f then f else f + 1)"

definition tc_nearestTickAbove :: "'d::floor_ceiling \<Rightarrow> ticks" where
  "tc_nearestTickAbove x = \<lceil>x - g_epsilon\<rceil>"

definition tc_nearestTickBelow :: "'d::floor_ceiling \<Rightarrow> ticks" where
  "tc_nearestTickBelow x = \<lfloor>x + g_epsilon\<rfloor>"

definition tc_nearestTick_tol :: "'d::floor_ceiling \<Rightarrow> 'd \<Rightarrow> ticks" where
  "tc_nearestTick_tol x tol =
     (if tol > 0 then tc_nearestTickAbove (x + tol) else tc_nearestTickBelow (x + tol))"

definition tc_nextTickAbove :: "'d::floor_ceiling \<Rightarrow> ticks" where
  "tc_nextTickAbove x = tw_inc (tc_nearestTickAbove x)"

definition tc_nextTickBelow :: "'d::floor_ceiling \<Rightarrow> ticks" where
  "tc_nextTickBelow x = tw_dec (tc_nearestTickBelow x)"

text \<open>
  The two functions call each other on a negative count; the negation of a negative valid count
  is positive, so the mutual call happens at most once. The invalid count is its own negation
  and smaller than zero, so the code would recurse for ever: \<open>None\<close>.
\<close>

definition tc_nTicksAbove :: "'d::floor_ceiling \<Rightarrow> ticks \<Rightarrow> ticks option" where
  "tc_nTicksAbove x n =
     (if n < 0
      then (if tw_neg n < 0 then None else Some (tw_sub (tc_nearestTickBelow x) (tw_neg n)))
      else Some (tw_add (tc_nearestTickAbove x) n))"

definition tc_nTicksBelow :: "'d::floor_ceiling \<Rightarrow> ticks \<Rightarrow> ticks option" where
  "tc_nTicksBelow x n =
     (if n < 0
      then (if tw_neg n < 0 then None else Some (tw_add (tc_nearestTickAbove x) (tw_neg n)))
      else Some (tw_sub (tc_nearestTickBelow x) n))"

subsection \<open>The four converters against one formula\<close>

definition tick_size :: "('d::floor_ceiling) instrument \<Rightarrow> 'd" where
  "tick_size i = u32_val (ins_tickNumerator i) / u32_val (ins_tickDenominator i)"

lemma u32_val_pos: "w \<noteq> 0 \<Longrightarrow> (0::'d::floor_ceiling) < u32_val w"
proof -
  assume "w \<noteq> 0"
  then have "0 < uint w" using uint_ge_0 [of w] by (simp add: uint_0_iff less_le)
  then show ?thesis by (simp only: u32_val_def of_int_0_less_iff)
qed

lemma u32_val_1 [simp]: "u32_val 1 = (1::'d::floor_ceiling)"
  by (simp add: u32_val_def)

lemma tick_size_pos: "ins_isValid i \<Longrightarrow> 0 < tick_size i"
  by (simp add: tick_size_def ins_isValid_def u32_val_pos)

text \<open>
  Whichever converter is chosen, fractional ticks and fractional prices are the price
  divided and multiplied by the tick size, so the two conversions undo each other.
\<close>

lemma converters_agree:
  assumes "tc_resetWithNewInstrument (Some i) = Some c"
  shows "tc_fractionalTicks c x = x / tick_size i \<and>
    tc_toFractionalExchangePrice c x = x * tick_size i \<and>
    tc_fractionalTicks c (tc_toFractionalExchangePrice c x) = x"
proof -
  have v: "ins_isValid i" and nz: "ins_tickNumerator i \<noteq> 0" "ins_tickDenominator i \<noteq> 0"
    using assms by (auto simp: tc_resetWithNewInstrument_def ins_isValid_def split: if_splits)
  note p = u32_val_pos [OF nz(1), where 'd='a] u32_val_pos [OF nz(2), where 'd='a]
  have f: "tc_fractionalTicks c x = x / tick_size i" "tc_toFractionalExchangePrice c x = x * tick_size i" for x
    using assms v p
    by (auto simp: tc_resetWithNewInstrument_def tick_size_def split: if_splits)
  show ?thesis using tick_size_pos [OF v] by (simp add: f)
qed

lemma cast_of_int_eps:
  "0 \<le> t \<Longrightarrow> cast_int (of_int t + g_epsilon :: 'd::floor_ceiling) = t"
  "t < 0 \<Longrightarrow> cast_int (of_int t + g_epsilon :: 'd::floor_ceiling) = t + 1"
proof -
  have e: "0 < (g_epsilon :: 'd)" "(g_epsilon :: 'd) < 1" by (simp_all add: g_epsilon_def)
  show "0 \<le> t \<Longrightarrow> cast_int (of_int t + g_epsilon :: 'd) = t"
    using e by (auto simp: cast_int_def add_nonneg_nonneg floor_eq_iff intro: add_nonneg_nonneg)
  show "t < 0 \<Longrightarrow> cast_int (of_int t + g_epsilon :: 'd) = t + 1"
  proof -
    assume t: "t < 0"
    then have "(of_int t :: 'd) \<le> - 1" using of_int_le_iff [of t "- 1", where 'a='d] by simp
    with e have "(of_int t + g_epsilon :: 'd) < 0" by linarith
    with e show ?thesis by (auto simp: cast_int_def ceiling_eq_iff)
  qed
qed

lemma converter_num_exact:
  assumes "0 \<le> t" and "t * uint n < 2 ^ 32"
  shows "(u32_val (word_of_int t * n) :: 'd::floor_ceiling) = of_int t * u32_val n"
proof -
  have "uint (word_of_int t * n) = t * uint n"
    using assms by (simp add: uint_word_ariths uint_word_of_int mod_mult_left_eq mod_pos_pos_trivial)
  then show ?thesis by (simp add: u32_val_def)
qed

lemma tc_from_eq:
  "tc_fromExchangePrice c x =
     (if c = ConverterNull then cast_int x else cast_int (tc_fractionalTicks c x + g_epsilon))"
  by (cases c) simp_all

lemma cast_int_of_int [simp]: "cast_int (of_int t) = t"
  by (simp add: cast_int_def)

text \<open>
  The tolerance: a number of ticks that is off by at most a ten-thousandth is read as the whole
  number it is meant to be.
\<close>

lemma cast_near_tick:
  fixes y :: "'d::floor_ceiling"
  assumes "0 \<le> t" and "\<bar>y - of_int t\<bar> \<le> 1 / 10000"
  shows "cast_int (y + g_epsilon) = t"
proof -
  have e: "g_epsilon = (1 / 10000 :: 'd)" by (simp add: g_epsilon_def)
  have t: "(0 :: 'd) \<le> of_int t" using assms(1) by simp
  have lo: "of_int t \<le> y + g_epsilon" and hi: "y + g_epsilon < of_int t + 1"
    using assms(2) [unfolded abs_le_iff] unfolding e by linarith+
  moreover have "0 \<le> y + g_epsilon" using t lo by linarith
  ultimately show ?thesis by (simp add: cast_int_def floor_eq_iff)
qed

text \<open>
  C34: for every valid instrument and every non-negative tick count (such that the product with
  the tick's numerator fits the unsigned 32 bits in which it is computed), the exchange price of the
  count is the count times the tick size; and not only this price is read back as the same count,
  but every price within a ten-thousandth of a tick of it, so that the errors of a price that went
  through decimal text and double rounding do no harm. For a tick size of one there is no such
  tolerance: the price must be exact. (The arithmetic of the conversion itself is exact here; in
  the program the rounding of its one or two operations comes out of the same tolerance.)
\<close>

theorem ticks_price_round_trip:
  assumes "tc_resetWithNewInstrument (Some i) = Some c" and "0 \<le> t"
    and "t * uint (ins_tickNumerator i) < 2 ^ 32"
    and "\<bar>x - tc_toExchangePrice c t\<bar> \<le>
      (if ins_tickNumerator i = ins_tickDenominator i then 0 else tick_size i / 10000)"
  shows "tc_toExchangePrice c t = of_int t * tick_size (i :: ('d::floor_ceiling) instrument) \<and>
    tc_fromExchangePrice c x = t"
proof -
  have v: "ins_isValid i" and nz: "ins_tickNumerator i \<noteq> 0" "ins_tickDenominator i \<noteq> 0"
    using assms(1) by (auto simp: tc_resetWithNewInstrument_def ins_isValid_def split: if_splits)
  note p = u32_val_pos [OF nz(1), where 'd='d] u32_val_pos [OF nz(2), where 'd='d]
  have to: "tc_toExchangePrice c t = of_int t * tick_size i"
    using assms(1-3) p converter_num_exact [OF assms(2,3), where 'd='d]
    by (auto simp: tc_resetWithNewInstrument_def tick_size_def split: if_splits)
  have "tc_fromExchangePrice c x = t"
  proof (cases "ins_tickNumerator i = ins_tickDenominator i")
    case True
    then have "c = ConverterNull" using assms(1) by (auto simp: tc_resetWithNewInstrument_def split: if_splits)
    moreover have "x = of_int t" using assms(4) True to p by (simp add: tick_size_def)
    ultimately show ?thesis by simp
  next
    case False
    then have c: "c \<noteq> ConverterNull" using assms(1) by (auto simp: tc_resetWithNewInstrument_def split: if_splits)
    have pos: "0 < tick_size i" by (rule tick_size_pos [OF v])
    have "tc_fractionalTicks c x - of_int t = (x - of_int t * tick_size i) / tick_size i"
      using converters_agree [OF assms(1)] pos by (simp add: diff_divide_distrib)
    then have "\<bar>tc_fractionalTicks c x - of_int t\<bar> \<le> 1 / 10000"
      using assms(4) False pos by (simp add: to pos_divide_le_eq)
    from cast_near_tick [OF assms(2) this] c show ?thesis by (simp add: tc_from_eq)
  qed
  with to show ?thesis by simp
qed

text \<open>
  Negative prices (calendar spreads have them) do not survive. With a tick size other than a
  whole number the truncation after adding the tolerance loses a tick; with a whole tick size
  above one the unsigned product turns the price into a number near two to the thirty-two.
\<close>

theorem negative_prices_broken:
  assumes "tc_resetWithNewInstrument (Some i) = Some c" and "t < 0" and "- 2147483648 \<le> t * uint (ins_tickNumerator i)"
  shows "(ins_tickDenominator i \<noteq> 1 \<and> ins_tickNumerator i \<noteq> ins_tickDenominator i \<longrightarrow>
      tc_fromExchangePrice c (tc_toExchangePrice c t :: 'd::floor_ceiling) = t + 1) \<and>
    (ins_tickDenominator i = 1 \<and> ins_tickNumerator i \<noteq> 1 \<longrightarrow>
      tc_toExchangePrice c t = (of_int t * tick_size (i :: 'd instrument) + 4294967296))"
proof -
  have nz: "ins_tickNumerator i \<noteq> 0" "ins_tickDenominator i \<noteq> 0"
    using assms(1) by (auto simp: tc_resetWithNewInstrument_def ins_isValid_def split: if_splits)
  note p = u32_val_pos [OF nz(1), where 'd='d] u32_val_pos [OF nz(2), where 'd='d]
  have frac: "tc_fractionalTicks c (of_int t * tick_size i) = (of_int t :: 'd)"
    using converters_agree [OF assms(1)] p by (simp add: tick_size_def)
  have "tc_fromExchangePrice c (tc_toExchangePrice c t :: 'd) = t + 1"
    if d: "ins_tickDenominator i \<noteq> 1" "ins_tickNumerator i \<noteq> ins_tickDenominator i"
  proof -
    have "c \<noteq> ConverterNull" and "tc_toExchangePrice c t = of_int t * tick_size i"
      using assms(1) d by (auto simp: tc_resetWithNewInstrument_def tick_size_def split: if_splits)
    with frac cast_of_int_eps(2) [OF assms(2), where 'd='d] show ?thesis by (simp add: tc_from_eq)
  qed
  moreover have "tc_toExchangePrice c t = (of_int t * tick_size i + 4294967296)"
    if d: "ins_tickDenominator i = 1" "ins_tickNumerator i \<noteq> 1"
  proof -
    let ?n = "ins_tickNumerator i"
    have c: "c = ConverterNum ?n" using assms(1) d by (auto simp: tc_resetWithNewInstrument_def split: if_splits)
    have neg: "t * uint ?n < 0"
    proof (rule mult_neg_pos [OF assms(2)])
      show "0 < uint ?n" using nz(1) uint_ge_0 [of ?n] by (simp add: uint_0_iff less_le)
    qed
    have "(t * uint ?n + 4294967296) mod 4294967296 = t * uint ?n + 4294967296"
      by (rule mod_pos_pos_trivial) (use neg assms(3) in linarith)+
    then have m: "(t * uint ?n) mod 4294967296 = t * uint ?n + 4294967296" by simp
    then have "uint (word_of_int t * ?n) = t * uint ?n + 4294967296"
      by (simp add: uint_word_ariths uint_word_of_int mod_mult_left_eq)
    then have "u32_val (word_of_int t * ?n) = (of_int (t * uint ?n + 4294967296) :: 'd)"
      by (simp only: u32_val_def)
    then show ?thesis using d(1) by (simp add: c tick_size_def) (simp add: u32_val_def)
  qed
  ultimately show ?thesis by blast
qed

subsection \<open>Rounding to ticks\<close>

text \<open>
  \<open>nearestTickAbove\<close> and \<open>nearestTickBelow\<close> return the closest tick on their
  side up to the tolerance, agree on a whole number of ticks, and moving \<open>n\<close> ticks up is
  moving \<open>-n\<close> ticks down.
\<close>

theorem ticks_above_below:
  "of_int (tc_nearestTickAbove x) \<ge> x - g_epsilon \<and> of_int (tc_nearestTickAbove x) < x - g_epsilon + 1 \<and>
   of_int (tc_nearestTickBelow x) \<le> x + g_epsilon \<and> of_int (tc_nearestTickBelow x) > x + g_epsilon - 1 \<and>
   tc_nearestTickAbove (of_int t :: 'd::floor_ceiling) = t \<and> tc_nearestTickBelow (of_int t :: 'd) = t \<and>
   tc_nTicksAbove (x :: 'd) (of_nat n) = Some (tw_add (tc_nearestTickAbove x) (of_nat n)) \<and>
   (tw_ok m \<longrightarrow> tc_nTicksAbove x (- m) = tc_nTicksBelow x m \<or> m = 0)"
proof -
  have e: "0 < (g_epsilon :: 'd)" "(g_epsilon :: 'd) < 1" by (simp_all add: g_epsilon_def)
  have "tc_nearestTickAbove (of_int t :: 'd) = t" "tc_nearestTickBelow (of_int t :: 'd) = t"
    using e by (auto simp: tc_nearestTickAbove_def tc_nearestTickBelow_def ceiling_eq_iff floor_eq_iff)
  moreover have "of_int (tc_nearestTickAbove x) \<ge> x - g_epsilon" "of_int (tc_nearestTickAbove x) < x - g_epsilon + 1"
    using ceiling_correct [of "x - g_epsilon"] by (auto simp: tc_nearestTickAbove_def)
  moreover have "of_int (tc_nearestTickBelow x) \<le> x + g_epsilon" "of_int (tc_nearestTickBelow x) > x + g_epsilon - 1"
    using floor_correct [of "x + g_epsilon"] by (auto simp: tc_nearestTickBelow_def)
  moreover have "tc_nTicksAbove x (- m) = tc_nTicksBelow x m \<or> m = 0" if m: "tw_ok m"
  proof -
    have n: "tw_neg m = - m" "tw_neg (- m) = m"
      using m by (auto simp: tw_neg_def wrap_simps tw_ok_iff in_s32_def INT32_MIN_def INT32_MAX_def tw_isValid_def tw_INVALID_VALUE_def)
    then show ?thesis by (auto simp: tc_nTicksAbove_def tc_nTicksBelow_def)
  qed
  ultimately show ?thesis by (simp add: tc_nTicksAbove_def)
qed

subsection \<open>Witnesses: a quarter tick and a tick of five\<close>

definition ex_quarter :: "rat instrument" where
  "ex_quarter = instrument_clear\<lparr>ins_contractSize := 50, ins_tickNumerator := 1, ins_tickDenominator := 4\<rparr>"

lemma ex_quarter_conv: "tc_resetWithNewInstrument (Some ex_quarter) = Some (ConverterDenom 4)"
  by (simp add: tc_resetWithNewInstrument_def ex_quarter_def instrument_clear_def ins_isValid_def word_less_nat_alt)

theorem ticks_price_round_trip_witness:
  "tc_fromExchangePrice (ConverterDenom 4) (1237.49999 :: rat) = 4950"
proof -
  have "\<bar>(1237.49999 :: rat) - tc_toExchangePrice (ConverterDenom 4) 4950\<bar> \<le>
      (if ins_tickNumerator ex_quarter = ins_tickDenominator ex_quarter then 0 else tick_size ex_quarter / 10000)"
    by (simp add: ex_quarter_def instrument_clear_def tick_size_def u32_val_def)
  from ticks_price_round_trip [OF ex_quarter_conv _ _ this] show ?thesis
    by (simp add: ex_quarter_def instrument_clear_def)
qed

theorem negative_prices_broken_witness:
  "tc_fromExchangePrice (ConverterDenom 4) (tc_toExchangePrice (ConverterDenom 4) (- 5) :: rat) = - 4"
  using negative_prices_broken [OF ex_quarter_conv, of "- 5"]
  by (simp add: ex_quarter_def instrument_clear_def)

theorem ticks_above_below_witness:
  "tw_ok 3 \<and> tc_nTicksAbove (7 :: rat) (- 3) = tc_nTicksBelow (7 :: rat) 3"
  using ticks_above_below [where 'd=rat and x = 7 and m = 3 and t = 0 and n = 0] by (simp add: tw_ok_iff)

end
