(* ===== verification/PnL.thy ===== *)
theory PnL
  imports TicksConverter ProcessorOrders
begin

section \<open>Profit and loss of one instrument (common\_trade/ipnl.h, pnl.h)\<close>

text \<open>
  \<open>IPnL\<close> holds a position, realized and unrealized profit with their maxima and drawdowns,
  and the fees paid; \<open>PnL\<close> adds the instrument, the theoretical value and the average
  price. Every change is bracketed by two calls to an observer, here the arguments
  \<open>pre\<close> and \<open>post\<close> acting on the observer's state (the identity without an
  observer). Doubles are elements of an ordered field: the arithmetic is exact.
\<close>

record 'd pnl_info =
  pi_unrealizedPnL :: 'd
  pi_realizedPnL :: 'd
  pi_maxUnrealizedPnL :: 'd
  pi_maxRealizedPnL :: 'd
  pi_maxUnrealizedDrawdown :: 'd
  pi_maxRealizedDrawdown :: 'd
  pi_position :: size

record 'd ipnl =
  ip_pnl :: "'d pnl_info"
  ip_fees :: "'d fees"

record 'd pnl = "'d ipnl" +
  pn_instrument :: "'d instrument option"
  pn_isTVSet :: bool
  pn_tv :: 'd
  pn_avgPrice :: 'd

definition pnl_info_clear :: "('d::zero) pnl_info" where
  "pnl_info_clear = \<lparr>pi_unrealizedPnL = 0, pi_realizedPnL = 0, pi_maxUnrealizedPnL = 0, pi_maxRealizedPnL = 0,
     pi_maxUnrealizedDrawdown = 0, pi_maxRealizedDrawdown = 0, pi_position = tw_clear True\<rparr>"

definition pnl_clear :: "('d::zero) pnl" where
  "pnl_clear = \<lparr>ip_pnl = pnl_info_clear, ip_fees = fees_clear, pn_instrument = None, pn_isTVSet = False,
     pn_tv = 0, pn_avgPrice = 0\<rparr>"

text \<open>The theoretical value of an instrument (common\_trade/itv.h).\<close>

record 'd itv =
  tv_instrument :: "'d instrument option"
  tv_isTvSet :: bool
  tv_tv :: 'd

definition tv_isValid :: "('d::{zero,ord}) itv \<Rightarrow> bool" where
  "tv_isValid t = (case tv_instrument t of None \<Rightarrow> False | Some i \<Rightarrow> ins_isValid i \<and> tv_isTvSet t)"

definition tv_getInstrumentId :: "('d::{zero,ord}) itv \<Rightarrow> instr_id" where
  "tv_getInstrumentId t =
     (if tv_isValid t then (case tv_instrument t of None \<Rightarrow> 0 | Some i \<Rightarrow> ins_keyId i) else 0)"

subsection \<open>IPnL\<close>

definition ip_getPnL :: "('d::floor_ceiling) pnl_info \<Rightarrow> 'd" where
  "ip_getPnL p = pi_unrealizedPnL p + pi_realizedPnL p"

definition ip_updateRealizedPnL :: "('d::floor_ceiling) pnl_info \<Rightarrow> 'd pnl_info" where
  "ip_updateRealizedPnL p =
     (if pi_realizedPnL p > pi_maxRealizedPnL p
      then p\<lparr>pi_maxRealizedPnL := pi_realizedPnL p, pi_maxRealizedDrawdown := 0\<rparr>
      else p\<lparr>pi_maxRealizedDrawdown := pi_maxRealizedPnL p - pi_realizedPnL p\<rparr>)"

definition ip_updateUnrealizedPnL :: "bool \<Rightarrow> ('d::floor_ceiling) pnl_info \<Rightarrow> 'd pnl_info" where
  "ip_updateUnrealizedPnL ignorePos p =
     (if pi_position p = 0 \<and> \<not> ignorePos
      then p\<lparr>pi_unrealizedPnL := 0, pi_maxUnrealizedPnL := 0, pi_maxUnrealizedDrawdown := 0\<rparr>
      else if pi_unrealizedPnL p > pi_maxUnrealizedPnL p
      then p\<lparr>pi_maxUnrealizedPnL := pi_unrealizedPnL p, pi_maxUnrealizedDrawdown := 0\<rparr>
      else p\<lparr>pi_maxUnrealizedDrawdown := pi_maxUnrealizedPnL p - pi_unrealizedPnL p\<rparr>)"

definition fees_add :: "('d::floor_ceiling) fees \<Rightarrow> 'd fees \<Rightarrow> 'd fees" where
  "fees_add a b = \<lparr>fee_exLiqAdd = fee_exLiqAdd a + fee_exLiqAdd b, fee_exLiqRem = fee_exLiqRem a + fee_exLiqRem b,
     fee_exClearing = fee_exClearing a + fee_exClearing b, fee_brokerage = fee_brokerage a + fee_brokerage b,
     fee_perTrade = fee_perTrade a + fee_perTrade b\<rparr>"

definition fees_sub :: "('d::floor_ceiling) fees \<Rightarrow> 'd fees \<Rightarrow> 'd fees" where
  "fees_sub a b = \<lparr>fee_exLiqAdd = fee_exLiqAdd a - fee_exLiqAdd b, fee_exLiqRem = fee_exLiqRem a - fee_exLiqRem b,
     fee_exClearing = fee_exClearing a - fee_exClearing b, fee_brokerage = fee_brokerage a - fee_brokerage b,
     fee_perTrade = fee_perTrade a - fee_perTrade b\<rparr>"

definition fees_total :: "('d::floor_ceiling) fees \<Rightarrow> 'd" where
  "fees_total a = 0 + fee_exLiqAdd a + fee_exLiqRem a + fee_exClearing a + fee_brokerage a + fee_perTrade a"

subsection \<open>PnL\<close>

text \<open>The converter an instrument carries (set when the instrument is loaded).\<close>

definition ins_tc :: "('d::floor_ceiling) instrument \<Rightarrow> converter" where
  "ins_tc i = (case tc_resetWithNewInstrument (Some i) of None \<Rightarrow> ConverterNull | Some c \<Rightarrow> c)"

definition pn_setInstrument ::
    "'d instr_lookup \<Rightarrow> instr_id \<Rightarrow> ('d::floor_ceiling) pnl \<Rightarrow> bool \<times> 'd pnl" where
  "pn_setInstrument il k c =
     (case pn_instrument c of
        Some _ \<Rightarrow> (True, c)
      | None \<Rightarrow>
          (case il_getByKeyId il k of
             None \<Rightarrow> (False, c)
           | Some i \<Rightarrow> if \<not> ins_isValid i then (False, c) else (True, c\<lparr>pn_instrument := Some i\<rparr>)))"

definition pn_isValid :: "('d::floor_ceiling) pnl \<Rightarrow> bool" where
  "pn_isValid c = (case pn_instrument c of None \<Rightarrow> False | Some i \<Rightarrow> ins_isValid i)"

definition pn_isForMe :: "instr_id \<Rightarrow> ('d::floor_ceiling) pnl \<Rightarrow> bool" where
  "pn_isForMe k c =
     (if \<not> pn_isValid c then False else (case pn_instrument c of None \<Rightarrow> False | Some i \<Rightarrow> ins_keyId i = k))"

definition pn_calculatePnL :: "('d::floor_ceiling) pnl \<Rightarrow> size \<Rightarrow> 'd \<Rightarrow> int \<Rightarrow> 'd" where
  "pn_calculatePnL c qty price sign =
     (case pn_instrument c of
        None \<Rightarrow> 0
      | Some i \<Rightarrow>
          if \<not> ins_isValid i then 0
          else tc_fractionalTicks (ins_tc i) (pn_avgPrice c - price) * ins_tickValue i * of_int qty * of_int (- sign))"

definition pn_updateRealizedPnL :: "size \<Rightarrow> 'd \<Rightarrow> size \<Rightarrow> int \<Rightarrow> ('d::floor_ceiling) pnl \<Rightarrow> 'd pnl" where
  "pn_updateRealizedPnL qty price position sign c =
     (let r = pn_calculatePnL c (min (s32 (sign * pi_position (ip_pnl c))) qty) price sign;
          c1 = c\<lparr>ip_pnl := (ip_pnl c)\<lparr>pi_realizedPnL := pi_realizedPnL (ip_pnl c) + r\<rparr>\<rparr>;
          c2 = (if 0 \<ge> s32 (sign * position)
                then c1\<lparr>pn_avgPrice := price * (if 0 \<noteq> position then 1 else 0)\<rparr> else c1)
      in c2\<lparr>ip_pnl := ip_updateRealizedPnL (ip_pnl c2)\<rparr>)"

definition pn_updateUnrealizedPnL :: "('d::floor_ceiling) pnl \<Rightarrow> 'd pnl" where
  "pn_updateUnrealizedPnL c =
     (if pi_position (ip_pnl c) = 0
      then c\<lparr>ip_pnl := (ip_pnl c)\<lparr>pi_unrealizedPnL := 0, pi_maxUnrealizedPnL := 0, pi_maxUnrealizedDrawdown := 0\<rparr>\<rparr>
      else
        (let sign = (if pi_position (ip_pnl c) > 0 then - 1 else 1);
             u = pn_calculatePnL c (s32 (sign * pi_position (ip_pnl c))) (pn_tv c) sign;
             c1 = c\<lparr>ip_pnl := (ip_pnl c)\<lparr>pi_unrealizedPnL := u\<rparr>\<rparr>
         in c1\<lparr>ip_pnl := ip_updateUnrealizedPnL False (ip_pnl c1)\<rparr>))"

definition pn_updateFees :: "size \<Rightarrow> eLiqInd \<Rightarrow> ('d::floor_ceiling) pnl \<Rightarrow> 'd pnl" where
  "pn_updateFees qty liqInd c =
     (case pn_instrument c of
        None \<Rightarrow> c
      | Some i \<Rightarrow>
          (let f = ip_fees c; g = ins_fees i;
               rest = (\<lambda>x. x\<lparr>fee_exClearing := fee_exClearing x + fee_exClearing g * of_int qty,
                 fee_brokerage := fee_brokerage x + fee_brokerage g * of_int qty,
                 fee_perTrade := fee_perTrade x + fee_perTrade g\<rparr>)
           in case liqInd of
                kAdd \<Rightarrow> c\<lparr>ip_fees := rest (f\<lparr>fee_exLiqAdd := fee_exLiqAdd f + fee_exLiqAdd g * of_int qty\<rparr>)\<rparr>
              | kRem \<Rightarrow> c\<lparr>ip_fees := rest (f\<lparr>fee_exLiqRem := fee_exLiqRem f + fee_exLiqRem g * of_int qty\<rparr>)\<rparr>
              | _ \<Rightarrow> c))"

definition pn_updatePnL :: "size \<Rightarrow> 'd \<Rightarrow> eOrderSide \<Rightarrow> eLiqInd \<Rightarrow> ('d::floor_ceiling) pnl \<Rightarrow> 'd pnl" where
  "pn_updatePnL qty price sd liqInd c =
     (let pos = pi_position (ip_pnl c);
          position = (if kBuy = sd then tw_add pos qty else tw_sub pos qty);
          c1 = (if pos > 0 \<and> kSell = sd then pn_updateRealizedPnL qty price position 1 c
                else if pos < 0 \<and> kBuy = sd then pn_updateRealizedPnL qty price position (- 1) c
                else c\<lparr>pn_avgPrice := (pn_avgPrice c * of_int \<bar>pos\<bar> + of_int qty * price) / of_int \<bar>position\<bar>\<rparr>);
          c2 = c1\<lparr>ip_pnl := (ip_pnl c1)\<lparr>pi_position := position\<rparr>\<rparr>
      in pn_updateFees qty liqInd (pn_updateUnrealizedPnL c2))"

definition pn_setTv ::
    "('d pnl \<Rightarrow> 's \<Rightarrow> 's) \<Rightarrow> ('d pnl \<Rightarrow> 's \<Rightarrow> 's) \<Rightarrow> 'd \<Rightarrow> ('d::floor_ceiling) pnl \<times> 's \<Rightarrow> 'd pnl \<times> 's" where
  "pn_setTv pre post tv cs =
     (let s1 = pre (fst cs) (snd cs);
          c1 = pn_updateUnrealizedPnL ((fst cs)\<lparr>pn_tv := tv, pn_isTVSet := True\<rparr>)
      in (c1, post c1 s1))"

definition pn_processFill ::
    "'d instr_lookup \<Rightarrow> ('d pnl \<Rightarrow> 's \<Rightarrow> 's) \<Rightarrow> ('d pnl \<Rightarrow> 's \<Rightarrow> 's) \<Rightarrow> bool \<Rightarrow> 'd fill \<Rightarrow>
     ('d::floor_ceiling) pnl \<times> 's \<Rightarrow> 'd pnl \<times> 's \<times> 'd fill" where
  "pn_processFill il pre post useFillAvgPrice f cs =
     (case pn_setInstrument il (fl_instrumentId f) (fst cs) of
        (False, c) \<Rightarrow> (c, snd cs, f)
      | (True, c) \<Rightarrow>
          (let s1 = pre c (snd cs);
               price = (if useFillAvgPrice then fl_avgPrice f
                        else (case pn_instrument c of None \<Rightarrow> 0 | Some i \<Rightarrow> tc_toExchangePrice (ins_tc i) (fl_price f)));
               (c2, s2) = (if \<not> pn_isTVSet c then pn_setTv pre post price (c, s1) else (c, s1));
               c3 = pn_updatePnL (fl_qty f) price (fl_side f) (fl_liqInd f) c2
           in (c3, post c3 s2, if \<not> useFillAvgPrice then f\<lparr>fl_avgPrice := pn_avgPrice c3\<rparr> else f)))"

definition pn_onTv ::
    "'d instr_lookup \<Rightarrow> ('d pnl \<Rightarrow> 's \<Rightarrow> 's) \<Rightarrow> ('d pnl \<Rightarrow> 's \<Rightarrow> 's) \<Rightarrow> 'd itv \<Rightarrow>
     ('d::floor_ceiling) pnl \<times> 's \<Rightarrow> 'd pnl \<times> 's" where
  "pn_onTv il pre post t cs =
     (if \<not> tv_isValid t then cs
      else case pn_setInstrument il (tv_getInstrumentId t) (fst cs) of
             (False, c) \<Rightarrow> (c, snd cs)
           | (True, c) \<Rightarrow> pn_setTv pre post (tv_tv t) (c, snd cs))"

definition pn_onFill ::
    "'d instr_lookup \<Rightarrow> ('d pnl \<Rightarrow> 's \<Rightarrow> 's) \<Rightarrow> ('d pnl \<Rightarrow> 's \<Rightarrow> 's) \<Rightarrow> 'd fill \<Rightarrow>
     ('d::floor_ceiling) pnl \<times> 's \<Rightarrow> 'd pnl \<times> 's \<times> 'd fill" where
  "pn_onFill il pre post f cs = pn_processFill il pre post False f cs"

text \<open>A position read from the database becomes one fill at its average price.\<close>

definition pn_rebuildFill :: "('d::floor_ceiling) instrument \<Rightarrow> 'd pos_update \<Rightarrow> 'd fill" where
  "pn_rebuildFill i u =
     fill_default\<lparr>fl_instrumentId := ins_keyId i, fl_avgPrice := pu_avgPrice u,
       fl_qty := (if pu_pos u > 0 then pu_pos u else s32 (- pu_pos u)),
       fl_side := (if pu_pos u > 0 then kBuy else kSell), fl_liqInd := kUnknownLiqInd\<rparr>"

definition pn_rebuildPos ::
    "'d instr_lookup \<Rightarrow> ('d pnl \<Rightarrow> 's \<Rightarrow> 's) \<Rightarrow> ('d pnl \<Rightarrow> 's \<Rightarrow> 's) \<Rightarrow> 'd pos_update \<Rightarrow>
     ('d::floor_ceiling) pnl \<times> 's \<Rightarrow> 'd pnl \<times> 's" where
  "pn_rebuildPos il pre post u cs =
     (if pu_pos u = 0 then cs
      else case il_getByDisplayName il (pu_displayName u) of
             None \<Rightarrow> cs
           | Some i \<Rightarrow>
               if \<not> ins_isValid i then cs
               else (let (c, s, f) = pn_processFill il pre post True (pn_rebuildFill i u) cs in (c, s)))"

subsection \<open>Mark to market\<close>

text \<open>The currency value of one unit of price.\<close>

definition price_value :: "('d::floor_ceiling) instrument \<Rightarrow> 'd" where
  "price_value i = ins_tickValue i / tick_size i"

lemma ins_tc_ticks: "ins_isValid i \<Longrightarrow> tc_fractionalTicks (ins_tc i) x = x / tick_size i"
proof -
  assume v: "ins_isValid i"
  then obtain c where c: "tc_resetWithNewInstrument (Some i) = Some c"
    by (cases "tc_resetWithNewInstrument (Some i)") (auto simp: tc_resetWithNewInstrument_def split: if_splits)
  have nz: "ins_tickNumerator i \<noteq> 0" "ins_tickDenominator i \<noteq> 0" using v by (simp_all add: ins_isValid_def)
  note p = u32_val_pos [OF nz(1), where 'd='a] u32_val_pos [OF nz(2), where 'd='a]
  from c v p show ?thesis
    by (auto simp: ins_tc_def tc_resetWithNewInstrument_def tick_size_def split: if_splits)
qed

lemma calculatePnL_valid:
  assumes "pn_instrument c = Some i" and "ins_isValid i"
  shows "pn_calculatePnL c q P s = price_value i * (pn_avgPrice c - P) * of_int q * of_int (- s)"
  using assms by (simp add: pn_calculatePnL_def ins_tc_ticks price_value_def)

text \<open>
  The accounting identity: \<open>paid\<close> is the sum of the signed quantities times their prices.
\<close>

definition mtm :: "('d::floor_ceiling) instrument \<Rightarrow> 'd \<Rightarrow> 'd pnl \<Rightarrow> bool" where
  "mtm i paid c \<longleftrightarrow> pn_instrument c = Some i \<and> ins_isValid i \<and> tw_ok (pi_position (ip_pnl c)) \<and>
     pi_realizedPnL (ip_pnl c) = price_value i * (of_int (pi_position (ip_pnl c)) * pn_avgPrice c - paid) \<and>
     pi_unrealizedPnL (ip_pnl c) = price_value i * of_int (pi_position (ip_pnl c)) * (pn_tv c - pn_avgPrice c)"

lemma ip_update_simps [simp]:
  "pi_realizedPnL (ip_updateRealizedPnL p) = pi_realizedPnL p"
  "pi_unrealizedPnL (ip_updateRealizedPnL p) = pi_unrealizedPnL p"
  "pi_position (ip_updateRealizedPnL p) = pi_position p"
  "pi_realizedPnL (ip_updateUnrealizedPnL b p) = pi_realizedPnL p"
  "pi_position (ip_updateUnrealizedPnL b p) = pi_position p"
  by (simp_all add: ip_updateRealizedPnL_def ip_updateUnrealizedPnL_def)

lemma updateUnrealized_keeps [simp]:
  "pn_instrument (pn_updateUnrealizedPnL c) = pn_instrument c"
  "pn_avgPrice (pn_updateUnrealizedPnL c) = pn_avgPrice c"
  "pn_tv (pn_updateUnrealizedPnL c) = pn_tv c"
  "pn_isTVSet (pn_updateUnrealizedPnL c) = pn_isTVSet c"
  "ip_fees (pn_updateUnrealizedPnL c) = ip_fees c"
  "pi_position (ip_pnl (pn_updateUnrealizedPnL c)) = pi_position (ip_pnl c)"
  "pi_realizedPnL (ip_pnl (pn_updateUnrealizedPnL c)) = pi_realizedPnL (ip_pnl c)"
  by (simp_all add: pn_updateUnrealizedPnL_def Let_def)

lemma updateUnrealized_value:
  assumes "pn_instrument c = Some i" and "ins_isValid i" and "tw_ok (pi_position (ip_pnl c))"
  shows "pi_unrealizedPnL (ip_pnl (pn_updateUnrealizedPnL c)) =
    price_value i * of_int (pi_position (ip_pnl c)) * (pn_tv c - pn_avgPrice c)"
proof -
  have "s32 (- pi_position (ip_pnl c)) = - pi_position (ip_pnl c)" "s32 (pi_position (ip_pnl c)) = pi_position (ip_pnl c)"
    using assms(3) by (auto intro!: s32_exact simp: tw_ok_iff in_s32_def INT32_MIN_def INT32_MAX_def)
  then show ?thesis
    by (auto simp: pn_updateUnrealizedPnL_def Let_def ip_updateUnrealizedPnL_def calculatePnL_valid [OF _ assms(2)] assms(1)
        algebra_simps)
qed

lemma updateFees_keeps [simp]:
  "ip_pnl (pn_updateFees q l c) = ip_pnl c" "pn_instrument (pn_updateFees q l c) = pn_instrument c"
  "pn_avgPrice (pn_updateFees q l c) = pn_avgPrice c" "pn_tv (pn_updateFees q l c) = pn_tv c"
  "pn_isTVSet (pn_updateFees q l c) = pn_isTVSet c"
  by (auto simp: pn_updateFees_def Let_def split: option.splits eLiqInd.splits)

definition signed_qty :: "eOrderSide \<Rightarrow> size \<Rightarrow> int" where
  "signed_qty sd q = (if sd = kBuy then q else - q)"

text \<open>The part of \<open>updatePnL\<close> before the unrealized profit and the fees.\<close>

lemma updateRealized_identity:
  assumes m: "mtm i paid c" and q: "0 < q" "tw_ok q" and sg: "sg = 1 \<or> sg = - 1"
    and open_pos: "0 < sg * pi_position (ip_pnl c)"
    and pos': "pos' = pi_position (ip_pnl c) - sg * q" "tw_ok pos'"
  shows "pi_realizedPnL (ip_pnl (pn_updateRealizedPnL q P pos' sg c)) =
      price_value i * (of_int pos' * pn_avgPrice (pn_updateRealizedPnL q P pos' sg c) - (paid - of_int (sg * q) * P))"
    and "pn_instrument (pn_updateRealizedPnL q P pos' sg c) = Some i"
    and "pn_tv (pn_updateRealizedPnL q P pos' sg c) = pn_tv c"
proof -
  let ?p = "pi_position (ip_pnl c)"
  have v: "pn_instrument c = Some i" "ins_isValid i" "tw_ok ?p"
    and r: "pi_realizedPnL (ip_pnl c) = price_value i * (of_int ?p * pn_avgPrice c - paid)"
    using m by (simp_all add: mtm_def)
  have s: "s32 (sg * ?p) = sg * ?p" "s32 (sg * pos') = sg * pos'"
    using sg v(3) pos'(2) by (auto intro!: s32_exact simp: tw_ok_iff in_s32_def INT32_MIN_def INT32_MAX_def)
  have real: "pi_realizedPnL (ip_pnl (pn_updateRealizedPnL q P pos' sg c)) =
      price_value i * (of_int ?p * pn_avgPrice c - paid) +
      price_value i * (pn_avgPrice c - P) * of_int (min (sg * ?p) q) * of_int (- sg)"
    by (simp add: pn_updateRealizedPnL_def Let_def s calculatePnL_valid [OF v(1,2)] r)
  have avg: "pn_avgPrice (pn_updateRealizedPnL q P pos' sg c) =
      (if sg * pos' > 0 then pn_avgPrice c else if pos' = 0 then 0 else P)"
    by (simp add: pn_updateRealizedPnL_def Let_def s)
  show "pi_realizedPnL (ip_pnl (pn_updateRealizedPnL q P pos' sg c)) =
      price_value i * (of_int pos' * pn_avgPrice (pn_updateRealizedPnL q P pos' sg c) - (paid - of_int (sg * q) * P))"
  proof (cases "sg * pos' > 0")
    case True
    then have "min (sg * ?p) q = q" using sg pos'(1) by (auto simp: min_def)
    with True sg show ?thesis unfolding real avg by (auto simp: pos'(1) algebra_simps)
  next
    case False
    then have "min (sg * ?p) q = sg * ?p" using sg pos'(1) by (auto simp: min_def)
    moreover have "of_int pos' * pn_avgPrice (pn_updateRealizedPnL q P pos' sg c) = of_int pos' * P"
      using False by (simp add: avg)
    ultimately show ?thesis unfolding real using sg by (auto simp: pos'(1) algebra_simps)
  qed
  show "pn_instrument (pn_updateRealizedPnL q P pos' sg c) = Some i"
    "pn_tv (pn_updateRealizedPnL q P pos' sg c) = pn_tv c"
    using v(1) by (simp_all add: pn_updateRealizedPnL_def Let_def)
qed

lemma updatePnL_mtm:
  assumes m: "mtm i paid c" and sd: "sd = kBuy \<or> sd = kSell" and q: "0 < q" "tw_ok q"
    and ok: "tw_ok (pi_position (ip_pnl c) + signed_qty sd q)"
  shows "mtm i (paid + of_int (signed_qty sd q) * P) (pn_updatePnL q P sd l c)"
    and "pi_position (ip_pnl (pn_updatePnL q P sd l c)) = pi_position (ip_pnl c) + signed_qty sd q"
    and "pn_tv (pn_updatePnL q P sd l c) = pn_tv c"
proof -
  let ?p = "pi_position (ip_pnl c)" and ?p' = "pi_position (ip_pnl c) + signed_qty sd q"
  have v: "pn_instrument c = Some i" "ins_isValid i" "tw_ok ?p"
    and r: "pi_realizedPnL (ip_pnl c) = price_value i * (of_int ?p * pn_avgPrice c - paid)"
    using m by (simp_all add: mtm_def)
  have pos: "(if kBuy = sd then tw_add ?p q else tw_sub ?p q) = ?p'"
    using ok q v(3) sd by (auto simp: signed_qty_def wrap_simps)
  define c1 where "c1 = (if ?p > 0 \<and> kSell = sd then pn_updateRealizedPnL q P ?p' 1 c
      else if ?p < 0 \<and> kBuy = sd then pn_updateRealizedPnL q P ?p' (- 1) c
      else c\<lparr>pn_avgPrice := (pn_avgPrice c * of_int \<bar>?p\<bar> + of_int q * P) / of_int \<bar>?p'\<bar>\<rparr>)"
  define c2 where "c2 = c1\<lparr>ip_pnl := (ip_pnl c1)\<lparr>pi_position := ?p'\<rparr>\<rparr>"
  have u: "pn_updatePnL q P sd l c = pn_updateFees q l (pn_updateUnrealizedPnL c2)"
    unfolding pn_updatePnL_def Let_def pos c2_def c1_def by simp
  have c1: "pi_realizedPnL (ip_pnl c1) = price_value i * (of_int ?p' * pn_avgPrice c1 - (paid + of_int (signed_qty sd q) * P))
      \<and> pn_instrument c1 = Some i \<and> pn_tv c1 = pn_tv c"
  proof -
    consider (close_long) "?p > 0" "sd = kSell" | (close_short) "?p < 0" "sd = kBuy"
      | (long) "0 \<le> ?p" "sd = kBuy" | (short) "?p \<le> 0" "sd = kSell" using sd by linarith
    then show ?thesis
    proof cases
      case close_long
      then show ?thesis using updateRealized_identity [OF m q, of 1 ?p' P] ok by (simp add: c1_def signed_qty_def)
    next
      case close_short
      then show ?thesis using updateRealized_identity [OF m q, of "- 1" ?p' P] ok by (simp add: c1_def signed_qty_def)
    next
      case long
      then have a: "\<bar>?p'\<bar> = ?p + q" "(of_int (?p + q) :: 'a) \<noteq> 0"
        using q(1) of_int_0_less_iff [of "?p + q", where 'a='a] by (simp_all add: signed_qty_def)
      have "(of_int ?p' :: 'a) * ((pn_avgPrice c * of_int \<bar>?p\<bar> + of_int q * P) / of_int \<bar>?p'\<bar>) =
          of_int ?p * pn_avgPrice c + of_int q * P"
        unfolding a(1) using a(2) long by (simp add: signed_qty_def field_simps)
      with long show ?thesis using v(1) r q(1) by (simp add: c1_def signed_qty_def algebra_simps)
    next
      case short
      then have a: "\<bar>?p'\<bar> = - ?p + q" "(of_int (- ?p + q) :: 'a) \<noteq> 0"
        using q(1) of_int_0_less_iff [of "- ?p + q", where 'a='a] by (simp_all add: signed_qty_def)
      have "(of_int ?p' :: 'a) * ((pn_avgPrice c * of_int \<bar>?p\<bar> + of_int q * P) / of_int \<bar>?p'\<bar>) =
          of_int ?p * pn_avgPrice c - of_int q * P"
        unfolding a(1) using a(2) short by (simp add: signed_qty_def field_simps)
      with short show ?thesis using v(1) r q(1) by (simp add: c1_def signed_qty_def algebra_simps)
    qed
  qed
  then have c2: "pn_instrument c2 = Some i" "pi_position (ip_pnl c2) = ?p'" "pn_tv c2 = pn_tv c" "pn_avgPrice c2 = pn_avgPrice c1"
      "pi_realizedPnL (ip_pnl c2) = pi_realizedPnL (ip_pnl c1)"
    by (simp_all add: c2_def)
  show "mtm i (paid + of_int (signed_qty sd q) * P) (pn_updatePnL q P sd l c)"
    using updateUnrealized_value [OF c2(1) v(2)] c1 ok by (simp add: mtm_def u c2 v(2))
  show "pi_position (ip_pnl (pn_updatePnL q P sd l c)) = ?p'" "pn_tv (pn_updatePnL q P sd l c) = pn_tv c"
    by (simp_all add: u c2)
qed

subsection \<open>Runs of fills and theoretical values\<close>

datatype 'd pnl_event = PFill "'d fill" | PTv "'d itv"

text \<open>An instrument's profit and loss on its own, without an observer.\<close>

definition no_obs :: "'d pnl \<Rightarrow> unit \<Rightarrow> unit" where
  "no_obs c u = ()"

fun pn_event :: "'d instr_lookup \<Rightarrow> 'd pnl_event \<Rightarrow> ('d::floor_ceiling) pnl \<Rightarrow> 'd pnl" where
  "pn_event il (PFill f) c = fst (pn_onFill il no_obs no_obs f (c, ()))"
| "pn_event il (PTv t) c = fst (pn_onTv il no_obs no_obs t (c, ()))"

fun pn_run :: "'d instr_lookup \<Rightarrow> 'd pnl_event list \<Rightarrow> ('d::floor_ceiling) pnl \<Rightarrow> 'd pnl" where
  "pn_run il [] c = c"
| "pn_run il (e # es) c = pn_run il es (pn_event il e c)"

fun fill_size :: "'d pnl_event \<Rightarrow> int" where
  "fill_size (PFill f) = fl_qty f" | "fill_size (PTv t) = 0"

fun fill_signed :: "'d pnl_event \<Rightarrow> int" where
  "fill_signed (PFill f) = signed_qty (fl_side f) (fl_qty f)" | "fill_signed (PTv t) = 0"

fun fill_cost :: "('d::floor_ceiling) instrument \<Rightarrow> 'd pnl_event \<Rightarrow> 'd" where
  "fill_cost i (PFill f) = of_int (signed_qty (fl_side f) (fl_qty f)) * tc_toExchangePrice (ins_tc i) (fl_price f)"
| "fill_cost i (PTv t) = 0"

fun event_for :: "('d::floor_ceiling) instrument \<Rightarrow> 'd pnl_event \<Rightarrow> bool" where
  "event_for i (PFill f) \<longleftrightarrow> fl_instrumentId f = ins_keyId i \<and> (fl_side f = kBuy \<or> fl_side f = kSell) \<and> 0 < fl_qty f"
| "event_for i (PTv t) \<longleftrightarrow> (tv_isValid t \<longrightarrow> tv_getInstrumentId t = ins_keyId i)"

definition mtm0 :: "('d::floor_ceiling) instrument \<Rightarrow> 'd \<Rightarrow> 'd pnl \<Rightarrow> bool" where
  "mtm0 i paid c \<longleftrightarrow> mtm i paid c \<or> c = pnl_clear \<and> paid = 0"

lemma setInstrument_mtm:
  assumes "mtm0 i paid c" and "il_getByKeyId il (ins_keyId i) = Some i" and "ins_isValid i"
  obtains c' where "pn_setInstrument il (ins_keyId i) c = (True, c')" and "mtm i paid c'"
    and "pi_position (ip_pnl c') = pi_position (ip_pnl c)" and "pn_tv c' = pn_tv c"
proof (cases "c = pnl_clear \<and> paid = 0")
  case True
  have "mtm i paid (c\<lparr>pn_instrument := Some i\<rparr>)"
    using True assms(3) by (simp add: mtm_def pnl_clear_def pnl_info_clear_def)
  with True show thesis
    using that [of "c\<lparr>pn_instrument := Some i\<rparr>"] assms(2,3) by (simp add: pn_setInstrument_def pnl_clear_def)
next
  case False
  then have m: "mtm i paid c" using assms(1) by (auto simp: mtm0_def)
  then have "pn_setInstrument il (ins_keyId i) c = (True, c)" by (simp add: mtm_def pn_setInstrument_def)
  with m show thesis using that by blast
qed

lemma setTv_mtm:
  assumes "mtm i paid c"
  shows "mtm i paid (fst (pn_setTv pre post tv (c, s)))"
    and "pi_position (ip_pnl (fst (pn_setTv pre post tv (c, s)))) = pi_position (ip_pnl c)"
    and "pn_tv (fst (pn_setTv pre post tv (c, s))) = tv"
  using assms updateUnrealized_value [of "c\<lparr>pn_tv := tv, pn_isTVSet := True\<rparr>" i]
  by (simp_all add: mtm_def pn_setTv_def Let_def)

lemma processFill_mtm:
  assumes m: "mtm0 i paid c" and il: "il_getByKeyId il (ins_keyId i) = Some i" "ins_isValid i"
    and f: "fl_instrumentId f = ins_keyId i" "fl_side f = kBuy \<or> fl_side f = kSell" "0 < fl_qty f" "tw_ok (fl_qty f)"
    and ok: "tw_ok (pi_position (ip_pnl c) + signed_qty (fl_side f) (fl_qty f))"
  shows "mtm i (paid + of_int (signed_qty (fl_side f) (fl_qty f)) * tc_toExchangePrice (ins_tc i) (fl_price f))
      (fst (pn_onFill il pre post f (c, s)))"
    and "pi_position (ip_pnl (fst (pn_onFill il pre post f (c, s)))) =
      pi_position (ip_pnl c) + signed_qty (fl_side f) (fl_qty f)"
proof -
  obtain c' where c': "pn_setInstrument il (ins_keyId i) c = (True, c')" "mtm i paid c'"
      "pi_position (ip_pnl c') = pi_position (ip_pnl c)"
    using setInstrument_mtm [OF m il] by blast
  have i': "pn_instrument c' = Some i" using c'(2) by (simp add: mtm_def)
  let ?P = "tc_toExchangePrice (ins_tc i) (fl_price f)"
  define c2 where "c2 = (if \<not> pn_isTVSet c' then fst (pn_setTv pre post ?P (c', pre c' s)) else c')"
  have c2: "mtm i paid c2" "pi_position (ip_pnl c2) = pi_position (ip_pnl c)"
    using c'(2,3) by (simp_all add: c2_def setTv_mtm [OF c'(2)])
  have "fst (pn_onFill il pre post f (c, s)) = pn_updatePnL (fl_qty f) ?P (fl_side f) (fl_liqInd f) c2"
    by (auto simp: pn_onFill_def pn_processFill_def f(1) c'(1) Let_def i' c2_def split: prod.splits)
  with updatePnL_mtm [OF c2(1) f(2-4)] ok c2(2)
  show "mtm i (paid + of_int (signed_qty (fl_side f) (fl_qty f)) * ?P) (fst (pn_onFill il pre post f (c, s)))"
    "pi_position (ip_pnl (fst (pn_onFill il pre post f (c, s)))) =
      pi_position (ip_pnl c) + signed_qty (fl_side f) (fl_qty f)"
    by simp_all
qed

lemma event_mtm:
  assumes m: "mtm0 i paid c" and il: "il_getByKeyId il (ins_keyId i) = Some i" "ins_isValid i"
    and e: "event_for i e" and ok: "\<bar>pi_position (ip_pnl c)\<bar> + fill_size e \<le> INT32_MAX"
  shows "mtm0 i (paid + fill_cost i e) (pn_event il e c)"
    and "pi_position (ip_pnl (pn_event il e c)) = pi_position (ip_pnl c) + fill_signed e"
proof -
  have "mtm0 i (paid + fill_cost i e) (pn_event il e c) \<and>
      pi_position (ip_pnl (pn_event il e c)) = pi_position (ip_pnl c) + fill_signed e"
  proof (cases e)
    case (PFill f)
    have "tw_ok (fl_qty f)" "tw_ok (pi_position (ip_pnl c) + signed_qty (fl_side f) (fl_qty f))"
      using ok e by (auto simp: PFill tw_ok_iff INT32_MAX_def signed_qty_def)
    with processFill_mtm [OF m il, where pre = no_obs and post = no_obs and s = "()" and f = f] e
    show ?thesis by (auto simp: PFill mtm0_def)
  next
    case (PTv t)
    show ?thesis
    proof (cases "tv_isValid t")
      case True
      obtain c' where c': "pn_setInstrument il (ins_keyId i) c = (True, c')" "mtm i paid c'"
          "pi_position (ip_pnl c') = pi_position (ip_pnl c)"
        using setInstrument_mtm [OF m il] by blast
      with True e show ?thesis by (simp add: PTv pn_onTv_def mtm0_def setTv_mtm [OF c'(2)])
    next
      case False
      with m show ?thesis by (simp add: PTv pn_onTv_def)
    qed
  qed
  then show "mtm0 i (paid + fill_cost i e) (pn_event il e c)"
    "pi_position (ip_pnl (pn_event il e c)) = pi_position (ip_pnl c) + fill_signed e" by simp_all
qed

lemma run_mtm:
  assumes "mtm0 i paid c" and il: "il_getByKeyId il (ins_keyId i) = Some i" "ins_isValid i"
    and "\<forall>e \<in> set es. event_for i e" and "\<bar>pi_position (ip_pnl c)\<bar> + (\<Sum>e\<leftarrow>es. fill_size e) \<le> INT32_MAX"
  shows "mtm0 i (paid + (\<Sum>e\<leftarrow>es. fill_cost i e)) (pn_run il es c) \<and>
    pi_position (ip_pnl (pn_run il es c)) = pi_position (ip_pnl c) + (\<Sum>e\<leftarrow>es. fill_signed e)"
  using assms(1,4,5)
proof (induction es arbitrary: paid c)
  case (Cons e es)
  have nonneg: "0 \<le> (\<Sum>x\<leftarrow>es. fill_size x)" "0 \<le> fill_size e"
  proof -
    have "0 \<le> fill_size x" if "event_for i x" for x :: "'a pnl_event" using that by (cases x) auto
    then show "0 \<le> (\<Sum>x\<leftarrow>es. fill_size x)" "0 \<le> fill_size e" using Cons.prems(2) by (auto intro!: sum_list_nonneg)
  qed
  have sz: "\<bar>fill_signed e\<bar> \<le> fill_size e" using Cons.prems(2) by (cases e) (auto simp: signed_qty_def)
  note ev = event_mtm [OF Cons.prems(1) il, of e]
  have ok: "\<bar>pi_position (ip_pnl c)\<bar> + fill_size e \<le> INT32_MAX" using Cons.prems(3) nonneg by simp
  have e: "event_for i e" using Cons.prems(2) by simp
  have "\<bar>pi_position (ip_pnl (pn_event il e c))\<bar> + (\<Sum>x\<leftarrow>es. fill_size x) \<le> INT32_MAX"
    using ev(2) [OF e ok] Cons.prems(3) sz by simp
  from Cons.IH [OF ev(1) [OF e ok] _ this] Cons.prems(2) ev(2) [OF e ok] show ?case
    by (simp add: algebra_simps)
qed simp

text \<open>
  C25: mark to market. After any sequence of fills and theoretical values of one instrument, from
  a fresh \<open>PnL\<close> and with exact arithmetic, the position is the signed sum of the fills and
  realized plus unrealized profit is the value of the position at the theoretical value minus
  what was paid for it, through partial closes and reversals alike.
\<close>

theorem pnl_mark_to_market:
  assumes "il_getByKeyId il (ins_keyId i) = Some i" and "ins_isValid i" and "\<forall>e \<in> set es. event_for i e"
    and "(\<Sum>e\<leftarrow>es. fill_size e) \<le> INT32_MAX"
  shows "pi_position (ip_pnl (pn_run il es pnl_clear)) = (\<Sum>e\<leftarrow>es. fill_signed e) \<and>
    ip_getPnL (ip_pnl (pn_run il es pnl_clear)) =
      price_value i * (of_int (\<Sum>e\<leftarrow>es. fill_signed e) * pn_tv (pn_run il es pnl_clear) - (\<Sum>e\<leftarrow>es. fill_cost i e))"
proof -
  have p0: "pi_position (ip_pnl (pnl_clear :: 'a pnl)) = 0" by (simp add: pnl_clear_def pnl_info_clear_def)
  have "mtm0 i 0 pnl_clear" by (simp add: mtm0_def)
  from run_mtm [OF this assms(1-3)] assms(4)
  have r: "mtm0 i (\<Sum>e\<leftarrow>es. fill_cost i e) (pn_run il es pnl_clear)"
      "pi_position (ip_pnl (pn_run il es pnl_clear)) = (\<Sum>e\<leftarrow>es. fill_signed e)"
    by (simp_all add: p0)
  from r(1) have "ip_getPnL (ip_pnl (pn_run il es pnl_clear)) =
      price_value i * (of_int (\<Sum>e\<leftarrow>es. fill_signed e) * pn_tv (pn_run il es pnl_clear) - (\<Sum>e\<leftarrow>es. fill_cost i e))"
    unfolding mtm0_def
  proof
    assume "mtm i (\<Sum>e\<leftarrow>es. fill_cost i e) (pn_run il es pnl_clear)"
    then show ?thesis by (simp add: mtm_def ip_getPnL_def r(2) algebra_simps)
  next
    assume *: "pn_run il es pnl_clear = pnl_clear \<and> (\<Sum>e\<leftarrow>es. fill_cost i e) = 0"
    then have "(\<Sum>e\<leftarrow>es. fill_signed e) = 0" using r(2) p0 by simp
    with * show ?thesis by (simp add: ip_getPnL_def pnl_clear_def pnl_info_clear_def)
  qed
  with r(2) show ?thesis by blast
qed

definition ex_pnl_instr :: "rat instrument" where
  "ex_pnl_instr = ex_quarter\<lparr>ins_keyId := 3, ins_tickValue := 25 / 2\<rparr>"

definition ex_pnl_lookup :: "rat instr_lookup" where
  "ex_pnl_lookup = \<lparr>il_getByKeyId = (\<lambda>_. Some ex_pnl_instr), il_getByDisplayName = (\<lambda>_. None)\<rparr>"

definition ex_pnl_events :: "rat pnl_event list" where
  "ex_pnl_events =
     [PFill (fill_default\<lparr>fl_instrumentId := 3, fl_side := kBuy, fl_qty := 2, fl_price := 100\<rparr>),
      PFill (fill_default\<lparr>fl_instrumentId := 3, fl_side := kSell, fl_qty := 5, fl_price := 104\<rparr>)]"

theorem pnl_mark_to_market_witness:
  "pi_position (ip_pnl (pn_run ex_pnl_lookup ex_pnl_events pnl_clear)) = - 3"
proof -
  have "ins_isValid ex_pnl_instr"
    by (simp add: ex_pnl_instr_def ex_quarter_def instrument_clear_def ins_isValid_def word_less_nat_alt)
  from pnl_mark_to_market [OF _ this, of ex_pnl_lookup ex_pnl_events] show ?thesis
    by (simp add: ex_pnl_lookup_def ex_pnl_events_def ex_pnl_instr_def ex_quarter_def signed_qty_def INT32_MAX_def)
qed

end
