(* ===== verification/OpenOrderCounts.thy ===== *)
theory OpenOrderCounts
  imports ProcessorOrders
begin

section \<open>The open-order counters agree with the order table\<close>

text \<open>
  What \<open>ProcessorOrders\<close> promises its clients (the risk checks read the counters): for every
  account, strategy and instrument, the open bids and asks are the sums of the unfilled quantities
  of the live orders in the table. The counters are nested maps; \<open>oop_val\<close> is the value a
  client reads, \<open>counter_book\<close> the contract of one such map, interpreted on the code's
  find-or-insert operations. \<open>book_ok\<close> ties one map to the table, \<open>po_inv\<close> both
  maps, and each operation's lemma shows what it does to the sums.
\<close>

declare isOrderLive.simps [simp del]

definition oop_ok :: "oop_map \<Rightarrow> bool" where
  "oop_ok m \<longleftrightarrow> sm_ok m \<and> (\<forall>e \<in> set m. sm_ok (snd e))"

definition oop_lookup :: "oop_map \<Rightarrow> u32 \<Rightarrow> instr_id \<Rightarrow> owned_open_orders_pos option" where
  "oop_lookup m x y = (case sm_find m x of None \<Rightarrow> None | Some inner \<Rightarrow> sm_find inner y)"

definition oop_val :: "'d instr_lookup \<Rightarrow> oop_map \<Rightarrow> u32 \<Rightarrow> instr_id \<Rightarrow> owned_open_orders_pos" where
  "oop_val il m x y = (case oop_lookup m x y of None \<Rightarrow> oop_fresh il x y | Some v \<Rightarrow> v)"

lemma oop_ok_inner: "oop_ok m \<Longrightarrow> sm_find m x = Some inner \<Longrightarrow> sm_ok inner"
  by (auto simp: oop_ok_def dest!: sm_find_in_set)

lemma oop_ok_assign: "oop_ok m \<Longrightarrow> sm_ok inner \<Longrightarrow> oop_ok (sm_assign m x inner)"
  using sm_assign_subset [of m x inner] by (auto simp: oop_ok_def)

lemma oop_ok_insert: "oop_ok m \<Longrightarrow> sm_ok inner \<Longrightarrow> oop_ok (sm_insert m x inner)"
  using sm_insert_subset [of m x inner] by (auto simp: oop_ok_def sm.invar_insert_new)

lemma oop_getAll_spec:
  assumes "oop_ok m" and "oop_getAll m x = (m1, inner)"
  shows "oop_ok m1" and "sm_find m1 = (sm_find m)(x := Some inner)" and "sm_ok inner"
    and "sm_find inner y = oop_lookup m x y"
proof -
  have "sm_ok m" using assms(1) by (simp add: oop_ok_def)
  with assms show "oop_ok m1" "sm_find m1 = (sm_find m)(x := Some inner)" "sm_ok inner"
      "sm_find inner y = oop_lookup m x y"
    by (auto simp: oop_getAll_def sm_get_or_create_def oop_lookup_def oop_ok_insert oop_ok_inner
        sm.find_insert_new fun_eq_iff split: option.splits)
qed

lemma oop_get_spec:
  assumes "oop_ok m" and "oop_get il m x y = (m1, v)"
  shows "v = oop_val il m x y" and "oop_ok m1"
    and "oop_lookup m1 x' y' = (if x' = x \<and> y' = y then Some v else oop_lookup m x' y')"
proof -
  obtain m0 inner where g: "oop_getAll m x = (m0, inner)" by fastforce
  obtain inner1 v0 where i: "sm_get_or_create inner y (oop_fresh il x y) = (inner1, v0)" by fastforce
  note gs = oop_getAll_spec [OF assms(1) g]
  from assms(2) g i have m1: "m1 = sm_assign m0 x inner1" and v: "v = v0"
    by (auto simp: oop_get_def)
  from i v gs(4) show "v = oop_val il m x y"
    by (auto simp: sm_get_or_create_def oop_val_def split: option.splits)
  from sm_get_or_create_ok [OF gs(3), of y "oop_fresh il x y"] i have ok1: "sm_ok inner1" by simp
  with gs(1) show "oop_ok m1" by (simp add: m1 oop_ok_assign)
  from sm_get_or_create_find [OF gs(3), of y "oop_fresh il x y"] i v
  have f1: "sm_find inner1 = (sm_find inner)(y := Some v)" by simp
  show "oop_lookup m1 x' y' = (if x' = x \<and> y' = y then Some v else oop_lookup m x' y')"
    by (simp add: m1 oop_lookup_def [of "sm_assign m0 x inner1"] sm_find_assign gs(2) f1 gs(4))
      (simp add: oop_lookup_def)
qed

lemma oop_write_spec:
  assumes "oop_ok m" and "oop_lookup m x y \<noteq> None"
  shows "oop_ok (oop_write m x y v)"
    and "oop_lookup (oop_write m x y v) x' y' = (if x' = x \<and> y' = y then Some v else oop_lookup m x' y')"
proof -
  obtain inner where inner: "sm_find m x = Some inner" "sm_find inner y \<noteq> None"
    using assms(2) by (auto simp: oop_lookup_def split: option.splits)
  show "oop_ok (oop_write m x y v)"
    using assms(1) inner by (simp add: oop_write_def oop_ok_assign oop_ok_inner)
  show "oop_lookup (oop_write m x y v) x' y' = (if x' = x \<and> y' = y then Some v else oop_lookup m x' y')"
    using inner by (auto simp: oop_write_def oop_lookup_def sm_find_assign)
qed

lemma oop_update_spec:
  assumes "oop_ok m"
  shows oop_update_ok: "oop_ok (oop_update il m x y f)"
    and oop_update_lookup: "oop_lookup (oop_update il m x y f) x' y' =
      (if x' = x \<and> y' = y then Some (f (oop_val il m x y)) else oop_lookup m x' y')"
proof -
  obtain m1 v where g: "oop_get il m x y = (m1, v)" by fastforce
  note gs = oop_get_spec [OF assms g]
  have u: "oop_update il m x y f = oop_write m1 x y (f (oop_val il m x y))"
    using g gs(1) by (simp add: oop_update_def)
  have ne: "oop_lookup m1 x y \<noteq> None" by (simp add: gs(3))
  show "oop_ok (oop_update il m x y f)" unfolding u by (rule oop_write_spec(1) [OF gs(2) ne])
  show "oop_lookup (oop_update il m x y f) x' y' =
      (if x' = x \<and> y' = y then Some (f (oop_val il m x y)) else oop_lookup m x' y')"
    unfolding u oop_write_spec(2) [OF gs(2) ne] by (simp add: gs(3))
qed

subsection \<open>One counter map as a book of values\<close>

locale counter_book =
  fixes ok :: "'m \<Rightarrow> bool"
    and val :: "'m \<Rightarrow> 'x \<Rightarrow> 'y \<Rightarrow> 'v"
    and upd :: "'m \<Rightarrow> 'x \<Rightarrow> 'y \<Rightarrow> ('v \<Rightarrow> 'v) \<Rightarrow> 'm"
  assumes upd_ok: "ok m \<Longrightarrow> ok (upd m x y f)"
    and val_upd: "ok m \<Longrightarrow> val (upd m x y f) x' y' = (if x' = x \<and> y' = y then f (val m x y) else val m x' y')"
begin

lemma upd_upd: "ok m \<Longrightarrow> val (upd (upd m x y f) x y g) x' y' = val (upd m x y (g \<circ> f)) x' y'"
  by (simp add: val_upd upd_ok)

lemma upd_undo: "ok m \<Longrightarrow> g (f (val m x y)) = val m x y \<Longrightarrow> val (upd (upd m x y f) x y g) x' y' = val m x' y'"
  by (auto simp: val_upd upd_ok)

lemma upd_frame: "ok m \<Longrightarrow> x' \<noteq> x \<or> y' \<noteq> y \<Longrightarrow> val (upd m x y f) x' y' = val m x' y'"
  by (auto simp: val_upd)

end

interpretation oop: counter_book oop_ok "oop_val il" "oop_update il" for il :: "'d instr_lookup"
  by unfold_locales (simp_all add: oop_update_ok oop_update_lookup oop_val_def)

lemma oop_get_val: "oop_ok m \<Longrightarrow> snd (oop_get il m x y) = oop_val il m x y"
  by (metis oop_get_spec(1) prod.collapse)

subsection \<open>What the counters should say\<close>

definition open_qty :: "'d order \<Rightarrow> int" where
  "open_qty ord = ord_qty ord - ord_cumQty ord"

definition contrib :: "('d order \<Rightarrow> u32) \<Rightarrow> eOrderSide \<Rightarrow> u32 \<Rightarrow> instr_id \<Rightarrow> 'd order \<Rightarrow> int" where
  "contrib own sd x y ord =
     (if ord_side ord = sd \<and> own ord = x \<and> ord_instrumentId ord = y then open_qty ord else 0)"

definition open_sum ::
    "'d order_heap \<Rightarrow> order_table \<Rightarrow> ('d order \<Rightarrow> u32) \<Rightarrow> eOrderSide \<Rightarrow> u32 \<Rightarrow> instr_id \<Rightarrow> int" where
  "open_sum h t own sd x y = (\<Sum>e\<leftarrow>t. contrib own sd x y (h (snd e)))"

definition side_count :: "eOrderSide \<Rightarrow> owned_open_orders_pos \<Rightarrow> size" where
  "side_count sd v = (if sd = kBuy then iop_bids v else iop_asks v)"

abbreviation real_side :: "eOrderSide \<Rightarrow> bool" where
  "real_side sd \<equiv> sd = kBuy \<or> sd = kSell"

text \<open>A live order of the table: known by its own id, not finished, partially filled at most.\<close>

definition order_ok :: "order_id \<Rightarrow> 'd order \<Rightarrow> bool" where
  "order_ok k ord \<longleftrightarrow> ord_orderId ord = k \<and> isOrderLive (Some ord) \<and>
     0 \<le> ord_cumQty ord \<and> ord_cumQty ord < ord_qty ord \<and> ord_qty ord \<le> INT32_MAX"

definition table_ok :: "'d order_heap \<Rightarrow> order_table \<Rightarrow> bool" where
  "table_ok h t \<longleftrightarrow> sm_ok t \<and> (\<forall>e \<in> set t. order_ok (fst e) (h (snd e)))"

definition book_ok ::
    "'d instr_lookup \<Rightarrow> ('d order \<Rightarrow> u32) \<Rightarrow> 'd order_heap \<Rightarrow> order_table \<Rightarrow> oop_map \<Rightarrow> bool" where
  "book_ok il own h t m \<longleftrightarrow> oop_ok m \<and>
     (\<forall>sd x y. real_side sd \<longrightarrow>
        side_count sd (oop_val il m x y) = open_sum h t own sd x y \<and>
        tw_ok (open_sum h t own sd x y))"

definition po_inv :: "'d instr_lookup \<Rightarrow> 'd po_state \<Rightarrow> bool" where
  "po_inv il s \<longleftrightarrow> table_ok (po_heap s) (po_table s) \<and>
     book_ok il ord_accountId (po_heap s) (po_table s) (po_account s) \<and>
     book_ok il ord_strategyId (po_heap s) (po_table s) (po_strategy s)"

subsection \<open>Sums under heap and table changes\<close>

lemma order_ok_tw:
  assumes "order_ok k ord"
  shows "tw_ok (ord_qty ord)" "tw_ok (ord_cumQty ord)" "0 < open_qty ord" "tw_ok (open_qty ord)"
    "tw_sub (ord_qty ord) (ord_cumQty ord) = open_qty ord"
proof -
  from assms have b: "0 \<le> ord_cumQty ord" "ord_cumQty ord < ord_qty ord" "ord_qty ord \<le> 2147483647"
    by (auto simp: order_ok_def INT32_MAX_def)
  then show q: "tw_ok (ord_qty ord)" "tw_ok (ord_cumQty ord)" "0 < open_qty ord" "tw_ok (open_qty ord)"
    by (auto simp: tw_ok_iff open_qty_def)
  then show "tw_sub (ord_qty ord) (ord_cumQty ord) = open_qty ord"
    by (simp add: wrap_simps open_qty_def)
qed

lemma table_ok_inj:
  assumes "table_ok h t" and "(k, p) \<in> set t" and "(k', p) \<in> set t"
  shows "k = k'"
proof -
  have "order_ok k (h p)" "order_ok k' (h p)" using assms by (auto simp: table_ok_def)
  then show ?thesis by (simp add: order_ok_def)
qed

lemma contrib_nonneg: "order_ok k ord \<Longrightarrow> 0 \<le> contrib own sd x y ord"
  using order_ok_tw(3) [of k ord] by (auto simp: contrib_def)

lemma open_sum_nonneg: "table_ok h t \<Longrightarrow> 0 \<le> open_sum h t own sd x y"
  unfolding open_sum_def table_ok_def by (intro sum_list_nonneg) (auto intro: contrib_nonneg)

lemma contrib_le_open_sum:
  assumes "table_ok h t" and "(k, p) \<in> set t"
  shows "contrib own sd x y (h p) \<le> open_sum h t own sd x y"
proof -
  have nonneg: "0 \<le> contrib own sd x y (h (snd e))" if "e \<in> set t" for e
    using assms(1) that by (auto simp: table_ok_def intro: contrib_nonneg)
  have "contrib own sd x y (h p) \<in> set (map (\<lambda>e. contrib own sd x y (h (snd e))) t)"
    using assms(2) by force
  then show ?thesis unfolding open_sum_def
    by (rule member_le_sum_list) (use nonneg in auto)
qed

lemma open_sum_heap_other:
  "p \<notin> snd ` set t \<Longrightarrow> open_sum (h(p := ord)) t own sd x y = open_sum h t own sd x y"
  unfolding open_sum_def by (intro sum_list_map_cong) auto

lemma open_sum_heap_at:
  assumes tok: "table_ok h t" and kp: "(k, p) \<in> set t"
  shows "open_sum (h(p := ord)) t own sd x y =
    open_sum h t own sd x y - contrib own sd x y (h p) + contrib own sd x y ord"
proof -
  let ?f = "\<lambda>e. contrib own sd x y (h (snd e))"
  have d: "distinct t" using tok sm_ok_distinct [of t] by (simp add: table_ok_def distinct_map)
  have eq: "snd e = p \<longleftrightarrow> e = (k, p)" if "e \<in> set t" for e
    using that kp table_ok_inj [OF tok, of "fst e" p k] by (metis prod.collapse snd_conv)
  have "open_sum (h(p := ord)) t own sd x y =
      (\<Sum>e\<leftarrow>t. (if e = (k, p) then contrib own sd x y ord else ?f e))"
    unfolding open_sum_def using eq by (intro sum_list_map_cong) auto
  also have "\<dots> = (\<Sum>e\<leftarrow>t. ?f e) - ?f (k, p) + contrib own sd x y ord"
    by (rule sum_list_update_fun [OF d kp])
  finally show ?thesis by (simp add: open_sum_def)
qed

lemma open_sum_insert:
  "sm_find t k = None \<Longrightarrow> open_sum h (sm_insert t k p) own sd x y =
     open_sum h t own sd x y + contrib own sd x y (h p)"
  unfolding open_sum_def by (subst sum_list_sm_insert) simp_all

lemma open_sum_erase:
  "sm_find t k = Some p \<Longrightarrow> open_sum h (sm_erase t k) own sd x y =
     open_sum h t own sd x y - contrib own sd x y (h p)"
  unfolding open_sum_def by (subst sum_list_sm_erase) simp_all

subsection \<open>Keeping the books\<close>

text \<open>The fields that decide where and how much an order counts.\<close>

definition same_counts :: "'d order \<Rightarrow> 'd order \<Rightarrow> bool" where
  "same_counts a b \<longleftrightarrow> ord_side a = ord_side b \<and> ord_accountId a = ord_accountId b \<and>
     ord_strategyId a = ord_strategyId b \<and> ord_instrumentId a = ord_instrumentId b \<and>
     ord_qty a = ord_qty b \<and> ord_cumQty a = ord_cumQty b \<and> ord_orderId a = ord_orderId b"

lemma same_counts_contrib:
  "same_counts a b \<Longrightarrow> contrib ord_accountId sd x y b = contrib ord_accountId sd x y a"
  "same_counts a b \<Longrightarrow> contrib ord_strategyId sd x y b = contrib ord_strategyId sd x y a"
  by (auto simp: same_counts_def contrib_def open_qty_def)

lemma same_counts_order_ok:
  "same_counts a b \<Longrightarrow> isOrderLive (Some b) \<Longrightarrow> order_ok k a \<Longrightarrow> order_ok k b"
  by (auto simp: same_counts_def order_ok_def)

lemma side_count_open:
  assumes "real_side sd" and "tw_sub (ord_qty ord) (ord_cumQty ord) = open_qty ord"
    and "tw_ok (open_qty ord)" and "tw_ok (side_count sd v)"
  shows "tw_ok (side_count sd v + (if ord_side ord = sd then open_qty ord else 0)) \<Longrightarrow>
      side_count sd (count_open ord 1 v) =
        side_count sd v + (if ord_side ord = sd then open_qty ord else 0)"
    and "tw_ok (side_count sd v - (if ord_side ord = sd then open_qty ord else 0)) \<Longrightarrow>
      side_count sd (count_open ord (- 1) v) =
        side_count sd v - (if ord_side ord = sd then open_qty ord else 0)"
  using assms
  by (auto simp: count_open_def Let_def side_count_def wrap_simps split: eOrderSide.splits if_splits)

lemma contrib_at: "contrib own sd (own ord) (ord_instrumentId ord) ord = (if ord_side ord = sd then open_qty ord else 0)"
  by (simp add: contrib_def)

lemma contrib_else: "x \<noteq> own ord \<or> y \<noteq> ord_instrumentId ord \<Longrightarrow> contrib own sd x y ord = 0"
  by (auto simp: contrib_def)

lemma book_ok_add:
  assumes b: "book_ok il own h t m" and k: "sm_find t k = None" and ord: "order_ok k (h p)"
    and room: "real_side (ord_side (h p)) \<Longrightarrow>
      tw_ok (open_sum h t own (ord_side (h p)) (own (h p)) (ord_instrumentId (h p)) + open_qty (h p))"
  shows "book_ok il own h (sm_insert t k p)
    (oop_update il m (own (h p)) (ord_instrumentId (h p)) (count_open (h p) 1))"
proof -
  note q = order_ok_tw [OF ord]
  have ok: "oop_ok m" using b by (simp add: book_ok_def)
  { fix sd x y assume sd: "real_side sd"
    have v: "side_count sd (oop_val il m x y) = open_sum h t own sd x y" "tw_ok (open_sum h t own sd x y)"
      using b sd by (auto simp: book_ok_def)
    have "side_count sd (oop_val il (oop_update il m (own (h p)) (ord_instrumentId (h p)) (count_open (h p) 1)) x y) =
        open_sum h (sm_insert t k p) own sd x y \<and> tw_ok (open_sum h (sm_insert t k p) own sd x y)"
    proof (cases "x = own (h p) \<and> y = ord_instrumentId (h p)")
      case True
      then have "tw_ok (side_count sd (oop_val il m x y) + (if ord_side (h p) = sd then open_qty (h p) else 0))"
        using v room sd by auto
      with True v sd q show ?thesis
        by (auto simp: oop.val_upd [OF ok] open_sum_insert [OF k] contrib_at side_count_open(1))
    next
      case False
      with v show ?thesis by (auto simp: oop.val_upd [OF ok] open_sum_insert [OF k] contrib_else)
    qed }
  then show ?thesis by (simp add: book_ok_def oop.upd_ok [OF ok])
qed

lemma book_ok_remove:
  assumes b: "book_ok il own h t m" and k: "sm_find t k = Some p"
    and q: "tw_sub (ord_qty (h p)) (ord_cumQty (h p)) = open_qty (h p)" "tw_ok (open_qty (h p))" "0 \<le> open_qty (h p)"
    and le: "\<And>sd x y. contrib own sd x y (h p) \<le> open_sum h t own sd x y"
  shows "book_ok il own h (sm_erase t k)
    (oop_update il m (own (h p)) (ord_instrumentId (h p)) (count_open (h p) (- 1)))"
proof -
  have ok: "oop_ok m" using b by (simp add: book_ok_def)
  { fix sd x y assume sd: "real_side sd"
    have v: "side_count sd (oop_val il m x y) = open_sum h t own sd x y" "tw_ok (open_sum h t own sd x y)"
      using b sd by (auto simp: book_ok_def)
    have c: "0 \<le> contrib own sd x y (h p)" using q(3) by (simp add: contrib_def)
    have room: "tw_ok (open_sum h t own sd x y - contrib own sd x y (h p))"
      using v(2) le [of sd x y] c by (auto simp: tw_ok_iff)
    have "side_count sd (oop_val il (oop_update il m (own (h p)) (ord_instrumentId (h p)) (count_open (h p) (- 1))) x y) =
        open_sum h (sm_erase t k) own sd x y \<and> tw_ok (open_sum h (sm_erase t k) own sd x y)"
    proof (cases "x = own (h p) \<and> y = ord_instrumentId (h p)")
      case True
      with room v have "tw_ok (side_count sd (oop_val il m x y) - (if ord_side (h p) = sd then open_qty (h p) else 0))"
        by (simp add: contrib_at)
      with True v sd q room show ?thesis
        by (auto simp: oop.val_upd [OF ok] open_sum_erase [OF k] contrib_at side_count_open(2))
    next
      case False
      with v room show ?thesis by (auto simp: oop.val_upd [OF ok] open_sum_erase [OF k] contrib_else)
    qed }
  then show ?thesis by (simp add: book_ok_def oop.upd_ok [OF ok])
qed

lemma book_ok_cong:
  "book_ok il own h t m \<Longrightarrow> (\<And>sd x y. open_sum h' t own sd x y = open_sum h t own sd x y) \<Longrightarrow>
     book_ok il own h' t m"
  by (simp add: book_ok_def)

lemma open_sum_same_counts:
  assumes "table_ok h t" and "p \<in> snd ` set t \<Longrightarrow> contrib own sd x y ord = contrib own sd x y (h p)"
  shows "open_sum (h(p := ord)) t own sd x y = open_sum h t own sd x y"
proof (cases "p \<in> snd ` set t")
  case True
  then obtain k where "(k, p) \<in> set t" by auto
  from open_sum_heap_at [OF assms(1) this] assms(2) [OF True] show ?thesis by simp
qed (simp add: open_sum_heap_other)

subsection \<open>Writes to an order\<close>

lemma po_set_simps [simp]:
  "po_table (po_set p f s) = po_table s" "po_account (po_set p f s) = po_account s"
  "po_strategy (po_set p f s) = po_strategy s" "po_stuck_timeout (po_set p f s) = po_stuck_timeout s"
  "po_heap (po_set p f s) = (po_heap s)(p := f (po_heap s p))"
  by (simp_all add: po_set_def)

text \<open>
  A write that keeps the counted fields, and keeps the order live where the table holds it,
  keeps the invariant: every operation that only moves an order between live states is one.
\<close>

lemma po_inv_set:
  assumes inv: "po_inv il s"
    and f: "p \<in> snd ` set (po_table s) \<Longrightarrow>
      same_counts (po_order s p) (f (po_order s p)) \<and> isOrderLive (Some (f (po_order s p)))"
  shows "po_inv il (po_set p f s)"
proof -
  let ?h = "po_heap s" and ?t = "po_table s" and ?ord = "f (po_heap s p)"
  have t: "table_ok ?h ?t" using inv by (simp add: po_inv_def)
  have t': "table_ok (?h(p := ?ord)) ?t"
    using t f by (auto simp: table_ok_def intro: same_counts_order_ok)
  have "book_ok il ord_accountId (?h(p := ?ord)) ?t (po_account s)"
    by (rule book_ok_cong [of il ord_accountId ?h], use inv in \<open>simp add: po_inv_def\<close>)
      (intro open_sum_same_counts [OF t] same_counts_contrib, use f in blast)
  moreover have "book_ok il ord_strategyId (?h(p := ?ord)) ?t (po_strategy s)"
    by (rule book_ok_cong [of il ord_strategyId ?h], use inv in \<open>simp add: po_inv_def\<close>)
      (intro open_sum_same_counts [OF t] same_counts_contrib, use f in blast)
  ultimately show ?thesis using t' by (simp add: po_inv_def)
qed

end
