(* ===== verification/OrderLifecycle.thy ===== *)
theory OrderLifecycle
  imports OpenOrderCounts
begin

section \<open>Every order operation keeps the counters and the table in step\<close>

text \<open>
  One lemma per operation of \<open>ProcessorOrders\<close>, then the step relation \<open>po_step\<close>
  (any client, any order, any interleaving of requests and exchange responses) and the invariant
  of its reachable states.
\<close>

lemma erase_other_pointer:
  assumes t: "table_ok h t" and kp: "(k, p) \<in> set t" and e: "e \<in> set (sm_erase t k)"
  shows "e \<in> set t" and "snd e \<noteq> p"
proof -
  have ok: "sm_ok t" using t by (simp add: table_ok_def)
  show e': "e \<in> set t" by (rule subsetD [OF sm_keys_erase_subset e])
  show "snd e \<noteq> p"
  proof
    assume "snd e = p"
    then have e_eq: "e = (fst e, p)" by (simp add: prod_eq_iff)
    with e' have "(fst e, p) \<in> set t" by simp
    then have "fst e = k" by (rule table_ok_inj [OF t _ kp])
    with e e_eq have "(k, p) \<in> set (sm_erase t k)" by simp
    then have "sm_find (sm_erase t k) k = Some p"
      by (rule sm_find_iff [OF sm_ok_erase [OF ok], THEN iffD2])
    then show False by (simp add: sm_find_erase [OF ok])
  qed
qed

lemma po_remove_simps:
  "po_heap (po_remove il p s) = po_heap s"
  "po_table (po_remove il p s) = sm_erase (po_table s) (ord_orderId (po_order s p))"
  "po_account (po_remove il p s) = oop_update il (po_account s) (ord_accountId (po_order s p))
     (ord_instrumentId (po_order s p)) (count_open (po_order s p) (- 1))"
  "po_strategy (po_remove il p s) = oop_update il (po_strategy s) (ord_strategyId (po_order s p))
     (ord_instrumentId (po_order s p)) (count_open (po_order s p) (- 1))"
  by (simp_all add: po_remove_def po_changeOpenOrdersCounts_def Let_def ot_rem_table)

text \<open>
  Marking an order of the table as finished and removing it takes exactly its open quantity out
  of both books.
\<close>

lemma po_inv_remove:
  assumes inv: "po_inv il s" and kp: "(k, p) \<in> set (po_table s)"
    and f: "same_counts (po_order s p) (f (po_order s p))"
  shows "po_inv il (po_remove il p (po_set p f s))"
proof -
  let ?h = "po_heap s" and ?t = "po_table s"
  let ?ord = "f (po_heap s p)"
  let ?h' = "?h(p := ?ord)"
  have t: "table_ok ?h ?t" using inv by (simp add: po_inv_def)
  then have ok: "sm_ok ?t" and old: "order_ok k (?h p)" using kp by (auto simp: table_ok_def)
  have find: "sm_find ?t k = Some p" using sm_find_iff [OF ok] kp by blast
  have id: "ord_orderId ?ord = k" using f old by (auto simp: same_counts_def order_ok_def)
  have open_eq: "open_qty ?ord = open_qty (?h p)" using f by (auto simp: same_counts_def open_qty_def)
  have q: "tw_sub (ord_qty ?ord) (ord_cumQty ?ord) = open_qty ?ord" "tw_ok (open_qty ?ord)" "0 \<le> open_qty ?ord"
    using order_ok_tw [OF old] f unfolding open_eq by (auto simp: same_counts_def)
  have sums: "open_sum ?h' ?t ord_accountId sd x y = open_sum ?h ?t ord_accountId sd x y"
      "open_sum ?h' ?t ord_strategyId sd x y = open_sum ?h ?t ord_strategyId sd x y" for sd x y
    by (rule open_sum_same_counts [OF t], rule same_counts_contrib, rule f)+
  have le: "contrib ord_accountId sd x y ?ord \<le> open_sum ?h' ?t ord_accountId sd x y"
      "contrib ord_strategyId sd x y ?ord \<le> open_sum ?h' ?t ord_strategyId sd x y" for sd x y
    unfolding sums same_counts_contrib [OF f] by (rule contrib_le_open_sum [OF t kp])+
  have books: "book_ok il ord_accountId ?h' ?t (po_account s)" "book_ok il ord_strategyId ?h' ?t (po_strategy s)"
    using inv by (auto simp: po_inv_def sums intro: book_ok_cong)
  have tab: "table_ok ?h' (sm_erase ?t k)"
    using t erase_other_pointer [OF t kp] by (auto simp: table_ok_def sm_ok_erase)
  have "book_ok il ord_accountId ?h' (sm_erase ?t k) (po_account (po_remove il p (po_set p f s)))"
    using book_ok_remove [OF books(1) find, simplified, OF q le(1)] by (simp add: po_remove_simps)
  moreover have "book_ok il ord_strategyId ?h' (sm_erase ?t k) (po_strategy (po_remove il p (po_set p f s)))"
    using book_ok_remove [OF books(2) find, simplified, OF q le(2)] by (simp add: po_remove_simps)
  ultimately show ?thesis
    using tab by (simp add: po_inv_def po_remove_simps id)
qed

subsection \<open>Requests\<close>

lemma po_set_compose: "po_set p g (po_set p f s) = po_set p (g \<circ> f) s"
  by (simp add: po_set_def)

text \<open>What the outcome of \<open>sendNew\<close> is, branch by branch.\<close>

lemma po_sendNew_cases:
  "po_sendNew il p s =
     (let s2 = po_set p (\<lambda>ord. ord\<lparr>ord_action := kOrNew, ord_state := kPending\<rparr>) s;
          ord = po_order s p in
      if ord_state ord \<noteq> kUnknownState
      then (po_set p (\<lambda>ord. ord\<lparr>ord_action := kOrNew\<rparr>) s, Some (po_getRej kInvalidOrderState))
      else if ord_qty ord \<le> 0
      then (po_onNewRej il p (po_getRej kInvalidOrderQty) s2, Some (po_getRej kInvalidOrderQty))
      else if ord_type ord = kLimit \<and> \<not> tw_isValid (ord_price ord)
      then (po_onNewRej il p (po_getRej kInvalidOrderPrice) s2, Some (po_getRej kInvalidOrderPrice))
      else if sm_find (po_table s) (ord_orderId ord) \<noteq> None
      then (po_onNewRej il p (po_getRej kDuplicateOrderId) s2, Some (po_getRej kDuplicateOrderId))
      else (po_changeOpenOrdersCounts il p 1
              (s2\<lparr>po_table := sm_insert (po_table s) (ord_orderId ord) p\<rparr>), None))"
  by (auto simp: po_sendNew_def Let_def po_set_compose comp_def ot_add_def ot_exist_def eq_commute)

text \<open>Room for a new order in the counters of its account and of its strategy.\<close>

definition room_for :: "'d po_state \<Rightarrow> 'd order \<Rightarrow> bool" where
  "room_for s ord \<longleftrightarrow>
     tw_ok (open_sum (po_heap s) (po_table s) ord_accountId (ord_side ord) (ord_accountId ord)
              (ord_instrumentId ord) + open_qty ord) \<and>
     tw_ok (open_sum (po_heap s) (po_table s) ord_strategyId (ord_side ord) (ord_strategyId ord)
              (ord_instrumentId ord) + open_qty ord)"

definition fresh_order :: "'d po_state \<Rightarrow> optr \<Rightarrow> bool" where
  "fresh_order s p \<longleftrightarrow> p \<notin> snd ` set (po_table s) \<and> ord_cumQty (po_order s p) = 0 \<and>
     ord_qty (po_order s p) \<le> INT32_MAX"

text \<open>
  What accepting an order and rebuilding one share: an order outside the table gets a live,
  partially filled image, is inserted under its id and counted in both books.
\<close>

lemma po_inv_enter:
  assumes inv: "po_inv il s" and p: "p \<notin> snd ` set (po_table s)"
    and none: "sm_find (po_table s) (ord_orderId ord) = None" and ok: "order_ok (ord_orderId ord) ord"
    and room: "room_for s ord"
    and s': "s' = po_changeOpenOrdersCounts il p 1
      ((po_set p (\<lambda>_. ord) s)\<lparr>po_table := sm_insert (po_table s) (ord_orderId ord) p\<rparr>)"
  shows "po_inv il s'"
proof -
  let ?h = "(po_heap s)(p := ord)" and ?t = "po_table s" and ?k = "ord_orderId ord"
  have ord: "order_ok ?k (?h p)" using ok by simp
  have t: "table_ok (po_heap s) ?t" using inv by (simp add: po_inv_def)
  note set_t = sm_insert_subset [of ?t ?k p]
  have tab: "table_ok ?h (sm_insert ?t ?k p)"
    unfolding table_ok_def
  proof (intro conjI ballI)
    show "sm_ok (sm_insert ?t ?k p)" using t by (simp add: table_ok_def sm_ok_insert)
  next
    fix e assume "e \<in> set (sm_insert ?t ?k p)"
    then consider "e = (?k, p)" | "e \<in> set ?t" "snd e \<noteq> p" using set_t p by force
    then show "order_ok (fst e) (?h (snd e))"
      using ord t by cases (auto simp: table_ok_def)
  qed
  have sums: "open_sum ?h ?t own sd x y = open_sum (po_heap s) ?t own sd x y" for own sd x y
    by (rule open_sum_heap_other [OF p])
  have books: "book_ok il ord_accountId ?h ?t (po_account s)" "book_ok il ord_strategyId ?h ?t (po_strategy s)"
    using inv by (auto simp: po_inv_def sums intro: book_ok_cong)
  have room': "tw_ok (open_sum ?h ?t ord_accountId (ord_side (?h p)) (ord_accountId (?h p)) (ord_instrumentId (?h p)) + open_qty (?h p))"
      "tw_ok (open_sum ?h ?t ord_strategyId (ord_side (?h p)) (ord_strategyId (?h p)) (ord_instrumentId (?h p)) + open_qty (?h p))"
    unfolding sums using room by (simp_all add: room_for_def)
  have "book_ok il ord_accountId ?h (sm_insert ?t ?k p) (po_account s')"
    using book_ok_add [OF books(1) none ord room'(1)] by (simp add: s' po_changeOpenOrdersCounts_def Let_def)
  moreover have "book_ok il ord_strategyId ?h (sm_insert ?t ?k p) (po_strategy s')"
    using book_ok_add [OF books(2) none ord room'(2)] by (simp add: s' po_changeOpenOrdersCounts_def Let_def)
  ultimately show ?thesis
    using tab by (simp add: po_inv_def s' po_changeOpenOrdersCounts_def Let_def)
qed

lemma po_sendNew_accepted_inv:
  assumes inv: "po_inv il s" and fresh: "fresh_order s p" and room: "room_for s (po_order s p)"
    and acc: "po_sendNew il p s = (s', None)"
  shows "po_inv il s'"
proof -
  let ?ord = "(po_order s p)\<lparr>ord_action := kOrNew, ord_state := kPending\<rparr>"
  have c: "ord_qty (po_order s p) > 0" "sm_find (po_table s) (ord_orderId ?ord) = None"
    and s': "s' = po_changeOpenOrdersCounts il p 1
      ((po_set p (\<lambda>_. ?ord) s)\<lparr>po_table := sm_insert (po_table s) (ord_orderId ?ord) p\<rparr>)"
    using acc by (auto simp: po_sendNew_cases Let_def po_set_def split: if_splits)
  have "order_ok (ord_orderId ?ord) ?ord"
    using fresh c(1) by (simp add: order_ok_def fresh_order_def isOrderLive.simps)
  then show ?thesis
    using fresh room by (intro po_inv_enter [OF inv _ c(2) _ _ s'])
      (simp_all add: fresh_order_def room_for_def open_qty_def)
qed

text \<open>
  An order rebuilt after a restart is live and may be partially filled. It enters the table with
  its open quantity, exactly as a new order does.
\<close>

definition rebuilt_order :: "'d po_state \<Rightarrow> optr \<Rightarrow> bool" where
  "rebuilt_order s p \<longleftrightarrow> p \<notin> snd ` set (po_table s) \<and>
     order_ok (ord_orderId (po_order s p)) (po_order s p)"

lemma po_rebuildOrder_inv:
  assumes inv: "po_inv il s" and ord: "rebuilt_order s p" and room: "room_for s (po_order s p)"
    and acc: "po_rebuildOrder il p s = (s', None)"
  shows "po_inv il s'"
proof -
  let ?ord = "(po_order s p)\<lparr>ord_instrument := il_getByKeyId il (ord_instrumentId (po_order s p))\<rparr>"
  have none: "sm_find (po_table s) (ord_orderId ?ord) = None"
    and s': "s' = po_changeOpenOrdersCounts il p 1
      ((po_set p (\<lambda>_. ?ord) s)\<lparr>po_table := sm_insert (po_table s) (ord_orderId ?ord) p\<rparr>)"
    using acc by (cases s; auto simp: po_rebuildOrder_def Let_def po_set_def ot_add_def ot_exist_def split: if_splits)+
  have "order_ok (ord_orderId ?ord) ?ord"
    using ord by (simp add: rebuilt_order_def order_ok_def isOrderLive.simps)
  then show ?thesis
    using ord room by (intro po_inv_enter [OF inv _ none _ _ s'])
      (simp_all add: rebuilt_order_def room_for_def open_qty_def)
qed

lemma po_rebuildOrder_refused_inv:
  "po_inv il s \<Longrightarrow> ot_exist (po_table s) (ord_orderId (po_order s p)) \<Longrightarrow>
   po_inv il (fst (po_rebuildOrder il p s))"
  by (simp add: po_rebuildOrder_def ot_add_def)

text \<open>
  A write is benign when it keeps the counted fields and does not turn a live order into a
  finished one. All transitions between the live states are benign.
\<close>

definition benign :: "('d order \<Rightarrow> 'd order) \<Rightarrow> bool" where
  "benign f \<longleftrightarrow> (\<forall>ord. same_counts ord (f ord) \<and>
     (isOrderLive (Some ord) \<longrightarrow> isOrderLive (Some (f ord))))"

lemma po_inv_benign: "benign f \<Longrightarrow> po_inv il s \<Longrightarrow> po_inv il (po_set p f s)"
proof -
  assume f: "benign f" and inv: "po_inv il s"
  have "isOrderLive (Some (po_order s p))" if "p \<in> snd ` set (po_table s)"
    using inv that by (auto simp: po_inv_def table_ok_def order_ok_def)
  with f show ?thesis by (intro po_inv_set [OF inv]) (auto simp: benign_def)
qed

lemma benign_writes [simp]:
  "benign (\<lambda>ord. ord\<lparr>ord_action := a\<rparr>)"
  "benign (\<lambda>ord. ord\<lparr>ord_action := a, ord_modRejCounter := 0\<rparr>)"
  "benign (\<lambda>ord. ord\<lparr>ord_action := a, ord_modRejCounter := ord_modRejCounter ord + 1\<rparr>)"
  "benign (\<lambda>ord. ord\<lparr>ord_action := a, ord_cxlRejCounter := ord_cxlRejCounter ord + 1\<rparr>)"
  "benign (\<lambda>ord. ord\<lparr>ord_state := kWorking\<rparr>)"
  "benign (\<lambda>ord. ord\<lparr>ord_state := kModifying\<rparr>)"
  "benign (\<lambda>ord. ord\<lparr>ord_state := kCancelling\<rparr>)"
  "benign (\<lambda>ord. ord\<lparr>ord_cancelOnAck := b\<rparr>)"
  "benign (\<lambda>ord. ord\<lparr>ord_modCounter := ord_modCounter ord + 1\<rparr>)"
  "benign (\<lambda>ord. ord\<lparr>ord_modCounter := ord_modCounter ord - 1\<rparr>)"
  "benign (\<lambda>ord. ord\<lparr>ord_newPrice := n, ord_exNewPrice := x\<rparr>)"
  "benign (\<lambda>ord. ord\<lparr>ord_price := ord_newPrice ord, ord_exPrice := ord_exNewPrice ord\<rparr>)"
  by (simp_all add: benign_def same_counts_def isOrderLive.simps)

lemma po_sendNew_bad_state_inv:
  "po_inv il s \<Longrightarrow> ord_state (po_order s p) \<noteq> kUnknownState \<Longrightarrow> po_inv il (fst (po_sendNew il p s))"
  by (simp add: po_sendNew_cases Let_def po_inv_benign)

lemma po_sendMod_inv: "po_inv il s \<Longrightarrow> po_inv il (fst (po_sendMod p s))"
  unfolding po_sendMod_def Let_def by (auto intro!: po_inv_benign)

lemma po_sendCxl_inv: "po_inv il s \<Longrightarrow> po_inv il (fst (po_sendCxl p s))"
  unfolding po_sendCxl_def Let_def by (auto intro!: po_inv_benign)

text \<open>
  A refused new order goes down the reject path, which takes its open quantity out of the books and
  whatever has its id out of the table. This is without effect for an order that counts for nothing
  (no quantity, or no side) under an id the table does not hold.
\<close>

definition counts_nothing :: "'d po_state \<Rightarrow> optr \<Rightarrow> bool" where
  "counts_nothing s p \<longleftrightarrow> p \<notin> snd ` set (po_table s) \<and>
     sm_find (po_table s) (ord_orderId (po_order s p)) = None \<and>
     (ord_qty (po_order s p) = 0 \<and> ord_cumQty (po_order s p) = 0 \<or> \<not> real_side (ord_side (po_order s p)))"

lemma count_open_nothing:
  assumes "ord_qty ord = 0 \<and> ord_cumQty ord = 0 \<or> \<not> real_side (ord_side ord)"
    and "tw_ok (iop_bids v)" and "tw_ok (iop_asks v)"
  shows "count_open ord n v = v"
  using assms by (auto simp: count_open_def Let_def wrap_simps split: eOrderSide.splits)

lemma book_val_nothing:
  assumes b: "book_ok il own h t m"
    and ord: "ord_qty ord = 0 \<and> ord_cumQty ord = 0 \<or> \<not> real_side (ord_side ord)"
  shows "oop_val il (oop_update il m x y (count_open ord n)) = oop_val il m"
proof -
  have ok: "oop_ok m" using b by (simp add: book_ok_def)
  have "tw_ok (side_count kBuy (oop_val il m x y))" "tw_ok (side_count kSell (oop_val il m x y))"
    using b by (auto simp: book_ok_def)
  then have "count_open ord n (oop_val il m x y) = oop_val il m x y"
    by (intro count_open_nothing [OF ord]) (simp_all add: side_count_def)
  then show ?thesis by (auto simp: fun_eq_iff oop.val_upd [OF ok])
qed

lemma book_ok_nothing:
  assumes b: "book_ok il own h t m"
    and ord: "ord_qty ord = 0 \<and> ord_cumQty ord = 0 \<or> \<not> real_side (ord_side ord)"
  shows "book_ok il own h t (oop_update il m x y (count_open ord n))"
proof -
  have "oop_ok m" using b by (simp add: book_ok_def)
  with b book_val_nothing [OF b ord] show ?thesis by (simp add: book_ok_def oop.upd_ok)
qed

lemma po_inv_remove_nothing:
  assumes "po_inv il s" and "sm_find (po_table s) (ord_orderId (po_order s p)) = None"
    and "ord_qty (po_order s p) = 0 \<and> ord_cumQty (po_order s p) = 0 \<or> \<not> real_side (ord_side (po_order s p))"
  shows "po_inv il (po_remove il p s)"
  unfolding po_inv_def po_remove_simps sm_erase_absent [OF assms(2)]
  using assms(1) by (intro conjI book_ok_nothing [OF _ assms(3)]) (simp_all add: po_inv_def)

lemma po_sendNew_nothing_inv:
  assumes inv: "po_inv il s" and p: "counts_nothing s p" and rej: "po_sendNew il p s = (s', Some r)"
  shows "po_inv il s'"
proof (cases "ord_state (po_order s p) = kUnknownState")
  case False
  then show ?thesis using po_sendNew_bad_state_inv [OF inv, of p] rej by simp
next
  case True
  let ?mark = "\<lambda>ord. ord\<lparr>ord_action := kOrNewRej, ord_state := kRejected\<rparr>"
  have s': "s' = po_remove il p (po_set p ?mark s)"
    using rej True by (auto simp: po_sendNew_cases Let_def po_onNewRej_def po_set_def split: if_splits)
  have "po_inv il (po_set p ?mark s)" by (rule po_inv_set [OF inv]) (use p in \<open>simp add: counts_nothing_def\<close>)
  then show ?thesis
    unfolding s' by (rule po_inv_remove_nothing) (use p in \<open>simp_all add: counts_nothing_def\<close>)
qed

subsection \<open>Acknowledgements and rejects\<close>

lemma po_onNewAck_inv: "po_inv il s \<Longrightarrow> po_inv il (po_onNewAck p s)"
  unfolding po_onNewAck_def Let_def by (auto intro!: po_inv_benign)

lemma po_onModAck_inv: "po_inv il s \<Longrightarrow> po_inv il (po_onModAck p s)"
  unfolding po_onModAck_def by (auto intro!: po_inv_benign)

lemma po_onModRej_inv: "po_inv il s \<Longrightarrow> po_inv il (po_onModRej p rej s)"
  unfolding po_onModRej_def by (auto intro!: po_inv_benign)

lemma po_doOnModPost_inv: "po_inv il s \<Longrightarrow> po_inv il (po_doOnModPost p b s)"
  unfolding po_doOnModPost_def Let_def by (auto intro!: po_inv_benign)

lemma po_onModRejPost_inv: "po_inv il s \<Longrightarrow> po_inv il (po_onModRejPost p rej s)"
  unfolding po_onModRejPost_def by (auto intro!: po_inv_benign po_doOnModPost_inv)

lemma po_onCxlRej_inv: "po_inv il s \<Longrightarrow> po_inv il (po_onCxlRej p rej s)"
  unfolding po_onCxlRej_def Let_def by (auto intro!: po_inv_benign)

lemma po_onNewRej_inv:
  assumes "po_inv il s" and "(k, p) \<in> set (po_table s)"
  shows "po_inv il (po_onNewRej il p rej s)"
proof -
  let ?s1 = "po_set p (\<lambda>ord. ord\<lparr>ord_action := kOrNewRej\<rparr>) s"
  have "po_inv il ?s1" by (simp add: po_inv_benign assms(1))
  moreover from this have "po_inv il (po_remove il p (po_set p (\<lambda>ord. ord\<lparr>ord_state := kRejected\<rparr>) ?s1))"
    by (rule po_inv_remove [where k = k]) (simp_all add: assms(2) same_counts_def)
  ultimately show ?thesis by (simp add: po_onNewRej_def Let_def)
qed

lemma po_onCxlAck_inv:
  assumes "po_inv il s" and "(k, p) \<in> set (po_table s)"
  shows "po_inv il (po_onCxlAck il p s)"
  unfolding po_onCxlAck_def
  by (rule po_inv_remove [OF assms]) (simp add: same_counts_def)

subsection \<open>Fills\<close>

lemma book_ok_position:
  assumes b: "book_ok il own h t m" and g: "\<And>sd v. side_count sd (g v) = side_count sd v"
  shows "book_ok il own h t (oop_update il m x y g)"
proof -
  have ok: "oop_ok m" using b by (simp add: book_ok_def)
  show ?thesis using b by (auto simp: book_ok_def oop.val_upd [OF ok] oop.upd_ok [OF ok] g)
qed

lemma count_fill_external: "fl_type f = kExternal \<Longrightarrow> side_count sd (count_fill f v) = side_count sd v"
  by (simp add: count_fill_def Let_def side_count_def split: eOrderSide.splits)

lemma po_onFill_external_inv:
  assumes "po_inv il s" and "fl_type f = kExternal"
  shows "po_inv il (fst (po_onFill il f s))"
proof -
  have "fst (po_onFill il f s) = fst (po_changePosCounts il f s)"
    using assms(2) by (auto simp: po_onFill_def split: option.splits)
  with assms show ?thesis
    by (simp add: po_inv_def po_changePosCounts_def Let_def book_ok_position count_fill_external)
qed

lemma po_rebuildPos_inv:
  assumes "po_inv il s"
  shows "po_inv il (po_rebuildPos il u s)"
proof -
  have "side_count sd (v\<lparr>iop_pos := s32 (iop_pos v + n)\<rparr>) = side_count sd v" for sd v n
    by (simp add: side_count_def)
  with assms show ?thesis
    by (auto simp: po_inv_def po_rebuildPos_def Let_def intro!: book_ok_position split: option.splits)
qed

text \<open>
  A fill takes its quantity out of the counter of its side; the book stays right when the
  order's open quantity in the table drops by the same amount.
\<close>

lemma count_fill_normal:
  assumes "fl_type f = kNormal" and "real_side sd" and "tw_ok (fl_qty f)" and "tw_ok (side_count sd v)"
    and "tw_ok (side_count sd v - (if fl_side f = sd then fl_qty f else 0))"
  shows "side_count sd (count_fill f v) = side_count sd v - (if fl_side f = sd then fl_qty f else 0)"
  using assms
  by (auto simp: count_fill_def Let_def side_count_def wrap_simps split: eOrderSide.splits if_splits)

lemma book_ok_fill:
  assumes b: "book_ok il own h t m" and f: "fl_type f = kNormal" "tw_ok (fl_qty f)" "0 \<le> fl_qty f"
    and sums: "\<And>sd x' y'. open_sum h' t' own sd x' y' = open_sum h t own sd x' y' -
        (if fl_side f = sd \<and> x' = x \<and> y' = y then fl_qty f else 0)"
    and pos: "\<And>sd x' y'. 0 \<le> open_sum h' t' own sd x' y'"
  shows "book_ok il own h' t' (oop_update il m x y (count_fill f))"
proof -
  have ok: "oop_ok m" using b by (simp add: book_ok_def)
  { fix sd x' y' assume sd: "real_side sd"
    have v: "side_count sd (oop_val il m x' y') = open_sum h t own sd x' y'" "tw_ok (open_sum h t own sd x' y')"
      using b sd by (auto simp: book_ok_def)
    have room: "tw_ok (open_sum h' t' own sd x' y')"
      using v(2) pos [of sd x' y'] f(3) sums [of sd x' y'] by (auto simp: tw_ok_iff split: if_splits)
    have "side_count sd (oop_val il (oop_update il m x y (count_fill f)) x' y') = open_sum h' t' own sd x' y'"
    proof (cases "x' = x \<and> y' = y")
      case True
      have "side_count sd (count_fill f (oop_val il m x y)) = open_sum h' t' own sd x y"
        using v room True sums [of sd x y] by (subst count_fill_normal [OF f(1) sd f(2)]) auto
      with True show ?thesis by (simp add: oop.val_upd [OF ok])
    next
      case False
      then show ?thesis using v sums [of sd x' y'] by (auto simp: oop.val_upd [OF ok])
    qed
    with room have "side_count sd (oop_val il (oop_update il m x y (count_fill f)) x' y') =
        open_sum h' t' own sd x' y' \<and> tw_ok (open_sum h' t' own sd x' y')" by simp }
  then show ?thesis by (simp add: book_ok_def oop.upd_ok [OF ok])
qed

text \<open>A fill report that belongs to an order: same owner, instrument and side, and not more than is open.\<close>

definition fill_matches :: "'d fill \<Rightarrow> 'd order \<Rightarrow> bool" where
  "fill_matches f ord \<longleftrightarrow> fl_accountId f = ord_accountId ord \<and> fl_strategyId f = ord_strategyId ord \<and>
     fl_instrumentId f = ord_instrumentId ord \<and> fl_side f = ord_side ord \<and>
     0 < fl_qty f \<and> fl_qty f \<le> open_qty ord"

lemma count_open_closed:
  assumes "ord_cumQty ord = ord_qty ord" and "tw_ok (ord_qty ord)" and "tw_ok (side_count sd v)" and "real_side sd"
  shows "side_count sd (count_open ord (- 1) v) = side_count sd v"
proof -
  have "tw_sub (ord_qty ord) (ord_cumQty ord) = 0" using assms by (simp add: ticks_ops.sub_self)
  with assms show ?thesis
    by (auto simp: count_open_def side_count_def wrap_simps split: eOrderSide.splits)
qed

lemma book_ok_closed:
  assumes b: "book_ok il own h t m" and ord: "ord_cumQty ord = ord_qty ord" "tw_ok (ord_qty ord)"
  shows "book_ok il own h t (oop_update il m x y (count_open ord (- 1)))"
proof -
  have ok: "oop_ok m" using b by (simp add: book_ok_def)
  have "side_count sd (count_open ord (- 1) (oop_val il m x y)) = side_count sd (oop_val il m x y)"
    if "real_side sd" for sd
    using b that by (intro count_open_closed [OF ord]) (auto simp: book_ok_def)
  with b show ?thesis by (auto simp: book_ok_def oop.val_upd [OF ok] oop.upd_ok [OF ok])
qed

lemma po_onFill_normal_eq:
  assumes f: "fl_type f = kNormal" "fl_order f = Some p" and st: "ord_state (po_order s p) \<noteq> kFilled"
    and cum: "size_add_eq (ord_cumQty (po_order s p)) (fl_qty f) = c"
  shows "fst (po_onFill il f s) = fst (po_changePosCounts il f
    (if ord_qty (po_order s p) \<le> c
     then po_remove il p (po_set p (\<lambda>ord. ord\<lparr>ord_cumQty := c, ord_state := kFilled\<rparr>) s)
     else po_set p (\<lambda>ord. ord\<lparr>ord_cumQty := c\<rparr>) s))"
  using assms by (auto simp: po_onFill_def Let_def po_set_def)

lemma contrib_after_fill:
  assumes "fill_matches f ord" and "own ord' = own ord" and "ord_side ord' = ord_side ord"
    and "ord_instrumentId ord' = ord_instrumentId ord" and "ord_qty ord' = ord_qty ord"
    and "ord_cumQty ord' = ord_cumQty ord + fl_qty f"
  shows "contrib own sd x y ord' = contrib own sd x y ord -
    (if fl_side f = sd \<and> x = own ord \<and> y = fl_instrumentId f then fl_qty f else 0)"
  using assms by (auto simp: contrib_def fill_matches_def open_qty_def)

lemma contrib_all_filled:
  "fill_matches f ord \<Longrightarrow> open_qty ord = fl_qty f \<Longrightarrow> contrib own sd x y ord =
     (if fl_side f = sd \<and> x = own ord \<and> y = fl_instrumentId f then fl_qty f else 0)"
  by (auto simp: contrib_def fill_matches_def)

text \<open>
  The common step: once the sums have dropped by the fill, filling both books restores the
  invariant.
\<close>

lemma po_inv_fill_books:
  assumes b: "book_ok il ord_accountId (po_heap s) (po_table s) ma"
      "book_ok il ord_strategyId (po_heap s) (po_table s) ms"
    and f: "fl_type f = kNormal" "tw_ok (fl_qty f)" "fill_matches f (po_order s p)"
    and t': "table_ok h' t'"
    and sums: "\<And>own sd x y. own = ord_accountId \<or> own = ord_strategyId \<Longrightarrow>
      open_sum h' t' own sd x y = open_sum (po_heap s) (po_table s) own sd x y -
        (if fl_side f = sd \<and> x = own (po_order s p) \<and> y = fl_instrumentId f then fl_qty f else 0)"
    and s': "po_heap s' = h'" "po_table s' = t'"
      "po_account s' = oop_update il ma (fl_accountId f) (fl_instrumentId f) (count_fill f)"
      "po_strategy s' = oop_update il ms (fl_strategyId f) (fl_instrumentId f) (count_fill f)"
  shows "po_inv il s'"
proof -
  have q: "0 \<le> fl_qty f" and own: "fl_accountId f = ord_accountId (po_order s p)"
      "fl_strategyId f = ord_strategyId (po_order s p)"
    using f(3) by (auto simp: fill_matches_def)
  have "book_ok il ord_accountId h' t' (po_account s')"
    unfolding s'(3) own by (rule book_ok_fill [OF b(1) f(1,2) q sums open_sum_nonneg [OF t']]) simp
  moreover have "book_ok il ord_strategyId h' t' (po_strategy s')"
    unfolding s'(4) own by (rule book_ok_fill [OF b(2) f(1,2) q sums open_sum_nonneg [OF t']]) simp
  ultimately show ?thesis using t' by (simp add: po_inv_def s')
qed

lemma po_onFill_normal_inv:
  assumes inv: "po_inv il s" and kp: "(k, p) \<in> set (po_table s)"
    and f: "fl_type f = kNormal" "fl_order f = Some p" "fill_matches f (po_order s p)"
  shows "po_inv il (fst (po_onFill il f s))"
proof -
  let ?h = "po_heap s" and ?t = "po_table s" and ?ord = "po_order s p"
  define c where "c = ord_cumQty ?ord + fl_qty f"
  have t: "table_ok ?h ?t" and books: "book_ok il ord_accountId ?h ?t (po_account s)"
      "book_ok il ord_strategyId ?h ?t (po_strategy s)" using inv by (auto simp: po_inv_def)
  then have ok: "sm_ok ?t" and old: "order_ok k ?ord" using kp by (auto simp: table_ok_def)
  have find: "sm_find ?t k = Some p" by (rule sm_find_iff [OF ok, THEN iffD2, OF kp])
  have q: "0 < fl_qty f" "c \<le> ord_qty ?ord" "0 \<le> ord_cumQty ?ord" "ord_qty ?ord \<le> 2147483647"
    using f(3) old by (auto simp: fill_matches_def c_def open_qty_def order_ok_def INT32_MAX_def)
  then have tw: "tw_ok (fl_qty f)" "tw_ok (ord_cumQty ?ord)" "tw_ok c" "tw_ok (ord_qty ?ord)"
    by (auto simp: tw_ok_iff c_def)
  have cum: "size_add_eq (ord_cumQty ?ord) (fl_qty f) = c" using tw by (simp add: c_def wrap_simps)
  have st: "ord_state ?ord \<noteq> kFilled" using old by (auto simp: order_ok_def isOrderLive.simps)
  note eq = po_onFill_normal_eq [OF f(1,2) st cum, of il]
  show ?thesis
  proof (cases "c < ord_qty ?ord")
    case True
    let ?ord' = "?ord\<lparr>ord_cumQty := c\<rparr>"
    have t': "table_ok (?h(p := ?ord')) ?t"
      using t old True q by (auto simp: table_ok_def order_ok_def isOrderLive.simps c_def)
    show ?thesis
      by (rule po_inv_fill_books [OF books f(1) tw(1) f(3) t'])
        (use True in \<open>auto simp: eq po_changePosCounts_def Let_def c_def open_sum_heap_at [OF t kp]
            contrib_after_fill [OF f(3)]\<close>)
  next
    case False
    then have full: "ord_qty ?ord \<le> c" by simp
    let ?ord' = "?ord\<lparr>ord_cumQty := c, ord_state := kFilled\<rparr>"
    have closed: "ord_cumQty ?ord' = ord_qty ?ord'" "tw_ok (ord_qty ?ord')" using full q tw by auto
    have id: "ord_orderId ?ord = k" using old by (simp add: order_ok_def)
    have all: "open_qty ?ord = fl_qty f" using full q by (simp add: open_qty_def c_def)
    have t': "table_ok (?h(p := ?ord')) (sm_erase ?t k)"
      using t erase_other_pointer [OF t kp] by (auto simp: table_ok_def sm_ok_erase)
    show ?thesis
      by (rule po_inv_fill_books [OF books [THEN book_ok_closed, OF closed] f(1) tw(1) f(3) t'])
        (use full in \<open>auto simp: eq po_changePosCounts_def Let_def c_def po_remove_simps id
            open_sum_erase [OF find] open_sum_heap_at [OF t kp] contrib_all_filled [OF f(3) all]\<close>)
  qed
qed

text \<open>
  A busted fill gives its quantity back to the order, which is still in the table, and to both books.
\<close>

definition bust_matches :: "'d fill \<Rightarrow> 'd order \<Rightarrow> bool" where
  "bust_matches f ord \<longleftrightarrow> fl_accountId f = ord_accountId ord \<and> fl_strategyId f = ord_strategyId ord \<and>
     fl_instrumentId f = ord_instrumentId ord \<and> fl_side f = ord_side ord \<and>
     0 < fl_qty f \<and> fl_qty f \<le> ord_cumQty ord"

definition room_for_bust :: "'d po_state \<Rightarrow> 'd fill \<Rightarrow> bool" where
  "room_for_bust s f \<longleftrightarrow>
     tw_ok (open_sum (po_heap s) (po_table s) ord_accountId (fl_side f) (fl_accountId f)
              (fl_instrumentId f) + fl_qty f) \<and>
     tw_ok (open_sum (po_heap s) (po_table s) ord_strategyId (fl_side f) (fl_strategyId f)
              (fl_instrumentId f) + fl_qty f)"

lemma count_fill_busted:
  assumes "fl_type f = kBusted" and "fl_order f \<noteq> None" and "real_side sd" and "tw_ok (fl_qty f)"
    and "tw_ok (side_count sd v)" and "tw_ok (side_count sd v + (if fl_side f = sd then fl_qty f else 0))"
  shows "side_count sd (count_fill f v) = side_count sd v + (if fl_side f = sd then fl_qty f else 0)"
  using assms
  by (auto simp: count_fill_def Let_def side_count_def wrap_simps split: eOrderSide.splits if_splits)

lemma book_ok_bust:
  assumes b: "book_ok il own h t m" and f: "fl_type f = kBusted" "fl_order f \<noteq> None" "tw_ok (fl_qty f)"
    and sums: "\<And>sd x' y'. open_sum h' t own sd x' y' = open_sum h t own sd x' y' +
        (if fl_side f = sd \<and> x' = x \<and> y' = y then fl_qty f else 0)"
    and room: "tw_ok (open_sum h t own (fl_side f) x y + fl_qty f)"
  shows "book_ok il own h' t (oop_update il m x y (count_fill f))"
proof -
  have ok: "oop_ok m" using b by (simp add: book_ok_def)
  { fix sd x' y' assume sd: "real_side sd"
    have v: "side_count sd (oop_val il m x' y') = open_sum h t own sd x' y'" "tw_ok (open_sum h t own sd x' y')"
      using b sd by (auto simp: book_ok_def)
    have "side_count sd (oop_val il (oop_update il m x y (count_fill f)) x' y') = open_sum h' t own sd x' y' \<and>
        tw_ok (open_sum h' t own sd x' y')"
    proof (cases "x' = x \<and> y' = y")
      case True
      have "side_count sd (count_fill f (oop_val il m x y)) = open_sum h' t own sd x y"
        using v room True sums [of sd x y] by (subst count_fill_busted [OF f(1,2) sd f(3)]) auto
      with True v room sums [of sd x y] show ?thesis by (auto simp: oop.val_upd [OF ok])
    next
      case False
      then show ?thesis using v sums [of sd x' y'] by (auto simp: oop.val_upd [OF ok])
    qed }
  then show ?thesis by (simp add: book_ok_def oop.upd_ok [OF ok])
qed

lemma po_onFill_busted_inv:
  assumes inv: "po_inv il s" and kp: "(k, p) \<in> set (po_table s)" and f: "fl_type f = kBusted" "fl_order f = Some p"
    and m: "bust_matches f (po_order s p)" and room: "room_for_bust s f"
  shows "po_inv il (fst (po_onFill il f s))"
proof -
  let ?h = "po_heap s" and ?t = "po_table s" and ?ord = "po_order s p"
  let ?ord' = "?ord\<lparr>ord_cumQty := ord_cumQty ?ord - fl_qty f\<rparr>"
  have t: "table_ok ?h ?t" and books: "book_ok il ord_accountId ?h ?t (po_account s)"
      "book_ok il ord_strategyId ?h ?t (po_strategy s)" using inv by (auto simp: po_inv_def)
  then have old: "order_ok k ?ord" using kp by (auto simp: table_ok_def)
  have q: "0 < fl_qty f" "fl_qty f \<le> ord_cumQty ?ord" using m by (simp_all add: bust_matches_def)
  have tw: "tw_ok (fl_qty f)" "tw_ok (ord_cumQty ?ord)" using q old by (auto simp: tw_ok_iff order_ok_def INT32_MAX_def)
  have cum: "size_sub_eq (ord_cumQty ?ord) (fl_qty f) = ord_cumQty ?ord - fl_qty f"
    using tw q by (auto simp: wrap_simps tw_ok_iff)
  have st: "ord_state ?ord \<noteq> kFilled" using old by (auto simp: order_ok_def isOrderLive.simps)
  have eq: "fst (po_onFill il f s) = fst (po_changePosCounts il f (po_set p (\<lambda>_. ?ord') s))"
    using f st cum by (simp add: po_onFill_def Let_def po_set_def)
  have ok': "order_ok k ?ord'" using old q by (auto simp: order_ok_def isOrderLive.simps)
  have t': "table_ok (?h(p := ?ord')) ?t"
    using t ok' table_ok_inj [OF t kp] by (auto simp: table_ok_def)
  have sums: "open_sum (?h(p := ?ord')) ?t own sd x y = open_sum ?h ?t own sd x y +
      (if fl_side f = sd \<and> x = own ?ord \<and> y = fl_instrumentId f then fl_qty f else 0)"
    if "own = ord_accountId \<or> own = ord_strategyId" for own sd x y
    using that m by (auto simp: open_sum_heap_at [OF t kp] contrib_def open_qty_def bust_matches_def)
  have own: "fl_accountId f = ord_accountId ?ord" "fl_strategyId f = ord_strategyId ?ord"
    using m by (simp_all add: bust_matches_def)
  have "book_ok il ord_accountId (?h(p := ?ord')) ?t
      (oop_update il (po_account s) (fl_accountId f) (fl_instrumentId f) (count_fill f))"
    by (rule book_ok_bust [OF books(1) f(1) _ tw(1)]) (use sums room f(2) own in \<open>simp_all add: room_for_bust_def\<close>)
  moreover have "book_ok il ord_strategyId (?h(p := ?ord')) ?t
      (oop_update il (po_strategy s) (fl_strategyId f) (fl_instrumentId f) (count_fill f))"
    by (rule book_ok_bust [OF books(2) f(1) _ tw(1)]) (use sums room f(2) own in \<open>simp_all add: room_for_bust_def\<close>)
  ultimately show ?thesis
    using t' by (simp add: eq po_inv_def po_changePosCounts_def Let_def)
qed

subsection \<open>The order state machine\<close>

definition po_init :: "'d order_heap \<Rightarrow> u32 \<Rightarrow> 'd po_state" where
  "po_init h timeout =
     \<lparr>po_heap = h, po_table = [], po_account = [], po_strategy = [], po_stuck_timeout = timeout\<rparr>"

abbreviation in_table :: "'d po_state \<Rightarrow> optr \<Rightarrow> bool" where
  "in_table s p \<equiv> p \<in> snd ` set (po_table s)"

text \<open>
  One step of the processor that keeps its books: a request, a response, a rebuilt order, or a
  client writing the fields it owns (\<open>client_write\<close>: never the state, the counters or the
  counted fields). Removing responses, fills and busts come for orders of the table, new and rebuilt
  orders are not in it. A new order refused for its price or its id, a busted fill of an order that
  is already filled and \<open>stop\<close> are not steps: they leave the counters and the table apart.
\<close>

definition client_write :: "('d order \<Rightarrow> 'd order) \<Rightarrow> bool" where
  "client_write f \<longleftrightarrow> (\<forall>ord. same_counts ord (f ord) \<and> ord_state (f ord) = ord_state ord \<and>
     ord_modCounter (f ord) = ord_modCounter ord)"

inductive po_step :: "('d::zero) instr_lookup \<Rightarrow> 'd po_state \<Rightarrow> 'd po_state \<Rightarrow> bool" for il where
  step_new: "fresh_order s p \<Longrightarrow> room_for s (po_order s p) \<Longrightarrow> po_sendNew il p s = (s', None) \<Longrightarrow>
     po_step il s s'"
| step_new_bad_state: "ord_state (po_order s p) \<noteq> kUnknownState \<Longrightarrow>
     po_step il s (fst (po_sendNew il p s))"
| step_new_nothing: "counts_nothing s p \<Longrightarrow> po_sendNew il p s = (s', Some rej) \<Longrightarrow> po_step il s s'"
| step_mod: "po_step il s (fst (po_sendMod p s))"
| step_cxl: "po_step il s (fst (po_sendCxl p s))"
| step_newAck: "po_step il s (po_onNewAck p s)"
| step_newRej: "in_table s p \<Longrightarrow> po_step il s (po_onNewRej il p rej s)"
| step_modAck: "po_step il s (po_onModAck p s)"
| step_modAckPost: "po_step il s (po_onModAckPost p s)"
| step_modRej: "po_step il s (po_onModRej p rej s)"
| step_modRejPost: "po_step il s (po_onModRejPost p rej s)"
| step_cxlAck: "in_table s p \<Longrightarrow> po_step il s (po_onCxlAck il p s)"
| step_cxlRej: "po_step il s (po_onCxlRej p rej s)"
| step_fill: "in_table s p \<Longrightarrow> fl_type f = kNormal \<Longrightarrow> fl_order f = Some p \<Longrightarrow>
     fill_matches f (po_order s p) \<Longrightarrow> po_step il s (fst (po_onFill il f s))"
| step_bust: "in_table s p \<Longrightarrow> fl_type f = kBusted \<Longrightarrow> fl_order f = Some p \<Longrightarrow>
     bust_matches f (po_order s p) \<Longrightarrow> room_for_bust s f \<Longrightarrow> po_step il s (fst (po_onFill il f s))"
| step_rebuild: "rebuilt_order s p \<Longrightarrow> room_for s (po_order s p) \<Longrightarrow> po_rebuildOrder il p s = (s', None) \<Longrightarrow>
     po_step il s s'"
| step_rebuild_duplicate: "ot_exist (po_table s) (ord_orderId (po_order s p)) \<Longrightarrow>
     po_step il s (fst (po_rebuildOrder il p s))"
| step_external: "fl_type f = kExternal \<Longrightarrow> po_step il s (fst (po_onFill il f s))"
| step_rebuildPos: "po_step il s (po_rebuildPos il u s)"
| step_client: "client_write f \<Longrightarrow> po_step il s (po_set p f s)"

inductive po_reachable :: "('d::zero) instr_lookup \<Rightarrow> 'd po_state \<Rightarrow> bool" for il where
  reach_init: "po_reachable il (po_init h timeout)"
| reach_step: "po_reachable il s \<Longrightarrow> po_step il s s' \<Longrightarrow> po_reachable il s'"

lemma po_init_inv: "po_inv il (po_init h timeout)"
  by (simp add: po_inv_def po_init_def table_ok_def book_ok_def oop_ok_def oop_val_def oop_lookup_def
      oop_fresh_def side_count_def open_sum_def)

lemma client_write_benign: "client_write f \<Longrightarrow> benign f"
  by (auto simp: client_write_def benign_def isOrderLive.simps)

lemma po_inv_client_write: "po_inv il s \<Longrightarrow> client_write f \<Longrightarrow> po_inv il (po_set p f s)"
  by (rule po_inv_benign [OF client_write_benign])

lemmas po_keeps_inv =
  po_sendNew_bad_state_inv po_sendMod_inv po_sendCxl_inv po_onNewAck_inv po_onModAck_inv
  po_onModRej_inv po_onModRejPost_inv po_onCxlRej_inv po_onFill_external_inv po_rebuildPos_inv
  po_inv_client_write po_sendNew_nothing_inv po_rebuildOrder_inv po_rebuildOrder_refused_inv

lemma po_step_inv: "po_step il s s' \<Longrightarrow> po_inv il s \<Longrightarrow> po_inv il s'"
proof (induction rule: po_step.induct)
  case (step_new s p s')
  show ?case by (rule po_sendNew_accepted_inv [OF step_new.prems step_new.hyps])
next
  case (step_newRej s p rej)
  obtain k where "(k, p) \<in> set (po_table s)" using step_newRej.hyps by force
  then show ?case by (rule po_onNewRej_inv [OF step_newRej.prems])
next
  case (step_cxlAck s p)
  obtain k where "(k, p) \<in> set (po_table s)" using step_cxlAck.hyps by force
  then show ?case by (rule po_onCxlAck_inv [OF step_cxlAck.prems])
next
  case (step_fill s p f)
  obtain k where "(k, p) \<in> set (po_table s)" using step_fill.hyps(1) by force
  then show ?case by (rule po_onFill_normal_inv [OF step_fill.prems _ step_fill.hyps(2-4)])
next
  case (step_bust s p f)
  obtain k where "(k, p) \<in> set (po_table s)" using step_bust.hyps(1) by force
  then show ?case by (rule po_onFill_busted_inv [OF step_bust.prems _ step_bust.hyps(2-5)])
next
  case (step_modAckPost s p)
  then show ?case by (simp only: po_onModAckPost_def po_doOnModPost_inv)
qed (rule po_keeps_inv, assumption+)+

lemma po_reachable_inv: "po_reachable il s \<Longrightarrow> po_inv il s"
  by (induction rule: po_reachable.induct) (auto intro: po_init_inv po_step_inv)

lemma po_getAll_eq: "po_getAll s = map snd (po_table s)"
  by (simp add: po_getAll_def ot_get_filter_eq FilterNull_def comp_def)

lemma po_inv_account_counts:
  assumes "po_inv il s" and "real_side sd"
  shows "side_count sd (snd (po_getInstrOpenOrdersPosForAccountInstr il s a i)) =
    (\<Sum>p\<leftarrow>po_getAll s. contrib ord_accountId sd a i (po_order s p))"
proof -
  have "oop_ok (po_account s)" using assms by (simp add: po_inv_def book_ok_def)
  then have "snd (po_getInstrOpenOrdersPosForAccountInstr il s a i) = oop_val il (po_account s) a i"
    by (simp add: po_getInstrOpenOrdersPosForAccountInstr_def oop_get_val [symmetric] split: prod.splits)
  moreover have "side_count sd (oop_val il (po_account s) a i) =
      open_sum (po_heap s) (po_table s) ord_accountId sd a i"
    using assms unfolding po_inv_def book_ok_def by blast
  ultimately show ?thesis by (simp add: open_sum_def po_getAll_eq comp_def)
qed

end
