(* ===== verification/OrderStates.thy ===== *)
theory OrderStates
  imports OrderLifecycle
begin

section \<open>Order states and modify counters\<close>

text \<open>
  The state diagram of a single order and the bounds of its modify counter. The diagram is about
  every call the processor takes, in any state and whatever its arguments (\<open>po_call\<close>,
  \<open>po_exec\<close>); the counter's bounds are an invariant of the runs of \<open>po_step\<close>.
\<close>

text \<open>The transitions that depend on the state of the order.\<close>

fun state_edge :: "eOrderState \<Rightarrow> eOrderState \<Rightarrow> bool" where
  "state_edge kUnknownState t \<longleftrightarrow> t \<in> {kUnknownState, kPending, kRejected}"
| "state_edge kPending t \<longleftrightarrow> t \<in> {kPending, kWorking, kRejected}"
| "state_edge kWorking t \<longleftrightarrow> t \<in> {kWorking, kModifying, kCancelling}"
| "state_edge kModifying t \<longleftrightarrow> t \<in> {kModifying, kWorking, kCancelling}"
| "state_edge kCancelling t \<longleftrightarrow> t \<in> {kCancelling, kWorking}"
| "state_edge kCancelled t \<longleftrightarrow> t = kCancelled"
| "state_edge kRejected t \<longleftrightarrow> t = kRejected"
| "state_edge kFilled t \<longleftrightarrow> t = kFilled"

lemma state_edge_refl [simp]: "state_edge x x"
  by (cases x) simp_all

lemma po_counts_heap [simp]:
  "po_heap (po_changeOpenOrdersCounts il p n s) = po_heap s"
  "po_heap (fst (po_changePosCounts il f s)) = po_heap s"
  "po_heap (po_rebuildPos il u s) = po_heap s"
  by (auto simp: po_changeOpenOrdersCounts_def po_changePosCounts_def po_rebuildPos_def Let_def
      split: option.splits)

lemma po_rebuildOrder_heap [simp]:
  "po_heap (fst (po_rebuildOrder il p s)) =
     (if ot_exist (po_table s) (ord_orderId (po_order s p)) then po_heap s
      else (po_heap s)(p := (po_order s p)
        \<lparr>ord_instrument := il_getByKeyId il (ord_instrumentId (po_order s p))\<rparr>))"
  by (auto simp: po_rebuildOrder_def ot_add_def Let_def)

text \<open>Only the order an operation is called on changes.\<close>

definition touches_only :: "optr \<Rightarrow> 'd po_state \<Rightarrow> 'd po_state \<Rightarrow> bool" where
  "touches_only p s s' \<longleftrightarrow> (\<forall>q. q \<noteq> p \<longrightarrow> po_heap s' q = po_heap s q)"

lemma po_ops_touch:
  "touches_only p s (fst (po_sendNew il p s))" "touches_only p s (fst (po_sendMod p s))"
  "touches_only p s (fst (po_sendCxl p s))" "touches_only p s (po_onNewAck p s)"
  "touches_only p s (po_onNewRej il p rej s)" "touches_only p s (po_onModAck p s)"
  "touches_only p s (po_onModAckPost p s)" "touches_only p s (po_onModRej p rej s)"
  "touches_only p s (po_onModRejPost p rej s)" "touches_only p s (po_onCxlAck il p s)"
  "touches_only p s (po_onCxlRej p rej s)" "touches_only p s (po_set p f s)"
  by (auto simp: touches_only_def po_sendNew_cases po_sendMod_def po_sendCxl_def po_onNewAck_def
      po_onNewRej_def po_onModAck_def po_onModAckPost_def po_onModRej_def po_onModRejPost_def
      po_doOnModPost_def po_onCxlAck_def po_onCxlRej_def Let_def po_remove_simps)

lemma po_onFill_heap:
  "fl_order f = Some p \<Longrightarrow> touches_only p s (fst (po_onFill il f s))"
  "fl_type f = kExternal \<Longrightarrow> po_heap (fst (po_onFill il f s)) = po_heap s"
  by (auto simp: touches_only_def po_onFill_def Let_def po_remove_simps
      split: option.splits eFillType.splits)

subsection \<open>Effect of each operation on the order it is called on\<close>

lemma po_ops_state:
  "state_edge (ord_state (po_order s p)) (ord_state (po_order (fst (po_sendMod p s)) p))"
  "state_edge (ord_state (po_order s p)) (ord_state (po_order (fst (po_sendCxl p s)) p))"
  "state_edge (ord_state (po_order s p)) (ord_state (po_order (po_onNewAck p s) p))"
  "state_edge (ord_state (po_order s p)) (ord_state (po_order (po_onModAck p s) p))"
  "state_edge (ord_state (po_order s p)) (ord_state (po_order (po_onModAckPost p s) p))"
  "state_edge (ord_state (po_order s p)) (ord_state (po_order (po_onModRej p rej s) p))"
  "state_edge (ord_state (po_order s p)) (ord_state (po_order (po_onModRejPost p rej s) p))"
  "state_edge (ord_state (po_order s p)) (ord_state (po_order (po_onCxlRej p rej s) p))"
  by (auto simp: po_sendMod_def po_sendCxl_def po_onNewAck_def po_onModAck_def po_onModAckPost_def
      po_onModRej_def po_onModRejPost_def po_doOnModPost_def po_onCxlRej_def Let_def)

subsection \<open>Any call, in any state\<close>

text \<open>The calls of the processor that change orders or counters, with their arguments.\<close>

datatype 'd po_call =
  Call_sendNew optr | Call_sendMod optr | Call_sendCxl optr | Call_rebuildOrder optr
| Call_rebuildPos "'d pos_update" | Call_recordFill "'d fill" | Call_onNewAck optr
| Call_onNewRej optr reject | Call_onModAck optr | Call_onModAckPost optr
| Call_onModRej optr reject | Call_onModRejPost optr reject | Call_onCxlAck optr
| Call_onCxlRej optr reject | Call_onFill "'d fill" | Call_onRebuildOrderRej optr reject
| Call_stop | Call_clear

primrec po_exec :: "('d::zero) instr_lookup \<Rightarrow> 'd po_call \<Rightarrow> 'd po_state \<Rightarrow> 'd po_state" where
  "po_exec il (Call_sendNew p) s = fst (po_sendNew il p s)"
| "po_exec il (Call_sendMod p) s = fst (po_sendMod p s)"
| "po_exec il (Call_sendCxl p) s = fst (po_sendCxl p s)"
| "po_exec il (Call_rebuildOrder p) s = fst (po_rebuildOrder il p s)"
| "po_exec il (Call_rebuildPos u) s = po_rebuildPos il u s"
| "po_exec il (Call_recordFill f) s = fst (po_recordFill il f s)"
| "po_exec il (Call_onNewAck p) s = po_onNewAck p s"
| "po_exec il (Call_onNewRej p rej) s = po_onNewRej il p rej s"
| "po_exec il (Call_onModAck p) s = po_onModAck p s"
| "po_exec il (Call_onModAckPost p) s = po_onModAckPost p s"
| "po_exec il (Call_onModRej p rej) s = po_onModRej p rej s"
| "po_exec il (Call_onModRejPost p rej) s = po_onModRejPost p rej s"
| "po_exec il (Call_onCxlAck p) s = po_onCxlAck il p s"
| "po_exec il (Call_onCxlRej p rej) s = po_onCxlRej p rej s"
| "po_exec il (Call_onFill f) s = fst (po_onFill il f s)"
| "po_exec il (Call_onRebuildOrderRej p rej) s = po_onRebuildOrderRej il p rej s"
| "po_exec il Call_stop s = po_stop s"
| "po_exec il Call_clear s = po_clear s"

definition po_exec_all :: "('d::zero) instr_lookup \<Rightarrow> 'd po_call list \<Rightarrow> 'd po_state \<Rightarrow> 'd po_state" where
  "po_exec_all il cs s = fold (po_exec il) cs s"

text \<open>The order a call is about.\<close>

fun call_order :: "'d po_call \<Rightarrow> optr option" where
  "call_order (Call_sendNew p) = Some p" | "call_order (Call_sendMod p) = Some p"
| "call_order (Call_sendCxl p) = Some p" | "call_order (Call_rebuildOrder p) = Some p"
| "call_order (Call_rebuildPos u) = None" | "call_order (Call_recordFill f) = fl_order f"
| "call_order (Call_onNewAck p) = Some p" | "call_order (Call_onNewRej p rej) = Some p"
| "call_order (Call_onModAck p) = Some p" | "call_order (Call_onModAckPost p) = Some p"
| "call_order (Call_onModRej p rej) = Some p" | "call_order (Call_onModRejPost p rej) = Some p"
| "call_order (Call_onCxlAck p) = Some p" | "call_order (Call_onCxlRej p rej) = Some p"
| "call_order (Call_onFill f) = fl_order f" | "call_order (Call_onRebuildOrderRej p rej) = Some p"
| "call_order Call_stop = None" | "call_order Call_clear = None"

definition fill_call :: "'d po_call \<Rightarrow> 'd fill \<Rightarrow> bool" where
  "fill_call c f \<longleftrightarrow> c = Call_onFill f \<or> c = Call_recordFill f"

text \<open>
  Cancel acknowledgements and fills are the only calls that do not look at the state of the order
  before they write it: whatever the order was, it becomes Cancelled, or Filled when the fill
  reaches its quantity, and a busted fill turns a Filled order back to Working.
\<close>

definition unguarded_edge :: "'d po_call \<Rightarrow> optr \<Rightarrow> 'd order \<Rightarrow> 'd order \<Rightarrow> bool" where
  "unguarded_edge c p ord ord' \<longleftrightarrow>
     c = Call_onCxlAck p \<and> ord_state ord' = kCancelled \<or>
     (\<exists>f. fill_call c f \<and> fl_order f = Some p \<and> fl_type f = kNormal \<and> ord_state ord' = kFilled \<and>
        ord_qty ord' \<le> ord_cumQty ord') \<or>
     (\<exists>f. fill_call c f \<and> fl_order f = Some p \<and> fl_type f = kBusted \<and> ord_state ord = kFilled \<and>
        ord_state ord' = kWorking)"

lemma po_onFill_state:
  assumes "fl_order f = Some p"
  shows "state_edge (ord_state (po_order s p)) (ord_state (po_order (fst (po_onFill il f s)) p)) \<or>
    fl_type f = kNormal \<and> ord_state (po_order (fst (po_onFill il f s)) p) = kFilled \<and>
      ord_qty (po_order (fst (po_onFill il f s)) p) \<le> ord_cumQty (po_order (fst (po_onFill il f s)) p) \<or>
    fl_type f = kBusted \<and> ord_state (po_order s p) = kFilled \<and>
      ord_state (po_order (fst (po_onFill il f s)) p) = kWorking"
  using assms by (cases "fl_type f") (auto simp: po_onFill_def Let_def po_remove_simps)

lemma po_sendNew_edge:
  "state_edge (ord_state (po_order s p)) (ord_state (po_order (fst (po_sendNew il p s)) p))"
  by (auto simp: po_sendNew_cases Let_def po_onNewRej_def po_remove_simps)

lemma po_newRej_edge:
  "state_edge (ord_state (po_order s p)) (ord_state (po_order (po_onNewRej il p rej s) p))"
  by (auto simp: po_onNewRej_def Let_def po_remove_simps)

lemma po_onFill_other: "fl_order f \<noteq> Some q \<Longrightarrow> po_order (fst (po_onFill il f s)) q = po_order s q"
  using po_onFill_heap(1) [of f _ s il]
  by (cases "fl_order f") (auto simp: touches_only_def po_onFill_def)

lemma po_exec_other:
  "call_order c \<noteq> Some q \<Longrightarrow> po_order (po_exec il c s) q = po_order s q"
  using po_ops_touch [of _ s]
  by (cases c) (auto simp: touches_only_def po_recordFill_def po_onRebuildOrderRej_def
      po_stop_def po_clear_def po_onFill_other po_remove_simps)

lemma po_exec_edge:
  "state_edge (ord_state (po_order s q)) (ord_state (po_order (po_exec il c s) q)) \<or>
   unguarded_edge c q (po_order s q) (po_order (po_exec il c s) q)"
proof (cases "call_order c = Some q")
  case False
  then show ?thesis by (simp add: po_exec_other)
next
  case True
  then show ?thesis
    using po_ops_state [of s q] po_sendNew_edge [of s q il] po_newRej_edge [of s q il] po_onFill_state [of _ q s il]
    by (cases c) (auto simp: unguarded_edge_def fill_call_def po_recordFill_def
        po_onRebuildOrderRej_def po_onCxlAck_def po_remove_simps Let_def)
qed

definition final_state :: "eOrderState \<Rightarrow> bool" where
  "final_state x \<longleftrightarrow> x \<in> {kCancelled, kRejected, kFilled}"

lemma state_edge_final: "final_state x \<Longrightarrow> state_edge x y \<Longrightarrow> y = x"
  by (cases x) (auto simp: final_state_def)

text \<open>A cancel acknowledgement of an order, or a fill for it.\<close>

definition unguarded_for :: "optr \<Rightarrow> 'd po_call \<Rightarrow> bool" where
  "unguarded_for p c \<longleftrightarrow> c = Call_onCxlAck p \<or> (\<exists>f. fill_call c f \<and> fl_order f = Some p)"

lemma po_run_final:
  "final_state (ord_state (po_order s q)) \<Longrightarrow> \<forall>c \<in> set cs. \<not> unguarded_for q c \<Longrightarrow>
   ord_state (po_order (po_exec_all il cs s) q) = ord_state (po_order s q)"
proof (induction cs arbitrary: s)
  case (Cons c cs)
  have "ord_state (po_order (po_exec il c s) q) = ord_state (po_order s q)"
    using po_exec_edge [of s q il c] state_edge_final [OF Cons.prems(1)] Cons.prems(2)
    by (auto simp: unguarded_edge_def unguarded_for_def)
  with Cons show ?case by (simp add: po_exec_all_def)
qed (simp add: po_exec_all_def)

subsection \<open>The modify counter\<close>

definition mod_ok :: "'d order \<Rightarrow> bool" where
  "mod_ok ord \<longleftrightarrow> ord_modCounter ord \<le> MAX_MOD_COUNTER \<and>
     (ord_state ord = kModifying \<longrightarrow> 1 \<le> ord_modCounter ord)"

lemma u32_counter_inc:
  fixes c :: u32
  assumes "c \<le> 5"
  shows "1 \<le> c + 1" and "\<not> 5 < c + 1 \<Longrightarrow> c + 1 \<le> 5" and "5 < c + 1 \<Longrightarrow> 1 \<le> c"
proof -
  have c: "unat c \<le> 5" using assms by (simp add: word_le_nat_alt)
  then have "unat (c + 1) = unat c + 1" by (simp add: unat_word_ariths)
  with c show "1 \<le> c + 1" "\<not> 5 < c + 1 \<Longrightarrow> c + 1 \<le> 5" "5 < c + 1 \<Longrightarrow> 1 \<le> c"
    by (simp_all add: word_le_nat_alt word_less_nat_alt)
qed

lemma u32_counter_dec:
  fixes c :: u32
  assumes "1 \<le> c" and "c \<le> 5"
  shows "c - 1 \<le> 5" and "c - 1 \<noteq> 0 \<Longrightarrow> 1 \<le> c - 1" and "unat (c - 1) = unat c - 1"
proof -
  have c: "1 \<le> unat c" "unat c \<le> 5" using assms by (simp_all add: word_le_nat_alt)
  show d: "unat (c - 1) = unat c - 1" using unat_sub [OF assms(1)] by simp
  with c show "c - 1 \<le> 5" by (simp add: word_le_nat_alt)
  show "c - 1 \<noteq> 0 \<Longrightarrow> 1 \<le> c - 1" by (simp add: word_le_nat_alt unat_gt_0 Suc_le_eq)
qed

lemma po_sendMod_mod_ok:
  assumes "mod_ok (po_order s p)"
  shows "mod_ok (po_order (fst (po_sendMod p s)) p)"
proof -
  let ?c = "ord_modCounter (po_order s p)"
  have "?c \<le> 5" using assms by (simp add: mod_ok_def MAX_MOD_COUNTER_def)
  from u32_counter_inc [OF this] assms show ?thesis
    by (auto simp: po_sendMod_def Let_def mod_ok_def MAX_MOD_COUNTER_def)
qed

lemma po_doOnModPost_mod_ok:
  assumes "mod_ok (po_order s p)"
  shows "mod_ok (po_order (po_doOnModPost p b s) p)"
proof (cases "ord_state (po_order s p) = kModifying")
  case True
  let ?c = "ord_modCounter (po_order s p)"
  have c: "1 \<le> ?c" "?c \<le> 5" using assms True by (auto simp: mod_ok_def MAX_MOD_COUNTER_def)
  show ?thesis using u32_counter_dec [OF c] True
    by (auto simp: po_doOnModPost_def Let_def mod_ok_def MAX_MOD_COUNTER_def)
next
  case False
  then show ?thesis using assms by (simp add: po_doOnModPost_def)
qed

lemma po_ops_mod_ok:
  assumes "mod_ok (po_order s p)"
  shows "mod_ok (po_order (fst (po_sendNew il p s)) p)" "mod_ok (po_order (fst (po_sendCxl p s)) p)"
    "mod_ok (po_order (po_onNewAck p s) p)" "mod_ok (po_order (po_onNewRej il p rej s) p)"
    "mod_ok (po_order (po_onModAck p s) p)" "mod_ok (po_order (po_onModRej p rej s) p)"
    "mod_ok (po_order (po_onCxlAck il p s) p)" "mod_ok (po_order (po_onCxlRej p rej s) p)"
    "client_write f \<Longrightarrow> mod_ok (po_order (po_set p f s) p)"
    "mod_ok (po_order (fst (po_rebuildOrder il p s)) p)"
  using assms
  by (auto simp: mod_ok_def po_sendNew_cases po_sendCxl_def po_onNewAck_def po_onNewRej_def po_onModAck_def
      po_onModRej_def po_onCxlAck_def po_onCxlRej_def Let_def po_remove_simps client_write_def)

lemma po_fill_mod_ok:
  assumes "mod_ok (po_order s p)" and "fl_order f = Some p"
  shows "mod_ok (po_order (fst (po_onFill il f s)) p)"
  using assms by (cases "fl_type f") (auto simp: mod_ok_def po_onFill_def Let_def po_remove_simps)

lemma po_rebuild_touch: "touches_only p s (fst (po_rebuildOrder il p s))"
  by (simp add: touches_only_def)

lemma po_posts_mod_ok:
  assumes "mod_ok (po_order s p)"
  shows "mod_ok (po_order (po_onModAckPost p s) p)" "mod_ok (po_order (po_onModRejPost p rej s) p)"
  using assms po_doOnModPost_mod_ok [OF assms]
  by (auto simp: po_onModAckPost_def po_onModRejPost_def mod_ok_def)

lemma touched_mod_ok:
  assumes "touches_only p s s'" and "mod_ok (po_order s p) \<Longrightarrow> mod_ok (po_order s' p)"
    and "\<forall>q. mod_ok (po_order s q)"
  shows "\<forall>q. mod_ok (po_order s' q)"
proof
  fix q show "mod_ok (po_order s' q)"
    using assms by (cases "q = p") (auto simp: touches_only_def)
qed

lemma po_step_mod_ok:
  "po_step il s s' \<Longrightarrow> \<forall>q. mod_ok (po_order s q) \<Longrightarrow> \<forall>q. mod_ok (po_order s' q)"
proof (induction rule: po_step.induct)
  case (step_new s p s')
  then have "touches_only p s s'" "mod_ok (po_order s p) \<Longrightarrow> mod_ok (po_order s' p)"
    using po_ops_touch(1) [of p s il] po_ops_mod_ok(1) [of s p il] by auto
  from touched_mod_ok [OF this step_new.prems] show ?case .
next
  case (step_fill s p f)
  show ?case
    by (rule touched_mod_ok [OF po_onFill_heap(1) [OF step_fill.hyps(3)]
          po_fill_mod_ok [OF _ step_fill.hyps(3)] step_fill.prems])
next
  case (step_bust s p f)
  show ?case
    by (rule touched_mod_ok [OF po_onFill_heap(1) [OF step_bust.hyps(3)]
          po_fill_mod_ok [OF _ step_bust.hyps(3)] step_bust.prems])
next
  case (step_new_nothing s p s' rej)
  then have "touches_only p s s'" "mod_ok (po_order s p) \<Longrightarrow> mod_ok (po_order s' p)"
    using po_ops_touch(1) [of p s il] po_ops_mod_ok(1) [of s p il] by auto
  from touched_mod_ok [OF this step_new_nothing.prems] show ?case .
next
  case (step_rebuild s p s')
  then have "touches_only p s s'" "mod_ok (po_order s p) \<Longrightarrow> mod_ok (po_order s' p)"
    using po_rebuild_touch [of p s il] po_ops_mod_ok(10) [of s p il] by auto
  from touched_mod_ok [OF this step_rebuild.prems] show ?case .
next
  case (step_client f s p)
  show ?case
    by (rule touched_mod_ok [OF po_ops_touch(12) po_ops_mod_ok(9) [OF _ step_client.hyps] step_client.prems])
qed (simp_all add: po_onFill_heap(2) touched_mod_ok [OF po_rebuild_touch po_ops_mod_ok(10)]
    touched_mod_ok [OF po_ops_touch(1) po_ops_mod_ok(1)]
    touched_mod_ok [OF po_ops_touch(2) po_sendMod_mod_ok] touched_mod_ok [OF po_ops_touch(3) po_ops_mod_ok(2)]
    touched_mod_ok [OF po_ops_touch(4) po_ops_mod_ok(3)] touched_mod_ok [OF po_ops_touch(5) po_ops_mod_ok(4)]
    touched_mod_ok [OF po_ops_touch(6) po_ops_mod_ok(5)] touched_mod_ok [OF po_ops_touch(7) po_posts_mod_ok(1)]
    touched_mod_ok [OF po_ops_touch(8) po_ops_mod_ok(6)] touched_mod_ok [OF po_ops_touch(9) po_posts_mod_ok(2)]
    touched_mod_ok [OF po_ops_touch(10) po_ops_mod_ok(7)] touched_mod_ok [OF po_ops_touch(11) po_ops_mod_ok(8)])

lemma po_run_mod_ok:
  "(po_step il)\<^sup>*\<^sup>* s s' \<Longrightarrow> \<forall>q. mod_ok (po_order s q) \<Longrightarrow> \<forall>q. mod_ok (po_order s' q)"
proof (induction rule: rtranclp_induct)
  case (step y z)
  from po_step_mod_ok [OF step.hyps(2) step.IH [OF step.prems]] show ?case .
qed

end
