(* ===== verification/OrderFacts.thy ===== *)
theory OrderFacts
  imports OrderStates
begin

section \<open>ProcessorOrders: what it guarantees, and where it does not\<close>

text \<open>
  The properties of \<open>ProcessorOrders\<close> in terms of its own operations, each with a concrete
  run. The last ones record what a rejected new order does to the counters and to the table.
\<close>

subsection \<open>A concrete order and state\<close>

definition ex_lookup :: "int instr_lookup" where
  "ex_lookup = \<lparr>il_getByKeyId = (\<lambda>_. None), il_getByDisplayName = (\<lambda>_. None)\<rparr>"

definition ex_order :: "int order" where
  "ex_order = order_default\<lparr>ord_type := kLimit, ord_side := kBuy, ord_qty := 5, ord_price := 100,
     ord_accountId := 1, ord_strategyId := 2, ord_instrumentId := 3, ord_orderId := (0, 1)\<rparr>"

definition ex_init :: "int po_state" where
  "ex_init = po_init (\<lambda>_. ex_order) 1500"

definition ex_state :: "int po_state" where
  "ex_state = fst (po_sendNew ex_lookup 0 ex_init)"

definition ex_fill :: "int fill" where
  "ex_fill = fill_default\<lparr>fl_type := kNormal, fl_side := kBuy, fl_qty := 5, fl_price := 100,
     fl_accountId := 1, fl_strategyId := 2, fl_instrumentId := 3, fl_order := Some 0\<rparr>"

lemmas ex_defs =
  ex_lookup_def ex_order_def ex_init_def po_init_def order_default_def ex_fill_def fill_default_def

lemma tw_small [simp]: "tw_isValid (numeral n) \<longleftrightarrow> True" "tw_isValid 0" "tw_isValid 1"
  by (simp_all add: tw_isValid_def tw_INVALID_VALUE_def INT32_MIN_def)

lemma ex_sendNew: "po_sendNew ex_lookup 0 ex_init = (ex_state, None)"
  by (simp add: ex_state_def po_sendNew_cases Let_def ex_defs)

lemma ex_room: "fresh_order ex_init 0" "room_for ex_init (po_order ex_init 0)"
  by (simp_all add: fresh_order_def room_for_def open_sum_def open_qty_def tw_ok_iff INT32_MAX_def ex_defs)

lemma ex_state_reachable: "po_reachable ex_lookup ex_state"
proof (rule po_reachable.reach_step)
  show "po_reachable ex_lookup ex_init" unfolding ex_init_def by (rule po_reachable.reach_init)
  show "po_step ex_lookup ex_init ex_state"
    by (rule po_step.step_new [OF ex_room ex_sendNew])
qed

lemma ex_state_eq:
  "po_table ex_state = [((0, 1), 0)]"
  "po_order ex_state 0 = ex_order\<lparr>ord_action := kOrNew, ord_state := kPending\<rparr>"
  by (simp_all add: ex_state_def po_sendNew_cases Let_def ex_defs po_changeOpenOrdersCounts_def)

subsection \<open>Counters\<close>

lemma po_inv_strategy_counts:
  assumes "po_inv il s" and "real_side sd"
  shows "side_count sd (snd (po_getInstrOpenOrdersPosForStrategyInstr il s a i)) =
    (\<Sum>p\<leftarrow>po_getAll s. contrib ord_strategyId sd a i (po_order s p))"
proof -
  have "oop_ok (po_strategy s)" using assms by (simp add: po_inv_def book_ok_def)
  then have "snd (po_getInstrOpenOrdersPosForStrategyInstr il s a i) = oop_val il (po_strategy s) a i"
    by (simp add: po_getInstrOpenOrdersPosForStrategyInstr_def oop_get_val [symmetric] split: prod.splits)
  moreover have "side_count sd (oop_val il (po_strategy s) a i) =
      open_sum (po_heap s) (po_table s) ord_strategyId sd a i"
    using assms unfolding po_inv_def book_ok_def by blast
  ultimately show ?thesis by (simp add: open_sum_def po_getAll_eq comp_def)
qed

text \<open>
  C4: in every state reached by the steps of \<open>po_step\<close>, the open bids and asks the
  processor reports for an account and an instrument are the sums of the unfilled quantities of the
  buy and sell orders of the table, and the same holds per strategy. The risk checks rest on these
  numbers. The steps are: accepted new orders, refused ones in a wrong state or that count for
  nothing, modifies, cancels, every acknowledgement and reject of an order of the table, fills and
  busted fills of an order of the table that match it (a fill takes no more than is open, a bust
  gives back no more than was filled), external fills, rebuilt orders and positions, client writes.
  Excluded are the cases where the sums fail: a new order refused for its price or its id
  (\<open>sendNew_bad_price_drifts\<close>, \<open>sendNew_duplicate_evicts\<close>), a second answer
  for an order that has left the table, a bust of an order already filled, a rebuilt order of an
  unknown instrument (it stays in the table uncounted), a sum above the 32-bit range, and
  \<open>stop\<close>, which clears the table and the account counters but not the strategy counters.
\<close>

theorem open_counts_are_table_sums:
  assumes "po_reachable il s"
  shows "iop_bids (snd (po_getInstrOpenOrdersPosForAccountInstr il s a i)) =
      (\<Sum>p\<leftarrow>po_getAll s. contrib ord_accountId kBuy a i (po_order s p)) \<and>
    iop_asks (snd (po_getInstrOpenOrdersPosForAccountInstr il s a i)) =
      (\<Sum>p\<leftarrow>po_getAll s. contrib ord_accountId kSell a i (po_order s p)) \<and>
    iop_bids (snd (po_getInstrOpenOrdersPosForStrategyInstr il s st i)) =
      (\<Sum>p\<leftarrow>po_getAll s. contrib ord_strategyId kBuy st i (po_order s p)) \<and>
    iop_asks (snd (po_getInstrOpenOrdersPosForStrategyInstr il s st i)) =
      (\<Sum>p\<leftarrow>po_getAll s. contrib ord_strategyId kSell st i (po_order s p))"
proof -
  note inv = po_reachable_inv [OF assms]
  show ?thesis
    using po_inv_account_counts [OF inv, of kBuy a i] po_inv_account_counts [OF inv, of kSell a i]
      po_inv_strategy_counts [OF inv, of kBuy st i] po_inv_strategy_counts [OF inv, of kSell st i]
    by (simp add: side_count_def)
qed

theorem open_counts_are_table_sums_witness:
  "po_reachable ex_lookup ex_state \<and>
   iop_bids (snd (po_getInstrOpenOrdersPosForAccountInstr ex_lookup ex_state 1 3)) = 5"
  using ex_state_reachable open_counts_are_table_sums [OF ex_state_reachable, of 1 3 2]
  by (simp add: po_getAll_eq ex_state_eq contrib_def open_qty_def ex_defs)

text \<open>
  C7: whatever state the processor is in and whatever call it takes, with any arguments, an order
  moves along an edge of the diagram or one of three edges that its calls take without looking at
  the state: a cancel acknowledgement of the order makes it Cancelled, a normal fill that reaches
  its quantity makes it Filled, and a busted fill makes a Filled order Working again. An order
  that is rejected, cancelled or filled therefore stays what it is through every sequence of calls
  without a cancel acknowledgement of it or a fill for it.
\<close>

theorem order_states_follow_diagram:
  "(state_edge (ord_state (po_order s p)) (ord_state (po_order (po_exec il c s) p)) \<or>
    unguarded_edge c p (po_order s p) (po_order (po_exec il c s) p)) \<and>
   (final_state (ord_state (po_order s p)) \<and> (\<forall>c \<in> set cs. \<not> unguarded_for p c) \<longrightarrow>
      ord_state (po_order (po_exec_all il cs s) p) = ord_state (po_order s p))"
  using po_exec_edge [of s p il c] po_run_final [of s p cs il] by blast

theorem order_states_follow_diagram_witness:
  "let s = po_exec ex_lookup (Call_onCxlAck 0) ex_state in
   ord_state (po_order s 0) = kCancelled \<and>
   ord_state (po_order (po_exec_all ex_lookup [Call_onNewAck 0, Call_sendMod 0, Call_sendCxl 0] s) 0) = kCancelled"
proof -
  let ?s = "po_exec ex_lookup (Call_onCxlAck 0) ex_state"
  have "ord_state (po_order ?s 0) = kCancelled" by (simp add: po_onCxlAck_def po_remove_simps)
  with order_states_follow_diagram [where s = ?s and p = 0 and il = ex_lookup and c = "Call_onNewAck 0"
      and cs = "[Call_onNewAck 0, Call_sendMod 0, Call_sendCxl 0]"]
  show ?thesis by (simp add: Let_def final_state_def unguarded_for_def fill_call_def)
qed

text \<open>
  C9: along any run from orders with sane modify counters, the counter never passes
  \<open>MAX_MOD_COUNTER\<close>, and completing a modify of an order in state Modifying takes exactly
  one from it: the unsigned decrement of \<open>doOnModPost\<close> never wraps around.
\<close>

theorem modify_counter_bounded:
  assumes "(po_step il)\<^sup>*\<^sup>* s s'" and "\<forall>q. mod_ok (po_order s q)"
  shows "ord_modCounter (po_order s' p) \<le> MAX_MOD_COUNTER \<and>
    (ord_state (po_order s' p) = kModifying \<longrightarrow>
      unat (ord_modCounter (po_order (po_onModAckPost p s') p)) = unat (ord_modCounter (po_order s' p)) - 1)"
proof -
  have m: "mod_ok (po_order s' p)" using po_run_mod_ok [OF assms] by blast
  { assume st: "ord_state (po_order s' p) = kModifying"
    with m have "1 \<le> ord_modCounter (po_order s' p)" "ord_modCounter (po_order s' p) \<le> 5"
      by (auto simp: mod_ok_def MAX_MOD_COUNTER_def)
    from u32_counter_dec(3) [OF this] st
    have "unat (ord_modCounter (po_order (po_onModAckPost p s') p)) = unat (ord_modCounter (po_order s' p)) - 1"
      by (simp add: po_onModAckPost_def po_doOnModPost_def Let_def) }
  with m show ?thesis by (simp add: mod_ok_def)
qed

theorem modify_counter_bounded_witness:
  "unat (ord_modCounter (po_order (po_onModAckPost 0
     (po_init (\<lambda>_. ex_order\<lparr>ord_state := kModifying, ord_modCounter := 2\<rparr>) 0)) 0)) = 1"
proof -
  let ?s = "po_init (\<lambda>_. ex_order\<lparr>ord_state := kModifying, ord_modCounter := 2\<rparr>) 0"
  have "\<forall>q. mod_ok (po_order ?s q)"
    by (simp add: mod_ok_def MAX_MOD_COUNTER_def ex_defs word_le_nat_alt)
  from modify_counter_bounded [where il = ex_lookup and p = 0, OF rtranclp.rtrancl_refl this] show ?thesis
    by (simp add: po_init_def)
qed

subsection \<open>Requests and fills\<close>

lemma po_account_val: "po_inv il s \<Longrightarrow>
  snd (po_getInstrOpenOrdersPosForAccountInstr il s a i) = oop_val il (po_account s) a i"
  by (simp add: po_inv_def book_ok_def po_getInstrOpenOrdersPosForAccountInstr_def oop_get_val [symmetric]
      split: prod.splits)

lemma po_inv_books:
  assumes "po_inv il s"
  shows "sm_ok (po_table s)" "oop_ok (po_account s)" "oop_ok (po_strategy s)"
  using assms by (simp_all add: po_inv_def table_ok_def book_ok_def)

lemma po_inv_side_ok:
  assumes "po_inv il s" and "real_side sd"
  shows "tw_ok (side_count sd (oop_val il (po_account s) a i))"
    and "side_count sd (oop_val il (po_account s) a i) = open_sum (po_heap s) (po_table s) ord_accountId sd a i"
  using assms unfolding po_inv_def book_ok_def by metis+



text \<open>A fill of the whole open quantity: what is left is the removal and the position update.\<close>

definition filled_up :: "optr \<Rightarrow> 'd po_state \<Rightarrow> 'd po_state" where
  "filled_up p s = po_set p (\<lambda>ord. ord\<lparr>ord_cumQty := ord_qty (po_order s p), ord_state := kFilled\<rparr>) s"

lemma po_onFill_full:
  assumes "order_ok k (po_order s p)" and "fl_type f = kNormal" and "fl_order f = Some p"
    and "fl_qty f = open_qty (po_order s p)"
  shows "po_onFill il f s = po_changePosCounts il f (po_remove il p (filled_up p s))"
proof -
  have "ord_state (po_order s p) \<noteq> kFilled" using assms(1) by (auto simp: order_ok_def isOrderLive.simps)
  moreover have "size_add_eq (ord_cumQty (po_order s p)) (fl_qty f) = ord_qty (po_order s p)"
    using order_ok_tw [OF assms(1)] assms(4) by (simp add: wrap_simps open_qty_def)
  ultimately show ?thesis
    using assms(2,3) by (simp add: po_onFill_def Let_def po_set_def filled_up_def)
qed

lemma count_open_pos: "iop_pos (count_open ord n v) = iop_pos v"
  by (simp add: count_open_def Let_def split: eOrderSide.splits)

lemma filled_up_remove_val:
  assumes inv: "po_inv il s" and old: "order_ok k (po_order s p)" and sd: "real_side sd"
  shows "side_count sd (oop_val il (po_account (po_remove il p (filled_up p s))) x y) =
      side_count sd (oop_val il (po_account s) x y)"
    and "iop_pos (oop_val il (po_account (po_remove il p (filled_up p s))) x y) =
      iop_pos (oop_val il (po_account s) x y)"
    and "oop_ok (po_account (po_remove il p (filled_up p s)))"
proof -
  let ?done = "(po_order s p)\<lparr>ord_cumQty := ord_qty (po_order s p), ord_state := kFilled\<rparr>"
  have closed: "side_count sd (count_open ?done (- 1) v) = side_count sd v" if "tw_ok (side_count sd v)" for v
    by (rule count_open_closed) (use order_ok_tw(1) [OF old] that sd in auto)
  show "side_count sd (oop_val il (po_account (po_remove il p (filled_up p s))) x y) =
      side_count sd (oop_val il (po_account s) x y)"
    using po_inv_side_ok(1) [OF inv sd]
    by (simp add: filled_up_def po_remove_simps oop.val_upd [OF po_inv_books(2) [OF inv]] closed)
  show "iop_pos (oop_val il (po_account (po_remove il p (filled_up p s))) x y) =
      iop_pos (oop_val il (po_account s) x y)"
    by (simp add: filled_up_def po_remove_simps oop.val_upd [OF po_inv_books(2) [OF inv]] count_open_pos)
  show "oop_ok (po_account (po_remove il p (filled_up p s)))"
    by (simp add: filled_up_def po_remove_simps oop.upd_ok [OF po_inv_books(2) [OF inv]])
qed

lemma po_changePosCounts_val:
  assumes "oop_ok (po_account s)" and "po_changePosCounts il f s = (s', f')"
  shows "oop_val il (po_account s') (fl_accountId f) (fl_instrumentId f) =
      count_fill f (oop_val il (po_account s) (fl_accountId f) (fl_instrumentId f))"
    and "fl_posAccount f' = iop_pos (oop_val il (po_account s') (fl_accountId f) (fl_instrumentId f))"
    and "po_table s' = po_table s" and "po_heap s' = po_heap s"
proof -
  have s': "s' = fst (po_changePosCounts il f s)" "f' = snd (po_changePosCounts il f s)" using assms(2) by auto
  show "oop_val il (po_account s') (fl_accountId f) (fl_instrumentId f) =
      count_fill f (oop_val il (po_account s) (fl_accountId f) (fl_instrumentId f))"
    by (simp add: s' po_changePosCounts_def Let_def oop.val_upd [OF assms(1)])
  show "fl_posAccount f' = iop_pos (oop_val il (po_account s') (fl_accountId f) (fl_instrumentId f))"
    by (simp add: s' po_changePosCounts_def Let_def oop_get_val oop.upd_ok [OF assms(1)])
  show "po_table s' = po_table s" "po_heap s' = po_heap s"
    by (simp_all add: s' po_changePosCounts_def Let_def)
qed

text \<open>
  A fill for the whole open quantity of a live buy order closes it: the order ends Filled
  and leaves the table, the account's open bids drop by the fill and its position grows by it
  (as a 32-bit integer); the fill report carries the new position.
\<close>

theorem full_fill_closes_order:
  assumes "po_reachable il s" and "po_get s k = Some p" and "fl_type f = kNormal"
    and "fl_order f = Some p" and "fill_matches f (po_order s p)"
    and "fl_qty f = open_qty (po_order s p)" and "fl_side f = kBuy"
    and "po_onFill il f s = (s', f')"
  shows "ord_state (po_order s' p) = kFilled \<and> po_get s' k = None \<and>
    iop_bids (oop_val il (po_account s') (fl_accountId f) (fl_instrumentId f)) =
      iop_bids (oop_val il (po_account s) (fl_accountId f) (fl_instrumentId f)) - fl_qty f \<and>
    iop_pos (oop_val il (po_account s') (fl_accountId f) (fl_instrumentId f)) =
      s32 (iop_pos (oop_val il (po_account s) (fl_accountId f) (fl_instrumentId f)) + fl_qty f) \<and>
    fl_posAccount f' = iop_pos (oop_val il (po_account s') (fl_accountId f) (fl_instrumentId f))"
proof -
  let ?a = "fl_accountId f" and ?i = "fl_instrumentId f" and ?s2 = "po_remove il p (filled_up p s)"
  have inv: "po_inv il s" by (rule po_reachable_inv [OF assms(1)])
  have kp: "(k, p) \<in> set (po_table s)" using assms(2) by (simp add: po_get_def ot_get_def sm_find_in_set)
  have old: "order_ok k (po_order s p)" using inv kp by (auto simp: po_inv_def table_ok_def)
  note v2 = filled_up_remove_val(1,2) [OF inv old, of kBuy ?a ?i, simplified]
    and ok2 = filled_up_remove_val(3) [OF inv old, of kBuy, simplified]
  have s': "po_changePosCounts il f ?s2 = (s', f')"
    using assms(8) po_onFill_full [OF old assms(3,4,6)] by simp
  note val = po_changePosCounts_val [OF ok2 s']
  have q: "tw_ok (fl_qty f)" using order_ok_tw(4) [OF old] assms(6) by simp
  have b: "tw_ok (side_count kBuy (oop_val il (po_account s) ?a ?i) - fl_qty f)"
    using po_inv_side_ok [OF inv, of kBuy ?a ?i] contrib_le_open_sum [OF _ kp, of "po_heap s" ord_accountId kBuy ?a ?i] inv
      contrib_all_filled [OF assms(5) assms(6) [symmetric], of ord_accountId kBuy ?a ?i] assms(5,7) q order_ok_tw(3) [OF old] assms(6)
    by (auto simp: po_inv_def fill_matches_def tw_ok_iff)
  have "side_count kBuy (count_fill f (oop_val il (po_account ?s2) ?a ?i)) =
      side_count kBuy (oop_val il (po_account s) ?a ?i) - fl_qty f"
    using v2 po_inv_side_ok(1) [OF inv, of kBuy ?a ?i] b assms(7)
    by (subst count_fill_normal [OF assms(3) _ q]) auto
  moreover have "iop_pos (count_fill f (oop_val il (po_account ?s2) ?a ?i)) =
      s32 (iop_pos (oop_val il (po_account s) ?a ?i) + fl_qty f)"
    using v2 assms(3,7) by (simp add: count_fill_def Let_def)
  moreover have "po_get s' k = None"
    using old po_inv_books(1) [OF inv]
    by (simp add: po_get_def ot_get_def val(3) filled_up_def po_remove_simps order_ok_def sm_find_erase)
  ultimately show ?thesis by (simp add: val side_count_def filled_up_def po_remove_simps)
qed

lemma ex_account: "oop_val ex_lookup (po_account ex_state) 1 3 =
    \<lparr>iop_instrumentId = 3, iop_displayName = '''', iop_bids = 5, iop_asks = 0, iop_pos = 0, oop_ownerId = 1\<rparr>"
proof -
  have "oop_ok []" by (simp add: oop_ok_def)
  then show ?thesis
    by (simp add: ex_state_def po_sendNew_cases Let_def ex_defs po_changeOpenOrdersCounts_def oop.val_upd)
      (simp add: count_open_def oop_val_def oop_lookup_def oop_fresh_def wrap_simps tw_ok_iff)
qed

theorem full_fill_closes_order_witness:
  "let s' = fst (po_onFill ex_lookup ex_fill ex_state) in
   ord_state (po_order s' 0) = kFilled \<and> po_get s' (0, 1) = None \<and>
   iop_bids (oop_val ex_lookup (po_account s') 1 3) = 0 \<and>
   iop_pos (oop_val ex_lookup (po_account s') 1 3) = 5"
proof -
  have fl: "fl_type ex_fill = kNormal" "fl_order ex_fill = Some 0" "fl_side ex_fill = kBuy"
    "fl_accountId ex_fill = 1" "fl_instrumentId ex_fill = 3" "fl_qty ex_fill = 5"
    by (simp_all add: ex_defs)
  have get: "po_get ex_state (0, 1) = Some 0" by (simp add: po_get_def ot_get_def ex_state_eq)
  have m: "fill_matches ex_fill (po_order ex_state 0)" and q: "fl_qty ex_fill = open_qty (po_order ex_state 0)"
    by (simp_all add: fill_matches_def ex_state_eq open_qty_def) (simp_all add: ex_defs)
  show ?thesis
    using full_fill_closes_order [OF ex_state_reachable get fl(1,2) m q fl(3) surjective_pairing]
    by (simp add: Let_def fl ex_account s32_def)
qed

subsection \<open>Rejects\<close>

lemma po_sendNew_acceptedD:
  assumes "po_sendNew il p s = (s', None)"
  shows "s' = po_changeOpenOrdersCounts il p 1
      ((po_set p (\<lambda>ord. ord\<lparr>ord_action := kOrNew, ord_state := kPending\<rparr>) s)
        \<lparr>po_table := sm_insert (po_table s) (ord_orderId (po_order s p)) p\<rparr>)"
    and "sm_find (po_table s) (ord_orderId (po_order s p)) = None"
    and "0 < ord_qty (po_order s p)"
  using assms by (auto simp: po_sendNew_cases Let_def split: if_splits)

lemma count_open_cong:
  "ord_qty a = ord_qty b \<Longrightarrow> ord_cumQty a = ord_cumQty b \<Longrightarrow> ord_side a = ord_side b \<Longrightarrow>
   count_open a n = count_open b n"
  by (simp add: count_open_def fun_eq_iff Let_def split: eOrderSide.splits)

lemma count_open_undo:
  assumes "tw_sub (ord_qty ord) (ord_cumQty ord) = open_qty ord" and "tw_ok (open_qty ord)"
    and "tw_ok (iop_bids v)" and "tw_ok (iop_asks v)"
    and "real_side (ord_side ord) \<Longrightarrow> tw_ok (side_count (ord_side ord) v + open_qty ord)"
  shows "count_open ord (- 1) (count_open ord 1 v) = v"
  using assms
  by (auto simp: count_open_def Let_def side_count_def wrap_simps split: eOrderSide.splits)

lemma po_newRej_after_new:
  assumes "po_sendNew il p s = (s1, None)" and "sm_ok (po_table s)"
  shows "sm_find (po_table (po_onNewRej il p rej s1)) = sm_find (po_table s)"
    and "ord_state (po_order (po_onNewRej il p rej s1) p) = kRejected"
    and "po_account (po_onNewRej il p rej s1) =
      oop_update il (oop_update il (po_account s) (ord_accountId (po_order s p)) (ord_instrumentId (po_order s p))
          (count_open (po_order s p) 1))
        (ord_accountId (po_order s p)) (ord_instrumentId (po_order s p)) (count_open (po_order s p) (- 1))"
    and "po_strategy (po_onNewRej il p rej s1) =
      oop_update il (oop_update il (po_strategy s) (ord_strategyId (po_order s p)) (ord_instrumentId (po_order s p))
          (count_open (po_order s p) 1))
        (ord_strategyId (po_order s p)) (ord_instrumentId (po_order s p)) (count_open (po_order s p) (- 1))"
proof -
  note s1 = po_sendNew_acceptedD [OF assms(1)]
  show "sm_find (po_table (po_onNewRej il p rej s1)) = sm_find (po_table s)"
    using sm.insert_erase [OF assms(2) s1(2)]
    by (simp add: s1(1) po_onNewRej_def po_changeOpenOrdersCounts_def Let_def po_remove_simps)
  show "ord_state (po_order (po_onNewRej il p rej s1) p) = kRejected"
    by (simp add: s1(1) po_onNewRej_def po_changeOpenOrdersCounts_def Let_def po_remove_simps)
  show "po_account (po_onNewRej il p rej s1) =
      oop_update il (oop_update il (po_account s) (ord_accountId (po_order s p)) (ord_instrumentId (po_order s p))
          (count_open (po_order s p) 1))
        (ord_accountId (po_order s p)) (ord_instrumentId (po_order s p)) (count_open (po_order s p) (- 1))"
    using count_open_cong [of "(po_order s p)\<lparr>ord_action := kOrNew, ord_state := kPending\<rparr>" "po_order s p" 1]
      count_open_cong [of "(po_order s p)\<lparr>ord_action := kOrNewRej, ord_state := kRejected\<rparr>" "po_order s p" "- 1"]
    by (simp add: s1(1) po_onNewRej_def po_changeOpenOrdersCounts_def Let_def po_remove_simps)
  show "po_strategy (po_onNewRej il p rej s1) =
      oop_update il (oop_update il (po_strategy s) (ord_strategyId (po_order s p)) (ord_instrumentId (po_order s p))
          (count_open (po_order s p) 1))
        (ord_strategyId (po_order s p)) (ord_instrumentId (po_order s p)) (count_open (po_order s p) (- 1))"
    using count_open_cong [of "(po_order s p)\<lparr>ord_action := kOrNew, ord_state := kPending\<rparr>" "po_order s p" 1]
      count_open_cong [of "(po_order s p)\<lparr>ord_action := kOrNewRej, ord_state := kRejected\<rparr>" "po_order s p" "- 1"]
    by (simp add: s1(1) po_onNewRej_def po_changeOpenOrdersCounts_def Let_def po_remove_simps)
qed

text \<open>Undoing an order in a book that is right and had room for it gives back the same book.\<close>

lemma book_undo:
  assumes b: "book_ok il own h t m" and q: "tw_sub (ord_qty ord) (ord_cumQty ord) = open_qty ord" "tw_ok (open_qty ord)"
    and room: "tw_ok (open_sum h t own (ord_side ord) (own ord) (ord_instrumentId ord) + open_qty ord)"
  shows "oop_val il (oop_update il (oop_update il m (own ord) (ord_instrumentId ord) (count_open ord 1))
      (own ord) (ord_instrumentId ord) (count_open ord (- 1))) x y = oop_val il m x y"
proof -
  let ?v = "oop_val il m (own ord) (ord_instrumentId ord)"
  have ok: "oop_ok m" using b by (simp add: book_ok_def)
  have v: "side_count sd ?v = open_sum h t own sd (own ord) (ord_instrumentId ord)" "tw_ok (side_count sd ?v)"
    if "real_side sd" for sd using b that by (auto simp: book_ok_def)
  have "count_open ord (- 1) (count_open ord 1 ?v) = ?v"
    using q room v [of kBuy] v [of kSell] by (intro count_open_undo) (auto simp: side_count_def)
  from oop.upd_undo [where f = "count_open ord 1" and g = "count_open ord (- 1)", OF ok this] show ?thesis .
qed

text \<open>
  C16: a new order that was accepted (it was not in the table and the 32-bit counters had room for
  it) and is then rejected, downstream or by the exchange, leaves no trace: the table finds the same
  orders as before, and every counter a client can read is what it was before the order, for any
  account and for any strategy; only the order itself ends Rejected.
\<close>

theorem new_then_reject_is_neutral:
  assumes "po_reachable il s" and "fresh_order s p" and "room_for s (po_order s p)"
    and "po_sendNew il p s = (s1, None)"
  shows "po_get (po_onNewRej il p rej s1) k = po_get s k \<and>
    ord_state (po_order (po_onNewRej il p rej s1) p) = kRejected \<and>
    oop_val il (po_account (po_onNewRej il p rej s1)) a i = oop_val il (po_account s) a i \<and>
    oop_val il (po_strategy (po_onNewRej il p rej s1)) st i = oop_val il (po_strategy s) st i"
proof -
  let ?ord = "po_order s p"
  have inv: "po_inv il s" by (rule po_reachable_inv [OF assms(1)])
  note rej = po_newRej_after_new [OF assms(4) po_inv_books(1) [OF inv]]
  have "order_ok (ord_orderId ?ord) (?ord\<lparr>ord_state := kPending\<rparr>)"
    using assms(2) po_sendNew_acceptedD(3) [OF assms(4)]
    by (simp add: order_ok_def fresh_order_def isOrderLive.simps)
  note q = order_ok_tw(4,5) [OF this]
  have q: "tw_sub (ord_qty ?ord) (ord_cumQty ?ord) = open_qty ?ord" "tw_ok (open_qty ?ord)"
    using q by (simp_all add: open_qty_def)
  have books: "book_ok il ord_accountId (po_heap s) (po_table s) (po_account s)"
      "book_ok il ord_strategyId (po_heap s) (po_table s) (po_strategy s)"
    using inv by (simp_all add: po_inv_def)
  show ?thesis
    using rej book_undo [OF books(1) q] book_undo [OF books(2) q] assms(3)
    by (simp add: po_get_def ot_get_def room_for_def)
qed

theorem new_then_reject_is_neutral_witness:
  "po_get (po_onNewRej ex_lookup 0 (po_getRej kInvalidOrderState) ex_state) (0, 1) = None \<and>
   ord_state (po_order (po_onNewRej ex_lookup 0 (po_getRej kInvalidOrderState) ex_state) 0) = kRejected \<and>
   iop_bids (oop_val ex_lookup (po_account (po_onNewRej ex_lookup 0 (po_getRej kInvalidOrderState) ex_state)) 1 3) = 0 \<and>
   iop_bids (oop_val ex_lookup (po_strategy (po_onNewRej ex_lookup 0 (po_getRej kInvalidOrderState) ex_state)) 2 3) = 0"
proof -
  have r: "po_reachable ex_lookup ex_init" unfolding ex_init_def by (rule po_reachable.reach_init)
  from new_then_reject_is_neutral [OF r ex_room ex_sendNew, of _ "(0, 1)" 1 3 2] show ?thesis
    by (simp add: po_get_def ot_get_def ex_defs oop_val_def oop_lookup_def oop_fresh_def)
qed

text \<open>
  A Limit order without a price is refused, but not without effect. The reject path takes
  the order's quantity out of the open bids of its account although nothing had been added: the
  counter no longer is the sum over the table.
\<close>

theorem sendNew_bad_price_drifts:
  assumes "po_reachable il s" and "ord_state (po_order s p) = kUnknownState"
    and "ord_type (po_order s p) = kLimit" and "\<not> tw_isValid (ord_price (po_order s p))"
    and "ord_side (po_order s p) = kBuy" and "ord_cumQty (po_order s p) = 0"
    and "0 < ord_qty (po_order s p)" and "ord_qty (po_order s p) \<le> INT32_MAX"
  shows "snd (po_sendNew il p s) = Some (po_getRej kInvalidOrderPrice) \<and>
    iop_bids (oop_val il (po_account (fst (po_sendNew il p s)))
        (ord_accountId (po_order s p)) (ord_instrumentId (po_order s p))) =
    iop_bids (oop_val il (po_account s) (ord_accountId (po_order s p)) (ord_instrumentId (po_order s p)))
      - ord_qty (po_order s p)"
proof -
  let ?a = "ord_accountId (po_order s p)" and ?i = "ord_instrumentId (po_order s p)"
  let ?b = "iop_bids (oop_val il (po_account s) ?a ?i)" and ?q = "ord_qty (po_order s p)"
  have inv: "po_inv il s" by (rule po_reachable_inv [OF assms(1)])
  have "0 \<le> ?b" "tw_ok ?b"
    using po_inv_side_ok [OF inv, of kBuy ?a ?i] inv
    by (auto simp: side_count_def po_inv_def intro: open_sum_nonneg)
  then have "size_sub_eq ?b (tw_sub ?q 0) = ?b - ?q"
    using assms(7,8) by (auto simp: wrap_simps tw_ok_iff INT32_MAX_def)
  then show ?thesis
    using assms(2-7)
    by (simp add: po_sendNew_cases Let_def po_onNewRej_def po_remove_simps count_open_def
        oop.val_upd [OF po_inv_books(2) [OF inv]])
qed

theorem sendNew_bad_price_drifts_witness:
  "let s = po_init (\<lambda>_. ex_order\<lparr>ord_price := tw_INVALID_VALUE\<rparr>) 0 in
   iop_bids (oop_val ex_lookup (po_account (fst (po_sendNew ex_lookup 0 s))) 1 3) = - 5"
proof -
  let ?s = "po_init (\<lambda>_. ex_order\<lparr>ord_price := tw_INVALID_VALUE\<rparr>) 0"
  have "po_reachable ex_lookup ?s" by (rule po_reachable.reach_init)
  from sendNew_bad_price_drifts [OF this, of 0] show ?thesis
    by (simp add: ex_defs INT32_MAX_def oop_val_def [of _ "[]"] oop_lookup_def [of "[]"] oop_fresh_def)
qed

text \<open>
  A new order under the id of a live one is refused, and the refusal removes the live order
  from the table: it can no longer be found although it still works at the exchange.
\<close>

theorem sendNew_duplicate_evicts:
  assumes "po_reachable il s" and "po_get s (ord_orderId (po_order s p)) = Some q" and "p \<noteq> q"
    and "ord_state (po_order s p) = kUnknownState" and "0 < ord_qty (po_order s p)"
    and "tw_isValid (ord_price (po_order s p))"
  shows "snd (po_sendNew il p s) = Some (po_getRej kDuplicateOrderId) \<and>
    po_get (fst (po_sendNew il p s)) (ord_orderId (po_order s p)) = None \<and>
    po_order (fst (po_sendNew il p s)) q = po_order s q"
  using assms po_inv_books(1) [OF po_reachable_inv [OF assms(1)]]
  by (simp add: po_sendNew_cases Let_def po_get_def ot_get_def po_onNewRej_def po_remove_simps
      sm_find_erase)

theorem sendNew_duplicate_evicts_witness:
  "po_get ex_state (0, 1) = Some 0 \<and> po_get (fst (po_sendNew ex_lookup 7 ex_state)) (0, 1) = None"
proof -
  have g: "po_get ex_state (0, 1) = Some 0" by (simp add: po_get_def ot_get_def ex_state_eq)
  have "po_order ex_state 7 = ex_order"
    by (simp add: ex_state_def po_sendNew_cases Let_def ex_init_def po_init_def po_changeOpenOrdersCounts_def
        ex_order_def order_default_def)
  then have f: "ord_orderId (po_order ex_state 7) = (0, 1)" "ord_state (po_order ex_state 7) = kUnknownState"
    "0 < ord_qty (po_order ex_state 7)" "tw_isValid (ord_price (po_order ex_state 7))"
    by (simp_all add: ex_defs)
  show ?thesis
    using sendNew_duplicate_evicts [OF ex_state_reachable, of 7 0] f g by simp
qed


lemma po_getRej_eq: "po_getRej a = po_getRej b \<longleftrightarrow> a = b"
proof -
  have "rej_rejReason (po_getRej r) = r" for r by (simp add: po_getRej_def internal_rej_def)
  then show ?thesis by metis
qed

text \<open>
  A modify refused because too many are in flight still moves a Working order to Modifying,
  with the counter back where it was and no modify sent; the other refusals leave the state
  alone.
\<close>

theorem sendMod_refusals:
  assumes "po_sendMod p s = (s', Some rej)"
  shows "ord_modCounter (po_order s' p) = ord_modCounter (po_order s p) \<and>
    (ord_state (po_order s' p) \<noteq> ord_state (po_order s p) \<longleftrightarrow>
       rej = po_getRej kMaxModCounter \<and> ord_state (po_order s p) = kWorking) \<and>
    (rej = po_getRej kMaxModCounter \<longrightarrow> ord_state (po_order s' p) = kModifying)"
  using assms
  by (auto simp: po_sendMod_def Let_def po_getRej_eq split: if_splits)

theorem sendMod_refusals_witness:
  "let s = po_init (\<lambda>_. ex_order\<lparr>ord_state := kWorking, ord_modCounter := 5, ord_newPrice := 101\<rparr>) 0 in
   snd (po_sendMod 0 s) = Some (po_getRej kMaxModCounter) \<and>
   ord_state (po_order (fst (po_sendMod 0 s)) 0) = kModifying"
proof -
  let ?s = "po_init (\<lambda>_. ex_order\<lparr>ord_state := kWorking, ord_modCounter := 5, ord_newPrice := 101\<rparr>) 0"
  have r: "snd (po_sendMod 0 ?s) = Some (po_getRej kMaxModCounter)"
    by (simp add: po_sendMod_def Let_def ex_defs MAX_MOD_COUNTER_def MAX_MOD_REJ_COUNTER_def word_less_nat_alt)
  then have "po_sendMod 0 ?s = (fst (po_sendMod 0 ?s), Some (po_getRej kMaxModCounter))"
    by (metis prod.collapse)
  from sendMod_refusals [OF this] r show ?thesis by simp
qed

subsection \<open>Stuck orders\<close>

lemma sm_get_or_create_okD: "sm_get_or_create m k d = (m', v) \<Longrightarrow> sm_ok m \<Longrightarrow> sm_ok m'"
  using sm_get_or_create_ok [of m k d] by simp

lemma po_collect_stuck_ok:
  "sm_ok m \<Longrightarrow> sm_ok (po_collect_stuck now tmo h m ps)"
  by (induction ps arbitrary: m) (auto simp: Let_def sm_get_or_create_okD split: prod.splits)

lemma po_is_stuck_iff:
  "po_is_stuck now timeout ord \<longleftrightarrow>
     (ord_state ord = kPending \<or> ord_state ord = kModifying \<or> ord_state ord = kCancelling) \<and>
     (uint timeout * 1000) mod 2 ^ 32 < (now - ord_timestamp1 ord) mod 2 ^ 64"
proof -
  have "uint (ucast (timeout * 1000) :: u64) = (uint timeout * 1000) mod 2 ^ 32"
    by (simp add: uint_word_ariths unsigned_ucast_eq take_bit_eq_mod)
  moreover have "uint (word_of_int (now - ord_timestamp1 ord) :: u64) = (now - ord_timestamp1 ord) mod 2 ^ 64"
    by (simp only: uint_word_of_int) simp
  ultimately show ?thesis by (simp add: po_is_stuck_def word_less_def)
qed

abbreviation stuck_of :: "int \<Rightarrow> u32 \<Rightarrow> 'd order_heap \<Rightarrow> strategy_id \<Rightarrow> optr list \<Rightarrow> optr list" where
  "stuck_of now tmo h st ps \<equiv> filter (\<lambda>p. po_is_stuck now tmo (h p) \<and> ord_strategyId (h p) = st) ps"

lemma po_collect_stuck_find:
  "sm_ok m \<Longrightarrow> sm_find (po_collect_stuck now tmo h m ps) st =
     (case sm_find m st of
        None \<Rightarrow> if stuck_of now tmo h st ps = [] then None else Some (stuck_of now tmo h st ps)
      | Some l \<Rightarrow> Some (l @ stuck_of now tmo h st ps))"
proof (induction ps arbitrary: m)
  case Nil
  show ?case by (simp split: option.splits)
next
  case (Cons p ps)
  let ?m' = "if po_is_stuck now tmo (h p)
        then (let (m1, l) = sm_get_or_create m (ord_strategyId (h p)) []
              in sm_assign m1 (ord_strategyId (h p)) (l @ [p])) else m"
  have ok: "sm_ok ?m'" using Cons.prems by (auto simp: sm_get_or_create_okD split: prod.splits)
  have find: "sm_find ?m' st = (if po_is_stuck now tmo (h p) \<and> ord_strategyId (h p) = st
      then Some ((case sm_find m st of None \<Rightarrow> [] | Some l \<Rightarrow> l) @ [p]) else sm_find m st)"
    using Cons.prems
    by (auto simp: sm_get_or_create_def sm_find_assign sm.find_insert_new Let_def split: option.splits)
  show ?case using Cons.IH [OF ok] find by (auto split: option.splits)
qed

text \<open>
  C20: one timeout at time \<open>now\<close> reports, for every strategy, the ids of exactly the orders
  of the table that are Pending, Modifying or Cancelling and whose time stamp lies more than the
  configured number of milliseconds back, in table order and under no other strategy; a strategy
  without such orders gets no report. The elapsed microseconds are an unsigned 64-bit number (a time
  stamp in the future counts as long ago), the timeout in microseconds an unsigned 32-bit one.
\<close>

theorem timeout_reports_stuck_orders:
  "(st, ids) \<in> set (po_onTimeout now s) \<longleftrightarrow>
     ids \<noteq> [] \<and>
     ids = map (\<lambda>p. ord_orderId (po_order s p))
             (filter (\<lambda>p.
                (ord_state (po_order s p) = kPending \<or> ord_state (po_order s p) = kModifying \<or>
                 ord_state (po_order s p) = kCancelling) \<and>
                (uint (po_stuck_timeout s) * 1000) mod 2 ^ 32 < (now - ord_timestamp1 (po_order s p)) mod 2 ^ 64 \<and>
                ord_strategyId (po_order s p) = st) (po_getAll s))"
proof -
  let ?m = "po_collect_stuck now (po_stuck_timeout s) (po_heap s) [] (po_getAll s)"
  have "(st, ps) \<in> set ?m \<longleftrightarrow> ps \<noteq> [] \<and> ps = stuck_of now (po_stuck_timeout s) (po_heap s) st (po_getAll s)" for ps
    by (subst sm_find_iff [OF po_collect_stuck_ok, symmetric]) (auto simp: po_collect_stuck_find)
  then have "(st, ids) \<in> set (po_onTimeout now s) \<longleftrightarrow> ids \<noteq> [] \<and>
      ids = map (\<lambda>p. ord_orderId (po_order s p))
        (stuck_of now (po_stuck_timeout s) (po_heap s) st (po_getAll s))"
    by (force simp: po_onTimeout_def)
  then show ?thesis by (simp add: po_is_stuck_iff conj_assoc)
qed

end
