(* ===== verification/ProcessorThrottle.thy ===== *)
theory ProcessorThrottle
  imports OrDefs
begin

section \<open>ProcessorThrottle: message rate limits (channel\_or/processor\_throttle.cpp)\<close>

text \<open>
  Counts the messages of the current second. Too many new orders or modifies switch trading off
  until the processor is started again; too many cancels are refused until the next tick of the
  one-second timer. The counters are 32-bit and wrap. Operations take the order (whose rate
  fields they write) and the state, and return both.
\<close>

record 'd pt_state =
  pt_timerId :: u32
  pt_enabled :: bool
  pt_counters :: throttle_counters
  pt_account :: "'d account"

definition counters_clear :: throttle_counters where
  "counters_clear = \<lparr>tc_counterMPSNew = 0, tc_counterMPSMod = 0, tc_counterMPSCxl = 0\<rparr>"

definition account_clear :: "('d::zero) account" where
  "account_clear = \<lparr>acc_id = 0, acc_name = '''', acc_maxMPSNew = 0, acc_maxMPSMod = 0, acc_maxMPSCxl = 0,
     acc_maxRealizedDrawdown = 0, acc_maxUnrealizedDrawdown = 0, acc_maxRealizedLoss = 0,
     acc_maxUnrealizedLoss = 0, acc_maxTotalLoss = 0, acc_tradeEnabled = False\<rparr>"

definition pt_clear :: "('d::zero) pt_state" where
  "pt_clear = \<lparr>pt_timerId = 0, pt_enabled = False, pt_counters = counters_clear, pt_account = account_clear\<rparr>"

definition pt_getRej :: "eRejectReason \<Rightarrow> reject" where
  "pt_getRej r = internal_rej kProcessorThrottle r"

definition pt_init :: "'d account \<Rightarrow> 'd pt_state \<Rightarrow> 'd pt_state" where
  "pt_init a s = s\<lparr>pt_account := a\<rparr>"

text \<open>\<open>start\<close>: the timer server's answer is the argument, the id of the timer or a failure.\<close>

definition pt_start :: "u32 option \<Rightarrow> 'd pt_state \<Rightarrow> bool \<times> 'd pt_state" where
  "pt_start timer s =
     (case timer of None \<Rightarrow> (False, s) | Some i \<Rightarrow> (True, s\<lparr>pt_timerId := i, pt_enabled := True\<rparr>))"

definition pt_stop :: "('d::zero) pt_state \<Rightarrow> 'd pt_state" where
  "pt_stop s = (if \<not> pt_enabled s then s else pt_clear)"

definition pt_onTimeout :: "'d pt_state \<Rightarrow> 'd pt_state" where
  "pt_onTimeout s = s\<lparr>pt_counters := counters_clear\<rparr>"

definition pt_setCounters :: "'d pt_state \<Rightarrow> 'd order \<Rightarrow> 'd order" where
  "pt_setCounters s ord = ord\<lparr>mi_newMPS := tc_counterMPSNew (pt_counters s),
     mi_modMPS := tc_counterMPSMod (pt_counters s), mi_cxlMPS := tc_counterMPSCxl (pt_counters s)\<rparr>"

definition pt_sendNew :: "'d order \<Rightarrow> 'd pt_state \<Rightarrow> 'd order \<times> 'd pt_state \<times> reject option" where
  "pt_sendNew ord s =
     (let n = tc_counterMPSNew (pt_counters s) + 1;
          s1 = s\<lparr>pt_counters := (pt_counters s)\<lparr>tc_counterMPSNew := n\<rparr>\<rparr>;
          s2 = (if n > acc_maxMPSNew (pt_account s) then s1\<lparr>pt_enabled := False\<rparr> else s1)
      in (pt_setCounters s2 ord, s2,
          if \<not> pt_enabled s2 then Some (pt_getRej kExceededMaxMPS) else None))"

definition pt_sendMod :: "'d order \<Rightarrow> 'd pt_state \<Rightarrow> 'd order \<times> 'd pt_state \<times> reject option" where
  "pt_sendMod ord s =
     (let n = tc_counterMPSMod (pt_counters s) + 1;
          s1 = s\<lparr>pt_counters := (pt_counters s)\<lparr>tc_counterMPSMod := n\<rparr>\<rparr>;
          s2 = (if n > acc_maxMPSMod (pt_account s) then s1\<lparr>pt_enabled := False\<rparr> else s1)
      in (pt_setCounters s2 ord, s2,
          if \<not> pt_enabled s2 then Some (pt_getRej kExceededMaxMPS) else None))"

definition pt_sendCxl :: "'d order \<Rightarrow> 'd pt_state \<Rightarrow> 'd order \<times> 'd pt_state \<times> reject option" where
  "pt_sendCxl ord s =
     (let n = tc_counterMPSCxl (pt_counters s) + 1;
          s1 = s\<lparr>pt_counters := (pt_counters s)\<lparr>tc_counterMPSCxl := n\<rparr>\<rparr>
      in (pt_setCounters s1 ord, s1,
          if n > acc_maxMPSCxl (pt_account s) then Some (pt_getRej kExceededMaxMPS) else None))"

subsection \<open>Runs of messages and ticks\<close>

datatype throttle_event = ThNew | ThMod | ThCxl | ThTick

fun pt_event :: "throttle_event \<Rightarrow> 'd order \<Rightarrow> 'd pt_state \<Rightarrow> 'd pt_state \<times> bool" where
  "pt_event ThNew ord s = (case pt_sendNew ord s of (_, s', r) \<Rightarrow> (s', r = None))"
| "pt_event ThMod ord s = (case pt_sendMod ord s of (_, s', r) \<Rightarrow> (s', r = None))"
| "pt_event ThCxl ord s = (case pt_sendCxl ord s of (_, s', r) \<Rightarrow> (s', r = None))"
| "pt_event ThTick ord s = (pt_onTimeout s, True)"

text \<open>The final state and, per event, whether it was accepted.\<close>

fun pt_run :: "(throttle_event \<times> 'd order) list \<Rightarrow> 'd pt_state \<Rightarrow> 'd pt_state \<times> bool list" where
  "pt_run [] s = (s, [])"
| "pt_run ((e, ord) # es) s =
     (let (s1, ok) = pt_event e ord s; (s2, oks) = pt_run es s1 in (s2, ok # oks))"

definition accepted_of :: "throttle_event \<Rightarrow> (throttle_event \<times> 'd order) list \<Rightarrow> 'd pt_state \<Rightarrow> nat" where
  "accepted_of e es s =
     length (filter (\<lambda>(x, ok). fst x = e \<and> ok) (zip es (snd (pt_run es s))))"

lemma pt_event_disabled:
  "\<not> pt_enabled s \<Longrightarrow> pt_event e ord s = (s', ok) \<Longrightarrow> \<not> pt_enabled s' \<and> (e = ThNew \<or> e = ThMod \<longrightarrow> \<not> ok)"
  by (cases e) (auto simp: pt_sendNew_def pt_sendMod_def pt_sendCxl_def pt_onTimeout_def Let_def split: if_splits)

lemma pt_run_disabled:
  "\<not> pt_enabled s \<Longrightarrow> pt_run es s = (s', oks) \<Longrightarrow> (x, ok) \<in> set (zip es oks) \<Longrightarrow>
     fst x = ThNew \<or> fst x = ThMod \<Longrightarrow> \<not> ok"
proof (induction es arbitrary: s oks)
  case (Cons a es)
  obtain e ord where a: "a = (e, ord)" by fastforce
  obtain s1 ok1 where ev: "pt_event e ord s = (s1, ok1)" by fastforce
  obtain s2 oks1 where run: "pt_run es s1 = (s2, oks1)" by fastforce
  from Cons.prems(2) have oks: "s' = s2" "oks = ok1 # oks1" by (simp_all add: a ev run)
  from pt_event_disabled [OF Cons.prems(1) ev] have d: "\<not> pt_enabled s1" "e = ThNew \<or> e = ThMod \<longrightarrow> \<not> ok1"
    by simp_all
  from Cons.IH [OF d(1)] run oks Cons.prems(3,4) d(2) show ?case by (auto simp: a)
qed simp

lemma pt_sendNew_rejected: "pt_sendNew ord s = (ord', s', Some rej) \<Longrightarrow> \<not> pt_enabled s'"
  by (auto simp: pt_sendNew_def Let_def split: if_splits)

text \<open>
  Once a new order is refused, every later new order and modify is refused too, whatever
  cancels and timer ticks come in between: the switch only goes back on by \<open>start\<close>.
\<close>

theorem throttle_latches:
  assumes "pt_sendNew ord s = (ord', s', Some rej)" and "pt_run es s' = (s'', oks)"
    and "(x, ok) \<in> set (zip es oks)" and "fst x = ThNew \<or> fst x = ThMod"
  shows "\<not> ok"
  using pt_run_disabled [OF pt_sendNew_rejected [OF assms(1)] assms(2-4)] .

subsection \<open>Rates\<close>

lemma accepted_of_Nil: "accepted_of e [] s = 0"
  by (simp add: accepted_of_def)

lemma accepted_of_Cons:
  "accepted_of e ((x, ord) # es) s =
     (if x = e \<and> snd (pt_event x ord s) then 1 else 0) + accepted_of e es (fst (pt_event x ord s))"
  by (auto simp: accepted_of_def Let_def split: prod.splits)

lemma accepted_new_disabled: "\<not> pt_enabled s \<Longrightarrow> accepted_of ThNew es s = 0"
proof (induction es arbitrary: s)
  case Nil
  show ?case by (rule accepted_of_Nil)
next
  case (Cons a es)
  obtain x ord where a: "a = (x, ord)" by fastforce
  from pt_event_disabled [OF Cons.prems, of x ord "fst (pt_event x ord s)" "snd (pt_event x ord s)"]
  show ?case by (auto simp: a accepted_of_Cons Cons.IH)
qed

lemma pt_event_account: "pt_account (fst (pt_event e ord s)) = pt_account s"
  by (cases e) (simp_all add: pt_sendNew_def pt_sendMod_def pt_sendCxl_def pt_onTimeout_def Let_def)

lemma pt_event_new_counter:
  "e \<noteq> ThTick \<Longrightarrow> tc_counterMPSNew (pt_counters (fst (pt_event e ord s))) =
     tc_counterMPSNew (pt_counters s) + (if e = ThNew then 1 else 0)"
  by (cases e) (simp_all add: pt_sendNew_def pt_sendMod_def pt_sendCxl_def Let_def)

lemma pt_new_accepted:
  "snd (pt_event ThNew ord s) \<Longrightarrow> tc_counterMPSNew (pt_counters s) + 1 \<le> acc_maxMPSNew (pt_account s)"
  by (auto simp: pt_sendNew_def Let_def split: if_splits)

lemma pt_new_refused: "\<not> snd (pt_event ThNew ord s) \<Longrightarrow> \<not> pt_enabled (fst (pt_event ThNew ord s))"
  by (auto simp: pt_sendNew_def Let_def split: if_splits)

declare pt_event.simps [simp del]

lemma accepted_new_bound:
  assumes "\<forall>x \<in> set es. fst x \<noteq> ThTick"
    and "unat (tc_counterMPSNew (pt_counters s)) + length es < 2 ^ 32"
    and "tc_counterMPSNew (pt_counters s) \<le> acc_maxMPSNew (pt_account s)"
  shows "accepted_of ThNew es s + unat (tc_counterMPSNew (pt_counters s)) \<le> unat (acc_maxMPSNew (pt_account s))"
  using assms
proof (induction es arbitrary: s)
  case Nil
  then show ?case by (simp add: accepted_of_Nil word_le_nat_alt)
next
  case (Cons a es)
  obtain x ord where a: "a = (x, ord)" by fastforce
  let ?c = "tc_counterMPSNew (pt_counters s)" and ?s = "fst (pt_event x ord s)"
  have x: "x \<noteq> ThTick" using Cons.prems(1) by (simp add: a)
  have inc: "unat (?c + 1) = unat ?c + 1" using Cons.prems(2) by (simp add: unat_word_ariths)
  show ?case
  proof (cases "x = ThNew")
    case True
    show ?thesis
    proof (cases "snd (pt_event x ord s)")
      case acc: True
      from acc True have le: "?c + 1 \<le> acc_maxMPSNew (pt_account s)" using pt_new_accepted by blast
      have "accepted_of ThNew es ?s + unat (?c + 1) \<le> unat (acc_maxMPSNew (pt_account s))"
        using Cons.IH [of ?s] Cons.prems le inc True x
        by (simp add: a pt_event_account pt_event_new_counter)
      then show ?thesis using True acc inc by (simp add: a accepted_of_Cons)
    next
      case False
      with True have "\<not> pt_enabled ?s" using pt_new_refused by blast
      with False True Cons.prems(3) show ?thesis
        by (simp add: a accepted_of_Cons accepted_new_disabled word_le_nat_alt)
    qed
  next
    case False
    then show ?thesis
      using Cons.IH [of ?s] Cons.prems x
      by (simp add: a accepted_of_Cons pt_event_account pt_event_new_counter)
  qed
qed

text \<open>
  C33: between two ticks of the timer at most \<open>maxMPSNew\<close> new orders are let through, in any
  interleaving with modifies and cancels (for runs shorter than the range of the 32-bit counter).
\<close>

theorem throttle_new_rate:
  assumes "\<forall>x \<in> set es. fst x \<noteq> ThTick" and "length es < 2 ^ 32"
  shows "accepted_of ThNew es (pt_onTimeout s) \<le> unat (acc_maxMPSNew (pt_account s))"
  using accepted_new_bound [OF assms(1), of "pt_onTimeout s"] assms(2)
  by (simp add: pt_onTimeout_def counters_clear_def)

definition ex_throttle :: "int pt_state" where
  "ex_throttle = pt_clear\<lparr>pt_enabled := True, pt_account := account_clear\<lparr>acc_maxMPSNew := 1, acc_maxMPSCxl := 9\<rparr>\<rparr>"

lemmas ex_throttle_defs = ex_throttle_def pt_clear_def account_clear_def counters_clear_def

theorem throttle_latches_witness:
  "let s1 = fst (pt_event ThNew order_default ex_throttle); r = pt_sendNew order_default s1 in
   snd (snd r) = Some (pt_getRej kExceededMaxMPS) \<and>
   snd (pt_run [(ThTick, order_default), (ThNew, order_default)] (fst (snd r))) = [True, False]"
proof -
  define s1 where "s1 = fst (pt_event ThNew order_default ex_throttle)"
  define s2 where "s2 = fst (snd (pt_sendNew order_default s1))"
  have r: "pt_sendNew order_default s1 = (fst (pt_sendNew order_default s1), s2, Some (pt_getRej kExceededMaxMPS))"
    by (simp add: s1_def s2_def pt_event.simps pt_sendNew_def Let_def ex_throttle_defs word_less_nat_alt)
  define oks where "oks = snd (pt_run [(ThTick, order_default), (ThNew, order_default)] s2)"
  have run: "pt_run [(ThTick, order_default), (ThNew, order_default)] s2 =
      (fst (pt_run [(ThTick, order_default), (ThNew, order_default)] s2), oks)"
    by (simp add: oks_def)
  obtain b where oks: "oks = [True, b]"
    by (rule that [of "snd (pt_event ThNew order_default (pt_onTimeout s2))"])
      (simp add: oks_def pt_event.simps(4) split: prod.splits)
  from throttle_latches [OF r run, of "(ThNew, order_default)" b] have "\<not> b" by (simp add: oks)
  moreover have "snd (snd (pt_sendNew order_default s1)) = Some (pt_getRej kExceededMaxMPS)"
    using r by (metis snd_conv)
  ultimately show ?thesis using oks by (simp add: Let_def s1_def [symmetric] oks_def s2_def [symmetric])
qed

theorem throttle_new_rate_witness:
  "accepted_of ThNew [(ThNew, order_default), (ThCxl, order_default), (ThNew, order_default)]
     (pt_onTimeout ex_throttle) \<le> 1"
  using throttle_new_rate [of "[(ThNew, order_default), (ThCxl, order_default), (ThNew, order_default)]" ex_throttle]
  by (simp add: ex_throttle_defs)

end
