(* ===== verification/ProcessorRisk.thy ===== *)
theory ProcessorRisk
  imports OrderFacts ProcessorThrottle
begin

section \<open>ProcessorRisk: clip size and maximum position (channel\_or/processor\_risk.cpp)\<close>

text \<open>
  The risk stage runs after \<open>ProcessorOrders\<close> has counted the order: it reads the account's
  position and open orders for the instrument and refuses what could take the position past the
  configured maximum. Limits are unsigned in the configuration and cast to \<open>int32_t\<close> for
  the comparison. The free text of a reject is diagnostic and left empty.
\<close>

record 'd rk_state =
  rk_account :: "'d account"
  rk_params :: "(instr_id, account_risk_params) stdmap"

definition rk_clear :: "('d::zero) rk_state" where
  "rk_clear = \<lparr>rk_account = account_clear, rk_params = []\<rparr>"

definition rk_getRej :: "eRejectReason \<Rightarrow> reject" where
  "rk_getRej r = internal_rej kProcessorRisk r"

primrec rk_init_params ::
    "'d instr_lookup \<Rightarrow> account_risk_params list \<Rightarrow> (instr_id, account_risk_params) stdmap \<Rightarrow>
     (instr_id, account_risk_params) stdmap" where
  "rk_init_params il [] m = m"
| "rk_init_params il (x # xs) m =
     rk_init_params il xs
       (case il_getByDisplayName il (arp_displayName x) of None \<Rightarrow> m | Some i \<Rightarrow> sm_put m (ins_keyId i) x)"

definition rk_init :: "'d instr_lookup \<Rightarrow> 'd account \<Rightarrow> account_risk_params list \<Rightarrow> 'd rk_state \<Rightarrow> 'd rk_state" where
  "rk_init il a ps r = r\<lparr>rk_account := a, rk_params := rk_init_params il ps (rk_params r)\<rparr>"

definition rk_stop :: "('d::zero) rk_state \<Rightarrow> 'd rk_state" where
  "rk_stop r = rk_clear"

text \<open>\<open>static_cast<int32_t>\<close> of an unsigned limit.\<close>

definition as_int32 :: "u32 \<Rightarrow> int" where
  "as_int32 w = s32 (uint w)"

definition rk_exposure :: "eOrderSide \<Rightarrow> owned_open_orders_pos \<Rightarrow> int option" where
  "rk_exposure sd v =
     (case sd of kBuy \<Rightarrow> Some (s32 (iop_pos v + iop_bids v))
      | kSell \<Rightarrow> Some (s32 (s32 (- iop_pos v) + iop_asks v))
      | _ \<Rightarrow> None)"

definition rk_sendNew ::
    "'d instr_lookup \<Rightarrow> 'd rk_state \<Rightarrow> optr \<Rightarrow> 'd po_state \<Rightarrow> 'd po_state \<times> reject option" where
  "rk_sendNew il r p s =
     (let ord = po_order s p in
      if ord_accountId ord \<noteq> acc_id (rk_account r) then (s, Some (rk_getRej kAccountNotConfigured))
      else if \<not> acc_tradeEnabled (rk_account r) then (s, Some (rk_getRej kAccountDisabled))
      else
        (case sm_find (rk_params r) (ord_instrumentId ord) of
           None \<Rightarrow> (s, Some (rk_getRej kSymbolNotConfigured))
         | Some param \<Rightarrow>
             if \<not> arp_tradeEnabled param then (s, Some (rk_getRej kSymbolDisabled))
             else if ord_qty ord > as_int32 (arp_clipSize param) then (s, Some (rk_getRej kSymbolClipSize))
             else
               (let (s1, v) = po_getInstrOpenOrdersPosForAccountInstr il s (ord_accountId ord) (ord_instrumentId ord) in
                case rk_exposure (ord_side ord) v of
                  None \<Rightarrow> (s1, Some (rk_getRej kInvalidOrderSide))
                | Some sz \<Rightarrow>
                    if sz > as_int32 (arp_maxPos param) then (s1, Some (rk_getRej kSymbolMaxPos))
                    else (s1, None))))"

text \<open>
  In the branch of an instrument that is not configured the text of the reject prints the order's
  instrument: without one the code dereferences a null pointer.
\<close>

definition rk_sendNew_undefined :: "'d rk_state \<Rightarrow> 'd order \<Rightarrow> bool" where
  "rk_sendNew_undefined r ord \<longleftrightarrow>
     ord_accountId ord = acc_id (rk_account r) \<and> acc_tradeEnabled (rk_account r) \<and>
     sm_find (rk_params r) (ord_instrumentId ord) = None \<and> ord_instrument ord = None"

definition rk_sendMod :: "'d order \<Rightarrow> reject option" where "rk_sendMod ord = None"
definition rk_sendCxl :: "'d order \<Rightarrow> reject option" where "rk_sendCxl ord = None"

definition rk_canSend ::
    "'d instr_lookup \<Rightarrow> 'd rk_state \<Rightarrow> account_id \<Rightarrow> instr_id \<Rightarrow> size \<Rightarrow> eOrderSide \<Rightarrow> 'd po_state \<Rightarrow> 'd po_state \<times> bool" where
  "rk_canSend il r a i qty sd s =
     (if a \<noteq> acc_id (rk_account r) then (s, False)
      else if \<not> acc_tradeEnabled (rk_account r) then (s, False)
      else
        (case sm_find (rk_params r) i of
           None \<Rightarrow> (s, False)
         | Some param \<Rightarrow>
             if \<not> arp_tradeEnabled param then (s, False)
             else if qty > as_int32 (arp_clipSize param) then (s, False)
             else
               (let (s1, v) = po_getInstrOpenOrdersPosForAccountInstr il s a i in
                case rk_exposure sd v of
                  None \<Rightarrow> (s1, False)
                | Some sz \<Rightarrow> (s1, \<not> (s32 (sz + qty) > as_int32 (arp_maxPos param))))))"

definition rk_canSend_order :: "'d instr_lookup \<Rightarrow> 'd rk_state \<Rightarrow> optr \<Rightarrow> 'd po_state \<Rightarrow> 'd po_state \<times> bool" where
  "rk_canSend_order il r p s =
     (let ord = po_order s p in
      rk_canSend il r (ord_accountId ord) (ord_instrumentId ord) (ord_qty ord) (ord_side ord) s)"

definition rk_isTradeable :: "'d rk_state \<Rightarrow> instr_id \<Rightarrow> bool" where
  "rk_isTradeable r i =
     (case sm_find (rk_params r) i of None \<Rightarrow> False | Some param \<Rightarrow> arp_tradeEnabled param)"

text \<open>Commands as they come out of the generated parsers.\<close>

datatype 'd risk_command =
  UpdateAccount "'d account"
| UpdateAccountInstrument account_risk_params
| OtherRiskCommand

definition rk_onCommand :: "'d risk_command \<Rightarrow> 'd rk_state \<Rightarrow> 'd rk_state" where
  "rk_onCommand c r =
     (case c of
        UpdateAccount a \<Rightarrow> if acc_id a \<noteq> acc_id (rk_account r) then r else r\<lparr>rk_account := a\<rparr>
      | UpdateAccountInstrument u \<Rightarrow>
          if arp_accountId u \<noteq> acc_id (rk_account r) then r
          else r\<lparr>rk_params := map (\<lambda>(k, x). (k, if arp_displayName x = arp_displayName u then u else x)) (rk_params r)\<rparr>
      | OtherRiskCommand \<Rightarrow> r)"

subsection \<open>What a pass through the risk stage means\<close>

lemma as_int32_small: "uint w < 2147483648 \<Longrightarrow> as_int32 w = uint w"
  unfolding as_int32_def
  by (rule s32_exact) (simp add: in_s32_def INT32_MIN_def INT32_MAX_def order_trans [OF _ uint_ge_0])

definition tradeable_params :: "'d rk_state \<Rightarrow> account_id \<Rightarrow> instr_id \<Rightarrow> account_risk_params option" where
  "tradeable_params r a i =
     (if a = acc_id (rk_account r) \<and> acc_tradeEnabled (rk_account r)
      then (case sm_find (rk_params r) i of None \<Rightarrow> None | Some x \<Rightarrow> if arp_tradeEnabled x then Some x else None)
      else None)"

lemma po_get_pos_eq:
  assumes "oop_ok (po_account s)"
  shows "po_getInstrOpenOrdersPosForAccountInstr il s a i =
    (s\<lparr>po_account := fst (oop_get il (po_account s) a i)\<rparr>, oop_val il (po_account s) a i)"
  using oop_get_val [OF assms, of il a i]
  by (cases "oop_get il (po_account s) a i") (simp add: po_getInstrOpenOrdersPosForAccountInstr_def)

lemma rk_sendNew_accepts_iff:
  assumes "oop_ok (po_account s)"
  shows "snd (rk_sendNew il r p s) = None \<longleftrightarrow>
    (\<exists>x e. tradeable_params r (ord_accountId (po_order s p)) (ord_instrumentId (po_order s p)) = Some x \<and>
       ord_qty (po_order s p) \<le> as_int32 (arp_clipSize x) \<and>
       rk_exposure (ord_side (po_order s p))
         (oop_val il (po_account s) (ord_accountId (po_order s p)) (ord_instrumentId (po_order s p))) = Some e \<and>
       e \<le> as_int32 (arp_maxPos x))"
  by (auto simp: rk_sendNew_def Let_def tradeable_params_def po_get_pos_eq [OF assms] split: option.splits)

lemma rk_canSend_iff:
  assumes "oop_ok (po_account s)"
  shows "snd (rk_canSend il r a i qty sd s) \<longleftrightarrow>
    (\<exists>x e. tradeable_params r a i = Some x \<and> qty \<le> as_int32 (arp_clipSize x) \<and>
       rk_exposure sd (oop_val il (po_account s) a i) = Some e \<and> s32 (e + qty) \<le> as_int32 (arp_maxPos x))"
  by (auto simp: rk_canSend_def Let_def tradeable_params_def po_get_pos_eq [OF assms] split: option.splits)

text \<open>Reading a counter creates its entry but changes no value, nor the invariant.\<close>

lemma oop_get_same_val: "oop_ok m \<Longrightarrow> oop_val il (fst (oop_get il m x y)) x' y' = oop_val il m x' y'"
proof -
  assume ok: "oop_ok m"
  obtain m1 v where g: "oop_get il m x y = (m1, v)" by fastforce
  from oop_get_spec [OF ok g] show ?thesis by (auto simp: g oop_val_def split: option.splits)
qed

lemma oop_get_ok: "oop_ok m \<Longrightarrow> oop_ok (fst (oop_get il m x y))"
  using oop_get_spec(2) by (metis prod.collapse)

lemma po_inv_read:
  assumes "po_inv il s"
  shows "po_inv il (s\<lparr>po_account := fst (oop_get il (po_account s) a i)\<rparr>)"
proof -
  have ok: "oop_ok (po_account s)" using po_inv_books(2) [OF assms] .
  from assms show ?thesis
    unfolding po_inv_def book_ok_def by (simp add: oop_get_same_val [OF ok] oop_get_ok [OF ok])
qed

lemma rk_sendNew_state:
  assumes "oop_ok (po_account s)"
  shows "fst (rk_sendNew il r p s) = s \<or>
    fst (rk_sendNew il r p s) = s\<lparr>po_account := fst (oop_get il (po_account s)
      (ord_accountId (po_order s p)) (ord_instrumentId (po_order s p)))\<rparr>"
  by (auto simp: rk_sendNew_def Let_def po_get_pos_eq [OF assms] split: option.splits)

lemma rk_sendNew_inv: "po_inv il s \<Longrightarrow> po_inv il (fst (rk_sendNew il r p s))"
  using rk_sendNew_state [OF po_inv_books(2)] po_inv_read by metis

subsection \<open>Before and after the order is counted\<close>

lemma sendNew_counted:
  assumes inv: "po_inv il s" and fresh: "fresh_order s p" and room: "room_for s (po_order s p)"
    and acc: "po_sendNew il p s = (s1, None)"
  shows "oop_val il (po_account s1) (ord_accountId (po_order s p)) (ord_instrumentId (po_order s p)) =
      count_open (po_order s p) 1
        (oop_val il (po_account s) (ord_accountId (po_order s p)) (ord_instrumentId (po_order s p)))"
    and "ord_accountId (po_order s1 p) = ord_accountId (po_order s p)"
    and "ord_instrumentId (po_order s1 p) = ord_instrumentId (po_order s p)"
    and "ord_qty (po_order s1 p) = ord_qty (po_order s p)"
    and "ord_side (po_order s1 p) = ord_side (po_order s p)"
    and "oop_ok (po_account s1)"
proof -
  note s1 = po_sendNew_acceptedD(1) [OF acc] and ok = po_inv_books(2) [OF inv]
  have "count_open ((po_order s p)\<lparr>ord_action := kOrNew, ord_state := kPending\<rparr>) 1 = count_open (po_order s p) 1"
    by (rule count_open_cong) simp_all
  then show "oop_val il (po_account s1) (ord_accountId (po_order s p)) (ord_instrumentId (po_order s p)) =
      count_open (po_order s p) 1
        (oop_val il (po_account s) (ord_accountId (po_order s p)) (ord_instrumentId (po_order s p)))"
    by (simp add: s1 po_changeOpenOrdersCounts_def Let_def oop.val_upd [OF ok])
  show "oop_ok (po_account s1)"
    by (simp add: s1 po_changeOpenOrdersCounts_def Let_def oop.upd_ok [OF ok])
  show "ord_accountId (po_order s1 p) = ord_accountId (po_order s p)"
    "ord_instrumentId (po_order s1 p) = ord_instrumentId (po_order s p)"
    "ord_qty (po_order s1 p) = ord_qty (po_order s p)" "ord_side (po_order s1 p) = ord_side (po_order s p)"
    by (simp_all add: s1)
qed

lemma fresh_qty:
  assumes "fresh_order s p" and "po_sendNew il p s = (s1, None)"
  shows "tw_sub (ord_qty (po_order s p)) (ord_cumQty (po_order s p)) = ord_qty (po_order s p)"
    and "tw_ok (ord_qty (po_order s p))" and "open_qty (po_order s p) = ord_qty (po_order s p)"
  using assms(1) po_sendNew_acceptedD(3) [OF assms(2)]
  by (auto simp: fresh_order_def wrap_simps tw_ok_iff INT32_MAX_def open_qty_def)

lemma s32_assoc: "s32 (s32 a + (b + q)) = s32 (s32 (s32 a + b) + q)"
  by (metis s32_add_left add.assoc)

lemma exposure_counted:
  assumes inv: "po_inv il s" and fresh: "fresh_order s p" and room: "room_for s (po_order s p)"
    and acc: "po_sendNew il p s = (s1, None)"
  shows "rk_exposure (ord_side (po_order s p)) (count_open (po_order s p) 1
      (oop_val il (po_account s) (ord_accountId (po_order s p)) (ord_instrumentId (po_order s p)))) =
    map_option (\<lambda>e. s32 (e + ord_qty (po_order s p)))
      (rk_exposure (ord_side (po_order s p))
        (oop_val il (po_account s) (ord_accountId (po_order s p)) (ord_instrumentId (po_order s p))))"
proof -
  let ?v = "oop_val il (po_account s) (ord_accountId (po_order s p)) (ord_instrumentId (po_order s p))"
  note q = fresh_qty [OF fresh acc]
  have "tw_ok (iop_bids ?v)" "tw_ok (iop_asks ?v)"
    using po_inv_side_ok(1) [OF inv, of kBuy] po_inv_side_ok(1) [OF inv, of kSell]
    by (auto simp: side_count_def)
  moreover have "ord_side (po_order s p) = kBuy \<Longrightarrow> tw_ok (iop_bids ?v + ord_qty (po_order s p))"
    "ord_side (po_order s p) = kSell \<Longrightarrow> tw_ok (iop_asks ?v + ord_qty (po_order s p))"
    using room po_inv_side_ok(2) [OF inv, of kBuy "ord_accountId (po_order s p)" "ord_instrumentId (po_order s p)"]
      po_inv_side_ok(2) [OF inv, of kSell "ord_accountId (po_order s p)" "ord_instrumentId (po_order s p)"]
    by (auto simp: room_for_def q(3) side_count_def)
  ultimately show ?thesis
    using q s32_assoc [of "- iop_pos ?v" "iop_asks ?v" "ord_qty (po_order s p)"]
    by (cases "ord_side (po_order s p)")
      (simp_all add: rk_exposure_def count_open_def wrap_simps add.assoc del: s32_add_left s32_add_right, metis s32_add_left add.assoc)
qed

text \<open>
  C30: asking \<open>canSend\<close> for an order and sending it give the same answer: \<open>canSend\<close>
  on the counters before the order is true exactly when the risk stage accepts the order after
  \<open>ProcessorOrders\<close> counted it, wrap-around included.
\<close>

theorem canSend_predicts_sendNew:
  assumes "po_reachable il s" and "fresh_order s p" and "room_for s (po_order s p)"
    and "po_sendNew il p s = (s1, None)"
  shows "snd (rk_canSend_order il r p s) \<longleftrightarrow> snd (rk_sendNew il r p s1) = None"
proof -
  have inv: "po_inv il s" by (rule po_reachable_inv [OF assms(1)])
  note c = sendNew_counted [OF inv assms(2-4)]
  show ?thesis
    unfolding rk_canSend_order_def Let_def rk_canSend_iff [OF po_inv_books(2) [OF inv]]
      rk_sendNew_accepts_iff [OF c(6)] c(2-5) c(1) exposure_counted [OF inv assms(2-4)]
    by auto
qed

text \<open>
  When the risk stage lets a counted buy order through, the account's position plus all its
  open buy orders in the instrument, the new one included, is within the configured maximum
  position, and the order is within the clip size (provided that sum fits 32 bits: the check
  itself is done in 32-bit arithmetic).
\<close>

theorem risk_pass_bounds_position:
  assumes "po_reachable il s" and "snd (rk_sendNew il r p s) = None" and "ord_side (po_order s p) = kBuy"
    and "sm_find (rk_params r) (ord_instrumentId (po_order s p)) = Some x"
    and "uint (arp_maxPos x) < 2147483648" and "uint (arp_clipSize x) < 2147483648"
    and "in_s32 (iop_pos (oop_val il (po_account s) (ord_accountId (po_order s p)) (ord_instrumentId (po_order s p))) +
      (\<Sum>q\<leftarrow>po_getAll s. contrib ord_accountId kBuy (ord_accountId (po_order s p)) (ord_instrumentId (po_order s p)) (po_order s q)))"
  shows "iop_pos (oop_val il (po_account s) (ord_accountId (po_order s p)) (ord_instrumentId (po_order s p))) +
      (\<Sum>q\<leftarrow>po_getAll s. contrib ord_accountId kBuy (ord_accountId (po_order s p)) (ord_instrumentId (po_order s p)) (po_order s q))
      \<le> uint (arp_maxPos x) \<and> ord_qty (po_order s p) \<le> uint (arp_clipSize x)"
proof -
  have inv: "po_inv il s" by (rule po_reachable_inv [OF assms(1)])
  let ?a = "ord_accountId (po_order s p)" and ?i = "ord_instrumentId (po_order s p)"
  have bids: "iop_bids (oop_val il (po_account s) ?a ?i) =
      (\<Sum>q\<leftarrow>po_getAll s. contrib ord_accountId kBuy ?a ?i (po_order s q))"
    using po_inv_account_counts [OF inv, of kBuy ?a ?i] po_account_val [OF inv] by (simp add: side_count_def)
  from rk_sendNew_accepts_iff [OF po_inv_books(2) [OF inv], of il r p] assms(2-4)
  have "s32 (iop_pos (oop_val il (po_account s) ?a ?i) + iop_bids (oop_val il (po_account s) ?a ?i)) \<le> as_int32 (arp_maxPos x)"
    "ord_qty (po_order s p) \<le> as_int32 (arp_clipSize x)"
    by (auto simp: tradeable_params_def rk_exposure_def split: if_splits)
  then show ?thesis using assms(5-7) by (simp add: bids as_int32_small s32_exact)
qed

subsection \<open>Witnesses\<close>

definition ex_risk :: "int rk_state" where
  "ex_risk = \<lparr>rk_account = account_clear\<lparr>acc_id := 1, acc_tradeEnabled := True\<rparr>,
     rk_params = [(3, \<lparr>arp_accountId = 1, arp_displayName = ''ES'', arp_exchange = kCME, arp_clipSize = 10,
       arp_maxPos = 7, arp_tradeEnabled = True\<rparr>)]\<rparr>"

theorem canSend_predicts_sendNew_witness:
  "snd (rk_canSend_order ex_lookup ex_risk 0 ex_init) \<longleftrightarrow> snd (rk_sendNew ex_lookup ex_risk 0 ex_state) = None"
proof -
  have "po_reachable ex_lookup ex_init" unfolding ex_init_def by (rule po_reachable.reach_init)
  from canSend_predicts_sendNew [OF this ex_room ex_sendNew] show ?thesis .
qed

lemma ex_risk_accepts: "snd (rk_sendNew ex_lookup ex_risk 0 ex_state) = None"
  using rk_sendNew_accepts_iff [OF po_inv_books(2) [OF po_reachable_inv [OF ex_state_reachable]], of ex_lookup ex_risk 0]
  by (simp add: ex_state_eq ex_account ex_order_def order_default_def ex_risk_def tradeable_params_def
      account_clear_def rk_exposure_def as_int32_def s32_def)

theorem risk_pass_bounds_position_witness:
  "(\<Sum>q\<leftarrow>po_getAll ex_state. contrib ord_accountId kBuy 1 3 (po_order ex_state q)) \<le> 7"
proof -
  have ids: "ord_accountId (po_order ex_state 0) = 1" "ord_instrumentId (po_order ex_state 0) = 3"
      "ord_side (po_order ex_state 0) = kBuy"
    by (simp_all add: ex_state_eq ex_order_def)
  have sum: "(\<Sum>q\<leftarrow>po_getAll ex_state. contrib ord_accountId kBuy 1 3 (po_order ex_state q)) = 5"
    by (simp add: po_getAll_eq ex_state_eq contrib_def open_qty_def) (simp add: ex_defs)
  from risk_pass_bounds_position [OF ex_state_reachable ex_risk_accepts ids(3), unfolded ids]
  show ?thesis by (simp add: ex_risk_def ex_account sum in_s32_def INT32_MIN_def INT32_MAX_def)
qed

end
