(* ===== verification/ProcessorPnL.thy ===== *)
theory ProcessorPnL
  imports PnL ProcessorRisk
begin

section \<open>ProcessorPnL: profit and loss limits (channel\_or/processor\_pnl.cpp, common\_trade/pnlComposite.h)\<close>

text \<open>
  A tree of profit-and-loss objects: one \<open>PnL\<close> per strategy and instrument, a
  \<open>PnLComposite\<close> per strategy that observes them, and one for the account that observes
  the strategies. Each leaf change is bracketed by \<open>preProcess\<close> (take the leaf out of every
  composite above it) and \<open>postProcess\<close> (put it back and update maxima and drawdowns).
  A composite is the base record of the leaf; its component list is the leaf map of its strategy.
\<close>

record 'd strat_pnl =
  sp_instrumentsPnL :: "(instr_id, 'd pnl) stdmap"
  sp_stratPnL :: "'d ipnl"
  sp_limits :: "'d strategy_limits"

record 'd pp_state =
  pp_printPnL :: bool
  pp_account :: "'d account"
  pp_accountPnL :: "'d ipnl"
  pp_stratsPnL :: "(strategy_id, 'd strat_pnl) stdmap"

definition ipnl_clear :: "('d::zero) ipnl" where
  "ipnl_clear = \<lparr>ip_pnl = pnl_info_clear, ip_fees = fees_clear\<rparr>"

definition limits_clear :: "('d::zero) strategy_limits" where
  "limits_clear = \<lparr>str_id = 0, str_name = '''', str_accountId = 0, str_maxRealizedDrawdown = 0,
     str_maxUnrealizedDrawdown = 0, str_maxRealizedLoss = 0, str_maxUnrealizedLoss = 0,
     str_lastStarted = '''', str_tradeEnabled = False\<rparr>"

definition strat_pnl_clear :: "('d::zero) strat_pnl" where
  "strat_pnl_clear = \<lparr>sp_instrumentsPnL = [], sp_stratPnL = ipnl_clear, sp_limits = limits_clear\<rparr>"

definition pp_clear :: "('d::zero) pp_state" where
  "pp_clear = \<lparr>pp_printPnL = False, pp_account = account_clear, pp_accountPnL = ipnl_clear, pp_stratsPnL = []\<rparr>"

definition pp_stop :: "('d::zero) pp_state \<Rightarrow> 'd pp_state" where
  "pp_stop s = pp_clear"

definition pp_getRej :: "eRejectReason \<Rightarrow> reject" where
  "pp_getRej r = internal_rej kProcessorPnL r"

subsection \<open>Composites\<close>

definition ip_base :: "'d pnl \<Rightarrow> 'd ipnl" where
  "ip_base c = \<lparr>ip_pnl = ip_pnl c, ip_fees = ip_fees c\<rparr>"

definition comp_preProcess :: "('d::floor_ceiling) ipnl \<Rightarrow> 'd ipnl \<Rightarrow> 'd ipnl" where
  "comp_preProcess c k =
     \<lparr>ip_pnl = (ip_pnl k)\<lparr>pi_unrealizedPnL := pi_unrealizedPnL (ip_pnl k) - pi_unrealizedPnL (ip_pnl c),
        pi_realizedPnL := pi_realizedPnL (ip_pnl k) - pi_realizedPnL (ip_pnl c),
        pi_position := size_sub_eq (pi_position (ip_pnl k)) (pi_position (ip_pnl c))\<rparr>,
      ip_fees = fees_sub (ip_fees k) (ip_fees c)\<rparr>"

definition comp_isFlat :: "bool \<Rightarrow> 'd pnl_info \<Rightarrow> bool" where
  "comp_isFlat components_flat p = (if pi_position p \<noteq> 0 then False else components_flat)"

definition comp_postProcess :: "bool \<Rightarrow> ('d::floor_ceiling) ipnl \<Rightarrow> 'd ipnl \<Rightarrow> 'd ipnl" where
  "comp_postProcess components_flat c k =
     (let p1 = (ip_pnl k)\<lparr>pi_unrealizedPnL := pi_unrealizedPnL (ip_pnl k) + pi_unrealizedPnL (ip_pnl c),
                 pi_realizedPnL := pi_realizedPnL (ip_pnl k) + pi_realizedPnL (ip_pnl c),
                 pi_position := size_add_eq (pi_position (ip_pnl k)) (pi_position (ip_pnl c))\<rparr>;
          p2 = ip_updateRealizedPnL p1;
          p3 = ip_updateUnrealizedPnL (\<not> comp_isFlat components_flat p2) p2
      in \<lparr>ip_pnl = p3, ip_fees = fees_add (ip_fees k) (ip_fees c)\<rparr>)"

subsection \<open>The tree\<close>

definition pp_getOrCreateStrat :: "('d::floor_ceiling) pp_state \<Rightarrow> strategy_id \<Rightarrow> 'd pp_state \<times> 'd strat_pnl" where
  "pp_getOrCreateStrat s x =
     (let (m, sp) = sm_get_or_create (pp_stratsPnL s) x strat_pnl_clear in (s\<lparr>pp_stratsPnL := m\<rparr>, sp))"

definition pp_getOrCreatePnl ::
    "('d::floor_ceiling) pp_state \<Rightarrow> strategy_id \<Rightarrow> instr_id \<Rightarrow> 'd pp_state \<times> 'd pnl" where
  "pp_getOrCreatePnl s x y =
     (let (s1, sp) = pp_getOrCreateStrat s x;
          (m, c) = sm_get_or_create (sp_instrumentsPnL sp) y pnl_clear
      in (s1\<lparr>pp_stratsPnL := sm_assign (pp_stratsPnL s1) x (sp\<lparr>sp_instrumentsPnL := m\<rparr>)\<rparr>, c))"

text \<open>A write to the strategy's entry, and to one of its leaves, through the references above.\<close>

definition pp_upd_strat :: "strategy_id \<Rightarrow> ('d strat_pnl \<Rightarrow> 'd strat_pnl) \<Rightarrow> 'd pp_state \<Rightarrow> 'd pp_state" where
  "pp_upd_strat x f s =
     (case sm_find (pp_stratsPnL s) x of
        None \<Rightarrow> s
      | Some sp \<Rightarrow> s\<lparr>pp_stratsPnL := sm_assign (pp_stratsPnL s) x (f sp)\<rparr>)"

definition pp_store :: "strategy_id \<Rightarrow> instr_id \<Rightarrow> 'd pnl \<Rightarrow> 'd pp_state \<Rightarrow> 'd pp_state" where
  "pp_store x y c s = pp_upd_strat x (\<lambda>sp. sp\<lparr>sp_instrumentsPnL := sm_assign (sp_instrumentsPnL sp) y c\<rparr>) s"

definition pp_preProcess :: "strategy_id \<Rightarrow> ('d::floor_ceiling) pnl \<Rightarrow> 'd pp_state \<Rightarrow> 'd pp_state" where
  "pp_preProcess x c s =
     (let s1 = pp_upd_strat x (\<lambda>sp. sp\<lparr>sp_stratPnL := comp_preProcess (ip_base c) (sp_stratPnL sp)\<rparr>) s
      in s1\<lparr>pp_accountPnL := comp_preProcess (ip_base c) (pp_accountPnL s1)\<rparr>)"

definition leaf_flat :: "'d pnl \<Rightarrow> bool" where
  "leaf_flat c \<longleftrightarrow> 0 = pi_position (ip_pnl c)"

definition strat_leaves_flat :: "'d strat_pnl \<Rightarrow> bool" where
  "strat_leaves_flat sp = list_all (\<lambda>e. leaf_flat (snd e)) (sp_instrumentsPnL sp)"

definition strat_isFlat :: "'d strat_pnl \<Rightarrow> bool" where
  "strat_isFlat sp = comp_isFlat (strat_leaves_flat sp) (ip_pnl (sp_stratPnL sp))"

definition pp_postProcess :: "strategy_id \<Rightarrow> instr_id \<Rightarrow> ('d::floor_ceiling) pnl \<Rightarrow> 'd pp_state \<Rightarrow> 'd pp_state" where
  "pp_postProcess x y c s =
     (let s1 = pp_store x y c s;
          s2 = pp_upd_strat x (\<lambda>sp. sp\<lparr>sp_stratPnL :=
                 comp_postProcess (strat_leaves_flat sp) (ip_base c) (sp_stratPnL sp)\<rparr>) s1
      in s2\<lparr>pp_accountPnL := comp_postProcess (list_all (\<lambda>e. strat_isFlat (snd e)) (pp_stratsPnL s2))
             (ip_base c) (pp_accountPnL s2)\<rparr>)"

definition pp_init :: "'d account \<Rightarrow> 'd strategy_limits list \<Rightarrow> ('d::floor_ceiling) pp_state \<Rightarrow> 'd pp_state" where
  "pp_init a strats s =
     fold (\<lambda>lim s. if str_tradeEnabled lim
                   then pp_upd_strat (str_id lim) (\<lambda>sp. sp\<lparr>sp_limits := lim\<rparr>) (fst (pp_getOrCreateStrat s (str_id lim)))
                   else s) strats (s\<lparr>pp_account := a\<rparr>)"

subsection \<open>Events\<close>

definition pp_onFill :: "'d instr_lookup \<Rightarrow> 'd fill \<Rightarrow> ('d::floor_ceiling) pp_state \<Rightarrow> 'd pp_state \<times> 'd fill" where
  "pp_onFill il f s =
     (if fl_accountId f \<noteq> acc_id (pp_account s) then (s, f)
      else
        (let x = fl_strategyId f; y = fl_instrumentId f;
             (s1, c) = pp_getOrCreatePnl s x y;
             (c1, s2, f1) = pn_onFill il (pp_preProcess x) (pp_postProcess x y) f (c, s1)
         in (pp_store x y c1 s2, f1\<lparr>fl_posStrategy := pi_position (ip_pnl c1)\<rparr>)))"

definition pp_recordFill :: "'d instr_lookup \<Rightarrow> 'd fill \<Rightarrow> ('d::floor_ceiling) pp_state \<Rightarrow> 'd pp_state \<times> 'd fill" where
  "pp_recordFill il f s = pp_onFill il f s"

definition pp_onTv :: "'d instr_lookup \<Rightarrow> strategy_id \<Rightarrow> instr_id \<Rightarrow> 'd itv \<Rightarrow> ('d::floor_ceiling) pp_state \<Rightarrow> 'd pp_state" where
  "pp_onTv il x y t s =
     (let (s1, c) = pp_getOrCreatePnl s x y;
          (c1, s2) = pn_onTv il (pp_preProcess x) (pp_postProcess x y) t (c, s1)
      in pp_store x y c1 s2)"

definition pp_rebuildPos :: "'d instr_lookup \<Rightarrow> 'd pos_update \<Rightarrow> ('d::floor_ceiling) pp_state \<Rightarrow> 'd pp_state" where
  "pp_rebuildPos il u s =
     (if pu_accountId u \<noteq> acc_id (pp_account s) then s
      else case il_getByDisplayName il (pu_displayName u) of
             None \<Rightarrow> s
           | Some i \<Rightarrow>
               if \<not> ins_isValid i then s
               else
                 (let x = pu_strategyId u; y = ins_keyId i;
                      (s1, c) = pp_getOrCreatePnl s x y;
                      (c1, s2) = pn_rebuildPos il (pp_preProcess x) (pp_postProcess x y) u (c, s1)
                  in pp_store x y c1 s2))"

definition pp_isToReject :: "'d order \<Rightarrow> int \<Rightarrow> bool" where
  "pp_isToReject ord pos =
     (if pos = 0 then True
      else if pos > 0 \<and> ord_side ord = kBuy then True
      else if pos < 0 \<and> ord_side ord = kSell then True
      else False)"

definition pp_isAccountTotalLossReached :: "('d::floor_ceiling) pp_state \<Rightarrow> bool" where
  "pp_isAccountTotalLossReached s =
     (let a = pp_accountPnL s;
          fees_amount = fees_total (ip_fees a);
          pnl_amount = - (pi_realizedPnL (ip_pnl a) + pi_unrealizedPnL (ip_pnl a))
      in pnl_amount + fees_amount > acc_maxTotalLoss (pp_account s))"

text \<open>The five account checks, in order: the first limit that is exceeded decides.\<close>

definition pp_account_breach :: "('d::floor_ceiling) pp_state \<Rightarrow> eRejectReason option" where
  "pp_account_breach s =
     (let a = pp_accountPnL s; acc = pp_account s; fees_amount = fees_total (ip_fees a) in
      if - 1 * pi_realizedPnL (ip_pnl a) + fees_amount > acc_maxRealizedLoss acc then Some kMaxRealizedLossAccount
      else if - 1 * pi_unrealizedPnL (ip_pnl a) + fees_amount > acc_maxUnrealizedLoss acc then Some kMaxUnrealizedLossAccount
      else if pp_isAccountTotalLossReached s then Some kMaxTotalLossAccount
      else if pi_maxRealizedDrawdown (ip_pnl a) + fees_amount > acc_maxRealizedDrawdown acc then Some kMaxRealizedDrawdownAccount
      else if pi_maxUnrealizedDrawdown (ip_pnl a) + fees_amount > acc_maxUnrealizedDrawdown acc then Some kMaxUnrealizedDrawdownAccount
      else None)"

definition pp_strat_breach :: "('d::floor_ceiling) strat_pnl \<Rightarrow> eRejectReason option" where
  "pp_strat_breach sp =
     (let a = sp_stratPnL sp; lim = sp_limits sp; fees_amount = fees_total (ip_fees a) in
      if - 1 * pi_realizedPnL (ip_pnl a) + fees_amount > str_maxRealizedLoss lim then Some kMaxRealizedLossStrategy
      else if - 1 * pi_unrealizedPnL (ip_pnl a) + fees_amount > str_maxUnrealizedLoss lim then Some kMaxUnrealizedLossStrategy
      else if pi_maxRealizedDrawdown (ip_pnl a) + fees_amount > str_maxRealizedDrawdown lim then Some kMaxRealizedDrawdownStrategy
      else if pi_maxUnrealizedDrawdown (ip_pnl a) + fees_amount > str_maxUnrealizedDrawdown lim then Some kMaxUnrealizedDrawdownStrategy
      else None)"

text \<open>
  \<open>sendNew\<close>: \<open>tvs\<close> is the table of theoretical values. After an account limit
  only the account position decides; after a strategy limit each further strategy check asks the
  same question about the strategy's position, so the first exceeded limit decides there too.
\<close>

definition pp_sendNew ::
    "'d instr_lookup \<Rightarrow> (instr_id \<Rightarrow> 'd itv) \<Rightarrow> optr \<Rightarrow> ('d::floor_ceiling) po_state \<Rightarrow> 'd pp_state \<Rightarrow>
     'd po_state \<times> 'd pp_state \<times> reject option" where
  "pp_sendNew il tvs p po s =
     (let ord = po_order po p; x = ord_strategyId ord; y = ord_instrumentId ord;
          s1 = pp_onTv il x y (tvs y) s in
      case pp_account_breach s1 of
        Some reason \<Rightarrow>
          (let (po1, v) = po_getInstrOpenOrdersPosForAccountInstr il po (ord_accountId ord) y in
           (po1, s1, if pp_isToReject ord (iop_pos v) then Some (pp_getRej reason) else None))
      | None \<Rightarrow>
          (let (s2, sp) = pp_getOrCreateStrat s1 x;
               pos = (case sm_find (sp_instrumentsPnL sp) y of None \<Rightarrow> 0 | Some c \<Rightarrow> pi_position (ip_pnl c)) in
           case pp_strat_breach sp of
             Some reason \<Rightarrow> (po, s2, if pp_isToReject ord pos then Some (pp_getRej reason) else None)
           | None \<Rightarrow> (po, s2, None)))"

definition sp_getLongsShorts :: "'d strat_pnl \<Rightarrow> size \<times> size" where
  "sp_getLongsShorts sp =
     fold (\<lambda>e (l, sh). let pos = pi_position (ip_pnl (snd e)) in
             if pos > 0 then (size_add_eq l pos, sh) else (l, size_add_eq sh pos))
       (sp_instrumentsPnL sp) (0, 0)"

definition pp_getAccountLongsShorts :: "'d pp_state \<Rightarrow> size \<times> size" where
  "pp_getAccountLongsShorts s =
     fold (\<lambda>e (l, sh). let (a, b) = sp_getLongsShorts (snd e) in (size_add_eq l a, size_add_eq sh b))
       (pp_stratsPnL s) (0, 0)"

definition pp_updatePnLForTvForStratInstrument ::
    "'d instr_lookup \<Rightarrow> (instr_id \<Rightarrow> 'd itv) \<Rightarrow> instr_id \<Rightarrow> ('d::floor_ceiling) pp_state \<Rightarrow> 'd pp_state" where
  "pp_updatePnLForTvForStratInstrument il tvs instrId s =
     fold (\<lambda>(x, sp) s. fold (\<lambda>(y, c) s.
         (case pn_instrument c of
            None \<Rightarrow> s
          | Some i \<Rightarrow> if instrId = ins_keyId i then pp_onTv il x y (tvs (ins_keyId i)) s else s))
       (sp_instrumentsPnL sp) s) (pp_stratsPnL s) s"

end
