(* ===== verification/PnLTree.thy ===== *)
theory PnLTree
  imports ProcessorPnL
begin

section \<open>The account's profit and loss is the sum of its leaves\<close>

text \<open>
  \<open>preProcess\<close> and \<open>postProcess\<close> maintain the composites incrementally. A
  \<open>pnl_measure\<close> is a quantity they add up (realized profit, unrealized profit, fees); for
  each of them the strategy's composite is the sum over its instruments and the account's
  composite the sum over all strategies, after every fill, theoretical value and rebuilt
  position. While one leaf is being processed the composites above it are off by a known amount,
  the \<open>d\<close> of \<open>agg\<close>.
\<close>

lemma sum_list_sm_assign:
  fixes f :: "'k \<times> 'v \<Rightarrow> 'd::ab_group_add"
  assumes "sm_find m k = Some v"
  shows "(\<Sum>e\<leftarrow>sm_assign m k w. f e) = (\<Sum>e\<leftarrow>m. f e) - f (k, v) + f (k, w)"
  using assms by (induction m) (auto split: if_splits simp: algebra_simps)

lemma sum_list_sm_insert_group:
  fixes f :: "'k::linorder \<times> 'v \<Rightarrow> 'd::ab_group_add"
  assumes "sm_find m k = None"
  shows "(\<Sum>e\<leftarrow>sm_insert m k v. f e) = (\<Sum>e\<leftarrow>m. f e) + f (k, v)"
  using assms by (induction m) (auto split: if_splits simp: algebra_simps)

lemma sum_list_neutral:
  fixes f :: "'a \<Rightarrow> 'd::ab_group_add"
  shows "(\<And>e. e \<in> set xs \<Longrightarrow> f e = 0) \<Longrightarrow> (\<Sum>e\<leftarrow>xs. f e) = 0"
  by (induction xs) auto

lemma sm_assign_same: "sm_find m k = Some v \<Longrightarrow> sm_assign m k v = m"
  by (induction m) (auto split: if_splits)

definition leaf_sum :: "('d::floor_ceiling ipnl \<Rightarrow> 'd) \<Rightarrow> 'd strat_pnl \<Rightarrow> 'd" where
  "leaf_sum mu sp = (\<Sum>e\<leftarrow>sp_instrumentsPnL sp. mu (ip_base (snd e)))"

definition tree_sum :: "('d::floor_ceiling ipnl \<Rightarrow> 'd) \<Rightarrow> 'd pp_state \<Rightarrow> 'd" where
  "tree_sum mu s = (\<Sum>e\<leftarrow>pp_stratsPnL s. leaf_sum mu (snd e))"

text \<open>A leaf without a theoretical value is flat; a measure that is reset on flat is zero there.\<close>

definition leaf_ok :: "('d::floor_ceiling ipnl \<Rightarrow> 'd) \<Rightarrow> bool \<Rightarrow> 'd pnl \<Rightarrow> bool" where
  "leaf_ok mu Z c \<longleftrightarrow> (\<not> pn_isTVSet c \<longrightarrow> leaf_flat c) \<and> (Z \<longrightarrow> leaf_flat c \<longrightarrow> mu (ip_base c) = 0)"

definition agg :: "('d::floor_ceiling ipnl \<Rightarrow> 'd) \<Rightarrow> bool \<Rightarrow> strategy_id \<Rightarrow> 'd \<Rightarrow> 'd pp_state \<Rightarrow> bool" where
  "agg mu Z x d s \<longleftrightarrow> sm_ok (pp_stratsPnL s) \<and>
     (\<forall>x' sp. sm_find (pp_stratsPnL s) x' = Some sp \<longrightarrow>
        sm_ok (sp_instrumentsPnL sp) \<and> (\<forall>e \<in> set (sp_instrumentsPnL sp). leaf_ok mu Z (snd e)) \<and>
        mu (sp_stratPnL sp) = leaf_sum mu sp + (if x' = x then d else 0)) \<and>
     mu (pp_accountPnL s) = tree_sum mu s + d"

definition leaf_at :: "'d pp_state \<Rightarrow> strategy_id \<Rightarrow> instr_id \<Rightarrow> 'd pnl option" where
  "leaf_at s x y = (case sm_find (pp_stratsPnL s) x of None \<Rightarrow> None | Some sp \<Rightarrow> sm_find (sp_instrumentsPnL sp) y)"

lemma agg_any: "agg mu Z x 0 s \<longleftrightarrow> agg mu Z x' 0 s"
  by (simp add: agg_def)

subsection \<open>Writes\<close>

lemma upd_strat_simps:
  assumes "sm_find (pp_stratsPnL s) x = Some sp"
  shows "sm_ok (pp_stratsPnL (pp_upd_strat x f s)) \<longleftrightarrow> sm_ok (pp_stratsPnL s)"
    and "pp_accountPnL (pp_upd_strat x f s) = pp_accountPnL s"
    and "sm_find (pp_stratsPnL (pp_upd_strat x f s)) x' =
      (if x' = x then Some (f sp) else sm_find (pp_stratsPnL s) x')"
    and "tree_sum mu (pp_upd_strat x f s) = tree_sum mu s - leaf_sum mu sp + leaf_sum mu (f sp)"
  using assms by (simp_all add: pp_upd_strat_def sm_find_assign tree_sum_def sum_list_sm_assign)

lemma leaf_sum_store:
  "sm_find (sp_instrumentsPnL sp) y = Some c0 \<Longrightarrow>
     leaf_sum mu (sp\<lparr>sp_instrumentsPnL := sm_assign (sp_instrumentsPnL sp) y c\<rparr>) =
     leaf_sum mu sp - mu (ip_base c0) + mu (ip_base c)"
  by (simp add: leaf_sum_def sum_list_sm_assign)

lemma leaf_at_iff:
  "leaf_at s x y = Some c \<longleftrightarrow>
     (\<exists>sp. sm_find (pp_stratsPnL s) x = Some sp \<and> sm_find (sp_instrumentsPnL sp) y = Some c)"
  by (auto simp: leaf_at_def split: option.splits)

lemma pp_store_same: "leaf_at s x y = Some c \<Longrightarrow> pp_store x y c s = s"
  by (auto simp: leaf_at_iff pp_store_def pp_upd_strat_def sm_assign_same)

lemma leaf_at_pre: "leaf_at (pp_preProcess x c s) x y = leaf_at s x y"
  by (auto simp: leaf_at_def pp_preProcess_def Let_def pp_upd_strat_def sm_find_assign split: option.splits)

lemma leaf_at_post: "leaf_at s x y = Some c0 \<Longrightarrow> leaf_at (pp_postProcess x y c s) x y = Some c"
  by (auto simp: leaf_at_iff pp_postProcess_def Let_def pp_store_def pp_upd_strat_def sm_find_assign)

subsection \<open>Measures\<close>

locale pnl_measure =
  fixes mu :: "'d::floor_ceiling ipnl \<Rightarrow> 'd" and Z :: bool
  assumes pre: "mu (comp_preProcess c k) = mu k - mu c"
    and post: "mu (comp_postProcess fl c k) =
      (if Z \<and> fl \<and> size_add_eq (pi_position (ip_pnl k)) (pi_position (ip_pnl c)) = 0 then 0 else mu k + mu c)"
    and clear: "mu ipnl_clear = 0"
    and tv_other: "\<not> Z \<Longrightarrow> mu (ip_base (pn_updateUnrealizedPnL l)) = mu (ip_base l)"
    and tv_flat: "Z \<Longrightarrow> leaf_flat l \<Longrightarrow> mu (ip_base (pn_updateUnrealizedPnL l)) = 0"
    and fees_flat: "Z \<Longrightarrow> leaf_flat l \<Longrightarrow> mu (ip_base (pn_updateFees q li (pn_updateUnrealizedPnL l))) = 0"
begin

lemma agg_pre:
  assumes a: "agg mu Z x d s" and x: "sm_find (pp_stratsPnL s) x = Some sp"
  shows "agg mu Z x (d - mu (ip_base c)) (pp_preProcess x c s)"
proof -
  let ?f = "\<lambda>sp. sp\<lparr>sp_stratPnL := comp_preProcess (ip_base c) (sp_stratPnL sp)\<rparr>"
  note u = upd_strat_simps [where f = ?f, OF x]
  have "leaf_sum mu (?f sp) = leaf_sum mu sp" for sp by (simp add: leaf_sum_def)
  moreover have "tree_sum mu (s\<lparr>pp_accountPnL := k\<rparr>) = tree_sum mu s" for s k by (simp add: tree_sum_def)
  ultimately show ?thesis
    using a x by (auto simp: agg_def pp_preProcess_def Let_def u pre)
qed

lemma flat_leaves_zero:
  assumes "Z" and "strat_leaves_flat sp" and "\<forall>e \<in> set (sp_instrumentsPnL sp). leaf_ok mu Z (snd e)"
  shows "leaf_sum mu sp = 0"
  unfolding leaf_sum_def using assms
  by (intro sum_list_neutral) (auto simp: strat_leaves_flat_def list_all_iff leaf_ok_def)

lemma agg_post:
  assumes a: "agg mu Z x d s" and x: "sm_find (pp_stratsPnL s) x = Some sp"
    and y: "sm_find (sp_instrumentsPnL sp) y = Some c0" and c: "leaf_ok mu Z c"
    and d: "Z \<Longrightarrow> d + mu (ip_base c0) = 0"
  shows "agg mu Z x (d + mu (ip_base c0)) (pp_postProcess x y c s)"
proof -
  define g where "g = (\<lambda>sp. sp\<lparr>sp_instrumentsPnL := sm_assign (sp_instrumentsPnL sp) y c\<rparr> :: 'd strat_pnl)"
  define h where "h = (\<lambda>sp. sp\<lparr>sp_stratPnL := comp_postProcess (strat_leaves_flat sp) (ip_base c) (sp_stratPnL sp)\<rparr> :: 'd strat_pnl)"
  define s2 where "s2 = pp_upd_strat x h (pp_upd_strat x g s)"
  have p: "pp_postProcess x y c s = s2\<lparr>pp_accountPnL := comp_postProcess
      (list_all (\<lambda>e. strat_isFlat (snd e)) (pp_stratsPnL s2)) (ip_base c) (pp_accountPnL s)\<rparr>"
    using x by (simp add: pp_postProcess_def Let_def s2_def g_def h_def pp_store_def pp_upd_strat_def sm_find_assign)
  note u1 = upd_strat_simps [where f = g, OF x]
  have x1: "sm_find (pp_stratsPnL (pp_upd_strat x g s)) x = Some (g sp)" by (simp add: u1)
  note u2 = upd_strat_simps [where f = h, OF x1]
  have ls: "leaf_sum mu (h (g sp)) = leaf_sum mu sp - mu (ip_base c0) + mu (ip_base c)"
    using leaf_sum_store [OF y] by (simp add: g_def h_def leaf_sum_def)
  have tree: "tree_sum mu s2 = tree_sum mu s - mu (ip_base c0) + mu (ip_base c)"
  proof -
    have "leaf_sum mu (h (g sp)) = leaf_sum mu (g sp)" by (simp add: h_def leaf_sum_def)
    then show ?thesis using ls unfolding s2_def u2 u1 by simp
  qed
  have old: "sm_ok (pp_stratsPnL s)" "sm_ok (sp_instrumentsPnL sp)" "\<forall>e \<in> set (sp_instrumentsPnL sp). leaf_ok mu Z (snd e)"
      "mu (sp_stratPnL sp) = leaf_sum mu sp + d" "mu (pp_accountPnL s) = tree_sum mu s + d"
    using a x by (auto simp: agg_def)
  have leaves: "sm_ok (sp_instrumentsPnL (h (g sp)))" "\<forall>e \<in> set (sp_instrumentsPnL (h (g sp))). leaf_ok mu Z (snd e)"
    using old(2,3) c sm_assign_subset [of "sp_instrumentsPnL sp" y c] by (auto simp: g_def h_def)
  have strat: "mu (sp_stratPnL (h (g sp))) = leaf_sum mu (h (g sp)) + (d + mu (ip_base c0))"
  proof (cases "Z \<and> strat_leaves_flat (g sp)")
    case True
    then have "leaf_sum mu (h (g sp)) = 0"
      using leaves by (intro flat_leaves_zero) (auto simp: h_def strat_leaves_flat_def)
    with True d ls old(4) show ?thesis by (simp add: h_def g_def post algebra_simps)
  next
    case False
    then show ?thesis using ls old(4) by (auto simp: h_def g_def post)
  qed
  have fin: "sm_find (pp_stratsPnL s2) x' = (if x' = x then Some (h (g sp)) else sm_find (pp_stratsPnL s) x')" for x'
    by (simp add: s2_def u2 u1)
  have ok2: "sm_ok (pp_stratsPnL s2)" using old(1) by (simp add: s2_def u2 u1)
  have lk: "\<forall>e \<in> set (sp_instrumentsPnL sp'). leaf_ok mu Z (snd e)"
    if "sm_find (pp_stratsPnL s2) x' = Some sp'" for x' sp'
    using that a leaves by (auto simp: fin agg_def split: if_splits)
  have acct: "mu (comp_postProcess fl (ip_base c) (pp_accountPnL s)) = tree_sum mu s2 + (d + mu (ip_base c0))"
    if fl: "fl = list_all (\<lambda>e. strat_isFlat (snd e)) (pp_stratsPnL s2)" for fl
  proof (cases "Z \<and> fl")
    case True
    have "leaf_sum mu (snd e) = 0" if e: "e \<in> set (pp_stratsPnL s2)" for e
    proof -
      have "sm_find (pp_stratsPnL s2) (fst e) = Some (snd e)" using sm_find_iff [OF ok2] e by simp
      then show ?thesis
        using True fl e lk by (intro flat_leaves_zero) (auto simp: list_all_iff strat_isFlat_def comp_isFlat_def split: if_splits)
    qed
    then have "tree_sum mu s2 = 0" unfolding tree_sum_def by (intro sum_list_neutral) auto
    with True d tree old(5) show ?thesis by (simp add: post algebra_simps)
  next
    case False
    then show ?thesis using tree old(5) by (auto simp: post)
  qed
  have ts: "tree_sum mu (s2\<lparr>pp_accountPnL := k\<rparr>) = tree_sum mu s2" for k by (simp add: tree_sum_def)
  show ?thesis
    unfolding p agg_def using ok2 leaves strat a by (auto simp: fin ts acct agg_def)
qed


lemma leaf_ok_clear: "leaf_ok mu Z pnl_clear"
proof -
  have "ip_base (pnl_clear :: 'd pnl) = ipnl_clear" by (simp add: ip_base_def pnl_clear_def ipnl_clear_def)
  then show ?thesis by (simp add: leaf_ok_def clear leaf_flat_def pnl_clear_def pnl_info_clear_def)
qed

lemma agg_getOrCreateStrat:
  assumes a: "agg mu Z x 0 s" and g: "pp_getOrCreateStrat s x = (s1, sp)"
  shows "agg mu Z x 0 s1" and "sm_find (pp_stratsPnL s1) x = Some sp"
proof -
  have ok: "sm_ok (pp_stratsPnL s)" using a by (simp add: agg_def)
  have l0: "leaf_sum mu strat_pnl_clear = 0" "mu (sp_stratPnL strat_pnl_clear) = 0"
      "sp_instrumentsPnL (strat_pnl_clear :: 'd strat_pnl) = []"
    by (simp_all add: leaf_sum_def strat_pnl_clear_def clear)
  show "agg mu Z x 0 s1"
  proof (cases "sm_find (pp_stratsPnL s) x")
    case None
    then have s1: "s1 = s\<lparr>pp_stratsPnL := sm_insert (pp_stratsPnL s) x strat_pnl_clear\<rparr>"
      using g by (simp add: pp_getOrCreateStrat_def sm_get_or_create_def)
    have "tree_sum mu s1 = tree_sum mu s"
      by (simp add: s1 tree_sum_def sum_list_sm_insert_group [OF None] l0)
    then show ?thesis
      using a None by (auto simp: agg_def s1 sm_ok_insert sm_find_insert [OF ok] l0 split: if_splits)
  next
    case (Some sp')
    then show ?thesis using a g by (simp add: pp_getOrCreateStrat_def sm_get_or_create_def)
  qed
  show "sm_find (pp_stratsPnL s1) x = Some sp"
    using g sm_get_or_create_find [OF ok, of x strat_pnl_clear]
    by (auto simp: pp_getOrCreateStrat_def split: prod.splits)
qed

lemma agg_getOrCreatePnl:
  assumes a: "agg mu Z x 0 s" and g: "pp_getOrCreatePnl s x y = (s1, c)"
  shows "agg mu Z x 0 s1" and "leaf_at s1 x y = Some c" and "leaf_ok mu Z c"
proof -
  obtain s0 sp where g0: "pp_getOrCreateStrat s x = (s0, sp)" by (rule prod.exhaust)
  note a0 = agg_getOrCreateStrat [OF a g0]
  obtain m c' where g1: "sm_get_or_create (sp_instrumentsPnL sp) y pnl_clear = (m, c')" by (rule prod.exhaust)
  have c': "c' = c" and s1: "s1 = pp_upd_strat x (\<lambda>sp. sp\<lparr>sp_instrumentsPnL := m\<rparr>) s0"
    using g g0 g1 a0(2) by (simp_all add: pp_getOrCreatePnl_def pp_upd_strat_def)
  have sp: "sm_ok (sp_instrumentsPnL sp)" "\<forall>e \<in> set (sp_instrumentsPnL sp). leaf_ok mu Z (snd e)"
      "mu (sp_stratPnL sp) = leaf_sum mu sp"
    using a0 by (auto simp: agg_def)
  have m: "sm_ok m" "sm_find m = (sm_find (sp_instrumentsPnL sp))(y := Some c)"
    using sm_get_or_create_ok [OF sp(1), of y pnl_clear] sm_get_or_create_find [OF sp(1), of y pnl_clear] g1 c' by simp_all
  have zero: "mu (ip_base (pnl_clear :: 'd pnl)) = 0"
    by (simp add: ip_base_def pnl_clear_def clear [unfolded ipnl_clear_def])
  have ms: "\<forall>e \<in> set m. leaf_ok mu Z (snd e)" "leaf_sum mu (sp\<lparr>sp_instrumentsPnL := m\<rparr>) = leaf_sum mu sp"
  proof -
    have "(\<forall>e \<in> set m. leaf_ok mu Z (snd e)) \<and> leaf_sum mu (sp\<lparr>sp_instrumentsPnL := m\<rparr>) = leaf_sum mu sp"
    proof (cases "sm_find (sp_instrumentsPnL sp) y")
      case None
      then have "m = sm_insert (sp_instrumentsPnL sp) y pnl_clear" using g1 by (simp add: sm_get_or_create_def)
      then show ?thesis
        using sp(2) leaf_ok_clear sm_insert_subset [of "sp_instrumentsPnL sp" y pnl_clear]
        by (auto simp: leaf_sum_def sum_list_sm_insert_group [OF None] zero)
    next
      case (Some v)
      then have "m = sp_instrumentsPnL sp" using g1 by (simp add: sm_get_or_create_def)
      then show ?thesis using sp(2) by (simp add: leaf_sum_def)
    qed
    then show "\<forall>e \<in> set m. leaf_ok mu Z (snd e)" "leaf_sum mu (sp\<lparr>sp_instrumentsPnL := m\<rparr>) = leaf_sum mu sp" by simp_all
  qed
  note u = upd_strat_simps [where f = "\<lambda>sp. sp\<lparr>sp_instrumentsPnL := m\<rparr>", OF a0(2)]
  show "agg mu Z x 0 s1" using a0(1) m ms sp by (auto simp: agg_def s1 u)
  show "leaf_at s1 x y = Some c" by (simp add: leaf_at_iff s1 u m)
  show "leaf_ok mu Z c" using ms(1) m sm_find_in_set [of m y c] by force
qed

lemma agg_setTv:
  assumes a: "agg mu Z x d s" and l: "leaf_at s x y = Some c0" and b: "ip_base c = ip_base c0"
    and c: "leaf_ok mu Z c" and d: "Z \<Longrightarrow> d = 0"
    and r: "pn_setTv (pp_preProcess x) (pp_postProcess x y) tv (c, s) = (c1, s1)"
  shows "agg mu Z x d s1" and "leaf_at s1 x y = Some c1" and "leaf_ok mu Z c1"
proof -
  have c1: "c1 = pn_updateUnrealizedPnL (c\<lparr>pn_tv := tv, pn_isTVSet := True\<rparr>)"
    and s1: "s1 = pp_postProcess x y c1 (pp_preProcess x c s)"
    using r by (auto simp: pn_setTv_def Let_def)
  show ok1: "leaf_ok mu Z c1" using tv_flat by (auto simp: c1 leaf_ok_def leaf_flat_def)
  have lp: "leaf_at (pp_preProcess x c s) x y = Some c0" using l by (simp add: leaf_at_pre)
  then obtain sp where sp: "sm_find (pp_stratsPnL (pp_preProcess x c s)) x = Some sp" "sm_find (sp_instrumentsPnL sp) y = Some c0"
    by (auto simp: leaf_at_iff)
  obtain sp0 where sp0: "sm_find (pp_stratsPnL s) x = Some sp0" using l by (auto simp: leaf_at_iff)
  have "agg mu Z x (d - mu (ip_base c) + mu (ip_base c0)) s1"
    unfolding s1 by (rule agg_post [OF agg_pre [OF a sp0] sp ok1]) (use d b in auto)
  then show "agg mu Z x d s1" by (simp add: b)
  show "leaf_at s1 x y = Some c1" unfolding s1 by (rule leaf_at_post [OF lp])
qed

lemma setTv_keeps_mu:
  assumes c: "leaf_ok mu Z c" and n: "\<not> pn_isTVSet c"
    and r: "pn_setTv pre' post' tv (c, s) = (c1, s1)"
  shows "mu (ip_base c1) = mu (ip_base c)"
proof -
  have c1: "c1 = pn_updateUnrealizedPnL (c\<lparr>pn_tv := tv, pn_isTVSet := True\<rparr>)"
    using r by (simp add: pn_setTv_def Let_def)
  have b: "ip_base (c\<lparr>pn_tv := tv, pn_isTVSet := True\<rparr>) = ip_base c" by (simp add: ip_base_def)
  show ?thesis
  proof (cases Z)
    case True
    then have "leaf_flat c" "mu (ip_base c) = 0" using c n by (auto simp: leaf_ok_def)
    then show ?thesis using tv_flat [OF True] by (simp add: c1 leaf_flat_def)
  next
    case False
    then show ?thesis using tv_other [OF False] by (simp add: c1 b)
  qed
qed

lemma agg_processFill:
  assumes a: "agg mu Z x 0 s" and l: "leaf_at s x y = Some c" and c: "leaf_ok mu Z c"
    and r: "pn_processFill il (pp_preProcess x) (pp_postProcess x y) b f (c, s) = (c', s', f')"
  shows "agg mu Z x 0 (pp_store x y c' s')"
proof (cases "fst (pn_setInstrument il (fl_instrumentId f) c)")
  case False
  then have "c' = c" "s' = s" using r
    by (auto simp: pn_processFill_def pn_setInstrument_def split: option.splits prod.splits if_splits)
  then show ?thesis using a pp_store_same [OF l] by simp
next
  case True
  then obtain c1 where c1: "pn_setInstrument il (fl_instrumentId f) c = (True, c1)" by (metis prod.collapse)
  then have b1: "ip_base c1 = ip_base c" "pn_isTVSet c1 = pn_isTVSet c"
    by (auto simp: pn_setInstrument_def ip_base_def split: option.splits if_splits)
  have ok1: "leaf_ok mu Z c1" using c b1 by (simp add: leaf_ok_def leaf_flat_def ip_base_def)
  define P where "P = (if b then fl_avgPrice f else (case pn_instrument c1 of None \<Rightarrow> 0 | Some i \<Rightarrow> tc_toExchangePrice (ins_tc i) (fl_price f)))"
  define s1 where "s1 = pp_preProcess x c1 s"
  obtain sp0 where sp0: "sm_find (pp_stratsPnL s) x = Some sp0" using l by (auto simp: leaf_at_iff)
  have a1: "agg mu Z x (- mu (ip_base c)) s1" using agg_pre [OF a sp0, of c1] by (simp add: s1_def b1)
  have l1: "leaf_at s1 x y = Some c" using l by (simp add: s1_def leaf_at_pre)
  obtain c2 s2 where n: "(if \<not> pn_isTVSet c1 then pn_setTv (pp_preProcess x) (pp_postProcess x y) P (c1, s1) else (c1, s1)) = (c2, s2)"
    by (rule prod.exhaust)
  have a2: "agg mu Z x (- mu (ip_base c)) s2 \<and> pn_isTVSet c2 \<and>
      (\<exists>cs. leaf_at s2 x y = Some cs \<and> mu (ip_base cs) = mu (ip_base c))"
  proof (cases "pn_isTVSet c1")
    case True
    then show ?thesis using n a1 l1 by auto
  next
    case False
    then have tv: "pn_setTv (pp_preProcess x) (pp_postProcess x y) P (c1, s1) = (c2, s2)" using n by simp
    have "Z \<Longrightarrow> - mu (ip_base c) = 0" using ok1 False b1 by (auto simp: leaf_ok_def)
    note st = agg_setTv [OF a1 l1 b1(1) ok1 this tv]
    have "pn_isTVSet c2" using tv by (auto simp: pn_setTv_def Let_def)
    with st setTv_keeps_mu [OF ok1 False tv] b1 show ?thesis by auto
  qed
  define c3 where "c3 = pn_updatePnL (fl_qty f) P (fl_side f) (fl_liqInd f) c2"
  have res: "c' = c3" "s' = pp_postProcess x y c3 s2"
    using r n by (cases "pn_isTVSet c1"; auto simp: pn_processFill_def c1 Let_def s1_def P_def c3_def)+
  have c3: "leaf_ok mu Z c3"
  proof -
    have tvs: "pn_isTVSet c3" using a2
      by (simp add: c3_def pn_updatePnL_def pn_updateRealizedPnL_def Let_def)
    have "\<exists>k q li. c3 = pn_updateFees q li (pn_updateUnrealizedPnL k)"
      unfolding c3_def pn_updatePnL_def Let_def by blast
    then obtain k q li where k: "c3 = pn_updateFees q li (pn_updateUnrealizedPnL k)" by blast
    then have "leaf_flat c3 \<longleftrightarrow> leaf_flat k" by (simp add: leaf_flat_def)
    then show ?thesis using tvs fees_flat [of k q li] by (auto simp: leaf_ok_def k)
  qed
  obtain cs sp where cs: "sm_find (pp_stratsPnL s2) x = Some sp" "sm_find (sp_instrumentsPnL sp) y = Some cs"
      "mu (ip_base cs) = mu (ip_base c)" and l2: "leaf_at s2 x y = Some cs"
    using a2 by (auto simp: leaf_at_iff)
  have "agg mu Z x (- mu (ip_base c) + mu (ip_base cs)) (pp_postProcess x y c3 s2)"
    by (rule agg_post [OF conjunct1 [OF a2] cs(1,2) c3]) (simp add: cs(3))
  then show ?thesis using pp_store_same [OF leaf_at_post [OF l2]] by (simp add: res cs(3))
qed

lemma agg_onFill: "agg mu Z x 0 s \<Longrightarrow> agg mu Z x 0 (fst (pp_onFill il f s))"
proof (cases "fl_accountId f \<noteq> acc_id (pp_account s)")
  case False
  assume "agg mu Z x 0 s"
  then have a: "agg mu Z (fl_strategyId f) 0 s" by (rule agg_any [THEN iffD1])
  obtain s1 c where g: "pp_getOrCreatePnl s (fl_strategyId f) (fl_instrumentId f) = (s1, c)" by (rule prod.exhaust)
  note gs = agg_getOrCreatePnl [OF a g]
  obtain c' s' f' where r: "pn_processFill il (pp_preProcess (fl_strategyId f))
      (pp_postProcess (fl_strategyId f) (fl_instrumentId f)) False f (c, s1) = (c', s', f')" by (metis prod.collapse)
  have "agg mu Z x 0 (pp_store (fl_strategyId f) (fl_instrumentId f) c' s')"
    by (rule agg_any [THEN iffD1, OF agg_processFill [OF gs r]])
  then show ?thesis using False g r by (simp add: pp_onFill_def pn_onFill_def)
qed (simp add: pp_onFill_def)

lemma agg_onTv: "agg mu Z x 0 s \<Longrightarrow> agg mu Z x 0 (pp_onTv il x' y t s)"
proof -
  assume "agg mu Z x 0 s"
  then have a: "agg mu Z x' 0 s" by (rule agg_any [THEN iffD1])
  obtain s1 c where g: "pp_getOrCreatePnl s x' y = (s1, c)" by (rule prod.exhaust)
  note gs = agg_getOrCreatePnl [OF a g]
  obtain c' s' where r: "pn_onTv il (pp_preProcess x') (pp_postProcess x' y) t (c, s1) = (c', s')" by (rule prod.exhaust)
  have "agg mu Z x' 0 (pp_store x' y c' s')"
  proof (cases "tv_isValid t \<and> fst (pn_setInstrument il (tv_getInstrumentId t) c)")
    case False
    then have "c' = c \<and> s' = s1"
      using r by (auto simp: pn_onTv_def pn_setInstrument_def split: option.splits prod.splits if_splits)
    then show ?thesis using gs(1) pp_store_same [OF gs(2)] by simp
  next
    case True
    then obtain c1 where c1: "pn_setInstrument il (tv_getInstrumentId t) c = (True, c1)" by (metis prod.collapse)
    then have b1: "ip_base c1 = ip_base c" "leaf_ok mu Z c1"
      using gs(3) by (auto simp: pn_setInstrument_def ip_base_def leaf_ok_def leaf_flat_def split: option.splits if_splits)
    have tv: "pn_setTv (pp_preProcess x') (pp_postProcess x' y) (tv_tv t) (c1, s1) = (c', s')"
      using r True by (simp add: pn_onTv_def c1)
    note st = agg_setTv [OF gs(1,2) b1 _ tv]
    then show ?thesis using pp_store_same [OF st(2)] by simp
  qed
  from agg_any [THEN iffD1, OF this] show ?thesis using g r by (simp add: pp_onTv_def)
qed

lemma agg_rebuildPos: "agg mu Z x 0 s \<Longrightarrow> agg mu Z x 0 (pp_rebuildPos il u s)"
proof (cases "pu_accountId u \<noteq> acc_id (pp_account s) \<or> il_getByDisplayName il (pu_displayName u) = None \<or>
    (\<exists>i. il_getByDisplayName il (pu_displayName u) = Some i \<and> \<not> ins_isValid i)")
  case True
  assume "agg mu Z x 0 s"
  with True show ?thesis by (auto simp: pp_rebuildPos_def)
next
  case False
  then obtain i where i: "il_getByDisplayName il (pu_displayName u) = Some i" "ins_isValid i"
    by (cases "il_getByDisplayName il (pu_displayName u)") auto
  assume "agg mu Z x 0 s"
  then have a: "agg mu Z (pu_strategyId u) 0 s" by (rule agg_any [THEN iffD1])
  obtain s1 c where g: "pp_getOrCreatePnl s (pu_strategyId u) (ins_keyId i) = (s1, c)" by (rule prod.exhaust)
  note gs = agg_getOrCreatePnl [OF a g]
  obtain c' s' f' where r: "pn_processFill il (pp_preProcess (pu_strategyId u))
      (pp_postProcess (pu_strategyId u) (ins_keyId i)) True (pn_rebuildFill i u) (c, s1) = (c', s', f')" by (metis prod.collapse)
  have "agg mu Z x 0 (pp_store (pu_strategyId u) (ins_keyId i) c' s')" and "agg mu Z x 0 s1"
    by (rule agg_any [THEN iffD1, OF agg_processFill [OF gs r]]) (rule agg_any [THEN iffD1, OF gs(1)])
  then show ?thesis
    using False i g r pp_store_same [OF gs(2)]
    by (simp add: pp_rebuildPos_def Let_def pn_rebuildPos_def)
qed

lemma agg_clear: "agg mu Z x 0 pp_clear"
  by (simp add: agg_def pp_clear_def tree_sum_def clear)

lemma agg_limits:
  assumes a: "agg mu Z x 0 s"
  shows "agg mu Z x 0 (pp_upd_strat k (\<lambda>sp. sp\<lparr>sp_limits := lm\<rparr>) (fst (pp_getOrCreateStrat s k)))"
proof -
  obtain s1 sp where g: "pp_getOrCreateStrat s k = (s1, sp)" by (rule prod.exhaust)
  note gs = agg_getOrCreateStrat [OF agg_any [THEN iffD1, OF a] g]
  let ?f = "\<lambda>sp. sp\<lparr>sp_limits := lm\<rparr> :: 'd strat_pnl"
  note u = upd_strat_simps [where f = ?f, OF gs(2)]
  have "leaf_sum mu (?f sp) = leaf_sum mu sp" for sp by (simp add: leaf_sum_def)
  then have "agg mu Z k 0 (pp_upd_strat k ?f s1)" using gs by (auto simp: agg_def u)
  then show ?thesis by (simp add: g agg_any [THEN iffD1])
qed

lemma agg_init: "agg mu Z x 0 s \<Longrightarrow> agg mu Z x 0 (pp_init a strats s)"
proof -
  assume s: "agg mu Z x 0 s"
  then have s': "agg mu Z x 0 (s\<lparr>pp_account := a\<rparr>)" by (simp add: agg_def tree_sum_def)
  have "agg mu Z x 0 (fold (\<lambda>lim s. if str_tradeEnabled lim
      then pp_upd_strat (str_id lim) (\<lambda>sp. sp\<lparr>sp_limits := lim\<rparr>) (fst (pp_getOrCreateStrat s (str_id lim)))
      else s) strats s0)" if "agg mu Z x 0 s0" for s0
    using that by (induction strats arbitrary: s0) (auto intro: agg_limits)
  from this [OF s'] show ?thesis by (simp add: pp_init_def)
qed

end

interpretation realized: pnl_measure "\<lambda>k. pi_realizedPnL (ip_pnl k)" False
  by unfold_locales
    (simp_all add: comp_preProcess_def comp_postProcess_def Let_def ipnl_clear_def pnl_info_clear_def ip_base_def)

interpretation fees: pnl_measure "\<lambda>k. fees_total (ip_fees k)" False
  by unfold_locales
    (simp_all add: comp_preProcess_def comp_postProcess_def Let_def ipnl_clear_def fees_clear_def ip_base_def
      fees_total_def fees_add_def fees_sub_def)

interpretation unrealized: pnl_measure "\<lambda>k. pi_unrealizedPnL (ip_pnl k)" True
  by unfold_locales
    (auto simp: comp_preProcess_def comp_postProcess_def comp_isFlat_def Let_def ipnl_clear_def pnl_info_clear_def
      ip_base_def ip_updateUnrealizedPnL_def leaf_flat_def pn_updateUnrealizedPnL_def)

subsection \<open>Properties\<close>

datatype 'd pp_event = PpFill "'d fill" | PpTv strategy_id instr_id "'d itv" | PpRebuild "'d pos_update"

fun pp_apply :: "'d instr_lookup \<Rightarrow> 'd pp_event \<Rightarrow> ('d::floor_ceiling) pp_state \<Rightarrow> 'd pp_state" where
  "pp_apply il (PpFill f) s = fst (pp_onFill il f s)"
| "pp_apply il (PpTv x y t) s = pp_onTv il x y t s"
| "pp_apply il (PpRebuild u) s = pp_rebuildPos il u s"

lemma pp_apply_agg:
  "agg (\<lambda>k. pi_realizedPnL (ip_pnl k)) False x 0 s \<Longrightarrow> agg (\<lambda>k. pi_realizedPnL (ip_pnl k)) False x 0 (pp_apply il e s)"
  "agg (\<lambda>k. pi_unrealizedPnL (ip_pnl k)) True x 0 s \<Longrightarrow> agg (\<lambda>k. pi_unrealizedPnL (ip_pnl k)) True x 0 (pp_apply il e s)"
  "agg (\<lambda>k. fees_total (ip_fees k)) False x 0 s \<Longrightarrow> agg (\<lambda>k. fees_total (ip_fees k)) False x 0 (pp_apply il e s)"
  by (cases e; simp add: realized.agg_onFill realized.agg_onTv realized.agg_rebuildPos
      unrealized.agg_onFill unrealized.agg_onTv unrealized.agg_rebuildPos
      fees.agg_onFill fees.agg_onTv fees.agg_rebuildPos)+

lemma fold_inv: "P s \<Longrightarrow> (\<And>e s. P s \<Longrightarrow> P (f e s)) \<Longrightarrow> P (fold f es s)"
  by (induction es arbitrary: s) auto

text \<open>The three quantities the limits are about.\<close>

abbreviation realized_of :: "'d ipnl \<Rightarrow> 'd" where "realized_of k \<equiv> pi_realizedPnL (ip_pnl k)"
abbreviation unrealized_of :: "'d ipnl \<Rightarrow> 'd" where "unrealized_of k \<equiv> pi_unrealizedPnL (ip_pnl k)"
abbreviation fees_of :: "('d::floor_ceiling) ipnl \<Rightarrow> 'd" where "fees_of k \<equiv> fees_total (ip_fees k)"

lemma pp_run_agg:
  "agg realized_of False x 0 (fold (pp_apply il) es (pp_init a strats pp_clear))"
  "agg unrealized_of True x 0 (fold (pp_apply il) es (pp_init a strats pp_clear))"
  "agg fees_of False x 0 (fold (pp_apply il) es (pp_init a strats pp_clear))"
  by (rule fold_inv; simp add: realized.agg_init realized.agg_clear unrealized.agg_init unrealized.agg_clear
      fees.agg_init fees.agg_clear pp_apply_agg)+

text \<open>
  C21: after initialisation and any sequence of fills, theoretical values and rebuilt positions,
  the account's realized profit, unrealized profit and fees are the sums over all instruments of
  all strategies, and each strategy's are the sums over its instruments: the limits are checked
  against the true totals (exact arithmetic).
\<close>

theorem account_pnl_is_sum:
  "let s = fold (pp_apply il) es (pp_init a strats pp_clear) in
   pi_realizedPnL (ip_pnl (pp_accountPnL s)) = tree_sum (\<lambda>k. pi_realizedPnL (ip_pnl k)) s \<and>
   pi_unrealizedPnL (ip_pnl (pp_accountPnL s)) = tree_sum (\<lambda>k. pi_unrealizedPnL (ip_pnl k)) s \<and>
   fees_total (ip_fees (pp_accountPnL s)) = tree_sum (\<lambda>k. fees_total (ip_fees k)) s \<and>
   (\<forall>x sp. sm_find (pp_stratsPnL s) x = Some sp \<longrightarrow>
      pi_realizedPnL (ip_pnl (sp_stratPnL sp)) = leaf_sum (\<lambda>k. pi_realizedPnL (ip_pnl k)) sp \<and>
      pi_unrealizedPnL (ip_pnl (sp_stratPnL sp)) = leaf_sum (\<lambda>k. pi_unrealizedPnL (ip_pnl k)) sp \<and>
      fees_total (ip_fees (sp_stratPnL sp)) = leaf_sum (\<lambda>k. fees_total (ip_fees k)) sp)"
  using pp_run_agg [of 0 il es a strats] unfolding agg_def Let_def by simp

definition ex_pp_fill :: "rat fill" where
  "ex_pp_fill = fill_default\<lparr>fl_accountId := 1, fl_strategyId := 7, fl_instrumentId := 3, fl_side := kBuy, fl_qty := 2, fl_price := 100\<rparr>"

theorem account_pnl_is_sum_witness:
  "let s = fold (pp_apply ex_pnl_lookup) [PpFill ex_pp_fill] (pp_init (account_clear\<lparr>acc_id := 1\<rparr>) [] pp_clear) in
   pi_realizedPnL (ip_pnl (pp_accountPnL s)) = tree_sum (\<lambda>k. pi_realizedPnL (ip_pnl k)) s"
  using account_pnl_is_sum [of ex_pnl_lookup "[PpFill ex_pp_fill]" "account_clear\<lparr>acc_id := 1\<rparr>" "[]"]
  unfolding Let_def by blast

subsection \<open>What the limits let through\<close>

lemma pp_isToReject_iff:
  "pp_isToReject ord pos \<longleftrightarrow> \<not> (pos > 0 \<and> ord_side ord \<noteq> kBuy \<or> pos < 0 \<and> ord_side ord \<noteq> kSell)"
  by (auto simp: pp_isToReject_def)

lemma agg_account: "agg mu Z x 0 s \<Longrightarrow> mu (pp_accountPnL s) = tree_sum mu s"
  by (simp add: agg_def)

lemma agg_strat: "agg mu Z x 0 s \<Longrightarrow> sm_find (pp_stratsPnL s) x' = Some sp \<Longrightarrow> mu (sp_stratPnL sp) = leaf_sum mu sp"
  by (simp add: agg_def)

text \<open>The breach tests in terms of the totals, for any state whose composites are right.\<close>

definition totals_ok :: "('d::floor_ceiling) pp_state \<Rightarrow> bool" where
  "totals_ok s \<longleftrightarrow> agg realized_of False 0 0 s \<and> agg unrealized_of True 0 0 s \<and> agg fees_of False 0 0 s"

lemma totals_ok_onTv: "totals_ok s \<Longrightarrow> totals_ok (pp_onTv il x y t s)"
  by (simp add: totals_ok_def realized.agg_onTv unrealized.agg_onTv fees.agg_onTv)

lemma totals_ok_run: "totals_ok (fold (pp_apply il) es (pp_init a strats pp_clear))"
  by (simp add: totals_ok_def pp_run_agg)

lemma totals_ok_strat:
  assumes "totals_ok s" and "pp_getOrCreateStrat s x = (s1, sp)"
  shows "realized_of (sp_stratPnL sp) = leaf_sum realized_of sp"
    and "unrealized_of (sp_stratPnL sp) = leaf_sum unrealized_of sp"
    and "fees_of (sp_stratPnL sp) = leaf_sum fees_of sp"
proof -
  have a: "agg realized_of False x 0 s" "agg unrealized_of True x 0 s" "agg fees_of False x 0 s"
    using assms(1) agg_any [of _ _ 0 s x] by (simp_all add: totals_ok_def)
  show "realized_of (sp_stratPnL sp) = leaf_sum realized_of sp"
    by (rule agg_strat [OF realized.agg_getOrCreateStrat [OF a(1) assms(2)]])
  show "unrealized_of (sp_stratPnL sp) = leaf_sum unrealized_of sp"
    by (rule agg_strat [OF unrealized.agg_getOrCreateStrat [OF a(2) assms(2)]])
  show "fees_of (sp_stratPnL sp) = leaf_sum fees_of sp"
    by (rule agg_strat [OF fees.agg_getOrCreateStrat [OF a(3) assms(2)]])
qed

lemma pp_account_breach_iff:
  fixes s :: "('d::floor_ceiling) pp_state"
  assumes "totals_ok s"
  shows "pp_account_breach s \<noteq> None \<longleftrightarrow>
    acc_maxRealizedLoss (pp_account s) < tree_sum fees_of s - tree_sum realized_of s \<or>
    acc_maxUnrealizedLoss (pp_account s) < tree_sum fees_of s - tree_sum unrealized_of s \<or>
    acc_maxTotalLoss (pp_account s) < tree_sum fees_of s - (tree_sum realized_of s + tree_sum unrealized_of s) \<or>
    acc_maxRealizedDrawdown (pp_account s) < pi_maxRealizedDrawdown (ip_pnl (pp_accountPnL s)) + tree_sum fees_of s \<or>
    acc_maxUnrealizedDrawdown (pp_account s) < pi_maxUnrealizedDrawdown (ip_pnl (pp_accountPnL s)) + tree_sum fees_of s"
proof -
  have a: "agg realized_of False 0 0 s" "agg unrealized_of True 0 0 s" "agg fees_of False 0 0 s"
    using assms by (simp_all add: totals_ok_def)
  have neg: "- 1 * r + f = f - r" "- (r + u) + f = f - (r + u)" for r u f :: 'd by simp_all
  show ?thesis
    unfolding pp_account_breach_def pp_isAccountTotalLossReached_def Let_def
      agg_account [OF a(1)] agg_account [OF a(2)] agg_account [OF a(3)] neg
    by simp
qed

lemma pp_strat_breach_iff:
  assumes "totals_ok s" and "pp_getOrCreateStrat s x = (s1, sp)"
  shows "pp_strat_breach sp \<noteq> None \<longleftrightarrow>
    str_maxRealizedLoss (sp_limits sp) < leaf_sum fees_of sp - leaf_sum realized_of sp \<or>
    str_maxUnrealizedLoss (sp_limits sp) < leaf_sum fees_of sp - leaf_sum unrealized_of sp \<or>
    str_maxRealizedDrawdown (sp_limits sp) < pi_maxRealizedDrawdown (ip_pnl (sp_stratPnL sp)) + leaf_sum fees_of sp \<or>
    str_maxUnrealizedDrawdown (sp_limits sp) < pi_maxUnrealizedDrawdown (ip_pnl (sp_stratPnL sp)) + leaf_sum fees_of sp"
  using totals_ok_strat [OF assms] by (simp add: pp_strat_breach_def Let_def)

text \<open>
  C31: the loss limits act on the true totals. After any sequence of fills, theoretical values and
  rebuilt positions, a new order first marks its instrument to the current theoretical value.
  If then, summed over all instruments of all strategies, the realized loss, the unrealized loss or
  both together, fees included, exceed the account's limit (or a drawdown of the account plus fees
  does), the order passes exactly when it does not buy into a long or sell into a short account
  position of its instrument and that position is not flat. Otherwise the same is asked of the
  strategy's own limits, over the sums of its instruments, with the strategy's position; and an
  order that meets no exceeded limit passes.
\<close>

theorem limits_allow_only_closing:
  assumes "oop_ok (po_account po)"
    and "ord = po_order po p" and "x = ord_strategyId ord" and "y = ord_instrumentId ord"
    and "s = fold (pp_apply il) es (pp_init a strats pp_clear)"
    and "s1 = pp_onTv il x y (tvs y) s" and "sp = snd (pp_getOrCreateStrat s1 x)"
    and "pos = iop_pos (oop_val il (po_account po) (ord_accountId ord) y)"
    and "spos = (case sm_find (sp_instrumentsPnL sp) y of None \<Rightarrow> 0 | Some c \<Rightarrow> pi_position (ip_pnl c))"
  shows "snd (snd (pp_sendNew il tvs p po s)) = None \<longleftrightarrow>
    (if acc_maxRealizedLoss (pp_account s1) < tree_sum fees_of s1 - tree_sum realized_of s1 \<or>
        acc_maxUnrealizedLoss (pp_account s1) < tree_sum fees_of s1 - tree_sum unrealized_of s1 \<or>
        acc_maxTotalLoss (pp_account s1) <
          tree_sum fees_of s1 - (tree_sum realized_of s1 + tree_sum unrealized_of s1) \<or>
        acc_maxRealizedDrawdown (pp_account s1) <
          pi_maxRealizedDrawdown (ip_pnl (pp_accountPnL s1)) + tree_sum fees_of s1 \<or>
        acc_maxUnrealizedDrawdown (pp_account s1) <
          pi_maxUnrealizedDrawdown (ip_pnl (pp_accountPnL s1)) + tree_sum fees_of s1
     then pos > 0 \<and> ord_side ord \<noteq> kBuy \<or> pos < 0 \<and> ord_side ord \<noteq> kSell
     else if str_maxRealizedLoss (sp_limits sp) < leaf_sum fees_of sp - leaf_sum realized_of sp \<or>
        str_maxUnrealizedLoss (sp_limits sp) < leaf_sum fees_of sp - leaf_sum unrealized_of sp \<or>
        str_maxRealizedDrawdown (sp_limits sp) <
          pi_maxRealizedDrawdown (ip_pnl (sp_stratPnL sp)) + leaf_sum fees_of sp \<or>
        str_maxUnrealizedDrawdown (sp_limits sp) <
          pi_maxUnrealizedDrawdown (ip_pnl (sp_stratPnL sp)) + leaf_sum fees_of sp
     then spos > 0 \<and> ord_side ord \<noteq> kBuy \<or> spos < 0 \<and> ord_side ord \<noteq> kSell
     else True)"
proof -
  have ok1: "totals_ok s1" by (simp add: assms(5,6) totals_ok_onTv totals_ok_run)
  obtain s2 where g: "pp_getOrCreateStrat s1 x = (s2, sp)" using assms(7) by (metis prod.collapse)
  have send: "snd (snd (pp_sendNew il tvs p po s)) =
      (case pp_account_breach s1 of
         Some reason \<Rightarrow> if pp_isToReject ord pos then Some (pp_getRej reason) else None
       | None \<Rightarrow> (case pp_strat_breach sp of
           Some reason \<Rightarrow> if pp_isToReject ord spos then Some (pp_getRej reason) else None
         | None \<Rightarrow> None))"
    using g assms(2-4,6,8,9)
    by (simp add: pp_sendNew_def Let_def po_get_pos_eq [OF assms(1)] split: option.splits)
  show ?thesis
    unfolding send pp_account_breach_iff [OF ok1, symmetric] pp_strat_breach_iff [OF ok1 g, symmetric]
    by (simp add: pp_isToReject_iff split: option.splits)
qed

definition ex_pp_account :: "rat account" where
  "ex_pp_account = account_clear\<lparr>acc_maxRealizedLoss := - 1\<rparr>"

definition ex_no_tv :: "instr_id \<Rightarrow> rat itv" where
  "ex_no_tv _ = \<lparr>tv_instrument = None, tv_isTvSet = False, tv_tv = 0\<rparr>"

definition ex_po_state :: "rat po_state" where
  "ex_po_state = \<lparr>po_heap = (\<lambda>_. order_default\<lparr>ord_side := kBuy\<rparr>), po_table = [], po_account = [], po_strategy = [],
     po_stuck_timeout = 0\<rparr>"

theorem limits_allow_only_closing_witness:
  "snd (snd (pp_sendNew ex_pnl_lookup ex_no_tv 0 ex_po_state (pp_init ex_pp_account [] pp_clear))) \<noteq> None"
proof -
  have ok: "oop_ok (po_account ex_po_state)" by (simp add: ex_po_state_def oop_ok_def)
  show ?thesis
    using limits_allow_only_closing [where p = 0 and es = "[]" and a = ex_pp_account and strats = "[]"
        and il = ex_pnl_lookup and tvs = ex_no_tv, OF ok refl refl refl refl refl refl refl refl]
    by (simp add: ex_po_state_def order_default_def ex_no_tv_def pp_onTv_def pp_getOrCreatePnl_def pp_getOrCreateStrat_def
        sm_get_or_create_def pp_init_def pp_clear_def strat_pnl_clear_def pn_onTv_def tv_isValid_def pp_store_def
        pp_upd_strat_def ipnl_clear_def pnl_info_clear_def fees_clear_def fees_total_def ex_pp_account_def
        account_clear_def oop_val_def oop_lookup_def oop_fresh_def tree_sum_def leaf_sum_def ip_base_def pnl_clear_def)
qed

text \<open>
  A busted fill is counted twice over. \<open>ProcessorOrders\<close> takes a busted buy out of the
  account's position, \<open>PnL\<close> does not look at the fill's type and adds the quantity again:
  after the bust the two positions differ by twice the quantity.
\<close>

theorem busted_fill_diverges:
  assumes "mtm0 i paid c" and "il_getByKeyId il (ins_keyId i) = Some i" and "ins_isValid i"
    and "fl_type f = kBusted" and "fl_side f = kBuy" and "fl_instrumentId f = ins_keyId i"
    and "0 < fl_qty f" and "tw_ok (fl_qty f)" and "tw_ok (pi_position (ip_pnl c) + fl_qty f)"
  shows "iop_pos (count_fill f v) = s32 (iop_pos v - fl_qty f) \<and>
    pi_position (ip_pnl (fst (pn_onFill il no_obs no_obs f (c, ())))) = pi_position (ip_pnl c) + fl_qty f"
  using processFill_mtm(2) [OF assms(1-3,6), where pre = no_obs and post = no_obs and s = "()"] assms(4-9)
  by (simp add: count_fill_def Let_def signed_qty_def)

theorem busted_fill_diverges_witness:
  "let f = fill_default\<lparr>fl_type := kBusted, fl_side := kBuy, fl_instrumentId := 3, fl_qty := 2\<rparr> in
   iop_pos (count_fill f (oop_fresh ex_pnl_lookup 1 3)) = - 2 \<and>
   pi_position (ip_pnl (fst (pn_onFill ex_pnl_lookup no_obs no_obs f (pnl_clear, ())))) = 2"
proof -
  let ?f = "fill_default\<lparr>fl_type := kBusted, fl_side := kBuy, fl_instrumentId := 3, fl_qty := 2\<rparr> :: rat fill"
  have v: "ins_isValid ex_pnl_instr"
    by (simp add: ex_pnl_instr_def ex_quarter_def instrument_clear_def ins_isValid_def word_less_nat_alt)
  have k: "ins_keyId ex_pnl_instr = 3" by (simp add: ex_pnl_instr_def)
  have il: "il_getByKeyId ex_pnl_lookup (ins_keyId ex_pnl_instr) = Some ex_pnl_instr" by (simp add: ex_pnl_lookup_def)
  have m: "mtm0 ex_pnl_instr 0 pnl_clear" by (simp add: mtm0_def)
  from busted_fill_diverges [OF m il v, of ?f "oop_fresh ex_pnl_lookup 1 3"] show ?thesis
    by (simp add: k tw_ok_iff pnl_clear_def pnl_info_clear_def oop_fresh_def s32_def)
qed

end
