(* ===== verification/Translator.thy ===== *)
theory Translator
  imports PnL
begin

section \<open>Translator: exchange responses into orders, rejects and fills (channel\_or/translator.h, translator.cpp)\<close>

text \<open>
  The fields of an \<open>OrderResp\<close> that the channels write and the translation reads. Prices arrive as text;
  \<open>lexical_cast<double>\<close> is the argument \<open>cast\<close>, \<open>None\<close> where it throws. A
  translation writes the order even where it then fails; \<open>TrThrow\<close> is an exception that
  leaves the function, \<open>TrCrash\<close> the dereference of a null instrument.
\<close>

datatype eOrderRespType =
  kUnknownOrderResp | kNewAck | kNewRej | kModAck | kModRej | kCxlAck | kCxlRej | kPartFill | kFill
| kTradeBreak | kOrderStatus | kMsgRej

datatype eAlertType =
  kUnknownAlert | kExchangeUp | kExchangeDown | kExchangeStatus | kOrderRej | kUntrackedOrder
| kUntrackedFill | kUntrackedBustedFill | kUnsupportedOrderResp | kErrorTranslatingOrderResp
| kChannelDbMaxQueueSize | kStuckOrders | kMaxNewRejCounterAlert | kMaxModRejCounterAlert
| kMaxCxlRejCounterAlert | kStratRegimeChange | kStaleQuotes | kStratAlert

record order_resp =
  or_exTimestamp :: int
  or_timestamp1 :: int
  or_type :: eOrderRespType
  or_seqNum :: u32
  or_lastShares :: u32
  or_lastPrice :: string
  or_price :: string
  or_origClOrderId :: string
  or_clOrderId :: string
  or_corrClOrderId :: string
  or_exOrderId :: string
  or_exFillId :: string
  or_exFillRefId :: string
  or_exRejReason :: string
  or_exRejText :: string
  or_liqInd :: eLiqInd
  or_order :: "optr option"

datatype tr_result = TrOk | TrFalse | TrThrow | TrCrash

definition tr_getRej :: "order_resp \<Rightarrow> reject" where
  "tr_getRej r = \<lparr>rej_rejType = kExternalRej, rej_rejSubType = kExchange, rej_rejReason = kUnknownReason,
     rej_text = or_exRejReason r @ '' :: '' @ or_exRejText r\<rparr>"

definition tr_copyCommonFields :: "order_resp \<Rightarrow> 'd order \<Rightarrow> 'd order" where
  "tr_copyCommonFields r ord =
     (let ord1 = ord\<lparr>ord_timestamp1 := or_timestamp1 r\<rparr> in
      if or_exOrderId r \<noteq> '''' then ord1\<lparr>ord_exOrderId := or_exOrderId r\<rparr> else ord1)"

definition translateNewAck :: "order_resp \<Rightarrow> 'd order \<Rightarrow> 'd order" where
  "translateNewAck r ord = tr_copyCommonFields r ord"

definition translateNewRej :: "order_resp \<Rightarrow> 'd order \<Rightarrow> 'd order \<times> reject" where
  "translateNewRej r ord = (tr_copyCommonFields r ord, tr_getRej r)"

definition translateModAck ::
    "(string \<Rightarrow> 'd option) \<Rightarrow> order_resp \<Rightarrow> ('d::floor_ceiling) order \<Rightarrow> 'd order \<times> tr_result" where
  "translateModAck cast r ord =
     (if or_price r = '''' then (ord, TrFalse)
      else
        (let ord1 = tr_copyCommonFields r ord;
             ord2 = ord1\<lparr>ord_clOrderId := or_clOrderId r, ord_origClOrderId := or_clOrderId r\<rparr> in
         case ord_instrument ord2 of
           None \<Rightarrow> (ord2, TrCrash)
         | Some i \<Rightarrow>
             (case cast (or_price r) of
                None \<Rightarrow> (ord2, TrThrow)
              | Some x \<Rightarrow>
                  (ord2\<lparr>ord_newPrice := tc_fromExchangePrice (ins_tc i) x, ord_exNewPrice := x\<rparr>, TrOk))))"

definition translateModRej :: "order_resp \<Rightarrow> 'd order \<Rightarrow> 'd order \<times> reject" where
  "translateModRej r ord = (tr_copyCommonFields r ord, tr_getRej r)"

definition translateCxlAck :: "order_resp \<Rightarrow> 'd order \<Rightarrow> 'd order" where
  "translateCxlAck r ord = tr_copyCommonFields r ord"

definition translateCxlRej :: "order_resp \<Rightarrow> 'd order \<Rightarrow> 'd order \<times> reject" where
  "translateCxlRej r ord = (tr_copyCommonFields r ord, tr_getRej r)"

definition tr_copy :: "'d order \<Rightarrow> 'd fill \<Rightarrow> 'd fill" where
  "tr_copy src dest =
     (let d = dest\<lparr>fl_accountId := ord_accountId src, fl_strategyId := ord_strategyId src,
                fl_instrumentId := ord_instrumentId src, fl_orderId := ord_orderId src,
                fl_side := ord_side src\<rparr> in
      if kCancelling = ord_state src then d\<lparr>fl_pickOff := True\<rparr> else d)"

text \<open>
  \<open>translateFill\<close> on the order \<open>src\<close> that \<open>fill._order\<close> points at. The shares
  are an unsigned 32-bit number stored into a signed quantity. An exception inside is caught and
  gives \<open>false\<close>.
\<close>

definition translateFill ::
    "(string \<Rightarrow> 'd option) \<Rightarrow> uuid \<Rightarrow> order_resp \<Rightarrow> ('d::floor_ceiling) order \<Rightarrow> 'd fill \<Rightarrow> 'd fill \<times> tr_result" where
  "translateFill cast newId r src f =
     (let typed =
        (if or_type r = kPartFill \<or> or_type r = kFill
         then Some (f\<lparr>fl_type := kNormal, fl_exchangeFillId := or_exFillId r\<rparr>)
         else if or_type r = kTradeBreak
         then Some (f\<lparr>fl_type := kBusted, fl_exchangeFillId := or_exFillRefId r\<rparr>)
         else None) in
      case typed of
        None \<Rightarrow> (f, TrFalse)
      | Some f1 \<Rightarrow>
          (let f2 = (tr_copy src (f1\<lparr>fl_subType := kOutright, fl_fillId := newId\<rparr>))
                      \<lparr>fl_qty := s32 (uint (or_lastShares r))\<rparr> in
           case cast (or_lastPrice r) of
             None \<Rightarrow> (f2, TrFalse)
           | Some x \<Rightarrow>
               (case ord_instrument src of
                  None \<Rightarrow> (f2\<lparr>fl_exPrice := x\<rparr>, TrCrash)
                | Some i \<Rightarrow>
                    (f2\<lparr>fl_exPrice := x, fl_price := tc_fromExchangePrice (ins_tc i) x, fl_liqInd := or_liqInd r\<rparr>, TrOk))))"

definition translateUntrackedResp :: "order_resp \<Rightarrow> eAlertType option" where
  "translateUntrackedResp r =
     (if or_type r \<in> {kNewAck, kModAck, kCxlAck, kOrderStatus, kMsgRej, kNewRej, kModRej, kCxlRej}
      then Some kUntrackedOrder
      else if or_type r \<in> {kPartFill, kFill, kTradeBreak} then Some kUntrackedFill
      else None)"

subsection \<open>What a translated fill says\<close>

text \<open>Owner, instrument and side of a translated fill are those of its order, and its quantity is the exchange's.\<close>

lemma translateFill_matches:
  assumes "translateFill cast u r src f = (f', TrOk)" and "uint (or_lastShares r) \<le> INT32_MAX"
  shows "fl_accountId f' = ord_accountId src" "fl_strategyId f' = ord_strategyId src"
    "fl_instrumentId f' = ord_instrumentId src" "fl_side f' = ord_side src"
    "fl_qty f' = uint (or_lastShares r)" "fl_order f' = fl_order f"
    "fl_type f' = (if or_type r = kTradeBreak then kBusted else kNormal)"
proof -
  have "s32 (uint (or_lastShares r)) = uint (or_lastShares r)"
    using assms(2) by (intro s32_exact) (simp add: in_s32_def INT32_MIN_def order_trans [OF _ uint_ge_0])
  with assms(1) show "fl_accountId f' = ord_accountId src" "fl_strategyId f' = ord_strategyId src"
    "fl_instrumentId f' = ord_instrumentId src" "fl_side f' = ord_side src"
    "fl_qty f' = uint (or_lastShares r)" "fl_order f' = fl_order f"
    "fl_type f' = (if or_type r = kTradeBreak then kBusted else kNormal)"
    by (auto simp: translateFill_def tr_copy_def Let_def split: if_splits option.splits)
qed

end
