(* ===== verification/ProcessorChain.thy ===== *)
theory ProcessorChain
  imports ProcessorWTP ProcessorMessaging PnLTree Translator
begin

section \<open>The processor chain (channel\_or/processor.h, common\_strat/strategy\_container.h)\<close>

text \<open>
  \<open>ProcessorOut<TImpl, TProcessorNext>\<close> runs a stage and then the rest of the chain; when
  the rest refuses, the stage's reject handler undoes what the stage did. The order manager
  nests it as messaging, orders, throttle, wash trade prevention, risk, profit and loss, channel.
  A stage is a record of functions on the system state, which holds the state of all processors;
  \<open>None\<close> is a dereferenced null pointer in a stage. The exchange channel is the last
  stage and a parameter: it may write the order and may refuse.
\<close>

record 'd sys =
  sys_po :: "'d po_state"
  sys_pt :: "'d pt_state"
  sys_pw :: pw_state
  sys_rk :: "'d rk_state"
  sys_pp :: "'d pp_state"
  sys_pm :: pm_state

text \<open>What the order's client (a strategy) is told.\<close>

datatype 'd client_event =
  CbNewAck | CbNewRej reject | CbModAck | CbModRej reject | CbCxlAck | CbCxlRej reject | CbFill "'d fill"

text \<open>
  The surroundings: the instrument manager, the quote store, the table of theoretical values, the
  exchange channel, the strategy's callbacks (which may do anything to the system), whether the
  database accepts requests, \<open>lexical_cast\<close>, and the next unique id.
\<close>

record 'd env =
  env_il :: "'d instr_lookup"
  env_quotes :: "instr_id \<Rightarrow> top_quote"
  env_tvs :: "instr_id \<Rightarrow> 'd itv"
  env_channel :: "eCommandSubType \<Rightarrow> 'd order \<Rightarrow> 'd order \<times> reject option"
  env_client :: "'d client_event \<Rightarrow> optr \<Rightarrow> 'd sys \<Rightarrow> 'd sys"
  env_canPersist :: bool
  env_cast :: "string \<Rightarrow> 'd option"
  env_uuid :: uuid

type_synonym 's send = "optr \<Rightarrow> 's \<Rightarrow> ('s \<times> reject option) option"

record 's out_stage =
  os_sendNew :: "'s send"
  os_sendMod :: "'s send"
  os_sendCxl :: "'s send"
  os_onNewRej :: "optr \<Rightarrow> reject \<Rightarrow> 's \<Rightarrow> 's"
  os_onModRej :: "optr \<Rightarrow> reject \<Rightarrow> 's \<Rightarrow> 's"
  os_onCxlRej :: "optr \<Rightarrow> reject \<Rightarrow> 's \<Rightarrow> 's"

text \<open>The body of \<open>ProcessorOut::sendNew\<close>, \<open>sendMod\<close> and \<open>sendCxl\<close>, and the null stage.\<close>

definition out_call :: "'s send \<Rightarrow> (optr \<Rightarrow> reject \<Rightarrow> 's \<Rightarrow> 's) \<Rightarrow> 's send \<Rightarrow> 's send" where
  "out_call impl onRej nxt p s =
     (case impl p s of
        None \<Rightarrow> None
      | Some (s1, Some rej) \<Rightarrow> Some (s1, Some rej)
      | Some (s1, None) \<Rightarrow>
          (case nxt p s1 of
             None \<Rightarrow> None
           | Some (s2, Some rej) \<Rightarrow> Some (onRej p rej s2, Some rej)
           | Some (s2, None) \<Rightarrow> Some (s2, None)))"

definition out_null :: "'s send" where
  "out_null p s = Some (s, None)"

fun out_sendNew :: "'s out_stage list \<Rightarrow> 's send" where
  "out_sendNew [] = out_null"
| "out_sendNew (st # sts) = out_call (os_sendNew st) (os_onNewRej st) (out_sendNew sts)"

fun out_sendMod :: "'s out_stage list \<Rightarrow> 's send" where
  "out_sendMod [] = out_null"
| "out_sendMod (st # sts) = out_call (os_sendMod st) (os_onModRej st) (out_sendMod sts)"

fun out_sendCxl :: "'s out_stage list \<Rightarrow> 's send" where
  "out_sendCxl [] = out_null"
| "out_sendCxl (st # sts) = out_call (os_sendCxl st) (os_onCxlRej st) (out_sendCxl sts)"

subsection \<open>The stages\<close>

abbreviation sys_order :: "'d sys \<Rightarrow> optr \<Rightarrow> 'd order" where
  "sys_order s p \<equiv> po_order (sys_po s) p"

definition sys_write :: "optr \<Rightarrow> 'd order \<Rightarrow> 'd sys \<Rightarrow> 'd sys" where
  "sys_write p ord s = s\<lparr>sys_po := po_set p (\<lambda>_. ord) (sys_po s)\<rparr>"

definition ignore_rej :: "optr \<Rightarrow> reject \<Rightarrow> 's \<Rightarrow> 's" where
  "ignore_rej p rej s = s"

definition lift_pm :: "('d order \<Rightarrow> pm_state \<Rightarrow> 'd order \<times> pm_state) \<Rightarrow> optr \<Rightarrow> 'd sys \<Rightarrow> 'd sys" where
  "lift_pm f p s = (let (ord, pm) = f (sys_order s p) (sys_pm s) in (sys_write p ord s)\<lparr>sys_pm := pm\<rparr>)"

definition st_messaging :: "'d env \<Rightarrow> 'd sys out_stage" where
  "st_messaging e =
     \<lparr>os_sendNew = (\<lambda>p s. Some (lift_pm (pm_sendNew (env_il e)) p s, None)),
      os_sendMod = (\<lambda>p s. Some (lift_pm (pm_sendMod (env_il e)) p s, None)),
      os_sendCxl = (\<lambda>p s. Some (lift_pm (pm_sendCxl (env_il e)) p s, None)),
      os_onNewRej = (\<lambda>p rej. lift_pm (\<lambda>ord. pm_onNewRej (env_il e) ord rej) p),
      os_onModRej = (\<lambda>p rej. lift_pm (\<lambda>ord. pm_onModRej (env_il e) ord rej) p),
      os_onCxlRej = (\<lambda>p rej. lift_pm (\<lambda>ord. pm_onCxlRej (env_il e) ord rej) p)\<rparr>"

definition lift_po :: "('d po_state \<Rightarrow> 'd po_state \<times> reject option) \<Rightarrow> 'd sys \<Rightarrow> ('d sys \<times> reject option) option" where
  "lift_po f s = (let (po, r) = f (sys_po s) in Some (s\<lparr>sys_po := po\<rparr>, r))"

definition st_orders :: "'d env \<Rightarrow> 'd sys out_stage" where
  "st_orders e =
     \<lparr>os_sendNew = (\<lambda>p. lift_po (po_sendNew (env_il e) p)),
      os_sendMod = (\<lambda>p. lift_po (po_sendMod p)),
      os_sendCxl = (\<lambda>p. lift_po (po_sendCxl p)),
      os_onNewRej = (\<lambda>p rej s. s\<lparr>sys_po := po_onNewRej (env_il e) p rej (sys_po s)\<rparr>),
      os_onModRej = (\<lambda>p rej s. s\<lparr>sys_po := po_onModRej p rej (sys_po s)\<rparr>),
      os_onCxlRej = (\<lambda>p rej s. s\<lparr>sys_po := po_onCxlRej p rej (sys_po s)\<rparr>)\<rparr>"

definition lift_pt ::
    "('d order \<Rightarrow> 'd pt_state \<Rightarrow> 'd order \<times> 'd pt_state \<times> reject option) \<Rightarrow> 'd sys send" where
  "lift_pt f p s =
     (let (ord, pt, r) = f (sys_order s p) (sys_pt s) in Some ((sys_write p ord s)\<lparr>sys_pt := pt\<rparr>, r))"

definition st_throttle :: "'d env \<Rightarrow> 'd sys out_stage" where
  "st_throttle e =
     \<lparr>os_sendNew = lift_pt pt_sendNew, os_sendMod = lift_pt pt_sendMod, os_sendCxl = lift_pt pt_sendCxl,
      os_onNewRej = ignore_rej, os_onModRej = ignore_rej, os_onCxlRej = ignore_rej\<rparr>"

definition lift_pw :: "(pw_state \<Rightarrow> (pw_state \<times> reject option) option) \<Rightarrow> 'd sys \<Rightarrow> ('d sys \<times> reject option) option" where
  "lift_pw f s = (case f (sys_pw s) of None \<Rightarrow> None | Some (pw, r) \<Rightarrow> Some (s\<lparr>sys_pw := pw\<rparr>, r))"

definition st_wtp :: "'d env \<Rightarrow> 'd sys out_stage" where
  "st_wtp e =
     \<lparr>os_sendNew = (\<lambda>p s. lift_pw (pw_sendNew (env_quotes e) (po_heap (sys_po s)) p) s),
      os_sendMod = (\<lambda>p s. lift_pw (pw_sendMod (env_quotes e) (po_heap (sys_po s)) p) s),
      os_sendCxl = (\<lambda>p s. lift_pw (\<lambda>w. Some (pw_sendCxl w)) s),
      os_onNewRej = ignore_rej, os_onModRej = ignore_rej, os_onCxlRej = ignore_rej\<rparr>"

definition st_risk :: "'d env \<Rightarrow> 'd sys out_stage" where
  "st_risk e =
     \<lparr>os_sendNew = (\<lambda>p s. if rk_sendNew_undefined (sys_rk s) (sys_order s p) then None
                        else lift_po (rk_sendNew (env_il e) (sys_rk s) p) s),
      os_sendMod = (\<lambda>p s. Some (s, rk_sendMod (sys_order s p))),
      os_sendCxl = (\<lambda>p s. Some (s, rk_sendCxl (sys_order s p))),
      os_onNewRej = ignore_rej, os_onModRej = ignore_rej, os_onCxlRej = ignore_rej\<rparr>"

definition st_pnl :: "('d::floor_ceiling) env \<Rightarrow> 'd sys out_stage" where
  "st_pnl e =
     \<lparr>os_sendNew = (\<lambda>p s.
        let (po, pp, r) = pp_sendNew (env_il e) (env_tvs e) p (sys_po s) (sys_pp s)
        in Some (s\<lparr>sys_po := po, sys_pp := pp\<rparr>, r)),
      os_sendMod = out_null, os_sendCxl = out_null,
      os_onNewRej = ignore_rej, os_onModRej = ignore_rej, os_onCxlRej = ignore_rej\<rparr>"

definition lift_channel :: "'d env \<Rightarrow> eCommandSubType \<Rightarrow> 'd sys send" where
  "lift_channel e cmd p s = (let (ord, r) = env_channel e cmd (sys_order s p) in Some (sys_write p ord s, r))"

definition st_channel :: "'d env \<Rightarrow> 'd sys out_stage" where
  "st_channel e =
     \<lparr>os_sendNew = lift_channel e kOrNew, os_sendMod = lift_channel e kOrMod, os_sendCxl = lift_channel e kOrCxl,
      os_onNewRej = ignore_rej, os_onModRej = ignore_rej, os_onCxlRej = ignore_rej\<rparr>"

definition TProcessorOut :: "('d::floor_ceiling) env \<Rightarrow> 'd sys out_stage list" where
  "TProcessorOut e = [st_messaging e, st_orders e, st_throttle e, st_wtp e, st_risk e, st_pnl e, st_channel e]"

subsection \<open>The inbound chain\<close>

text \<open>\<open>ProcessorIn\<close> tells a stage and then the next ones. A fill is written by the stages as it passes.\<close>

record ('d, 's) in_stage =
  is_onNewAck :: "optr \<Rightarrow> 's \<Rightarrow> 's"
  is_onNewRej :: "optr \<Rightarrow> reject \<Rightarrow> 's \<Rightarrow> 's"
  is_onModAck :: "optr \<Rightarrow> 's \<Rightarrow> 's"
  is_onModRej :: "optr \<Rightarrow> reject \<Rightarrow> 's \<Rightarrow> 's"
  is_onCxlAck :: "optr \<Rightarrow> 's \<Rightarrow> 's"
  is_onCxlRej :: "optr \<Rightarrow> reject \<Rightarrow> 's \<Rightarrow> 's"
  is_onFill :: "'d fill \<Rightarrow> 's \<Rightarrow> 's \<times> 'd fill"

definition in_onNewAck :: "('d, 's) in_stage list \<Rightarrow> optr \<Rightarrow> 's \<Rightarrow> 's" where
  "in_onNewAck sts p s = fold (\<lambda>st. is_onNewAck st p) sts s"

definition in_onNewRej :: "('d, 's) in_stage list \<Rightarrow> optr \<Rightarrow> reject \<Rightarrow> 's \<Rightarrow> 's" where
  "in_onNewRej sts p rej s = fold (\<lambda>st. is_onNewRej st p rej) sts s"

definition in_onModAck :: "('d, 's) in_stage list \<Rightarrow> optr \<Rightarrow> 's \<Rightarrow> 's" where
  "in_onModAck sts p s = fold (\<lambda>st. is_onModAck st p) sts s"

definition in_onModRej :: "('d, 's) in_stage list \<Rightarrow> optr \<Rightarrow> reject \<Rightarrow> 's \<Rightarrow> 's" where
  "in_onModRej sts p rej s = fold (\<lambda>st. is_onModRej st p rej) sts s"

definition in_onCxlAck :: "('d, 's) in_stage list \<Rightarrow> optr \<Rightarrow> 's \<Rightarrow> 's" where
  "in_onCxlAck sts p s = fold (\<lambda>st. is_onCxlAck st p) sts s"

definition in_onCxlRej :: "('d, 's) in_stage list \<Rightarrow> optr \<Rightarrow> reject \<Rightarrow> 's \<Rightarrow> 's" where
  "in_onCxlRej sts p rej s = fold (\<lambda>st. is_onCxlRej st p rej) sts s"

definition in_onFill :: "('d, 's) in_stage list \<Rightarrow> 'd fill \<Rightarrow> 's \<Rightarrow> 's \<times> 'd fill" where
  "in_onFill sts f s = fold (\<lambda>st (s, f). is_onFill st f s) sts (s, f)"

definition in_pnl :: "('d::floor_ceiling) env \<Rightarrow> ('d, 'd sys) in_stage" where
  "in_pnl e =
     \<lparr>is_onNewAck = (\<lambda>p s. s), is_onNewRej = ignore_rej, is_onModAck = (\<lambda>p s. s), is_onModRej = ignore_rej,
      is_onCxlAck = (\<lambda>p s. s), is_onCxlRej = ignore_rej,
      is_onFill = (\<lambda>f s. let (pp, f1) = pp_onFill (env_il e) f (sys_pp s) in (s\<lparr>sys_pp := pp\<rparr>, f1))\<rparr>"

definition in_messaging :: "'d env \<Rightarrow> ('d, 'd sys) in_stage" where
  "in_messaging e =
     \<lparr>is_onNewAck = (\<lambda>p s. s), is_onNewRej = os_onNewRej (st_messaging e),
      is_onModAck = (\<lambda>p s. s), is_onModRej = os_onModRej (st_messaging e),
      is_onCxlAck = (\<lambda>p s. s), is_onCxlRej = os_onCxlRej (st_messaging e),
      is_onFill = (\<lambda>f s. let (f1, pm) = pm_onFill (env_il e) f (sys_pm s) in (s\<lparr>sys_pm := pm\<rparr>, f1))\<rparr>"

definition in_orders :: "('d::zero) env \<Rightarrow> ('d, 'd sys) in_stage" where
  "in_orders e =
     \<lparr>is_onNewAck = (\<lambda>p s. s\<lparr>sys_po := po_onNewAck p (sys_po s)\<rparr>),
      is_onNewRej = os_onNewRej (st_orders e),
      is_onModAck = (\<lambda>p s. s\<lparr>sys_po := po_onModAck p (sys_po s)\<rparr>),
      is_onModRej = os_onModRej (st_orders e),
      is_onCxlAck = (\<lambda>p s. s\<lparr>sys_po := po_onCxlAck (env_il e) p (sys_po s)\<rparr>),
      is_onCxlRej = os_onCxlRej (st_orders e),
      is_onFill = (\<lambda>f s. let (po, f1) = po_onFill (env_il e) f (sys_po s) in (s\<lparr>sys_po := po\<rparr>, f1))\<rparr>"

definition TProcessorIn :: "('d::floor_ceiling) env \<Rightarrow> ('d, 'd sys) in_stage list" where
  "TProcessorIn e = [in_pnl e, in_messaging e, in_orders e]"

text \<open>\<open>recordFill\<close> on the outbound chain: an external fill, messaging first; throttle, wash trade prevention, risk and channel ignore it.\<close>

definition out_recordFill :: "('d::floor_ceiling) env \<Rightarrow> 'd fill \<Rightarrow> 'd sys \<Rightarrow> 'd sys \<times> 'd fill" where
  "out_recordFill e f s =
     (let (f1, pm) = pm_recordFill (env_il e) f (sys_pm s);
          (po, f2) = po_recordFill (env_il e) f1 (sys_po s);
          (pp, f3) = pp_recordFill (env_il e) f2 (sys_pp s)
      in (s\<lparr>sys_pm := pm, sys_po := po, sys_pp := pp\<rparr>, f3))"

subsection \<open>Stages with a contract\<close>

text \<open>
  A call has a contract when, started in \<open>pre\<close>, it ends in \<open>post\<close> if it accepts and
  in \<open>fail\<close> if it refuses. A stage promises: accepted, it takes \<open>pre\<close> to
  \<open>mid\<close>; refused, to \<open>fail\<close>; and its reject handler takes what the rest of the
  chain leaves after a refusal, \<open>nfail\<close>, to \<open>fail\<close>. In front of a rest with
  a contract from \<open>mid\<close>, it then has one from \<open>pre\<close>.
\<close>

definition contract :: "'s send \<Rightarrow> (optr \<Rightarrow> 's \<Rightarrow> bool) \<Rightarrow> (optr \<Rightarrow> 's \<Rightarrow> bool) \<Rightarrow> (optr \<Rightarrow> 's \<Rightarrow> bool) \<Rightarrow> bool" where
  "contract f pre post fail \<longleftrightarrow>
     (\<forall>p s s' r. pre p s \<longrightarrow> f p s = Some (s', r) \<longrightarrow> (if r = None then post p s' else fail p s'))"

lemma contractD:
  assumes "contract f pre post fail" and "pre p s"
  shows "f p s = Some (s', None) \<Longrightarrow> post p s'" and "f p s = Some (s', Some rej) \<Longrightarrow> fail p s'"
  using assms by (fastforce simp: contract_def)+

lemma contract_null: "contract out_null pre pre fail"
  by (simp add: contract_def out_null_def)

locale guarded_stage =
  fixes impl :: "'s send" and onRej :: "optr \<Rightarrow> reject \<Rightarrow> 's \<Rightarrow> 's"
    and pre mid nfail fail :: "optr \<Rightarrow> 's \<Rightarrow> bool"
  assumes accept: "pre p s \<Longrightarrow> impl p s = Some (s', None) \<Longrightarrow> mid p s'"
    and refuse: "pre p s \<Longrightarrow> impl p s = Some (s', Some rej) \<Longrightarrow> fail p s'"
    and undo: "nfail p s \<Longrightarrow> fail p (onRej p rej s)"
begin

lemma chain:
  assumes "contract nxt mid post nfail"
  shows "contract (out_call impl onRej nxt) pre post fail"
  unfolding contract_def
proof (intro allI impI)
  fix p s s' r assume pre: "pre p s" and call: "out_call impl onRej nxt p s = Some (s', r)"
  show "if r = None then post p s' else fail p s'"
    using call accept [OF pre] refuse [OF pre] undo contractD [OF assms, of p]
    by (auto simp: out_call_def split: option.splits)
qed

end

end
