(* ===== verification/StrategyContainer.thy ===== *)
theory StrategyContainer
  imports ProcessorChain
begin

section \<open>StrategyContainer: the order path (common\_strat/strategy\_container.cpp)\<close>

text \<open>
  The container owns the two processor chains and runs every order event under one lock, so an
  event is one step. Requests go down the outbound chain, exchange responses through the
  translator and the inbound chain, and the order's client is called back. \<open>now\<close> is the
  clock, read once per event. Persisting to the database, logging and the message bus have no
  effect on this state; alerts are results of the event. \<open>None\<close> is a crash.
\<close>

definition sys_po_upd :: "('d po_state \<Rightarrow> 'd po_state) \<Rightarrow> 'd sys \<Rightarrow> 'd sys" where
  "sys_po_upd f s = s\<lparr>sys_po := f (sys_po s)\<rparr>"

definition sys_mark :: "int \<Rightarrow> optr \<Rightarrow> 'd sys \<Rightarrow> 'd sys" where
  "sys_mark now p s = sys_po_upd (po_set p (\<lambda>ord. ord\<lparr>ord_timestamp1 := now\<rparr>)) s"

definition sc_getRej :: reject where
  "sc_getRej = internal_rej kStrategyContainer kSystemError"

definition sc_sendNew :: "('d::floor_ceiling) env \<Rightarrow> int \<Rightarrow> 'd sys send" where
  "sc_sendNew e now p s =
     (if \<not> env_canPersist e then Some (s, Some sc_getRej)
      else case out_sendNew (TProcessorOut e) p s of
             None \<Rightarrow> None
           | Some (s1, None) \<Rightarrow> Some (sys_mark now p s1, None)
           | Some (s1, Some rej) \<Rightarrow> Some (sys_mark now p (env_client e (CbNewRej rej) p s1), Some rej))"

definition sc_sendMod :: "('d::floor_ceiling) env \<Rightarrow> int \<Rightarrow> 'd sys send" where
  "sc_sendMod e now p s =
     (if \<not> env_canPersist e then Some (s, Some sc_getRej)
      else case out_sendMod (TProcessorOut e) p s of
             None \<Rightarrow> None
           | Some (s1, None) \<Rightarrow> Some (sys_mark now p s1, None)
           | Some (s1, Some rej) \<Rightarrow>
               (let s2 = (if kProcessorOrders = rej_rejSubType rej then sys_po_upd (po_onModRej p rej) s1 else s1);
                    s3 = env_client e (CbModRej rej) p s2;
                    s4 = sys_po_upd (po_onModRejPost p rej) s3
                in Some (sys_mark now p s4, Some rej)))"

definition sc_sendCxl :: "('d::floor_ceiling) env \<Rightarrow> int \<Rightarrow> 'd sys send" where
  "sc_sendCxl e now p s =
     (if kCancelling = ord_state (sys_order s p) then Some (s, None)
      else case out_sendCxl (TProcessorOut e) p s of
             None \<Rightarrow> None
           | Some (s1, None) \<Rightarrow> Some (sys_mark now p s1, None)
           | Some (s1, Some rej) \<Rightarrow> Some (sys_mark now p (env_client e (CbCxlRej rej) p s1), Some rej))"

fun sc_sendCxlForBatch :: "('d::floor_ceiling) env \<Rightarrow> int \<Rightarrow> string \<Rightarrow> optr list \<Rightarrow> 'd sys \<Rightarrow> 'd sys option" where
  "sc_sendCxlForBatch e now reason [] s = Some s"
| "sc_sendCxlForBatch e now reason (p # ps) s =
     (case sc_sendCxl e now p (sys_po_upd (po_set p (\<lambda>ord. ord\<lparr>ord_stratReason := reason\<rparr>)) s) of
        None \<Rightarrow> None
      | Some (s1, _) \<Rightarrow> sc_sendCxlForBatch e now reason ps s1)"

definition sc_sendCxlForAccount :: "('d::floor_ceiling) env \<Rightarrow> int \<Rightarrow> string \<Rightarrow> account_id \<Rightarrow> 'd sys \<Rightarrow> 'd sys option" where
  "sc_sendCxlForAccount e now reason x s =
     sc_sendCxlForBatch e now reason (po_getAllForAccount (sys_po s) x) s"

definition sc_sendCxlForAccountStrategy ::
    "('d::floor_ceiling) env \<Rightarrow> int \<Rightarrow> string \<Rightarrow> account_id \<Rightarrow> strategy_id \<Rightarrow> 'd sys \<Rightarrow> 'd sys option" where
  "sc_sendCxlForAccountStrategy e now reason x y s =
     sc_sendCxlForBatch e now reason (po_getAllForAccountStrategy (sys_po s) x y) s"

definition sc_sendCxlForInstrument :: "('d::floor_ceiling) env \<Rightarrow> int \<Rightarrow> string \<Rightarrow> instr_id \<Rightarrow> 'd sys \<Rightarrow> 'd sys option" where
  "sc_sendCxlForInstrument e now reason x s =
     sc_sendCxlForBatch e now reason (po_getAllForInstrument (sys_po s) x) s"

definition sc_sendCxlAll :: "('d::floor_ceiling) env \<Rightarrow> int \<Rightarrow> string \<Rightarrow> 'd sys \<Rightarrow> 'd sys option" where
  "sc_sendCxlAll e now reason s = sc_sendCxlForBatch e now reason (po_getAll (sys_po s)) s"

subsection \<open>Responses\<close>

text \<open>A delayed cancel: the alert of a refusal is the second component.\<close>

definition checkCancelOnAck :: "('d::floor_ceiling) env \<Rightarrow> int \<Rightarrow> optr \<Rightarrow> 'd sys \<Rightarrow> ('d sys \<times> eAlertType list) option" where
  "checkCancelOnAck e now p s =
     (if ord_cancelOnAck (sys_order s p)
      then (case sc_sendCxl e now p (sys_po_upd (po_set p (\<lambda>ord. ord\<lparr>ord_cancelOnAck := False\<rparr>)) s) of
              None \<Rightarrow> None
            | Some (s1, None) \<Rightarrow> Some (s1, [])
            | Some (s1, Some rej) \<Rightarrow> Some (s1, [kOrderRej]))
      else Some (s, []))"

definition sc_onNewAck :: "('d::floor_ceiling) env \<Rightarrow> int \<Rightarrow> optr \<Rightarrow> 'd sys \<Rightarrow> ('d sys \<times> eAlertType list) option" where
  "sc_onNewAck e now p s =
     checkCancelOnAck e now p (env_client e CbNewAck p (in_onNewAck (TProcessorIn e) p s))"

definition sc_onNewRej :: "('d::floor_ceiling) env \<Rightarrow> optr \<Rightarrow> reject \<Rightarrow> 'd sys \<Rightarrow> 'd sys" where
  "sc_onNewRej e p rej s = env_client e (CbNewRej rej) p (in_onNewRej (TProcessorIn e) p rej s)"

definition sc_onModAck :: "('d::floor_ceiling) env \<Rightarrow> int \<Rightarrow> optr \<Rightarrow> 'd sys \<Rightarrow> ('d sys \<times> eAlertType list) option" where
  "sc_onModAck e now p s =
     checkCancelOnAck e now p
       (sys_po_upd (po_onModAckPost p) (env_client e CbModAck p (in_onModAck (TProcessorIn e) p s)))"

definition sc_onModRej :: "('d::floor_ceiling) env \<Rightarrow> int \<Rightarrow> optr \<Rightarrow> reject \<Rightarrow> 'd sys \<Rightarrow> ('d sys \<times> eAlertType list) option" where
  "sc_onModRej e now p rej s =
     checkCancelOnAck e now p
       (sys_po_upd (po_onModRejPost p rej) (env_client e (CbModRej rej) p (in_onModRej (TProcessorIn e) p rej s)))"

definition sc_onCxlAck :: "('d::floor_ceiling) env \<Rightarrow> optr \<Rightarrow> 'd sys \<Rightarrow> 'd sys" where
  "sc_onCxlAck e p s = env_client e CbCxlAck p (in_onCxlAck (TProcessorIn e) p s)"

definition sc_onCxlRej :: "('d::floor_ceiling) env \<Rightarrow> optr \<Rightarrow> reject \<Rightarrow> 'd sys \<Rightarrow> 'd sys" where
  "sc_onCxlRej e p rej s = env_client e (CbCxlRej rej) p (in_onCxlRej (TProcessorIn e) p rej s)"

definition sc_onFill :: "('d::floor_ceiling) env \<Rightarrow> 'd fill \<Rightarrow> optr \<Rightarrow> 'd sys \<Rightarrow> 'd sys" where
  "sc_onFill e f p s = (let (s1, f1) = in_onFill (TProcessorIn e) f s in env_client e (CbFill f1) p s1)"

text \<open>
  \<open>onOrderResp\<close>: an exception of a translation ends the event after its writes, with no
  alert.
\<close>

definition untracked_alert :: "eOrderRespType \<Rightarrow> eAlertType" where
  "untracked_alert t =
     (if t \<in> {kNewAck, kNewRej, kModAck, kModRej, kCxlAck, kCxlRej} then kUntrackedOrder
      else if t \<in> {kPartFill, kFill} then kUntrackedFill
      else if t = kTradeBreak then kUntrackedBustedFill
      else kUnsupportedOrderResp)"

definition sc_onOrderResp ::
    "('d::floor_ceiling) env \<Rightarrow> int \<Rightarrow> order_resp \<Rightarrow> 'd sys \<Rightarrow> ('d sys \<times> eAlertType list) option" where
  "sc_onOrderResp e now r s =
     (case or_order r of
        None \<Rightarrow> Some (s, [untracked_alert (or_type r)])
      | Some p \<Rightarrow>
          (let ord = sys_order s p in
           case or_type r of
             kNewAck \<Rightarrow> sc_onNewAck e now p (sys_write p (translateNewAck r ord) s)
           | kNewRej \<Rightarrow> (let (ord1, rej) = translateNewRej r ord in Some (sc_onNewRej e p rej (sys_write p ord1 s), []))
           | kModAck \<Rightarrow>
               (let (ord1, res) = translateModAck (env_cast e) r ord; s1 = sys_write p ord1 s in
                case res of
                  TrOk \<Rightarrow> sc_onModAck e now p s1
                | TrFalse \<Rightarrow> Some (s1, [kErrorTranslatingOrderResp])
                | TrThrow \<Rightarrow> Some (s1, [])
                | TrCrash \<Rightarrow> None)
           | kModRej \<Rightarrow> (let (ord1, rej) = translateModRej r ord in sc_onModRej e now p rej (sys_write p ord1 s))
           | kCxlAck \<Rightarrow> Some (sc_onCxlAck e p (sys_write p (translateCxlAck r ord) s), [])
           | kCxlRej \<Rightarrow> (let (ord1, rej) = translateCxlRej r ord in Some (sc_onCxlRej e p rej (sys_write p ord1 s), []))
           | kUnknownOrderResp \<Rightarrow> Some (s, [kUnsupportedOrderResp])
           | kOrderStatus \<Rightarrow> Some (s, [kUnsupportedOrderResp])
           | kMsgRej \<Rightarrow> Some (s, [kUnsupportedOrderResp])
           | _ \<Rightarrow>
               (let (f, res) = translateFill (env_cast e) (env_uuid e) r ord (fill_default\<lparr>fl_order := Some p\<rparr>) in
                case res of
                  TrOk \<Rightarrow> Some (sc_onFill e f p s, [])
                | TrCrash \<Rightarrow> None
                | _ \<Rightarrow> Some (s, [kErrorTranslatingOrderResp]))))"

text \<open>A manually entered fill: \<open>processExternalFill\<close> after its checks have found the strategy and the instrument.\<close>

definition sc_processExternalFill ::
    "('d::floor_ceiling) env \<Rightarrow> account_id \<Rightarrow> strategy_id \<Rightarrow> 'd instrument \<Rightarrow> eOrderSide \<Rightarrow> size \<Rightarrow> 'd \<Rightarrow> eLiqInd \<Rightarrow> string \<Rightarrow>
     'd sys \<Rightarrow> 'd sys \<times> 'd fill" where
  "sc_processExternalFill e a st i sd qty price liq exFillId s =
     out_recordFill e
       (fill_default\<lparr>fl_type := kExternal, fl_subType := kOutright, fl_accountId := a, fl_strategyId := st,
          fl_instrumentId := ins_keyId i, fl_fillId := env_uuid e, fl_orderId := env_uuid e, fl_side := sd,
          fl_qty := qty, fl_price := tc_fromExchangePrice (ins_tc i) price, fl_liqInd := liq,
          fl_pickOff := False, fl_exchangeFillId := exFillId\<rparr>) s"

end
