(* ===== verification/ChainContracts.thy ===== *)
theory ChainContracts
  imports StrategyContainer
begin

section \<open>A new order through the whole chain\<close>

text \<open>
  What every stage of the outbound chain promises about the account's limits, as interpretations
  of \<open>guarded_stage\<close>, and what follows for the chain: an accepted order leaves every
  exposure of the account within its limit, a refused one leaves no trace in the table or the
  counters.

  The exposure of an instrument on one side is the position in that direction plus the open
  orders of that side. The configuration is sane when a maximum position and a clip size
  together fit 31 bits.
\<close>

definition dir :: "eOrderSide \<Rightarrow> int" where
  "dir sd = (if sd = kBuy then 1 else - 1)"

definition pos_of :: "'d instr_lookup \<Rightarrow> 'd po_state \<Rightarrow> account_id \<Rightarrow> instr_id \<Rightarrow> int" where
  "pos_of il po a i = iop_pos (oop_val il (po_account po) a i)"

definition expo :: "'d instr_lookup \<Rightarrow> 'd po_state \<Rightarrow> eOrderSide \<Rightarrow> account_id \<Rightarrow> instr_id \<Rightarrow> int" where
  "expo il po sd a i = dir sd * pos_of il po a i + side_count sd (oop_val il (po_account po) a i)"

definition within_limits :: "'d instr_lookup \<Rightarrow> 'd rk_state \<Rightarrow> 'd po_state \<Rightarrow> (eOrderSide \<Rightarrow> instr_id \<Rightarrow> int) \<Rightarrow> bool" where
  "within_limits il r po slack \<longleftrightarrow>
     (\<forall>sd i x. real_side sd \<longrightarrow> sm_find (rk_params r) i = Some x \<longrightarrow>
        expo il po sd (acc_id (rk_account r)) i \<le> uint (arp_maxPos x) + slack sd i)"

definition cfg_ok :: "'d rk_state \<Rightarrow> bool" where
  "cfg_ok r \<longleftrightarrow> (\<forall>i x. sm_find (rk_params r) i = Some x \<longrightarrow> uint (arp_maxPos x) + uint (arp_clipSize x) < 2147483648)"

text \<open>A write that keeps what the counters and the limits rest on; all the channel may do to an order.\<close>

definition same_order :: "'d order \<Rightarrow> 'd order \<Rightarrow> bool" where
  "same_order a b \<longleftrightarrow> same_counts a b \<and> ord_state b = ord_state a \<and> ord_type b = ord_type a \<and> ord_price b = ord_price a"

definition channel_ok :: "'d env \<Rightarrow> bool" where
  "channel_ok e \<longleftrightarrow> (\<forall>cmd ord. same_order ord (fst (env_channel e cmd ord)))"

definition sys_safe :: "'d env \<Rightarrow> 'd sys \<Rightarrow> bool" where
  "sys_safe e s \<longleftrightarrow> channel_ok e \<and> cfg_ok (sys_rk s) \<and> po_inv (env_il e) (sys_po s) \<and>
     within_limits (env_il e) (sys_rk s) (sys_po s) (\<lambda>_ _. 0)"

text \<open>A well-formed new order: not seen before, a positive quantity, a price if it is a limit order, and room in the counters.\<close>

definition new_wf :: "'d po_state \<Rightarrow> optr \<Rightarrow> bool" where
  "new_wf po p \<longleftrightarrow> fresh_order po p \<and> room_for po (po_order po p) \<and>
     ord_state (po_order po p) = kUnknownState \<and> 0 < ord_qty (po_order po p) \<and>
     (ord_type (po_order po p) = kLimit \<longrightarrow> tw_isValid (ord_price (po_order po p))) \<and>
     sm_find (po_table po) (ord_orderId (po_order po p)) = None"

definition new_ok :: "'d env \<Rightarrow> optr \<Rightarrow> 'd sys \<Rightarrow> bool" where
  "new_ok e p s \<longleftrightarrow> sys_safe e s \<and> new_wf (sys_po s) p"

definition in_flight :: "'d env \<Rightarrow> optr \<Rightarrow> 'd sys \<Rightarrow> bool" where
  "in_flight e p s \<longleftrightarrow> channel_ok e \<and> cfg_ok (sys_rk s) \<and> po_inv (env_il e) (sys_po s) \<and> in_table (sys_po s) p \<and>
     ord_state (sys_order s p) = kPending \<and> ord_cumQty (sys_order s p) = 0 \<and>
     within_limits (env_il e) (sys_rk s) (sys_po s)
       (\<lambda>sd i. contrib ord_accountId sd (acc_id (rk_account (sys_rk s))) i (sys_order s p))"

definition sent :: "'d env \<Rightarrow> optr \<Rightarrow> 'd sys \<Rightarrow> bool" where
  "sent e p s \<longleftrightarrow> in_flight e p s \<and> sys_safe e s"

definition refused :: "'d env \<Rightarrow> optr \<Rightarrow> 'd sys \<Rightarrow> bool" where
  "refused e p s \<longleftrightarrow> sys_safe e s \<and> \<not> in_table (sys_po s) p \<and> ord_state (sys_order s p) = kRejected"

subsection \<open>Steps that only touch uncounted fields\<close>

definition po_like :: "'d instr_lookup \<Rightarrow> optr \<Rightarrow> 'd po_state \<Rightarrow> 'd po_state \<Rightarrow> bool" where
  "po_like il p a b \<longleftrightarrow> po_table b = po_table a \<and> po_strategy b = po_strategy a \<and>
     (\<forall>q. q \<noteq> p \<longrightarrow> po_order b q = po_order a q) \<and> same_order (po_order a p) (po_order b p) \<and>
     oop_ok (po_account b) \<and> (\<forall>x y. oop_val il (po_account b) x y = oop_val il (po_account a) x y)"

lemma same_counts_refl [simp]: "same_counts ord ord"
  by (simp add: same_counts_def)

lemma same_order_refl [simp]: "same_order ord ord"
  by (simp add: same_order_def)

lemma po_like_inv:
  assumes like: "po_like il p a b" and inv: "po_inv il a"
  shows "po_inv il b"
proof -
  let ?c = "po_set p (\<lambda>_. po_order b p) a"
  have heap: "po_heap b = po_heap ?c" using like by (auto simp: po_like_def)
  have "isOrderLive (Some (po_order a p))" if "in_table a p"
    using inv that by (auto simp: po_inv_def table_ok_def order_ok_def)
  then have "po_inv il ?c"
    using like by (intro po_inv_set [OF inv]) (auto simp: po_like_def same_order_def isOrderLive.simps)
  with like heap show ?thesis
    by (simp add: po_inv_def book_ok_def po_like_def)
qed

lemma po_like_expo: "po_like il p a b \<Longrightarrow> expo il b sd x y = expo il a sd x y"
  by (simp add: po_like_def expo_def pos_of_def)

text \<open>Such a step keeps each of the four predicates.\<close>

definition sys_like :: "'d env \<Rightarrow> optr \<Rightarrow> 'd sys \<Rightarrow> 'd sys \<Rightarrow> bool" where
  "sys_like e p s s' \<longleftrightarrow> sys_rk s' = sys_rk s \<and> po_like (env_il e) p (sys_po s) (sys_po s')"

lemma sys_like_safe: "sys_like e p s s' \<Longrightarrow> sys_safe e s \<Longrightarrow> sys_safe e s'"
  by (auto simp: sys_like_def sys_safe_def within_limits_def po_like_expo intro: po_like_inv)

lemma po_like_order:
  assumes "po_like il p a b"
  shows "same_counts (po_order a p) (po_order b p)" "ord_state (po_order b p) = ord_state (po_order a p)"
    "ord_type (po_order b p) = ord_type (po_order a p)" "ord_price (po_order b p) = ord_price (po_order a p)"
    "po_table b = po_table a"
  using assms by (simp_all add: po_like_def same_order_def)

lemma sys_like_in_flight:
  assumes l: "sys_like e p s s'" and f: "in_flight e p s"
  shows "in_flight e p s'"
proof -
  have l: "sys_rk s' = sys_rk s" "po_like (env_il e) p (sys_po s) (sys_po s')" using l by (simp_all add: sys_like_def)
  note o = po_like_order [OF l(2)]
  have "contrib ord_accountId sd x y (sys_order s' p) = contrib ord_accountId sd x y (sys_order s p)" for sd x y
    by (rule same_counts_contrib(1) [OF o(1)])
  moreover have "po_inv (env_il e) (sys_po s')" using f by (intro po_like_inv [OF l(2)]) (simp add: in_flight_def)
  moreover have "ord_cumQty (sys_order s' p) = 0" using f o(1) by (simp add: in_flight_def same_counts_def)
  ultimately show ?thesis
    using f o by (simp add: in_flight_def within_limits_def l(1) po_like_expo [OF l(2)])
qed

lemma sys_like_refused: "sys_like e p s s' \<Longrightarrow> refused e p s \<Longrightarrow> refused e p s'"
  using sys_like_safe [of e p s s'] po_like_order [of "env_il e" p "sys_po s" "sys_po s'"]
  by (simp add: refused_def sys_like_def)

lemma sys_like_new:
  assumes l: "sys_like e p s s'" and n: "new_ok e p s"
  shows "new_ok e p s'"
proof -
  have l': "po_like (env_il e) p (sys_po s) (sys_po s')" using l by (simp add: sys_like_def)
  note o = po_like_order [OF l']
  have c: "ord_qty (sys_order s' p) = ord_qty (sys_order s p)" "ord_cumQty (sys_order s' p) = ord_cumQty (sys_order s p)"
    "ord_side (sys_order s' p) = ord_side (sys_order s p)" "ord_accountId (sys_order s' p) = ord_accountId (sys_order s p)"
    "ord_strategyId (sys_order s' p) = ord_strategyId (sys_order s p)"
    "ord_instrumentId (sys_order s' p) = ord_instrumentId (sys_order s p)"
    "ord_orderId (sys_order s' p) = ord_orderId (sys_order s p)"
    using o(1) by (simp_all add: same_counts_def)
  have fresh: "fresh_order (sys_po s) p" using n by (simp add: new_ok_def new_wf_def)
  have sums: "open_sum (po_heap (sys_po s')) (po_table (sys_po s)) own sd x y =
      open_sum (po_heap (sys_po s)) (po_table (sys_po s)) own sd x y" for own sd x y
  proof -
    have "po_heap (sys_po s') = (po_heap (sys_po s))(p := sys_order s' p)" using l' by (auto simp: po_like_def)
    then show ?thesis using fresh by (metis fresh_order_def open_sum_heap_other)
  qed
  show ?thesis
    using n o c sys_like_safe [OF l] by (auto simp: new_ok_def new_wf_def fresh_order_def room_for_def sums open_qty_def)
qed

lemma sys_like_sent: "sys_like e p s s' \<Longrightarrow> sent e p s \<Longrightarrow> sent e p s'"
  using sys_like_safe sys_like_in_flight by (auto simp: sent_def)

lemma in_flight_ok: "in_flight e p s \<Longrightarrow> oop_ok (po_account (sys_po s))"
  by (auto simp: in_flight_def dest: po_inv_books(2))

subsection \<open>Stages of a new order\<close>

lemma sys_write_like:
  "oop_ok (po_account (sys_po s)) \<Longrightarrow> same_order (sys_order s p) ord \<Longrightarrow> sys_like e p s (sys_write p ord s)"
  by (simp add: sys_like_def sys_write_def po_like_def)

lemma sys_safe_ok: "sys_safe e s \<Longrightarrow> oop_ok (po_account (sys_po s))"
  by (auto simp: sys_safe_def dest: po_inv_books(2))

lemma pm_bump_same: "same_order ord (fst (pm_bump il f ord m))"
  by (simp add: pm_bump_def copy_messaging_def same_order_def same_counts_def Let_def split: prod.splits option.splits)

lemma pm_rej_same:
  "same_order ord (fst (pm_onNewRej il ord rej m))" "same_order ord (fst (pm_onModRej il ord rej m))"
  "same_order ord (fst (pm_onCxlRej il ord rej m))"
  by (simp_all add: pm_onNewRej_def pm_onModRej_def pm_onCxlRej_def pm_bump_same)

lemma lift_pm_like:
  assumes "oop_ok (po_account (sys_po s))" and "\<And>ord m. same_order ord (fst (f ord m))"
  shows "sys_like e p s (lift_pm f p s)"
  using assms(2) [of "sys_order s p" "sys_pm s"] assms(1)
  by (auto simp: lift_pm_def sys_like_def sys_write_def po_like_def split: prod.splits)

lemma pt_same:
  "same_order ord (fst (pt_sendNew ord t))" "same_order ord (fst (pt_sendMod ord t))" "same_order ord (fst (pt_sendCxl ord t))"
  by (simp_all add: pt_sendNew_def pt_sendMod_def pt_sendCxl_def pt_setCounters_def Let_def same_order_def same_counts_def)

lemma lift_pt_like:
  assumes "oop_ok (po_account (sys_po s))" and "\<And>ord t. same_order ord (fst (f ord t))" and "lift_pt f p s = Some (s', r)"
  shows "sys_like e p s s'"
  using assms(2) [of "sys_order s p" "sys_pt s"] assms(1,3)
  by (auto simp: lift_pt_def sys_like_def sys_write_def po_like_def split: prod.splits)

lemma lift_pw_like:
  "oop_ok (po_account (sys_po s)) \<Longrightarrow> lift_pw f s = Some (s', r) \<Longrightarrow> sys_like e p s s'"
  by (auto simp: lift_pw_def sys_like_def po_like_def split: option.splits)

lemma lift_channel_like:
  assumes "oop_ok (po_account (sys_po s))" and "channel_ok e" and "lift_channel e cmd p s = Some (s', r)"
  shows "sys_like e p s s'"
proof -
  have "same_order (sys_order s p) (fst (env_channel e cmd (sys_order s p)))" using assms(2) by (simp add: channel_ok_def)
  with assms(1,3) show ?thesis by (auto simp: lift_channel_def intro: sys_write_like split: prod.splits)
qed

lemma po_read_like:
  "oop_ok (po_account s) \<Longrightarrow> po_like il p s (s\<lparr>po_account := fst (oop_get il (po_account s) x y)\<rparr>)"
  by (simp add: po_like_def oop_get_same_val oop_get_ok)

lemma rk_sendNew_like: "oop_ok (po_account s) \<Longrightarrow> po_like il p s (fst (rk_sendNew il r p s))"
  using rk_sendNew_state [of s il r p] po_read_like [of s il p] by (auto simp: po_like_def)

lemma pp_sendNew_like:
  assumes "oop_ok (po_account po)" and "pp_sendNew il tvs p po s = (po', s', r)"
  shows "po_like il p po po'"
  using assms po_read_like [OF assms(1), of il p]
  by (auto simp: pp_sendNew_def Let_def po_get_pos_eq po_like_def split: option.splits prod.splits)

interpretation nw_messaging:
  guarded_stage "os_sendNew (st_messaging e)" "os_onNewRej (st_messaging e)" "new_ok e" "new_ok e" "refused e" "refused e"
  for e :: "('d::floor_ceiling) env"
proof unfold_locales
  fix p s s' assume n: "new_ok e p s" and s': "os_sendNew (st_messaging e) p s = Some (s', None)"
  from s' have "s' = lift_pm (pm_sendNew (env_il e)) p s" by (simp add: st_messaging_def)
  moreover have "oop_ok (po_account (sys_po s))" using n by (auto simp: new_ok_def dest: sys_safe_ok)
  ultimately show "new_ok e p s'"
    using n by (auto intro!: sys_like_new [OF _ n] lift_pm_like simp: pm_sendNew_def pm_bump_same)
next
  fix p s rej assume n: "refused e p s"
  then have "oop_ok (po_account (sys_po s))" by (auto simp: refused_def dest: sys_safe_ok)
  then show "refused e p (os_onNewRej (st_messaging e) p rej s)"
    by (auto intro!: sys_like_refused [OF _ n] lift_pm_like simp: st_messaging_def pm_rej_same)
qed (simp add: st_messaging_def)

lemma within_limits_mono:
  assumes w: "within_limits il r po g"
    and le: "\<And>sd i. real_side sd \<Longrightarrow>
      expo il po' sd (acc_id (rk_account r)) i - g' sd i \<le> expo il po sd (acc_id (rk_account r)) i - g sd i"
  shows "within_limits il r po' g'"
  unfolding within_limits_def
proof (intro allI impI)
  fix sd i x assume sd: "real_side sd" and i: "sm_find (rk_params r) i = Some x"
  have "expo il po sd (acc_id (rk_account r)) i \<le> uint (arp_maxPos x) + g sd i"
    using w sd i unfolding within_limits_def by blast
  with le [OF sd, of i] show "expo il po' sd (acc_id (rk_account r)) i \<le> uint (arp_maxPos x) + g' sd i" by linarith
qed

text \<open>Counting an order adds its contribution to the exposures, removing it takes it back.\<close>

lemma expo_eq:
  "po_inv il po \<Longrightarrow> real_side sd \<Longrightarrow>
     expo il po sd a i = dir sd * pos_of il po a i + open_sum (po_heap po) (po_table po) ord_accountId sd a i"
  by (simp add: expo_def po_inv_side_ok(2))

lemma sendNew_expo:
  assumes inv: "po_inv il s" and fresh: "fresh_order s p" and room: "room_for s (po_order s p)"
    and acc: "po_sendNew il p s = (s1, None)" and sd: "real_side sd"
  shows "expo il s1 sd a i = expo il s sd a i + contrib ord_accountId sd a i (po_order s1 p)"
    and "sm_find (po_table s1) (ord_orderId (po_order s p)) = Some p"
    and "ord_state (po_order s1 p) = kPending" and "ord_cumQty (po_order s1 p) = 0"
proof -
  note s1 = po_sendNew_acceptedD [OF acc]
  have inv1: "po_inv il s1" by (rule po_sendNew_accepted_inv [OF inv fresh room acc])
  have heap: "po_heap s1 = (po_heap s)(p := (po_order s p)\<lparr>ord_action := kOrNew, ord_state := kPending\<rparr>)"
    and tab: "po_table s1 = sm_insert (po_table s) (ord_orderId (po_order s p)) p"
    by (simp_all add: s1(1) po_changeOpenOrdersCounts_def Let_def)
  have p: "p \<notin> snd ` set (po_table s)" using fresh by (simp add: fresh_order_def)
  have "pos_of il s1 a i = pos_of il s a i"
    by (simp add: pos_of_def s1(1) po_changeOpenOrdersCounts_def Let_def oop.val_upd [OF po_inv_books(2) [OF inv]] count_open_pos)
  moreover have "open_sum (po_heap s1) (po_table s1) ord_accountId sd a i =
      open_sum (po_heap s) (po_table s) ord_accountId sd a i + contrib ord_accountId sd a i (po_order s1 p)"
    unfolding tab open_sum_insert [OF s1(2)] heap open_sum_heap_other [OF p] by simp
  ultimately show "expo il s1 sd a i = expo il s sd a i + contrib ord_accountId sd a i (po_order s1 p)"
    by (simp add: expo_eq [OF inv sd] expo_eq [OF inv1 sd])
  show "sm_find (po_table s1) (ord_orderId (po_order s p)) = Some p"
    using s1(2) po_inv_books(1) [OF inv] by (simp add: tab sm_find_insert)
  show "ord_state (po_order s1 p) = kPending" "ord_cumQty (po_order s1 p) = 0"
    using fresh by (simp_all add: heap fresh_order_def)
qed

lemma remove_expo:
  assumes inv: "po_inv il s" and kp: "(k, p) \<in> set (po_table s)" and f: "same_counts (po_order s p) (f (po_order s p))"
    and sd: "real_side sd"
  shows "expo il (po_remove il p (po_set p f s)) sd a i = expo il s sd a i - contrib ord_accountId sd a i (po_order s p)"
    and "\<not> in_table (po_remove il p (po_set p f s)) p"
proof -
  let ?s' = "po_remove il p (po_set p f s)"
  have t: "table_ok (po_heap s) (po_table s)" using inv by (simp add: po_inv_def)
  have "order_ok k (po_order s p)" using t kp by (auto simp: table_ok_def)
  then have id: "ord_orderId (f (po_order s p)) = k" using f by (simp add: order_ok_def same_counts_def)
  have inv': "po_inv il ?s'" by (rule po_inv_remove [where f = f, OF inv kp f])
  have find: "sm_find (po_table s) k = Some p" using sm_find_iff [OF po_inv_books(1) [OF inv]] kp by blast
  have heap: "po_heap ?s' = (po_heap s)(p := f (po_order s p))" and tab: "po_table ?s' = sm_erase (po_table s) k"
    using id by (simp_all add: po_remove_simps)
  have "pos_of il ?s' a i = pos_of il s a i"
    by (simp add: pos_of_def po_remove_simps oop.val_upd [OF po_inv_books(2) [OF inv]] count_open_pos)
  moreover have "open_sum (po_heap ?s') (po_table ?s') ord_accountId sd a i =
      open_sum (po_heap s) (po_table s) ord_accountId sd a i - contrib ord_accountId sd a i (po_order s p)"
    unfolding tab open_sum_erase [OF find] heap open_sum_heap_at [OF t kp] by (simp add: same_counts_contrib(1) [OF f])
  ultimately show "expo il ?s' sd a i = expo il s sd a i - contrib ord_accountId sd a i (po_order s p)"
    by (simp add: expo_eq [OF inv sd] expo_eq [OF inv' sd])
  show "\<not> in_table ?s' p" using erase_other_pointer(2) [OF t kp] by (auto simp: tab)
qed

lemma newRej_expo:
  assumes inv: "po_inv il s" and kp: "(k, p) \<in> set (po_table s)" and st: "ord_state (po_order s p) = kPending"
    and sd: "real_side sd"
  shows "expo il (po_onNewRej il p rej s) sd a i = expo il s sd a i - contrib ord_accountId sd a i (po_order s p)"
    and "\<not> in_table (po_onNewRej il p rej s) p"
    and "ord_state (po_order (po_onNewRej il p rej s) p) = kRejected"
proof -
  let ?f = "\<lambda>ord. ord\<lparr>ord_action := kOrNewRej, ord_state := kRejected\<rparr>"
  have eq: "po_onNewRej il p rej s = po_remove il p (po_set p ?f s)"
    using st by (simp add: po_onNewRej_def Let_def po_set_compose comp_def)
  have f: "same_counts (po_order s p) (?f (po_order s p))" by (simp add: same_counts_def)
  show "expo il (po_onNewRej il p rej s) sd a i = expo il s sd a i - contrib ord_accountId sd a i (po_order s p)"
    "\<not> in_table (po_onNewRej il p rej s) p"
    unfolding eq using remove_expo [where f = ?f, OF inv kp f sd] by auto
  show "ord_state (po_order (po_onNewRej il p rej s) p) = kRejected" by (simp add: eq po_remove_simps)
qed

lemma po_sendNew_accepts:
  assumes "new_ok e p s"
  shows "snd (po_sendNew il p (sys_po s)) = None"
  using assms by (simp add: new_ok_def new_wf_def po_sendNew_cases Let_def)

lemma in_flight_sendNew:
  assumes n: "new_ok e p s" and s1: "po_sendNew (env_il e) p (sys_po s) = (po1, None)"
  shows "in_flight e p (s\<lparr>sys_po := po1\<rparr>)"
proof -
  have c: "po_inv (env_il e) (sys_po s)" "fresh_order (sys_po s) p" "room_for (sys_po s) (sys_order s p)"
    "within_limits (env_il e) (sys_rk s) (sys_po s) (\<lambda>_ _. 0)"
    using n by (simp_all add: new_ok_def new_wf_def sys_safe_def)
  note x = sendNew_expo [OF c(1-3) s1]
  have "(ord_orderId (sys_order s p), p) \<in> set (po_table po1)" using x(2) [of kBuy] by (simp add: sm_find_in_set)
  then have "in_table po1 p" by (rule rev_image_eqI) simp
  moreover have "within_limits (env_il e) (sys_rk s) po1
      (\<lambda>sd i. contrib ord_accountId sd (acc_id (rk_account (sys_rk s))) i (po_order po1 p))"
    by (rule within_limits_mono [OF c(4)]) (simp add: x(1))
  ultimately show ?thesis
    using n x(3,4) [of kBuy] po_sendNew_accepted_inv [OF c(1-3) s1] by (simp add: in_flight_def new_ok_def sys_safe_def)
qed

interpretation nw_orders:
  guarded_stage "os_sendNew (st_orders e)" "os_onNewRej (st_orders e)" "new_ok e" "in_flight e" "in_flight e" "refused e"
  for e :: "('d::floor_ceiling) env"
proof unfold_locales
  fix p s s' assume n: "new_ok e p s" and s': "os_sendNew (st_orders e) p s = Some (s', None)"
  obtain po1 r where po: "po_sendNew (env_il e) p (sys_po s) = (po1, r)" by fastforce
  with po_sendNew_accepts [OF n, of "env_il e"] have "po_sendNew (env_il e) p (sys_po s) = (po1, None)" by simp
  with s' in_flight_sendNew [OF n] show "in_flight e p s'" by (auto simp: st_orders_def lift_po_def)
next
  fix p s s' rej assume "new_ok e p s" and "os_sendNew (st_orders e) p s = Some (s', Some rej)"
  then show "refused e p s'"
    using po_sendNew_accepts [of e p s "env_il e"] by (auto simp: st_orders_def lift_po_def split: prod.splits)
next
  fix p s rej assume f: "in_flight e p s"
  then obtain k where k: "(k, p) \<in> set (po_table (sys_po s))" by (force simp: in_flight_def)
  have inv: "po_inv (env_il e) (sys_po s)" and st: "ord_state (sys_order s p) = kPending"
    using f by (simp_all add: in_flight_def)
  note x = newRej_expo [OF inv k st, where rej = rej]
  have "within_limits (env_il e) (sys_rk s) (sys_po s)
      (\<lambda>sd i. contrib ord_accountId sd (acc_id (rk_account (sys_rk s))) i (sys_order s p))"
    using f by (simp add: in_flight_def)
  then have "within_limits (env_il e) (sys_rk s) (po_onNewRej (env_il e) p rej (sys_po s)) (\<lambda>_ _. 0)"
    by (rule within_limits_mono) (simp add: x(1))
  with f x(2,3) [of kBuy] po_onNewRej_inv [OF inv k] show "refused e p (os_onNewRej (st_orders e) p rej s)"
    by (simp add: st_orders_def refused_def sys_safe_def in_flight_def)
qed

lemma throttle_in_flight:
  assumes f: "in_flight e p s" and s': "os_sendNew (st_throttle e) p s = Some (s', r)"
  shows "in_flight e p s'"
proof -
  have "lift_pt pt_sendNew p s = Some (s', r)" using s' by (simp add: st_throttle_def)
  then have "sys_like e p s s'" by (rule lift_pt_like [OF in_flight_ok [OF f] pt_same(1)])
  then show ?thesis by (rule sys_like_in_flight [OF _ f])
qed

lemma wtp_in_flight:
  assumes f: "in_flight e p s" and s': "os_sendNew (st_wtp e) p s = Some (s', r)"
  shows "in_flight e p s'"
proof -
  have "lift_pw (pw_sendNew (env_quotes e) (po_heap (sys_po s)) p) s = Some (s', r)" using s' by (simp add: st_wtp_def)
  with lift_pw_like [OF in_flight_ok [OF f]] show ?thesis using sys_like_in_flight [OF _ f] by blast
qed

interpretation nw_throttle:
  guarded_stage "os_sendNew (st_throttle e)" "os_onNewRej (st_throttle e)" "in_flight e" "in_flight e" "in_flight e" "in_flight e"
  for e :: "('d::floor_ceiling) env"
  by unfold_locales (auto intro: throttle_in_flight, simp add: st_throttle_def ignore_rej_def)

interpretation nw_wtp:
  guarded_stage "os_sendNew (st_wtp e)" "os_onNewRej (st_wtp e)" "in_flight e" "in_flight e" "in_flight e" "in_flight e"
  for e :: "('d::floor_ceiling) env"
  by unfold_locales (auto intro: wtp_in_flight, simp add: st_wtp_def ignore_rej_def)

text \<open>
  The risk stage: below the clip size the 32-bit sum of its check cannot wrap, so passing the
  check means that the exposure is within the limit with the new order counted.
\<close>

lemma in_flight_bounds:
  assumes f: "in_flight e p s" and sd: "real_side sd" and i: "sm_find (rk_params (sys_rk s)) i = Some x"
    and a: "a = acc_id (rk_account (sys_rk s))"
    and q: "contrib ord_accountId sd a i (sys_order s p) \<le> uint (arp_clipSize x)"
    and other: "contrib ord_accountId (if sd = kBuy then kSell else kBuy) a i (sys_order s p) = 0"
  shows "in_s32 (expo (env_il e) (sys_po s) sd a i)"
proof -
  let ?sd' = "if sd = kBuy then kSell else kBuy" and ?po = "sys_po s"
  have inv: "po_inv (env_il e) ?po" using f by (simp add: in_flight_def)
  then have t: "table_ok (po_heap ?po) (po_table ?po)" by (simp add: po_inv_def)
  have lims: "expo (env_il e) ?po sd1 a i \<le> uint (arp_maxPos x) + contrib ord_accountId sd1 a i (sys_order s p)"
    if "real_side sd1" for sd1
    using f i that unfolding in_flight_def within_limits_def a by blast
  have cfg: "uint (arp_maxPos x) + uint (arp_clipSize x) < 2147483648" "0 \<le> uint (arp_clipSize x)"
    using f i by (auto simp: in_flight_def cfg_ok_def)
  have "expo (env_il e) ?po sd a i \<le> uint (arp_maxPos x) + uint (arp_clipSize x)"
    using lims [OF sd] q by linarith
  moreover have "dir ?sd' * pos_of (env_il e) ?po a i \<le> uint (arp_maxPos x)"
    using lims [of ?sd'] other expo_eq [OF inv, of ?sd' a i] open_sum_nonneg [OF t, of ord_accountId ?sd' a i] by auto
  then have "- uint (arp_maxPos x) \<le> expo (env_il e) ?po sd a i"
    using sd open_sum_nonneg [OF t, of ord_accountId sd a i] by (auto simp: expo_eq [OF inv sd] dir_def)
  ultimately show ?thesis using cfg unfolding in_s32_iff by linarith
qed

lemma rk_exposure_expo:
  "real_side sd \<Longrightarrow> rk_exposure sd (oop_val il (po_account po) a i) = Some (s32 (expo il po sd a i))"
  by (auto simp: rk_exposure_def expo_def pos_of_def dir_def side_count_def)

lemma risk_accept_bounds:
  assumes f: "in_flight e p s" and acc: "snd (rk_sendNew (env_il e) (sys_rk s) p (sys_po s)) = None"
    and sd: "real_side sd" and i: "sm_find (rk_params (sys_rk s)) i = Some x" and a: "a = acc_id (rk_account (sys_rk s))"
  shows "expo (env_il e) (sys_po s) sd a i \<le> uint (arp_maxPos x)"
proof (cases "contrib ord_accountId sd a i (sys_order s p) = 0")
  case True
  then show ?thesis using f sd i a unfolding in_flight_def within_limits_def by fastforce
next
  case False
  then have o: "ord_side (sys_order s p) = sd" "ord_accountId (sys_order s p) = a" "ord_instrumentId (sys_order s p) = i"
    by (auto simp: contrib_def split: if_splits)
  from rk_sendNew_accepts_iff [OF in_flight_ok [OF f], of "env_il e" "sys_rk s" p] acc i a
  have r: "ord_qty (sys_order s p) \<le> as_int32 (arp_clipSize x)"
      "s32 (expo (env_il e) (sys_po s) sd a i) \<le> as_int32 (arp_maxPos x)"
    by (auto simp: o tradeable_params_def rk_exposure_expo [OF sd] split: if_splits)
  have cfg: "uint (arp_maxPos x) + uint (arp_clipSize x) < 2147483648" "0 \<le> uint (arp_maxPos x)" "0 \<le> uint (arp_clipSize x)"
    using f i by (auto simp: in_flight_def cfg_ok_def)
  have "ord_cumQty (sys_order s p) = 0" using f by (simp add: in_flight_def)
  then have "contrib ord_accountId sd a i (sys_order s p) \<le> uint (arp_clipSize x)"
    using r(1) cfg by (simp add: contrib_def o open_qty_def as_int32_small)
  moreover have "contrib ord_accountId (if sd = kBuy then kSell else kBuy) a i (sys_order s p) = 0"
    using o sd by (auto simp: contrib_def)
  ultimately have "in_s32 (expo (env_il e) (sys_po s) sd a i)" by (rule in_flight_bounds [OF f sd i a])
  with r(2) cfg show ?thesis by (simp add: s32_exact as_int32_small)
qed

lemma risk_in_flight:
  assumes f: "in_flight e p s" and s': "os_sendNew (st_risk e) p s = Some (s', r)"
  shows "in_flight e p s'" and "r = None \<Longrightarrow> sent e p s'"
proof -
  have eq: "s' = s\<lparr>sys_po := fst (rk_sendNew (env_il e) (sys_rk s) p (sys_po s))\<rparr>"
      "r = snd (rk_sendNew (env_il e) (sys_rk s) p (sys_po s))"
    using s' by (auto simp: st_risk_def lift_po_def split: prod.splits if_splits)
  have like: "sys_like e p s s'" by (simp add: sys_like_def eq(1) rk_sendNew_like in_flight_ok [OF f])
  show fl: "in_flight e p s'" by (rule sys_like_in_flight [OF like f])
  assume "r = None"
  then have "within_limits (env_il e) (sys_rk s) (sys_po s) (\<lambda>_ _. 0)"
    using risk_accept_bounds [OF f] eq(2) by (auto simp: within_limits_def)
  with f have "sys_safe e s" by (simp add: sys_safe_def in_flight_def)
  from sys_like_safe [OF like this] fl show "sent e p s'" by (simp add: sent_def)
qed

interpretation nw_risk:
  guarded_stage "os_sendNew (st_risk e)" "os_onNewRej (st_risk e)" "in_flight e" "sent e" "in_flight e" "in_flight e"
  for e :: "('d::floor_ceiling) env"
  by unfold_locales (auto intro: risk_in_flight, simp add: st_risk_def ignore_rej_def)

lemma pnl_sent:
  assumes f: "sent e p s" and s': "os_sendNew (st_pnl e) p s = Some (s', r)"
  shows "sent e p s'"
proof -
  obtain po pp where pp: "pp_sendNew (env_il e) (env_tvs e) p (sys_po s) (sys_pp s) = (po, pp, r)"
      and s'_eq: "s' = s\<lparr>sys_po := po, sys_pp := pp\<rparr>"
    using s' by (auto simp: st_pnl_def split: prod.splits)
  have "oop_ok (po_account (sys_po s))" using f by (auto simp: sent_def dest: in_flight_ok)
  from pp_sendNew_like [OF this pp] have "sys_like e p s s'" by (simp add: sys_like_def s'_eq)
  then show ?thesis by (rule sys_like_sent [OF _ f])
qed

lemma channel_sent:
  assumes f: "sent e p s" and s': "os_sendNew (st_channel e) p s = Some (s', r)"
  shows "sent e p s'"
proof -
  have "oop_ok (po_account (sys_po s))" "channel_ok e" using f by (auto simp: sent_def in_flight_def dest: po_inv_books(2))
  moreover have "lift_channel e kOrNew p s = Some (s', r)" using s' by (simp add: st_channel_def)
  ultimately show ?thesis by (rule sys_like_sent [OF lift_channel_like f])
qed

lemma sent_in_flight: "sent e p s \<Longrightarrow> in_flight e p s"
  by (simp add: sent_def)

interpretation nw_pnl:
  guarded_stage "os_sendNew (st_pnl e)" "os_onNewRej (st_pnl e)" "sent e" "sent e" "in_flight e" "in_flight e"
  for e :: "('d::floor_ceiling) env"
  by unfold_locales (auto intro: pnl_sent sent_in_flight, simp add: st_pnl_def ignore_rej_def)

interpretation nw_channel:
  guarded_stage "os_sendNew (st_channel e)" "os_onNewRej (st_channel e)" "sent e" "sent e" "in_flight e" "in_flight e"
  for e :: "('d::floor_ceiling) env"
  by unfold_locales (auto intro: channel_sent sent_in_flight, simp add: st_channel_def ignore_rej_def)

text \<open>The stages nest as \<open>StrategyContainer\<close> nests them.\<close>

lemma out_sendNew_contract: "contract (out_sendNew (TProcessorOut e)) (new_ok e) (sent e) (refused e)"
  unfolding TProcessorOut_def out_sendNew.simps
  by (intro nw_messaging.chain nw_orders.chain nw_throttle.chain nw_wtp.chain nw_risk.chain nw_pnl.chain
      nw_channel.chain contract_null)

end
