(* ===== verification/SystemSafety.thy ===== *)
theory SystemSafety
  imports ChainContracts
begin

section \<open>The account stays within its limits\<close>

text \<open>
  Every event of the container (requests, delayed and batch cancels, exchange responses, fills)
  keeps \<open>sys_safe\<close>: the order book invariant and the limit on every exposure. The step
  relation \<open>sc_step\<close> lets strategies and exchange act in any order; the strategy's
  callbacks may run any sequence of requests and uncounted writes (\<open>client_ok\<close>). New orders
  that are refused without effect are steps, too; the ones whose refusal spoils the counters are not.
\<close>

subsection \<open>Modifies and cancels change no counter\<close>

lemma po_account_frames [simp]:
  "po_account (fst (po_sendMod p s)) = po_account s" "po_account (fst (po_sendCxl p s)) = po_account s"
  "po_account (po_onModRej p rej s) = po_account s" "po_account (po_onCxlRej p rej s) = po_account s"
  "po_account (po_onNewAck p s) = po_account s" "po_account (po_onModAck p s) = po_account s"
  by (simp_all add: po_sendMod_def po_sendCxl_def po_onModRej_def po_onCxlRej_def po_onNewAck_def po_onModAck_def Let_def)

lemma po_account_post_frames [simp]:
  "po_account (po_doOnModPost p b s) = po_account s" "po_account (po_onModRejPost p rej s) = po_account s"
  "po_account (po_onModAckPost p s) = po_account s"
  by (simp_all add: po_doOnModPost_def po_onModRejPost_def po_onModAckPost_def Let_def)

lemma safe_same_account:
  assumes "sys_safe e s" and "po_inv (env_il e) po" and "po_account po = po_account (sys_po s)"
  shows "sys_safe e (s\<lparr>sys_po := po\<rparr>)"
  using assms by (simp add: sys_safe_def within_limits_def expo_def pos_of_def)

lemma safe_inv: "sys_safe e s \<Longrightarrow> po_inv (env_il e) (sys_po s)"
  by (simp add: sys_safe_def)

lemma safe_pm: "sys_safe e s \<Longrightarrow> (\<And>ord m. same_order ord (fst (f ord m))) \<Longrightarrow> sys_safe e (lift_pm f p s)"
  by (rule sys_like_safe [OF lift_pm_like]) (auto dest: sys_safe_ok)

lemma safe_pt:
  "sys_safe e s \<Longrightarrow> (\<And>ord t. same_order ord (fst (f ord t))) \<Longrightarrow> lift_pt f p s = Some (s', r) \<Longrightarrow> sys_safe e s'"
  using sys_like_safe [OF lift_pt_like [of s f p s' r e]] sys_safe_ok by blast

lemma safe_pw: "sys_safe e s \<Longrightarrow> lift_pw f s = Some (s', r) \<Longrightarrow> sys_safe e s'"
  using sys_like_safe [OF lift_pw_like] sys_safe_ok by blast

lemma safe_channel: "sys_safe e s \<Longrightarrow> lift_channel e cmd p s = Some (s', r) \<Longrightarrow> sys_safe e s'"
  using sys_like_safe [OF lift_channel_like] sys_safe_ok by (metis sys_safe_def)

lemma safe_po:
  assumes "sys_safe e s" and "lift_po f s = Some (s', r)" and "po_inv (env_il e) (fst (f (sys_po s)))"
    and "po_account (fst (f (sys_po s))) = po_account (sys_po s)"
  shows "sys_safe e s'"
  using assms safe_same_account [OF assms(1,3,4)] by (auto simp: lift_po_def split: prod.splits)

lemma safe_sendMod: "sys_safe e s \<Longrightarrow> lift_po (po_sendMod p) s = Some (s', r) \<Longrightarrow> sys_safe e s'"
  by (rule safe_po [where f = "po_sendMod p" and s = s]) (auto intro: po_sendMod_inv safe_inv)

lemma safe_sendCxl: "sys_safe e s \<Longrightarrow> lift_po (po_sendCxl p) s = Some (s', r) \<Longrightarrow> sys_safe e s'"
  by (rule safe_po [where f = "po_sendCxl p" and s = s]) (auto intro: po_sendCxl_inv safe_inv)

lemma safe_onModRej: "sys_safe e s \<Longrightarrow> sys_safe e (s\<lparr>sys_po := po_onModRej p rej (sys_po s)\<rparr>)"
  by (rule safe_same_account) (auto intro: po_onModRej_inv safe_inv)

lemma safe_onCxlRej: "sys_safe e s \<Longrightarrow> sys_safe e (s\<lparr>sys_po := po_onCxlRej p rej (sys_po s)\<rparr>)"
  by (rule safe_same_account) (auto intro: po_onCxlRej_inv safe_inv)

abbreviation safe_at :: "'d env \<Rightarrow> optr \<Rightarrow> 'd sys \<Rightarrow> bool" where
  "safe_at e p s \<equiv> sys_safe e s"

interpretation md_messaging:
  guarded_stage "os_sendMod (st_messaging e)" "os_onModRej (st_messaging e)" "safe_at e" "safe_at e" "safe_at e" "safe_at e"
  for e :: "('d::floor_ceiling) env"
  by unfold_locales (auto simp: st_messaging_def pm_sendMod_def intro!: safe_pm pm_bump_same pm_rej_same)

interpretation md_orders:
  guarded_stage "os_sendMod (st_orders e)" "os_onModRej (st_orders e)" "safe_at e" "safe_at e" "safe_at e" "safe_at e"
  for e :: "('d::floor_ceiling) env"
  by unfold_locales (auto simp: st_orders_def intro: safe_sendMod safe_onModRej)

interpretation md_throttle:
  guarded_stage "os_sendMod (st_throttle e)" "os_onModRej (st_throttle e)" "safe_at e" "safe_at e" "safe_at e" "safe_at e"
  for e :: "('d::floor_ceiling) env"
  by unfold_locales (auto simp: st_throttle_def ignore_rej_def intro: safe_pt pt_same)

interpretation md_wtp:
  guarded_stage "os_sendMod (st_wtp e)" "os_onModRej (st_wtp e)" "safe_at e" "safe_at e" "safe_at e" "safe_at e"
  for e :: "('d::floor_ceiling) env"
  by unfold_locales (auto simp: st_wtp_def ignore_rej_def intro: safe_pw)

interpretation md_risk:
  guarded_stage "os_sendMod (st_risk e)" "os_onModRej (st_risk e)" "safe_at e" "safe_at e" "safe_at e" "safe_at e"
  for e :: "('d::floor_ceiling) env"
  by unfold_locales (auto simp: st_risk_def ignore_rej_def)

interpretation md_pnl:
  guarded_stage "os_sendMod (st_pnl e)" "os_onModRej (st_pnl e)" "safe_at e" "safe_at e" "safe_at e" "safe_at e"
  for e :: "('d::floor_ceiling) env"
  by unfold_locales (auto simp: st_pnl_def ignore_rej_def out_null_def)

interpretation md_channel:
  guarded_stage "os_sendMod (st_channel e)" "os_onModRej (st_channel e)" "safe_at e" "safe_at e" "safe_at e" "safe_at e"
  for e :: "('d::floor_ceiling) env"
  by unfold_locales (auto simp: st_channel_def ignore_rej_def intro: safe_channel)

lemma out_sendMod_contract: "contract (out_sendMod (TProcessorOut e)) (safe_at e) (safe_at e) (safe_at e)"
  unfolding TProcessorOut_def out_sendMod.simps
  by (intro md_messaging.chain md_orders.chain md_throttle.chain md_wtp.chain md_risk.chain md_pnl.chain
      md_channel.chain contract_null)

interpretation cx_messaging:
  guarded_stage "os_sendCxl (st_messaging e)" "os_onCxlRej (st_messaging e)" "safe_at e" "safe_at e" "safe_at e" "safe_at e"
  for e :: "('d::floor_ceiling) env"
  by unfold_locales (auto simp: st_messaging_def pm_sendCxl_def intro!: safe_pm pm_bump_same pm_rej_same)

interpretation cx_orders:
  guarded_stage "os_sendCxl (st_orders e)" "os_onCxlRej (st_orders e)" "safe_at e" "safe_at e" "safe_at e" "safe_at e"
  for e :: "('d::floor_ceiling) env"
  by unfold_locales (auto simp: st_orders_def intro: safe_sendCxl safe_onCxlRej)

interpretation cx_throttle:
  guarded_stage "os_sendCxl (st_throttle e)" "os_onCxlRej (st_throttle e)" "safe_at e" "safe_at e" "safe_at e" "safe_at e"
  for e :: "('d::floor_ceiling) env"
  by unfold_locales (auto simp: st_throttle_def ignore_rej_def intro: safe_pt pt_same)

interpretation cx_wtp:
  guarded_stage "os_sendCxl (st_wtp e)" "os_onCxlRej (st_wtp e)" "safe_at e" "safe_at e" "safe_at e" "safe_at e"
  for e :: "('d::floor_ceiling) env"
  by unfold_locales (auto simp: st_wtp_def ignore_rej_def intro: safe_pw)

interpretation cx_risk:
  guarded_stage "os_sendCxl (st_risk e)" "os_onCxlRej (st_risk e)" "safe_at e" "safe_at e" "safe_at e" "safe_at e"
  for e :: "('d::floor_ceiling) env"
  by unfold_locales (auto simp: st_risk_def ignore_rej_def)

interpretation cx_pnl:
  guarded_stage "os_sendCxl (st_pnl e)" "os_onCxlRej (st_pnl e)" "safe_at e" "safe_at e" "safe_at e" "safe_at e"
  for e :: "('d::floor_ceiling) env"
  by unfold_locales (auto simp: st_pnl_def ignore_rej_def out_null_def)

interpretation cx_channel:
  guarded_stage "os_sendCxl (st_channel e)" "os_onCxlRej (st_channel e)" "safe_at e" "safe_at e" "safe_at e" "safe_at e"
  for e :: "('d::floor_ceiling) env"
  by unfold_locales (auto simp: st_channel_def ignore_rej_def intro: safe_channel)

lemma out_sendCxl_contract: "contract (out_sendCxl (TProcessorOut e)) (safe_at e) (safe_at e) (safe_at e)"
  unfolding TProcessorOut_def out_sendCxl.simps
  by (intro cx_messaging.chain cx_orders.chain cx_throttle.chain cx_wtp.chain cx_risk.chain cx_pnl.chain
      cx_channel.chain contract_null)

subsection \<open>Fills move open quantity into the position\<close>

lemma fill_account_val:
  assumes inv: "po_inv il s" and kp: "(k, p) \<in> set (po_table s)"
    and f: "fl_type f = kNormal" "fl_order f = Some p" "fill_matches f (po_order s p)" and sd: "real_side sd"
  shows "side_count sd (oop_val il (po_account (fst (po_onFill il f s))) a i) =
      side_count sd (oop_val il (po_account s) a i) -
        (if fl_side f = sd \<and> a = fl_accountId f \<and> i = fl_instrumentId f then fl_qty f else 0)"
    and "pos_of il (fst (po_onFill il f s)) a i =
      (if a = fl_accountId f \<and> i = fl_instrumentId f \<and> real_side (fl_side f)
       then s32 (pos_of il s a i + dir (fl_side f) * fl_qty f) else pos_of il s a i)"
proof -
  let ?ord = "po_order s p" and ?m = "po_account s"
  define m where "m = (if ord_qty ?ord \<le> ord_cumQty ?ord + fl_qty f then po_account (po_remove il p (filled_up p s)) else ?m)"
  have old: "order_ok k ?ord" using inv kp by (auto simp: po_inv_def table_ok_def)
  note ok = po_inv_books(2) [OF inv]
  have q: "0 < fl_qty f" "ord_cumQty ?ord + fl_qty f \<le> ord_qty ?ord" "tw_ok (fl_qty f)"
    using f(3) old by (auto simp: fill_matches_def open_qty_def order_ok_def tw_ok_iff INT32_MAX_def)
  have cum: "size_add_eq (ord_cumQty ?ord) (fl_qty f) = ord_cumQty ?ord + fl_qty f"
    using old q by (simp add: order_ok_def tw_ok_iff INT32_MAX_def wrap_simps)
  have st: "ord_state ?ord \<noteq> kFilled" using old by (auto simp: order_ok_def isOrderLive.simps)
  have acc: "po_account (fst (po_onFill il f s)) = oop_update il m (fl_accountId f) (fl_instrumentId f) (count_fill f)"
    unfolding po_onFill_normal_eq [OF f(1,2) st cum, of il] m_def
    using q(2) by (auto simp: po_changePosCounts_def Let_def filled_up_def po_remove_simps)
  have m_ok: "oop_ok m" using ok filled_up_remove_val(3) [OF inv old, of kBuy] by (simp add: m_def)
  have m_side: "side_count sd1 (oop_val il m x y) = side_count sd1 (oop_val il ?m x y)" if "real_side sd1" for sd1 x y
    using filled_up_remove_val(1) [OF inv old that, of x y] by (simp add: m_def)
  have m_pos: "iop_pos (oop_val il m x y) = iop_pos (oop_val il ?m x y)" for x y
    using filled_up_remove_val(2) [OF inv old, of kBuy x y] by (simp add: m_def)
  have le: "(if fl_side f = sd then fl_qty f else 0) \<le> side_count sd (oop_val il ?m (fl_accountId f) (fl_instrumentId f))"
    using contrib_le_open_sum [OF _ kp, of "po_heap s" ord_accountId sd "fl_accountId f" "fl_instrumentId f"] inv f(3) q(1)
      open_sum_nonneg [of "po_heap s" "po_table s" ord_accountId sd "fl_accountId f" "fl_instrumentId f"]
    by (auto simp: po_inv_def contrib_def fill_matches_def po_inv_side_ok(2) [OF inv sd])
  have tw: "tw_ok (side_count sd (oop_val il ?m x y))" for x y by (rule po_inv_side_ok(1) [OF inv sd])
  have "side_count sd (count_fill f (oop_val il m (fl_accountId f) (fl_instrumentId f))) =
      side_count sd (oop_val il m (fl_accountId f) (fl_instrumentId f)) - (if fl_side f = sd then fl_qty f else 0)"
    using le tw [of "fl_accountId f" "fl_instrumentId f"] q(1)
    by (intro count_fill_normal [OF f(1) sd q(3)]) (auto simp: m_side [OF sd] tw_ok_iff split: if_splits)
  then show "side_count sd (oop_val il (po_account (fst (po_onFill il f s))) a i) =
      side_count sd (oop_val il (po_account s) a i) -
        (if fl_side f = sd \<and> a = fl_accountId f \<and> i = fl_instrumentId f then fl_qty f else 0)"
    by (auto simp: acc oop.val_upd [OF m_ok] m_side [OF sd])
  show "pos_of il (fst (po_onFill il f s)) a i =
      (if a = fl_accountId f \<and> i = fl_instrumentId f \<and> real_side (fl_side f)
       then s32 (pos_of il s a i + dir (fl_side f) * fl_qty f) else pos_of il s a i)"
    using f(1) by (auto simp: pos_of_def acc oop.val_upd [OF m_ok] count_fill_def Let_def m_pos dir_def split: eOrderSide.splits)
qed

lemma safe_fill:
  assumes safe: "sys_safe e s" and kp: "(k, p) \<in> set (po_table (sys_po s))"
    and f: "fl_type f = kNormal" "fl_order f = Some p" "fill_matches f (sys_order s p)"
  shows "sys_safe e (s\<lparr>sys_po := fst (po_onFill (env_il e) f (sys_po s))\<rparr>)"
proof -
  let ?il = "env_il e" and ?po = "sys_po s" and ?acc = "acc_id (rk_account (sys_rk s))"
  let ?po' = "fst (po_onFill ?il f ?po)"
  have inv: "po_inv ?il ?po" by (rule safe_inv [OF safe])
  have inv': "po_inv ?il ?po'" by (rule po_onFill_normal_inv [OF inv kp f])
  note v = fill_account_val [OF inv kp f]
  have "expo ?il ?po' sd ?acc i \<le> uint (arp_maxPos x)"
    if sd: "real_side sd" and i: "sm_find (rk_params (sys_rk s)) i = Some x" for sd i x
  proof -
    have lim: "expo ?il ?po sd1 ?acc i \<le> uint (arp_maxPos x)" if "real_side sd1" for sd1
      using safe i that by (fastforce simp: sys_safe_def within_limits_def)
    have nonneg: "0 \<le> side_count sd1 (oop_val ?il (po_account ?po') ?acc i)" if "real_side sd1" for sd1
      using open_sum_nonneg inv' po_inv_side_ok(2) [OF inv' that] by (metis po_inv_def)
    have q: "0 < fl_qty f" using f(3) by (simp add: fill_matches_def)
    have "uint (arp_maxPos x) + uint (arp_clipSize x) < 2147483648" using safe i by (auto simp: sys_safe_def cfg_ok_def)
    then have cfg: "uint (arp_maxPos x) < 2147483648" using uint_ge_0 [of "arp_clipSize x"] by linarith
    have b: "pos_of ?il ?po ?acc i + side_count kBuy (oop_val ?il (po_account ?po) ?acc i) \<le> uint (arp_maxPos x)"
      "side_count kSell (oop_val ?il (po_account ?po) ?acc i) - pos_of ?il ?po ?acc i \<le> uint (arp_maxPos x)"
      using lim [of kBuy] lim [of kSell] by (simp_all add: expo_def dir_def)
    have n: "0 \<le> side_count kBuy (oop_val ?il (po_account ?po') ?acc i)"
      "0 \<le> side_count kSell (oop_val ?il (po_account ?po') ?acc i)" using nonneg by blast+
    show ?thesis
    proof (cases "?acc = fl_accountId f \<and> i = fl_instrumentId f \<and> real_side (fl_side f)")
      case True
      have "in_s32 (pos_of ?il ?po ?acc i + dir (fl_side f) * fl_qty f)"
        using b n q cfg True v(1) [of kBuy ?acc i] v(1) [of kSell ?acc i] unfolding in_s32_iff
        by (auto simp: dir_def)
      with True v(1) [OF sd, of ?acc i] v(2) [OF sd, of ?acc i] b q sd show ?thesis
        by (auto simp: expo_def s32_exact dir_def split: if_splits)
    next
      case False
      with v(1) [OF sd, of ?acc i] v(2) [OF sd, of ?acc i] lim [OF sd] sd q show ?thesis
        by (auto simp: expo_def split: if_splits)
    qed
  qed
  with safe inv' show ?thesis by (simp add: sys_safe_def within_limits_def)
qed

subsection \<open>New orders that are refused and count for nothing\<close>

text \<open>Sent a second time, or without a quantity. The chain undoes what the messaging stage has counted.\<close>

definition new_moot :: "'d po_state \<Rightarrow> optr \<Rightarrow> bool" where
  "new_moot po p \<longleftrightarrow> ord_state (po_order po p) \<noteq> kUnknownState \<or>
     p \<notin> snd ` set (po_table po) \<and> sm_find (po_table po) (ord_orderId (po_order po p)) = None \<and>
     ord_qty (po_order po p) = 0 \<and> ord_cumQty (po_order po p) = 0"

lemma moot_refused:
  assumes inv: "po_inv il s" and moot: "new_moot s p"
  shows "\<exists>s' rej. po_sendNew il p s = (s', Some rej) \<and> po_inv il s' \<and> oop_val il (po_account s') = oop_val il (po_account s)"
proof (cases "ord_state (po_order s p) = kUnknownState")
  case False
  then show ?thesis using po_sendNew_bad_state_inv [OF inv False] by (simp add: po_sendNew_cases Let_def)
next
  case True
  then have c: "counts_nothing s p" and q: "ord_qty (po_order s p) = 0" "ord_cumQty (po_order s p) = 0"
    using moot by (simp_all add: new_moot_def counts_nothing_def)
  let ?mark = "\<lambda>ord. ord\<lparr>ord_action := kOrNewRej, ord_state := kRejected\<rparr>"
  have s': "po_sendNew il p s = (po_remove il p (po_set p ?mark s), Some (po_getRej kInvalidOrderQty))"
    using True q by (auto simp: po_sendNew_cases Let_def po_onNewRej_def po_set_def)
  have "po_inv il (po_set p ?mark s)" by (rule po_inv_set [OF inv]) (use c in \<open>simp add: counts_nothing_def\<close>)
  then have "oop_val il (po_account (po_remove il p (po_set p ?mark s))) = oop_val il (po_account (po_set p ?mark s))"
    unfolding po_remove_simps using q by (intro book_val_nothing) (auto simp: po_inv_def)
  then show ?thesis using s' po_sendNew_nothing_inv [OF inv c s'] by simp
qed

lemma safe_new_moot:
  assumes safe: "sys_safe e s" and moot: "new_moot (sys_po s) p" and s': "out_sendNew (TProcessorOut e) p s = Some (s', r)"
  shows "sys_safe e s'"
proof -
  define s1 where "s1 = lift_pm (pm_sendNew (env_il e)) p s"
  have l: "sys_like e p s s1" unfolding s1_def pm_sendNew_def by (rule lift_pm_like [OF sys_safe_ok [OF safe] pm_bump_same])
  have safe1: "sys_safe e s1" by (rule sys_like_safe [OF l safe])
  have t: "po_table (sys_po s1) = po_table (sys_po s)" "same_order (sys_order s p) (sys_order s1 p)"
    using l by (auto simp: sys_like_def po_like_def)
  then have "new_moot (sys_po s1) p" using moot by (auto simp: new_moot_def same_order_def same_counts_def)
  from moot_refused [OF safe_inv [OF safe1] this] obtain po1 rej where
    po: "po_sendNew (env_il e) p (sys_po s1) = (po1, Some rej)" "po_inv (env_il e) po1"
      "oop_val (env_il e) (po_account po1) = oop_val (env_il e) (po_account (sys_po s1))" by blast
  have "sys_safe e (s1\<lparr>sys_po := po1\<rparr>)" using safe1 po(2,3) by (simp add: sys_safe_def within_limits_def expo_def pos_of_def)
  then have "sys_safe e (lift_pm (\<lambda>ord. pm_onNewRej (env_il e) ord rej) p (s1\<lparr>sys_po := po1\<rparr>))" by (rule safe_pm) (rule pm_rej_same)
  moreover have "s' = lift_pm (\<lambda>ord. pm_onNewRej (env_il e) ord rej) p (s1\<lparr>sys_po := po1\<rparr>)"
    using s' po(1) by (simp add: TProcessorOut_def out_call_def st_messaging_def st_orders_def lift_po_def s1_def)
  ultimately show ?thesis by simp
qed

subsection \<open>Strategies\<close>

text \<open>What a strategy can do inside a callback: requests down the chain, and writes to uncounted fields.\<close>

inductive sys_act :: "('d::floor_ceiling) env \<Rightarrow> 'd sys \<Rightarrow> 'd sys \<Rightarrow> bool" for e where
  act_new: "new_wf (sys_po s) p \<or> new_moot (sys_po s) p \<Longrightarrow> out_sendNew (TProcessorOut e) p s = Some (s', r) \<Longrightarrow> sys_act e s s'"
| act_mod: "out_sendMod (TProcessorOut e) p s = Some (s', r) \<Longrightarrow> sys_act e s s'"
| act_cxl: "out_sendCxl (TProcessorOut e) p s = Some (s', r) \<Longrightarrow> sys_act e s s'"
| act_write: "client_write f \<Longrightarrow> sys_act e s (sys_po_upd (po_set p f) s)"

definition client_ok :: "('d::floor_ceiling) env \<Rightarrow> bool" where
  "client_ok e \<longleftrightarrow> (\<forall>ev p s. (sys_act e)\<^sup>*\<^sup>* s (env_client e ev p s))"

lemma safe_po_upd:
  "sys_safe e s \<Longrightarrow> po_inv (env_il e) (f (sys_po s)) \<Longrightarrow> po_account (f (sys_po s)) = po_account (sys_po s) \<Longrightarrow>
   sys_safe e (sys_po_upd f s)"
  by (simp add: sys_po_upd_def safe_same_account)

lemma safe_benign: "benign f \<Longrightarrow> sys_safe e s \<Longrightarrow> sys_safe e (sys_po_upd (po_set p f) s)"
  by (rule safe_po_upd) (auto intro: po_inv_benign safe_inv)

lemma safe_contract:
  "contract f (safe_at e) (safe_at e) (safe_at e) \<Longrightarrow> sys_safe e s \<Longrightarrow> f p s = Some (s', r) \<Longrightarrow> sys_safe e s'"
  unfolding contract_def by (metis (full_types))

lemma safe_out_new:
  "sys_safe e s \<Longrightarrow> new_wf (sys_po s) p \<or> new_moot (sys_po s) p \<Longrightarrow> out_sendNew (TProcessorOut e) p s = Some (s', r) \<Longrightarrow> sys_safe e s'"
  using contractD [OF out_sendNew_contract, of e p s s'] safe_new_moot [of e s p s' r]
  by (cases r) (auto simp: new_ok_def sent_def refused_def)

lemma safe_act: "sys_act e s s' \<Longrightarrow> sys_safe e s \<Longrightarrow> sys_safe e s'"
proof (induction rule: sys_act.induct)
  case act_new
  then show ?case by (blast intro: safe_out_new)
next
  case act_mod
  then show ?case by (blast intro: safe_contract [OF out_sendMod_contract])
next
  case act_cxl
  then show ?case by (blast intro: safe_contract [OF out_sendCxl_contract])
qed (blast intro: safe_benign client_write_benign)

lemma safe_acts: "(sys_act e)\<^sup>*\<^sup>* s s' \<Longrightarrow> sys_safe e s \<Longrightarrow> sys_safe e s'"
  by (induction rule: rtranclp_induct) (auto intro: safe_act)

lemma safe_client: "client_ok e \<Longrightarrow> sys_safe e s \<Longrightarrow> sys_safe e (env_client e ev p s)"
  unfolding client_ok_def using safe_acts by blast

subsection \<open>Requests of the container\<close>

lemma benign_container [simp]:
  "benign (\<lambda>ord. ord\<lparr>ord_timestamp1 := now\<rparr>)" "benign (\<lambda>ord. ord\<lparr>ord_stratReason := reason\<rparr>)"
  by (simp_all add: benign_def same_counts_def isOrderLive.simps)

lemma safe_mark: "sys_safe e s \<Longrightarrow> sys_safe e (sys_mark now p s)"
  by (simp add: sys_mark_def safe_benign)

lemma safe_sc_sendNew:
  assumes "client_ok e" and "sys_safe e s" and "new_wf (sys_po s) p \<or> new_moot (sys_po s) p" and "sc_sendNew e now p s = Some (s', r)"
  shows "sys_safe e s'"
  using assms(4) safe_out_new [OF assms(2,3)] assms(2)
  by (auto simp: sc_sendNew_def intro!: safe_mark safe_client [OF assms(1)] split: if_splits option.splits)

lemma safe_sc_sendMod:
  assumes "client_ok e" and "sys_safe e s" and "sc_sendMod e now p s = Some (s', r)"
  shows "sys_safe e s'"
proof -
  note chain = safe_contract [OF out_sendMod_contract assms(2)]
  have post: "sys_safe e (sys_po_upd (po_onModRejPost p rej) t)" if "sys_safe e t" for rej t
    by (rule safe_po_upd [OF that]) (auto intro: po_onModRejPost_inv safe_inv that)
  have rej: "sys_safe e (sys_po_upd (po_onModRej p rej) t)" if "sys_safe e t" for rej t
    using safe_onModRej [OF that] by (simp add: sys_po_upd_def)
  from assms(2,3) show ?thesis
    by (auto simp: sc_sendMod_def Let_def intro!: safe_mark post safe_client [OF assms(1)] rej
        intro: chain split: if_splits option.splits)
qed

lemma safe_sc_sendCxl:
  assumes "client_ok e" and "sys_safe e s" and "sc_sendCxl e now p s = Some (s', r)"
  shows "sys_safe e s'"
  using assms(2,3) safe_contract [OF out_sendCxl_contract assms(2)]
  by (auto simp: sc_sendCxl_def intro!: safe_mark safe_client [OF assms(1)] split: if_splits option.splits)

lemma safe_sc_batch:
  "client_ok e \<Longrightarrow> sys_safe e s \<Longrightarrow> sc_sendCxlForBatch e now reason ps s = Some s' \<Longrightarrow> sys_safe e s'"
proof (induction ps arbitrary: s)
  case (Cons p ps)
  have "sys_safe e (sys_po_upd (po_set p (\<lambda>ord. ord\<lparr>ord_stratReason := reason\<rparr>)) s)"
    by (simp add: safe_benign Cons.prems(2))
  with Cons.prems(3) show ?case
    by (auto intro: Cons.IH [OF Cons.prems(1)] safe_sc_sendCxl [OF Cons.prems(1)] split: option.splits)
qed simp

lemma safe_checkCancelOnAck:
  assumes "client_ok e" and "sys_safe e s" and "checkCancelOnAck e now p s = Some (s', al)"
  shows "sys_safe e s'"
proof -
  have "sys_safe e (sys_po_upd (po_set p (\<lambda>ord. ord\<lparr>ord_cancelOnAck := False\<rparr>)) s)"
    by (simp add: safe_benign assms(2))
  with assms(2,3) show ?thesis
    by (auto simp: checkCancelOnAck_def intro: safe_sc_sendCxl [OF assms(1)] split: if_splits option.splits)
qed

subsection \<open>Responses\<close>

lemma safe_newRej:
  assumes safe: "sys_safe e s" and kp: "(k, p) \<in> set (po_table (sys_po s))"
  shows "sys_safe e (s\<lparr>sys_po := po_onNewRej (env_il e) p rej (sys_po s)\<rparr>)"
proof (cases "ord_state (sys_order s p) = kPending")
  case True
  have inv: "po_inv (env_il e) (sys_po s)" by (rule safe_inv [OF safe])
  have t: "order_ok k (sys_order s p)" using inv kp by (auto simp: po_inv_def table_ok_def)
  have "within_limits (env_il e) (sys_rk s) (sys_po s) (\<lambda>_ _. 0)" using safe by (simp add: sys_safe_def)
  then have "within_limits (env_il e) (sys_rk s) (po_onNewRej (env_il e) p rej (sys_po s)) (\<lambda>_ _. 0)"
    by (rule within_limits_mono) (simp add: newRej_expo(1) [OF inv kp True] contrib_nonneg [OF t])
  with safe po_onNewRej_inv [OF inv kp] show ?thesis by (simp add: sys_safe_def)
next
  case False
  have inv: "po_inv (env_il e) (sys_po s)" by (rule safe_inv [OF safe])
  have "order_ok k (sys_order s p)" using inv kp by (auto simp: po_inv_def table_ok_def)
  then have "ord_state (sys_order s p) \<noteq> kUnknownState" by (auto simp: order_ok_def isOrderLive.simps)
  with False have "po_account (po_onNewRej (env_il e) p rej (sys_po s)) = po_account (sys_po s)"
    by (simp add: po_onNewRej_def Let_def)
  with po_onNewRej_inv [OF inv kp] show ?thesis by (rule safe_same_account [OF safe])
qed

lemma safe_cxlAck:
  assumes safe: "sys_safe e s" and kp: "(k, p) \<in> set (po_table (sys_po s))"
  shows "sys_safe e (s\<lparr>sys_po := po_onCxlAck (env_il e) p (sys_po s)\<rparr>)"
proof -
  let ?f = "\<lambda>ord. ord\<lparr>ord_action := kOrCxlAck, ord_state := kCancelled\<rparr>"
  have inv: "po_inv (env_il e) (sys_po s)" by (rule safe_inv [OF safe])
  have t: "order_ok k (sys_order s p)" using inv kp by (auto simp: po_inv_def table_ok_def)
  have f: "same_counts (sys_order s p) (?f (sys_order s p))" by (simp add: same_counts_def)
  have "within_limits (env_il e) (sys_rk s) (sys_po s) (\<lambda>_ _. 0)" using safe by (simp add: sys_safe_def)
  then have "within_limits (env_il e) (sys_rk s) (po_onCxlAck (env_il e) p (sys_po s)) (\<lambda>_ _. 0)"
    by (rule within_limits_mono)
      (simp add: po_onCxlAck_def remove_expo(1) [where f = ?f, OF inv kp f] contrib_nonneg [OF t])
  with safe po_onCxlAck_inv [OF inv kp] show ?thesis by (simp add: sys_safe_def)
qed

text \<open>The stages in front of \<open>ProcessorOrders\<close> write position and message counts into a fill, nothing it is counted by.\<close>

definition fill_core :: "'d fill \<Rightarrow> eFillType \<times> account_id \<times> strategy_id \<times> instr_id \<times> eOrderSide \<times> size \<times> optr option" where
  "fill_core f = (fl_type f, fl_accountId f, fl_strategyId f, fl_instrumentId f, fl_side f, fl_qty f, fl_order f)"

lemma pn_processFill_core: "fill_core (snd (snd (pn_processFill il pre post b f cs))) = fill_core f"
  by (simp add: pn_processFill_def Let_def fill_core_def split: prod.splits bool.splits option.splits)

lemma pp_onFill_core: "fill_core (snd (pp_onFill il f s)) = fill_core f"
proof -
  obtain s1 c where g: "pp_getOrCreatePnl s (fl_strategyId f) (fl_instrumentId f) = (s1, c)" by fastforce
  obtain c1 s2 f1 where n: "pn_onFill il (pp_preProcess (fl_strategyId f))
      (pp_postProcess (fl_strategyId f) (fl_instrumentId f)) f (c, s1) = (c1, s2, f1)" by (metis prod_cases3)
  have "fill_core f1 = fill_core f"
    using pn_processFill_core [of il "pp_preProcess (fl_strategyId f)" "pp_postProcess (fl_strategyId f) (fl_instrumentId f)" False f "(c, s1)"] n
    by (simp add: pn_onFill_def)
  then show ?thesis by (simp add: pp_onFill_def Let_def g n fill_core_def)
qed

lemma pm_onFill_core: "fill_core (fst (pm_onFill il f s)) = fill_core f"
  by (simp add: pm_onFill_def Let_def fill_core_def split: prod.splits option.splits)

lemma in_fill_eq:
  obtains f2 pp pm where "fill_core f2 = fill_core f"
    "fst (in_onFill (TProcessorIn e) f s) =
       (s\<lparr>sys_pp := pp, sys_pm := pm\<rparr>)\<lparr>sys_po := fst (po_onFill (env_il e) f2 (sys_po s))\<rparr>"
proof -
  obtain pp f1 where 1: "pp_onFill (env_il e) f (sys_pp s) = (pp, f1)" by fastforce
  obtain f2 pm where 2: "pm_onFill (env_il e) f1 (sys_pm s) = (f2, pm)" by fastforce
  have "fill_core f2 = fill_core f"
    using pp_onFill_core [of "env_il e" f "sys_pp s"] pm_onFill_core [of "env_il e" f1 "sys_pm s"] by (simp add: 1 2)
  moreover have "fst (in_onFill (TProcessorIn e) f s) =
       (s\<lparr>sys_pp := pp, sys_pm := pm\<rparr>)\<lparr>sys_po := fst (po_onFill (env_il e) f2 (sys_po s))\<rparr>"
    by (simp add: in_onFill_def TProcessorIn_def in_pnl_def in_messaging_def in_orders_def 1 2 split: prod.splits)
  ultimately show ?thesis by (rule that)
qed

lemma safe_other: "sys_safe e s \<Longrightarrow> sys_safe e (s\<lparr>sys_pp := pp, sys_pm := pm\<rparr>)"
  by (simp add: sys_safe_def)

lemma safe_sc_onFill:
  assumes "client_ok e" and safe: "sys_safe e s" and kp: "(k, p) \<in> set (po_table (sys_po s))"
    and f: "fl_type f = kNormal" "fl_order f = Some p" "fill_matches f (sys_order s p)"
  shows "sys_safe e (sc_onFill e f p s)"
proof -
  obtain f2 pp pm where core: "fill_core f2 = fill_core f"
    and s1: "fst (in_onFill (TProcessorIn e) f s) =
       (s\<lparr>sys_pp := pp, sys_pm := pm\<rparr>)\<lparr>sys_po := fst (po_onFill (env_il e) f2 (sys_po s))\<rparr>"
    by (rule in_fill_eq)
  have "sys_safe e ((s\<lparr>sys_pp := pp, sys_pm := pm\<rparr>)\<lparr>sys_po :=
      fst (po_onFill (env_il e) f2 (sys_po (s\<lparr>sys_pp := pp, sys_pm := pm\<rparr>)))\<rparr>)"
    using core f by (intro safe_fill [OF safe_other [OF safe], where k = k and p = p])
      (auto simp: kp fill_core_def fill_matches_def)
  then have "sys_safe e (fst (in_onFill (TProcessorIn e) f s))" by (simp add: s1)
  then show ?thesis by (auto simp: sc_onFill_def intro: safe_client [OF assms(1)] split: prod.splits)
qed

lemma in_stage_defs:
  "in_onNewAck (TProcessorIn e) p s = s\<lparr>sys_po := po_onNewAck p (sys_po s)\<rparr>"
  "in_onModAck (TProcessorIn e) p s = s\<lparr>sys_po := po_onModAck p (sys_po s)\<rparr>"
  "in_onCxlAck (TProcessorIn e) p s = s\<lparr>sys_po := po_onCxlAck (env_il e) p (sys_po s)\<rparr>"
  "in_onNewRej (TProcessorIn e) p rej s =
     (let s1 = lift_pm (\<lambda>ord. pm_onNewRej (env_il e) ord rej) p s in s1\<lparr>sys_po := po_onNewRej (env_il e) p rej (sys_po s1)\<rparr>)"
  "in_onModRej (TProcessorIn e) p rej s =
     (let s1 = lift_pm (\<lambda>ord. pm_onModRej (env_il e) ord rej) p s in s1\<lparr>sys_po := po_onModRej p rej (sys_po s1)\<rparr>)"
  "in_onCxlRej (TProcessorIn e) p rej s =
     (let s1 = lift_pm (\<lambda>ord. pm_onCxlRej (env_il e) ord rej) p s in s1\<lparr>sys_po := po_onCxlRej p rej (sys_po s1)\<rparr>)"
  by (simp_all add: in_onNewAck_def in_onModAck_def in_onCxlAck_def in_onNewRej_def in_onModRej_def in_onCxlRej_def
      TProcessorIn_def in_pnl_def in_messaging_def in_orders_def st_messaging_def st_orders_def ignore_rej_def Let_def)

lemma lift_pm_table [simp]: "po_table (sys_po (lift_pm f p s)) = po_table (sys_po s)"
  by (simp add: lift_pm_def sys_write_def split: prod.splits)

lemma safe_sc_onNewAck:
  assumes "client_ok e" and "sys_safe e s" and "sc_onNewAck e now p s = Some (s', al)"
  shows "sys_safe e s'"
proof (rule safe_checkCancelOnAck [OF assms(1) _ assms(3) [unfolded sc_onNewAck_def]], rule safe_client [OF assms(1)])
  show "sys_safe e (in_onNewAck (TProcessorIn e) p s)"
    unfolding in_stage_defs by (rule safe_same_account [OF assms(2)]) (auto intro: po_onNewAck_inv safe_inv assms(2))
qed

lemma safe_sc_onModAck:
  assumes "client_ok e" and "sys_safe e s" and "sc_onModAck e now p s = Some (s', al)"
  shows "sys_safe e s'"
proof (rule safe_checkCancelOnAck [OF assms(1) _ assms(3) [unfolded sc_onModAck_def]])
  let ?s1 = "env_client e CbModAck p (in_onModAck (TProcessorIn e) p s)"
  have "sys_safe e (in_onModAck (TProcessorIn e) p s)"
    unfolding in_stage_defs by (rule safe_same_account [OF assms(2)]) (auto intro: po_onModAck_inv safe_inv assms(2))
  then have "sys_safe e ?s1" by (rule safe_client [OF assms(1)])
  then show "sys_safe e (sys_po_upd (po_onModAckPost p) ?s1)"
    by (rule safe_po_upd) (simp_all add: po_onModAckPost_def po_doOnModPost_inv safe_inv \<open>sys_safe e ?s1\<close>)
qed

lemma safe_sc_onModRej:
  assumes "client_ok e" and "sys_safe e s" and "sc_onModRej e now p rej s = Some (s', al)"
  shows "sys_safe e s'"
proof (rule safe_checkCancelOnAck [OF assms(1) _ assms(3) [unfolded sc_onModRej_def]])
  let ?s1 = "env_client e (CbModRej rej) p (in_onModRej (TProcessorIn e) p rej s)"
  have "sys_safe e (in_onModRej (TProcessorIn e) p rej s)"
    unfolding in_stage_defs Let_def by (intro safe_onModRej safe_pm pm_rej_same assms(2))
  then have s1: "sys_safe e ?s1" by (rule safe_client [OF assms(1)])
  then show "sys_safe e (sys_po_upd (po_onModRejPost p rej) ?s1)"
    by (rule safe_po_upd) (auto intro: po_onModRejPost_inv safe_inv s1)
qed

lemma safe_sc_onNewRej:
  assumes "client_ok e" and "sys_safe e s" and "(k, p) \<in> set (po_table (sys_po s))"
  shows "sys_safe e (sc_onNewRej e p rej s)"
  unfolding sc_onNewRej_def in_stage_defs Let_def
  by (rule safe_client [OF assms(1)], rule safe_newRej [where k = k]) (auto intro: safe_pm pm_rej_same assms(2) simp: assms(3))

lemma safe_sc_onCxlAck:
  assumes "client_ok e" and "sys_safe e s" and "(k, p) \<in> set (po_table (sys_po s))"
  shows "sys_safe e (sc_onCxlAck e p s)"
  unfolding sc_onCxlAck_def in_stage_defs
  by (rule safe_client [OF assms(1)], rule safe_cxlAck [OF assms(2,3)])

lemma safe_sc_onCxlRej:
  assumes "client_ok e" and "sys_safe e s"
  shows "sys_safe e (sc_onCxlRej e p rej s)"
  unfolding sc_onCxlRej_def in_stage_defs Let_def
  by (intro safe_client [OF assms(1)] safe_onCxlRej safe_pm pm_rej_same assms(2))

lemma same_order_translate:
  "same_order ord (tr_copyCommonFields r ord)" "same_order ord (fst (translateModAck cast r ord))"
  by (simp_all add: translateModAck_def tr_copyCommonFields_def Let_def same_order_def same_counts_def split: option.splits)

lemma safe_write: "sys_safe e s \<Longrightarrow> same_order (sys_order s p) ord \<Longrightarrow> sys_safe e (sys_write p ord s)"
  using sys_like_safe [OF sys_write_like] sys_safe_ok by blast

lemma sys_write_table [simp]: "po_table (sys_po (sys_write p ord s)) = po_table (sys_po s)"
  by (simp add: sys_write_def)

text \<open>
  What the exchange promises: it rejects a new order and confirms a cancel only for orders that
  are still open, and it does not fill more than is open. (Trade breaks are excluded: they can
  take a position past its limit.)
\<close>

definition resp_ok :: "'d po_state \<Rightarrow> order_resp \<Rightarrow> bool" where
  "resp_ok po r \<longleftrightarrow>
     (case or_order r of
        None \<Rightarrow> True
      | Some p \<Rightarrow>
          or_type r \<noteq> kTradeBreak \<and>
          (or_type r \<in> {kNewRej, kCxlAck, kPartFill, kFill} \<longrightarrow> in_table po p) \<and>
          (or_type r \<in> {kPartFill, kFill} \<longrightarrow>
             0 < uint (or_lastShares r) \<and> uint (or_lastShares r) \<le> open_qty (po_order po p)))"

lemma translated_fill_ok:
  assumes tr: "translateFill cast u r ord (fill_default\<lparr>fl_order := Some p\<rparr>) = (f, TrOk)" and ord: "order_ok k ord"
    and q: "0 < uint (or_lastShares r)" "uint (or_lastShares r) \<le> open_qty ord" and ty: "or_type r \<noteq> kTradeBreak"
  shows "fl_type f = kNormal" "fl_order f = Some p" "fill_matches f ord"
proof -
  have "uint (or_lastShares r) \<le> INT32_MAX" using q(2) ord by (simp add: order_ok_def open_qty_def)
  note m = translateFill_matches [OF tr this]
  show "fl_type f = kNormal" using m(7) ty by simp
  show "fl_order f = Some p" using m(6) by simp
  show "fill_matches f ord" using m q by (simp add: fill_matches_def)
qed

lemma safe_fill_resp:
  assumes cl: "client_ok e" and safe: "sys_safe e s" and kp: "(k, p) \<in> set (po_table (sys_po s))"
    and q: "0 < uint (or_lastShares r)" "uint (or_lastShares r) \<le> open_qty (sys_order s p)" "or_type r \<noteq> kTradeBreak"
    and tr: "translateFill cast u r (sys_order s p) (fill_default\<lparr>fl_order := Some p\<rparr>) = (f, TrOk)"
  shows "sys_safe e (sc_onFill e f p s)"
proof -
  have "order_ok k (sys_order s p)" using safe_inv [OF safe] kp by (auto simp: po_inv_def table_ok_def)
  note f = translated_fill_ok [OF tr this q]
  show ?thesis by (rule safe_sc_onFill [OF cl safe kp f])
qed

lemma safe_onOrderResp:
  assumes cl: "client_ok e" and safe: "sys_safe e s" and ok: "resp_ok (sys_po s) r"
    and s': "sc_onOrderResp e now r s = Some (s', al)"
  shows "sys_safe e s'"
proof (cases "or_order r")
  case None
  with s' safe show ?thesis by (simp add: sc_onOrderResp_def)
next
  case (Some p)
  note w = safe_write [OF safe, of p]
  note tw = w [OF same_order_translate(1), of r] w [OF same_order_translate(2), of "env_cast e" r]
  have k: "\<exists>k. (k, p) \<in> set (po_table (sys_po s))" if "or_type r \<in> {kNewRej, kCxlAck, kPartFill, kFill}"
    using ok Some that by (force simp: resp_ok_def)
  note defs = sc_onOrderResp_def Some Let_def translateNewAck_def translateNewRej_def translateModRej_def
    translateCxlAck_def translateCxlRej_def
  show ?thesis
  proof (cases "or_type r")
    case kNewAck
    with s' show ?thesis by (auto simp: defs intro: safe_sc_onNewAck [OF cl tw(1)])
  next
    case kNewRej
    with s' k show ?thesis by (auto simp: defs intro: safe_sc_onNewRej [OF cl tw(1)])
  next
    case kModAck
    with s' tw(2) show ?thesis
      by (auto simp: defs intro: safe_sc_onModAck [OF cl] split: prod.splits tr_result.splits)
  next
    case kModRej
    with s' show ?thesis by (auto simp: defs intro: safe_sc_onModRej [OF cl tw(1)])
  next
    case kCxlAck
    with s' k show ?thesis by (auto simp: defs intro: safe_sc_onCxlAck [OF cl tw(1)])
  next
    case kCxlRej
    with s' show ?thesis by (auto simp: defs intro: safe_sc_onCxlRej [OF cl tw(1)])
  next
    case kPartFill
    with s' k ok Some safe show ?thesis
      by (auto simp: defs resp_ok_def split: prod.splits tr_result.splits intro: safe_fill_resp [OF cl safe])
  next
    case kFill
    with s' k ok Some safe show ?thesis
      by (auto simp: defs resp_ok_def split: prod.splits tr_result.splits intro: safe_fill_resp [OF cl safe])
  next
    case kTradeBreak
    with ok Some show ?thesis by (simp add: resp_ok_def)
  qed (use s' safe in \<open>auto simp: defs\<close>)
qed

subsection \<open>Runs of the system\<close>

inductive sc_step :: "('d::floor_ceiling) env \<Rightarrow> 'd sys \<Rightarrow> 'd sys \<Rightarrow> bool" for e where
  sc_new: "new_wf (sys_po s) p \<or> new_moot (sys_po s) p \<Longrightarrow> sc_sendNew e now p s = Some (s', r) \<Longrightarrow> sc_step e s s'"
| sc_mod: "sc_sendMod e now p s = Some (s', r) \<Longrightarrow> sc_step e s s'"
| sc_cxl: "sc_sendCxl e now p s = Some (s', r) \<Longrightarrow> sc_step e s s'"
| sc_batch: "sc_sendCxlForBatch e now reason ps s = Some s' \<Longrightarrow> sc_step e s s'"
| sc_resp: "resp_ok (sys_po s) r \<Longrightarrow> sc_onOrderResp e now r s = Some (s', al) \<Longrightarrow> sc_step e s s'"
| sc_tick: "sc_step e s (s\<lparr>sys_pt := pt_onTimeout (sys_pt s)\<rparr>)"
| sc_tv: "sc_step e s (s\<lparr>sys_pp := pp_updatePnLForTvForStratInstrument (env_il e) (env_tvs e) i (sys_pp s)\<rparr>)"
| sc_write: "client_write f \<Longrightarrow> sc_step e s (sys_po_upd (po_set p f) s)"

lemma safe_step: "sc_step e s s' \<Longrightarrow> client_ok e \<Longrightarrow> sys_safe e s \<Longrightarrow> sys_safe e s'"
proof (induction rule: sc_step.induct)
  case sc_new
  then show ?case by (blast intro: safe_sc_sendNew)
next
  case sc_mod
  then show ?case by (blast intro: safe_sc_sendMod)
next
  case sc_cxl
  then show ?case by (blast intro: safe_sc_sendCxl)
next
  case sc_batch
  then show ?case by (blast intro: safe_sc_batch)
next
  case sc_resp
  then show ?case by (blast intro: safe_onOrderResp)
next
  case sc_write
  then show ?case by (blast intro: safe_benign client_write_benign)
qed (simp_all add: sys_safe_def)

lemma safe_run: "(sc_step e)\<^sup>*\<^sup>* s s' \<Longrightarrow> client_ok e \<Longrightarrow> sys_safe e s \<Longrightarrow> sys_safe e s'"
  by (induction rule: rtranclp_induct) (auto intro: safe_step)

lemma safe_init:
  assumes "channel_ok e" and "cfg_ok (sys_rk s)" and "sys_po s = po_init h tmo"
  shows "sys_safe e s"
  using assms po_init_inv [of "env_il e" h tmo]
  by (simp add: sys_safe_def within_limits_def expo_def pos_of_def po_init_def oop_val_def oop_lookup_def
      oop_fresh_def side_count_def)

lemma safe_position:
  assumes "sys_safe e s" and "sm_find (rk_params (sys_rk s)) i = Some x"
  shows "\<bar>pos_of (env_il e) (sys_po s) (acc_id (rk_account (sys_rk s))) i\<bar> \<le> uint (arp_maxPos x)"
proof -
  let ?a = "acc_id (rk_account (sys_rk s))"
  have inv: "po_inv (env_il e) (sys_po s)" by (rule safe_inv [OF assms(1)])
  have t: "table_ok (po_heap (sys_po s)) (po_table (sys_po s))" using inv by (simp add: po_inv_def)
  have "expo (env_il e) (sys_po s) sd ?a i \<le> uint (arp_maxPos x)" if "real_side sd" for sd
    using assms that by (fastforce simp: sys_safe_def within_limits_def)
  from this [of kBuy] this [of kSell] open_sum_nonneg [OF t, of ord_accountId kBuy ?a i]
    open_sum_nonneg [OF t, of ord_accountId kSell ?a i]
  show ?thesis by (simp add: expo_eq [OF inv] dir_def)
qed

text \<open>
  C1: in a run that starts without orders, the account's position in every instrument that has risk
  parameters stays between minus and plus the configured maximum position, and so does the position
  that would result if all open orders of one side filled. The run interleaves in any order: new
  orders, modifies, cancels and batch cancels of the strategies, the responses of the exchange, ticks,
  updates of theoretical values, and whatever the callbacks of the strategies do by requests and by
  writes to uncounted fields. The conditions, each with what goes wrong without it: a new order is well
  formed (\<open>new_wf\<close>: a fresh pointer and id, a positive quantity, a price if it is a limit order,
  sums within 32 bits) or refused without effect (\<open>new_moot\<close>: sent twice, or without a
  quantity), because the refusal of a limit order without a price makes the open counts drift
  (\<open>sendNew_bad_price_drifts\<close>), a duplicate id removes the live order
  (\<open>sendNew_duplicate_evicts\<close>), and the check then counts too little; the exchange breaks no
  trade, because a break can take a position past its limit by itself, and it rejects, cancels and
  fills only orders of the table and fills no more than is open (\<open>resp_ok\<close>); maximum position and clip size
  sum up below two to the 31st (\<open>cfg_ok\<close>), because the check is done in 32-bit arithmetic. Not steps of
  the run, as each can pass the limit without an order being checked: fills entered by hand, positions and orders
  rebuilt after a restart, and commands that change the risk parameters.
\<close>

theorem position_within_limits:
  assumes "channel_ok e" and "client_ok e" and "cfg_ok (sys_rk s)" and "sys_po s = po_init h tmo"
    and "(sc_step e)\<^sup>*\<^sup>* s s'" and "sm_find (rk_params (sys_rk s')) i = Some x"
  shows "\<bar>pos_of (env_il e) (sys_po s') (acc_id (rk_account (sys_rk s'))) i\<bar> \<le> uint (arp_maxPos x) \<and>
    pos_of (env_il e) (sys_po s') (acc_id (rk_account (sys_rk s'))) i +
      (\<Sum>p\<leftarrow>po_getAll (sys_po s'). contrib ord_accountId kBuy (acc_id (rk_account (sys_rk s'))) i (sys_order s' p))
      \<le> uint (arp_maxPos x) \<and>
    - pos_of (env_il e) (sys_po s') (acc_id (rk_account (sys_rk s'))) i +
      (\<Sum>p\<leftarrow>po_getAll (sys_po s'). contrib ord_accountId kSell (acc_id (rk_account (sys_rk s'))) i (sys_order s' p))
      \<le> uint (arp_maxPos x)"
proof -
  let ?a = "acc_id (rk_account (sys_rk s'))"
  have safe: "sys_safe e s'" by (rule safe_run [OF assms(5,2) safe_init [OF assms(1,3,4)]])
  have inv: "po_inv (env_il e) (sys_po s')" by (rule safe_inv [OF safe])
  have "expo (env_il e) (sys_po s') sd ?a i \<le> uint (arp_maxPos x)" if "real_side sd" for sd
    using safe assms(6) that by (fastforce simp: sys_safe_def within_limits_def)
  from this [of kBuy] this [of kSell] safe_position [OF safe assms(6)] show ?thesis
    by (simp add: expo_eq [OF inv] dir_def open_sum_def po_getAll_eq comp_def)
qed

text \<open>
  C6: the outcome of a well-formed new order in the chain. Accepted by every stage, it is in the
  order table in state Pending. Refused by any stage (throttle, wash trades, risk, profit and
  loss, or the channel), it ends Rejected and is in the table no more. Either way no exposure of
  the account passes its limit.
\<close>

theorem chain_new_order_outcome:
  assumes "sys_safe e s" and "new_wf (sys_po s) p" and "out_sendNew (TProcessorOut e) p s = Some (s', r)"
  shows "(if r = None then in_table (sys_po s') p \<and> ord_state (sys_order s' p) = kPending
          else \<not> in_table (sys_po s') p \<and> ord_state (sys_order s' p) = kRejected) \<and> sys_safe e s'"
proof -
  have n: "new_ok e p s" using assms(1,2) by (simp add: new_ok_def)
  show ?thesis
    using contractD [OF out_sendNew_contract n, of s'] assms(3)
    by (cases r) (simp_all add: sent_def in_flight_def refused_def)
qed

subsection \<open>Witnesses\<close>

definition ex_env :: "rat env" where
  "ex_env = \<lparr>env_il = \<lparr>il_getByKeyId = (\<lambda>_. None), il_getByDisplayName = (\<lambda>_. None)\<rparr>,
     env_quotes = (\<lambda>_. \<lparr>tq_trade = invalid_ticks, tq_bid = invalid_ticks, tq_ask = invalid_ticks\<rparr>),
     env_tvs = (\<lambda>_. \<lparr>tv_instrument = None, tv_isTvSet = False, tv_tv = 0\<rparr>),
     env_channel = (\<lambda>_ ord. (ord, None)), env_client = (\<lambda>_ _ s. s), env_canPersist = True,
     env_cast = (\<lambda>_. Some 0), env_uuid = (0, 1)\<rparr>"

definition ex_sys :: "rat sys" where
  "ex_sys = \<lparr>sys_po = po_init (\<lambda>_. order_default\<lparr>ord_type := kLimit, ord_side := kBuy, ord_qty := 5, ord_price := 100,
       ord_accountId := 1, ord_strategyId := 2, ord_instrumentId := 3, ord_orderId := (0, 1),
       ord_instrument := Some (instrument_clear\<lparr>ins_keyId := 3\<rparr>)\<rparr>) 1500,
     sys_pt = \<lparr>pt_timerId = 1, pt_enabled = True, pt_counters = counters_clear,
       pt_account = account_clear\<lparr>acc_maxMPSNew := 10\<rparr>\<rparr>,
     sys_pw = \<lparr>pw_use_quotes = False, pw_ordersBooks = []\<rparr>,
     sys_rk = \<lparr>rk_account = account_clear\<lparr>acc_id := 1, acc_tradeEnabled := True\<rparr>,
       rk_params = [(3, \<lparr>arp_accountId = 1, arp_displayName = ''ES'', arp_exchange = kCME, arp_clipSize = 10,
         arp_maxPos = 7, arp_tradeEnabled = True\<rparr>)]\<rparr>,
     sys_pp = pp_clear, sys_pm = pm_clear\<rparr>"

definition ex_sent :: "rat sys" where
  "ex_sent = (case sc_sendNew ex_env 9 0 ex_sys of None \<Rightarrow> ex_sys | Some (s, _) \<Rightarrow> s)"

definition ex_resp :: order_resp where
  "ex_resp = \<lparr>or_exTimestamp = 0, or_timestamp1 = 10, or_type = kFill, or_seqNum = 0, or_lastShares = 5, or_lastPrice = ''100'',
     or_price = [], or_origClOrderId = [], or_clOrderId = ''A1'', or_corrClOrderId = [], or_exOrderId = ''X1'', or_exFillId = ''F1'', or_exFillRefId = [], or_exRejReason = [],
     or_exRejText = [], or_liqInd = kAdd, or_order = Some 0\<rparr>"

definition ex_done :: "rat sys" where
  "ex_done = (case sc_onOrderResp ex_env 11 ex_resp ex_sent of None \<Rightarrow> ex_sys | Some (s, _) \<Rightarrow> s)"

lemma ex_sys_ok: "channel_ok ex_env" "client_ok ex_env" "cfg_ok (sys_rk ex_sys)" "new_wf (sys_po ex_sys) 0"
proof -
  show "channel_ok ex_env" by (simp add: channel_ok_def ex_env_def)
  show "client_ok ex_env" by (simp add: client_ok_def ex_env_def)
  show "cfg_ok (sys_rk ex_sys)" by (simp add: cfg_ok_def ex_sys_def)
  show "new_wf (sys_po ex_sys) 0" by code_simp
qed

lemma ex_accept: "map_option snd (sc_sendNew ex_env 9 0 ex_sys) = Some None"
  by code_simp

lemma ex_resp_ok: "resp_ok (sys_po ex_sent) ex_resp"
  by code_simp

lemma ex_filled: "map_option snd (sc_onOrderResp ex_env 11 ex_resp ex_sent) = Some []"
  by code_simp

lemma ex_run: "(sc_step ex_env)\<^sup>*\<^sup>* ex_sys ex_done"
proof -
  have "sc_step ex_env ex_sys ex_sent"
    using ex_accept by (intro sc_step.sc_new [OF disjI1 [OF ex_sys_ok(4)], of ex_env 9 _ None]) (auto simp: ex_sent_def)
  moreover have "sc_step ex_env ex_sent ex_done"
    using ex_filled by (intro sc_step.sc_resp [OF ex_resp_ok, of ex_env 11 _ "[]"]) (auto simp: ex_done_def)
  ultimately show ?thesis by (meson converse_rtranclp_into_rtranclp rtranclp.rtrancl_refl)
qed

lemma ex_done_values:
  "map_option arp_maxPos (sm_find (rk_params (sys_rk ex_done)) 3) = Some 7" "acc_id (rk_account (sys_rk ex_done)) = 1"
  "pos_of (env_il ex_env) (sys_po ex_done) 1 3 = 5"
  by code_simp+

theorem position_within_limits_witness:
  "pos_of (env_il ex_env) (sys_po ex_done) 1 3 = 5 \<and> \<bar>pos_of (env_il ex_env) (sys_po ex_done) 1 3\<bar> \<le> 7"
proof -
  obtain x where x: "sm_find (rk_params (sys_rk ex_done)) 3 = Some x" "arp_maxPos x = 7"
    using ex_done_values(1) by auto
  have "sys_po ex_sys = po_init (po_heap (sys_po ex_sys)) 1500" by (simp add: ex_sys_def po_init_def)
  from position_within_limits [OF ex_sys_ok(1-3) this ex_run x(1)] show ?thesis
    by (simp add: ex_done_values x(2))
qed

lemma ex_out_accept: "map_option snd (out_sendNew (TProcessorOut ex_env) 0 ex_sys) = Some None"
  by code_simp

theorem chain_new_order_outcome_witness:
  "\<exists>s'. out_sendNew (TProcessorOut ex_env) 0 ex_sys = Some (s', None) \<and> in_table (sys_po s') 0"
proof -
  obtain s' where s': "out_sendNew (TProcessorOut ex_env) 0 ex_sys = Some (s', None)" using ex_out_accept by auto
  have "sys_po ex_sys = po_init (po_heap (sys_po ex_sys)) 1500" by (simp add: ex_sys_def po_init_def)
  from chain_new_order_outcome [OF safe_init [OF ex_sys_ok(1,3) this] ex_sys_ok(4) s'] s' show ?thesis by simp
qed

end
