(* ===== verification/Quote.thy ===== *)
theory Quote
  imports OrDefs
begin

section \<open>Quotes: top of book, trades and change flags (price/quote.h)\<close>

text \<open>
  A quote holds five price levels, the last trade and a 32-bit word of change flags: bit 0 the
  trade, four bits per level (bid price, bid size, ask price, ask size), and open, high and low
  in the last three. The array of levels is a list of length five. A time stamp is an integer and
  a clock reading an argument, a cleared time stamp is 0. Of the text output the flag line is kept.
\<close>

unbundle bit_operations_syntax

record price_size =
  ps_price :: ticks
  ps_size :: size

record price_size_orders = price_size +
  ps_numOrders :: u32

record price_level =
  pl_bid :: price_size_orders
  pl_ask :: price_size_orders

datatype eCondition = kConditionUnknown | kConditionOpening | kConditionPriceCalculatedByExchange
datatype eUpdateAction = kUpdateActionUnknown | kUpdateActionNew | kUpdateActionDelete
datatype eTickDirection = kTickDirectionUnknown | kTickDirectionPlus | kTickDirectionMinus
datatype eAggressorSide = kAggressorSideUnknown | kAggressorSideBuy | kAggressorSideSell

record trade = price_size +
  tr_condition :: eCondition
  tr_updateAction :: eUpdateAction
  tr_tickDirection :: eTickDirection
  tr_aggressorSide :: eAggressorSide

datatype eStatus =
  kSuccess | kQExchangeDown | kQExchangeUp | kQExchangeSlow | kStaleQuote | kDropRate | kTradingHaltedOrStopped
| kTradingPause | kTradingResumeOrOpen | kTradingSessionEnd | kHLOReset | kDataRecoveryStart | kDataRecoveryFinish
| kReplayError | kReplayFinished | kConnectionHandlerError | kPriceGap

record 'd quote =
  q_seqNum :: u32
  q_numTrades :: u32
  q_numBooks :: u32
  q_instrumentId :: instr_id
  q_status :: eStatus
  q_open :: ticks
  q_high :: ticks
  q_low :: ticks
  q_flag :: u32
  q_trade :: trade
  q_book :: "price_level list"
  q_intSeqNum :: u32
  q_intGaps :: u32
  q_exTimestamp :: int
  q_timestamp1 :: int
  q_timestamp2 :: int
  q_timestamp3 :: int
  q_timestamp4 :: int
  q_lastUpdate :: int
  q_instrument :: "'d instrument option"

definition SIZE :: nat where "SIZE = 5"
definition NUMBITS :: nat where "NUMBITS = 2 * SIZE + 1"
definition NOTUSED :: nat where "NOTUSED = 32 - NUMBITS"

subsection \<open>Prices and levels\<close>

definition ps_clear :: price_size_orders where
  "ps_clear = \<lparr>ps_price = invalid_ticks, ps_size = 0, ps_numOrders = 0\<rparr>"

definition ps_isValid :: "'a price_size_scheme \<Rightarrow> bool" where
  "ps_isValid x \<longleftrightarrow> tw_isValid (ps_price x) \<and> ps_size x > 0"

definition ps_eq :: "'a price_size_scheme \<Rightarrow> 'b price_size_scheme \<Rightarrow> bool" where
  "ps_eq x y \<longleftrightarrow> ps_isValid x \<and> ps_isValid y \<and> ps_price x = ps_price y \<and> ps_size x = ps_size y"

definition ps_set :: "ticks \<Rightarrow> size \<Rightarrow> 'a price_size_scheme \<Rightarrow> 'a price_size_scheme" where
  "ps_set price sz x = x\<lparr>ps_price := price, ps_size := sz\<rparr>"

definition pso_eq :: "price_size_orders \<Rightarrow> price_size_orders \<Rightarrow> bool" where
  "pso_eq x y \<longleftrightarrow> ps_numOrders x = ps_numOrders y \<and> ps_eq x y"

definition pso_set :: "ticks \<Rightarrow> size \<Rightarrow> u32 \<Rightarrow> price_size_orders \<Rightarrow> price_size_orders" where
  "pso_set price sz n x = (ps_set price sz x)\<lparr>ps_numOrders := n\<rparr>"

definition pl_clear :: price_level where
  "pl_clear = \<lparr>pl_bid = ps_clear, pl_ask = ps_clear\<rparr>"

definition pl_isValid :: "price_level \<Rightarrow> bool" where
  "pl_isValid x \<longleftrightarrow> ps_isValid (pl_bid x) \<and> ps_isValid (pl_ask x)"

definition pl_eq :: "price_level \<Rightarrow> price_level \<Rightarrow> bool" where
  "pl_eq x y \<longleftrightarrow> pso_eq (pl_bid x) (pl_bid y) \<and> pso_eq (pl_ask x) (pl_ask y)"

definition trade_clear :: trade where
  "trade_clear = \<lparr>ps_price = invalid_ticks, ps_size = 0, tr_condition = kConditionUnknown,
     tr_updateAction = kUpdateActionUnknown, tr_tickDirection = kTickDirectionUnknown,
     tr_aggressorSide = kAggressorSideUnknown\<rparr>"

subsection \<open>Change flags\<close>

definition tradeBits :: u32 where "tradeBits = 1"
definition bookUpdateBits :: u32 where "bookUpdateBits = 0x1ffffffe"
definition levelUpdateBits :: "nat \<Rightarrow> u32" where "levelUpdateBits level = push_bit (level + 1) 0xf"
definition bidUpdateBits :: "nat \<Rightarrow> u32" where "bidUpdateBits level = push_bit (4 * level + 1) 0x3"
definition bidUpdatePriceBits :: "nat \<Rightarrow> u32" where "bidUpdatePriceBits level = push_bit (4 * level + 1) 0x1"
definition bidUpdateSizeBits :: "nat \<Rightarrow> u32" where "bidUpdateSizeBits level = push_bit (4 * level + 1) 0x2"
definition askUpdateBits :: "nat \<Rightarrow> u32" where "askUpdateBits level = push_bit (4 * level + 1) 0xc"
definition askUpdatePriceBits :: "nat \<Rightarrow> u32" where "askUpdatePriceBits level = push_bit (4 * level + 1) 0x4"
definition askUpdateSizeBits :: "nat \<Rightarrow> u32" where "askUpdateSizeBits level = push_bit (4 * level + 1) 0x8"
definition openBits :: u32 where "openBits = 0x20000000"
definition highBits :: u32 where "highBits = 0x40000000"
definition lowBits :: u32 where "lowBits = 0x80000000"

definition q_has :: "u32 \<Rightarrow> 'd quote \<Rightarrow> bool" where "q_has m q \<longleftrightarrow> 0 \<noteq> (q_flag q AND m)"
definition q_mark :: "u32 \<Rightarrow> 'd quote \<Rightarrow> 'd quote" where "q_mark m q = q\<lparr>q_flag := q_flag q OR m\<rparr>"

definition isChanged :: "'d quote \<Rightarrow> bool" where "isChanged q \<longleftrightarrow> 0 \<noteq> q_flag q"
definition isTrade :: "'d quote \<Rightarrow> bool" where "isTrade q = q_has tradeBits q"

definition isNormalTrade :: "'d quote \<Rightarrow> bool" where
  "isNormalTrade q \<longleftrightarrow> isTrade q \<and> kConditionUnknown = tr_condition (q_trade q)"

definition isSpreadLegTrade :: "'d quote \<Rightarrow> bool" where
  "isSpreadLegTrade q \<longleftrightarrow> isTrade q \<and> kConditionPriceCalculatedByExchange = tr_condition (q_trade q)"

definition isOpeningTrade :: "'d quote \<Rightarrow> bool" where
  "isOpeningTrade q \<longleftrightarrow> isTrade q \<and> kConditionOpening = tr_condition (q_trade q)"

definition isBookUpdate :: "'d quote \<Rightarrow> bool" where "isBookUpdate q = q_has bookUpdateBits q"
definition isLevelUpdate :: "nat \<Rightarrow> 'd quote \<Rightarrow> bool" where "isLevelUpdate l q = q_has (levelUpdateBits l) q"
definition isBidUpdate :: "nat \<Rightarrow> 'd quote \<Rightarrow> bool" where "isBidUpdate l q = q_has (bidUpdateBits l) q"
definition isBidUpdatePrice :: "nat \<Rightarrow> 'd quote \<Rightarrow> bool" where "isBidUpdatePrice l q = q_has (bidUpdatePriceBits l) q"
definition isBidUpdateSize :: "nat \<Rightarrow> 'd quote \<Rightarrow> bool" where "isBidUpdateSize l q = q_has (bidUpdateSizeBits l) q"
definition isAskUpdate :: "nat \<Rightarrow> 'd quote \<Rightarrow> bool" where "isAskUpdate l q = q_has (askUpdateBits l) q"
definition isAskUpdatePrice :: "nat \<Rightarrow> 'd quote \<Rightarrow> bool" where "isAskUpdatePrice l q = q_has (askUpdatePriceBits l) q"
definition isAskUpdateSize :: "nat \<Rightarrow> 'd quote \<Rightarrow> bool" where "isAskUpdateSize l q = q_has (askUpdateSizeBits l) q"
definition isOpen :: "'d quote \<Rightarrow> bool" where "isOpen q = q_has openBits q"
definition isHigh :: "'d quote \<Rightarrow> bool" where "isHigh q = q_has highBits q"
definition isLow :: "'d quote \<Rightarrow> bool" where "isLow q = q_has lowBits q"

definition q_setAll :: "'d quote \<Rightarrow> 'd quote" where
  "q_setAll q = q\<lparr>q_flag := drop_bit NOTUSED (- 1)\<rparr>"

definition setLevelUpdate :: "nat \<Rightarrow> 'd quote \<Rightarrow> 'd quote" where "setLevelUpdate l q = q_mark (levelUpdateBits l) q"
definition setBidUpdate :: "nat \<Rightarrow> 'd quote \<Rightarrow> 'd quote" where "setBidUpdate l q = q_mark (bidUpdateBits l) q"
definition setBidUpdatePrice :: "nat \<Rightarrow> 'd quote \<Rightarrow> 'd quote" where "setBidUpdatePrice l q = q_mark (bidUpdatePriceBits l) q"
definition setBidUpdateSize :: "nat \<Rightarrow> 'd quote \<Rightarrow> 'd quote" where "setBidUpdateSize l q = q_mark (bidUpdateSizeBits l) q"
definition setAskUpdate :: "nat \<Rightarrow> 'd quote \<Rightarrow> 'd quote" where "setAskUpdate l q = q_mark (askUpdateBits l) q"
definition setAskUpdatePrice :: "nat \<Rightarrow> 'd quote \<Rightarrow> 'd quote" where "setAskUpdatePrice l q = q_mark (askUpdatePriceBits l) q"
definition setAskUpdateSize :: "nat \<Rightarrow> 'd quote \<Rightarrow> 'd quote" where "setAskUpdateSize l q = q_mark (askUpdateSizeBits l) q"

subsection \<open>Operations\<close>

definition q_clearFlag :: "'d quote \<Rightarrow> 'd quote" where "q_clearFlag q = q\<lparr>q_flag := 0\<rparr>"
definition q_clearStatus :: "'d quote \<Rightarrow> 'd quote" where "q_clearStatus q = q\<lparr>q_status := kSuccess\<rparr>"

definition q_clear :: "int \<Rightarrow> 'd quote \<Rightarrow> 'd quote" where
  "q_clear now q = q\<lparr>q_seqNum := 0, q_numTrades := 0, q_numBooks := 0, q_instrumentId := 0, q_status := kSuccess,
     q_open := invalid_ticks, q_high := invalid_ticks, q_low := invalid_ticks, q_flag := 0, q_trade := trade_clear,
     q_book := replicate SIZE pl_clear, q_intSeqNum := 0, q_intGaps := 0, q_exTimestamp := 0, q_timestamp1 := now,
     q_timestamp2 := now, q_timestamp3 := now, q_timestamp4 := now, q_instrument := None\<rparr>"

definition q_clearRuntime :: "bool \<Rightarrow> int \<Rightarrow> 'd quote \<Rightarrow> 'd quote" where
  "q_clearRuntime resetTime now q =
     q_clearStatus (q_clearFlag (if resetTime then q\<lparr>q_timestamp2 := now\<rparr> else q))"

definition q_updateStats :: "'d quote \<Rightarrow> 'd quote" where
  "q_updateStats q =
     (if \<not> isChanged q then q
      else
        (let q1 = (if isNormalTrade q then q\<lparr>q_numTrades := q_numTrades q + 1\<rparr> else q);
             q2 = (if isBookUpdate q1 then q1\<lparr>q_numBooks := q_numBooks q1 + 1\<rparr> else q1)
         in q2\<lparr>q_lastUpdate := q_timestamp1 q2\<rparr>))"

definition q_isValid :: "('d::{zero,ord}) quote \<Rightarrow> bool" where
  "q_isValid q = (case q_instrument q of None \<Rightarrow> False | Some i \<Rightarrow> ins_isValid i)"

definition q_isError :: "'d quote \<Rightarrow> bool" where "q_isError q \<longleftrightarrow> kSuccess \<noteq> q_status q"

definition upd_bid :: "nat \<Rightarrow> (price_size_orders \<Rightarrow> price_size_orders) \<Rightarrow> 'd quote \<Rightarrow> 'd quote" where
  "upd_bid l f q = q\<lparr>q_book := (q_book q)[l := (q_book q ! l)\<lparr>pl_bid := f (pl_bid (q_book q ! l))\<rparr>]\<rparr>"

definition upd_ask :: "nat \<Rightarrow> (price_size_orders \<Rightarrow> price_size_orders) \<Rightarrow> 'd quote \<Rightarrow> 'd quote" where
  "upd_ask l f q = q\<lparr>q_book := (q_book q)[l := (q_book q ! l)\<lparr>pl_ask := f (pl_ask (q_book q ! l))\<rparr>]\<rparr>"

definition setTrade :: "ticks \<Rightarrow> size \<Rightarrow> 'd quote \<Rightarrow> 'd quote" where
  "setTrade price sz q = q_mark tradeBits (q\<lparr>q_trade := ps_set price sz (q_trade q)\<rparr>)"

definition setBid :: "ticks \<Rightarrow> size \<Rightarrow> nat \<Rightarrow> u32 \<Rightarrow> 'd quote \<Rightarrow> 'd quote" where
  "setBid price sz l n q = (if l > SIZE - 1 then q else setBidUpdate l (upd_bid l (pso_set price sz n) q))"

definition setBidPrice :: "ticks \<Rightarrow> nat \<Rightarrow> 'd quote \<Rightarrow> 'd quote" where
  "setBidPrice price l q = (if l > SIZE - 1 then q else setBidUpdatePrice l (upd_bid l (ps_price_update (\<lambda>_. price)) q))"

definition setBidSize :: "size \<Rightarrow> nat \<Rightarrow> 'd quote \<Rightarrow> 'd quote" where
  "setBidSize sz l q = (if l > SIZE - 1 then q else setBidUpdateSize l (upd_bid l (ps_size_update (\<lambda>_. sz)) q))"

definition setAsk :: "ticks \<Rightarrow> size \<Rightarrow> nat \<Rightarrow> u32 \<Rightarrow> 'd quote \<Rightarrow> 'd quote" where
  "setAsk price sz l n q = (if l > SIZE - 1 then q else setAskUpdate l (upd_ask l (pso_set price sz n) q))"

definition setAskPrice :: "ticks \<Rightarrow> nat \<Rightarrow> 'd quote \<Rightarrow> 'd quote" where
  "setAskPrice price l q = (if l > SIZE - 1 then q else setAskUpdatePrice l (upd_ask l (ps_price_update (\<lambda>_. price)) q))"

definition setAskSize :: "size \<Rightarrow> nat \<Rightarrow> 'd quote \<Rightarrow> 'd quote" where
  "setAskSize sz l q = (if l > SIZE - 1 then q else setAskUpdateSize l (upd_ask l (ps_size_update (\<lambda>_. sz)) q))"

definition setOpen :: "ticks \<Rightarrow> 'd quote \<Rightarrow> 'd quote" where "setOpen price q = q_mark openBits (q\<lparr>q_open := price\<rparr>)"
definition setHigh :: "ticks \<Rightarrow> 'd quote \<Rightarrow> 'd quote" where "setHigh price q = q_mark highBits (q\<lparr>q_high := price\<rparr>)"
definition setLow :: "ticks \<Rightarrow> 'd quote \<Rightarrow> 'd quote" where "setLow price q = q_mark lowBits (q\<lparr>q_low := price\<rparr>)"

subsection \<open>Text\<close>

fun conditionToString :: "eCondition \<Rightarrow> string" where
  "conditionToString kConditionOpening = ''O''"
| "conditionToString kConditionPriceCalculatedByExchange = ''X''"
| "conditionToString kConditionUnknown = ''u''"

fun updateActionToString :: "eUpdateAction \<Rightarrow> string" where
  "updateActionToString kUpdateActionNew = ''N''"
| "updateActionToString kUpdateActionDelete = ''D''"
| "updateActionToString kUpdateActionUnknown = ''u''"

fun tickDirectionToString :: "eTickDirection \<Rightarrow> string" where
  "tickDirectionToString kTickDirectionPlus = ''+''"
| "tickDirectionToString kTickDirectionMinus = ''-''"
| "tickDirectionToString kTickDirectionUnknown = ''u''"

fun aggressorSideToString :: "eAggressorSide \<Rightarrow> string" where
  "aggressorSideToString kAggressorSideBuy = ''B''"
| "aggressorSideToString kAggressorSideSell = ''S''"
| "aggressorSideToString kAggressorSideUnknown = ''u''"

text \<open>
  A write into the character buffer; outside it the write is undefined, which is \<open>None\<close>. The
  buffer is printed up to its terminating zero, its last byte.
\<close>

definition buf_put :: "nat \<Rightarrow> string option \<Rightarrow> string option" where
  "buf_put i b = (case b of None \<Rightarrow> None | Some s \<Rightarrow> if i < length s then Some (s[i := CHR ''1'']) else None)"

definition flag_level :: "'d quote \<Rightarrow> nat \<Rightarrow> string option \<Rightarrow> string option" where
  "flag_level q k b0 =
     (let b1 = (if isBidUpdatePrice k q then buf_put (2 * k + 1) b0 else b0);
          b2 = (if isBidUpdateSize k q then buf_put (2 * k + 2) b1 else b1);
          b3 = (if isAskUpdatePrice k q then buf_put (2 * SIZE + (2 * k + 1)) b2 else b2)
      in if isAskUpdateSize k q then buf_put (2 * SIZE + (2 * k + 2)) b3 else b3)"

definition toStringWhatChanged :: "'d quote \<Rightarrow> string option" where
  "toStringWhatChanged q =
     (let buffer = (replicate (SIZE * 4 + 5) (CHR ''_''))[SIZE * 4 + 5 - 1 := CHR 0x00, 0 := CHR ''='']
      in map_option (\<lambda>b. ''_flag: T='' @ (if isTrade q then ''1'' else ''0'') @ '',B'' @ takeWhile (\<lambda>c. c \<noteq> CHR 0x00) b)
           (fold (flag_level q) [0..<SIZE] (Some buffer)))"

subsection \<open>The flags as sets of positions\<close>

lemma u32_bit_lt: "bit (w :: u32) n \<Longrightarrow> n < 32"
  using bit_imp_le_length [of w n] by simp

lemma q_has_iff: "q_has m q \<longleftrightarrow> (\<exists>n. bit m n \<and> bit (q_flag q) n)"
  by (auto simp: q_has_def bit_eq_iff bit_and_iff dest: u32_bit_lt)

lemma mask_table:
  "\<forall>l \<in> set [0..<5]. \<forall>n \<in> set [0..<32].
      (bit (bidUpdateBits l) n \<longleftrightarrow> n = 4 * l + 1 \<or> n = 4 * l + 2) \<and>
      (bit (bidUpdatePriceBits l) n \<longleftrightarrow> n = 4 * l + 1) \<and> (bit (bidUpdateSizeBits l) n \<longleftrightarrow> n = 4 * l + 2) \<and>
      (bit (askUpdateBits l) n \<longleftrightarrow> n = 4 * l + 3 \<or> n = 4 * l + 4) \<and>
      (bit (askUpdatePriceBits l) n \<longleftrightarrow> n = 4 * l + 3) \<and> (bit (askUpdateSizeBits l) n \<longleftrightarrow> n = 4 * l + 4)"
  by code_simp

lemma mask_table_ohl:
  "\<forall>n \<in> set [0..<32]. (bit tradeBits n \<longleftrightarrow> n = 0) \<and> (bit openBits n \<longleftrightarrow> n = 29) \<and>
     (bit highBits n \<longleftrightarrow> n = 30) \<and> (bit lowBits n \<longleftrightarrow> n = 31) \<and> (bit bookUpdateBits n \<longleftrightarrow> 1 \<le> n \<and> n \<le> 28)"
  by code_simp

lemma u32_bit_table:
  assumes "\<forall>n \<in> set [0..<32]. bit (w :: u32) n \<longleftrightarrow> P n" and "\<And>n. P n \<Longrightarrow> n < 32"
  shows "bit w n \<longleftrightarrow> P n"
proof (cases "n < 32")
  case True
  with assms(1) show ?thesis by (metis atLeastLessThan_iff le0 set_upt)
next
  case False
  with assms(2) [of n] u32_bit_lt [of w n] show ?thesis by blast
qed

lemma mask_bits:
  assumes "l < 5"
  shows "bit (bidUpdateBits l) n \<longleftrightarrow> n = 4 * l + 1 \<or> n = 4 * l + 2"
    and "bit (bidUpdatePriceBits l) n \<longleftrightarrow> n = 4 * l + 1"
    and "bit (bidUpdateSizeBits l) n \<longleftrightarrow> n = 4 * l + 2"
    and "bit (askUpdateBits l) n \<longleftrightarrow> n = 4 * l + 3 \<or> n = 4 * l + 4"
    and "bit (askUpdatePriceBits l) n \<longleftrightarrow> n = 4 * l + 3"
    and "bit (askUpdateSizeBits l) n \<longleftrightarrow> n = 4 * l + 4"
  using assms mask_table by (intro u32_bit_table; auto)+

lemma mask_bits_ohl:
  "bit tradeBits n \<longleftrightarrow> n = 0" "bit openBits n \<longleftrightarrow> n = 29" "bit highBits n \<longleftrightarrow> n = 30" "bit lowBits n \<longleftrightarrow> n = 31"
  "bit bookUpdateBits n \<longleftrightarrow> 1 \<le> n \<and> n \<le> 28"
  using mask_table_ohl by (intro u32_bit_table; auto)+

subsection \<open>Sequences of updates\<close>

datatype quote_op =
  OpTrade ticks size | OpBid ticks size nat u32 | OpBidPrice ticks nat | OpBidSize size nat
| OpAsk ticks size nat u32 | OpAskPrice ticks nat | OpAskSize size nat | OpOpen ticks | OpHigh ticks | OpLow ticks

fun quote_apply :: "quote_op \<Rightarrow> 'd quote \<Rightarrow> 'd quote" where
  "quote_apply (OpTrade p s) q = setTrade p s q"
| "quote_apply (OpBid p s l n) q = setBid p s l n q"
| "quote_apply (OpBidPrice p l) q = setBidPrice p l q"
| "quote_apply (OpBidSize s l) q = setBidSize s l q"
| "quote_apply (OpAsk p s l n) q = setAsk p s l n q"
| "quote_apply (OpAskPrice p l) q = setAskPrice p l q"
| "quote_apply (OpAskSize s l) q = setAskSize s l q"
| "quote_apply (OpOpen p) q = setOpen p q"
| "quote_apply (OpHigh p) q = setHigh p q"
| "quote_apply (OpLow p) q = setLow p q"

definition quote_run :: "quote_op list \<Rightarrow> 'd quote \<Rightarrow> 'd quote" where
  "quote_run ops q = fold quote_apply ops q"

text \<open>The positions an update marks; an update of a level the quote does not have marks none.\<close>

fun op_bits :: "quote_op \<Rightarrow> nat set" where
  "op_bits (OpTrade p s) = {0}"
| "op_bits (OpBid p s l n) = (if l < 5 then {4 * l + 1, 4 * l + 2} else {})"
| "op_bits (OpBidPrice p l) = (if l < 5 then {4 * l + 1} else {})"
| "op_bits (OpBidSize s l) = (if l < 5 then {4 * l + 2} else {})"
| "op_bits (OpAsk p s l n) = (if l < 5 then {4 * l + 3, 4 * l + 4} else {})"
| "op_bits (OpAskPrice p l) = (if l < 5 then {4 * l + 3} else {})"
| "op_bits (OpAskSize s l) = (if l < 5 then {4 * l + 4} else {})"
| "op_bits (OpOpen p) = {29}"
| "op_bits (OpHigh p) = {30}"
| "op_bits (OpLow p) = {31}"

lemmas set_op_defs = setTrade_def setBid_def setBidPrice_def setBidSize_def setAsk_def setAskPrice_def setAskSize_def
  setOpen_def setHigh_def setLow_def setBidUpdate_def setBidUpdatePrice_def setBidUpdateSize_def setAskUpdate_def
  setAskUpdatePrice_def setAskUpdateSize_def upd_bid_def upd_ask_def

lemma quote_apply_bits: "bit (q_flag (quote_apply op q)) n \<longleftrightarrow> bit (q_flag q) n \<or> n \<in> op_bits op"
  by (cases op) (auto simp: set_op_defs q_mark_def SIZE_def bit_or_iff mask_bits mask_bits_ohl)

lemma quote_run_bits: "bit (q_flag (quote_run ops q)) n \<longleftrightarrow> bit (q_flag q) n \<or> (\<exists>op \<in> set ops. n \<in> op_bits op)"
  unfolding quote_run_def by (induction ops arbitrary: q) (auto simp: quote_apply_bits)

lemma quote_run_has:
  "q_has m (quote_run ops (q_clearRuntime b now q)) \<longleftrightarrow> (\<exists>op \<in> set ops. \<exists>n \<in> op_bits op. bit m n)"
proof -
  have "q_flag (q_clearRuntime b now q) = 0" by (simp add: q_clearRuntime_def q_clearStatus_def q_clearFlag_def)
  then show ?thesis by (auto simp: q_has_iff quote_run_bits)
qed

lemma op_bits_iff:
  assumes "l < 5"
  shows "(\<exists>n \<in> op_bits op. bit (bidUpdatePriceBits l) n) \<longleftrightarrow> (\<exists>p s n. op = OpBid p s l n) \<or> (\<exists>p. op = OpBidPrice p l)"
    and "(\<exists>n \<in> op_bits op. bit (bidUpdateSizeBits l) n) \<longleftrightarrow> (\<exists>p s n. op = OpBid p s l n) \<or> (\<exists>s. op = OpBidSize s l)"
    and "(\<exists>n \<in> op_bits op. bit (askUpdatePriceBits l) n) \<longleftrightarrow> (\<exists>p s n. op = OpAsk p s l n) \<or> (\<exists>p. op = OpAskPrice p l)"
    and "(\<exists>n \<in> op_bits op. bit (askUpdateSizeBits l) n) \<longleftrightarrow> (\<exists>p s n. op = OpAsk p s l n) \<or> (\<exists>s. op = OpAskSize s l)"
    and "(\<exists>n \<in> op_bits op. bit tradeBits n) \<longleftrightarrow> (\<exists>p s. op = OpTrade p s)"
    and "(\<exists>n \<in> op_bits op. bit openBits n) \<longleftrightarrow> (\<exists>p. op = OpOpen p)"
    and "(\<exists>n \<in> op_bits op. bit highBits n) \<longleftrightarrow> (\<exists>p. op = OpHigh p)"
    and "(\<exists>n \<in> op_bits op. bit lowBits n) \<longleftrightarrow> (\<exists>p. op = OpLow p)"
  using assms by (cases op; auto simp: mask_bits mask_bits_ohl; presburger)+

text \<open>
  C37: after the runtime state is cleared, the flags record exactly what was updated since: each
  of the flags of a level, of the trade and of open, high and low is set if and only if one of
  the updates was of that field. No two fields share a flag.
\<close>

theorem quote_flags_exact:
  assumes "l < SIZE" and "q' = quote_run ops (q_clearRuntime b now q)"
  shows "(isBidUpdatePrice l q' \<longleftrightarrow> (\<exists>p s n. OpBid p s l n \<in> set ops) \<or> (\<exists>p. OpBidPrice p l \<in> set ops)) \<and>
    (isBidUpdateSize l q' \<longleftrightarrow> (\<exists>p s n. OpBid p s l n \<in> set ops) \<or> (\<exists>s. OpBidSize s l \<in> set ops)) \<and>
    (isAskUpdatePrice l q' \<longleftrightarrow> (\<exists>p s n. OpAsk p s l n \<in> set ops) \<or> (\<exists>p. OpAskPrice p l \<in> set ops)) \<and>
    (isAskUpdateSize l q' \<longleftrightarrow> (\<exists>p s n. OpAsk p s l n \<in> set ops) \<or> (\<exists>s. OpAskSize s l \<in> set ops)) \<and>
    (isTrade q' \<longleftrightarrow> (\<exists>p s. OpTrade p s \<in> set ops)) \<and> (isOpen q' \<longleftrightarrow> (\<exists>p. OpOpen p \<in> set ops)) \<and>
    (isHigh q' \<longleftrightarrow> (\<exists>p. OpHigh p \<in> set ops)) \<and> (isLow q' \<longleftrightarrow> (\<exists>p. OpLow p \<in> set ops))"
proof -
  have l: "l < 5" using assms(1) by (simp add: SIZE_def)
  show ?thesis
    unfolding assms(2) isBidUpdatePrice_def isBidUpdateSize_def isAskUpdatePrice_def isAskUpdateSize_def isTrade_def
      isOpen_def isHigh_def isLow_def quote_run_has op_bits_iff [OF l]
    by blast
qed

definition ex_quote :: "int quote" where
  "ex_quote = q_clear 0 \<lparr>q_seqNum = 0, q_numTrades = 0, q_numBooks = 0, q_instrumentId = 0, q_status = kSuccess, q_open = 0,
     q_high = 0, q_low = 0, q_flag = 0, q_trade = trade_clear, q_book = [], q_intSeqNum = 0, q_intGaps = 0,
     q_exTimestamp = 0, q_timestamp1 = 0, q_timestamp2 = 0, q_timestamp3 = 0, q_timestamp4 = 0, q_lastUpdate = 0, q_instrument = None\<rparr>"

theorem quote_flags_exact_witness:
  "isBidUpdateSize 4 (quote_run [OpBidSize 7 4] (q_clearRuntime True 1 ex_quote)) \<and>
   \<not> isBidUpdatePrice 4 (quote_run [OpBidSize 7 4] (q_clearRuntime True 1 ex_quote))"
proof -
  have "4 < SIZE" by (simp add: SIZE_def)
  from quote_flags_exact [OF this refl, of "[OpBidSize 7 4]" True 1 ex_quote] show ?thesis by simp
qed

text \<open>
  The two coarse flag operations are off. The mask of \<open>isLevelUpdate\<close> is shifted by one
  position per level instead of four: a new bid size of level 0 counts as an update of level 1,
  and an update of level 4 is not seen. \<open>setAll\<close> sets eleven of the thirty-two flags: after
  it level 3 counts as unchanged.
\<close>

theorem coarse_flags_misreport:
  "isLevelUpdate 1 (setBidSize s 0 (q_clearFlag q)) \<and> \<not> isLevelUpdate 4 (setAsk p s 4 n (q_clearFlag q)) \<and>
   \<not> isBidUpdate 3 (q_setAll q) \<and> \<not> isAskUpdate 3 (q_setAll q)"
proof -
  have m: "0 \<noteq> (bidUpdateSizeBits 0 AND levelUpdateBits 1)" "askUpdateBits 4 AND levelUpdateBits 4 = 0"
    "drop_bit NOTUSED (- 1) AND bidUpdateBits 3 = 0" "drop_bit NOTUSED (- 1) AND askUpdateBits 3 = 0"
    by code_simp+
  then show ?thesis
    by (simp add: isLevelUpdate_def isBidUpdate_def isAskUpdate_def setBidSize_def setAsk_def setBidUpdateSize_def setAskUpdate_def
        q_mark_def q_has_def q_setAll_def q_clearFlag_def upd_bid_def upd_ask_def SIZE_def)
qed

end
