(* ===== verification/Matcher.thy ===== *)
theory Matcher
  imports Quote "HOL-Library.Char_ord" "HOL-Library.List_Lexorder"
begin

section \<open>Matcher: the exchange simulator's matching engine (exchange\_sim/matcher.h, matcher.cpp)\<close>

text \<open>
  One matcher per instrument keeps both sides of the book: levels in price order, each with its
  orders in time order. \<open>kSim\<close> orders stand for the market's size at a level, the others
  are client orders. Orders are shared between the book, the map of open orders and the caller:
  they are addresses into a store. The event listener's calls are a log, oldest first; a call that
  reads the order carries it as it is at the time of the call.
  Erasing the end iterator of the map is undefined behaviour: it sets \<open>mt_ub\<close>, and the
  state means nothing from there on.

  The loops erase from a vector and start again at its beginning. They do so only while every
  entry before the current one is gone or, in \<open>updateLevelOrders\<close>, is skipped again, so
  the model walks the list once.
\<close>

record order_sim =
  so_clOrderId :: string
  so_origClOrderId :: string
  so_corrClOrderId :: string
  so_targetCompId :: string
  so_exOrderId :: string
  so_type :: eOrderType
  so_side :: eOrderSide
  so_timeInForce :: eTimeInForce
  so_price :: ticks
  so_newPrice :: ticks
  so_qty :: size
  so_cumQty :: size
  so_internalCxl :: bool

datatype sim_event =
  EvNewAck optr | EvModAck optr | EvCxlAck optr order_sim | EvFill optr order_sim ticks size eLiqInd | EvEvent

type_synonym book_level = "price_size_orders \<times> optr list"
type_synonym sim_book = "book_level list"

record matcher =
  mt_heap :: "optr \<Rightarrow> order_sim"
  mt_next :: optr
  mt_bids :: sim_book
  mt_asks :: sim_book
  mt_ordersMap :: "(string, optr) stdmap"
  mt_percentCancelFront :: u32
  mt_events :: "sim_event list"
  mt_ub :: bool

definition sim_default :: order_sim where
  "sim_default = \<lparr>so_clOrderId = [], so_origClOrderId = [], so_corrClOrderId = [], so_targetCompId = [],
     so_exOrderId = [], so_type = kUnknownType, so_side = kUnknownSide,
     so_timeInForce = kUnknownTimeInForce, so_price = invalid_ticks, so_newPrice = invalid_ticks, so_qty = 0,
     so_cumQty = 0, so_internalCxl = False\<rparr>"

definition mt_clear :: "matcher \<Rightarrow> matcher" where
  "mt_clear m = m\<lparr>mt_bids := [], mt_asks := [], mt_ordersMap := [], mt_percentCancelFront := 20\<rparr>"

definition mt_init :: "u32 \<Rightarrow> matcher \<Rightarrow> bool \<times> matcher" where
  "mt_init percent m = (if percent > 100 then (False, m) else (True, m\<lparr>mt_percentCancelFront := percent\<rparr>))"

definition mt_log :: "sim_event \<Rightarrow> matcher \<Rightarrow> matcher" where
  "mt_log e m = m\<lparr>mt_events := mt_events m @ [e]\<rparr>"

definition mt_set :: "optr \<Rightarrow> (order_sim \<Rightarrow> order_sim) \<Rightarrow> matcher \<Rightarrow> matcher" where
  "mt_set p f m = m\<lparr>mt_heap := (mt_heap m)(p := f (mt_heap m p))\<rparr>"

definition mt_openQty :: "matcher \<Rightarrow> optr \<Rightarrow> size" where
  "mt_openQty m p = tw_sub (so_qty (mt_heap m p)) (so_cumQty (mt_heap m p))"

subsection \<open>Queries\<close>

definition mt_getOrder :: "matcher \<Rightarrow> string \<Rightarrow> optr option" where
  "mt_getOrder m k = sm_find (mt_ordersMap m) k"

definition mt_getBookLevel :: "matcher \<Rightarrow> ticks \<Rightarrow> bool \<Rightarrow> book_level" where
  "mt_getBookLevel m price bids =
     (case find (\<lambda>l. ps_price (fst l) = price) (if bids then mt_bids m else mt_asks m) of
        None \<Rightarrow> (ps_clear, []) | Some l \<Rightarrow> l)"

definition getOpenSimQty :: "matcher \<Rightarrow> book_level \<Rightarrow> size" where
  "getOpenSimQty m l =
     fold (\<lambda>p q. if kSim = so_type (mt_heap m p) then size_add_eq q (mt_openQty m p) else q) (snd l) 0"

subsection \<open>Fills and removal\<close>

definition generateFill :: "optr \<Rightarrow> ticks \<Rightarrow> size \<Rightarrow> eLiqInd \<Rightarrow> matcher \<Rightarrow> matcher" where
  "generateFill p price qty liq m =
     (let m1 = (if kSim \<noteq> so_type (mt_heap m p) then mt_log (EvFill p (mt_heap m p) price qty liq) m else m)
      in mt_set p (\<lambda>ord. ord\<lparr>so_cumQty := size_add_eq (so_cumQty ord) qty\<rparr>) m1)"

text \<open>A released order is cleared before it is handed out again: an obtained order has default fields.\<close>

definition createOrder :: "matcher \<Rightarrow> optr \<times> matcher" where
  "createOrder m =
     (mt_next m, m\<lparr>mt_heap := (mt_heap m)(mt_next m := sim_default), mt_next := mt_next m + 1\<rparr>)"

definition createSimOrder :: "size \<Rightarrow> matcher \<Rightarrow> optr \<times> matcher" where
  "createSimOrder qty m =
     (let (p, m1) = createOrder m
      in (p, mt_set p (\<lambda>ord. ord\<lparr>so_type := kSim, so_qty := qty, so_cumQty := 0\<rparr>) m1))"

text \<open>\<open>eraseOrder(orders, iter)\<close>, its effect on the map; the caller drops the list entry.\<close>

definition mt_unmap :: "optr \<Rightarrow> matcher \<Rightarrow> matcher" where
  "mt_unmap p m =
     (if kSim \<noteq> so_type (mt_heap m p)
      then (if sm_find (mt_ordersMap m) (so_exOrderId (mt_heap m p)) = None then m\<lparr>mt_ub := True\<rparr>
            else m\<lparr>mt_ordersMap := sm_erase (mt_ordersMap m) (so_exOrderId (mt_heap m p))\<rparr>)
      else m)"

fun erase_in_orders :: "optr \<Rightarrow> optr list \<Rightarrow> matcher \<Rightarrow> optr list \<times> matcher" where
  "erase_in_orders p [] m = ([], m)"
| "erase_in_orders p (q # qs) m =
     (if so_exOrderId (mt_heap m p) = so_exOrderId (mt_heap m q) then (qs, mt_unmap q m)
      else (let (rest, m1) = erase_in_orders p qs m in (q # rest, m1)))"

fun mt_eraseOrder :: "optr \<Rightarrow> sim_book \<Rightarrow> matcher \<Rightarrow> sim_book \<times> matcher" where
  "mt_eraseOrder p [] m = ([], m)"
| "mt_eraseOrder p ((l, qs) # rest) m =
     (if ps_price l = so_price (mt_heap m p)
      then (let (qs1, m1) = erase_in_orders p qs m
            in (if qs \<noteq> [] \<and> qs1 = [] then rest else (l, qs1) # rest, m1))
      else (let (b, m1) = mt_eraseOrder p rest m in ((l, qs) # b, m1)))"

subsection \<open>Market data against the book\<close>

definition processMatch :: "optr \<Rightarrow> size \<Rightarrow> matcher \<Rightarrow> bool \<times> size \<times> matcher" where
  "processMatch p qty m =
     (let openQty = mt_openQty m p in
      if qty < openQty then (False, 0, generateFill p (so_price (mt_heap m p)) qty kAdd m)
      else (True, size_sub_eq qty openQty, generateFill p (so_price (mt_heap m p)) openQty kAdd m))"

fun processMatches :: "optr list \<Rightarrow> size \<Rightarrow> matcher \<Rightarrow> optr list \<times> size \<times> matcher" where
  "processMatches [] sz m = ([], sz, m)"
| "processMatches (p # ps) sz m =
     (if sz > 0
      then (case processMatch p sz m of
              (True, sz1, m1) \<Rightarrow> processMatches ps sz1 (mt_unmap p m1)
            | (False, sz1, m1) \<Rightarrow> (let (rest, sz2, m2) = processMatches ps sz1 m1 in (p # rest, sz2, m2)))
      else (p # ps, sz, m))"

fun processTrade :: "(ticks \<Rightarrow> ticks \<Rightarrow> bool) \<Rightarrow> ticks \<Rightarrow> sim_book \<Rightarrow> size \<Rightarrow> matcher \<Rightarrow> sim_book \<times> matcher" where
  "processTrade cmp price [] sz m = ([], m)"
| "processTrade cmp price ((l, ps) # rest) sz m =
     (if sz > 0 \<and> cmp price (ps_price l)
      then (let (ps1, sz1, m1) = processMatches ps sz m; (b, m2) = processTrade cmp price rest sz1 m1
            in (if ps1 = [] then b else (l, ps1) # b, m2))
      else ((l, ps) # rest, m))"

fun processCrosses :: "ticks \<Rightarrow> optr list \<Rightarrow> matcher \<Rightarrow> matcher" where
  "processCrosses price [] m = m"
| "processCrosses price (p # ps) m =
     processCrosses price ps (mt_unmap p (generateFill p price (mt_openQty m p) kAdd m))"

fun cross_levels :: "(ticks \<Rightarrow> ticks \<Rightarrow> bool) \<Rightarrow> ticks \<Rightarrow> sim_book \<Rightarrow> matcher \<Rightarrow> sim_book \<times> matcher" where
  "cross_levels cmp price [] m = ([], m)"
| "cross_levels cmp price ((l, ps) # rest) m =
     (if cmp price (ps_price l) then cross_levels cmp price rest (processCrosses (ps_price l) ps m)
      else ((l, ps) # rest, m))"

definition processCross ::
    "(ticks \<Rightarrow> ticks \<Rightarrow> bool) \<Rightarrow> price_size_orders \<Rightarrow> sim_book \<Rightarrow> matcher \<Rightarrow> sim_book \<times> matcher" where
  "processCross cmp level b m = (if ps_size level \<le> 0 then (b, m) else cross_levels cmp (ps_price level) b m)"

text \<open>One cancel pass of \<open>updateLevelOrders\<close>: simulated orders in the given order, until the quantity is gone.\<close>

fun cancel_pass :: "optr list \<Rightarrow> size \<Rightarrow> matcher \<Rightarrow> optr list \<times> matcher" where
  "cancel_pass [] q m = ([], m)"
| "cancel_pass (p # ps) q m =
     (if q > 0
      then
        (if kSim = so_type (mt_heap m p)
         then (case processMatch p q m of
                 (True, q1, m1) \<Rightarrow> cancel_pass ps q1 (mt_unmap p m1)
               | (False, q1, m1) \<Rightarrow> (let (rest, m2) = cancel_pass ps q1 m1 in (p # rest, m2)))
         else (let (rest, m2) = cancel_pass ps q m in (p # rest, m2)))
      else (p # ps, m))"

text \<open>The share of a cancelled quantity that is taken from the front; the divisor is not zero.\<close>

definition percent_front :: "size \<Rightarrow> u32 \<Rightarrow> size" where
  "percent_front diff percent =
     (case tw_div (tw_mul diff (s32 (uint percent))) 100 of None \<Rightarrow> 0 | Some x \<Rightarrow> x)"

definition updateLevelOrders :: "price_size_orders \<Rightarrow> optr list \<Rightarrow> matcher \<Rightarrow> book_level \<times> matcher" where
  "updateLevelOrders level ps m =
     (let sz = getOpenSimQty m (level, ps) in
      if sz = ps_size level then ((level, ps), m)
      else if ps_size level > sz
      then
        (let delta = tw_sub (ps_size level) sz in
         if ps \<noteq> [] \<and> kSim = so_type (mt_heap m (last ps))
         then ((level, ps), mt_set (last ps) (\<lambda>ord. ord\<lparr>so_qty := size_add_eq (so_qty ord) delta\<rparr>) m)
         else (let (p, m1) = createSimOrder delta m in ((level, ps @ [p]), m1)))
      else
        (let diff = tw_sub sz (ps_size level);
             qf = percent_front diff (mt_percentCancelFront m);
             qb = tw_sub (tw_sub sz (ps_size level)) qf;
             (ps1, m1) = cancel_pass ps qf m;
             (ps2, m2) = cancel_pass (rev ps1) qb m1
         in ((level, rev ps2), m2)))"

subsection \<open>Levels of a quote, resting orders\<close>

fun level_insert ::
    "(ticks \<Rightarrow> ticks \<Rightarrow> bool) \<Rightarrow> price_size_orders \<Rightarrow> sim_book \<Rightarrow> matcher \<Rightarrow> sim_book \<times> matcher" where
  "level_insert cmp level [] m = (let (p, m1) = createSimOrder (ps_size level) m in ([(level, [p])], m1))"
| "level_insert cmp level ((l, ps) # rest) m =
     (if cmp (ps_price level) (ps_price l)
      then (let (p, m1) = createSimOrder (ps_size level) m in ((level, [p]) # (l, ps) # rest, m1))
      else if ps_price level = ps_price l
      then (let (lv, m1) = updateLevelOrders level ps m in (lv # rest, m1))
      else (let (b, m1) = level_insert cmp level rest m in ((l, ps) # b, m1)))"

definition processLevel ::
    "(ticks \<Rightarrow> ticks \<Rightarrow> bool) \<Rightarrow> price_size_orders \<Rightarrow> sim_book \<Rightarrow> matcher \<Rightarrow> sim_book \<times> matcher" where
  "processLevel cmp level b m = (if 0 \<ge> ps_size level then (b, m) else level_insert cmp level b m)"

fun rest_insert :: "(ticks \<Rightarrow> ticks \<Rightarrow> bool) \<Rightarrow> ticks \<Rightarrow> optr \<Rightarrow> sim_book \<Rightarrow> sim_book" where
  "rest_insert cmp price p [] = [(ps_clear\<lparr>ps_price := price\<rparr>, [p])]"
| "rest_insert cmp price p ((l, ps) # rest) =
     (if cmp price (ps_price l) then (ps_clear\<lparr>ps_price := price\<rparr>, [p]) # (l, ps) # rest
      else if price = ps_price l then (l, ps @ [p]) # rest
      else (l, ps) # rest_insert cmp price p rest)"

definition processNew :: "(ticks \<Rightarrow> ticks \<Rightarrow> bool) \<Rightarrow> optr \<Rightarrow> sim_book \<Rightarrow> matcher \<Rightarrow> sim_book" where
  "processNew cmp p b m =
     (if so_qty (mt_heap m p) \<le> so_cumQty (mt_heap m p) then b
      else rest_insert cmp (so_price (mt_heap m p)) p b)"

subsection \<open>Matching an incoming order\<close>

fun match_orders :: "ticks \<Rightarrow> optr \<Rightarrow> optr list \<Rightarrow> size \<Rightarrow> matcher \<Rightarrow> optr list \<times> size \<times> matcher" where
  "match_orders price p [] openQty m = ([], openQty, m)"
| "match_orders price p (r # rs) openQty m =
     (if openQty > 0
      then
        (let matchOpenQty = mt_openQty m r in
         if openQty \<ge> matchOpenQty
         then match_orders price p rs (size_sub_eq openQty matchOpenQty)
                (mt_unmap r (generateFill p price matchOpenQty kRem (generateFill r price matchOpenQty kAdd m)))
         else (let (rest, q, m1) = match_orders price p rs (size_sub_eq openQty openQty)
                 (generateFill p price openQty kRem (generateFill r price openQty kAdd m))
               in (r # rest, q, m1)))
      else (r # rs, openQty, m))"

fun match_levels ::
    "(ticks \<Rightarrow> ticks \<Rightarrow> bool) \<Rightarrow> optr \<Rightarrow> sim_book \<Rightarrow> size \<Rightarrow> matcher \<Rightarrow> sim_book \<times> matcher" where
  "match_levels cmp p [] openQty m = ([], m)"
| "match_levels cmp p ((l, ps) # rest) openQty m =
     (if cmp (so_price (mt_heap m p)) (ps_price l) \<and> openQty > 0
      then (let (ps1, q1, m1) = match_orders (ps_price l) p ps openQty m;
                (b, m2) = match_levels cmp p rest q1 m1
            in (if ps1 = [] then b else (l, ps1) # b, m2))
      else ((l, ps) # rest, m))"

definition checkMatches :: "(ticks \<Rightarrow> ticks \<Rightarrow> bool) \<Rightarrow> optr \<Rightarrow> sim_book \<Rightarrow> matcher \<Rightarrow> sim_book \<times> matcher" where
  "checkMatches cmp p b m = match_levels cmp p b (mt_openQty m p) m"

subsection \<open>Requests\<close>

abbreviation t_le :: "ticks \<Rightarrow> ticks \<Rightarrow> bool" where "t_le x y \<equiv> x \<le> y"
abbreviation t_ge :: "ticks \<Rightarrow> ticks \<Rightarrow> bool" where "t_ge x y \<equiv> y \<le> x"
abbreviation t_l :: "ticks \<Rightarrow> ticks \<Rightarrow> bool" where "t_l x y \<equiv> x < y"
abbreviation t_g :: "ticks \<Rightarrow> ticks \<Rightarrow> bool" where "t_g x y \<equiv> y < x"

text \<open>
  A step of a member function on one of the two books: the function gets the book and the
  matcher, and the new book is stored back.
\<close>

definition on_bids :: "(sim_book \<Rightarrow> matcher \<Rightarrow> sim_book \<times> matcher) \<Rightarrow> matcher \<Rightarrow> matcher" where
  "on_bids f m = (let (b, m1) = f (mt_bids m) m in m1\<lparr>mt_bids := b\<rparr>)"

definition on_asks :: "(sim_book \<Rightarrow> matcher \<Rightarrow> sim_book \<times> matcher) \<Rightarrow> matcher \<Rightarrow> matcher" where
  "on_asks f m = (let (b, m1) = f (mt_asks m) m in m1\<lparr>mt_asks := b\<rparr>)"

definition erase_by_side :: "optr \<Rightarrow> matcher \<Rightarrow> matcher" where
  "erase_by_side p m =
     (case so_side (mt_heap m p) of
        kBuy \<Rightarrow> on_bids (mt_eraseOrder p) m
      | kSell \<Rightarrow> on_asks (mt_eraseOrder p) m
      | _ \<Rightarrow> m)"

definition mt_sendCxl :: "optr \<Rightarrow> matcher \<Rightarrow> matcher" where
  "mt_sendCxl p m =
     (let m1 = erase_by_side p m in mt_log EvEvent (mt_log (EvCxlAck p (mt_heap m1 p)) m1))"

text \<open>The end of \<open>processNewOrderAtLevel\<close>: an open order enters the map, which keeps an older entry.\<close>

definition mt_register :: "optr \<Rightarrow> matcher \<Rightarrow> matcher" where
  "mt_register p m =
     (if so_qty (mt_heap m p) > so_cumQty (mt_heap m p)
      then m\<lparr>mt_ordersMap := sm_insert (mt_ordersMap m) (so_exOrderId (mt_heap m p)) p\<rparr> else m)"

definition internal_cxl :: "optr \<Rightarrow> matcher \<Rightarrow> matcher" where
  "internal_cxl p m = mt_sendCxl p (mt_set p (\<lambda>ord. ord\<lparr>so_internalCxl := True\<rparr>) m)"

definition processNewOrderAtLevel :: "optr \<Rightarrow> matcher \<Rightarrow> matcher" where
  "processNewOrderAtLevel p m =
     (case so_side (mt_heap m p) of
        kBuy \<Rightarrow>
          (let m1 = on_asks (checkMatches t_ge p) m in
           if kIOC = so_timeInForce (mt_heap m1 p) then internal_cxl p m1
           else mt_register p (on_bids (\<lambda>b m. (processNew t_g p b m, m)) m1))
      | kSell \<Rightarrow>
          (let m1 = on_bids (checkMatches t_le p) m in
           if kIOC = so_timeInForce (mt_heap m1 p) then internal_cxl p m1
           else mt_register p (on_asks (\<lambda>b m. (processNew t_l p b m, m)) m1))
      | _ \<Rightarrow> mt_register p m)"

definition mt_sendNew :: "optr \<Rightarrow> matcher \<Rightarrow> matcher" where
  "mt_sendNew p m =
     mt_log EvEvent (processNewOrderAtLevel p (mt_log (EvNewAck p)
       (mt_set p (\<lambda>ord. ord\<lparr>so_exOrderId := so_clOrderId ord\<rparr>) m)))"

definition mt_sendMod :: "optr \<Rightarrow> matcher \<Rightarrow> matcher" where
  "mt_sendMod p m =
     mt_log EvEvent (processNewOrderAtLevel p (mt_log (EvModAck p)
       (mt_set p (\<lambda>ord. ord\<lparr>so_price := so_newPrice ord\<rparr>) (erase_by_side p m))))"

subsection \<open>Quotes\<close>

text \<open>A quote without its instrument makes the code follow a null pointer: \<open>None\<close>.\<close>

definition bad_future_price :: "'d quote \<Rightarrow> bool" where
  "bad_future_price q \<longleftrightarrow>
     (let bid = ps_price (pl_bid (q_book q ! 0)); ask = ps_price (pl_ask (q_book q ! 0))
      in (tw_isValid bid \<and> 0 \<ge> bid) \<or> (tw_isValid ask \<and> 0 \<ge> ask))"

definition quote_trades :: "'d quote \<Rightarrow> matcher \<Rightarrow> matcher" where
  "quote_trades q m =
     (if isNormalTrade q
      then on_asks (\<lambda>b m. processTrade t_ge (ps_price (q_trade q)) b (ps_size (q_trade q)) m)
             (on_bids (\<lambda>b m. processTrade t_le (ps_price (q_trade q)) b (ps_size (q_trade q)) m) m)
      else m)"

definition quote_crosses :: "'d quote \<Rightarrow> matcher \<Rightarrow> matcher" where
  "quote_crosses q m =
     (let m1 = (if isAskUpdatePrice 0 q then on_bids (processCross t_le (pl_ask (q_book q ! 0))) m else m)
      in if isBidUpdatePrice 0 q then on_asks (processCross t_ge (pl_bid (q_book q ! 0))) m1 else m1)"

definition quote_level :: "bool \<Rightarrow> 'd quote \<Rightarrow> nat \<Rightarrow> matcher \<Rightarrow> matcher" where
  "quote_level future q i m =
     (let m1 = (if isBidUpdate i q \<and> (0 < ps_price (pl_bid (q_book q ! i)) \<or> \<not> future)
                then on_bids (processLevel t_g (pl_bid (q_book q ! i))) m else m)
      in if isAskUpdate i q \<and> (0 < ps_price (pl_ask (q_book q ! i)) \<or> \<not> future)
         then on_asks (processLevel t_l (pl_ask (q_book q ! i))) m1 else m1)"

definition mt_onQuote :: "'d quote \<Rightarrow> matcher \<Rightarrow> matcher option" where
  "mt_onQuote q m =
     (if q_status q \<noteq> kSuccess \<and> q_status q \<noteq> kQExchangeSlow then Some m
      else
        (case q_instrument q of
           None \<Rightarrow> None
         | Some i \<Rightarrow>
             if kFuture = ins_instrType i \<and> bad_future_price q then Some m
             else Some (mt_log EvEvent
                    (fold (quote_level (kFuture = ins_instrType i) q) [0..<SIZE] (quote_crosses q (quote_trades q m))))))"

end
