(* ===== verification/MatcherFacts.thy ===== *)
theory MatcherFacts
  imports Matcher "HOL-Library.Sublist" "HOL-Library.Multiset"
begin

section \<open>The book of the matcher stays well formed\<close>

text \<open>
  The structural invariant of the matching engine: both books strictly in price order with no
  empty level, every order in one place, and the map of open orders exactly the client orders of
  the books. The operations on one book are instances of one contract.
\<close>

subsection \<open>Static part of an order, registered orders\<close>

definition skel :: "order_sim \<Rightarrow> order_sim" where
  "skel x = x\<lparr>so_qty := 0, so_cumQty := 0\<rparr>"

definition is_client :: "matcher \<Rightarrow> optr \<Rightarrow> bool" where
  "is_client m p \<longleftrightarrow> so_type (mt_heap m p) \<noteq> kSim"

text \<open>What a step on one book leaves alone: the books, and every field of the existing orders but the quantities.\<close>

definition same_orders :: "matcher \<Rightarrow> matcher \<Rightarrow> bool" where
  "same_orders m m1 \<longleftrightarrow> mt_next m \<le> mt_next m1 \<and> (\<forall>p < mt_next m. skel (mt_heap m1 p) = skel (mt_heap m p)) \<and>
     mt_bids m1 = mt_bids m \<and> mt_asks m1 = mt_asks m"

definition live :: "matcher \<Rightarrow> optr set \<Rightarrow> bool" where
  "live m P \<longleftrightarrow> \<not> mt_ub m \<and> sm_ok (mt_ordersMap m) \<and> P \<subseteq> {..<mt_next m} \<and>
     (\<forall>k p. sm_find (mt_ordersMap m) k = Some p \<longleftrightarrow> p \<in> P \<and> is_client m p \<and> so_exOrderId (mt_heap m p) = k)"

lemma skel_fields:
  assumes "skel x = skel y"
  shows "so_type x = so_type y" "so_side x = so_side y" "so_price x = so_price y" "so_exOrderId x = so_exOrderId y"
    "so_timeInForce x = so_timeInForce y" "so_clOrderId x = so_clOrderId y" "so_newPrice x = so_newPrice y"
  using assms by (cases x; cases y; simp add: skel_def)+

lemma skel_qty [simp]: "skel (x\<lparr>so_cumQty := c\<rparr>) = skel x" "skel (x\<lparr>so_qty := c\<rparr>) = skel x"
  by (simp_all add: skel_def)

lemma same_refl [simp]: "same_orders m m"
  by (simp add: same_orders_def)

lemma same_trans: "same_orders m m1 \<Longrightarrow> same_orders m1 m2 \<Longrightarrow> same_orders m m2"
  by (auto simp: same_orders_def)

lemma same_fields:
  assumes "same_orders m m1" "p < mt_next m"
  shows "so_type (mt_heap m1 p) = so_type (mt_heap m p)" "so_side (mt_heap m1 p) = so_side (mt_heap m p)"
    "so_price (mt_heap m1 p) = so_price (mt_heap m p)" "so_exOrderId (mt_heap m1 p) = so_exOrderId (mt_heap m p)"
    "so_timeInForce (mt_heap m1 p) = so_timeInForce (mt_heap m p)" "is_client m1 p = is_client m p"
proof -
  have "skel (mt_heap m1 p) = skel (mt_heap m p)" using assms by (simp add: same_orders_def)
  from skel_fields [OF this] show "so_type (mt_heap m1 p) = so_type (mt_heap m p)"
    "so_side (mt_heap m1 p) = so_side (mt_heap m p)" "so_price (mt_heap m1 p) = so_price (mt_heap m p)"
    "so_exOrderId (mt_heap m1 p) = so_exOrderId (mt_heap m p)"
    "so_timeInForce (mt_heap m1 p) = so_timeInForce (mt_heap m p)" "is_client m1 p = is_client m p"
    by (simp_all add: is_client_def)
qed

lemma live_same:
  assumes "live m P" "same_orders m m1" "mt_ordersMap m1 = mt_ordersMap m" "mt_ub m1 = mt_ub m"
  shows "live m1 P"
proof -
  have lt: "p < mt_next m" if "p \<in> P" for p using assms(1) that by (auto simp: live_def)
  have "p \<in> P \<and> is_client m1 p \<and> so_exOrderId (mt_heap m1 p) = k \<longleftrightarrow>
      p \<in> P \<and> is_client m p \<and> so_exOrderId (mt_heap m p) = k" for p k
    using lt same_fields(4,6) [OF assms(2)] by metis
  moreover have "P \<subseteq> {..<mt_next m1}" using lt assms(2) by (force simp: same_orders_def)
  ultimately show ?thesis using assms(1,3,4) by (simp add: live_def)
qed

lemma same_fill [simp]: "same_orders m (generateFill p price q liq m)"
  by (simp add: same_orders_def generateFill_def mt_log_def mt_set_def)

lemma fill_fields [simp]:
  "mt_ordersMap (generateFill p price q liq m) = mt_ordersMap m" "mt_ub (generateFill p price q liq m) = mt_ub m"
  "mt_next (generateFill p price q liq m) = mt_next m"
  "mt_bids (generateFill p price q liq m) = mt_bids m" "mt_asks (generateFill p price q liq m) = mt_asks m"
  by (simp_all add: generateFill_def mt_log_def mt_set_def)

lemma live_fill: "live m P \<Longrightarrow> live (generateFill p price q liq m) P"
  by (rule live_same) simp_all

lemma same_unmap [simp]: "same_orders m (mt_unmap p m)"
  by (simp add: same_orders_def mt_unmap_def)

lemma live_find: "live m P \<Longrightarrow> p \<in> P \<Longrightarrow> is_client m p \<Longrightarrow> sm_find (mt_ordersMap m) (so_exOrderId (mt_heap m p)) = Some p"
  by (simp add: live_def)

lemma live_unique:
  "live m P \<Longrightarrow> p \<in> P \<Longrightarrow> q \<in> P \<Longrightarrow> is_client m p \<Longrightarrow> is_client m q \<Longrightarrow>
     so_exOrderId (mt_heap m q) = so_exOrderId (mt_heap m p) \<Longrightarrow> q = p"
  using live_find [of m P p] live_find [of m P q] by simp

lemma liveI:
  assumes "\<not> mt_ub m" "sm_ok (mt_ordersMap m)" "P \<subseteq> {..<mt_next m}"
    "\<And>k p. sm_find (mt_ordersMap m) k = Some p \<longleftrightarrow> p \<in> P \<and> is_client m p \<and> so_exOrderId (mt_heap m p) = k"
  shows "live m P"
  using assms by (simp add: live_def)

lemma liveD:
  assumes "live m P"
  shows "\<not> mt_ub m" "sm_ok (mt_ordersMap m)" "P \<subseteq> {..<mt_next m}"
    "sm_find (mt_ordersMap m) k = Some p \<longleftrightarrow> p \<in> P \<and> is_client m p \<and> so_exOrderId (mt_heap m p) = k"
  using assms by (simp_all add: live_def)

lemma live_unmap:
  assumes "live m P" "p \<in> P"
  shows "live (mt_unmap p m) (P - {p})"
proof (cases "is_client m p")
  case False
  then have u: "mt_unmap p m = m" by (simp add: mt_unmap_def is_client_def)
  have "q \<in> P - {p} \<and> is_client m q \<longleftrightarrow> q \<in> P \<and> is_client m q" for q using False by blast
  with liveD [OF assms(1)] show ?thesis unfolding u by (intro liveI) (blast+)
next
  case True
  have u: "mt_unmap p m = m\<lparr>mt_ordersMap := sm_erase (mt_ordersMap m) (so_exOrderId (mt_heap m p))\<rparr>"
    using True live_find [OF assms True] by (simp add: mt_unmap_def is_client_def)
  have c: "is_client (mt_unmap p m) q = is_client m q" for q by (simp add: u is_client_def)
  show ?thesis
  proof (rule liveI)
    fix k q
    have "sm_find (mt_ordersMap (mt_unmap p m)) k = Some q \<longleftrightarrow>
        k \<noteq> so_exOrderId (mt_heap m p) \<and> sm_find (mt_ordersMap m) k = Some q"
      by (simp add: u sm_find_erase [OF liveD(2) [OF assms(1)]])
    also have "\<dots> \<longleftrightarrow> k \<noteq> so_exOrderId (mt_heap m p) \<and> q \<in> P \<and> is_client m q \<and> so_exOrderId (mt_heap m q) = k"
      by (simp only: liveD(4) [OF assms(1)])
    also have "\<dots> \<longleftrightarrow> q \<in> P - {p} \<and> is_client m q \<and> so_exOrderId (mt_heap m q) = k"
      using live_unique [OF assms _ True, of q] by blast
    finally show "sm_find (mt_ordersMap (mt_unmap p m)) k = Some q \<longleftrightarrow>
        q \<in> P - {p} \<and> is_client (mt_unmap p m) q \<and> so_exOrderId (mt_heap (mt_unmap p m) q) = k"
      by (simp add: c) (simp add: u)
  qed (use liveD [OF assms(1)] in \<open>auto simp: u sm_ok_erase\<close>)
qed

subsection \<open>Loops that take orders out of a list\<close>

text \<open>\<open>m'\<close> differs from \<open>m\<close> in quantities and events only.\<close>

definition refilled :: "matcher \<Rightarrow> matcher \<Rightarrow> bool" where
  "refilled m m' \<longleftrightarrow> same_orders m m' \<and> mt_ordersMap m' = mt_ordersMap m \<and> mt_ub m' = mt_ub m"

definition reduced :: "matcher \<Rightarrow> optr list \<Rightarrow> matcher \<Rightarrow> optr list \<Rightarrow> bool" where
  "reduced m ps m1 ps1 \<longleftrightarrow> subseq ps1 ps \<and> same_orders m m1 \<and>
     (\<forall>X. live m (set ps \<union> X) \<longrightarrow> distinct ps \<longrightarrow> set ps \<inter> X = {} \<longrightarrow> live m1 (set ps1 \<union> X))"

lemma refilled_simps [simp, intro]: "refilled m m" "refilled m (generateFill p price q liq m)"
  by (simp_all add: refilled_def)

lemma refilled_fill2 [simp, intro]: "refilled m (generateFill p price q liq (generateFill r price2 q2 liq2 m))"
  unfolding refilled_def using same_trans same_fill by (metis fill_fields(1,2))

lemma reduced_refl [simp]: "reduced m ps m ps"
  by (simp add: reduced_def)

lemma reduced_refill: "refilled m m' \<Longrightarrow> reduced m ps m' ps"
  by (auto simp: reduced_def refilled_def intro: live_same)

lemma reduced_erase:
  assumes "reduced (mt_unmap p m') ps m1 ps1" "refilled m m'"
  shows "reduced m (p # ps) m1 ps1"
  unfolding reduced_def
proof (intro conjI allI impI)
  show "subseq ps1 (p # ps)" using assms(1) by (auto simp: reduced_def)
  show "same_orders m m1" using assms same_unmap same_trans unfolding reduced_def refilled_def by meson
next
  fix X assume a: "live m (set (p # ps) \<union> X)" "distinct (p # ps)" "set (p # ps) \<inter> X = {}"
  have "live m' (insert p (set ps \<union> X))" using a(1) assms(2) live_same by (auto simp: refilled_def)
  then have "live (mt_unmap p m') (insert p (set ps \<union> X) - {p})" by (rule live_unmap) simp
  moreover have "insert p (set ps \<union> X) - {p} = set ps \<union> X" using a by auto
  ultimately show "live m1 (set ps1 \<union> X)" using assms(1) a by (auto simp: reduced_def)
qed

lemma subseq_subset: "subseq xs ys \<Longrightarrow> set xs \<subseteq> set ys"
  by (induction rule: list_emb.induct) auto

lemma subseq_distinct: "subseq xs ys \<Longrightarrow> distinct ys \<Longrightarrow> distinct xs"
  by (induction rule: list_emb.induct) (auto dest: list_emb_set)

lemma subseq_sorted_wrt: "subseq xs ys \<Longrightarrow> sorted_wrt P ys \<Longrightarrow> sorted_wrt P xs"
  by (induction rule: list_emb.induct) (auto dest: list_emb_set)

lemma reduced_append:
  assumes "reduced m ps m1 ps1" "reduced m1 qs m2 qs1"
  shows "reduced m (ps @ qs) m2 (ps1 @ qs1)"
  unfolding reduced_def
proof (intro conjI allI impI)
  show "subseq (ps1 @ qs1) (ps @ qs)" using assms by (simp add: reduced_def list_emb_append_mono)
  show "same_orders m m2" using assms same_trans unfolding reduced_def by blast
next
  fix X assume a: "live m (set (ps @ qs) \<union> X)" "distinct (ps @ qs)" "set (ps @ qs) \<inter> X = {}"
  have s: "set ps1 \<subseteq> set ps" using assms(1) by (simp add: reduced_def subseq_subset)
  have "live m1 (set ps1 \<union> (set qs \<union> X))" using assms(1) a by (auto simp: reduced_def Un_assoc)
  then have "live m1 (set qs \<union> (set ps1 \<union> X))" by (simp add: Un_left_commute)
  moreover have "set qs \<inter> (set ps1 \<union> X) = {}" using a s by auto
  ultimately have "live m2 (set qs1 \<union> (set ps1 \<union> X))" using assms(2) a by (simp add: reduced_def)
  then show "live m2 (set (ps1 @ qs1) \<union> X)" by (simp add: Un_ac)
qed

lemma reduced_trans:
  assumes "reduced m ps m1 ps1" "reduced m1 ps1 m2 ps2"
  shows "reduced m ps m2 ps2"
  unfolding reduced_def
proof (intro conjI allI impI)
  show "subseq ps2 ps" using assms subseq_order.trans unfolding reduced_def by blast
  show "same_orders m m2" using assms same_trans unfolding reduced_def by blast
next
  fix X assume a: "live m (set ps \<union> X)" "distinct ps" "set ps \<inter> X = {}"
  have "set ps1 \<subseteq> set ps" "distinct ps1"
    using assms(1) a(2) subseq_subset subseq_distinct unfolding reduced_def by blast+
  moreover have "live m1 (set ps1 \<union> X)" using assms(1) a by (simp add: reduced_def)
  moreover have "set ps1 \<inter> X = {}" using a(3) calculation(1) by blast
  ultimately show "live m2 (set ps2 \<union> X)" using assms(2) by (simp add: reduced_def)
qed

lemma subseq_rev_mono: "subseq xs ys \<Longrightarrow> subseq (rev xs) (rev ys)"
  by (induction rule: list_emb.induct) (auto intro: list_emb_append_mono)

lemma reduced_keep:
  assumes "reduced m' ps m1 ps1" "refilled m m'"
  shows "reduced m (p # ps) m1 (p # ps1)"
  using reduced_append [OF reduced_refill [OF assms(2), of "[p]"] assms(1)] by simp

lemma reduced_rev: "reduced m ps m1 ps1 \<Longrightarrow> reduced m (rev ps) m1 (rev ps1)"
  by (simp add: reduced_def subseq_rev_mono)

lemmas reduced_intros = reduced_refl reduced_erase reduced_keep

lemma processMatches_reduces: "processMatches ps sz m = (ps1, sz1, m1) \<Longrightarrow> reduced m ps m1 ps1"
proof (induction ps arbitrary: sz m ps1 sz1 m1)
  case (Cons p ps)
  from Cons.prems show ?case
    by (auto simp: processMatch_def Let_def split: if_splits prod.splits dest!: Cons.IH intro: reduced_intros)
qed simp

lemma cancel_pass_reduces: "cancel_pass ps q m = (ps1, m1) \<Longrightarrow> reduced m ps m1 ps1"
proof (induction ps arbitrary: q m ps1 m1)
  case (Cons p ps)
  from Cons.prems show ?case
    by (auto simp: processMatch_def Let_def split: if_splits prod.splits dest!: Cons.IH intro: reduced_intros)
qed simp

lemma processCrosses_reduces: "reduced m ps (processCrosses price ps m) []"
  by (induction ps arbitrary: m) (auto intro: reduced_intros)

lemma match_orders_reduces: "match_orders price p ps q m = (ps1, q1, m1) \<Longrightarrow> reduced m ps m1 ps1"
proof (induction ps arbitrary: q m ps1 q1 m1)
  case (Cons r ps)
  from Cons.prems show ?case
    by (auto simp: Let_def split: if_splits prod.splits dest!: Cons.IH intro: reduced_intros)
qed simp

lemma erase_in_orders_reduces: "erase_in_orders p ps m = (ps1, m1) \<Longrightarrow> reduced m ps m1 ps1"
  by (induction ps arbitrary: ps1) (auto simp: Let_def split: if_splits prod.splits intro: reduced_intros)

subsection \<open>The invariant of one book\<close>

definition book_ptrs :: "sim_book \<Rightarrow> optr list" where
  "book_ptrs b = concat (map snd b)"

definition ahead :: "eOrderSide \<Rightarrow> ticks \<Rightarrow> ticks \<Rightarrow> bool" where
  "ahead sd = (if sd = kBuy then t_g else t_l)"

definition by_price :: "eOrderSide \<Rightarrow> sim_book \<Rightarrow> bool" where
  "by_price sd b \<longleftrightarrow> sorted_wrt (\<lambda>l k. ahead sd (ps_price l) (ps_price k)) (map fst b)"

text \<open>An order at a level: client orders carry the price and side of the book, simulated ones no exchange id.\<close>

definition order_at :: "eOrderSide \<Rightarrow> matcher \<Rightarrow> ticks \<Rightarrow> optr \<Rightarrow> bool" where
  "order_at sd m price p \<longleftrightarrow> p < mt_next m \<and>
     (if is_client m p then so_side (mt_heap m p) = sd \<and> so_price (mt_heap m p) = price \<and> so_exOrderId (mt_heap m p) \<noteq> []
      else so_exOrderId (mt_heap m p) = [])"

definition level_ok :: "eOrderSide \<Rightarrow> matcher \<Rightarrow> book_level \<Rightarrow> bool" where
  "level_ok sd m lv \<longleftrightarrow> (\<forall>p \<in> set (snd lv). order_at sd m (ps_price (fst lv)) p)"

definition side_wf :: "eOrderSide \<Rightarrow> matcher \<Rightarrow> sim_book \<Rightarrow> optr set \<Rightarrow> bool" where
  "side_wf sd m b X \<longleftrightarrow> by_price sd b \<and> (\<forall>lv \<in> set b. level_ok sd m lv) \<and> distinct (book_ptrs b) \<and>
     set (book_ptrs b) \<inter> X = {} \<and> live m (set (book_ptrs b) \<union> X)"

lemma book_ptrs_simps [simp]:
  "book_ptrs [] = []" "book_ptrs ((l, ps) # b) = ps @ book_ptrs b" "book_ptrs (b @ c) = book_ptrs b @ book_ptrs c"
  by (simp_all add: book_ptrs_def)

lemma by_price_simps [simp]:
  "by_price sd []" "by_price sd (lv # b) \<longleftrightarrow> (\<forall>k \<in> set b. ahead sd (ps_price (fst lv)) (ps_price (fst k))) \<and> by_price sd b"
  by (auto simp: by_price_def)

lemma order_at_same:
  assumes "same_orders m m1" "order_at sd m price p"
  shows "order_at sd m1 price p"
proof -
  have "p < mt_next m" "mt_next m \<le> mt_next m1" using assms by (simp_all add: order_at_def same_orders_def)
  with assms(2) same_fields [OF assms(1), of p] show ?thesis by (simp add: order_at_def)
qed

lemma level_ok_same: "same_orders m m1 \<Longrightarrow> level_ok sd m lv \<Longrightarrow> level_ok sd m1 lv"
  by (auto simp: level_ok_def intro: order_at_same)

text \<open>A book from which levels and orders were taken out.\<close>

definition shrunk :: "sim_book \<Rightarrow> sim_book \<Rightarrow> bool" where
  "shrunk = list_emb (\<lambda>x y. fst x = fst y \<and> subseq (snd x) (snd y))"

lemma shrunk_simps [simp, intro]: "shrunk [] b" "shrunk b b"
  by (auto simp: shrunk_def intro: list_emb_refl)

lemma shrunk_drop: "shrunk b1 b \<Longrightarrow> shrunk b1 (lv # b)"
  by (simp add: shrunk_def list_emb_Cons)

lemma shrunk_keep: "shrunk b1 b \<Longrightarrow> subseq ps1 ps \<Longrightarrow> shrunk ((l, ps1) # b1) ((l, ps) # b)"
  by (simp add: shrunk_def)

lemma shrunk_by_price: "shrunk b1 b \<Longrightarrow> by_price sd b \<Longrightarrow> by_price sd b1"
proof -
  assume "shrunk b1 b"
  then have "subseq (map fst b1) (map fst b)"
    unfolding shrunk_def by (induction rule: list_emb.induct) auto
  moreover assume "by_price sd b"
  ultimately show ?thesis unfolding by_price_def by (rule subseq_sorted_wrt)
qed

lemma shrunk_levels: "shrunk b1 b \<Longrightarrow> \<forall>lv \<in> set b. level_ok sd m lv \<Longrightarrow> \<forall>lv \<in> set b1. level_ok sd m lv"
proof
  fix lv assume "shrunk b1 b" "\<forall>lv \<in> set b. level_ok sd m lv" "lv \<in> set b1"
  then obtain k where "k \<in> set b" "fst lv = fst k \<and> subseq (snd lv) (snd k)"
    unfolding shrunk_def by (elim list_emb_set) simp_all
  moreover from this have "set (snd lv) \<subseteq> set (snd k)" by (simp add: subseq_subset)
  ultimately show "level_ok sd m lv" using \<open>\<forall>lv \<in> set b. level_ok sd m lv\<close>
    by (simp add: level_ok_def subset_iff)
qed

subsection \<open>Steps on one book\<close>

text \<open>The contract of a step: the book it works on stays well formed beside the other orders \<open>X\<close>.\<close>

locale book_step =
  fixes sd :: eOrderSide and f :: "sim_book \<Rightarrow> matcher \<Rightarrow> sim_book \<times> matcher"
  assumes keeps: "side_wf sd m b X \<Longrightarrow> f b m = (b1, m1) \<Longrightarrow> side_wf sd m1 b1 X \<and> same_orders m m1"

text \<open>A step that only takes orders out.\<close>

locale book_reducer =
  fixes f :: "sim_book \<Rightarrow> matcher \<Rightarrow> sim_book \<times> matcher"
  assumes shrinks: "f b m = (b1, m1) \<Longrightarrow> shrunk b1 b \<and> reduced m (book_ptrs b) m1 (book_ptrs b1)"

sublocale book_reducer \<subseteq> book_step sd f for sd
proof
  fix m b X b1 m1 assume wf: "side_wf sd m b X" and f: "f b m = (b1, m1)"
  from shrinks [OF f] have s: "shrunk b1 b" and r: "reduced m (book_ptrs b) m1 (book_ptrs b1)" by auto
  have same: "same_orders m m1" and sub: "subseq (book_ptrs b1) (book_ptrs b)" using r by (auto simp: reduced_def)
  have "\<forall>lv \<in> set b. level_ok sd m1 lv" using wf level_ok_same [OF same] by (auto simp: side_wf_def)
  then have l: "\<forall>lv \<in> set b1. level_ok sd m1 lv" using shrunk_levels [OF s] by simp
  have i: "set (book_ptrs b1) \<subseteq> set (book_ptrs b)" using sub by (rule subseq_subset)
  have "live m1 (set (book_ptrs b1) \<union> X)" using r wf by (simp add: reduced_def side_wf_def)
  with wf i l shrunk_by_price [OF s] subseq_distinct [OF sub] same
  show "side_wf sd m1 b1 X \<and> same_orders m m1" unfolding side_wf_def by (simp add: disjoint_iff subset_iff)
qed

lemma reduced_level:
  "reduced m ps m1 [] \<Longrightarrow> reduced m1 qs m2 qs1 \<Longrightarrow> reduced m (ps @ qs) m2 qs1"
  using reduced_append [of m ps m1 "[]" qs m2 qs1] by simp

lemma reduced_subseq: "reduced m ps m1 ps1 \<Longrightarrow> subseq ps1 ps"
  by (simp add: reduced_def)

lemmas level_intros = shrunk_drop shrunk_keep reduced_level reduced_append reduced_subseq

lemma processTrade_shrinks:
  "processTrade cmp price b sz m = (b1, m1) \<Longrightarrow>
     shrunk b1 b \<and> reduced m (book_ptrs b) m1 (book_ptrs b1)"
proof (induction b arbitrary: sz m b1 m1)
  case (Cons lv b)
  obtain l ps where lv: "lv = (l, ps)" by (cases lv)
  from Cons.prems Cons.IH show ?case unfolding lv
    by (fastforce split: if_splits prod.splits dest!: processMatches_reduces intro: level_intros)
qed simp

lemma cross_levels_shrinks:
  "cross_levels cmp price b m = (b1, m1) \<Longrightarrow>
     shrunk b1 b \<and> reduced m (book_ptrs b) m1 (book_ptrs b1)"
proof (induction b arbitrary: m b1 m1)
  case (Cons lv b)
  obtain l ps where lv: "lv = (l, ps)" by (cases lv)
  from Cons.prems Cons.IH show ?case unfolding lv
    by (fastforce split: if_splits intro: level_intros processCrosses_reduces)
qed simp

lemma match_levels_shrinks:
  "match_levels cmp p b q m = (b1, m1) \<Longrightarrow>
     shrunk b1 b \<and> reduced m (book_ptrs b) m1 (book_ptrs b1)"
proof (induction b arbitrary: q m b1 m1)
  case (Cons lv b)
  obtain l ps where lv: "lv = (l, ps)" by (cases lv)
  from Cons.prems Cons.IH show ?case unfolding lv
    by (fastforce split: if_splits prod.splits dest!: match_orders_reduces intro: level_intros)
qed simp

lemma eraseOrder_shrinks:
  "mt_eraseOrder p b m = (b1, m1) \<Longrightarrow>
     shrunk b1 b \<and> reduced m (book_ptrs b) m1 (book_ptrs b1)"
proof (induction b arbitrary: b1)
  case (Cons lv b)
  obtain l ps where lv: "lv = (l, ps)" by (cases lv)
  show ?case
  proof (cases "ps_price l = so_price (mt_heap m p)")
    case True
    obtain ps1 m2 where e: "erase_in_orders p ps m = (ps1, m2)" by (cases "erase_in_orders p ps m")
    have r: "reduced m (ps @ book_ptrs b) m2 (ps1 @ book_ptrs b)"
      by (rule reduced_append [OF erase_in_orders_reduces [OF e] reduced_refl])
    have "b1 = (if ps \<noteq> [] \<and> ps1 = [] then b else (l, ps1) # b)" "m1 = m2"
      using Cons.prems True e by (auto simp: lv split: if_splits)
    with r shrunk_drop shrunk_keep [of b b ps1 ps l] reduced_subseq [OF erase_in_orders_reduces [OF e]]
    show ?thesis by (cases "ps = []"; cases "ps1 = []") (simp_all add: lv)
  next
    case False
    then obtain b2 where "mt_eraseOrder p b m = (b2, m1)" "b1 = (l, ps) # b2"
      using Cons.prems by (auto simp: lv split: prod.splits)
    with Cons.IH shrunk_keep [of b2 b ps ps l] reduced_append [OF reduced_refl [of m ps]]
    show ?thesis by (simp add: lv)
  qed
qed simp

interpretation tr: book_reducer "\<lambda>b m. processTrade cmp price b sz m" for cmp price sz
  by unfold_locales (rule processTrade_shrinks)

interpretation cr: book_reducer "processCross cmp level" for cmp level
  by unfold_locales (auto simp: processCross_def split: if_splits dest: cross_levels_shrinks)

interpretation cm: book_reducer "checkMatches cmp p" for cmp p
  by unfold_locales (auto simp: checkMatches_def dest: match_levels_shrinks)

interpretation er: book_reducer "mt_eraseOrder p" for p
  by unfold_locales (rule eraseOrder_shrinks)

subsection \<open>Steps that add orders\<close>

lemma side_wf_Cons:
  "side_wf sd m ((l, ps) # b) X \<longleftrightarrow>
     (\<forall>k \<in> set b. ahead sd (ps_price l) (ps_price (fst k))) \<and> level_ok sd m (l, ps) \<and> distinct ps \<and>
     set ps \<inter> X = {} \<and> side_wf sd m b (X \<union> set ps)"
  by (auto simp: side_wf_def Un_ac)

lemma live_add_sim:
  assumes "live m P" "same_orders m m1" "mt_ordersMap m1 = mt_ordersMap m" "mt_ub m1 = mt_ub m"
    "mt_next m1 = Suc (mt_next m)" "\<not> is_client m1 (mt_next m)"
  shows "live m1 (insert (mt_next m) P)"
proof (rule liveI)
  have l: "live m1 P" by (rule live_same) (use assms in auto)
  show "\<not> mt_ub m1" "sm_ok (mt_ordersMap m1)" "insert (mt_next m) P \<subseteq> {..<mt_next m1}"
    using liveD [OF l] assms(5) by auto
  fix k p
  show "sm_find (mt_ordersMap m1) k = Some p \<longleftrightarrow>
      p \<in> insert (mt_next m) P \<and> is_client m1 p \<and> so_exOrderId (mt_heap m1 p) = k"
    using liveD(4) [OF l, of k p] assms(6) by blast
qed

lemma createSimOrder_spec:
  assumes "createSimOrder q m = (p, m1)"
  shows "p = mt_next m" "mt_next m1 = Suc (mt_next m)" "same_orders m m1" "mt_ordersMap m1 = mt_ordersMap m"
    "mt_ub m1 = mt_ub m" "\<not> is_client m1 p" "so_exOrderId (mt_heap m1 p) = []"
  using assms by (auto simp: createSimOrder_def createOrder_def mt_set_def same_orders_def is_client_def sim_default_def)

lemma side_wf_add_sim:
  assumes "createSimOrder q m = (p, m1)" "live m P"
  shows "live m1 (insert p P)" "order_at sd m1 price p" "p \<notin> P"
  using createSimOrder_spec [OF assms(1)] live_add_sim [OF assms(2)] liveD(3) [OF assms(2)]
  by (auto simp: order_at_def)

lemma side_wf_same:
  assumes "side_wf sd m b X" "same_orders m m1" "live m1 (set (book_ptrs b) \<union> X)"
  shows "side_wf sd m1 b X"
  using assms level_ok_same by (simp add: side_wf_def)

lemma side_wf_new_level:
  assumes "side_wf sd m b X" "createSimOrder q m = (p, m1)"
    "\<forall>k \<in> set b. ahead sd (ps_price level) (ps_price (fst k))"
  shows "side_wf sd m1 ((level, [p]) # b) X" "same_orders m m1"
proof -
  have l: "live m (set (book_ptrs b) \<union> X)" using assms(1) by (simp add: side_wf_def)
  note c = createSimOrder_spec [OF assms(2)] and s = side_wf_add_sim [OF assms(2) l]
  have "side_wf sd m1 b (insert p X)" using assms(1) level_ok_same [OF c(3)] s by (simp add: side_wf_def)
  with assms(3) s show "side_wf sd m1 ((level, [p]) # b) X" by (simp add: side_wf_Cons level_ok_def)
qed (rule createSimOrder_spec [OF assms(2)])

lemma updateLevelOrders_cases:
  assumes "updateLevelOrders level ps m = (lv, m1)"
  obtains (fills) "fst lv = level" "reduced m ps m1 (snd lv)"
  | (more) q p where "lv = (level, ps @ [p])" "createSimOrder q m = (p, m1)"
proof -
  have refill: "reduced m ps (mt_set p (\<lambda>x. x\<lparr>so_qty := size_add_eq (so_qty x) d\<rparr>) m) ps" for p d
    by (rule reduced_refill) (simp add: refilled_def same_orders_def mt_set_def)
  have two: "reduced m ps m2 (rev ps2)"
    if "cancel_pass ps q m = (ps1, m1)" "cancel_pass (rev ps1) r m1 = (ps2, m2)" for q r ps1 ps2 m1 m2
    using reduced_trans [OF cancel_pass_reduces [OF that(1)] reduced_rev [OF cancel_pass_reduces [OF that(2)], unfolded rev_rev_ident]] .
  show ?thesis
    using assms that two refill unfolding updateLevelOrders_def Let_def
    by (auto split: if_splits prod.splits)
qed

lemma updateLevelOrders_wf:
  assumes "side_wf sd m ((l, ps) # b) X" "ps_price level = ps_price l" "updateLevelOrders level ps m = (lv, m1)"
  shows "side_wf sd m1 (lv # b) X \<and> same_orders m m1"
  using assms(3)
proof (cases rule: updateLevelOrders_cases)
  case fills
  note r = fills(2)
  have same: "same_orders m m1" and sub: "subseq (snd lv) ps" using r by (auto simp: reduced_def)
  have w: "level_ok sd m (l, ps)" "distinct ps" "set ps \<inter> (X \<union> set (book_ptrs b)) = {}"
    "live m (set ps \<union> (X \<union> set (book_ptrs b)))" "side_wf sd m b (X \<union> set ps)"
    using assms(1) by (auto simp: side_wf_Cons) (auto simp: side_wf_def Un_ac)
  have "live m1 (set (snd lv) \<union> (X \<union> set (book_ptrs b)))" using r w by (simp add: reduced_def)
  then have "side_wf sd m1 b (X \<union> set (snd lv))"
    using w(5) level_ok_same [OF same] subseq_subset [OF sub] by (auto simp: side_wf_def Un_ac)
  moreover have "level_ok sd m1 lv"
    using level_ok_same [OF same w(1)] subseq_subset [OF sub] fills(1) assms(2) by (auto simp: level_ok_def)
  ultimately show ?thesis
    using assms(1,2) fills(1) same w(2) subseq_subset [OF sub] subseq_distinct [OF sub]
    by (cases lv) (auto simp: side_wf_Cons)
next
  case (more q p)
  have l: "live m (set ps \<union> (X \<union> set (book_ptrs b)))" using assms(1) by (simp add: side_wf_def Un_ac)
  note c = createSimOrder_spec [OF more(2)] and s = side_wf_add_sim [OF more(2) l]
  have "level_ok sd m1 (level, ps @ [p])"
    using level_ok_same [OF c(3), of sd "(l, ps)"] assms(1,2) s(2) by (auto simp: side_wf_Cons level_ok_def)
  moreover have "side_wf sd m1 b (X \<union> insert p (set ps))"
    using assms(1) s level_ok_same [OF c(3)] by (auto simp: side_wf_Cons) (auto simp: side_wf_def Un_ac)
  ultimately show ?thesis using assms(1,2) c(3) s(3) by (auto simp: more(1) side_wf_Cons)
qed

lemma level_insert_wf:
  "side_wf sd m b X \<Longrightarrow> level_insert (ahead sd) level b m = (b1, m1) \<Longrightarrow>
     side_wf sd m1 b1 X \<and> same_orders m m1 \<and>
     (\<forall>k \<in> set b1. ps_price (fst k) = ps_price level \<or> (\<exists>j \<in> set b. ps_price (fst k) = ps_price (fst j)))"
proof (induction b arbitrary: X b1)
  case Nil
  then show ?case using side_wf_new_level [of sd m "[]" X] by (auto split: prod.splits)
next
  case (Cons lv b)
  obtain l ps where lv: "lv = (l, ps)" by (cases lv)
  consider (before) "ahead sd (ps_price level) (ps_price l)"
    | (at) "\<not> ahead sd (ps_price level) (ps_price l)" "ps_price level = ps_price l"
    | (after) "\<not> ahead sd (ps_price level) (ps_price l)" "ps_price level \<noteq> ps_price l" by blast
  then show ?case
  proof cases
    case before
    then have "\<forall>k \<in> set (lv # b). ahead sd (ps_price level) (ps_price (fst k))"
      using Cons.prems(1) by (auto simp: lv side_wf_Cons ahead_def split: if_splits)
    with before Cons.prems side_wf_new_level [of sd m "lv # b" X] show ?thesis
      by (auto simp: lv split: prod.splits)
  next
    case at
    with Cons.prems updateLevelOrders_wf [of sd m l ps b X level] show ?thesis
      by (fastforce simp: lv split: prod.splits elim: updateLevelOrders_cases)
  next
    case after
    then obtain b2 where b2: "level_insert (ahead sd) level b m = (b2, m1)" "b1 = (l, ps) # b2"
      using Cons.prems(2) by (auto simp: lv split: prod.splits)
    have w: "side_wf sd m b (X \<union> set ps)" using Cons.prems(1) by (simp add: lv side_wf_Cons)
    have "ahead sd (ps_price l) (ps_price level)" using after by (auto simp: ahead_def split: if_splits)
    moreover have "\<forall>k \<in> set b. ahead sd (ps_price l) (ps_price (fst k))" using Cons.prems(1) by (simp add: lv side_wf_Cons)
    ultimately have "\<forall>k \<in> set b2. ahead sd (ps_price l) (ps_price (fst k))" using Cons.IH [OF w b2(1)] by metis
    with Cons.IH [OF w b2(1)] Cons.prems(1) level_ok_same show ?thesis
      by (auto simp: lv b2(2) side_wf_Cons)
  qed
qed

interpretation pl: book_step sd "processLevel (ahead sd) level" for sd level
  by unfold_locales (auto simp: processLevel_def split: if_splits dest: level_insert_wf)

lemma rest_insert_ptrs: "mset (book_ptrs (rest_insert cmp price p b)) = add_mset p (mset (book_ptrs b))"
  by (induction b) auto

lemma rest_insert_levels:
  "lv \<in> set (rest_insert cmp price p b) \<Longrightarrow>
     (fst lv = ps_clear\<lparr>ps_price := price\<rparr> \<and> snd lv = [p]) \<or> lv \<in> set b \<or>
     (\<exists>ps. (fst lv, ps) \<in> set b \<and> ps_price (fst lv) = price \<and> snd lv = ps @ [p])"
  by (induction b) (auto split: if_splits)

lemma rest_insert_by_price: "by_price sd b \<Longrightarrow> by_price sd (rest_insert (ahead sd) price p b)"
proof (induction b)
  case (Cons lv b)
  obtain l ps where lv: "lv = (l, ps)" by (cases lv)
  have "\<forall>k \<in> set (rest_insert (ahead sd) price p b). ahead sd (ps_price l) (ps_price (fst k))"
    if "\<not> ahead sd price (ps_price l)" "price \<noteq> ps_price l"
    using that Cons.prems rest_insert_levels [of _ "ahead sd" price p b]
    by (fastforce simp: lv ahead_def split: if_splits)
  with Cons show ?case by (auto simp: lv ahead_def split: if_splits)
qed simp

subsection \<open>The invariant of the matcher\<close>

definition mt_ptrs :: "matcher \<Rightarrow> optr set" where
  "mt_ptrs m = set (book_ptrs (mt_bids m)) \<union> set (book_ptrs (mt_asks m))"

definition mt_wf :: "matcher \<Rightarrow> bool" where
  "mt_wf m \<longleftrightarrow> by_price kBuy (mt_bids m) \<and> by_price kSell (mt_asks m) \<and>
     (\<forall>lv \<in> set (mt_bids m). level_ok kBuy m lv) \<and> (\<forall>lv \<in> set (mt_asks m). level_ok kSell m lv) \<and>
     distinct (book_ptrs (mt_bids m) @ book_ptrs (mt_asks m)) \<and> live m (mt_ptrs m)"

lemma mt_wf_sides:
  "mt_wf m \<longleftrightarrow> side_wf kBuy m (mt_bids m) (set (book_ptrs (mt_asks m))) \<and>
     side_wf kSell m (mt_asks m) (set (book_ptrs (mt_bids m)))"
  by (auto simp: mt_wf_def side_wf_def mt_ptrs_def Un_commute)

lemma side_wf_other:
  assumes "side_wf sd m1 b1 (set (book_ptrs c))" "side_wf sd' m c X" "same_orders m m1"
  shows "side_wf sd' m1 c (set (book_ptrs b1))"
proof -
  have "\<forall>lv \<in> set c. level_ok sd' m1 lv" using assms(2) level_ok_same [OF assms(3)] unfolding side_wf_def by blast
  with assms(1,2) show ?thesis by (simp add: side_wf_def Int_commute Un_commute)
qed

lemma level_ok_heap: "mt_heap m1 = mt_heap m \<Longrightarrow> mt_next m1 = mt_next m \<Longrightarrow> level_ok sd m1 = level_ok sd m"
  by (simp add: fun_eq_iff level_ok_def order_at_def is_client_def)

lemma live_heap:
  "mt_heap m1 = mt_heap m \<Longrightarrow> mt_next m1 = mt_next m \<Longrightarrow> mt_ordersMap m1 = mt_ordersMap m \<Longrightarrow> mt_ub m1 = mt_ub m \<Longrightarrow>
     live m1 P = live m P"
  by (simp add: live_def is_client_def)

lemma side_wf_heap:
  "mt_heap m1 = mt_heap m \<Longrightarrow> mt_next m1 = mt_next m \<Longrightarrow> mt_ordersMap m1 = mt_ordersMap m \<Longrightarrow> mt_ub m1 = mt_ub m \<Longrightarrow>
     side_wf sd m1 b X = side_wf sd m b X"
  unfolding side_wf_def using level_ok_heap [of m1 m sd] live_heap [of m1 m] by simp

text \<open>A step that keeps its book keeps the matcher, and leaves the orders outside the books as they are.\<close>

context book_step
begin

lemma on_bids_wf:
  assumes "sd = kBuy" "mt_wf m"
  shows "mt_wf (on_bids f m)" "mt_next m \<le> mt_next (on_bids f m)"
    "p < mt_next m \<Longrightarrow> skel (mt_heap (on_bids f m) p) = skel (mt_heap m p)"
    "mt_asks (on_bids f m) = mt_asks m" "mt_ptrs (on_bids f m) = set (book_ptrs (fst (f (mt_bids m) m))) \<union> set (book_ptrs (mt_asks m))"
proof -
  obtain b1 m1 where f: "f (mt_bids m) m = (b1, m1)" by (cases "f (mt_bids m) m")
  have k: "side_wf kBuy m1 b1 (set (book_ptrs (mt_asks m)))" and same: "same_orders m m1"
    using keeps [OF _ f] assms by (auto simp: mt_wf_sides)
  have "side_wf kSell m1 (mt_asks m) (set (book_ptrs b1))"
    using side_wf_other [OF k _ same] assms(2) unfolding mt_wf_sides by blast
  with k same show "mt_wf (on_bids f m)"
    by (simp add: mt_wf_sides on_bids_def f side_wf_heap [of "m1\<lparr>mt_bids := b1\<rparr>" m1] same_orders_def)
  show "mt_next m \<le> mt_next (on_bids f m)" "p < mt_next m \<Longrightarrow> skel (mt_heap (on_bids f m) p) = skel (mt_heap m p)"
    "mt_asks (on_bids f m) = mt_asks m" "mt_ptrs (on_bids f m) = set (book_ptrs (fst (f (mt_bids m) m))) \<union> set (book_ptrs (mt_asks m))"
    using same by (auto simp: on_bids_def f same_orders_def mt_ptrs_def)
qed

lemma on_asks_wf:
  assumes "sd = kSell" "mt_wf m"
  shows "mt_wf (on_asks f m)" "mt_next m \<le> mt_next (on_asks f m)"
    "p < mt_next m \<Longrightarrow> skel (mt_heap (on_asks f m) p) = skel (mt_heap m p)"
    "mt_bids (on_asks f m) = mt_bids m" "mt_ptrs (on_asks f m) = set (book_ptrs (mt_bids m)) \<union> set (book_ptrs (fst (f (mt_asks m) m)))"
proof -
  obtain b1 m1 where f: "f (mt_asks m) m = (b1, m1)" by (cases "f (mt_asks m) m")
  have k: "side_wf kSell m1 b1 (set (book_ptrs (mt_bids m)))" and same: "same_orders m m1"
    using keeps [OF _ f] assms by (auto simp: mt_wf_sides)
  have "side_wf kBuy m1 (mt_bids m) (set (book_ptrs b1))"
    using side_wf_other [OF k _ same] assms(2) unfolding mt_wf_sides by blast
  with k same show "mt_wf (on_asks f m)"
    by (simp add: mt_wf_sides on_asks_def f side_wf_heap [of "m1\<lparr>mt_asks := b1\<rparr>" m1] same_orders_def)
  show "mt_next m \<le> mt_next (on_asks f m)" "p < mt_next m \<Longrightarrow> skel (mt_heap (on_asks f m) p) = skel (mt_heap m p)"
    "mt_bids (on_asks f m) = mt_bids m" "mt_ptrs (on_asks f m) = set (book_ptrs (mt_bids m)) \<union> set (book_ptrs (fst (f (mt_asks m) m)))"
    using same by (auto simp: on_asks_def f same_orders_def mt_ptrs_def)
qed

end

subsection \<open>Requests and quotes keep the invariant\<close>

text \<open>An order that may be entered: a client order outside the books, with an id no open order has.\<close>

definition ready :: "matcher \<Rightarrow> optr \<Rightarrow> bool" where
  "ready m p \<longleftrightarrow> p \<notin> mt_ptrs m \<and> p < mt_next m \<and> is_client m p \<and> so_side (mt_heap m p) \<in> {kBuy, kSell} \<and>
     so_exOrderId (mt_heap m p) \<noteq> [] \<and> sm_find (mt_ordersMap m) (so_exOrderId (mt_heap m p)) = None"

lemma ahead_simps [simp]: "ahead kBuy = t_g" "ahead kSell = t_l"
  by (simp_all add: ahead_def)

lemma mt_wf_live: "mt_wf m \<Longrightarrow> live m (mt_ptrs m)"
  by (simp add: mt_wf_def)

lemma mt_wf_log [simp]: "mt_wf (mt_log e m) = mt_wf m"
proof -
  have "level_ok sd (mt_log e m) = level_ok sd m" for sd by (rule level_ok_heap) (simp_all add: mt_log_def)
  moreover have "live (mt_log e m) P = live m P" for P by (rule live_heap) (simp_all add: mt_log_def)
  ultimately show ?thesis by (simp add: mt_wf_def mt_ptrs_def) (simp add: mt_log_def)
qed

lemma mt_log_fields [simp]:
  "mt_heap (mt_log e m) = mt_heap m" "mt_next (mt_log e m) = mt_next m" "mt_ordersMap (mt_log e m) = mt_ordersMap m"
  "mt_bids (mt_log e m) = mt_bids m" "mt_asks (mt_log e m) = mt_asks m" "mt_ub (mt_log e m) = mt_ub m"
  "mt_percentCancelFront (mt_log e m) = mt_percentCancelFront m" "mt_ptrs (mt_log e m) = mt_ptrs m"
  by (simp_all add: mt_log_def mt_ptrs_def)

lemma mt_set_fields [simp]:
  "mt_next (mt_set p g m) = mt_next m" "mt_ordersMap (mt_set p g m) = mt_ordersMap m" "mt_ub (mt_set p g m) = mt_ub m"
  "mt_bids (mt_set p g m) = mt_bids m" "mt_asks (mt_set p g m) = mt_asks m" "mt_ptrs (mt_set p g m) = mt_ptrs m"
  "mt_heap (mt_set p g m) q = (if q = p then g (mt_heap m p) else mt_heap m q)"
  "mt_events (mt_set p g m) = mt_events m"
  by (simp_all add: mt_set_def mt_ptrs_def)

lemma mt_wf_set:
  assumes "p \<notin> mt_ptrs m" "mt_wf m"
  shows "mt_wf (mt_set p g m)"
proof -
  have c: "is_client (mt_set p g m) q = is_client m q" if "q \<noteq> p" for q using that by (simp add: is_client_def)
  then have "order_at sd m price q \<Longrightarrow> q \<noteq> p \<Longrightarrow> order_at sd (mt_set p g m) price q" for sd price q
    by (simp add: order_at_def)
  moreover have "q \<noteq> p" if "lv \<in> set (mt_bids m) \<union> set (mt_asks m)" "q \<in> set (snd lv)" for lv q
    using that assms(1) by (auto simp: mt_ptrs_def book_ptrs_def)
  ultimately have "\<forall>lv \<in> set (mt_bids m). level_ok kBuy (mt_set p g m) lv" "\<forall>lv \<in> set (mt_asks m). level_ok kSell (mt_set p g m) lv"
    using assms(2) unfolding mt_wf_def level_ok_def by blast+
  moreover have "live (mt_set p g m) (mt_ptrs m)"
  proof (rule liveI)
    fix k q
    show "sm_find (mt_ordersMap (mt_set p g m)) k = Some q \<longleftrightarrow>
        q \<in> mt_ptrs m \<and> is_client (mt_set p g m) q \<and> so_exOrderId (mt_heap (mt_set p g m) q) = k"
      using liveD(4) [OF mt_wf_live [OF assms(2)], of k q] assms(1) c [of q] by (cases "q = p") auto
  qed (use liveD [OF mt_wf_live [OF assms(2)]] in auto)
  ultimately show ?thesis using assms(2) by (simp add: mt_wf_def)
qed

lemma ready_after:
  assumes "ready m p" "mt_wf m" "mt_wf m1" "mt_ptrs m1 \<subseteq> mt_ptrs m" "mt_next m \<le> mt_next m1"
    "\<And>q. q < mt_next m \<Longrightarrow> skel (mt_heap m1 q) = skel (mt_heap m q)"
  shows "ready m1 p"
proof -
  have f: "so_exOrderId (mt_heap m1 q) = so_exOrderId (mt_heap m q)" "is_client m1 q = is_client m q"
    "so_side (mt_heap m1 q) = so_side (mt_heap m q)" if "q < mt_next m" for q
    using skel_fields [OF assms(6) [OF that]] by (simp_all add: is_client_def)
  have p: "p < mt_next m" using assms(1) by (simp add: ready_def)
  have "sm_find (mt_ordersMap m1) (so_exOrderId (mt_heap m1 p)) = None"
  proof (rule ccontr)
    assume "sm_find (mt_ordersMap m1) (so_exOrderId (mt_heap m1 p)) \<noteq> None"
    then obtain q where q: "q \<in> mt_ptrs m1" "is_client m1 q" "so_exOrderId (mt_heap m1 q) = so_exOrderId (mt_heap m1 p)"
      using liveD(4) [OF mt_wf_live [OF assms(3)]] by fastforce
    have "q < mt_next m" using q(1) assms(4) liveD(3) [OF mt_wf_live [OF assms(2)]] by auto
    with q f p assms(4) have "sm_find (mt_ordersMap m) (so_exOrderId (mt_heap m p)) = Some q"
      using liveD(4) [OF mt_wf_live [OF assms(2)]] by auto
    with assms(1) show False by (simp add: ready_def)
  qed
  with assms(1,4,5) f p show ?thesis by (auto simp: ready_def)
qed

lemma live_register:
  assumes "live m P" "p < mt_next m" "is_client m p" "sm_find (mt_ordersMap m) (so_exOrderId (mt_heap m p)) = None"
  shows "live (m\<lparr>mt_ordersMap := sm_insert (mt_ordersMap m) (so_exOrderId (mt_heap m p)) p\<rparr>) (insert p P)"
proof (rule liveI)
  fix k q
  show "sm_find (mt_ordersMap (m\<lparr>mt_ordersMap := sm_insert (mt_ordersMap m) (so_exOrderId (mt_heap m p)) p\<rparr>)) k = Some q \<longleftrightarrow>
      q \<in> insert p P \<and> is_client (m\<lparr>mt_ordersMap := sm_insert (mt_ordersMap m) (so_exOrderId (mt_heap m p)) p\<rparr>) q \<and>
      so_exOrderId (mt_heap (m\<lparr>mt_ordersMap := sm_insert (mt_ordersMap m) (so_exOrderId (mt_heap m p)) p\<rparr>) q) = k"
    using liveD(4) [OF assms(1), of k q] liveD(4) [OF assms(1), of "so_exOrderId (mt_heap m p)" q] assms(3,4)
    by (auto simp: sm_find_insert [OF liveD(2) [OF assms(1)]] is_client_def)
qed (use assms liveD [OF assms(1)] in \<open>auto simp: sm_ok_insert\<close>)

lemma rest_insert_wf:
  assumes "by_price sd b" "\<forall>lv \<in> set b. level_ok sd m lv" "distinct (book_ptrs b)" "p \<notin> set (book_ptrs b)"
    "p < mt_next m" "is_client m p" "so_side (mt_heap m p) = sd" "so_exOrderId (mt_heap m p) \<noteq> []"
    "b1 = rest_insert (ahead sd) (so_price (mt_heap m p)) p b"
  shows "by_price sd b1" "\<forall>lv \<in> set b1. level_ok sd m lv" "distinct (book_ptrs b1)"
    "set (book_ptrs b1) = insert p (set (book_ptrs b))"
proof -
  show "by_price sd b1" using rest_insert_by_price assms(1,9) by simp
  have at: "order_at sd m (so_price (mt_heap m p)) p" using assms(5-8) by (simp add: order_at_def)
  show "\<forall>lv \<in> set b1. level_ok sd m lv"
  proof
    fix lv assume "lv \<in> set b1"
    from rest_insert_levels [OF this [unfolded assms(9)]] at assms(2) show "level_ok sd m lv"
      by (elim disjE exE) (auto simp: level_ok_def)
  qed
  have m: "mset (book_ptrs b1) = add_mset p (mset (book_ptrs b))" using rest_insert_ptrs assms(9) by simp
  show "set (book_ptrs b1) = insert p (set (book_ptrs b))" using arg_cong [OF m, of set_mset] by simp
  have "mset (book_ptrs b1) = mset (p # book_ptrs b)" using m by simp
  then have "distinct (book_ptrs b1) = distinct (p # book_ptrs b)" by (rule mset_eq_imp_distinct_iff)
  with assms(3,4) show "distinct (book_ptrs b1)" by simp
qed

lemma rest_bids_wf:
  assumes "mt_wf m" "ready m p" "so_side (mt_heap m p) = kBuy"
  shows "mt_wf (mt_register p (on_bids (\<lambda>b m. (processNew t_g p b m, m)) m))"
proof (cases "so_cumQty (mt_heap m p) < so_qty (mt_heap m p)")
  case True
  let ?b = "rest_insert t_g (so_price (mt_heap m p)) p (mt_bids m)"
  let ?m = "m\<lparr>mt_bids := ?b, mt_ordersMap := sm_insert (mt_ordersMap m) (so_exOrderId (mt_heap m p)) p\<rparr>"
  have i: "by_price kBuy ?b" "\<forall>lv \<in> set ?b. level_ok kBuy m lv" "distinct (book_ptrs ?b)"
    "set (book_ptrs ?b) = insert p (set (book_ptrs (mt_bids m)))"
    by (rule rest_insert_wf [of kBuy "mt_bids m" m p]; use assms in \<open>simp add: mt_wf_def ready_def mt_ptrs_def\<close>)+
  have "live m (mt_ptrs m)" using assms(1) by (simp add: mt_wf_def)
  from live_register [OF this, of p] assms(2) have "live ?m (insert p (mt_ptrs m))"
    by (simp add: ready_def live_def is_client_def)
  moreover have "level_ok sd ?m = level_ok sd m" for sd by (rule level_ok_heap) simp_all
  ultimately have "mt_wf ?m" using assms i by (auto simp: mt_wf_def mt_ptrs_def ready_def)
  with True show ?thesis by (simp add: mt_register_def on_bids_def processNew_def)
next
  case False
  with assms(1) show ?thesis by (simp add: mt_register_def on_bids_def processNew_def)
qed

lemma rest_asks_wf:
  assumes "mt_wf m" "ready m p" "so_side (mt_heap m p) = kSell"
  shows "mt_wf (mt_register p (on_asks (\<lambda>b m. (processNew t_l p b m, m)) m))"
proof (cases "so_cumQty (mt_heap m p) < so_qty (mt_heap m p)")
  case True
  let ?b = "rest_insert t_l (so_price (mt_heap m p)) p (mt_asks m)"
  let ?m = "m\<lparr>mt_asks := ?b, mt_ordersMap := sm_insert (mt_ordersMap m) (so_exOrderId (mt_heap m p)) p\<rparr>"
  have i: "by_price kSell ?b" "\<forall>lv \<in> set ?b. level_ok kSell m lv" "distinct (book_ptrs ?b)"
    "set (book_ptrs ?b) = insert p (set (book_ptrs (mt_asks m)))"
    by (rule rest_insert_wf [of kSell "mt_asks m" m p]; use assms in \<open>simp add: mt_wf_def ready_def mt_ptrs_def\<close>)+
  have "live m (mt_ptrs m)" using assms(1) by (simp add: mt_wf_def)
  from live_register [OF this, of p] assms(2) have "live ?m (insert p (mt_ptrs m))"
    by (simp add: ready_def live_def is_client_def)
  moreover have "level_ok sd ?m = level_ok sd m" for sd by (rule level_ok_heap) simp_all
  ultimately have "mt_wf ?m" using assms i by (auto simp: mt_wf_def mt_ptrs_def ready_def)
  with True show ?thesis by (simp add: mt_register_def on_asks_def processNew_def)
next
  case False
  with assms(1) show ?thesis by (simp add: mt_register_def on_asks_def processNew_def)
qed

text \<open>Taking out an order by its id: afterwards a client order of the book is ready to be entered again.\<close>

lemma erase_by_side_wf: "mt_wf m \<Longrightarrow> mt_wf (erase_by_side p m)"
  using er.on_bids_wf(1) [OF refl] er.on_asks_wf(1) [OF refl]
  by (simp add: erase_by_side_def split: eOrderSide.splits)

lemma internal_cxl_wf: "mt_wf m \<Longrightarrow> p \<notin> mt_ptrs m \<Longrightarrow> mt_wf (internal_cxl p m)"
  by (simp add: internal_cxl_def mt_sendCxl_def Let_def erase_by_side_wf mt_wf_set)

context book_reducer
begin

lemma ptrs_subset: "set (book_ptrs (fst (f b m))) \<subseteq> set (book_ptrs b)"
  using shrinks [of b m] by (cases "f b m") (auto simp: reduced_def dest: subseq_subset)

lemma on_books_ptrs: "mt_wf m \<Longrightarrow> mt_ptrs (on_bids f m) \<subseteq> mt_ptrs m" "mt_wf m \<Longrightarrow> mt_ptrs (on_asks f m) \<subseteq> mt_ptrs m"
  using ptrs_subset [of "mt_bids m" m] ptrs_subset [of "mt_asks m" m]
  by (auto simp: on_bids_wf(5) [OF refl] on_asks_wf(5) [OF refl]) (auto simp: mt_ptrs_def)

lemma on_bids_ready: "mt_wf m \<Longrightarrow> ready m p \<Longrightarrow> ready (on_bids f m) p"
  using ready_after [of m p "on_bids f m"] on_bids_wf(1-3) [OF refl, of m] on_books_ptrs(1) [of m] by blast

lemma on_asks_ready: "mt_wf m \<Longrightarrow> ready m p \<Longrightarrow> ready (on_asks f m) p"
  using ready_after [of m p "on_asks f m"] on_asks_wf(1-3) [OF refl, of m] on_books_ptrs(2) [of m] by blast

end

lemma ready_fields: "ready m p \<Longrightarrow> p < mt_next m" "ready m p \<Longrightarrow> p \<notin> mt_ptrs m"
  by (simp_all add: ready_def)

lemma processNewOrderAtLevel_wf:
  assumes "mt_wf m" "ready m p"
  shows "mt_wf (processNewOrderAtLevel p m)"
proof -
  note p = ready_fields(1) [OF assms(2)]
  have a: "mt_wf (on_asks (checkMatches c p) m)" "ready (on_asks (checkMatches c p) m) p"
    "so_side (mt_heap (on_asks (checkMatches c p) m) p) = so_side (mt_heap m p)" for c
    using cm.on_asks_wf(1) [OF refl assms(1)] cm.on_asks_ready [OF assms]
    by (auto intro: skel_fields(2) [OF cm.on_asks_wf(3) [OF refl assms(1) p]])
  have b: "mt_wf (on_bids (checkMatches c p) m)" "ready (on_bids (checkMatches c p) m) p"
    "so_side (mt_heap (on_bids (checkMatches c p) m) p) = so_side (mt_heap m p)" for c
    using cm.on_bids_wf(1) [OF refl assms(1)] cm.on_bids_ready [OF assms]
    by (auto intro: skel_fields(2) [OF cm.on_bids_wf(3) [OF refl assms(1) p]])
  consider "so_side (mt_heap m p) = kBuy" | "so_side (mt_heap m p) = kSell" using assms(2) by (auto simp: ready_def)
  then show ?thesis
  proof cases
    case 1
    with internal_cxl_wf [OF a(1) ready_fields(2) [OF a(2)]] rest_bids_wf [OF a(1,2)] a(3)
    show ?thesis by (simp add: processNewOrderAtLevel_def Let_def)
  next
    case 2
    with internal_cxl_wf [OF b(1) ready_fields(2) [OF b(2)]] rest_asks_wf [OF b(1,2)] b(3)
    show ?thesis by (simp add: processNewOrderAtLevel_def Let_def)
  qed
qed

text \<open>A new request: an order not in the books, of a known side, whose id no open order has.\<close>

definition new_request :: "optr \<Rightarrow> matcher \<Rightarrow> bool" where
  "new_request p m \<longleftrightarrow> p \<notin> mt_ptrs m \<and> p < mt_next m \<and> is_client m p \<and> so_side (mt_heap m p) \<in> {kBuy, kSell} \<and>
     so_clOrderId (mt_heap m p) \<noteq> [] \<and> sm_find (mt_ordersMap m) (so_clOrderId (mt_heap m p)) = None"

lemma mt_sendNew_wf: "mt_wf m \<Longrightarrow> new_request p m \<Longrightarrow> mt_wf (mt_sendNew p m)"
  unfolding mt_sendNew_def mt_wf_log
  by (rule processNewOrderAtLevel_wf) (auto simp: mt_wf_set new_request_def ready_def is_client_def)

lemma mt_sendCxl_wf: "mt_wf m \<Longrightarrow> mt_wf (mt_sendCxl p m)"
  by (simp add: mt_sendCxl_def Let_def erase_by_side_wf)

lemma erase_in_orders_id:
  assumes "p \<in> set ps" "distinct ps" "\<And>q. q \<in> set ps \<Longrightarrow> so_exOrderId (mt_heap m p) = so_exOrderId (mt_heap m q) \<Longrightarrow> q = p"
  shows "fst (erase_in_orders p ps m) = remove1 p ps"
  using assms by (induction ps) (auto split: prod.splits)

lemma eraseOrder_removes:
  assumes "by_price sd b" "\<forall>lv \<in> set b. level_ok sd m lv" "distinct (book_ptrs b)" "p \<in> set (book_ptrs b)" "is_client m p"
    "\<And>q. q \<in> set (book_ptrs b) \<Longrightarrow> so_exOrderId (mt_heap m p) = so_exOrderId (mt_heap m q) \<Longrightarrow> q = p"
  shows "p \<notin> set (book_ptrs (fst (mt_eraseOrder p b m)))"
  using assms
proof (induction b)
  case (Cons lv b)
  obtain l ps where lv: "lv = (l, ps)" by (cases lv)
  show ?case
  proof (cases "p \<in> set ps")
    case True
    then have "ps_price l = so_price (mt_heap m p)" using Cons.prems by (auto simp: lv level_ok_def order_at_def)
    moreover have "fst (erase_in_orders p ps m) = remove1 p ps"
      by (rule erase_in_orders_id) (use Cons.prems True in \<open>auto simp: lv\<close>)
    moreover have "p \<notin> set (remove1 p ps)" "p \<notin> set (book_ptrs b)" using Cons.prems(3) True by (auto simp: lv)
    ultimately show ?thesis by (auto simp: lv split: prod.splits)
  next
    case False
    then have p: "p \<in> set (book_ptrs b)" using Cons.prems(4) by (simp add: lv)
    then obtain k where "k \<in> set b" "p \<in> set (snd k)" by (auto simp: book_ptrs_def)
    then have "so_price (mt_heap m p) = ps_price (fst k)" "ahead sd (ps_price l) (ps_price (fst k))"
      using Cons.prems(1,2,5) by (auto simp: lv level_ok_def order_at_def)
    then have ne: "ps_price l \<noteq> so_price (mt_heap m p)" by (auto simp: ahead_def split: if_splits)
    have "p \<notin> set (book_ptrs (fst (mt_eraseOrder p b m)))" by (rule Cons.IH) (use Cons.prems p in \<open>auto simp: lv\<close>)
    with ne False show ?thesis by (auto simp: lv split: prod.splits)
  qed
qed simp

lemma book_order_at: "\<forall>lv \<in> set b. level_ok sd m lv \<Longrightarrow> q \<in> set (book_ptrs b) \<Longrightarrow> \<exists>pr. order_at sd m pr q"
  by (fastforce simp: book_ptrs_def level_ok_def)

lemma mt_wf_book:
  assumes "mt_wf m" "p \<in> mt_ptrs m" "is_client m p"
  shows "so_side (mt_heap m p) \<in> {kBuy, kSell}" "so_exOrderId (mt_heap m p) \<noteq> []" "p < mt_next m"
    "so_side (mt_heap m p) = kBuy \<Longrightarrow> p \<in> set (book_ptrs (mt_bids m))"
    "so_side (mt_heap m p) = kSell \<Longrightarrow> p \<in> set (book_ptrs (mt_asks m))"
    "q \<in> mt_ptrs m \<Longrightarrow> so_exOrderId (mt_heap m p) = so_exOrderId (mt_heap m q) \<Longrightarrow> q = p"
proof -
  have bid: "\<exists>pr. order_at kBuy m pr q" if "q \<in> set (book_ptrs (mt_bids m))" for q
    using that assms(1) book_order_at unfolding mt_wf_def by blast
  have ask: "\<exists>pr. order_at kSell m pr q" if "q \<in> set (book_ptrs (mt_asks m))" for q
    using that assms(1) book_order_at unfolding mt_wf_def by blast
  have at: "\<exists>sd pr. order_at sd m pr q" if "q \<in> mt_ptrs m" for q using that bid ask unfolding mt_ptrs_def by blast
  show "so_side (mt_heap m p) \<in> {kBuy, kSell}"
    "so_side (mt_heap m p) = kBuy \<Longrightarrow> p \<in> set (book_ptrs (mt_bids m))"
    "so_side (mt_heap m p) = kSell \<Longrightarrow> p \<in> set (book_ptrs (mt_asks m))"
    using assms(2,3) bid [of p] ask [of p] by (auto simp: mt_ptrs_def order_at_def)
  show id: "so_exOrderId (mt_heap m p) \<noteq> []" and "p < mt_next m"
    using at [OF assms(2)] assms(3) by (auto simp: order_at_def)
  show "q = p" if "q \<in> mt_ptrs m" "so_exOrderId (mt_heap m p) = so_exOrderId (mt_heap m q)"
    using live_unique [OF mt_wf_live [OF assms(1)] assms(2) that(1) assms(3)] at [OF that(1)] that(2) id
    by (auto simp: order_at_def split: if_splits)
qed

lemma erase_by_side_ready:
  assumes "mt_wf m" "p \<in> mt_ptrs m" "is_client m p"
  shows "ready (erase_by_side p m) p"
proof -
  note w = mt_wf_book [OF assms]
  let ?m = "erase_by_side p m"
  have k: "mt_wf ?m" by (rule erase_by_side_wf [OF assms(1)])
  have e: "so_side (mt_heap m p) = kBuy \<and> ?m = on_bids (mt_eraseOrder p) m \<or>
      so_side (mt_heap m p) = kSell \<and> ?m = on_asks (mt_eraseOrder p) m"
    using w(1) by (auto simp: erase_by_side_def)
  have sub: "mt_ptrs ?m \<subseteq> mt_ptrs m" and nx: "mt_next m \<le> mt_next ?m"
    and sk: "\<And>q. q < mt_next m \<Longrightarrow> skel (mt_heap ?m q) = skel (mt_heap m q)"
    using e er.on_bids_wf(2,3) [OF refl assms(1)] er.on_asks_wf(2,3) [OF refl assms(1)] er.on_books_ptrs [OF assms(1)]
    by (elim disjE conjE; simp)+
  have d: "distinct (book_ptrs (mt_bids m) @ book_ptrs (mt_asks m))" using assms(1) by (simp add: mt_wf_def)
  have out: "p \<notin> mt_ptrs ?m"
    using e
  proof
    assume b: "so_side (mt_heap m p) = kBuy \<and> ?m = on_bids (mt_eraseOrder p) m"
    have "p \<notin> set (book_ptrs (fst (mt_eraseOrder p (mt_bids m) m)))"
      by (rule eraseOrder_removes [of kBuy]) (use assms(1,3) w b in \<open>auto simp: mt_wf_def mt_ptrs_def\<close>)
    with b w(4) d er.on_bids_wf(5) [OF refl assms(1)] show ?thesis by auto
  next
    assume b: "so_side (mt_heap m p) = kSell \<and> ?m = on_asks (mt_eraseOrder p) m"
    have "p \<notin> set (book_ptrs (fst (mt_eraseOrder p (mt_asks m) m)))"
      by (rule eraseOrder_removes [of kSell]) (use assms(1,3) w b in \<open>auto simp: mt_wf_def mt_ptrs_def\<close>)
    with b w(5) d er.on_asks_wf(5) [OF refl assms(1)] show ?thesis by auto
  qed
  have f: "so_exOrderId (mt_heap ?m q) = so_exOrderId (mt_heap m q)" "is_client ?m q = is_client m q"
    "so_side (mt_heap ?m q) = so_side (mt_heap m q)" if "q < mt_next m" for q
    using skel_fields [OF sk [OF that]] by (simp_all add: is_client_def)
  have "sm_find (mt_ordersMap ?m) (so_exOrderId (mt_heap ?m p)) = None"
  proof (rule ccontr)
    assume "sm_find (mt_ordersMap ?m) (so_exOrderId (mt_heap ?m p)) \<noteq> None"
    then obtain q where q: "q \<in> mt_ptrs ?m" "so_exOrderId (mt_heap ?m q) = so_exOrderId (mt_heap ?m p)"
      using liveD(4) [OF mt_wf_live [OF k]] by fastforce
    then have "q < mt_next m" using sub liveD(3) [OF mt_wf_live [OF assms(1)]] by auto
    with q f [of q] f [OF w(3)] w(6) [of q] sub out show False by auto
  qed
  with out w(1-3) f [OF w(3)] nx assms(3) show ?thesis by (simp add: ready_def)
qed

lemma mt_sendMod_wf: "mt_wf m \<Longrightarrow> p \<in> mt_ptrs m \<Longrightarrow> is_client m p \<Longrightarrow> mt_wf (mt_sendMod p m)"
  unfolding mt_sendMod_def mt_wf_log
  by (rule processNewOrderAtLevel_wf)
    (use erase_by_side_ready [of m p] erase_by_side_wf [of m p] in \<open>auto simp: mt_wf_set ready_def is_client_def\<close>)

lemma quote_level_wf: "mt_wf m \<Longrightarrow> mt_wf (quote_level future q i m)"
  using pl.on_bids_wf(1) [OF refl] pl.on_asks_wf(1) [OF refl] by (simp add: quote_level_def Let_def)

lemma mt_onQuote_wf: "mt_wf m \<Longrightarrow> mt_onQuote q m = Some m1 \<Longrightarrow> mt_wf m1"
proof -
  assume m: "mt_wf m" and q: "mt_onQuote q m = Some m1"
  have "mt_wf (quote_crosses q (quote_trades q m))"
    using m tr.on_bids_wf(1) [OF refl] tr.on_asks_wf(1) [OF refl] cr.on_bids_wf(1) [OF refl] cr.on_asks_wf(1) [OF refl]
    by (simp add: quote_trades_def quote_crosses_def Let_def)
  moreover have "mt_wf x \<Longrightarrow> mt_wf (fold (quote_level f q) is x)" for f "is" x
    by (induction "is" arbitrary: x) (simp_all add: quote_level_wf)
  ultimately show ?thesis using m q by (auto simp: mt_onQuote_def split: if_splits option.splits)
qed

end
