(* ===== verification/MatcherRefine.thy ===== *)
theory MatcherRefine
  imports MatcherFacts
begin

section \<open>The matcher implements price-time priority\<close>

text \<open>
  The abstract exchange: one queue of resting orders per side, best price first and oldest first
  within a price. An incoming order takes from the front of the other queue while the price is
  acceptable; what is left joins its own queue behind everything that is not worse.
\<close>

type_synonym resting = "optr \<times> ticks \<times> int"

fun consume :: "(ticks \<Rightarrow> bool) \<Rightarrow> int \<Rightarrow> resting list \<Rightarrow> resting list \<times> resting list" where
  "consume ok n [] = ([], [])"
| "consume ok n ((p, price, q) # rs) =
     (if n > 0 \<and> ok price
      then if q \<le> n then (let (fs, rest) = consume ok (n - q) rs in ((p, price, q) # fs, rest))
           else ([(p, price, n)], (p, price, q - n) # rs)
      else ([], (p, price, q) # rs))"

definition filled :: "resting list \<Rightarrow> int" where
  "filled fs = sum_list (map (\<lambda>(p, price, q). q) fs)"

definition enqueue :: "eOrderSide \<Rightarrow> resting \<Rightarrow> resting list \<Rightarrow> resting list" where
  "enqueue sd x xs =
     takeWhile (\<lambda>y. \<not> ahead sd (fst (snd x)) (fst (snd y))) xs @ [x] @
     dropWhile (\<lambda>y. \<not> ahead sd (fst (snd x)) (fst (snd y))) xs"

definition spec_new ::
    "eOrderSide \<Rightarrow> bool \<Rightarrow> optr \<Rightarrow> ticks \<Rightarrow> int \<Rightarrow> resting list \<times> resting list \<Rightarrow>
       resting list \<times> resting list \<times> resting list" where
  "spec_new sd ioc p price n books =
     (if sd = kBuy
      then (let (fs, rest) = consume (\<lambda>x. x \<le> price) n (snd books); left = n - filled fs
            in (fs, if ioc \<or> left \<le> 0 then fst books else enqueue kBuy (p, price, left) (fst books), rest))
      else (let (fs, rest) = consume (\<lambda>x. price \<le> x) n (fst books); left = n - filled fs
            in (fs, rest, if ioc \<or> left \<le> 0 then snd books else enqueue kSell (p, price, left) (snd books))))"

subsection \<open>Abstraction\<close>

definition queue :: "matcher \<Rightarrow> sim_book \<Rightarrow> resting list" where
  "queue m b = concat (map (\<lambda>lv. map (\<lambda>p. (p, ps_price (fst lv), mt_openQty m p)) (snd lv)) b)"

definition mt_abs :: "matcher \<Rightarrow> resting list \<times> resting list" where
  "mt_abs m = (queue m (mt_bids m), queue m (mt_asks m))"

fun fill_view :: "sim_event \<Rightarrow> (optr \<times> ticks \<times> size \<times> eLiqInd) list" where
  "fill_view (EvFill p ord price q liq) = [(p, price, q, liq)]"
| "fill_view _ = []"

definition fills_of :: "matcher \<Rightarrow> (optr \<times> ticks \<times> size \<times> eLiqInd) list" where
  "fills_of m = concat (map fill_view (mt_events m))"

text \<open>The reports of the fills of an incoming order \<open>p\<close>: first the resting client order, then the incoming one.\<close>

definition reports :: "matcher \<Rightarrow> optr \<Rightarrow> resting list \<Rightarrow> (optr \<times> ticks \<times> size \<times> eLiqInd) list" where
  "reports m p fs =
     concat (map (\<lambda>(r, price, q). (if is_client m r then [(r, price, q, kAdd)] else []) @ [(p, price, q, kRem)]) fs)"

text \<open>Quantities without overflow: an order of a book is open, an incoming order is not overfilled.\<close>

definition qty_ok :: "matcher \<Rightarrow> optr \<Rightarrow> bool" where
  "qty_ok m p \<longleftrightarrow> 0 \<le> so_cumQty (mt_heap m p) \<and> so_cumQty (mt_heap m p) \<le> so_qty (mt_heap m p) \<and> so_qty (mt_heap m p) \<le> INT32_MAX"

definition open_ok :: "matcher \<Rightarrow> optr \<Rightarrow> bool" where
  "open_ok m p \<longleftrightarrow> qty_ok m p \<and> so_cumQty (mt_heap m p) < so_qty (mt_heap m p)"

definition quantities_ok :: "matcher \<Rightarrow> bool" where
  "quantities_ok m \<longleftrightarrow> (\<forall>p \<in> mt_ptrs m. open_ok m p)"

subsection \<open>Quantities\<close>

lemma openQty_exact: "qty_ok m p \<Longrightarrow> mt_openQty m p = so_qty (mt_heap m p) - so_cumQty (mt_heap m p)"
  unfolding mt_openQty_def qty_ok_def by (rule tw_exact(2)) (auto simp: tw_ok_iff in_s32_iff INT32_MAX_def)

lemma openQty_range: "qty_ok m p \<Longrightarrow> 0 \<le> mt_openQty m p \<and> tw_ok (mt_openQty m p)"
  by (simp add: openQty_exact) (simp add: qty_ok_def tw_ok_iff INT32_MAX_def)

lemma openQty_pos: "open_ok m p \<Longrightarrow> 0 < mt_openQty m p"
  by (simp add: open_ok_def openQty_exact)

lemma open_ok_iff: "qty_ok m p \<Longrightarrow> open_ok m p \<longleftrightarrow> 0 < mt_openQty m p"
  by (simp add: open_ok_def openQty_exact)

lemma fill_heap:
  "mt_heap (generateFill p price q liq m) r =
     (if r = p then (mt_heap m p)\<lparr>so_cumQty := size_add_eq (so_cumQty (mt_heap m p)) q\<rparr> else mt_heap m r)"
  by (simp add: generateFill_def)

lemma fill_qty:
  assumes "qty_ok m p" "0 \<le> q" "q \<le> mt_openQty m p"
  shows "qty_ok (generateFill p price q liq m) p" "mt_openQty (generateFill p price q liq m) p = mt_openQty m p - q"
proof -
  have "so_cumQty (mt_heap m p) + q \<le> so_qty (mt_heap m p)" using assms openQty_exact [OF assms(1)] by simp
  moreover from this have e: "size_add_eq (so_cumQty (mt_heap m p)) q = so_cumQty (mt_heap m p) + q"
    using assms by (intro tw_exact(3)) (auto simp: tw_ok_iff in_s32_iff qty_ok_def INT32_MAX_def)
  ultimately show k: "qty_ok (generateFill p price q liq m) p" using assms by (simp add: qty_ok_def fill_heap)
  from openQty_exact [OF k] openQty_exact [OF assms(1)] e
  show "mt_openQty (generateFill p price q liq m) p = mt_openQty m p - q" by (simp add: fill_heap)
qed

lemma fill_other:
  "r \<noteq> p \<Longrightarrow> qty_ok (generateFill p price q liq m) r = qty_ok m r"
  "r \<noteq> p \<Longrightarrow> mt_openQty (generateFill p price q liq m) r = mt_openQty m r"
  by (simp_all add: qty_ok_def mt_openQty_def fill_heap)

lemma fill_fills:
  "fills_of (generateFill p price q liq m) = fills_of m @ (if is_client m p then [(p, price, q, liq)] else [])"
  by (simp add: generateFill_def fills_of_def is_client_def mt_log_def)

lemma unmap_frame [simp]:
  "mt_heap (mt_unmap p m) = mt_heap m" "mt_openQty (mt_unmap p m) = mt_openQty m" "qty_ok (mt_unmap p m) = qty_ok m"
  "fills_of (mt_unmap p m) = fills_of m" "is_client (mt_unmap p m) = is_client m"
  by (simp_all add: mt_unmap_def mt_openQty_def qty_ok_def fills_of_def is_client_def fun_eq_iff)

lemma fill_client [simp]: "is_client (generateFill p price q liq m) = is_client m"
  by (simp add: fun_eq_iff is_client_def fill_heap)

lemma fill_price [simp]: "so_price (mt_heap (generateFill p price q liq m) r) = so_price (mt_heap m r)"
  by (simp add: fill_heap)

lemma reports_client: "is_client m1 = is_client m \<Longrightarrow> reports m1 p fs = reports m p fs"
  by (simp add: reports_def)

lemma reports_Cons [simp]:
  "reports m p [] = []"
  "reports m p ((r, price, q) # fs) =
     (if is_client m r then [(r, price, q, kAdd)] else []) @ (p, price, q, kRem) # reports m p fs"
  by (simp_all add: reports_def)

lemma filled_simps [simp]: "filled [] = 0" "filled ((p, price, q) # fs) = q + filled fs" "filled (fs @ gs) = filled fs + filled gs"
  by (simp_all add: filled_def)

text \<open>One trade between a resting order \<open>r\<close> and the incoming order \<open>p\<close>.\<close>

definition trade_pair :: "optr \<Rightarrow> optr \<Rightarrow> ticks \<Rightarrow> size \<Rightarrow> matcher \<Rightarrow> matcher" where
  "trade_pair r p price q m = generateFill p price q kRem (generateFill r price q kAdd m)"

lemma trade_pair_facts:
  assumes "r \<noteq> p" "qty_ok m r" "qty_ok m p" "0 \<le> q" "q \<le> mt_openQty m r" "q \<le> mt_openQty m p"
  shows "qty_ok (trade_pair r p price q m) p" "mt_openQty (trade_pair r p price q m) p = mt_openQty m p - q"
    "qty_ok (trade_pair r p price q m) r" "mt_openQty (trade_pair r p price q m) r = mt_openQty m r - q"
    "is_client m p \<Longrightarrow> fills_of (trade_pair r p price q m) =
       fills_of m @ (if is_client m r then [(r, price, q, kAdd)] else []) @ [(p, price, q, kRem)]"
  unfolding trade_pair_def using assms by (simp_all add: fill_qty fill_other fill_fills)

lemma trade_pair_frame:
  "s \<noteq> r \<Longrightarrow> s \<noteq> p \<Longrightarrow> mt_heap (trade_pair r p price q m) s = mt_heap m s"
  "is_client (trade_pair r p price q m) = is_client m"
  "so_price (mt_heap (trade_pair r p price q m) s) = so_price (mt_heap m s)"
  by (simp_all add: trade_pair_def fill_heap)

lemma heap_frame:
  "mt_heap m1 s = mt_heap m s \<Longrightarrow> mt_openQty m1 s = mt_openQty m s \<and> qty_ok m1 s = qty_ok m s \<and> open_ok m1 s = open_ok m s"
  by (simp add: mt_openQty_def qty_ok_def open_ok_def)

definition level_queue :: "matcher \<Rightarrow> ticks \<Rightarrow> optr list \<Rightarrow> resting list" where
  "level_queue m price ps = map (\<lambda>r. (r, price, mt_openQty m r)) ps"

lemma level_queue_cong: "(\<And>r. r \<in> set ps \<Longrightarrow> mt_heap m1 r = mt_heap m r) \<Longrightarrow> level_queue m1 price ps = level_queue m price ps"
  by (simp add: level_queue_def mt_openQty_def)

lemma level_queue_Cons [simp]: "level_queue m price [] = []" "level_queue m price (r # ps) = (r, price, mt_openQty m r) # level_queue m price ps"
  by (simp_all add: level_queue_def)

text \<open>What matching against one level, or the whole book, achieves: the state after it, relative to the fills.\<close>

definition matched :: "optr \<Rightarrow> optr set \<Rightarrow> matcher \<Rightarrow> resting list \<Rightarrow> optr set \<Rightarrow> matcher \<Rightarrow> bool" where
  "matched p P m fs P1 m1 \<longleftrightarrow> qty_ok m1 p \<and> mt_openQty m1 p = mt_openQty m p - filled fs \<and>
     (\<forall>r \<in> P1. open_ok m1 r) \<and> P1 \<subseteq> P \<and> (\<forall>r. r \<noteq> p \<longrightarrow> r \<notin> P \<longrightarrow> mt_heap m1 r = mt_heap m r) \<and>
     fills_of m1 = fills_of m @ reports m p fs \<and> is_client m1 = is_client m \<and> so_price (mt_heap m1 p) = so_price (mt_heap m p)"

lemma matched_refl: "qty_ok m p \<Longrightarrow> \<forall>r \<in> P. open_ok m r \<Longrightarrow> matched p P m [] P m"
  by (simp add: matched_def)

lemma matched_trans:
  assumes "matched p P m fs P1 m1" "matched p Q m1 gs Q1 m2" "P \<inter> Q = {}" "p \<notin> P \<union> Q"
  shows "matched p (P \<union> Q) m (fs @ gs) (P1 \<union> Q1) m2"
proof -
  have "mt_heap m2 r = mt_heap m1 r" if "r \<in> P1" for r
  proof -
    have "r \<noteq> p" "r \<notin> Q" using assms(1,3,4) that by (auto simp: matched_def)
    with assms(2) show ?thesis by (simp add: matched_def)
  qed
  then have "open_ok m2 r" if "r \<in> P1" for r using assms(1) that heap_frame [of m2 r m1] by (auto simp: matched_def)
  moreover have "reports m p (fs @ gs) = reports m p fs @ reports m p gs" by (simp add: reports_def)
  ultimately show ?thesis using assms reports_client [of m1 m p gs] unfolding matched_def by auto
qed

lemma match_orders_refines:
  assumes "match_orders price p ps (mt_openQty m p) m = (ps1, n1, m1)" "qty_ok m p" "\<forall>r \<in> set ps. open_ok m r"
    "distinct (p # ps)" "is_client m p"
  shows "\<exists>fs. consume (\<lambda>_. True) (mt_openQty m p) (level_queue m price ps) = (fs, level_queue m1 price ps1) \<and>
    n1 = mt_openQty m1 p \<and> matched p (set ps) m fs (set ps1) m1"
  using assms
proof (induction ps arbitrary: m ps1 n1 m1)
  case Nil
  then show ?case by (auto intro: matched_refl)
next
  case (Cons r ps)
  let ?n = "mt_openQty m p" and ?q = "mt_openQty m r"
  have ok: "r \<noteq> p" "qty_ok m r" "open_ok m r" "qty_ok m p" "\<forall>s \<in> set ps. open_ok m s" "r \<notin> set ps" "p \<notin> set ps"
    using Cons.prems by (auto simp: open_ok_def)
  have q: "0 < ?q" using openQty_pos ok(3) .
  consider (stop) "\<not> ?n > 0" | (all) "?n > 0" "?n \<ge> ?q" | (part) "?n > 0" "?n < ?q" by linarith
  then show ?case
  proof cases
    case stop
    with Cons.prems show ?thesis by (auto intro!: matched_refl)
  next
    case all
    let ?m = "mt_unmap r (trade_pair r p price ?q m)"
    note f = trade_pair_facts [where price = price, OF ok(1,2,4)] and fr = trade_pair_frame [where r = r and p = p and price = price and q = ?q and m = m]
    have n: "size_sub_eq ?n ?q = mt_openQty ?m p"
      using f(2) q all openQty_range [OF ok(2)] openQty_range [OF ok(4)] by (simp add: tw_exact(4) tw_ok_iff in_s32_iff)
    have step: "match_orders price p ps (mt_openQty ?m p) ?m = (ps1, n1, m1)"
      using Cons.prems(1) all n by (simp add: Let_def trade_pair_def)
    have same: "mt_heap ?m s = mt_heap m s" if "s \<in> set ps" for s using fr(1) [where s = s] that ok by auto
    have "\<exists>fs. consume (\<lambda>_. True) (mt_openQty ?m p) (level_queue ?m price ps) = (fs, level_queue m1 price ps1) \<and>
        n1 = mt_openQty m1 p \<and> matched p (set ps) ?m fs (set ps1) m1"
      by (rule Cons.IH [OF step]) (use f q all ok heap_frame [OF same] Cons.prems(4,5) fr(2) in auto)
    then obtain fs where fs: "consume (\<lambda>_. True) (mt_openQty ?m p) (level_queue ?m price ps) = (fs, level_queue m1 price ps1)"
      "n1 = mt_openQty m1 p" "matched p (set ps) ?m fs (set ps1) m1" by blast
    have "consume (\<lambda>_. True) ?n (level_queue m price (r # ps)) = ((r, price, ?q) # fs, level_queue m1 price ps1)"
      using fs(1) all f(2) q level_queue_cong [OF same, of ps price] by simp
    moreover have "matched p {r} m [(r, price, ?q)] {} ?m"
      using f q all Cons.prems(5) fr by (auto simp: matched_def)
    from matched_trans [OF this fs(3)] ok have "matched p (set (r # ps)) m ((r, price, ?q) # fs) (set ps1) m1" by simp
    ultimately show ?thesis using fs(2) by blast
  next
    case part
    let ?m = "trade_pair r p price ?n m"
    note f = trade_pair_facts [where price = price, OF ok(1,2,4)] and fr = trade_pair_frame [where r = r and p = p and price = price and q = ?n and m = m]
    have z: "size_sub_eq ?n ?n = 0" using openQty_range [OF ok(4)] by (simp add: tw_exact(4))
    have "match_orders price p ps 0 x = (ps, 0, x)" for x by (cases ps) simp_all
    then have e: "ps1 = r # ps" "n1 = 0" "m1 = ?m"
      using Cons.prems(1) part z by (auto simp: Let_def trade_pair_def)
    have same: "mt_heap ?m s = mt_heap m s" if "s \<in> set ps" for s using fr(1) [where s = s] that ok by auto
    have "consume (\<lambda>_. True) ?n (level_queue m price (r # ps)) = ([(r, price, ?n)], level_queue m1 price ps1)"
      using part f(4) e level_queue_cong [OF same, of ps price] by simp
    moreover have "open_ok ?m r" using f part by (simp add: open_ok_iff)
    then have "matched p (set (r # ps)) m [(r, price, ?n)] (set ps1) m1"
      using f part Cons.prems(5) fr ok(5) heap_frame [OF same] e by (auto simp: matched_def)
    ultimately show ?thesis using f(2) part e by (auto intro!: exI [of _ "[(r, price, ?n)]"])
  qed
qed

subsection \<open>Matching against the whole book\<close>

lemma consume_stop: "n \<le> 0 \<or> (\<forall>x \<in> set xs. \<not> ok (fst (snd x))) \<Longrightarrow> consume ok n xs = ([], xs)"
  by (cases xs) auto

lemma consume_cong: "\<forall>x \<in> set xs. ok (fst (snd x)) = ok' (fst (snd x)) \<Longrightarrow> consume ok n xs = consume ok' n xs"
  by (induction ok n xs rule: consume.induct) auto

lemma consume_append:
  "consume ok n xs = (fs, rest) \<Longrightarrow> consume ok n (xs @ ys) =
     (if rest = [] then (let (gs, r) = consume ok (n - filled fs) ys in (fs @ gs, r)) else (fs, rest @ ys))"
proof (induction ok n xs arbitrary: fs rest rule: consume.induct)
  case (2 ok n p price q rs)
  then show ?case by (auto simp: algebra_simps split: if_splits prod.splits)
qed simp

lemma consume_leftover: "consume (\<lambda>_. True) n xs = (fs, rest) \<Longrightarrow> rest \<noteq> [] \<Longrightarrow> n - filled fs \<le> 0"
proof (induction "\<lambda>_ :: ticks. True" n xs arbitrary: fs rest rule: consume.induct)
  case (2 n p price q rs)
  then show ?case by (fastforce split: if_splits prod.splits)
qed simp

lemma queue_simps [simp]:
  "queue m [] = []" "queue m ((l, ps) # b) = level_queue m (ps_price l) ps @ queue m b"
  by (simp_all add: queue_def level_queue_def)

lemma queue_cong: "(\<And>r. r \<in> set (book_ptrs b) \<Longrightarrow> mt_heap m1 r = mt_heap m r) \<Longrightarrow> queue m1 b = queue m b"
  by (induction b) (auto simp: level_queue_def mt_openQty_def)

lemma queue_prices: "x \<in> set (queue m b) \<Longrightarrow> \<exists>lv \<in> set b. fst (snd x) = ps_price (fst lv)"
  by (induction b) (auto simp: level_queue_def)

lemma match_levels_refines:
  assumes "match_levels cmp p b (mt_openQty m p) m = (b1, m1)" "qty_ok m p" "\<forall>r \<in> set (book_ptrs b). open_ok m r"
    "distinct (p # book_ptrs b)" "is_client m p" "so_price (mt_heap m p) = pr"
    "sorted_wrt (\<lambda>x y. cmp pr (ps_price (fst y)) \<longrightarrow> cmp pr (ps_price (fst x))) b"
  shows "\<exists>fs. consume (cmp pr) (mt_openQty m p) (queue m b) = (fs, queue m1 b1) \<and>
    matched p (set (book_ptrs b)) m fs (set (book_ptrs b1)) m1"
  using assms
proof (induction b arbitrary: m b1)
  case Nil
  then show ?case by (auto intro: matched_refl)
next
  case (Cons lv b)
  obtain l ps where lv: "lv = (l, ps)" by (cases lv)
  let ?n = "mt_openQty m p" and ?lq = "level_queue m (ps_price l) ps"
  show ?case
  proof (cases "cmp pr (ps_price l) \<and> ?n > 0")
    case False
    have "\<not> cmp pr (fst (snd x))" if "\<not> cmp pr (ps_price l)" "x \<in> set (queue m (lv # b))" for x
      using queue_prices [OF that(2)] that(1) Cons.prems(7) unfolding lv by auto
    then have "consume (cmp pr) ?n (queue m (lv # b)) = ([], queue m (lv # b))"
      using False by (intro consume_stop) force
    moreover have "b1 = lv # b" "m1 = m" using False Cons.prems(1,6) by (auto simp: lv)
    ultimately show ?thesis using matched_refl Cons.prems(2,3) by auto
  next
    case True
    obtain ps1 n1 m2 where e: "match_orders (ps_price l) p ps ?n m = (ps1, n1, m2)" by (cases "match_orders (ps_price l) p ps ?n m")
    from match_orders_refines [OF this] Cons.prems(2-5) obtain fs where
      fs: "consume (\<lambda>_. True) ?n ?lq = (fs, level_queue m2 (ps_price l) ps1)" "n1 = mt_openQty m2 p"
        "matched p (set ps) m fs (set ps1) m2" by (auto simp: lv)
    have c: "consume (cmp pr) ?n ?lq = (fs, level_queue m2 (ps_price l) ps1)"
      using fs(1) True consume_cong [of ?lq "cmp pr" "\<lambda>_. True" ?n] by (auto simp: level_queue_def)
    have same: "mt_heap m2 r = mt_heap m r" if "r \<in> set (book_ptrs b)" for r
      using that fs(3) Cons.prems(4) by (auto simp: matched_def lv)
    have ok: "\<forall>r \<in> set (book_ptrs b). open_ok m2 r" using Cons.prems(3) heap_frame [OF same] by (auto simp: lv)
    note q = queue_cong [OF same, of b]
    have m2: "qty_ok m2 p" "is_client m2 p" "so_price (mt_heap m2 p) = pr" "mt_openQty m2 p = ?n - filled fs"
      using fs(3) Cons.prems(5,6) by (auto simp: matched_def)
    show ?thesis
    proof (cases "ps1 = []")
      case True
      have step: "match_levels cmp p b (mt_openQty m2 p) m2 = (b1, m1)"
        using Cons.prems(1,6) \<open>cmp pr (ps_price l) \<and> ?n > 0\<close> e fs(2) True by (auto simp: lv split: prod.splits)
      from Cons.IH [OF step m2(1) ok _ m2(2,3)] Cons.prems(4,7) obtain gs where
        gs: "consume (cmp pr) (mt_openQty m2 p) (queue m2 b) = (gs, queue m1 b1)"
          "matched p (set (book_ptrs b)) m2 gs (set (book_ptrs b1)) m1" by (auto simp: lv)
      have "consume (cmp pr) ?n (queue m (lv # b)) = (fs @ gs, queue m1 b1)"
        using consume_append [OF c, of "queue m b"] True gs(1) q m2(4) by (simp add: lv)
      moreover have "matched p (set (book_ptrs (lv # b))) m (fs @ gs) (set (book_ptrs b1)) m1"
        using matched_trans [OF fs(3) gs(2)] Cons.prems(4) True by (simp add: lv)
      ultimately show ?thesis by blast
    next
      case False
      then have "n1 \<le> 0" using consume_leftover [OF fs(1)] m2(4) fs(2) by (auto simp: level_queue_def)
      then have "match_levels cmp p b n1 m2 = (b, m2)" by (cases b) auto
      then have b1: "b1 = (l, ps1) # b" "m1 = m2"
        using Cons.prems(1,6) \<open>cmp pr (ps_price l) \<and> ?n > 0\<close> e False by (auto simp: lv split: prod.splits)
      have "consume (cmp pr) ?n (queue m (lv # b)) = (fs, queue m1 b1)"
        using consume_append [OF c, of "queue m b"] False b1 q by (simp add: lv level_queue_def)
      moreover have "matched p (set (book_ptrs (lv # b))) m fs (set (book_ptrs b1)) m1"
        using matched_trans [OF fs(3) matched_refl [OF m2(1) ok]] Cons.prems(4) b1 by (simp add: lv)
      ultimately show ?thesis by blast
    qed
  qed
qed

subsection \<open>Joining the own queue\<close>

lemma enqueue_skip: "\<forall>y \<in> set xs. \<not> ahead sd (fst (snd x)) (fst (snd y)) \<Longrightarrow> enqueue sd x (xs @ ys) = xs @ enqueue sd x ys"
  by (simp add: enqueue_def takeWhile_append2 dropWhile_append2)

lemma enqueue_front: "\<forall>y \<in> set ys. ahead sd (fst (snd x)) (fst (snd y)) \<Longrightarrow> enqueue sd x ys = x # ys"
  by (cases ys) (auto simp: enqueue_def)

lemma rest_insert_refines:
  "by_price sd b \<Longrightarrow> queue m (rest_insert (ahead sd) price p b) = enqueue sd (p, price, mt_openQty m p) (queue m b)"
proof (induction b)
  case (Cons lv b)
  obtain l ps where lv: "lv = (l, ps)" by (cases lv)
  have lq: "fst (snd y) = ps_price l" if "y \<in> set (level_queue m (ps_price l) ps)" for y
    using that by (auto simp: level_queue_def)
  have later: "ahead sd (ps_price l) (fst (snd y))" if "y \<in> set (queue m b)" for y
    using queue_prices [OF that] Cons.prems by (auto simp: lv)
  have irr: "\<not> ahead sd x x" and tr: "ahead sd x y \<Longrightarrow> ahead sd y z \<Longrightarrow> ahead sd x z" for x y z
    by (auto simp: ahead_def split: if_splits)
  consider (before) "ahead sd price (ps_price l)" | (at) "price = ps_price l"
    | (after) "\<not> ahead sd price (ps_price l)" "price \<noteq> ps_price l" by blast
  then show ?case
  proof cases
    case before
    then have "\<forall>y \<in> set (queue m (lv # b)). ahead sd price (fst (snd y))"
      using lq later tr [OF before] before unfolding lv queue_simps set_append by (metis Un_iff)
    from enqueue_front [of _ sd "(p, price, mt_openQty m p)"] this before show ?thesis
      by (auto simp: lv level_queue_def)
  next
    case at
    then show ?thesis
      using enqueue_skip [of "level_queue m (ps_price l) ps" sd "(p, price, mt_openQty m p)"]
        enqueue_front [of "queue m b" sd "(p, price, mt_openQty m p)"] lq later irr
      by (auto simp: lv level_queue_def)
  next
    case after
    then show ?thesis
      using enqueue_skip [of "level_queue m (ps_price l) ps" sd "(p, price, mt_openQty m p)"] lq Cons
      by (auto simp: lv)
  qed
qed (simp add: enqueue_def level_queue_def)

subsection \<open>Requests\<close>

lemma queue_heap: "mt_heap m1 = mt_heap m \<Longrightarrow> queue m1 = queue m"
  by (simp add: fun_eq_iff queue_def mt_openQty_def)

lemma qty_heap: "mt_heap m1 = mt_heap m \<Longrightarrow> open_ok m1 = open_ok m"
  by (simp add: fun_eq_iff open_ok_def qty_ok_def)

text \<open>Updates of an order outside the books, log entries and the map do not show in the abstraction.\<close>

definition invisible :: "optr \<Rightarrow> matcher \<Rightarrow> matcher \<Rightarrow> bool" where
  "invisible p m m1 \<longleftrightarrow> mt_bids m1 = mt_bids m \<and> mt_asks m1 = mt_asks m \<and> fills_of m1 = fills_of m \<and>
     (\<forall>r. so_qty (mt_heap m1 r) = so_qty (mt_heap m r) \<and> so_cumQty (mt_heap m1 r) = so_cumQty (mt_heap m r) \<and> is_client m1 r = is_client m r)"

lemma invisible_eq:
  assumes "invisible p m m1"
  shows "mt_abs m1 = mt_abs m" "fills_of m1 = fills_of m" "quantities_ok m1 = quantities_ok m" "mt_openQty m1 = mt_openQty m"
    "qty_ok m1 = qty_ok m" "is_client m1 = is_client m" "queue m1 = queue m" "mt_ptrs m1 = mt_ptrs m" "reports m1 = reports m"
  using assms
  by (simp_all add: invisible_def mt_abs_def queue_def quantities_ok_def open_ok_def qty_ok_def mt_openQty_def mt_ptrs_def reports_def fun_eq_iff)

lemma invisible_intros:
  "invisible p m (mt_set p (\<lambda>x. x\<lparr>so_exOrderId := g x\<rparr>) m)" "invisible p m (mt_set p (\<lambda>x. x\<lparr>so_price := h x\<rparr>) m)"
  "invisible p m (mt_set p (\<lambda>x. x\<lparr>so_internalCxl := c\<rparr>) m)"
  "fill_view e = [] \<Longrightarrow> invisible p m (mt_log e m)" "invisible p m (mt_register p m)"
  by (simp_all add: invisible_def fills_of_def is_client_def mt_log_def mt_register_def)

lemma invisible_trans: "invisible p m m1 \<Longrightarrow> invisible p m1 m2 \<Longrightarrow> invisible p m m2"
  by (simp add: invisible_def)

text \<open>The queues without one order.\<close>

definition without :: "optr \<Rightarrow> resting list \<Rightarrow> resting list" where
  "without p xs = filter (\<lambda>x. fst x \<noteq> p) xs"

lemma erase_in_orders_frame: "mt_heap (snd (erase_in_orders p ps m)) = mt_heap m \<and> mt_events (snd (erase_in_orders p ps m)) = mt_events m"
  by (induction ps) (auto simp: mt_unmap_def split: prod.splits)

lemma eraseOrder_frame: "mt_heap (snd (mt_eraseOrder p b m)) = mt_heap m \<and> mt_events (snd (mt_eraseOrder p b m)) = mt_events m"
  using erase_in_orders_frame [of p _ m] by (induction b) (auto split: prod.splits; metis snd_conv)+

lemma eraseOrder_none:
  assumes "\<forall>q \<in> set (book_ptrs b). so_exOrderId (mt_heap m p) \<noteq> so_exOrderId (mt_heap m q)"
  shows "mt_eraseOrder p b m = (b, m)"
proof -
  have "erase_in_orders p ps m = (ps, m)" if "\<forall>q \<in> set ps. so_exOrderId (mt_heap m p) \<noteq> so_exOrderId (mt_heap m q)" for ps
    using that by (induction ps) auto
  with assms show ?thesis by (induction b) auto
qed

lemma eraseOrder_refines:
  assumes "by_price sd b" "\<forall>lv \<in> set b. level_ok sd m lv" "distinct (book_ptrs b)" "p \<in> set (book_ptrs b)" "is_client m p"
    "\<And>q. q \<in> set (book_ptrs b) \<Longrightarrow> so_exOrderId (mt_heap m p) = so_exOrderId (mt_heap m q) \<Longrightarrow> q = p"
  shows "queue m (fst (mt_eraseOrder p b m)) = without p (queue m b)"
  using assms
proof (induction b)
  case (Cons lv b)
  obtain l ps where lv: "lv = (l, ps)" by (cases lv)
  have out: "without p (level_queue m price qs) = level_queue m price qs" if "p \<notin> set qs" for price qs
    using that by (induction qs) (auto simp: without_def)
  have outq: "without p (queue m c) = queue m c" if "p \<notin> set (book_ptrs c)" for c
    using that by (induction c) (auto simp: without_def out [unfolded without_def])
  show ?case
  proof (cases "p \<in> set ps")
    case True
    then have pr: "ps_price l = so_price (mt_heap m p)" using Cons.prems by (auto simp: lv level_ok_def order_at_def)
    have rm: "fst (erase_in_orders p ps m) = remove1 p ps"
      by (rule erase_in_orders_id) (use Cons.prems True in \<open>auto simp: lv\<close>)
    have "level_queue m price (remove1 p qs) = without p (level_queue m price qs)" if "distinct qs" for price qs
      using that by (induction qs) (auto simp: without_def out [unfolded without_def])
    moreover have "p \<notin> set (book_ptrs b)" using Cons.prems(3) True by (auto simp: lv)
    ultimately have "without p (queue m (lv # b)) = level_queue m (ps_price l) (remove1 p ps) @ queue m b"
      using outq [of b] Cons.prems(3) by (simp add: lv without_def)
    moreover have "ps \<noteq> []" using True by auto
    ultimately show ?thesis using pr rm by (auto simp: lv split: prod.splits)
  next
    case False
    then have p: "p \<in> set (book_ptrs b)" using Cons.prems(4) by (simp add: lv)
    then obtain k where "k \<in> set b" "p \<in> set (snd k)" by (auto simp: book_ptrs_def)
    then have "so_price (mt_heap m p) = ps_price (fst k)" "ahead sd (ps_price l) (ps_price (fst k))"
      using Cons.prems(1,2,5) by (auto simp: lv level_ok_def order_at_def)
    then have ne: "ps_price l \<noteq> so_price (mt_heap m p)" by (auto simp: ahead_def split: if_splits)
    have "queue m (fst (mt_eraseOrder p b m)) = without p (queue m b)" by (rule Cons.IH) (use Cons.prems p in \<open>auto simp: lv\<close>)
    with ne out [OF False, of "ps_price l"] show ?thesis by (auto simp: lv without_def split: prod.splits)
  qed
qed simp

lemma ready_ids:
  assumes "mt_wf m" "ready m p" "q \<in> mt_ptrs m"
  shows "so_exOrderId (mt_heap m p) \<noteq> so_exOrderId (mt_heap m q)"
proof (cases "is_client m q")
  case True
  then show ?thesis using live_find [OF mt_wf_live [OF assms(1)] assms(3)] assms(2) by (auto simp: ready_def)
next
  case False
  have "\<exists>sd pr. order_at sd m pr q" using assms(1,3) book_order_at unfolding mt_wf_def mt_ptrs_def by blast
  with False assms(2) show ?thesis by (auto simp: order_at_def ready_def)
qed

lemma erase_ready_same:
  assumes "mt_wf m" "ready m p"
  shows "erase_by_side p m = m"
  using ready_ids [OF assms] eraseOrder_none [of "mt_bids m" m p] eraseOrder_none [of "mt_asks m" m p]
  by (simp add: erase_by_side_def on_bids_def on_asks_def mt_ptrs_def split: eOrderSide.splits)

lemma on_books_alt:
  "on_bids f m = (snd (f (mt_bids m) m))\<lparr>mt_bids := fst (f (mt_bids m) m)\<rparr>"
  "on_asks f m = (snd (f (mt_asks m) m))\<lparr>mt_asks := fst (f (mt_asks m) m)\<rparr>"
  by (simp_all add: on_bids_def on_asks_def split: prod.splits)

lemma erase_by_side_frame:
  "mt_heap (erase_by_side p m) = mt_heap m" "mt_events (erase_by_side p m) = mt_events m"
  using eraseOrder_frame [of p "mt_bids m" m] eraseOrder_frame [of p "mt_asks m" m]
  by (simp_all add: erase_by_side_def on_books_alt split: eOrderSide.splits)

lemma queue_without: "p \<notin> set (book_ptrs c) \<Longrightarrow> without p (queue m c) = queue m c"
proof -
  have "fst x \<in> set (book_ptrs c)" if "x \<in> set (queue m c)" for x
    using that by (induction c) (auto simp: level_queue_def)
  then show "p \<notin> set (book_ptrs c) \<Longrightarrow> without p (queue m c) = queue m c"
    unfolding without_def by (intro filter_True) auto
qed

lemma erase_by_side_refines:
  assumes "mt_wf m" "p \<in> mt_ptrs m" "is_client m p"
  shows "mt_abs (erase_by_side p m) = (without p (queue m (mt_bids m)), without p (queue m (mt_asks m)))"
proof -
  note w = mt_wf_book [OF assms]
  have wf: "by_price kBuy (mt_bids m)" "by_price kSell (mt_asks m)" "\<forall>lv \<in> set (mt_bids m). level_ok kBuy m lv"
    "\<forall>lv \<in> set (mt_asks m). level_ok kSell m lv" "distinct (book_ptrs (mt_bids m))" "distinct (book_ptrs (mt_asks m))"
    and d: "set (book_ptrs (mt_bids m)) \<inter> set (book_ptrs (mt_asks m)) = {}"
    using assms(1) by (simp_all add: mt_wf_def)
  note q = queue_heap [OF erase_by_side_frame(1) [of p m]]
  consider (buy) "so_side (mt_heap m p) = kBuy" | (sell) "so_side (mt_heap m p) = kSell" using w(1) by blast
  then show ?thesis
  proof cases
    case buy
    then have e: "erase_by_side p m = on_bids (mt_eraseOrder p) m" by (simp add: erase_by_side_def)
    have "queue m (fst (mt_eraseOrder p (mt_bids m) m)) = without p (queue m (mt_bids m))"
      by (rule eraseOrder_refines [OF wf(1,3,5) w(4) [OF buy] assms(3)]) (rule w(6), simp_all add: mt_ptrs_def)
    moreover have "p \<notin> set (book_ptrs (mt_asks m))" using d w(4) [OF buy] by blast
    moreover have "mt_asks (on_bids (mt_eraseOrder p) m) = mt_asks m" by (rule er.on_bids_wf(4) [OF refl assms(1)])
    moreover have "mt_bids (on_bids (mt_eraseOrder p) m) = fst (mt_eraseOrder p (mt_bids m) m)" by (simp add: on_books_alt)
    ultimately show ?thesis using q queue_without by (simp add: mt_abs_def e)
  next
    case sell
    then have e: "erase_by_side p m = on_asks (mt_eraseOrder p) m" by (simp add: erase_by_side_def)
    have "queue m (fst (mt_eraseOrder p (mt_asks m) m)) = without p (queue m (mt_asks m))"
      by (rule eraseOrder_refines [OF wf(2,4,6) w(5) [OF sell] assms(3)]) (rule w(6), simp_all add: mt_ptrs_def)
    moreover have "p \<notin> set (book_ptrs (mt_bids m))" using d w(5) [OF sell] by blast
    moreover have "mt_bids (on_asks (mt_eraseOrder p) m) = mt_bids m" by (rule er.on_asks_wf(4) [OF refl assms(1)])
    moreover have "mt_asks (on_asks (mt_eraseOrder p) m) = fst (mt_eraseOrder p (mt_asks m) m)" by (simp add: on_books_alt)
    ultimately show ?thesis using q queue_without by (simp add: mt_abs_def e)
  qed
qed

lemma checkMatches_asks:
  assumes "mt_wf m" "quantities_ok m" "ready m p" "qty_ok m p" "so_price (mt_heap m p) = pr"
    "consume (\<lambda>x. x \<le> pr) (mt_openQty m p) (queue m (mt_asks m)) = (fs, rest)" "m1 = on_asks (checkMatches t_ge p) m"
  shows "queue m1 (mt_asks m1) = rest" "queue m1 (mt_bids m1) = queue m (mt_bids m)" "quantities_ok m1" "qty_ok m1 p"
    "mt_openQty m1 p = mt_openQty m p - filled fs" "fills_of m1 = fills_of m @ reports m p fs" "is_client m1 = is_client m"
    "so_price (mt_heap m1 p) = pr"
proof -
  obtain b1 m2 where e: "checkMatches t_ge p (mt_asks m) m = (b1, m2)" by (cases "checkMatches t_ge p (mt_asks m) m")
  have m1: "m1 = m2\<lparr>mt_asks := b1\<rparr>" using assms(7) e by (simp add: on_asks_def)
  have heap: "mt_heap m1 = mt_heap m2" by (simp add: m1)
  have srt: "sorted_wrt (\<lambda>x y. ps_price (fst y) \<le> pr \<longrightarrow> ps_price (fst x) \<le> pr) (mt_asks m)"
    using assms(1) by (auto simp: mt_wf_def by_price_def sorted_wrt_map intro: sorted_wrt_mono_rel [rotated])
  have "\<exists>fs. consume (t_ge pr) (mt_openQty m p) (queue m (mt_asks m)) = (fs, queue m2 b1) \<and>
      matched p (set (book_ptrs (mt_asks m))) m fs (set (book_ptrs b1)) m2"
    by (rule match_levels_refines [OF e [unfolded checkMatches_def]])
      (use assms srt in \<open>auto simp: mt_wf_def ready_def quantities_ok_def mt_ptrs_def\<close>)
  with assms(6) have r: "queue m2 b1 = rest" and mt: "matched p (set (book_ptrs (mt_asks m))) m fs (set (book_ptrs b1)) m2" by auto
  have same: "mt_heap m2 q = mt_heap m q" if "q \<in> set (book_ptrs (mt_bids m))" for q
    using mt that assms(1,3) by (auto simp: matched_def mt_wf_def ready_def mt_ptrs_def)
  have bids: "mt_bids m1 = mt_bids m" using cm.on_asks_wf(4) [OF refl assms(1)] assms(7) by simp
  show "queue m1 (mt_asks m1) = rest" using r queue_heap [OF heap] by (simp add: m1)
  show "queue m1 (mt_bids m1) = queue m (mt_bids m)" using queue_cong [OF same] queue_heap [OF heap] bids by simp
  have "open_ok m2 q" if "q \<in> set (book_ptrs (mt_bids m))" for q
    using heap_frame [OF same [OF that]] assms(2) that by (simp add: quantities_ok_def mt_ptrs_def)
  then show "quantities_ok m1" using mt bids qty_heap [OF heap] by (auto simp: quantities_ok_def mt_ptrs_def matched_def m1)
  show "qty_ok m1 p" "mt_openQty m1 p = mt_openQty m p - filled fs" "fills_of m1 = fills_of m @ reports m p fs"
    "is_client m1 = is_client m" "so_price (mt_heap m1 p) = pr"
    using mt assms(5) by (auto simp: m1 matched_def qty_ok_def mt_openQty_def fills_of_def is_client_def fun_eq_iff)
qed

lemma checkMatches_bids:
  assumes "mt_wf m" "quantities_ok m" "ready m p" "qty_ok m p" "so_price (mt_heap m p) = pr"
    "consume (\<lambda>x. pr \<le> x) (mt_openQty m p) (queue m (mt_bids m)) = (fs, rest)" "m1 = on_bids (checkMatches t_le p) m"
  shows "queue m1 (mt_bids m1) = rest" "queue m1 (mt_asks m1) = queue m (mt_asks m)" "quantities_ok m1" "qty_ok m1 p"
    "mt_openQty m1 p = mt_openQty m p - filled fs" "fills_of m1 = fills_of m @ reports m p fs" "is_client m1 = is_client m"
    "so_price (mt_heap m1 p) = pr"
proof -
  obtain b1 m2 where e: "checkMatches t_le p (mt_bids m) m = (b1, m2)" by (cases "checkMatches t_le p (mt_bids m) m")
  have m1: "m1 = m2\<lparr>mt_bids := b1\<rparr>" using assms(7) e by (simp add: on_bids_def)
  have heap: "mt_heap m1 = mt_heap m2" by (simp add: m1)
  have srt: "sorted_wrt (\<lambda>x y. pr \<le> ps_price (fst y) \<longrightarrow> pr \<le> ps_price (fst x)) (mt_bids m)"
    using assms(1) by (auto simp: mt_wf_def by_price_def sorted_wrt_map intro: sorted_wrt_mono_rel [rotated])
  have "\<exists>fs. consume (t_le pr) (mt_openQty m p) (queue m (mt_bids m)) = (fs, queue m2 b1) \<and>
      matched p (set (book_ptrs (mt_bids m))) m fs (set (book_ptrs b1)) m2"
    by (rule match_levels_refines [OF e [unfolded checkMatches_def]])
      (use assms srt in \<open>auto simp: mt_wf_def ready_def quantities_ok_def mt_ptrs_def\<close>)
  with assms(6) have r: "queue m2 b1 = rest" and mt: "matched p (set (book_ptrs (mt_bids m))) m fs (set (book_ptrs b1)) m2" by auto
  have same: "mt_heap m2 q = mt_heap m q" if "q \<in> set (book_ptrs (mt_asks m))" for q
    using mt that assms(1,3) by (auto simp: matched_def mt_wf_def ready_def mt_ptrs_def)
  have asks: "mt_asks m1 = mt_asks m" using cm.on_bids_wf(4) [OF refl assms(1)] assms(7) by simp
  show "queue m1 (mt_bids m1) = rest" using r queue_heap [OF heap] by (simp add: m1)
  show "queue m1 (mt_asks m1) = queue m (mt_asks m)" using queue_cong [OF same] queue_heap [OF heap] asks by simp
  have "open_ok m2 q" if "q \<in> set (book_ptrs (mt_asks m))" for q
    using heap_frame [OF same [OF that]] assms(2) that by (simp add: quantities_ok_def mt_ptrs_def)
  then show "quantities_ok m1" using mt asks qty_heap [OF heap] by (auto simp: quantities_ok_def mt_ptrs_def matched_def m1)
  show "qty_ok m1 p" "mt_openQty m1 p = mt_openQty m p - filled fs" "fills_of m1 = fills_of m @ reports m p fs"
    "is_client m1 = is_client m" "so_price (mt_heap m1 p) = pr"
    using mt assms(5) by (auto simp: m1 matched_def qty_ok_def mt_openQty_def fills_of_def is_client_def fun_eq_iff)
qed

lemma internal_cxl_invisible:
  assumes "mt_wf m" "ready m p"
  shows "invisible p m (internal_cxl p m)"
proof -
  let ?m = "mt_set p (\<lambda>ord. ord\<lparr>so_internalCxl := True\<rparr>) m"
  have "mt_wf ?m" using assms by (simp add: mt_wf_set ready_fields)
  moreover have "ready ?m p" using assms(2) by (simp add: ready_def is_client_def)
  ultimately have "internal_cxl p m = mt_log EvEvent (mt_log (EvCxlAck p (mt_heap ?m p)) ?m)"
    by (simp add: internal_cxl_def mt_sendCxl_def erase_ready_same Let_def)
  moreover have "invisible p m (mt_log EvEvent (mt_log (EvCxlAck p (mt_heap ?m p)) ?m))"
    by (rule invisible_trans [OF invisible_intros(3) invisible_trans [OF invisible_intros(4) invisible_intros(4)]]) simp_all
  ultimately show ?thesis by simp
qed

lemma rest_refines:
  assumes "by_price sd b" "qty_ok m p" "so_price (mt_heap m p) = pr"
  shows "queue m (processNew (ahead sd) p b m) =
      (if mt_openQty m p \<le> 0 then queue m b else enqueue sd (p, pr, mt_openQty m p) (queue m b))"
    "\<forall>q \<in> set (book_ptrs b). open_ok m q \<Longrightarrow> \<forall>q \<in> set (book_ptrs (processNew (ahead sd) p b m)). open_ok m q"
proof -
  have e: "so_qty (mt_heap m p) \<le> so_cumQty (mt_heap m p) \<longleftrightarrow> mt_openQty m p \<le> 0" using openQty_exact [OF assms(2)] by simp
  show "queue m (processNew (ahead sd) p b m) =
      (if mt_openQty m p \<le> 0 then queue m b else enqueue sd (p, pr, mt_openQty m p) (queue m b))"
    using rest_insert_refines [OF assms(1)] e assms(3) by (simp add: processNew_def)
  have "set (book_ptrs (rest_insert c x p b)) = insert p (set (book_ptrs b))" for c x
    using arg_cong [OF rest_insert_ptrs, of set_mset c x p b] by simp
  then show "\<forall>q \<in> set (book_ptrs b). open_ok m q \<Longrightarrow> \<forall>q \<in> set (book_ptrs (processNew (ahead sd) p b m)). open_ok m q"
    using e open_ok_iff [OF assms(2)] by (auto simp: processNew_def)
qed

lemma process_buy_refines:
  assumes "mt_wf m" "quantities_ok m" "ready m p" "qty_ok m p"
    "spec_new (so_side (mt_heap m p)) (so_timeInForce (mt_heap m p) = kIOC) p (so_price (mt_heap m p)) (mt_openQty m p) (mt_abs m) = (fs, books)"
    and buy: "so_side (mt_heap m p) = kBuy"
  shows "mt_abs (processNewOrderAtLevel p m) = books \<and> fills_of (processNewOrderAtLevel p m) = fills_of m @ reports m p fs \<and>
    quantities_ok (processNewOrderAtLevel p m)"
proof -
  let ?pr = "so_price (mt_heap m p)"
  note p = ready_fields(1) [OF assms(3)]
  let ?m = "on_asks (checkMatches t_ge p) m"
  obtain gs rest where c: "consume (\<lambda>x. x \<le> ?pr) (mt_openQty m p) (queue m (mt_asks m)) = (gs, rest)" by fastforce
  note f = checkMatches_asks [OF assms(1-4) refl c refl]
  have wf: "mt_wf ?m" "ready ?m p" using cm.on_asks_wf(1) [OF refl assms(1)] cm.on_asks_ready [OF assms(1,3)] by auto
  have tif: "so_timeInForce (mt_heap ?m p) = so_timeInForce (mt_heap m p)"
    by (rule skel_fields(5) [OF cm.on_asks_wf(3) [OF refl assms(1) p]])
  have fs: "fs = gs" "books = (if so_timeInForce (mt_heap m p) = kIOC \<or> mt_openQty ?m p \<le> 0 then queue m (mt_bids m)
      else enqueue kBuy (p, ?pr, mt_openQty ?m p) (queue m (mt_bids m)), rest)"
    using assms(5) buy c f(5) by (auto simp: spec_new_def mt_abs_def Let_def)
  show ?thesis
  proof (cases "so_timeInForce (mt_heap m p) = kIOC")
    case True
    then have "processNewOrderAtLevel p m = internal_cxl p ?m" using buy tif by (simp add: processNewOrderAtLevel_def Let_def)
    with invisible_eq [OF internal_cxl_invisible [OF wf]] f fs True show ?thesis by (simp add: mt_abs_def)
  next
    case False
    let ?b = "processNew t_g p (mt_bids ?m) ?m"
    have "processNewOrderAtLevel p m = mt_register p (?m\<lparr>mt_bids := ?b\<rparr>)"
      using buy tif False by (simp add: processNewOrderAtLevel_def Let_def on_books_alt)
    moreover have "by_price kBuy (mt_bids ?m)" using wf(1) by (simp add: mt_wf_def)
    note r = rest_refines [OF this f(4,8), unfolded ahead_simps]
    moreover have "mt_abs (?m\<lparr>mt_bids := ?b\<rparr>) = (queue ?m ?b, queue ?m (mt_asks ?m))"
      "fills_of (?m\<lparr>mt_bids := ?b\<rparr>) = fills_of ?m"
      by (simp_all add: mt_abs_def queue_def mt_openQty_def fills_of_def)
    moreover have "quantities_ok (?m\<lparr>mt_bids := ?b\<rparr>)"
      using r(2) f(3) qty_heap [of "?m\<lparr>mt_bids := ?b\<rparr>" ?m] by (auto simp: quantities_ok_def mt_ptrs_def)
    ultimately show ?thesis
      using invisible_eq [OF invisible_intros(5) [of p "?m\<lparr>mt_bids := ?b\<rparr>"]] f fs False by simp
  qed
qed

lemma process_sell_refines:
  assumes "mt_wf m" "quantities_ok m" "ready m p" "qty_ok m p"
    "spec_new (so_side (mt_heap m p)) (so_timeInForce (mt_heap m p) = kIOC) p (so_price (mt_heap m p)) (mt_openQty m p) (mt_abs m) = (fs, books)"
    and sell: "so_side (mt_heap m p) = kSell"
  shows "mt_abs (processNewOrderAtLevel p m) = books \<and> fills_of (processNewOrderAtLevel p m) = fills_of m @ reports m p fs \<and>
    quantities_ok (processNewOrderAtLevel p m)"
proof -
  let ?pr = "so_price (mt_heap m p)"
  note p = ready_fields(1) [OF assms(3)]
  let ?m = "on_bids (checkMatches t_le p) m"
  obtain gs rest where c: "consume (\<lambda>x. ?pr \<le> x) (mt_openQty m p) (queue m (mt_bids m)) = (gs, rest)" by fastforce
  note f = checkMatches_bids [OF assms(1-4) refl c refl]
  have wf: "mt_wf ?m" "ready ?m p" using cm.on_bids_wf(1) [OF refl assms(1)] cm.on_bids_ready [OF assms(1,3)] by auto
  have tif: "so_timeInForce (mt_heap ?m p) = so_timeInForce (mt_heap m p)"
    by (rule skel_fields(5) [OF cm.on_bids_wf(3) [OF refl assms(1) p]])
  have fs: "fs = gs" "books = (rest, if so_timeInForce (mt_heap m p) = kIOC \<or> mt_openQty ?m p \<le> 0 then queue m (mt_asks m)
      else enqueue kSell (p, ?pr, mt_openQty ?m p) (queue m (mt_asks m)))"
    using assms(5) sell c f(5) by (auto simp: spec_new_def mt_abs_def Let_def)
  show ?thesis
  proof (cases "so_timeInForce (mt_heap m p) = kIOC")
    case True
    then have "processNewOrderAtLevel p m = internal_cxl p ?m" using sell tif by (simp add: processNewOrderAtLevel_def Let_def)
    with invisible_eq [OF internal_cxl_invisible [OF wf]] f fs True show ?thesis by (simp add: mt_abs_def)
  next
    case False
    let ?b = "processNew t_l p (mt_asks ?m) ?m"
    have "processNewOrderAtLevel p m = mt_register p (?m\<lparr>mt_asks := ?b\<rparr>)"
      using sell tif False by (simp add: processNewOrderAtLevel_def Let_def on_books_alt)
    moreover have "by_price kSell (mt_asks ?m)" using wf(1) by (simp add: mt_wf_def)
    note r = rest_refines [OF this f(4,8), unfolded ahead_simps]
    moreover have "mt_abs (?m\<lparr>mt_asks := ?b\<rparr>) = (queue ?m (mt_bids ?m), queue ?m ?b)"
      "fills_of (?m\<lparr>mt_asks := ?b\<rparr>) = fills_of ?m"
      by (simp_all add: mt_abs_def queue_def mt_openQty_def fills_of_def)
    moreover have "quantities_ok (?m\<lparr>mt_asks := ?b\<rparr>)"
      using r(2) f(3) qty_heap [of "?m\<lparr>mt_asks := ?b\<rparr>" ?m] by (auto simp: quantities_ok_def mt_ptrs_def)
    ultimately show ?thesis
      using invisible_eq [OF invisible_intros(5) [of p "?m\<lparr>mt_asks := ?b\<rparr>"]] f fs False by simp
  qed
qed

lemma processNewOrderAtLevel_refines:
  assumes "mt_wf m" "quantities_ok m" "ready m p" "qty_ok m p"
    "spec_new (so_side (mt_heap m p)) (so_timeInForce (mt_heap m p) = kIOC) p (so_price (mt_heap m p)) (mt_openQty m p) (mt_abs m) = (fs, books)"
  shows "mt_abs (processNewOrderAtLevel p m) = books \<and> fills_of (processNewOrderAtLevel p m) = fills_of m @ reports m p fs \<and>
    quantities_ok (processNewOrderAtLevel p m)"
  using process_buy_refines [OF assms] process_sell_refines [OF assms] assms(3) by (auto simp: ready_def)

lemma ready_new_request:
  "new_request p m \<Longrightarrow> ready (mt_log (EvNewAck p) (mt_set p (\<lambda>ord. ord\<lparr>so_exOrderId := so_clOrderId ord\<rparr>) m)) p"
  by (auto simp: new_request_def ready_def is_client_def)

lemma sendNew_invisible:
  "invisible p m (mt_log (EvNewAck p) (mt_set p (\<lambda>ord. ord\<lparr>so_exOrderId := so_clOrderId ord\<rparr>) m))"
  by (rule invisible_trans [OF invisible_intros(1) invisible_intros(4)]) simp

text \<open>
  C2: entering an order implements the abstract exchange: the two queues of the books become what
  price-time priority says, the reported fills are exactly the trades of the abstract exchange in
  their order, and the book stays well formed, so that the next request can follow.
\<close>

theorem sendNew_refines_spec:
  assumes "mt_wf m" "quantities_ok m" "new_request p m" "qty_ok m p"
    "spec_new (so_side (mt_heap m p)) (so_timeInForce (mt_heap m p) = kIOC) p (so_price (mt_heap m p)) (mt_openQty m p) (mt_abs m) = (fs, books)"
  shows "mt_abs (mt_sendNew p m) = books \<and> fills_of (mt_sendNew p m) = fills_of m @ reports m p fs \<and>
    mt_wf (mt_sendNew p m) \<and> quantities_ok (mt_sendNew p m)"
proof -
  let ?m = "mt_log (EvNewAck p) (mt_set p (\<lambda>ord. ord\<lparr>so_exOrderId := so_clOrderId ord\<rparr>) m)"
  note i = invisible_eq [OF sendNew_invisible [of p m]]
  have wf: "mt_wf ?m" using assms(1,3) by (simp add: mt_wf_set new_request_def)
  have "mt_abs (processNewOrderAtLevel p ?m) = books \<and> fills_of (processNewOrderAtLevel p ?m) = fills_of ?m @ reports ?m p fs \<and>
      quantities_ok (processNewOrderAtLevel p ?m)"
    by (rule processNewOrderAtLevel_refines [OF wf _ ready_new_request [OF assms(3)]]) (use assms i in simp_all)
  with i invisible_eq [OF invisible_intros(4) [of EvEvent p "processNewOrderAtLevel p ?m"]] mt_sendNew_wf [OF assms(1,3)]
  show ?thesis by (simp add: mt_sendNew_def)
qed

text \<open>
  C35: a modify takes the order out of its queue and enters it at the new price like a new order,
  so it loses its place; a cancel takes the order out and leaves everything else as it is.
\<close>

theorem sendMod_sendCxl_refine_spec:
  assumes "mt_wf m" "quantities_ok m" "p \<in> mt_ptrs m" "is_client m p"
    "spec_new (so_side (mt_heap m p)) (so_timeInForce (mt_heap m p) = kIOC) p (so_newPrice (mt_heap m p)) (mt_openQty m p)
       (map_prod (without p) (without p) (mt_abs m)) = (fs, books)"
  shows "mt_abs (mt_sendMod p m) = books \<and> fills_of (mt_sendMod p m) = fills_of m @ reports m p fs \<and>
    mt_wf (mt_sendMod p m) \<and> quantities_ok (mt_sendMod p m) \<and>
    mt_abs (mt_sendCxl p m) = map_prod (without p) (without p) (mt_abs m) \<and> fills_of (mt_sendCxl p m) = fills_of m \<and>
    mt_wf (mt_sendCxl p m) \<and> quantities_ok (mt_sendCxl p m)"
proof -
  let ?e = "erase_by_side p m"
  let ?m = "mt_log (EvModAck p) (mt_set p (\<lambda>ord. ord\<lparr>so_price := so_newPrice ord\<rparr>) ?e)"
  have ab: "mt_abs ?e = map_prod (without p) (without p) (mt_abs m)"
    using erase_by_side_refines [OF assms(1,3,4)] by (simp add: mt_abs_def)
  note fr = erase_by_side_frame [of p m] and rd = erase_by_side_ready [OF assms(1,3,4)]
  have sub: "mt_ptrs ?e \<subseteq> mt_ptrs m"
    using er.on_books_ptrs [OF assms(1)] by (simp add: erase_by_side_def split: eOrderSide.splits)
  have q: "quantities_ok ?e" using assms(2) sub qty_heap [OF fr(1)] by (auto simp: quantities_ok_def)
  have fl: "fills_of ?e = fills_of m" and cl: "is_client ?e = is_client m" and op: "mt_openQty ?e p = mt_openQty m p"
    and qp: "qty_ok ?e p" using fr assms(2,3) by (auto simp: fills_of_def is_client_def fun_eq_iff mt_openQty_def quantities_ok_def open_ok_def qty_ok_def)
  have "invisible p ?e ?m" by (rule invisible_trans [OF invisible_intros(2) invisible_intros(4)]) simp
  note i = invisible_eq [OF this]
  have wf: "mt_wf ?m" using erase_by_side_wf [OF assms(1)] rd by (simp add: mt_wf_set ready_def)
  have rdm: "ready ?m p" using rd by (simp add: ready_def is_client_def)
  have "mt_abs (processNewOrderAtLevel p ?m) = books \<and> fills_of (processNewOrderAtLevel p ?m) = fills_of ?m @ reports ?m p fs \<and>
      quantities_ok (processNewOrderAtLevel p ?m)"
    by (rule processNewOrderAtLevel_refines [OF wf _ rdm]) (use assms(5) i q qp op ab fr(1) in simp_all)
  moreover have "reports ?m p fs = reports m p fs" using i(9) cl by (simp add: reports_def)
  ultimately have "mt_abs (mt_sendMod p m) = books \<and> fills_of (mt_sendMod p m) = fills_of m @ reports m p fs \<and> quantities_ok (mt_sendMod p m)"
    using i fl invisible_eq [OF invisible_intros(4) [of EvEvent p "processNewOrderAtLevel p ?m"]] by (simp add: mt_sendMod_def)
  moreover have "invisible p ?e (mt_sendCxl p m)"
    unfolding mt_sendCxl_def Let_def by (rule invisible_trans [OF invisible_intros(4) invisible_intros(4)]) simp_all
  note invisible_eq [OF this]
  ultimately show ?thesis using mt_sendMod_wf [OF assms(1,3,4)] mt_sendCxl_wf [OF assms(1)] ab fl q by simp
qed

subsection \<open>What price-time priority gives\<close>

definition acceptable :: "eOrderSide \<Rightarrow> ticks \<Rightarrow> ticks \<Rightarrow> bool" where
  "acceptable sd limit x = (if sd = kBuy then x \<le> limit else limit \<le> x)"

definition opposite :: "eOrderSide \<Rightarrow> resting list \<times> resting list \<Rightarrow> resting list" where
  "opposite sd books = (if sd = kBuy then snd books else fst books)"

definition uncrossed :: "matcher \<Rightarrow> bool" where
  "uncrossed m \<longleftrightarrow> (\<forall>x \<in> set (fst (mt_abs m)). \<forall>y \<in> set (snd (mt_abs m)). fst (snd x) < fst (snd y))"

lemma filled_nonneg: "\<forall>x \<in> set xs. 0 < snd (snd x) \<Longrightarrow> 0 \<le> filled xs"
  by (induction xs) (auto simp: filled_def)

lemma consume_fills: "consume ok n xs = (fs, rest) \<Longrightarrow> \<forall>x \<in> set xs. 0 < snd (snd x) \<Longrightarrow> x \<in> set fs \<Longrightarrow> ok (fst (snd x)) \<and> 0 < snd (snd x)"
proof (induction ok n xs arbitrary: fs rest rule: consume.induct)
  case (2 ok n p price q rs)
  then show ?case by (auto split: if_splits prod.splits)
qed simp

lemma consume_rest: "consume ok n xs = (fs, rest) \<Longrightarrow> x \<in> set rest \<Longrightarrow> \<exists>y \<in> set xs. fst y = fst x \<and> fst (snd y) = fst (snd x)"
proof (induction ok n xs arbitrary: fs rest rule: consume.induct)
  case (2 ok n p price q rs)
  then show ?case by (fastforce split: if_splits prod.splits)
qed simp

lemma consume_blocked:
  "sorted_wrt (\<lambda>x y. ok (fst (snd y)) \<longrightarrow> ok (fst (snd x))) ((p, price, q) # rs) \<Longrightarrow> \<not> ok price \<Longrightarrow>
     filter (\<lambda>x. ok (fst (snd x))) rs = [] \<and> (\<forall>x \<in> set rs. \<not> ok (fst (snd x)))"
  by (auto simp: filter_empty_conv)

lemma consume_total:
  "consume ok n xs = (fs, rest) \<Longrightarrow> 0 \<le> n \<Longrightarrow> \<forall>x \<in> set xs. 0 < snd (snd x) \<Longrightarrow>
   sorted_wrt (\<lambda>x y. ok (fst (snd y)) \<longrightarrow> ok (fst (snd x))) xs \<Longrightarrow>
   filled fs = min n (filled (filter (\<lambda>x. ok (fst (snd x))) xs)) \<and> (filled fs < n \<longrightarrow> (\<forall>x \<in> set rest. \<not> ok (fst (snd x))))"
proof (induction ok n xs arbitrary: fs rest rule: consume.induct)
  case (2 ok n p price q rs)
  let ?av = "filled (filter (\<lambda>x. ok (fst (snd x))) rs)"
  have nn: "0 \<le> ?av" using "2.prems"(3) by (intro filled_nonneg) auto
  have q: "0 < q" using "2.prems"(3) by simp
  consider (all) "n > 0" "ok price" "q \<le> n" | (part) "n > 0" "ok price" "\<not> q \<le> n" | (zero) "\<not> n > 0" | (bad) "n > 0" "\<not> ok price"
    by blast
  then show ?case
  proof cases
    case all
    obtain gs where gs: "consume ok (n - q) rs = (gs, rest)" "fs = (p, price, q) # gs"
      using all "2.prems"(1) by (cases "consume ok (n - q) rs") simp
    have srt: "sorted_wrt (\<lambda>x y. ok (fst (snd y)) \<longrightarrow> ok (fst (snd x))) rs" and pos: "\<forall>x \<in> set rs. 0 < snd (snd x)"
      using "2.prems"(3,4) by simp_all
    have c: "n > 0 \<and> ok price" using all by simp
    have nq: "0 \<le> n - q" using all(3) by simp
    note ih = "2.IH" [OF c all(3) gs(1) nq pos srt]
    have fs: "filled fs = q + filled gs" using gs(2) by simp
    have "filled (filter (\<lambda>x. ok (fst (snd x))) ((p, price, q) # rs)) = q + ?av" using all(2) by simp
    then have "filled fs = min n (filled (filter (\<lambda>x. ok (fst (snd x))) ((p, price, q) # rs)))"
      using fs conjunct1 [OF ih] by (simp add: min_def)
    moreover have "filled fs < n \<longrightarrow> (\<forall>x \<in> set rest. \<not> ok (fst (snd x)))" using fs conjunct2 [OF ih] by (simp add: less_diff_eq add.commute)
    ultimately show ?thesis ..
  next
    case part
    then have "filled fs = n" "filled (filter (\<lambda>x. ok (fst (snd x))) ((p, price, q) # rs)) = q + ?av"
      using "2.prems"(1) by (auto simp: filled_def)
    with part nn show ?thesis by simp
  next
    case zero
    then have "n = 0" "fs = []" using "2.prems"(1,2) by auto
    moreover have "0 \<le> filled (filter (\<lambda>x. ok (fst (snd x))) ((p, price, q) # rs))"
      using "2.prems"(3) by (intro filled_nonneg) auto
    ultimately show ?thesis by simp
  next
    case bad
    then have "fs = []" "rest = (p, price, q) # rs" using "2.prems"(1) by auto
    with consume_blocked [OF "2.prems"(4) bad(2)] bad show ?thesis by simp
  qed
qed simp

lemma queue_sorted:
  "by_price sd b \<Longrightarrow> sorted_wrt (\<lambda>x y. \<not> ahead sd (fst (snd y)) (fst (snd x))) (queue m b)"
proof (induction b)
  case (Cons lv b)
  obtain l ps where lv: "lv = (l, ps)" by (cases lv)
  have "sorted_wrt (\<lambda>x y. \<not> ahead sd (fst (snd y)) (fst (snd x))) (level_queue m (ps_price l) ps)"
    by (induction ps) (auto simp: level_queue_def ahead_def)
  moreover have "\<not> ahead sd (fst (snd y)) (fst (snd x))" if "x \<in> set (level_queue m (ps_price l) ps)" "y \<in> set (queue m b)" for x y
    using that queue_prices [OF that(2)] Cons.prems by (auto simp: lv level_queue_def ahead_def split: if_splits)
  ultimately show ?case using Cons by (auto simp: lv sorted_wrt_append)
qed simp

lemma queue_elem: "x \<in> set (queue m b) \<Longrightarrow> fst x \<in> set (book_ptrs b) \<and> snd (snd x) = mt_openQty m (fst x)"
  by (induction b) (auto simp: level_queue_def)

lemma queue_quantities: "\<forall>r \<in> set (book_ptrs b). open_ok m r \<Longrightarrow> \<forall>x \<in> set (queue m b). 0 < snd (snd x)"
  using queue_elem openQty_pos by metis

lemma queue_ptrs: "map fst (queue m b) = book_ptrs b"
  by (induction b) (auto simp: level_queue_def o_def)

lemma set_enqueue [simp]: "set (enqueue sd x xs) = insert x (set xs)"
proof -
  have "set xs = set (takeWhile P xs) \<union> set (dropWhile P xs)" for P by (metis set_append takeWhile_dropWhile_id)
  then show ?thesis by (simp add: enqueue_def)
qed

lemma mt_ptrs_abs: "mt_ptrs m = fst ` set (fst (mt_abs m)) \<union> fst ` set (snd (mt_abs m))"
  unfolding mt_ptrs_def mt_abs_def fst_conv snd_conv queue_ptrs [symmetric, where m = m] by simp

lemma opposite_facts:
  assumes "mt_wf m" "quantities_ok m" "sd \<in> {kBuy, kSell}"
  shows "\<forall>x \<in> set (opposite sd (mt_abs m)). 0 < snd (snd x)"
    "sorted_wrt (\<lambda>x y. acceptable sd pr (fst (snd y)) \<longrightarrow> acceptable sd pr (fst (snd x))) (opposite sd (mt_abs m))"
proof -
  have q: "\<forall>x \<in> set (queue m (mt_bids m)). 0 < snd (snd x)" "\<forall>x \<in> set (queue m (mt_asks m)). 0 < snd (snd x)"
    by (rule queue_quantities, use assms(2) in \<open>simp add: quantities_ok_def mt_ptrs_def\<close>)+
  show "\<forall>x \<in> set (opposite sd (mt_abs m)). 0 < snd (snd x)" using q by (simp add: opposite_def mt_abs_def)
  have "by_price kBuy (mt_bids m)" "by_price kSell (mt_asks m)" using assms(1) by (simp_all add: mt_wf_def)
  from this [THEN queue_sorted, of m]
  show "sorted_wrt (\<lambda>x y. acceptable sd pr (fst (snd y)) \<longrightarrow> acceptable sd pr (fst (snd x))) (opposite sd (mt_abs m))"
    using assms(3) by (auto simp: opposite_def mt_abs_def acceptable_def elim!: sorted_wrt_mono_rel [rotated])
qed

lemma spec_new_consume:
  assumes "spec_new sd ioc p pr n books = (fs, books1)" "sd \<in> {kBuy, kSell}"
  obtains rest where "consume (acceptable sd pr) n (opposite sd books) = (fs, rest)"
    "books1 = (if sd = kBuy then (if ioc \<or> n - filled fs \<le> 0 then fst books else enqueue kBuy (p, pr, n - filled fs) (fst books), rest)
       else (rest, if ioc \<or> n - filled fs \<le> 0 then snd books else enqueue kSell (p, pr, n - filled fs) (snd books)))"
  using assms by (auto simp: spec_new_def opposite_def acceptable_def [abs_def] Let_def split: prod.splits if_splits)

lemma spec_new_uncrossed:
  assumes "spec_new sd ioc p pr n books = (fs, books1)" "sd \<in> {kBuy, kSell}"
    "\<forall>x \<in> set (fst books). \<forall>y \<in> set (snd books). fst (snd x) < fst (snd y)"
    "filled fs < n \<Longrightarrow> \<forall>rest. consume (acceptable sd pr) n (opposite sd books) = (fs, rest) \<longrightarrow> (\<forall>x \<in> set rest. \<not> acceptable sd pr (fst (snd x)))"
  shows "\<forall>x \<in> set (fst books1). \<forall>y \<in> set (snd books1). fst (snd x) < fst (snd y)"
proof -
  obtain rest where r: "consume (acceptable sd pr) n (opposite sd books) = (fs, rest)"
    and b: "books1 = (if sd = kBuy then (if ioc \<or> n - filled fs \<le> 0 then fst books else enqueue kBuy (p, pr, n - filled fs) (fst books), rest)
       else (rest, if ioc \<or> n - filled fs \<le> 0 then snd books else enqueue kSell (p, pr, n - filled fs) (snd books)))"
    using spec_new_consume [OF assms(1,2)] by blast
  have old: "\<exists>y \<in> set (opposite sd books). fst (snd y) = fst (snd x)" if "x \<in> set rest" for x using consume_rest [OF r that] by blast
  show ?thesis
  proof (cases "sd = kBuy")
    case True
    then have "fst (snd x) < fst (snd y)" if "x \<in> set (fst books)" "y \<in> set rest" for x y
      using old [OF that(2)] assms(3) that(1) by (force simp: opposite_def)
    moreover have "pr < fst (snd y)" if "filled fs < n" "y \<in> set rest" for y
      using assms(4) [OF that(1)] r that(2) True by (auto simp: acceptable_def)
    ultimately show ?thesis using True by (auto simp: b)
  next
    case False
    then have "fst (snd x) < fst (snd y)" if "x \<in> set rest" "y \<in> set (snd books)" for x y
      using old [OF that(1)] assms(3) that(2) by (force simp: opposite_def)
    moreover have "fst (snd x) < pr" if "filled fs < n" "x \<in> set rest" for x
      using assms(4) [OF that(1)] r that(2) False by (auto simp: acceptable_def)
    ultimately show ?thesis using False by (auto simp: b)
  qed
qed

text \<open>
  C36: a new order is executed at once as far as its limit allows: the quantity it trades is the
  smaller of its own and what rests at acceptable prices, no fill is outside the limit, the
  remainder rests in the book exactly when there is one and the order is not
  immediate-or-cancel, and the book stays uncrossed.
\<close>

theorem new_order_executed:
  assumes "mt_wf m" "quantities_ok m" "new_request p m" "qty_ok m p" "uncrossed m"
    "sd = so_side (mt_heap m p)" "pr = so_price (mt_heap m p)" "n = mt_openQty m p" "m1 = mt_sendNew p m"
    "avail = filled (filter (\<lambda>x. acceptable sd pr (fst (snd x))) (opposite sd (mt_abs m)))"
  shows "(\<exists>fs. fills_of m1 = fills_of m @ reports m p fs \<and> filled fs = min n avail \<and> (\<forall>x \<in> set fs. acceptable sd pr (fst (snd x)) \<and> 0 < snd (snd x))) \<and>
    (p \<in> mt_ptrs m1 \<longleftrightarrow> avail < n \<and> so_timeInForce (mt_heap m p) \<noteq> kIOC) \<and> uncrossed m1"
proof -
  obtain fs books where s: "spec_new sd (so_timeInForce (mt_heap m p) = kIOC) p pr n (mt_abs m) = (fs, books)"
    using prod.exhaust_sel by blast
  have sd: "sd \<in> {kBuy, kSell}" using assms(3,6) by (simp add: new_request_def)
  note rf = sendNew_refines_spec [OF assms(1-4), folded assms(6,7,8), OF s, folded assms(9)]
  obtain rest where r: "consume (acceptable sd pr) n (opposite sd (mt_abs m)) = (fs, rest)"
    and b: "books = (if sd = kBuy then (if so_timeInForce (mt_heap m p) = kIOC \<or> n - filled fs \<le> 0 then fst (mt_abs m) else enqueue kBuy (p, pr, n - filled fs) (fst (mt_abs m)), rest)
       else (rest, if so_timeInForce (mt_heap m p) = kIOC \<or> n - filled fs \<le> 0 then snd (mt_abs m) else enqueue kSell (p, pr, n - filled fs) (snd (mt_abs m))))"
    using spec_new_consume [OF s sd] by blast
  note o = opposite_facts(1) [OF assms(1,2) sd] opposite_facts(2) [OF assms(1,2) sd, of pr]
  have "0 \<le> n" using openQty_range [OF assms(4)] assms(8) by simp
  note tot = consume_total [OF r this o, folded assms(10), THEN conjunct1] consume_total [OF r this o, THEN conjunct2]
  have np: "p \<notin> fst ` set (fst (mt_abs m))" "p \<notin> fst ` set (snd (mt_abs m))"
    using assms(3) by (simp_all add: new_request_def mt_ptrs_abs)
  moreover have "p \<notin> fst ` set rest"
  proof
    assume "p \<in> fst ` set rest"
    then obtain y where "y \<in> set (opposite sd (mt_abs m))" "fst y = p" using consume_rest [OF r] by force
    with np show False by (force simp: opposite_def split: if_splits)
  qed
  moreover have "mt_ptrs m1 = fst ` set (fst books) \<union> fst ` set (snd books)" using conjunct1 [OF rf] by (simp add: mt_ptrs_abs)
  ultimately have pos: "p \<in> mt_ptrs m1 \<longleftrightarrow> avail < n \<and> so_timeInForce (mt_heap m p) \<noteq> kIOC"
    using tot(1) by (cases "sd = kBuy"; cases "avail < n"; simp add: b)
  have unc: "uncrossed m1"
    using spec_new_uncrossed [OF s sd] assms(5) tot(2) r conjunct1 [OF rf] by (simp add: uncrossed_def)
  have "\<forall>x \<in> set fs. acceptable sd pr (fst (snd x)) \<and> 0 < snd (snd x)" using consume_fills [OF r o(1)] by blast
  then show ?thesis using rf tot(1) by (intro conjI exI [of _ fs] pos unc) simp_all
qed

subsection \<open>Examples\<close>

text \<open>A cleared matcher whose pool has handed out two orders: a resting sell of 5 at 100, an incoming buy of 8 at 101.\<close>

definition ex_order :: "string \<Rightarrow> eOrderSide \<Rightarrow> ticks \<Rightarrow> size \<Rightarrow> order_sim" where
  "ex_order k sd price qty = sim_default\<lparr>so_clOrderId := k, so_type := kLimit, so_side := sd, so_timeInForce := kDay,
     so_price := price, so_newPrice := 99, so_qty := qty\<rparr>"

definition ex_matcher :: matcher where
  "ex_matcher = mt_clear \<lparr>mt_heap = (\<lambda>p. if p = 0 then ex_order ''a'' kSell 100 5 else ex_order ''b'' kBuy 101 8),
     mt_next = 2, mt_bids = [], mt_asks = [], mt_ordersMap = [], mt_percentCancelFront = 20, mt_events = [], mt_ub = False\<rparr>"

lemma ex_matcher_wf: "mt_wf ex_matcher"
  by (simp add: ex_matcher_def mt_clear_def mt_wf_def mt_ptrs_def live_def sm_find_def)

abbreviation ex_rest :: matcher where
  "ex_rest \<equiv> mt_sendNew 0 ex_matcher"

lemma ex_rest_facts: "mt_wf ex_rest" "quantities_ok ex_rest" "new_request 1 ex_rest" "qty_ok ex_rest 1" "uncrossed ex_rest"
proof -
  have "new_request 0 ex_matcher" by code_simp
  then show "mt_wf ex_rest" by (rule mt_sendNew_wf [OF ex_matcher_wf])
qed code_simp+

theorem sendNew_refines_spec_witness:
  "mt_abs (mt_sendNew 1 ex_rest) = ([(1, 101, 3)], []) \<and>
   fills_of (mt_sendNew 1 ex_rest) = [(0, 100, 5, kAdd), (1, 100, 5, kRem)]"
proof -
  have "spec_new (so_side (mt_heap ex_rest 1)) (so_timeInForce (mt_heap ex_rest 1) = kIOC) 1 (so_price (mt_heap ex_rest 1))
      (mt_openQty ex_rest 1) (mt_abs ex_rest) = ([(0, 100, 5)], [(1, 101, 3)], [])" by code_simp
  from sendNew_refines_spec [OF ex_rest_facts(1-4) this]
  have "mt_abs (mt_sendNew 1 ex_rest) = ([(1, 101, 3)], [])" "fills_of (mt_sendNew 1 ex_rest) = fills_of ex_rest @ reports ex_rest 1 [(0, 100, 5)]"
    by simp_all
  moreover have "fills_of ex_rest @ reports ex_rest 1 [(0, 100, 5)] = [(0, 100, 5, kAdd), (1, 100, 5, kRem)]" by code_simp
  ultimately show ?thesis by simp
qed

theorem sendMod_sendCxl_refine_spec_witness:
  "mt_abs (mt_sendMod 0 ex_rest) = ([], [(0, 99, 5)]) \<and> mt_abs (mt_sendCxl 0 ex_rest) = ([], [])"
proof -
  have p: "0 \<in> mt_ptrs ex_rest" "is_client ex_rest 0" by code_simp+
  have "spec_new (so_side (mt_heap ex_rest 0)) (so_timeInForce (mt_heap ex_rest 0) = kIOC) 0 (so_newPrice (mt_heap ex_rest 0))
      (mt_openQty ex_rest 0) (map_prod (without 0) (without 0) (mt_abs ex_rest)) = ([], [], [(0, 99, 5)])" by code_simp
  from sendMod_sendCxl_refine_spec [OF ex_rest_facts(1,2) p this]
  have "mt_abs (mt_sendMod 0 ex_rest) = ([], [(0, 99, 5)])" "mt_abs (mt_sendCxl 0 ex_rest) = map_prod (without 0) (without 0) (mt_abs ex_rest)"
    by simp_all
  moreover have "map_prod (without 0) (without 0) (mt_abs ex_rest) = ([], [])" by code_simp
  ultimately show ?thesis by simp
qed

theorem new_order_executed_witness:
  "1 \<in> mt_ptrs (mt_sendNew 1 ex_rest) \<and> uncrossed (mt_sendNew 1 ex_rest) \<and>
   (\<exists>fs. fills_of (mt_sendNew 1 ex_rest) = fills_of ex_rest @ reports ex_rest 1 fs \<and> filled fs = 5)"
proof -
  have v: "filled (filter (\<lambda>x. acceptable (so_side (mt_heap ex_rest 1)) (so_price (mt_heap ex_rest 1)) (fst (snd x)))
      (opposite (so_side (mt_heap ex_rest 1)) (mt_abs ex_rest))) = 5" "mt_openQty ex_rest 1 = 8" "so_timeInForce (mt_heap ex_rest 1) \<noteq> kIOC"
    by code_simp+
  from new_order_executed [OF ex_rest_facts refl refl refl refl refl, unfolded v(1,2)] v(3) show ?thesis by auto
qed

text \<open>
  An immediate-or-cancel order is answered with a cancel in every case, also when it was
  filled completely: after the fills the listener is told that the order is cancelled.
\<close>

theorem ioc_always_cancelled:
  assumes "mt_wf m" "new_request p m" "so_timeInForce (mt_heap m p) = kIOC"
  shows "\<exists>evs ord. mt_events (mt_sendNew p m) = evs @ [EvCxlAck p ord, EvEvent, EvEvent] \<and> so_internalCxl ord"
proof -
  let ?m = "mt_log (EvNewAck p) (mt_set p (\<lambda>ord. ord\<lparr>so_exOrderId := so_clOrderId ord\<rparr>) m)"
  have r: "ready ?m p" by (rule ready_new_request [OF assms(2)])
  have wf: "mt_wf ?m" using assms(1,2) by (simp add: mt_wf_set new_request_def)
  have tif: "so_timeInForce (mt_heap (on_asks (checkMatches c p) ?m) p) = kIOC" "so_timeInForce (mt_heap (on_bids (checkMatches c p) ?m) p) = kIOC" for c
    using skel_fields(5) [OF cm.on_asks_wf(3) [OF refl wf ready_fields(1) [OF r]], of c p]
      skel_fields(5) [OF cm.on_bids_wf(3) [OF refl wf ready_fields(1) [OF r]], of c p] assms(3) by simp_all
  have "\<exists>m1. processNewOrderAtLevel p ?m = internal_cxl p m1 \<and> mt_wf m1 \<and> ready m1 p"
    using r assms(2) tif cm.on_asks_wf(1) [OF refl wf] cm.on_asks_ready [OF wf r] cm.on_bids_wf(1) [OF refl wf] cm.on_bids_ready [OF wf r]
    by (auto simp: processNewOrderAtLevel_def Let_def new_request_def)
  then obtain m1 where m1: "processNewOrderAtLevel p ?m = internal_cxl p m1" "mt_wf m1" "ready m1 p" by blast
  let ?c = "mt_set p (\<lambda>ord. ord\<lparr>so_internalCxl := True\<rparr>) m1"
  have "mt_wf ?c" "ready ?c p" using m1(2,3) by (simp_all add: mt_wf_set ready_def is_client_def)
  then have "internal_cxl p m1 = mt_log EvEvent (mt_log (EvCxlAck p (mt_heap ?c p)) ?c)"
    by (simp add: internal_cxl_def mt_sendCxl_def Let_def erase_ready_same)
  with m1(1) show ?thesis by (simp add: mt_sendNew_def mt_log_def)
qed

definition ex_ioc :: matcher where
  "ex_ioc = mt_set 1 (\<lambda>ord. ord\<lparr>so_timeInForce := kIOC, so_qty := 5\<rparr>) ex_rest"

theorem ioc_always_cancelled_witness:
  "(\<exists>evs ord. mt_events (mt_sendNew 1 ex_ioc) = evs @ [EvCxlAck 1 ord, EvEvent, EvEvent] \<and> so_internalCxl ord) \<and>
   fills_of (mt_sendNew 1 ex_ioc) = [(0, 100, 5, kAdd), (1, 100, 5, kRem)]"
proof -
  have "1 \<notin> mt_ptrs ex_rest" by code_simp
  then have "mt_wf ex_ioc" using ex_rest_facts(1) by (simp add: ex_ioc_def mt_wf_set)
  moreover have "new_request 1 ex_ioc" "so_timeInForce (mt_heap ex_ioc 1) = kIOC" by code_simp+
  ultimately have "\<exists>evs ord. mt_events (mt_sendNew 1 ex_ioc) = evs @ [EvCxlAck 1 ord, EvEvent, EvEvent] \<and> so_internalCxl ord"
    by (rule ioc_always_cancelled)
  moreover have "fills_of (mt_sendNew 1 ex_ioc) = [(0, 100, 5, kAdd), (1, 100, 5, kRem)]" by code_simp
  ultimately show ?thesis by simp
qed

end
