(* ===== verification/ExchangeSim.thy ===== *)
theory ExchangeSim
  imports MatcherRefine TicksConverter
begin

section \<open>MatcherManagerCME: the simulated exchange (exchange\_sim/matcher\_manager\_cme.h and .cpp)\<close>

text \<open>
  The manager keeps one matcher per instrument, reads FIX messages from client sessions and
  answers them. The FIX engine is a third-party library: an incoming message is the record of
  what its accessors return (\<open>None\<close> where an accessor throws), the values of the FIX
  fields the code compares with are an argument, and a message that is sent is an entry of the
  log \<open>mm_out\<close> with the session it goes to. A session is its target id. The listener calls
  of a matcher arrive while the matcher works; they do not touch the matcher, so the model takes
  them from its event log when the operation is over. An exception ends a handler: the handlers
  catch it and log.
\<close>

datatype fix_tag =
  ClOrdID | OrigClOrdID | OrderID | CorrelationClOrdID | FixSymbol | SecurityDesc | FixSide | ExecType | ExecTransType
| OrdStatus | LastShares | LastPx | ExecID | ExecRefID | AggressorIndicator | FixPrice | OrdType | OrderQty | FixTimeInForce
| OrdRejReason | FixText | CxlRejResponseTo | CxlRejReason | LastMsgSeqNumProcessed | RefSeqNum

datatype 'd fix_val = FStr string | FInt int | FDbl 'd

record 'd fix_msg =
  fm_type :: string
  fm_fields :: "(fix_tag \<times> 'd fix_val) list"

record 'd fix_in =
  fi_type :: string
  fi_get :: "fix_tag \<Rightarrow> string"
  fi_contain :: "fix_tag \<Rightarrow> bool"
  fi_getInteger :: "fix_tag \<Rightarrow> int option"
  fi_getDouble :: "fix_tag \<Rightarrow> 'd option"
  fi_seqNum :: int

record fix_values =
  fv_OrdTypeLimit :: string
  fv_SideBuy :: string
  fv_SideSell :: string
  fv_TimeInForceIOC :: string

record sim_params =
  sp_percentCancelFront :: u32
  sp_ack_delay_ms :: u32
  sp_rej_as_bussiness_rej :: bool
  sp_new_ack_seq_count :: int
  sp_new_rej_seq_count :: int
  sp_mod_ack_seq_count :: int
  sp_mod_rej_seq_count :: int
  sp_cxl_ack_seq_count :: int
  sp_cxl_rej_seq_count :: int
  sp_new_ack_seq_counter :: int
  sp_new_rej_seq_counter :: int
  sp_mod_ack_seq_counter :: int
  sp_mod_rej_seq_counter :: int
  sp_cxl_ack_seq_counter :: int
  sp_cxl_rej_seq_counter :: int

record 'd sim_entry =
  se_instrument :: "'d instrument"
  se_tc :: converter
  se_matcher :: matcher

record 'd sim_manager =
  mm_matchers :: "(string, 'd sim_entry) stdmap"
  mm_sessions :: "string list"
  mm_params :: sim_params
  mm_execId :: int
  mm_pipe :: "string list"
  mm_connectionsSubs :: "(string, nat list) stdmap"
  mm_connectionsSubsIds :: "(nat, nat) stdmap"
  mm_out :: "(string \<times> 'd fix_msg) list"
  mm_bus :: "(nat \<times> string) list"

definition mm_send :: "string \<Rightarrow> 'd fix_msg \<Rightarrow> 'd sim_manager \<Rightarrow> 'd sim_manager" where
  "mm_send sn msg M = M\<lparr>mm_out := mm_out M @ [(sn, msg)]\<rparr>"

definition mm_getMatcher :: "'d sim_manager \<Rightarrow> string \<Rightarrow> 'd sim_entry option" where
  "mm_getMatcher M name = sm_find (mm_matchers M) name"

definition mm_getSession :: "'d sim_manager \<Rightarrow> string \<Rightarrow> bool" where
  "mm_getSession M name \<longleftrightarrow> name \<in> set (mm_sessions M)"

definition mm_tune :: "(sim_params \<Rightarrow> sim_params) \<Rightarrow> 'd sim_manager \<Rightarrow> 'd sim_manager" where
  "mm_tune f M = M\<lparr>mm_params := f (mm_params M)\<rparr>"

subsection \<open>Calls of the matchers\<close>

definition mm_onCxlAck :: "fix_values \<Rightarrow> 'd sim_entry \<Rightarrow> order_sim \<Rightarrow> 'd sim_manager \<Rightarrow> 'd sim_manager" where
  "mm_onCxlAck V e ord M =
     (if \<not> so_internalCxl ord then M
      else if \<not> mm_getSession M (so_targetCompId ord) then M
      else mm_send (so_targetCompId ord)
        \<lparr>fm_type = ''8'', fm_fields =
          [(OrderID, FStr (so_exOrderId ord)), (ClOrdID, FStr (so_clOrderId ord)), (OrigClOrdID, FStr (so_origClOrderId ord)),
           (CorrelationClOrdID, FStr (so_corrClOrderId ord)), (FixSymbol, FStr (ins_symbol (se_instrument e))),
           (FixSide, FStr (if kBuy = so_side ord then fv_SideBuy V else fv_SideSell V)),
           (ExecType, FStr ''4''), (ExecTransType, FStr ''1''), (OrdStatus, FStr ''4'')]\<rparr> M)"

definition mm_onFill ::
    "('d::floor_ceiling) sim_entry \<Rightarrow> order_sim \<Rightarrow> ticks \<Rightarrow> size \<Rightarrow> eLiqInd \<Rightarrow> 'd sim_manager \<Rightarrow> 'd sim_manager" where
  "mm_onFill e ord price qty liq M =
     (if \<not> mm_getSession M (so_targetCompId ord) then M
      else
        (let fillType = (if tw_sub (tw_sub (so_qty ord) (so_cumQty ord)) qty > 0 then ''1'' else ''2'');
             execId = s32 (mm_execId M + 1)
         in mm_send (so_targetCompId ord)
              \<lparr>fm_type = ''8'', fm_fields =
                [(OrderID, FStr (so_exOrderId ord)), (ClOrdID, FStr (so_clOrderId ord)), (OrigClOrdID, FStr (so_origClOrderId ord)),
                 (CorrelationClOrdID, FStr (so_corrClOrderId ord)), (ExecType, FStr fillType), (ExecTransType, FStr ''0''),
                 (OrdStatus, FStr fillType), (LastShares, FInt qty), (LastPx, FDbl (tc_toExchangePrice (se_tc e) price)),
                 (ExecID, FInt execId), (ExecRefID, FInt execId)] @
                (case liq of kAdd \<Rightarrow> [(AggressorIndicator, FStr ''N'')] | kRem \<Rightarrow> [(AggressorIndicator, FStr ''Y'')] | _ \<Rightarrow> [])\<rparr>
              (M\<lparr>mm_execId := execId\<rparr>)))"

definition mm_onEvent :: "string \<Rightarrow> 'd sim_manager \<Rightarrow> 'd sim_manager" where
  "mm_onEvent name M = M\<lparr>mm_pipe := mm_pipe M @ [name]\<rparr>"

fun mm_event :: "fix_values \<Rightarrow> string \<Rightarrow> ('d::floor_ceiling) sim_entry \<Rightarrow> sim_event \<Rightarrow> 'd sim_manager \<Rightarrow> 'd sim_manager" where
  "mm_event V name e (EvNewAck p) M = M"
| "mm_event V name e (EvModAck p) M = M"
| "mm_event V name e (EvCxlAck p ord) M = mm_onCxlAck V e ord M"
| "mm_event V name e (EvFill p ord price qty liq) M = mm_onFill e ord price qty liq M"
| "mm_event V name e EvEvent M = mm_onEvent name M"

text \<open>An operation on the matcher of \<open>name\<close>: the new matcher is stored and its new events are delivered.\<close>

definition mm_deliver ::
    "fix_values \<Rightarrow> string \<Rightarrow> ('d::floor_ceiling) sim_entry \<Rightarrow> matcher \<Rightarrow> 'd sim_manager \<Rightarrow> 'd sim_manager" where
  "mm_deliver V name e mt M =
     fold (mm_event V name e) (drop (length (mt_events (se_matcher e))) (mt_events mt))
       (M\<lparr>mm_matchers := sm_assign (mm_matchers M) name (e\<lparr>se_matcher := mt\<rparr>)\<rparr>)"

subsection \<open>Answers\<close>

definition fix_first :: "'d fix_in \<Rightarrow> char" where
  "fix_first msg = (case fi_type msg of [] \<Rightarrow> CHR 0x00 | c # _ \<Rightarrow> c)"

definition mm_sendAck :: "'d fix_in \<Rightarrow> string \<Rightarrow> 'd sim_manager \<Rightarrow> 'd sim_manager" where
  "mm_sendAck msg sn M =
     (let t = fix_first msg;
          head_fields = [(ClOrdID, FStr (fi_get msg ClOrdID)), (OrigClOrdID, FStr (fi_get msg ClOrdID)),
                  (FixSymbol, FStr (fi_get msg FixSymbol)), (FixSide, FStr (fi_get msg FixSide))]
      in if t = CHR ''D''
         then mm_send sn \<lparr>fm_type = ''8'', fm_fields = head_fields @
                [(OrderID, FStr (fi_get msg ClOrdID)), (CorrelationClOrdID, FStr (fi_get msg ClOrdID)),
                 (ExecType, FStr ''0''), (ExecTransType, FStr ''0''), (OrdStatus, FStr ''0'')]\<rparr>
                (mm_tune (\<lambda>p. p\<lparr>sp_new_ack_seq_counter := s32 (sp_new_ack_seq_counter p + 1)\<rparr>) M)
         else if t = CHR ''G''
         then mm_send sn \<lparr>fm_type = ''8'', fm_fields = head_fields @
                [(OrderID, FStr (fi_get msg OrderID)), (CorrelationClOrdID, FStr (fi_get msg OrderID)),
                 (ExecType, FStr ''5''), (ExecTransType, FStr ''0''), (OrdStatus, FStr ''5''), (FixPrice, FStr (fi_get msg FixPrice))]\<rparr>
                (mm_tune (\<lambda>p. p\<lparr>sp_mod_ack_seq_counter := s32 (sp_mod_ack_seq_counter p + 1)\<rparr>) M)
         else if t = CHR ''F''
         then mm_send sn \<lparr>fm_type = ''8'', fm_fields = head_fields @
                [(OrderID, FStr (fi_get msg OrderID)), (CorrelationClOrdID, FStr (fi_get msg OrderID)),
                 (ExecType, FStr ''4''), (ExecTransType, FStr ''1''), (OrdStatus, FStr ''4'')]\<rparr>
                (mm_tune (\<lambda>p. p\<lparr>sp_cxl_ack_seq_counter := s32 (sp_cxl_ack_seq_counter p + 1)\<rparr>) M)
         else M)"

definition mm_sendRej :: "'d fix_in \<Rightarrow> string \<Rightarrow> string \<Rightarrow> 'd sim_manager \<Rightarrow> 'd sim_manager" where
  "mm_sendRej msg sn reason M =
     (let t = fix_first msg;
          cxl_fields = [(OrderID, FStr (fi_get msg OrderID)), (ClOrdID, FStr (fi_get msg OrigClOrdID)),
                  (OrigClOrdID, FStr (fi_get msg OrigClOrdID)), (CorrelationClOrdID, FStr (fi_get msg OrderID))];
          why = [(CxlRejReason, FStr ''Exchange_sim rej''), (FixText, FStr reason)]
      in if sp_rej_as_bussiness_rej (mm_params M)
         then mm_send sn \<lparr>fm_type = ''3'', fm_fields = [(LastMsgSeqNumProcessed, FInt (fi_seqNum msg)), (RefSeqNum, FInt (fi_seqNum msg))]\<rparr> M
         else if t = CHR ''D''
         then mm_tune (\<lambda>p. p\<lparr>sp_new_rej_seq_counter := s32 (sp_new_rej_seq_counter p + 1)\<rparr>)
                (mm_send sn \<lparr>fm_type = ''8'', fm_fields =
                  [(OrderID, FStr (fi_get msg ClOrdID)), (ClOrdID, FStr (fi_get msg ClOrdID)), (OrigClOrdID, FStr (fi_get msg ClOrdID)),
                   (CorrelationClOrdID, FStr (fi_get msg ClOrdID)), (ExecType, FStr ''8''), (ExecTransType, FStr ''1''),
                   (OrdStatus, FStr ''8''), (FixSymbol, FStr (fi_get msg FixSymbol)), (FixSide, FStr (fi_get msg FixSide)),
                   (OrdRejReason, FStr ''Exchange_sim rej''), (FixText, FStr reason)]\<rparr> M)
         else if t = CHR ''G''
         then mm_send sn \<lparr>fm_type = ''9'', fm_fields = cxl_fields @ [(CxlRejResponseTo, FStr ''2'')] @ why\<rparr>
                (mm_tune (\<lambda>p. p\<lparr>sp_mod_ack_seq_counter := s32 (sp_mod_ack_seq_counter p + 1)\<rparr>) M)
         else if t = CHR ''F''
         then mm_send sn \<lparr>fm_type = ''9'', fm_fields = cxl_fields @ [(CxlRejResponseTo, FStr ''1'')] @ why\<rparr>
                (mm_tune (\<lambda>p. p\<lparr>sp_cxl_ack_seq_counter := s32 (sp_cxl_ack_seq_counter p + 1)\<rparr>) M)
         else M)"

subsection \<open>Incoming messages\<close>

text \<open>
  The scripted rejects, once per kind of request: \<open>Inl\<close> when the message is rejected,
  otherwise the manager to go on with.
\<close>

definition mm_scripted_new :: "'d fix_in \<Rightarrow> string \<Rightarrow> 'd sim_manager \<Rightarrow> 'd sim_manager + 'd sim_manager" where
  "mm_scripted_new msg sn M =
     (let p = mm_params M in
      if sp_new_ack_seq_count p > -1 \<and> sp_new_rej_seq_count p > -1 \<and> sp_new_ack_seq_counter p > sp_new_ack_seq_count p
      then (if sp_new_rej_seq_counter p < sp_new_rej_seq_count p
            then Inl (mm_sendRej msg sn ''new_ack_seq_counter > new_ack_seq_count'' M)
            else Inr (mm_tune (\<lambda>p. p\<lparr>sp_new_ack_seq_count := 0, sp_new_rej_seq_count := 0\<rparr>) M))
      else Inr M)"

definition mm_scripted_mod :: "'d fix_in \<Rightarrow> string \<Rightarrow> 'd sim_manager \<Rightarrow> 'd sim_manager + 'd sim_manager" where
  "mm_scripted_mod msg sn M =
     (let p = mm_params M in
      if sp_mod_ack_seq_count p > -1 \<and> sp_mod_rej_seq_count p > -1 \<and> sp_mod_ack_seq_counter p > sp_mod_ack_seq_count p
      then (if sp_mod_rej_seq_counter p < sp_mod_rej_seq_count p
            then Inl (mm_sendRej msg sn ''mod_ack_seq_counter > mod_ack_seq_count'' M)
            else Inr (mm_tune (\<lambda>p. p\<lparr>sp_mod_ack_seq_count := 0, sp_mod_rej_seq_count := 0\<rparr>) M))
      else Inr M)"

definition mm_scripted_cxl :: "'d fix_in \<Rightarrow> string \<Rightarrow> 'd sim_manager \<Rightarrow> 'd sim_manager + 'd sim_manager" where
  "mm_scripted_cxl msg sn M =
     (let p = mm_params M in
      if sp_cxl_ack_seq_count p > -1 \<and> sp_cxl_rej_seq_count p > -1 \<and> sp_cxl_ack_seq_counter p > sp_cxl_ack_seq_count p
      then (if sp_cxl_rej_seq_counter p < sp_cxl_rej_seq_count p
            then Inl (mm_sendRej msg sn ''cxl_ack_seq_counter > cxl_ack_seq_count'' M)
            else Inr (mm_tune (\<lambda>p. p\<lparr>sp_cxl_ack_seq_count := 0, sp_cxl_rej_seq_count := 0\<rparr>) M))
      else Inr M)"

text \<open>The order of a new request; \<open>None\<close> when the quantity or the price cannot be read.\<close>

definition mm_order :: "fix_values \<Rightarrow> ('d::floor_ceiling) sim_entry \<Rightarrow> 'd fix_in \<Rightarrow> string \<Rightarrow> order_sim option" where
  "mm_order V e msg sn =
     (case (fi_getInteger msg OrderQty, fi_getDouble msg FixPrice) of
        (Some qty, Some price) \<Rightarrow>
          Some (sim_default\<lparr>so_type := kLimit, so_targetCompId := sn, so_clOrderId := fi_get msg ClOrdID,
            so_origClOrderId := fi_get msg ClOrdID, so_corrClOrderId := fi_get msg ClOrdID, so_qty := qty, so_cumQty := 0,
            so_price := tc_fromExchangePrice (se_tc e) price,
            so_side := (if fi_get msg FixSide = fv_SideBuy V then kBuy else kSell),
            so_timeInForce := (if fi_contain msg FixTimeInForce \<and> fi_get msg FixTimeInForce = fv_TimeInForceIOC V then kIOC
                               else kUnknownTimeInForce)\<rparr>)
      | _ \<Rightarrow> None)"

definition mm_onNew :: "fix_values \<Rightarrow> ('d::floor_ceiling) fix_in \<Rightarrow> string \<Rightarrow> 'd sim_manager \<Rightarrow> 'd sim_manager" where
  "mm_onNew V msg sn M =
     (case mm_getMatcher M (fi_get msg SecurityDesc) of
        None \<Rightarrow> mm_sendRej msg sn (''Invalid symbol: '' @ fi_get msg SecurityDesc) M
      | Some e \<Rightarrow>
          if fi_get msg OrdType \<noteq> fv_OrdTypeLimit V then mm_sendRej msg sn ''Accepting only limit orders'' M
          else
            (case mm_scripted_new msg sn M of
               Inl M1 \<Rightarrow> M1
             | Inr M1 \<Rightarrow>
                 (case mm_order V e msg sn of
                    None \<Rightarrow> M1
                  | Some ord \<Rightarrow>
                      (let (p, mt) = createOrder (se_matcher e)
                       in mm_deliver V (fi_get msg SecurityDesc) e (mt_sendNew p (mt_set p (\<lambda>_. ord) mt)) (mm_sendAck msg sn M1)))))"

definition mm_onModCxl :: "fix_values \<Rightarrow> ('d::floor_ceiling) fix_in \<Rightarrow> string \<Rightarrow> 'd sim_manager \<Rightarrow> 'd sim_manager" where
  "mm_onModCxl V msg sn M =
     (case mm_getMatcher M (fi_get msg SecurityDesc) of
        None \<Rightarrow> mm_sendRej msg sn (''Invalid symbol: '' @ fi_get msg SecurityDesc) M
      | Some e \<Rightarrow>
          (case (if fix_first msg = CHR ''G'' then mm_scripted_mod msg sn M else mm_scripted_cxl msg sn M) of
             Inl M1 \<Rightarrow> M1
           | Inr M1 \<Rightarrow>
               (case mt_getOrder (se_matcher e) (fi_get msg OrderID) of
                  None \<Rightarrow> mm_sendRej msg sn ''Order doesn't exist'' M1
                | Some p \<Rightarrow>
                    (let mt = mt_set p (\<lambda>ord. ord\<lparr>so_clOrderId := fi_get msg ClOrdID, so_origClOrderId := fi_get msg ClOrdID\<rparr>) (se_matcher e);
                         M2 = mm_sendAck msg sn M1; name = fi_get msg SecurityDesc
                     in if fix_first msg = CHR ''G''
                        then (case fi_getDouble msg FixPrice of
                                None \<Rightarrow> mm_deliver V name e mt M2
                              | Some price \<Rightarrow>
                                  mm_deliver V name e (mt_sendMod p (mt_set p (\<lambda>ord. ord\<lparr>so_newPrice := tc_fromExchangePrice (se_tc e) price\<rparr>) mt)) M2)
                        else mm_deliver V name e (mt_sendCxl p mt) M2))))"

definition mm_onInboundApplicationMsg ::
    "fix_values \<Rightarrow> ('d::floor_ceiling) fix_in \<Rightarrow> string \<Rightarrow> 'd sim_manager \<Rightarrow> 'd sim_manager" where
  "mm_onInboundApplicationMsg V msg sn M =
     (if fix_first msg = CHR ''D'' then mm_onNew V msg sn M
      else if fix_first msg = CHR ''G'' \<or> fix_first msg = CHR ''F'' then mm_onModCxl V msg sn M
      else M)"

text \<open>A quote for one of the instruments, delivered to its matcher by the price feed.\<close>

definition mm_onQuote :: "fix_values \<Rightarrow> string \<Rightarrow> ('d::floor_ceiling) quote \<Rightarrow> 'd sim_manager \<Rightarrow> 'd sim_manager option" where
  "mm_onQuote V name q M =
     (case mm_getMatcher M name of
        None \<Rightarrow> Some M
      | Some e \<Rightarrow> map_option (\<lambda>mt. mm_deliver V name e mt M) (mt_onQuote q (se_matcher e)))"

subsection \<open>Start\<close>

definition params_clear :: sim_params where
  "params_clear = \<lparr>sp_percentCancelFront = 0, sp_ack_delay_ms = 0, sp_rej_as_bussiness_rej = False, sp_new_ack_seq_count = 0,
     sp_new_rej_seq_count = 0, sp_mod_ack_seq_count = 0, sp_mod_rej_seq_count = 0, sp_cxl_ack_seq_count = 0,
     sp_cxl_rej_seq_count = 0, sp_new_ack_seq_counter = 0, sp_new_rej_seq_counter = 0, sp_mod_ack_seq_counter = 0,
     sp_mod_rej_seq_counter = 0, sp_cxl_ack_seq_counter = 0, sp_cxl_rej_seq_counter = 0\<rparr>"

definition mm_clear :: "'d sim_manager \<Rightarrow> 'd sim_manager" where
  "mm_clear M = M\<lparr>mm_matchers := [], mm_sessions := [], mm_connectionsSubs := [], mm_connectionsSubsIds := [], mm_params := params_clear\<rparr>"

definition new_matcher :: matcher where
  "new_matcher = mt_clear \<lparr>mt_heap = (\<lambda>_. sim_default), mt_next = 0, mt_bids = [], mt_asks = [], mt_ordersMap = [],
     mt_percentCancelFront = 0, mt_events = [], mt_ub = False\<rparr>"

text \<open>
  The matchers of \<open>start\<close>: the instruments of the exchange with their converters, and
  whether the price feed accepts the subscription. The first failure ends the start.
\<close>

fun mm_addMatchers ::
    "('d instrument \<Rightarrow> bool) \<Rightarrow> sim_params \<Rightarrow> ('d instrument \<times> converter) list \<Rightarrow> 'd sim_manager \<Rightarrow> bool \<times> 'd sim_manager" where
  "mm_addMatchers subscribe params [] M = (True, M)"
| "mm_addMatchers subscribe params ((i, tc) # is) M =
     (case mt_init (sp_percentCancelFront params) new_matcher of
        (False, _) \<Rightarrow> (False, M)
      | (True, mt) \<Rightarrow>
          if \<not> subscribe i then (False, M)
          else mm_addMatchers subscribe params is
                 (M\<lparr>mm_matchers := sm_put (mm_matchers M) (ins_displayName i) \<lparr>se_instrument = i, se_tc = tc, se_matcher = mt\<rparr>\<rparr>))"

definition mm_start ::
    "('d instrument \<Rightarrow> bool) \<Rightarrow> sim_params \<Rightarrow> ('d instrument \<times> converter) list \<Rightarrow> string list \<Rightarrow> 'd sim_manager \<Rightarrow> bool \<times> 'd sim_manager" where
  "mm_start subscribe params is targets M =
     (if is = [] then (False, M)
      else
        (case mm_addMatchers subscribe params is (M\<lparr>mm_params := params\<rparr>) of
           (False, M1) \<Rightarrow> (False, M1)
         | (True, M1) \<Rightarrow> (True, M1\<lparr>mm_sessions := mm_sessions M1 @ targets\<rparr>)))"

subsection \<open>Subscriptions to the books\<close>

text \<open>
  A connection is its address; \<open>cid\<close> is its \<open>id()\<close>. A command is what parsing
  gives: none, or whether its type is the simulator's, its display name if it has one, and
  whether it subscribes, unsubscribes or neither.
\<close>

datatype sub_kind = KSub | KUnsub | KOther

definition mm_onConnectionUp :: "nat \<Rightarrow> nat \<Rightarrow> 'd sim_manager \<Rightarrow> 'd sim_manager" where
  "mm_onConnectionUp i c M = M\<lparr>mm_connectionsSubsIds := sm_put (mm_connectionsSubsIds M) i c\<rparr>"

definition mm_onConnectionDown :: "(nat \<Rightarrow> nat) \<Rightarrow> nat \<Rightarrow> 'd sim_manager \<Rightarrow> 'd sim_manager" where
  "mm_onConnectionDown cid i M =
     M\<lparr>mm_connectionsSubsIds := sm_erase (mm_connectionsSubsIds M) i,
       mm_connectionsSubs := map (\<lambda>(k, cs). (k, filter (\<lambda>c. cid c \<noteq> i) cs)) (mm_connectionsSubs M)\<rparr>"

definition mm_onConnectionData :: "nat \<Rightarrow> (bool \<times> string option \<times> sub_kind) option \<Rightarrow> 'd sim_manager \<Rightarrow> 'd sim_manager" where
  "mm_onConnectionData i cmnd M =
     (case (sm_find (mm_connectionsSubsIds M) i, cmnd) of
        (Some c, Some (True, Some name, kind)) \<Rightarrow>
          if Option.is_none (mm_getMatcher M name) \<or> (sm_find (mm_connectionsSubs M) name = None \<and> kind = KUnsub) then M
          else
            (let subs = sm_insert (mm_connectionsSubs M) name [];
                 cs = (case sm_find subs name of None \<Rightarrow> [] | Some cs \<Rightarrow> cs)
             in M\<lparr>mm_connectionsSubs :=
                    (case kind of
                       KSub \<Rightarrow> if c \<in> set cs then subs else sm_assign subs name (cs @ [c])
                     | KUnsub \<Rightarrow> sm_assign subs name (remove1 c cs)
                     | KOther \<Rightarrow> subs)\<rparr>)
      | _ \<Rightarrow> M)"

definition mm_processSubs :: "('d sim_entry \<Rightarrow> string) \<Rightarrow> string \<Rightarrow> 'd sim_manager \<Rightarrow> 'd sim_manager" where
  "mm_processSubs show_book name M =
     (case (mm_getMatcher M name, sm_find (mm_connectionsSubs M) name) of
        (Some e, Some cs) \<Rightarrow> M\<lparr>mm_bus := mm_bus M @ map (\<lambda>c. (c, show_book e)) cs\<rparr>
      | _ \<Rightarrow> M)"

subsection \<open>Runs\<close>

datatype 'd sim_step = StepMsg "'d fix_in" string | StepQuote string "'d quote"

fun mm_step :: "fix_values \<Rightarrow> ('d::floor_ceiling) sim_step \<Rightarrow> 'd sim_manager \<Rightarrow> 'd sim_manager option" where
  "mm_step V (StepMsg msg sn) M = Some (mm_onInboundApplicationMsg V msg sn M)"
| "mm_step V (StepQuote name q) M = mm_onQuote V name q M"

text \<open>The client's part: the id of a new order is not empty and no open order of the instrument has it.\<close>

fun fresh_id :: "'d sim_step \<Rightarrow> 'd sim_manager \<Rightarrow> bool" where
  "fresh_id (StepMsg msg sn) M =
     (fix_first msg = CHR ''D'' \<longrightarrow> fi_get msg ClOrdID \<noteq> [] \<and>
        (case mm_getMatcher M (fi_get msg SecurityDesc) of None \<Rightarrow> True
         | Some e \<Rightarrow> mt_getOrder (se_matcher e) (fi_get msg ClOrdID) = None))"
| "fresh_id (StepQuote name q) M = True"

inductive mm_run :: "fix_values \<Rightarrow> ('d::floor_ceiling) sim_manager \<Rightarrow> 'd sim_manager \<Rightarrow> bool" for V M0 where
  start: "mm_run V M0 M0"
| step: "mm_run V M0 M \<Longrightarrow> fresh_id s M \<Longrightarrow> mm_step V s M = Some M1 \<Longrightarrow> mm_run V M0 M1"

subsection \<open>Every matcher stays well formed\<close>

definition mm_wf :: "'d sim_manager \<Rightarrow> bool" where
  "mm_wf M \<longleftrightarrow> (\<forall>e \<in> snd ` set (mm_matchers M). mt_wf (se_matcher e))"

lemma mm_wf_find: "mm_wf M \<Longrightarrow> mm_getMatcher M name = Some e \<Longrightarrow> mt_wf (se_matcher e)"
  by (force simp: mm_wf_def mm_getMatcher_def dest: sm_find_in_set)

lemma mm_event_matchers [simp]: "mm_matchers (mm_event V name e ev M) = mm_matchers M"
  by (cases ev) (simp_all add: mm_onCxlAck_def mm_onFill_def mm_onEvent_def mm_send_def Let_def)

lemma fold_event_matchers [simp]: "mm_matchers (fold (mm_event V name e) evs M) = mm_matchers M"
  by (induction evs arbitrary: M) simp_all

lemma answer_matchers [simp]:
  "mm_matchers (mm_sendAck msg sn M) = mm_matchers M" "mm_matchers (mm_sendRej msg sn why M) = mm_matchers M"
  "mm_matchers (mm_tune f M) = mm_matchers M"
  by (simp_all add: mm_sendAck_def mm_sendRej_def mm_send_def mm_tune_def Let_def)

lemma scripted_matchers:
  "mm_scripted_new msg sn M = Inl M1 \<or> mm_scripted_new msg sn M = Inr M1 \<Longrightarrow> mm_matchers M1 = mm_matchers M"
  "mm_scripted_mod msg sn M = Inl M1 \<or> mm_scripted_mod msg sn M = Inr M1 \<Longrightarrow> mm_matchers M1 = mm_matchers M"
  "mm_scripted_cxl msg sn M = Inl M1 \<or> mm_scripted_cxl msg sn M = Inr M1 \<Longrightarrow> mm_matchers M1 = mm_matchers M"
  by (auto simp: mm_scripted_new_def mm_scripted_mod_def mm_scripted_cxl_def Let_def split: if_splits)

lemma mm_wf_matchers: "mm_matchers M1 = mm_matchers M \<Longrightarrow> mm_wf M1 = mm_wf M"
  by (simp add: mm_wf_def)

lemma mm_wf_answer [simp]:
  "mm_wf (mm_sendAck msg sn M) = mm_wf M" "mm_wf (mm_sendRej msg sn why M) = mm_wf M"
  by (rule mm_wf_matchers, simp)+

lemma scripted_wf:
  assumes "mm_wf M"
  shows "mm_scripted_new msg sn M = Inl M1 \<or> mm_scripted_new msg sn M = Inr M1 \<Longrightarrow> mm_wf M1"
    "(if c then mm_scripted_mod msg sn M else mm_scripted_cxl msg sn M) = Inl M1 \<or>
     (if c then mm_scripted_mod msg sn M else mm_scripted_cxl msg sn M) = Inr M1 \<Longrightarrow> mm_wf M1"
  using assms scripted_matchers [of msg sn M M1] mm_wf_matchers [of M1 M] by (auto split: if_splits)

lemma mm_deliver_wf: "mm_wf M \<Longrightarrow> mt_wf mt \<Longrightarrow> mm_wf (mm_deliver V name e mt M)"
  using sm_assign_subset [of "mm_matchers M" name "e\<lparr>se_matcher := mt\<rparr>"] by (auto simp: mm_wf_def mm_deliver_def)

lemma createOrder_wf:
  assumes "mt_wf m" "createOrder m = (p, m1)"
  shows "mt_wf m1" "p \<notin> mt_ptrs m1" "p < mt_next m1" "mt_ordersMap m1 = mt_ordersMap m" "mt_heap m1 p = sim_default"
proof -
  have m1: "m1 = m\<lparr>mt_heap := (mt_heap m)(mt_next m := sim_default), mt_next := mt_next m + 1\<rparr>" "p = mt_next m"
    using assms(2) by (auto simp: createOrder_def)
  have s: "same_orders m m1" by (simp add: m1 same_orders_def)
  have l: "live m1 (mt_ptrs m)" by (rule live_same [OF mt_wf_live [OF assms(1)] s]) (simp_all add: m1)
  then show "mt_wf m1"
    using assms(1) level_ok_same [OF s] unfolding mt_wf_def by (simp add: m1 mt_ptrs_def)
  show "p \<notin> mt_ptrs m1" using liveD(3) [OF mt_wf_live [OF assms(1)]] by (auto simp: m1 mt_ptrs_def)
qed (use assms(2) in \<open>auto simp: createOrder_def\<close>)

text \<open>Client ids and the wanted price are no part of the invariant.\<close>

lemma mt_wf_set_ids:
  assumes "mt_wf m" "\<And>x. so_type (g x) = so_type x \<and> so_side (g x) = so_side x \<and> so_price (g x) = so_price x \<and> so_exOrderId (g x) = so_exOrderId x"
  shows "mt_wf (mt_set p g m)" "is_client (mt_set p g m) q = is_client m q"
proof -
  have c: "is_client (mt_set p g m) = is_client m" using assms(2) by (simp add: fun_eq_iff is_client_def)
  have "order_at sd (mt_set p g m) pr q = order_at sd m pr q" for sd pr q using assms(2) c by (simp add: order_at_def)
  moreover have "so_exOrderId (mt_heap (mt_set p g m) q) = so_exOrderId (mt_heap m q)" for q using assms(2) by simp
  then have "live (mt_set p g m) P = live m P" for P unfolding live_def by (simp only: c mt_set_fields(1-3))
  ultimately show "mt_wf (mt_set p g m)" using assms(1) unfolding mt_wf_def level_ok_def by simp
  show "is_client (mt_set p g m) q = is_client m q" by (simp add: c)
qed

lemma mm_onNew_wf:
  assumes "mm_wf M" "fi_get msg ClOrdID \<noteq> []"
    "\<And>e. mm_getMatcher M (fi_get msg SecurityDesc) = Some e \<Longrightarrow> mt_getOrder (se_matcher e) (fi_get msg ClOrdID) = None"
  shows "mm_wf (mm_onNew V msg sn M)"
proof -
  have "mt_wf (mt_sendNew p (mt_set p (\<lambda>_. ord) mt))"
    if e: "mm_getMatcher M (fi_get msg SecurityDesc) = Some e" and o: "mm_order V e msg sn = Some ord" and c: "createOrder (se_matcher e) = (p, mt)"
    for e ord p mt
  proof (rule mt_sendNew_wf)
    note w = createOrder_wf [OF mm_wf_find [OF assms(1) e] c]
    show "mt_wf (mt_set p (\<lambda>_. ord) mt)" using w(1,2) by (simp add: mt_wf_set)
    have "so_type ord = kLimit" "so_side ord \<in> {kBuy, kSell}" "so_clOrderId ord = fi_get msg ClOrdID"
      using o by (auto simp: mm_order_def split: option.splits if_splits)
    with w assms(2) assms(3) [OF e] show "new_request p (mt_set p (\<lambda>_. ord) mt)"
      by (simp add: new_request_def is_client_def mt_getOrder_def)
  qed
  with assms(1) show ?thesis unfolding mm_onNew_def
    by (auto split: option.splits sum.splits prod.splits intro!: mm_deliver_wf dest: scripted_wf(1) [OF assms(1), OF disjI1] scripted_wf(1) [OF assms(1), OF disjI2])
qed

lemma mm_onModCxl_wf:
  assumes "mm_wf M"
  shows "mm_wf (mm_onModCxl V msg sn M)"
proof -
  let ?ids = "\<lambda>ord. ord\<lparr>so_clOrderId := fi_get msg ClOrdID, so_origClOrderId := fi_get msg ClOrdID\<rparr>"
  have w: "mt_wf (mt_set p ?ids (se_matcher e)) \<and> mt_wf (mt_sendCxl p (mt_set p ?ids (se_matcher e))) \<and>
      mt_wf (mt_sendMod p (mt_set p (\<lambda>ord. ord\<lparr>so_newPrice := x\<rparr>) (mt_set p ?ids (se_matcher e))))"
    if e: "mm_getMatcher M (fi_get msg SecurityDesc) = Some e" and o: "mt_getOrder (se_matcher e) (fi_get msg OrderID) = Some p" for e p x
  proof -
    have wf: "mt_wf (se_matcher e)" by (rule mm_wf_find [OF assms e])
    have p: "p \<in> mt_ptrs (se_matcher e)" "is_client (se_matcher e) p"
      using o liveD(4) [OF mt_wf_live [OF wf]] by (auto simp: mt_getOrder_def)
    have "mt_wf (mt_set p ?ids (se_matcher e))" by (rule mt_wf_set_ids(1) [OF wf]) simp
    moreover from this have "mt_wf (mt_set p (\<lambda>ord. ord\<lparr>so_newPrice := x\<rparr>) (mt_set p ?ids (se_matcher e)))" by (rule mt_wf_set_ids(1)) simp
    ultimately show ?thesis using p mt_sendMod_wf mt_sendCxl_wf by (simp add: is_client_def)
  qed
  show ?thesis
  proof (cases "mm_getMatcher M (fi_get msg SecurityDesc)")
    case None
    with assms show ?thesis by (simp add: mm_onModCxl_def)
  next
    case (Some e)
    let ?s = "if fix_first msg = CHR ''G'' then mm_scripted_mod msg sn M else mm_scripted_cxl msg sn M"
    show ?thesis
    proof (cases ?s)
      case (Inl M1)
      with Some scripted_wf(2) [OF assms, OF disjI1, OF Inl] show ?thesis by (simp add: mm_onModCxl_def)
    next
      case (Inr M1)
      have M1: "mm_wf M1" by (rule scripted_wf(2) [OF assms, OF disjI2, OF Inr])
      show ?thesis
      proof (cases "mt_getOrder (se_matcher e) (fi_get msg OrderID)")
        case None
        with Some Inr M1 show ?thesis by (simp add: mm_onModCxl_def)
      next
        case p: (Some p)
        with Some Inr M1 w [OF Some p] show ?thesis
          by (auto simp: mm_onModCxl_def Let_def intro!: mm_deliver_wf split: option.splits)
      qed
    qed
  qed
qed

lemma mm_step_wf: "mm_wf M \<Longrightarrow> fresh_id s M \<Longrightarrow> mm_step V s M = Some M1 \<Longrightarrow> mm_wf M1"
proof (cases s)
  case (StepMsg msg sn)
  assume "mm_wf M" "fresh_id s M" "mm_step V s M = Some M1"
  with StepMsg mm_onNew_wf [of M msg V sn] mm_onModCxl_wf [of M V msg sn] show ?thesis
    by (auto simp: mm_onInboundApplicationMsg_def split: if_splits option.splits)
next
  case (StepQuote name q)
  assume "mm_wf M" "mm_step V s M = Some M1"
  with StepQuote mt_onQuote_wf mm_wf_find show ?thesis
    by (fastforce simp: mm_onQuote_def split: option.splits intro: mm_deliver_wf)
qed

lemma new_matcher_wf: "mt_init n new_matcher = (True, mt) \<Longrightarrow> mt_wf mt"
  by (auto simp: mt_init_def new_matcher_def mt_clear_def mt_wf_def mt_ptrs_def live_def sm_find_def split: if_splits)

lemma sm_put_subset: "set (sm_put m k v) \<subseteq> insert (k, v) (set m)"
  unfolding sm_put_def using sm_assign_subset [of "sm_insert m k v" k v] sm_insert_subset [of m k v] by blast

lemma mm_addMatchers_wf: "mm_wf M \<Longrightarrow> mm_addMatchers subscribe params is M = (ok, M1) \<Longrightarrow> mm_wf M1"
proof (induction subscribe params "is" M rule: mm_addMatchers.induct)
  case (2 subscribe params i tc "is" M)
  have "mm_wf (M\<lparr>mm_matchers := sm_put (mm_matchers M) (ins_displayName i) \<lparr>se_instrument = i, se_tc = tc, se_matcher = mt\<rparr>\<rparr>)"
    if "mt_init (sp_percentCancelFront params) new_matcher = (True, mt)" for mt
    using "2.prems"(1) new_matcher_wf [OF that] sm_put_subset [of "mm_matchers M"] by (fastforce simp: mm_wf_def)
  with 2 show ?case by (auto split: prod.splits bool.splits if_splits)
qed simp

text \<open>
  C3: in every run of the simulated exchange, from its start through any sequence of quotes, new,
  modify and cancel messages whose new orders carry ids not in use, the books of every matcher
  stay strictly in price order, the map of open orders holds exactly the client orders of the
  books, no order is twice in the books, and no end iterator is erased.
\<close>

theorem exchange_stays_well_formed:
  assumes "mm_start subscribe params is targets (mm_clear M) = (True, M0)" "mm_run V M0 M1" "mm_getMatcher M1 name = Some e"
  shows "mt_wf (se_matcher e) \<and> \<not> mt_ub (se_matcher e)"
proof -
  have "mm_wf M0" using assms(1) mm_addMatchers_wf [of "(mm_clear M)\<lparr>mm_params := params\<rparr>" subscribe params "is"]
    by (auto simp: mm_start_def mm_clear_def mm_wf_def split: if_splits prod.splits bool.splits)
  with assms(2) have "mm_wf M1" by (induction rule: mm_run.induct) (auto intro: mm_step_wf)
  from mm_wf_find [OF this assms(3)] show ?thesis using liveD(1) mt_wf_live by blast
qed

subsection \<open>Examples\<close>

definition ex_values :: fix_values where
  "ex_values = \<lparr>fv_OrdTypeLimit = ''2'', fv_SideBuy = ''1'', fv_SideSell = ''2'', fv_TimeInForceIOC = ''3''\<rparr>"

definition ex_instr :: "rat instrument" where
  "ex_instr = instrument_clear\<lparr>ins_displayName := ''ES'', ins_symbol := ''ES'', ins_contractSize := 1, ins_tickNumerator := 1,
     ins_tickDenominator := 1, ins_instrType := kFuture\<rparr>"

definition ex_params :: sim_params where
  "ex_params = params_clear\<lparr>sp_percentCancelFront := 20, sp_new_ack_seq_count := - 1, sp_mod_ack_seq_count := - 1, sp_cxl_ack_seq_count := - 1\<rparr>"

definition ex_manager :: "rat sim_manager" where
  "ex_manager = \<lparr>mm_matchers = [], mm_sessions = [], mm_params = params_clear, mm_execId = 0, mm_pipe = [], mm_connectionsSubs = [],
     mm_connectionsSubsIds = [], mm_out = [], mm_bus = []\<rparr>"

definition ex_started :: "rat sim_manager" where
  "ex_started = snd (mm_start (\<lambda>_. True) ex_params [(ex_instr, ConverterNull)] [''C''] (mm_clear ex_manager))"

definition ex_new :: "string \<Rightarrow> string \<Rightarrow> int \<Rightarrow> rat \<Rightarrow> rat fix_in" where
  "ex_new k side qty price = \<lparr>fi_type = ''D'', fi_get = (\<lambda>t. case t of SecurityDesc \<Rightarrow> ''ES'' | OrdType \<Rightarrow> ''2'' | ClOrdID \<Rightarrow> k
     | FixSide \<Rightarrow> side | _ \<Rightarrow> []), fi_contain = (\<lambda>_. False), fi_getInteger = (\<lambda>_. Some qty), fi_getDouble = (\<lambda>_. Some price), fi_seqNum = 1\<rparr>"

theorem exchange_stays_well_formed_witness:
  "\<exists>e. mm_getMatcher (mm_onInboundApplicationMsg ex_values (ex_new ''a'' ''2'' 5 100) ''C'' ex_started) ''ES'' = Some e \<and>
     mt_wf (se_matcher e) \<and> mt_abs (se_matcher e) = ([], [(0, 100, 5)])"
proof -
  let ?s = "StepMsg (ex_new ''a'' ''2'' 5 100) ''C''"
  let ?M = "mm_onInboundApplicationMsg ex_values (ex_new ''a'' ''2'' 5 100) ''C'' ex_started"
  have "fst (mm_start (\<lambda>_. True) ex_params [(ex_instr, ConverterNull)] [''C''] (mm_clear ex_manager)) = True" by code_simp
  then have s: "mm_start (\<lambda>_. True) ex_params [(ex_instr, ConverterNull)] [''C''] (mm_clear ex_manager) = (True, ex_started)"
    unfolding ex_started_def by (metis prod.collapse)
  have "fresh_id ?s ex_started" by code_simp
  then have run: "mm_run ex_values ex_started ?M" by (rule mm_run.step [OF mm_run.start]) simp
  have "mm_getMatcher ?M ''ES'' \<noteq> None \<and> mt_abs (se_matcher (the (mm_getMatcher ?M ''ES''))) = ([], [(0, 100, 5)])" by code_simp
  then obtain e where "mm_getMatcher ?M ''ES'' = Some e" "mt_abs (se_matcher e) = ([], [(0, 100, 5)])" by auto
  with exchange_stays_well_formed [OF s run] show ?thesis by blast
qed

definition ex_trade :: "size \<Rightarrow> rat quote" where
  "ex_trade sz = setTrade 100 sz (q_clear 0 \<lparr>q_seqNum = 0, q_numTrades = 0, q_numBooks = 0, q_instrumentId = 0, q_status = kSuccess,
     q_open = 0, q_high = 0, q_low = 0, q_flag = 0, q_trade = trade_clear, q_book = [], q_intSeqNum = 0, q_intGaps = 0,
     q_exTimestamp = 0, q_timestamp1 = 0, q_timestamp2 = 0, q_timestamp3 = 0, q_timestamp4 = 0, q_lastUpdate = 0,
     q_instrument = None\<rparr>)\<lparr>q_instrument := Some ex_instr\<rparr>"

text \<open>
  The manager does not check the id of a new order. Two open orders with one id share one
  entry of the map; when a trade fills both, the second removal erases the end iterator of the
  map, which is undefined.
\<close>

theorem duplicate_id_undefined:
  "\<exists>M e. mm_onQuote ex_values ''ES'' (ex_trade 10)
      (mm_onInboundApplicationMsg ex_values (ex_new ''a'' ''2'' 5 100) ''C''
        (mm_onInboundApplicationMsg ex_values (ex_new ''a'' ''2'' 5 100) ''C'' ex_started)) = Some M \<and>
     mm_getMatcher M ''ES'' = Some e \<and> mt_ub (se_matcher e)"
proof -
  let ?r = "mm_onQuote ex_values ''ES'' (ex_trade 10)
      (mm_onInboundApplicationMsg ex_values (ex_new ''a'' ''2'' 5 100) ''C''
        (mm_onInboundApplicationMsg ex_values (ex_new ''a'' ''2'' 5 100) ''C'' ex_started))"
  have "case ?r of None \<Rightarrow> False | Some M \<Rightarrow> (case mm_getMatcher M ''ES'' of None \<Rightarrow> False | Some e \<Rightarrow> mt_ub (se_matcher e))" by code_simp
  then show ?thesis by (auto split: option.splits)
qed

subsection \<open>Scripted rejects\<close>

definition mod_blocked :: "'d sim_manager \<Rightarrow> bool" where
  "mod_blocked M \<longleftrightarrow> sp_mod_ack_seq_count (mm_params M) > -1 \<and> sp_mod_rej_seq_counter (mm_params M) < sp_mod_rej_seq_count (mm_params M) \<and>
     sp_mod_ack_seq_counter (mm_params M) > sp_mod_ack_seq_count (mm_params M) \<and> sp_mod_rej_seq_counter (mm_params M) \<ge> 0 \<and>
     \<not> sp_rej_as_bussiness_rej (mm_params M)"

text \<open>
  The scripted rejects of modifies do not end: a reject counts as an acknowledgement and not
  as a reject, so once the script starts to reject, every later modify is rejected, however many
  rejects were asked for (as long as the counter does not overflow).
\<close>

theorem mod_rejects_never_end:
  assumes "mod_blocked M" "\<forall>msg \<in> set msgs. fi_type msg = ''G'' \<and> mm_getMatcher M (fi_get msg SecurityDesc) \<noteq> None"
    "sp_mod_ack_seq_counter (mm_params M) + int (length msgs) \<le> INT32_MAX"
    "M1 = fold (\<lambda>msg. mm_onInboundApplicationMsg V msg sn) msgs M"
  shows "mod_blocked M1 \<and> mm_matchers M1 = mm_matchers M \<and>
    (\<exists>out. mm_out M1 = mm_out M @ out \<and> length out = length msgs \<and> (\<forall>x \<in> set out. fst x = sn \<and> fm_type (snd x) = ''9''))"
  using assms
proof (induction msgs arbitrary: M)
  case (Cons msg msgs)
  let ?M = "mm_onInboundApplicationMsg V msg sn M"
  obtain e where e: "mm_getMatcher M (fi_get msg SecurityDesc) = Some e" and g: "fi_type msg = ''G''" using Cons.prems(2) by auto
  have r: "?M = mm_sendRej msg sn ''mod_ack_seq_counter > mod_ack_seq_count'' M"
    using e g Cons.prems(1) by (simp add: mm_onInboundApplicationMsg_def mm_onModCxl_def mm_scripted_mod_def fix_first_def mod_blocked_def Let_def)
  have c: "s32 (sp_mod_ack_seq_counter (mm_params M) + 1) = sp_mod_ack_seq_counter (mm_params M) + 1"
    using Cons.prems(1,3) by (intro s32_exact) (auto simp: in_s32_iff INT32_MAX_def mod_blocked_def)
  obtain f where out: "mm_out ?M = mm_out M @ [(sn, f)]" "fm_type f = ''9''"
    using g Cons.prems(1) by (simp add: r mm_sendRej_def fix_first_def mod_blocked_def mm_send_def mm_tune_def Let_def)
  have "mod_blocked M1 \<and> mm_matchers M1 = mm_matchers ?M \<and>
      (\<exists>out. mm_out M1 = mm_out ?M @ out \<and> length out = length msgs \<and> (\<forall>x \<in> set out. fst x = sn \<and> fm_type (snd x) = ''9''))"
  proof (rule Cons.IH)
    show "mod_blocked ?M" "sp_mod_ack_seq_counter (mm_params ?M) + int (length msgs) \<le> INT32_MAX"
      using g c Cons.prems(1,3) by (simp_all add: r mm_sendRej_def fix_first_def mod_blocked_def mm_send_def mm_tune_def Let_def)
    show "\<forall>msg \<in> set msgs. fi_type msg = ''G'' \<and> mm_getMatcher ?M (fi_get msg SecurityDesc) \<noteq> None"
      using Cons.prems(2) by (simp add: r mm_getMatcher_def)
    show "M1 = fold (\<lambda>msg. mm_onInboundApplicationMsg V msg sn) msgs ?M" using Cons.prems(4) by simp
  qed
  then obtain rest where rest: "mod_blocked M1" "mm_matchers M1 = mm_matchers ?M" "mm_out M1 = mm_out ?M @ rest"
    "length rest = length msgs" "\<forall>x \<in> set rest. fst x = sn \<and> fm_type (snd x) = ''9''" by blast
  with out r show ?case by (intro conjI exI [of _ "(sn, f) # rest"]) simp_all
qed simp

definition ex_mod :: "rat fix_in" where
  "ex_mod = (ex_new ''b'' ''2'' 5 101)\<lparr>fi_type := ''G''\<rparr>"

definition ex_scripted :: "rat sim_manager" where
  "ex_scripted = mm_tune (\<lambda>p. p\<lparr>sp_mod_ack_seq_count := 0, sp_mod_rej_seq_count := 1, sp_mod_ack_seq_counter := 1\<rparr>) ex_started"

theorem mod_rejects_never_end_witness:
  "mod_blocked (fold (\<lambda>msg. mm_onInboundApplicationMsg ex_values msg ''C'') (replicate 3 ex_mod) ex_scripted)"
proof -
  have "mod_blocked ex_scripted" "\<forall>msg \<in> set (replicate 3 ex_mod). fi_type msg = ''G'' \<and> mm_getMatcher ex_scripted (fi_get msg SecurityDesc) \<noteq> None"
    "sp_mod_ack_seq_counter (mm_params ex_scripted) + int (length (replicate 3 ex_mod)) \<le> INT32_MAX"
  proof -
    show "mod_blocked ex_scripted" by code_simp
    have "fi_type ex_mod = ''G'' \<and> mm_getMatcher ex_scripted (fi_get ex_mod SecurityDesc) \<noteq> None" by code_simp
    then show "\<forall>msg \<in> set (replicate 3 ex_mod). fi_type msg = ''G'' \<and> mm_getMatcher ex_scripted (fi_get msg SecurityDesc) \<noteq> None" by simp
    have "sp_mod_ack_seq_counter (mm_params ex_scripted) = 1" by code_simp
    then show "sp_mod_ack_seq_counter (mm_params ex_scripted) + int (length (replicate 3 ex_mod)) \<le> INT32_MAX" by (simp add: INT32_MAX_def)
  qed
  from mod_rejects_never_end [OF this refl] show ?thesis by blast
qed

end
