(* ===== verification/Atr.thy ===== *)
theory Atr
  imports Quote TicksConverter
begin

section \<open>Average true range (common\_trade/atr.h)\<close>

text \<open>
  A queue of at most \<open>size\<close> ranges and their average, computed when it is asked for. The
  number of periods is a 16-bit integer. \<open>getAtr\<close> returns the new object and the value.
  The average is a quotient of doubles; doubles are an ordered field with floor.
\<close>

record 'd atr =
  at_atr :: 'd
  at_size :: "16 word"
  at_ranges :: "ticks list"
  at_dirty :: bool

definition at_clear :: "('d::zero) atr" where
  "at_clear = \<lparr>at_atr = 0, at_size = 0, at_ranges = [], at_dirty = False\<rparr>"

text \<open>\<open>std::accumulate\<close> uses \<open>operator+\<close>, so one invalid range makes the sum invalid.\<close>

definition at_recalculate :: "('d::floor_ceiling) atr \<Rightarrow> 'd atr" where
  "at_recalculate a =
     (if at_ranges a = [] then a\<lparr>at_atr := 0\<rparr>
      else a\<lparr>at_atr := of_int (foldl tw_add 0 (at_ranges a)) / of_nat (length (at_ranges a))\<rparr>)"

definition setNumOfPeriods :: "16 word \<Rightarrow> ('d::floor_ceiling) atr \<Rightarrow> 'd atr" where
  "setNumOfPeriods n a =
     (if n = 0 then a
      else (let a1 = (if length (at_ranges a) > unat n
                      then at_recalculate (a\<lparr>at_ranges := drop (length (at_ranges a) - unat n) (at_ranges a)\<rparr>)
                      else a)
            in a1\<lparr>at_size := n\<rparr>))"

definition getAtr :: "('d::floor_ceiling) atr \<Rightarrow> 'd atr \<times> 'd" where
  "getAtr a = (let a1 = (if at_dirty a then at_recalculate a else a) in (a1, at_atr a1))"

definition addRange :: "ticks \<Rightarrow> ('d::floor_ceiling) atr \<Rightarrow> 'd atr" where
  "addRange r a =
     (if at_size a = 0 then a
      else (let rs = (if unat (at_size a) = length (at_ranges a) then tl (at_ranges a) else at_ranges a)
            in a\<lparr>at_ranges := rs @ [r], at_dirty := True\<rparr>))"

subsection \<open>The queue is the window of the last ranges\<close>

definition last_n :: "nat \<Rightarrow> 'a list \<Rightarrow> 'a list" where
  "last_n n xs = drop (length xs - n) xs"

lemma last_n_snoc: "0 < n \<Longrightarrow> last_n n (xs @ [x]) = (if n \<le> length (last_n n xs) then tl (last_n n xs) else last_n n xs) @ [x]"
  by (auto simp: last_n_def tl_drop Suc_diff_le drop_Suc [symmetric])

lemma length_last_n: "length (last_n n xs) = min n (length xs)"
  by (simp add: last_n_def)

definition mean_ticks :: "ticks list \<Rightarrow> 'd::floor_ceiling" where
  "mean_ticks rs = (if rs = [] then 0 else of_int (foldl tw_add 0 rs) / of_nat (length rs))"

definition window :: "16 word \<Rightarrow> ticks list \<Rightarrow> ('d::floor_ceiling) atr" where
  "window n rs = fold addRange rs (setNumOfPeriods n at_clear)"

lemma window_ranges:
  assumes "n \<noteq> 0"
  shows "at_size (window n rs :: 'd::floor_ceiling atr) = n \<and>
    at_ranges (window n rs :: 'd atr) = last_n (unat n) rs \<and> at_dirty (window n rs :: 'd atr) = (rs \<noteq> []) \<and>
    at_atr (window n rs :: 'd atr) = 0"
proof (induction rs rule: rev_induct)
  case Nil
  then show ?case using assms by (simp add: window_def setNumOfPeriods_def at_clear_def last_n_def)
next
  case (snoc r rs)
  have "window n (rs @ [r]) = addRange r (window n rs :: 'd atr)" by (simp add: window_def)
  moreover have "0 < unat n" using assms by (simp add: unat_gt_0)
  ultimately show ?case
    using snoc assms by (auto simp: addRange_def Let_def last_n_snoc length_last_n)
qed

lemma getAtr_window:
  assumes "n \<noteq> 0"
  shows "snd (getAtr (window n rs :: 'd::floor_ceiling atr)) = mean_ticks (last_n (unat n) rs)"
  using window_ranges [OF assms, of rs, where 'd = 'd] assms
  by (cases "rs = []") (auto simp: getAtr_def at_recalculate_def mean_ticks_def Let_def last_n_def unat_gt_0)

lemma foldl_tw_add_exact:
  assumes "\<And>r. r \<in> set rs \<Longrightarrow> 0 \<le> r" and "0 \<le> s" and "s + sum_list rs \<le> INT32_MAX"
  shows "foldl tw_add s rs = s + sum_list rs"
  using assms
proof (induction rs arbitrary: s)
  case (Cons r rs)
  have nn: "0 \<le> sum_list rs" using Cons.prems(1) by (intro sum_list_nonneg) auto
  have r: "0 \<le> r" using Cons.prems(1) by simp
  have "tw_add s r = s + r"
    using Cons.prems(2,3) nn r by (intro tw_exact(1)) (auto simp: tw_ok_iff in_s32_iff INT32_MAX_def)
  then show ?case using Cons.IH [of "s + r"] Cons.prems r by (simp add: algebra_simps)
qed simp

end
