(* ===== verification/Bars.thy ===== *)
theory Bars
  imports Atr
begin

section \<open>Bars and bar patterns (common\_trade/bars\_manager.h, xml/bars.xml)\<close>

text \<open>
  A bar summarises the trades of one interval; three detectors turn the sequence of bars into
  patterns (swings, hitches, trends). Bars and patterns share the fields of \<open>HLOCInfo\<close>; copying
  that part of one into the other is \<open>hloc.truncate\<close>. Vectors are lists, positions
  (\<open>_index\<close>, \<open>_firstBarIndex\<close> and the like) are natural numbers counted from 1 as in
  the code. An access outside a vector, a null instrument and the use of a reference into a vector
  that was moved are undefined, which is \<open>None\<close>.
\<close>

datatype ePatternType = kUnknownPattern | kTransitional | kHitch | kSwing | kTrend
datatype ePatternDir = kUnknownDir | kUp | kDown
datatype ePatternsType = kUnknownPatterns | kSimple | kSwingLevel1 | kSwingLevel2

record 'd hloc =
  hl_index :: nat
  hl_source :: string
  hl_displayName :: string
  hl_exchange :: eExchange
  hl_high :: ticks
  hl_low :: ticks
  hl_open :: ticks
  hl_close :: ticks
  hl_range :: ticks
  hl_volume :: size
  hl_numOfTrades :: u32
  hl_dir :: ePatternDir
  hl_duration :: u32
  hl_open_timestamp :: int
  hl_instrument :: "'d instrument option"

record price_trades =
  pti_price :: ticks
  pti_volBid :: size
  pti_volAsk :: size

type_synonym trades = "(int, price_trades) stdmap"

record 'd bar = "'d hloc" +
  br_volBid :: size
  br_volAsk :: size
  br_atrNumOfPeriods :: u32
  br_atr :: 'd
  br_formed :: bool
  br_trades :: trades

record 'd pattern = "'d hloc" +
  pt_type :: ePatternType
  pt_parentType :: ePatternsType
  pt_firstBarIndex :: nat
  pt_lastBarIndex :: nat
  pt_highBarIndex :: nat
  pt_lowBarIndex :: nat
  pt_simpleHitchMaxBars :: int
  pt_isDirty :: bool
  pt_simpleHitchCount :: int
  pt_simpleSwingLastBarIndex :: nat
  pt_trendSwingIndexes :: "nat list"
  pt_counterTrendSwingIndexes :: "nat list"

definition hloc_clear :: "('d::zero) hloc" where
  "hloc_clear = \<lparr>hl_index = 0, hl_source = [], hl_displayName = [], hl_exchange = kUnknownExchange,
     hl_high = invalid_ticks, hl_low = invalid_ticks, hl_open = invalid_ticks, hl_close = invalid_ticks,
     hl_range = invalid_ticks, hl_volume = 0, hl_numOfTrades = 0, hl_dir = kUnknownDir, hl_duration = 0,
     hl_open_timestamp = 0, hl_instrument = None\<rparr>"

definition price_trades_clear :: price_trades where
  "price_trades_clear = \<lparr>pti_price = invalid_ticks, pti_volBid = 0, pti_volAsk = 0\<rparr>"

definition bar_clear :: "('d::zero) bar" where
  "bar_clear = hloc.extend hloc_clear (bar.fields 0 0 0 0 False [])"

definition pattern_clear :: "('d::zero) pattern" where
  "pattern_clear = hloc.extend hloc_clear
     (pattern.fields kUnknownPattern kUnknownPatterns 0 0 0 0 0 False 0 0 [] [])"

definition isHLOCValid :: "('d, 'a) hloc_scheme \<Rightarrow> bool" where
  "isHLOCValid x \<longleftrightarrow> tw_isValid (hl_high x) \<and> tw_isValid (hl_low x) \<and> tw_isValid (hl_open x) \<and>
     tw_isValid (hl_close x) \<and> tw_isValid (hl_range x)"

subsection \<open>The average range of a sequence of bars\<close>

text \<open>The reverse iteration: \<open>rs\<close> are the bars from the current one backwards.\<close>

fun atr_scan :: "nat \<Rightarrow> ('d::floor_ceiling) bar list \<Rightarrow> 'd atr \<Rightarrow> 'd atr" where
  "atr_scan 0 rs a = a"
| "atr_scan (Suc i) [] a = a"
| "atr_scan (Suc i) (b # rs) a =
     atr_scan i rs
       (if tw_isValid (hl_range b)
        then (case rs of
                [] \<Rightarrow> addRange (hl_range b) a
              | prev # _ \<Rightarrow>
                  if \<not> tw_isValid (hl_range prev) then addRange (hl_range b) a
                  else (let high = (if hl_high b > hl_close prev then hl_high b else hl_close prev);
                            low = (if hl_low b < hl_close prev then hl_low b else hl_close prev)
                        in addRange (tw_sub high low) a))
        else a)"

text \<open>The number of periods loses its high half on the way into \<open>setNumOfPeriods\<close>.\<close>

definition calculateAtr ::
    "('d::floor_ceiling) bar list \<Rightarrow> u32 \<Rightarrow> bool \<Rightarrow> ('d bar list \<times> 'd) option" where
  "calculateAtr bars n updateLastBar =
     (if n = 0 then Some (bars, 0)
      else (let rs = rev bars;
                rs1 = (if \<not> updateLastBar \<and> rs \<noteq> [] \<and> \<not> br_formed (hd rs) then tl rs else rs);
                v = snd (getAtr (atr_scan (unat n) rs1 (setNumOfPeriods (ucast n) at_clear)))
            in if updateLastBar
               then (if bars = [] then None
                     else Some (butlast bars @ [(last bars)\<lparr>br_atrNumOfPeriods := n, br_atr := v\<rparr>], v))
               else Some (bars, v)))"

subsection \<open>Trades into a bar\<close>

definition updateTrade :: "'d quote \<Rightarrow> size \<times> size \<Rightarrow> size \<times> size" where
  "updateTrade q v =
     (let (volBid, volAsk) = v; t = q_trade q; bid = (size_add_eq volBid (ps_size t), volAsk);
          ask = (volBid, size_add_eq volAsk (ps_size t)) in
      case tr_aggressorSide t of
        kAggressorSideBuy \<Rightarrow> ask
      | kAggressorSideSell \<Rightarrow> bid
      | _ \<Rightarrow> if ps_price t \<le> ps_price (pl_bid (q_book q ! 0)) then bid
             else if ps_price t \<ge> ps_price (pl_ask (q_book q ! 0)) then ask
             else (volBid, volAsk))"

definition updateTradesMaps :: "'d quote \<Rightarrow> trades \<Rightarrow> trades" where
  "updateTradesMaps q ts =
     (let p = ps_price (q_trade q);
          (ts1, x) = sm_get_or_create ts p (price_trades_clear\<lparr>pti_price := p\<rparr>);
          (vb, va) = updateTrade q (pti_volBid x, pti_volAsk x)
      in sm_assign ts1 p (x\<lparr>pti_volBid := vb, pti_volAsk := va\<rparr>))"

definition updateTrades :: "'d quote \<Rightarrow> 'd bar \<Rightarrow> 'd bar" where
  "updateTrades q b =
     (let (vb, va) = updateTrade q (br_volBid b, br_volAsk b)
      in b\<lparr>br_volBid := vb, br_volAsk := va, br_trades := updateTradesMaps q (br_trades b)\<rparr>)"

definition bar_takes :: "'d quote \<Rightarrow> bool" where
  "bar_takes q \<longleftrightarrow> q_status q = kSuccess \<and> isNormalTrade q"

definition bar_hloc :: "ticks \<Rightarrow> size \<Rightarrow> ('d, 'a) hloc_scheme \<Rightarrow> ('d, 'a) hloc_scheme" where
  "bar_hloc p sz b =
     (let b1 = b\<lparr>hl_numOfTrades := hl_numOfTrades b + 1\<rparr>;
          b2 = (if hl_numOfTrades b1 = 1 then b1\<lparr>hl_high := p, hl_low := p, hl_open := p\<rparr>
                else if p > hl_high b1 then b1\<lparr>hl_high := p\<rparr>
                else if p < hl_low b1 then b1\<lparr>hl_low := p\<rparr> else b1)
      in b2\<lparr>hl_close := p, hl_volume := size_add_eq (hl_volume b2) sz, hl_range := tw_sub (hl_high b2) (hl_low b2),
            hl_dir := (if p > hl_open b2 then kUp else if p < hl_open b2 then kDown else kUnknownDir)\<rparr>)"

definition bar_onQuote :: "'d quote \<Rightarrow> 'd bar \<Rightarrow> bool \<times> 'd bar" where
  "bar_onQuote q b =
     (if \<not> bar_takes q then (False, b)
      else (True, updateTrades q (bar_hloc (ps_price (q_trade q)) (ps_size (q_trade q)) b)))"

subsection \<open>Patterns\<close>

record 'd bar_patterns =
  bp_type :: ePatternsType
  bp_instrumentsPatterns :: "(instr_id, 'd pattern list) stdmap"
  bp_instrumentsPatternsDynamic :: "(instr_id, 'd pattern list) stdmap"

definition bp_new :: "ePatternsType \<Rightarrow> 'd bar_patterns" where
  "bp_new ty = \<lparr>bp_type = ty, bp_instrumentsPatterns = [], bp_instrumentsPatternsDynamic = []\<rparr>"

definition bp_clear :: "'d bar_patterns \<Rightarrow> 'd bar_patterns" where
  "bp_clear b = b\<lparr>bp_instrumentsPatterns := [], bp_instrumentsPatternsDynamic := []\<rparr>"

definition getBarPatterns :: "'d bar_patterns \<Rightarrow> instr_id \<Rightarrow> 'd pattern list" where
  "getBarPatterns b x = (case sm_find (bp_instrumentsPatterns b) x of None \<Rightarrow> [] | Some ps \<Rightarrow> ps)"

definition getBarPatternsDynamic :: "'d bar_patterns \<Rightarrow> instr_id \<Rightarrow> 'd pattern list" where
  "getBarPatternsDynamic b x = (case sm_find (bp_instrumentsPatternsDynamic b) x of None \<Rightarrow> [] | Some ps \<Rightarrow> ps)"

definition getPatternDir :: "('d, 'a) hloc_scheme \<Rightarrow> ePatternDir" where
  "getPatternDir h = (if hl_open h < hl_close h then kUp else if hl_open h > hl_close h then kDown else kUnknownDir)"

definition addPattern ::
    "ePatternsType \<Rightarrow> ePatternType \<Rightarrow> ('d::zero, 'a) hloc_scheme \<Rightarrow> nat \<Rightarrow> 'd pattern list \<Rightarrow> 'd pattern list" where
  "addPattern parent ty h index ps =
     (if \<not> isHLOCValid h then ps
      else ps @ [(hloc.extend (hloc.truncate h) (hloc.more (pattern_clear :: 'd pattern)))
             \<lparr>pt_isDirty := True, pt_type := ty, pt_parentType := parent, hl_dir := getPatternDir h,
              pt_firstBarIndex := index, pt_lastBarIndex := index, pt_highBarIndex := index,
              pt_lowBarIndex := index, hl_index := length ps + 1\<rparr>])"

definition updatePattern :: "('d, 'a) hloc_scheme \<Rightarrow> nat \<Rightarrow> 'd pattern \<Rightarrow> 'd pattern" where
  "updatePattern h index p =
     (if \<not> isHLOCValid h then p
      else (let p1 = p\<lparr>pt_isDirty := True, hl_volume := size_add_eq (hl_volume p) (hl_volume h),
                       hl_numOfTrades := hl_numOfTrades p + hl_numOfTrades h\<rparr>;
                p2 = (if hl_high p1 < hl_high h then p1\<lparr>hl_high := hl_high h, pt_highBarIndex := index\<rparr>
                      else if hl_high h = hl_high p1 \<and> index < pt_highBarIndex p1 then p1\<lparr>pt_highBarIndex := index\<rparr>
                      else p1);
                p3 = (if hl_low p2 > hl_low h then p2\<lparr>hl_low := hl_low h, pt_lowBarIndex := index\<rparr>
                      else if hl_low h = hl_low p2 \<and> index < pt_lowBarIndex p2 then p2\<lparr>pt_lowBarIndex := index\<rparr>
                      else p2);
                p4 = (if index > pt_lastBarIndex p3 then p3\<lparr>pt_lastBarIndex := index, hl_close := hl_close h\<rparr>
                      else if index < pt_firstBarIndex p3 then p3\<lparr>pt_firstBarIndex := index, hl_open := hl_open h\<rparr>
                      else p3)
            in p4\<lparr>hl_range := tw_sub (hl_high p4) (hl_low p4)\<rparr>))"

definition isExtremeBroken :: "('d, 'a) hloc_scheme \<Rightarrow> ('d, 'b) hloc_scheme \<Rightarrow> bool" where
  "isExtremeBroken v1 v2 \<longleftrightarrow> (hl_dir v1 = kUp \<and> hl_low v2 < hl_low v1) \<or> (hl_dir v1 = kDown \<and> hl_high v2 > hl_high v1)"

text \<open>
  The list the detectors work on. For the dynamic patterns (those of the unfinished bar) it is
  reset to the list of the finished bars, except when it is created.
\<close>

definition getInstrumentPattern :: "instr_id \<Rightarrow> bool \<Rightarrow> 'd bar_patterns \<Rightarrow> 'd bar_patterns \<times> 'd pattern list" where
  "getInstrumentPattern x isDynamic b =
     (if isDynamic
      then (case sm_find (bp_instrumentsPatternsDynamic b) x of
              None \<Rightarrow> (b\<lparr>bp_instrumentsPatternsDynamic := sm_insert (bp_instrumentsPatternsDynamic b) x []\<rparr>, [])
            | Some _ \<Rightarrow>
                (let ps = getBarPatterns b x
                 in (b\<lparr>bp_instrumentsPatternsDynamic := sm_assign (bp_instrumentsPatternsDynamic b) x ps\<rparr>, ps)))
      else (let (m, ps) = sm_get_or_create (bp_instrumentsPatterns b) x []
            in (b\<lparr>bp_instrumentsPatterns := m\<rparr>, ps)))"

text \<open>Writes through the reference that \<open>getInstrumentPattern\<close> returned.\<close>

definition bp_write :: "instr_id \<Rightarrow> bool \<Rightarrow> 'd pattern list \<Rightarrow> 'd bar_patterns \<Rightarrow> 'd bar_patterns" where
  "bp_write x isDynamic ps b =
     (if isDynamic
      then b\<lparr>bp_instrumentsPatternsDynamic := sm_assign (bp_instrumentsPatternsDynamic b) x ps\<rparr>
      else b\<lparr>bp_instrumentsPatterns := sm_assign (bp_instrumentsPatterns b) x ps\<rparr>)"

definition upd_back :: "('a \<Rightarrow> 'a) \<Rightarrow> 'a list \<Rightarrow> 'a list" where
  "upd_back f xs = (if xs = [] then [] else butlast xs @ [f (last xs)])"

text \<open>\<open>bars[i-1]\<close>; the subtraction of an unsigned 0 leaves the vector as well.\<close>

definition bar_at :: "'b list \<Rightarrow> nat \<Rightarrow> 'b option" where
  "bar_at bars i = (if 0 < i \<and> i \<le> length bars then Some (bars ! (i - 1)) else None)"

subsection \<open>Simple patterns\<close>

text \<open>The reverse search for the last swing.\<close>

fun last_swing :: "nat \<Rightarrow> 'd pattern list \<Rightarrow> nat option" where
  "last_swing 0 ps = None"
| "last_swing (Suc k) ps = (if pt_type (ps ! k) = kSwing then Some k else last_swing k ps)"

definition simple_bar :: "('d::zero) bar list \<Rightarrow> 'd pattern list \<Rightarrow> 'd pattern list option" where
  "simple_bar bars ps =
     (let bar = last bars; n = length bars; add = (\<lambda>ty. addPattern kSimple ty bar n ps) in
      if hl_numOfTrades bar = 0
      then Some (if ps = [] \<or> pt_type (last ps) \<noteq> kHitch then add kTransitional
                 else upd_back (updatePattern bar n) ps)
      else if hl_close bar = hl_open bar then Some (add kTransitional)
      else (case last_swing (length ps) ps of
              None \<Rightarrow> Some (add kSwing)
            | Some k \<Rightarrow>
                (let p = ps ! k; dir = getPatternDir bar in
                 if dir = hl_dir p
                 then (if (if dir = kUp then hl_high bar > hl_high p \<and> hl_low bar > hl_low p
                           else hl_high bar < hl_high p \<and> hl_low bar < hl_low p)
                       then Some (if hl_index p = hl_index (last ps) then ps[k := updatePattern bar n p] else add kSwing)
                       else Some (add kHitch))
                 else (case bar_at bars (pt_lastBarIndex p) of
                         None \<Rightarrow> None
                       | Some bar2 \<Rightarrow>
                           Some (add (if (if dir = kDown then hl_close bar < hl_low bar2
                                          else hl_close bar > hl_high bar2) then kSwing else kHitch))))))"

text \<open>What the detectors share: nothing to do for a bar without trades, then the instrument's list.\<close>

definition bar_idle :: "('d, 'a) hloc_scheme \<Rightarrow> bool" where
  "bar_idle b \<longleftrightarrow> hl_numOfTrades b = 0 \<or> \<not> tw_isValid (hl_close b)"

definition on_patterns ::
    "'d bar list \<Rightarrow> bool \<Rightarrow> (instr_id \<Rightarrow> 'd pattern list \<Rightarrow> 'd pattern list option) \<Rightarrow> 'd bar_patterns \<Rightarrow> 'd bar_patterns option" where
  "on_patterns bars isDynamic f b =
     (if bars = [] then None
      else if bar_idle (last bars) then Some b
      else (case hl_instrument (last bars) of
              None \<Rightarrow> None
            | Some i \<Rightarrow>
                (let (b1, ps) = getInstrumentPattern (ins_keyId i) isDynamic b
                 in map_option (\<lambda>ps1. bp_write (ins_keyId i) isDynamic ps1 b1) (f (ins_keyId i) ps))))"

definition simple_processPatterns :: "('d::zero) bar list \<Rightarrow> bool \<Rightarrow> 'd bar_patterns \<Rightarrow> 'd bar_patterns option" where
  "simple_processPatterns bars isDynamic = on_patterns bars isDynamic (\<lambda>_. simple_bar bars)"

subsection \<open>Swings of level 1\<close>

text \<open>
  The first pattern: the earlier simple patterns, latest first, are merged before the swing is
  added; the code has this block once per level, with another type.
\<close>

definition merge_back :: "ePatternsType \<Rightarrow> ('d::zero) pattern \<Rightarrow> 'd pattern list \<Rightarrow> 'd pattern list" where
  "merge_back parent s ps =
     (if ps = [] then addPattern parent kUnknownPattern s (pt_lastBarIndex s) ps
      else upd_back (updatePattern s (pt_lastBarIndex s)) ps)"

definition first_pattern :: "ePatternsType \<Rightarrow> ePatternType \<Rightarrow> nat \<Rightarrow> ('d::zero) pattern list \<Rightarrow> 'd pattern list" where
  "first_pattern parent ty index simples =
     (let s = last simples in
      if length simples = 1 then addPattern parent ty s index []
      else (let ps = fold (merge_back parent) (rev (butlast simples)) [] in
            if ps = [] then addPattern parent ty s (pt_lastBarIndex s) []
            else if (hl_dir s = kUp \<and> hl_high (last ps) > hl_high s) \<or> (hl_dir s = kDown \<and> hl_low (last ps) < hl_low s)
            then []
            else upd_back (\<lambda>p. (updatePattern s (pt_lastBarIndex s) p)\<lparr>hl_dir := hl_dir s, pt_type := ty\<rparr>) ps))"

text \<open>The loops over earlier bars, by position: all of them, those that pass a test, or up to the first that fails one.\<close>

fun absorb ::
    "('d bar \<Rightarrow> bool) \<Rightarrow> 'd bar list \<Rightarrow> nat list \<Rightarrow> 'd pattern list \<Rightarrow> 'd pattern list option" where
  "absorb use bars [] ps = Some ps"
| "absorb use bars (i # is) ps =
     (case bar_at bars i of
        None \<Rightarrow> None
      | Some b \<Rightarrow> absorb use bars is (if use b then upd_back (updatePattern b i) ps else ps))"

fun absorb_until :: "'d bar list \<Rightarrow> nat list \<Rightarrow> 'd pattern list \<Rightarrow> 'd pattern list option" where
  "absorb_until bars [] ps = Some ps"
| "absorb_until bars (i # is) ps =
     (case bar_at bars i of
        None \<Rightarrow> None
      | Some b \<Rightarrow>
          if (hl_dir (last ps) = kUp \<and> hl_low b > hl_low (last ps)) \<or> (hl_dir (last ps) = kDown \<and> hl_high b < hl_high (last ps))
          then Some ps
          else absorb_until bars is (upd_back (updatePattern b i) ps))"

definition down_from :: "nat \<Rightarrow> nat \<Rightarrow> nat list" where
  "down_from i k = rev [k..<Suc i]"

text \<open>
  The last step of both levels: the new pattern reaches back to the extreme of the one before it.
\<close>

definition reach_back ::
    "('d pattern \<Rightarrow> 'd bar \<Rightarrow> bool) \<Rightarrow> 'd bar list \<Rightarrow> 'd pattern list \<Rightarrow> 'd pattern list option" where
  "reach_back use bars ps =
     (if length ps < 2 then None
      else (let lp = ps ! (length ps - 2);
                prev = (if hl_dir lp = kUp then pt_highBarIndex lp else pt_lowBarIndex lp)
            in if prev \<ge> length bars \<or> 1 > prev then Some ps
               else absorb (use lp) bars (down_from (pt_lastBarIndex lp) prev) ps))"

text \<open>
  \<open>moves n\<close> tells whether an insertion into a vector of \<open>n\<close> elements moves it, which
  depends on the capacity the library has given it. In the branch of the hitch count the code
  goes on reading a reference into the vector after the insertion.
\<close>

definition l1_processSwing ::
    "(nat \<Rightarrow> bool) \<Rightarrow> ('d::zero) bar list \<Rightarrow> 'd pattern list \<Rightarrow> 'd pattern list \<Rightarrow> 'd pattern list option" where
  "l1_processSwing moves bars simples ps =
     (let index = length bars; s = last simples; lp = last ps in
      if ps = [] then Some (first_pattern kSwingLevel1 kSwing index simples)
      else if pt_simpleHitchCount lp > 0
      then (let ps1 = addPattern kSwingLevel1 kSwing s index ps in
            if length ps1 \<noteq> length ps \<and> moves (length ps) then None
            else absorb (\<lambda>_. True) bars (down_from (index - 1) (pt_simpleSwingLastBarIndex lp + 1)) ps1)
      else if pt_lastBarIndex lp \<noteq> index - 1
      then absorb_until bars (down_from (index - 1) (pt_lastBarIndex lp + 2)) (addPattern kSwingLevel1 kSwing s index ps)
      else if hl_dir s = hl_dir lp then Some (upd_back (updatePattern (last bars) index) ps)
      else reach_back (\<lambda>_ _. True) bars (addPattern kSwingLevel1 kSwing s index ps))"

definition l1_processHitchOrTransitional ::
    "int \<Rightarrow> 'd bar list \<Rightarrow> 'd pattern list \<Rightarrow> 'd pattern list \<Rightarrow> 'd pattern list" where
  "l1_processHitchOrTransitional maxBars bars simples ps =
     (let s = last simples; lp = last ps in
      if ps = [] then ps
      else if maxBars < 0 \<or> pt_simpleHitchCount lp = 0
      then (let lp1 = (if maxBars > -1
                       then lp\<lparr>pt_simpleSwingLastBarIndex := pt_lastBarIndex lp,
                               pt_simpleHitchCount := s32 (pt_simpleHitchCount lp + 1)\<rparr> else lp);
                ps1 = butlast ps @ [lp1]
            in if isExtremeBroken lp1 s then ps1
               else if pt_lastBarIndex s > pt_lastBarIndex lp1 + 1 then ps1
               else upd_back (updatePattern s (length bars)) ps1)
      else ps)"

text \<open>The two levels share \<open>processPatterns\<close>; what they do with a swing or a hitch is an argument.\<close>

definition level_processPatterns ::
    "'d bar list \<Rightarrow> bool \<Rightarrow> 'd bar_patterns \<Rightarrow>
     ('d pattern list \<Rightarrow> 'd pattern list \<Rightarrow> 'd pattern list option) \<Rightarrow>
     ('d pattern list \<Rightarrow> 'd pattern list \<Rightarrow> 'd pattern list) \<Rightarrow>
     'd bar_patterns \<Rightarrow> 'd bar_patterns option" where
  "level_processPatterns bars isDynamic simple swing hitch =
     on_patterns bars isDynamic
       (\<lambda>x ps.
          let simples = (if isDynamic then getBarPatternsDynamic simple x else getBarPatterns simple x) in
          if simples = [] then Some ps
          else (case pt_type (last simples) of
                  kSwing \<Rightarrow> swing simples ps
                | kHitch \<Rightarrow> Some (hitch simples ps)
                | kTransitional \<Rightarrow> Some (hitch simples ps)
                | _ \<Rightarrow> Some ps))"

definition l1_processPatterns ::
    "(nat \<Rightarrow> bool) \<Rightarrow> int \<Rightarrow> ('d::zero) bar list \<Rightarrow> bool \<Rightarrow> 'd bar_patterns \<Rightarrow> 'd bar_patterns \<Rightarrow> 'd bar_patterns option" where
  "l1_processPatterns moves maxBars bars isDynamic simple =
     level_processPatterns bars isDynamic simple (l1_processSwing moves bars) (l1_processHitchOrTransitional maxBars bars)"

subsection \<open>Trends: swings of level 2\<close>

definition doProcessSwing ::
    "('d::zero) bar list \<Rightarrow> 'd pattern list \<Rightarrow> 'd pattern list \<Rightarrow> 'd pattern list option" where
  "doProcessSwing bars simples ps =
     (let index = length bars; s = last simples; lp = last ps in
      if ps = [] then Some (first_pattern kSwingLevel2 kTrend index simples)
      else if hl_dir s = hl_dir lp \<or> \<not> isExtremeBroken lp (last bars)
      then Some (upd_back (updatePattern (last bars) index) ps)
      else reach_back (\<lambda>lp b. \<not> isExtremeBroken lp b) bars (addPattern kSwingLevel2 kTrend (last bars) index ps))"

definition processTrendSwingIndex :: "'d pattern \<Rightarrow> 'd pattern \<Rightarrow> 'd pattern" where
  "processTrendSwingIndex c lp =
     (if hl_dir c = hl_dir lp
      then (if pt_trendSwingIndexes lp = [] \<or> last (pt_trendSwingIndexes lp) \<noteq> hl_index c
            then lp\<lparr>pt_trendSwingIndexes := pt_trendSwingIndexes lp @ [hl_index c]\<rparr> else lp)
      else (if pt_counterTrendSwingIndexes lp = [] \<or> last (pt_counterTrendSwingIndexes lp) \<noteq> hl_index c
            then lp\<lparr>pt_counterTrendSwingIndexes := pt_counterTrendSwingIndexes lp @ [hl_index c]\<rparr> else lp))"

definition trend_swings :: "'d pattern list \<Rightarrow> 'd pattern \<Rightarrow> 'd pattern" where
  "trend_swings level1 lp =
     (if level1 = [] then lp
      else if pt_trendSwingIndexes lp = [] \<and> pt_counterTrendSwingIndexes lp = []
      then fold (\<lambda>c p. if pt_firstBarIndex c \<ge> pt_firstBarIndex p then processTrendSwingIndex c p else p) level1 lp
      else processTrendSwingIndex (last level1) lp)"

definition l2_processSwing ::
    "('d::zero) bar list \<Rightarrow> bool \<Rightarrow> 'd bar_patterns \<Rightarrow> 'd pattern list \<Rightarrow> 'd pattern list \<Rightarrow> 'd pattern list option" where
  "l2_processSwing bars isDynamic l1 simples ps =
     (case doProcessSwing bars simples ps of
        None \<Rightarrow> None
      | Some ps1 \<Rightarrow>
          if ps1 = [] then Some ps1
          else (case hl_instrument (last ps1) of
                  None \<Rightarrow> None
                | Some i \<Rightarrow>
                    (let level1 = (if isDynamic then getBarPatternsDynamic l1 (ins_keyId i) else getBarPatterns l1 (ins_keyId i))
                     in Some (upd_back (trend_swings level1) ps1))))"

definition l2_processHitchOrTransitional ::
    "'d bar list \<Rightarrow> 'd pattern list \<Rightarrow> 'd pattern list \<Rightarrow> 'd pattern list" where
  "l2_processHitchOrTransitional bars simples ps =
     (if ps = [] then ps
      else if isExtremeBroken (last ps) (last simples) then ps
      else upd_back (updatePattern (last simples) (length bars)) ps)"

definition l2_processPatterns ::
    "('d::zero) bar list \<Rightarrow> bool \<Rightarrow> 'd bar_patterns \<Rightarrow> 'd bar_patterns \<Rightarrow> 'd bar_patterns \<Rightarrow> 'd bar_patterns option" where
  "l2_processPatterns bars isDynamic simple l1 =
     level_processPatterns bars isDynamic simple (l2_processSwing bars isDynamic l1) (l2_processHitchOrTransitional bars)"

end
