(* ===== verification/StopProcessors.thy ===== *)
theory StopProcessors
  imports Bars
begin

section \<open>Stop processors (common\_trade: trailing, initial edge, bars, defense, trigger, timer)\<close>

text \<open>
  A filled entry order is watched by processors that slide its stop price and decide when it has
  been hit. A processor that slides returns the new \<open>FillInfo\<close>, \<open>None\<close> where the code returns
  \<open>false\<close>; the reason strings are text for the log and are left out. Comparisons of prices are
  those of the wrapped integers: an invalid price is smaller than every other. Reads outside the
  vector of bars are undefined: the outer \<open>None\<close> of the two processors that use bars.
\<close>

record 'd fill_info =
  fi_stop :: ticks
  fi_timerCounter :: u32
  fi_barIndex :: u32
  fi_barIndex2 :: u32
  fi_fill :: "'d fill"

definition fi_side :: "'d fill_info \<Rightarrow> eOrderSide" where "fi_side f = fl_side (fi_fill f)"
definition fi_price :: "'d fill_info \<Rightarrow> ticks" where "fi_price f = fl_price (fi_fill f)"

definition best_bid :: "'d quote \<Rightarrow> ticks" where "best_bid q = ps_price (pl_bid (q_book q ! 0))"
definition best_ask :: "'d quote \<Rightarrow> ticks" where "best_ask q = ps_price (pl_ask (q_book q ! 0))"

subsection \<open>TrailingStopProcessor\<close>

record trailing_params =
  tsp_beginTrailingStopTicks :: ticks
  tsp_trailingStopOffsetTicks :: ticks

definition ts_isEnabled :: "trailing_params \<Rightarrow> bool" where
  "ts_isEnabled p \<longleftrightarrow> \<not> (\<not> tw_isValid (tsp_beginTrailingStopTicks p) \<or> 1 > tsp_beginTrailingStopTicks p \<or>
     \<not> tw_isValid (tsp_trailingStopOffsetTicks p))"

definition ts_isStopSlideTriggered :: "trailing_params \<Rightarrow> 'd quote \<Rightarrow> 'd fill_info \<Rightarrow> 'd fill_info option" where
  "ts_isStopSlideTriggered p q info =
     (if \<not> ts_isEnabled p then None
      else (case fi_side info of
              kBuy \<Rightarrow>
                if tw_add (fi_price info) (tsp_beginTrailingStopTicks p) > best_bid q then None
                else (let stop = tw_sub (best_bid q) (tsp_trailingStopOffsetTicks p)
                      in if fi_stop info \<ge> stop then None else Some (info\<lparr>fi_stop := stop\<rparr>))
            | kSell \<Rightarrow>
                if tw_sub (fi_price info) (tsp_beginTrailingStopTicks p) < best_ask q then None
                else (let stop = tw_add (best_ask q) (tsp_trailingStopOffsetTicks p)
                      in if fi_stop info \<le> stop then None else Some (info\<lparr>fi_stop := stop\<rparr>))
            | _ \<Rightarrow> None))"

subsection \<open>InitialEdgeDefenseStopProcessor\<close>

record edge_params =
  iep_slideStopOnProfitTicks1 :: ticks
  iep_slideStopPayupTicks1 :: ticks
  iep_slideStopOnProfitTicks2 :: ticks
  iep_slideStopPayupTicks2 :: ticks

definition ie_isStopSlideTriggered :: "edge_params \<Rightarrow> 'd quote \<Rightarrow> 'd fill_info \<Rightarrow> 'd fill_info option" where
  "ie_isStopSlideTriggered p q info =
     (if \<not> pl_isValid (q_book q ! 0) then None
      else (let price = fi_price info; s = fi_stop info in
            case fi_side info of
              kBuy \<Rightarrow>
                if tw_isValid s \<and> s \<ge> tw_sub price (iep_slideStopPayupTicks2 p) then None
                else if tw_add price (iep_slideStopOnProfitTicks1 p) > best_bid q then None
                else (let stop = (if tw_add price (iep_slideStopOnProfitTicks2 p) \<le> best_bid q
                                  then tw_sub price (iep_slideStopPayupTicks2 p)
                                  else if tw_add price (iep_slideStopOnProfitTicks1 p) \<le> best_bid q
                                  then tw_sub price (iep_slideStopPayupTicks1 p) else invalid_ticks)
                      in if \<not> tw_isValid stop then None
                         else if tw_isValid s \<and> s \<ge> stop then None
                         else Some (info\<lparr>fi_stop := stop\<rparr>))
            | kSell \<Rightarrow>
                if tw_isValid s \<and> s \<le> tw_add price (iep_slideStopPayupTicks2 p) then None
                else if tw_sub price (iep_slideStopOnProfitTicks1 p) < best_ask q then None
                else (let stop = (if tw_sub price (iep_slideStopOnProfitTicks2 p) \<ge> best_ask q
                                  then tw_add price (iep_slideStopPayupTicks2 p)
                                  else if tw_sub price (iep_slideStopOnProfitTicks1 p) \<ge> best_ask q
                                  then tw_add price (iep_slideStopPayupTicks1 p) else invalid_ticks)
                      in if \<not> tw_isValid stop then None
                         else if tw_isValid s \<and> s \<le> stop then None
                         else Some (info\<lparr>fi_stop := stop\<rparr>))
            | _ \<Rightarrow> None))"

subsection \<open>BarsTrailingStopProcessor\<close>

datatype eTransitionBarSlideMode = kUnknownSlide | kBar | kClose | kOff

record bars_trailing_params =
  btp_barsCountToStart :: int
  btp_barTrailingStopOffsetTicks :: ticks
  btp_barTrailingCntToStartTicks :: ticks
  btp_slideBehindBetterBar :: bool
  btp_transitionBarSlideMode :: eTransitionBarSlideMode

definition bt_isEnabled :: "bars_trailing_params \<Rightarrow> bool" where
  "bt_isEnabled p \<longleftrightarrow> \<not> 0 > btp_barsCountToStart p"

definition isNumOfTicksInFavor :: "bars_trailing_params \<Rightarrow> 'd fill_info \<Rightarrow> 'd quote \<Rightarrow> bool" where
  "isNumOfTicksInFavor p info q =
     (if \<not> bt_isEnabled p then False
      else if \<not> tw_isValid (btp_barTrailingCntToStartTicks p) \<or> 0 > btp_barTrailingCntToStartTicks p then True
      else if \<not> pl_isValid (q_book q ! 0) then False
      else (case fi_side info of
              kBuy \<Rightarrow> \<not> best_bid q < tw_add (fi_price info) (btp_barTrailingCntToStartTicks p)
            | kSell \<Rightarrow> \<not> best_ask q > tw_sub (fi_price info) (btp_barTrailingCntToStartTicks p)
            | _ \<Rightarrow> False))"

definition behindFirstBar :: "'d bar \<Rightarrow> 'd fill_info \<Rightarrow> bool" where
  "behindFirstBar b info =
     (case fi_side info of
        kBuy \<Rightarrow> hl_dir b \<noteq> kDown \<and> \<not> hl_close b < fi_price info
      | kSell \<Rightarrow> hl_dir b \<noteq> kUp \<and> \<not> hl_close b > fi_price info
      | _ \<Rightarrow> False)"

text \<open>The loop over the bars since the entry; it stops at the first bar that is not beaten.\<close>

fun beats_all :: "('d bar \<Rightarrow> bool) \<Rightarrow> 'd bar list \<Rightarrow> nat list \<Rightarrow> bool option" where
  "beats_all blocks bars [] = Some True"
| "beats_all blocks bars (i # is) =
     (case bar_at bars i of None \<Rightarrow> None | Some b \<Rightarrow> if blocks b then Some False else beats_all blocks bars is)"

text \<open>
  Whether the current bar lets the stop slide: behind the first bar after the entry, or when it
  closes beyond the previous bar or beyond every bar since the entry. \<open>worse b\<close>: the current
  close is not beyond that of \<open>b\<close>.
\<close>

definition bt_passes ::
    "bars_trailing_params \<Rightarrow> ('d bar \<Rightarrow> bool) \<Rightarrow> 'd fill_info \<Rightarrow> 'd bar \<Rightarrow> 'd bar list \<Rightarrow> bool option" where
  "bt_passes p worse info cur bars =
     (if length bars - 1 = unat (fi_barIndex2 info) then Some (behindFirstBar cur info)
      else if \<not> btp_slideBehindBetterBar p
      then (case bar_at bars (length bars - 2) of
              None \<Rightarrow> None
            | Some prev \<Rightarrow> Some (\<not> (hl_numOfTrades prev = 0 \<or> worse prev)))
      else beats_all (\<lambda>b. 0 < hl_numOfTrades b \<and> worse b) bars [unat (fi_barIndex2 info)..<length bars - 1])"

definition bt_isStopSlideRecalculated ::
    "bars_trailing_params \<Rightarrow> 'd bar list \<Rightarrow> 'd fill_info \<Rightarrow> 'd fill_info option option" where
  "bt_isStopSlideRecalculated p bars info =
     (if \<not> bt_isEnabled p then Some None
      else if bars \<noteq> [] \<and> unat (fi_barIndex2 info + of_int (btp_barsCountToStart p)) > length bars - 1 then Some None
      else (case bar_at bars (length bars - 1) of
              None \<Rightarrow> None
            | Some cur \<Rightarrow>
                if \<not> br_formed cur \<or> hl_numOfTrades cur = 0 then Some None
                else (let off = btp_barTrailingStopOffsetTicks p; mode = btp_transitionBarSlideMode p;
                          transition = (hl_open cur = hl_close cur \<and> length bars - 1 \<noteq> unat (fi_barIndex2 info)) in
                      case fi_side info of
                        kBuy \<Rightarrow>
                          (case (if transition then Some (mode \<noteq> kOff)
                                 else bt_passes p (\<lambda>b. hl_close cur \<le> hl_close b) info cur bars) of
                             None \<Rightarrow> None
                           | Some False \<Rightarrow> Some None
                           | Some True \<Rightarrow>
                               (let stop = tw_sub (if transition \<and> mode \<noteq> kBar then hl_close cur else hl_low cur) off
                                in Some (if tw_isValid (fi_stop info) \<and> stop \<le> fi_stop info then None
                                         else Some (info\<lparr>fi_stop := stop\<rparr>))))
                      | kSell \<Rightarrow>
                          (case (if transition then Some (mode \<noteq> kOff)
                                 else bt_passes p (\<lambda>b. hl_close cur \<ge> hl_close b) info cur bars) of
                             None \<Rightarrow> None
                           | Some False \<Rightarrow> Some None
                           | Some True \<Rightarrow>
                               (let stop = tw_add (if transition \<and> mode \<noteq> kBar then hl_close cur else hl_high cur) off
                                in Some (if tw_isValid (fi_stop info) \<and> stop \<ge> fi_stop info then None
                                         else Some (info\<lparr>fi_stop := stop\<rparr>))))
                      | _ \<Rightarrow> Some None)))"

subsection \<open>DefenseBarsTrailingStopProcessor\<close>

datatype eDefenseBarsTrailingStopMode = kUnknownDefense | kWorstBar | kCurrentBar

record defense_params =
  dbp_barsCountToStart :: int
  dbp_mode :: eDefenseBarsTrailingStopMode

definition db_isEnabled :: "defense_params \<Rightarrow> bool" where
  "db_isEnabled p \<longleftrightarrow> \<not> 0 > dbp_barsCountToStart p"

text \<open>The worst price of the bars since the entry, \<open>beyond w b\<close>: the bar \<open>b\<close> is worse than \<open>w\<close>.\<close>

fun worst_price :: "('d bar \<Rightarrow> ticks) \<Rightarrow> (ticks \<Rightarrow> ticks \<Rightarrow> bool) \<Rightarrow> 'd bar list \<Rightarrow> nat list \<Rightarrow> ticks \<Rightarrow> ticks option" where
  "worst_price price beyond bars [] w = Some w"
| "worst_price price beyond bars (i # is) w =
     (case bar_at bars i of
        None \<Rightarrow> None
      | Some b \<Rightarrow> worst_price price beyond bars is (if \<not> tw_isValid w \<or> beyond w (price b) then price b else w))"

definition db_isStopSlideRecalculated ::
    "bars_trailing_params \<Rightarrow> defense_params \<Rightarrow> 'd bar list \<Rightarrow> 'd fill_info \<Rightarrow> 'd fill_info option option" where
  "db_isStopSlideRecalculated p1 p2 bars info =
     (if \<not> db_isEnabled p2 then Some None
      else if bars = [] \<or> unat (fi_barIndex2 info + of_int (dbp_barsCountToStart p2)) \<noteq> length bars - 1 then Some None
      else (case bar_at bars (length bars - 1) of
              None \<Rightarrow> None
            | Some cur \<Rightarrow>
                if \<not> br_formed cur \<or> hl_numOfTrades cur = 0 then Some None
                else (let off = btp_barTrailingStopOffsetTicks p1; is = [unat (fi_barIndex2 info)..<length bars - 1] in
                      case fi_side info of
                        kBuy \<Rightarrow>
                          if hl_dir cur \<noteq> kDown then Some None
                          else (case (if dbp_mode p2 = kCurrentBar then Some (True, hl_close cur)
                                      else map_option (\<lambda>w. (tw_isValid w, w)) (worst_price hl_low (>) bars is invalid_ticks)) of
                                  None \<Rightarrow> None
                                | Some (False, _) \<Rightarrow> Some None
                                | Some (True, w) \<Rightarrow>
                                    (let stop = tw_sub w off
                                     in Some (if tw_isValid (fi_stop info) \<and> stop \<le> fi_stop info then None
                                              else Some (info\<lparr>fi_stop := stop\<rparr>))))
                      | kSell \<Rightarrow>
                          if hl_dir cur \<noteq> kUp then Some None
                          else (case (if dbp_mode p2 = kCurrentBar then Some (True, hl_close cur)
                                      else map_option (\<lambda>w. (tw_isValid w, w)) (worst_price hl_high (<) bars is invalid_ticks)) of
                                  None \<Rightarrow> None
                                | Some (False, _) \<Rightarrow> Some None
                                | Some (True, w) \<Rightarrow>
                                    (let stop = tw_add w off
                                     in Some (if tw_isValid (fi_stop info) \<and> stop \<ge> fi_stop info then None
                                              else Some (info\<lparr>fi_stop := stop\<rparr>))))
                      | _ \<Rightarrow> Some None)))"

subsection \<open>stopTriggerProcessor\<close>

record stop_trigger =
  str_minStopTriggerQty :: size
  str_stopTriggerQty :: size
  str_stopPrice :: ticks

definition str_new :: "size \<Rightarrow> stop_trigger" where
  "str_new minQty = \<lparr>str_minStopTriggerQty = minQty, str_stopTriggerQty = 0, str_stopPrice = invalid_ticks\<rparr>"

definition str_isEnabled :: "stop_trigger \<Rightarrow> bool" where
  "str_isEnabled s \<longleftrightarrow> \<not> 1 > str_minStopTriggerQty s"

text \<open>\<open>t_price\<close> and \<open>t_size\<close> of the last trade; the answer is the second component.\<close>

definition isStopTriggered :: "'d fill_info \<Rightarrow> 'd quote \<Rightarrow> stop_trigger \<Rightarrow> stop_trigger \<times> bool" where
  "isStopTriggered info q s =
     (let price = ps_price (q_trade q) in
      if \<not> str_isEnabled s \<or> \<not> isNormalTrade q then (s, False)
      else (let s1 = (if fi_stop info \<noteq> str_stopPrice s
                      then s\<lparr>str_stopTriggerQty := 0, str_stopPrice := fi_stop info\<rparr> else s);
                s2 = (if price = fi_stop info
                      then s1\<lparr>str_stopTriggerQty := size_add_eq (str_stopTriggerQty s1) (ps_size (q_trade q))\<rparr> else s1);
                s3 = s2\<lparr>str_stopTriggerQty := 0\<rparr>
            in if price = fi_stop info
               then (if str_stopTriggerQty s2 < str_minStopTriggerQty s2 then (s2, False) else (s3, True))
               else (case fi_side info of
                       kBuy \<Rightarrow> (s3, \<not> price > fi_stop info)
                     | kSell \<Rightarrow> (s3, \<not> price < fi_stop info)
                     | _ \<Rightarrow> (s3, False))))"

subsection \<open>TimerBasedStopProcessor\<close>

datatype eStopLossCycleMode = kUnknownCycle | kAnchor | kFloat

record timer_params =
  tp_cycleLength :: u32
  tp_cycleLBound :: u32
  tp_cycleUBound :: u32
  tp_stopLossCycleMode :: eStopLossCycleMode
  tp_stopLossCycleLBound :: ticks
  tp_stopLossCycleUBound :: ticks
  tp_takeProfitCycleLBound :: ticks
  tp_takeProfitCycleUBound :: ticks

definition tb_isEnabled :: "timer_params \<Rightarrow> bool" where
  "tb_isEnabled p \<longleftrightarrow> tp_cycleLength p \<noteq> 0"

text \<open>The constructor turns seconds into milliseconds.\<close>

definition tb_new :: "timer_params \<Rightarrow> timer_params" where
  "tb_new p =
     (if \<not> tb_isEnabled p then p
      else p\<lparr>tp_cycleLength := tp_cycleLength p * 1000, tp_cycleLBound := tp_cycleLBound p * 1000,
             tp_cycleUBound := tp_cycleUBound p * 1000\<rparr>)"

definition calcStopSlide :: "timer_params \<Rightarrow> u32 \<Rightarrow> bool \<Rightarrow> ticks" where
  "calcStopSlide p timerCounter isLBound =
     (if (if tp_stopLossCycleMode p = kAnchor then isLBound else timerCounter mod 2 = 1)
      then tp_stopLossCycleLBound p else tp_stopLossCycleUBound p)"

definition isTakeProfitTriggered ::
    "timer_params \<Rightarrow> 'd fill_info \<Rightarrow> 'd quote \<Rightarrow> ticks \<Rightarrow> bool \<Rightarrow> ticks option" where
  "isTakeProfitTriggered p info q payup isLBound =
     (let ticks = (if isLBound then tp_takeProfitCycleLBound p else tp_takeProfitCycleUBound p) in
      if ticks < 1 then None
      else (case fi_side info of
              kBuy \<Rightarrow> if tw_add (fi_price info) ticks > best_bid q then None else Some (tw_sub (best_bid q) payup)
            | kSell \<Rightarrow> if tw_sub (fi_price info) ticks < best_ask q then None else Some (tw_add (best_ask q) payup)
            | _ \<Rightarrow> None))"

definition calcCycleTimeouts :: "timer_params \<Rightarrow> u32 \<Rightarrow> (u32 \<times> u32) option" where
  "calcCycleTimeouts p msecFromMidnight =
     (let len = tp_cycleLength p; lb = tp_cycleLBound p; ub = tp_cycleUBound p; c = msecFromMidnight mod len in
      if len = 0 then None
      else if c > ub then Some ((len - c) + lb, (len - c) + ub)
      else if c < lb then Some (lb - c, ub - c)
      else Some ((ub - c) + ((len - ub) + lb), if ub - c = 0 then len else ub - c))"

text \<open>The timeout that \<open>processCycleTimer\<close> registers next.\<close>

definition processCycleTimer :: "timer_params \<Rightarrow> u32 \<Rightarrow> bool \<Rightarrow> u32 option" where
  "processCycleTimer p msecFromMidnight isLBound =
     map_option (\<lambda>(l, u). let t = (if isLBound then l else u) in if t = 0 then tp_cycleLength p else t)
       (calcCycleTimeouts p msecFromMidnight)"

end
