(* ===== verification/BarsManager.thy ===== *)
theory BarsManager
  imports Bars
begin

section \<open>BarsManagerImpl (common\_trade/bars\_manager.h)\<close>

text \<open>
  The manager owns the bars of every subscribed instrument, the traded volume per price and the
  three pattern detectors. Its surroundings are the record \<open>bars_env\<close>: the instrument manager,
  the two switches of the bar storage and the vector capacities. Clock readings are arguments;
  the timers it asks for, the quotes it subscribes to and what it hands to the storage are logs.
\<close>

record 'd bars_env =
  be_instr :: "instr_id \<Rightarrow> 'd instrument option"
  be_processPatterns :: bool
  be_outputToDb :: bool
  be_moves :: "nat \<Rightarrow> bool"

record 'd bars_manager =
  bm_source :: string
  bm_simpleHitchMaxBars :: int
  bm_barLength :: u32
  bm_atrNumOfPeriods :: u32
  bm_instrumentsBars :: "(instr_id, 'd bar list) stdmap"
  bm_instrumentsBarsInfo :: "(instr_id, u32 \<times> 'd bar list) stdmap"
  bm_instrumentTrades :: "(instr_id, trades) stdmap"
  bm_simple :: "'d bar_patterns"
  bm_level1 :: "'d bar_patterns"
  bm_level2 :: "'d bar_patterns"
  bm_timers :: "u32 list"
  bm_subscriptions :: "instr_id list"
  bm_savedBars :: "'d bar list"
  bm_savedPatterns :: "'d pattern list"

definition bm_new :: "u32 \<Rightarrow> int \<Rightarrow> u32 \<Rightarrow> 'd bars_manager" where
  "bm_new barLength maxBars atrPeriods =
     \<lparr>bm_source = [], bm_simpleHitchMaxBars = maxBars, bm_barLength = barLength, bm_atrNumOfPeriods = atrPeriods,
      bm_instrumentsBars = [], bm_instrumentsBarsInfo = [], bm_instrumentTrades = [], bm_simple = bp_new kSimple,
      bm_level1 = bp_new kSwingLevel1, bm_level2 = bp_new kSwingLevel2, bm_timers = [], bm_subscriptions = [],
      bm_savedBars = [], bm_savedPatterns = []\<rparr>"

definition bm_clear :: "'d bars_manager \<Rightarrow> 'd bars_manager" where
  "bm_clear m = m\<lparr>bm_instrumentsBars := [], bm_instrumentsBarsInfo := [], bm_instrumentTrades := [],
     bm_simple := bp_clear (bm_simple m), bm_level1 := bp_clear (bm_level1 m), bm_level2 := bp_clear (bm_level2 m)\<rparr>"

definition bm_setSource :: "string \<Rightarrow> string \<Rightarrow> 'd bars_manager \<Rightarrow> 'd bars_manager" where
  "bm_setSource uuid v m = (if bm_source m = [] then m\<lparr>bm_source := v @ ''_'' @ uuid\<rparr> else m)"

text \<open>Milliseconds to the end of the current interval; a bar length of 0 divides by zero.\<close>

definition calcCycleTimeout :: "u32 \<Rightarrow> u32 \<Rightarrow> u32 option" where
  "calcCycleTimeout barLength msecFromMidnight =
     (let cycleMSec = barLength * 1000 in
      if cycleMSec = 0 then None
      else (let delta = cycleMSec - msecFromMidnight mod cycleMSec in Some (if delta = 0 then cycleMSec else delta)))"

definition registerTimer :: "u32 \<Rightarrow> 'd bars_manager \<Rightarrow> 'd bars_manager option" where
  "registerTimer msec m =
     map_option (\<lambda>t. m\<lparr>bm_timers := t # bm_timers m\<rparr>) (calcCycleTimeout (bm_barLength m) msec)"

definition newBar :: "'d bars_env \<Rightarrow> u32 \<Rightarrow> int \<Rightarrow> instr_id \<Rightarrow> nat \<Rightarrow> ('d::zero) bar" where
  "newBar e barLength now x n =
     (let b = bar_clear\<lparr>hl_open_timestamp := now, hl_instrument := be_instr e x, hl_duration := barLength, hl_index := n\<rparr>
      in case be_instr e x of
           None \<Rightarrow> b
         | Some i \<Rightarrow> b\<lparr>hl_displayName := ins_displayName i, hl_exchange := ins_exchange i\<rparr>)"

text \<open>The vector of \<open>x\<close>, to be written through its iterator.\<close>

definition bm_bars :: "'d bars_manager \<Rightarrow> instr_id \<Rightarrow> 'd bar list" where
  "bm_bars m x = (case sm_find (bm_instrumentsBars m) x of None \<Rightarrow> [] | Some bs \<Rightarrow> bs)"

definition bm_set_bars :: "instr_id \<Rightarrow> 'd bar list \<Rightarrow> 'd bars_manager \<Rightarrow> 'd bars_manager" where
  "bm_set_bars x bs m = m\<lparr>bm_instrumentsBars := sm_assign (bm_instrumentsBars m) x bs\<rparr>"

definition createNewBar :: "('d::zero) bars_env \<Rightarrow> int \<Rightarrow> instr_id \<Rightarrow> 'd bars_manager \<Rightarrow> 'd bars_manager" where
  "createNewBar e now x m =
     bm_set_bars x (bm_bars m x @ [newBar e (bm_barLength m) now x (length (bm_bars m x) + 1)]) m"

definition bm_info :: "'d bars_manager \<Rightarrow> instr_id \<Rightarrow> u32 \<times> 'd bar list" where
  "bm_info m x = (case sm_find (bm_instrumentsBarsInfo m) x of None \<Rightarrow> (0, []) | Some i \<Rightarrow> i)"

definition bm_set_lookback :: "instr_id \<Rightarrow> u32 \<Rightarrow> 'd bars_manager \<Rightarrow> 'd bars_manager" where
  "bm_set_lookback x n m =
     m\<lparr>bm_instrumentsBarsInfo := sm_put (bm_instrumentsBarsInfo m) x (n, snd (bm_info m x))\<rparr>"

definition bm_subscribe ::
    "('d::zero) bars_env \<Rightarrow> u32 \<Rightarrow> int \<Rightarrow> instr_id \<Rightarrow> u32 \<Rightarrow> 'd bars_manager \<Rightarrow> 'd bars_manager option" where
  "bm_subscribe e msec now x lookback m =
     (case (if bm_instrumentsBars m = [] then registerTimer msec m else Some m) of
        None \<Rightarrow> None
      | Some m1 \<Rightarrow>
          Some (case sm_find (bm_instrumentsBars m1) x of
                  None \<Rightarrow>
                    bm_set_lookback x lookback
                      (createNewBar e now x
                         (m1\<lparr>bm_subscriptions := x # bm_subscriptions m1,
                             bm_instrumentsBars := sm_insert (bm_instrumentsBars m1) x []\<rparr>))
                | Some _ \<Rightarrow>
                    if fst (bm_info m1 x) > lookback \<and> lookback \<noteq> 0 then m1 else bm_set_lookback x lookback m1))"

subsection \<open>Patterns and storage\<close>

definition bm_patterns ::
    "('d::zero) bars_env \<Rightarrow> 'd bar list \<Rightarrow> bool \<Rightarrow> 'd bars_manager \<Rightarrow> 'd bars_manager option" where
  "bm_patterns e bars isDynamic m =
     (case simple_processPatterns bars isDynamic (bm_simple m) of
        None \<Rightarrow> None
      | Some sp \<Rightarrow>
          (case l1_processPatterns (be_moves e) (bm_simpleHitchMaxBars m) bars isDynamic sp (bm_level1 m) of
             None \<Rightarrow> None
           | Some l1 \<Rightarrow>
               map_option (\<lambda>l2. m\<lparr>bm_simple := sp, bm_level1 := l1, bm_level2 := l2\<rparr>)
                 (l2_processPatterns bars isDynamic sp l1 (bm_level2 m))))"

definition bm_processPatterns ::
    "('d::floor_ceiling) bars_env \<Rightarrow> instr_id \<Rightarrow> bool \<Rightarrow> 'd bars_manager \<Rightarrow> 'd bars_manager option" where
  "bm_processPatterns e x isDynamic m =
     (let bars = bm_bars m x in
      if bars = [] \<or> bar_idle (last bars) then Some m
      else (case calculateAtr bars (bm_atrNumOfPeriods m) True of
              None \<Rightarrow> None
            | Some (bars1, _) \<Rightarrow>
                (let m1 = bm_set_bars x bars1 m
                 in if be_processPatterns e then bm_patterns e bars1 isDynamic m1 else Some m1)))"

text \<open>The dirty patterns at the end of the list are saved, last one first, and marked clean.\<close>

definition patterns_saved :: "int \<Rightarrow> 'd pattern list \<Rightarrow> 'd pattern list \<times> 'd pattern list" where
  "patterns_saved maxBars ps =
     (let n = length (takeWhile pt_isDirty (rev ps));
          out = map (\<lambda>p. p\<lparr>pt_simpleHitchMaxBars := maxBars, pt_isDirty := False\<rparr>) (drop (length ps - n) ps)
      in (take (length ps - n) ps @ out, rev out))"

definition outputPatterns :: "int \<Rightarrow> instr_id \<Rightarrow> 'd bar_patterns \<Rightarrow> 'd bar_patterns \<times> 'd pattern list" where
  "outputPatterns maxBars x b =
     (let ps = getBarPatterns b x in
      if ps = [] then (b, [])
      else (let (ps1, out) = patterns_saved maxBars ps
            in (b\<lparr>bp_instrumentsPatterns := sm_assign (bp_instrumentsPatterns b) x ps1\<rparr>, out)))"

definition bm_outputPatterns :: "instr_id \<Rightarrow> 'd bars_manager \<Rightarrow> 'd bars_manager" where
  "bm_outputPatterns x m =
     (let (sp, o1) = outputPatterns (bm_simpleHitchMaxBars m) x (bm_simple m);
          (l1, o2) = outputPatterns (bm_simpleHitchMaxBars m) x (bm_level1 m);
          (l2, o3) = outputPatterns (bm_simpleHitchMaxBars m) x (bm_level2 m)
      in m\<lparr>bm_simple := sp, bm_level1 := l1, bm_level2 := l2, bm_savedPatterns := bm_savedPatterns m @ o1 @ o2 @ o3\<rparr>)"

text \<open>\<open>outputToDb\<close> saves the last bar, \<open>outputToDbOnStart\<close> all of them.\<close>

definition output_bars ::
    "'d bars_env \<Rightarrow> 'd bar list \<Rightarrow> ('d bar list \<Rightarrow> 'd bar list) \<Rightarrow> 'd bars_manager \<Rightarrow> 'd bars_manager option" where
  "output_bars e bars sel m =
     (if \<not> be_outputToDb e \<or> bars = [] then Some m
      else (let m1 = m\<lparr>bm_savedBars := bm_savedBars m @ sel bars\<rparr> in
            if \<not> be_processPatterns e then Some m1
            else map_option (\<lambda>i. bm_outputPatterns (ins_keyId i) m1) (hl_instrument (last bars))))"

definition outputToDb :: "'d bars_env \<Rightarrow> instr_id \<Rightarrow> 'd bars_manager \<Rightarrow> 'd bars_manager option" where
  "outputToDb e x m = output_bars e (bm_bars m x) (\<lambda>bs. [last bs]) m"

definition outputToDbOnStart :: "'d bars_env \<Rightarrow> instr_id \<Rightarrow> 'd bars_manager \<Rightarrow> 'd bars_manager option" where
  "outputToDbOnStart e x m = output_bars e (bm_bars m x) id m"

subsection \<open>Quotes and the interval timer\<close>

definition bm_onQuote :: "('d::floor_ceiling) bars_env \<Rightarrow> 'd quote \<Rightarrow> 'd bars_manager \<Rightarrow> 'd bars_manager option" where
  "bm_onQuote e q m =
     (let x = q_instrumentId q; bars = bm_bars m x in
      if bars = [] then Some m
      else (let (ok, b) = bar_onQuote q (last bars) in
            if \<not> ok then Some m
            else (let m1 = bm_set_bars x (butlast bars @ [b]) m;
                      (tm, ts) = sm_get_or_create (bm_instrumentTrades m1) x [];
                      m2 = m1\<lparr>bm_instrumentTrades := sm_assign tm x (updateTradesMaps q ts)\<rparr>
                  in bm_processPatterns e x True m2)))"

definition timeout_entry ::
    "('d::floor_ceiling) bars_env \<Rightarrow> int \<Rightarrow> instr_id \<Rightarrow> 'd bars_manager \<Rightarrow> 'd bars_manager option" where
  "timeout_entry e now x m =
     (let bars = bm_bars m x in
      map_option (createNewBar e now x)
        (if bars \<noteq> [] \<and> \<not> br_formed (last bars)
         then (case bm_processPatterns e x False (bm_set_bars x (upd_back (br_formed_update (\<lambda>_. True)) bars) m) of
                 None \<Rightarrow> None
               | Some m1 \<Rightarrow> outputToDb e x m1)
         else Some m))"

fun timeout_all ::
    "('d::floor_ceiling) bars_env \<Rightarrow> int \<Rightarrow> instr_id list \<Rightarrow> 'd bars_manager \<Rightarrow> 'd bars_manager option" where
  "timeout_all e now [] m = Some m"
| "timeout_all e now (x # xs) m =
     (case timeout_entry e now x m of None \<Rightarrow> None | Some m1 \<Rightarrow> timeout_all e now xs m1)"

definition bm_onTimeout ::
    "('d::floor_ceiling) bars_env \<Rightarrow> u32 \<Rightarrow> int \<Rightarrow> 'd bars_manager \<Rightarrow> 'd bars_manager option" where
  "bm_onTimeout e msec now m =
     (case timeout_all e now (map fst (bm_instrumentsBars m)) m of
        None \<Rightarrow> None
      | Some m1 \<Rightarrow> registerTimer msec m1)"

subsection \<open>Restoring bars\<close>

text \<open>
  The last bar is overwritten by the historical one but keeps its position and instrument; a new
  bar is opened between two historical bars, not after the last one.
\<close>

fun restore_bars ::
    "('d::floor_ceiling) bars_env \<Rightarrow> int \<Rightarrow> instr_id \<Rightarrow> 'd bar list \<Rightarrow> 'd bars_manager \<Rightarrow> 'd bars_manager option" where
  "restore_bars e now x [] m = Some m"
| "restore_bars e now x (h # hs) m =
     (let bars = bm_bars m x in
      if bars = [] then None
      else (let b = h\<lparr>hl_index := hl_index (last bars), hl_instrument := hl_instrument (last bars)\<rparr>
            in case bm_processPatterns e x False (bm_set_bars x (butlast bars @ [b]) m) of
                 None \<Rightarrow> None
               | Some m1 \<Rightarrow> restore_bars e now x hs (if hs = [] then m1 else createNewBar e now x m1)))"

fun start_all ::
    "('d::floor_ceiling) bars_env \<Rightarrow> int \<Rightarrow> (instr_id \<times> u32 \<times> 'd bar list) list \<Rightarrow> 'd bars_manager \<Rightarrow>
     (bool \<times> 'd bars_manager) option" where
  "start_all e now [] m = Some (True, m)"
| "start_all e now ((x, _, hist) # es) m =
     (case sm_find (bm_instrumentsBars m) x of
        None \<Rightarrow> Some (False, m)
      | Some _ \<Rightarrow>
          (case restore_bars e now x hist m of
             None \<Rightarrow> None
           | Some m1 \<Rightarrow> (case outputToDbOnStart e x m1 of None \<Rightarrow> None | Some m2 \<Rightarrow> start_all e now es m2)))"

text \<open>
  The database: what \<open>readBars\<close> appends to the vector, \<open>None\<close> when it fails. The file:
  its records as time stamps with the valid quotes they hold; \<open>secs\<close> is the number of seconds
  from midnight of a time stamp.
\<close>

fun readBarsFromDb ::
    "(instr_id \<Rightarrow> u32 \<Rightarrow> 'd bar list option) \<Rightarrow> (instr_id \<times> u32 \<times> 'd bar list) list \<Rightarrow>
     bool \<times> (instr_id \<times> u32 \<times> 'd bar list) list" where
  "readBarsFromDb db [] = (True, [])"
| "readBarsFromDb db ((x, n, bs) # es) =
     (if n > 0
      then (case db x n of
              None \<Rightarrow> (False, (x, n, bs) # es)
            | Some new \<Rightarrow> map_prod id ((#) (x, n, bs @ new)) (readBarsFromDb db es))
      else map_prod id ((#) (x, n, bs)) (readBarsFromDb db es))"

definition historicalBar :: "'d bars_manager \<Rightarrow> int \<Rightarrow> 'd quote \<Rightarrow> nat \<Rightarrow> ('d::zero) bar option" where
  "historicalBar m ts q n =
     map_option (\<lambda>i. bar_clear\<lparr>hl_index := n + 1, hl_open_timestamp := ts, hl_source := bm_source m,
        hl_displayName := ins_displayName i, hl_exchange := ins_exchange i, hl_duration := bm_barLength m\<rparr>)
       (q_instrument q)"

definition processHistoricalQuote ::
    "(int \<Rightarrow> u32) \<Rightarrow> 'd quote \<Rightarrow> int \<Rightarrow> ('d::floor_ceiling) bars_manager \<Rightarrow> 'd bars_manager option" where
  "processHistoricalQuote secs q ts m =
     (let x = q_instrumentId q in
      case sm_find (bm_instrumentsBarsInfo m) x of
        None \<Rightarrow> Some m
      | Some (n, bars) \<Rightarrow>
          (let put = (\<lambda>bs. m\<lparr>bm_instrumentsBarsInfo := sm_assign (bm_instrumentsBarsInfo m) x
                              (n, upd_back (\<lambda>b. snd (bar_onQuote q b)) bs)\<rparr>);
               fresh = (\<lambda>bs. map_option (\<lambda>b. put (bs @ [b])) (historicalBar m ts q (length bs)))
           in if bars = [] then fresh bars
              else if bm_barLength m = 0 then None
              else if secs ts div bm_barLength m > secs (hl_open_timestamp (last bars)) div bm_barLength m
              then (case calculateAtr bars (bm_atrNumOfPeriods m) True of
                      None \<Rightarrow> None
                    | Some (bars1, _) \<Rightarrow> fresh (upd_back (br_formed_update (\<lambda>_. True)) bars1))
              else Some (put bars)))"

fun read_records ::
    "(int \<Rightarrow> u32) \<Rightarrow> (int \<times> 'd quote) list \<Rightarrow> ('d::floor_ceiling) bars_manager \<Rightarrow> 'd bars_manager option" where
  "read_records secs [] m = Some m"
| "read_records secs ((ts, q) # rs) m =
     (case (if q_isValid q then processHistoricalQuote secs q ts m else Some m) of
        None \<Rightarrow> None
      | Some m1 \<Rightarrow> read_records secs rs m1)"

definition trim_history :: "u32 \<times> 'd bar list \<Rightarrow> u32 \<times> 'd bar list" where
  "trim_history i =
     (if 0 < fst i \<and> unat (fst i) < length (snd i)
      then (fst i, drop (length (snd i) - unat (fst i) - 1) (snd i)) else i)"

definition readBarsFromFile ::
    "(int \<Rightarrow> u32) \<Rightarrow> (int \<times> 'd quote) list option \<Rightarrow> ('d::floor_ceiling) bars_manager \<Rightarrow>
     (bool \<times> 'd bars_manager) option" where
  "readBarsFromFile secs file m =
     (case file of
        None \<Rightarrow> Some (False, m)
      | Some rs \<Rightarrow>
          map_option (\<lambda>m1. (True, m1\<lparr>bm_instrumentsBarsInfo :=
               map (\<lambda>(x, i). (x, trim_history i)) (bm_instrumentsBarsInfo m1)\<rparr>))
            (read_records secs rs m))"

datatype 'd restore_mode =
  RestoreNone
| RestoreDb "instr_id \<Rightarrow> u32 \<Rightarrow> 'd bar list option"
| RestoreFile "int \<Rightarrow> u32" "(int \<times> 'd quote) list option"

fun restoreBars :: "'d restore_mode \<Rightarrow> ('d::floor_ceiling) bars_manager \<Rightarrow> (bool \<times> 'd bars_manager) option" where
  "restoreBars RestoreNone m = Some (True, m)"
| "restoreBars (RestoreDb db) m =
     (let (ok, es) = readBarsFromDb db (bm_instrumentsBarsInfo m) in Some (ok, m\<lparr>bm_instrumentsBarsInfo := es\<rparr>))"
| "restoreBars (RestoreFile secs file) m = readBarsFromFile secs file m"

definition bm_start ::
    "('d::floor_ceiling) bars_env \<Rightarrow> int \<Rightarrow> 'd restore_mode \<Rightarrow> 'd bars_manager \<Rightarrow> (bool \<times> 'd bars_manager) option" where
  "bm_start e now mode m =
     (case restoreBars mode m of
        None \<Rightarrow> None
      | Some (ok, m1) \<Rightarrow> if \<not> ok then Some (False, m1) else start_all e now (bm_instrumentsBarsInfo m1) m1)"

subsection \<open>Queries\<close>

definition getBars :: "'d bars_manager \<Rightarrow> instr_id \<Rightarrow> 'd bar list" where
  "getBars m x = bm_bars m x"

definition getTrades :: "'d bars_manager \<Rightarrow> instr_id \<Rightarrow> trades" where
  "getTrades m x = (case sm_find (bm_instrumentTrades m) x of None \<Rightarrow> [] | Some ts \<Rightarrow> ts)"

definition getAvgVolByPrice :: "trades \<Rightarrow> 'd::floor_ceiling" where
  "getAvgVolByPrice ts =
     (if ts = [] then 0
      else of_int (foldl (\<lambda>s e. size_add_eq s (tw_add (pti_volBid (snd e)) (pti_volAsk (snd e)))) 0 ts) / of_nat (length ts))"

definition getVolByPrice :: "ticks \<Rightarrow> trades \<Rightarrow> size" where
  "getVolByPrice price ts =
     (case sm_find ts price of None \<Rightarrow> 0 | Some i \<Rightarrow> tw_add (pti_volBid i) (pti_volAsk i))"

definition back_bars :: "'d bars_manager \<Rightarrow> instr_id \<Rightarrow> nat \<Rightarrow> nat \<Rightarrow> 'd bar list" where
  "back_bars m x count offset =
     (let bs = bm_bars m x in
      if offset < length bs then take (min count (length bs - offset)) (drop offset (rev bs)) else [])"

definition getBackBarsCumVol :: "'d bars_manager \<Rightarrow> instr_id \<Rightarrow> nat \<Rightarrow> nat \<Rightarrow> size" where
  "getBackBarsCumVol m x count offset = foldl (\<lambda>y b. size_add_eq y (hl_volume b)) 0 (back_bars m x count offset)"

definition getBackBarsHigh :: "'d bars_manager \<Rightarrow> instr_id \<Rightarrow> nat \<Rightarrow> ticks" where
  "getBackBarsHigh m x count =
     foldl (\<lambda>y b. if \<not> tw_isValid y then hl_high b else tw_max y (hl_high b)) invalid_ticks (back_bars m x count 0)"

definition getBackBarsLow :: "'d bars_manager \<Rightarrow> instr_id \<Rightarrow> nat \<Rightarrow> ticks" where
  "getBackBarsLow m x count =
     foldl (\<lambda>y b. if \<not> tw_isValid y then hl_low b else tw_min y (hl_low b)) invalid_ticks (back_bars m x count 0)"

definition getBackBarsHighLowRangeAvg :: "('d::floor_ceiling) bars_manager \<Rightarrow> instr_id \<Rightarrow> nat \<Rightarrow> nat \<Rightarrow> ticks" where
  "getBackBarsHighLowRangeAvg m x count offset =
     (let bs = back_bars m x count offset;
          y = foldl (\<lambda>y b. if hl_numOfTrades b > 0 then tw_add_eq False y (tw_sub (hl_high b) (hl_low b)) else y) 0 bs
      in if bs \<noteq> [] \<and> tw_isValid y \<and> hl_instrument (last (bm_bars m x)) \<noteq> None
         then tc_nearestTick (of_int y / (of_nat (length bs) :: 'd)) else y)"

subsection \<open>The managers by bar length (BarsManagerFactory)\<close>

definition getBarsManager ::
    "u32 \<Rightarrow> int \<Rightarrow> u32 \<Rightarrow> ((u32 \<times> int) \<times> u32, 'd bars_manager) stdmap \<Rightarrow>
     ((u32 \<times> int) \<times> u32, 'd bars_manager) stdmap \<times> 'd bars_manager" where
  "getBarsManager barLength maxBars atrPeriods ms =
     (let mx = (if maxBars < 0 then - 1 else maxBars)
      in sm_get_or_create ms ((barLength, mx), atrPeriods) (bm_new barLength mx atrPeriods))"

end
