(* ===== verification/BarsFacts.thy ===== *)
theory BarsFacts
  imports BarsManager
begin

section \<open>A bar is the summary of its trades\<close>

text \<open>
  The reference definition of a bar: first, last, highest and lowest price, sums of the sizes,
  split by the side that was hit and by price. \<open>bar_of ts b\<close> says that \<open>b\<close> is the summary of
  the trades \<open>ts\<close>; one quote keeps it.
\<close>

definition t_price :: "'d quote \<Rightarrow> ticks" where "t_price q = ps_price (q_trade q)"
definition t_size :: "'d quote \<Rightarrow> size" where "t_size q = ps_size (q_trade q)"

definition hits_ask :: "'d quote \<Rightarrow> bool" where
  "hits_ask q \<longleftrightarrow> tr_aggressorSide (q_trade q) = kAggressorSideBuy \<or>
     tr_aggressorSide (q_trade q) = kAggressorSideUnknown \<and>
     ps_price (pl_bid (q_book q ! 0)) < t_price q \<and> ps_price (pl_ask (q_book q ! 0)) \<le> t_price q"

definition hits_bid :: "'d quote \<Rightarrow> bool" where
  "hits_bid q \<longleftrightarrow> tr_aggressorSide (q_trade q) = kAggressorSideSell \<or>
     tr_aggressorSide (q_trade q) = kAggressorSideUnknown \<and> t_price q \<le> ps_price (pl_bid (q_book q ! 0))"

definition vol :: "('d quote \<Rightarrow> bool) \<Rightarrow> 'd quote list \<Rightarrow> int" where
  "vol P ts = (\<Sum>q\<leftarrow>ts. if P q then t_size q else 0)"

lemma vol_simps [simp]:
  "vol P [] = 0" "vol P (ts @ [q]) = vol P ts + (if P q then t_size q else 0)"
  by (simp_all add: vol_def)

lemma vol_bounds:
  assumes "\<forall>q \<in> set ts. 0 \<le> t_size q"
  shows "0 \<le> vol P ts" "vol P ts \<le> vol (\<lambda>_. True) ts"
  using assms by (induction ts) (auto simp: vol_def)

lemma updateTrade_eq:
  "updateTrade q (vb, va) =
     (if hits_bid q then size_add_eq vb (t_size q) else vb, if hits_ask q then size_add_eq va (t_size q) else va)"
  by (auto simp: updateTrade_def hits_bid_def hits_ask_def t_price_def t_size_def Let_def split: eAggressorSide.splits)

text \<open>The volumes of a table of trades, per price.\<close>

definition vols_at :: "trades \<Rightarrow> ticks \<Rightarrow> size \<times> size" where
  "vols_at tr p = (case sm_find tr p of None \<Rightarrow> (0, 0) | Some i \<Rightarrow> (pti_volBid i, pti_volAsk i))"

lemma vols_at_update:
  assumes "sm_ok tr"
  shows "vols_at (updateTradesMaps q tr) p = (if p = t_price q then updateTrade q (vols_at tr p) else vols_at tr p)"
    and "sm_ok (updateTradesMaps q tr)"
  using assms
  by (auto simp: updateTradesMaps_def vols_at_def t_price_def sm_get_or_create_def Let_def price_trades_clear_def
      sm_find_assign sm_find_insert sm_ok_insert split: option.splits prod.splits)

definition trades_ok :: "'d quote list \<Rightarrow> trades \<Rightarrow> bool" where
  "trades_ok ts tr \<longleftrightarrow> sm_ok tr \<and>
     (\<forall>p. vols_at tr p = (vol (\<lambda>q. hits_bid q \<and> t_price q = p) ts, vol (\<lambda>q. hits_ask q \<and> t_price q = p) ts))"

text \<open>Sizes for which no sum overflows.\<close>

definition sizes_ok :: "'d quote list \<Rightarrow> bool" where
  "sizes_ok ts \<longleftrightarrow> (\<forall>q \<in> set ts. 0 \<le> t_size q) \<and> vol (\<lambda>_. True) ts \<le> INT32_MAX"

lemma sizes_ok_snoc: "sizes_ok (ts @ [q]) \<Longrightarrow> sizes_ok ts"
  by (auto simp: sizes_ok_def)

lemma size_add_vol:
  assumes "sizes_ok (ts @ [q])"
  shows "size_add_eq (vol P ts) (t_size q) = vol P ts + t_size q"
proof -
  have "0 \<le> vol P ts" "vol P ts \<le> vol (\<lambda>_. True) ts" "0 \<le> t_size q" "vol (\<lambda>_. True) ts + t_size q \<le> INT32_MAX"
    using assms vol_bounds [of ts P] by (auto simp: sizes_ok_def)
  then show ?thesis by (intro tw_exact) (auto simp: tw_ok_iff in_s32_iff INT32_MAX_def)
qed

lemma trades_ok_step:
  assumes "trades_ok ts tr" and "sizes_ok (ts @ [q])"
  shows "trades_ok (ts @ [q]) (updateTradesMaps q tr)"
  using assms(1) vols_at_update [of tr q]
  by (auto simp: trades_ok_def updateTrade_eq size_add_vol [OF assms(2)])

definition bar_of :: "'d quote list \<Rightarrow> 'd bar \<Rightarrow> bool" where
  "bar_of ts b \<longleftrightarrow> hl_numOfTrades b = of_nat (length ts) \<and> hl_volume b = vol (\<lambda>_. True) ts \<and>
     br_volBid b = vol hits_bid ts \<and> br_volAsk b = vol hits_ask ts \<and> trades_ok ts (br_trades b) \<and>
     (ts \<noteq> [] \<longrightarrow> hl_open b = t_price (hd ts) \<and> hl_close b = t_price (last ts) \<and>
        hl_high b = Max (t_price ` set ts) \<and> hl_low b = Min (t_price ` set ts) \<and>
        hl_range b = tw_sub (hl_high b) (hl_low b) \<and>
        hl_dir b = (if hl_close b > hl_open b then kUp else if hl_close b < hl_open b then kDown else kUnknownDir))"

lemma word_count_first:
  assumes "Suc n < 2 ^ 32"
  shows "(of_nat n + 1 = (1::u32)) \<longleftrightarrow> n = 0"
proof -
  have "unat (of_nat n :: u32) = n" using assms by (simp add: unsigned_of_nat take_bit_nat_eq_self)
  then show ?thesis by auto
qed

lemma bar_of_step:
  assumes b: "bar_of ts b" and q: "bar_takes q" and sz: "sizes_ok (ts @ [q])" and n: "Suc (length ts) < 2 ^ 32"
  shows "bar_of (ts @ [q]) (snd (bar_onQuote q b))"
proof -
  have first: "(hl_numOfTrades b + 1 = 1) \<longleftrightarrow> ts = []"
    using b word_count_first [OF n] by (simp add: bar_of_def)
  have tr: "trades_ok (ts @ [q]) (updateTradesMaps q (br_trades b))"
    using b sz by (auto simp: bar_of_def intro: trades_ok_step)
  define b1 where "b1 = bar_hloc (t_price q) (t_size q) b"
  have b1: "hl_numOfTrades b1 = hl_numOfTrades b + 1" "hl_close b1 = t_price q"
      "hl_volume b1 = size_add_eq (hl_volume b) (t_size q)" "hl_range b1 = tw_sub (hl_high b1) (hl_low b1)"
      "hl_dir b1 = (if hl_close b1 > hl_open b1 then kUp else if hl_close b1 < hl_open b1 then kDown else kUnknownDir)"
      "br_volBid b1 = br_volBid b" "br_volAsk b1 = br_volAsk b" "br_trades b1 = br_trades b"
    by (simp_all add: b1_def bar_hloc_def Let_def)
  have hl: "hl_open b1 = t_price (hd (ts @ [q])) \<and> hl_high b1 = Max (t_price ` set (ts @ [q])) \<and>
      hl_low b1 = Min (t_price ` set (ts @ [q]))"
  proof (cases "ts = []")
    case True
    then show ?thesis using first by (simp add: b1_def bar_hloc_def Let_def)
  next
    case False
    have mm: "hl_high b = Max (t_price ` set ts)" "hl_low b = Min (t_price ` set ts)" "hl_open b = t_price (hd ts)"
      using b False by (simp_all add: bar_of_def)
    then have "hl_low b \<le> hl_high b" using False by simp
    then have "hl_high b1 = max (t_price q) (hl_high b)" "hl_low b1 = min (t_price q) (hl_low b)" "hl_open b1 = hl_open b"
      using False first by (simp_all add: b1_def bar_hloc_def Let_def)
    then show ?thesis using False mm by simp
  qed
  have "snd (bar_onQuote q b) = updateTrades q b1"
    using q by (simp add: bar_onQuote_def b1_def t_price_def t_size_def)
  then show ?thesis
    using b1 hl b tr
    by (auto simp: bar_of_def updateTrades_def updateTrade_eq size_add_vol [OF sz] Let_def split: prod.splits)
qed

definition bar_run :: "'d quote list \<Rightarrow> 'd bar \<Rightarrow> 'd bar" where
  "bar_run qs b = fold (\<lambda>q b. snd (bar_onQuote q b)) qs b"

definition bar_fresh :: "'d bar \<Rightarrow> bool" where
  "bar_fresh b \<longleftrightarrow> hl_numOfTrades b = 0 \<and> hl_volume b = 0 \<and> br_volBid b = 0 \<and> br_volAsk b = 0 \<and> br_trades b = []"

lemma bar_of_fresh: "bar_fresh b \<Longrightarrow> bar_of [] b"
  by (simp add: bar_fresh_def bar_of_def trades_ok_def vols_at_def)

lemma newBar_fresh: "bar_fresh (newBar e n now x k)"
  by (simp add: bar_fresh_def newBar_def bar_clear_def hloc_clear_def hloc.defs bar.defs Let_def split: option.splits)

lemma bar_run_of:
  assumes "bar_fresh b" and "sizes_ok (filter bar_takes qs)" and "length qs < 2 ^ 32"
  shows "bar_of (filter bar_takes qs) (bar_run qs b)"
  using assms(2,3)
proof (induction qs rule: rev_induct)
  case Nil
  then show ?case using assms(1) by (simp add: bar_run_def bar_of_fresh)
next
  case (snoc q qs)
  have run: "bar_run (qs @ [q]) b = snd (bar_onQuote q (bar_run qs b))" by (simp add: bar_run_def)
  have IH: "bar_of (filter bar_takes qs) (bar_run qs b)"
    using snoc by (auto dest: sizes_ok_snoc split: if_splits)
  show ?case
  proof (cases "bar_takes q")
    case True
    have "Suc (length (filter bar_takes qs)) < 2 ^ 32"
      using snoc.prems(2) by (intro le_less_trans [OF Suc_le_mono [THEN iffD2, OF length_filter_le]]) simp
    then show ?thesis using True snoc.prems run bar_of_step [OF IH True] by simp
  next
    case False
    then show ?thesis using IH run by (simp add: bar_onQuote_def)
  qed
qed

text \<open>
  C18: the bar that the manager opens for an interval is, after any sequence of quotes, the summary
  of the normal trades among them, those of quotes in status success: open, close, high and low are
  the first, the last, the highest
  and the lowest price, the volume is the sum of the sizes, and the volumes at bid and ask, over
  all prices and for every price, are the sums over the trades that hit that side.
\<close>

theorem bar_summarises_trades:
  assumes "ts = filter bar_takes qs" and "ts \<noteq> []" and "sizes_ok ts" and "length qs < 2 ^ 32"
    and "b = bar_run qs (newBar e len now x k)"
  shows "hl_open b = t_price (hd ts) \<and> hl_close b = t_price (last ts) \<and>
    hl_high b = Max (t_price ` set ts) \<and> hl_low b = Min (t_price ` set ts) \<and>
    hl_volume b = (\<Sum>q\<leftarrow>ts. t_size q) \<and> unat (hl_numOfTrades b) = length ts \<and>
    br_volBid b = vol hits_bid ts \<and> br_volAsk b = vol hits_ask ts \<and>
    (\<forall>p. vols_at (br_trades b) p =
       (vol (\<lambda>q. hits_bid q \<and> t_price q = p) ts, vol (\<lambda>q. hits_ask q \<and> t_price q = p) ts))"
proof -
  have of: "bar_of ts b" using assms bar_run_of [OF newBar_fresh] by simp
  have "length ts < 2 ^ 32" using assms(1,4) le_less_trans [OF length_filter_le] by blast
  then have "unat (hl_numOfTrades b) = length ts"
    using of by (simp add: bar_of_def unsigned_of_nat take_bit_nat_eq_self)
  then show ?thesis using of assms(2) by (simp add: bar_of_def trades_ok_def vol_def)
qed

definition wit_instr :: "rat instrument" where
  "wit_instr = instrument_clear\<lparr>ins_keyId := 7, ins_tickNumerator := 1, ins_tickDenominator := 4\<rparr>"

text \<open>A vector that doubles its capacity is moved by the insertions that find it full.\<close>

definition wit_env :: "rat bars_env" where
  "wit_env = \<lparr>be_instr = (\<lambda>x. if x = 7 then Some wit_instr else None), be_processPatterns = True,
     be_outputToDb = True, be_moves = (\<lambda>n. n \<in> set [0, 1, 2, 4, 8, 16])\<rparr>"

definition wit_quote :: "ticks \<Rightarrow> size \<Rightarrow> rat quote" where
  "wit_quote p sz = setTrade p sz \<lparr>q_seqNum = 0, q_numTrades = 0, q_numBooks = 0, q_instrumentId = 7, q_status = kSuccess,
     q_open = 0, q_high = 0, q_low = 0, q_flag = 0, q_trade = trade_clear, q_book = replicate SIZE pl_clear, q_intSeqNum = 0,
     q_intGaps = 0, q_exTimestamp = 0, q_timestamp1 = 0, q_timestamp2 = 0, q_timestamp3 = 0, q_timestamp4 = 0,
     q_lastUpdate = 0, q_instrument = Some wit_instr\<rparr>"

lemma wit_quote_simps [simp]: "t_price (wit_quote p sz) = p" "t_size (wit_quote p sz) = sz"
  by (simp_all add: t_price_def t_size_def wit_quote_def setTrade_def ps_set_def q_mark_def)

theorem bar_summarises_trades_witness:
  "let b = bar_run [wit_quote 10 1, wit_quote 12 2, wit_quote 9 4] (newBar wit_env 60 0 7 1)
   in hl_open b = 10 \<and> hl_close b = 9 \<and> hl_high b = 12 \<and> hl_low b = 9 \<and> hl_volume b = 7"
proof -
  define qs where "qs = [wit_quote 10 1, wit_quote 12 2, wit_quote 9 4]"
  have ts: "qs = filter bar_takes qs" by (simp add: qs_def) code_simp
  have sz: "sizes_ok qs" by (simp add: qs_def sizes_ok_def vol_def INT32_MAX_def)
  have "t_price (hd qs) = 10" "t_price (last qs) = 9" "t_price ` set qs = {10, 12, 9}" "(\<Sum>q\<leftarrow>qs. t_size q) = 7"
    by (simp_all add: qs_def)
  then show ?thesis
    using bar_summarises_trades [OF ts _ sz, of _ wit_env 60 0 7 1] unfolding qs_def [symmetric] Let_def
    by (simp add: qs_def)
qed

end
