(* ===== verification/BarsSafety.thy ===== *)
theory BarsSafety
  imports BarsFacts
begin

section \<open>The pattern detectors stay inside their vectors\<close>

text \<open>
  Every position a pattern holds is a position of the bars it was built from, in every run of the
  manager with the hitch limit switched off: no access leaves a vector, no null instrument is
  read. Prices within 30 bits keep the ranges from overflowing.
\<close>

definition px_ok :: "ticks \<Rightarrow> bool" where
  "px_ok p \<longleftrightarrow> \<bar>p\<bar> < 2 ^ 30"

definition hl_ok :: "('d, 'a) hloc_scheme \<Rightarrow> bool" where
  "hl_ok h \<longleftrightarrow> px_ok (hl_high h) \<and> px_ok (hl_low h) \<and> px_ok (hl_open h) \<and> px_ok (hl_close h) \<and>
     hl_low h \<le> hl_high h \<and> hl_range h = hl_high h - hl_low h"

definition bar_ok :: "('d, 'a) hloc_scheme \<Rightarrow> bool" where
  "bar_ok b \<longleftrightarrow> hl_ok b \<or> hl_numOfTrades b = 0 \<and> \<not> isHLOCValid b"

definition idx_ok :: "nat \<Rightarrow> 'd pattern \<Rightarrow> bool" where
  "idx_ok n p \<longleftrightarrow> 1 \<le> pt_firstBarIndex p \<and>
     pt_firstBarIndex p \<le> pt_highBarIndex p \<and> pt_highBarIndex p \<le> pt_lastBarIndex p \<and>
     pt_firstBarIndex p \<le> pt_lowBarIndex p \<and> pt_lowBarIndex p \<le> pt_lastBarIndex p \<and> pt_lastBarIndex p \<le> n"

definition pat_ok :: "'d instrument option \<Rightarrow> nat \<Rightarrow> 'd pattern \<Rightarrow> bool" where
  "pat_ok i n p \<longleftrightarrow> idx_ok n p \<and> hl_ok p \<and> pt_simpleHitchCount p = 0 \<and> hl_instrument p = i"

definition pats_ok :: "'d instrument option \<Rightarrow> nat \<Rightarrow> 'd pattern list \<Rightarrow> bool" where
  "pats_ok i n ps \<longleftrightarrow> (\<forall>p \<in> set ps. pat_ok i n p)"

definition bars_ok :: "'d instrument option \<Rightarrow> 'd bar list \<Rightarrow> bool" where
  "bars_ok i bs \<longleftrightarrow> (\<forall>b \<in> set bs. bar_ok b \<and> hl_instrument b = i)"

subsection \<open>Bars\<close>

lemma px_ok_valid: "px_ok p \<Longrightarrow> tw_ok p"
  by (auto simp: px_ok_def tw_ok_iff)

lemma tw_sub_px: "px_ok a \<Longrightarrow> px_ok b \<Longrightarrow> tw_sub a b = a - b"
  by (intro tw_exact) (auto simp: px_ok_def tw_ok_iff in_s32_iff)

lemma hl_ok_valid: "hl_ok h \<Longrightarrow> isHLOCValid h"
proof -
  assume h: "hl_ok h"
  then have "tw_ok (hl_range h)" by (auto simp: hl_ok_def px_ok_def tw_ok_iff)
  with h show ?thesis by (auto simp: hl_ok_def isHLOCValid_def dest: px_ok_valid)
qed

lemma bar_ok_valid: "bar_ok b \<Longrightarrow> isHLOCValid b \<Longrightarrow> hl_ok b"
  by (auto simp: bar_ok_def)

lemma bar_ok_busy: "bar_ok b \<Longrightarrow> \<not> bar_idle b \<Longrightarrow> hl_ok b"
  by (auto simp: bar_ok_def bar_idle_def)

lemma newBar_ok: "bar_ok (newBar e n now x k)" "hl_instrument (newBar e n now x k) = be_instr e x"
  by (auto simp: bar_ok_def isHLOCValid_def newBar_def bar_clear_def hloc_clear_def hloc.defs bar.defs Let_def
      split: option.splits)

lemma bar_onQuote_ok:
  assumes "bar_ok b" and "bar_takes q \<Longrightarrow> px_ok (t_price q)"
  shows "bar_ok (snd (bar_onQuote q b))" "hl_instrument (snd (bar_onQuote q b)) = hl_instrument b"
proof -
  have "hl_ok (bar_hloc (t_price q) sz b)" if p: "px_ok (t_price q)" for sz
  proof (cases "hl_numOfTrades b = 0")
    case True
    then show ?thesis using p by (simp add: bar_hloc_def Let_def hl_ok_def tw_sub_px)
  next
    case False
    then have "hl_ok b" using assms(1) by (auto simp: bar_ok_def)
    then show ?thesis using p False by (auto simp: bar_hloc_def Let_def hl_ok_def tw_sub_px)
  qed
  then show "bar_ok (snd (bar_onQuote q b))"
    using assms by (auto simp: bar_onQuote_def updateTrades_def t_price_def bar_ok_def hl_ok_def Let_def split: prod.splits)
  show "hl_instrument (snd (bar_onQuote q b)) = hl_instrument b"
    by (auto simp: bar_onQuote_def updateTrades_def bar_hloc_def Let_def split: prod.splits)
qed

subsection \<open>Patterns\<close>

lemma pat_ok_mono: "pat_ok i n p \<Longrightarrow> n \<le> k \<Longrightarrow> pat_ok i k p"
  by (auto simp: pat_ok_def idx_ok_def)

lemma addPattern_ok:
  assumes "pats_ok i n ps" and "hl_ok h" and "hl_instrument h = i" and "1 \<le> k" and "k \<le> n"
  shows "pats_ok i n (addPattern par ty h k ps)" "length (addPattern par ty h k ps) = Suc (length ps)"
    "addPattern par ty h k ps \<noteq> []"
    "butlast (addPattern par ty h k ps) = ps"
  using assms hl_ok_valid [OF assms(2)]
  by (auto simp: addPattern_def pats_ok_def pat_ok_def idx_ok_def hl_ok_def pattern_clear_def hloc.defs pattern.defs)

lemma updatePattern_fields:
  assumes "isHLOCValid h"
  shows "hl_high (updatePattern h k p) = max (hl_high p) (hl_high h)"
    "hl_low (updatePattern h k p) = min (hl_low p) (hl_low h)"
    "hl_range (updatePattern h k p) = tw_sub (hl_high (updatePattern h k p)) (hl_low (updatePattern h k p))"
    "hl_open (updatePattern h k p) \<in> {hl_open p, hl_open h}"
    "hl_close (updatePattern h k p) \<in> {hl_close p, hl_close h}"
    "pt_simpleHitchCount (updatePattern h k p) = pt_simpleHitchCount p"
    "hl_instrument (updatePattern h k p) = hl_instrument p"
  using assms by (simp_all add: updatePattern_def Let_def)

lemma updatePattern_index:
  assumes "isHLOCValid h" and "pt_firstBarIndex p \<le> pt_lastBarIndex p"
  shows "pt_firstBarIndex (updatePattern h k p) = min k (pt_firstBarIndex p)"
    "pt_lastBarIndex (updatePattern h k p) = max k (pt_lastBarIndex p)"
    "pt_highBarIndex (updatePattern h k p) \<in> {k, pt_highBarIndex p}"
    "pt_lowBarIndex (updatePattern h k p) \<in> {k, pt_lowBarIndex p}"
  using assms by (simp_all add: updatePattern_def Let_def)

lemma updatePattern_ok:
  assumes p: "pat_ok i n p" and h: "isHLOCValid h \<Longrightarrow> hl_ok h" and k: "1 \<le> k" "k \<le> n"
  shows "pat_ok i n (updatePattern h k p)"
proof (cases "isHLOCValid h")
  case True
  have ok: "hl_ok h" "hl_ok p" and idx: "idx_ok n p" using p h [OF True] by (simp_all add: pat_ok_def)
  have "hl_ok (updatePattern h k p)"
    using ok updatePattern_fields [OF True, of k p]
    by (auto simp: hl_ok_def max_def min_def tw_sub_px)
  moreover have "idx_ok n (updatePattern h k p)"
    using idx k updatePattern_index [OF True, of p k] by (auto simp: idx_ok_def)
  ultimately show ?thesis
    using p updatePattern_fields(6,7) [OF True, of k p] by (simp add: pat_ok_def)
qed (simp add: updatePattern_def p)

lemma pats_ok_simps [simp]:
  "pats_ok i n []" "pats_ok i n (p # ps) \<longleftrightarrow> pat_ok i n p \<and> pats_ok i n ps"
  "pats_ok i n (ps @ qs) \<longleftrightarrow> pats_ok i n ps \<and> pats_ok i n qs"
  by (auto simp: pats_ok_def)

lemma pats_ok_last: "pats_ok i n ps \<Longrightarrow> ps \<noteq> [] \<Longrightarrow> pat_ok i n (last ps)"
  by (simp add: pats_ok_def)

lemma pats_ok_butlast: "pats_ok i n ps \<Longrightarrow> pats_ok i n (butlast ps)"
  by (auto simp: pats_ok_def dest: in_set_butlastD)

lemma pats_ok_mono: "pats_ok i n ps \<Longrightarrow> n \<le> k \<Longrightarrow> pats_ok i k ps"
  by (auto simp: pats_ok_def intro: pat_ok_mono)

lemma upd_back_ok:
  assumes "pats_ok i n ps" and "\<And>p. pat_ok i n p \<Longrightarrow> pat_ok i n (f p)"
  shows "pats_ok i n (upd_back f ps)"
  using assms by (simp add: upd_back_def pats_ok_butlast pats_ok_last)

lemma bar_at_ok: "bars_ok i bars \<Longrightarrow> 1 \<le> k \<Longrightarrow> k \<le> length bars \<Longrightarrow> \<exists>b. bar_at bars k = Some b \<and> bar_ok b"
  by (auto simp: bar_at_def bars_ok_def)

lemma absorb_ok:
  assumes "bars_ok i bars" and "\<forall>k \<in> set is. 1 \<le> k \<and> k \<le> length bars" and "pats_ok i (length bars) ps"
  shows "\<exists>ps1. absorb use bars is ps = Some ps1 \<and> pats_ok i (length bars) ps1"
  using assms(2,3)
proof (induction "is" arbitrary: ps)
  case (Cons k ks)
  obtain b where b: "bar_at bars k = Some b" "bar_ok b" using bar_at_ok [OF assms(1)] Cons.prems by auto
  have "pats_ok i (length bars) (upd_back (updatePattern b k) ps)"
    using Cons.prems b(2) by (intro upd_back_ok updatePattern_ok) (auto intro: bar_ok_valid)
  then show ?case using Cons b by auto
qed simp

lemma absorb_until_ok:
  assumes "bars_ok i bars" and "\<forall>k \<in> set is. 1 \<le> k \<and> k \<le> length bars" and "pats_ok i (length bars) ps"
  shows "\<exists>ps1. absorb_until bars is ps = Some ps1 \<and> pats_ok i (length bars) ps1"
  using assms(2,3)
proof (induction "is" arbitrary: ps)
  case (Cons k ks)
  obtain b where b: "bar_at bars k = Some b" "bar_ok b" using bar_at_ok [OF assms(1)] Cons.prems by auto
  have "pats_ok i (length bars) (upd_back (updatePattern b k) ps)"
    using Cons.prems b(2) by (intro upd_back_ok updatePattern_ok) (auto intro: bar_ok_valid)
  then show ?case using Cons b by auto
qed simp

lemma reach_back_ok:
  assumes "bars_ok i bars" and "pats_ok i (length bars) ps" and "2 \<le> length ps"
  shows "\<exists>ps1. reach_back use bars ps = Some ps1 \<and> pats_ok i (length bars) ps1"
proof -
  have "pat_ok i (length bars) (ps ! (length ps - 2))" using assms(2,3) by (simp add: pats_ok_def)
  then have "pt_lastBarIndex (ps ! (length ps - 2)) \<le> length bars" by (simp add: pat_ok_def idx_ok_def)
  then have "\<exists>ps1. absorb u bars (down_from (pt_lastBarIndex (ps ! (length ps - 2))) k) ps = Some ps1 \<and> pats_ok i (length bars) ps1"
    if "1 \<le> k" for k u
    using that assms(1,2) by (intro absorb_ok) (auto simp: down_from_def)
  then show ?thesis using assms(2,3) by (simp add: reach_back_def Let_def)
qed

subsection \<open>The three detectors\<close>

lemma last_swing_less: "last_swing n ps = Some k \<Longrightarrow> k < n"
  by (induction n) (auto split: if_splits)

definition busy :: "'d instrument option \<Rightarrow> 'd bar list \<Rightarrow> bool" where
  "busy i bars \<longleftrightarrow> bars_ok i bars \<and> bars \<noteq> [] \<and> \<not> bar_idle (last bars)"

lemma busy_last: "busy i bars \<Longrightarrow> hl_ok (last bars) \<and> hl_instrument (last bars) = i \<and> 1 \<le> length bars"
  by (cases bars) (auto simp: busy_def bars_ok_def intro: bar_ok_busy)

lemma simple_bar_ok:
  assumes b: "busy i bars" and ps: "pats_ok i (length bars) ps"
  shows "\<exists>ps1. simple_bar bars ps = Some ps1 \<and> pats_ok i (length bars) ps1"
proof -
  have add: "pats_ok i (length bars) (addPattern kSimple ty (last bars) (length bars) ps)" for ty
    using busy_last [OF b] ps by (intro addPattern_ok) auto
  have upd: "pat_ok i (length bars) (updatePattern (last bars) (length bars) p)" if "p \<in> set ps" for p
    using busy_last [OF b] ps that by (intro updatePattern_ok) (auto simp: pats_ok_def)
  have at: "bar_at bars (pt_lastBarIndex (ps ! k)) \<noteq> None" if "last_swing (length ps) ps = Some k" for k
  proof -
    have "pat_ok i (length bars) (ps ! k)" using ps last_swing_less [OF that] by (simp add: pats_ok_def)
    then show ?thesis by (auto simp: bar_at_def pat_ok_def idx_ok_def)
  qed
  have set: "pats_ok i (length bars) (ps[k := updatePattern (last bars) (length bars) (ps ! k)])"
    if "last_swing (length ps) ps = Some k" for k
    using ps upd last_swing_less [OF that] set_update_subset_insert [of ps k] by (force simp: pats_ok_def)
  have "hl_numOfTrades (last bars) \<noteq> 0" using b by (simp add: busy_def bar_idle_def)
  then show ?thesis
    using add at set by (auto simp: simple_bar_def Let_def split: option.split)
qed

lemma merge_back_ok:
  assumes "pats_ok i n ps" and "pat_ok i n s"
  shows "pats_ok i n (merge_back par s ps)"
proof -
  have s: "hl_ok s" "1 \<le> pt_lastBarIndex s" "pt_lastBarIndex s \<le> n" "hl_instrument s = i"
    using assms(2) by (auto simp: pat_ok_def idx_ok_def)
  then show ?thesis
    using assms(1) by (auto simp: merge_back_def intro!: addPattern_ok upd_back_ok updatePattern_ok)
qed

lemma fold_merge_back_ok:
  "pats_ok i n ps \<Longrightarrow> pats_ok i n ss \<Longrightarrow> pats_ok i n (fold (merge_back par) ss ps)"
  by (induction ss arbitrary: ps) (auto intro: merge_back_ok)

lemma pat_ok_mark: "pat_ok i n p \<Longrightarrow> pat_ok i n (p\<lparr>hl_dir := d, pt_type := ty\<rparr>)"
  by (simp add: pat_ok_def idx_ok_def hl_ok_def)

lemma first_pattern_ok:
  assumes ss: "pats_ok i n simples" "simples \<noteq> []" and n: "1 \<le> n"
  shows "pats_ok i n (first_pattern par ty n simples)"
proof -
  have s: "pat_ok i n (last simples)" using pats_ok_last [OF ss] .
  then have sl: "hl_ok (last simples)" "hl_instrument (last simples) = i"
      "1 \<le> pt_lastBarIndex (last simples)" "pt_lastBarIndex (last simples) \<le> n"
    by (auto simp: pat_ok_def idx_ok_def)
  have f: "pats_ok i n (fold (merge_back par) (rev (butlast simples)) [])"
    using pats_ok_butlast [OF ss(1)] by (intro fold_merge_back_ok) (simp_all add: pats_ok_def)
  have add: "pats_ok i n (addPattern par ty (last simples) k [])" if "1 \<le> k" "k \<le> n" for k
    using sl that by (intro addPattern_ok) simp_all
  have "pats_ok i n (upd_back (\<lambda>p. (updatePattern (last simples) (pt_lastBarIndex (last simples)) p)
      \<lparr>hl_dir := d, pt_type := ty\<rparr>) (fold (merge_back par) (rev (butlast simples)) []))" for d
    using f sl by (intro upd_back_ok pat_ok_mark updatePattern_ok)
  then show ?thesis using add n sl by (simp add: first_pattern_def Let_def)
qed

lemma l1_processSwing_ok:
  assumes b: "busy i bars" and ss: "pats_ok i (length bars) simples" "simples \<noteq> []" and ps: "pats_ok i (length bars) ps"
  shows "\<exists>ps1. l1_processSwing mv bars simples ps = Some ps1 \<and> pats_ok i (length bars) ps1"
proof (cases "ps = []")
  case True
  then show ?thesis using first_pattern_ok [OF ss] busy_last [OF b] by (simp add: l1_processSwing_def Let_def)
next
  case False
  let ?n = "length bars"
  have s: "hl_ok (last simples)" "hl_instrument (last simples) = i"
    using pats_ok_last [OF ss] by (auto simp: pat_ok_def)
  have lp: "pat_ok i ?n (last ps)" using pats_ok_last [OF ps False] .
  have bo: "bars_ok i bars" using b by (simp add: busy_def)
  define ad where "ad = addPattern kSwingLevel1 kSwing (last simples) ?n ps"
  have ad: "pats_ok i ?n ad" "2 \<le> length ad"
    using addPattern_ok [OF ps s] busy_last [OF b] False by (cases ps; simp add: ad_def)+
  have upd: "pats_ok i ?n (upd_back (updatePattern (last bars) ?n) ps)"
    using ps busy_last [OF b] by (intro upd_back_ok updatePattern_ok) auto
  have un: "\<exists>ps1. absorb_until bars (down_from (?n - 1) (pt_lastBarIndex (last ps) + 2)) ad = Some ps1 \<and> pats_ok i ?n ps1"
    using ad by (intro absorb_until_ok [OF bo]) (auto simp: down_from_def)
  have rb: "\<exists>ps1. reach_back (\<lambda>_ _. True) bars ad = Some ps1 \<and> pats_ok i ?n ps1"
    using reach_back_ok [OF bo ad] .
  have "\<not> pt_simpleHitchCount (last ps) > 0" using lp by (simp add: pat_ok_def)
  then show ?thesis
    using False un rb upd by (simp add: l1_processSwing_def Let_def ad_def)
qed

lemma l1_hitch_ok:
  assumes b: "busy i bars" and ss: "pats_ok i (length bars) simples" "simples \<noteq> []" and ps: "pats_ok i (length bars) ps"
    and off: "mx < 0"
  shows "pats_ok i (length bars) (l1_processHitchOrTransitional mx bars simples ps)"
proof -
  have "pats_ok i (length bars) (upd_back (updatePattern (last simples) (length bars)) ps)"
    using ps busy_last [OF b] pats_ok_last [OF ss] by (intro upd_back_ok updatePattern_ok) (auto simp: pat_ok_def)
  then show ?thesis using ps off by (simp add: l1_processHitchOrTransitional_def Let_def)
qed

lemma doProcessSwing_ok:
  assumes b: "busy i bars" and ss: "pats_ok i (length bars) simples" "simples \<noteq> []" and ps: "pats_ok i (length bars) ps"
  shows "\<exists>ps1. doProcessSwing bars simples ps = Some ps1 \<and> pats_ok i (length bars) ps1"
proof (cases "ps = []")
  case True
  then show ?thesis using first_pattern_ok [OF ss] busy_last [OF b] by (simp add: doProcessSwing_def Let_def)
next
  case False
  define ad where "ad = addPattern kSwingLevel2 kTrend (last bars) (length bars) ps"
  have ad: "pats_ok i (length bars) ad" "2 \<le> length ad"
    using addPattern_ok [OF ps, of "last bars"] busy_last [OF b] False by (cases ps; simp add: ad_def)+
  have "pats_ok i (length bars) (upd_back (updatePattern (last bars) (length bars)) ps)"
    using ps busy_last [OF b] by (intro upd_back_ok updatePattern_ok) auto
  then show ?thesis
    using False reach_back_ok [OF _ ad] b by (simp add: doProcessSwing_def Let_def ad_def busy_def)
qed

lemma trend_index_ok: "pat_ok i n p \<Longrightarrow> pat_ok i n (processTrendSwingIndex c p)"
  by (simp add: processTrendSwingIndex_def pat_ok_def idx_ok_def hl_ok_def)

lemma trend_swings_ok: "pat_ok i n p \<Longrightarrow> pat_ok i n (trend_swings l1 p)"
proof -
  have "pat_ok i n p \<Longrightarrow> pat_ok i n (fold (\<lambda>c p. if f c p then processTrendSwingIndex c p else p) cs p)" for f cs
    by (induction cs arbitrary: p) (auto intro: trend_index_ok)
  then show "pat_ok i n p \<Longrightarrow> pat_ok i n (trend_swings l1 p)"
    by (simp add: trend_swings_def trend_index_ok)
qed

lemma l2_processSwing_ok:
  assumes b: "busy (Some j) bars" and ss: "pats_ok (Some j) (length bars) simples" "simples \<noteq> []"
    and ps: "pats_ok (Some j) (length bars) ps"
  shows "\<exists>ps1. l2_processSwing bars dyn l1 simples ps = Some ps1 \<and> pats_ok (Some j) (length bars) ps1"
proof -
  obtain ps1 where 1: "doProcessSwing bars simples ps = Some ps1" "pats_ok (Some j) (length bars) ps1"
    using doProcessSwing_ok [OF b ss ps] by blast
  have "hl_instrument (last ps1) = Some j" if "ps1 \<noteq> []" using pats_ok_last [OF 1(2) that] by (simp add: pat_ok_def)
  moreover have "pats_ok (Some j) (length bars) (upd_back (trend_swings ls) ps1)" for ls
    using 1(2) by (intro upd_back_ok trend_swings_ok)
  ultimately show ?thesis using 1 by (simp add: l2_processSwing_def Let_def)
qed

lemma l2_hitch_ok:
  assumes b: "busy i bars" and ss: "pats_ok i (length bars) simples" "simples \<noteq> []" and ps: "pats_ok i (length bars) ps"
  shows "pats_ok i (length bars) (l2_processHitchOrTransitional bars simples ps)"
proof -
  have "pats_ok i (length bars) (upd_back (updatePattern (last simples) (length bars)) ps)"
    using ps busy_last [OF b] pats_ok_last [OF ss] by (intro upd_back_ok updatePattern_ok) (auto simp: pat_ok_def)
  then show ?thesis using ps by (simp add: l2_processHitchOrTransitional_def)
qed

subsection \<open>The manager\<close>

definition known :: "'d bars_env \<Rightarrow> instr_id \<Rightarrow> bool" where
  "known e x \<longleftrightarrow> (\<exists>j. be_instr e x = Some j \<and> ins_keyId j = x)"

definition pmap_ok :: "'d bars_env \<Rightarrow> (instr_id \<Rightarrow> nat) \<Rightarrow> (instr_id, 'd pattern list) stdmap \<Rightarrow> bool" where
  "pmap_ok e N pm \<longleftrightarrow> sm_ok pm \<and> (\<forall>x ps. sm_find pm x = Some ps \<longrightarrow> pats_ok (be_instr e x) (N x) ps)"

definition bp_ok :: "'d bars_env \<Rightarrow> (instr_id \<Rightarrow> nat) \<Rightarrow> 'd bar_patterns \<Rightarrow> bool" where
  "bp_ok e N b \<longleftrightarrow> pmap_ok e N (bp_instrumentsPatterns b) \<and> pmap_ok e N (bp_instrumentsPatternsDynamic b)"

lemma pmap_ok_insert: "pmap_ok e N pm \<Longrightarrow> pmap_ok e N (sm_insert pm x [])"
  by (auto simp: pmap_ok_def sm_find_insert sm_ok_insert split: if_splits option.splits)

lemma pmap_ok_assign:
  "pmap_ok e N pm \<Longrightarrow> pats_ok (be_instr e x) (N x) ps \<Longrightarrow> pmap_ok e N (sm_assign pm x ps)"
  by (auto simp: pmap_ok_def sm_find_assign split: if_splits)

lemma bp_ok_get:
  assumes "bp_ok e N b"
  shows "pats_ok (be_instr e x) (N x) (getBarPatterns b x)" "pats_ok (be_instr e x) (N x) (getBarPatternsDynamic b x)"
  using assms by (auto simp: bp_ok_def pmap_ok_def getBarPatterns_def getBarPatternsDynamic_def split: option.split)

lemma bp_ok_mono: "bp_ok e N b \<Longrightarrow> (\<And>x. N x \<le> N' x) \<Longrightarrow> bp_ok e N' b"
  unfolding bp_ok_def pmap_ok_def by (meson pats_ok_mono)

lemma getInstrumentPattern_ok:
  assumes "bp_ok e N b" and "getInstrumentPattern x dyn b = (b1, ps)"
  shows "bp_ok e N b1 \<and> pats_ok (be_instr e x) (N x) ps"
proof -
  have st: "pmap_ok e N (bp_instrumentsPatterns b)" and dy: "pmap_ok e N (bp_instrumentsPatternsDynamic b)"
    using assms(1) by (simp_all add: bp_ok_def)
  show ?thesis
  proof (cases dyn)
    case True
    then show ?thesis
      using assms(2) st dy bp_ok_get(1) [OF assms(1), of x]
      by (auto simp: getInstrumentPattern_def Let_def bp_ok_def intro: pmap_ok_insert pmap_ok_assign split: option.splits)
  next
    case False
    then show ?thesis
      using assms(2) st dy pmap_ok_insert [OF st, of x]
      by (auto simp: getInstrumentPattern_def bp_ok_def sm_get_or_create_def pmap_ok_def split: option.splits)
  qed
qed

lemma bp_write_ok:
  assumes "bp_ok e N b" and "pats_ok (be_instr e x) (N x) ps"
  shows "bp_ok e N (bp_write x dyn ps b)"
  using assms by (simp add: bp_ok_def bp_write_def pmap_ok_assign)

lemma on_patterns_ok:
  assumes x: "known e x" and b: "busy (be_instr e x) bars" and bp: "bp_ok e N bp" and n: "N x = length bars"
    and f: "\<And>ps. pats_ok (be_instr e x) (length bars) ps \<Longrightarrow>
      \<exists>ps1. f x ps = Some ps1 \<and> pats_ok (be_instr e x) (length bars) ps1"
  shows "\<exists>bp1. on_patterns bars dyn f bp = Some bp1 \<and> bp_ok e N bp1"
proof -
  obtain j where j: "be_instr e x = Some j" "ins_keyId j = x" using x by (auto simp: known_def)
  obtain bp1 ps where g: "getInstrumentPattern x dyn bp = (bp1, ps)" by fastforce
  note ok = conjunct1 [OF getInstrumentPattern_ok [OF bp g]] conjunct2 [OF getInstrumentPattern_ok [OF bp g]]
  obtain ps1 where "f x ps = Some ps1" "pats_ok (be_instr e x) (length bars) ps1" using f ok(2) n by auto
  then show ?thesis
    using b j g n bp_write_ok [OF ok(1), of x ps1 dyn] busy_last [OF b] by (simp add: on_patterns_def busy_def)
qed

definition pm_ok :: "'d bars_env \<Rightarrow> (instr_id \<Rightarrow> nat) \<Rightarrow> 'd bars_manager \<Rightarrow> bool" where
  "pm_ok e N m \<longleftrightarrow> bp_ok e N (bm_simple m) \<and> bp_ok e N (bm_level1 m) \<and> bp_ok e N (bm_level2 m)"

lemma level_ok:
  assumes x: "known e x" and b: "busy (be_instr e x) bars" and sp: "bp_ok e N sp" and bp: "bp_ok e N bp"
    and n: "N x = length bars"
    and sw: "\<And>ss ps. pats_ok (be_instr e x) (length bars) ss \<Longrightarrow> ss \<noteq> [] \<Longrightarrow> pats_ok (be_instr e x) (length bars) ps \<Longrightarrow>
      \<exists>ps1. swing ss ps = Some ps1 \<and> pats_ok (be_instr e x) (length bars) ps1"
    and hi: "\<And>ss ps. pats_ok (be_instr e x) (length bars) ss \<Longrightarrow> ss \<noteq> [] \<Longrightarrow> pats_ok (be_instr e x) (length bars) ps \<Longrightarrow>
      pats_ok (be_instr e x) (length bars) (hitch ss ps)"
  shows "\<exists>bp1. level_processPatterns bars dyn sp swing hitch bp = Some bp1 \<and> bp_ok e N bp1"
proof -
  define ss where "ss = (if dyn then getBarPatternsDynamic sp x else getBarPatterns sp x)"
  have ss: "pats_ok (be_instr e x) (length bars) ss"
    using bp_ok_get [OF sp, of x] n by (simp add: ss_def)
  show ?thesis unfolding level_processPatterns_def
    by (rule on_patterns_ok [OF x b bp n])
      (use ss sw [OF ss] hi [OF ss] in \<open>auto simp: ss_def [symmetric] Let_def split: ePatternType.split\<close>)
qed

lemma bm_patterns_ok:
  assumes x: "known e x" and b: "busy (be_instr e x) bars" and m: "pm_ok e N m" and n: "N x = length bars"
    and off: "bm_simpleHitchMaxBars m < 0"
  shows "\<exists>sp l1 l2. bm_patterns e bars dyn m = Some (m\<lparr>bm_simple := sp, bm_level1 := l1, bm_level2 := l2\<rparr>) \<and>
    bp_ok e N sp \<and> bp_ok e N l1 \<and> bp_ok e N l2"
proof -
  obtain j where j: "be_instr e x = Some j" using x by (auto simp: known_def)
  obtain sp where sp: "simple_processPatterns bars dyn (bm_simple m) = Some sp" "bp_ok e N sp"
    using on_patterns_ok [where f = "\<lambda>_. simple_bar bars" and dyn = dyn, OF x b conjunct1 [OF m [unfolded pm_ok_def]] n
        simple_bar_ok [OF b]]
    unfolding simple_processPatterns_def by blast
  obtain l1 where l1: "l1_processPatterns (be_moves e) (bm_simpleHitchMaxBars m) bars dyn sp (bm_level1 m) = Some l1"
      "bp_ok e N l1"
    using level_ok [where bp = "bm_level1 m" and dyn = dyn and swing = "l1_processSwing (be_moves e) bars"
        and hitch = "l1_processHitchOrTransitional (bm_simpleHitchMaxBars m) bars",
        OF x b sp(2) _ n l1_processSwing_ok [OF b] l1_hitch_ok [OF b _ _ _ off]] m
    unfolding l1_processPatterns_def pm_ok_def by blast
  obtain l2 where "l2_processPatterns bars dyn sp l1 (bm_level2 m) = Some l2" "bp_ok e N l2"
    using level_ok [where bp = "bm_level2 m" and dyn = dyn and swing = "l2_processSwing bars dyn l1"
        and hitch = "l2_processHitchOrTransitional bars",
        OF x b sp(2) _ n l2_processSwing_ok [where j = j, folded j, OF b] l2_hitch_ok [OF b]] m
    unfolding l2_processPatterns_def pm_ok_def by blast
  with sp l1 show ?thesis by (auto simp: bm_patterns_def)
qed

definition entry_ok :: "'d bars_env \<Rightarrow> instr_id \<Rightarrow> 'd bar list \<Rightarrow> bool" where
  "entry_ok e x bs \<longleftrightarrow> known e x \<and> bs \<noteq> [] \<and> bars_ok (be_instr e x) bs"

abbreviation bars_len :: "'d bars_manager \<Rightarrow> instr_id \<Rightarrow> nat" where
  "bars_len m x \<equiv> length (bm_bars m x)"

definition info_ok :: "(instr_id, u32 \<times> 'd bar list) stdmap \<Rightarrow> bool" where
  "info_ok es \<longleftrightarrow> sm_ok es \<and> (\<forall>en \<in> set es. \<forall>b \<in> set (snd (snd en)). bar_ok b)"

definition bm_inv :: "'d bars_env \<Rightarrow> 'd bars_manager \<Rightarrow> bool" where
  "bm_inv e m \<longleftrightarrow> sm_ok (bm_instrumentsBars m) \<and>
     (\<forall>x bs. sm_find (bm_instrumentsBars m) x = Some bs \<longrightarrow> entry_ok e x bs) \<and>
     pm_ok e (bars_len m) m \<and> info_ok (bm_instrumentsBarsInfo m) \<and>
     bm_simpleHitchMaxBars m < 0 \<and> bm_barLength m * 1000 \<noteq> 0"

definition bm_keys :: "'d bars_manager \<Rightarrow> instr_id list" where
  "bm_keys m = map fst (bm_instrumentsBars m)"

text \<open>A defined result that keeps the invariant and the subscriptions.\<close>

definition good :: "'d bars_env \<Rightarrow> instr_id list \<Rightarrow> 'd bars_manager option \<Rightarrow> bool" where
  "good e ks r \<longleftrightarrow> (\<exists>m. r = Some m \<and> bm_inv e m \<and> bm_keys m = ks)"

lemma good_Some [simp]: "good e ks (Some m) \<longleftrightarrow> bm_inv e m \<and> bm_keys m = ks"
  by (auto simp: good_def)

lemma find_keys: "sm_find (bm_instrumentsBars m) x \<noteq> None \<longleftrightarrow> x \<in> set (bm_keys m)"
  by (auto simp: bm_keys_def sm_find_None_iff)

lemma inv_entry: "bm_inv e m \<Longrightarrow> x \<in> set (bm_keys m) \<Longrightarrow> entry_ok e x (bm_bars m x)"
  using find_keys [of m x] by (auto simp: bm_inv_def bm_bars_def)

lemma bars_nonempty_key: "bm_bars m x \<noteq> [] \<Longrightarrow> x \<in> set (bm_keys m)"
  using find_keys [of m x] by (auto simp: bm_bars_def split: option.splits)

lemma pm_ok_mono: "pm_ok e N m \<Longrightarrow> (\<And>x. N x \<le> N' x) \<Longrightarrow> pm_ok e N' m"
  by (auto simp: pm_ok_def intro: bp_ok_mono)

lemma bm_bars_set: "x \<in> set (bm_keys m) \<Longrightarrow> bm_bars (bm_set_bars x bs m) y = (if y = x then bs else bm_bars m y)"
  using find_keys [of m x] by (auto simp: bm_bars_def bm_set_bars_def sm_find_assign)

lemma set_bars_good:
  assumes m: "bm_inv e m" and x: "x \<in> set (bm_keys m)" and bs: "entry_ok e x bs" "bars_len m x \<le> length bs"
  shows "good e (bm_keys m) (Some (bm_set_bars x bs m))"
proof -
  define m1 where "m1 = bm_set_bars x bs m"
  have same: "bm_simple m1 = bm_simple m" "bm_level1 m1 = bm_level1 m" "bm_level2 m1 = bm_level2 m"
      "bm_instrumentsBarsInfo m1 = bm_instrumentsBarsInfo m" "bm_simpleHitchMaxBars m1 = bm_simpleHitchMaxBars m"
      "bm_barLength m1 = bm_barLength m" "bm_keys m1 = bm_keys m"
      "bm_instrumentsBars m1 = sm_assign (bm_instrumentsBars m) x bs"
    by (simp_all add: m1_def bm_set_bars_def bm_keys_def)
  have "pm_ok e (bars_len m) m" using m by (simp add: bm_inv_def)
  then have "pm_ok e (bars_len m1) m"
    by (rule pm_ok_mono) (simp add: m1_def bm_bars_set [OF x] bs(2))
  then have "pm_ok e (bars_len m1) m1" by (simp add: pm_ok_def same)
  moreover have "entry_ok e y bs'" if "sm_find (bm_instrumentsBars m1) y = Some bs'" for y bs'
    using that m bs(1) by (simp add: same sm_find_assign bm_inv_def split: if_splits)
  ultimately show ?thesis
    using m unfolding m1_def [symmetric] good_Some by (simp add: bm_inv_def same)
qed

lemma createNewBar_good:
  assumes "bm_inv e m" and "x \<in> set (bm_keys m)"
  shows "good e (bm_keys m) (Some (createNewBar e now x m))"
proof -
  have "entry_ok e x (bm_bars m x @ [newBar e l now x k])" for l k
    using inv_entry [OF assms] newBar_ok [of e l now x k] by (simp add: entry_ok_def bars_ok_def)
  then show ?thesis unfolding createNewBar_def by (rule set_bars_good [OF assms]) simp
qed

lemma calculateAtr_ok:
  assumes "entry_ok e x bs"
  obtains bs1 v where "calculateAtr bs n True = Some (bs1, v)" and "entry_ok e x bs1" and "length bs1 = length bs"
    and "bar_idle (last bs1) = bar_idle (last bs)"
proof (cases "n = 0")
  case True
  then show ?thesis using that assms by (simp add: calculateAtr_def)
next
  case False
  have ne: "bs \<noteq> []" using assms by (simp add: entry_ok_def)
  define b1 where "b1 v = (last bs)\<lparr>br_atrNumOfPeriods := n, br_atr := v\<rparr>" for v
  have same: "bar_ok (b1 v) = bar_ok (last bs)" "hl_instrument (b1 v) = hl_instrument (last bs)"
      "bar_idle (b1 v) = bar_idle (last bs)" for v
    by (simp_all add: b1_def bar_ok_def hl_ok_def isHLOCValid_def bar_idle_def)
  have "bars_ok (be_instr e x) (butlast bs)" "bar_ok (last bs)" "hl_instrument (last bs) = be_instr e x"
    using assms ne by (auto simp: entry_ok_def bars_ok_def dest: in_set_butlastD)
  then have en: "entry_ok e x (butlast bs @ [b1 v])" for v
    using assms same [of v] by (simp add: entry_ok_def bars_ok_def)
  obtain v where "calculateAtr bs n True = Some (butlast bs @ [b1 v], v)"
    using False ne by (simp add: calculateAtr_def b1_def Let_def)
  then show ?thesis by (rule that [OF _ en]) (use ne same in simp_all)
qed

lemma processPatterns_good:
  assumes m: "bm_inv e m" and x: "x \<in> set (bm_keys m)"
  shows "good e (bm_keys m) (bm_processPatterns e x dyn m)"
proof (cases "bar_idle (last (bm_bars m x))")
  case True
  then show ?thesis using m by (simp add: bm_processPatterns_def)
next
  case False
  note en = inv_entry [OF m x]
  obtain bs1 v where bs1: "calculateAtr (bm_bars m x) (bm_atrNumOfPeriods m) True = Some (bs1, v)" "entry_ok e x bs1"
      "length bs1 = bars_len m x" "\<not> bar_idle (last bs1)"
    using calculateAtr_ok [OF en, of "bm_atrNumOfPeriods m"] False by metis
  define m1 where "m1 = bm_set_bars x bs1 m"
  have g: "bm_inv e m1" "bm_keys m1 = bm_keys m" using set_bars_good [OF m x bs1(2)] bs1(3) by (simp_all add: m1_def)
  have b1: "bm_bars m1 x = bs1" using x by (simp add: m1_def bm_bars_set)
  have "busy (be_instr e x) bs1" "known e x" using bs1 by (simp_all add: busy_def entry_ok_def)
  then obtain sp l1 l2 where p: "bm_patterns e bs1 dyn m1 = Some (m1\<lparr>bm_simple := sp, bm_level1 := l1, bm_level2 := l2\<rparr>)"
      "bp_ok e (bars_len m1) sp" "bp_ok e (bars_len m1) l1" "bp_ok e (bars_len m1) l2"
    using bm_patterns_ok [of e x bs1 "bars_len m1" m1 dyn] g(1) b1 by (auto simp: bm_inv_def)
  have "good e (bm_keys m) (bm_patterns e bs1 dyn m1)"
    using p g by (simp add: bm_inv_def pm_ok_def bm_bars_def bm_keys_def)
  then show ?thesis using False en bs1(1) g
    by (simp add: bm_processPatterns_def entry_ok_def m1_def Let_def)
qed

subsection \<open>Runs of the manager\<close>

lemma good_bind:
  assumes "good e ks r" and "\<And>m. bm_inv e m \<Longrightarrow> bm_keys m = ks \<Longrightarrow> good e ks' (f m)"
  shows "good e ks' (case r of None \<Rightarrow> None | Some m \<Rightarrow> f m)"
  using assms by (auto simp: good_def)

lemma good_map:
  assumes "good e ks r" and "\<And>m. bm_inv e m \<Longrightarrow> bm_keys m = ks \<Longrightarrow> good e ks' (Some (f m))"
  shows "good e ks' (map_option f r)"
  using assms by (auto simp: good_def)

text \<open>Writes to fields the invariant does not read.\<close>

lemma inv_logs:
  "bm_inv e m \<Longrightarrow> good e (bm_keys m) (Some (m\<lparr>bm_timers := t\<rparr>))"
  "bm_inv e m \<Longrightarrow> good e (bm_keys m) (Some (m\<lparr>bm_savedBars := sb\<rparr>))"
  "bm_inv e m \<Longrightarrow> good e (bm_keys m) (Some (m\<lparr>bm_instrumentTrades := tr\<rparr>))"
  "bm_inv e m \<Longrightarrow> info_ok es \<Longrightarrow> good e (bm_keys m) (Some (m\<lparr>bm_instrumentsBarsInfo := es\<rparr>))"
  by (simp_all add: bm_inv_def bm_keys_def pm_ok_def bm_bars_def)

lemma registerTimer_good: "bm_inv e m \<Longrightarrow> good e (bm_keys m) (registerTimer msec m)"
  using inv_logs(1) [of e m] by (simp add: registerTimer_def calcCycleTimeout_def Let_def bm_inv_def)

lemma patterns_saved_ok: "pats_ok i n ps \<Longrightarrow> pats_ok i n (fst (patterns_saved mx ps))"
proof -
  assume ps: "pats_ok i n ps"
  have sub: "p \<in> set ps" if "p \<in> set (take k ps) \<or> p \<in> set (drop k ps)" for k p
    using that by (auto dest: in_set_takeD in_set_dropD)
  have "pat_ok i n (p\<lparr>pt_simpleHitchMaxBars := mx, pt_isDirty := False\<rparr>) = pat_ok i n p" for p
    by (simp add: pat_ok_def idx_ok_def hl_ok_def)
  then show ?thesis using ps sub by (simp add: patterns_saved_def Let_def pats_ok_def) blast
qed

lemma outputPatterns_ok: "bp_ok e N b \<Longrightarrow> bp_ok e N (fst (outputPatterns mx x b))"
  using patterns_saved_ok [OF bp_ok_get(1), of e N b x mx]
  by (simp add: outputPatterns_def Let_def bp_ok_def pmap_ok_assign case_prod_beta)

lemma bm_outputPatterns_good: "bm_inv e m \<Longrightarrow> good e (bm_keys m) (Some (bm_outputPatterns x m))"
proof -
  assume m: "bm_inv e m"
  let ?mx = "bm_simpleHitchMaxBars m"
  have "pm_ok e (bars_len m) m" using m by (simp add: bm_inv_def)
  then have "bp_ok e (bars_len m) (fst (outputPatterns ?mx x (bm_simple m)))"
      "bp_ok e (bars_len m) (fst (outputPatterns ?mx x (bm_level1 m)))"
      "bp_ok e (bars_len m) (fst (outputPatterns ?mx x (bm_level2 m)))"
    by (simp_all add: pm_ok_def outputPatterns_ok)
  then show ?thesis
    using m by (simp add: bm_outputPatterns_def bm_inv_def pm_ok_def bm_bars_def bm_keys_def Let_def case_prod_beta)
qed

lemma output_bars_good:
  assumes m: "bm_inv e m" and x: "x \<in> set (bm_keys m)"
  shows "good e (bm_keys m) (output_bars e (bm_bars m x) sel m)"
proof -
  have en: "entry_ok e x (bm_bars m x)" using inv_entry [OF m x] .
  then have "last (bm_bars m x) \<in> set (bm_bars m x)" by (simp add: entry_ok_def)
  with en obtain j where j: "hl_instrument (last (bm_bars m x)) = Some j"
    by (auto simp: entry_ok_def bars_ok_def known_def)
  define m1 where "m1 = m\<lparr>bm_savedBars := bm_savedBars m @ sel (bm_bars m x)\<rparr>"
  have "bm_inv e m1" "bm_keys m1 = bm_keys m" using inv_logs(2) [OF m] by (simp_all add: m1_def)
  then have "good e (bm_keys m) (Some m1)" "good e (bm_keys m) (Some (bm_outputPatterns (ins_keyId j) m1))"
    using bm_outputPatterns_good [of e m1] by simp_all
  then show ?thesis using m j by (simp add: output_bars_def Let_def m1_def)
qed

lemma upd_last_entry:
  assumes "entry_ok e x bs" and "bar_ok b" and "hl_instrument b = be_instr e x"
  shows "entry_ok e x (butlast bs @ [b])" "length (butlast bs @ [b]) = length bs"
  using assms by (auto simp: entry_ok_def bars_ok_def dest: in_set_butlastD)

lemma last_entry: "entry_ok e x bs \<Longrightarrow> bar_ok (last bs) \<and> hl_instrument (last bs) = be_instr e x"
  by (auto simp: entry_ok_def bars_ok_def)

lemma onQuote_good:
  assumes m: "bm_inv e m" and q: "bar_takes q \<Longrightarrow> px_ok (t_price q)"
  shows "good e (bm_keys m) (bm_onQuote e q m)"
proof (cases "bm_bars m (q_instrumentId q) = [] \<or> \<not> bar_takes q")
  case True
  then show ?thesis using m by (auto simp: bm_onQuote_def Let_def bar_onQuote_def)
next
  case False
  let ?x = "q_instrumentId q" and ?bs = "bm_bars m (q_instrumentId q)"
  have x: "?x \<in> set (bm_keys m)" using False by (intro bars_nonempty_key) simp
  note en = inv_entry [OF m x]
  define b where "b = snd (bar_onQuote q (last ?bs))"
  have b: "bar_ok b" "hl_instrument b = be_instr e ?x"
    using last_entry [OF en] bar_onQuote_ok [of "last ?bs" q] q by (simp_all add: b_def)
  define m1 where "m1 = bm_set_bars ?x (butlast ?bs @ [b]) m"
  have m1: "bm_inv e m1" "bm_keys m1 = bm_keys m"
    using set_bars_good [OF m x upd_last_entry(1) [OF en b]] upd_last_entry(2) [OF en b] by (simp_all add: m1_def)
  have "good e (bm_keys m) (bm_processPatterns e ?x True (m1\<lparr>bm_instrumentTrades := tr\<rparr>))" for tr
    using processPatterns_good [of e "m1\<lparr>bm_instrumentTrades := tr\<rparr>" ?x True] inv_logs(3) [OF m1(1), of tr] m1(2) x by simp
  moreover have "bar_onQuote q (last ?bs) = (True, b)" using False by (simp add: bar_onQuote_def b_def)
  ultimately show ?thesis using False by (simp add: bm_onQuote_def Let_def m1_def split: prod.split)
qed

lemma timeout_entry_good:
  assumes m: "bm_inv e m" and x: "x \<in> set (bm_keys m)"
  shows "good e (bm_keys m) (timeout_entry e now x m)"
proof -
  note en = inv_entry [OF m x]
  let ?b = "br_formed_update (\<lambda>_. True) (last (bm_bars m x))"
  have b: "bar_ok ?b" "hl_instrument ?b = be_instr e x"
    using last_entry [OF en] by (simp_all add: bar_ok_def hl_ok_def isHLOCValid_def)
  define m1 where "m1 = bm_set_bars x (upd_back (br_formed_update (\<lambda>_. True)) (bm_bars m x)) m"
  have ne: "bm_bars m x \<noteq> []" using en by (simp add: entry_ok_def)
  have m1: "bm_inv e m1" "bm_keys m1 = bm_keys m"
    using set_bars_good [OF m x upd_last_entry(1) [OF en b]] upd_last_entry(2) [OF en b] ne
    by (simp_all add: m1_def upd_back_def)
  have "good e (bm_keys m) (case bm_processPatterns e x False m1 of None \<Rightarrow> None | Some m2 \<Rightarrow> outputToDb e x m2)"
  proof (rule good_bind)
    show "good e (bm_keys m) (bm_processPatterns e x False m1)" using processPatterns_good [OF m1(1)] m1(2) x by simp
    show "good e (bm_keys m) (outputToDb e x m2)" if "bm_inv e m2" "bm_keys m2 = bm_keys m" for m2
      unfolding outputToDb_def using output_bars_good [OF that(1), of x] that(2) x by simp
  qed
  then have "good e (bm_keys m) (if bm_bars m x \<noteq> [] \<and> \<not> br_formed (last (bm_bars m x))
      then (case bm_processPatterns e x False m1 of None \<Rightarrow> None | Some m2 \<Rightarrow> outputToDb e x m2) else Some m)"
    using m by simp
  then show ?thesis unfolding timeout_entry_def Let_def m1_def [symmetric]
    by (rule good_map) (use createNewBar_good x in force)
qed

lemma timeout_all_good:
  "bm_inv e m \<Longrightarrow> set xs \<subseteq> set (bm_keys m) \<Longrightarrow> good e (bm_keys m) (timeout_all e now xs m)"
proof (induction xs arbitrary: m)
  case (Cons x xs)
  show ?case unfolding timeout_all.simps
  proof (rule good_bind)
    show "good e (bm_keys m) (timeout_entry e now x m)" using Cons.prems by (intro timeout_entry_good) auto
    show "good e (bm_keys m) (timeout_all e now xs m1)" if "bm_inv e m1" "bm_keys m1 = bm_keys m" for m1
      using Cons.IH [OF that(1)] Cons.prems(2) that(2) by simp
  qed
qed simp

lemma onTimeout_good: "bm_inv e m \<Longrightarrow> good e (bm_keys m) (bm_onTimeout e msec now m)"
  unfolding bm_onTimeout_def
  by (rule good_bind [OF timeout_all_good]) (use registerTimer_good in \<open>force simp: bm_keys_def\<close>)+

subsection \<open>Subscriptions and restored bars\<close>

lemma info_ok_put:
  assumes "info_ok es" and "\<forall>b \<in> set bs. bar_ok b"
  shows "info_ok (sm_put es x (n, bs))" "info_ok (sm_assign es x (n, bs))"
  using assms sm_insert_subset [of es x "(n, bs)"] sm_assign_subset [of "sm_insert es x (n, bs)" x "(n, bs)"]
    sm_assign_subset [of es x "(n, bs)"]
  by (fastforce simp: info_ok_def sm_put_def sm_ok_insert)+

lemma info_ok_find: "info_ok es \<Longrightarrow> sm_find es x = Some (n, bs) \<Longrightarrow> \<forall>b \<in> set bs. bar_ok b"
  by (force simp: info_ok_def dest: sm_find_in_set)

lemma set_lookback_good: "bm_inv e m \<Longrightarrow> good e (bm_keys m) (Some (bm_set_lookback x n m))"
proof -
  assume m: "bm_inv e m"
  have "info_ok (bm_instrumentsBarsInfo m)" using m by (simp add: bm_inv_def)
  moreover have "\<forall>b \<in> set (snd (bm_info m x)). bar_ok b"
    using info_ok_find [OF calculation, of x] by (cases "bm_info m x") (auto simp: bm_info_def split: option.splits)
  ultimately show ?thesis
    unfolding bm_set_lookback_def by (intro inv_logs(4) [OF m] info_ok_put)
qed

lemma subscribe_new_good:
  assumes m: "bm_inv e m" and new: "sm_find (bm_instrumentsBars m) x = None" and x: "known e x"
  defines "m1 \<equiv> m\<lparr>bm_subscriptions := x # bm_subscriptions m, bm_instrumentsBars := sm_insert (bm_instrumentsBars m) x []\<rparr>"
  shows "bm_inv e (createNewBar e now x m1)"
proof -
  define bs where "bs = [newBar e (bm_barLength m) now x 1]"
  have ok: "sm_ok (bm_instrumentsBars m)" using m by (simp add: bm_inv_def)
  have c: "createNewBar e now x m1 = m1\<lparr>bm_instrumentsBars := sm_assign (sm_insert (bm_instrumentsBars m) x []) x bs\<rparr>"
    using new ok by (simp add: createNewBar_def bm_set_bars_def m1_def bm_bars_def sm_find_insert bs_def)
  have f: "sm_find (bm_instrumentsBars (createNewBar e now x m1)) y =
      (if y = x then Some bs else sm_find (bm_instrumentsBars m) y)" for y
    using ok new by (simp add: c sm_find_assign sm_find_insert)
  have en: "entry_ok e x bs" using x newBar_ok [of e "bm_barLength m" now x 1]
    by (simp add: entry_ok_def bars_ok_def bs_def)
  have len: "bars_len m y \<le> bars_len (createNewBar e now x m1) y" for y
    using f [of y] new by (simp add: bm_bars_def)
  have same: "bm_simple (createNewBar e now x m1) = bm_simple m" "bm_level1 (createNewBar e now x m1) = bm_level1 m"
      "bm_level2 (createNewBar e now x m1) = bm_level2 m" "bm_barLength (createNewBar e now x m1) = bm_barLength m"
      "bm_instrumentsBarsInfo (createNewBar e now x m1) = bm_instrumentsBarsInfo m"
      "bm_simpleHitchMaxBars (createNewBar e now x m1) = bm_simpleHitchMaxBars m"
    by (simp_all add: createNewBar_def bm_set_bars_def m1_def)
  have s: "sm_ok (bm_instrumentsBars (createNewBar e now x m1))" using ok by (simp add: c sm_ok_insert)
  have "pm_ok e (bars_len m) m" using m by (simp add: bm_inv_def)
  then have "pm_ok e (bars_len (createNewBar e now x m1)) m" by (rule pm_ok_mono) (rule len)
  then have "pm_ok e (bars_len (createNewBar e now x m1)) (createNewBar e now x m1)" by (simp only: pm_ok_def same)
  then show ?thesis using m en s unfolding bm_inv_def f same by simp
qed

lemma subscribe_good:
  assumes m: "bm_inv e m" and x: "known e x"
  shows "\<exists>m1. bm_subscribe e msec now x n m = Some m1 \<and> bm_inv e m1"
proof -
  obtain m1 where m1: "(if bm_instrumentsBars m = [] then registerTimer msec m else Some m) = Some m1" "bm_inv e m1"
    using registerTimer_good [OF m, of msec] m by (cases "bm_instrumentsBars m = []") (auto simp: good_def)
  show ?thesis
    using m1 set_lookback_good [OF subscribe_new_good [OF m1(2) _ x], of now x n] set_lookback_good [OF m1(2), of x n]
    by (simp add: bm_subscribe_def split: option.split)
qed

lemma restore_bars_good:
  "bm_inv e m \<Longrightarrow> x \<in> set (bm_keys m) \<Longrightarrow> \<forall>b \<in> set hs. bar_ok b \<Longrightarrow> good e (bm_keys m) (restore_bars e now x hs m)"
proof (induction hs arbitrary: m)
  case (Cons h hs)
  note en = inv_entry [OF Cons.prems(1,2)]
  define b where "b = h\<lparr>hl_index := hl_index (last (bm_bars m x)), hl_instrument := hl_instrument (last (bm_bars m x))\<rparr>"
  have b: "bar_ok b" "hl_instrument b = be_instr e x"
    using Cons.prems(3) last_entry [OF en] by (simp_all add: b_def bar_ok_def hl_ok_def isHLOCValid_def)
  define m1 where "m1 = bm_set_bars x (butlast (bm_bars m x) @ [b]) m"
  have m1: "bm_inv e m1" "bm_keys m1 = bm_keys m"
    using set_bars_good [OF Cons.prems(1,2) upd_last_entry(1) [OF en b]] upd_last_entry(2) [OF en b] by (simp_all add: m1_def)
  have "good e (bm_keys m) (case bm_processPatterns e x False m1 of
      None \<Rightarrow> None | Some m1 \<Rightarrow> restore_bars e now x hs (if hs = [] then m1 else createNewBar e now x m1))"
  proof (rule good_bind)
    show "good e (bm_keys m) (bm_processPatterns e x False m1)"
      using processPatterns_good [OF m1(1)] m1(2) Cons.prems(2) by simp
    fix m2 assume m2: "bm_inv e m2" "bm_keys m2 = bm_keys m"
    then have "good e (bm_keys m) (Some (createNewBar e now x m2))"
      using createNewBar_good [OF m2(1), of x now] Cons.prems(2) by simp
    then show "good e (bm_keys m) (restore_bars e now x hs (if hs = [] then m2 else createNewBar e now x m2))"
      using m2 Cons.IH [of "createNewBar e now x m2"] Cons.prems by simp
  qed
  moreover have "bm_bars m x \<noteq> []" using en by (simp add: entry_ok_def)
  ultimately show ?case by (simp add: b_def m1_def Let_def)
qed simp

lemma start_all_good:
  "bm_inv e m \<Longrightarrow> info_ok es \<Longrightarrow> good e (bm_keys m) (map_option snd (start_all e now es m))"
proof (induction es arbitrary: m)
  case (Cons en es)
  obtain x n hs where en: "en = (x, n, hs)" by (cases en)
  have hs: "\<forall>b \<in> set hs. bar_ok b" and es: "info_ok es" using Cons.prems(2) by (auto simp: en info_ok_def)
  show ?case
  proof (cases "sm_find (bm_instrumentsBars m) x")
    case None
    then show ?thesis using Cons.prems(1) by (simp add: en)
  next
    case (Some bs)
    then have x: "x \<in> set (bm_keys m)" using find_keys [of m x] by simp
    obtain m1 where m1: "restore_bars e now x hs m = Some m1" "bm_inv e m1" "bm_keys m1 = bm_keys m"
      using restore_bars_good [OF Cons.prems(1) x hs] by (auto simp: good_def)
    obtain m2 where m2: "outputToDbOnStart e x m1 = Some m2" "bm_inv e m2" "bm_keys m2 = bm_keys m"
      using output_bars_good [OF m1(2), of x id] x m1(3) by (auto simp: good_def outputToDbOnStart_def)
    show ?thesis using Cons.IH [OF m2(2) es] m1 m2 Some by (simp add: en)
  qed
qed simp

lemma readBarsFromDb_keys: "map fst (snd (readBarsFromDb db es)) = map fst es"
  by (induction db es rule: readBarsFromDb.induct) (auto split: option.split)

lemma readBarsFromDb_bars:
  assumes "\<forall>x n bs. db x n = Some bs \<longrightarrow> (\<forall>b \<in> set bs. bar_ok b)" and "\<forall>en \<in> set es. \<forall>b \<in> set (snd (snd en)). bar_ok b"
  shows "\<forall>en \<in> set (snd (readBarsFromDb db es)). \<forall>b \<in> set (snd (snd en)). bar_ok b"
  using assms(2)
proof (induction es)
  case (Cons en es)
  obtain x n bs where en: "en = (x, n, bs)" by (cases en)
  have bs: "\<forall>b \<in> set bs. bar_ok b" using Cons.prems by (simp add: en)
  have "\<forall>b \<in> set (bs @ new). bar_ok b" if "db x n = Some new" for new using assms(1) that bs by auto
  then show ?case using Cons bs by (auto simp: en split: option.splits)
qed simp

lemma readBarsFromDb_ok:
  assumes "\<forall>x n bs. db x n = Some bs \<longrightarrow> (\<forall>b \<in> set bs. bar_ok b)" and "info_ok es"
  shows "info_ok (snd (readBarsFromDb db es))"
  using assms(2) readBarsFromDb_bars [OF assms(1), of es] by (simp add: info_ok_def sm_ok_def readBarsFromDb_keys)

lemma hist_bar_ok:
  assumes "\<forall>b \<in> set bs. bar_ok b" and "bar_takes q \<Longrightarrow> px_ok (t_price q)"
  shows "\<forall>b \<in> set (upd_back (\<lambda>b. snd (bar_onQuote q b)) bs). bar_ok b"
  using assms bar_onQuote_ok(1) [of "last bs" q] by (auto simp: upd_back_def dest: in_set_butlastD)

lemma historicalBar_ok: "historicalBar m ts q n = Some b \<Longrightarrow> bar_ok b"
  by (auto simp: historicalBar_def bar_ok_def isHLOCValid_def bar_clear_def hloc_clear_def hloc.defs bar.defs)

lemma formed_ok: "\<forall>b \<in> set bs. bar_ok b \<Longrightarrow> \<forall>b \<in> set (upd_back (br_formed_update (\<lambda>_. True)) bs). bar_ok b"
  by (auto simp: upd_back_def bar_ok_def hl_ok_def isHLOCValid_def dest: in_set_butlastD)

lemma calculateAtr_bars:
  assumes "bs \<noteq> []" and "\<forall>b \<in> set bs. bar_ok b"
  obtains bs1 v where "calculateAtr bs n True = Some (bs1, v)" and "\<forall>b \<in> set bs1. bar_ok b"
proof (cases "n = 0")
  case True
  then show ?thesis using that assms by (simp add: calculateAtr_def)
next
  case False
  have "bar_ok ((last bs)\<lparr>br_atrNumOfPeriods := n, br_atr := v\<rparr>)" for v
    using assms by (simp add: bar_ok_def hl_ok_def isHLOCValid_def)
  then show ?thesis using that assms False by (auto simp: calculateAtr_def Let_def dest: in_set_butlastD)
qed

lemma historicalQuote_good:
  assumes m: "bm_inv e m" and q: "q_isValid q" "bar_takes q \<Longrightarrow> px_ok (t_price q)"
  shows "good e (bm_keys m) (processHistoricalQuote secs q ts m)"
proof (cases "sm_find (bm_instrumentsBarsInfo m) (q_instrumentId q)")
  case None
  then show ?thesis using m by (simp add: processHistoricalQuote_def Let_def)
next
  case (Some en)
  obtain n bs where en: "en = (n, bs)" by (cases en)
  have io: "info_ok (bm_instrumentsBarsInfo m)" using m by (simp add: bm_inv_def)
  have bs: "\<forall>b \<in> set bs. bar_ok b" using info_ok_find [OF io] Some en by auto
  have len: "bm_barLength m \<noteq> 0" using m by (auto simp: bm_inv_def)
  have put: "good e (bm_keys m) (Some (m\<lparr>bm_instrumentsBarsInfo := sm_assign (bm_instrumentsBarsInfo m) (q_instrumentId q)
      (n, upd_back (\<lambda>b. snd (bar_onQuote q b)) bs')\<rparr>))" if "\<forall>b \<in> set bs'. bar_ok b" for bs'
    using hist_bar_ok [OF that q(2)] by (intro inv_logs(4) [OF m] info_ok_put(2) [OF io]) simp
  obtain j where j: "q_instrument q = Some j" using q(1) by (auto simp: q_isValid_def split: option.splits)
  have fresh: "good e (bm_keys m) (map_option (\<lambda>b. m\<lparr>bm_instrumentsBarsInfo := sm_assign (bm_instrumentsBarsInfo m)
      (q_instrumentId q) (n, upd_back (\<lambda>b. snd (bar_onQuote q b)) (bs' @ [b]))\<rparr>) (historicalBar m ts q k))"
    if "\<forall>b \<in> set bs'. bar_ok b" for bs' k
  proof -
    obtain b where b: "historicalBar m ts q k = Some b" using j by (simp add: historicalBar_def)
    show ?thesis using put [of "bs' @ [b]"] that historicalBar_ok [OF b] b by simp
  qed
  show ?thesis
  proof (cases "bs = []")
    case True
    then show ?thesis using Some en fresh [of "[]"] by (simp add: processHistoricalQuote_def Let_def)
  next
    case False
    obtain bs1 v where a: "calculateAtr bs (bm_atrNumOfPeriods m) True = Some (bs1, v)" "\<forall>b \<in> set bs1. bar_ok b"
      using calculateAtr_bars [OF False bs] by blast
    show ?thesis using Some en False len a(1) put [OF bs] fresh [OF formed_ok [OF a(2)]]
      by (simp add: processHistoricalQuote_def Let_def)
  qed
qed

lemma read_records_good:
  "bm_inv e m \<Longrightarrow> \<forall>r \<in> set rs. bar_takes (snd r) \<longrightarrow> px_ok (t_price (snd r)) \<Longrightarrow>
   good e (bm_keys m) (read_records secs rs m)"
proof (induction rs arbitrary: m)
  case (Cons r rs)
  obtain ts q where r: "r = (ts, q)" by (cases r)
  have "good e (bm_keys m) (if q_isValid q then processHistoricalQuote secs q ts m else Some m)"
    using Cons.prems historicalQuote_good [of e m q secs ts] by (simp add: r)
  then show ?case unfolding r read_records.simps
  proof (rule good_bind)
    show "good e (bm_keys m) (read_records secs rs m1)" if "bm_inv e m1" "bm_keys m1 = bm_keys m" for m1
      using Cons.IH [OF that(1)] Cons.prems(2) that(2) by simp
  qed
qed simp

lemma trim_ok:
  assumes "info_ok es"
  shows "info_ok (map (\<lambda>(x, i). (x, trim_history i)) es)"
proof -
  have k: "map fst (map (\<lambda>(x, i). (x, trim_history i)) es) = map fst es" by (induction es) auto
  have sub: "b \<in> set (snd i)" if "b \<in> set (snd (trim_history i))" for b i
    using that by (auto simp: trim_history_def dest: in_set_dropD split: if_splits)
  have "bar_ok b" if "(x, i) \<in> set es" "b \<in> set (snd (trim_history i))" for x i b
    using bspec [OF conjunct2 [OF assms [unfolded info_ok_def]] that(1)] sub [OF that(2)] by simp
  then have "\<forall>en \<in> set (map (\<lambda>(x, i). (x, trim_history i)) es). \<forall>b \<in> set (snd (snd en)). bar_ok b" by auto
  then show ?thesis using assms by (simp only: info_ok_def sm_ok_def k)
qed

definition history_ok :: "'d restore_mode \<Rightarrow> bool" where
  "history_ok mode \<longleftrightarrow>
     (case mode of
        RestoreNone \<Rightarrow> True
      | RestoreDb db \<Rightarrow> \<forall>x n bs. db x n = Some bs \<longrightarrow> (\<forall>b \<in> set bs. bar_ok b)
      | RestoreFile secs file \<Rightarrow>
          (\<forall>rs. file = Some rs \<longrightarrow> (\<forall>r \<in> set rs. bar_takes (snd r) \<longrightarrow> px_ok (t_price (snd r)))))"

lemma restoreBars_good:
  assumes m: "bm_inv e m" and h: "history_ok mode"
  shows "good e (bm_keys m) (map_option snd (restoreBars mode m))"
proof (cases mode)
  case (RestoreDb db)
  have "info_ok (bm_instrumentsBarsInfo m)" using m by (simp add: bm_inv_def)
  then have "info_ok (snd (readBarsFromDb db (bm_instrumentsBarsInfo m)))"
    using h RestoreDb by (intro readBarsFromDb_ok) (auto simp: history_ok_def)
  then show ?thesis using RestoreDb inv_logs(4) [OF m] by (simp add: case_prod_beta Let_def)
next
  case (RestoreFile secs fl)
  show ?thesis
  proof (cases fl)
    case (Some rs)
    have rr: "good e (bm_keys m) (read_records secs rs m)"
      using h RestoreFile Some by (intro read_records_good [OF m]) (simp add: history_ok_def)
    then obtain m1 where m1: "read_records secs rs m = Some m1" "bm_inv e m1" "bm_keys m1 = bm_keys m" by (auto simp: good_def)
    have "info_ok (bm_instrumentsBarsInfo m1)" using m1(2) by (simp add: bm_inv_def)
    from inv_logs(4) [OF m1(2) trim_ok [OF this]] show ?thesis using RestoreFile Some m1 by (simp add: readBarsFromFile_def)
  qed (use RestoreFile m in \<open>simp add: readBarsFromFile_def\<close>)
qed (use m in simp)

lemma start_good:
  assumes m: "bm_inv e m" and h: "history_ok mode"
  shows "good e (bm_keys m) (map_option snd (bm_start e now mode m))"
proof -
  obtain ok m1 where m1: "restoreBars mode m = Some (ok, m1)" "bm_inv e m1" "bm_keys m1 = bm_keys m"
    using restoreBars_good [OF m h] by (auto simp: good_def)
  have "info_ok (bm_instrumentsBarsInfo m1)" using m1(2) by (simp add: bm_inv_def)
  from start_all_good [OF m1(2) this] show ?thesis using m1 by (simp add: bm_start_def)
qed

subsection \<open>Every run is defined\<close>

datatype 'd bars_event =
  EvSubscribe u32 int instr_id u32 | EvQuote "'d quote" | EvTimeout u32 int | EvStart int "'d restore_mode"

fun bm_exec :: "('d::floor_ceiling) bars_env \<Rightarrow> 'd bars_event \<Rightarrow> 'd bars_manager \<Rightarrow> 'd bars_manager option" where
  "bm_exec e (EvSubscribe msec now x n) m = bm_subscribe e msec now x n m"
| "bm_exec e (EvQuote q) m = bm_onQuote e q m"
| "bm_exec e (EvTimeout msec now) m = bm_onTimeout e msec now m"
| "bm_exec e (EvStart now mode) m = map_option snd (bm_start e now mode m)"

fun bm_run :: "('d::floor_ceiling) bars_env \<Rightarrow> 'd bars_event list \<Rightarrow> 'd bars_manager \<Rightarrow> 'd bars_manager option" where
  "bm_run e [] m = Some m"
| "bm_run e (ev # evs) m = (case bm_exec e ev m of None \<Rightarrow> None | Some m1 \<Rightarrow> bm_run e evs m1)"

fun event_ok :: "'d bars_env \<Rightarrow> 'd bars_event \<Rightarrow> bool" where
  "event_ok e (EvSubscribe msec now x n) = known e x"
| "event_ok e (EvQuote q) = (bar_takes q \<longrightarrow> px_ok (t_price q))"
| "event_ok e (EvTimeout msec now) = True"
| "event_ok e (EvStart now mode) = history_ok mode"

lemma exec_good: "bm_inv e m \<Longrightarrow> event_ok e ev \<Longrightarrow> \<exists>m1. bm_exec e ev m = Some m1 \<and> bm_inv e m1"
proof (cases ev)
  case (EvSubscribe msec now x n)
  then show "bm_inv e m \<Longrightarrow> event_ok e ev \<Longrightarrow> ?thesis" using subscribe_good by force
next
  case (EvQuote q)
  then show "bm_inv e m \<Longrightarrow> event_ok e ev \<Longrightarrow> ?thesis" using onQuote_good [of e m q] by (auto simp: good_def)
next
  case (EvTimeout msec now)
  then show "bm_inv e m \<Longrightarrow> event_ok e ev \<Longrightarrow> ?thesis" using onTimeout_good [of e m msec now] by (auto simp: good_def)
next
  case (EvStart now mode)
  then show "bm_inv e m \<Longrightarrow> event_ok e ev \<Longrightarrow> ?thesis" using start_good [of e m mode now] by (auto simp: good_def)
qed

lemma bm_new_inv: "mx < 0 \<Longrightarrow> len * 1000 \<noteq> 0 \<Longrightarrow> bm_inv e (bm_new len mx atr)"
  by (simp add: bm_inv_def bm_new_def pm_ok_def bp_ok_def pmap_ok_def bp_new_def info_ok_def)

lemma run_good: "bm_inv e m \<Longrightarrow> \<forall>ev \<in> set evs. event_ok e ev \<Longrightarrow> \<exists>m1. bm_run e evs m = Some m1 \<and> bm_inv e m1"
proof (induction evs arbitrary: m)
  case (Cons ev evs)
  obtain m1 where "bm_exec e ev m = Some m1" "bm_inv e m1" using exec_good Cons.prems by force
  then show ?case using Cons by simp
qed simp

definition patterns_of :: "'d bars_manager \<Rightarrow> instr_id \<Rightarrow> 'd pattern list" where
  "patterns_of m x = getBarPatterns (bm_simple m) x @ getBarPatternsDynamic (bm_simple m) x @
     getBarPatterns (bm_level1 m) x @ getBarPatternsDynamic (bm_level1 m) x @
     getBarPatterns (bm_level2 m) x @ getBarPatternsDynamic (bm_level2 m) x"

lemma inv_patterns: "bm_inv e m \<Longrightarrow> pats_ok (be_instr e x) (bars_len m x) (patterns_of m x)"
  using bp_ok_get [of e "bars_len m" "bm_simple m" x] bp_ok_get [of e "bars_len m" "bm_level1 m" x]
    bp_ok_get [of e "bars_len m" "bm_level2 m" x]
  by (simp add: bm_inv_def pm_ok_def patterns_of_def)

text \<open>
  C5: with the hitch limit off and a bar length that is not zero, every sequence of subscriptions
  to known instruments, quotes, timer events and restarts from a history of well-formed bars runs
  to its end: no vector is read outside its bounds, no null instrument is read, nothing divides by
  zero. Afterwards every pattern of every level spans bars that exist, its high and low were
  made by bars it spans, and its high, low and range fit together.
\<close>

theorem bars_manager_total:
  assumes "mx < 0" and "len * 1000 \<noteq> 0" and "\<forall>ev \<in> set evs. event_ok e ev"
  shows "\<exists>m. bm_run e evs (bm_new len mx atr) = Some m \<and>
    (\<forall>x. \<forall>p \<in> set (patterns_of m x).
       1 \<le> pt_firstBarIndex p \<and> pt_lastBarIndex p \<le> length (getBars m x) \<and>
       pt_highBarIndex p \<in> {pt_firstBarIndex p..pt_lastBarIndex p} \<and>
       pt_lowBarIndex p \<in> {pt_firstBarIndex p..pt_lastBarIndex p} \<and>
       hl_low p \<le> hl_high p \<and> hl_range p = hl_high p - hl_low p)"
proof -
  obtain m where m: "bm_run e evs (bm_new len mx atr) = Some m" "bm_inv e m"
    using run_good [OF bm_new_inv [OF assms(1,2)] assms(3)] by blast
  have "pat_ok (be_instr e x) (bars_len m x) p" if "p \<in> set (patterns_of m x)" for x p
    using inv_patterns [OF m(2), of x] that by (simp add: pats_ok_def)
  then show ?thesis using m(1) by (auto simp: pat_ok_def idx_ok_def hl_ok_def getBars_def)
qed

definition wit_bar :: "ticks list \<Rightarrow> rat bar" where
  "wit_bar ps = bar_run (map (\<lambda>p. wit_quote p 1) ps) bar_clear"

definition wit_events :: "rat bars_event list" where
  "wit_events = [EvSubscribe 0 0 7 3, EvQuote (wit_quote 10 1), EvQuote (wit_quote 12 2), EvTimeout 60000 60,
     EvQuote (wit_quote 12 1), EvTimeout 120000 120, EvQuote (wit_quote 12 1), EvQuote (wit_quote 15 1),
     EvTimeout 180000 180, EvQuote (wit_quote 11 1), EvQuote (wit_quote 9 1), EvTimeout 240000 240]"

theorem bars_manager_total_witness:
  "(\<exists>m. bm_run wit_env wit_events (bm_new 60 (- 1) 2) = Some m) \<and>
   map (\<lambda>p. (pt_type p, pt_firstBarIndex p, pt_lastBarIndex p, hl_low p, hl_high p))
     (getBarPatterns (bm_level1 (the (bm_run wit_env wit_events (bm_new 60 (- 1) 2)))) 7) =
     [(kSwing, 1, 3, 10, 15), (kSwing, 3, 4, 9, 15)]"
proof -
  have "\<forall>ev \<in> set wit_events. event_ok wit_env ev"
    by (simp add: wit_events_def known_def wit_env_def wit_instr_def px_ok_def)
  then have "\<exists>m. bm_run wit_env wit_events (bm_new 60 (- 1) 2) = Some m"
    using bars_manager_total [of "- 1" 60 wit_events wit_env 2] by auto
  moreover have "map (\<lambda>p. (pt_type p, pt_firstBarIndex p, pt_lastBarIndex p, hl_low p, hl_high p))
     (getBarPatterns (bm_level1 (the (bm_run wit_env wit_events (bm_new 60 (- 1) 2)))) 7) =
     [(kSwing, 1, 3, 10, 15), (kSwing, 3, 4, 9, 15)]"
    by code_simp
  ultimately show ?thesis by blast
qed

definition wit_history :: "rat bars_event list" where
  "wit_history = [EvSubscribe 0 0 7 3,
     EvStart 0 (RestoreDb (\<lambda>x n. Some [wit_bar [10, 12], wit_bar [12], wit_bar [12, 15]]))]"

text \<open>
  With the hitch limit on, a swing, a hitch and a swing are enough to use a moved vector: the
  branch that adds a pattern after a hitch goes on reading the pattern before it through a reference
  taken before the insertion. The same history is restored without harm when the limit is off.
\<close>

theorem hitch_limit_undefined:
  "bm_run wit_env wit_history (bm_new 60 0 0) = None \<and> bm_run wit_env wit_history (bm_new 60 (- 1) 0) \<noteq> None"
proof -
  have "(case bm_run wit_env wit_history (bm_new 60 0 0) of None \<Rightarrow> True | Some _ \<Rightarrow> False)" by code_simp
  moreover have "(case bm_run wit_env wit_history (bm_new 60 (- 1) 0) of None \<Rightarrow> False | Some _ \<Rightarrow> True)" by code_simp
  ultimately show ?thesis by (auto split: option.splits)
qed

subsection \<open>The interval timer\<close>

lemma u32_sub: "b \<le> a \<Longrightarrow> unat (a - b) = unat a - unat b" for a b :: u32
  by (rule unat_sub)

text \<open>Unless the length in milliseconds overflows, the timer is asked for at the end of the current interval.\<close>

lemma calcCycleTimeout_aligned:
  assumes "0 < unat len" and "unat len * 1000 < 2 ^ 32"
  obtains t where "calcCycleTimeout len ms = Some t" and "0 < unat t" and "unat t \<le> unat len * 1000"
    and "(unat ms + unat t) mod (unat len * 1000) = 0"
proof -
  define c where "c = unat len * 1000"
  have c: "unat (len * 1000) = c" "0 < c"
    using assms by (simp_all add: c_def unat_word_ariths)
  then have nz: "len * 1000 \<noteq> 0" by auto
  have md: "unat (ms mod (len * 1000)) = unat ms mod c" by (simp add: c unat_mod)
  have lt: "unat ms mod c < c" using c(2) by simp
  then have t: "unat (len * 1000 - ms mod (len * 1000)) = c - unat ms mod c"
    using c(1) md by (subst u32_sub) (simp_all add: word_le_nat_alt)
  have ne: "len * 1000 - ms mod (len * 1000) \<noteq> 0" using t lt by (metis diff_is_0_eq not_le unat_eq_0)
  have "unat ms mod c + (c - unat ms mod c) = c" using lt by simp
  then have "(unat ms + (c - unat ms mod c)) mod c = 0" by (metis mod_add_left_eq mod_self)
  then show ?thesis
    using that [of "len * 1000 - ms mod (len * 1000)"] nz ne t lt by (simp add: calcCycleTimeout_def c_def Let_def)
qed

end
