(* ===== verification/StopFacts.thy ===== *)
theory StopFacts
  imports StopProcessors BarsSafety
begin

section \<open>A stop only moves in favour of the position\<close>

text \<open>
  The contract of a processor that slides stops: it writes nothing but the stop, and a valid stop
  is only raised for a buy and only lowered for a sell. The four processors are instances, and so
  is their mixture, from which the property of a whole run follows.
\<close>

definition ahead :: "eOrderSide \<Rightarrow> ticks \<Rightarrow> ticks \<Rightarrow> bool" where
  "ahead side s s' \<longleftrightarrow> (tw_ok s \<longrightarrow> (side = kBuy \<and> s < s') \<or> (side = kSell \<and> s' < s))"

text \<open>A run of slides: refused slides leave the stop, an undefined one ends the run.\<close>

fun slide_run :: "('i \<Rightarrow> 'd fill_info \<Rightarrow> 'd fill_info option option) \<Rightarrow> 'i list \<Rightarrow> 'd fill_info \<Rightarrow> 'd fill_info option" where
  "slide_run slide [] f = Some f"
| "slide_run slide (i # is) f =
     (case slide i f of
        None \<Rightarrow> None
      | Some None \<Rightarrow> slide_run slide is f
      | Some (Some f') \<Rightarrow> slide_run slide is f')"

locale stop_slider =
  fixes slide :: "'i \<Rightarrow> 'd fill_info \<Rightarrow> 'd fill_info option option"
  assumes only_stop: "slide i f = Some (Some f') \<Longrightarrow> \<exists>s. f' = f\<lparr>fi_stop := s\<rparr> \<and> in_s32 s"
    and ahead: "slide i f = Some (Some f') \<Longrightarrow> ahead (fi_side f) (fi_stop f) (fi_stop f')"
begin

lemma slide_fill: "slide i f = Some (Some f') \<Longrightarrow> fi_fill f' = fi_fill f \<and> fi_side f' = fi_side f"
  using only_stop by (fastforce simp: fi_side_def)

lemma run_fill: "slide_run slide is f = Some f' \<Longrightarrow> fi_fill f' = fi_fill f"
proof (induction "is" arbitrary: f)
  case (Cons i js)
  then show ?case using slide_fill [of i f] by (auto split: option.splits)
qed simp

lemma slide_up:
  assumes "slide i f = Some (Some f')" and "fi_side f \<noteq> kSell" and "tw_ok (fi_stop f)"
  shows "tw_ok (fi_stop f') \<and> fi_stop f < fi_stop f' \<and> fi_side f' = fi_side f"
proof -
  obtain s where s: "f' = f\<lparr>fi_stop := s\<rparr>" "in_s32 s" using only_stop [OF assms(1)] by blast
  have "fi_stop f < s" using ahead [OF assms(1)] assms(2,3) s by (simp add: ahead_def)
  then show ?thesis using assms(3) s by (auto simp: tw_ok_iff in_s32_iff fi_side_def)
qed

lemma ratchet_up:
  "slide_run slide is f = Some f' \<Longrightarrow> fi_side f \<noteq> kSell \<Longrightarrow> tw_ok (fi_stop f) \<Longrightarrow>
   tw_ok (fi_stop f') \<and> fi_stop f \<le> fi_stop f'"
proof (induction "is" arbitrary: f)
  case (Cons i js)
  show ?case
  proof (cases "slide i f")
    case (Some r)
    then show ?thesis
    proof (cases r)
      case (Some g)
      with \<open>slide i f = Some r\<close> have g: "slide i f = Some (Some g)" by simp
      note up = slide_up [OF g Cons.prems(2,3)]
      then have "tw_ok (fi_stop f') \<and> fi_stop g \<le> fi_stop f'" using Cons g by simp
      then show ?thesis using up by simp
    qed (use Cons in simp)
  qed (use Cons in simp)
qed simp

end

locale safe_slider = stop_slider slide for slide :: "'i \<Rightarrow> 'd fill_info \<Rightarrow> 'd fill_info option option" +
  fixes ok :: "'i \<Rightarrow> bool"
  assumes keeps_valid: "ok i \<Longrightarrow> slide i f = Some (Some f') \<Longrightarrow> fi_side f = kSell \<Longrightarrow> tw_isValid (fi_stop f')"
begin

lemma slide_ok:
  assumes "slide i f = Some (Some f')" and "ok i" and "tw_ok (fi_stop f)"
  shows "tw_ok (fi_stop f') \<and> fi_fill f' = fi_fill f \<and> fi_side f' = fi_side f \<and>
    (fi_side f = kBuy \<and> fi_stop f < fi_stop f' \<or> fi_side f = kSell \<and> fi_stop f' < fi_stop f)"
proof -
  obtain s where s: "f' = f\<lparr>fi_stop := s\<rparr>" "in_s32 s" using only_stop [OF assms(1)] by blast
  have a: "fi_side f = kBuy \<and> fi_stop f < s \<or> fi_side f = kSell \<and> s < fi_stop f"
    using ahead [OF assms(1)] assms(3) s by (simp add: ahead_def)
  have "tw_isValid s" if "fi_side f = kSell" using keeps_valid [OF assms(2,1) that] s by simp
  then have "tw_ok s" using a assms(3) s(2) tw_ok_iff_valid [OF s(2)] by (auto simp: tw_ok_iff in_s32_iff)
  then show ?thesis using s a by (simp add: fi_side_def)
qed

lemma ratchet:
  "slide_run slide is f = Some f' \<Longrightarrow> \<forall>i \<in> set is. ok i \<Longrightarrow> tw_ok (fi_stop f) \<Longrightarrow>
   tw_ok (fi_stop f') \<and> fi_fill f' = fi_fill f \<and>
   (fi_side f = kBuy \<longrightarrow> fi_stop f \<le> fi_stop f') \<and> (fi_side f = kSell \<longrightarrow> fi_stop f' \<le> fi_stop f)"
proof (induction "is" arbitrary: f)
  case (Cons i js)
  show ?case
  proof (cases "slide i f")
    case (Some r)
    show ?thesis
    proof (cases r)
      case (Some g)
      with \<open>slide i f = Some r\<close> have g: "slide i f = Some (Some g)" by simp
      have ih: "tw_ok (fi_stop f') \<and> fi_fill f' = fi_fill g \<and> (fi_side g = kBuy \<longrightarrow> fi_stop g \<le> fi_stop f') \<and>
          (fi_side g = kSell \<longrightarrow> fi_stop f' \<le> fi_stop g)"
        using Cons slide_ok [OF g] g by simp
      show ?thesis using ih slide_ok [OF g] Cons.prems by auto
    qed (use Cons Some in simp)
  qed (use Cons in simp)
qed simp

end

subsection \<open>The processors keep the contract\<close>

lemma in_s32_tw [simp]: "in_s32 (tw_add a b)" "in_s32 (tw_sub a b)"
  by (simp_all add: tw_result_range)

definition slide_trailing :: "trailing_params \<times> 'd quote \<Rightarrow> 'd fill_info \<Rightarrow> 'd fill_info option option" where
  "slide_trailing i f = Some (ts_isStopSlideTriggered (fst i) (snd i) f)"

definition slide_edge :: "edge_params \<times> 'd quote \<Rightarrow> 'd fill_info \<Rightarrow> 'd fill_info option option" where
  "slide_edge i f = Some (ie_isStopSlideTriggered (fst i) (snd i) f)"

definition slide_bars :: "bars_trailing_params \<times> 'd bar list \<Rightarrow> 'd fill_info \<Rightarrow> 'd fill_info option option" where
  "slide_bars i f = bt_isStopSlideRecalculated (fst i) (snd i) f"

definition slide_defense ::
    "bars_trailing_params \<times> defense_params \<times> 'd bar list \<Rightarrow> 'd fill_info \<Rightarrow> 'd fill_info option option" where
  "slide_defense i f = db_isStopSlideRecalculated (fst i) (fst (snd i)) (snd (snd i)) f"

lemma slide_trailing_cases:
  assumes "slide_trailing i f = Some (Some f')"
  shows "fi_side f = kBuy \<and> f' = f\<lparr>fi_stop := tw_sub (best_bid (snd i)) (tsp_trailingStopOffsetTicks (fst i))\<rparr> \<and>
      fi_stop f < fi_stop f' \<or>
    fi_side f = kSell \<and> f' = f\<lparr>fi_stop := tw_add (best_ask (snd i)) (tsp_trailingStopOffsetTicks (fst i))\<rparr> \<and>
      fi_stop f' < fi_stop f"
  using assms by (auto simp: slide_trailing_def ts_isStopSlideTriggered_def Let_def split: eOrderSide.splits if_splits)

lemma slide_edge_cases:
  assumes "slide_edge i f = Some (Some f')"
  shows "(\<exists>a. f' = f\<lparr>fi_stop := tw_sub (fi_price f) a\<rparr> \<or> f' = f\<lparr>fi_stop := tw_add (fi_price f) a\<rparr>) \<and> tw_isValid (fi_stop f') \<and>
    (tw_isValid (fi_stop f) \<longrightarrow> fi_side f = kBuy \<and> fi_stop f < fi_stop f' \<or> fi_side f = kSell \<and> fi_stop f' < fi_stop f)"
  using assms by (auto simp: slide_edge_def ie_isStopSlideTriggered_def Let_def split: eOrderSide.splits if_splits)

text \<open>A bar that is recalculated on: it is formed and has traded, so its prices are those of trades.\<close>

lemma slide_bars_cases:
  assumes "slide_bars i f = Some (Some f')"
  shows "\<exists>b \<in> set (snd i). hl_numOfTrades b \<noteq> 0 \<and>
    (fi_side f = kBuy \<and> (\<exists>v. f' = f\<lparr>fi_stop := tw_sub v (btp_barTrailingStopOffsetTicks (fst i))\<rparr>) \<and>
       (tw_isValid (fi_stop f) \<longrightarrow> fi_stop f < fi_stop f') \<or>
     fi_side f = kSell \<and> (\<exists>v \<in> {hl_close b, hl_high b}. f' = f\<lparr>fi_stop := tw_add v (btp_barTrailingStopOffsetTicks (fst i))\<rparr>) \<and>
       (tw_isValid (fi_stop f) \<longrightarrow> fi_stop f' < fi_stop f))"
proof -
  obtain b where b: "bar_at (snd i) (length (snd i) - 1) = Some b" "hl_numOfTrades b \<noteq> 0"
    using assms by (auto simp: slide_bars_def bt_isStopSlideRecalculated_def split: if_splits option.splits)
  then have "b \<in> set (snd i)" by (auto simp: bar_at_def split: if_splits)
  moreover have "fi_side f = kBuy \<and> (\<exists>v. f' = f\<lparr>fi_stop := tw_sub v (btp_barTrailingStopOffsetTicks (fst i))\<rparr>) \<and>
       (tw_isValid (fi_stop f) \<longrightarrow> fi_stop f < fi_stop f') \<or>
     fi_side f = kSell \<and> (\<exists>v \<in> {hl_close b, hl_high b}. f' = f\<lparr>fi_stop := tw_add v (btp_barTrailingStopOffsetTicks (fst i))\<rparr>) \<and>
       (tw_isValid (fi_stop f) \<longrightarrow> fi_stop f' < fi_stop f)"
    using assms b
    by (simp add: slide_bars_def bt_isStopSlideRecalculated_def Let_def not_le not_less
        split: if_splits option.splits bool.splits eOrderSide.splits; force)
  ultimately show ?thesis using b(2) by blast
qed

lemma worst_price_from:
  "worst_price price beyond bars is w = Some v \<Longrightarrow> tw_isValid v \<Longrightarrow> v = w \<or> (\<exists>b \<in> set bars. v = price b)"
proof (induction "is" arbitrary: w)
  case (Cons i js)
  then obtain b where "bar_at bars i = Some b" by (auto split: option.splits)
  then have "b \<in> set bars" by (auto simp: bar_at_def split: if_splits)
  then show ?case using Cons \<open>bar_at bars i = Some b\<close> by (auto split: if_splits)
qed simp

lemma slide_defense_cases:
  assumes "slide_defense i f = Some (Some f')"
  shows "fi_side f = kBuy \<and> (\<exists>v. f' = f\<lparr>fi_stop := tw_sub v (btp_barTrailingStopOffsetTicks (fst i))\<rparr>) \<and>
       (tw_isValid (fi_stop f) \<longrightarrow> fi_stop f < fi_stop f') \<or>
     fi_side f = kSell \<and> (\<exists>v. f' = f\<lparr>fi_stop := tw_add v (btp_barTrailingStopOffsetTicks (fst i))\<rparr> \<and>
         (\<exists>b \<in> set (snd (snd i)). hl_numOfTrades b \<noteq> 0 \<and> v = hl_close b \<or> tw_isValid v \<and> v = hl_high b)) \<and>
       (tw_isValid (fi_stop f) \<longrightarrow> fi_stop f' < fi_stop f)"
proof -
  let ?bars = "snd (snd i)" and ?off = "btp_barTrailingStopOffsetTicks (fst i)"
  obtain b where b: "bar_at ?bars (length ?bars - 1) = Some b" "hl_numOfTrades b \<noteq> 0"
    using assms by (auto simp: slide_defense_def db_isStopSlideRecalculated_def split: if_splits option.splits)
  have bs: "b \<in> set ?bars" using b(1) by (auto simp: bar_at_def split: if_splits)
  have w: "\<exists>b \<in> set ?bars. v = hl_high b"
    if "worst_price hl_high (<) ?bars js invalid_ticks = Some v" "tw_isValid v" for v js
    using worst_price_from [OF that] that(2) by auto
  consider (buy) v where "fi_side f = kBuy" "f' = f\<lparr>fi_stop := tw_sub v ?off\<rparr>"
      "tw_isValid (fi_stop f) \<longrightarrow> fi_stop f < fi_stop f'"
    | (close) "fi_side f = kSell" "f' = f\<lparr>fi_stop := tw_add (hl_close b) ?off\<rparr>"
      "tw_isValid (fi_stop f) \<longrightarrow> fi_stop f' < fi_stop f"
    | (high) v js where "fi_side f = kSell" "f' = f\<lparr>fi_stop := tw_add v ?off\<rparr>" "tw_isValid v"
      "worst_price hl_high (<) ?bars js invalid_ticks = Some v" "tw_isValid (fi_stop f) \<longrightarrow> fi_stop f' < fi_stop f"
    using assms b
    by (auto simp: slide_defense_def db_isStopSlideRecalculated_def Let_def not_le
        split: if_splits option.splits bool.splits eOrderSide.splits)
  then show ?thesis
  proof cases
    case high
    then show ?thesis using w [OF high(4,3)] by blast
  qed (use b bs in blast)+
qed

interpretation trailing: stop_slider slide_trailing
  by unfold_locales (use slide_trailing_cases in \<open>fastforce simp: ahead_def\<close>)+

interpretation edge: stop_slider slide_edge
proof unfold_locales
  fix i :: "edge_params \<times> 'a quote" and f f' :: "'a fill_info"
  assume s: "slide_edge i f = Some (Some f')"
  show "\<exists>s. f' = f\<lparr>fi_stop := s\<rparr> \<and> in_s32 s" using slide_edge_cases [OF s] by fastforce
  show "ahead (fi_side f) (fi_stop f) (fi_stop f')" using slide_edge_cases [OF s] by (auto simp: ahead_def)
qed

interpretation bars: stop_slider slide_bars
proof unfold_locales
  fix i :: "bars_trailing_params \<times> 'a bar list" and f f' :: "'a fill_info"
  assume s: "slide_bars i f = Some (Some f')"
  show "\<exists>s. f' = f\<lparr>fi_stop := s\<rparr> \<and> in_s32 s" using slide_bars_cases [OF s] by fastforce
  show "ahead (fi_side f) (fi_stop f) (fi_stop f')" using slide_bars_cases [OF s] by (auto simp: ahead_def)
qed

interpretation defense: stop_slider slide_defense
proof unfold_locales
  fix i :: "bars_trailing_params \<times> defense_params \<times> 'a bar list" and f f' :: "'a fill_info"
  assume s: "slide_defense i f = Some (Some f')"
  show "\<exists>s. f' = f\<lparr>fi_stop := s\<rparr> \<and> in_s32 s" using slide_defense_cases [OF s] by fastforce
  show "ahead (fi_side f) (fi_stop f) (fi_stop f')" using slide_defense_cases [OF s] by (auto simp: ahead_def)
qed

subsection \<open>All of them on one fill\<close>

datatype 'd slide_event =
  SlTrailing trailing_params "'d quote" | SlEdge edge_params "'d quote"
| SlBars bars_trailing_params "'d bar list" | SlDefense bars_trailing_params defense_params "'d bar list"

fun slide_any :: "'d slide_event \<Rightarrow> 'd fill_info \<Rightarrow> 'd fill_info option option" where
  "slide_any (SlTrailing p q) = slide_trailing (p, q)"
| "slide_any (SlEdge p q) = slide_edge (p, q)"
| "slide_any (SlBars p bars) = slide_bars (p, bars)"
| "slide_any (SlDefense p p2 bars) = slide_defense (p, p2, bars)"

text \<open>Inputs with prices: an ask on the book, bars whose prices come from trades.\<close>

definition bars_px :: "'d bar list \<Rightarrow> bool" where
  "bars_px bars \<longleftrightarrow> (\<forall>b \<in> set bars. (hl_numOfTrades b \<noteq> 0 \<longrightarrow> px_ok (hl_close b) \<and> px_ok (hl_high b)) \<and>
     (tw_isValid (hl_high b) \<longrightarrow> px_ok (hl_high b)))"

fun slide_ok :: "'d slide_event \<Rightarrow> bool" where
  "slide_ok (SlTrailing p q) \<longleftrightarrow> px_ok (best_ask q) \<and> px_ok (tsp_trailingStopOffsetTicks p)"
| "slide_ok (SlEdge p q) \<longleftrightarrow> True"
| "slide_ok (SlBars p bars) \<longleftrightarrow> bars_px bars \<and> px_ok (btp_barTrailingStopOffsetTicks p)"
| "slide_ok (SlDefense p p2 bars) \<longleftrightarrow> bars_px bars \<and> px_ok (btp_barTrailingStopOffsetTicks p)"

lemma tw_add_px_valid: "px_ok a \<Longrightarrow> px_ok b \<Longrightarrow> tw_isValid (tw_add a b)"
proof -
  assume ab: "px_ok a" "px_ok b"
  then have "tw_add a b = a + b" by (intro tw_exact) (auto simp: px_ok_def tw_ok_iff in_s32_iff)
  moreover have "tw_ok (a + b)" using ab by (auto simp: px_ok_def tw_ok_iff)
  ultimately show ?thesis by simp
qed

lemma slide_any_stop_slider:
  assumes "slide_any i f = Some (Some f')"
  shows "(\<exists>s. f' = f\<lparr>fi_stop := s\<rparr> \<and> in_s32 s) \<and> ahead (fi_side f) (fi_stop f) (fi_stop f')"
proof (cases i)
  case (SlTrailing p q)
  then have "slide_trailing (p, q) f = Some (Some f')" using assms by simp
  then show ?thesis using trailing.only_stop trailing.ahead by blast
next
  case (SlEdge p q)
  then have "slide_edge (p, q) f = Some (Some f')" using assms by simp
  then show ?thesis using edge.only_stop edge.ahead by blast
next
  case (SlBars p bars)
  then have "slide_bars (p, bars) f = Some (Some f')" using assms by simp
  then show ?thesis using bars.only_stop bars.ahead by blast
next
  case (SlDefense p p2 bars)
  then have "slide_defense (p, p2, bars) f = Some (Some f')" using assms by simp
  then show ?thesis using defense.only_stop defense.ahead by blast
qed

lemma bars_px_valid:
  assumes "bars_px bars" and "px_ok off" and "b \<in> set bars"
  shows "hl_numOfTrades b \<noteq> 0 \<Longrightarrow> tw_isValid (tw_add (hl_close b) off)"
    "hl_numOfTrades b \<noteq> 0 \<Longrightarrow> tw_isValid (tw_add (hl_high b) off)"
    "tw_isValid (hl_high b) \<Longrightarrow> tw_isValid (tw_add (hl_high b) off)"
  using assms by (auto simp: bars_px_def intro: tw_add_px_valid)

interpretation any: safe_slider slide_any slide_ok
proof unfold_locales
  fix i :: "'a slide_event" and f f' :: "'a fill_info"
  assume s: "slide_any i f = Some (Some f')"
  show "\<exists>s. f' = f\<lparr>fi_stop := s\<rparr> \<and> in_s32 s" using slide_any_stop_slider [OF s] by (rule conjunct1)
  show "ahead (fi_side f) (fi_stop f) (fi_stop f')" using slide_any_stop_slider [OF s] by (rule conjunct2)
  assume ok: "slide_ok i" and sell: "fi_side f = kSell"
  show "tw_isValid (fi_stop f')"
  proof (cases i)
    case (SlTrailing p q)
    then have "slide_trailing (p, q) f = Some (Some f')" using s by simp
    from slide_trailing_cases [OF this] have "fi_stop f' = tw_add (best_ask q) (tsp_trailingStopOffsetTicks p)"
      using sell by auto
    then show ?thesis using ok SlTrailing by (simp add: tw_add_px_valid)
  next
    case (SlEdge p q)
    then have "slide_edge (p, q) f = Some (Some f')" using s by simp
    from slide_edge_cases [OF this] show ?thesis by blast
  next
    case (SlBars p bars)
    then have "slide_bars (p, bars) f = Some (Some f')" using s by simp
    from slide_bars_cases [OF this] obtain b v where "b \<in> set bars" "hl_numOfTrades b \<noteq> 0" "v \<in> {hl_close b, hl_high b}"
        "fi_stop f' = tw_add v (btp_barTrailingStopOffsetTicks p)"
      using sell by fastforce
    then show ?thesis using bars_px_valid [of bars "btp_barTrailingStopOffsetTicks p" b] ok SlBars by auto
  next
    case (SlDefense p p2 bars)
    then have "slide_defense (p, p2, bars) f = Some (Some f')" using s by simp
    from slide_defense_cases [OF this] obtain b v where "b \<in> set bars"
        "hl_numOfTrades b \<noteq> 0 \<and> v = hl_close b \<or> tw_isValid v \<and> v = hl_high b"
        "fi_stop f' = tw_add v (btp_barTrailingStopOffsetTicks p)"
      using sell by fastforce
    then show ?thesis using bars_px_valid [of bars "btp_barTrailingStopOffsetTicks p" b] ok SlDefense by auto
  qed
qed

text \<open>
  C14: whatever mixture of trailing, initial edge, bars and defense stops works on a fill, in
  whatever order and on whatever quotes and bars, nothing but the stop is written, and a valid stop
  of a buy stays valid and never falls. A valid stop of a sell stays valid and never rises when the
  quotes the trailing stop sees have an ask and the bars have the prices of their trades
  (\<open>slide_ok\<close>); an empty ask side does make a sell's stop invalid, see the next theorem.
\<close>

theorem stop_only_tightens:
  assumes "slide_run slide_any evs f = Some f'" and "tw_ok (fi_stop f)"
  shows "fi_fill f' = fi_fill f \<and>
    (fi_side f \<noteq> kSell \<longrightarrow> tw_ok (fi_stop f') \<and> fi_stop f \<le> fi_stop f') \<and>
    (fi_side f = kSell \<and> (\<forall>ev \<in> set evs. slide_ok ev) \<longrightarrow> tw_ok (fi_stop f') \<and> fi_stop f' \<le> fi_stop f)"
  using any.run_fill [OF assms(1)] any.ratchet_up [OF assms(1) _ assms(2)] any.ratchet [OF assms(1) _ assms(2)]
  by blast

text \<open>
  The trailing stop does not look whether the quote has an ask. For a sell, an empty ask side
  passes the profit test, replaces the stop by the invalid price, and from then on the trailing stop
  never slides again while every ordinary trade triggers the stop, unless it happens at the invalid
  price itself.
\<close>

theorem empty_ask_clears_sell_stop:
  assumes "ts_isEnabled p" and "fi_side info = kSell" and "best_ask q = tw_INVALID_VALUE" and "tw_ok (fi_stop info)"
  shows "\<exists>info'. ts_isStopSlideTriggered p q info = Some info' \<and> fi_stop info' = tw_INVALID_VALUE \<and>
    (\<forall>q'. ts_isStopSlideTriggered p q' info' = None) \<and>
    (\<forall>q' s. str_isEnabled s \<longrightarrow> isNormalTrade q' \<longrightarrow> tw_ok (ps_price (q_trade q')) \<longrightarrow>
       snd (isStopTriggered info' q' s))"
proof -
  have low: "tw_INVALID_VALUE \<le> x" if "in_s32 x" for x
    using that by (simp add: in_s32_def tw_INVALID_VALUE_def)
  have inv: "tw_add tw_INVALID_VALUE (tsp_trailingStopOffsetTicks p) = tw_INVALID_VALUE" by (simp add: tw_add_def)
  have "\<not> fi_stop info \<le> tw_INVALID_VALUE" using assms(4) by (simp add: tw_ok_def tw_INVALID_VALUE_def)
  moreover have "\<not> tw_sub (fi_price info) (tsp_beginTrailingStopTicks p) < tw_INVALID_VALUE"
    using low [OF in_s32_tw(2)] by (simp add: not_less)
  ultimately have slide: "ts_isStopSlideTriggered p q info = Some (info\<lparr>fi_stop := tw_INVALID_VALUE\<rparr>)"
    using assms(1-3) inv by (simp add: ts_isStopSlideTriggered_def)
  have never: "ts_isStopSlideTriggered p q' (info\<lparr>fi_stop := tw_INVALID_VALUE\<rparr>) = None" for q'
    using assms(2) low [OF in_s32_tw(1)] by (simp add: ts_isStopSlideTriggered_def fi_side_def Let_def)
  have hit: "snd (isStopTriggered (info\<lparr>fi_stop := tw_INVALID_VALUE\<rparr>) q' s)"
    if "str_isEnabled s" "isNormalTrade q'" "tw_ok (ps_price (q_trade q'))" for q' s
    using that assms(2)
    by (auto simp: isStopTriggered_def Let_def fi_side_def tw_ok_def tw_INVALID_VALUE_def)
  show ?thesis
    by (rule exI [of _ "info\<lparr>fi_stop := tw_INVALID_VALUE\<rparr>"]) (use slide never hit in simp)
qed

definition wit_fill :: "eOrderSide \<Rightarrow> ticks \<Rightarrow> ticks \<Rightarrow> rat fill_info" where
  "wit_fill side price stop = \<lparr>fi_stop = stop, fi_timerCounter = 0, fi_barIndex = 0, fi_barIndex2 = 1,
     fi_fill = fill_default\<lparr>fl_side := side, fl_price := price\<rparr>\<rparr>"

definition wit_trailing :: trailing_params where
  "wit_trailing = \<lparr>tsp_beginTrailingStopTicks = 3, tsp_trailingStopOffsetTicks = 2\<rparr>"

definition wit_slides :: "rat slide_event list" where
  "wit_slides = map (\<lambda>p. SlTrailing wit_trailing (setBid p 1 0 1 (setAsk (p + 1) 1 0 1 (wit_quote 10 1)))) [101, 105, 108, 104]"

theorem stop_only_tightens_witness:
  "(\<exists>f. slide_run slide_any wit_slides (wit_fill kBuy 100 90) = Some f \<and> fi_stop f = 106 \<and> 90 \<le> fi_stop f) \<and>
   (\<exists>f. slide_run slide_any wit_slides (wit_fill kSell 120 125) = Some f \<and> fi_stop f = 104 \<and> fi_stop f \<le> 125)"
proof -
  define b where "b = slide_run slide_any wit_slides (wit_fill kBuy 100 90)"
  define s where "s = slide_run slide_any wit_slides (wit_fill kSell 120 125)"
  have "map_option fi_stop b = Some 106" "map_option fi_stop s = Some 104" unfolding b_def s_def by code_simp+
  then obtain f g where f: "b = Some f" "fi_stop f = 106" and g: "s = Some g" "fi_stop g = 104" by auto
  have "\<forall>ev \<in> set wit_slides. slide_ok ev"
    by (simp add: wit_slides_def wit_trailing_def best_ask_def setBid_def setAsk_def wit_quote_def setTrade_def ps_set_def
        q_mark_def px_ok_def SIZE_def) code_simp
  moreover have "tw_ok (fi_stop (wit_fill kBuy 100 90))" "tw_ok (fi_stop (wit_fill kSell 120 125))"
    by (simp_all add: wit_fill_def tw_ok_iff)
  ultimately have "fi_stop (wit_fill kBuy 100 90) \<le> fi_stop f" "fi_stop g \<le> fi_stop (wit_fill kSell 120 125)"
    using stop_only_tightens [OF f(1) [unfolded b_def]] stop_only_tightens [OF g(1) [unfolded s_def]]
    by (simp_all add: wit_fill_def fi_side_def)
  then show ?thesis using f g b_def s_def by (simp add: wit_fill_def)
qed

theorem empty_ask_clears_sell_stop_witness:
  "\<exists>f. ts_isStopSlideTriggered wit_trailing (wit_quote 10 1) (wit_fill kSell 100 110) = Some f \<and>
    fi_stop f = tw_INVALID_VALUE \<and> snd (isStopTriggered f (wit_quote 95 1) (str_new 1))"
proof -
  have h: "ts_isEnabled wit_trailing" "fi_side (wit_fill kSell 100 110) = kSell" "tw_ok (fi_stop (wit_fill kSell 100 110))"
      "best_ask (wit_quote 10 1) = tw_INVALID_VALUE"
    by code_simp+
  have t: "str_isEnabled (str_new 1)" "isNormalTrade (wit_quote 95 1)" "tw_ok (ps_price (q_trade (wit_quote 95 1)))"
    by code_simp+
  show ?thesis using empty_ask_clears_sell_stop [OF h(1,2,4,3)] t by blast
qed

end
