(* ===== verification/TheoValues.thy ===== *)
theory TheoValues
  imports PnL Quote TicksConverter
begin

section \<open>Theoretical values (common\_trade: itv.h, vwap.h, wbo.h, wbo\_manager.h, suppRestCalc.h)\<close>

text \<open>
  Objects that turn quotes into a theoretical value: the volume weighted average of the trades and
  the size weighted price between bid and ask, and the pivot prices of a range. The instrument
  manager is the argument \<open>byId\<close>; the converter of an instrument is the one its tick size
  selects. Doubles are an ordered field with floor, so the running average is exact here.
\<close>

definition tv_clear :: "('d::zero) itv" where
  "tv_clear = \<lparr>tv_instrument = None, tv_isTvSet = False, tv_tv = 0\<rparr>"

text \<open>The conditional write of \<open>setInstrument\<close> and its result.\<close>

definition tv_setInstrument :: "('d::{zero,ord}) instrument option \<Rightarrow> ('d, 'a) itv_scheme \<Rightarrow> bool \<times> ('d, 'a) itv_scheme" where
  "tv_setInstrument i t =
     (case i of
        None \<Rightarrow> (False, t)
      | Some j \<Rightarrow> if ins_isValid j then (True, t\<lparr>tv_instrument := Some j\<rparr>) else (False, t))"

text \<open>\<open>_instrument->_tc->toExchangePrice\<close>: the converter was chosen when the instrument was loaded.\<close>

definition ins_price :: "('d::floor_ceiling) instrument \<Rightarrow> ticks \<Rightarrow> 'd option" where
  "ins_price i t = map_option (\<lambda>c. tc_toExchangePrice c t) (tc_resetWithNewInstrument (Some i))"

subsection \<open>Vwap\<close>

record 'd vwap = "'d itv" +
  vw_volume :: 'd

definition vw_clear :: "('d::zero) vwap" where
  "vw_clear = itv.extend tv_clear (vwap.fields 0)"

definition vw_takes :: "'d quote \<Rightarrow> bool" where
  "vw_takes q \<longleftrightarrow> \<not> (kSuccess \<noteq> q_status q \<or> \<not> isTrade q \<or> \<not> ps_isValid (q_trade q))"

definition vw_onQuote ::
    "(instr_id \<Rightarrow> ('d::floor_ceiling) instrument option) \<Rightarrow> 'd quote \<Rightarrow> 'd vwap \<Rightarrow> 'd vwap option" where
  "vw_onQuote byId q v =
     (let (ok, v1) = (if tv_instrument v = None then tv_setInstrument (byId (q_instrumentId q)) v else (True, v)) in
      if \<not> ok then Some v1
      else if \<not> vw_takes q then Some v1
      else (case tv_instrument v1 of
              None \<Rightarrow> None
            | Some i \<Rightarrow>
                map_option
                  (\<lambda>p. let sz = of_int (ps_size (q_trade q)); vol = vw_volume v1 + sz
                       in v1\<lparr>tv_tv := (tv_tv v1 * vw_volume v1 + p * sz) / vol, vw_volume := vol, tv_isTvSet := True\<rparr>)
                  (ins_price i (ps_price (q_trade q)))))"

subsection \<open>Wbo\<close>

definition Wbo_calc1 :: "('d::floor_ceiling) \<Rightarrow> 'd \<Rightarrow> 'd \<Rightarrow> 'd \<Rightarrow> 'd \<Rightarrow> 'd" where
  "Wbo_calc1 b1 o1 bs os points = (1 / 2 * b1 + 1 / 2 * o1 - 1 / 2 * points) + bs / (bs + os) * points"

definition Wbo_calc2 :: "('d::floor_ceiling) \<Rightarrow> 'd \<Rightarrow> 'd \<Rightarrow> 'd \<Rightarrow> 'd \<Rightarrow> 'd" where
  "Wbo_calc2 b1 o1 bs os points = b1 + bs / (bs + os) * (o1 - b1)"

record 'd wbo = "'d itv" +
  wb_points :: 'd

definition wb_clear :: "('d::{zero,one}) wbo" where
  "wb_clear = itv.extend tv_clear (wbo.fields 1)"

definition wb_setInstrument :: "('d::floor_ceiling) instrument option \<Rightarrow> 'd wbo \<Rightarrow> bool \<times> 'd wbo" where
  "wb_setInstrument i w =
     (let (ok, w1) = tv_setInstrument i w in
      if \<not> ok then (False, w1)
      else (case tv_instrument w1 of
              None \<Rightarrow> (False, w1)
            | Some j \<Rightarrow>
                if ins_tickDenominator j = 0 then (False, w1)
                else (True, w1\<lparr>wb_points := u32_val (ins_tickNumerator j) / u32_val (ins_tickDenominator j)\<rparr>)))"

definition wb_onQuote ::
    "(('d::floor_ceiling) \<Rightarrow> 'd \<Rightarrow> 'd \<Rightarrow> 'd \<Rightarrow> 'd \<Rightarrow> 'd) \<Rightarrow> (instr_id \<Rightarrow> 'd instrument option) \<Rightarrow> 'd quote \<Rightarrow>
     'd wbo \<Rightarrow> 'd wbo option" where
  "wb_onQuote calc byId q w =
     (let (ok, w1) = (if tv_instrument w = None then wb_setInstrument (byId (q_instrumentId q)) w else (True, w)) in
      if \<not> ok then Some w1
      else if \<not> pl_isValid (q_book q ! 0) then Some w1
      else (case tv_instrument w1 of
              None \<Rightarrow> None
            | Some i \<Rightarrow>
                (let l = q_book q ! 0 in
                 case (ins_price i (ps_price (pl_bid l)), ins_price i (ps_price (pl_ask l))) of
                   (Some b1, Some o1) \<Rightarrow>
                     Some (w1\<lparr>tv_tv := calc b1 o1 (of_int (ps_size (pl_bid l))) (of_int (ps_size (pl_ask l))) (wb_points w1),
                             tv_isTvSet := True\<rparr>)
                 | _ \<Rightarrow> None)))"

text \<open>\<open>WboManager\<close>: a new entry subscribes to the quotes of its instrument; the flag tells so.\<close>

definition getOrCreateTv ::
    "(instr_id \<Rightarrow> ('d::floor_ceiling) instrument option) \<Rightarrow> instr_id \<Rightarrow> (instr_id, 'd wbo) stdmap \<Rightarrow>
     (instr_id, 'd wbo) stdmap \<times> 'd wbo \<times> bool" where
  "getOrCreateTv byId x m =
     (case sm_find m x of
        Some w \<Rightarrow> (m, w, False)
      | None \<Rightarrow> (let w = snd (wb_setInstrument (byId x) wb_clear) in (sm_assign (sm_insert m x wb_clear) x w, w, True)))"

definition wm_onQuote ::
    "(instr_id \<Rightarrow> ('d::floor_ceiling) instrument option) \<Rightarrow> 'd quote \<Rightarrow> (instr_id, 'd wbo) stdmap \<Rightarrow>
     (instr_id, 'd wbo) stdmap option" where
  "wm_onQuote byId q m =
     (let (m1, w, _) = getOrCreateTv byId (q_instrumentId q) m
      in map_option (sm_assign m1 (q_instrumentId q)) (wb_onQuote Wbo_calc1 byId q w))"

subsection \<open>Support and resistance\<close>

definition calcPP :: "ticks \<Rightarrow> ticks \<Rightarrow> 'd::floor_ceiling \<Rightarrow> bool \<times> 'd" where
  "calcPP h l c = (if \<not> tw_isValid h \<or> \<not> tw_isValid l then (False, 0) else (True, (of_int h + of_int l + c) / 3))"

definition calcS1R1 :: "ticks \<Rightarrow> 'd::floor_ceiling \<Rightarrow> bool \<times> 'd" where
  "calcS1R1 hl pp = (if \<not> tw_isValid hl \<or> pp = 0 then (False, 0) else (True, 2 * pp - of_int hl))"

definition calcS2R2 :: "ticks \<Rightarrow> ticks \<Rightarrow> 'd::floor_ceiling \<Rightarrow> int \<Rightarrow> bool \<times> 'd" where
  "calcS2R2 h l pp sign =
     (if \<not> tw_isValid h \<or> \<not> tw_isValid l \<or> pp = 0 then (False, 0)
      else (True, pp + of_int sign * (of_int h - of_int l)))"

text \<open>The pivot levels of a range are in order: support 2, support 1, pivot, resistance 1, resistance 2.\<close>

lemma pivots_in_order:
  fixes c :: "'d::floor_ceiling"
  assumes "l < h" and "of_int l \<le> c" and "c \<le> of_int h" and pp: "calcPP h l c = (True, pp)"
    and "calcS1R1 h pp = (True, s1)" and "calcS1R1 l pp = (True, r1)"
    and "calcS2R2 h l pp (- 1) = (True, s2)" and "calcS2R2 h l pp 1 = (True, r2)"
  shows "s2 \<le> s1 \<and> s1 < pp \<and> pp < r1 \<and> r1 \<le> r2"
proof -
  define H L where "H = (of_int h :: 'd)" and "L = (of_int l :: 'd)"
  have hl: "L < H" "L \<le> c" "c \<le> H" using assms(1-3) by (simp_all add: H_def L_def)
  have p: "3 * pp = H + L + c" using pp by (simp add: calcPP_def H_def L_def split: if_splits)
  have "s1 = 2 * pp - H" "r1 = 2 * pp - L" "s2 = pp - (H - L)" "r2 = pp + (H - L)"
    using assms(5-8) by (auto simp: calcS1R1_def calcS2R2_def H_def L_def split: if_splits)
  then show ?thesis using hl p by (intro conjI) linarith+
qed

subsection \<open>The average is the volume weighted one, the wbo lies between bid and ask\<close>

definition traded :: "('d::floor_ceiling) instrument \<Rightarrow> 'd quote list \<Rightarrow> 'd" where
  "traded i qs = (\<Sum>q\<leftarrow>filter vw_takes qs. the (ins_price i (ps_price (q_trade q))) * of_int (ps_size (q_trade q)))"

definition volume :: "('d::floor_ceiling) quote list \<Rightarrow> 'd" where
  "volume qs = (\<Sum>q\<leftarrow>filter vw_takes qs. of_int (ps_size (q_trade q)))"

fun vw_run :: "(instr_id \<Rightarrow> ('d::floor_ceiling) instrument option) \<Rightarrow> 'd quote list \<Rightarrow> 'd vwap \<Rightarrow> 'd vwap option" where
  "vw_run byId [] v = Some v"
| "vw_run byId (q # qs) v = (case vw_onQuote byId q v of None \<Rightarrow> None | Some v1 \<Rightarrow> vw_run byId qs v1)"

lemma vw_onQuote_known:
  fixes v :: "('d::floor_ceiling) vwap"
  assumes "tv_instrument v = Some i" and "\<forall>t. ins_price i t \<noteq> None" and "0 \<le> vw_volume v"
  obtains v1 where "vw_onQuote byId q v = Some v1" and "tv_instrument v1 = Some i" and "0 \<le> vw_volume v1"
    and "vw_volume v1 = vw_volume v + volume [q]" and "tv_tv v1 * vw_volume v1 = tv_tv v * vw_volume v + traded i [q]"
proof (cases "vw_takes q")
  case True
  obtain p where p: "ins_price i (ps_price (q_trade q)) = Some p" using assms(2) by blast
  define sz where "sz = (of_int (ps_size (q_trade q)) :: 'd)"
  have "0 < ps_size (q_trade q)" using True by (simp add: vw_takes_def ps_isValid_def)
  then have "0 < sz" by (simp add: sz_def)
  then have pos: "0 < vw_volume v + sz" using assms(3) by (rule add_nonneg_pos [rotated])
  define v1 where "v1 = v\<lparr>tv_tv := (tv_tv v * vw_volume v + p * sz) / (vw_volume v + sz), vw_volume := vw_volume v + sz,
    tv_isTvSet := True\<rparr>"
  have "vw_onQuote byId q v = Some v1" using assms(1) True p by (simp add: vw_onQuote_def Let_def v1_def sz_def)
  moreover have "volume [q] = sz" "traded i [q] = p * sz" using True p by (simp_all add: volume_def traded_def sz_def)
  moreover have "tv_tv v1 * vw_volume v1 = tv_tv v * vw_volume v + p * sz" using pos by (simp add: v1_def)
  ultimately show ?thesis using that [of v1] assms(1) pos by (simp add: v1_def)
next
  case False
  have "vw_onQuote byId q v = Some v" using assms(1) False by (simp add: vw_onQuote_def Let_def)
  moreover have "volume [q] = 0" "traded i [q] = 0" using False by (simp_all add: volume_def traded_def)
  ultimately show ?thesis using that [of v] assms by simp
qed

lemma vw_run_weighted:
  assumes "\<forall>t. ins_price i t \<noteq> None"
  shows "tv_instrument v = Some i \<Longrightarrow> 0 \<le> vw_volume v \<Longrightarrow>
    \<exists>v1. vw_run byId qs v = Some v1 \<and> tv_instrument v1 = Some i \<and> vw_volume v1 = vw_volume v + volume qs \<and>
      tv_tv v1 * vw_volume v1 = tv_tv v * vw_volume v + traded i qs"
proof (induction qs arbitrary: v)
  case Nil
  then show ?case by (simp add: volume_def traded_def)
next
  case (Cons q qs)
  obtain v1 where v1: "vw_onQuote byId q v = Some v1" "tv_instrument v1 = Some i" "0 \<le> vw_volume v1"
      "vw_volume v1 = vw_volume v + volume [q]" "tv_tv v1 * vw_volume v1 = tv_tv v * vw_volume v + traded i [q]"
    using vw_onQuote_known [OF Cons.prems(1) assms Cons.prems(2)] by blast
  obtain v2 where v2: "vw_run byId qs v1 = Some v2" "tv_instrument v2 = Some i" "vw_volume v2 = vw_volume v1 + volume qs"
      "tv_tv v2 * vw_volume v2 = tv_tv v1 * vw_volume v1 + traded i qs"
    using Cons.IH [OF v1(2,3)] by blast
  have "volume (q # qs) = volume [q] + volume qs" "traded i (q # qs) = traded i [q] + traded i qs"
    by (simp_all add: volume_def traded_def)
  then show ?case using v1 v2 by (simp add: add.assoc)
qed

text \<open>After any quotes of a known instrument, the value is the traded amount over the traded volume.\<close>

lemma vwap_is_weighted_average:
  assumes "\<forall>t. ins_price i t \<noteq> None" and "volume qs > 0"
  shows "\<exists>v. vw_run byId qs (vw_clear\<lparr>tv_instrument := Some i\<rparr>) = Some v \<and> tv_tv v = traded i qs / volume qs"
proof -
  have "0 \<le> vw_volume (vw_clear\<lparr>tv_instrument := Some i\<rparr>)" "vw_volume (vw_clear\<lparr>tv_instrument := Some i\<rparr>) = 0"
    by (simp_all add: vw_clear_def itv.defs vwap.defs tv_clear_def)
  then show ?thesis using vw_run_weighted [OF assms(1), of "vw_clear\<lparr>tv_instrument := Some i\<rparr>" byId qs] assms(2)
    by (auto simp: field_simps)
qed

lemma Wbo_calc2_between:
  assumes "b1 \<le> o1" and "0 < bs" and "0 < os"
  shows "b1 \<le> Wbo_calc2 b1 o1 bs os points" "Wbo_calc2 b1 o1 bs os points \<le> o1"
proof -
  define w where "w = bs / (bs + os)"
  have w: "0 \<le> w" "w \<le> 1" using assms(2,3) by (simp_all add: w_def field_simps add_pos_pos)
  have d: "0 \<le> o1 - b1" using assms(1) by simp
  have "0 \<le> w * (o1 - b1)" "w * (o1 - b1) \<le> 1 * (o1 - b1)"
    by (rule mult_nonneg_nonneg [OF w(1) d], rule mult_right_mono [OF w(2) d])
  then show "b1 \<le> Wbo_calc2 b1 o1 bs os points" "Wbo_calc2 b1 o1 bs os points \<le> o1"
    by (simp_all add: Wbo_calc2_def flip: w_def)
qed

text \<open>The first formula leaves the market as soon as the spread is narrower than the given width.\<close>

lemma Wbo_calc1_leaves_market:
  "Wbo_calc1 10 10 3 1 1 = (41 / 4 :: rat)"
  by (simp add: Wbo_calc1_def)

end
