(* ===== verification/Fractional.thy ===== *)
theory Fractional
  imports Prelude
begin

section \<open>Fractions of doubles (common/fractional.h)\<close>

text \<open>
  \<open>GCD\<close> loops until a remainder is zero. The remainder of two 64-bit numbers is kept in an
  \<open>int\<close>, so it loses its high half and is sign-extended when it is used again. The loop is a
  partial function: \<open>None\<close> where it would not end; a division by zero is the inner \<open>None\<close>.
\<close>

definition to_int_and_back :: "u64 \<Rightarrow> u64" where
  "to_int_and_back x = word_of_int (s32 (uint x))"

partial_function (option) fr_GCD :: "u64 \<Rightarrow> u64 \<Rightarrow> u64 option option" where
  "fr_GCD numer denom =
     (if numer = 0 then Some None
      else if to_int_and_back (denom mod numer) = 0 then Some (Some numer)
      else fr_GCD (to_int_and_back (denom mod numer)) numer)"

definition CM :: u64 where
  "CM = 1000000000"

text \<open>
  \<open>getFraction\<close> on the scaled number \<open>d * CM\<close>, an argument here: the cast of a double to
  64 bits is the library's.
\<close>

definition getFraction :: "u64 \<Rightarrow> (u32 \<times> u32) option option" where
  "getFraction num =
     (case fr_GCD num CM of
        None \<Rightarrow> None
      | Some None \<Rightarrow> Some None
      | Some (Some g) \<Rightarrow> Some (Some (ucast (num div g), ucast (CM div g))))"

text \<open>
  \<open>getPrecision\<close>: the digits after the point in the 7-digit text of the number. \<open>digits\<close> is
  what \<open>sprintf\<close> printed after the point.
\<close>

fun trailing_zeros :: "string \<Rightarrow> nat" where
  "trailing_zeros [] = 0"
| "trailing_zeros (c # cs) = (if c = CHR ''0'' then Suc (trailing_zeros cs) else 0)"

definition getPrecision :: "(u64 \<Rightarrow> u64 \<Rightarrow> string) \<Rightarrow> u64 \<Rightarrow> u64 \<Rightarrow> nat" where
  "getPrecision digits numer denom =
     (if denom > 1 then 7 - trailing_zeros (take 7 (rev (digits numer denom))) else 0)"

lemma to_int_and_back_small:
  assumes "unat x < 2 ^ 31"
  shows "to_int_and_back x = x"
proof -
  have "uint x = int (unat x)" "int (unat x) < int (2 ^ 31)" using assms by (simp_all only: uint_nat of_nat_less_iff)
  then have "uint x < 2147483648" by simp
  moreover have "0 \<le> uint x" by simp
  ultimately have "in_s32 (uint x)" unfolding in_s32_iff by (intro conjI) linarith+
  then show ?thesis by (simp add: to_int_and_back_def s32_exact)
qed

lemma GCD_step:
  "numer \<noteq> 0 \<Longrightarrow> unat (denom mod numer) < 2 ^ 31 \<Longrightarrow>
   fr_GCD numer denom = (if denom mod numer = 0 then Some (Some numer) else fr_GCD (denom mod numer) numer)"
  by (subst fr_GCD.simps) (simp add: to_int_and_back_small)

lemma GCD_small:
  "numer \<noteq> 0 \<Longrightarrow> unat numer \<le> 2 ^ 31 \<Longrightarrow> \<exists>g. fr_GCD numer denom = Some (Some g) \<and> unat g = gcd (unat numer) (unat denom)"
proof (induction "unat numer" arbitrary: numer denom rule: less_induct)
  case less
  have md: "unat (denom mod numer) = unat denom mod unat numer" by (rule unat_mod)
  have pos: "0 < unat numer" using less.prems(1) by (simp add: unat_gt_0)
  then have lt: "unat (denom mod numer) < unat numer" by (simp add: md)
  then have step: "fr_GCD numer denom = (if denom mod numer = 0 then Some (Some numer) else fr_GCD (denom mod numer) numer)"
    using less.prems by (intro GCD_step) simp_all
  show ?case
  proof (cases "denom mod numer = 0")
    case True
    then have "unat denom mod unat numer = 0" using md by simp
    then have "gcd (unat numer) (unat denom) = unat numer" by (simp add: gcd_proj1_iff mod_0_imp_dvd)
    then show ?thesis using step True by simp
  next
    case False
    obtain g where g: "fr_GCD (denom mod numer) numer = Some (Some g)" "unat g = gcd (unat (denom mod numer)) (unat numer)"
      using less.hyps [OF lt False] lt less.prems(2) by force
    have "gcd (unat denom mod unat numer) (unat numer) = gcd (unat numer) (unat denom)"
      by (metis gcd.commute gcd_red_nat)
    then show ?thesis using step False g md by simp
  qed
qed

lemma GCD_CM:
  assumes "num \<noteq> 0"
  shows "\<exists>g. fr_GCD num CM = Some (Some g) \<and> unat g = gcd (unat num) (unat CM)"
proof -
  have cm: "unat CM = 1000000000" by (simp add: CM_def)
  have md: "unat (CM mod num) = unat CM mod unat num" by (rule unat_mod)
  have small: "unat (CM mod num) \<le> 1000000000" using md cm by (metis mod_less_eq_dividend)
  have step: "fr_GCD num CM = (if CM mod num = 0 then Some (Some num) else fr_GCD (CM mod num) num)"
    using assms small by (intro GCD_step) simp_all
  show ?thesis
  proof (cases "CM mod num = 0")
    case True
    then have "gcd (unat num) (unat CM) = unat num" using md by (simp add: gcd_proj1_iff mod_0_imp_dvd)
    then show ?thesis using step True by simp
  next
    case False
    obtain g where g: "fr_GCD (CM mod num) num = Some (Some g)" "unat g = gcd (unat (CM mod num)) (unat num)"
      using GCD_small [OF False, of num] small by auto
    have "gcd (unat CM mod unat num) (unat num) = gcd (unat num) (unat CM)"
      by (metis gcd.commute gcd_red_nat)
    then show ?thesis using step False g md by simp
  qed
qed

text \<open>
  C38: for every number that is not zero after scaling, the loop ends in spite of the 32-bit
  remainder, because the first remainder is below the scale already, and it returns the greatest
  common divisor. The fraction is then in lowest terms and exact, as long as the reduced numerator
  fits its 32 bits. Zero divides by zero.
\<close>

theorem getFraction_terminates:
  assumes "num \<noteq> 0"
  shows "\<exists>n d. getFraction num = Some (Some (n, d)) \<and> d \<noteq> 0 \<and>
    unat d = unat CM div gcd (unat num) (unat CM) \<and>
    (unat num div gcd (unat num) (unat CM) < 2 ^ 32 \<longrightarrow>
       unat n * unat CM = unat num * unat d \<and> coprime (unat n) (unat d)) \<and>
    getFraction 0 = Some None"
proof -
  define k where "k = gcd (unat num) (unat CM)"
  obtain g where g: "fr_GCD num CM = Some (Some g)" "unat g = k" using GCD_CM [OF assms] by (auto simp: k_def)
  have cm: "unat CM = 1000000000" by (simp add: CM_def)
  have k: "0 < k" "k dvd unat num" "k dvd unat CM" using cm by (simp_all add: k_def)
  have d: "unat (ucast (CM div g) :: u32) = unat CM div k"
  proof -
    have "unat CM div k \<le> 1000000000" using cm by (metis div_le_dividend)
    then show ?thesis by (simp add: unsigned_ucast_eq unat_div g(2) take_bit_nat_eq_self)
  qed
  have dnz: "0 < unat CM div k" using k cm by (simp add: div_greater_zero_iff dvd_imp_le)
  have n: "unat (ucast (num div g) :: u32) = unat num div k" if "unat num div k < 2 ^ 32"
    using that by (simp add: unsigned_ucast_eq unat_div g(2) take_bit_nat_eq_self)
  have "unat num div k * unat CM = unat num * (unat CM div k)"
    using k by (metis div_mult_swap dvd_div_mult)
  moreover have "coprime (unat num div k) (unat CM div k)"
    unfolding k_def using cm by (intro div_gcd_coprime) simp
  moreover have "getFraction 0 = Some None" by (simp add: getFraction_def fr_GCD.simps)
  moreover have "getFraction num = Some (Some (ucast (num div g), ucast (CM div g)))" using g(1) by (simp add: getFraction_def)
  ultimately show ?thesis using n d dnz by (auto simp: k_def [symmetric])
qed

theorem getFraction_terminates_witness:
  "getFraction 250000000 = Some (Some (1, 4))"
proof -
  obtain n d where nd: "getFraction 250000000 = Some (Some (n, d))"
      "unat d = unat CM div gcd (unat (250000000 :: u64)) (unat CM)"
      "unat n * unat CM = unat (250000000 :: u64) * unat d"
    using getFraction_terminates [of 250000000] by (auto simp: CM_def)
  have "gcd 250000000 (1000000000 :: nat) = 250000000" by (simp add: gcd_proj1_iff)
  then have d: "unat d = 4" and "unat n = 1" using nd(2,3) by (simp_all add: CM_def)
  then have "d = 4" "n = 1" by (simp_all add: word_unat_eq_iff)
  then show ?thesis using nd(1) by simp
qed

end
