(* ===== verification/NumText.thy ===== *)
theory NumText
  imports Prelude Complex_Main
begin

section \<open>Numbers as text\<close>

text \<open>
  \<open>common_str_util/fast_numtoa.cpp\<close>: the printing of integers and of doubles. Each function
  writes the digits from the last to the first, then the sign, and reverses the text in
  place; the result is the text and its length, as the C function leaves the first in the
  buffer and returns the second. A signed argument is an \<open>int\<close> of its width, \<open>-value\<close> wraps.
  A double is a value of an ordered field with a floor, \<open>None\<close> is the NaN of the first test.
  The numbers above \<open>0x7FFFFFFF\<close> go to the C library's \<open>sprintf\<close>, an argument here; the
  conversion of a double that does not fit in an \<open>int\<close> is undefined and comes before that
  test: the result is \<open>None\<close>. The buffer is assumed long enough by these functions, see the
  theory of the stream for what its client reserves.
\<close>

unbundle bit_operations_syntax

subsection \<open>Reversal in place\<close>

fun swap_ends :: "'a list \<Rightarrow> nat \<Rightarrow> nat \<Rightarrow> 'a list" where
  "swap_ends xs b e = (if b < e then swap_ends (xs[e := xs ! b, b := xs ! e]) (b + 1) (e - 1) else xs)"

declare swap_ends.simps [simp del]

definition strreverse :: "string \<Rightarrow> string \<times> nat" where
  "strreverse str = (if str = [] then (str, 0) else (swap_ends str 0 (length str - 1), length str))"

subsection \<open>Integers\<close>

definition digit :: "nat \<Rightarrow> char" where
  "digit n = char_of (48 + n mod 10)"

fun put_digits :: "nat \<Rightarrow> string" where
  "put_digits v = digit v # (if v div 10 = 0 then [] else put_digits (v div 10))"

declare put_digits.simps [simp del]

definition fast_itoa10 :: "int \<Rightarrow> string \<times> nat" where
  "fast_itoa10 value =
     (let uvalue = (word_of_int (if value < 0 then - value else value) :: u32);
          wstr = put_digits (unat uvalue);
          wstr = (if value < 0 then wstr @ ''-'' else wstr)
      in strreverse wstr)"

definition fast_uitoa10 :: "u32 \<Rightarrow> string \<times> nat" where
  "fast_uitoa10 value = strreverse (put_digits (unat value))"

definition fast_litoa10 :: "int \<Rightarrow> string \<times> nat" where
  "fast_litoa10 value =
     (let uvalue = (word_of_int (if value < 0 then - value else value) :: u64);
          wstr = put_digits (unat uvalue);
          wstr = (if value < 0 then wstr @ ''-'' else wstr)
      in strreverse wstr)"

definition fast_ulitoa10 :: "u64 \<Rightarrow> string \<times> nat" where
  "fast_ulitoa10 value = strreverse (put_digits (unat value))"

subsection \<open>Doubles\<close>

definition prop_pow10 :: "nat \<Rightarrow> 'd::floor_ceiling" where
  "prop_pow10 k = 10 ^ k"

definition thres_max :: "'d::floor_ceiling" where
  "thres_max = 2147483647"

definition clamp_prec :: "int \<Rightarrow> nat" where
  "clamp_prec prec = (if prec < 0 then 0 else if prec > 9 then 9 else nat prec)"

text \<open>The conversion of a non-negative double to \<open>int\<close>: towards zero, undefined outside the type.\<close>

definition double_to_int :: "'d::floor_ceiling \<Rightarrow> int option" where
  "double_to_int x = (if \<lfloor>x\<rfloor> \<le> INT32_MAX then Some \<lfloor>x\<rfloor> else None)"

definition double_to_u32 :: "'d::floor_ceiling \<Rightarrow> u32" where
  "double_to_u32 x = word_of_int \<lfloor>x\<rfloor>"

text \<open>The whole part and the fraction, scaled and rounded; \<open>value\<close> is not negative here.\<close>

definition split_round :: "'d::floor_ceiling \<Rightarrow> nat \<Rightarrow> (int \<times> u32) option" where
  "split_round value prec =
     (case double_to_int value of
        None \<Rightarrow> None
      | Some whole \<Rightarrow>
          let tmp = (value - of_int whole) * prop_pow10 prec;
              fraction = double_to_u32 tmp;
              diff = tmp - of_nat (unat fraction)
          in Some
            (if diff > 1 / 2 then
               (let fraction = fraction + 1
                in if of_nat (unat fraction) \<ge> (prop_pow10 prec :: 'd) then (s32 (whole + 1), 0) else (whole, fraction))
             else if diff = 1 / 2 \<and> (fraction = 0 \<or> fraction AND 1 \<noteq> 0) then (whole, fraction + 1)
             else (whole, fraction)))"

definition round_whole :: "'d::floor_ceiling \<Rightarrow> int \<Rightarrow> int" where
  "round_whole value whole =
     (let diff = value - of_int whole
      in if diff > 1 / 2 then s32 (whole + 1)
         else if diff = 1 / 2 \<and> odd whole then s32 (whole + 1)
         else whole)"

text \<open>The digits of the fraction from the last, the zeros that fill it up, and the point.\<close>

definition put_frac :: "nat \<Rightarrow> u32 \<Rightarrow> string" where
  "put_frac count fraction =
     (let ds = put_digits (unat fraction) in ds @ replicate (count - length ds) CHR ''0'' @ ''.'')"

definition put_whole :: "bool \<Rightarrow> int \<Rightarrow> string" where
  "put_whole neg whole = put_digits (nat whole) @ (if neg then ''-'' else [])"

definition fast_dtoa :: "('d \<Rightarrow> string) \<Rightarrow> 'd::floor_ceiling option \<Rightarrow> int \<Rightarrow> (string \<times> nat) option" where
  "fast_dtoa sprintf_e v prec0 =
     (case v of
        None \<Rightarrow> Some (''nan'', 3)
      | Some value0 \<Rightarrow>
          let prec = clamp_prec prec0;
              neg = value0 < 0;
              value = (if neg then - value0 else value0)
          in case split_round value prec of
               None \<Rightarrow> None
             | Some (whole, fraction) \<Rightarrow>
                 if value > thres_max then
                   (let t = sprintf_e (if neg then - value else value) in Some (t, length t))
                 else if prec = 0 then Some (strreverse (put_whole neg (round_whole value whole)))
                 else Some (strreverse (put_frac prec fraction @ put_whole neg whole)))"

text \<open>\<open>fast_dtoa2\<close> drops the zeros at the end of the fraction, and the point with them.\<close>

fun strip_zeros :: "nat \<Rightarrow> nat \<Rightarrow> nat \<times> nat" where
  "strip_zeros count fraction =
     (if fraction \<noteq> 0 \<and> fraction mod 10 = 0 then strip_zeros (count - 1) (fraction div 10) else (count, fraction))"

declare strip_zeros.simps [simp del]

definition put_frac2 :: "nat \<Rightarrow> u32 \<Rightarrow> string" where
  "put_frac2 prec fraction =
     (if fraction = 0 then []
      else (case strip_zeros prec (unat fraction) of
              (count, f) \<Rightarrow> (let ds = put_digits f in ds @ replicate (count - length ds) CHR ''0'' @ ''.'')))"

definition fast_dtoa2 :: "('d \<Rightarrow> string) \<Rightarrow> 'd::floor_ceiling option \<Rightarrow> int \<Rightarrow> (string \<times> nat) option" where
  "fast_dtoa2 sprintf_e v prec0 =
     (case v of
        None \<Rightarrow> Some (''nan'', 3)
      | Some value0 \<Rightarrow>
          let prec = clamp_prec prec0;
              neg = value0 < 0;
              value = (if neg then - value0 else value0)
          in case split_round value prec of
               None \<Rightarrow> None
             | Some (whole, fraction) \<Rightarrow>
                 if value > thres_max then
                   (let t = sprintf_e (if neg then - value else value) in Some (t, length t))
                 else if prec = 0 then Some (strreverse (put_whole neg (round_whole value whole)))
                 else Some (strreverse (put_frac2 prec fraction @ put_whole neg whole)))"



section \<open>What the text says\<close>

text \<open>
  The value a reader gives to the text: the digits in base ten, the sign, and what follows
  the point as tenths.
\<close>

definition read_nat :: "string \<Rightarrow> nat" where
  "read_nat s = foldl (\<lambda>a c. 10 * a + (of_char c - 48)) 0 s"

definition read_int :: "string \<Rightarrow> int" where
  "read_int s = (case s of [] \<Rightarrow> 0 | c # r \<Rightarrow> if c = CHR ''-'' then - int (read_nat r) else int (read_nat s))"

definition read_unsigned :: "string \<Rightarrow> 'd::floor_ceiling" where
  "read_unsigned s =
     (let w = takeWhile (\<lambda>c. c \<noteq> CHR ''.'') s; f = drop (Suc (length w)) s
      in of_nat (read_nat w) + of_nat (read_nat f) / 10 ^ length f)"

definition read_real :: "string \<Rightarrow> 'd::floor_ceiling" where
  "read_real s =
     (case s of [] \<Rightarrow> 0 | c # r \<Rightarrow> if c = CHR ''-'' then - read_unsigned r else read_unsigned s)"

definition is_digit :: "char \<Rightarrow> bool" where
  "is_digit c \<longleftrightarrow> (48::nat) \<le> of_char c \<and> (of_char c :: nat) \<le> 57"

subsection \<open>The reversal\<close>

lemma length_swap_ends [simp]: "length (swap_ends xs b e) = length xs"
  by (induction xs b e rule: swap_ends.induct) (subst swap_ends.simps, simp)

lemma nth_swap_ends:
  "e < length xs \<Longrightarrow> i < length xs \<Longrightarrow>
   swap_ends xs b e ! i = (if b \<le> i \<and> i \<le> e then xs ! (b + e - i) else xs ! i)"
proof (induction xs b e rule: swap_ends.induct)
  case (1 xs b e)
  show ?case
  proof (cases "b < e")
    case True
    let ?ys = "xs[e := xs ! b, b := xs ! e]"
    have "swap_ends xs b e ! i = swap_ends ?ys (b + 1) (e - 1) ! i"
      using True by (subst swap_ends.simps) simp
    also have "\<dots> = (if b + 1 \<le> i \<and> i \<le> e - 1 then ?ys ! (b + 1 + (e - 1) - i) else ?ys ! i)"
      using 1 True by simp
    also have "\<dots> = (if b \<le> i \<and> i \<le> e then xs ! (b + e - i) else xs ! i)"
      using 1 True by (auto simp: nth_list_update)
    finally show ?thesis .
  next
    case False
    then have "swap_ends xs b e = xs" by (subst swap_ends.simps) simp
    moreover have "b + e - i = i" if "b \<le> i" "i \<le> e" using False that by linarith
    ultimately show ?thesis by simp
  qed
qed

lemma strreverse_rev: "strreverse str = (rev str, length str)"
proof (cases "str = []")
  case False
  have "swap_ends str 0 (length str - 1) = rev str"
    by (rule nth_equalityI) (use False in \<open>auto simp: nth_swap_ends rev_nth\<close>)
  with False show ?thesis by (simp add: strreverse_def)
qed (simp add: strreverse_def)

subsection \<open>Digits\<close>

lemma of_char_digit [simp]: "(of_char (digit n) :: nat) = 48 + n mod 10"
  by (simp add: digit_def)

lemma digit_zero: "digit n = CHR ''0'' \<longleftrightarrow> n mod 10 = 0"
proof
  assume "digit n = CHR ''0''"
  then have "(of_char (digit n) :: nat) = of_char (CHR ''0'')" by (rule arg_cong)
  then show "n mod 10 = 0" by simp
next
  assume "n mod 10 = 0"
  then have "(of_char (digit n) :: nat) = of_char (CHR ''0'')" by simp
  then show "digit n = CHR ''0''" by (simp only: of_char_eq_iff)
qed

lemma is_digit_digit [simp]: "is_digit (digit n)"
  using mod_less_divisor [of 10 n] by (simp add: is_digit_def)

lemma put_digits_digits: "c \<in> set (put_digits n) \<Longrightarrow> is_digit c"
  by (induction n rule: put_digits.induct) (subst (asm) put_digits.simps, auto split: if_splits)

lemma put_digits_nonempty [simp]: "put_digits n \<noteq> []"
  by (subst put_digits.simps) simp

lemma is_digit_not_sign: "is_digit c \<Longrightarrow> c \<noteq> CHR ''-'' \<and> c \<noteq> CHR ''.''"
  by (auto simp: is_digit_def)

lemma read_nat_snoc: "read_nat (s @ [c]) = 10 * read_nat s + (of_char c - 48)"
  by (simp add: read_nat_def)

lemma read_nat_Nil [simp]: "read_nat [] = 0"
  by (simp add: read_nat_def)

lemma read_nat_digits [simp]: "read_nat (rev (put_digits n)) = n"
proof (induction n rule: put_digits.induct)
  case (1 n)
  have "put_digits n = digit n # (if n div 10 = 0 then [] else put_digits (n div 10))"
    by (rule put_digits.simps)
  with 1 show ?case by (auto simp: read_nat_snoc)
qed

lemma read_nat_zeros: "read_nat (replicate k CHR ''0'' @ s) = read_nat s"
  by (induction k) (simp_all add: read_nat_def)

lemma length_put_digits: "n < 10 ^ k \<Longrightarrow> 0 < k \<Longrightarrow> length (put_digits n) \<le> k"
proof (induction n arbitrary: k rule: put_digits.induct)
  case (1 n)
  obtain j where k: "k = Suc j" using 1(3) by (cases k) auto
  have eq: "put_digits n = digit n # (if n div 10 = 0 then [] else put_digits (n div 10))"
    by (rule put_digits.simps)
  show ?case
  proof (cases "n div 10 = 0")
    case False
    have lt: "n div 10 < 10 ^ j" using 1(2) k by (simp add: less_mult_imp_div_less mult.commute)
    with False have "0 < j" by (cases j) auto
    with 1(1) False lt have "length (put_digits (n div 10)) \<le> j" by blast
    with eq False k show ?thesis by simp
  qed (use eq k in simp)
qed

lemma length_put_digits_ge: "10 ^ k \<le> n \<Longrightarrow> Suc k \<le> length (put_digits n)"
proof (induction k arbitrary: n)
  case 0
  then show ?case by (subst put_digits.simps) simp
next
  case (Suc k)
  have "10 ^ k \<le> n div 10"
    using Suc.prems by (simp add: less_eq_div_iff_mult_less_eq mult.commute)
  moreover from this have "n div 10 \<noteq> 0" by (metis le_0_eq power_eq_0_iff zero_neq_numeral)
  ultimately show ?case using Suc.IH by (subst put_digits.simps) auto
qed

subsection \<open>Integers\<close>

lemma read_int_signed:
  "read_int (rev (put_digits n @ (if neg then ''-'' else []))) = (if neg then - int n else int n)"
proof -
  obtain c r where cr: "rev (put_digits n) = c # r" by (cases "rev (put_digits n)") auto
  then have "c \<in> set (put_digits n)" by (metis list.set_intros(1) set_rev)
  then have "c \<noteq> CHR ''-''" using put_digits_digits is_digit_not_sign by blast
  with cr show ?thesis using read_nat_digits [of n] by (auto simp: read_int_def)
qed

lemma unat_of_abs:
  "in_s32 v \<Longrightarrow> unat (word_of_int (if v < 0 then - v else v) :: u32) = nat \<bar>v\<bar>"
  "\<bar>v\<bar> \<le> 2 ^ 63 \<Longrightarrow> unat (word_of_int (if v < 0 then - v else v) :: u64) = nat \<bar>v\<bar>"
  by (auto simp: in_s32_iff unsigned_of_int take_bit_int_eq_self_iff nat_eq_iff)

definition signed_text :: "int \<Rightarrow> string" where
  "signed_text v = rev (put_digits (nat \<bar>v\<bar>) @ (if v < 0 then ''-'' else []))"

lemma fast_itoa10_text: "in_s32 v \<Longrightarrow> fast_itoa10 v = (signed_text v, length (signed_text v))"
  unfolding fast_itoa10_def Let_def unat_of_abs(1) by (simp add: strreverse_rev signed_text_def)

lemma fast_litoa10_text:
  "\<bar>v\<bar> \<le> 2 ^ 63 \<Longrightarrow> fast_litoa10 v = (signed_text v, length (signed_text v))"
  unfolding fast_litoa10_def Let_def unat_of_abs(2) by (simp add: strreverse_rev signed_text_def)

lemma signed_text_nat: "signed_text (int n) = rev (put_digits n)"
  by (simp add: signed_text_def)

lemma fast_uitoa10_text: "fast_uitoa10 v = (signed_text (uint v), length (signed_text (uint v)))"
  unfolding fast_uitoa10_def strreverse_rev uint_nat signed_text_nat by simp

lemma fast_ulitoa10_text: "fast_ulitoa10 v = (signed_text (uint v), length (signed_text (uint v)))"
  unfolding fast_ulitoa10_def strreverse_rev uint_nat signed_text_nat by simp

lemma read_signed_text: "read_int (signed_text v) = v"
  using read_int_signed [of "nat \<bar>v\<bar>" "v < 0"] by (simp add: signed_text_def split: if_splits)

lemma length_signed_text: "\<bar>v\<bar> < 10 ^ k \<Longrightarrow> 0 < k \<Longrightarrow> length (signed_text v) \<le> k + (if v < 0 then 1 else 0)"
proof -
  assume "\<bar>v\<bar> < 10 ^ k" "0 < k"
  then have "nat \<bar>v\<bar> < 10 ^ k" by (metis nat_less_iff abs_ge_zero of_nat_numeral of_nat_power)
  then have "length (put_digits (nat \<bar>v\<bar>)) \<le> k" using \<open>0 < k\<close> by (rule length_put_digits)
  then show ?thesis unfolding signed_text_def by (cases "v < 0") simp_all
qed

lemma integers_read_back:
  "in_s32 i \<Longrightarrow> read_int (fst (fast_itoa10 i)) = i"
  "read_int (fst (fast_uitoa10 u)) = uint u"
  "\<bar>l\<bar> \<le> 2 ^ 63 \<Longrightarrow> read_int (fst (fast_litoa10 l)) = l"
  "read_int (fst (fast_ulitoa10 w)) = uint w"
  by (simp_all add: fast_itoa10_text fast_uitoa10_text fast_litoa10_text fast_ulitoa10_text read_signed_text)

text \<open>
  C32: every 32-bit and 64-bit integer, signed or not and the smallest ones included, is printed as
  the text that reads back as exactly this integer: a minus sign where it is negative and its
  decimal digits. The length each function returns is that of the text, at most 10 digits for 32
  bits, 19 for signed and 20 for unsigned 64 bits, plus the sign.
\<close>

theorem integers_print_exactly:
  "(in_s32 i \<longrightarrow> (case fast_itoa10 i of (t, n) \<Rightarrow>
      read_int t = i \<and> n = length t \<and> n \<le> 10 + (if i < 0 then 1 else 0))) \<and>
   (case fast_uitoa10 u of (t, n) \<Rightarrow> read_int t = uint u \<and> n = length t \<and> n \<le> 10) \<and>
   (\<bar>l\<bar> \<le> 2 ^ 63 \<longrightarrow> (case fast_litoa10 l of (t, n) \<Rightarrow>
      read_int t = l \<and> n = length t \<and> n \<le> 19 + (if l < 0 then 1 else 0))) \<and>
   (case fast_ulitoa10 w of (t, n) \<Rightarrow> read_int t = uint w \<and> n = length t \<and> n \<le> 20)"
proof -
  have u: "\<bar>uint u\<bar> < 10 ^ 10" using uint_bounded [of u] by (simp add: abs_of_nonneg)
  have w: "\<bar>uint w\<bar> < 10 ^ 20" using uint_bounded [of w] by (simp add: abs_of_nonneg)
  have i: "in_s32 i \<Longrightarrow> \<bar>i\<bar> < 10 ^ 10" by (auto simp: in_s32_iff abs_less_iff)
  have l: "\<bar>l\<bar> \<le> 2 ^ 63 \<Longrightarrow> \<bar>l\<bar> < 10 ^ 19" by simp
  show ?thesis
    using length_signed_text [OF i] length_signed_text [OF l] length_signed_text [OF u] length_signed_text [OF w]
    by (simp add: fast_itoa10_text fast_uitoa10_text fast_litoa10_text fast_ulitoa10_text read_signed_text)
qed

theorem integers_print_exactly_witness:
  "read_int (fst (fast_itoa10 (- 2147483648))) = - 2147483648 \<and> snd (fast_itoa10 (- 2147483648)) \<le> 11 \<and>
   read_int (fst (fast_litoa10 (- 9223372036854775808))) = - 9223372036854775808"
  using integers_print_exactly [of "- 2147483648" 0 "- 9223372036854775808" 0]
  by (auto simp: in_s32_iff split: prod.splits)

subsection \<open>Doubles\<close>

text \<open>
  The rounding. Inside \<open>int\<close> the whole part and the fraction are within half a unit of the
  last digit of the value, unless the scaled fraction stands exactly half a unit below the next
  whole number: then the fraction is rounded up to \<open>10 ^ prec\<close> and nothing carries it over.
\<close>

definition top_half :: "'d::floor_ceiling \<Rightarrow> nat \<Rightarrow> bool" where
  "top_half value p \<longleftrightarrow> (value - of_int \<lfloor>value\<rfloor>) * 10 ^ p = 10 ^ p - 1 / 2"

lemma unat_double_to_u32:
  fixes x :: "'d::floor_ceiling"
  assumes "0 \<le> x" "x < 10 ^ 9"
  shows "unat (double_to_u32 x) = nat \<lfloor>x\<rfloor>" "nat \<lfloor>x\<rfloor> < 10 ^ 9"
proof -
  have r: "0 \<le> \<lfloor>x\<rfloor> \<and> \<lfloor>x\<rfloor> < 1000000000" using assms by (simp add: floor_less_iff)
  then have "take_bit 32 \<lfloor>x\<rfloor> = \<lfloor>x\<rfloor>" by (simp add: take_bit_int_eq_self_iff)
  then show "unat (double_to_u32 x) = nat \<lfloor>x\<rfloor>" by (simp add: double_to_u32_def unsigned_of_int)
  show "nat \<lfloor>x\<rfloor> < 10 ^ 9" using r by (simp add: nat_less_iff)
qed

lemma odd_word_of_nat: "odd (of_nat n :: u32) = odd n"
  by transfer simp

text \<open>The rounding on numbers: floor, and the three cases of the rest.\<close>

definition round_frac :: "'d::floor_ceiling \<Rightarrow> nat" where
  "round_frac t =
     (let f = nat \<lfloor>t\<rfloor>; d = t - of_nat f
      in if d > 1 / 2 \<or> d = 1 / 2 \<and> (f = 0 \<or> odd f) then f + 1 else f)"

lemma round_frac_near:
  fixes t :: "'d::floor_ceiling"
  assumes "0 \<le> t"
  shows "\<bar>of_nat (round_frac t) - t\<bar> \<le> 1 / 2"
proof -
  have f: "of_nat (nat \<lfloor>t\<rfloor>) = (of_int \<lfloor>t\<rfloor> :: 'd)" using assms by simp
  have "of_int \<lfloor>t\<rfloor> \<le> t" "t < of_int \<lfloor>t\<rfloor> + 1" by linarith+
  then show ?thesis unfolding round_frac_def Let_def
    by (cases "t - of_int \<lfloor>t\<rfloor> > 1 / 2 \<or> t - of_int \<lfloor>t\<rfloor> = 1 / 2 \<and> (nat \<lfloor>t\<rfloor> = 0 \<or> odd (nat \<lfloor>t\<rfloor>))")
      (auto simp: f abs_le_iff field_simps)
qed


lemma round_frac_le: "f = nat \<lfloor>t\<rfloor> \<Longrightarrow> round_frac t \<le> f + 1 \<and> f \<le> round_frac t"
  by (simp add: round_frac_def Let_def)

definition frac_part :: "'d::floor_ceiling \<Rightarrow> nat \<Rightarrow> 'd" where
  "frac_part v p = (v - of_int \<lfloor>v\<rfloor>) * 10 ^ p"

lemma frac_part_range: "0 \<le> frac_part v p" "frac_part v p < 10 ^ p"
proof -
  have "0 \<le> v - of_int \<lfloor>v\<rfloor>" "v - of_int \<lfloor>v\<rfloor> < 1" by linarith+
  then show "0 \<le> frac_part v p" "frac_part v p < 10 ^ p"
    using mult_strict_right_mono [of "v - of_int \<lfloor>v\<rfloor>" 1 "10 ^ p"] by (simp_all add: frac_part_def)
qed

lemma split_round_frac:
  fixes v :: "'d::floor_ceiling"
  assumes v: "\<lfloor>v\<rfloor> \<le> INT32_MAX" and p: "1 \<le> p" "p \<le> 9"
  defines "t \<equiv> frac_part v p"
  shows "split_round v p = Some (if t > 10 ^ p - 1 / 2 then (s32 (\<lfloor>v\<rfloor> + 1), 0) else (\<lfloor>v\<rfloor>, of_nat (round_frac t)))"
    and "round_frac t \<le> 10 ^ p"
    and "t < 10 ^ p - 1 / 2 \<Longrightarrow> round_frac t < 10 ^ p"
    and "t = 10 ^ p - 1 / 2 \<Longrightarrow> round_frac t = 10 ^ p"
proof -
  define f where "f = nat \<lfloor>t\<rfloor>"
  have t0: "0 \<le> t" and t1: "t < 10 ^ p" using frac_part_range [of v p] by (simp_all add: t_def)
  have p9: "(10::'d) ^ p \<le> 10 ^ 9" using p by (intro power_increasing) simp_all
  have fl: "(of_nat f :: 'd) = of_int \<lfloor>t\<rfloor>" using t0 by (simp add: f_def)
  have near: "of_nat f \<le> t" "t < of_nat f + 1" unfolding fl by linarith+
  have "(of_nat f :: 'd) < of_nat (10 ^ p)"
    unfolding of_nat_power of_nat_numeral using near(1) t1 by (rule order.strict_trans1)
  then have fp: "f < 10 ^ p" by (simp only: of_nat_less_iff)
  have p9n: "(10::nat) ^ p \<le> 10 ^ 9" using p by (intro power_increasing) simp_all
  have u: "unat (double_to_u32 t) = f" using unat_double_to_u32(1) [of t] t0 t1 p9 by (simp add: f_def)
  have u1: "unat (double_to_u32 t + 1) = f + 1"
    using fp p9n unat_word_ariths(1) [of "double_to_u32 t" 1] by (simp add: u)
  have uw: "double_to_u32 t = of_nat f" using u by (simp flip: u)
  have top: "(of_nat (f + 1) \<ge> (10::'d) ^ p) = (f + 1 = 10 ^ p)"
    using fp of_nat_le_iff [where ?'a = 'd, of "10 ^ p" "f + 1"]
    by (simp del: of_nat_le_iff) linarith
  have odd: "(double_to_u32 t AND 1 \<noteq> 0) = odd f" 
    unfolding uw by (simp add: and_one_eq odd_word_of_nat flip: odd_iff_mod_2_eq_one)
  have full: "f + 1 = 10 ^ p" if "t \<ge> 10 ^ p - 1 / 2"
  proof -
    have "(of_nat (10 ^ p) :: 'd) < of_nat (f + 2)" using that near(2) by simp
    then have "10 ^ p < f + 2" by (simp only: of_nat_less_iff)
    with fp show ?thesis by simp
  qed
  have fullD: "(of_nat f :: 'd) = 10 ^ p - 1" if "f + 1 = 10 ^ p"
    using that by (metis add_diff_cancel_right' of_nat_1 of_nat_add of_nat_numeral of_nat_power)
  have odd_top: "odd f" if "f + 1 = 10 ^ p"
    using that p by (metis even_power even_plus_one_iff even_numeral not_one_le_zero gr0I)
  have z: "(of_nat f :: u32) = 0 \<longleftrightarrow> f = 0" using u uw by (metis unat_eq_zero of_nat_0)
  show le: "round_frac t \<le> 10 ^ p"
    using round_frac_le [OF f_def] fp by linarith
  show "round_frac t < 10 ^ p" if "t < 10 ^ p - 1 / 2"
  proof (cases "f + 1 = 10 ^ p")
    case True
    then have "t - of_nat f < 1 / 2" using that fullD by simp
    with fp show ?thesis by (simp add: round_frac_def f_def [symmetric] Let_def)
  next
    case False
    with round_frac_le [OF f_def] fp show ?thesis by linarith
  qed
  show "round_frac t = 10 ^ p" if "t = 10 ^ p - 1 / 2"
  proof -
    have f1: "f + 1 = 10 ^ p" using that by (intro full) simp
    have "t - of_nat f = 1 / 2" using that fullD [OF f1] by simp
    then show ?thesis using f1 odd_top [OF f1] by (simp add: round_frac_def f_def [symmetric] Let_def)
  qed
  have s: "split_round v p =
     Some (if t - of_nat f > 1 / 2 then (if f + 1 = 10 ^ p then (s32 (\<lfloor>v\<rfloor> + 1), 0) else (\<lfloor>v\<rfloor>, of_nat (f + 1)))
           else if t - of_nat f = 1 / 2 \<and> (f = 0 \<or> odd f) then (\<lfloor>v\<rfloor>, of_nat (f + 1))
           else (\<lfloor>v\<rfloor>, of_nat f))"
    unfolding split_round_def double_to_int_def Let_def prop_pow10_def frac_part_def [symmetric] t_def [symmetric]
    using v u u1 top odd uw z
    by (simp add: t_def [symmetric] frac_part_def [symmetric] Let_def)
  show "split_round v p = Some (if t > 10 ^ p - 1 / 2 then (s32 (\<lfloor>v\<rfloor> + 1), 0) else (\<lfloor>v\<rfloor>, of_nat (round_frac t)))"
  proof (cases "t > 10 ^ p - 1 / 2")
    case True
    then have "f + 1 = 10 ^ p" "t - of_nat f > 1 / 2" using full fullD by auto
    with s True show ?thesis by simp
  next
    case False
    then have "\<not> (t - of_nat f > 1 / 2 \<and> f + 1 = 10 ^ p)" using fullD by auto
    with s False show ?thesis by (auto simp: round_frac_def f_def [symmetric] Let_def)
  qed
qed


subsection \<open>The text of a double\<close>

definition dec_text :: "bool \<Rightarrow> nat \<Rightarrow> nat \<Rightarrow> nat \<Rightarrow> string" where
  "dec_text neg w p f =
     (if neg then ''-'' else []) @ rev (put_digits w) @ ''.'' @
     replicate (p - length (put_digits f)) CHR ''0'' @ rev (put_digits f)"

lemma rev_put_frac: "rev (put_frac p f @ put_whole neg w) = dec_text neg (nat w) p (unat f)"
  by (simp add: put_frac_def put_whole_def dec_text_def Let_def)

lemma takeWhile_point:
  "(\<And>c. c \<in> set ds \<Longrightarrow> is_digit c) \<Longrightarrow> takeWhile (\<lambda>c. c \<noteq> CHR ''.'') (ds @ CHR ''.'' # r) = ds"
  by (induction ds) (auto dest: is_digit_not_sign)

lemma read_unsigned_point:
  assumes "\<And>c. c \<in> set ds \<Longrightarrow> is_digit c"
  shows "(read_unsigned (ds @ CHR ''.'' # fs) :: 'd::floor_ceiling) =
         of_nat (read_nat ds) + of_nat (read_nat fs) / 10 ^ length fs"
  using takeWhile_point [OF assms] by (simp add: read_unsigned_def Let_def)

lemma read_real_signed:
  assumes "ds \<noteq> []" and "\<And>c. c \<in> set ds \<Longrightarrow> is_digit c"
  shows "(read_real ((if neg then ''-'' else []) @ ds @ r) :: 'd::floor_ceiling) =
         (if neg then - read_unsigned (ds @ r) else read_unsigned (ds @ r))"
proof -
  obtain c cs where ds: "ds = c # cs" using assms(1) by (cases ds) auto
  then have "c \<noteq> CHR ''-''" using assms(2) is_digit_not_sign by simp
  then show ?thesis using ds by (simp add: read_real_def)
qed

lemma read_dec_text:
  assumes "length (put_digits f) \<le> p"
  shows "(read_real (dec_text neg w p f) :: 'd::floor_ceiling) =
         (let x = of_nat w + of_nat f / 10 ^ p in if neg then - x else x)"
proof -
  have ds: "\<And>c. c \<in> set (rev (put_digits w)) \<Longrightarrow> is_digit c" using put_digits_digits by auto
  let ?r = "CHR ''.'' # replicate (p - length (put_digits f)) CHR ''0'' @ rev (put_digits f)"
  have "(read_unsigned (rev (put_digits w) @ ?r) :: 'd) = of_nat w + of_nat f / 10 ^ p"
    by (subst read_unsigned_point [OF ds]) (use assms in \<open>simp_all add: read_nat_zeros\<close>)
  then show ?thesis
    using read_real_signed [of "rev (put_digits w)" neg ?r, where ?'d = 'd] ds
    by (simp add: dec_text_def Let_def)
qed

text \<open>The fraction of the text: the characters after the point.\<close>

definition decimals :: "string \<Rightarrow> string" where
  "decimals s = drop 1 (dropWhile (\<lambda>c. c \<noteq> CHR ''.'') s)"

lemma decimals_dec_text:
  "decimals (dec_text neg w p f) = replicate (p - length (put_digits f)) CHR ''0'' @ rev (put_digits f)"
proof -
  have "dropWhile (\<lambda>c. c \<noteq> CHR ''.'') ((if neg then ''-'' else []) @ rev (put_digits w) @ ''.'' @ r) = ''.'' @ r" for r
    using dropWhile_append2 [of "rev (put_digits w)" "\<lambda>c. c \<noteq> CHR ''.''" "''.'' @ r"]
      put_digits_digits is_digit_not_sign by auto
  then show ?thesis by (simp add: decimals_def dec_text_def)
qed

definition short_text :: "bool \<Rightarrow> nat \<Rightarrow> nat \<Rightarrow> nat \<Rightarrow> string" where
  "short_text neg w p f =
     (if f = 0 then (if neg then ''-'' else []) @ rev (put_digits w)
      else (case strip_zeros p f of (c, f') \<Rightarrow> dec_text neg w c f'))"

lemma rev_put_frac2: "rev (put_frac2 p f @ put_whole neg w) = short_text neg (nat w) p (unat f)"
  by (auto simp: put_frac2_def put_whole_def short_text_def dec_text_def Let_def unat_eq_zero split: prod.splits)

lemma round_frac_fits: "f \<le> 10 ^ p \<Longrightarrow> p \<le> 9 \<Longrightarrow> unat (of_nat f :: u32) = f"
proof -
  assume "f \<le> 10 ^ p" "p \<le> 9"
  moreover have "(10::nat) ^ p \<le> 10 ^ 9" if "p \<le> 9" using that by (intro power_increasing) simp_all
  ultimately show ?thesis by (simp add: unsigned_of_nat take_bit_nat_eq_self)
qed

lemma half_scaled: "\<bar>x\<bar> \<le> 1 / 2 \<Longrightarrow> \<bar>x / 10 ^ p\<bar> \<le> 1 / 2 / (10::'d::floor_ceiling) ^ p"
proof -
  assume "\<bar>x\<bar> \<le> 1 / 2"
  then have "\<bar>x\<bar> / 10 ^ p \<le> 1 / 2 / 10 ^ p" by (rule divide_right_mono) simp
  then show ?thesis by simp
qed

lemma split_round_near:
  fixes v :: "'d::floor_ceiling"
  assumes v: "0 \<le> v" "v \<le> 2147483647" and p: "1 \<le> p" "p \<le> 9"
  obtains w fr where "split_round v p = Some (int w, of_nat fr)" and "fr \<le> 10 ^ p"
    and "\<bar>of_nat w + of_nat fr / 10 ^ p - v\<bar> \<le> 1 / 2 / 10 ^ p"
    and "fr = 10 ^ p \<longleftrightarrow> top_half v p" and "fr = 10 ^ p \<longrightarrow> int w = \<lfloor>v\<rfloor>"
proof -
  define t where "t = frac_part v p"
  have fl: "\<lfloor>v\<rfloor> \<le> INT32_MAX" using v by (simp add: INT32_MAX_def floor_le_iff)
  have w0: "0 \<le> \<lfloor>v\<rfloor>" using v by simp
  have P: "(0::'d) < 10 ^ p" by simp
  have dist: "x + y / 10 ^ p - v = (y - t + (x - of_int \<lfloor>v\<rfloor>) * 10 ^ p) / 10 ^ p" for x y :: 'd
    using P by (simp add: t_def frac_part_def field_simps)
  have t: "0 \<le> t" "t < 10 ^ p" using frac_part_range [of v p] by (simp_all add: t_def)
  have top: "top_half v p \<longleftrightarrow> t = 10 ^ p - 1 / 2" by (simp add: top_half_def t_def frac_part_def)
  note sr = split_round_frac [OF fl p, folded t_def]
  show thesis
  proof (cases "t > 10 ^ p - 1 / 2")
    case True
    have "of_int \<lfloor>v\<rfloor> \<noteq> v"
    proof
      assume "of_int \<lfloor>v\<rfloor> = v"
      then have "t = 0" by (simp only: t_def frac_part_def diff_self mult_zero_left)
      with True have "(10::'d) ^ p < 1" by simp
      moreover have "(1::'d) \<le> 10 ^ p" by simp
      ultimately show False by simp
    qed
    then have "v \<noteq> 2147483647" by (metis floor_numeral of_int_numeral)
    then have "v < 2147483647" using v by simp
    then have "\<lfloor>v\<rfloor> < 2147483647" by (simp add: floor_less_iff)
    then have "s32 (\<lfloor>v\<rfloor> + 1) = int (nat (\<lfloor>v\<rfloor> + 1))" using w0 by (simp add: s32_exact in_s32_iff)
    with sr(1) True have s: "split_round v p = Some (int (nat (\<lfloor>v\<rfloor> + 1)), of_nat 0)" by simp
    have "\<bar>of_nat (nat (\<lfloor>v\<rfloor> + 1)) + of_nat 0 / 10 ^ p - v\<bar> \<le> 1 / 2 / (10::'d) ^ p"
      unfolding dist by (rule half_scaled) (use True t w0 P in \<open>simp add: abs_le_iff\<close>)
    then show thesis using s True top that [of "nat (\<lfloor>v\<rfloor> + 1)" 0] by simp
  next
    case False
    have "\<bar>of_nat (nat \<lfloor>v\<rfloor>) + of_nat (round_frac t) / 10 ^ p - v\<bar> \<le> 1 / 2 / (10::'d) ^ p"
      unfolding dist by (rule half_scaled) (use round_frac_near [OF t(1)] w0 in simp)
    moreover have "round_frac t = 10 ^ p \<longleftrightarrow> top_half v p"
      using sr(3,4) False top by fastforce
    ultimately show thesis using sr(1,2) False w0 that [of "nat \<lfloor>v\<rfloor>" "round_frac t"] by simp
  qed
qed

lemma fast_dtoa_text:
  fixes v :: "'d::floor_ceiling"
  assumes v: "\<bar>v\<bar> \<le> 2147483647" and p: "1 \<le> p" "p \<le> 9"
  obtains w f where "fast_dtoa e (Some v) (int p) = Some (dec_text (v < 0) w p f, length (dec_text (v < 0) w p f))"
    and "fast_dtoa2 e (Some v) (int p) = Some (short_text (v < 0) w p f, length (short_text (v < 0) w p f))"
    and "\<bar>of_nat w + of_nat f / 10 ^ p - \<bar>v\<bar>\<bar> \<le> 1 / 2 / 10 ^ p" and "f \<le> 10 ^ p"
    and "f = 10 ^ p \<longleftrightarrow> top_half \<bar>v\<bar> p" and "f = 10 ^ p \<longrightarrow> int w = \<lfloor>\<bar>v\<bar>\<rfloor>"
proof -
  have abs: "(if v < 0 then - v else v) = \<bar>v\<bar>" by simp
  have cp: "clamp_prec (int p) = p" "p \<noteq> 0" using p by (simp_all add: clamp_prec_def)
  obtain w f where s: "split_round \<bar>v\<bar> p = Some (int w, of_nat f)" and f: "f \<le> 10 ^ p"
    and r: "\<bar>of_nat w + of_nat f / 10 ^ p - \<bar>v\<bar>\<bar> \<le> 1 / 2 / 10 ^ p"
      "f = 10 ^ p \<longleftrightarrow> top_half \<bar>v\<bar> p" "f = 10 ^ p \<longrightarrow> int w = \<lfloor>\<bar>v\<bar>\<rfloor>"
    using split_round_near [of "\<bar>v\<bar>" p] v p by auto
  note un = round_frac_fits [OF f p(2)]
  have rv: "strreverse s = (t, length t)" if "rev s = t" for s t :: string
    using that by (metis strreverse_rev length_rev)
  have "fast_dtoa e (Some v) (int p) = Some (strreverse (put_frac p (of_nat f) @ put_whole (v < 0) (int w)))"
    unfolding fast_dtoa_def option.case Let_def abs cp s prod.case using v cp by (simp add: thres_max_def)
  moreover have "fast_dtoa2 e (Some v) (int p) = Some (strreverse (put_frac2 p (of_nat f) @ put_whole (v < 0) (int w)))"
    unfolding fast_dtoa2_def option.case Let_def abs cp s prod.case using v cp by (simp add: thres_max_def)
  moreover have "strreverse (put_frac p (of_nat f) @ put_whole (v < 0) (int w)) = (dec_text (v < 0) w p f, length (dec_text (v < 0) w p f))"
    by (rule rv) (simp only: rev_put_frac un nat_int)
  moreover have "strreverse (put_frac2 p (of_nat f) @ put_whole (v < 0) (int w)) = (short_text (v < 0) w p f, length (short_text (v < 0) w p f))"
    by (rule rv) (simp only: rev_put_frac2 un nat_int)
  ultimately show thesis using that f r by simp
qed

text \<open>
  The two statements about prices and amounts. Away from the upper half the text has the
  digits asked for and is the nearest; at the upper half the fraction gets a digit more, and the
  text says a tenth more than the whole part instead of the next whole number.
\<close>

text \<open>
  In exact arithmetic, a number printed with 1 to 9 decimals is the nearest number with so many
  decimals, unless its fraction lies within half a unit of the next whole number.
\<close>

lemma dtoa_nearest:
  fixes v :: "'d::floor_ceiling"
  assumes v: "\<bar>v\<bar> \<le> 2147483647" and p: "1 \<le> p" "p \<le> 9" and h: "\<not> top_half \<bar>v\<bar> p"
  shows "\<exists>t. fast_dtoa e (Some v) (int p) = Some (t, length t) \<and> length (decimals t) = p \<and>
    \<bar>read_real t - v\<bar> \<le> 1 / 2 / 10 ^ p"
proof -
  obtain w f where t: "fast_dtoa e (Some v) (int p) = Some (dec_text (v < 0) w p f, length (dec_text (v < 0) w p f))"
    and near: "\<bar>of_nat w + of_nat f / 10 ^ p - \<bar>v\<bar>\<bar> \<le> 1 / 2 / 10 ^ p" and f: "f \<le> 10 ^ p"
    and top: "f = 10 ^ p \<longleftrightarrow> top_half \<bar>v\<bar> p"
    using fast_dtoa_text [OF v p] by metis
  have "f < 10 ^ p" using f top h by (simp add: le_neq_implies_less)
  then have l: "length (put_digits f) \<le> p" using p by (intro length_put_digits) simp_all
  have "\<bar>read_real (dec_text (v < 0) w p f) - v\<bar> \<le> 1 / 2 / 10 ^ p"
    using near unfolding read_dec_text [OF l] Let_def by (cases "v < 0") (simp_all add: abs_le_iff)
  then show ?thesis using t l by (simp add: decimals_dec_text)
qed


lemma dtoa_halfway_rollover:
  fixes v :: "'d::floor_ceiling"
  assumes v: "\<bar>v\<bar> \<le> 2147483647" and p: "1 \<le> p" "p \<le> 9" and h: "top_half \<bar>v\<bar> p"
  shows "\<exists>t. fast_dtoa e (Some v) (int p) = Some (t, length t) \<and> length (decimals t) = p + 1 \<and>
    \<bar>read_real t\<bar> = of_int \<lfloor>\<bar>v\<bar>\<rfloor> + 1 / (10::'d)"
proof -
  obtain w f where t: "fast_dtoa e (Some v) (int p) = Some (dec_text (v < 0) w p f, length (dec_text (v < 0) w p f))"
    and f: "f = 10 ^ p" and w: "int w = \<lfloor>\<bar>v\<bar>\<rfloor>"
    using fast_dtoa_text [OF v p] h by metis
  have l: "length (put_digits f) = Suc p"
    by (rule antisym) (use f in \<open>auto intro: length_put_digits length_put_digits_ge\<close>)
  have d: "decimals (dec_text (v < 0) w p f) = rev (put_digits f)"
    by (simp add: decimals_dec_text l)
  have e: "dec_text (v < 0) w p f = dec_text (v < 0) w (Suc p) f" by (simp add: dec_text_def l)
  have "(of_nat f / 10 ^ Suc p :: 'd) = 1 / 10" by (simp add: f)
  moreover have "(of_nat w :: 'd) = of_int \<lfloor>\<bar>v\<bar>\<rfloor>" using w by (metis of_int_of_nat_eq)
  ultimately have x: "of_nat w + of_nat f / 10 ^ Suc p = of_int \<lfloor>\<bar>v\<bar>\<rfloor> + 1 / (10::'d)" by (simp only:)
  have pos: "(0::'d) \<le> of_int \<lfloor>\<bar>v\<bar>\<rfloor> + 1 / 10" by (intro add_nonneg_nonneg) simp_all
  have "\<bar>read_real (dec_text (v < 0) w p f)\<bar> = of_int \<lfloor>\<bar>v\<bar>\<rfloor> + 1 / (10::'d)"
    unfolding e read_dec_text [OF eq_refl [OF l]] Let_def x
    using pos by (cases "v < 0") (simp_all only: if_True if_False abs_minus_cancel abs_of_nonneg)
  then show ?thesis using t d l by simp
qed

lemma dtoa_halfway_rollover_witness:
  "\<exists>t. fast_dtoa (\<lambda>_. []) (Some (95 / 100 :: rat)) 1 = Some (t, length t) \<and> length (decimals t) = 2 \<and>
    \<bar>read_real t\<bar> = (1 / 10 :: rat)"
proof -
  have "\<lfloor>95 / 100 :: rat\<rfloor> = 0" by (simp add: floor_eq_iff)
  then show ?thesis
    using dtoa_halfway_rollover [of "95 / 100 :: rat" 1 "\<lambda>_. []"] by (simp add: top_half_def numeral_2_eq_2)
qed

lemma dtoa_nearest_witness:
  "\<exists>t. fast_dtoa (\<lambda>_. []) (Some (- 1234567 / 1000 :: rat)) 2 = Some (t, length t) \<and> length (decimals t) = 2 \<and>
    \<bar>read_real t - (- 1234567 / 1000 :: rat)\<bar> \<le> 1 / 2 / 10 ^ 2"
proof -
  have "\<lfloor>1234567 / 1000 :: rat\<rfloor> = 1234" by (simp add: floor_eq_iff)
  then show ?thesis
    using dtoa_nearest [of "- 1234567 / 1000 :: rat" 2 "\<lambda>_. []"] by (simp add: top_half_def)
qed

subsection \<open>Without the zeros at the end\<close>

lemma strip_zeros_sound:
  "f \<noteq> 0 \<Longrightarrow> f \<le> 10 ^ c \<Longrightarrow> strip_zeros c f = (c', f') \<Longrightarrow>
   c' \<le> c \<and> f = f' * 10 ^ (c - c') \<and> f' mod 10 \<noteq> 0"
proof (induction c f rule: strip_zeros.induct)
  case (1 c f)
  show ?case
  proof (cases "f mod 10 = 0")
    case True
    obtain k where c: "c = Suc k"
      using 1(2,3) True by (cases c) auto
    have s: "strip_zeros k (f div 10) = (c', f')"
      using 1(2,4) True c by (subst (asm) strip_zeros.simps) simp
    have "f div 10 \<noteq> 0" "f div 10 \<le> 10 ^ k" using 1(2,3) True c by auto
    then have "c' \<le> k \<and> f div 10 = f' * 10 ^ (k - c') \<and> f' mod 10 \<noteq> 0"
      using 1(1) 1(2) True c s by simp
    moreover have "f = f div 10 * 10" using True by auto
    ultimately show ?thesis using c by (simp add: Suc_diff_le)
  next
    case False
    with 1(4) show ?thesis by (subst (asm) strip_zeros.simps) auto
  qed
qed


lemma put_digits_shift: "f \<noteq> 0 \<Longrightarrow> put_digits (f * 10 ^ k) = replicate k CHR ''0'' @ put_digits f"
proof (induction k)
  case (Suc k)
  have "digit (f * 10 ^ Suc k) = CHR ''0''" by (simp add: digit_zero)
  moreover have "f * 10 ^ Suc k div 10 = f * 10 ^ k" by simp
  ultimately show ?case using Suc by (subst put_digits.simps) simp
qed simp

lemma read_dec_text_max:
  "(read_real (dec_text neg w p f) :: 'd::floor_ceiling) =
   (let x = of_nat w + of_nat f / 10 ^ max p (length (put_digits f)) in if neg then - x else x)"
proof -
  have "dec_text neg w p f = dec_text neg w (max p (length (put_digits f))) f" by (simp add: dec_text_def max_def)
  then show ?thesis using read_dec_text [of f "max p (length (put_digits f))"] by simp
qed

lemma length_dec_text:
  "length (dec_text neg w p f) = (if neg then 1 else 0) + length (put_digits w) + 1 + max p (length (put_digits f))"
  by (simp add: dec_text_def max_def)

lemma read_whole_text:
  "(read_real ((if neg then ''-'' else []) @ rev (put_digits w)) :: 'd::floor_ceiling) = (if neg then - of_nat w else of_nat w)"
  "decimals ((if neg then ''-'' else []) @ rev (put_digits w)) = []"
proof -
  have ds: "\<And>c. c \<in> set (rev (put_digits w)) \<Longrightarrow> is_digit c" using put_digits_digits by auto
  then have nd: "\<forall>c \<in> set (rev (put_digits w)). c \<noteq> CHR ''.''" using is_digit_not_sign by blast
  then have "(read_unsigned (rev (put_digits w)) :: 'd) = of_nat w"
    by (simp add: read_unsigned_def takeWhile_eq_all_conv [THEN iffD2] Let_def)
  then show "(read_real ((if neg then ''-'' else []) @ rev (put_digits w)) :: 'd) = (if neg then - of_nat w else of_nat w)"
    using read_real_signed [of "rev (put_digits w)" neg "[]", where ?'d = 'd] ds by simp
  show "decimals ((if neg then ''-'' else []) @ rev (put_digits w)) = []"
    using nd by (auto simp: decimals_def dropWhile_eq_Nil_conv [THEN iffD2])
qed

lemma short_text_same:
  assumes "f \<le> 10 ^ p"
  shows "(read_real (short_text neg w p f) :: 'd::floor_ceiling) = read_real (dec_text neg w p f) \<and>
    length (short_text neg w p f) \<le> length (dec_text neg w p f) \<and>
    (decimals (short_text neg w p f) \<noteq> [] \<longrightarrow> last (decimals (short_text neg w p f)) \<noteq> CHR ''0'')"
proof (cases "f = 0")
  case True
  then show ?thesis
    by (simp add: short_text_def read_whole_text read_dec_text_max length_dec_text Let_def)
next
  case False
  obtain c g where cg: "strip_zeros p f = (c, g)" by force
  have s: "c \<le> p" "f = g * 10 ^ (p - c)" "g mod 10 \<noteq> 0" using strip_zeros_sound [OF False assms cg] by blast+
  then have g: "g \<noteq> 0" by auto
  have len: "max p (length (put_digits f)) = max c (length (put_digits g)) + (p - c)"
    using s(1) put_digits_shift [OF g, of "p - c"] s(2) by simp
  have "(of_nat f / 10 ^ max p (length (put_digits f)) :: 'd) = of_nat g / 10 ^ max c (length (put_digits g))"
    unfolding len by (subst s(2)) (simp add: power_add)
  moreover have "last (rev (put_digits g)) = digit g"
    by (simp add: last_rev) (subst put_digits.simps, simp)
  moreover have "digit g \<noteq> CHR ''0''" using s(3) by (simp add: digit_zero)
  ultimately show ?thesis
    using False by (simp add: short_text_def cg read_dec_text_max length_dec_text len decimals_dec_text)
qed

text \<open>\<open>fast_dtoa2\<close> says the same number, in the digits that are left without the zeros.\<close>

lemma dtoa2_same_value:
  fixes v :: "'d::floor_ceiling"
  assumes v: "\<bar>v\<bar> \<le> 2147483647" and p: "1 \<le> p" "p \<le> 9"
  shows "\<exists>t t2. fast_dtoa e (Some v) (int p) = Some (t, length t) \<and> fast_dtoa2 e (Some v) (int p) = Some (t2, length t2) \<and>
    (read_real t2 :: 'd) = read_real t \<and> length t2 \<le> length t \<and> (decimals t2 \<noteq> [] \<longrightarrow> last (decimals t2) \<noteq> CHR ''0'')"
proof -
  obtain w f where "fast_dtoa e (Some v) (int p) = Some (dec_text (v < 0) w p f, length (dec_text (v < 0) w p f))"
    and "fast_dtoa2 e (Some v) (int p) = Some (short_text (v < 0) w p f, length (short_text (v < 0) w p f))"
    and "f \<le> 10 ^ p"
    using fast_dtoa_text [OF v p] by metis
  then show ?thesis using short_text_same [of f p "v < 0" w, where ?'d = 'd] by blast
qed

end
