(* ===== verification/FastStream.thy ===== *)
theory FastStream
  imports NumText
begin

section \<open>The fixed-size text stream\<close>

text \<open>
  \<open>FastStream\<close> of \<open>common_str_util/fast_stream.h\<close>: a buffer of \<open>SIZE\<close> bytes and a pointer to
  its end, here the list of the characters written so far. Before it prints, an operator asks
  \<open>canInput\<close> for the room a text of its type needs at most; the printing functions do not
  know the end of the buffer and write their text and a zero behind it. A write past the
  last byte is undefined, \<open>None\<close>. The pointer to the printing function and the precision are
  options: the copy constructor sets neither. The results of \<open>vsnprintf\<close> and of the text
  forms of time stamps and identifiers come from libraries and are arguments.
\<close>

subsection \<open>State\<close>

definition MAX_LENGTH_CHAR :: nat where "MAX_LENGTH_CHAR = 1 + 1"
definition MAX_LENGTH_INT16_T :: nat where "MAX_LENGTH_INT16_T = 4 + 1"
definition MAX_LENGTH_UINT16_T :: nat where "MAX_LENGTH_UINT16_T = 4 + 1"
definition MAX_LENGTH_INT32_T :: nat where "MAX_LENGTH_INT32_T = 9 + 1"
definition MAX_LENGTH_UINT32_T :: nat where "MAX_LENGTH_UINT32_T = 9 + 1"
definition MAX_LENGTH_INT64_T :: nat where "MAX_LENGTH_INT64_T = 18 + 1"
definition MAX_LENGTH_UINT64_T :: nat where "MAX_LENGTH_UINT64_T = 19 + 1"
definition MAX_FLOAT_LENGTH :: nat where "MAX_FLOAT_LENGTH = 6 + 2"
definition MAX_DOUBLE_LENGTH :: nat where "MAX_DOUBLE_LENGTH = 15 + 2"

record fast_stream =
  fs_text :: string
  fs_zeroes :: "bool option"
  fs_precision :: "u32 option"

definition fs_new :: "bool \<Rightarrow> fast_stream" where
  "fs_new PrintDoubleZeroes = \<lparr>fs_text = [], fs_zeroes = Some PrintDoubleZeroes, fs_precision = Some 8\<rparr>"

definition fs_clear :: "fast_stream \<Rightarrow> fast_stream" where
  "fs_clear s = s\<lparr>fs_text := [], fs_precision := Some 8\<rparr>"

definition fs_assign :: "fast_stream \<Rightarrow> fast_stream \<Rightarrow> fast_stream" where
  "fs_assign this rhs = this\<lparr>fs_text := fs_text rhs\<rparr>"

definition fs_copy :: "fast_stream \<Rightarrow> fast_stream" where
  "fs_copy rhs = fs_assign \<lparr>fs_text = [], fs_zeroes = None, fs_precision = None\<rparr> rhs"

definition fs_capacity :: "nat \<Rightarrow> nat" where
  "fs_capacity SIZE = SIZE - 1"

definition fs_size :: "fast_stream \<Rightarrow> nat" where
  "fs_size s = length (fs_text s)"

definition remained_capacity :: "nat \<Rightarrow> fast_stream \<Rightarrow> nat" where
  "remained_capacity SIZE s = fs_capacity SIZE - fs_size s"

definition fs_empty :: "fast_stream \<Rightarrow> bool" where
  "fs_empty s \<longleftrightarrow> fs_text s = []"

text \<open>What a reader of \<open>c_str()\<close> sees: the text up to the first zero byte.\<close>

definition fs_str :: "fast_stream \<Rightarrow> string" where
  "fs_str s = takeWhile (\<lambda>c. c \<noteq> CHR 0x00) (fs_text s)"

definition fs_equal :: "fast_stream \<Rightarrow> fast_stream \<Rightarrow> bool" where
  "fs_equal a b \<longleftrightarrow> \<not> (fs_empty a \<or> fs_empty b) \<and> fs_str a = fs_str b"

definition canInput :: "nat \<Rightarrow> fast_stream \<Rightarrow> nat \<Rightarrow> bool" where
  "canInput SIZE s n \<longleftrightarrow> fs_size s + n \<le> fs_capacity SIZE"

subsection \<open>Writing\<close>

text \<open>Bytes behind the pointer; they have to lie inside the buffer.\<close>

definition fs_store :: "nat \<Rightarrow> fast_stream \<Rightarrow> nat \<Rightarrow> string \<Rightarrow> fast_stream option" where
  "fs_store SIZE s bytes t = (if fs_size s + bytes \<le> SIZE then Some (s\<lparr>fs_text := fs_text s @ t\<rparr>) else None)"

definition fs_print :: "nat \<Rightarrow> fast_stream \<Rightarrow> nat \<Rightarrow> string \<times> nat \<Rightarrow> fast_stream option" where
  "fs_print SIZE s room r =
     (if canInput SIZE s room then fs_store SIZE s (length (fst r) + 1) (take (snd r) (fst r)) else Some s)"

definition fs_char :: "nat \<Rightarrow> fast_stream \<Rightarrow> char \<Rightarrow> fast_stream option" where
  "fs_char SIZE s v = (if canInput SIZE s MAX_LENGTH_CHAR then fs_store SIZE s 1 [v] else Some s)"

definition fs_int16 :: "nat \<Rightarrow> fast_stream \<Rightarrow> int \<Rightarrow> fast_stream option" where
  "fs_int16 SIZE s v = fs_print SIZE s MAX_LENGTH_INT16_T (fast_itoa10 v)"

definition fs_uint16 :: "nat \<Rightarrow> fast_stream \<Rightarrow> 16 word \<Rightarrow> fast_stream option" where
  "fs_uint16 SIZE s v = fs_print SIZE s MAX_LENGTH_UINT16_T (fast_uitoa10 (ucast v))"

definition fs_int32 :: "nat \<Rightarrow> fast_stream \<Rightarrow> int \<Rightarrow> fast_stream option" where
  "fs_int32 SIZE s v = fs_print SIZE s MAX_LENGTH_INT32_T (fast_itoa10 v)"

definition fs_uint32 :: "nat \<Rightarrow> fast_stream \<Rightarrow> u32 \<Rightarrow> fast_stream option" where
  "fs_uint32 SIZE s v = fs_print SIZE s MAX_LENGTH_UINT32_T (fast_uitoa10 v)"

definition fs_int64 :: "nat \<Rightarrow> fast_stream \<Rightarrow> int \<Rightarrow> fast_stream option" where
  "fs_int64 SIZE s v = fs_print SIZE s MAX_LENGTH_INT64_T (fast_litoa10 v)"

definition fs_uint64 :: "nat \<Rightarrow> fast_stream \<Rightarrow> u64 \<Rightarrow> fast_stream option" where
  "fs_uint64 SIZE s v = fs_print SIZE s MAX_LENGTH_UINT64_T (fast_ulitoa10 v)"

text \<open>A floating point number through the stored function; an unset pointer is undefined.\<close>

definition fs_dtoa :: "fast_stream \<Rightarrow> ('d \<Rightarrow> string) \<Rightarrow> 'd::floor_ceiling option \<Rightarrow> (string \<times> nat) option" where
  "fs_dtoa s sprintf_e v =
     (case (fs_zeroes s, fs_precision s) of
        (Some z, Some p) \<Rightarrow> (if z then fast_dtoa else fast_dtoa2) sprintf_e v (s32 (uint p))
      | _ \<Rightarrow> None)"

definition fs_real :: "nat \<Rightarrow> nat \<Rightarrow> fast_stream \<Rightarrow> ('d \<Rightarrow> string) \<Rightarrow> 'd::floor_ceiling option \<Rightarrow> fast_stream option" where
  "fs_real room SIZE s sprintf_e v =
     (if canInput SIZE s room
      then (case fs_dtoa s sprintf_e v of None \<Rightarrow> None | Some r \<Rightarrow> fs_print SIZE s room r)
      else Some s)"

definition fs_float :: "nat \<Rightarrow> fast_stream \<Rightarrow> ('d \<Rightarrow> string) \<Rightarrow> 'd::floor_ceiling option \<Rightarrow> fast_stream option" where
  "fs_float = fs_real MAX_FLOAT_LENGTH"

definition fs_double :: "nat \<Rightarrow> fast_stream \<Rightarrow> ('d \<Rightarrow> string) \<Rightarrow> 'd::floor_ceiling option \<Rightarrow> fast_stream option" where
  "fs_double = fs_real MAX_DOUBLE_LENGTH"

definition fs_string :: "nat \<Rightarrow> fast_stream \<Rightarrow> string \<Rightarrow> fast_stream option" where
  "fs_string SIZE s v =
     (let l = length v in if l > 0 \<and> canInput SIZE s l then fs_store SIZE s l v else Some s)"

text \<open>A C string: a null pointer is skipped, the text ends at its first zero.\<close>

definition fs_cstring :: "nat \<Rightarrow> fast_stream \<Rightarrow> string option \<Rightarrow> fast_stream option" where
  "fs_cstring SIZE s v =
     (case v of None \<Rightarrow> Some s | Some t \<Rightarrow> fs_string SIZE s (takeWhile (\<lambda>c. c \<noteq> CHR 0x00) t))"

definition fs_setPrecision :: "fast_stream \<Rightarrow> u32 \<Rightarrow> fast_stream" where
  "fs_setPrecision s p = s\<lparr>fs_precision := Some p\<rparr>"

definition fs_write :: "nat \<Rightarrow> fast_stream \<Rightarrow> string \<Rightarrow> int \<Rightarrow> (fast_stream \<times> int) option" where
  "fs_write SIZE s buffer n =
     (if n \<le> 0 \<or> \<not> canInput SIZE s (nat n) then Some (s, - 1)
      else if length buffer < nat n then None
      else (case fs_store SIZE s (nat n) (take (nat n) buffer) of None \<Rightarrow> None | Some s' \<Rightarrow> Some (s', n)))"

text \<open>
  \<open>sprintf\<close>: the library formats into the room that is left and returns the length of the
  whole text, \<open>None\<close> for its error; it keeps the last byte of the room for the zero.
\<close>

definition fs_sprintf :: "nat \<Rightarrow> fast_stream \<Rightarrow> string option \<Rightarrow> fast_stream \<times> int" where
  "fs_sprintf SIZE s formatted =
     (let rc = remained_capacity SIZE s in
      case formatted of
        None \<Rightarrow> (s, - 1)
      | Some t \<Rightarrow>
          let n = length t in
          if n = 0 then (s, - 1)
          else if n > rc then (s, - 1)
          else (s\<lparr>fs_text := fs_text s @ (if n = rc then take (rc - 1) t @ [CHR 0x00] else t)\<rparr>, int n))"

section \<open>What stays inside the buffer\<close>

definition fs_ok :: "nat \<Rightarrow> fast_stream \<Rightarrow> bool" where
  "fs_ok SIZE s \<longleftrightarrow> fs_size s < SIZE"

lemma fs_print_spec:
  assumes "fs_ok SIZE s" and "n = length t"
  shows "fs_print SIZE s room (t, n) =
    (if SIZE \<le> fs_size s + room then Some s
     else if SIZE \<le> fs_size s + n then None
     else Some (s\<lparr>fs_text := fs_text s @ t\<rparr>))"
  using assms by (auto simp: fs_print_def fs_store_def canInput_def fs_capacity_def fs_ok_def)

text \<open>The exact case in which an integer does not fit: a negative one of full length in the last free bytes.\<close>

lemma length_signed_text_neg:
  assumes "v \<le> - (10 ^ k)" "\<bar>v\<bar> < 10 ^ Suc k"
  shows "length (signed_text v) = k + 2"
proof -
  have v: "v < 0" using assms(1) by (rule le_less_trans) simp
  have a: "10 ^ k \<le> nat \<bar>v\<bar>" "nat \<bar>v\<bar> < 10 ^ Suc k" using assms v by (simp_all add: le_nat_iff nat_less_iff)
  have "length (put_digits (nat \<bar>v\<bar>)) = Suc k"
    using length_put_digits_ge [OF a(1)] length_put_digits [OF a(2)] by simp
  then show ?thesis using v by (simp add: signed_text_def)
qed

lemma fs_print_signed:
  assumes "\<bar>v\<bar> < 10 ^ Suc k" and "0 < k" and "fs_ok SIZE s"
  shows "fs_print SIZE s (Suc k) (signed_text v, length (signed_text v)) = None \<longleftrightarrow>
    SIZE = fs_size s + k + 2 \<and> v \<le> - (10 ^ k)"
proof (cases "v \<le> - (10 ^ k)")
  case True
  then show ?thesis using length_signed_text_neg [OF True assms(1)] fs_print_spec [OF assms(3) refl, of "Suc k" "signed_text v"] by auto
next
  case False
  have "length (signed_text v) \<le> Suc k"
  proof (cases "v < 0")
    case True
    with False have "\<bar>v\<bar> < 10 ^ k" by simp
    from length_signed_text [OF this assms(2)] True show ?thesis by simp
  qed (use length_signed_text [OF assms(1)] in simp)
  with False show ?thesis by (auto simp: fs_print_spec [OF assms(3) refl])
qed

text \<open>
  The room the stream asks for before it prints a signed integer forgets the sign: exactly
  for a negative number of full length in a buffer with that much room left, the terminating zero is
  written one byte behind the buffer.
\<close>

lemma stream_signed_overflow:
  assumes "fs_ok SIZE s" and "h \<in> {- 32768 .. 32767}" and "in_s32 v" and "l \<in> {- (2 ^ 63) .. 2 ^ 63 - 1}"
  shows "(fs_int16 SIZE s h = None \<longleftrightarrow> SIZE = fs_size s + 6 \<and> h \<le> - 10000) \<and>
    (fs_int32 SIZE s v = None \<longleftrightarrow> SIZE = fs_size s + 11 \<and> v \<le> - 1000000000) \<and>
    (fs_int64 SIZE s l = None \<longleftrightarrow> SIZE = fs_size s + 20 \<and> l \<le> - 1000000000000000000)"
proof (intro conjI)
  have h: "in_s32 h" using assms(2) by (simp add: in_s32_iff)
  show "fs_int16 SIZE s h = None \<longleftrightarrow> SIZE = fs_size s + 6 \<and> h \<le> - 10000"
    using fs_print_signed [of h 4 SIZE s] assms(1,2)
    by (auto simp: fs_int16_def fast_itoa10_text [OF h] MAX_LENGTH_INT16_T_def)
  show "fs_int32 SIZE s v = None \<longleftrightarrow> SIZE = fs_size s + 11 \<and> v \<le> - 1000000000"
    using fs_print_signed [of v 9 SIZE s] assms(1,3)
    by (auto simp: fs_int32_def fast_itoa10_text MAX_LENGTH_INT32_T_def in_s32_iff)
  have l: "\<bar>l\<bar> \<le> 2 ^ 63" using assms(4) by auto
  show "fs_int64 SIZE s l = None \<longleftrightarrow> SIZE = fs_size s + 20 \<and> l \<le> - 1000000000000000000"
    using fs_print_signed [of l 18 SIZE s] assms(1,4)
    by (auto simp: fs_int64_def fast_litoa10_text [OF l] MAX_LENGTH_INT64_T_def)
qed

lemma stream_signed_overflow_witness:
  "fs_int32 11 (fs_new False) (- 2147483648) = None \<and> fs_int32 12 (fs_new False) (- 2147483648) \<noteq> None"
  using stream_signed_overflow [of 11 "fs_new False" 0 "- 2147483648" 0]
    stream_signed_overflow [of 12 "fs_new False" 0 "- 2147483648" 0]
  by (simp add: fs_ok_def fs_size_def fs_new_def in_s32_iff)

lemma stream_unsigned_safe:
  assumes "fs_ok SIZE s"
  shows "fs_uint32 SIZE s u \<noteq> None" and "fs_uint64 SIZE s w \<noteq> None"
proof -
  have "uint u < 10 ^ 10" using uint_lt2p [of u] by simp
  then have "length (signed_text (uint u)) \<le> 10" using length_signed_text [of "uint u" 10] uint_ge_0 [of u] by simp
  then show "fs_uint32 SIZE s u \<noteq> None"
    by (auto simp: fs_uint32_def fast_uitoa10_text fs_print_spec [OF assms refl] MAX_LENGTH_UINT32_T_def)
  have "uint w < 10 ^ 20" using uint_lt2p [of w] by simp
  then have "length (signed_text (uint w)) \<le> 20" using length_signed_text [of "uint w" 20] by simp
  then show "fs_uint64 SIZE s w \<noteq> None"
    by (auto simp: fs_uint64_def fast_ulitoa10_text fs_print_spec [OF assms refl] MAX_LENGTH_UINT64_T_def)
qed

text \<open>Whatever is written, the pointer stays inside the buffer; a value that does not fit is dropped whole.\<close>

lemma stream_stays_ok:
  assumes "fs_ok SIZE s"
  shows "fs_print SIZE s room (t, length t) = Some s' \<Longrightarrow> fs_ok SIZE s' \<and> (s' = s \<or> fs_text s' = fs_text s @ t)"
    and "fs_char SIZE s c = Some s' \<Longrightarrow> fs_ok SIZE s' \<and> (s' = s \<or> fs_text s' = fs_text s @ [c])"
    and "fs_string SIZE s t = Some s' \<Longrightarrow> fs_ok SIZE s' \<and> (s' = s \<or> fs_text s' = fs_text s @ t)"
    and "fs_char SIZE s c \<noteq> None" and "fs_string SIZE s t \<noteq> None"
  using assms
  by (auto simp: fs_print_spec fs_char_def fs_string_def fs_store_def canInput_def fs_capacity_def fs_ok_def fs_size_def
      MAX_LENGTH_CHAR_def Let_def split: if_splits)

lemma sprintf_stays_ok: "fs_ok SIZE s \<Longrightarrow> fs_ok SIZE (fst (fs_sprintf SIZE s f))"
proof (cases f)
  case (Some t)
  assume "fs_ok SIZE s"
  then show ?thesis
    by (cases "t = []") (auto simp: Some fs_sprintf_def remained_capacity_def fs_capacity_def fs_ok_def fs_size_def Let_def
        simp flip: length_greater_0_conv)
qed (simp add: fs_sprintf_def)

text \<open>A double of the default precision can be four bytes longer than the room asked for.\<close>

lemma stream_double_overflow:
  assumes "length t = 20"
  shows "fs_print 19 (fs_new True) MAX_DOUBLE_LENGTH (t, length t) = None"
  by (subst fs_print_spec) (simp_all add: fs_ok_def fs_size_def fs_new_def MAX_DOUBLE_LENGTH_def assms)

lemma copied_stream_cannot_print_doubles:
  "canInput SIZE (fs_copy s) MAX_DOUBLE_LENGTH \<Longrightarrow> fs_double SIZE (fs_copy s) e v = None"
  by (simp add: fs_double_def fs_real_def fs_dtoa_def fs_copy_def fs_assign_def)

end
