(* ===== verification/IdFactory.thy ===== *)
theory IdFactory
  imports Prelude "HOL-Library.Multiset"
begin

section \<open>Order identifiers of the CME channel\<close>

text \<open>
  \<open>channel_or_cme/id_factory\<close>: an identifier is the text of a 64-bit counter in base 36,
  written from the end of a 21-byte buffer with a pointer to its first character. A factory
  keeps a queue of identifiers made ahead by a thread of its own; \<open>get\<close> takes from the queue
  or, when it finds the queue empty, makes one itself. The counter and the queue have a lock
  each, so that a number drawn and an identifier queued are separate steps of the thread: the
  step relation below interleaves them with the callers of \<open>get\<close>.
\<close>

subsection \<open>Identifiers\<close>

definition ALPHABET :: string where
  "ALPHABET = ''0123456789ABCDEFGHIJKLMNOPQRSTUVWXYZ''"

record Id =
  id_buffer :: string
  id_ptrToData :: nat

definition id_clear :: Id where
  "id_clear = \<lparr>id_buffer = (replicate 21 CHR 0x00)[19 := CHR ''0''], id_ptrToData = 19\<rparr>"

text \<open>Assignment copies the bytes and places the pointer at the same distance from the end.\<close>

definition id_assign :: "Id \<Rightarrow> Id" where
  "id_assign rhs = \<lparr>id_buffer = id_buffer rhs, id_ptrToData = 21 - (21 - id_ptrToData rhs)\<rparr>"

definition id_c_str :: "Id \<Rightarrow> string" where
  "id_c_str x = takeWhile (\<lambda>c. c \<noteq> CHR 0x00) (drop (id_ptrToData x) (id_buffer x))"

definition max_index :: nat where
  "max_index = 19"

fun generate_loop :: "nat \<Rightarrow> nat \<Rightarrow> string \<Rightarrow> string \<times> nat" where
  "generate_loop i index buf =
     (if i \<noteq> 0 \<and> index < max_index
      then generate_loop (i div 36) (index + 1) (buf[max_index - index := ALPHABET ! (i mod 36)])
      else (buf, index))"

declare generate_loop.simps [simp del]

definition generate :: "u64 \<Rightarrow> Id" where
  "generate lastId =
     (case generate_loop (unat lastId) 0 (id_buffer id_clear) of
        (buf, index) \<Rightarrow> \<lparr>id_buffer = buf, id_ptrToData = max_index - index + 1\<rparr>)"

subsection \<open>The factory\<close>

text \<open>
  \<open>idf_drawn\<close> is the number the thread has drawn and not yet queued, \<open>idf_waiting\<close> the number
  of callers of \<open>get\<close> that found the queue empty and have not drawn their number yet,
  \<open>idf_given\<close> the identifiers handed out so far.
\<close>

record id_factory =
  idf_done :: bool
  idf_size :: nat
  idf_lastId :: u64
  idf_queue :: "Id list"
  idf_running :: bool
  idf_drawn :: "u64 option"
  idf_waiting :: nat
  idf_given :: "Id list"

definition idf_new :: id_factory where
  "idf_new = \<lparr>idf_done = False, idf_size = 0, idf_lastId = 0, idf_queue = [], idf_running = False,
     idf_drawn = None, idf_waiting = 0, idf_given = []\<rparr>"

definition idf_next :: "id_factory \<Rightarrow> id_factory \<times> u64" where
  "idf_next f = (let value = idf_lastId f + 1 in (f\<lparr>idf_lastId := value\<rparr>, value))"

fun idf_prefill :: "nat \<Rightarrow> id_factory \<Rightarrow> id_factory" where
  "idf_prefill 0 f = f"
| "idf_prefill (Suc k) f =
     (case idf_next f of (f', v) \<Rightarrow> idf_prefill k (f'\<lparr>idf_queue := idf_queue f' @ [generate v]\<rparr>))"

definition MAX_VALUE :: u64 where
  "MAX_VALUE = - 1"

definition idf_start :: "u64 \<Rightarrow> u64 \<Rightarrow> nat \<Rightarrow> id_factory \<Rightarrow> id_factory" where
  "idf_start usecsFromMidnight lastId n f =
     (let f = f\<lparr>idf_lastId := if lastId = MAX_VALUE then usecsFromMidnight else lastId\<rparr>;
          f = idf_prefill (n - length (idf_queue f)) f
      in f\<lparr>idf_size := n, idf_running := True\<rparr>)"

definition idf_stop :: "id_factory \<Rightarrow> id_factory" where
  "idf_stop f = f\<lparr>idf_size := 0, idf_done := True, idf_running := False, idf_drawn := None, idf_queue := []\<rparr>"

text \<open>The thread: draw a number while there is room, queue its identifier, leave when told to.\<close>

definition can_draw :: "id_factory \<Rightarrow> bool" where
  "can_draw f \<longleftrightarrow> idf_running f \<and> \<not> idf_done f \<and> idf_drawn f = None \<and> length (idf_queue f) < idf_size f"

definition thread_draw :: "id_factory \<Rightarrow> id_factory" where
  "thread_draw f = (case idf_next f of (f', v) \<Rightarrow> f'\<lparr>idf_drawn := Some v\<rparr>)"

definition thread_push :: "u64 \<Rightarrow> id_factory \<Rightarrow> id_factory" where
  "thread_push v f = f\<lparr>idf_queue := idf_queue f @ [generate v], idf_drawn := None\<rparr>"

text \<open>\<open>get\<close>: the identifier at the head of the queue, or a number of its own.\<close>

definition get_pop :: "id_factory \<Rightarrow> id_factory" where
  "get_pop f = (case idf_queue f of
      [] \<Rightarrow> f\<lparr>idf_waiting := idf_waiting f + 1\<rparr>
    | x # q \<Rightarrow> f\<lparr>idf_queue := q, idf_given := idf_given f @ [id_assign x]\<rparr>)"

definition get_flood :: "id_factory \<Rightarrow> id_factory" where
  "get_flood f = (case idf_next f of
      (f', v) \<Rightarrow> f'\<lparr>idf_waiting := idf_waiting f - 1, idf_given := idf_given f @ [generate v]\<rparr>)"

inductive id_step :: "id_factory \<Rightarrow> id_factory \<Rightarrow> bool" where
  draw: "can_draw f \<Longrightarrow> id_step f (thread_draw f)"
| push: "idf_drawn f = Some v \<Longrightarrow> id_step f (thread_push v f)"
| pop: "id_step f (get_pop f)"
| flood: "0 < idf_waiting f \<Longrightarrow> id_step f (get_flood f)"
| stopped: "idf_drawn f = None \<Longrightarrow> id_step f (idf_stop f)"

section \<open>The text of an identifier\<close>

definition base36 :: "char \<Rightarrow> nat" where
  "base36 c = (let n = of_char c in if n < 65 then n - 48 else n - 55)"

definition read36 :: "string \<Rightarrow> nat" where
  "read36 s = foldl (\<lambda>a c. 36 * a + base36 c) 0 s"


lemma ALPHABET_ok: "map base36 ALPHABET = [0..<36]" "list_all (\<lambda>c. c \<noteq> CHR 0x00) ALPHABET"
  by code_simp+

lemma length_ALPHABET: "length ALPHABET = 36"
  by (simp add: ALPHABET_def)

lemma base36_ALPHABET: "k < 36 \<Longrightarrow> base36 (ALPHABET ! k) = k"
  using nth_map [of k ALPHABET base36] by (simp add: ALPHABET_ok length_ALPHABET)

lemma ALPHABET_not_zero: "k < 36 \<Longrightarrow> ALPHABET ! k \<noteq> CHR 0x00"
  using ALPHABET_ok(2) by (simp add: list_all_length length_ALPHABET)

fun digits36 :: "nat \<Rightarrow> string" where
  "digits36 i = (if i = 0 then [] else ALPHABET ! (i mod 36) # digits36 (i div 36))"

declare digits36.simps [simp del]

lemma length_digits36: "i < 36 ^ k \<Longrightarrow> length (digits36 i) \<le> k"
proof (induction k arbitrary: i)
  case (Suc k)
  then have "i div 36 < 36 ^ k" by (simp add: less_mult_imp_div_less mult.commute)
  with Suc.IH show ?case by (subst digits36.simps) simp
qed (simp add: digits36.simps)

lemma read36_digits36: "read36 (rev (digits36 i)) = i"
proof (induction i rule: digits36.induct)
  case (1 i)
  then show ?case by (subst digits36.simps) (auto simp: read36_def base36_ALPHABET)
qed

lemma digits36_not_zero: "c \<in> set (digits36 i) \<Longrightarrow> c \<noteq> CHR 0x00"
proof (induction i rule: digits36.induct)
  case (1 i)
  have "ALPHABET ! (i mod 36) \<noteq> CHR 0x00" by (rule ALPHABET_not_zero) simp
  moreover have "i \<noteq> 0 \<and> (c = ALPHABET ! (i mod 36) \<or> c \<in> set (digits36 (i div 36)))"
    using 1(2) by (subst (asm) digits36.simps) (simp split: if_splits)
  ultimately show ?case using 1(1) by metis
qed

lemma generate_loop_digits:
  "length buf = 21 \<Longrightarrow> index + length (digits36 i) \<le> max_index \<Longrightarrow>
   generate_loop i index buf =
     (take (20 - index - length (digits36 i)) buf @ rev (digits36 i) @ drop (20 - index) buf,
      index + length (digits36 i))"
proof (induction i index buf rule: generate_loop.induct)
  case (1 i index buf)
  show ?case
  proof (cases "i = 0")
    case True
    then show ?thesis by (simp add: generate_loop.simps digits36.simps)
  next
    case False
    let ?c = "ALPHABET ! (i mod 36)" and ?n = "length (digits36 (i div 36))"
    have d: "digits36 i = ?c # digits36 (i div 36)" using False by (subst digits36.simps) simp
    have idx: "index + 1 + ?n \<le> 19" using 1(3) d by (simp add: max_index_def)
    have go: "i \<noteq> 0 \<and> index < max_index" using False idx by (simp add: max_index_def)
    have "generate_loop i index buf = generate_loop (i div 36) (index + 1) (buf[19 - index := ?c])"
      using go by (subst generate_loop.simps) (simp add: max_index_def)
    also have "\<dots> = (take (20 - (index + 1) - ?n) (buf[19 - index := ?c]) @ rev (digits36 (i div 36)) @
        drop (20 - (index + 1)) (buf[19 - index := ?c]), index + 1 + ?n)"
      using 1(1) go 1(2) idx by (simp add: max_index_def)
    also have "take (20 - (index + 1) - ?n) (buf[19 - index := ?c]) = take (20 - index - Suc ?n) buf"
      by (simp add: take_update_cancel)
    also have "drop (20 - (index + 1)) (buf[19 - index := ?c]) = ?c # drop (20 - index) buf"
    proof -
      have "Suc (19 - index) = 20 - index" using idx by simp
      then show ?thesis using 1(2) by (simp add: drop_update_swap Cons_nth_drop_Suc [symmetric] nth_list_update)
    qed
    finally show ?thesis using d by simp
  qed
qed

lemma id_text: "id_c_str (generate v) = rev (digits36 (unat v))"
proof -
  have "unat v < 36 ^ 13" using unsigned_less [of v, where ?'a = nat] by simp
  then have l: "length (digits36 (unat v)) \<le> 13" by (rule length_digits36)
  let ?d = "digits36 (unat v)"
  have "id_c_str (generate v) = takeWhile (\<lambda>c. c \<noteq> CHR 0x00) (rev ?d @ [CHR 0x00])"
    using l by (simp add: generate_def generate_loop_digits max_index_def id_c_str_def id_clear_def)
  also have "\<dots> = rev ?d" using digits36_not_zero by (subst takeWhile_append2) auto
  finally show ?thesis .
qed

lemma id_reads_back: "read36 (id_c_str (generate v)) = unat v"
  by (simp add: id_text read36_digits36)

lemma id_text_inj: "id_c_str (generate v) = id_c_str (generate w) \<Longrightarrow> v = w"
  by (metis id_reads_back word_unat_eq_iff)

lemma id_assign_same: "id_ptrToData x \<le> 21 \<Longrightarrow> id_assign x = x"
  by (simp add: id_assign_def)


section \<open>No identifier is given twice\<close>

text \<open>
  A run counts the numbers drawn. What the factory has given, queued or is about to queue comes
  from different numbers of the run, as long as the counter has not gone round.
\<close>

inductive id_run :: "id_factory \<Rightarrow> nat \<Rightarrow> id_factory \<Rightarrow> bool" for f0 where
  id_run_refl: "id_run f0 0 f0"
| id_run_step: "id_run f0 k f \<Longrightarrow> id_step f f' \<Longrightarrow>
    id_run f0 (k + (if idf_lastId f' = idf_lastId f then 0 else 1)) f'"

definition idf_held :: "id_factory \<Rightarrow> Id list" where
  "idf_held f = idf_given f @ idf_queue f @ (case idf_drawn f of None \<Rightarrow> [] | Some v \<Rightarrow> [generate v])"

definition ids_ok :: "u64 \<Rightarrow> nat \<Rightarrow> u64 \<Rightarrow> Id list \<Rightarrow> bool" where
  "ids_ok b m l held \<longleftrightarrow> l = b + of_nat m \<and> distinct (map id_c_str held) \<and>
     set held \<subseteq> (\<lambda>k. generate (b + of_nat k)) ` {1..m}"

abbreviation idf_inv :: "u64 \<Rightarrow> nat \<Rightarrow> id_factory \<Rightarrow> bool" where
  "idf_inv b m f \<equiv> ids_ok b m (idf_lastId f) (idf_held f)"

lemma generate_ptr: "id_ptrToData (generate v) \<le> 20"
  by (simp add: generate_def max_index_def split: prod.splits)

lemma of_nat64_inj: "(of_nat j :: u64) = of_nat k \<Longrightarrow> j < 2 ^ 64 \<Longrightarrow> k < 2 ^ 64 \<Longrightarrow> j = k"
  by (simp add: word_of_nat_eq_iff take_bit_nat_eq_self)

lemma ids_ok_mset:
  assumes "ids_ok b m l held" and "mset held' \<subseteq># mset held"
  shows "ids_ok b m l held'"
proof -
  have "set held' \<subseteq> set held" using set_mset_mono [OF assms(2)] by simp
  moreover have "distinct (map id_c_str held')"
  proof -
    obtain ys where "mset held = mset (held' @ ys)"
      using assms(2) by (metis ex_mset mset_append mset_subset_eq_exists_conv)
    then have "mset (map id_c_str held) = mset (map id_c_str (held' @ ys))" by simp
    then have "distinct (map id_c_str (held' @ ys))"
      using assms(1) mset_eq_imp_distinct_iff unfolding ids_ok_def by blast
    then show ?thesis by simp
  qed
  ultimately show ?thesis using assms(1) unfolding ids_ok_def by blast
qed

lemma ids_ok_new:
  assumes "ids_ok b m l held" and "m + 1 < 2 ^ 64" and "mset held' = add_mset (generate (l + 1)) (mset held)"
  shows "ids_ok b (m + 1) (l + 1) held'"
proof -
  have l: "l + 1 = b + of_nat (m + 1)" using assms(1) by (simp add: ids_ok_def)
  have "id_c_str (generate (l + 1)) \<noteq> id_c_str x" if mem: "x \<in> set held" for x
  proof
    assume e: "id_c_str (generate (l + 1)) = id_c_str x"
    obtain k where k: "k \<in> {1..m}" "x = generate (b + of_nat k)"
      using assms(1) mem unfolding ids_ok_def by blast
    from e k(2) have "b + of_nat (m + 1) = b + of_nat k" unfolding l by (blast dest: id_text_inj)
    then have "(of_nat (m + 1) :: u64) = of_nat k" by (rule add_left_imp_eq)
    then have "m + 1 = k" by (rule of_nat64_inj) (use assms(2) k(1) in simp_all)
    with k(1) show False by simp
  qed
  then have "id_c_str (generate (l + 1)) \<notin> id_c_str ` set held" by blast
  moreover have "set held \<subseteq> (\<lambda>k. generate (b + of_nat k)) ` {1..m + 1}"
    using assms(1) by (rule_tac order_trans [OF _ image_mono]) (auto simp: ids_ok_def)
  moreover have "generate (l + 1) \<in> (\<lambda>k. generate (b + of_nat k)) ` {1..m + 1}"
    by (rule image_eqI [where x = "m + 1"]) (simp_all add: l)
  ultimately have "ids_ok b (m + 1) (l + 1) (generate (l + 1) # held)"
    using assms(1) l unfolding ids_ok_def by (simp only: list.map distinct.simps list.set insert_subset set_map simp_thms)
  then show ?thesis by (rule ids_ok_mset) (simp add: assms(3))
qed

lemma idf_inv_step:
  assumes inv: "idf_inv b m f" and "id_step f f'"
    and "m + (if idf_lastId f' = idf_lastId f then 0 else 1) < 2 ^ 64"
  shows "idf_inv b (m + (if idf_lastId f' = idf_lastId f then 0 else 1)) f'"
  using assms(2)
proof cases
  case draw
  have "idf_drawn f = None" using draw by (simp add: can_draw_def)
  then show ?thesis using ids_ok_new [OF inv, of "idf_held f'"] assms(3) draw
    by (simp add: idf_held_def thread_draw_def idf_next_def Let_def)
next
  case (push v)
  then show ?thesis using inv by (simp add: idf_held_def thread_push_def)
next
  case pop
  show ?thesis
  proof (cases "idf_queue f")
    case (Cons x q)
    then have "x \<in> set (idf_held f)" by (simp add: idf_held_def)
    then obtain v where "x = generate v" using inv unfolding ids_ok_def by blast
    then have "id_assign x = x" using generate_ptr [of v] by (simp add: id_assign_same)
    with Cons show ?thesis using inv pop by (simp add: idf_held_def get_pop_def)
  qed (use inv pop in \<open>simp add: idf_held_def get_pop_def\<close>)
next
  case flood
  then show ?thesis using ids_ok_new [OF inv, of "idf_held f'"] assms(3)
    by (simp add: idf_held_def get_flood_def idf_next_def Let_def)
next
  case stopped
  then show ?thesis using ids_ok_mset [OF inv, of "idf_held f'"] by (simp add: idf_held_def idf_stop_def)
qed

lemma idf_inv_prefill:
  "idf_inv b m f \<Longrightarrow> idf_drawn f = None \<Longrightarrow> m + k < 2 ^ 64 \<Longrightarrow> idf_inv b (m + k) (idf_prefill k f)"
proof (induction k arbitrary: f m)
  case (Suc k)
  let ?f = "f\<lparr>idf_lastId := idf_lastId f + 1, idf_queue := idf_queue f @ [generate (idf_lastId f + 1)]\<rparr>"
  have "idf_inv b (m + 1) ?f"
    using ids_ok_new [OF Suc.prems(1), of "idf_held ?f"] Suc.prems(2,3) by (simp add: idf_held_def)
  from Suc.IH [OF this] Suc.prems show ?case by (simp add: idf_next_def Let_def)
qed simp

lemma idf_inv_start:
  assumes "n < 2 ^ 64"
  shows "idf_inv (if l = MAX_VALUE then u else l) n (idf_start u l n idf_new)"
proof -
  let ?b = "if l = MAX_VALUE then u else l"
  have "idf_inv ?b 0 (idf_new\<lparr>idf_lastId := ?b\<rparr>)" by (simp add: ids_ok_def idf_held_def idf_new_def)
  from idf_inv_prefill [OF this, of n] assms show ?thesis
    by (simp add: idf_start_def idf_new_def idf_held_def Let_def)
qed

lemma idf_inv_run:
  assumes "id_run f0 k f" and "idf_inv b m f0" and "m + k < 2 ^ 64"
  shows "idf_inv b (m + k) f"
  using assms(1,3)
proof induction
  case (id_run_step k f f')
  let ?d = "if idf_lastId f' = idf_lastId f then 0 else 1 :: nat"
  have lt: "m + k + ?d < 2 ^ 64" using id_run_step.prems by (simp add: add.assoc)
  then have "m + k < 2 ^ 64" by simp
  then have "idf_inv b (m + k) f" by (rule id_run_step.IH)
  from idf_inv_step [OF this id_run_step.hyps(2) lt] show ?case by (simp only: add.assoc)
qed (use assms(2) in simp)

text \<open>
  C17: however the thread that makes identifiers ahead, callers of \<open>get\<close> and a stop interleave,
  no identifier handed out since a start is the same as another, and none is longer than 13
  characters, as long as fewer than 2 to the 64 were made.
\<close>

lemma ids_never_repeat:
  assumes "id_run (idf_start u l n idf_new) k f" and "n + k < 2 ^ 64"
  shows "distinct (map id_c_str (idf_given f)) \<and> (\<forall>x \<in> set (idf_given f). length (id_c_str x) \<le> 13)"
proof -
  have "idf_inv (if l = MAX_VALUE then u else l) (n + k) f"
    using idf_inv_run [OF assms(1) idf_inv_start assms(2)] assms(2) by simp
  then have inv: "idf_inv (if l = MAX_VALUE then u else l) (n + k) f" .
  have "length (id_c_str (generate v)) \<le> 13" for v
    using length_digits36 [of "unat v" 13] unsigned_less [of v, where ?'a = nat] by (simp add: id_text)
  then have "length (id_c_str x) \<le> 13" if "x \<in> set (idf_given f)" for x
    using inv that unfolding ids_ok_def idf_held_def by auto
  then show ?thesis using inv by (simp add: ids_ok_def idf_held_def)
qed

text \<open>Two callers meet an empty queue and the thread has drawn a number of its own: all three get different ones.\<close>

definition wit_pops :: id_factory where
  "wit_pops = get_pop (get_pop (get_pop (get_pop (idf_start 0 3 2 idf_new))))"

definition wit_ids :: id_factory where
  "wit_ids = get_flood (get_flood (thread_push 6 (thread_draw wit_pops)))"

lemma id_run_same: "id_run f0 k f \<Longrightarrow> id_step f f' \<Longrightarrow> idf_lastId f' = idf_lastId f \<Longrightarrow> id_run f0 k f'"
  using id_run_step [of f0 k f f'] by simp

lemma id_run_draw: "id_run f0 k f \<Longrightarrow> id_step f f' \<Longrightarrow> idf_lastId f' \<noteq> idf_lastId f \<Longrightarrow> id_run f0 (Suc k) f'"
  using id_run_step [of f0 k f f'] by simp

lemma get_pop_lastId [simp]: "idf_lastId (get_pop f) = idf_lastId f"
  by (simp add: get_pop_def split: list.splits)

lemmas id_ops = thread_draw_def thread_push_def get_flood_def idf_next_def

lemma wit_pops_state:
  "wit_pops = \<lparr>idf_done = False, idf_size = 2, idf_lastId = 5, idf_queue = [], idf_running = True, idf_drawn = None,
     idf_waiting = 2, idf_given = [generate 4, generate 5]\<rparr>"
proof -
  have "id_assign (generate v) = generate v" for v using generate_ptr [of v] by (simp add: id_assign_same)
  moreover have "idf_prefill 2 f = idf_prefill (Suc (Suc 0)) f" for f by (simp only: numeral_2_eq_2)
  ultimately show ?thesis
    by (simp add: wit_pops_def idf_start_def idf_new_def idf_next_def get_pop_def MAX_VALUE_def)
qed

lemma wit_draws:
  "can_draw wit_pops" "idf_lastId wit_pops = 5"
  "idf_lastId (thread_draw wit_pops) = 6" "idf_drawn (thread_draw wit_pops) = Some 6" "idf_waiting (thread_draw wit_pops) = 2"
  by (simp_all add: wit_pops_state can_draw_def thread_draw_def idf_next_def Let_def)

lemma thread_push_simps: "idf_lastId (thread_push v f) = idf_lastId f" "idf_waiting (thread_push v f) = idf_waiting f"
  by (simp_all add: thread_push_def)

lemma get_flood_simps: "idf_lastId (get_flood f) = idf_lastId f + 1" "idf_waiting (get_flood f) = idf_waiting f - 1"
  by (simp_all add: get_flood_def idf_next_def Let_def)

lemma id_run_pop: "id_run f0 k f \<Longrightarrow> id_run f0 k (get_pop f)"
  by (rule id_run_same [OF _ id_step.pop get_pop_lastId])

lemma wit_ids_run: "id_run (idf_start 0 3 2 idf_new) 3 wit_ids"
proof -
  let ?f0 = "idf_start 0 3 2 idf_new" and ?d = "thread_draw wit_pops"
  let ?p = "thread_push 6 ?d"
  have "id_run ?f0 0 wit_pops"
    unfolding wit_pops_def by (intro id_run_pop id_run_refl)
  then have "id_run ?f0 (Suc 0) ?d"
    by (rule id_run_draw [OF _ draw [OF wit_draws(1)]]) (simp add: wit_draws)
  then have "id_run ?f0 (Suc 0) ?p"
    by (rule id_run_same [OF _ push [OF wit_draws(4)] thread_push_simps(1)])
  then have "id_run ?f0 (Suc (Suc 0)) (get_flood ?p)"
    by (rule id_run_draw [OF _ flood]) (simp_all add: thread_push_simps get_flood_simps wit_draws)
  then have "id_run ?f0 (Suc (Suc (Suc 0))) (get_flood (get_flood ?p))"
    by (rule id_run_draw [OF _ flood]) (simp_all add: thread_push_simps get_flood_simps wit_draws)
  then show ?thesis by (simp only: numeral_3_eq_3 wit_ids_def)
qed

lemma ids_never_repeat_witness:
  "distinct (map id_c_str (idf_given wit_ids)) \<and> map (read36 \<circ> id_c_str) (idf_given wit_ids) = [4, 5, 7, 8]"
proof -
  have "idf_given wit_ids = [generate 4, generate 5, generate 7, generate 8]"
    by (simp add: wit_ids_def wit_pops_state id_ops Let_def)
  then show ?thesis using ids_never_repeat [OF wit_ids_run] by (simp add: id_reads_back)
qed

end
