(* ===== verification/CmeTranslator.thy ===== *)
theory CmeTranslator
  imports Translator
begin

section \<open>Translator of the CME channel: orders into FIX messages and back\<close>

text \<open>
  \<open>channel_or_cme/translator.h\<close> and \<open>translator.cpp\<close>. The messages are those of a
  FIX engine that is not part of the repository: its operations are the record \<open>fix_api\<close>, an
  argument of every definition, and what the translator relies on is \<open>fix_laws\<close>: a field
  that is set is read back and leaves the others alone, a removed field is gone, a new message
  has nothing but its type, and the constants of FIX 4.2 have their documented texts. Tags are a
  datatype: different names are different numbers. A field that is not there makes \<open>get\<close> throw,
  \<open>None\<close>; the settings are those of the session the translator was initialised with.
\<close>

subsection \<open>The FIX engine as the translator sees it\<close>

datatype fix_tag =
  HandlInst | CustomerOrFirm | Account | SecurityType | RawData | RawDataLength | EncryptMethod | ResetSeqNumFlag
| PossDupFlag | MsgType | OrdType | Price | Side | TimeInForce | MinQty | OrderQty | Symbol | SecurityDesc
| TransactTime | ClOrdID | OrderID | OrigClOrdID | Text | BusinessRejectReason | ExecTransType | OrdStatus
| ExecType | OrdRejReason | CxlRejResponseTo | CxlRejReason | LastShares | LastPx | ExecID | ExecRefID
| SendingTime | RefSeqNum | NextExpectedMsgSeqNum
| ManualOrderIndicator | AggressorIndicator | ApplicationSystemName | TradingSystemVersion
| ApplicationSystemVendor | CtiCode | CorrelationClOrdID | OFMOverride

text \<open>The numbers of the fields that the exchange adds to the standard.\<close>

fun custom_tag :: "fix_tag \<Rightarrow> nat option" where
  "custom_tag ManualOrderIndicator = Some 1028"
| "custom_tag AggressorIndicator = Some 1057"
| "custom_tag ApplicationSystemName = Some 1603"
| "custom_tag TradingSystemVersion = Some 1604"
| "custom_tag ApplicationSystemVendor = Some 1605"
| "custom_tag CtiCode = Some 9702"
| "custom_tag CorrelationClOrdID = Some 9717"
| "custom_tag OFMOverride = Some 9768"
| "custom_tag _ = None"

definition SessionReject :: int where "SessionReject = 100001"
definition BusinessReject :: int where "BusinessReject = 100002"

datatype fix_value =
  MsgType_Logon | MsgType_Order_Single | MsgType_Order_Cancel_Replace_Request | MsgType_Order_Cancel_Request
| MsgType_Execution_Report | MsgType_Order_Cancel_Reject | OrdType_Limit | Side_Buy | Side_Sell
| TIF_Immediate_or_Cancel | ExecTransType_New | OrdStatus_Rejected | ExecType_Rejected
| CxlRejResponseTo_Order_Cancel_Request | CxlRejResponseTo_Order_Cancel_Replace_Request

record ('m, 'd) fix_api =
  fx_new :: "fix_value \<Rightarrow> 'm"
  fx_set :: "'m \<Rightarrow> fix_tag \<Rightarrow> string \<Rightarrow> 'm"
  fx_setFlag :: "'m \<Rightarrow> fix_tag \<Rightarrow> bool \<Rightarrow> 'm"
  fx_remove :: "'m \<Rightarrow> fix_tag \<Rightarrow> 'm"
  fx_contain :: "'m \<Rightarrow> fix_tag \<Rightarrow> bool"
  fx_get :: "'m \<Rightarrow> fix_tag \<Rightarrow> string option"
  fx_getType :: "'m \<Rightarrow> string"
  fx_getSeqNum :: "'m \<Rightarrow> u32"
  fx_reset :: "'m \<Rightarrow> 'm"
  fx_val :: "fix_value \<Rightarrow> string"
  fx_int :: "int \<Rightarrow> string"
  fx_double :: "'d \<Rightarrow> int \<Rightarrow> string"
  fx_parse_int :: "string \<Rightarrow> int option"
  fx_parse_time :: "string \<Rightarrow> int option"
  fx_now :: string

fun fix42_text :: "fix_value \<Rightarrow> string" where
  "fix42_text MsgType_Logon = ''A''"
| "fix42_text MsgType_Order_Single = ''D''"
| "fix42_text MsgType_Order_Cancel_Replace_Request = ''G''"
| "fix42_text MsgType_Order_Cancel_Request = ''F''"
| "fix42_text MsgType_Execution_Report = ''8''"
| "fix42_text MsgType_Order_Cancel_Reject = ''9''"
| "fix42_text OrdType_Limit = ''2''"
| "fix42_text Side_Buy = ''1''"
| "fix42_text Side_Sell = ''2''"
| "fix42_text TIF_Immediate_or_Cancel = ''3''"
| "fix42_text ExecTransType_New = ''0''"
| "fix42_text OrdStatus_Rejected = ''8''"
| "fix42_text ExecType_Rejected = ''8''"
| "fix42_text CxlRejResponseTo_Order_Cancel_Request = ''1''"
| "fix42_text CxlRejResponseTo_Order_Cancel_Replace_Request = ''2''"

definition fix_laws :: "('m, 'd) fix_api \<Rightarrow> bool" where
  "fix_laws api \<longleftrightarrow>
     (\<forall>m t v t'. fx_get api (fx_set api m t v) t' = (if t' = t then Some v else fx_get api m t')) \<and>
     (\<forall>m t t'. t \<noteq> MsgType \<longrightarrow> fx_get api (fx_remove api m t) t' = (if t' = t then None else fx_get api m t')) \<and>
     (\<forall>m t b. fx_setFlag api m t b = fx_set api m t (if b then ''Y'' else ''N'')) \<and>
     (\<forall>m t. fx_contain api m t = (fx_get api m t \<noteq> None)) \<and>
     (\<forall>v t. fx_get api (fx_new api v) t = (if t = MsgType then Some (fx_val api v) else None)) \<and>
     (\<forall>m. fx_get api m MsgType = Some (fx_getType api m)) \<and>
     (\<forall>v. fx_val api v = fix42_text v)"

subsection \<open>State and set-up\<close>

record session_settings =
  ss_password :: string
  ss_senderCompId :: string
  ss_applicationSystemName :: string
  ss_applicationSystemVersion :: string
  ss_applicationSystemVendor :: string
  ss_account :: string
  ss_handlInst :: string
  ss_customerOrFirm :: string
  ss_ctiCode :: string
  ss_resetSeqNumFlag :: bool

record 'm cme_translator =
  ct_settings :: "session_settings option"
  ct_msgLogon :: 'm
  ct_msgNew :: 'm
  ct_msgMod :: 'm
  ct_msgCxl :: 'm

definition ct_new :: "('m, 'd) fix_api \<Rightarrow> 'm cme_translator" where
  "ct_new api = \<lparr>ct_settings = None, ct_msgLogon = fx_new api MsgType_Logon, ct_msgNew = fx_new api MsgType_Order_Single,
     ct_msgMod = fx_new api MsgType_Order_Cancel_Replace_Request, ct_msgCxl = fx_new api MsgType_Order_Cancel_Request\<rparr>"

definition ct_clear :: "('m, 'd) fix_api \<Rightarrow> 'm cme_translator \<Rightarrow> 'm cme_translator" where
  "ct_clear api t = t\<lparr>ct_settings := None, ct_msgNew := fx_reset api (ct_msgNew t),
     ct_msgMod := fx_reset api (ct_msgMod t), ct_msgCxl := fx_reset api (ct_msgCxl t)\<rparr>"

definition first_char :: "string \<Rightarrow> char" where
  "first_char s = (case s of [] \<Rightarrow> CHR 0x00 | c # _ \<Rightarrow> c)"

text \<open>The cases of the switch fall through: a modify takes the fields of a new order, both those of a cancel.\<close>

definition const_cxl :: "('m, 'd) fix_api \<Rightarrow> session_settings \<Rightarrow> 'm \<Rightarrow> 'm" where
  "const_cxl api s m = fx_set api (fx_set api m Account (ss_account s)) SecurityType ''FUT''"

definition const_new :: "('m, 'd) fix_api \<Rightarrow> session_settings \<Rightarrow> 'm \<Rightarrow> 'm" where
  "const_new api s m = const_cxl api s
     (fx_set api (fx_set api (fx_set api m HandlInst (ss_handlInst s)) CustomerOrFirm (ss_customerOrFirm s)) CtiCode (ss_ctiCode s))"

definition const_mod :: "('m, 'd) fix_api \<Rightarrow> session_settings \<Rightarrow> 'm \<Rightarrow> 'm" where
  "const_mod api s m = const_new api s (fx_set api m OFMOverride ''Y'')"

definition const_logon :: "('m, 'd) fix_api \<Rightarrow> session_settings \<Rightarrow> 'm \<Rightarrow> 'm" where
  "const_logon api s m =
     (let m = fx_set api m RawData (ss_password s);
          m = fx_set api m RawDataLength (fx_int api (int (length (ss_password s))));
          m = fx_set api m EncryptMethod ''0''
      in fx_setFlag api m ResetSeqNumFlag (ss_resetSeqNumFlag s))"

definition setConstantFields :: "('m, 'd) fix_api \<Rightarrow> session_settings \<Rightarrow> 'm \<Rightarrow> 'm" where
  "setConstantFields api s m =
     (let c = first_char (fx_getType api m);
          m = (if c = CHR ''G'' then const_mod api s m else if c = CHR ''D'' then const_new api s m
               else if c = CHR ''F'' then const_cxl api s m else if c = CHR ''A'' then const_logon api s m else m);
          m = fx_set api m ApplicationSystemName (ss_applicationSystemName s);
          m = fx_set api m TradingSystemVersion (ss_applicationSystemVersion s)
      in fx_set api m ApplicationSystemVendor (ss_applicationSystemVendor s))"

definition ct_init :: "('m, 'd) fix_api \<Rightarrow> session_settings \<Rightarrow> 'm cme_translator \<Rightarrow> 'm cme_translator" where
  "ct_init api s t = t\<lparr>ct_settings := Some s,
     ct_msgLogon := setConstantFields api s (ct_msgLogon t), ct_msgNew := setConstantFields api s (ct_msgNew t),
     ct_msgMod := setConstantFields api s (ct_msgMod t), ct_msgCxl := setConstantFields api s (ct_msgCxl t)\<rparr>"

text \<open>Whether a message that the counterparty asks for again is sent: cancels only. An exception means no.\<close>

definition shouldSend :: "('m, 'd) fix_api \<Rightarrow> 'm \<Rightarrow> bool" where
  "shouldSend api m =
     (if \<not> fx_contain api m PossDupFlag then True
      else case fx_get api m PossDupFlag of
        None \<Rightarrow> False
      | Some f \<Rightarrow>
          if f \<noteq> ''Y'' then True
          else if fx_contain api m MsgType
          then (case fx_get api m MsgType of
                  None \<Rightarrow> False
                | Some ty \<Rightarrow> ty = fx_val api MsgType_Order_Cancel_Request)
          else True)"

subsection \<open>Orders into messages\<close>

datatype ct_result = CtOk | CtRej reject | CtCrash

definition ct_getRej :: "eRejectReason \<Rightarrow> reject" where
  "ct_getRej r = internal_rej kTranslator r"

definition ct_side :: "('m, 'd) fix_api \<Rightarrow> eOrderSide \<Rightarrow> string option" where
  "ct_side api s = (case s of kBuy \<Rightarrow> Some (fx_val api Side_Buy) | kSell \<Rightarrow> Some (fx_val api Side_Sell) | _ \<Rightarrow> None)"

definition ct_erase :: "('m, 'd) fix_api \<Rightarrow> 'm \<Rightarrow> fix_tag \<Rightarrow> 'm" where
  "ct_erase api m t = (if fx_contain api m t then fx_remove api m t else m)"

definition ct_timeInForce :: "('m, 'd) fix_api \<Rightarrow> eTimeInForce \<Rightarrow> 'm \<Rightarrow> 'm" where
  "ct_timeInForce api f m =
     (if f = kIOC then fx_set api (fx_set api m TimeInForce (fx_val api TIF_Immediate_or_Cancel)) MinQty (fx_int api 1)
      else ct_erase api (ct_erase api m TimeInForce) MinQty)"

definition ct_instrument :: "('m, 'd) fix_api \<Rightarrow> 'd instrument \<Rightarrow> bool \<Rightarrow> 'm \<Rightarrow> 'm" where
  "ct_instrument api i manual m =
     (let m = fx_set api m Symbol (ins_symbol i);
          m = fx_set api m SecurityDesc (ins_displayName i);
          m = fx_setFlag api m ManualOrderIndicator manual
      in fx_set api m TransactTime (fx_now api))"

definition ct_translateNew ::
    "('m, 'd) fix_api \<Rightarrow> session_settings option \<Rightarrow> string \<Rightarrow> 'm \<Rightarrow> ('d::floor_ceiling) order \<Rightarrow> 'm \<times> 'd order \<times> ct_result" where
  "ct_translateNew api settings newId m ord =
     (if ord_type ord \<noteq> kLimit then (m, ord, CtRej (ct_getRej kType))
      else
        let m = fx_set api m OrdType (fx_val api OrdType_Limit) in
        case ord_instrument ord of
          None \<Rightarrow> (m, ord, CtCrash)
        | Some i \<Rightarrow>
            let ord = ord\<lparr>ord_exPrice := tc_toExchangePrice (ins_tc i) (ord_price ord)\<rparr>;
                m = fx_set api m Price (fx_double api (ord_exPrice ord) (ins_precision i)) in
            case ct_side api (ord_side ord) of
              None \<Rightarrow> (m, ord, CtRej (ct_getRej kSide))
            | Some s \<Rightarrow>
                let m = fx_set api m Side s;
                    m = ct_timeInForce api (ord_timeInForce ord) m;
                    m = fx_set api m OrderQty (fx_int api (ord_qty ord));
                    m = ct_instrument api i (ord_manual ord) m;
                    ord = ord\<lparr>ord_corrClOrderId := newId, ord_clOrderId := newId, ord_origClOrderId := newId\<rparr>
                in case settings of
                     None \<Rightarrow> (m, ord, CtCrash)
                   | Some s \<Rightarrow>
                       let ord = ord\<lparr>ord_exSessionName := ss_senderCompId s\<rparr>
                       in (fx_set api m ClOrdID (ord_clOrderId ord), ord, CtOk))"

definition ct_translateMod ::
    "('m, 'd) fix_api \<Rightarrow> string \<Rightarrow> 'm \<Rightarrow> ('d::floor_ceiling) order \<Rightarrow> 'm \<times> 'd order \<times> ct_result" where
  "ct_translateMod api newId m ord =
     (if ord_type ord \<noteq> kLimit then (m, ord, CtRej (ct_getRej kType))
      else
        let m = fx_set api m OrdType (fx_val api OrdType_Limit) in
        case ord_instrument ord of
          None \<Rightarrow> (m, ord, CtCrash)
        | Some i \<Rightarrow>
            let ord = ord\<lparr>ord_exNewPrice := tc_toExchangePrice (ins_tc i) (ord_newPrice ord)\<rparr>;
                m = fx_set api m Price (fx_double api (ord_exNewPrice ord) (ins_precision i)) in
            case ct_side api (ord_side ord) of
              None \<Rightarrow> (m, ord, CtRej (ct_getRej kSide))
            | Some s \<Rightarrow>
                let m = fx_set api m Side s;
                    m = ct_timeInForce api (ord_timeInForce ord) m;
                    m = fx_set api m OrderQty (fx_int api (ord_qty ord));
                    m = ct_instrument api i (ord_manual ord) m;
                    ord = ord\<lparr>ord_clOrderId := newId\<rparr>;
                    m = fx_set api m ClOrdID (ord_clOrderId ord);
                    m = fx_set api m OrderID (ord_exOrderId ord)
                in (fx_set api m OrigClOrdID (ord_origClOrderId ord), ord, CtOk))"

definition ct_translateCxl ::
    "('m, 'd) fix_api \<Rightarrow> string \<Rightarrow> 'm \<Rightarrow> 'd order \<Rightarrow> 'm \<times> 'd order \<times> ct_result" where
  "ct_translateCxl api newId m ord =
     (case ct_side api (ord_side ord) of
        None \<Rightarrow> (m, ord, CtRej (ct_getRej kSide))
      | Some s \<Rightarrow>
          let m = fx_set api m Side s in
          case ord_instrument ord of
            None \<Rightarrow> (m, ord, CtCrash)
          | Some i \<Rightarrow>
              let m = ct_instrument api i (ord_manual ord) m;
                  ord = ord\<lparr>ord_clOrderId := newId\<rparr>;
                  m = fx_set api m ClOrdID (ord_clOrderId ord);
                  m = fx_set api m OrderID (ord_exOrderId ord);
                  m = fx_set api m OrigClOrdID (ord_origClOrderId ord)
              in (fx_set api m CorrelationClOrdID (ord_corrClOrderId ord), ord, CtOk))"


text \<open>The methods of the translator: each works on its own message, which the next call finds again.\<close>

datatype 'd ct_request = CallNew string "'d order" | CallMod string "'d order" | CallCxl string "'d order"

fun ct_call :: "('m, 'd) fix_api \<Rightarrow> ('d::floor_ceiling) ct_request \<Rightarrow> 'm cme_translator \<Rightarrow> 'm cme_translator \<times> 'm \<times> 'd order \<times> ct_result" where
  "ct_call api (CallNew i ord) tr = (case ct_translateNew api (ct_settings tr) i (ct_msgNew tr) ord of
     (m, ord', r) \<Rightarrow> (tr\<lparr>ct_msgNew := m\<rparr>, m, ord', r))"
| "ct_call api (CallMod i ord) tr = (case ct_translateMod api i (ct_msgMod tr) ord of
     (m, ord', r) \<Rightarrow> (tr\<lparr>ct_msgMod := m\<rparr>, m, ord', r))"
| "ct_call api (CallCxl i ord) tr = (case ct_translateCxl api i (ct_msgCxl tr) ord of
     (m, ord', r) \<Rightarrow> (tr\<lparr>ct_msgCxl := m\<rparr>, m, ord', r))"

definition ct_calls :: "('m, 'd) fix_api \<Rightarrow> ('d::floor_ceiling) ct_request list \<Rightarrow> 'm cme_translator \<Rightarrow> 'm cme_translator" where
  "ct_calls api cs tr = fold (\<lambda>c tr. fst (ct_call api c tr)) cs tr"

subsection \<open>Messages into responses\<close>

definition ct_copyField :: "('m, 'd) fix_api \<Rightarrow> 'm \<Rightarrow> 'm \<Rightarrow> fix_tag \<Rightarrow> 'm" where
  "ct_copyField api source dest t =
     (if fx_contain api source t then (case fx_get api source t of None \<Rightarrow> dest | Some v \<Rightarrow> fx_set api dest t v) else dest)"

definition ct_field :: "('m, 'd) fix_api \<Rightarrow> 'm \<Rightarrow> fix_tag \<Rightarrow> string \<Rightarrow> string" where
  "ct_field api source t old =
     (if fx_contain api source t then (case fx_get api source t of None \<Rightarrow> old | Some v \<Rightarrow> v) else old)"

text \<open>
  A reject of the session level refers to a message that was sent; it is turned into the reject of
  the application level that the exchange would have answered with. \<open>None\<close> is \<open>false\<close>.
\<close>

definition ct_rejReason :: "('m, 'd) fix_api \<Rightarrow> 'm \<Rightarrow> int \<times> string" where
  "ct_rejReason api rej =
     (let c = first_char (ct_field api rej MsgType []) in
      if c = CHR ''3'' then (SessionReject, ct_field api rej Text [])
      else if c = CHR ''j'' then
        (BusinessReject,
         (if fx_contain api rej BusinessRejectReason then ct_field api rej BusinessRejectReason [] @ '' :: '' else []) @
         (if fx_contain api rej Text then ct_field api rej Text [] else []))
      else (0, []))"

definition ct_translateMsgRej :: "('m, 'd) fix_api \<Rightarrow> 'm \<Rightarrow> 'm \<Rightarrow> 'm option" where
  "ct_translateMsgRej api rej rejMsg =
     (case ct_rejReason api rej of
        (rejReason, text) \<Rightarrow>
          let msgType = first_char (ct_field api rejMsg MsgType []);
              ack =
                (if msgType = CHR ''D'' then
                   (let m = fx_new api MsgType_Execution_Report;
                        m = fx_set api m ExecTransType (fx_val api ExecTransType_New);
                        m = fx_set api m OrdStatus (fx_val api OrdStatus_Rejected);
                        m = fx_set api m ExecType (fx_val api ExecType_Rejected)
                    in Some (fx_set api m OrdRejReason (fx_int api rejReason)))
                 else if msgType = CHR ''G'' \<or> msgType = CHR ''F'' then
                   (let m = fx_new api MsgType_Order_Cancel_Reject;
                        m = fx_set api m CxlRejResponseTo
                              (if msgType = CHR ''G'' then fx_val api CxlRejResponseTo_Order_Cancel_Replace_Request
                               else fx_val api CxlRejResponseTo_Order_Cancel_Request)
                    in Some (fx_set api m CxlRejReason (fx_int api rejReason)))
                 else None)
          in case ack of
               None \<Rightarrow> None
             | Some m \<Rightarrow>
                 let m = fx_set api m Text text;
                     m = ct_copyField api rejMsg m ClOrdID;
                     m = ct_copyField api rejMsg m OrderID;
                     m = ct_copyField api rejMsg m OrigClOrdID
                 in Some (ct_copyField api rejMsg m CorrelationClOrdID))"

definition getOrderRespTypeExecutionReport :: "('m, 'd) fix_api \<Rightarrow> 'm \<Rightarrow> eOrderRespType" where
  "getOrderRespTypeExecutionReport api m =
     (case fx_get api m ExecType of
        None \<Rightarrow> kUnknownOrderResp
      | Some v \<Rightarrow>
          let c = first_char v in
          if c = CHR ''0'' then kNewAck else if c = CHR ''1'' then kPartFill else if c = CHR ''2'' then kFill
          else if c = CHR ''4'' \<or> c = CHR ''C'' then kCxlAck else if c = CHR ''5'' then kModAck
          else if c = CHR ''8'' then kNewRej else if c = CHR ''H'' then kTradeBreak
          else if c = CHR ''I'' then kOrderStatus else kUnknownOrderResp)"

definition getOrderRespTypeCancelReject :: "('m, 'd) fix_api \<Rightarrow> 'm \<Rightarrow> eOrderRespType" where
  "getOrderRespTypeCancelReject api m =
     (case fx_get api m CxlRejResponseTo of
        None \<Rightarrow> kUnknownOrderResp
      | Some v \<Rightarrow>
          let c = first_char v in if c = CHR ''1'' then kCxlRej else if c = CHR ''2'' then kModRej else kUnknownOrderResp)"

definition ct_getOrderIds :: "('m, 'd) fix_api \<Rightarrow> 'm \<Rightarrow> order_resp \<Rightarrow> order_resp" where
  "ct_getOrderIds api m r =
     (let r = r\<lparr>or_clOrderId := ct_field api m ClOrdID (or_clOrderId r),
              or_origClOrderId := ct_field api m OrigClOrdID (or_origClOrderId r),
              or_corrClOrderId := ct_field api m CorrelationClOrdID (or_corrClOrderId r)\<rparr>
      in if or_type r \<in> {kNewAck, kNewRej, kModAck, kCxlAck, kOrderStatus}
         then r\<lparr>or_exOrderId := ct_field api m OrderID (or_exOrderId r)\<rparr> else r)"

definition getOrderRejReason :: "('m, 'd) fix_api \<Rightarrow> 'm \<Rightarrow> order_resp \<Rightarrow> order_resp" where
  "getOrderRejReason api m r = r\<lparr>or_exRejReason := ct_field api m OrdRejReason (or_exRejReason r),
     or_exRejText := ct_field api m Text (or_exRejText r)\<rparr>"

definition getCxlRejReason :: "('m, 'd) fix_api \<Rightarrow> 'm \<Rightarrow> order_resp \<Rightarrow> order_resp" where
  "getCxlRejReason api m r = r\<lparr>or_exRejReason := ct_field api m CxlRejReason (or_exRejReason r),
     or_exRejText := ct_field api m Text (or_exRejText r)\<rparr>"

definition ct_liqInd :: "('m, 'd) fix_api \<Rightarrow> 'm \<Rightarrow> eLiqInd" where
  "ct_liqInd api m =
     (if fx_contain api m AggressorIndicator
      then (let c = first_char (ct_field api m AggressorIndicator []) in
            if c = CHR ''Y'' \<or> c = CHR ''y'' then kRem else if c = CHR ''N'' \<or> c = CHR ''n'' then kAdd else kUnknownLiqInd)
      else kUnknownLiqInd)"

text \<open>A quantity that is no number makes the engine throw: \<open>None\<close>.\<close>

definition getFillFields :: "('m, 'd) fix_api \<Rightarrow> 'm \<Rightarrow> order_resp \<Rightarrow> order_resp option" where
  "getFillFields api m r =
     (case (if fx_contain api m LastShares
            then map_option word_of_int (fx_parse_int api (ct_field api m LastShares [])) else Some (or_lastShares r)) of
        None \<Rightarrow> None
      | Some q \<Rightarrow> Some (r\<lparr>or_lastShares := q, or_liqInd := ct_liqInd api m,
          or_lastPrice := ct_field api m LastPx (or_lastPrice r), or_exFillId := ct_field api m ExecID (or_exFillId r),
          or_exFillRefId := ct_field api m ExecRefID (or_exFillRefId r)\<rparr>))"

definition resp_fields :: "('m, 'd) fix_api \<Rightarrow> 'm \<Rightarrow> order_resp \<Rightarrow> order_resp option" where
  "resp_fields api m r =
     (case or_type r of
        kModAck \<Rightarrow> Some (r\<lparr>or_price := ct_field api m Price (or_price r)\<rparr>)
      | kNewAck \<Rightarrow> Some r
      | kCxlAck \<Rightarrow> Some r
      | kOrderStatus \<Rightarrow> Some r
      | kMsgRej \<Rightarrow> Some r
      | kNewRej \<Rightarrow> Some (getOrderRejReason api m r)
      | kModRej \<Rightarrow> Some (getCxlRejReason api m r)
      | kCxlRej \<Rightarrow> Some (getCxlRejReason api m r)
      | kPartFill \<Rightarrow> getFillFields api m r
      | kFill \<Rightarrow> getFillFields api m r
      | kTradeBreak \<Rightarrow> getFillFields api m r
      | kUnknownOrderResp \<Rightarrow> None)"

definition resp_time :: "('m, 'd) fix_api \<Rightarrow> 'm \<Rightarrow> order_resp \<Rightarrow> order_resp option" where
  "resp_time api m r =
     (if fx_contain api m TransactTime
      then map_option (\<lambda>x. r\<lparr>or_exTimestamp := x\<rparr>) (fx_parse_time api (ct_field api m TransactTime []))
      else if fx_contain api m SendingTime
      then map_option (\<lambda>x. r\<lparr>or_exTimestamp := x\<rparr>) (fx_parse_time api (ct_field api m SendingTime []))
      else Some r)"

definition ct_translateResp :: "('m, 'd) fix_api \<Rightarrow> 'm \<Rightarrow> order_resp \<Rightarrow> order_resp option" where
  "ct_translateResp api m r =
     (case resp_fields api m r of
        None \<Rightarrow> None
      | Some r \<Rightarrow> resp_time api m (ct_getOrderIds api m (r\<lparr>or_seqNum := fx_getSeqNum api m\<rparr>)))"

definition translateExecutionReport :: "('m, 'd) fix_api \<Rightarrow> 'm \<Rightarrow> order_resp \<Rightarrow> order_resp option" where
  "translateExecutionReport api m r =
     ct_translateResp api m (r\<lparr>or_type := getOrderRespTypeExecutionReport api m\<rparr>)"

definition translateOrderCancelReject :: "('m, 'd) fix_api \<Rightarrow> 'm \<Rightarrow> order_resp \<Rightarrow> order_resp option" where
  "translateOrderCancelReject api m r =
     ct_translateResp api m (r\<lparr>or_type := getOrderRespTypeCancelReject api m\<rparr>)"

section \<open>Reused messages carry nothing over\<close>

lemma fix_simps:
  assumes "fix_laws api"
  shows "fx_get api (fx_set api m t v) t' = (if t' = t then Some v else fx_get api m t')"
    "t \<noteq> MsgType \<Longrightarrow> fx_get api (fx_remove api m t) t' = (if t' = t then None else fx_get api m t')"
    "fx_setFlag api m t b = fx_set api m t (if b then ''Y'' else ''N'')"
    "fx_contain api m t = (fx_get api m t \<noteq> None)"
    "fx_get api (fx_new api w) t = (if t = MsgType then Some (fx_val api w) else None)"
    "fx_val api w = fix42_text w"
  using assms unfolding fix_laws_def by blast+

lemma get_erase: "fix_laws api \<Longrightarrow> t \<noteq> MsgType \<Longrightarrow> fx_get api (ct_erase api m t) t' = (if t' = t then None else fx_get api m t')"
  by (auto simp: ct_erase_def fix_simps)

text \<open>The fields a new order may write.\<close>

definition new_tags :: "fix_tag set" where
  "new_tags = {OrdType, Price, Side, TimeInForce, MinQty, OrderQty, Symbol, SecurityDesc, ManualOrderIndicator,
     TransactTime, ClOrdID}"

definition mod_tags :: "fix_tag set" where
  "mod_tags = new_tags \<union> {OrderID, OrigClOrdID}"

definition cxl_tags :: "fix_tag set" where
  "cxl_tags = {Side, Symbol, SecurityDesc, ManualOrderIndicator, TransactTime, ClOrdID, OrderID, OrigClOrdID,
     CorrelationClOrdID}"

lemmas ct_get_defs = ct_timeInForce_def ct_instrument_def

lemma new_other_tags:
  "fix_laws api \<Longrightarrow> t \<notin> new_tags \<Longrightarrow> fx_get api (fst (ct_translateNew api s i m ord)) t = fx_get api m t"
  by (auto simp: ct_translateNew_def new_tags_def Let_def fix_simps get_erase ct_get_defs split: option.splits)

lemma mod_other_tags:
  "fix_laws api \<Longrightarrow> t \<notin> mod_tags \<Longrightarrow> fx_get api (fst (ct_translateMod api i m ord)) t = fx_get api m t"
  by (auto simp: ct_translateMod_def mod_tags_def new_tags_def Let_def fix_simps get_erase ct_get_defs split: option.splits)

lemma cxl_other_tags:
  "fix_laws api \<Longrightarrow> t \<notin> cxl_tags \<Longrightarrow> fx_get api (fst (ct_translateCxl api i m ord)) t = fx_get api m t"
  by (auto simp: ct_translateCxl_def cxl_tags_def Let_def fix_simps ct_get_defs split: option.splits)

text \<open>The order and the outcome do not depend on the message; the fields of an accepted one neither.\<close>

lemma new_any_message:
  "snd (ct_translateNew api s i m ord) = snd (ct_translateNew api s i m0 ord)"
  "snd (ct_translateMod api i m ord) = snd (ct_translateMod api i m0 ord)"
  "snd (ct_translateCxl api i m ord) = snd (ct_translateCxl api i m0 ord)"
  by (auto simp: ct_translateNew_def ct_translateMod_def ct_translateCxl_def Let_def split: option.splits)

lemma new_fields:
  assumes "fix_laws api" and "snd (snd (ct_translateNew api s i m ord)) = CtOk" and "t \<in> new_tags"
  shows "fx_get api (fst (ct_translateNew api s i m ord)) t = fx_get api (fst (ct_translateNew api s i m0 ord)) t"
  using assms(2,3)
  by (auto simp: ct_translateNew_def new_tags_def Let_def fix_simps [OF assms(1)] get_erase [OF assms(1)] ct_get_defs
      split: option.splits if_splits)

lemma mod_fields:
  assumes "fix_laws api" and "snd (snd (ct_translateMod api i m ord)) = CtOk" and "t \<in> mod_tags"
  shows "fx_get api (fst (ct_translateMod api i m ord)) t = fx_get api (fst (ct_translateMod api i m0 ord)) t"
  using assms(2,3)
  by (auto simp: ct_translateMod_def mod_tags_def new_tags_def Let_def fix_simps [OF assms(1)] get_erase [OF assms(1)] ct_get_defs
      split: option.splits if_splits)

lemma cxl_fields:
  assumes "fix_laws api" and "snd (snd (ct_translateCxl api i m ord)) = CtOk" and "t \<in> cxl_tags"
  shows "fx_get api (fst (ct_translateCxl api i m ord)) t = fx_get api (fst (ct_translateCxl api i m0 ord)) t"
  using assms(2,3)
  by (auto simp: ct_translateCxl_def cxl_tags_def Let_def fix_simps [OF assms(1)] ct_get_defs split: option.splits)

text \<open>Fields outside the tags of its requests never change in a message.\<close>

definition same_constants :: "('m, 'd) fix_api \<Rightarrow> 'm cme_translator \<Rightarrow> 'm cme_translator \<Rightarrow> bool" where
  "same_constants api a b \<longleftrightarrow> ct_settings a = ct_settings b \<and>
     (\<forall>t. t \<notin> new_tags \<longrightarrow> fx_get api (ct_msgNew a) t = fx_get api (ct_msgNew b) t) \<and>
     (\<forall>t. t \<notin> mod_tags \<longrightarrow> fx_get api (ct_msgMod a) t = fx_get api (ct_msgMod b) t) \<and>
     (\<forall>t. t \<notin> cxl_tags \<longrightarrow> fx_get api (ct_msgCxl a) t = fx_get api (ct_msgCxl b) t)"

lemma call_constants:
  assumes "fix_laws api" and "same_constants api a b"
  shows "same_constants api (fst (ct_call api c a)) b"
  using assms(2) new_other_tags [OF assms(1)] mod_other_tags [OF assms(1)] cxl_other_tags [OF assms(1)]
  by (cases c) (auto simp: same_constants_def case_prod_beta)

lemma calls_constants: "fix_laws api \<Longrightarrow> same_constants api a b \<Longrightarrow> same_constants api (ct_calls api cs a) b"
  unfolding ct_calls_def by (induction cs arbitrary: a) (simp_all add: call_constants)

text \<open>
  C15: the translator reuses one message per kind of request. Whatever was translated before,
  also requests that were refused half way, the next message has every field as it would have in a
  message that was never used.
\<close>

lemma reused_message_transparent:
  assumes "fix_laws api" and "ct_call api c (ct_calls api cs tr) = (tr', m, ord, CtOk)"
  shows "\<exists>tr0 m0. ct_call api c tr = (tr0, m0, ord, CtOk) \<and> (\<forall>t. fx_get api m t = fx_get api m0 t)"
proof -
  let ?a = "ct_calls api cs tr"
  have s: "same_constants api ?a tr"
    by (rule calls_constants [OF assms(1)]) (simp add: same_constants_def)
  show ?thesis
  proof (cases c)
    case (CallNew i o0)
    let ?r = "ct_translateNew api (ct_settings tr) i (ct_msgNew ?a) o0" and ?old = "ct_translateNew api (ct_settings tr) i (ct_msgNew tr) o0"
    have "ct_settings ?a = ct_settings tr" using s by (simp add: same_constants_def)
    then have r: "m = fst ?r" "snd ?r = (ord, CtOk)"
      using assms(2) CallNew by (auto simp: case_prod_beta)
    have "fx_get api m t = fx_get api (fst ?old) t" for t
      using new_fields [OF assms(1), of "ct_settings tr" i "ct_msgNew ?a" o0 t] new_other_tags [OF assms(1), of t] s r
      by (cases "t \<in> new_tags") (auto simp: same_constants_def)
    then show ?thesis using CallNew r(2) new_any_message(1) [of api _ i "ct_msgNew ?a" o0 "ct_msgNew tr"]
      by (auto simp: case_prod_beta)
  next
    case (CallMod i o0)
    let ?r = "ct_translateMod api i (ct_msgMod ?a) o0" and ?old = "ct_translateMod api i (ct_msgMod tr) o0"
    have r: "m = fst ?r" "snd ?r = (ord, CtOk)"
      using assms(2) CallMod by (auto simp: case_prod_beta)
    have "fx_get api m t = fx_get api (fst ?old) t" for t
      using mod_fields [OF assms(1), of i "ct_msgMod ?a" o0 t] mod_other_tags [OF assms(1), of t] s r
      by (cases "t \<in> mod_tags") (auto simp: same_constants_def)
    then show ?thesis using CallMod r(2) new_any_message(2) [of api i "ct_msgMod ?a" o0 "ct_msgMod tr"]
      by (auto simp: case_prod_beta)
  next
    case (CallCxl i o0)
    let ?r = "ct_translateCxl api i (ct_msgCxl ?a) o0" and ?old = "ct_translateCxl api i (ct_msgCxl tr) o0"
    have r: "m = fst ?r" "snd ?r = (ord, CtOk)"
      using assms(2) CallCxl by (auto simp: case_prod_beta)
    have "fx_get api m t = fx_get api (fst ?old) t" for t
      using cxl_fields [OF assms(1), of i "ct_msgCxl ?a" o0 t] cxl_other_tags [OF assms(1), of t] s r
      by (cases "t \<in> cxl_tags") (auto simp: same_constants_def)
    then show ?thesis using CallCxl r(2) new_any_message(3) [of api i "ct_msgCxl ?a" o0 "ct_msgCxl tr"]
      by (auto simp: case_prod_beta)
  qed
qed

subsection \<open>A FIX engine with the documented behaviour\<close>

type_synonym plain_msg = "string \<times> (fix_tag \<Rightarrow> string option)"

definition plain_fix :: "(plain_msg, 'd) fix_api" where
  "plain_fix = \<lparr>
     fx_new = (\<lambda>v. (fix42_text v, \<lambda>_. None)),
     fx_set = (\<lambda>m t v. if t = MsgType then (v, snd m) else (fst m, (snd m)(t \<mapsto> v))),
     fx_setFlag = (\<lambda>m t b. if t = MsgType then (if b then ''Y'' else ''N'', snd m) else (fst m, (snd m)(t \<mapsto> if b then ''Y'' else ''N''))),
     fx_remove = (\<lambda>m t. (fst m, (snd m)(t := None))),
     fx_contain = (\<lambda>m t. t = MsgType \<or> snd m t \<noteq> None),
     fx_get = (\<lambda>m t. if t = MsgType then Some (fst m) else snd m t),
     fx_getType = fst, fx_getSeqNum = (\<lambda>_. 1), fx_reset = (\<lambda>m. (fst m, \<lambda>_. None)),
     fx_val = fix42_text, fx_int = (\<lambda>_. ''1''), fx_double = (\<lambda>_ _. ''1''),
     fx_parse_int = (\<lambda>s. if s = ''1'' then Some 1 else None), fx_parse_time = (\<lambda>_. Some 0), fx_now = ''now''\<rparr>"

lemma plain_fix_laws: "fix_laws (plain_fix :: (plain_msg, 'd) fix_api)"
  unfolding fix_laws_def plain_fix_def by auto


definition wit_cme_settings :: session_settings where
  "wit_cme_settings = \<lparr>ss_password = ''pw'', ss_senderCompId = ''S1'', ss_applicationSystemName = ''TW'',
     ss_applicationSystemVersion = ''1'', ss_applicationSystemVendor = ''TW'', ss_account = ''ACC'', ss_handlInst = ''1'',
     ss_customerOrFirm = ''1'', ss_ctiCode = ''4'', ss_resetSeqNumFlag = False\<rparr>"

abbreviation rat_fix :: "(plain_msg, rat) fix_api" where
  "rat_fix \<equiv> plain_fix"

definition wit_cme_order :: "eTimeInForce \<Rightarrow> rat order" where
  "wit_cme_order f = order_default\<lparr>ord_type := kLimit, ord_side := kBuy, ord_timeInForce := f, ord_qty := 5,
     ord_price := 100, ord_newPrice := 101, ord_instrument := Some instrument_clear\<rparr>"

text \<open>A day order after an immediate-or-cancel order: the message has no time in force.\<close>

lemma reused_message_transparent_witness:
  "\<exists>tr m ord. ct_call rat_fix (CallNew ''B'' (wit_cme_order kDay))
      (ct_calls rat_fix [CallNew ''A'' (wit_cme_order kIOC)] (ct_init rat_fix wit_cme_settings (ct_new rat_fix))) = (tr, m, ord, CtOk) \<and>
    fx_get rat_fix m TimeInForce = None \<and> fx_get rat_fix m ClOrdID = Some ''B''"
proof -
  let ?tr = "ct_init rat_fix wit_cme_settings (ct_new rat_fix)"
  let ?c = "CallNew ''B'' (wit_cme_order kDay)" and ?cs = "[CallNew ''A'' (wit_cme_order kIOC)]"
  have "ct_settings (ct_calls rat_fix ?cs ?tr) \<noteq> None"
    using calls_constants [OF plain_fix_laws, of ?tr ?tr ?cs] by (auto simp: same_constants_def ct_init_def)
  then have "snd (snd (snd (ct_call rat_fix ?c (ct_calls rat_fix ?cs ?tr)))) = CtOk"
    by (auto simp: ct_translateNew_def wit_cme_order_def ct_side_def Let_def case_prod_beta)
  then obtain tr m ord where c: "ct_call rat_fix ?c (ct_calls rat_fix ?cs ?tr) = (tr, m, ord, CtOk)"
    by (metis prod.collapse)
  obtain tr0 m0 where "ct_call rat_fix ?c ?tr = (tr0, m0, ord, CtOk)" and same: "\<And>t. fx_get rat_fix m t = fx_get rat_fix m0 t"
    using reused_message_transparent [OF plain_fix_laws c] by blast
  then have "fx_get rat_fix m0 TimeInForce = None" "fx_get rat_fix m0 ClOrdID = Some ''B''"
    by (auto simp: ct_translateNew_def wit_cme_order_def ct_side_def Let_def case_prod_beta fix_simps [OF plain_fix_laws]
        get_erase [OF plain_fix_laws] ct_get_defs ct_init_def setConstantFields_def ct_new_def)
  then show ?thesis using c same by auto
qed

end
