(* ===== verification/ChannelOnix.thy ===== *)
theory ChannelOnix
  imports CmeTranslator OrdersTable
begin

section \<open>The CME order channel\<close>

text \<open>
  \<open>channel_or_cme/channel_or_onix\<close>: the channel sends the translated messages over a FIX
  session and finds the order a response belongs to in a table from client order ids to orders.
  The session is the engine's: whether it exists and is active, whether a send throws and which
  message was sent under a number are arguments. What leaves the channel is a list of events:
  messages sent, responses and alerts for the consumer, the sequence number of a logout. Orders
  live in the heap of the order table; timers of orders and log lines are left out.
\<close>

datatype 'm co_event = EvSend 'm | EvOrderResp order_resp | EvAlert eAlertType string | EvOutSeqNum int

datatype co_result = CoTrue | CoFalse "reject option" | CoCrash

type_synonym cl_table = "string \<Rightarrow> optr option"

record 'm channel_onix =
  co_valid :: bool
  co_active :: bool
  co_receivedLogout :: bool
  co_state :: string
  co_settings :: "session_settings option"
  co_translator :: "'m cme_translator"
  co_orders :: cl_table

definition co_clear :: "string \<Rightarrow> 'm channel_onix \<Rightarrow> 'm channel_onix" where
  "co_clear disconnected c = c\<lparr>co_receivedLogout := False, co_valid := False, co_active := False,
     co_orders := (\<lambda>_. None), co_settings := None, co_state := disconnected\<rparr>"

text \<open>\<open>storage\<close>: whether the custom storage of the session could be read, when one is configured.\<close>

definition co_init :: "('m, 'd) fix_api \<Rightarrow> session_settings \<Rightarrow> bool \<Rightarrow> 'm channel_onix \<Rightarrow> 'm channel_onix \<times> bool" where
  "co_init api s storage c =
     (let c = c\<lparr>co_translator := ct_init api s (co_translator c)\<rparr>
      in if \<not> storage then (c, False) else (c\<lparr>co_valid := True, co_settings := Some s\<rparr>, True))"

definition isLoggedOn :: "'m channel_onix \<Rightarrow> bool" where
  "isLoggedOn c \<longleftrightarrow> co_valid c \<and> co_active c"

definition co_getRej :: "eRejectReason \<Rightarrow> reject" where
  "co_getRej r = internal_rej kConnection r"

subsection \<open>The table\<close>

definition cl_add :: "cl_table \<Rightarrow> string \<Rightarrow> optr \<Rightarrow> cl_table" where
  "cl_add t k p = (if t k \<noteq> None then t else t(k \<mapsto> p))"

definition cl_rem :: "cl_table \<Rightarrow> string \<Rightarrow> cl_table" where
  "cl_rem t k = t(k := None)"

definition addOrder :: "'d order_heap \<Rightarrow> optr \<Rightarrow> 'm channel_onix \<Rightarrow> 'm channel_onix" where
  "addOrder h p c = c\<lparr>co_orders := cl_add (co_orders c) (ord_clOrderId (h p)) p\<rparr>"

definition addOrderForRebuild :: "'d order_heap \<Rightarrow> optr \<Rightarrow> 'm channel_onix \<Rightarrow> 'm channel_onix" where
  "addOrderForRebuild h p c = c\<lparr>co_orders :=
     cl_add (cl_add (co_orders c) (ord_clOrderId (h p)) p) (ord_origClOrderId (h p)) p\<rparr>"

definition remOrder :: "string \<Rightarrow> 'm channel_onix \<Rightarrow> 'm channel_onix" where
  "remOrder k c = c\<lparr>co_orders := cl_rem (co_orders c) k\<rparr>"

definition remOrder_resp :: "order_resp \<Rightarrow> 'm channel_onix \<Rightarrow> 'm channel_onix" where
  "remOrder_resp r c = remOrder (or_origClOrderId r) (remOrder (or_clOrderId r) c)"

definition getOrder :: "'m channel_onix \<Rightarrow> order_resp \<Rightarrow> order_resp" where
  "getOrder c r =
     (let r = r\<lparr>or_order := co_orders c (or_clOrderId r)\<rparr>
      in if or_order r = None then r\<lparr>or_order := co_orders c (or_origClOrderId r)\<rparr> else r)"

subsection \<open>Requests\<close>

type_synonym ('m, 'd) co_sent = "'d order_heap \<times> 'm channel_onix \<times> 'm co_event list \<times> co_result"

text \<open>Behind a translated request: the order is entered under its current id, then the message is sent.\<close>

definition co_dispatch :: "bool \<Rightarrow> optr \<Rightarrow> 'd order_heap \<Rightarrow> 'm channel_onix \<Rightarrow> 'm \<Rightarrow> ('m, 'd) co_sent" where
  "co_dispatch sendThrows p h c m =
     (let c = addOrder h p c
      in if sendThrows then (h, c, [], CoFalse None) else (h, c, [EvSend m], CoTrue))"

definition co_sendNew ::
    "('m, 'd) fix_api \<Rightarrow> bool \<Rightarrow> string \<Rightarrow> optr \<Rightarrow> ('d::floor_ceiling) order_heap \<Rightarrow> 'm channel_onix \<Rightarrow> ('m, 'd) co_sent" where
  "co_sendNew api sendThrows newId p h c =
     (case ct_call api (CallNew newId (h p)) (co_translator c) of
        (tr, m, ord, res) \<Rightarrow>
          let h = h(p := ord); c = c\<lparr>co_translator := tr\<rparr> in
          case res of
            CtCrash \<Rightarrow> (h, c, [], CoCrash)
          | CtRej rej \<Rightarrow> (h, c, [], CoFalse (Some rej))
          | CtOk \<Rightarrow>
              if \<not> isLoggedOn c then (h, c, [], CoFalse (Some (co_getRej kConnectionDown)))
              else co_dispatch sendThrows p h c m)"

definition co_sendMod ::
    "('m, 'd) fix_api \<Rightarrow> bool \<Rightarrow> string \<Rightarrow> optr \<Rightarrow> ('d::floor_ceiling) order_heap \<Rightarrow> 'm channel_onix \<Rightarrow> ('m, 'd) co_sent" where
  "co_sendMod api sendThrows newId p h c =
     (if \<not> isLoggedOn c then (h, c, [], CoFalse (Some (co_getRej kConnectionDown)))
      else case ct_call api (CallMod newId (h p)) (co_translator c) of
        (tr, m, ord, res) \<Rightarrow>
          let h = h(p := ord); c = c\<lparr>co_translator := tr\<rparr> in
          case res of
            CtCrash \<Rightarrow> (h, c, [], CoCrash)
          | CtRej rej \<Rightarrow> (h, c, [], CoFalse (Some rej))
          | CtOk \<Rightarrow> co_dispatch sendThrows p h c m)"

definition co_sendCxl ::
    "('m, 'd) fix_api \<Rightarrow> bool \<Rightarrow> string \<Rightarrow> optr \<Rightarrow> ('d::floor_ceiling) order_heap \<Rightarrow> 'm channel_onix \<Rightarrow> ('m, 'd) co_sent" where
  "co_sendCxl api sendThrows newId p h c =
     (if \<not> isLoggedOn c then (h, c, [], CoFalse (Some (co_getRej kConnectionDown)))
      else if ord_cancelOnAck (h p) then (h, c, [], CoTrue)
      else case ct_call api (CallCxl newId (h p)) (co_translator c) of
        (tr, m, ord, res) \<Rightarrow>
          let h = h(p := ord); c = c\<lparr>co_translator := tr\<rparr> in
          case res of
            CtCrash \<Rightarrow> (h, c, [], CoCrash)
          | CtRej rej \<Rightarrow> (h, c, [], CoFalse (Some rej))
          | CtOk \<Rightarrow> co_dispatch sendThrows p h c m)"

definition co_rebuildOrder :: "optr \<Rightarrow> 'd order_heap \<Rightarrow> 'm channel_onix \<Rightarrow> 'm channel_onix \<times> co_result" where
  "co_rebuildOrder p h c =
     (case ord_state (h p) of
        kPending \<Rightarrow> (addOrder h p c, CoTrue)
      | kWorking \<Rightarrow> (addOrder h p c, CoTrue)
      | kModifying \<Rightarrow> (addOrderForRebuild h p c, CoTrue)
      | kCancelling \<Rightarrow> (addOrderForRebuild h p c, CoTrue)
      | _ \<Rightarrow> (c, CoFalse (Some (co_getRej kInvalidOrderState))))"

subsection \<open>Responses\<close>

definition processOrderResp :: "'d order_heap \<Rightarrow> order_resp \<Rightarrow> 'm channel_onix \<Rightarrow> order_resp \<times> 'm channel_onix" where
  "processOrderResp h r c =
     (let r = getOrder c r in
      (r, case or_type r of
            kNewRej \<Rightarrow> (if or_clOrderId r \<noteq> or_origClOrderId r then remOrder (or_clOrderId r) c else c)
          | kModRej \<Rightarrow> (if or_clOrderId r \<noteq> or_origClOrderId r then remOrder (or_clOrderId r) c else c)
          | kCxlRej \<Rightarrow> (if or_clOrderId r \<noteq> or_origClOrderId r then remOrder (or_clOrderId r) c else c)
          | kModAck \<Rightarrow>
              let c = (if or_clOrderId r \<noteq> or_origClOrderId r then remOrder (or_origClOrderId r) c else c) in
              (case or_order r of
                 None \<Rightarrow> c
               | Some p \<Rightarrow>
                   if ord_origClOrderId (h p) \<noteq> or_clOrderId r then remOrder (ord_origClOrderId (h p)) c else c)
          | kCxlAck \<Rightarrow> remOrder_resp r c
          | kFill \<Rightarrow> remOrder_resp r c
          | _ \<Rightarrow> c))"

definition order_resp_default :: order_resp where
  "order_resp_default = \<lparr>or_exTimestamp = 0, or_timestamp1 = 0, or_type = kUnknownOrderResp, or_seqNum = 0, or_lastShares = 0,
     or_lastPrice = [], or_price = [], or_origClOrderId = [], or_clOrderId = [], or_corrClOrderId = [],
     or_exOrderId = [], or_exFillId = [], or_exFillRefId = [], or_exRejReason = [], or_exRejText = [],
     or_liqInd = kUnknownLiqInd, or_order = None\<rparr>"

definition onInboundApplicationMsg ::
    "('m, 'd) fix_api \<Rightarrow> ('m \<Rightarrow> string) \<Rightarrow> int \<Rightarrow> 'm \<Rightarrow> 'd order_heap \<Rightarrow> 'm channel_onix \<Rightarrow> 'm channel_onix \<times> 'm co_event list" where
  "onInboundApplicationMsg api show_msg now m h c =
     (let r = order_resp_default\<lparr>or_timestamp1 := now\<rparr>;
          ty = first_char (fx_getType api m);
          deliver = (\<lambda>x. case x of
            None \<Rightarrow> (c, [EvAlert kErrorTranslatingOrderResp (show_msg m)])
          | Some r \<Rightarrow> (case processOrderResp h r c of (r, c) \<Rightarrow> (c, [EvOrderResp r])))
      in if ty = CHR ''8'' then deliver (translateExecutionReport api m r)
         else if ty = CHR ''9'' then deliver (translateOrderCancelReject api m r)
         else (c, []))"

definition processReject ::
    "('m, 'd) fix_api \<Rightarrow> ('m \<Rightarrow> string) \<Rightarrow> (int \<Rightarrow> 'm option) \<Rightarrow> int \<Rightarrow> 'm \<Rightarrow> 'd order_heap \<Rightarrow> 'm channel_onix \<Rightarrow>
     'm channel_onix \<times> 'm co_event list" where
  "processReject api show_msg findSentMessage now m h c =
     (if \<not> fx_contain api m RefSeqNum then (c, [])
      else case fx_parse_int api (ct_field api m RefSeqNum []) of
        None \<Rightarrow> (c, [])
      | Some n \<Rightarrow>
          (case findSentMessage n of
             None \<Rightarrow> (c, [])
           | Some rejMsg \<Rightarrow>
               (case ct_translateMsgRej api m rejMsg of
                  None \<Rightarrow> (c, [])
                | Some ack \<Rightarrow> onInboundApplicationMsg api show_msg now ack h c)))"

definition processLogout ::
    "('m, 'd) fix_api \<Rightarrow> ('m \<Rightarrow> string) \<Rightarrow> 'm \<Rightarrow> 'm channel_onix \<Rightarrow> 'm channel_onix \<times> 'm co_event list" where
  "processLogout api show_msg m c =
     (let alert = (c\<lparr>co_receivedLogout := True\<rparr>, [EvAlert kExchangeDown (show_msg m)]) in
      if fx_contain api m NextExpectedMsgSeqNum then
        (case fx_parse_int api (ct_field api m NextExpectedMsgSeqNum []) of
           None \<Rightarrow> (c, [])
         | Some n \<Rightarrow> (fst alert, EvOutSeqNum n # snd alert))
      else alert)"

definition onInboundSessionMsg ::
    "('m, 'd) fix_api \<Rightarrow> ('m \<Rightarrow> string) \<Rightarrow> (int \<Rightarrow> 'm option) \<Rightarrow> int \<Rightarrow> 'm \<Rightarrow> 'd order_heap \<Rightarrow> 'm channel_onix \<Rightarrow>
     'm channel_onix \<times> 'm co_event list" where
  "onInboundSessionMsg api show_msg findSentMessage now m h c =
     (let ty = first_char (fx_getType api m) in
      if ty = CHR ''3'' \<or> ty = CHR ''j'' then processReject api show_msg findSentMessage now m h c
      else if ty = CHR ''5'' then processLogout api show_msg m c
      else (c, []))"

text \<open>A change of the session's state, with the two states that mean up and down given as texts by the engine.\<close>

datatype session_state = ACTIVE | RECONNECTING | DISCONNECTED | OtherState

definition onStateChange ::
    "(session_state \<Rightarrow> string) \<Rightarrow> session_state \<Rightarrow> session_state \<Rightarrow> 'm channel_onix \<Rightarrow> ('m channel_onix \<times> 'm co_event list) option" where
  "onStateChange state2string newState prevState c =
     (case co_settings c of
        None \<Rightarrow> None
      | Some s \<Rightarrow> Some
          (c\<lparr>co_state := state2string newState\<rparr>,
           [EvAlert (case newState of ACTIVE \<Rightarrow> kExchangeUp | RECONNECTING \<Rightarrow> kExchangeDown | DISCONNECTED \<Rightarrow> kExchangeDown
                     | OtherState \<Rightarrow> kExchangeStatus)
              (ss_senderCompId s @ '' :: '' @ state2string prevState @ '' ==> '' @ state2string newState)]))"

definition onResendRequest :: "('m, 'd) fix_api \<Rightarrow> 'm \<Rightarrow> bool" where
  "onResendRequest api m = shouldSend api m"

end
