(* ===== verification/ChannelOnixFacts.thy ===== *)
theory ChannelOnixFacts
  imports ChannelOnix
begin

section \<open>The channel finds the order of every response\<close>

text \<open>
  The traffic of one session: requests that the channel sends with identifiers never used before,
  and responses of an exchange that answers each request at most once, under the identifiers the
  request carried. \<open>ck_ids\<close> remembers for which order an identifier was drawn,
  \<open>ck_out\<close> the requests without an answer, \<open>ck_live\<close> the orders working at the
  exchange. A modify that is acknowledged changes the identifiers of its order the way the
  strategy container then does (\<open>translateModAck\<close>).
\<close>

datatype req_kind = ReqNew | ReqMod | ReqCxl

record ('m, 'd) traffic =
  ck_h :: "'d order_heap"
  ck_c :: "'m channel_onix"
  ck_ids :: "string \<Rightarrow> optr option"
  ck_live :: "optr set"
  ck_out :: "(req_kind \<times> string \<times> string \<times> optr) set"

definition co_send ::
    "req_kind \<Rightarrow> ('m, 'd) fix_api \<Rightarrow> bool \<Rightarrow> string \<Rightarrow> optr \<Rightarrow> ('d::floor_ceiling) order_heap \<Rightarrow> 'm channel_onix \<Rightarrow> ('m, 'd) co_sent" where
  "co_send k = (case k of ReqNew \<Rightarrow> co_sendNew | ReqMod \<Rightarrow> co_sendMod | ReqCxl \<Rightarrow> co_sendCxl)"

definition acked :: "string \<Rightarrow> 'd order \<Rightarrow> 'd order" where
  "acked i ord = ord\<lparr>ord_clOrderId := i, ord_origClOrderId := i\<rparr>"

inductive traffic_step :: "('m, 'd::floor_ceiling) fix_api \<Rightarrow> ('m, 'd) traffic \<Rightarrow> ('m, 'd) traffic \<Rightarrow> bool" for api where
  sent: "\<lbrakk>ck_ids s i = None; i \<noteq> [];
     if k = ReqNew then p \<notin> ran (ck_ids s) else p \<in> ck_live s;
     co_send k api throws i p (ck_h s) (ck_c s) = (h, c, [EvSend m], CoTrue)\<rbrakk> \<Longrightarrow>
   traffic_step api s (s\<lparr>ck_h := h, ck_c := c, ck_ids := (ck_ids s)(i \<mapsto> p),
     ck_live := insert p (ck_live s), ck_out := insert (k, i, ord_origClOrderId (h p), p) (ck_out s)\<rparr>)"
| not_sent: "\<lbrakk>ck_ids s i = None; i \<noteq> [];
     if k = ReqNew then p \<notin> ran (ck_ids s) else p \<in> ck_live s;
     co_send k api throws i p (ck_h s) (ck_c s) = (h, c, [], res)\<rbrakk> \<Longrightarrow>
   traffic_step api s (s\<lparr>ck_h := h, ck_c := c, ck_ids := (ck_ids s)(i \<mapsto> p)\<rparr>)"
| newAck: "\<lbrakk>(ReqNew, i, j, p) \<in> ck_out s; or_type r = kNewAck; or_clOrderId r = i\<rbrakk> \<Longrightarrow>
   traffic_step api s (s\<lparr>ck_c := snd (processOrderResp (ck_h s) r (ck_c s)), ck_out := ck_out s - {(ReqNew, i, j, p)}\<rparr>)"
| newRej: "\<lbrakk>(ReqNew, i, j, p) \<in> ck_out s; or_type r = kNewRej; or_clOrderId r = i\<rbrakk> \<Longrightarrow>
   traffic_step api s (s\<lparr>ck_c := snd (processOrderResp (ck_h s) r (ck_c s)), ck_live := ck_live s - {p},
     ck_out := ck_out s - {(ReqNew, i, j, p)}\<rparr>)"
| modAck: "\<lbrakk>(ReqMod, i, j, p) \<in> ck_out s; p \<in> ck_live s; or_type r = kModAck; or_clOrderId r = i; or_origClOrderId r = j\<rbrakk> \<Longrightarrow>
   traffic_step api s (s\<lparr>ck_c := snd (processOrderResp (ck_h s) r (ck_c s)),
     ck_h := (ck_h s)(p := acked i (ck_h s p)), ck_out := ck_out s - {(ReqMod, i, j, p)}\<rparr>)"
| refused: "\<lbrakk>(k, i, j, p) \<in> ck_out s; (k, or_type r) \<in> {(ReqMod, kModRej), (ReqCxl, kCxlRej)};
     or_clOrderId r = i; or_origClOrderId r = j\<rbrakk> \<Longrightarrow>
   traffic_step api s (s\<lparr>ck_c := snd (processOrderResp (ck_h s) r (ck_c s)), ck_out := ck_out s - {(k, i, j, p)}\<rparr>)"
| cxlAck: "\<lbrakk>(ReqCxl, i, j, p) \<in> ck_out s; or_type r = kCxlAck; or_clOrderId r = i; or_origClOrderId r = j\<rbrakk> \<Longrightarrow>
   traffic_step api s (s\<lparr>ck_c := snd (processOrderResp (ck_h s) r (ck_c s)), ck_live := ck_live s - {p},
     ck_out := ck_out s - {(ReqCxl, i, j, p)}\<rparr>)"
| filled: "\<lbrakk>p \<in> ck_live s; or_type r \<in> {kPartFill, kFill}; or_clOrderId r = ord_origClOrderId (ck_h s p);
     or_origClOrderId r = [] \<or> ck_ids s (or_origClOrderId r) = Some p\<rbrakk> \<Longrightarrow>
   traffic_step api s (s\<lparr>ck_c := snd (processOrderResp (ck_h s) r (ck_c s)),
     ck_live := (if or_type r = kFill then ck_live s - {p} else ck_live s)\<rparr>)"

text \<open>
  The invariant: the table knows an identifier only for the order it was drawn for, it knows the
  acknowledged identifier of every working order and the identifier of every open request.
\<close>

definition out_ok :: "('m, 'd) traffic \<Rightarrow> req_kind \<times> string \<times> string \<times> optr \<Rightarrow> bool" where
  "out_ok s q = (case q of (k, i, j, p) \<Rightarrow>
     ck_ids s i = Some p \<and> ck_ids s j = Some p \<and>
     (if k = ReqNew then i = j else i \<noteq> j \<and> i \<noteq> ord_origClOrderId (ck_h s p) \<and> (p \<in> ck_live s \<longrightarrow> co_orders (ck_c s) i = Some p)))"

definition traffic_ok :: "('m, 'd) traffic \<Rightarrow> bool" where
  "traffic_ok s \<longleftrightarrow> ck_ids s [] = None \<and>
     (\<forall>k p. co_orders (ck_c s) k = Some p \<longrightarrow> ck_ids s k = Some p) \<and>
     (\<forall>p \<in> ck_live s. co_orders (ck_c s) (ord_origClOrderId (ck_h s p)) = Some p) \<and>
     (\<forall>q \<in> ck_out s. out_ok s q) \<and>
     (\<forall>k i j p k' j' p'. (k, i, j, p) \<in> ck_out s \<and> (k', i, j', p') \<in> ck_out s \<longrightarrow> k = k' \<and> j = j' \<and> p = p') \<and>
     (\<forall>k i j p k' i' p'. (k, i, j, p) \<in> ck_out s \<and> (k', i', i, p') \<in> ck_out s \<longrightarrow> k = ReqNew)"


lemma cl_simps:
  "cl_rem t k j = (if j = k then None else t j)"
  "t i = None \<Longrightarrow> cl_add t i p = t(i \<mapsto> p)"
  by (simp_all add: cl_rem_def cl_add_def)

lemma new_ids:
  "snd (snd (ct_translateNew api s i m ord)) = CtOk \<Longrightarrow>
   ord_clOrderId (fst (snd (ct_translateNew api s i m ord))) = i \<and>
   ord_origClOrderId (fst (snd (ct_translateNew api s i m ord))) = i"
  by (auto simp: ct_translateNew_def Let_def split: option.splits if_splits)

lemma mod_ids:
  "ord_origClOrderId (fst (snd (ct_translateMod api i m ord))) = ord_origClOrderId ord"
  "snd (snd (ct_translateMod api i m ord)) = CtOk \<Longrightarrow> ord_clOrderId (fst (snd (ct_translateMod api i m ord))) = i"
  by (auto simp: ct_translateMod_def Let_def split: option.splits if_splits)

lemma cxl_ids:
  "ord_origClOrderId (fst (snd (ct_translateCxl api i m ord))) = ord_origClOrderId ord"
  "snd (snd (ct_translateCxl api i m ord)) = CtOk \<Longrightarrow> ord_clOrderId (fst (snd (ct_translateCxl api i m ord))) = i"
  by (auto simp: ct_translateCxl_def Let_def split: option.splits if_splits)

text \<open>What a request does to heap and table.\<close>

lemma answer_effect:
  assumes "(case res of CtCrash \<Rightarrow> (h(p := ord), c, [], CoCrash) | CtRej rej \<Rightarrow> (h(p := ord), c, [], CoFalse (Some rej))
     | CtOk \<Rightarrow> if up then co_dispatch th p (h(p := ord)) c m else (h(p := ord), c, [], CoFalse (Some rej0))) = (h', c', ev, r)"
    and "res = CtOk \<Longrightarrow> ord_clOrderId ord = i"
  shows "h' = h(p := ord) \<and> (co_orders c' = co_orders c \<or> co_orders c' = cl_add (co_orders c) i p) \<and>
     (ev \<noteq> [] \<longrightarrow> res = CtOk \<and> co_orders c' = cl_add (co_orders c) i p)"
  using assms by (cases res) (auto simp: co_dispatch_def addOrder_def Let_def split: if_splits)

definition send_ok :: "req_kind \<Rightarrow> string \<Rightarrow> optr \<Rightarrow> 'd order_heap \<Rightarrow> 'm channel_onix \<Rightarrow> ('m, 'd) co_sent \<Rightarrow> bool" where
  "send_ok k i p h c x = (case x of (h', c', ev, r) \<Rightarrow>
     (\<forall>q. q \<noteq> p \<longrightarrow> h' q = h q) \<and> (co_orders c' = co_orders c \<or> co_orders c' = cl_add (co_orders c) i p) \<and>
     (k \<noteq> ReqNew \<longrightarrow> ord_origClOrderId (h' p) = ord_origClOrderId (h p)) \<and>
     (ev \<noteq> [] \<longrightarrow> co_orders c' = cl_add (co_orders c) i p \<and>
        ord_origClOrderId (h' p) = (if k = ReqNew then i else ord_origClOrderId (h p))))"

lemma sendNew_ok: "send_ok ReqNew i p h c (co_sendNew api th i p h c)"
proof -
  obtain m ord res where t: "ct_translateNew api (ct_settings (co_translator c)) i (ct_msgNew (co_translator c)) (h p) = (m, ord, res)"
    by (metis prod_cases3)
  have ids: "res = CtOk \<Longrightarrow> ord_clOrderId ord = i \<and> ord_origClOrderId ord = i"
    using new_ids [of api "ct_settings (co_translator c)" i "ct_msgNew (co_translator c)" "h p"] t by simp
  obtain h' c' ev r where x: "co_sendNew api th i p h c = (h', c', ev, r)" by (metis prod_cases4)
  let ?c = "c\<lparr>co_translator := co_translator c\<lparr>ct_msgNew := m\<rparr>\<rparr>"
  have "(case res of CtCrash \<Rightarrow> (h(p := ord), ?c, [], CoCrash) | CtRej rej \<Rightarrow> (h(p := ord), ?c, [], CoFalse (Some rej))
     | CtOk \<Rightarrow> if isLoggedOn ?c then co_dispatch th p (h(p := ord)) ?c m
        else (h(p := ord), ?c, [], CoFalse (Some (co_getRej kConnectionDown)))) = (h', c', ev, r)"
    using x by (simp add: co_sendNew_def t Let_def if_not_P cong: ct_result.case_cong split: if_splits)
  from answer_effect [OF this] ids x show ?thesis by (auto simp: send_ok_def)
qed

lemma sendMod_ok: "send_ok ReqMod i p h c (co_sendMod api th i p h c)"
proof (cases "isLoggedOn c")
  case True
  obtain m ord res where t: "ct_translateMod api i (ct_msgMod (co_translator c)) (h p) = (m, ord, res)"
    by (metis prod_cases3)
  have ids: "res = CtOk \<Longrightarrow> ord_clOrderId ord = i" "ord_origClOrderId ord = ord_origClOrderId (h p)"
    using mod_ids [of api i "ct_msgMod (co_translator c)" "h p"] t by simp_all
  obtain h' c' ev r where x: "co_sendMod api th i p h c = (h', c', ev, r)" by (metis prod_cases4)
  let ?c = "c\<lparr>co_translator := co_translator c\<lparr>ct_msgMod := m\<rparr>\<rparr>"
  have "(case res of CtCrash \<Rightarrow> (h(p := ord), ?c, [], CoCrash) | CtRej rej \<Rightarrow> (h(p := ord), ?c, [], CoFalse (Some rej))
     | CtOk \<Rightarrow> if True then co_dispatch th p (h(p := ord)) ?c m
        else (h(p := ord), ?c, [], CoFalse (Some (co_getRej kConnectionDown)))) = (h', c', ev, r)"
    using x True by (simp add: co_sendMod_def t Let_def)
  from answer_effect [OF this] ids x show ?thesis by (auto simp: send_ok_def)
qed (simp add: co_sendMod_def send_ok_def)

lemma sendCxl_ok: "send_ok ReqCxl i p h c (co_sendCxl api th i p h c)"
proof (cases "isLoggedOn c \<and> \<not> ord_cancelOnAck (h p)")
  case True
  obtain m ord res where t: "ct_translateCxl api i (ct_msgCxl (co_translator c)) (h p) = (m, ord, res)"
    by (metis prod_cases3)
  have ids: "res = CtOk \<Longrightarrow> ord_clOrderId ord = i" "ord_origClOrderId ord = ord_origClOrderId (h p)"
    using cxl_ids [of api i "ct_msgCxl (co_translator c)" "h p"] t by simp_all
  obtain h' c' ev r where x: "co_sendCxl api th i p h c = (h', c', ev, r)" by (metis prod_cases4)
  let ?c = "c\<lparr>co_translator := co_translator c\<lparr>ct_msgCxl := m\<rparr>\<rparr>"
  have "(case res of CtCrash \<Rightarrow> (h(p := ord), ?c, [], CoCrash) | CtRej rej \<Rightarrow> (h(p := ord), ?c, [], CoFalse (Some rej))
     | CtOk \<Rightarrow> if True then co_dispatch th p (h(p := ord)) ?c m
        else (h(p := ord), ?c, [], CoFalse (Some (co_getRej kConnectionDown)))) = (h', c', ev, r)"
    using x True by (simp add: co_sendCxl_def t Let_def)
  from answer_effect [OF this] ids x show ?thesis by (auto simp: send_ok_def)
qed (auto simp: co_sendCxl_def send_ok_def)

lemma send_effect:
  assumes "co_send k api th i p h c = (h', c', ev, r)"
  shows "q \<noteq> p \<Longrightarrow> h' q = h q"
    and "co_orders c' = co_orders c \<or> co_orders c' = cl_add (co_orders c) i p"
    and "k \<noteq> ReqNew \<Longrightarrow> ord_origClOrderId (h' p) = ord_origClOrderId (h p)"
    and "ev = [EvSend m] \<Longrightarrow> co_orders c' = cl_add (co_orders c) i p \<and>
      ord_origClOrderId (h' p) = (if k = ReqNew then i else ord_origClOrderId (h p))"
proof -
  have "send_ok k i p h c (h', c', ev, r)"
    using assms sendNew_ok [of i p h c api th] sendMod_ok [of i p h c api th] sendCxl_ok [of i p h c api th]
    by (cases k) (simp_all add: co_send_def)
  then show "q \<noteq> p \<Longrightarrow> h' q = h q" "co_orders c' = co_orders c \<or> co_orders c' = cl_add (co_orders c) i p"
    "k \<noteq> ReqNew \<Longrightarrow> ord_origClOrderId (h' p) = ord_origClOrderId (h p)"
    "ev = [EvSend m] \<Longrightarrow> co_orders c' = cl_add (co_orders c) i p \<and>
      ord_origClOrderId (h' p) = (if k = ReqNew then i else ord_origClOrderId (h p))"
    by (auto simp: send_ok_def)
qed


text \<open>What a response does to the table.\<close>

lemma resp_table:
  "or_type r \<in> {kNewAck, kPartFill} \<Longrightarrow> snd (processOrderResp h r c) = c"
  "or_type r \<in> {kNewRej, kModRej, kCxlRej} \<Longrightarrow> co_orders (snd (processOrderResp h r c)) =
     (if or_clOrderId r \<noteq> or_origClOrderId r then cl_rem (co_orders c) (or_clOrderId r) else co_orders c)"
  "or_type r \<in> {kCxlAck, kFill} \<Longrightarrow> co_orders (snd (processOrderResp h r c)) =
     cl_rem (cl_rem (co_orders c) (or_clOrderId r)) (or_origClOrderId r)"
  by (auto simp: processOrderResp_def getOrder_def remOrder_def remOrder_resp_def Let_def)

lemma modAck_table:
  assumes "or_type r = kModAck" and "co_orders c (or_clOrderId r) = Some p"
    and "or_clOrderId r \<noteq> or_origClOrderId r" and "ord_origClOrderId (h p) \<noteq> or_clOrderId r"
  shows "co_orders (snd (processOrderResp h r c)) =
    cl_rem (cl_rem (co_orders c) (or_origClOrderId r)) (ord_origClOrderId (h p))"
  using assms by (simp add: processOrderResp_def getOrder_def remOrder_def Let_def)

lemma resp_order:
  "or_order (fst (processOrderResp h r c)) =
     (case co_orders c (or_clOrderId r) of Some p \<Rightarrow> Some p | None \<Rightarrow> co_orders c (or_origClOrderId r))"
  by (simp add: processOrderResp_def getOrder_def Let_def split: option.splits)

lemma traffic_okD:
  assumes "traffic_ok s"
  shows "ck_ids s [] = None" and "co_orders (ck_c s) k = Some p \<Longrightarrow> ck_ids s k = Some p"
    and "p \<in> ck_live s \<Longrightarrow> co_orders (ck_c s) (ord_origClOrderId (ck_h s p)) = Some p"
    and "q \<in> ck_out s \<Longrightarrow> out_ok s q"
    and "(k1, i, j1, p1) \<in> ck_out s \<Longrightarrow> (k2, i, j2, p2) \<in> ck_out s \<Longrightarrow> k1 = k2 \<and> j1 = j2 \<and> p1 = p2"
    and "(k1, i, j1, p1) \<in> ck_out s \<Longrightarrow> (k2, i2, i, p2) \<in> ck_out s \<Longrightarrow> k1 = ReqNew"
  using assms unfolding traffic_ok_def by blast+

lemma traffic_okI:
  assumes "ck_ids s [] = None" and "\<And>k p. co_orders (ck_c s) k = Some p \<Longrightarrow> ck_ids s k = Some p"
    and "\<And>p. p \<in> ck_live s \<Longrightarrow> co_orders (ck_c s) (ord_origClOrderId (ck_h s p)) = Some p"
    and "\<And>q. q \<in> ck_out s \<Longrightarrow> out_ok s q"
    and "\<And>k1 i j1 p1 k2 j2 p2. (k1, i, j1, p1) \<in> ck_out s \<Longrightarrow> (k2, i, j2, p2) \<in> ck_out s \<Longrightarrow>
      k1 = k2 \<and> j1 = j2 \<and> p1 = p2"
    and "\<And>k1 i j1 p1 k2 i2 p2. (k1, i, j1, p1) \<in> ck_out s \<Longrightarrow> (k2, i2, i, p2) \<in> ck_out s \<Longrightarrow> k1 = ReqNew"
  shows "traffic_ok s"
  unfolding traffic_ok_def using assms by (intro conjI) blast+

lemma live_ids: "traffic_ok s \<Longrightarrow> p \<in> ck_live s \<Longrightarrow> ck_ids s (ord_origClOrderId (ck_h s p)) = Some p"
  by (blast dest: traffic_okD(3) traffic_okD(2))

text \<open>Removing identifiers of one order leaves the others alone.\<close>

lemma traffic_ok_shrink:
  assumes ok: "traffic_ok s"
    and tab: "\<And>k. co_orders c' k = co_orders (ck_c s) k \<or> co_orders c' k = None \<and> ck_ids s k \<in> {None, Some p}"
    and sub: "live' \<subseteq> ck_live s" "out' \<subseteq> ck_out s"
    and live: "p \<in> live' \<Longrightarrow> co_orders c' (ord_origClOrderId (ck_h s p)) = Some p"
    and out: "\<And>k i j. (k, i, j, p) \<in> out' \<Longrightarrow> k \<noteq> ReqNew \<Longrightarrow> p \<in> live' \<Longrightarrow> co_orders c' i = Some p"
  shows "traffic_ok (s\<lparr>ck_c := c', ck_live := live', ck_out := out'\<rparr>)"
proof -
  have keep: "co_orders c' k = Some q" if "co_orders (ck_c s) k = Some q" "q \<noteq> p" for k q
    using tab [of k] that traffic_okD(2) [OF ok that(1)] by auto
  have "co_orders c' (ord_origClOrderId (ck_h s q)) = Some q" if "q \<in> live'" for q
    using that live keep sub(1) traffic_okD(3) [OF ok, of q] by (cases "q = p") auto
  moreover have "out_ok (s\<lparr>ck_c := c', ck_live := live', ck_out := out'\<rparr>) x" if x: "x \<in> out'" for x
  proof -
    obtain k i j q where xq: "x = (k, i, j, q)" by (cases x) auto
    have o: "out_ok s x" using x sub(2) traffic_okD(4) [OF ok] by blast
    have "co_orders c' i = Some q" if "k \<noteq> ReqNew" "q \<in> live'"
      using o that sub(1) out keep x unfolding xq out_ok_def by (cases "q = p") auto
    with o show ?thesis unfolding xq out_ok_def by auto
  qed
  moreover have "ck_ids s k = Some q" if "co_orders c' k = Some q" for k q
    using tab [of k] that traffic_okD(2) [OF ok, of k q] by auto
  ultimately show ?thesis
    using traffic_okD(1) [OF ok] traffic_okD(5,6) [OF ok] sub(2)
    by (intro traffic_okI) (simp_all, blast+)
qed

lemma out_live:
  assumes "traffic_ok s" "(k, i, j, p) \<in> ck_out s" "k \<noteq> ReqNew" "p \<in> ck_live s"
  shows "co_orders (ck_c s) i = Some p" "i \<noteq> j" "i \<noteq> ord_origClOrderId (ck_h s p)"
  using traffic_okD(4) [OF assms(1,2)] assms(3,4) by (simp_all add: out_ok_def)

lemma out_ids:
  assumes "traffic_ok s" "(k, i, j, p) \<in> ck_out s"
  shows "ck_ids s i = Some p" "ck_ids s j = Some p" "k = ReqNew \<Longrightarrow> i = j" "k \<noteq> ReqNew \<Longrightarrow> i \<noteq> j"
  using traffic_okD(4) [OF assms] by (auto simp: out_ok_def split: if_splits)

lemma other_out:
  "traffic_ok s \<Longrightarrow> (k, i, j, p) \<in> ck_out s \<Longrightarrow> (k', i', j', p') \<in> ck_out s - {(k, i, j, p)} \<Longrightarrow> i' \<noteq> i"
  by (blast dest: traffic_okD(5))

lemma traffic_ok_shrink_out:
  assumes "traffic_ok s"
    and "\<And>k. co_orders c' k = co_orders (ck_c s) k \<or> co_orders c' k = None \<and> ck_ids s k \<in> {None, Some p}"
    and "out' \<subseteq> ck_out s"
    and "p \<in> ck_live s \<Longrightarrow> co_orders c' (ord_origClOrderId (ck_h s p)) = Some p"
    and "\<And>k i j. (k, i, j, p) \<in> out' \<Longrightarrow> k \<noteq> ReqNew \<Longrightarrow> p \<in> ck_live s \<Longrightarrow> co_orders c' i = Some p"
  shows "traffic_ok (s\<lparr>ck_c := c', ck_out := out'\<rparr>)"
  using traffic_ok_shrink [OF assms(1,2) subset_refl assms(3-5)] by simp

text \<open>Requests: the new identifier belongs to nobody else.\<close>

lemma free_id: "traffic_ok s \<Longrightarrow> ck_ids s i = None \<Longrightarrow> co_orders (ck_c s) i = None"
  by (metis traffic_okD(2) not_None_eq option.distinct(1))

lemma traffic_ok_sent:
  assumes ok: "traffic_ok s" and i: "ck_ids s i = None" "i \<noteq> []"
    and k: "if k = ReqNew then p \<notin> ran (ck_ids s) else p \<in> ck_live s"
    and h: "\<And>q. q \<noteq> p \<Longrightarrow> h q = ck_h s q"
    and tab: "co_orders c = cl_add (co_orders (ck_c s)) i p"
    and orig: "ord_origClOrderId (h p) = (if k = ReqNew then i else ord_origClOrderId (ck_h s p))"
  shows "traffic_ok (s\<lparr>ck_h := h, ck_c := c, ck_ids := (ck_ids s)(i \<mapsto> p),
     ck_live := insert p (ck_live s), ck_out := insert (k, i, ord_origClOrderId (h p), p) (ck_out s)\<rparr>)" (is "traffic_ok ?s")
proof (rule traffic_okI)
  have t: "co_orders c = (co_orders (ck_c s))(i \<mapsto> p)" using tab free_id [OF ok i(1)] by (simp add: cl_add_def)
  have liveids: "q \<in> ck_live s \<Longrightarrow> ck_ids s (ord_origClOrderId (ck_h s q)) = Some q" for q using live_ids [OF ok] .
  have fresh: "k = ReqNew \<Longrightarrow> ck_ids s x \<noteq> Some p" for x using k by (auto simp: ran_def)
  have used: "(k', i', j', q) \<in> ck_out s \<Longrightarrow> i' \<noteq> i \<and> j' \<noteq> i" for k' i' j' q
    using out_ids(1,2) [OF ok] i(1) by fastforce
  show "ck_ids ?s [] = None" using i traffic_okD(1) [OF ok] by simp
  show "ck_ids ?s x = Some q" if "co_orders (ck_c ?s) x = Some q" for x q
    using that traffic_okD(2) [OF ok, of x q] by (auto simp: t split: if_splits)
  show "co_orders (ck_c ?s) (ord_origClOrderId (ck_h ?s q)) = Some q" if "q \<in> ck_live ?s" for q
    using that h [of q] orig k traffic_okD(3) [OF ok, of q] liveids [of q] i(1) by (cases "q = p") (auto simp: t)
  show "out_ok ?s x" if x: "x \<in> ck_out ?s" for x
  proof (cases "x = (k, i, ord_origClOrderId (h p), p)")
    case True
    have "k \<noteq> ReqNew \<Longrightarrow> p \<in> ck_live s" using k by simp
    then show ?thesis using True orig liveids [of p] i(1) by (cases "k = ReqNew") (auto simp: out_ok_def t)
  next
    case False
    obtain k' i' j' q where xq: "x = (k', i', j', q)" by (cases x) auto
    have x': "(k', i', j', q) \<in> ck_out s" using x False xq by auto
    have o: "out_ok s (k', i', j', q)" using traffic_okD(4) [OF ok x'] .
    have "q = p \<Longrightarrow> k \<noteq> ReqNew" using out_ids(1) [OF ok x'] fresh by auto
    then show ?thesis using o used [OF x'] h [of q] orig k unfolding xq by (cases "q = p") (auto simp: out_ok_def t)
  qed
  show "k1 = k2 \<and> j1 = j2 \<and> p1 = p2" if "(k1, x, j1, p1) \<in> ck_out ?s" "(k2, x, j2, p2) \<in> ck_out ?s" for k1 x j1 p1 k2 j2 p2
    using that used traffic_okD(5) [OF ok, of k1 x j1 p1 k2 j2 p2] by auto
  show "k1 = ReqNew" if a: "(k1, x, j1, p1) \<in> ck_out ?s" and b: "(k2, i2, x, p2) \<in> ck_out ?s" for k1 x j1 p1 k2 i2 p2
  proof -
    have "x = i \<or> (k1, x, j1, p1) \<in> ck_out s" using a by auto
    moreover have "k = ReqNew" if "x = i"
    proof (rule ccontr)
      assume k': "k \<noteq> ReqNew"
      then have "ord_origClOrderId (h p) = i" using b that used by auto
      then show False using k' k orig liveids [of p] i(1) by simp
    qed
    moreover have "k1 = ReqNew" if o: "(k1, x, j1, p1) \<in> ck_out s"
    proof -
      have "x \<noteq> i" using used [OF o] by simp
      then consider "(k2, i2, x, p2) \<in> ck_out s" | "x = ord_origClOrderId (ck_h s p)" "k \<noteq> ReqNew"
        using b orig by (auto split: if_splits)
      then show ?thesis
      proof cases
        case 1
        then show ?thesis using traffic_okD(6) [OF ok o] by blast
      next
        case 2
        then have "p1 = p" using out_ids(1) [OF ok o] liveids [of p] k by simp
        then show ?thesis using 2 traffic_okD(4) [OF ok o] by (auto simp: out_ok_def split: if_splits)
      qed
    qed
    ultimately show ?thesis using a used by auto
  qed
qed

lemma traffic_ok_not_sent:
  assumes ok: "traffic_ok s" and i: "ck_ids s i = None" "i \<noteq> []"
    and k: "if k = ReqNew then p \<notin> ran (ck_ids s) else p \<in> ck_live s"
    and h: "\<And>q. q \<noteq> p \<Longrightarrow> h q = ck_h s q"
    and tab: "co_orders c = co_orders (ck_c s) \<or> co_orders c = cl_add (co_orders (ck_c s)) i p"
    and orig: "k \<noteq> ReqNew \<Longrightarrow> ord_origClOrderId (h p) = ord_origClOrderId (ck_h s p)"
  shows "traffic_ok (s\<lparr>ck_h := h, ck_c := c, ck_ids := (ck_ids s)(i \<mapsto> p)\<rparr>)" (is "traffic_ok ?s")
proof (rule traffic_okI)
  have t: "co_orders c = co_orders (ck_c s) \<or> co_orders c = (co_orders (ck_c s))(i \<mapsto> p)"
    using tab free_id [OF ok i(1)] by (simp add: cl_add_def)
  have fresh: "k = ReqNew \<Longrightarrow> ck_ids s x \<noteq> Some p" for x using k by (auto simp: ran_def)
  have same: "ord_origClOrderId (h q) = ord_origClOrderId (ck_h s q)" if "ck_ids s x = Some q" for q x
    using that h [of q] orig fresh by (cases "q = p") auto
  show "ck_ids ?s [] = None" using i traffic_okD(1) [OF ok] by simp
  show "ck_ids ?s x = Some q" if "co_orders (ck_c ?s) x = Some q" for x q
    using that t traffic_okD(2) [OF ok, of x q] i(1) by (auto split: if_splits)
  show "co_orders (ck_c ?s) (ord_origClOrderId (ck_h ?s q)) = Some q" if "q \<in> ck_live ?s" for q
    using that t traffic_okD(3) [OF ok, of q] live_ids [OF ok, of q] same i(1) by auto
  show "out_ok ?s x" if x: "x \<in> ck_out ?s" for x
  proof -
    obtain k' i' j' q where xq: "x = (k', i', j', q)" by (cases x) auto
    have x': "(k', i', j', q) \<in> ck_out s" using x xq by simp
    have "i' \<noteq> i" "j' \<noteq> i" using out_ids(1,2) [OF ok x'] i(1) by auto
    then show ?thesis using traffic_okD(4) [OF ok x'] same out_ids(1) [OF ok x'] t unfolding xq by (auto simp: out_ok_def)
  qed
  show "k1 = k2 \<and> j1 = j2 \<and> p1 = p2" if "(k1, x, j1, p1) \<in> ck_out ?s" "(k2, x, j2, p2) \<in> ck_out ?s" for k1 x j1 p1 k2 j2 p2
    using that traffic_okD(5) [OF ok, of k1 x j1 p1 k2 j2 p2] by simp
  show "k1 = ReqNew" if "(k1, x, j1, p1) \<in> ck_out ?s" "(k2, i2, x, p2) \<in> ck_out ?s" for k1 x j1 p1 k2 i2 p2
    using that traffic_okD(6) [OF ok, of k1 x j1 p1 k2 i2 p2] by simp
qed

lemma traffic_ok_step:
  assumes ok: "traffic_ok s" and step: "traffic_step api s s'"
  shows "traffic_ok s'"
  using step
proof cases
  case (newAck i j p r)
  then have "snd (processOrderResp (ck_h s) r (ck_c s)) = ck_c s" by (intro resp_table(1)) simp
  then show ?thesis unfolding newAck(1)
    by (intro traffic_ok_shrink_out [OF ok, where p = p])
      (use traffic_okD(3) [OF ok, of p] out_live(1) [OF ok] in auto)
next
  case (newRej i j p r)
  show ?thesis unfolding newRej(1)
    by (rule traffic_ok_shrink [OF ok, where p = p])
      (use newRej out_ids [OF ok newRej(2)] in \<open>auto simp: resp_table cl_simps\<close>)
next
  case (modAck i j p r)
  note o = out_live [OF ok modAck(2) _ modAck(3), simplified] and ids = out_ids [OF ok modAck(2), simplified]
  let ?c = "snd (processOrderResp (ck_h s) r (ck_c s))" and ?old = "ord_origClOrderId (ck_h s p)"
  have old: "ck_ids s ?old = Some p" using live_ids [OF ok modAck(3)] .
  have tab: "co_orders ?c = cl_rem (cl_rem (co_orders (ck_c s)) j) ?old"
    using modAck_table [of r "ck_c s" p "ck_h s"] modAck(4-6) o by auto
  have keep: "co_orders ?c k = Some q" if "co_orders (ck_c s) k = Some q" "q \<noteq> p" for k q
    using that old ids traffic_okD(2) [OF ok that(1)] by (auto simp: tab cl_simps)
  have i: "co_orders ?c i = Some p" using o by (simp add: tab cl_simps)
  let ?s = "s\<lparr>ck_c := ?c, ck_h := (ck_h s)(p := acked i (ck_h s p)), ck_out := ck_out s - {(ReqMod, i, j, p)}\<rparr>"
  have "out_ok ?s x" if x: "x \<in> ck_out ?s" for x
  proof -
    obtain k' i' j' q where xq: "x = (k', i', j', q)" by (cases x) auto
    have x': "(k', i', j', q) \<in> ck_out s - {(ReqMod, i, j, p)}" using x xq by simp
    have oo: "out_ok s (k', i', j', q)" using x' traffic_okD(4) [OF ok] by blast
    have ne: "i' \<noteq> i" using other_out [OF ok modAck(2) x'] .
    show ?thesis
    proof (cases "q = p")
      case True
      have "k' \<noteq> ReqNew \<Longrightarrow> i' \<noteq> j" using traffic_okD(6) [OF ok _ modAck(2)] x' by blast
      then show ?thesis using oo True ne modAck(3) unfolding xq out_ok_def by (auto simp: acked_def tab cl_simps)
    next
      case False
      then show ?thesis using oo keep unfolding xq out_ok_def by auto
    qed
  qed
  moreover have "ck_ids s k = Some q" if "co_orders ?c k = Some q" for k q
    using that traffic_okD(2) [OF ok, of k q] by (auto simp: tab cl_simps split: if_splits)
  moreover have "co_orders ?c (ord_origClOrderId (ck_h ?s q)) = Some q" if "q \<in> ck_live s" for q
    using that i keep traffic_okD(3) [OF ok, of q] by (cases "q = p") (auto simp: acked_def)
  ultimately have "traffic_ok ?s"
    using traffic_okD(1) [OF ok] traffic_okD(5,6) [OF ok] by (intro traffic_okI) (simp_all, blast+)
  then show ?thesis using modAck(1) by simp
next
  case (refused k i j p r)
  then have k: "k \<noteq> ReqNew" and ty: "or_type r \<in> {kNewRej, kModRej, kCxlRej}" by auto
  note ids = out_ids [OF ok refused(2)]
  have tab: "co_orders (snd (processOrderResp (ck_h s) r (ck_c s))) = cl_rem (co_orders (ck_c s)) i"
    using resp_table(2) [OF ty] refused(4,5) ids(4) [OF k] by simp
  show ?thesis unfolding refused(1)
  proof (rule traffic_ok_shrink_out [OF ok, where p = p])
    show "co_orders (snd (processOrderResp (ck_h s) r (ck_c s))) (ord_origClOrderId (ck_h s p)) = Some p"
      if "p \<in> ck_live s"
      using that out_live(3) [OF ok refused(2) k that] traffic_okD(3) [OF ok that] by (auto simp: tab cl_simps)
    show "co_orders (snd (processOrderResp (ck_h s) r (ck_c s))) i' = Some p"
      if "(k', i', j', p) \<in> ck_out s - {(k, i, j, p)}" "k' \<noteq> ReqNew" "p \<in> ck_live s" for k' i' j'
      using that other_out [OF ok refused(2) that(1)] out_live(1) [OF ok _ that(2,3)] by (auto simp: tab cl_simps)
  qed (use ids in \<open>auto simp: tab cl_simps\<close>)
next
  case (cxlAck i j p r)
  show ?thesis unfolding cxlAck(1)
    by (rule traffic_ok_shrink [OF ok, where p = p])
      (use cxlAck out_ids [OF ok cxlAck(2)] in \<open>auto simp: resp_table cl_simps\<close>)
next
  case (filled p r)
  show ?thesis
  proof (cases "or_type r = kFill")
    case True
    have "ck_ids s (or_clOrderId r) = Some p" using live_ids [OF ok filled(2)] filled(4) by simp
    moreover have "ck_ids s (or_origClOrderId r) \<in> {None, Some p}" using filled(5) traffic_okD(1) [OF ok] by auto
    ultimately have "traffic_ok (s\<lparr>ck_c := snd (processOrderResp (ck_h s) r (ck_c s)), ck_live := ck_live s - {p},
        ck_out := ck_out s\<rparr>)"
      by (intro traffic_ok_shrink [OF ok, where p = p]) (auto simp: resp_table True cl_simps)
    then show ?thesis unfolding filled(1) using True by simp
  next
    case False
    then have "snd (processOrderResp (ck_h s) r (ck_c s)) = ck_c s" using filled(3) by (intro resp_table(1)) simp
    then show ?thesis unfolding filled(1) using False ok by simp
  qed
next
  case (sent i k p throws h c m)
  show ?thesis unfolding sent(1)
    by (rule traffic_ok_sent [OF ok sent(2-4)]) (use send_effect [OF sent(5)] in auto)
next
  case (not_sent i k p throws h c res)
  show ?thesis unfolding not_sent(1)
    by (rule traffic_ok_not_sent [OF ok not_sent(2-4)]) (use send_effect [OF not_sent(5)] in auto)
qed


inductive traffic_run :: "('m, 'd::floor_ceiling) fix_api \<Rightarrow> ('m, 'd) traffic \<Rightarrow> ('m, 'd) traffic \<Rightarrow> bool" for api where
  traffic_refl: "traffic_run api s s"
| traffic_next: "traffic_run api s t \<Longrightarrow> traffic_step api t u \<Longrightarrow> traffic_run api s u"

lemma traffic_ok_run: "traffic_run api s t \<Longrightarrow> traffic_ok s \<Longrightarrow> traffic_ok t"
  by (induction rule: traffic_run.induct) (auto intro: traffic_ok_step)

definition traffic_start :: "'d order_heap \<Rightarrow> 'm channel_onix \<Rightarrow> ('m, 'd) traffic" where
  "traffic_start h c = \<lparr>ck_h = h, ck_c = c\<lparr>co_orders := (\<lambda>_. None)\<rparr>, ck_ids = (\<lambda>_. None), ck_live = {}, ck_out = {}\<rparr>"

lemma traffic_ok_start: "traffic_ok (traffic_start h c)"
  by (rule traffic_okI) (simp_all add: traffic_start_def)

text \<open>
  C11: in every run of requests and answers a response under the acknowledged identifier of a
  working order, or under the identifier of an open modify or cancel of it, is attributed to that
  order, and every response that is attributed carries an identifier that was sent for its order.
  The exchange of the run answers requests and fills; unsolicited cancels, trade breaks, status
  reports and orders rebuilt after a restart are not steps of it.
\<close>

lemma responses_find_their_order:
  assumes "traffic_run api (traffic_start h c) s" and "p \<in> ck_live s"
    and "or_clOrderId r = ord_origClOrderId (ck_h s p) \<or> (\<exists>k j. k \<noteq> ReqNew \<and> (k, or_clOrderId r, j, p) \<in> ck_out s)"
  shows "or_order (fst (processOrderResp (ck_h s) r (ck_c s))) = Some p \<and>
    (\<forall>r' q. or_order (fst (processOrderResp (ck_h s) r' (ck_c s))) = Some q \<longrightarrow>
       ck_ids s (or_clOrderId r') = Some q \<or> ck_ids s (or_origClOrderId r') = Some q)"
proof -
  have ok: "traffic_ok s" using traffic_ok_run [OF assms(1) traffic_ok_start] .
  have "co_orders (ck_c s) (or_clOrderId r) = Some p"
    using assms(2,3) traffic_okD(3) [OF ok] out_live(1) [OF ok] by auto
  then show ?thesis
    using traffic_okD(2) [OF ok] by (auto simp: resp_order split: option.splits)
qed


section \<open>A session-level reject answers the request\<close>

text \<open>
  The engine reports a message it could not pass on under its sequence number. The channel turns
  the report into the reject of the request that was sent, and from there on it is handled
  as if the exchange had rejected: with the right type, order, reason and text.
\<close>

definition req_type :: "req_kind \<Rightarrow> string" where
  "req_type k = (case k of ReqNew \<Rightarrow> ''D'' | ReqMod \<Rightarrow> ''G'' | ReqCxl \<Rightarrow> ''F'')"

definition rej_type :: "req_kind \<Rightarrow> eOrderRespType" where
  "rej_type k = (case k of ReqNew \<Rightarrow> kNewRej | ReqMod \<Rightarrow> kModRej | ReqCxl \<Rightarrow> kCxlRej)"

lemma init_tags:
  assumes "fix_laws api" and "t \<in> {MsgType, OrigClOrdID}"
  shows "fx_get api (setConstantFields api s m) t = fx_get api m t"
  using assms(2)
  by (auto simp: setConstantFields_def const_mod_def const_new_def const_cxl_def const_logon_def Let_def fix_simps [OF assms(1)])

lemma calls_tags:
  assumes "fix_laws api"
  shows "fx_get api (ct_msgNew (ct_calls api cs (ct_init api s (ct_new api)))) MsgType = Some ''D''"
    and "fx_get api (ct_msgNew (ct_calls api cs (ct_init api s (ct_new api)))) OrigClOrdID = None"
    and "fx_get api (ct_msgMod (ct_calls api cs (ct_init api s (ct_new api)))) MsgType = Some ''G''"
    and "fx_get api (ct_msgCxl (ct_calls api cs (ct_init api s (ct_new api)))) MsgType = Some ''F''"
proof -
  let ?t0 = "ct_init api s (ct_new api)"
  have "same_constants api (ct_calls api cs ?t0) ?t0"
    by (rule calls_constants [OF assms]) (simp add: same_constants_def)
  then have "fx_get api (ct_msgNew (ct_calls api cs ?t0)) t = fx_get api (ct_msgNew ?t0) t" if "t \<in> {MsgType, OrigClOrdID}" for t
    using that by (auto simp: same_constants_def new_tags_def)
  moreover have "fx_get api (ct_msgMod (ct_calls api cs ?t0)) MsgType = fx_get api (ct_msgMod ?t0) MsgType"
    "fx_get api (ct_msgCxl (ct_calls api cs ?t0)) MsgType = fx_get api (ct_msgCxl ?t0) MsgType"
    using \<open>same_constants api (ct_calls api cs ?t0) ?t0\<close>
    by (auto simp: same_constants_def mod_tags_def new_tags_def cxl_tags_def)
  ultimately show "fx_get api (ct_msgNew (ct_calls api cs ?t0)) MsgType = Some ''D''"
    "fx_get api (ct_msgNew (ct_calls api cs ?t0)) OrigClOrdID = None"
    "fx_get api (ct_msgMod (ct_calls api cs ?t0)) MsgType = Some ''G''"
    "fx_get api (ct_msgCxl (ct_calls api cs ?t0)) MsgType = Some ''F''"
    by (simp_all add: ct_init_def ct_new_def init_tags [OF assms] fix_simps [OF assms])
qed

lemma accepted_ids:
  assumes "fix_laws api"
  shows "ct_translateNew api s i m ord = (m', ord', CtOk) \<Longrightarrow> fx_get api m' ClOrdID = Some i \<and>
      fx_get api m' MsgType = fx_get api m MsgType \<and> fx_get api m' OrigClOrdID = fx_get api m OrigClOrdID"
    and "ct_translateMod api i m ord = (m', ord', CtOk) \<Longrightarrow> fx_get api m' ClOrdID = Some i \<and>
      fx_get api m' MsgType = fx_get api m MsgType \<and> fx_get api m' OrigClOrdID = Some (ord_origClOrderId ord)"
    and "ct_translateCxl api i m ord = (m', ord', CtOk) \<Longrightarrow> fx_get api m' ClOrdID = Some i \<and>
      fx_get api m' MsgType = fx_get api m MsgType \<and> fx_get api m' OrigClOrdID = Some (ord_origClOrderId ord)"
  by (auto simp: ct_translateNew_def ct_translateMod_def ct_translateCxl_def Let_def fix_simps [OF assms] get_erase [OF assms]
      ct_get_defs split: option.splits if_splits)

lemma sent_message:
  assumes laws: "fix_laws api" and tr: "co_translator c = ct_calls api cs (ct_init api s (ct_new api))"
    and send: "co_send k api th i p h c = (h', c', [EvSend m], CoTrue)"
  shows "fx_get api m ClOrdID = Some i \<and> fx_get api m MsgType = Some (req_type k) \<and>
    fx_get api m OrigClOrdID = (if k = ReqNew then None else Some (ord_origClOrderId (h p)))"
proof (cases k)
  case ReqNew
  then have "\<exists>ord. ct_translateNew api (ct_settings (co_translator c)) i (ct_msgNew (co_translator c)) (h p) = (m, ord, CtOk)"
    using send by (auto simp: co_send_def co_sendNew_def co_dispatch_def Let_def case_prod_beta prod_eq_iff split: ct_result.splits if_splits)
  then show ?thesis using ReqNew accepted_ids(1) [OF laws] calls_tags [OF laws] by (auto simp: req_type_def tr)
next
  case ReqMod
  then have "\<exists>ord. ct_translateMod api i (ct_msgMod (co_translator c)) (h p) = (m, ord, CtOk)"
    using send by (auto simp: co_send_def co_sendMod_def co_dispatch_def Let_def case_prod_beta prod_eq_iff split: ct_result.splits if_splits)
  then show ?thesis using ReqMod accepted_ids(2) [OF laws] calls_tags [OF laws] by (auto simp: req_type_def tr)
next
  case ReqCxl
  then have "\<exists>ord. ct_translateCxl api i (ct_msgCxl (co_translator c)) (h p) = (m, ord, CtOk)"
    using send by (auto simp: co_send_def co_sendCxl_def co_dispatch_def Let_def case_prod_beta prod_eq_iff split: ct_result.splits if_splits)
  then show ?thesis using ReqCxl accepted_ids(3) [OF laws] calls_tags [OF laws] by (auto simp: req_type_def tr)
qed

lemma copyField_get:
  "fix_laws api \<Longrightarrow> fx_get api (ct_copyField api src m t) t' =
     (if t' = t \<and> fx_get api src t \<noteq> None then fx_get api src t else fx_get api m t')"
  by (auto simp: ct_copyField_def fix_simps split: option.splits)

lemma field_get: "fix_laws api \<Longrightarrow> ct_field api m t old = (case fx_get api m t of None \<Rightarrow> old | Some v \<Rightarrow> v)"
  by (auto simp: ct_field_def fix_simps split: option.splits)

text \<open>The message that stands for the reject.\<close>

lemma translated_reject:
  assumes laws: "fix_laws api" and ty: "fx_get api m MsgType = Some (req_type k)"
    and rej: "ct_rejReason api rej = (n, text)"
  obtains ack where "ct_translateMsgRej api rej m = Some ack"
    and "fx_get api ack MsgType = Some (if k = ReqNew then ''8'' else ''9'')"
    and "fx_get api ack ExecType = (if k = ReqNew then Some ''8'' else None)"
    and "fx_get api ack CxlRejResponseTo = (case k of ReqNew \<Rightarrow> None | ReqMod \<Rightarrow> Some ''2'' | ReqCxl \<Rightarrow> Some ''1'')"
    and "fx_get api ack (if k = ReqNew then OrdRejReason else CxlRejReason) = Some (fx_int api n)"
    and "fx_get api ack Text = Some text" and "fx_get api ack ClOrdID = fx_get api m ClOrdID"
    and "fx_get api ack OrigClOrdID = fx_get api m OrigClOrdID"
    and "fx_get api ack TransactTime = None" and "fx_get api ack SendingTime = None"
proof (cases k)
  case ReqNew
  then show ?thesis using that ty
    by (simp add: ct_translateMsgRej_def rej field_get [OF laws] req_type_def first_char_def Let_def
        copyField_get [OF laws] fix_simps [OF laws])
next
  case ReqMod
  then show ?thesis using that ty
    by (simp add: ct_translateMsgRej_def rej field_get [OF laws] req_type_def first_char_def Let_def
        copyField_get [OF laws] fix_simps [OF laws])
next
  case ReqCxl
  then show ?thesis using that ty
    by (simp add: ct_translateMsgRej_def rej field_get [OF laws] req_type_def first_char_def Let_def
        copyField_get [OF laws] fix_simps [OF laws])
qed

text \<open>
  C24: when the FIX engine rejects a message that the channel sent, the consumer gets the
  reject of that very request: its kind, its order, its identifier, the reason of a session reject
  with the text of the engine, and the identifier leaves the table.
\<close>

lemma session_reject_answers_request:
  assumes laws: "fix_laws api"
    and tr: "co_translator c = ct_calls api cs (ct_init api s (ct_new api))"
    and send: "co_send k api th i p h c = (h', c', [EvSend m], CoTrue)"
    and rej: "fx_get api rej MsgType = Some ''3''" "fx_get api rej RefSeqNum = Some ref" "fx_parse_int api ref = Some n"
    and found: "findSentMessage n = Some m" and tab: "co_orders c2 i = Some p"
    and ne: "i \<noteq> []" "k \<noteq> ReqNew \<Longrightarrow> ord_origClOrderId (h p) \<noteq> i"
  shows "\<exists>c3 r. onInboundSessionMsg api show_msg findSentMessage now rej h2 c2 = (c3, [EvOrderResp r]) \<and>
    or_type r = rej_type k \<and> or_order r = Some p \<and> or_clOrderId r = i \<and>
    or_exRejReason r = fx_int api SessionReject \<and> or_exRejText r = ct_field api rej Text [] \<and> co_orders c3 i = None"
proof -
  note [simp] = field_get [OF laws] fix_simps(4) [OF laws]
  have m: "fx_get api m ClOrdID = Some i" "fx_get api m MsgType = Some (req_type k)"
    "fx_get api m OrigClOrdID = (if k = ReqNew then None else Some (ord_origClOrderId (h p)))"
    using sent_message [OF laws tr send] by blast+
  have reason: "ct_rejReason api rej = (SessionReject, ct_field api rej Text [])"
    using rej(1) by (simp add: ct_rejReason_def first_char_def Let_def)
  obtain ack where ack: "ct_translateMsgRej api rej m = Some ack"
    "fx_get api ack MsgType = Some (if k = ReqNew then ''8'' else ''9'')"
    "fx_get api ack ExecType = (if k = ReqNew then Some ''8'' else None)"
    "fx_get api ack CxlRejResponseTo = (case k of ReqNew \<Rightarrow> None | ReqMod \<Rightarrow> Some ''2'' | ReqCxl \<Rightarrow> Some ''1'')"
    "fx_get api ack (if k = ReqNew then OrdRejReason else CxlRejReason) = Some (fx_int api SessionReject)"
    "fx_get api ack Text = Some (ct_field api rej Text [])" "fx_get api ack ClOrdID = fx_get api m ClOrdID"
    "fx_get api ack OrigClOrdID = fx_get api m OrigClOrdID"
    "fx_get api ack TransactTime = None" "fx_get api ack SendingTime = None"
    using translated_reject [OF laws m(2) reason] by blast
  have gt: "fx_getType api x = y" if "fx_get api x MsgType = Some y" for x y
    using laws that unfolding fix_laws_def by (metis option.inject)
  have session: "onInboundSessionMsg api show_msg findSentMessage now rej h2 c2 = onInboundApplicationMsg api show_msg now ack h2 c2"
    using rej found ack(1) by (simp add: onInboundSessionMsg_def processReject_def gt [OF rej(1)] first_char_def Let_def)
  let ?r0 = "order_resp_default\<lparr>or_timestamp1 := now\<rparr>"
  let ?r = "if k = ReqNew then translateExecutionReport api ack ?r0 else translateOrderCancelReject api ack ?r0"
  have "\<exists>r. ?r = Some r \<and> or_type r = rej_type k \<and> or_clOrderId r = i \<and>
      or_origClOrderId r = (if k = ReqNew then [] else ord_origClOrderId (h p)) \<and>
      or_exRejReason r = fx_int api SessionReject \<and> or_exRejText r = ct_field api rej Text []"
    using ack(3-10) m(1,3)
    by (cases k) (simp_all add: translateExecutionReport_def translateOrderCancelReject_def getOrderRespTypeExecutionReport_def
        getOrderRespTypeCancelReject_def first_char_def ct_translateResp_def resp_fields_def getOrderRejReason_def
        getCxlRejReason_def ct_getOrderIds_def resp_time_def order_resp_default_def rej_type_def Let_def)
  then obtain r where r: "?r = Some r" "or_type r = rej_type k" "or_clOrderId r = i"
    "or_origClOrderId r = (if k = ReqNew then [] else ord_origClOrderId (h p))"
    "or_exRejReason r = fx_int api SessionReject" "or_exRejText r = ct_field api rej Text []" by blast
  obtain r' c3 where rc: "processOrderResp h2 r c2 = (r', c3)" by force
  have "onInboundApplicationMsg api show_msg now ack h2 c2 = (c3, [EvOrderResp r'])"
    using r(1) rc by (cases "k = ReqNew") (simp_all add: onInboundApplicationMsg_def gt [OF ack(2)] first_char_def Let_def)
  moreover have "or_order r' = Some p" using resp_order [of h2 r c2] rc tab r(3) by simp
  moreover have "r' = getOrder c2 r" using rc by (simp add: processOrderResp_def Let_def)
  moreover have "or_clOrderId r \<noteq> or_origClOrderId r" using r(3,4) ne by auto
  moreover have "or_type r \<in> {kNewRej, kModRej, kCxlRej}" using r(2) by (cases k) (simp_all add: rej_type_def)
  ultimately show ?thesis
    using session r(2-6) rc resp_table(2) [of r h2 c2] by (simp add: getOrder_def cl_simps Let_def split: if_splits)
qed

subsection \<open>Witnesses\<close>

definition wit_cme :: "plain_msg channel_onix" where
  "wit_cme = \<lparr>co_valid = True, co_active = True, co_receivedLogout = False, co_state = ''ACTIVE'',
     co_settings = Some wit_cme_settings,
     co_translator = ct_init rat_fix wit_cme_settings (ct_new rat_fix),
     co_orders = (\<lambda>_. None)\<rparr>"

definition wit_cme_heap :: "rat order_heap" where
  "wit_cme_heap = (\<lambda>_. order_default\<lparr>ord_type := kLimit, ord_side := kBuy, ord_qty := 5, ord_price := 100,
     ord_newPrice := 101, ord_instrument := Some instrument_clear\<rparr>)"

text \<open>A complete order goes out while the session is up, and stays complete.\<close>

definition sendable :: "'m channel_onix \<Rightarrow> 'd order \<Rightarrow> bool" where
  "sendable c ord \<longleftrightarrow> isLoggedOn c \<and> ct_settings (co_translator c) \<noteq> None \<and> ord_type ord = kLimit \<and>
     ord_side ord \<in> {kBuy, kSell} \<and> ord_instrument ord \<noteq> None \<and> \<not> ord_cancelOnAck ord"

lemma sendable_goes_out:
  assumes "sendable c (h p)"
  shows "\<exists>h' c' m. co_send k api False i p h c = (h', c', [EvSend m], CoTrue) \<and> sendable c' (h' p)"
  using assms
  by (cases k) (auto simp: sendable_def co_send_def co_sendNew_def co_sendMod_def co_sendCxl_def isLoggedOn_def Let_def
      ct_translateNew_def ct_translateMod_def ct_translateCxl_def ct_side_def co_dispatch_def addOrder_def)

lemma wit_sendable: "sendable wit_cme (wit_cme_heap p)"
  by (simp add: sendable_def wit_cme_def wit_cme_heap_def isLoggedOn_def ct_init_def order_default_def)

lemma session_reject_answers_request_witness:
  "\<exists>h' c' m c3 r. co_send ReqMod plain_fix False ''B'' 0 wit_cme_heap wit_cme = (h', c', [EvSend m], CoTrue) \<and>
    onInboundSessionMsg plain_fix fst (\<lambda>_. Some m) 7 (''3'', [RefSeqNum \<mapsto> ''1'', Text \<mapsto> ''bad'']) h' c' = (c3, [EvOrderResp r]) \<and>
    or_type r = kModRej \<and> or_order r = Some 0 \<and> or_exRejText r = ''bad'' \<and> co_orders c3 ''B'' = None"
proof -
  let ?rej = "(''3'', [RefSeqNum \<mapsto> ''1'', Text \<mapsto> ''bad'']) :: plain_msg"
  obtain h' c' m where s: "co_send ReqMod plain_fix False ''B'' 0 wit_cme_heap wit_cme = (h', c', [EvSend m], CoTrue)"
    using sendable_goes_out [of wit_cme wit_cme_heap 0 ReqMod plain_fix "''B''", OF wit_sendable] by blast
  have tr: "co_translator wit_cme = ct_calls rat_fix [] (ct_init rat_fix wit_cme_settings (ct_new rat_fix))"
    by (simp add: wit_cme_def ct_calls_def)
  have "co_orders c' ''B'' = Some 0"
    using send_effect(4) [OF s refl] by (simp add: wit_cme_def cl_simps)
  moreover have "ord_origClOrderId (wit_cme_heap 0) \<noteq> ''B''" by (simp add: wit_cme_heap_def order_default_def)
  moreover have "fx_get plain_fix ?rej MsgType = Some ''3''" "fx_get plain_fix ?rej RefSeqNum = Some ''1''"
    "fx_parse_int (plain_fix :: (plain_msg, rat) fix_api) ''1'' = Some 1"
    "ct_field (plain_fix :: (plain_msg, rat) fix_api) ?rej Text [] = ''bad''"
    by (simp_all add: plain_fix_def ct_field_def)
  ultimately show ?thesis
    using session_reject_answers_request [OF plain_fix_laws tr s, of ?rej "''1''" 1 "\<lambda>_. Some m" c' fst 7 h'] s
    by (simp add: rej_type_def) blast
qed

text \<open>A new order and a modify of it are open; responses under either identifier find the order.\<close>

lemma wit_traffic:
  "\<exists>s. traffic_run plain_fix (traffic_start wit_cme_heap wit_cme) s \<and> 0 \<in> ck_live s \<and>
     ord_origClOrderId (ck_h s 0) = ''A'' \<and> (ReqMod, ''B'', ''A'', 0) \<in> ck_out s"
proof -
  let ?s0 = "traffic_start wit_cme_heap wit_cme"
  have "sendable (ck_c ?s0) (ck_h ?s0 0)"
    using wit_sendable [of 0] by (simp add: traffic_start_def sendable_def isLoggedOn_def)
  from sendable_goes_out [of "ck_c ?s0" "ck_h ?s0" 0 ReqNew plain_fix "''A''", OF this] obtain h1 c1 m1 where
    s1: "co_send ReqNew plain_fix False ''A'' 0 (ck_h ?s0) (ck_c ?s0) = (h1, c1, [EvSend m1], CoTrue)" and ok1: "sendable c1 (h1 0)"
    by blast
  have o1: "ord_origClOrderId (h1 0) = ''A''" using send_effect(4) [OF s1 refl] by simp
  let ?s1 = "?s0\<lparr>ck_h := h1, ck_c := c1, ck_ids := (ck_ids ?s0)(''A'' \<mapsto> 0), ck_live := insert 0 (ck_live ?s0),
    ck_out := insert (ReqNew, ''A'', ord_origClOrderId (h1 0), 0) (ck_out ?s0)\<rparr>"
  have st1: "traffic_step plain_fix ?s0 ?s1"
    by (rule sent [OF _ _ _ s1]) (simp_all add: traffic_start_def)
  from sendable_goes_out [of "ck_c ?s1" "ck_h ?s1" 0 ReqMod plain_fix "''B''"] ok1 obtain h2 c2 m2 where
    s2: "co_send ReqMod plain_fix False ''B'' 0 (ck_h ?s1) (ck_c ?s1) = (h2, c2, [EvSend m2], CoTrue)" by auto
  have o2: "ord_origClOrderId (h2 0) = ''A''" using send_effect(4) [OF s2 refl] o1 by simp
  let ?s2 = "?s1\<lparr>ck_h := h2, ck_c := c2, ck_ids := (ck_ids ?s1)(''B'' \<mapsto> 0), ck_live := insert 0 (ck_live ?s1),
    ck_out := insert (ReqMod, ''B'', ord_origClOrderId (h2 0), 0) (ck_out ?s1)\<rparr>"
  have st2: "traffic_step plain_fix ?s1 ?s2"
    by (rule sent [OF _ _ _ s2]) (simp_all add: traffic_start_def)
  have "traffic_run plain_fix ?s0 ?s2" using traffic_next [OF traffic_next [OF traffic_refl st1] st2] .
  then show ?thesis using o2 by (intro exI [of _ ?s2]) simp
qed

lemma responses_find_their_order_witness:
  "\<exists>s. traffic_run plain_fix (traffic_start wit_cme_heap wit_cme) s \<and>
    (\<forall>i \<in> {''A'', ''B''}. or_order (fst (processOrderResp (ck_h s) (order_resp_default\<lparr>or_clOrderId := i\<rparr>) (ck_c s))) = Some 0)"
proof -
  obtain s where s: "traffic_run plain_fix (traffic_start wit_cme_heap wit_cme) s" "0 \<in> ck_live s"
    "ord_origClOrderId (ck_h s 0) = ''A''" "(ReqMod, ''B'', ''A'', 0) \<in> ck_out s"
    using wit_traffic by blast
  have "or_order (fst (processOrderResp (ck_h s) (order_resp_default\<lparr>or_clOrderId := ''A''\<rparr>) (ck_c s))) = Some 0"
    using responses_find_their_order [OF s(1,2), of "order_resp_default\<lparr>or_clOrderId := ''A''\<rparr>"] s(3) by simp
  moreover have "or_order (fst (processOrderResp (ck_h s) (order_resp_default\<lparr>or_clOrderId := ''B''\<rparr>) (ck_c s))) = Some 0"
    using responses_find_their_order [OF s(1,2), of "order_resp_default\<lparr>or_clOrderId := ''B''\<rparr>"] s(4) by force
  ultimately show ?thesis using s(1) by auto
qed

text \<open>
  A cancel that is accepted after a modify was acknowledged in between leaves the identifier of the
  modify in the table: the response carries the two identifiers of the cancel request.
\<close>

lemma cancel_after_modify_leaks:
  assumes "or_type r = kCxlAck" and "or_clOrderId r \<noteq> b" and "or_origClOrderId r \<noteq> b" and "co_orders c b = Some p"
  shows "co_orders (snd (processOrderResp h r c)) b = Some p"
  using assms by (simp add: resp_table cl_simps)

end
