(* ===== verification/InstrumentManager.thy ===== *)
theory InstrumentManager
  imports TheoValues Fractional
begin

section \<open>The instrument manager\<close>

text \<open>
  \<open>instr/instrument_manager\<close>: the table of all instruments, with six unique keys, and the
  settlements and fees loaded beside it. An instrument is an address into a heap, because the
  legs of a spread point to their parent and to other instruments; the table is the list of
  addresses in the order of insertion. Rows are parsed and printed by generated code
  (\<open>parse\<close>, \<open>show_row\<close>), texts are read as numbers by boost (\<open>lex\<close>), files, database and
  the date come from outside: all are arguments. An exception that leaves an operation carries
  the state it leaves behind; arithmetic whose result C++ does not define is \<open>ImCrash\<close>. The
  quotes created on loading are a log of addresses.
\<close>

subsection \<open>Data\<close>

record spread_leg =
  lg_index :: u32
  lg_ratio :: int
  lg_parent :: "nat option"
  lg_instrument :: "nat option"

definition leg_isValid :: "spread_leg \<Rightarrow> bool" where
  "leg_isValid l \<longleftrightarrow> lg_index l > 0 \<and> lg_ratio l \<noteq> 0 \<and> lg_parent l \<noteq> None \<and> lg_instrument l \<noteq> None"

record 'd instr_full = "'d instrument" +
  inf_keyNum1 :: u32
  inf_keyNum2 :: u32
  inf_keyStr1 :: string
  inf_keyStr2 :: string
  inf_displayNameLeg1 :: string
  inf_ratioLeg1 :: int
  inf_displayNameLeg2 :: string
  inf_ratioLeg2 :: int
  inf_displayNameLeg3 :: string
  inf_ratioLeg3 :: int
  inf_displayNameLeg4 :: string
  inf_ratioLeg4 :: int
  inf_high :: ticks
  inf_low :: ticks
  inf_close :: ticks
  inf_settlPrice :: 'd
  inf_settlDate :: string
  inf_PP :: 'd
  inf_S1 :: 'd
  inf_R1 :: 'd
  inf_S2 :: 'd
  inf_R2 :: 'd
  inf_dirty :: bool
  inf_legs :: "spread_leg list"
  inf_tc :: "converter option"

record 'd settlement =
  st_displayName :: string
  st_exchange :: eExchange
  st_high :: string
  st_low :: string
  st_close :: string
  st_settlPrice :: string
  st_settlDate :: string
  st_PP :: 'd
  st_S1 :: 'd
  st_R1 :: 'd
  st_S2 :: 'd
  st_R2 :: 'd

record 'd fees_cme =
  fc_symbol :: string
  fc_feeEx :: 'd
  fc_feeExClearing :: 'd
  fc_feeBrokerage :: 'd
  fc_feePerTrade :: 'd

record im_settings =
  ims_dataSourceType :: string
  ims_dataSource :: string
  ims_dataSourceTypeOutput :: string
  ims_db_connection_str :: string
  ims_createQuotesOnLoad :: bool

definition ims_clear :: im_settings where
  "ims_clear = \<lparr>ims_dataSourceType = [], ims_dataSource = [], ims_dataSourceTypeOutput = [],
     ims_db_connection_str = [], ims_createQuotesOnLoad = False\<rparr>"

record 'd inst_manager =
  im_header :: string
  im_settings :: im_settings
  im_heap :: "nat \<Rightarrow> 'd instr_full"
  im_next :: nat
  im_table :: "nat list"
  im_feesCME :: "string \<Rightarrow> 'd fees_cme option"
  im_settlements :: "string \<Rightarrow> 'd settlement option"
  im_quoted :: "nat list"

datatype 'a im_result = ImOk 'a | ImThrow 'a | ImCrash

fun im_then :: "'a im_result \<Rightarrow> ('a \<Rightarrow> 'a im_result) \<Rightarrow> 'a im_result" where
  "im_then (ImOk x) f = f x"
| "im_then (ImThrow x) f = ImThrow x"
| "im_then ImCrash f = ImCrash"

fun im_each :: "('b \<Rightarrow> 'a \<Rightarrow> 'a im_result) \<Rightarrow> 'b list \<Rightarrow> 'a \<Rightarrow> 'a im_result" where
  "im_each f [] x = ImOk x"
| "im_each f (y # ys) x = im_then (f y x) (im_each f ys)"

subsection \<open>Converter, precision, support and resistance\<close>

text \<open>\<open>None\<close>: the constructor of the converter throws, the instrument stays as it was.\<close>

definition setTickConverter :: "('d::floor_ceiling) instr_full \<Rightarrow> 'd instr_full option" where
  "setTickConverter i =
     (if inf_tc i \<noteq> None then Some i
      else map_option (\<lambda>c. i\<lparr>inf_tc := Some c\<rparr>) (tc_resetWithNewInstrument (Some (instrument.truncate i))))"

definition setPrecision :: "(u64 \<Rightarrow> u64 \<Rightarrow> string) \<Rightarrow> 'd instr_full \<Rightarrow> 'd instr_full" where
  "setPrecision digits i =
     i\<lparr>ins_precision := int (getPrecision digits (ucast (ins_tickNumerator i)) (ucast (ins_tickDenominator i)))\<rparr>"

text \<open>The five levels in ticks, when all can be computed.\<close>

definition supp_rest :: "ticks \<Rightarrow> ticks \<Rightarrow> 'd::floor_ceiling \<Rightarrow> ('d \<times> 'd \<times> 'd \<times> 'd \<times> 'd) option" where
  "supp_rest high low c =
     (case calcPP high low c of
        (False, _) \<Rightarrow> None
      | (True, pp) \<Rightarrow>
          (case (calcS1R1 high pp, calcS1R1 low pp, calcS2R2 high low pp (- 1), calcS2R2 high low pp 1) of
             ((True, s1), (True, r1), (True, s2), (True, r2)) \<Rightarrow> Some (pp, s1, r1, s2, r2)
           | _ \<Rightarrow> None))"

definition calcSuppRest ::
    "ticks \<Rightarrow> ticks \<Rightarrow> ticks \<Rightarrow> 'd::floor_ceiling \<Rightarrow> 'd instr_full \<Rightarrow> 'd settlement \<Rightarrow> bool \<Rightarrow>
     ('d instr_full \<times> 'd settlement) option" where
  "calcSuppRest high low close settlPrice i s useClose =
     (case supp_rest high low (if useClose then of_int close else settlPrice) of
        None \<Rightarrow> Some (i, s)
      | Some (pp, s1, r1, s2, r2) \<Rightarrow>
          (case setTickConverter i of
             None \<Rightarrow> None
           | Some i \<Rightarrow>
               (case inf_tc i of
                  None \<Rightarrow> None
                | Some tc \<Rightarrow>
                    let f = (\<lambda>x. tc_toFractionalExchangePrice tc x * ins_displayFormat i)
                    in Some (i, s\<lparr>st_PP := f pp, st_S1 := f s1, st_R1 := f r1, st_S2 := f s2, st_R2 := f r2\<rparr>))))"

text \<open>
  The prices of a settlement are texts in display format. The last argument of the source's call
  of \<open>calcSuppRest\<close> is \<open>verbose\<close>, which lands in the parameter \<open>useClose\<close>. Dividing by a display
  format of zero and casting the result is undefined.
\<close>

definition setSuppRest ::
    "(string \<Rightarrow> 'd option) \<Rightarrow> ('d::floor_ceiling) instr_full \<Rightarrow> 'd settlement \<Rightarrow> bool \<Rightarrow> 'd instr_full im_result" where
  "setSuppRest lexical_cast i s verbose =
     (case setTickConverter i of
        None \<Rightarrow> ImThrow i
      | Some i \<Rightarrow>
          (case (inf_tc i, lexical_cast (st_high s), lexical_cast (st_low s), lexical_cast (st_close s), lexical_cast (st_settlPrice s)) of
             (Some tc, Some h, Some l, Some c, Some p) \<Rightarrow>
               if ins_displayFormat i = 0 then ImCrash
               else
                 let d = ins_displayFormat i;
                     i = i\<lparr>inf_high := tc_fromExchangePrice tc (h / d), inf_low := tc_fromExchangePrice tc (l / d),
                           inf_close := tc_fromExchangePrice tc (c / d), inf_settlPrice := tc_fractionalTicks tc (p / d)\<rparr>
                 in (case calcSuppRest (inf_high i) (inf_low i) (inf_close i) (inf_settlPrice i) i s verbose of
                       None \<Rightarrow> ImThrow i
                     | Some (i, s) \<Rightarrow>
                         ImOk (i\<lparr>inf_PP := tc_fractionalTicks tc (st_PP s / d), inf_S1 := tc_fractionalTicks tc (st_S1 s / d),
                                inf_R1 := tc_fractionalTicks tc (st_R1 s / d), inf_S2 := tc_fractionalTicks tc (st_S2 s / d),
                                inf_R2 := tc_fractionalTicks tc (st_R2 s / d)\<rparr>))
           | _ \<Rightarrow> ImThrow i))"

subsection \<open>Queries\<close>

definition im_clear :: "'d inst_manager \<Rightarrow> 'd inst_manager" where
  "im_clear m = m\<lparr>im_header := [], im_settings := ims_clear, im_table := []\<rparr>"

definition getInstrument :: "('d instr_full \<Rightarrow> 'k) \<Rightarrow> 'd inst_manager \<Rightarrow> 'k \<Rightarrow> nat option" where
  "getInstrument key m k = find (\<lambda>p. key (im_heap m p) = k) (im_table m)"

definition getByKeyId :: "'d inst_manager \<Rightarrow> u32 \<Rightarrow> nat option" where
  "getByKeyId = getInstrument ins_keyId"

definition getByDisplayName :: "'d inst_manager \<Rightarrow> string \<Rightarrow> nat option" where
  "getByDisplayName = getInstrument ins_displayName"

definition getByKeyNum1 :: "'d inst_manager \<Rightarrow> u32 \<Rightarrow> nat option" where
  "getByKeyNum1 = getInstrument inf_keyNum1"

definition getByKeyNum2 :: "'d inst_manager \<Rightarrow> u32 \<Rightarrow> nat option" where
  "getByKeyNum2 = getInstrument inf_keyNum2"

definition getByKeyStr1 :: "'d inst_manager \<Rightarrow> string \<Rightarrow> nat option" where
  "getByKeyStr1 = getInstrument inf_keyStr1"

definition getByKeyStr2 :: "'d inst_manager \<Rightarrow> string \<Rightarrow> nat option" where
  "getByKeyStr2 = getInstrument inf_keyStr2"

text \<open>The condition assigns the exchange of the instrument to the parameter and tests that it is not the first enumerator.\<close>

definition getByExchange :: "'d inst_manager \<Rightarrow> eExchange \<Rightarrow> nat list" where
  "getByExchange m exchange =
     fst (fold (\<lambda>p (ps, exchange).
       let exchange = ins_exchange (im_heap m p) in (if exchange \<noteq> kUnknownExchange then ps @ [p] else ps, exchange))
       (im_table m) ([], exchange))"

fun eExchange_toString :: "eExchange \<Rightarrow> string" where
  "eExchange_toString kCME = ''CME''"
| "eExchange_toString kICE = ''ICE''"
| "eExchange_toString kUnknownExchange = ''Unknown''"

definition getSettlKey :: "eExchange \<Rightarrow> string \<Rightarrow> string \<Rightarrow> string" where
  "getSettlKey exchange displayName settlDate = eExchange_toString exchange @ ''_'' @ displayName @ ''_'' @ settlDate"

definition getOrCreateSettlement ::
    "eExchange \<Rightarrow> string \<Rightarrow> string \<Rightarrow> ('d::zero) inst_manager \<Rightarrow> 'd inst_manager \<times> 'd settlement" where
  "getOrCreateSettlement exchange displayName settlDate m =
     (let key = getSettlKey exchange displayName settlDate in
      case im_settlements m key of
        Some s \<Rightarrow> (m, s)
      | None \<Rightarrow>
          let s = \<lparr>st_displayName = displayName, st_exchange = exchange, st_high = [], st_low = [], st_close = [],
                   st_settlPrice = [], st_settlDate = settlDate, st_PP = 0, st_S1 = 0, st_R1 = 0, st_S2 = 0, st_R2 = 0\<rparr>
          in (m\<lparr>im_settlements := (im_settlements m)(key \<mapsto> s)\<rparr>, s))"

subsection \<open>Insertion and loading\<close>

text \<open>All six indices are unique: an instrument that shares a key with another is not inserted.\<close>

definition same_key :: "'d instr_full \<Rightarrow> 'd instr_full \<Rightarrow> bool" where
  "same_key i j \<longleftrightarrow> ins_keyId i = ins_keyId j \<or> ins_displayName i = ins_displayName j \<or>
     inf_keyNum1 i = inf_keyNum1 j \<or> inf_keyNum2 i = inf_keyNum2 j \<or>
     inf_keyStr1 i = inf_keyStr1 j \<or> inf_keyStr2 i = inf_keyStr2 j"

definition table_insert :: "nat \<Rightarrow> 'd inst_manager \<Rightarrow> 'd inst_manager" where
  "table_insert p m =
     (if \<exists>q \<in> set (im_table m). same_key (im_heap m p) (im_heap m q) then m else m\<lparr>im_table := im_table m @ [p]\<rparr>)"

definition im_alloc :: "'d instr_full \<Rightarrow> 'd inst_manager \<Rightarrow> 'd inst_manager" where
  "im_alloc i m = m\<lparr>im_heap := (im_heap m)(im_next m := i), im_next := im_next m + 1\<rparr>"

definition addInstrument :: "'d instr_full \<Rightarrow> 'd inst_manager \<Rightarrow> 'd inst_manager" where
  "addInstrument i m = table_insert (im_next m) (im_alloc i m)"

definition load_leg :: "'d inst_manager \<Rightarrow> 'd instr_full \<Rightarrow> nat \<Rightarrow> spread_leg" where
  "load_leg m i counter =
     (let leg = \<lparr>lg_index = of_nat (counter + 1), lg_ratio = 0, lg_parent = Some (im_next m), lg_instrument = None\<rparr> in
      if counter = 0 then leg\<lparr>lg_ratio := inf_ratioLeg1 i, lg_instrument := getByDisplayName m (inf_displayNameLeg1 i)\<rparr>
      else if counter = 1 then leg\<lparr>lg_ratio := inf_ratioLeg2 i, lg_instrument := getByDisplayName m (inf_displayNameLeg2 i)\<rparr>
      else if counter = 2 then leg\<lparr>lg_ratio := inf_ratioLeg3 i, lg_instrument := getByDisplayName m (inf_displayNameLeg3 i)\<rparr>
      else if counter = 3 then leg\<lparr>lg_ratio := inf_ratioLeg4 i, lg_instrument := getByDisplayName m (inf_displayNameLeg4 i)\<rparr>
      else leg)"

definition load_legs :: "'d inst_manager \<Rightarrow> 'd instr_full \<Rightarrow> 'd instr_full" where
  "load_legs m i =
     (if ins_instrType i = kSpread then i\<lparr>inf_legs := map (load_leg m i) [0..<unat (ins_numberOfLegs i)]\<rparr> else i)"

definition default_keys :: "(u32 \<Rightarrow> string) \<Rightarrow> 'd instr_full \<Rightarrow> 'd instr_full" where
  "default_keys show_id i =
     (let i = (if inf_keyNum1 i = 0 then i\<lparr>inf_keyNum1 := ins_keyId i\<rparr> else i);
          i = (if inf_keyNum2 i = 0 then i\<lparr>inf_keyNum2 := ins_keyId i\<rparr> else i);
          i = (if inf_keyStr1 i = [] then i\<lparr>inf_keyStr1 := show_id (ins_keyId i)\<rparr> else i)
      in (if inf_keyStr2 i = [] then i\<lparr>inf_keyStr2 := show_id (ins_keyId i)\<rparr> else i))"

definition load_fees :: "'d inst_manager \<Rightarrow> 'd instr_full \<Rightarrow> 'd instr_full" where
  "load_fees m i =
     (if ins_exchange i = kCME
      then (case im_feesCME m (ins_symbol i) of
              None \<Rightarrow> i
            | Some f \<Rightarrow> i\<lparr>ins_fees := \<lparr>fee_exLiqAdd = fc_feeEx f, fee_exLiqRem = fc_feeEx f, fee_exClearing = fc_feeExClearing f,
                fee_brokerage = fc_feeBrokerage f, fee_perTrade = fc_feePerTrade f\<rparr>\<rparr>)
      else i)"

text \<open>
  The surroundings of a load: the parser of a row, the texts of numbers, yesterday's date and the
  setting \<open>instruments_verbose\<close>, which reaches \<open>setSuppRest\<close>.
\<close>

record 'd im_env =
  ime_parse :: "string \<Rightarrow> 'd instr_full option"
  ime_lexical_cast :: "string \<Rightarrow> 'd option"
  ime_digits :: "u64 \<Rightarrow> u64 \<Rightarrow> string"
  ime_show_id :: "u32 \<Rightarrow> string"
  ime_yesterday :: string
  ime_verbose :: bool

definition load_settlement :: "'d im_env \<Rightarrow> bool \<Rightarrow> 'd inst_manager \<Rightarrow> ('d::floor_ceiling) instr_full \<Rightarrow> 'd instr_full im_result" where
  "load_settlement e validate m i =
     (if \<not> validate then ImOk i
      else
        let i = i\<lparr>inf_settlDate := ime_yesterday e\<rparr> in
        case im_settlements m (getSettlKey (ins_exchange i) (ins_displayName i) (inf_settlDate i)) of
          None \<Rightarrow> ImOk i
        | Some s \<Rightarrow> setSuppRest (ime_lexical_cast e) i s (ime_verbose e))"

definition load_finish :: "'d instr_full \<Rightarrow> 'd inst_manager \<Rightarrow> 'd inst_manager" where
  "load_finish i m =
     (let p = im_next m; m = table_insert p (im_alloc i m)
      in if ims_createQuotesOnLoad (im_settings m) then m\<lparr>im_quoted := im_quoted m @ [p]\<rparr> else m)"

definition load :: "'d im_env \<Rightarrow> bool \<Rightarrow> string \<Rightarrow> ('d::floor_ceiling) inst_manager \<Rightarrow> 'd inst_manager im_result" where
  "load e validate row m =
     (case ime_parse e row of
        None \<Rightarrow> ImOk m
      | Some i \<Rightarrow>
          if validate \<and> \<not> ins_isValid (instrument.truncate i) then ImOk m
          else
            let i = load_legs m i in
            if validate \<and> ins_instrType i = kSpread \<and> (\<exists>l \<in> set (inf_legs i). \<not> leg_isValid l) then ImOk m
            else
              case (if validate then setTickConverter i else Some i) of
                None \<Rightarrow> ImThrow m
              | Some i \<Rightarrow>
                  let i = load_fees m (default_keys (ime_show_id e) (setPrecision (ime_digits e) i)) in
                  case load_settlement e validate m i of
                    ImOk i \<Rightarrow> ImOk (load_finish i m)
                  | ImThrow _ \<Rightarrow> ImThrow m
                  | ImCrash \<Rightarrow> ImCrash)"

text \<open>Rows are the lines that end with a newline; the last line of a file without one is not read.\<close>

definition newline :: char where
  "newline = CHR 0x0A"

fun complete_lines :: "string \<Rightarrow> string \<Rightarrow> string list" where
  "complete_lines [] cur = []"
| "complete_lines (c # cs) cur = (if c = newline then cur # complete_lines cs [] else complete_lines cs (cur @ [c]))"

definition loadFromFile ::
    "'d im_env \<Rightarrow> bool \<Rightarrow> string option \<Rightarrow> ('d::floor_ceiling) inst_manager \<Rightarrow> 'd inst_manager im_result" where
  "loadFromFile e validate file m =
     (case file of
        None \<Rightarrow> ImThrow m
      | Some text \<Rightarrow>
          im_each (load e validate) (tl (complete_lines text [])) (m\<lparr>im_header := takeWhile (\<lambda>c. c \<noteq> newline) text\<rparr>))"

record 'd im_db =
  imd_valid :: bool
  imd_fees :: "'d fees_cme list option"
  imd_settlements :: "string \<Rightarrow> 'd settlement list option"
  imd_instruments :: "string list option"
  imd_header :: string

definition loadFromDb ::
    "'d im_env \<Rightarrow> bool \<Rightarrow> 'd im_db \<Rightarrow> ('d::floor_ceiling) inst_manager \<Rightarrow> 'd inst_manager im_result" where
  "loadFromDb e validate db m =
     (if \<not> imd_valid db then ImThrow m
      else case imd_fees db of
        None \<Rightarrow> ImThrow m
      | Some fees \<Rightarrow>
          let m = m\<lparr>im_feesCME := fold (\<lambda>f t. t(fc_symbol f \<mapsto> f)) fees (im_feesCME m)\<rparr> in
          im_then
            (if \<not> validate then ImOk m
             else case imd_settlements db (ime_yesterday e) of
               None \<Rightarrow> ImThrow m
             | Some ss \<Rightarrow> ImOk (m\<lparr>im_settlements :=
                 fold (\<lambda>s t. t(getSettlKey (st_exchange s) (st_displayName s) (st_settlDate s) \<mapsto> s)) ss (im_settlements m)\<rparr>))
            (\<lambda>m. case imd_instruments db of
               None \<Rightarrow> ImThrow m
             | Some rows \<Rightarrow> im_each (load e validate) rows (m\<lparr>im_header := imd_header db\<rparr>)))"

text \<open>The settings are stored behind a successful load only: the load itself runs under the old ones.\<close>

definition loadInstruments ::
    "'d im_env \<Rightarrow> (string \<Rightarrow> string option) \<Rightarrow> (string \<Rightarrow> 'd im_db) \<Rightarrow> im_settings \<Rightarrow> bool \<Rightarrow>
     ('d::floor_ceiling) inst_manager \<Rightarrow> ('d inst_manager \<times> bool) option" where
  "loadInstruments e files dbs settings validate m =
     (case (if ims_dataSourceType settings = ''file'' then loadFromFile e validate (files (ims_dataSource settings)) m
            else if ims_dataSourceType settings = ''db'' then loadFromDb e validate (dbs (ims_db_connection_str settings)) m
            else ImThrow m) of
        ImOk m \<Rightarrow> Some (m\<lparr>im_settings := settings\<rparr>, True)
      | ImThrow m \<Rightarrow> Some (m, False)
      | ImCrash \<Rightarrow> None)"

subsection \<open>Saving\<close>

definition sorted_rows :: "('d instr_full \<Rightarrow> string) \<Rightarrow> 'd inst_manager \<Rightarrow> (u32, string) stdmap" where
  "sorted_rows show_row m = fold (\<lambda>p t. sm_put t (ins_keyId (im_heap m p)) (show_row (im_heap m p))) (im_table m) []"

text \<open>The text written, when the files could be swapped and opened.\<close>

definition saveToFile :: "('d instr_full \<Rightarrow> string) \<Rightarrow> 'd inst_manager \<Rightarrow> string" where
  "saveToFile show_row m = im_header m @ [newline] @ concat (map snd (sorted_rows show_row m))"

text \<open>The instruments a save to the database writes.\<close>

definition dirty_instruments :: "'d inst_manager \<Rightarrow> nat list" where
  "dirty_instruments m = filter (\<lambda>p. inf_dirty (im_heap m p)) (im_table m)"

section \<open>The keys are unique\<close>

definition keys_ok :: "'d inst_manager \<Rightarrow> bool" where
  "keys_ok m \<longleftrightarrow> distinct (im_table m) \<and> (\<forall>p \<in> set (im_table m). p < im_next m) \<and>
     (\<forall>p \<in> set (im_table m). \<forall>q \<in> set (im_table m). same_key (im_heap m p) (im_heap m q) \<longrightarrow> p = q)"

text \<open>
  The contract of a source of instruments: whatever state keeps the invariant, an instrument found
  under a key has that key, and one that has the key is found.
\<close>

locale instrument_source =
  fixes inv :: "'s \<Rightarrow> bool"
    and members :: "'s \<Rightarrow> 'p set"
    and key :: "'s \<Rightarrow> 'p \<Rightarrow> 'k"
    and look :: "'s \<Rightarrow> 'k \<Rightarrow> 'p option"
  assumes found_has_key: "look s k = Some p \<Longrightarrow> p \<in> members s \<and> key s p = k"
    and present_found: "p \<in> members s \<Longrightarrow> look s (key s p) \<noteq> None"
    and key_unique: "inv s \<Longrightarrow> p \<in> members s \<Longrightarrow> q \<in> members s \<Longrightarrow> key s p = key s q \<Longrightarrow> p = q"
begin

lemma look_iff: "inv s \<Longrightarrow> look s k = Some p \<longleftrightarrow> p \<in> members s \<and> key s p = k"
  using found_has_key key_unique present_found by (metis option.exhaust)

lemma look_none: "look s k = None \<longleftrightarrow> k \<notin> key s ` members s"
  using found_has_key present_found by (metis imageE imageI option.exhaust)

end

lemma getInstrument_Some: "getInstrument key m k = Some p \<Longrightarrow> p \<in> set (im_table m) \<and> key (im_heap m p) = k"
  by (auto simp: getInstrument_def find_Some_iff)

lemma getInstrument_found: "p \<in> set (im_table m) \<Longrightarrow> getInstrument key m (key (im_heap m p)) \<noteq> None"
  by (auto simp: getInstrument_def find_None_iff)

lemma keys_okD: "keys_ok m \<Longrightarrow> p \<in> set (im_table m) \<Longrightarrow> q \<in> set (im_table m) \<Longrightarrow> same_key (im_heap m p) (im_heap m q) \<Longrightarrow> p = q"
  by (auto simp: keys_ok_def)

interpretation by_keyId: instrument_source keys_ok "\<lambda>m. set (im_table m)" "\<lambda>m p. ins_keyId (im_heap m p)" getByKeyId
  by unfold_locales (auto simp: getByKeyId_def same_key_def dest: getInstrument_Some getInstrument_found intro: keys_okD)

interpretation by_displayName: instrument_source keys_ok "\<lambda>m. set (im_table m)" "\<lambda>m p. ins_displayName (im_heap m p)" getByDisplayName
  by unfold_locales (auto simp: getByDisplayName_def same_key_def dest: getInstrument_Some getInstrument_found intro: keys_okD)

interpretation by_keyNum1: instrument_source keys_ok "\<lambda>m. set (im_table m)" "\<lambda>m p. inf_keyNum1 (im_heap m p)" getByKeyNum1
  by unfold_locales (auto simp: getByKeyNum1_def same_key_def dest: getInstrument_Some getInstrument_found intro: keys_okD)

interpretation by_keyNum2: instrument_source keys_ok "\<lambda>m. set (im_table m)" "\<lambda>m p. inf_keyNum2 (im_heap m p)" getByKeyNum2
  by unfold_locales (auto simp: getByKeyNum2_def same_key_def dest: getInstrument_Some getInstrument_found intro: keys_okD)

interpretation by_keyStr1: instrument_source keys_ok "\<lambda>m. set (im_table m)" "\<lambda>m p. inf_keyStr1 (im_heap m p)" getByKeyStr1
  by unfold_locales (auto simp: getByKeyStr1_def same_key_def dest: getInstrument_Some getInstrument_found intro: keys_okD)

interpretation by_keyStr2: instrument_source keys_ok "\<lambda>m. set (im_table m)" "\<lambda>m p. inf_keyStr2 (im_heap m p)" getByKeyStr2
  by unfold_locales (auto simp: getByKeyStr2_def same_key_def dest: getInstrument_Some getInstrument_found intro: keys_okD)

subsection \<open>Every operation keeps the table unique\<close>

lemma im_alloc_simps [simp]:
  "im_table (im_alloc i m) = im_table m" "im_next (im_alloc i m) = im_next m + 1"
  "im_heap (im_alloc i m) p = (if p = im_next m then i else im_heap m p)"
  "im_settings (im_alloc i m) = im_settings m" "im_header (im_alloc i m) = im_header m"
  by (auto simp: im_alloc_def)

lemma table_insert_simps [simp]:
  "im_next (table_insert p m) = im_next m" "im_heap (table_insert p m) = im_heap m" "im_header (table_insert p m) = im_header m"
  "im_settings (table_insert p m) = im_settings m"
  by (auto simp: table_insert_def)

lemma same_key_sym: "same_key i j \<longleftrightarrow> same_key j i"
  by (auto simp: same_key_def)

lemma keys_ok_insert:
  assumes "keys_ok m"
  shows "keys_ok (table_insert (im_next m) (im_alloc i m))"
proof -
  have lt: "\<forall>p \<in> set (im_table m). p < im_next m" and d: "distinct (im_table m)" using assms by (auto simp: keys_ok_def)
  have old: "im_heap (im_alloc i m) p = im_heap m p" if "p \<in> set (im_table m)" for p using that lt by auto
  show ?thesis
  proof (cases "\<exists>q \<in> set (im_table m). same_key i (im_heap m q)")
    case True
    then have "table_insert (im_next m) (im_alloc i m) = im_alloc i m" using old by (auto simp: table_insert_def)
    then show ?thesis using assms old unfolding keys_ok_def by (auto simp: less_Suc_eq)
  next
    case False
    then have t: "table_insert (im_next m) (im_alloc i m) = (im_alloc i m)\<lparr>im_table := im_table m @ [im_next m]\<rparr>"
      using lt by (auto simp: table_insert_def)
    have "p = q" if "p \<in> set (im_table m)" "q \<in> set (im_table m)" "same_key (im_heap m p) (im_heap m q)" for p q
      using that assms by (auto simp: keys_ok_def)
    then show ?thesis unfolding keys_ok_def t using lt d False
      by (auto simp: less_Suc_eq) (auto simp: same_key_sym split: if_splits)
  qed
qed

lemma load_finish_keys: "keys_ok m \<Longrightarrow> keys_ok (load_finish i m)"
  using keys_ok_insert [of m i] by (simp add: load_finish_def Let_def keys_ok_def)

fun im_all :: "('a \<Rightarrow> bool) \<Rightarrow> 'a im_result \<Rightarrow> bool" where
  "im_all P (ImOk x) \<longleftrightarrow> P x"
| "im_all P (ImThrow x) \<longleftrightarrow> P x"
| "im_all P ImCrash \<longleftrightarrow> True"

lemma im_then_all: "im_all P r \<Longrightarrow> (\<And>x. P x \<Longrightarrow> im_all P (f x)) \<Longrightarrow> im_all P (im_then r f)"
  by (cases r) auto

lemma im_each_all: "P x \<Longrightarrow> (\<And>y x. P x \<Longrightarrow> im_all P (f y x)) \<Longrightarrow> im_all P (im_each f ys x)"
  by (induction ys arbitrary: x) (auto intro: im_then_all)

text \<open>What a row can do to the table: nothing, or one insertion.\<close>

lemma load_cases:
  "load e validate row m = ImCrash \<or> load e validate row m = ImThrow m \<or> load e validate row m = ImOk m \<or>
   (\<exists>i. load e validate row m = ImOk (load_finish i m))"
  unfolding load_def Let_def by (auto split: option.split im_result.split)

lemma load_all: "P m \<Longrightarrow> (\<And>i. P (load_finish i m)) \<Longrightarrow> im_all P (load e validate row m)"
  using load_cases [of e validate row m] by auto

subsection \<open>Runs\<close>

inductive im_reach :: "('d::floor_ceiling) im_env \<Rightarrow> 'd inst_manager \<Rightarrow> bool" for e where
  start: "im_table m = [] \<Longrightarrow> im_reach e m"
| loaded: "im_reach e m \<Longrightarrow> loadInstruments e files dbs st validate m = Some (m', b) \<Longrightarrow> im_reach e m'"
| added: "im_reach e m \<Longrightarrow> im_reach e (addInstrument i m)"
| settled: "im_reach e m \<Longrightarrow> im_reach e (fst (getOrCreateSettlement x n d m))"
| cleared: "im_reach e m \<Longrightarrow> im_reach e (im_clear m)"

text \<open>A predicate that only looks at table, heap and next address passes through a whole load.\<close>

lemma loadInstruments_all:
  assumes "loadInstruments e files dbs st validate m = Some (m', b)" and "P m"
    and step: "\<And>row m. P m \<Longrightarrow> im_all P (load e validate row m)"
    and frame: "\<And>m h. P m \<Longrightarrow> P (m\<lparr>im_header := h\<rparr>)" "\<And>m s. P m \<Longrightarrow> P (m\<lparr>im_settings := s\<rparr>)"
      "\<And>m f. P m \<Longrightarrow> P (m\<lparr>im_feesCME := f\<rparr>)" "\<And>m s. P m \<Longrightarrow> P (m\<lparr>im_settlements := s\<rparr>)"
  shows "P m'"
proof -
  have each: "P x \<Longrightarrow> im_all P (im_each (load e validate) rows x)" for x rows by (intro im_each_all step)
  have "im_all P (loadFromFile e validate f m)" for f
    unfolding loadFromFile_def using assms(2) by (auto split: option.split intro!: each frame)
  moreover have "im_all P (loadFromDb e validate db m)" for db
  proof -
    have "im_all P (case imd_instruments db of None \<Rightarrow> ImThrow x
        | Some rows \<Rightarrow> im_each (load e validate) rows (x\<lparr>im_header := imd_header db\<rparr>))" if "P x" for x
      using that by (auto split: option.split intro!: each frame)
    moreover have "im_all P (if \<not> validate then ImOk x else case imd_settlements db (ime_yesterday e) of None \<Rightarrow> ImThrow x
        | Some ss \<Rightarrow> ImOk (x\<lparr>im_settlements :=
            fold (\<lambda>s t. t(getSettlKey (st_exchange s) (st_displayName s) (st_settlDate s) \<mapsto> s)) ss (im_settlements x)\<rparr>))"
        if "P x" for x
      using that by (auto split: option.split intro!: frame)
    ultimately show ?thesis using assms(2)
      by (simp add: loadFromDb_def Let_def im_then_all frame split: option.split)
  qed
  ultimately have "im_all P (if ims_dataSourceType st = ''file'' then loadFromFile e validate (files (ims_dataSource st)) m
      else if ims_dataSourceType st = ''db'' then loadFromDb e validate (dbs (ims_db_connection_str st)) m else ImThrow m)"
    using assms(2) by simp
  then show ?thesis using assms(1) frame(2) unfolding loadInstruments_def
    by (auto split: im_result.splits)
qed

lemma keys_ok_reach: "im_reach e m \<Longrightarrow> keys_ok m"
proof (induction rule: im_reach.induct)
  case (loaded m files dbs st validate m' b)
  from loaded.hyps(2) loaded.IH show ?case
  proof (rule loadInstruments_all)
    show "keys_ok m \<Longrightarrow> im_all keys_ok (load e validate row m)" for row m
      by (rule load_all) (simp_all add: load_finish_keys)
  qed (simp_all add: keys_ok_def)
next
  case (added m i)
  then show ?case using keys_ok_insert by (simp add: addInstrument_def)
qed (simp_all add: keys_ok_def getOrCreateSettlement_def im_clear_def Let_def split: option.split)

section \<open>Loaded instruments are well formed\<close>

definition leg_name :: "'d instr_full \<Rightarrow> nat \<Rightarrow> string" where
  "leg_name i n = (if n = 0 then inf_displayNameLeg1 i else if n = 1 then inf_displayNameLeg2 i
     else if n = 2 then inf_displayNameLeg3 i else inf_displayNameLeg4 i)"

definition leg_ratio :: "'d instr_full \<Rightarrow> nat \<Rightarrow> int" where
  "leg_ratio i n = (if n = 0 then inf_ratioLeg1 i else if n = 1 then inf_ratioLeg2 i
     else if n = 2 then inf_ratioLeg3 i else inf_ratioLeg4 i)"

definition leg_ok :: "'d inst_manager \<Rightarrow> 'd instr_full \<Rightarrow> nat \<Rightarrow> nat \<Rightarrow> bool" where
  "leg_ok m i p n \<longleftrightarrow>
     (let l = inf_legs i ! n in
      lg_index l = of_nat (n + 1) \<and> lg_ratio l = leg_ratio i n \<and> leg_ratio i n \<noteq> 0 \<and> lg_parent l = Some p \<and>
      (\<exists>q. lg_instrument l = Some q \<and> q \<in> set (im_table m) \<and> q < p \<and> ins_displayName (im_heap m q) = leg_name i n))"

definition inst_shape :: "('d::floor_ceiling) inst_manager \<Rightarrow> 'd instr_full \<Rightarrow> nat \<Rightarrow> bool" where
  "inst_shape m i p \<longleftrightarrow>
     ins_isValid (instrument.truncate i) \<and> inf_tc i \<noteq> None \<and>
     inf_tc i = tc_resetWithNewInstrument (Some (instrument.truncate i)) \<and> inf_keyStr1 i \<noteq> [] \<and> inf_keyStr2 i \<noteq> [] \<and>
     (inf_keyNum1 i = 0 \<longrightarrow> ins_keyId i = 0) \<and> (inf_keyNum2 i = 0 \<longrightarrow> ins_keyId i = 0) \<and>
     (if ins_instrType i = kSpread
      then 1 < length (inf_legs i) \<and> length (inf_legs i) < 5 \<and> length (inf_legs i) = unat (ins_numberOfLegs i) \<and>
        (\<forall>n < length (inf_legs i). leg_ok m i p n)
      else inf_legs i = [])"

definition inst_ok :: "('d::floor_ceiling) inst_manager \<Rightarrow> nat \<Rightarrow> bool" where
  "inst_ok m p \<longleftrightarrow> inst_shape m (im_heap m p) p"

text \<open>What is asked of the generated code: a parsed row has no converter and no legs, an id has a text.\<close>

definition rows_plain :: "'d im_env \<Rightarrow> bool" where
  "rows_plain e \<longleftrightarrow> (\<forall>row i. ime_parse e row = Some i \<longrightarrow> inf_tc i = None \<and> inf_legs i = []) \<and> (\<forall>k. ime_show_id e k \<noteq> [])"

lemma unread_fields [simp]:
  "ins_isValid (j\<lparr>ins_precision := x\<rparr>) = ins_isValid j" "ins_isValid (j\<lparr>ins_fees := f\<rparr>) = ins_isValid j"
  "tc_resetWithNewInstrument (Some (j\<lparr>ins_precision := x\<rparr>)) = tc_resetWithNewInstrument (Some j)"
  "tc_resetWithNewInstrument (Some (j\<lparr>ins_fees := f\<rparr>)) = tc_resetWithNewInstrument (Some j)"
  by (simp_all add: ins_isValid_def tc_resetWithNewInstrument_def)

text \<open>The part of an instrument that the settlement does not touch.\<close>

lemma calcSuppRest_frame:
  "inf_tc i \<noteq> None \<Longrightarrow> calcSuppRest h l c p i s u = Some (i', s') \<Longrightarrow> i' = i"
  by (auto simp: calcSuppRest_def setTickConverter_def Let_def split: option.splits)

lemma setSuppRest_frame:
  assumes "inf_tc i \<noteq> None" and "setSuppRest lc i s v = ImOk i'"
  obtains h l c p x1 x2 x3 x4 x5 where
    "i' = i\<lparr>inf_high := h, inf_low := l, inf_close := c, inf_settlPrice := p, inf_PP := x1, inf_S1 := x2, inf_R1 := x3, inf_S2 := x4, inf_R2 := x5\<rparr>"
proof -
  obtain tc where tc: "inf_tc i = Some tc" using assms(1) by blast
  show ?thesis using assms(2) tc that
    unfolding setSuppRest_def Let_def
    by (auto simp: setTickConverter_def split: option.splits if_splits dest!: calcSuppRest_frame [rotated])
qed

lemma load_settlement_frame:
  assumes "inf_tc i \<noteq> None" and "load_settlement e v m i = ImOk i'"
  obtains d h l c p x1 x2 x3 x4 x5 where
    "i' = i\<lparr>inf_settlDate := d, inf_high := h, inf_low := l, inf_close := c, inf_settlPrice := p, inf_PP := x1, inf_S1 := x2,
      inf_R1 := x3, inf_S2 := x4, inf_R2 := x5\<rparr>"
proof (cases "i' = i \<or> i' = i\<lparr>inf_settlDate := ime_yesterday e\<rparr>")
  case True
  then show ?thesis using that [of "inf_R2 i" "inf_S2 i" "inf_R1 i" "inf_S1 i" "inf_PP i" "inf_settlPrice i"
    "inf_close i" "inf_low i" "inf_high i" "inf_settlDate i'"] by auto
next
  case False
  then obtain s where "setSuppRest (ime_lexical_cast e) (i\<lparr>inf_settlDate := ime_yesterday e\<rparr>) s (ime_verbose e) = ImOk i'"
    using assms(2) by (auto simp: load_settlement_def Let_def split: if_splits option.splits)
  then show ?thesis using assms(1) that by (elim setSuppRest_frame [rotated]) auto
qed

lemma leg_fields:
  assumes "leg_isValid (load_leg m i n)" and "n < 4" and lt: "\<forall>q \<in> set (im_table m). q < im_next m"
  shows "lg_index (load_leg m i n) = of_nat (n + 1) \<and> lg_ratio (load_leg m i n) = leg_ratio i n \<and>
    leg_ratio i n \<noteq> 0 \<and> lg_parent (load_leg m i n) = Some (im_next m) \<and>
    (\<exists>q. lg_instrument (load_leg m i n) = Some q \<and> q \<in> set (im_table m) \<and> q < im_next m \<and>
       ins_displayName (im_heap m q) = leg_name i n)"
proof -
  have n: "n = 0 \<or> n = 1 \<or> n = 2 \<or> n = 3" using assms(2) by auto
  have "q \<in> set (im_table m) \<and> ins_displayName (im_heap m q) = s \<and> q < im_next m" if "getByDisplayName m s = Some q" for q s
    using by_displayName.found_has_key [OF that] lt by auto
  moreover have "lg_instrument (load_leg m i n) = getByDisplayName m (leg_name i n)"
    using n by (auto simp: load_leg_def leg_name_def Let_def)
  moreover have "lg_ratio (load_leg m i n) = leg_ratio i n"
    using n by (auto simp: load_leg_def leg_ratio_def Let_def)
  moreover have "lg_index (load_leg m i n) = of_nat (n + 1)" "lg_parent (load_leg m i n) = Some (im_next m)"
    by (auto simp: load_leg_def Let_def)
  ultimately show ?thesis using assms(1) by (auto simp: leg_isValid_def)
qed

lemma default_keys_simps [simp]:
  "ins_keyId (default_keys f i) = ins_keyId i" "ins_instrType (default_keys f i) = ins_instrType i"
  "ins_numberOfLegs (default_keys f i) = ins_numberOfLegs i" "inf_legs (default_keys f i) = inf_legs i"
  "inf_tc (default_keys f i) = inf_tc i" "instrument.truncate (default_keys f i) = instrument.truncate i"
  "leg_name (default_keys f i) n = leg_name i n" "leg_ratio (default_keys f i) n = leg_ratio i n" "ins_displayName (default_keys f i) = ins_displayName i"
  by (simp_all add: default_keys_def Let_def instrument.defs leg_name_def leg_ratio_def)

lemma default_keys_set:
  "(\<And>k. f k \<noteq> []) \<Longrightarrow> inf_keyStr1 (default_keys f i) \<noteq> [] \<and> inf_keyStr2 (default_keys f i) \<noteq> [] \<and>
     (inf_keyNum1 (default_keys f i) = 0 \<longrightarrow> ins_keyId i = 0) \<and> (inf_keyNum2 (default_keys f i) = 0 \<longrightarrow> ins_keyId i = 0)"
  by (simp add: default_keys_def Let_def)

lemma load_fees_frame: obtains x where "load_fees m i = i\<lparr>ins_fees := x\<rparr>"
proof (cases "load_fees m i = i")
  case True
  then show ?thesis using that [of "ins_fees i"] by simp
next
  case False
  then show ?thesis using that by (auto simp: load_fees_def split: if_splits option.splits)
qed

lemma load_validated:
  assumes e: "rows_plain e" and k: "keys_ok m" and l: "load e True row m = ImOk m'"
  shows "m' = m \<or> (\<exists>i. m' = load_finish i m \<and> inst_shape m i (im_next m))"
proof (cases "m' = m")
  case False
  obtain i1 where i1: "ime_parse e row = Some i1" "ins_isValid (instrument.truncate i1)" "inf_tc i1 = None" "inf_legs i1 = []"
    using l False e unfolding load_def rows_plain_def by (auto split: option.splits if_splits)
  define i2 where "i2 = load_legs m i1"
  have legs: "ins_instrType i2 = kSpread \<longrightarrow> (\<forall>l \<in> set (inf_legs i2). leg_isValid l)"
    using l False i1 unfolding load_def i2_def Let_def by (auto split: option.splits if_splits)
  have t2: "instrument.truncate i2 = instrument.truncate i1" "inf_tc i2 = None" "ins_instrType i2 = ins_instrType i1"
    using i1 by (simp_all add: i2_def load_legs_def instrument.defs)
  have "tc_resetWithNewInstrument (Some (instrument.truncate i1)) \<noteq> None"
    using i1(2) by (simp add: tc_resetWithNewInstrument_def)
  then obtain tc where tc: "tc_resetWithNewInstrument (Some (instrument.truncate i1)) = Some tc" by blast
  define i3 where "i3 = i2\<lparr>inf_tc := Some tc\<rparr>"
  have s3: "setTickConverter i2 = Some i3" using t2 tc by (simp add: setTickConverter_def i3_def)
  define i4 where "i4 = default_keys (ime_show_id e) (setPrecision (ime_digits e) i3)"
  obtain x where x: "load_fees m i4 = i4\<lparr>ins_fees := x\<rparr>" by (rule load_fees_frame)
  define i5 where "i5 = i4\<lparr>ins_fees := x\<rparr>"
  note i5 = i5_def x [folded i5_def]
  obtain i6 where i6: "load_settlement e True m i5 = ImOk i6" "m' = load_finish i6 m"
    using l False i1 legs s3 [unfolded i2_def] i5(2) unfolding load_def Let_def i2_def i4_def
    by (auto split: im_result.splits if_splits)
  have "inf_tc i5 = Some tc" by (simp add: i5 i4_def i3_def setPrecision_def)
  then obtain d h lo c p x1 x2 x3 x4 x5 where
    f6: "i6 = i5\<lparr>inf_settlDate := d, inf_high := h, inf_low := lo, inf_close := c, inf_settlPrice := p, inf_PP := x1,
      inf_S1 := x2, inf_R1 := x3, inf_S2 := x4, inf_R2 := x5\<rparr>"
    using i6(1) by (elim load_settlement_frame [rotated]) auto
  have tr: "instrument.truncate i6 = instrument.truncate i1\<lparr>ins_precision := ins_precision i6, ins_fees := ins_fees i6\<rparr>"
    by (simp add: f6 i5(1) i4_def i3_def i2_def load_legs_def setPrecision_def default_keys_def Let_def instrument.defs)
  have same: "inf_legs i6 = inf_legs i2" "ins_instrType i6 = ins_instrType i1" "ins_numberOfLegs i6 = ins_numberOfLegs i1"
    "leg_name i6 n = leg_name i1 n" "leg_ratio i6 n = leg_ratio i1 n" "ins_keyId i6 = ins_keyId i4" "inf_keyNum1 i6 = inf_keyNum1 i4" "inf_keyNum2 i6 = inf_keyNum2 i4"
    "inf_keyStr1 i6 = inf_keyStr1 i4" "inf_keyStr2 i6 = inf_keyStr2 i4" for n
    by (simp_all add: f6 i5 i4_def i3_def setPrecision_def i2_def load_legs_def leg_name_def leg_ratio_def default_keys_def Let_def)
  have lt: "\<forall>q \<in> set (im_table m). q < im_next m" using k by (simp add: keys_ok_def)
  have num: "ins_instrType i1 = kSpread \<Longrightarrow> 1 < unat (ins_numberOfLegs i1) \<and> unat (ins_numberOfLegs i1) < 5"
    using i1(2) by (auto simp: ins_isValid_def instrument.defs word_less_nat_alt)
  have tc6: "inf_tc i6 = Some tc" by (simp add: f6 i5 i4_def i3_def setPrecision_def)
  have keys: "inf_keyStr1 i4 \<noteq> [] \<and> inf_keyStr2 i4 \<noteq> [] \<and> (inf_keyNum1 i4 = 0 \<longrightarrow> ins_keyId i4 = 0) \<and>
      (inf_keyNum2 i4 = 0 \<longrightarrow> ins_keyId i4 = 0)"
    using default_keys_set [of "ime_show_id e" "setPrecision (ime_digits e) i3"] e by (simp add: i4_def rows_plain_def)
  have spread: "1 < length (inf_legs i6) \<and> length (inf_legs i6) < 5 \<and> length (inf_legs i6) = unat (ins_numberOfLegs i6) \<and>
      (\<forall>n < length (inf_legs i6). leg_ok m i6 (im_next m) n)" if sp: "ins_instrType i1 = kSpread"
  proof -
    have lg: "inf_legs i6 = map (load_leg m i1) [0..<unat (ins_numberOfLegs i1)]"
      using sp by (simp add: same i2_def load_legs_def)
    have "leg_ok m i6 (im_next m) n" if n: "n < unat (ins_numberOfLegs i1)" for n
    proof -
      have "leg_isValid (load_leg m i1 n)" using legs sp n t2(3) by (auto simp: same(1) [symmetric] lg)
      from leg_fields [OF this _ lt] show ?thesis
        using n num [OF sp] by (auto simp: leg_ok_def Let_def lg same(4,5))
    qed
    then show ?thesis using num [OF sp] by (simp add: lg same(3))
  qed
  have "inf_legs i6 = []" if "ins_instrType i1 \<noteq> kSpread" using that i1(4) by (simp add: same i2_def load_legs_def)
  then have "inst_shape m i6 (im_next m)"
    unfolding inst_shape_def using spread keys num by (simp add: tc6 tr i1(2) tc same)
  then show ?thesis using i6(2) by blast
qed simp

text \<open>Other addresses do not change, the table only grows behind them.\<close>

lemma inst_ok_finish:
  assumes k: "keys_ok m" and ok: "\<forall>p \<in> set (im_table m). inst_ok m p" and i: "inst_shape m i (im_next m)"
  shows "\<forall>p \<in> set (im_table (load_finish i m)). inst_ok (load_finish i m) p"
proof
  fix p assume p: "p \<in> set (im_table (load_finish i m))"
  have lt: "\<forall>q \<in> set (im_table m). q < im_next m" using k by (simp add: keys_ok_def)
  let ?m = "load_finish i m"
  have tab: "set (im_table m) \<subseteq> set (im_table ?m)" "set (im_table ?m) \<subseteq> insert (im_next m) (set (im_table m))"
    by (auto simp: load_finish_def Let_def table_insert_def)
  have heap: "im_heap ?m q = (if q = im_next m then i else im_heap m q)" for q by (simp add: load_finish_def Let_def)
  have mono: "inst_shape ?m j q" if "inst_shape m j q" for j q
  proof -
    have "leg_ok ?m j q n" if "leg_ok m j q n" for n
      using that tab(1) lt unfolding leg_ok_def Let_def heap by fastforce
    then show ?thesis using that unfolding inst_shape_def by (metis (no_types, lifting))
  qed
  show "inst_ok ?m p"
  proof (cases "p = im_next m")
    case True
    then show ?thesis using i by (simp add: inst_ok_def heap mono)
  next
    case False
    then have "p \<in> set (im_table m)" using p tab by auto
    then show ?thesis using ok False by (simp add: inst_ok_def heap mono)
  qed
qed

inductive im_loaded :: "('d::floor_ceiling) im_env \<Rightarrow> 'd inst_manager \<Rightarrow> bool" for e where
  start: "im_table m = [] \<Longrightarrow> im_loaded e m"
| loaded: "im_loaded e m \<Longrightarrow> loadInstruments e files dbs st True m = Some (m', b) \<Longrightarrow> im_loaded e m'"
| settled: "im_loaded e m \<Longrightarrow> im_loaded e (fst (getOrCreateSettlement x n d m))"
| cleared: "im_loaded e m \<Longrightarrow> im_loaded e (im_clear m)"

lemma inst_ok_frame [simp]:
  "inst_ok (m\<lparr>im_header := h\<rparr>) = inst_ok m" "inst_ok (m\<lparr>im_settings := s\<rparr>) = inst_ok m"
  "inst_ok (m\<lparr>im_feesCME := f\<rparr>) = inst_ok m" "inst_ok (m\<lparr>im_settlements := t\<rparr>) = inst_ok m"
  by (simp_all add: inst_ok_def inst_shape_def leg_ok_def fun_eq_iff)

lemma loaded_ok:
  assumes "rows_plain e"
  shows "im_loaded e m \<Longrightarrow> keys_ok m \<and> (\<forall>p \<in> set (im_table m). inst_ok m p)"
proof (induction rule: im_loaded.induct)
  case (loaded m files dbs st m' b)
  let ?P = "\<lambda>m. keys_ok m \<and> (\<forall>p \<in> set (im_table m). inst_ok m p)"
  from loaded.hyps(2) loaded.IH show ?case
  proof (rule loadInstruments_all [where P = ?P])
    show "im_all ?P (load e True row m)" if "?P m" for row m
      using load_cases [of e True row m] load_validated [OF assms, of m row] load_finish_keys [of m] inst_ok_finish [of m] that
      by auto
  qed (simp_all add: keys_ok_def)
qed (simp_all add: keys_ok_def getOrCreateSettlement_def im_clear_def Let_def split: option.split)

section \<open>Support and resistance of a settlement\<close>

lemma levels_come_back:
  assumes "tc_resetWithNewInstrument (Some j) = Some tc" and "d \<noteq> 0"
  shows "tc_fractionalTicks tc (tc_toFractionalExchangePrice tc x * d / d) = (x :: 'd::floor_ceiling)"
proof -
  have "ins_isValid j" using assms(1) by (simp add: tc_resetWithNewInstrument_def split: if_splits)
  then have "(u32_val (ins_tickNumerator j) :: 'd) \<noteq> 0" "(u32_val (ins_tickDenominator j) :: 'd) \<noteq> 0"
    using u32_val_pos by (auto simp: ins_isValid_def intro!: less_imp_neq [symmetric])
  then show ?thesis using assms by (auto simp: tc_resetWithNewInstrument_def split: if_splits)
qed

end
