(* ===== verification/InstrumentFacts.thy ===== *)
theory InstrumentFacts
  imports InstrumentManager
begin

section \<open>Lookups, types and levels\<close>

text \<open>
  C23: in every run of loads, insertions and clears each of the six indices finds exactly the
  instrument of the table that has the key, and no instrument outside the table.
\<close>

lemma lookups_exact:
  assumes "im_reach e m"
  shows "(getByKeyId m k = Some p \<longleftrightarrow> p \<in> set (im_table m) \<and> ins_keyId (im_heap m p) = k) \<and>
    (getByDisplayName m s = Some p \<longleftrightarrow> p \<in> set (im_table m) \<and> ins_displayName (im_heap m p) = s) \<and>
    (getByKeyNum1 m k = Some p \<longleftrightarrow> p \<in> set (im_table m) \<and> inf_keyNum1 (im_heap m p) = k) \<and>
    (getByKeyNum2 m k = Some p \<longleftrightarrow> p \<in> set (im_table m) \<and> inf_keyNum2 (im_heap m p) = k) \<and>
    (getByKeyStr1 m s = Some p \<longleftrightarrow> p \<in> set (im_table m) \<and> inf_keyStr1 (im_heap m p) = s) \<and>
    (getByKeyStr2 m s = Some p \<longleftrightarrow> p \<in> set (im_table m) \<and> inf_keyStr2 (im_heap m p) = s)"
proof -
  note k = keys_ok_reach [OF assms]
  show ?thesis
    by (simp only: by_keyId.look_iff [OF k] by_displayName.look_iff [OF k] by_keyNum1.look_iff [OF k]
        by_keyNum2.look_iff [OF k] by_keyStr1.look_iff [OF k] by_keyStr2.look_iff [OF k])
qed

text \<open>
  C8: in every run of validated loads each instrument of the table is well formed: its fields are
  in their ranges, it has the converter of its tick size and its exchange keys are set; a spread has
  two to four legs, each points back to the spread and to the instrument of that name, which
  is in the table and was loaded before the spread, so that legs never form a cycle.
\<close>

lemma loaded_instruments_typed:
  assumes "rows_plain e" and "im_loaded e m" and "p \<in> set (im_table m)"
  shows "inst_shape m (im_heap m p) p"
  using loaded_ok [OF assms(1,2)] assms(3) by (simp add: inst_ok_def)

text \<open>
  The support and resistance levels of an instrument, in ticks, are those of its high and low
  and of a third price: the close when verbose logging is on, else the settlement price, because
  the logging flag is passed where the choice of the price is expected.
\<close>

lemma levels_follow_logging_flag:
  assumes "inf_tc i = Some tc" and "inf_tc i = tc_resetWithNewInstrument (Some (instrument.truncate i))"
    and "setSuppRest lc i s verbose = ImOk i'"
    and "supp_rest (inf_high i') (inf_low i') (if verbose then of_int (inf_close i') else inf_settlPrice i') = Some levels"
  shows "levels = (inf_PP i', inf_S1 i', inf_R1 i', inf_S2 i', inf_R2 i')"
proof -
  have tc: "tc_resetWithNewInstrument (Some (instrument.truncate i)) = Some tc" using assms(1,2) by simp
  have d: "ins_displayFormat i \<noteq> 0" using assms(3) assms(1)
    by (auto simp: setSuppRest_def setTickConverter_def split: option.splits if_splits)
  show ?thesis
    using assms(1,3,4) d unfolding setSuppRest_def Let_def
    by (auto simp: setTickConverter_def calcSuppRest_def Let_def levels_come_back [OF tc one_neq_zero, simplified] split: option.splits if_splits prod.splits)
qed

section \<open>Saving and loading the instrument file\<close>

text \<open>
  A table of loaded instruments, written to a file and loaded into an empty manager, is written to
  the same file again. The one condition on the table: every leg has a smaller id than its
  spread, because the file is ordered by id and a spread is refused when one of its legs has
  not been loaded yet.
\<close>

subsection \<open>Lines\<close>

lemma complete_lines_row: "newline \<notin> set r \<Longrightarrow> complete_lines (r @ newline # s) cur = (cur @ r) # complete_lines s []"
  by (induction r arbitrary: cur) auto

lemma complete_lines_rows:
  assumes "\<forall>r \<in> set rs. newline \<notin> set r"
  shows "complete_lines (concat (map (\<lambda>r. r @ [newline]) rs)) [] = rs"
  using assms by (induction rs) (simp_all add: complete_lines_row)

lemma takeWhile_row: "newline \<notin> set r \<Longrightarrow> takeWhile (\<lambda>c. c \<noteq> newline) (r @ newline # s) = r"
  by (induction r) auto

subsection \<open>The written rows are ordered by id\<close>

lemma fold_put_sorted:
  "sm_ok (acc @ xs) \<Longrightarrow> fold (\<lambda>(k, v) t. sm_put t k v) xs acc = acc @ xs"
proof (induction xs arbitrary: acc)
  case (Cons x xs)
  have "sm_put acc (fst x) (snd x) = acc @ [x]" if "sm_ok (acc @ [x])" for x :: "'a \<times> 'b" and acc
    using that by (induction acc) (auto simp: sm_put_def sm_ok_def)
  moreover have "sm_ok (acc @ [x])" using Cons.prems by (auto simp: sm_ok_def sorted_wrt_append)
  ultimately show ?case using Cons.IH [of "acc @ [x]"] Cons.prems by (simp add: case_prod_beta)
qed simp

lemma fold_put_perm:
  assumes "distinct (map fst xs)"
  shows "sm_ok (fold (\<lambda>(k, v) t. sm_put t k v) xs []) \<and> set (fold (\<lambda>(k, v) t. sm_put t k v) xs []) = set xs"
  using assms
proof (induction xs rule: rev_induct)
  case (snoc x xs)
  let ?t = "fold (\<lambda>(k, v) t. sm_put t k v) xs []"
  have t: "sm_ok ?t" "set ?t = set xs" using snoc by auto
  have ok: "sm_ok (sm_put ?t (fst x) (snd x))" using t(1) by (rule sm_ok_put)
  have n: "sm_find ?t (fst x) = None" unfolding sm_find_None_iff t(2) using snoc.prems by auto
  have "(k, v) \<in> set (sm_put ?t (fst x) (snd x)) \<longleftrightarrow> (k, v) = x \<or> (k, v) \<in> set ?t" for k v
    unfolding sm_find_iff [OF ok, symmetric] sm_find_iff [OF t(1), symmetric] sm_find_put [OF t(1)]
    using n by (cases x) auto
  then have "set (sm_put ?t (fst x) (snd x)) = insert x (set ?t)" by auto
  then show ?case using ok t(2) by (cases x) simp
qed simp

text \<open>The instruments in the order of the file.\<close>

lemma sorted_rows_order:
  assumes k: "keys_ok m"
  obtains ps where "distinct ps" "set ps = set (im_table m)" "sorted_wrt (<) (map (\<lambda>p. ins_keyId (im_heap m p)) ps)"
    "sorted_rows f m = map (\<lambda>p. (ins_keyId (im_heap m p), f (im_heap m p))) ps"
proof -
  let ?g = "\<lambda>p. (ins_keyId (im_heap m p), f (im_heap m p))"
  have inj: "inj_on (\<lambda>p. ins_keyId (im_heap m p)) (set (im_table m))"
    by (rule inj_onI) (rule keys_okD [OF k], simp_all add: same_key_def)
  have sr: "sorted_rows f m = fold (\<lambda>(k, v) t. sm_put t k v) (map ?g (im_table m)) []"
    by (simp add: sorted_rows_def fold_map comp_def)
  have "distinct (im_table m)" using k unfolding keys_ok_def by (rule conjunct1)
  then have "distinct (map fst (map ?g (im_table m)))" using inj by (simp add: distinct_map comp_def)
  from fold_put_perm [OF this, folded sr]
  have s: "sm_ok (sorted_rows f m)" "set (sorted_rows f m) = ?g ` set (im_table m)" by (simp_all only: set_map)
  define Q where "Q = (\<lambda>x p. p \<in> set (im_table m) \<and> ?g p = x)"
  have "\<exists>p. Q x p" if "x \<in> set (sorted_rows f m)" for x
    using that unfolding s(2) Q_def by (elim imageE) auto
  then have "\<forall>x \<in> set (sorted_rows f m). \<exists>p. Q x p" by (intro ballI)
  from bchoice [OF this] obtain h where "\<forall>x \<in> set (sorted_rows f m). Q x (h x)" by (rule exE)
  then have h: "\<forall>x \<in> set (sorted_rows f m). h x \<in> set (im_table m) \<and> ?g (h x) = x" unfolding Q_def by blast
  define ps where "ps = map h (sorted_rows f m)"
  have map_g: "map ?g ps = sorted_rows f m" 
    unfolding ps_def map_map by (rule map_idI) (use h in simp)
  have ids: "map (\<lambda>p. ins_keyId (im_heap m p)) ps = map fst (sorted_rows f m)"
    by (simp only: map_g [symmetric] map_map comp_def fst_conv)
  have "distinct (map (\<lambda>p. ins_keyId (im_heap m p)) ps)" unfolding ids using sm_ok_distinct [OF s(1)] .
  then have d: "distinct ps" by (simp add: distinct_map)
  have sub: "set ps \<subseteq> set (im_table m)" unfolding ps_def using h by auto
  have "p \<in> set ps" if p: "p \<in> set (im_table m)" for p
  proof -
    have "?g ` set ps = ?g ` set (im_table m)" using s(2) by (simp only: map_g [symmetric] set_map)
    moreover have "?g p \<in> ?g ` set (im_table m)" using p by (rule imageI)
    ultimately have "?g p \<in> ?g ` set ps" by (simp only:)
    then obtain q where q: "q \<in> set ps" "ins_keyId (im_heap m q) = ins_keyId (im_heap m p)" by auto
    then have "q = p" using inj_onD [OF inj] sub p by blast
    then show ?thesis using q(1) by simp
  qed
  then have eq: "set ps = set (im_table m)" using sub by blast
  show ?thesis
  proof (rule that [OF d eq _ map_g [symmetric]])
    show "sorted_wrt (<) (map (\<lambda>p. ins_keyId (im_heap m p)) ps)" unfolding ids using s(1) by (simp only: sm_ok_def)
  qed
qed

subsection \<open>Rows that can be read back\<close>

text \<open>The part of an instrument that is written: every field up to the CFI code.\<close>

definition wire :: "('d::zero) instr_full \<Rightarrow> 'd instr_full" where
  "wire i = i\<lparr>ins_precision := 0, ins_fees := fees_clear, inf_high := 0, inf_low := 0, inf_close := 0, inf_settlPrice := 0,
     inf_settlDate := [], inf_PP := 0, inf_S1 := 0, inf_R1 := 0, inf_S2 := 0, inf_R2 := 0, inf_dirty := False,
     inf_legs := [], inf_tc := None\<rparr>"

text \<open>What the generated code promises for an instrument: its row is one line, parses to its written
  fields, and depends on nothing else.\<close>

definition row_ok :: "('d::zero) im_env \<Rightarrow> ('d instr_full \<Rightarrow> string) \<Rightarrow> 'd instr_full \<Rightarrow> bool" where
  "row_ok e show_row i \<longleftrightarrow>
     (\<exists>r j. show_row i = r @ [newline] \<and> newline \<notin> set r \<and> ime_parse e r = Some j \<and> wire j = wire i) \<and>
     (\<forall>j. wire j = wire i \<longrightarrow> show_row j = show_row i)"

lemma leg_wire: "leg_name (wire i) = leg_name i" "leg_ratio (wire i) = leg_ratio i"
  by (intro ext, auto simp: wire_def leg_name_def leg_ratio_def)+

lemma wire_eqD:
  assumes "wire i = wire j"
  shows "ins_keyId i = ins_keyId j" "ins_instrType i = ins_instrType j" "ins_displayName i = ins_displayName j"
    "ins_numberOfLegs i = ins_numberOfLegs j" "inf_keyNum1 i = inf_keyNum1 j" "inf_keyNum2 i = inf_keyNum2 j"
    "inf_keyStr1 i = inf_keyStr1 j" "inf_keyStr2 i = inf_keyStr2 j" "leg_name i = leg_name j" "leg_ratio i = leg_ratio j"
    "ins_isValid (instrument.truncate i) = ins_isValid (instrument.truncate j)"
proof -
  have f: "f (wire i) = f (wire j)" for f :: "'a instr_full \<Rightarrow> 'c" using assms by simp
  show "ins_keyId i = ins_keyId j" using f [of ins_keyId] by (simp add: wire_def)
  show "ins_instrType i = ins_instrType j" using f [of ins_instrType] by (simp add: wire_def)
  show "ins_displayName i = ins_displayName j" using f [of ins_displayName] by (simp add: wire_def)
  show "ins_numberOfLegs i = ins_numberOfLegs j" using f [of ins_numberOfLegs] by (simp add: wire_def)
  show "inf_keyNum1 i = inf_keyNum1 j" using f [of inf_keyNum1] by (simp add: wire_def)
  show "inf_keyNum2 i = inf_keyNum2 j" using f [of inf_keyNum2] by (simp add: wire_def)
  show "inf_keyStr1 i = inf_keyStr1 j" using f [of inf_keyStr1] by (simp add: wire_def)
  show "inf_keyStr2 i = inf_keyStr2 j" using f [of inf_keyStr2] by (simp add: wire_def)
  show "leg_name i = leg_name j" using f [of leg_name] by (simp add: leg_wire)
  show "leg_ratio i = leg_ratio j" using f [of leg_ratio] by (simp add: leg_wire)
  show "ins_isValid (instrument.truncate i) = ins_isValid (instrument.truncate j)"
    using f [of "\<lambda>i. ins_isValid (instrument.truncate i)"] by (simp add: wire_def instrument.defs ins_isValid_def)
qed

lemma wire_simps [simp]:
  "wire (i\<lparr>ins_precision := a\<rparr>) = wire i" "wire (i\<lparr>ins_fees := f\<rparr>) = wire i" "wire (i\<lparr>inf_tc := c\<rparr>) = wire i"
  "wire (i\<lparr>inf_legs := l\<rparr>) = wire i" "wire (i\<lparr>inf_settlDate := d\<rparr>) = wire i"
  by (simp_all add: wire_def)

lemma same_key_wire: "wire (i :: ('d::floor_ceiling) instr_full) = wire i' \<Longrightarrow> wire j = wire j' \<Longrightarrow> same_key i j = same_key i' j'"
  using wire_eqD [of i i'] wire_eqD [of j j'] by (simp add: same_key_def)

subsection \<open>Loading one row\<close>

text \<open>A row of a valid instrument whose legs can be found is loaded when no settlement is known.\<close>

lemma load_row:
  assumes parse: "ime_parse e r = Some j" "inf_tc j = None" and valid: "ins_isValid (instrument.truncate j)"
    and keys: "inf_keyStr1 j \<noteq> []" "inf_keyStr2 j \<noteq> []" "inf_keyNum1 j = 0 \<longrightarrow> ins_keyId j = 0" "inf_keyNum2 j = 0 \<longrightarrow> ins_keyId j = 0"
    and legs: "ins_instrType j = kSpread \<longrightarrow>
      (\<forall>n < unat (ins_numberOfLegs j). leg_ratio j n \<noteq> 0 \<and> getByDisplayName m (leg_name j n) \<noteq> None)"
    and settl: "im_settlements m = (\<lambda>_. None)"
  obtains i where "load e True r m = ImOk (load_finish i m)" "wire i = wire j"
proof -
  let ?j = "load_legs m j"
  have "leg_isValid (load_leg m j n)" if "ins_instrType j = kSpread" "n < unat (ins_numberOfLegs j)" for n
  proof -
    have "unat (ins_numberOfLegs j) < 5" using valid by (simp add: ins_isValid_def instrument.defs word_less_nat_alt)
    then have n: "n = 0 \<or> n = 1 \<or> n = 2 \<or> n = 3" using that(2) by auto
    then have "leg_ratio j n = lg_ratio (load_leg m j n) \<and> lg_instrument (load_leg m j n) = getByDisplayName m (leg_name j n)"
      by (auto simp: load_leg_def leg_ratio_def leg_name_def Let_def)
    moreover have "lg_index (load_leg m j n) > 0 \<and> lg_parent (load_leg m j n) \<noteq> None"
      using n by (auto simp: load_leg_def Let_def)
    ultimately show ?thesis using legs that by (auto simp: leg_isValid_def)
  qed
  then have lv: "\<not> (ins_instrType ?j = kSpread \<and> (\<exists>l \<in> set (inf_legs ?j). \<not> leg_isValid l))"
    by (auto simp: load_legs_def)
  obtain tc where "tc_resetWithNewInstrument (Some (instrument.truncate j)) = Some tc"
    using valid by (auto simp: tc_resetWithNewInstrument_def intro: that) metis
  moreover have "instrument.truncate ?j = instrument.truncate j" "inf_tc ?j = None"
    using parse(2) by (simp_all add: load_legs_def instrument.defs)
  ultimately have tc: "setTickConverter ?j = Some (?j\<lparr>inf_tc := Some tc\<rparr>)" by (simp add: setTickConverter_def)
  define i4 where "i4 = setPrecision (ime_digits e) (?j\<lparr>inf_tc := Some tc\<rparr>)"
  have w: "wire i4 = wire j" by (simp add: i4_def setPrecision_def load_legs_def)
  have "inf_keyNum1 i4 = inf_keyNum1 j" "inf_keyNum2 i4 = inf_keyNum2 j" "inf_keyStr1 i4 = inf_keyStr1 j"
    "inf_keyStr2 i4 = inf_keyStr2 j" "ins_keyId i4 = ins_keyId j"
    by (simp_all add: i4_def setPrecision_def load_legs_def)
  then have d: "default_keys (ime_show_id e) i4 = i4"
    using keys by (simp add: default_keys_def Let_def)
  obtain x where x: "load_fees m i4 = i4\<lparr>ins_fees := x\<rparr>" by (rule load_fees_frame)
  show ?thesis
  proof (rule that)
    show "load e True r m = ImOk (load_finish (i4\<lparr>ins_fees := x, inf_settlDate := ime_yesterday e\<rparr>) m)"
      using lv by (auto simp add: load_def parse(1) valid tc Let_def i4_def [symmetric] d x load_settlement_def settl)
    show "wire (i4\<lparr>ins_fees := x, inf_settlDate := ime_yesterday e\<rparr>) = wire j" using w by simp
  qed
qed

subsection \<open>Loading the rows of a table in its own order\<close>

text \<open>The table of \<open>m1\<close> holds the instruments \<open>ps\<close> of \<open>m\<close>, written fields for written fields.\<close>

definition copied :: "('d::floor_ceiling) inst_manager \<Rightarrow> nat list \<Rightarrow> 'd inst_manager \<Rightarrow> bool" where
  "copied m ps m1 \<longleftrightarrow> keys_ok m1 \<and> im_settlements m1 = (\<lambda>_. None) \<and> im_header m1 = im_header m \<and>
     map (\<lambda>q. wire (im_heap m1 q)) (im_table m1) = map (\<lambda>p. wire (im_heap m p)) ps"

lemma copied_member:
  assumes "copied m ps m1" and "p \<in> set ps"
  obtains q where "q \<in> set (im_table m1)" "wire (im_heap m1 q) = wire (im_heap m p)"
proof -
  have "set (map (\<lambda>q. wire (im_heap m1 q)) (im_table m1)) = set (map (\<lambda>p. wire (im_heap m p)) ps)"
    using assms(1) by (simp only: copied_def)
  then have "(\<lambda>q. wire (im_heap m1 q)) ` set (im_table m1) = (\<lambda>p. wire (im_heap m p)) ` set ps"
    by (simp only: set_map)
  moreover have "wire (im_heap m p) \<in> (\<lambda>p. wire (im_heap m p)) ` set ps" using assms(2) by (rule imageI)
  ultimately have "wire (im_heap m p) \<in> (\<lambda>q. wire (im_heap m1 q)) ` set (im_table m1)" by (simp only:)
  then show ?thesis using that by (elim imageE) simp
qed

lemma copied_back:
  assumes "copied m ps m1" and "q \<in> set (im_table m1)"
  obtains p where "p \<in> set ps" "wire (im_heap m1 q) = wire (im_heap m p)"
proof -
  have "set (map (\<lambda>q. wire (im_heap m1 q)) (im_table m1)) = set (map (\<lambda>p. wire (im_heap m p)) ps)"
    using assms(1) by (simp only: copied_def)
  then have "(\<lambda>q. wire (im_heap m1 q)) ` set (im_table m1) = (\<lambda>p. wire (im_heap m p)) ` set ps"
    by (simp only: set_map)
  moreover have "wire (im_heap m1 q) \<in> (\<lambda>q. wire (im_heap m1 q)) ` set (im_table m1)" using assms(2) by (rule imageI)
  ultimately have "wire (im_heap m1 q) \<in> (\<lambda>p. wire (im_heap m p)) ` set ps" by (simp only:)
  then show ?thesis using that by (elim imageE) simp
qed

definition legs_first :: "'d inst_manager \<Rightarrow> bool" where
  "legs_first m \<longleftrightarrow> (\<forall>p \<in> set (im_table m). \<forall>l \<in> set (inf_legs (im_heap m p)). \<forall>q.
     lg_instrument l = Some q \<longrightarrow> ins_keyId (im_heap m q) < ins_keyId (im_heap m p))"

lemma load_copied:
  assumes m: "keys_ok m" "\<forall>p \<in> set (im_table m). inst_ok m p" "legs_first m"
    and e: "rows_plain e" "row_ok e show_row (im_heap m p)"
    and ps: "distinct (ps @ [p])" "set (ps @ [p]) \<subseteq> set (im_table m)"
      "\<forall>q \<in> set (im_table m). ins_keyId (im_heap m q) < ins_keyId (im_heap m p) \<longrightarrow> q \<in> set ps"
    and c: "copied m ps m1"
  obtains m2 where "load e True (butlast (show_row (im_heap m p))) m1 = ImOk m2" "copied m (ps @ [p]) m2"
proof -
  let ?i = "im_heap m p"
  obtain r j where r: "show_row ?i = r @ [newline]" "ime_parse e r = Some j" "wire j = wire ?i"
    using e(2) unfolding row_ok_def by blast
  note w = wire_eqD [OF r(3)]
  have p: "p \<in> set (im_table m)" using ps(2) by simp
  then have sh: "inst_shape m ?i p" using m(2) by (simp add: inst_ok_def)
  have legs: "leg_ratio j n \<noteq> 0 \<and> getByDisplayName m1 (leg_name j n) \<noteq> None"
    if sp: "ins_instrType j = kSpread" and n: "n < unat (ins_numberOfLegs j)" for n
  proof -
    have n': "n < length (inf_legs ?i)" and lo: "leg_ok m ?i p n" using sh sp n by (auto simp: inst_shape_def w)
    obtain q where q: "lg_instrument (inf_legs ?i ! n) = Some q" "q \<in> set (im_table m)"
      "ins_displayName (im_heap m q) = leg_name ?i n" "leg_ratio ?i n \<noteq> 0"
      using lo by (auto simp: leg_ok_def Let_def)
    have "inf_legs ?i ! n \<in> set (inf_legs ?i)" using n' by (rule nth_mem)
    then have "ins_keyId (im_heap m q) < ins_keyId ?i" using m(3) [unfolded legs_first_def] p q(1) by blast
    then have "q \<in> set ps" using ps(3) q(2) by blast
    then obtain q1 where q1: "q1 \<in> set (im_table m1)" "wire (im_heap m1 q1) = wire (im_heap m q)"
      by (rule copied_member [OF c])
    have "getByDisplayName m1 (ins_displayName (im_heap m1 q1)) \<noteq> None"
      using q1(1) by (rule by_displayName.present_found)
    then show ?thesis using q w(9,10) wire_eqD(3) [OF q1(2)] by simp
  qed
  have tc: "inf_tc j = None" using e(1) r(2) by (auto simp: rows_plain_def)
  have st: "im_settlements m1 = (\<lambda>_. None)" using c by (simp add: copied_def)
  have sh': "ins_isValid (instrument.truncate j)" "inf_keyStr1 j \<noteq> []" "inf_keyStr2 j \<noteq> []"
    "inf_keyNum1 j = 0 \<longrightarrow> ins_keyId j = 0" "inf_keyNum2 j = 0 \<longrightarrow> ins_keyId j = 0"
    using sh by (simp_all add: inst_shape_def w)
  have "ins_instrType j = kSpread \<longrightarrow>
      (\<forall>n < unat (ins_numberOfLegs j). leg_ratio j n \<noteq> 0 \<and> getByDisplayName m1 (leg_name j n) \<noteq> None)"
    using legs by blast
  then obtain i where i: "load e True r m1 = ImOk (load_finish i m1)" "wire i = wire j"
    using load_row [OF r(2) tc sh' _ st] by blast
  have wi: "wire i = wire ?i" using i(2) r(3) by simp
  have lt: "\<forall>q \<in> set (im_table m1). q < im_next m1" using c by (simp add: copied_def keys_ok_def)
  have "\<not> same_key i (im_heap m1 q)" if q: "q \<in> set (im_table m1)" for q
  proof
    assume s: "same_key i (im_heap m1 q)"
    obtain q0 where q0: "q0 \<in> set ps" "wire (im_heap m1 q) = wire (im_heap m q0)" using copied_back [OF c q] .
    have "same_key ?i (im_heap m q0)" using s same_key_wire [OF wi q0(2)] by simp
    then have "p = q0" using keys_okD [OF m(1) p] q0(1) ps(2) by auto
    then show False using q0(1) ps(1) by simp
  qed
  then have "im_table (load_finish i m1) = im_table m1 @ [im_next m1]"
    using lt by (auto simp: load_finish_def Let_def table_insert_def)
  moreover have "im_heap (load_finish i m1) = (im_heap m1)(im_next m1 := i)"
    by (simp add: load_finish_def Let_def fun_eq_iff)
  moreover have "map (\<lambda>q. wire (((im_heap m1)(im_next m1 := i)) q)) (im_table m1) = map (\<lambda>q. wire (im_heap m1 q)) (im_table m1)"
    using lt by (intro map_cong) auto
  ultimately have "map (\<lambda>q. wire (im_heap (load_finish i m1) q)) (im_table (load_finish i m1)) =
      map (\<lambda>q. wire (im_heap m1 q)) (im_table m1) @ [wire i]" by (simp only: map_append list.map fun_upd_same)
  moreover have "keys_ok (load_finish i m1)" using c by (intro load_finish_keys) (simp add: copied_def)
  moreover have "im_settlements (load_finish i m1) = im_settlements m1" "im_header (load_finish i m1) = im_header m1"
    by (simp_all add: load_finish_def Let_def table_insert_def im_alloc_def)
  ultimately have "copied m (ps @ [p]) (load_finish i m1)"
    using c wi by (simp add: copied_def)
  then show ?thesis using that [of "load_finish i m1"] i(1) r(1) by simp
qed

lemma load_prefix:
  assumes m: "keys_ok m" "\<forall>p \<in> set (im_table m). inst_ok m p" "legs_first m" and e: "rows_plain e"
    and rows: "\<forall>p \<in> set (im_table m). row_ok e show_row (im_heap m p)"
    and all: "distinct (ps @ qs)" "set (ps @ qs) = set (im_table m)"
    and ord: "sorted_wrt (<) (map (\<lambda>p. ins_keyId (im_heap m p)) (ps @ qs))" and c: "copied m ps m1"
  shows "\<exists>m2. im_each (load e True) (map (\<lambda>p. butlast (show_row (im_heap m p))) qs) m1 = ImOk m2 \<and> copied m (ps @ qs) m2"
  using all ord c
proof (induction qs arbitrary: ps m1)
  case (Cons p qs)
  have p: "p \<in> set (im_table m)" using Cons.prems(2) by auto
  have d: "distinct (ps @ [p])" "set (ps @ [p]) \<subseteq> set (im_table m)" using Cons.prems(1,2) by auto
  have "q \<in> set ps" if q: "q \<in> set (im_table m)" "ins_keyId (im_heap m q) < ins_keyId (im_heap m p)" for q
  proof (rule ccontr)
    assume "q \<notin> set ps"
    then have "q \<in> set (p # qs)" using q(1) Cons.prems(2) by (metis Un_iff set_append)
    then have "ins_keyId (im_heap m p) \<le> ins_keyId (im_heap m q)"
      using Cons.prems(3) by (auto simp: sorted_wrt_append)
    then show False using q(2) by simp
  qed
  then have first: "\<forall>q \<in> set (im_table m). ins_keyId (im_heap m q) < ins_keyId (im_heap m p) \<longrightarrow> q \<in> set ps" by blast
  obtain m2 where m2: "load e True (butlast (show_row (im_heap m p))) m1 = ImOk m2" "copied m (ps @ [p]) m2"
    using load_copied [OF m e _ d first Cons.prems(4), of show_row] rows p by blast
  show ?case using Cons.IH [of "ps @ [p]" m2] Cons.prems m2 by simp
qed simp

subsection \<open>The round trip\<close>

lemma save_cong:
  fixes m m1 :: "('d::floor_ceiling) inst_manager"
  assumes "map (\<lambda>q. wire (im_heap m1 q)) (im_table m1) = map (\<lambda>p. wire (im_heap m p)) ps"
    and rows: "\<forall>p \<in> set ps. row_ok e show_row (im_heap m p)"
    and srt: "sorted_rows show_row m = map (\<lambda>p. (ins_keyId (im_heap m p), show_row (im_heap m p))) ps" and k: "keys_ok m"
    and ord: "sorted_wrt (<) (map (\<lambda>p. ins_keyId (im_heap m p)) ps)"
  shows "sorted_rows show_row m1 = sorted_rows show_row m"
proof -
  let ?g = "\<lambda>m p. (ins_keyId (im_heap m p), show_row (im_heap m p))"
  have len: "length (im_table m1) = length ps" using assms(1) by (metis length_map)
  have "map (?g m1) (im_table m1) = map (?g m) ps"
  proof (rule nth_equalityI)
    fix n assume n: "n < length (map (?g m1) (im_table m1))"
    then have w: "wire (im_heap m1 (im_table m1 ! n)) = wire (im_heap m (ps ! n))"
      using arg_cong [OF assms(1), of "\<lambda>xs. xs ! n"] len by simp
    have "row_ok e show_row (im_heap m (ps ! n))" using rows n len by simp
    then have "show_row (im_heap m1 (im_table m1 ! n)) = show_row (im_heap m (ps ! n))" using w unfolding row_ok_def by blast
    then show "map (?g m1) (im_table m1) ! n = map (?g m) ps ! n" using n len wire_eqD(1) [OF w] by simp
  qed (simp add: len)
  moreover have "sorted_rows show_row m1 = fold (\<lambda>(k, v) t. sm_put t k v) (map (?g m1) (im_table m1)) []"
    by (simp add: sorted_rows_def fold_map comp_def)
  moreover have "fold (\<lambda>(k, v) t. sm_put t k v) (map (?g m) ps) [] = map (?g m) ps"
    using fold_put_sorted [of "[]" "map (?g m) ps"] ord by (simp add: sm_ok_def comp_def)
  ultimately show ?thesis using srt by simp
qed

text \<open>
  C29: a table of loaded instruments that is saved to a file and loaded from it into an empty manager
  is saved as the same file again, under these conditions. Every leg of a spread has a smaller id than
  the spread (\<open>legs_first\<close>): the file is sorted by id and a spread whose legs have not been read
  is refused, so that without it the spread is lost. The manager that loads has no settlements, which would
  change prices. The code that is generated for the rows, which is not in the repository, writes an
  instrument as one line that parses to its written fields and depends on nothing else
  (\<open>row_ok\<close>), and parses a line to a plain instrument (\<open>rows_plain\<close>); the header is one
  line. The load validates, as the strategy container and the simulator have it; the loader and audit
  tools load without.
\<close>

lemma file_round_trip:
  assumes "rows_plain e" and "im_loaded e m" and "legs_first m" and "newline \<notin> set (im_header m)"
    and rows: "\<forall>p \<in> set (im_table m). row_ok e show_row (im_heap m p)"
    and m0: "im_table m0 = []" "im_settlements m0 = (\<lambda>_. None)"
  shows "\<exists>m1. loadFromFile e True (Some (saveToFile show_row m)) m0 = ImOk m1 \<and> saveToFile show_row m1 = saveToFile show_row m"
proof -
  have k: "keys_ok m" "\<forall>p \<in> set (im_table m). inst_ok m p" using loaded_ok [OF assms(1,2)] by auto
  obtain ps where ps: "distinct ps" "set ps = set (im_table m)" "sorted_wrt (<) (map (\<lambda>p. ins_keyId (im_heap m p)) ps)"
    "sorted_rows show_row m = map (\<lambda>p. (ins_keyId (im_heap m p), show_row (im_heap m p))) ps"
    by (rule sorted_rows_order [OF k(1)])
  have rows': "\<forall>p \<in> set ps. row_ok e show_row (im_heap m p)" using rows ps(2) by simp
  let ?r = "\<lambda>p. butlast (show_row (im_heap m p))"
  have line: "show_row (im_heap m p) = ?r p @ [newline] \<and> newline \<notin> set (?r p)" if "p \<in> set ps" for p
  proof -
    have "row_ok e show_row (im_heap m p)" using rows' that by blast
    then obtain r where "show_row (im_heap m p) = r @ [newline]" "newline \<notin> set r" unfolding row_ok_def by blast
    then show ?thesis by simp
  qed
  have cat: "concat (map snd (sorted_rows show_row m)) = concat (map (\<lambda>r. r @ [newline]) (map ?r ps))"
    unfolding ps(4) map_map comp_def snd_conv using line by (intro arg_cong [where f = concat] map_cong refl) blast
  have "complete_lines (saveToFile show_row m) [] = im_header m # map ?r ps"
    using complete_lines_rows [of "map ?r ps"] line assms(4)
    by (simp add: saveToFile_def cat complete_lines_row)
  moreover have "takeWhile (\<lambda>c. c \<noteq> newline) (saveToFile show_row m) = im_header m"
    using assms(4) by (simp add: saveToFile_def takeWhile_row)
  moreover define m0' where "m0' = m0\<lparr>im_header := im_header m\<rparr>"
  ultimately have load: "loadFromFile e True (Some (saveToFile show_row m)) m0 = im_each (load e True) (map ?r ps) m0'"
    by (simp add: loadFromFile_def)
  have "copied m [] m0'" using m0 by (simp add: copied_def keys_ok_def m0'_def)
  then obtain m1 where m1: "im_each (load e True) (map ?r ps) m0' = ImOk m1" "copied m ps m1"
    using load_prefix [OF k assms(3,1) rows, of "[]" ps m0'] ps by auto
  have "sorted_rows show_row m1 = sorted_rows show_row m"
    using save_cong [OF _ rows' ps(4) k(1) ps(3), of m1] m1(2) by (simp add: copied_def)
  then have "saveToFile show_row m1 = saveToFile show_row m" using m1(2) by (simp add: saveToFile_def copied_def)
  then show ?thesis using m1(1) load by simp
qed

section \<open>A run\<close>

text \<open>A future and a calendar spread of it, loaded from a file under the name of their rows.\<close>

definition wit_future :: "rat instr_full" where
  "wit_future = \<lparr>ins_keyId = 1, ins_instrType = kFuture, ins_contractSize = 50, ins_tickNumerator = 1, ins_tickDenominator = 4,
     ins_symbol = ''ES'', ins_displayName = ''F'', ins_exchange = kCME, ins_displayFormat = 1, ins_tickValue = 12,
     ins_numberOfLegs = 0, ins_precision = 0, ins_fees = fees_clear,
     inf_keyNum1 = 11, inf_keyNum2 = 11, inf_keyStr1 = ''f'', inf_keyStr2 = ''f'',
     inf_displayNameLeg1 = [], inf_ratioLeg1 = 0, inf_displayNameLeg2 = [], inf_ratioLeg2 = 0,
     inf_displayNameLeg3 = [], inf_ratioLeg3 = 0, inf_displayNameLeg4 = [], inf_ratioLeg4 = 0,
     inf_high = 0, inf_low = 0, inf_close = 0, inf_settlPrice = 0, inf_settlDate = [], inf_PP = 0, inf_S1 = 0, inf_R1 = 0,
     inf_S2 = 0, inf_R2 = 0, inf_dirty = False, inf_legs = [], inf_tc = None\<rparr>"

definition wit_spread :: "rat instr_full" where
  "wit_spread = wit_future\<lparr>ins_keyId := 2, ins_instrType := kSpread, ins_displayName := ''S'', ins_numberOfLegs := 2,
     inf_keyNum1 := 12, inf_keyNum2 := 12, inf_keyStr1 := ''s'', inf_keyStr2 := ''s'',
     inf_displayNameLeg1 := ''F'', inf_ratioLeg1 := 1, inf_displayNameLeg2 := ''F'', inf_ratioLeg2 := - 1\<rparr>"

definition wit_im_env :: "rat im_env" where
  "wit_im_env = \<lparr>ime_parse = (\<lambda>row. if row = ''F'' then Some wit_future else if row = ''S'' then Some wit_spread else None),
     ime_lexical_cast = (\<lambda>_. None), ime_digits = (\<lambda>_ _. ''2500000''), ime_show_id = (\<lambda>_. ''id''),
     ime_yesterday = ''2013-01-02'', ime_verbose = False\<rparr>"

definition wit_im_empty :: "rat inst_manager" where
  "wit_im_empty = \<lparr>im_header = [], im_settings = ims_clear, im_heap = (\<lambda>_. wit_future), im_next = 0, im_table = [],
     im_feesCME = (\<lambda>_. None), im_settlements = (\<lambda>_. None), im_quoted = []\<rparr>"

definition wit_im_file :: string where
  "wit_im_file = ''ids'' @ newline # ''F'' @ newline # ''S'' @ newline # ''X''"

definition wit_loaded :: "rat instr_full \<Rightarrow> spread_leg list \<Rightarrow> rat instr_full" where
  "wit_loaded i legs = i\<lparr>ins_precision := 2, inf_settlDate := ''2013-01-02'', inf_legs := legs, inf_tc := Some (ConverterDenom 4)\<rparr>"

definition wit_legs :: "spread_leg list" where
  "wit_legs = [\<lparr>lg_index = 1, lg_ratio = 1, lg_parent = Some 1, lg_instrument = Some 0\<rparr>,
     \<lparr>lg_index = 2, lg_ratio = - 1, lg_parent = Some 1, lg_instrument = Some 0\<rparr>]"

definition wit_im1 :: "rat inst_manager" where
  "wit_im1 = wit_im_empty\<lparr>im_header := ''ids'', im_next := 1, im_table := [0],
     im_heap := (\<lambda>_. wit_future)(0 := wit_loaded wit_future [])\<rparr>"

definition wit_im :: "rat inst_manager" where
  "wit_im = wit_im1\<lparr>im_next := 2, im_table := [0, 1],
     im_heap := (\<lambda>_. wit_future)(0 := wit_loaded wit_future [], 1 := wit_loaded wit_spread wit_legs)\<rparr>"

lemma wit_rows_plain: "rows_plain wit_im_env"
  by (simp add: rows_plain_def wit_im_env_def wit_future_def wit_spread_def)

lemmas load_ops = load_def setTickConverter_def load_fees_def load_settlement_def load_finish_def table_insert_def im_alloc_def
  setPrecision_def getPrecision_def default_keys_def tc_resetWithNewInstrument_def load_legs_def Let_def

lemma wit_load_future: "load wit_im_env True ''F'' (wit_im_empty\<lparr>im_header := ''ids''\<rparr>) = ImOk wit_im1"
  by (simp add: load_ops wit_im_env_def wit_future_def instrument.defs ins_isValid_def wit_im_empty_def wit_im1_def wit_loaded_def
      ims_clear_def fun_eq_iff)

lemma wit_load_spread: "load wit_im_env True ''S'' wit_im1 = ImOk wit_im"
  by (simp add: load_ops wit_im_env_def wit_future_def wit_spread_def instrument.defs ins_isValid_def wit_im_empty_def wit_im1_def
      wit_im_def wit_loaded_def wit_legs_def load_leg_def getByDisplayName_def getInstrument_def leg_isValid_def same_key_def
      ims_clear_def fun_eq_iff upt_rec)

lemma wit_im_loads: "loadFromFile wit_im_env True (Some wit_im_file) wit_im_empty = ImOk wit_im"
  by (simp add: loadFromFile_def wit_im_file_def newline_def wit_load_future [unfolded newline_def] wit_load_spread)

definition wit_im_settings :: im_settings where
  "wit_im_settings = ims_clear\<lparr>ims_dataSourceType := ''file'', ims_dataSource := ''instr.csv''\<rparr>"

definition wit_im_run :: "rat inst_manager" where
  "wit_im_run = wit_im\<lparr>im_settings := wit_im_settings\<rparr>"

lemma wit_im_run_loads:
  "loadInstruments wit_im_env (\<lambda>_. Some wit_im_file) dbs wit_im_settings True wit_im_empty = Some (wit_im_run, True)"
  by (simp add: loadInstruments_def wit_im_settings_def wit_im_loads wit_im_run_def)

lemma wit_im_empty_table: "im_table wit_im_empty = []"
  by (simp add: wit_im_empty_def)

lemma wit_im_loaded: "im_loaded wit_im_env wit_im_run"
  by (rule im_loaded.loaded [OF im_loaded.start [OF wit_im_empty_table] wit_im_run_loads])

lemma wit_im_reach: "im_reach wit_im_env wit_im_run"
  by (rule im_reach.loaded [OF im_reach.start [OF wit_im_empty_table] wit_im_run_loads])

lemma wit_im_run_fields:
  "im_table wit_im_run = [0, 1]" "im_heap wit_im_run 0 = wit_loaded wit_future []" "im_heap wit_im_run 1 = wit_loaded wit_spread wit_legs"
  by (simp_all add: wit_im_run_def wit_im_def)

lemma lookups_exact_witness:
  "getByKeyId wit_im_run 2 = Some 1 \<and> getByDisplayName wit_im_run ''F'' = Some 0 \<and> getByKeyNum1 wit_im_run 12 = Some 1 \<and>
   getByKeyStr2 wit_im_run ''x'' \<noteq> Some 0"
  using lookups_exact [OF wit_im_reach, of 2 1 "''F''"] lookups_exact [OF wit_im_reach, of 12 0 "''F''"]
    lookups_exact [OF wit_im_reach, of 12 1 "''F''"] lookups_exact [OF wit_im_reach, of 12 0 "''x''"]
  by (simp add: wit_im_run_fields [unfolded One_nat_def] wit_loaded_def wit_future_def wit_spread_def)

lemma loaded_instruments_typed_witness:
  "ins_instrType (im_heap wit_im_run 1) = kSpread \<and> inst_shape wit_im_run (im_heap wit_im_run 1) 1"
  using loaded_instruments_typed [OF wit_rows_plain wit_im_loaded, of 1]
  by (simp add: wit_im_run_fields [unfolded One_nat_def] wit_loaded_def wit_spread_def)

definition wit_settlement :: "rat settlement" where
  "wit_settlement = \<lparr>st_displayName = ''F'', st_exchange = kCME, st_high = ''h'', st_low = ''l'', st_close = ''c'', st_settlPrice = ''s'',
     st_settlDate = ''2013-01-02'', st_PP = 0, st_S1 = 0, st_R1 = 0, st_S2 = 0, st_R2 = 0\<rparr>"

definition wit_lexical :: "string \<Rightarrow> rat option" where
  "wit_lexical t = (if t = ''h'' then Some 12 else if t = ''l'' then Some 9 else if t = ''c'' then Some 11 else Some 10)"

lemma wit_set:
  "\<exists>i'. setSuppRest wit_lexical (wit_loaded wit_future []) wit_settlement v = ImOk i' \<and> inf_high i' = 48 \<and> inf_low i' = 36 \<and>
     inf_close i' = 44 \<and> inf_settlPrice i' = 40"
  by (cases v) (simp_all add: setSuppRest_def setTickConverter_def wit_loaded_def wit_future_def wit_settlement_def wit_lexical_def
    calcSuppRest_def supp_rest_def calcPP_def calcS1R1_def calcS2R2_def tw_isValid_def tw_INVALID_VALUE_def cast_int_def
    g_epsilon_def u32_val_def Let_def floor_eq_iff)

lemma levels_follow_logging_flag_witness:
  "(\<exists>i'. setSuppRest wit_lexical (wit_loaded wit_future []) wit_settlement True = ImOk i' \<and> inf_PP i' = 128 / 3) \<and>
   (\<exists>i'. setSuppRest wit_lexical (wit_loaded wit_future []) wit_settlement False = ImOk i' \<and> inf_PP i' = 124 / 3)"
proof -
  have tc: "inf_tc (wit_loaded wit_future []) = Some (ConverterDenom 4)"
    "inf_tc (wit_loaded wit_future []) = tc_resetWithNewInstrument (Some (instrument.truncate (wit_loaded wit_future [])))"
    by (simp_all add: wit_loaded_def wit_future_def instrument.defs tc_resetWithNewInstrument_def ins_isValid_def)
  have lv: "supp_rest 48 36 (44::rat) = Some (128/3, 112/3, 148/3, 92/3, 164/3)" "supp_rest 48 36 (40::rat) = Some (124/3, 104/3, 140/3, 88/3, 160/3)"
    by (simp_all add: supp_rest_def calcPP_def calcS1R1_def calcS2R2_def tw_isValid_def tw_INVALID_VALUE_def INT32_MIN_def)
  obtain a where a: "setSuppRest wit_lexical (wit_loaded wit_future []) wit_settlement True = ImOk a" "inf_high a = 48"
    "inf_low a = 36" "inf_close a = 44" using wit_set by blast
  obtain b where b: "setSuppRest wit_lexical (wit_loaded wit_future []) wit_settlement False = ImOk b" "inf_high b = 48"
    "inf_low b = 36" "inf_settlPrice b = 40" using wit_set by blast
  show ?thesis
    using levels_follow_logging_flag [OF tc a(1), of "(128/3, 112/3, 148/3, 92/3, 164/3)"]
      levels_follow_logging_flag [OF tc b(1), of "(124/3, 104/3, 140/3, 88/3, 160/3)"] a b lv by simp
qed

definition wit_show_row :: "rat instr_full \<Rightarrow> string" where
  "wit_show_row i = ins_displayName i @ [newline]"

lemma wit_row_ok: "row_ok wit_im_env wit_show_row (wit_loaded wit_future [])" "row_ok wit_im_env wit_show_row (wit_loaded wit_spread wit_legs)"
proof -
  have "\<forall>j. wire j = wire i \<longrightarrow> wit_show_row j = wit_show_row i" for i using wire_eqD(3) by (auto simp: wit_show_row_def)
  moreover have "wit_show_row (wit_loaded wit_future []) = ''F'' @ [newline]" "wit_show_row (wit_loaded wit_spread wit_legs) = ''S'' @ [newline]"
    by (simp_all add: wit_show_row_def wit_loaded_def wit_future_def wit_spread_def)
  moreover have "wire wit_future = wire (wit_loaded wit_future [])" "wire wit_spread = wire (wit_loaded wit_spread wit_legs)"
    by (simp_all add: wit_loaded_def)
  moreover have "ime_parse wit_im_env ''F'' = Some wit_future" "ime_parse wit_im_env ''S'' = Some wit_spread"
    "newline \<notin> set ''F''" "newline \<notin> set ''S''"
    by (simp_all add: wit_im_env_def newline_def)
  ultimately show "row_ok wit_im_env wit_show_row (wit_loaded wit_future [])" "row_ok wit_im_env wit_show_row (wit_loaded wit_spread wit_legs)"
    unfolding row_ok_def by blast+
qed

lemma file_round_trip_witness:
  "\<exists>m1. loadFromFile wit_im_env True (Some (saveToFile wit_show_row wit_im_run)) wit_im_empty = ImOk m1 \<and>
     saveToFile wit_show_row m1 = saveToFile wit_show_row wit_im_run"
proof (rule file_round_trip [OF wit_rows_plain wit_im_loaded])
  show "legs_first wit_im_run"
    by (simp add: legs_first_def wit_im_run_fields [unfolded One_nat_def] wit_loaded_def wit_legs_def wit_future_def wit_spread_def)
  show "newline \<notin> set (im_header wit_im_run)" by (simp add: wit_im_run_def wit_im_def wit_im1_def newline_def)
  show "\<forall>p \<in> set (im_table wit_im_run). row_ok wit_im_env wit_show_row (im_heap wit_im_run p)"
    using wit_row_ok by (simp add: wit_im_run_fields [unfolded One_nat_def])
qed (simp_all add: wit_im_empty_def)

end
