(* ===== verification/QuoteStore.thy ===== *)
theory QuoteStore
  imports InstrumentFacts Quote
begin

section \<open>Subscribers and the quote store\<close>

text \<open>
  \<open>price/client_container.h\<close> and \<open>price/quote_store.h\<close>: containers of callbacks, a quote with its
  subscribers, and the store that creates one quote per instrument and indexes it under the two
  numeric keys of the exchange. A callback is known by the client it was made for; a null client is
  \<open>None\<close>. The hash maps are ordered maps here, as no result depends on the order of a hash map;
  a pointer to a quote inside the map is its key, the null quote is \<open>None\<close>. Callbacks are taken
  not to change the container they are called from. Of the notification statistics the samples
  are kept, their quantiles are a library's.
\<close>

subsection \<open>Containers of clients\<close>

definition cs_add :: "'c option \<Rightarrow> 'c option \<Rightarrow> 'c option \<times> bool" where
  "cs_add client cur =
     (case client of None \<Rightarrow> (cur, False) | Some c \<Rightarrow> if cur = Some c then (cur, False) else (Some c, True))"

definition cs_addFront :: "'c option \<Rightarrow> 'c option \<Rightarrow> 'c option \<times> bool" where
  "cs_addFront client cur = cs_add client cur"

definition cs_rem :: "'c option \<Rightarrow> 'c option \<Rightarrow> 'c option \<times> bool" where
  "cs_rem client cur =
     (case client of
        None \<Rightarrow> (cur, False)
      | Some c \<Rightarrow> if cur = None then (cur, False) else if cur \<noteq> Some c then (cur, False) else (None, True))"

definition cs_onQuote :: "'c option \<Rightarrow> 'c list" where
  "cs_onQuote cur = (case cur of None \<Rightarrow> [] | Some c \<Rightarrow> [c])"

fun findClient :: "'c list \<Rightarrow> 'c \<Rightarrow> nat" where
  "findClient [] c = 0"
| "findClient (x # xs) c = (if c = x then 0 else Suc (findClient xs c))"

definition cm_add :: "'c option \<Rightarrow> 'c list \<Rightarrow> 'c list \<times> bool" where
  "cm_add client cs =
     (case client of
        None \<Rightarrow> (cs, False)
      | Some c \<Rightarrow> if findClient cs c \<noteq> length cs then (cs, False) else (cs @ [c], True))"

definition cm_addFront :: "'c option \<Rightarrow> 'c list \<Rightarrow> 'c list \<times> bool" where
  "cm_addFront client cs =
     (case client of
        None \<Rightarrow> (cs, False)
      | Some c \<Rightarrow> if findClient cs c \<noteq> length cs then (cs, False) else (c # cs, True))"

definition cm_rem :: "'c option \<Rightarrow> 'c list \<Rightarrow> 'c list \<times> bool" where
  "cm_rem client cs =
     (case client of
        None \<Rightarrow> (cs, False)
      | Some c \<Rightarrow>
          if cs = [] then (cs, False)
          else let i = findClient cs c in
               if i = length cs then (cs, False) else (take i cs @ drop (Suc i) cs, True))"

definition cm_onQuote :: "'c list \<Rightarrow> 'c list" where
  "cm_onQuote cs = cs"

subsection \<open>A quote with subscribers\<close>

record ('d, 'c) quote_subs =
  qs_quote :: "'d quote"
  qs_subscribers :: "'c list"
  qs_interval :: u32
  qs_samples :: "(int \<times> int \<times> int) list"
  qs_convert :: converter

definition qs_new :: "int \<Rightarrow> 'd quote \<Rightarrow> ('d, 'c) quote_subs" where
  "qs_new now q = \<lparr>qs_quote = q_clear now q, qs_subscribers = [], qs_interval = 0, qs_samples = [], qs_convert = ConverterNull\<rparr>"

definition setInstrument :: "('d::{zero,ord}) instr_full \<Rightarrow> ('d, 'c) quote_subs \<Rightarrow> ('d, 'c) quote_subs" where
  "setInstrument i s =
     (let s = s\<lparr>qs_quote := (qs_quote s)\<lparr>q_instrument := Some (instrument.truncate i), q_instrumentId := ins_keyId i\<rparr>\<rparr>
      in if q_isValid (qs_quote s)
         then (case inf_tc i of None \<Rightarrow> s | Some tc \<Rightarrow> s\<lparr>qs_convert := tc\<rparr>) else s)"

definition setStatsInterval :: "u32 \<Rightarrow> ('d, 'c) quote_subs \<Rightarrow> ('d, 'c) quote_subs" where
  "setStatsInterval n s = s\<lparr>qs_interval := n\<rparr>"

text \<open>
  The statistics of a notification; the flag tells whether they are printed, behind which the
  samples and the gaps start anew.
\<close>

definition notify_stats :: "('d, 'c) quote_subs \<Rightarrow> ('d, 'c) quote_subs \<times> bool" where
  "notify_stats s =
     (let q = qs_quote s in
      if qs_interval s = 0 then (s, False)
      else if kSuccess \<noteq> q_status q \<or> \<not> (isBookUpdate q \<or> isTrade q) then (s, False)
      else
        let samples = qs_samples s @ [(q_timestamp2 q - q_timestamp1 q, q_timestamp3 q - q_timestamp2 q, q_timestamp4 q - q_timestamp3 q)] in
        if (of_nat (length samples) :: u64) mod ucast (qs_interval s) = 0
        then (s\<lparr>qs_samples := [], qs_quote := q\<lparr>q_intGaps := 0\<rparr>\<rparr>, True)
        else (s\<lparr>qs_samples := samples\<rparr>, False))"

text \<open>The clients called, in order, with the quote they see.\<close>

definition notifySubscribers ::
    "int \<Rightarrow> int \<Rightarrow> ('d, 'c) quote_subs \<Rightarrow> ('d, 'c) quote_subs \<times> ('c \<times> 'd quote) list \<times> bool" where
  "notifySubscribers t3 t4 s =
     (let q = (q_updateStats (qs_quote s))\<lparr>q_timestamp3 := t3\<rparr>;
          calls = map (\<lambda>c. (c, q)) (cm_onQuote (qs_subscribers s));
          (s, printed) = notify_stats (s\<lparr>qs_quote := q\<lparr>q_timestamp4 := t4\<rparr>\<rparr>)
      in (s, calls, printed))"

definition isSubscribed :: "('d, 'c) quote_subs \<Rightarrow> bool" where
  "isSubscribed s \<longleftrightarrow> qs_subscribers s \<noteq> []"

subsection \<open>The store\<close>

record ('d, 'c) quote_store =
  st_quotes :: "(u32, ('d, 'c) quote_subs) stdmap"
  st_index1 :: "u32 \<Rightarrow> u32 option"
  st_index2 :: "u32 \<Rightarrow> u32 option"
  st_interval :: u32

definition st_clear :: "('d, 'c) quote_store \<Rightarrow> ('d, 'c) quote_store" where
  "st_clear s = s\<lparr>st_quotes := [], st_index1 := (\<lambda>_. None), st_index2 := (\<lambda>_. None)\<rparr>"

text \<open>\<open>fresh\<close> is the quote a constructor fills in before it is cleared; the result is a pointer.\<close>

definition getQuote ::
    "int \<Rightarrow> 'd quote \<Rightarrow> ('d::{zero,ord}) instr_full option \<Rightarrow> ('d, 'c) quote_store \<Rightarrow> ('d, 'c) quote_store \<times> u32 option" where
  "getQuote now fresh i s =
     (case i of
        None \<Rightarrow> (s, None)
      | Some i \<Rightarrow>
          (case sm_find (st_quotes s) (ins_keyId i) of
             Some _ \<Rightarrow> (s, Some (ins_keyId i))
           | None \<Rightarrow>
               let q = setStatsInterval (st_interval s) (setInstrument i (qs_new now fresh))
               in (s\<lparr>st_quotes := sm_insert (st_quotes s) (ins_keyId i) q,
                     st_index1 := (st_index1 s)(inf_keyNum1 i \<mapsto> ins_keyId i),
                     st_index2 := (st_index2 s)(inf_keyNum2 i \<mapsto> ins_keyId i)\<rparr>, Some (ins_keyId i))))"

definition im_instrument :: "'d inst_manager \<Rightarrow> nat option \<Rightarrow> 'd instr_full option" where
  "im_instrument m p = map_option (im_heap m) p"

definition getQuoteByKeyId ::
    "int \<Rightarrow> 'd quote \<Rightarrow> ('d::{zero,ord}) inst_manager \<Rightarrow> u32 \<Rightarrow> ('d, 'c) quote_store \<Rightarrow> ('d, 'c) quote_store \<times> u32 option" where
  "getQuoteByKeyId now fresh m key s = getQuote now fresh (im_instrument m (getByKeyId m key)) s"

definition getQuoteByDisplayName ::
    "int \<Rightarrow> 'd quote \<Rightarrow> ('d::{zero,ord}) inst_manager \<Rightarrow> string \<Rightarrow> ('d, 'c) quote_store \<Rightarrow> ('d, 'c) quote_store \<times> u32 option" where
  "getQuoteByDisplayName now fresh m key s = getQuote now fresh (im_instrument m (getByDisplayName m key)) s"

definition getQuoteByKeyNum1 :: "('d, 'c) quote_store \<Rightarrow> u32 \<Rightarrow> u32 option" where
  "getQuoteByKeyNum1 s key = st_index1 s key"

text \<open>The end of the other index is compared with: an absent key dereferences the end, \<open>None\<close>.\<close>

definition getQuoteByKeyNum2 :: "('d, 'c) quote_store \<Rightarrow> u32 \<Rightarrow> u32 option option" where
  "getQuoteByKeyNum2 s key = (case st_index2 s key of Some k \<Rightarrow> Some (Some k) | None \<Rightarrow> None)"

text \<open>
  \<open>copy\<close>: the quotes of the other store, and index entries for those whose instrument the manager
  knows; entries from before stay.
\<close>

definition st_copy :: "('d::{zero,ord}) inst_manager \<Rightarrow> ('d, 'c) quote_store \<Rightarrow> ('d, 'c) quote_store \<Rightarrow> ('d, 'c) quote_store" where
  "st_copy m rhs s =
     fold (\<lambda>(k, q) s.
        (case im_instrument m (getByKeyId m (q_instrumentId (qs_quote q))) of
           None \<Rightarrow> s
         | Some i \<Rightarrow> s\<lparr>st_index1 := (st_index1 s)(inf_keyNum1 i \<mapsto> k), st_index2 := (st_index2 s)(inf_keyNum2 i \<mapsto> k)\<rparr>))
       (st_quotes rhs) (s\<lparr>st_quotes := st_quotes rhs\<rparr>)"

text \<open>The three requests of a client differ in the operation on the container.\<close>

definition on_subscribers ::
    "('c list \<Rightarrow> 'c list \<times> bool) \<Rightarrow> int \<Rightarrow> 'd quote \<Rightarrow> ('d::{zero,ord}) inst_manager \<Rightarrow> u32 \<Rightarrow> ('d, 'c) quote_store \<Rightarrow>
     ('d, 'c) quote_store \<times> bool" where
  "on_subscribers f now fresh m key s =
     (case getQuoteByKeyId now fresh m key s of
        (s, None) \<Rightarrow> (s, False)
      | (s, Some k) \<Rightarrow>
          (case sm_find (st_quotes s) k of
             None \<Rightarrow> (s, False)
           | Some q \<Rightarrow>
               if \<not> q_isValid (qs_quote q) then (s, False)
               else (case f (qs_subscribers q) of
                       (cs, ok) \<Rightarrow> (s\<lparr>st_quotes := sm_assign (st_quotes s) k (q\<lparr>qs_subscribers := cs\<rparr>)\<rparr>, ok))))"

definition subscribe ::
    "int \<Rightarrow> 'd quote \<Rightarrow> ('d::{zero,ord}) inst_manager \<Rightarrow> u32 \<Rightarrow> 'c option \<Rightarrow> ('d, 'c) quote_store \<Rightarrow> ('d, 'c) quote_store \<times> bool" where
  "subscribe now fresh m key client = on_subscribers (cm_add client) now fresh m key"

definition subscribeFront ::
    "int \<Rightarrow> 'd quote \<Rightarrow> ('d::{zero,ord}) inst_manager \<Rightarrow> u32 \<Rightarrow> 'c option \<Rightarrow> ('d, 'c) quote_store \<Rightarrow> ('d, 'c) quote_store \<times> bool" where
  "subscribeFront now fresh m key client = on_subscribers (cm_addFront client) now fresh m key"

definition unsubscribe ::
    "int \<Rightarrow> 'd quote \<Rightarrow> ('d::{zero,ord}) inst_manager \<Rightarrow> u32 \<Rightarrow> 'c option \<Rightarrow> ('d, 'c) quote_store \<Rightarrow> ('d, 'c) quote_store \<times> bool" where
  "unsubscribe now fresh m key client = on_subscribers (cm_rem client) now fresh m key"

definition quotes_on_load ::
    "int \<Rightarrow> 'd quote \<Rightarrow> ('d::{zero,ord}) inst_manager \<Rightarrow> ('d, 'c) quote_store \<Rightarrow> ('d, 'c) quote_store" where
  "quotes_on_load now fresh m s = fold (\<lambda>p s. fst (getQuote now fresh (Some (im_heap m p)) s)) (im_quoted m) s"

section \<open>The contract of a container\<close>

text \<open>
  Both containers keep a set of clients: a client that is in cannot be added, one that is not in
  cannot be removed, and the null client is always refused. The single one forgets its client when
  another is added.
\<close>

locale client_container =
  fixes add :: "'c option \<Rightarrow> 's \<Rightarrow> 's \<times> bool"
    and rem :: "'c option \<Rightarrow> 's \<Rightarrow> 's \<times> bool"
    and calls :: "'s \<Rightarrow> 'c list"
    and ok :: "'s \<Rightarrow> bool"
  assumes add_null: "add None s = (s, False)"
    and rem_null: "rem None s = (s, False)"
    and add_ok: "ok s \<Longrightarrow> snd (add (Some c) s) \<longleftrightarrow> c \<notin> set (calls s)"
    and add_in: "ok s \<Longrightarrow> c \<in> set (calls (fst (add (Some c) s)))"
    and add_fail: "ok s \<Longrightarrow> \<not> snd (add (Some c) s) \<Longrightarrow> fst (add (Some c) s) = s"
    and rem_calls: "ok s \<Longrightarrow> calls (fst (rem (Some c) s)) = filter (\<lambda>x. x \<noteq> c) (calls s)"
    and rem_ok: "ok s \<Longrightarrow> snd (rem (Some c) s) \<longleftrightarrow> c \<in> set (calls s)"
    and keeps: "ok s \<Longrightarrow> ok (fst (add x s)) \<and> ok (fst (rem x s))"
    and once: "ok s \<Longrightarrow> distinct (calls s)"
begin

lemma add_twice: "ok s \<Longrightarrow> snd (add (Some c) (fst (add (Some c) s))) = False"
  using add_ok add_in keeps by blast

lemma rem_after_add: "ok s \<Longrightarrow> c \<notin> set (calls (fst (rem (Some c) (fst (add (Some c) s)))))"
  using keeps [of s "Some c"] by (simp add: rem_calls)




end

lemma findClient_end: "findClient cs c = length cs \<longleftrightarrow> c \<notin> set cs"
  by (induction cs) auto

lemma findClient_remove: "distinct cs \<Longrightarrow> take (findClient cs c) cs @ drop (Suc (findClient cs c)) cs = filter (\<lambda>x. x \<noteq> c) cs"
  by (induction cs) (auto intro: filter_True [symmetric])

interpretation single: client_container cs_add cs_rem cs_onQuote "\<lambda>_. True"
  by unfold_locales (auto simp: cs_add_def cs_rem_def cs_onQuote_def split: option.splits if_splits)

interpretation multiple: client_container cm_add cm_rem cm_onQuote distinct
  by unfold_locales
    (auto simp: cm_add_def cm_rem_def cm_onQuote_def findClient_end findClient_remove Let_def split: option.splits if_splits
       dest: in_set_takeD in_set_dropD intro: filter_True [symmetric])

interpretation multiple_front: client_container cm_addFront cm_rem cm_onQuote distinct
  by unfold_locales
    (auto simp: cm_addFront_def cm_rem_def cm_onQuote_def findClient_end findClient_remove Let_def split: option.splits if_splits
       dest: in_set_takeD in_set_dropD intro: filter_True [symmetric])

section \<open>Quotes and instruments stay together\<close>

definition store_ok :: "'d inst_manager \<Rightarrow> ('d, 'c) quote_store \<Rightarrow> bool" where
  "store_ok m s \<longleftrightarrow> sm_ok (st_quotes s) \<and>
     (\<forall>k q. sm_find (st_quotes s) k = Some q \<longrightarrow> q_instrumentId (qs_quote q) = k \<and> distinct (qs_subscribers q) \<and>
        (\<exists>p \<in> set (im_table m). ins_keyId (im_heap m p) = k \<and> q_instrument (qs_quote q) = Some (instrument.truncate (im_heap m p)))) \<and>
     (\<forall>n k. st_index1 s n = Some k \<longleftrightarrow>
        (\<exists>p \<in> set (im_table m). inf_keyNum1 (im_heap m p) = n \<and> ins_keyId (im_heap m p) = k \<and> sm_find (st_quotes s) k \<noteq> None)) \<and>
     (\<forall>n k. st_index2 s n = Some k \<longleftrightarrow>
        (\<exists>p \<in> set (im_table m). inf_keyNum2 (im_heap m p) = n \<and> ins_keyId (im_heap m p) = k \<and> sm_find (st_quotes s) k \<noteq> None))"

text \<open>
  The quotes a load creates: for every instrument it puts on the manager's log, which is the last
  one, if any, for a row.
\<close>

definition quotes_of_row ::
    "int \<Rightarrow> 'd quote \<Rightarrow> ('d::{zero,ord}) inst_manager \<Rightarrow> 'd inst_manager \<Rightarrow> ('d, 'c) quote_store \<Rightarrow> ('d, 'c) quote_store" where
  "quotes_of_row now fresh m m' s =
     fold (\<lambda>p s. fst (getQuote now fresh (Some (im_heap m' p)) s)) (drop (length (im_quoted m)) (im_quoted m')) s"

text \<open>A row that is not refused by the table, or is refused while no quotes are created on loading.\<close>

definition row_taken :: "'d inst_manager \<Rightarrow> 'd inst_manager \<Rightarrow> bool" where
  "row_taken m m' \<longleftrightarrow> im_table m' \<noteq> im_table m \<or> im_quoted m' = im_quoted m"

text \<open>
  The table of instruments and the store side by side: rows are loaded, with their quotes, and
  instruments added; settings, headers, fees and settlements change; quotes are looked up,
  subscribed, unsubscribed and notified; the store is cleared, alone or with the manager.
\<close>

inductive market_run :: "('d::floor_ceiling) im_env \<Rightarrow> 'd inst_manager \<Rightarrow> ('d, 'c) quote_store \<Rightarrow> bool" for e where
  start: "im_table m = [] \<Longrightarrow> st_quotes s = [] \<Longrightarrow> st_index1 s = (\<lambda>_. None) \<Longrightarrow> st_index2 s = (\<lambda>_. None) \<Longrightarrow>
    market_run e m s"
| row: "market_run e m s \<Longrightarrow> load e validate r m = ImOk m' \<Longrightarrow> row_taken m m' \<Longrightarrow>
    market_run e m' (quotes_of_row now fresh m m' s)"
| failed_row: "market_run e m s \<Longrightarrow> load e validate r m = ImThrow m' \<Longrightarrow> market_run e m' s"
| added: "market_run e m s \<Longrightarrow> market_run e (addInstrument i m) s"
| beside: "market_run e m s \<Longrightarrow> im_table m' = im_table m \<Longrightarrow> im_heap m' = im_heap m \<Longrightarrow> im_next m' = im_next m \<Longrightarrow>
    market_run e m' s"
| cleared: "market_run e m s \<Longrightarrow> market_run e (im_clear m) (st_clear s)"
| store_cleared: "market_run e m s \<Longrightarrow> market_run e m (st_clear s)"
| by_id: "market_run e m s \<Longrightarrow> market_run e m (fst (getQuoteByKeyId now fresh m key s))"
| by_name: "market_run e m s \<Longrightarrow> market_run e m (fst (getQuoteByDisplayName now fresh m name s))"
| subscribed: "market_run e m s \<Longrightarrow> market_run e m (fst (subscribe now fresh m key c s))"
| subscribed_front: "market_run e m s \<Longrightarrow> market_run e m (fst (subscribeFront now fresh m key c s))"
| unsubscribed: "market_run e m s \<Longrightarrow> market_run e m (fst (unsubscribe now fresh m key c s))"
| notified: "market_run e m s \<Longrightarrow> sm_find (st_quotes s) k = Some q \<Longrightarrow>
    market_run e m (s\<lparr>st_quotes := sm_assign (st_quotes s) k (fst (notifySubscribers t3 t4 q))\<rparr>)"

lemma getQuote_None: "getQuote now fresh None s = (s, None)"
  by (simp add: getQuote_def)

lemma index_step:
  assumes uniq: "\<And>r. r \<in> T \<Longrightarrow> N r = N p \<or> K r = K p \<Longrightarrow> r = p" and p: "p \<in> T"
    and old: "\<And>n k. ix n = Some k \<longleftrightarrow> (\<exists>r \<in> T. N r = n \<and> K r = k \<and> F k)" and F: "\<And>k. F' k \<longleftrightarrow> k = K p \<or> F k"
  shows "(ix(N p \<mapsto> K p)) n = Some k \<longleftrightarrow> (\<exists>r \<in> T. N r = n \<and> K r = k \<and> F' k)"
proof (cases "n = N p")
  case True
  have "(\<exists>r \<in> T. N r = n \<and> K r = k \<and> F' k) \<longleftrightarrow> k = K p"
    using uniq p F True by blast
  then show ?thesis using True by auto
next
  case False
  then have "(\<exists>r \<in> T. N r = n \<and> K r = k \<and> F' k) \<longleftrightarrow> (\<exists>r \<in> T. N r = n \<and> K r = k \<and> F k)"
    using uniq F by blast
  then show ?thesis using False old by simp
qed

lemma getQuote_ok:
  assumes m: "keys_ok m" and p: "p \<in> set (im_table m)" and s: "store_ok m s"
  shows "store_ok m (fst (getQuote now fresh (Some (im_heap m p)) s))"
proof (cases "sm_find (st_quotes s) (ins_keyId (im_heap m p))")
  case None
  let ?i = "im_heap m p"
  let ?q = "setStatsInterval (st_interval s) (setInstrument ?i (qs_new now fresh))"
  define s1 where "s1 = fst (getQuote now fresh (Some ?i) s)"
  have s1: "st_quotes s1 = sm_insert (st_quotes s) (ins_keyId ?i) ?q" "st_index1 s1 = (st_index1 s)(inf_keyNum1 ?i \<mapsto> ins_keyId ?i)"
    "st_index2 s1 = (st_index2 s)(inf_keyNum2 ?i \<mapsto> ins_keyId ?i)"
    using None by (simp_all add: s1_def getQuote_def)
  have ok: "sm_ok (st_quotes s)" using s by (simp add: store_ok_def)
  have f: "sm_find (st_quotes s1) k = (if k = ins_keyId ?i then Some ?q else sm_find (st_quotes s) k)" for k
    unfolding s1 sm_find_insert [OF ok] using None by simp
  have q: "q_instrumentId (qs_quote ?q) = ins_keyId ?i" "qs_subscribers ?q = []"
    "q_instrument (qs_quote ?q) = Some (instrument.truncate ?i)"
    by (simp_all add: setStatsInterval_def setInstrument_def qs_new_def Let_def split: option.split)
  have uniq: "r = p" if "r \<in> set (im_table m)" "ins_keyId (im_heap m r) = ins_keyId ?i \<or> inf_keyNum1 (im_heap m r) = inf_keyNum1 ?i \<or>
      inf_keyNum2 (im_heap m r) = inf_keyNum2 ?i" for r
    using keys_okD [OF m that(1) p] that(2) by (auto simp: same_key_def)
  have i1: "st_index1 s n = Some k \<longleftrightarrow> (\<exists>r \<in> set (im_table m). inf_keyNum1 (im_heap m r) = n \<and> ins_keyId (im_heap m r) = k \<and>
      sm_find (st_quotes s) k \<noteq> None)"
    and i2: "st_index2 s n = Some k \<longleftrightarrow> (\<exists>r \<in> set (im_table m). inf_keyNum2 (im_heap m r) = n \<and> ins_keyId (im_heap m r) = k \<and>
      sm_find (st_quotes s) k \<noteq> None)" for n k
    by (rule spec [OF spec [OF conjunct1 [OF conjunct2 [OF conjunct2 [OF s [unfolded store_ok_def]]]]]],
        rule spec [OF spec [OF conjunct2 [OF conjunct2 [OF conjunct2 [OF s [unfolded store_ok_def]]]]]])
  have "store_ok m s1" unfolding store_ok_def
  proof (intro conjI allI impI)
    show "sm_ok (st_quotes s1)" unfolding s1 by (rule sm_ok_insert [OF ok])
    fix k x assume "sm_find (st_quotes s1) k = Some x"
    then consider "k = ins_keyId ?i" "x = ?q" | "sm_find (st_quotes s) k = Some x"
      unfolding f by (cases "k = ins_keyId ?i") simp_all
    then have "q_instrumentId (qs_quote x) = k \<and> distinct (qs_subscribers x) \<and>
      (\<exists>r \<in> set (im_table m). ins_keyId (im_heap m r) = k \<and> q_instrument (qs_quote x) = Some (instrument.truncate (im_heap m r)))"
    proof cases
      case 1
      have "distinct (qs_subscribers ?q)" by (simp only: q distinct.simps)
      then show ?thesis unfolding 1 using q(1,3) p by blast
    next
      case 2
      then show ?thesis by (rule mp [OF spec [OF spec [OF conjunct1 [OF conjunct2 [OF s [unfolded store_ok_def]]]]]])
    qed
    then show "q_instrumentId (qs_quote x) = k" "distinct (qs_subscribers x)" "\<exists>r \<in> set (im_table m). ins_keyId (im_heap m r) = k \<and> q_instrument (qs_quote x) = Some (instrument.truncate (im_heap m r))"
      by blast+
  next
    fix n k
    show "st_index1 s1 n = Some k \<longleftrightarrow> (\<exists>r \<in> set (im_table m). inf_keyNum1 (im_heap m r) = n \<and> ins_keyId (im_heap m r) = k \<and>
        sm_find (st_quotes s1) k \<noteq> None)"
      unfolding s1(2)
      by (rule index_step [where N = "\<lambda>r. inf_keyNum1 (im_heap m r)" and K = "\<lambda>r. ins_keyId (im_heap m r)" and
            F = "\<lambda>k. sm_find (st_quotes s) k \<noteq> None" and T = "set (im_table m)"],
          (rule uniq; blast), rule p, rule i1, simp add: f)
    show "st_index2 s1 n = Some k \<longleftrightarrow> (\<exists>r \<in> set (im_table m). inf_keyNum2 (im_heap m r) = n \<and> ins_keyId (im_heap m r) = k \<and>
        sm_find (st_quotes s1) k \<noteq> None)"
      unfolding s1(3)
      by (rule index_step [where N = "\<lambda>r. inf_keyNum2 (im_heap m r)" and K = "\<lambda>r. ins_keyId (im_heap m r)" and
            F = "\<lambda>k. sm_find (st_quotes s) k \<noteq> None" and T = "set (im_table m)"],
          (rule uniq; blast), rule p, rule i2, simp add: f)
  qed
  then show ?thesis by (simp add: s1_def)
qed (use s in \<open>simp add: getQuote_def\<close>)

text \<open>Writing back a quote of the same instrument with distinct subscribers.\<close>

lemma store_ok_assign:
  assumes s: "store_ok m s" and k: "sm_find (st_quotes s) k = Some q"
    and q': "q_instrumentId (qs_quote q') = q_instrumentId (qs_quote q)" "q_instrument (qs_quote q') = q_instrument (qs_quote q)"
      "distinct (qs_subscribers q')"
  shows "store_ok m (s\<lparr>st_quotes := sm_assign (st_quotes s) k q'\<rparr>)"
proof -
  have f: "sm_find (sm_assign (st_quotes s) k q') n = (if n = k then Some q' else sm_find (st_quotes s) n)" for n
    using k by (simp add: sm_find_assign)
  have "(sm_find (sm_assign (st_quotes s) k q') n \<noteq> None) = (sm_find (st_quotes s) n \<noteq> None)" for n
    using k by (simp add: f)
  then show ?thesis using s k q' unfolding store_ok_def by (auto simp: f)
qed

lemma getQuote_found:
  "getQuoteByKeyId now fresh m key s = (s1, Some k) \<Longrightarrow> sm_ok (st_quotes s) \<Longrightarrow> sm_find (st_quotes s1) k \<noteq> None"
  by (auto simp: getQuoteByKeyId_def getQuote_def sm_find_insert split: option.splits)

lemma by_id_ok: "keys_ok m \<Longrightarrow> store_ok m s \<Longrightarrow> store_ok m (fst (getQuoteByKeyId now fresh m key s))"
  using getQuote_ok [of m _ s] by_keyId.found_has_key [of m key]
  by (cases "getByKeyId m key") (simp_all add: getQuoteByKeyId_def im_instrument_def getQuote_None)

lemma on_subscribers_ok:
  assumes "keys_ok m" and "store_ok m s" and "\<And>cs. distinct cs \<Longrightarrow> distinct (fst (f cs))"
  shows "store_ok m (fst (on_subscribers f now fresh m key s))"
proof -
  obtain s1 k where g: "getQuoteByKeyId now fresh m key s = (s1, k)" by fastforce
  then have s1: "store_ok m s1" using by_id_ok [OF assms(1,2), of now fresh key] by simp
  show ?thesis
  proof (cases k)
    case (Some x)
    show ?thesis
    proof (cases "sm_find (st_quotes s1) x")
      case (Some q)
      have "distinct (qs_subscribers q)" using s1 Some by (simp add: store_ok_def)
      then show ?thesis using store_ok_assign [OF s1 Some] assms(3) [of "qs_subscribers q"] s1 g \<open>k = Some x\<close> Some
        by (simp add: on_subscribers_def case_prod_beta)
    qed (use s1 g Some in \<open>simp add: on_subscribers_def\<close>)
  qed (use s1 g in \<open>simp add: on_subscribers_def\<close>)
qed

lemma updateStats_frame:
  "q_instrumentId (q_updateStats q) = q_instrumentId q" "q_instrument (q_updateStats q) = q_instrument q"
  by (simp_all add: q_updateStats_def Let_def)

lemma notify_stats_frame:
  "q_instrumentId (qs_quote (fst (notify_stats s))) = q_instrumentId (qs_quote s)"
  "q_instrument (qs_quote (fst (notify_stats s))) = q_instrument (qs_quote s)"
  "qs_subscribers (fst (notify_stats s)) = qs_subscribers s"
  by (simp_all add: notify_stats_def Let_def)

lemma notify_frame:
  "q_instrumentId (qs_quote (fst (notifySubscribers a b q))) = q_instrumentId (qs_quote q)"
  "q_instrument (qs_quote (fst (notifySubscribers a b q))) = q_instrument (qs_quote q)"
  "qs_subscribers (fst (notifySubscribers a b q)) = qs_subscribers q"
  by (simp_all add: notifySubscribers_def Let_def case_prod_beta notify_stats_frame updateStats_frame)

lemma by_name_ok: "keys_ok m \<Longrightarrow> store_ok m s \<Longrightarrow> store_ok m (fst (getQuoteByDisplayName now fresh m key s))"
  using getQuote_ok [of m _ s] by_displayName.found_has_key [of m key]
  by (cases "getByDisplayName m key") (simp_all add: getQuoteByDisplayName_def im_instrument_def getQuote_None)

text \<open>
  The invariant only looks at the instruments of the table, and survives a new one with new keys.
\<close>

lemma store_okD:
  assumes "store_ok m s"
  shows "sm_ok (st_quotes s)"
    and "sm_find (st_quotes s) k = Some q \<Longrightarrow> q_instrumentId (qs_quote q) = k \<and> distinct (qs_subscribers q) \<and>
      (\<exists>p \<in> set (im_table m). ins_keyId (im_heap m p) = k \<and>
         q_instrument (qs_quote q) = Some (instrument.truncate (im_heap m p)))"
    and "st_index1 s n = Some k \<longleftrightarrow>
      (\<exists>p \<in> set (im_table m). inf_keyNum1 (im_heap m p) = n \<and> ins_keyId (im_heap m p) = k) \<and> sm_find (st_quotes s) k \<noteq> None"
    and "st_index2 s n = Some k \<longleftrightarrow>
      (\<exists>p \<in> set (im_table m). inf_keyNum2 (im_heap m p) = n \<and> ins_keyId (im_heap m p) = k) \<and> sm_find (st_quotes s) k \<noteq> None"
proof -
  note d = assms [unfolded store_ok_def]
  show "sm_ok (st_quotes s)" by (rule conjunct1 [OF d])
  show "sm_find (st_quotes s) k = Some q \<Longrightarrow> q_instrumentId (qs_quote q) = k \<and> distinct (qs_subscribers q) \<and>
      (\<exists>p \<in> set (im_table m). ins_keyId (im_heap m p) = k \<and>
         q_instrument (qs_quote q) = Some (instrument.truncate (im_heap m p)))"
    by (rule mp [OF spec [OF spec [OF conjunct1 [OF conjunct2 [OF d]]]]])
  show "st_index1 s n = Some k \<longleftrightarrow>
      (\<exists>p \<in> set (im_table m). inf_keyNum1 (im_heap m p) = n \<and> ins_keyId (im_heap m p) = k) \<and> sm_find (st_quotes s) k \<noteq> None"
    unfolding spec [OF spec [OF conjunct1 [OF conjunct2 [OF conjunct2 [OF d]]]]] by blast
  show "st_index2 s n = Some k \<longleftrightarrow>
      (\<exists>p \<in> set (im_table m). inf_keyNum2 (im_heap m p) = n \<and> ins_keyId (im_heap m p) = k) \<and> sm_find (st_quotes s) k \<noteq> None"
    unfolding spec [OF spec [OF conjunct2 [OF conjunct2 [OF conjunct2 [OF d]]]]] by blast
qed

lemma store_ok_cong:
  assumes "store_ok m s" and "im_table m' = im_table m" and "\<forall>p \<in> set (im_table m). im_heap m' p = im_heap m p"
  shows "store_ok m' s"
  using assms(1) unfolding store_ok_def assms(2) by (simp add: assms(3) cong: bex_cong)

lemma store_ok_grow:
  assumes s: "store_ok m s" and m: "keys_ok m'" and t: "im_table m' = im_table m @ [p]"
    and h: "\<forall>q \<in> set (im_table m). im_heap m' q = im_heap m q"
  shows "store_ok m' s"
proof -
  note d = store_okD [OF s]
  have sub: "q \<in> set (im_table m')" "im_heap m' q = im_heap m q" if "q \<in> set (im_table m)" for q
    using that t h by simp_all
  have new: "sm_find (st_quotes s) (ins_keyId (im_heap m' p)) = None"
  proof (rule ccontr)
    assume "sm_find (st_quotes s) (ins_keyId (im_heap m' p)) \<noteq> None"
    then obtain x where "sm_find (st_quotes s) (ins_keyId (im_heap m' p)) = Some x" by blast
    from d(2) [OF this] obtain q where q: "q \<in> set (im_table m)" "ins_keyId (im_heap m q) = ins_keyId (im_heap m' p)"
      by blast
    then have "q = p" using keys_okD [OF m sub(1) [OF q(1)], of p] t sub(2) [OF q(1)] by (simp add: same_key_def)
    moreover have "distinct (im_table m')" using m by (simp add: keys_ok_def)
    ultimately show False using q(1) t by simp
  qed
  have old: "(\<exists>q \<in> set (im_table m'). N (im_heap m' q) = n \<and> ins_keyId (im_heap m' q) = k \<and> sm_find (st_quotes s) k \<noteq> None) \<longleftrightarrow>
      (\<exists>q \<in> set (im_table m). N (im_heap m q) = n \<and> ins_keyId (im_heap m q) = k) \<and> sm_find (st_quotes s) k \<noteq> None"
    (is "?l = ?r") for N n k
  proof
    assume ?l
    then obtain q where q: "q \<in> set (im_table m')" "N (im_heap m' q) = n" "ins_keyId (im_heap m' q) = k"
      "sm_find (st_quotes s) k \<noteq> None" by blast
    then have "q \<noteq> p" using new by blast
    then have "q \<in> set (im_table m)" using q(1) t by simp
    then show ?r using q sub(2) by auto
  qed (use sub in force)
  show ?thesis
    unfolding store_ok_def
  proof (intro conjI allI impI)
    fix k q assume "sm_find (st_quotes s) k = Some q"
    from d(2) [OF this] obtain r where r: "q_instrumentId (qs_quote q) = k" "distinct (qs_subscribers q)"
      "r \<in> set (im_table m)" "ins_keyId (im_heap m r) = k" "q_instrument (qs_quote q) = Some (instrument.truncate (im_heap m r))"
      by blast
    show "q_instrumentId (qs_quote q) = k" "distinct (qs_subscribers q)" by (rule r)+
    show "\<exists>p \<in> set (im_table m'). ins_keyId (im_heap m' p) = k \<and> q_instrument (qs_quote q) = Some (instrument.truncate (im_heap m' p))"
      by (rule bexI [OF _ sub(1) [OF r(3)]]) (simp add: sub(2) [OF r(3)] r)
  qed (use d(1) in \<open>simp_all only: old d(3,4)\<close>)
qed

text \<open>What a row that is not refused does, and an instrument that is added.\<close>

lemma row_cases:
  assumes "load e validate r m = ImOk m'" and "keys_ok m"
  obtains "m' = m"
  | "im_table m' = im_table m" "\<forall>p \<in> set (im_table m). im_heap m' p = im_heap m p" "keys_ok m'"
  | "im_table m' = im_table m @ [im_next m]" "\<forall>p \<in> set (im_table m). im_heap m' p = im_heap m p" "keys_ok m'"
    "set (drop (length (im_quoted m)) (im_quoted m')) \<subseteq> {im_next m}"
proof -
  have lt: "\<forall>p \<in> set (im_table m). p < im_next m" using assms(2) by (simp add: keys_ok_def)
  consider "m' = m" | i where "m' = load_finish i m" using load_cases [of e validate r m] assms(1) by auto
  then show thesis
  proof cases
    case 1
    then show thesis by (rule that(1))
  next
    case 2
    have k: "keys_ok m'" unfolding 2 by (rule load_finish_keys [OF assms(2)])
    have h: "\<forall>p \<in> set (im_table m). im_heap m' p = im_heap m p"
      using lt by (auto simp: 2 load_finish_def Let_def)
    have q: "set (drop (length (im_quoted m)) (im_quoted m')) \<subseteq> {im_next m}"
      by (auto simp: 2 load_finish_def Let_def table_insert_def im_alloc_def)
    have "im_table m' = im_table m \<or> im_table m' = im_table m @ [im_next m]"
      by (simp add: 2 load_finish_def Let_def table_insert_def)
    then show thesis
    proof
      assume "im_table m' = im_table m"
      from that(2) [OF this h k] show thesis .
    next
      assume "im_table m' = im_table m @ [im_next m]"
      from that(3) [OF this h k q] show thesis .
    qed
  qed
qed

lemma add_cases:
  assumes "keys_ok m"
  shows "keys_ok (addInstrument i m)" and "\<forall>p \<in> set (im_table m). im_heap (addInstrument i m) p = im_heap m p"
    and "im_table (addInstrument i m) = im_table m \<or> im_table (addInstrument i m) = im_table m @ [im_next m]"
proof -
  show "keys_ok (addInstrument i m)" unfolding addInstrument_def by (rule keys_ok_insert [OF assms])
  have "\<forall>p \<in> set (im_table m). p < im_next m" using assms by (simp add: keys_ok_def)
  then show "\<forall>p \<in> set (im_table m). im_heap (addInstrument i m) p = im_heap m p"
    by (auto simp: addInstrument_def)
  show "im_table (addInstrument i m) = im_table m \<or> im_table (addInstrument i m) = im_table m @ [im_next m]"
    by (simp add: addInstrument_def table_insert_def)
qed

lemma quotes_of_row_ok:
  assumes "keys_ok m'" and "store_ok m' s"
    and "set (drop (length (im_quoted m)) (im_quoted m')) \<subseteq> set (im_table m')"
  shows "store_ok m' (quotes_of_row now fresh m m' s)"
proof -
  have "set ps \<subseteq> set (im_table m') \<Longrightarrow> store_ok m' s \<Longrightarrow>
      store_ok m' (fold (\<lambda>p s. fst (getQuote now fresh (Some (im_heap m' p)) s)) ps s)" for ps s
    by (induction ps arbitrary: s) (simp_all add: getQuote_ok [OF assms(1)])
  from this [OF assms(3,2)] show ?thesis by (simp add: quotes_of_row_def)
qed

lemma market_run_ok: "market_run e m s \<Longrightarrow> keys_ok m \<and> store_ok m s"
proof (induction rule: market_run.induct)
  case (start m s)
  then show ?case by (simp add: store_ok_def keys_ok_def)
next
  case (row m s validate r m' now fresh)
  then have k: "keys_ok m" and s: "store_ok m s" by simp_all
  from row.hyps(2) k show ?case
  proof (cases rule: row_cases)
    case 1
    then show ?thesis using k s by (simp add: quotes_of_row_def)
  next
    case 2
    then have "im_quoted m' = im_quoted m" using row.hyps(3) by (simp add: row_taken_def)
    then show ?thesis using 2 store_ok_cong [OF s 2(1,2)] by (simp add: quotes_of_row_def)
  next
    case 3
    have "set (drop (length (im_quoted m)) (im_quoted m')) \<subseteq> set (im_table m')" using 3(1,4) by auto
    then show ?thesis using quotes_of_row_ok [OF 3(3) store_ok_grow [OF s 3(3,1,2)]] 3(3) by simp
  qed
next
  case (failed_row m s validate r m')
  then show ?case using load_cases [of e validate r m] by auto
next
  case (added m s i)
  then have k: "keys_ok m" and s: "store_ok m s" by simp_all
  note a = add_cases [OF k, of i]
  from a(3) show ?case
  proof
    assume "im_table (addInstrument i m) = im_table m"
    then show ?case using store_ok_cong [OF s _ a(2)] a(1) by simp
  next
    assume "im_table (addInstrument i m) = im_table m @ [im_next m]"
    then show ?case using store_ok_grow [OF s a(1) _ a(2)] a(1) by simp
  qed
next
  case (beside m s m')
  then have "store_ok m' s" using store_ok_cong [of m s m'] by simp
  then show ?case using beside by (simp add: keys_ok_def)
next
  case (cleared m s)
  then show ?case by (simp add: store_ok_def keys_ok_def st_clear_def im_clear_def)
next
  case (store_cleared m s)
  then show ?case by (simp add: store_ok_def st_clear_def)
next
  case (by_id m s now fresh key)
  then show ?case using by_id_ok by blast
next
  case (by_name m s now fresh name)
  then show ?case using by_name_ok by blast
next
  case (subscribed m s now fresh key c)
  then show ?case unfolding subscribe_def by (intro conjI on_subscribers_ok conjunct1 [OF multiple.keeps]) auto
next
  case (subscribed_front m s now fresh key c)
  then show ?case unfolding subscribeFront_def by (intro conjI on_subscribers_ok conjunct1 [OF multiple_front.keeps]) auto
next
  case (unsubscribed m s now fresh key c)
  then show ?case unfolding unsubscribe_def by (intro conjI on_subscribers_ok conjunct2 [OF multiple.keeps]) auto
next
  case (notified m s k q t3 t4)
  then have "distinct (qs_subscribers q)" by (simp add: store_ok_def)
  then show ?case using store_ok_assign [OF _ notified.hyps(2)] notified.IH by (simp add: notify_frame)
qed

text \<open>
  C22: while instruments are loaded, with their quotes, and added, quotes are looked up, subscribed
  and notified, and manager or store are cleared (the manager only together with the store), the two
  exchange keys of an instrument of the table find exactly its own quote: its address once the quote
  has been created, and nothing before. That quote carries this very instrument and no client is
  subscribed to it twice. This holds as long as no row is refused by the table while quotes are
  created on loading: such a row does take over an index entry, see the next theorem.
\<close>

theorem quote_under_exchange_key:
  assumes "market_run e m s" and "p \<in> set (im_table m)"
  shows "getQuoteByKeyNum1 s (inf_keyNum1 (im_heap m p)) =
      (if sm_find (st_quotes s) (ins_keyId (im_heap m p)) = None then None else Some (ins_keyId (im_heap m p))) \<and>
    getQuoteByKeyNum2 s (inf_keyNum2 (im_heap m p)) =
      (if sm_find (st_quotes s) (ins_keyId (im_heap m p)) = None then None else Some (Some (ins_keyId (im_heap m p)))) \<and>
    (\<forall>q. sm_find (st_quotes s) (ins_keyId (im_heap m p)) = Some q \<longrightarrow>
       q_instrument (qs_quote q) = Some (instrument.truncate (im_heap m p)) \<and> distinct (qs_subscribers q))"
proof -
  let ?i = "im_heap m p"
  have m: "keys_ok m" and s: "store_ok m s" using market_run_ok [OF assms(1)] by simp_all
  have same: "r = p" if "r \<in> set (im_table m)" "ins_keyId (im_heap m r) = ins_keyId ?i \<or>
      inf_keyNum1 (im_heap m r) = inf_keyNum1 ?i \<or> inf_keyNum2 (im_heap m r) = inf_keyNum2 ?i" for r
    using keys_okD [OF m that(1) assms(2)] that(2) by (auto simp: same_key_def)
  have "st_index1 s (inf_keyNum1 ?i) = Some k \<longleftrightarrow> k = ins_keyId ?i \<and> sm_find (st_quotes s) k \<noteq> None" for k
    unfolding store_okD(3) [OF s] using same assms(2) by blast
  then have 1: "getQuoteByKeyNum1 s (inf_keyNum1 ?i) =
      (if sm_find (st_quotes s) (ins_keyId ?i) = None then None else Some (ins_keyId ?i))"
    by (cases "st_index1 s (inf_keyNum1 ?i)") (auto simp: getQuoteByKeyNum1_def)
  have "st_index2 s (inf_keyNum2 ?i) = Some k \<longleftrightarrow> k = ins_keyId ?i \<and> sm_find (st_quotes s) k \<noteq> None" for k
    unfolding store_okD(4) [OF s] using same assms(2) by blast
  then have 2: "getQuoteByKeyNum2 s (inf_keyNum2 ?i) =
      (if sm_find (st_quotes s) (ins_keyId ?i) = None then None else Some (Some (ins_keyId ?i)))"
    by (cases "st_index2 s (inf_keyNum2 ?i)") (auto simp: getQuoteByKeyNum2_def)
  have 3: "q_instrument (qs_quote q) = Some (instrument.truncate ?i) \<and> distinct (qs_subscribers q)"
    if found: "sm_find (st_quotes s) (ins_keyId ?i) = Some q" for q
  proof -
    obtain r where "r \<in> set (im_table m)" "ins_keyId (im_heap m r) = ins_keyId ?i"
      "q_instrument (qs_quote q) = Some (instrument.truncate (im_heap m r))" "distinct (qs_subscribers q)"
      using store_okD(2) [OF s found] by blast
    then show ?thesis using same by blast
  qed
  show ?thesis using 1 2 3 by blast
qed

text \<open>
  C39: a row that the table refuses because one of its keys is taken still gets a quote when quotes
  are created on loading, and takes over the index entry of the instrument whose exchange key it
  has: the market data of that instrument goes to the quote of an instrument nobody can look up.
\<close>

lemma refused_row_takes_index:
  assumes "p \<in> set (im_table m)" and "inf_keyNum1 i = inf_keyNum1 (im_heap m p)"
    and "\<forall>q \<in> set (im_table m). q < im_next m \<and> ins_keyId (im_heap m q) \<noteq> ins_keyId i"
    and "ims_createQuotesOnLoad (im_settings m)" and "im_quoted m = []" and "sm_find (st_quotes s) (ins_keyId i) = None"
  shows "im_table (load_finish i m) = im_table m \<and>
    getQuoteByKeyNum1 (quotes_on_load now fresh (load_finish i m) s) (inf_keyNum1 (im_heap m p)) = Some (ins_keyId i) \<and>
    getByKeyId (load_finish i m) (ins_keyId i) = None"
proof -
  have "\<exists>q \<in> set (im_table m). same_key i (im_heap m q)" using assms(1,2) by (auto simp: same_key_def)
  moreover have old: "im_heap (im_alloc i m) q = im_heap m q" if "q \<in> set (im_table m)" for q using that assms(3) by auto
  ultimately have t: "table_insert (im_next m) (im_alloc i m) = im_alloc i m" by (auto simp: table_insert_def)
  then have f: "load_finish i m = (im_alloc i m)\<lparr>im_quoted := [im_next m]\<rparr>"
    using assms(4,5) by (simp add: load_finish_def Let_def) (simp add: im_alloc_def)
  have "getByKeyId (load_finish i m) (ins_keyId i) = None"
    unfolding by_keyId.look_none f using assms(3) by (auto simp: image_iff)
  moreover have "getQuoteByKeyNum1 (quotes_on_load now fresh (load_finish i m) s) (inf_keyNum1 (im_heap m p)) = Some (ins_keyId i)"
    using assms(2,6) by (simp add: f quotes_on_load_def getQuote_def getQuoteByKeyNum1_def)
  ultimately show ?thesis by (simp add: f)
qed

subsection \<open>A run\<close>

definition wit_fresh :: "rat quote" where
  "wit_fresh = \<lparr>q_seqNum = 0, q_numTrades = 0, q_numBooks = 0, q_instrumentId = 0, q_status = kSuccess, q_open = 0, q_high = 0,
     q_low = 0, q_flag = 0, q_trade = trade_clear, q_book = [], q_intSeqNum = 0, q_intGaps = 0, q_exTimestamp = 0,
     q_timestamp1 = 0, q_timestamp2 = 0, q_timestamp3 = 0, q_timestamp4 = 0, q_lastUpdate = 0, q_instrument = None\<rparr>"

definition wit_store0 :: "(rat, nat) quote_store" where
  "wit_store0 = \<lparr>st_quotes = [], st_index1 = (\<lambda>_. None), st_index2 = (\<lambda>_. None), st_interval = 0\<rparr>"

definition wit_store :: "(rat, nat) quote_store" where
  "wit_store = fst (subscribe 5 wit_fresh wit_im_run 1 (Some 7) wit_store0)"

lemma wit_market_run: "market_run wit_im_env wit_im_run wit_store"
proof -
  let ?m0 = "wit_im_empty\<lparr>im_header := ''ids''\<rparr>"
  have "market_run wit_im_env ?m0 wit_store0"
    by (rule market_run.start) (simp_all add: wit_im_empty_table wit_store0_def)
  from market_run.row [OF this wit_load_future, where now = 5 and fresh = wit_fresh]
  have "market_run wit_im_env wit_im1 wit_store0"
    by (simp add: row_taken_def quotes_of_row_def wit_im1_def wit_im_empty_def)
  from market_run.row [OF this wit_load_spread, where now = 5 and fresh = wit_fresh]
  have "market_run wit_im_env wit_im wit_store0"
    by (simp add: row_taken_def quotes_of_row_def wit_im_def wit_im1_def wit_im_empty_def)
  then have "market_run wit_im_env wit_im_run wit_store0"
    by (rule market_run.beside) (simp_all add: wit_im_run_def)
  then show ?thesis unfolding wit_store_def by (rule market_run.subscribed)
qed

lemma wit_future_found: "getByKeyId wit_im_run 1 = Some 0"
  by (simp add: getByKeyId_def getInstrument_def wit_im_run_fields [unfolded One_nat_def] wit_loaded_def wit_future_def)

lemma wit_store_quote: "sm_find (st_quotes wit_store) 1 \<noteq> None"
  by (simp add: wit_store_def subscribe_def on_subscribers_def getQuoteByKeyId_def wit_future_found im_instrument_def getQuote_def
      wit_store0_def wit_im_run_fields wit_loaded_def wit_future_def case_prod_beta Let_def)

theorem quote_under_exchange_key_witness:
  "getQuoteByKeyNum1 wit_store 11 = Some 1 \<and>
   (\<exists>q. sm_find (st_quotes wit_store) 1 = Some q \<and> q_instrument (qs_quote q) = Some (instrument.truncate (wit_loaded wit_future [])))"
proof -
  have i: "inf_keyNum1 (wit_loaded wit_future []) = 11" "ins_keyId (wit_loaded wit_future []) = 1"
    by (simp_all add: wit_loaded_def wit_future_def)
  have "0 \<in> set (im_table wit_im_run)" by (simp add: wit_im_run_fields)
  from quote_under_exchange_key [OF wit_market_run this] show ?thesis
    unfolding wit_im_run_fields(2) i using wit_store_quote by auto
qed

lemma refused_row_takes_index_witness:
  "let m = wit_im_run\<lparr>im_settings := ims_clear\<lparr>ims_createQuotesOnLoad := True\<rparr>\<rparr>; i = wit_future\<lparr>ins_keyId := 3, ins_displayName := ''G''\<rparr> in
   getQuoteByKeyNum1 (quotes_on_load 5 wit_fresh (load_finish i m) wit_store0) 11 = Some 3 \<and> getByKeyId (load_finish i m) 3 = None"
proof -
  let ?m = "wit_im_run\<lparr>im_settings := ims_clear\<lparr>ims_createQuotesOnLoad := True\<rparr>\<rparr>"
  let ?i = "wit_future\<lparr>ins_keyId := 3, ins_displayName := ''G''\<rparr>"
  have "0 \<in> set (im_table ?m)" "inf_keyNum1 ?i = inf_keyNum1 (im_heap ?m 0)" "inf_keyNum1 (im_heap ?m 0) = 11" "ins_keyId ?i = 3"
    "\<forall>q \<in> set (im_table ?m). q < im_next ?m \<and> ins_keyId (im_heap ?m q) \<noteq> ins_keyId ?i"
    "ims_createQuotesOnLoad (im_settings ?m)" "im_quoted ?m = []" "sm_find (st_quotes wit_store0) (ins_keyId ?i) = None"
    by (simp_all add: wit_im_run_def wit_im_def wit_im1_def wit_im_empty_def wit_loaded_def wit_future_def wit_spread_def ims_clear_def
      wit_store0_def)
  note f = this
  from refused_row_takes_index [OF f(1,2,5,6,7,8), of 5 wit_fresh] show ?thesis
    unfolding f(3,4) Let_def by blast
qed

end
