(* ===== verification/QuoteStoreManager.thy ===== *)
theory QuoteStoreManager
  imports QuoteStore "HOL-Library.Multiset"
begin

section \<open>Quotes between two threads\<close>

text \<open>
  \<open>price/quote_store_manager.h\<close>: with several threads the market data thread works on a copy of the
  quote store; \<open>onQuote\<close> leaves a copy of the changed quote in a map, under a lock, and then pushes a
  token into a pipe (\<open>common_thread/thread_pipe.h\<close>). The consumer thread waits for a token, empties
  the pipe, takes the whole map and copies its quotes into the main store, from which it passes
  them on. The map keeps one quote per instrument: a later update replaces one that was not taken yet,
  and the sequence numbers tell how many were skipped. Every access under a lock is one step; the
  steps between are those of the code. A spurious wake-up returns to the wait and is no step.
\<close>

subsection \<open>State and operations\<close>

record thread_pipe =
  tp_isDone :: bool
  tp_size :: nat

definition tp_push :: "thread_pipe \<Rightarrow> thread_pipe" where
  "tp_push p = p\<lparr>tp_size := tp_size p + 1\<rparr>"

definition tp_pop :: "thread_pipe \<Rightarrow> thread_pipe" where
  "tp_pop p = p\<lparr>tp_size := tp_size p - 1\<rparr>"

definition tp_clear :: "thread_pipe \<Rightarrow> thread_pipe" where
  "tp_clear p = p\<lparr>tp_size := 0\<rparr>"

definition tp_stop :: "thread_pipe \<Rightarrow> thread_pipe" where
  "tp_stop p = p\<lparr>tp_isDone := True\<rparr>"

text \<open>\<open>read\<close> blocks while this does not hold.\<close>

definition tp_can_read :: "thread_pipe \<Rightarrow> bool" where
  "tp_can_read p \<longleftrightarrow> tp_isDone p \<or> tp_size p \<noteq> 0"

definition tp_read :: "thread_pipe \<Rightarrow> thread_pipe" where
  "tp_read p = (if tp_size p = 0 then p else tp_pop p)"

definition tp_try_read :: "bool \<Rightarrow> thread_pipe \<Rightarrow> thread_pipe \<times> bool" where
  "tp_try_read remove p = (if tp_size p = 0 then (p, False) else ((if remove then tp_pop p else p), True))"

datatype 'd consumer = CLoop | CRead | CClear | CGrab | CDeliver "(u32 \<times> 'd quote) list" | CEnd

record ('d, 'c) qs_manager =
  qm_isMultithreaded :: bool
  qm_isDone :: bool
  qm_thread :: bool
  qm_pipe :: thread_pipe
  qm_main :: "('d, 'c) quote_store"
  qm_local :: "('d, 'c) quote_store"
  qm_null :: "'d quote"
  qm_changed :: "(u32, 'd quote) stdmap"
  qm_pushing :: nat
  qm_consumer :: "'d consumer"
  qm_out :: "'d quote list"

definition qm_clear :: "('d, 'c) qs_manager \<Rightarrow> ('d, 'c) qs_manager" where
  "qm_clear s = s\<lparr>qm_isMultithreaded := False, qm_isDone := False, qm_thread := False\<rparr>"

definition qm_start :: "('d::{zero,ord}) inst_manager \<Rightarrow> bool \<Rightarrow> ('d, 'c) qs_manager \<Rightarrow> ('d, 'c) qs_manager" where
  "qm_start m isMultithreaded s =
     (let s = s\<lparr>qm_isMultithreaded := isMultithreaded\<rparr> in
      if isMultithreaded
      then s\<lparr>qm_local := st_copy m (qm_main s) (qm_local s), qm_thread := True, qm_consumer := CLoop\<rparr> else s)"

text \<open>The request to stop; \<open>stop\<close> returns, and clears the flags, when the thread has ended.\<close>

definition qm_request_stop :: "('d, 'c) qs_manager \<Rightarrow> ('d, 'c) qs_manager" where
  "qm_request_stop s =
     (if qm_isDone s then s
      else let s = s\<lparr>qm_isDone := True\<rparr> in
        if qm_thread s then s\<lparr>qm_pipe := tp_stop (qm_pipe s)\<rparr> else qm_clear s)"

definition getStore :: "('d, 'c) qs_manager \<Rightarrow> ('d, 'c) quote_store" where
  "getStore s = (if qm_isMultithreaded s then qm_local s else qm_main s)"

text \<open>\<open>onQuote\<close> for the quote under \<open>k\<close> of the store handed out, up to the push of the token.\<close>

definition qm_onQuote :: "u32 \<Rightarrow> ('d, 'c) qs_manager \<Rightarrow> ('d, 'c) qs_manager" where
  "qm_onQuote k s =
     (case sm_find (st_quotes (getStore s)) k of
        None \<Rightarrow> s
      | Some x \<Rightarrow>
          if \<not> qm_isMultithreaded s then s\<lparr>qm_out := qm_out s @ [qs_quote x]\<rparr>
          else
            let q = (qs_quote x)\<lparr>q_intSeqNum := q_intSeqNum (qs_quote x) + 1\<rparr>
            in s\<lparr>qm_local := (qm_local s)\<lparr>st_quotes := sm_assign (st_quotes (qm_local s)) k (x\<lparr>qs_quote := q\<rparr>)\<rparr>,
                 qm_changed := sm_put (qm_changed s) (q_instrumentId q) q, qm_pushing := qm_pushing s + 1\<rparr>)"

definition qm_push :: "('d, 'c) qs_manager \<Rightarrow> ('d, 'c) qs_manager" where
  "qm_push s = s\<lparr>qm_pipe := tp_push (qm_pipe s), qm_pushing := qm_pushing s - 1\<rparr>"

definition copyQuote :: "'d quote \<Rightarrow> 'd quote \<Rightarrow> 'd quote" where
  "copyQuote x y = y\<lparr>q_seqNum := q_seqNum x, q_instrumentId := q_instrumentId x, q_status := q_status x, q_open := q_open x,
     q_high := q_high x, q_low := q_low x, q_flag := q_flag x, q_trade := q_trade x, q_book := q_book x,
     q_intGaps := q_intGaps y + (q_intSeqNum x - q_intSeqNum y - 1), q_intSeqNum := q_intSeqNum x,
     q_exTimestamp := q_exTimestamp x, q_timestamp1 := q_timestamp1 x, q_timestamp2 := q_timestamp2 x\<rparr>"

text \<open>One turn of the loop over the quotes taken. Without an instrument the null quote is overwritten.\<close>

definition deliver ::
    "int \<Rightarrow> 'd quote \<Rightarrow> ('d::{zero,ord}) inst_manager \<Rightarrow> 'd quote \<Rightarrow> ('d, 'c) qs_manager \<Rightarrow> ('d, 'c) qs_manager" where
  "deliver now fresh m x s =
     (case getQuoteByKeyId now fresh m (q_instrumentId x) (qm_main s) of
        (st, None) \<Rightarrow>
          let y = copyQuote x (qm_null s)
          in s\<lparr>qm_main := st, qm_null := y, qm_out := (if isChanged y then qm_out s @ [y] else qm_out s)\<rparr>
      | (st, Some k) \<Rightarrow>
          (case sm_find (st_quotes st) k of
             None \<Rightarrow> s
           | Some q \<Rightarrow>
               let y = copyQuote x (qs_quote q)
               in s\<lparr>qm_main := st\<lparr>st_quotes := sm_assign (st_quotes st) k (q\<lparr>qs_quote := y\<rparr>)\<rparr>,
                    qm_out := (if isChanged y then qm_out s @ [y] else qm_out s)\<rparr>))"

text \<open>The thread, a step of the loop at a time. \<open>arrange\<close> is the order in which the hash table lists its quotes.\<close>

definition consumer_step ::
    "((u32 \<times> 'd quote) list \<Rightarrow> (u32 \<times> 'd quote) list) \<Rightarrow> int \<Rightarrow> 'd quote \<Rightarrow> ('d::{zero,ord}) inst_manager \<Rightarrow> ('d, 'c) qs_manager \<Rightarrow> ('d, 'c) qs_manager option" where
  "consumer_step arrange now fresh m s =
     (case qm_consumer s of
        CLoop \<Rightarrow> Some (s\<lparr>qm_consumer := if qm_isDone s then CEnd else CRead\<rparr>)
      | CRead \<Rightarrow> if tp_can_read (qm_pipe s) then Some (s\<lparr>qm_pipe := tp_read (qm_pipe s), qm_consumer := CClear\<rparr>) else None
      | CClear \<Rightarrow> Some (s\<lparr>qm_pipe := tp_clear (qm_pipe s), qm_consumer := CGrab\<rparr>)
      | CGrab \<Rightarrow>
          if qm_changed s = [] then Some (s\<lparr>qm_consumer := CLoop\<rparr>)
          else Some (s\<lparr>qm_changed := [], qm_consumer := CDeliver (arrange (qm_changed s))\<rparr>)
      | CDeliver [] \<Rightarrow> Some (s\<lparr>qm_consumer := CLoop\<rparr>)
      | CDeliver ((k, x) # xs) \<Rightarrow> Some ((deliver now fresh m x s)\<lparr>qm_consumer := CDeliver xs\<rparr>)
      | CEnd \<Rightarrow> None)"

section \<open>No update is left behind\<close>

text \<open>
  Runs of both threads with a history: the last quote \<open>onQuote\<close> was called with, the number of calls
  and the number of copies into the main store, per instrument. Between its calls the market data
  thread may change a quote of its store, except for its number and identity.
\<close>

record ('d, 'c) feed =
  fd_mgr :: "('d, 'c) qs_manager"
  fd_last :: "u32 \<Rightarrow> 'd quote option"
  fd_updates :: "u32 \<Rightarrow> nat"
  fd_copied :: "u32 \<Rightarrow> nat"

definition next_copy :: "'d consumer \<Rightarrow> u32 option" where
  "next_copy c = (case c of CDeliver ((k, x) # xs) \<Rightarrow> Some k | _ \<Rightarrow> None)"

definition write_local :: "u32 \<Rightarrow> ('d, 'c) quote_subs \<Rightarrow> 'd quote \<Rightarrow> ('d, 'c) qs_manager \<Rightarrow> ('d, 'c) qs_manager" where
  "write_local k x q s = s\<lparr>qm_local := (qm_local s)\<lparr>st_quotes := sm_assign (st_quotes (qm_local s)) k (x\<lparr>qs_quote := q\<rparr>)\<rparr>\<rparr>"

inductive feed_step :: "('d::{zero,ord}) inst_manager \<Rightarrow> ('d, 'c) feed \<Rightarrow> ('d, 'c) feed \<Rightarrow> bool" for m where
  written: "sm_find (st_quotes (qm_local (fd_mgr f))) k = Some x \<Longrightarrow> q_instrumentId q = k \<Longrightarrow>
    q_intSeqNum q = q_intSeqNum (qs_quote x) \<Longrightarrow> feed_step m f (f\<lparr>fd_mgr := write_local k x q (fd_mgr f)\<rparr>)"
| updated: "sm_find (st_quotes (qm_local (fd_mgr f))) k = Some x \<Longrightarrow> getByKeyId m k \<noteq> None \<Longrightarrow>
    feed_step m f (f\<lparr>fd_mgr := qm_onQuote k (fd_mgr f),
      fd_last := (fd_last f)(k \<mapsto> (qs_quote x)\<lparr>q_intSeqNum := q_intSeqNum (qs_quote x) + 1\<rparr>),
      fd_updates := (fd_updates f)(k := fd_updates f k + 1)\<rparr>)"
| pushed: "0 < qm_pushing (fd_mgr f) \<Longrightarrow> feed_step m f (f\<lparr>fd_mgr := qm_push (fd_mgr f)\<rparr>)"
| consumed: "consumer_step arrange now fresh m (fd_mgr f) = Some s \<Longrightarrow> \<forall>xs. mset (arrange xs) = mset xs \<Longrightarrow>
    feed_step m f (f\<lparr>fd_mgr := s, fd_copied := (case next_copy (qm_consumer (fd_mgr f)) of None \<Rightarrow> fd_copied f
      | Some k \<Rightarrow> (fd_copied f)(k := fd_copied f k + 1))\<rparr>)"

inductive feed_run :: "('d::{zero,ord}) inst_manager \<Rightarrow> ('d, 'c) feed \<Rightarrow> ('d, 'c) feed \<Rightarrow> bool" for m f0 where
  start: "feed_run m f0 f0"
| step: "feed_run m f0 f \<Longrightarrow> feed_step m f f' \<Longrightarrow> feed_run m f0 f'"

text \<open>A token, a pending push or a consumer on its way accounts for whatever is in the map.\<close>

definition awake :: "('d, 'c) qs_manager \<Rightarrow> bool" where
  "awake s \<longleftrightarrow> qm_changed s = [] \<or> 0 < tp_size (qm_pipe s) \<or> 0 < qm_pushing s \<or> qm_consumer s \<in> {CClear, CGrab}"

lemma sm_put_not_empty [simp]: "sm_put t k v \<noteq> []"
  by (cases t) (simp_all add: sm_put_def)

lemma deliver_frame [simp]:
  "qm_changed (deliver now fresh m x s) = qm_changed s" "qm_pipe (deliver now fresh m x s) = qm_pipe s"
  "qm_pushing (deliver now fresh m x s) = qm_pushing s" "qm_local (deliver now fresh m x s) = qm_local s"
  "qm_isMultithreaded (deliver now fresh m x s) = qm_isMultithreaded s"
  by (simp_all add: deliver_def Let_def split: prod.split option.split)

lemma awake_step:
  assumes "feed_step m f f'" and "qm_isMultithreaded (fd_mgr f)"
  shows "awake (fd_mgr f) \<Longrightarrow> awake (fd_mgr f') \<and> qm_isMultithreaded (fd_mgr f')"
  using assms
proof cases
  case (consumed arrange now fresh s)
  assume "awake (fd_mgr f)"
  then show ?thesis using consumed assms(2)
    by (auto simp: awake_def consumer_step_def tp_read_def tp_pop_def tp_clear_def tp_can_read_def
        split: consumer.splits list.splits if_splits)
qed (auto simp: awake_def write_local_def qm_onQuote_def getStore_def qm_push_def tp_push_def Let_def split: option.splits)

subsection \<open>What the copies hold\<close>

text \<open>The part of a quote that \<open>copyQuote\<close> transports.\<close>

definition market :: "'d quote \<Rightarrow> (u32 \<times> u32 \<times> eStatus \<times> ticks \<times> ticks \<times> ticks) \<times> u32 \<times> trade \<times> price_level list \<times> u32 \<times> int \<times> int \<times> int" where
  "market q = ((q_seqNum q, q_instrumentId q, q_status q, q_open q, q_high q, q_low q), q_flag q, q_trade q, q_book q, q_intSeqNum q,
     q_exTimestamp q, q_timestamp1 q, q_timestamp2 q)"

lemma market_copy: "market (copyQuote x y) = market x"
  by (simp add: market_def copyQuote_def)

lemma market_seq: "market x = market y \<Longrightarrow> q_intSeqNum x = q_intSeqNum y"
  by (simp add: market_def)

fun delivering :: "'d consumer \<Rightarrow> (u32 \<times> 'd quote) list" where
  "delivering (CDeliver xs) = xs"
| "delivering _ = []"

definition main_quote :: "('d, 'c) qs_manager \<Rightarrow> u32 \<Rightarrow> 'd quote option" where
  "main_quote s k = map_option qs_quote (sm_find (st_quotes (qm_main s)) k)"

fun or_else :: "'a option \<Rightarrow> 'a option \<Rightarrow> 'a option" where
  "or_else None y = y"
| "or_else (Some x) y = Some x"

definition newest :: "('d, 'c) qs_manager \<Rightarrow> u32 \<Rightarrow> 'd quote option" where
  "newest s k = or_else (sm_find (qm_changed s) k) (or_else (map_of (delivering (qm_consumer s)) k) (main_quote s k))"

definition locals_ok :: "('d, 'c) feed \<Rightarrow> bool" where
  "locals_ok f \<longleftrightarrow> qm_isMultithreaded (fd_mgr f) \<and>
     (\<forall>k x. sm_find (st_quotes (qm_local (fd_mgr f))) k = Some x \<longrightarrow>
        q_instrumentId (qs_quote x) = k \<and> q_intSeqNum (qs_quote x) = of_nat (fd_updates f k)) \<and>
     (\<forall>k q. fd_last f k = Some q \<longrightarrow> q_intSeqNum q = of_nat (fd_updates f k))"

definition moving_ok :: "('d::{zero,ord}) inst_manager \<Rightarrow> ('d, 'c) qs_manager \<Rightarrow> bool" where
  "moving_ok m s \<longleftrightarrow> sm_ok (qm_changed s) \<and> sm_ok (st_quotes (qm_main s)) \<and> distinct (map fst (delivering (qm_consumer s))) \<and>
     (\<forall>(k, x) \<in> set (qm_changed s) \<union> set (delivering (qm_consumer s)). q_instrumentId x = k \<and> getByKeyId m k \<noteq> None)"

fun count_fits :: "nat \<Rightarrow> 'd quote option \<Rightarrow> bool" where
  "count_fits n None \<longleftrightarrow> n = 0"
| "count_fits n (Some y) \<longleftrightarrow> q_intGaps y + of_nat n = q_intSeqNum y"

definition counts_ok :: "('d, 'c) feed \<Rightarrow> bool" where
  "counts_ok f \<longleftrightarrow> (\<forall>k. count_fits (fd_copied f k) (main_quote (fd_mgr f) k))"

definition newest_ok :: "('d, 'c) feed \<Rightarrow> bool" where
  "newest_ok f \<longleftrightarrow> (\<forall>k q. fd_last f k = Some q \<longrightarrow> (\<exists>y. newest (fd_mgr f) k = Some y \<and> market y = market q))"

definition feed_ok :: "('d::{zero,ord}) inst_manager \<Rightarrow> ('d, 'c) feed \<Rightarrow> bool" where
  "feed_ok m f \<longleftrightarrow> locals_ok f \<and> moving_ok m (fd_mgr f) \<and> counts_ok f \<and> newest_ok f"

text \<open>One copy into the main store.\<close>

lemma deliver_main:
  fixes s :: "('d::{zero,ord}, 'c) qs_manager"
  assumes "getByKeyId m (q_instrumentId x) \<noteq> None" and ok: "sm_ok (st_quotes (qm_main s))"
  obtains y where "main_quote (deliver now fresh m x s) = (main_quote s)(q_instrumentId x \<mapsto> copyQuote x y)"
    "sm_ok (st_quotes (qm_main (deliver now fresh m x s)))"
    "case main_quote s (q_instrumentId x) of None \<Rightarrow> q_intGaps y = 0 \<and> q_intSeqNum y = 0 | Some z \<Rightarrow> y = z"
proof -
  let ?k = "q_instrumentId x"
  obtain p where p: "getByKeyId m ?k = Some p" using assms(1) by blast
  then have kp: "ins_keyId (im_heap m p) = ?k" using by_keyId.found_has_key [OF p] by simp
  show ?thesis
  proof (cases "sm_find (st_quotes (qm_main s)) ?k")
    case None
    define q :: "('d, 'c) quote_subs" where "q = setStatsInterval (st_interval (qm_main s)) (setInstrument (im_heap m p) (qs_new now fresh))"
    have q: "q_intGaps (qs_quote q) = 0 \<and> q_intSeqNum (qs_quote q) = 0"
      by (simp add: q_def setStatsInterval_def setInstrument_def qs_new_def q_clear_def Let_def split: option.split)
    have f: "sm_find (sm_insert (st_quotes (qm_main s)) ?k q) j = (if j = ?k then Some q else sm_find (st_quotes (qm_main s)) j)" for j
      using None by (simp add: sm_find_insert [OF ok])
    have "st_quotes (qm_main (deliver now fresh m x s)) =
        sm_assign (sm_insert (st_quotes (qm_main s)) ?k q) ?k (q\<lparr>qs_quote := copyQuote x (qs_quote q)\<rparr>)"
      using p kp None f [of ?k] unfolding q_def
      by (simp add: deliver_def getQuoteByKeyId_def im_instrument_def getQuote_def Let_def)
    then show ?thesis
      using that [of "qs_quote q"] None q sm_ok_insert [OF ok]
      by (simp add: main_quote_def fun_eq_iff sm_find_assign f)
  next
    case (Some z)
    have "st_quotes (qm_main (deliver now fresh m x s)) =
        sm_assign (st_quotes (qm_main s)) ?k (z\<lparr>qs_quote := copyQuote x (qs_quote z)\<rparr>)"
      using p kp Some by (simp add: deliver_def getQuoteByKeyId_def im_instrument_def getQuote_def Let_def)
    then show ?thesis using that [of "qs_quote z"] Some ok by (simp add: main_quote_def fun_eq_iff sm_find_assign)
  qed
qed

lemma deliver_ok:
  assumes f: "feed_ok m f" and c: "qm_consumer (fd_mgr f) = CDeliver ((k, x) # xs)"
  shows "feed_ok m (f\<lparr>fd_mgr := (deliver now fresh m x (fd_mgr f))\<lparr>qm_consumer := CDeliver xs\<rparr>,
    fd_copied := (fd_copied f)(k := fd_copied f k + 1)\<rparr>)"
proof -
  let ?s = "fd_mgr f" and ?d = "deliver now fresh m x (fd_mgr f)"
  have mv: "moving_ok m ?s" using f by (simp add: feed_ok_def)
  have k: "q_instrumentId x = k" "getByKeyId m k \<noteq> None" "k \<notin> fst ` set xs" "sm_ok (st_quotes (qm_main ?s))"
    using mv c by (auto simp: moving_ok_def)
  obtain y where y: "main_quote ?d = (main_quote ?s)(k \<mapsto> copyQuote x y)" "sm_ok (st_quotes (qm_main ?d))"
    "case main_quote ?s k of None \<Rightarrow> q_intGaps y = 0 \<and> q_intSeqNum y = 0 | Some z \<Rightarrow> y = z"
    using deliver_main [of m x ?s now fresh] k by metis
  have main: "main_quote (?d\<lparr>qm_consumer := CDeliver xs\<rparr>) = (main_quote ?s)(k \<mapsto> copyQuote x y)"
    using y(1) by (simp add: main_quote_def fun_eq_iff)
  have "locals_ok (f\<lparr>fd_mgr := ?d\<lparr>qm_consumer := CDeliver xs\<rparr>, fd_copied := (fd_copied f)(k := fd_copied f k + 1)\<rparr>)"
    using f by (simp add: feed_ok_def locals_ok_def)
  moreover have "moving_ok m (?d\<lparr>qm_consumer := CDeliver xs\<rparr>)"
    using mv c y(2) by (auto simp: moving_ok_def)
  moreover have "counts_ok (f\<lparr>fd_mgr := ?d\<lparr>qm_consumer := CDeliver xs\<rparr>, fd_copied := (fd_copied f)(k := fd_copied f k + 1)\<rparr>)"
  proof -
    have g: "count_fits (fd_copied f j) (main_quote ?s j)" for j
      using f by (simp add: feed_ok_def counts_ok_def)
    have "q_intGaps y + of_nat (fd_copied f k) = q_intSeqNum y"
      using g [of k] y(3) by (auto split: option.splits)
    then have "count_fits (fd_copied f k + 1) (Some (copyQuote x y))"
      by (simp add: copyQuote_def algebra_simps)
    then show ?thesis using g by (simp add: counts_ok_def main)
  qed
  moreover have "newest_ok (f\<lparr>fd_mgr := ?d\<lparr>qm_consumer := CDeliver xs\<rparr>, fd_copied := (fd_copied f)(k := fd_copied f k + 1)\<rparr>)"
  proof -
    have none: "map_of xs k = None" using k(3) by (simp add: map_of_eq_None_iff)
    have new: "newest (?d\<lparr>qm_consumer := CDeliver xs\<rparr>) j =
        or_else (sm_find (qm_changed ?s) j) (or_else (map_of xs j) (((main_quote ?s)(k \<mapsto> copyQuote x y)) j))" for j
      unfolding newest_def main by simp
    have old: "newest ?s j = or_else (sm_find (qm_changed ?s) j) (or_else (map_of ((k, x) # xs) j) (main_quote ?s j))" for j
      unfolding newest_def c by simp
    have "\<exists>z'. newest (?d\<lparr>qm_consumer := CDeliver xs\<rparr>) j = Some z' \<and> market z' = market z" if "newest ?s j = Some z" for j z
      using that unfolding new old
      by (cases "sm_find (qm_changed ?s) j"; cases "j = k") (simp_all add: none market_copy)
    moreover have "newest_ok f" using f by (simp add: feed_ok_def)
    ultimately show ?thesis unfolding newest_ok_def by simp metis
  qed
  ultimately show ?thesis by (simp add: feed_ok_def)
qed

text \<open>A step that moves no quote.\<close>

lemma feed_ok_frame:
  assumes "feed_ok m f" and "qm_isMultithreaded s = qm_isMultithreaded (fd_mgr f)" and "qm_local s = qm_local (fd_mgr f)"
    and "qm_main s = qm_main (fd_mgr f)" and "qm_changed s = qm_changed (fd_mgr f)"
    and "delivering (qm_consumer s) = delivering (qm_consumer (fd_mgr f))"
  shows "feed_ok m (f\<lparr>fd_mgr := s\<rparr>)"
  using assms
  by (simp add: feed_ok_def locals_ok_def moving_ok_def counts_ok_def newest_ok_def newest_def main_quote_def)

lemma map_of_arranged: "mset ys = mset xs \<Longrightarrow> distinct (map fst xs) \<Longrightarrow> distinct (map fst ys) \<and> map_of ys = map_of xs"
  by (metis distinct_map map_of_eqI mset_eq_imp_distinct_iff mset_eq_setD mset_map set_map map_of_inject_set)

lemma grab_ok:
  assumes f: "feed_ok m f" and c: "qm_consumer (fd_mgr f) = CGrab" and a: "mset ys = mset (qm_changed (fd_mgr f))"
  shows "feed_ok m (f\<lparr>fd_mgr := (fd_mgr f)\<lparr>qm_changed := [], qm_consumer := CDeliver ys\<rparr>\<rparr>)"
proof -
  let ?s = "fd_mgr f"
  have mv: "moving_ok m ?s" using f by (simp add: feed_ok_def)
  have ys: "distinct (map fst ys)" "map_of ys = map_of (qm_changed ?s)"
    using map_of_arranged [OF a] mv sm_ok_distinct by (auto simp: moving_ok_def)
  have "moving_ok m (?s\<lparr>qm_changed := [], qm_consumer := CDeliver ys\<rparr>)"
    using mv ys(1) mset_eq_setD [OF a] by (simp add: moving_ok_def)
  moreover have "newest (?s\<lparr>qm_changed := [], qm_consumer := CDeliver ys\<rparr>) = newest ?s"
    using ys(2) c by (simp add: newest_def sm_find_def main_quote_def fun_eq_iff)
  ultimately show ?thesis
    using f by (simp add: feed_ok_def locals_ok_def counts_ok_def newest_ok_def main_quote_def)
qed

lemma update_ok:
  assumes f: "feed_ok m f" and x: "sm_find (st_quotes (qm_local (fd_mgr f))) k = Some x" and k: "getByKeyId m k \<noteq> None"
  shows "feed_ok m (f\<lparr>fd_mgr := qm_onQuote k (fd_mgr f),
      fd_last := (fd_last f)(k \<mapsto> (qs_quote x)\<lparr>q_intSeqNum := q_intSeqNum (qs_quote x) + 1\<rparr>),
      fd_updates := (fd_updates f)(k := fd_updates f k + 1)\<rparr>)"
proof -
  let ?s = "fd_mgr f"
  define q where "q = (qs_quote x)\<lparr>q_intSeqNum := q_intSeqNum (qs_quote x) + 1\<rparr>"
  let ?f = "f\<lparr>fd_mgr := qm_onQuote k ?s, fd_last := (fd_last f)(k \<mapsto> q), fd_updates := (fd_updates f)(k := fd_updates f k + 1)\<rparr>"
  have l: "locals_ok f" and mv: "moving_ok m ?s" using f by (simp_all add: feed_ok_def)
  have mt: "qm_isMultithreaded ?s" using l by (simp add: locals_ok_def)
  have q: "q_instrumentId q = k" "q_intSeqNum q = of_nat (fd_updates f k + 1)"
    and id: "q_instrumentId (qs_quote x) = k" using l x by (auto simp: locals_ok_def q_def)
  have s: "qm_onQuote k ?s = ?s\<lparr>qm_local := (qm_local ?s)\<lparr>st_quotes := sm_assign (st_quotes (qm_local ?s)) k (x\<lparr>qs_quote := q\<rparr>)\<rparr>,
      qm_changed := sm_put (qm_changed ?s) k q, qm_pushing := qm_pushing ?s + 1\<rparr>"
    using x mt id by (simp add: qm_onQuote_def getStore_def Let_def q_def)
  have "locals_ok ?f"
    using l q mt unfolding locals_ok_def s by (simp add: sm_find_assign)
  moreover have "moving_ok m (qm_onQuote k ?s)"
  proof -
    have put: "y \<in> insert (k, q) (set (qm_changed ?s))" if "y \<in> set (sm_put (qm_changed ?s) k q)" for y
      using that subsetD [OF sm_assign_subset, of y "qm_changed ?s" k q] subsetD [OF sm_insert_subset, of y "qm_changed ?s" k q]
        subsetD [OF sm_assign_subset, of y "sm_insert (qm_changed ?s) k q" k q]
      by (auto simp: sm_put_def split: option.splits if_splits)
    have "q_instrumentId z = j \<and> getByKeyId m j \<noteq> None"
      if "(j, z) \<in> set (sm_put (qm_changed ?s) k q) \<union> set (delivering (qm_consumer ?s))" for j z
      using put [of "(j, z)"] that mv k q(1) unfolding moving_ok_def by blast
    then show ?thesis using mv by (auto simp: moving_ok_def s sm_ok_put)
  qed
  moreover have "newest (qm_onQuote k ?s) j = (if j = k then Some q else newest ?s j)" for j
  proof -
    have "sm_ok (qm_changed ?s)" using mv by (simp add: moving_ok_def)
    then show ?thesis by (simp add: newest_def s main_quote_def sm_find_put)
  qed
  then have "newest_ok ?f"
    using f by (simp add: feed_ok_def newest_ok_def)
  moreover have "counts_ok ?f" using f by (simp add: feed_ok_def counts_ok_def s main_quote_def)
  ultimately show ?thesis by (simp add: feed_ok_def q_def)
qed

lemma feed_ok_step:
  assumes "feed_step m f f'" and f: "feed_ok m f"
  shows "feed_ok m f'"
  using assms(1)
proof cases
  case (written k x q)
  have "newest (write_local k x q (fd_mgr f)) = newest (fd_mgr f)" "main_quote (write_local k x q (fd_mgr f)) = main_quote (fd_mgr f)"
    by (simp_all add: newest_def main_quote_def write_local_def fun_eq_iff)
  then show ?thesis using written f
    by (auto simp: feed_ok_def counts_ok_def newest_ok_def moving_ok_def locals_ok_def write_local_def sm_find_assign split: if_splits)
next
  case (updated k x)
  then show ?thesis using update_ok [OF f] by simp
next
  case pushed
  then show ?thesis using feed_ok_frame [OF f, of "qm_push (fd_mgr f)"] by (simp add: qm_push_def)
next
  case (consumed arrange now fresh s)
  note st = consumed(2) [unfolded consumer_step_def]
  show ?thesis
  proof (cases "qm_consumer (fd_mgr f)")
    case CGrab
    then show ?thesis
      using consumed(1,3) st grab_ok [OF f CGrab] feed_ok_frame [OF f, of s]
      by (auto simp: next_copy_def split: if_splits)
  next
    case (CDeliver ys)
    then show ?thesis
    proof (cases ys)
      case Nil
      then show ?thesis using CDeliver consumed(1) st feed_ok_frame [OF f, of s] by (auto simp: next_copy_def)
    next
      case (Cons y zs)
      obtain k x where "y = (k, x)" by (cases y)
      then show ?thesis using Cons CDeliver consumed(1) st deliver_ok [OF f, of k x zs now fresh] by (auto simp: next_copy_def)
    qed
  qed (use consumed(1) st feed_ok_frame [OF f, of s] in \<open>auto simp: next_copy_def split: if_splits\<close>)
qed

definition feed_start :: "('d, 'c) feed \<Rightarrow> bool" where
  "feed_start f \<longleftrightarrow> (let s = fd_mgr f in
     qm_isMultithreaded s \<and> qm_changed s = [] \<and> qm_consumer s = CLoop \<and> sm_ok (st_quotes (qm_main s)) \<and>
     (\<forall>(k, x) \<in> set (st_quotes (qm_local s)). q_instrumentId (qs_quote x) = k \<and> q_intSeqNum (qs_quote x) = 0) \<and>
     (\<forall>(k, x) \<in> set (st_quotes (qm_main s)). q_intGaps (qs_quote x) = q_intSeqNum (qs_quote x)) \<and>
     fd_last f = (\<lambda>_. None) \<and> fd_updates f = (\<lambda>_. 0) \<and> fd_copied f = (\<lambda>_. 0))"

lemma feed_start_counts: "feed_start f \<Longrightarrow> counts_ok f"
proof (unfold counts_ok_def, intro allI)
  fix k
  assume f: "feed_start f"
  show "count_fits (fd_copied f k) (main_quote (fd_mgr f) k)"
    using f by (cases "sm_find (st_quotes (qm_main (fd_mgr f))) k") (auto simp: feed_start_def Let_def main_quote_def dest!: sm_find_in_set)
qed

lemma feed_start_ok: "feed_start f \<Longrightarrow> feed_ok m f \<and> awake (fd_mgr f)"
  using feed_start_counts [of f] by (auto simp: feed_start_def Let_def feed_ok_def locals_ok_def moving_ok_def newest_ok_def awake_def dest!: sm_find_in_set)

lemma feed_run_ok: "feed_run m f0 f \<Longrightarrow> feed_start f0 \<Longrightarrow> feed_ok m f \<and> awake (fd_mgr f)"
proof (induction rule: feed_run.induct)
  case start
  then show ?case by (rule feed_start_ok)
next
  case (step f f')
  then have "feed_ok m f" "awake (fd_mgr f)" by simp_all
  moreover from this have "qm_isMultithreaded (fd_mgr f)" by (simp add: feed_ok_def locals_ok_def)
  ultimately show ?case using awake_step [OF step.hyps(2)] feed_ok_step [OF step.hyps(2)] by blast
qed

text \<open>
  C10: no update stays behind. When the consumer thread waits with an empty pipe and no \<open>onQuote\<close> is
  about to push its token, then for every instrument that was updated the main store holds what the last
  update said, however the threads interleaved and however many updates a later one replaced; the
  copies made and the gaps counted in that quote add up to the number of updates.
\<close>

theorem waiting_consumer_is_up_to_date:
  assumes "feed_start f0" and "feed_run m f0 f" and "qm_consumer (fd_mgr f) = CRead" and "tp_size (qm_pipe (fd_mgr f)) = 0"
    and "qm_pushing (fd_mgr f) = 0" and "fd_last f k = Some q"
  shows "\<exists>y. main_quote (fd_mgr f) k = Some y \<and> market y = market q \<and> q_intGaps y + of_nat (fd_copied f k) = of_nat (fd_updates f k)"
proof -
  have ok: "feed_ok m f" and "awake (fd_mgr f)" using feed_run_ok assms(1,2) by blast+
  then have "newest (fd_mgr f) k = main_quote (fd_mgr f) k"
    using assms(3-5) by (simp add: awake_def newest_def)
  then obtain y where y: "main_quote (fd_mgr f) k = Some y" "market y = market q"
    using ok assms(6) unfolding feed_ok_def newest_ok_def by metis
  moreover have "q_intSeqNum q = of_nat (fd_updates f k)" using ok assms(6) by (simp add: feed_ok_def locals_ok_def)
  moreover have "q_intGaps y + of_nat (fd_copied f k) = q_intSeqNum y"
    using ok y(1) by (simp add: feed_ok_def counts_ok_def) (metis count_fits.simps(2))
  ultimately show ?thesis using market_seq [OF y(2)] by metis
qed

subsection \<open>A run of both threads\<close>

definition wit_subs :: "(rat, nat) quote_subs" where
  "wit_subs = \<lparr>qs_quote = wit_fresh\<lparr>q_instrumentId := 1\<rparr>, qs_subscribers = [], qs_interval = 0, qs_samples = [], qs_convert = ConverterNull\<rparr>"

definition wit_feed0 :: "(rat, nat) feed" where
  "wit_feed0 = \<lparr>fd_mgr = \<lparr>qm_isMultithreaded = True, qm_isDone = False, qm_thread = True, qm_pipe = \<lparr>tp_isDone = False, tp_size = 0\<rparr>,
      qm_main = wit_store0\<lparr>st_quotes := [(1, wit_subs)]\<rparr>, qm_local = wit_store0\<lparr>st_quotes := [(1, wit_subs)]\<rparr>, qm_null = wit_fresh,
      qm_changed = [], qm_pushing = 0, qm_consumer = CLoop, qm_out = []\<rparr>,
    fd_last = (\<lambda>_. None), fd_updates = (\<lambda>_. 0), fd_copied = (\<lambda>_. 0)\<rparr>"

definition fd_update :: "u32 \<Rightarrow> (rat, nat) feed \<Rightarrow> (rat, nat) feed" where
  "fd_update k f = f\<lparr>fd_mgr := qm_onQuote k (fd_mgr f),
     fd_last := (fd_last f)(k := map_option (\<lambda>x. (qs_quote x)\<lparr>q_intSeqNum := q_intSeqNum (qs_quote x) + 1\<rparr>)
       (sm_find (st_quotes (qm_local (fd_mgr f))) k)),
     fd_updates := (fd_updates f)(k := fd_updates f k + 1)\<rparr>"

definition fd_push :: "(rat, nat) feed \<Rightarrow> (rat, nat) feed" where
  "fd_push f = f\<lparr>fd_mgr := qm_push (fd_mgr f)\<rparr>"

definition fd_consume :: "(rat, nat) feed \<Rightarrow> (rat, nat) feed" where
  "fd_consume f = (case consumer_step id 5 wit_fresh wit_im_run (fd_mgr f) of None \<Rightarrow> f
     | Some s \<Rightarrow> f\<lparr>fd_mgr := s, fd_copied := (case next_copy (qm_consumer (fd_mgr f)) of None \<Rightarrow> fd_copied f
        | Some k \<Rightarrow> (fd_copied f)(k := fd_copied f k + 1))\<rparr>)"

lemma wit_feed_steps:
  "feed_run wit_im_run f0 f \<Longrightarrow> sm_find (st_quotes (qm_local (fd_mgr f))) 1 \<noteq> None \<Longrightarrow> feed_run wit_im_run f0 (fd_update 1 f)"
  "feed_run wit_im_run f0 f \<Longrightarrow> 0 < qm_pushing (fd_mgr f) \<Longrightarrow> feed_run wit_im_run f0 (fd_push f)"
  "feed_run wit_im_run f0 f \<Longrightarrow> feed_run wit_im_run f0 (fd_consume f)"
proof -
  assume r: "feed_run wit_im_run f0 f"
  show "feed_run wit_im_run f0 (fd_update 1 f)" if "sm_find (st_quotes (qm_local (fd_mgr f))) 1 \<noteq> None"
    using that feed_step.updated [of f 1 _ wit_im_run] wit_future_found by (auto simp: fd_update_def intro: feed_run.step [OF r])
  show "feed_run wit_im_run f0 (fd_push f)" if "0 < qm_pushing (fd_mgr f)"
    using that by (auto simp: fd_push_def intro: feed_run.step [OF r] feed_step.pushed)
  show "feed_run wit_im_run f0 (fd_consume f)"
    using r feed_step.consumed [of id 5 wit_fresh wit_im_run f]
    by (auto simp: fd_consume_def split: option.split intro: feed_run.step [OF r])
qed

text \<open>Two updates before the thread comes to take them, of which it sees the second.\<close>

definition wit_feed1 :: "(rat, nat) feed" where
  "wit_feed1 = fd_push (fd_update 1 (fd_push (fd_update 1 wit_feed0)))"

definition wit_feed :: "(rat, nat) feed" where
  "wit_feed = fd_consume (fd_consume (fd_consume (fd_consume (fd_consume (fd_consume (fd_consume wit_feed1))))))"

definition wit_update :: "rat quote" where
  "wit_update = wit_fresh\<lparr>q_instrumentId := 1, q_intSeqNum := 2\<rparr>"

lemma wit_feed1_eq:
  "wit_feed1 = \<lparr>fd_mgr = (fd_mgr wit_feed0)\<lparr>qm_pipe := \<lparr>tp_isDone = False, tp_size = 2\<rparr>,
      qm_local := wit_store0\<lparr>st_quotes := [(1, wit_subs\<lparr>qs_quote := wit_update\<rparr>)]\<rparr>, qm_changed := [(1, wit_update)]\<rparr>,
    fd_last = [1 \<mapsto> wit_update], fd_updates = (\<lambda>_. 0)(1 := 2), fd_copied = (\<lambda>_. 0)\<rparr>"
  by (simp add: wit_feed1_def wit_feed0_def fd_push_def fd_update_def qm_push_def tp_push_def qm_onQuote_def getStore_def wit_subs_def
      wit_update_def wit_fresh_def sm_put_def numeral_2_eq_2 Let_def)

lemma wit_feed_eq:
  "qm_consumer (fd_mgr wit_feed) = CRead \<and> tp_size (qm_pipe (fd_mgr wit_feed)) = 0 \<and> qm_pushing (fd_mgr wit_feed) = 0 \<and>
   fd_last wit_feed 1 = Some wit_update \<and> fd_updates wit_feed 1 = 2 \<and> fd_copied wit_feed 1 = 1"
  unfolding wit_feed_def wit_feed1_eq
  by (simp add: fd_consume_def consumer_step_def wit_feed0_def tp_can_read_def tp_read_def tp_pop_def tp_clear_def next_copy_def
      deliver_def getQuoteByKeyId_def wit_update_def wit_fresh_def wit_future_found im_instrument_def wit_im_run_fields getQuote_def
      wit_loaded_def wit_future_def wit_subs_def Let_def)

lemma waiting_consumer_is_up_to_date_witness:
  "\<exists>y. main_quote (fd_mgr wit_feed) 1 = Some y \<and> market y = market wit_update \<and> q_intGaps y = 1"
proof -
  have "feed_start wit_feed0"
    by (simp add: feed_start_def wit_feed0_def wit_subs_def wit_fresh_def wit_store0_def)
  moreover have "feed_run wit_im_run wit_feed0 wit_feed1"
    unfolding wit_feed1_def
    by (intro wit_feed_steps feed_run.start)
      (simp_all add: wit_feed0_def fd_update_def fd_push_def qm_onQuote_def getStore_def qm_push_def wit_store0_def Let_def)
  then have "feed_run wit_im_run wit_feed0 wit_feed"
    unfolding wit_feed_def by (intro wit_feed_steps(3))
  ultimately show ?thesis
    using waiting_consumer_is_up_to_date [of wit_feed0 wit_im_run wit_feed 1 wit_update] wit_feed_eq by auto
qed

end
