(* ===== verification/ChannelPf.thy ===== *)
theory ChannelPf
  imports QuoteStoreManager
begin

section \<open>The market data channel of CME\<close>

text \<open>
  \<open>channel_pf_cme/channel_pf_onix_impl_upgrade.h\<close> with the checks of \<open>channel_pf/ichannel_impl.h\<close>,
  and \<open>channel_pf/channel.h\<close> in front of it: the listeners that turn the books, trades, statistics
  and states reported by the vendor's handler into updates of the quote store, and pass the quotes on.
  With \<open>coalesce\<close> a quote is passed on once per message; the quotes touched are kept per handler.
  What the vendor's objects answer is in the records below; a handler is known by the number of its
  channel and only its set of quotes is kept. A clock is read once per call. A set of pointers is a list without
  duplicates, the order in which it is visited is an argument.
\<close>

subsection \<open>What the handler reports\<close>

record 'd md_level =
  ml_price :: 'd
  ml_quantity :: int
  ml_numOrders :: u32

text \<open>A receive time of 0 is the invalid one; \<open>None\<close> is a missing or malformed sending time.\<close>

record md_message =
  mg_seqNum :: u32
  mg_receiveTime :: int
  mg_sendingTime :: "int option"

record 'd md_book =
  mb_securityId :: u32
  mb_depth :: nat
  mb_bids :: "nat \<Rightarrow> 'd md_level"
  mb_asks :: "nat \<Rightarrow> 'd md_level"
  mb_message :: md_message

datatype md_condition = OpeningTrade | PriceCalculatedByGlobex | OtherCondition
datatype md_action = ActionNew | ActionDelete | OtherAction
datatype md_tick = PlusTick | MinusTick | OtherTick
datatype md_aggressor = AggressorBuy | AggressorSell | OtherAggressor

record 'd md_trade =
  mdt_securityId :: u32
  mdt_quantity :: "int option"
  mdt_condition :: md_condition
  mdt_action :: md_action
  mdt_tick :: md_tick
  mdt_aggressor :: md_aggressor
  mdt_price :: 'd
  mdt_message :: md_message

datatype md_stat = OpeningPrice | TradingSessionHighPrice | TradingSessionLowPrice | OtherStatistics

record 'd md_statistics =
  mds_securityId :: u32
  mds_type :: md_stat
  mds_value :: 'd
  mds_message :: md_message

datatype md_event = TradingHaltOrStopSpike | ResumeOrOpen | EndOfTradingSession | OtherEvent

record md_status =
  mdx_securityId :: "u32 option"
  mdx_event :: md_event
  mdx_message :: md_message

datatype md_error = Generic | NotLicensed | BadConfiguration | BadPacket | BadMessage | OtherError
datatype md_state = HandlerStopped | HandlerStarted | BooksResynchronizationStarted | BooksResynchronizationFinished | OtherState
datatype md_warning = NoNetworkActivity | PacketGap | ListenerFailure | OtherWarning

subsection \<open>State\<close>

record ('d, 'c) channel_pf =
  cp_qm :: "('d, 'c) qs_manager"
  cp_coalesce :: bool
  cp_normalOnly :: bool
  cp_updated :: "int \<Rightarrow> u32 list option"

fun atoi_digits :: "int \<Rightarrow> string \<Rightarrow> int" where
  "atoi_digits a [] = a"
| "atoi_digits a (c # cs) =
     (if 48 \<le> (of_char c :: int) \<and> (of_char c :: int) \<le> 57 then atoi_digits (10 * a + (of_char c - 48)) cs else a)"

definition channelIdToInt :: "string \<Rightarrow> int" where
  "channelIdToInt ch =
     (case dropWhile (\<lambda>c. c \<in> {CHR '' '', CHR 0x09, CHR 0x0A, CHR 0x0B, CHR 0x0C, CHR 0x0D}) ch of
        [] \<Rightarrow> 0
      | c # cs \<Rightarrow> if c = CHR ''-'' then - atoi_digits 0 cs else if c = CHR ''+'' then atoi_digits 0 cs
                   else atoi_digits 0 (c # cs))"

text \<open>The quotes of the store that is handed out, by pointer.\<close>

definition pf_quote :: "u32 \<Rightarrow> ('d, 'c) channel_pf \<Rightarrow> ('d, 'c) quote_subs option" where
  "pf_quote k s = sm_find (st_quotes (getStore (cp_qm s))) k"

definition on_store :: "(('d, 'c) quote_store \<Rightarrow> ('d, 'c) quote_store) \<Rightarrow> ('d, 'c) qs_manager \<Rightarrow> ('d, 'c) qs_manager" where
  "on_store f m = (if qm_isMultithreaded m then m\<lparr>qm_local := f (qm_local m)\<rparr> else m\<lparr>qm_main := f (qm_main m)\<rparr>)"

definition put_quote :: "u32 \<Rightarrow> ('d, 'c) quote_subs \<Rightarrow> ('d, 'c) channel_pf \<Rightarrow> ('d, 'c) channel_pf" where
  "put_quote k x s = s\<lparr>cp_qm := on_store (\<lambda>t. t\<lparr>st_quotes := sm_assign (st_quotes t) k x\<rparr>) (cp_qm s)\<rparr>"

definition pf_write :: "u32 \<Rightarrow> ('d quote \<Rightarrow> 'd quote) \<Rightarrow> ('d, 'c) channel_pf \<Rightarrow> ('d, 'c) channel_pf" where
  "pf_write k f s = (case pf_quote k s of None \<Rightarrow> s | Some x \<Rightarrow> put_quote k (x\<lparr>qs_quote := f (qs_quote x)\<rparr>) s)"

definition pf_notify :: "u32 \<Rightarrow> ('d, 'c) channel_pf \<Rightarrow> ('d, 'c) channel_pf" where
  "pf_notify k s = s\<lparr>cp_qm := qm_onQuote k (cp_qm s)\<rparr>"

text \<open>The start of every listener: look the quote up, go on when it is valid and has subscribers.\<close>

definition pf_listened ::
    "u32 \<Rightarrow> (u32 \<Rightarrow> ('d, 'c) quote_subs \<Rightarrow> ('d, 'c) channel_pf) \<Rightarrow> ('d::{zero,ord}, 'c) channel_pf \<Rightarrow> ('d, 'c) channel_pf" where
  "pf_listened secId f s =
     (case getQuoteByKeyNum1 (getStore (cp_qm s)) secId of
        None \<Rightarrow> s
      | Some k \<Rightarrow> (case pf_quote k s of None \<Rightarrow> s | Some x \<Rightarrow>
          if \<not> q_isValid (qs_quote x) \<or> \<not> isSubscribed x then s else f k x))"

definition pf_touch :: "string \<Rightarrow> u32 \<Rightarrow> ('d, 'c) channel_pf \<Rightarrow> ('d, 'c) channel_pf" where
  "pf_touch ch k s =
     (let ks = (case cp_updated s (channelIdToInt ch) of None \<Rightarrow> [] | Some ks \<Rightarrow> ks)
      in s\<lparr>cp_updated := (cp_updated s)(channelIdToInt ch \<mapsto> (if k \<in> set ks then ks else ks @ [k]))\<rparr>)"

subsection \<open>Checks\<close>

definition MAX_GAP_FROM_PREVIOUS :: nat where "MAX_GAP_FROM_PREVIOUS = 5"
definition MAX_DELAY_IN_MICROSEC :: u64 where "MAX_DELAY_IN_MICROSEC = 250000"
definition MAX_DELAY_IN_MICROSEC_GAP :: u64 where "MAX_DELAY_IN_MICROSEC_GAP = 60000000"

text \<open>In percent of the other price. A quotient by zero is infinite unless its numerator is zero, too.\<close>

definition isGapped :: "ticks \<Rightarrow> ticks \<Rightarrow> nat \<Rightarrow> bool" where
  "isGapped a b gap \<longleftrightarrow> tw_isValid a \<and> tw_isValid b \<and>
     (let d = tw_abs (s32 (a - b)) in
      if b = 0 then d > 0 else rat_of_int d / rat_of_int b * 100 > of_nat gap)"

definition checkGappedQuote :: "ticks \<Rightarrow> ticks \<Rightarrow> nat \<Rightarrow> 'd quote \<Rightarrow> 'd quote" where
  "checkGappedQuote newPrice oldPrice gap q =
     (let q = (if isGapped newPrice oldPrice gap then q\<lparr>q_status := kPriceGap\<rparr> else q)
      in if isGapped newPrice (ps_price (q_trade q)) gap then q\<lparr>q_status := kPriceGap\<rparr> else q)"

definition checkGappedTrade :: "ticks \<Rightarrow> nat \<Rightarrow> 'd quote \<Rightarrow> 'd quote" where
  "checkGappedTrade tradePrice gap q =
     (let q = (if isGapped tradePrice (ps_price (pl_bid (q_book q ! 0))) gap then q\<lparr>q_status := kPriceGap\<rparr> else q)
      in if isGapped tradePrice (ps_price (pl_ask (q_book q ! 0))) gap then q\<lparr>q_status := kPriceGap\<rparr> else q)"

definition checkExchangeSlow :: "int \<Rightarrow> u64 \<Rightarrow> 'd quote \<Rightarrow> 'd quote" where
  "checkExchangeSlow now maxDelta q =
     (let delta = (of_int (q_timestamp1 q - q_exTimestamp q) :: u64) in
      if maxDelta < delta
      then (if delta > MAX_DELAY_IN_MICROSEC_GAP then q\<lparr>q_exTimestamp := now\<rparr> else q\<lparr>q_status := kQExchangeSlow\<rparr>)
      else q)"

definition getMessageStats :: "int \<Rightarrow> md_message \<Rightarrow> 'd quote \<Rightarrow> 'd quote \<times> bool" where
  "getMessageStats now m q =
     (let q = q\<lparr>q_seqNum := mg_seqNum m, q_timestamp1 := (if mg_receiveTime m = 0 then now else mg_receiveTime m)\<rparr>;
          q = (if q_timestamp2 q < q_timestamp1 q then q\<lparr>q_timestamp2 := now\<rparr> else q)
      in case mg_sendingTime m of None \<Rightarrow> (q, False) | Some t \<Rightarrow> (q\<lparr>q_exTimestamp := t\<rparr>, True))"

definition message_stats :: "int \<Rightarrow> md_message \<Rightarrow> 'd quote \<Rightarrow> 'd quote" where
  "message_stats now m q =
     (case getMessageStats now m q of (q, ok) \<Rightarrow> if ok then checkExchangeSlow now MAX_DELAY_IN_MICROSEC q else q)"

definition updateSubscribers :: "int \<Rightarrow> md_message \<Rightarrow> u32 \<Rightarrow> ('d, 'c) channel_pf \<Rightarrow> ('d, 'c) channel_pf" where
  "updateSubscribers now m k s =
     (case pf_quote k s of
        None \<Rightarrow> s
      | Some x \<Rightarrow>
          if \<not> isChanged (qs_quote x) then s
          else pf_write k (q_clearRuntime False now) (pf_notify k (pf_write k (message_stats now m) s)))"

subsection \<open>Books\<close>

definition apply_bid :: "converter \<Rightarrow> nat \<Rightarrow> ('d::floor_ceiling) md_level \<Rightarrow> 'd quote \<Rightarrow> 'd quote" where
  "apply_bid conv lvl l q =
     (let sz = s32 (ml_quantity l) in
      if sz > 0 then
        let ticks = tc_fromExchangePrice conv (ml_price l);
            old = ps_price (pl_bid (q_book q ! lvl));
            q = (if ticks \<noteq> old
                 then setBidPrice ticks lvl (if 0 = lvl then checkGappedQuote ticks old MAX_GAP_FROM_PREVIOUS q else q) else q);
            q = (if sz \<noteq> ps_size (pl_bid (q_book q ! lvl)) then setBidSize sz lvl q else q)
        in upd_bid lvl (ps_numOrders_update (\<lambda>_. ml_numOrders l)) q
      else q)"

definition apply_ask :: "converter \<Rightarrow> nat \<Rightarrow> ('d::floor_ceiling) md_level \<Rightarrow> 'd quote \<Rightarrow> 'd quote" where
  "apply_ask conv lvl l q =
     (let sz = s32 (ml_quantity l) in
      if sz > 0 then
        let ticks = tc_fromExchangePrice conv (ml_price l);
            old = ps_price (pl_ask (q_book q ! lvl));
            q = (if ticks \<noteq> old
                 then setAskPrice ticks lvl (if 0 = lvl then checkGappedQuote ticks old MAX_GAP_FROM_PREVIOUS q else q) else q);
            q = (if sz \<noteq> ps_size (pl_ask (q_book q ! lvl)) then setAskSize sz lvl q else q)
        in upd_ask lvl (ps_numOrders_update (\<lambda>_. ml_numOrders l)) q
      else q)"

definition apply_book :: "converter \<Rightarrow> ('d::floor_ceiling) md_book \<Rightarrow> 'd quote \<Rightarrow> 'd quote" where
  "apply_book conv b q =
     fold (\<lambda>lvl q. apply_ask conv lvl (mb_asks b lvl) (apply_bid conv lvl (mb_bids b lvl) q))
       [0..<min (mb_depth b) SIZE] q"

definition pf_stamp :: "int \<Rightarrow> 'd quote \<Rightarrow> 'd quote" where
  "pf_stamp now q = (if \<not> isChanged q then q\<lparr>q_timestamp2 := now\<rparr> else q)"

definition onDirectBookUpdated ::
    "int \<Rightarrow> ('d::floor_ceiling) md_book \<Rightarrow> string \<Rightarrow> ('d, 'c) channel_pf \<Rightarrow> ('d, 'c) channel_pf" where
  "onDirectBookUpdated now b ch s =
     pf_listened (mb_securityId b) (\<lambda>k x.
       let s = pf_write k (\<lambda>q. apply_book (qs_convert x) b (pf_stamp now q)) s in
       if cp_coalesce s then pf_touch ch k s else updateSubscribers now (mb_message b) k s) s"

subsection \<open>Trades\<close>

fun trade_condition :: "md_condition \<Rightarrow> eCondition" where
  "trade_condition OpeningTrade = kConditionOpening"
| "trade_condition PriceCalculatedByGlobex = kConditionPriceCalculatedByExchange"
| "trade_condition OtherCondition = kConditionUnknown"

fun trade_action :: "md_action \<Rightarrow> eUpdateAction" where
  "trade_action ActionNew = kUpdateActionNew"
| "trade_action ActionDelete = kUpdateActionDelete"
| "trade_action OtherAction = kUpdateActionUnknown"

fun trade_tick :: "md_tick \<Rightarrow> eTickDirection" where
  "trade_tick PlusTick = kTickDirectionPlus"
| "trade_tick MinusTick = kTickDirectionMinus"
| "trade_tick OtherTick = kTickDirectionUnknown"

fun trade_aggressor :: "md_aggressor \<Rightarrow> eAggressorSide" where
  "trade_aggressor AggressorBuy = kAggressorSideBuy"
| "trade_aggressor AggressorSell = kAggressorSideSell"
| "trade_aggressor OtherAggressor = kAggressorSideUnknown"

definition set_tick :: "eTickDirection \<Rightarrow> 'd quote \<Rightarrow> 'd quote" where
  "set_tick d q = q\<lparr>q_trade := (q_trade q)\<lparr>tr_tickDirection := d\<rparr>\<rparr>"

text \<open>The fields of the trade that are overwritten before price and size are looked at.\<close>

definition trade_fields :: "'d md_trade \<Rightarrow> 'd quote \<Rightarrow> 'd quote" where
  "trade_fields t q = q\<lparr>q_trade := (q_trade q)\<lparr>tr_condition := trade_condition (mdt_condition t),
     tr_updateAction := trade_action (mdt_action t), tr_tickDirection := trade_tick (mdt_tick t),
     tr_aggressorSide := trade_aggressor (mdt_aggressor t)\<rparr>\<rparr>"

text \<open>The end of \<open>onTrade\<close> with \<open>coalesce\<close>; \<open>prev\<close> is the tick direction from before.\<close>

definition coalesce_trade ::
    "int \<Rightarrow> 'd md_trade \<Rightarrow> string \<Rightarrow> ticks \<Rightarrow> int \<Rightarrow> eTickDirection \<Rightarrow> u32 \<Rightarrow> 'd quote \<Rightarrow> ('d, 'c) channel_pf \<Rightarrow> ('d, 'c) channel_pf" where
  "coalesce_trade now t ch ticks qty prev k q s =
     (if \<not> isTrade q then pf_touch ch k (pf_write k (setTrade ticks qty) s)
      else if ticks = ps_price (q_trade q)
      then pf_write k (\<lambda>q. let q = set_tick prev q in q\<lparr>q_trade := (q_trade q)\<lparr>ps_size := size_add_eq (ps_size (q_trade q)) qty\<rparr>\<rparr>) s
      else
        let curr = tr_tickDirection (q_trade q);
            s = updateSubscribers now (mdt_message t) k (pf_write k (set_tick prev) s)
        in pf_write k (\<lambda>q. setTrade ticks qty (set_tick curr q)) s)"

definition onTrade :: "int \<Rightarrow> ('d::floor_ceiling) md_trade \<Rightarrow> string \<Rightarrow> ('d, 'c) channel_pf \<Rightarrow> ('d, 'c) channel_pf" where
  "onTrade now t ch s =
     pf_listened (mdt_securityId t) (\<lambda>k x.
       let s = pf_write k (pf_stamp now) s in
       case mdt_quantity t of
         None \<Rightarrow> s
       | Some qty \<Rightarrow>
           if qty < 1 then s
           else if cp_normalOnly s \<and> mdt_condition t \<noteq> OtherCondition then s
           else
             let prev = tr_tickDirection (q_trade (qs_quote x));
                 ticks = tc_fromExchangePrice (qs_convert x) (mdt_price t);
                 s = pf_write k (\<lambda>q. checkGappedTrade ticks MAX_GAP_FROM_PREVIOUS (trade_fields t q)) s
             in if cp_coalesce s
                then (case pf_quote k s of None \<Rightarrow> s | Some y \<Rightarrow> coalesce_trade now t ch ticks qty prev k (qs_quote y) s)
                else updateSubscribers now (mdt_message t) k (pf_write k (setTrade ticks qty) s)) s"

subsection \<open>States of the channel\<close>

text \<open>\<open>QuoteChannelFunctor\<close>; \<open>var1\<close> is the channel of an instrument.\<close>

definition channel_status ::
    "(instr_id \<Rightarrow> string) \<Rightarrow> int \<Rightarrow> eStatus \<Rightarrow> string \<Rightarrow> u32 \<Rightarrow> ('d::{zero,ord}, 'c) channel_pf \<Rightarrow> ('d, 'c) channel_pf" where
  "channel_status var1 now st ch k s =
     (let s = pf_write k (\<lambda>q. q\<lparr>q_timestamp2 := now\<rparr>) s in
      case pf_quote k s of
        None \<Rightarrow> s
      | Some x \<Rightarrow>
          if \<not> q_isValid (qs_quote x) \<or> \<not> isSubscribed x then s
          else if var1 (case q_instrument (qs_quote x) of None \<Rightarrow> 0 | Some i \<Rightarrow> ins_keyId i) \<noteq> ch then s
          else pf_notify k (pf_write k (\<lambda>q. q\<lparr>q_status := st\<rparr>) s))"

text \<open>\<open>keys\<close> lists the quotes in the order of the hash table.\<close>

definition all_quotes ::
    "(instr_id \<Rightarrow> string) \<Rightarrow> int \<Rightarrow> u32 list \<Rightarrow> eStatus \<Rightarrow> string \<Rightarrow> ('d::{zero,ord}, 'c) channel_pf \<Rightarrow> ('d, 'c) channel_pf" where
  "all_quotes var1 now keys st ch s = fold (channel_status var1 now st ch) keys s"

fun error_status :: "md_error \<Rightarrow> eStatus" where
  "error_status OtherError = kSuccess"
| "error_status _ = kConnectionHandlerError"

fun state_status :: "md_state \<Rightarrow> eStatus" where
  "state_status HandlerStopped = kQExchangeDown"
| "state_status HandlerStarted = kQExchangeUp"
| "state_status BooksResynchronizationStarted = kDataRecoveryStart"
| "state_status BooksResynchronizationFinished = kDataRecoveryFinish"
| "state_status OtherState = kSuccess"

fun warning_status :: "md_warning \<Rightarrow> eStatus" where
  "warning_status NoNetworkActivity = kStaleQuote"
| "warning_status ListenerFailure = kConnectionHandlerError"
| "warning_status _ = kSuccess"

definition pf_status ::
    "(instr_id \<Rightarrow> string) \<Rightarrow> int \<Rightarrow> u32 list \<Rightarrow> eStatus \<Rightarrow> string \<Rightarrow> ('d::{zero,ord}, 'c) channel_pf \<Rightarrow> ('d, 'c) channel_pf" where
  "pf_status var1 now keys st ch s = (if kSuccess \<noteq> st then all_quotes var1 now keys st ch s else s)"

definition onError where "onError var1 now keys e ch s = pf_status var1 now keys (error_status e) ch s"
definition onHandlerStateChange where "onHandlerStateChange var1 now keys e ch s = pf_status var1 now keys (state_status e) ch s"
definition onWarning where "onWarning var1 now keys w ch s = pf_status var1 now keys (warning_status w) ch s"
definition onProcessingSuspended where "onProcessingSuspended var1 now keys ch s = all_quotes var1 now keys kStaleQuote ch s"
definition onReplayError where "onReplayError var1 now keys ch s = all_quotes var1 now keys kReplayError ch s"
definition onReplayFinished where "onReplayFinished var1 now keys ch s = all_quotes var1 now keys kReplayFinished ch s"

definition onProcessingEnd ::
    "(u32 list \<Rightarrow> u32 list) \<Rightarrow> int \<Rightarrow> md_message \<Rightarrow> string \<Rightarrow> ('d, 'c) channel_pf \<Rightarrow> ('d, 'c) channel_pf" where
  "onProcessingEnd arrange now m ch s =
     (if \<not> cp_coalesce s then s
      else case cp_updated s (channelIdToInt ch) of
             None \<Rightarrow> s
           | Some ks \<Rightarrow>
               if ks = [] then s
               else (let s = fold (updateSubscribers now m) (arrange ks) s
                     in s\<lparr>cp_updated := (cp_updated s)(channelIdToInt ch \<mapsto> [])\<rparr>))"

fun status_write :: "md_event \<Rightarrow> 'd quote \<Rightarrow> 'd quote" where
  "status_write TradingHaltOrStopSpike q = q\<lparr>q_status := kTradingHaltedOrStopped\<rparr>"
| "status_write ResumeOrOpen q = q\<lparr>q_status := kTradingResumeOrOpen\<rparr>"
| "status_write EndOfTradingSession q = q\<lparr>q_status := kTradingSessionEnd\<rparr>"
| "status_write OtherEvent q = q"

fun stat_write :: "md_stat \<Rightarrow> ticks \<Rightarrow> 'd quote \<Rightarrow> 'd quote" where
  "stat_write OpeningPrice v q = setOpen v q"
| "stat_write TradingSessionHighPrice v q = setHigh v q"
| "stat_write TradingSessionLowPrice v q = setLow v q"
| "stat_write OtherStatistics v q = q"

definition onSecurityStatus :: "int \<Rightarrow> md_status \<Rightarrow> string \<Rightarrow> ('d::{zero,ord}, 'c) channel_pf \<Rightarrow> ('d, 'c) channel_pf" where
  "onSecurityStatus now e ch s =
     (case mdx_securityId e of
        None \<Rightarrow> s
      | Some secId \<Rightarrow>
          pf_listened secId (\<lambda>k x.
            let s = pf_write k (status_write (mdx_event e)) s
            in case pf_quote k s of
                 None \<Rightarrow> s
               | Some y \<Rightarrow>
                   if q_isError (qs_quote y)
                   then (if cp_coalesce s then pf_touch ch k s else updateSubscribers now (mdx_message e) k s) else s) s)"

definition onStatisticsReset :: "u32 \<Rightarrow> ('d::{zero,ord}, 'c) channel_pf \<Rightarrow> ('d, 'c) channel_pf" where
  "onStatisticsReset secId s =
     pf_listened secId (\<lambda>k x. pf_notify k (pf_write k (\<lambda>q. q\<lparr>q_status := kHLOReset\<rparr>) s)) s"

definition onStatisticsReset_symbol ::
    "('d::{zero,ord}) inst_manager \<Rightarrow> string \<Rightarrow> ('d, 'c) channel_pf \<Rightarrow> ('d, 'c) channel_pf" where
  "onStatisticsReset_symbol m name s =
     (case getByDisplayName m name of None \<Rightarrow> s | Some p \<Rightarrow> onStatisticsReset (inf_keyNum1 (im_heap m p)) s)"

definition onStatistics :: "int \<Rightarrow> ('d::floor_ceiling) md_statistics \<Rightarrow> string \<Rightarrow> ('d, 'c) channel_pf \<Rightarrow> ('d, 'c) channel_pf" where
  "onStatistics now e ch s =
     pf_listened (mds_securityId e) (\<lambda>k x.
       let v = tc_fromExchangePrice (qs_convert x) (mds_value e);
           s = pf_write k (stat_write (mds_type e) v) s
       in case pf_quote k s of
            None \<Rightarrow> s
          | Some y \<Rightarrow>
              if isChanged (qs_quote y)
              then (if cp_coalesce s then pf_touch ch k s else updateSubscribers now (mds_message e) k s) else s) s"

subsection \<open>Subscribing to a channel\<close>

text \<open>\<open>channel_pf/channel.h\<close>. The implementation behind it is known by what it answers.\<close>

record ('d, 'c) pf_channel =
  ch_store :: "('d, 'c) quote_store"
  ch_hasImpl :: bool
  ch_counts :: "(u32, u32) stdmap"
  ch_isActive :: bool

definition ch_clear :: "('d, 'c) pf_channel \<Rightarrow> ('d, 'c) pf_channel" where
  "ch_clear s = s\<lparr>ch_hasImpl := False, ch_counts := [], ch_isActive := False\<rparr>"

definition ch_init :: "bool \<Rightarrow> bool \<Rightarrow> ('d, 'c) pf_channel \<Rightarrow> ('d, 'c) pf_channel \<times> bool" where
  "ch_init impl answer s = (let s = s\<lparr>ch_hasImpl := impl\<rparr> in if \<not> impl then (s, False) else (s, answer))"

definition ch_start :: "bool \<Rightarrow> ('d, 'c) pf_channel \<Rightarrow> ('d, 'c) pf_channel \<times> bool" where
  "ch_start answer s = (if \<not> ch_hasImpl s then (s, False) else (s\<lparr>ch_isActive := answer\<rparr>, answer))"

definition ch_stop :: "('d, 'c) pf_channel \<Rightarrow> ('d, 'c) pf_channel" where
  "ch_stop s = (if ch_hasImpl s \<and> ch_isActive s then s\<lparr>ch_isActive := False\<rparr> else s)"

definition ch_subscribe ::
    "int \<Rightarrow> 'd quote \<Rightarrow> ('d::{zero,ord}) inst_manager \<Rightarrow> bool \<Rightarrow> u32 \<Rightarrow> 'c option \<Rightarrow> ('d, 'c) pf_channel \<Rightarrow>
     ('d, 'c) pf_channel \<times> bool" where
  "ch_subscribe now fresh m answer key client s =
     (if ch_isActive s then (s, False)
      else case subscribe now fresh m key client (ch_store s) of (st, ok) \<Rightarrow>
        let s = s\<lparr>ch_store := st\<rparr> in
        if \<not> ok then (s, False)
        else case sm_find (ch_counts s) key of
               Some n \<Rightarrow> (s\<lparr>ch_counts := sm_assign (ch_counts s) key (n + 1)\<rparr>, True)
             | None \<Rightarrow>
                 if \<not> ch_hasImpl s \<or> \<not> answer
                 then (s\<lparr>ch_store := fst (unsubscribe now fresh m key client (ch_store s))\<rparr>, False)
                 else (s\<lparr>ch_counts := sm_insert (ch_counts s) key 1\<rparr>, True))"

definition ch_unsubscribe ::
    "int \<Rightarrow> 'd quote \<Rightarrow> ('d::{zero,ord}) inst_manager \<Rightarrow> bool \<Rightarrow> u32 \<Rightarrow> 'c option \<Rightarrow> ('d, 'c) pf_channel \<Rightarrow>
     ('d, 'c) pf_channel \<times> bool" where
  "ch_unsubscribe now fresh m answer key client s =
     (if ch_isActive s then (s, False)
      else case unsubscribe now fresh m key client (ch_store s) of (st, ok) \<Rightarrow>
        let s = s\<lparr>ch_store := st\<rparr> in
        if \<not> ok then (s, False)
        else case sm_find (ch_counts s) key of
               None \<Rightarrow> (s, False)
             | Some n \<Rightarrow>
                 let s = s\<lparr>ch_counts := sm_assign (ch_counts s) key (n - 1)\<rparr> in
                 if n - 1 = 0
                 then (if \<not> ch_hasImpl s \<or> \<not> answer then (s, False) else (s\<lparr>ch_counts := sm_erase (ch_counts s) key\<rparr>, True))
                 else (s, True))"

end
