(* ===== verification/ChannelPfFacts.thy ===== *)
theory ChannelPfFacts
  imports ChannelPf
begin

section \<open>What the market data channel passes on\<close>

subsection \<open>Writes and notifications\<close>

lemma getStore_on_store [simp]:
  "getStore (on_store f m) = f (getStore m)" "qm_isMultithreaded (on_store f m) = qm_isMultithreaded m"
  "qm_out (on_store f m) = qm_out m"
  by (simp_all add: getStore_def on_store_def)

lemma put_quote_simps [simp]:
  "pf_quote j (put_quote k x s) = (if j = k \<and> pf_quote k s \<noteq> None then Some x else pf_quote j s)"
  "cp_coalesce (put_quote k x s) = cp_coalesce s" "cp_normalOnly (put_quote k x s) = cp_normalOnly s"
  "cp_updated (put_quote k x s) = cp_updated s" "qm_out (cp_qm (put_quote k x s)) = qm_out (cp_qm s)"
  "qm_isMultithreaded (cp_qm (put_quote k x s)) = qm_isMultithreaded (cp_qm s)"
  "getQuoteByKeyNum1 (getStore (cp_qm (put_quote k x s))) = getQuoteByKeyNum1 (getStore (cp_qm s))"
  by (auto simp: put_quote_def pf_quote_def sm_find_assign getQuoteByKeyNum1_def fun_eq_iff)

lemma pf_write_simps [simp]:
  "pf_quote j (pf_write k f s) = (if j = k then map_option (\<lambda>x. x\<lparr>qs_quote := f (qs_quote x)\<rparr>) (pf_quote k s) else pf_quote j s)"
  "cp_coalesce (pf_write k f s) = cp_coalesce s" "cp_normalOnly (pf_write k f s) = cp_normalOnly s"
  "cp_updated (pf_write k f s) = cp_updated s" "qm_out (cp_qm (pf_write k f s)) = qm_out (cp_qm s)"
  "qm_isMultithreaded (cp_qm (pf_write k f s)) = qm_isMultithreaded (cp_qm s)"
  "getQuoteByKeyNum1 (getStore (cp_qm (pf_write k f s))) = getQuoteByKeyNum1 (getStore (cp_qm s))"
  by (auto simp: pf_write_def split: option.split)

lemma pf_touch_simps [simp]:
  "pf_quote j (pf_touch ch k s) = pf_quote j s" "cp_qm (pf_touch ch k s) = cp_qm s"
  "cp_coalesce (pf_touch ch k s) = cp_coalesce s" "cp_normalOnly (pf_touch ch k s) = cp_normalOnly s"
  by (simp_all add: pf_touch_def pf_quote_def Let_def)

definition touched :: "int \<Rightarrow> ('d, 'c) channel_pf \<Rightarrow> u32 set" where
  "touched c s = (case cp_updated s c of None \<Rightarrow> {} | Some ks \<Rightarrow> set ks)"

lemma touched_touch [simp]:
  "touched c (pf_touch ch k s) = (if c = channelIdToInt ch then insert k (touched c s) else touched c s)"
  by (auto simp: touched_def pf_touch_def Let_def split: option.split)

lemma touched_write [simp]: "touched c (pf_write k f s) = touched c s"
  by (simp add: touched_def)

lemma pf_notify_single:
  assumes "\<not> qm_isMultithreaded (cp_qm s)"
  shows "pf_notify k s = (case pf_quote k s of None \<Rightarrow> s
     | Some x \<Rightarrow> s\<lparr>cp_qm := (cp_qm s)\<lparr>qm_out := qm_out (cp_qm s) @ [qs_quote x]\<rparr>\<rparr>)"
  using assms by (auto simp: pf_notify_def qm_onQuote_def pf_quote_def getStore_def split: option.split)

lemma message_stats_frame [simp]:
  "q_trade (message_stats now m q) = q_trade q" "q_flag (message_stats now m q) = q_flag q" "q_book (message_stats now m q) = q_book q"
  "q_instrumentId (message_stats now m q) = q_instrumentId q" "q_instrument (message_stats now m q) = q_instrument q"
  by (auto simp: message_stats_def getMessageStats_def checkExchangeSlow_def Let_def split: option.split)

lemma clearRuntime_frame [simp]:
  "q_trade (q_clearRuntime b now q) = q_trade q" "q_flag (q_clearRuntime b now q) = 0" "q_book (q_clearRuntime b now q) = q_book q"
  "q_instrumentId (q_clearRuntime b now q) = q_instrumentId q" "q_instrument (q_clearRuntime b now q) = q_instrument q"
  by (simp_all add: q_clearRuntime_def q_clearStatus_def q_clearFlag_def)

lemma updateSubscribers_single:
  assumes "\<not> qm_isMultithreaded (cp_qm s)" and "pf_quote k s = Some x"
  shows "pf_quote j (updateSubscribers now m k s) =
      (if j = k \<and> isChanged (qs_quote x) then Some (x\<lparr>qs_quote := q_clearRuntime False now (message_stats now m (qs_quote x))\<rparr>) else pf_quote j s)"
    and "qm_out (cp_qm (updateSubscribers now m k s)) =
      qm_out (cp_qm s) @ (if isChanged (qs_quote x) then [message_stats now m (qs_quote x)] else [])"
proof -
  let ?w = "pf_write k (message_stats now m) s"
  have n: "pf_notify k ?w = ?w\<lparr>cp_qm := (cp_qm ?w)\<lparr>qm_out := qm_out (cp_qm ?w) @ [message_stats now m (qs_quote x)]\<rparr>\<rparr>"
    using assms by (simp add: pf_notify_single)
  have q: "pf_quote i (s'\<lparr>cp_qm := (cp_qm s')\<lparr>qm_out := os\<rparr>\<rparr>) = pf_quote i s'" for i os and s' :: "('a, 'b) channel_pf"
    by (simp add: pf_quote_def getStore_def)
  show "pf_quote j (updateSubscribers now m k s) =
      (if j = k \<and> isChanged (qs_quote x) then Some (x\<lparr>qs_quote := q_clearRuntime False now (message_stats now m (qs_quote x))\<rparr>) else pf_quote j s)"
    using assms by (simp add: updateSubscribers_def n q)
  show "qm_out (cp_qm (updateSubscribers now m k s)) =
      qm_out (cp_qm s) @ (if isChanged (qs_quote x) then [message_stats now m (qs_quote x)] else [])"
    using assms by (simp add: updateSubscribers_def n)
qed

lemma updateSubscribers_none: "pf_quote k s = None \<Longrightarrow> updateSubscribers now m k s = s"
  by (simp add: updateSubscribers_def)

lemma qm_onQuote_frame [simp]:
  "qm_isMultithreaded (qm_onQuote k m) = qm_isMultithreaded m" "st_index1 (getStore (qm_onQuote k m)) = st_index1 (getStore m)"
  by (auto simp: qm_onQuote_def getStore_def Let_def split: option.split)

lemma pf_notify_frame [simp]:
  "cp_coalesce (pf_notify k s) = cp_coalesce s" "cp_normalOnly (pf_notify k s) = cp_normalOnly s"
  "cp_updated (pf_notify k s) = cp_updated s" "touched c (pf_notify k s) = touched c s"
  "qm_isMultithreaded (cp_qm (pf_notify k s)) = qm_isMultithreaded (cp_qm s)"
  "getQuoteByKeyNum1 (getStore (cp_qm (pf_notify k s))) = getQuoteByKeyNum1 (getStore (cp_qm s))"
  by (simp_all add: pf_notify_def touched_def getQuoteByKeyNum1_def fun_eq_iff)

lemma updateSubscribers_frame [simp]:
  "cp_coalesce (updateSubscribers now m k s) = cp_coalesce s" "cp_normalOnly (updateSubscribers now m k s) = cp_normalOnly s"
  "cp_updated (updateSubscribers now m k s) = cp_updated s" "touched c (updateSubscribers now m k s) = touched c s"
  "qm_isMultithreaded (cp_qm (updateSubscribers now m k s)) = qm_isMultithreaded (cp_qm s)"
  "getQuoteByKeyNum1 (getStore (cp_qm (updateSubscribers now m k s))) = getQuoteByKeyNum1 (getStore (cp_qm s))"
  by (simp_all add: updateSubscribers_def split: option.split)

subsection \<open>Books and trades leave each other alone\<close>

lemma isTrade_mark: "bit m 0 = False \<Longrightarrow> isTrade (q_mark m q) = isTrade q"
  by (auto simp: isTrade_def q_has_iff mask_bits_ohl q_mark_def bit_or_iff)

lemma isTrade_flag: "q_flag q = q_flag q' \<Longrightarrow> isTrade q = isTrade q'"
  by (simp add: isTrade_def q_has_def)

definition same_trade :: "'d quote \<Rightarrow> 'd quote \<Rightarrow> bool" where
  "same_trade q q' \<longleftrightarrow> isTrade q = isTrade q' \<and> ps_price (q_trade q) = ps_price (q_trade q') \<and>
     ps_size (q_trade q) = ps_size (q_trade q') \<and> q_instrumentId q = q_instrumentId q' \<and>
     q_instrument q = q_instrument q'"

lemma same_trade_left: "same_trade q q' \<Longrightarrow> same_trade q r \<longleftrightarrow> same_trade q' r"
  by (auto simp: same_trade_def)

lemma same_trade_refl [simp]: "same_trade q q"
  by (simp add: same_trade_def)

lemma level_writes_same:
  "same_trade (setBidPrice t l q) q" "same_trade (setBidSize n l q) q" "same_trade (setAskPrice t l q) q" "same_trade (setAskSize n l q) q"
  "same_trade (upd_bid l f q) q" "same_trade (upd_ask l f q) q"
  "same_trade (setOpen t q) q" "same_trade (setHigh t q) q" "same_trade (setLow t q) q"
  using mask_bits [of l 0] mask_bits_ohl [of 0]
  by (auto simp: same_trade_def set_op_defs SIZE_def isTrade_mark) (auto simp: q_mark_def isTrade_def q_has_def)

lemma checks_same: "same_trade (checkGappedQuote a b g q) q"
  by (simp add: same_trade_def checkGappedQuote_def Let_def isTrade_def q_has_def)

lemmas same_trade_simps [simp] = level_writes_same [THEN same_trade_left] checks_same [THEN same_trade_left]

lemma apply_level_same [simp]: "same_trade (apply_bid c l v q) r = same_trade q r" "same_trade (apply_ask c l v q) r = same_trade q r"
  by (simp_all add: apply_bid_def apply_ask_def Let_def)

lemma apply_book_same: "same_trade (apply_book c b (pf_stamp now q)) q"
proof -
  have "same_trade (fold (\<lambda>l q. apply_ask c l (mb_asks b l) (apply_bid c l (mb_bids b l) q)) ls q') r = same_trade q' r" for ls q' r
    by (induction ls arbitrary: q') simp_all
  moreover have "same_trade (pf_stamp now q) q" by (simp add: same_trade_def pf_stamp_def isTrade_def q_has_def)
  ultimately show ?thesis by (simp add: apply_book_def)
qed

subsection \<open>Volume\<close>

text \<open>What a quote says was traded at a price.\<close>

definition says :: "u32 \<Rightarrow> ticks \<Rightarrow> 'd quote \<Rightarrow> int" where
  "says k p q = (if q_instrumentId q = k \<and> isTrade q \<and> ps_price (q_trade q) = p then ps_size (q_trade q) else 0)"

definition passed_on :: "u32 \<Rightarrow> ticks \<Rightarrow> ('d, 'c) channel_pf \<Rightarrow> int" where
  "passed_on k p s = sum_list (map (says k p) (qm_out (cp_qm s)))"

definition pending :: "u32 \<Rightarrow> ticks \<Rightarrow> ('d, 'c) channel_pf \<Rightarrow> int" where
  "pending k p s = (case pf_quote k s of None \<Rightarrow> 0 | Some x \<Rightarrow> says k p (qs_quote x))"

text \<open>What the handler reports of a channel as a whole.\<close>

datatype md_notice = NoticeError md_error | NoticeState md_state | NoticeWarning md_warning
  | NoticeSuspended | NoticeReplayError | NoticeReplayFinished

fun notice_status :: "md_notice \<Rightarrow> eStatus" where
  "notice_status (NoticeError e) = error_status e"
| "notice_status (NoticeState e) = state_status e"
| "notice_status (NoticeWarning w) = warning_status w"
| "notice_status NoticeSuspended = kStaleQuote"
| "notice_status NoticeReplayError = kReplayError"
| "notice_status NoticeReplayFinished = kReplayFinished"

fun on_notice ::
    "(instr_id \<Rightarrow> string) \<Rightarrow> int \<Rightarrow> u32 list \<Rightarrow> md_notice \<Rightarrow> string \<Rightarrow> ('d::{zero,ord}, 'c) channel_pf \<Rightarrow> ('d, 'c) channel_pf" where
  "on_notice var1 now keys (NoticeError e) ch s = onError var1 now keys e ch s"
| "on_notice var1 now keys (NoticeState e) ch s = onHandlerStateChange var1 now keys e ch s"
| "on_notice var1 now keys (NoticeWarning w) ch s = onWarning var1 now keys w ch s"
| "on_notice var1 now keys NoticeSuspended ch s = onProcessingSuspended var1 now keys ch s"
| "on_notice var1 now keys NoticeReplayError ch s = onReplayError var1 now keys ch s"
| "on_notice var1 now keys NoticeReplayFinished ch s = onReplayFinished var1 now keys ch s"

datatype 'd md_call =
  CallBook int "'d md_book" string
| CallTrade int "'d md_trade" string
| CallStatistics int "'d md_statistics" string
| CallStatus int md_status string
| CallEnd "u32 list \<Rightarrow> u32 list" int md_message string
| CallReset u32
| CallNotice "instr_id \<Rightarrow> string" int "u32 list" md_notice string

fun md_apply :: "('d::floor_ceiling) md_call \<Rightarrow> ('d, 'c) channel_pf \<Rightarrow> ('d, 'c) channel_pf" where
  "md_apply (CallBook now b ch) s = onDirectBookUpdated now b ch s"
| "md_apply (CallTrade now t ch) s = onTrade now t ch s"
| "md_apply (CallStatistics now e ch) s = onStatistics now e ch s"
| "md_apply (CallStatus now e ch) s = onSecurityStatus now e ch s"
| "md_apply (CallEnd arrange now m ch) s = onProcessingEnd arrange now m ch s"
| "md_apply (CallReset secId) s = onStatisticsReset secId s"
| "md_apply (CallNotice var1 now keys e ch) s = on_notice var1 now keys e ch s"

text \<open>The quantity a call adds at a price.\<close>

fun traded :: "u32 \<Rightarrow> converter \<Rightarrow> bool \<Rightarrow> ticks \<Rightarrow> ('d::floor_ceiling) md_call \<Rightarrow> int" where
  "traded sec conv normalOnly p (CallTrade now t ch) =
     (case mdt_quantity t of
        None \<Rightarrow> 0
      | Some n \<Rightarrow> if mdt_securityId t = sec \<and> n \<ge> 1 \<and> (normalOnly \<longrightarrow> mdt_condition t = OtherCondition) \<and>
          tc_fromExchangePrice conv (mdt_price t) = p then n else 0)"
| "traded sec conv normalOnly p _ = 0"

text \<open>
  What a call passes on of a trade that is still waiting, without taking the trade out of the quote: a reset of
  the statistics of the security, and a report about the channel of its instrument, once for the quote in the
  hash table.
\<close>

definition instrument_of :: "u32 \<Rightarrow> ('d, 'c) channel_pf \<Rightarrow> instr_id" where
  "instrument_of k s = (case pf_quote k s of None \<Rightarrow> 0 | Some x \<Rightarrow> (case q_instrument (qs_quote x) of None \<Rightarrow> 0 | Some i \<Rightarrow> ins_keyId i))"

fun echo :: "u32 \<Rightarrow> u32 \<Rightarrow> ticks \<Rightarrow> ('d::floor_ceiling) md_call \<Rightarrow> ('d, 'c) channel_pf \<Rightarrow> int" where
  "echo k sec p (CallReset secId) s = (if secId = sec then pending k p s else 0)"
| "echo k sec p (CallNotice var1 now keys e ch) s =
     (if notice_status e \<noteq> kSuccess \<and> var1 (instrument_of k s) = ch then int (count_list keys k) * pending k p s else 0)"
| "echo k sec p _ s = 0"

fun echoed :: "u32 \<Rightarrow> u32 \<Rightarrow> ticks \<Rightarrow> ('d::floor_ceiling) md_call list \<Rightarrow> ('d, 'c) channel_pf \<Rightarrow> int" where
  "echoed k sec p [] s = 0"
| "echoed k sec p (c # cs) s = echo k sec p c s + echoed k sec p cs (md_apply c s)"

fun volume :: "u32 \<Rightarrow> ('d::floor_ceiling) md_call \<Rightarrow> int" where
  "volume sec (CallTrade now t ch) =
     (case mdt_quantity t of None \<Rightarrow> 0 | Some n \<Rightarrow> if mdt_securityId t = sec \<and> n \<ge> 1 then n else 0)"
| "volume sec _ = 0"

fun on_channel :: "u32 \<Rightarrow> string \<Rightarrow> 'd md_call \<Rightarrow> bool" where
  "on_channel sec ch (CallTrade now t ch') \<longleftrightarrow> mdt_securityId t = sec \<longrightarrow> ch' = ch"
| "on_channel sec ch (CallEnd arrange now m ch') \<longleftrightarrow> (\<forall>ks. mset (arrange ks) = mset ks)"
| "on_channel sec ch _ \<longleftrightarrow> True"

text \<open>The quote \<open>k\<close> of the security \<open>sec\<close>, while nothing is lost; \<open>v\<close> is the volume so far.\<close>

definition flow_ok :: "u32 \<Rightarrow> u32 \<Rightarrow> converter \<Rightarrow> bool \<Rightarrow> string \<Rightarrow> int \<Rightarrow> ('d::{zero,ord}, 'c) channel_pf \<Rightarrow> bool" where
  "flow_ok k sec conv normalOnly ch v s \<longleftrightarrow>
     \<not> qm_isMultithreaded (cp_qm s) \<and> cp_coalesce s \<and> cp_normalOnly s = normalOnly \<and>
     (\<forall>c. getQuoteByKeyNum1 (getStore (cp_qm s)) c = Some k \<longleftrightarrow> c = sec) \<and>
     (\<forall>j y. pf_quote j s = Some y \<longrightarrow> q_instrumentId (qs_quote y) = j) \<and>
     (\<exists>x. pf_quote k s = Some x \<and> q_isValid (qs_quote x) \<and> isSubscribed x \<and> qs_convert x = conv \<and>
        (isTrade (qs_quote x) \<longrightarrow> k \<in> touched (channelIdToInt ch) s \<and> 0 \<le> ps_size (q_trade (qs_quote x)) \<and> ps_size (q_trade (qs_quote x)) \<le> v))"

text \<open>A write that leaves the trade alone.\<close>

lemma flow_write:
  assumes "flow_ok k sec conv n ch v s" and "\<And>q. same_trade (f q) q"
  shows "flow_ok k sec conv n ch v (pf_write j f s) \<and> pending k p (pf_write j f s) = pending k p s \<and>
    passed_on k p (pf_write j f s) = passed_on k p s"
proof -
  have f: "isTrade (f q) = isTrade q" "ps_price (q_trade (f q)) = ps_price (q_trade q)" "ps_size (q_trade (f q)) = ps_size (q_trade q)"
    "q_instrumentId (f q) = q_instrumentId q" "q_instrument (f q) = q_instrument q" for q
    using assms(2) [of q] by (simp_all add: same_trade_def)
  then have "flow_ok k sec conv n ch v (pf_write j f s)"
    using assms(1) by (auto simp: flow_ok_def isSubscribed_def q_isValid_def)
  moreover have "pending k p (pf_write j f s) = pending k p s"
    by (simp add: pending_def says_def f split: option.split)
  ultimately show ?thesis by (simp add: passed_on_def)
qed

lemma flow_touch:
  assumes "flow_ok k sec conv n ch v s"
  shows "flow_ok k sec conv n ch v (pf_touch ch' j s) \<and> pending k p (pf_touch ch' j s) = pending k p s \<and>
    passed_on k p (pf_touch ch' j s) = passed_on k p s"
  using assms by (auto simp: flow_ok_def pending_def passed_on_def)

lemma flow_update:
  assumes f: "flow_ok k sec conv n ch v s"
  shows "flow_ok k sec conv n ch v (updateSubscribers now m j s) \<and>
    passed_on k p (updateSubscribers now m j s) + pending k p (updateSubscribers now m j s) = passed_on k p s + pending k p s"
proof (cases "pf_quote j s")
  case None
  then show ?thesis using f by (simp add: updateSubscribers_none)
next
  case (Some y)
  have single: "\<not> qm_isMultithreaded (cp_qm s)" using f by (simp add: flow_ok_def)
  note u = updateSubscribers_single [OF single Some, where now = now and m = m]
  have id: "q_instrumentId (qs_quote y) = j" using f Some by (simp add: flow_ok_def)
  have "flow_ok k sec conv n ch v (updateSubscribers now m j s)"
    using f Some id by (auto simp: flow_ok_def u isTrade_def q_has_def q_isValid_def isSubscribed_def)
  moreover have "says k p (message_stats now m (qs_quote y)) = says k p (qs_quote y)"
    by (simp add: says_def isTrade_def q_has_def)
  then have "passed_on k p (updateSubscribers now m j s) = passed_on k p s + (if isChanged (qs_quote y) then says k p (qs_quote y) else 0)"
    by (simp add: passed_on_def u)
  moreover have "pending k p (updateSubscribers now m j s) =
      (if j = k \<and> isChanged (qs_quote y) then 0 else pending k p s)"
    using Some by (simp add: pending_def u says_def isTrade_def q_has_def)
  moreover have "j \<noteq> k \<Longrightarrow> says k p (qs_quote y) = 0" using id by (simp add: says_def)
  ultimately show ?thesis using Some by (auto simp: pending_def)
qed

lemma flow_listened:
  assumes f: "flow_ok k sec conv n ch v s"
    and step: "\<And>j x. pf_quote j s = Some x \<Longrightarrow> (j = k \<longleftrightarrow> secId = sec) \<Longrightarrow> (j = k \<longrightarrow> qs_convert x = conv) \<Longrightarrow> P (g j x)"
    and "secId \<noteq> sec \<Longrightarrow> P s"
  shows "P (pf_listened secId g s)"
proof -
  have "getQuoteByKeyNum1 (getStore (cp_qm s)) secId = Some k \<longleftrightarrow> secId = sec"
    and "\<exists>x. pf_quote k s = Some x \<and> q_isValid (qs_quote x) \<and> isSubscribed x \<and> qs_convert x = conv"
    using f by (auto simp: flow_ok_def)
  then show ?thesis using assms(2,3) by (auto simp: pf_listened_def split: option.split)
qed

definition flow_goes ::
    "u32 \<Rightarrow> u32 \<Rightarrow> converter \<Rightarrow> bool \<Rightarrow> string \<Rightarrow> int \<Rightarrow> ticks \<Rightarrow> int \<Rightarrow> ('d::{zero,ord}, 'c) channel_pf \<Rightarrow> bool" where
  "flow_goes k sec conv n ch v p t s \<longleftrightarrow> flow_ok k sec conv n ch v s \<and> passed_on k p s + pending k p s = t"

lemma flow_goes_write: "flow_goes k sec conv n ch v p t s \<Longrightarrow> (\<And>q. same_trade (f q) q) \<Longrightarrow> flow_goes k sec conv n ch v p t (pf_write j f s)"
  using flow_write [of k sec conv n ch v s f] unfolding flow_goes_def by metis

lemma flow_goes_touch: "flow_goes k sec conv n ch v p t s \<Longrightarrow> flow_goes k sec conv n ch v p t (pf_touch ch' j s)"
  using flow_touch [of k sec conv n ch v s] unfolding flow_goes_def by metis

lemma flow_goes_update: "flow_goes k sec conv n ch v p t s \<Longrightarrow> flow_goes k sec conv n ch v p t (updateSubscribers now m j s)"
  using flow_update [of k sec conv n ch v s now m j p] unfolding flow_goes_def by simp

lemma flow_coalesce: "flow_goes k sec conv n ch v p t s \<Longrightarrow> cp_coalesce s"
  by (simp add: flow_goes_def flow_ok_def)

lemma flow_goes_okD: "flow_goes k sec conv n ch v p t s \<Longrightarrow> flow_ok k sec conv n ch v s"
  by (simp add: flow_goes_def)

lemma flow_book: "flow_goes k sec conv n ch v p t s \<Longrightarrow> flow_goes k sec conv n ch v p t (onDirectBookUpdated now b ch' s)"
  unfolding onDirectBookUpdated_def Let_def
  by (rule flow_listened [OF flow_goes_okD]) (simp_all add: flow_goes_write flow_goes_touch flow_goes_update apply_book_same)

lemma stat_same: "same_trade (stat_write e v q) q"
  by (cases e) simp_all

lemma flow_statistics: "flow_goes k sec conv n ch v p t s \<Longrightarrow> flow_goes k sec conv n ch v p t (onStatistics now e ch' s)"
  unfolding onStatistics_def Let_def
  by (rule flow_listened [OF flow_goes_okD]) (simp_all add: flow_goes_write flow_goes_touch flow_goes_update stat_same del: pf_write_simps(1) split: option.split)

lemma event_same: "same_trade (status_write e q) q"
  by (cases e) (simp_all add: same_trade_def isTrade_def q_has_def)

lemma flow_status: "flow_goes k sec conv n ch v p t s \<Longrightarrow> flow_goes k sec conv n ch v p t (onSecurityStatus now e ch' s)"
proof (cases "mdx_securityId e")
  case (Some secId)
  assume g: "flow_goes k sec conv n ch v p t s"
  show ?thesis unfolding onSecurityStatus_def Some Let_def option.case
    by (rule flow_listened [OF flow_goes_okD [OF g]]) (simp_all add: g flow_goes_write flow_goes_touch flow_goes_update event_same del: pf_write_simps(1) split: option.split)
qed (simp add: onSecurityStatus_def)

subsection \<open>Notifications that leave the trade in the quote\<close>

lemma pf_notify_quotes:
  assumes "\<not> qm_isMultithreaded (cp_qm s)"
  shows "pf_quote j (pf_notify k s) = pf_quote j s"
proof -
  have "pf_quote j (s\<lparr>cp_qm := (cp_qm s)\<lparr>qm_out := os\<rparr>\<rparr>) = pf_quote j s" for os
    by (simp add: pf_quote_def getStore_def)
  then show ?thesis using pf_notify_single [OF assms] by (simp split: option.split)
qed

lemma flow_notify:
  assumes g: "flow_goes k sec conv n ch v p t s"
  shows "flow_goes k sec conv n ch v p (t + (if j = k then pending k p s else 0)) (pf_notify j s)"
    and "pending k p (pf_notify j s) = pending k p s" and "instrument_of k (pf_notify j s) = instrument_of k s"
proof -
  have ok: "flow_ok k sec conv n ch v s" using g by (simp add: flow_goes_def)
  then have single: "\<not> qm_isMultithreaded (cp_qm s)" by (simp add: flow_ok_def)
  note q = pf_notify_quotes [OF single]
  show "pending k p (pf_notify j s) = pending k p s" "instrument_of k (pf_notify j s) = instrument_of k s"
    by (simp_all add: pending_def instrument_of_def q)
  have "flow_ok k sec conv n ch v (pf_notify j s)" using ok by (simp add: flow_ok_def q)
  moreover have "passed_on k p (pf_notify j s) = passed_on k p s + (if j = k then pending k p s else 0)"
  proof (cases "pf_quote j s")
    case (Some y)
    then have "q_instrumentId (qs_quote y) = j" using ok by (simp add: flow_ok_def)
    moreover have "pf_notify j s = s\<lparr>cp_qm := (cp_qm s)\<lparr>qm_out := qm_out (cp_qm s) @ [qs_quote y]\<rparr>\<rparr>"
      using Some by (simp add: pf_notify_single [OF single])
    ultimately show ?thesis using Some by (cases "j = k") (auto simp: passed_on_def pending_def says_def)
  next
    case None
    then show ?thesis by (auto simp: pf_notify_single [OF single] pending_def)
  qed
  ultimately show "flow_goes k sec conv n ch v p (t + (if j = k then pending k p s else 0)) (pf_notify j s)"
    using g \<open>pending k p (pf_notify j s) = pending k p s\<close> by (simp add: flow_goes_def)
qed

text \<open>A write of the status or the time, alone.\<close>

lemma write_keeps:
  assumes g: "flow_goes k sec conv n ch v p t s" and f: "\<And>q. same_trade (f q) q"
  shows "pending k p (pf_write j f s) = pending k p s" and "instrument_of k (pf_write j f s) = instrument_of k s"
  using flow_write [OF flow_goes_okD [OF g] f, where j = j and p = p] f
  by (auto simp: instrument_of_def same_trade_def split: option.split)

lemma quiet_same: "same_trade (q\<lparr>q_timestamp2 := now\<rparr>) q" "same_trade (q\<lparr>q_status := st\<rparr>) q"
  by (simp_all add: same_trade_def isTrade_def q_has_def)

lemma flow_reset:
  assumes g: "flow_goes k sec conv n ch v p t s"
  shows "flow_goes k sec conv n ch v p (t + echo k sec p (CallReset secId) s) (onStatisticsReset secId s)"
  unfolding onStatisticsReset_def
proof (rule flow_listened [OF flow_goes_okD [OF g]])
  fix j x assume "j = k \<longleftrightarrow> secId = sec"
  moreover let ?w = "pf_write j (\<lambda>q. q\<lparr>q_status := kHLOReset\<rparr>) s"
  have "flow_goes k sec conv n ch v p t ?w" by (rule flow_goes_write [OF g quiet_same(2)])
  from flow_notify(1) [OF this, of j] write_keeps(1) [OF g, where f = "\<lambda>q. q\<lparr>q_status := kHLOReset\<rparr>" and j = j, OF quiet_same(2)]
  have "flow_goes k sec conv n ch v p (t + (if j = k then pending k p s else 0)) (pf_notify j ?w)" by (simp only:)
  ultimately show "flow_goes k sec conv n ch v p (t + echo k sec p (CallReset secId) s) (pf_notify j ?w)" by simp
qed (use g in simp)

lemma flow_channel_status:
  assumes g: "flow_goes k sec conv n ch v p t s"
  shows "flow_goes k sec conv n ch v p (t + (if j = k \<and> var1 (instrument_of k s) = ch' then pending k p s else 0))
      (channel_status var1 now st ch' j s) \<and>
    pending k p (channel_status var1 now st ch' j s) = pending k p s \<and>
    instrument_of k (channel_status var1 now st ch' j s) = instrument_of k s"
proof -
  let ?w = "pf_write j (\<lambda>q. q\<lparr>q_timestamp2 := now\<rparr>) s" and ?f = "\<lambda>q. q\<lparr>q_status := st\<rparr>"
  have w: "flow_goes k sec conv n ch v p t ?w" by (rule flow_goes_write [OF g quiet_same(1)])
  note kw = write_keeps [OF g, where f = "\<lambda>q. q\<lparr>q_timestamp2 := now\<rparr>" and j = j, OF quiet_same(1)]
  have w2: "flow_goes k sec conv n ch v p t (pf_write j ?f ?w)" by (rule flow_goes_write [OF w quiet_same(2)])
  note kw2 = write_keeps [OF w, where f = ?f and j = j, OF quiet_same(2)]
  note nt = flow_notify [OF w2, of j, unfolded kw2 kw]
  obtain x where x: "pf_quote k ?w = Some x" "q_isValid (qs_quote x)" "isSubscribed x" using w by (auto simp: flow_goes_def flow_ok_def)
  have i: "instrument_of k s = (case q_instrument (qs_quote x) of None \<Rightarrow> 0 | Some i \<Rightarrow> ins_keyId i)"
    unfolding kw(2) [symmetric] by (simp only: instrument_of_def x(1) option.case)
  show ?thesis
  proof (cases "j = k")
    case True
    then show ?thesis using x i w nt kw
      by (simp add: channel_status_def Let_def del: pf_write_simps(1))
  next
    case False
    then show ?thesis using w nt kw
      by (simp add: channel_status_def Let_def del: pf_write_simps(1) split: option.split)
  qed
qed

lemma flow_all_quotes:
  "flow_goes k sec conv n ch v p t s \<Longrightarrow>
   flow_goes k sec conv n ch v p (t + (if var1 (instrument_of k s) = ch' then int (count_list keys k) * pending k p s else 0))
     (all_quotes var1 now keys st ch' s)"
proof (induction keys arbitrary: t s)
  case (Cons j keys)
  let ?c = "channel_status var1 now st ch' j s"
  note c = flow_channel_status [OF Cons.prems, of j var1 ch' now st]
  from Cons.IH [OF conjunct1 [OF c]] c show ?case
    by (cases "j = k"; cases "var1 (instrument_of k s) = ch'") (simp_all add: all_quotes_def algebra_simps)
qed (simp add: all_quotes_def)

lemma on_notice_quotes:
  "on_notice var1 now keys e ch s = (if notice_status e = kSuccess then s else all_quotes var1 now keys (notice_status e) ch s)"
  by (cases e) (auto simp: onError_def onHandlerStateChange_def onWarning_def onProcessingSuspended_def onReplayError_def
      onReplayFinished_def pf_status_def)

lemma flow_notice:
  assumes "flow_goes k sec conv n ch v p t s"
  shows "flow_goes k sec conv n ch v p (t + echo k sec p (CallNotice var1 now keys e ch') s) (on_notice var1 now keys e ch' s)"
  using flow_all_quotes [OF assms, of var1 ch' keys now "notice_status e"] assms by (simp add: on_notice_quotes)

subsection \<open>The end of a message\<close>

lemma flow_updates: "flow_goes k sec conv n ch v p t s \<Longrightarrow> flow_goes k sec conv n ch v p t (fold (updateSubscribers now m) ks s)"
  by (induction ks arbitrary: s) (simp_all add: flow_goes_update)

lemma update_pending:
  assumes "\<not> qm_isMultithreaded (cp_qm s)" and "pf_quote k (updateSubscribers now m j s) = Some x" and "isTrade (qs_quote x)"
  shows "k \<noteq> j \<and> pf_quote k s = Some x"
proof (cases "pf_quote j s")
  case None
  then show ?thesis using assms by (auto simp: updateSubscribers_none)
next
  case (Some y)
  have "isTrade (qs_quote y) \<Longrightarrow> isChanged (qs_quote y)" by (auto simp: isTrade_def q_has_def isChanged_def)
  moreover have "\<not> isTrade (q_clearRuntime False now q)" for q :: "'a quote" by (simp add: isTrade_def q_has_def)
  ultimately show ?thesis using assms(2,3) Some
    unfolding updateSubscribers_single(1) [OF assms(1) Some] by (auto split: if_splits)
qed

lemma updates_pending:
  assumes "\<not> qm_isMultithreaded (cp_qm s)" and "pf_quote k (fold (updateSubscribers now m) ks s) = Some x" and "isTrade (qs_quote x)"
  shows "k \<notin> set ks \<and> pf_quote k s = Some x"
  using assms(1,2)
proof (induction ks arbitrary: s)
  case (Cons j ks)
  have "k \<notin> set ks \<and> pf_quote k (updateSubscribers now m j s) = Some x"
    using Cons.prems by (intro Cons.IH) simp_all
  then show ?case using update_pending [OF Cons.prems(1) _ assms(3), of k now m j] by simp
qed simp

lemma flow_mono: "flow_ok k sec conv n ch v s \<Longrightarrow> v \<le> v' \<Longrightarrow> flow_ok k sec conv n ch v' s"
  by (auto simp: flow_ok_def)

lemma flow_end:
  assumes g: "flow_goes k sec conv n ch v p t s" and a: "\<forall>ks. mset (arrange ks) = mset ks"
  shows "flow_goes k sec conv n ch v p t (onProcessingEnd arrange now m ch' s)"
    and "channelIdToInt ch' = channelIdToInt ch \<Longrightarrow> pending k p (onProcessingEnd arrange now m ch' s) = 0"
proof -
  let ?e = "onProcessingEnd arrange now m ch' s" and ?c = "channelIdToInt ch"
  have ok: "flow_ok k sec conv n ch v s" and co: "cp_coalesce s" using g by (simp_all add: flow_goes_def flow_ok_def)
  have fin: "flow_goes k sec conv n ch v p t ?e \<and> (channelIdToInt ch' = ?c \<longrightarrow> pending k p ?e = 0)"
  proof (cases "cp_updated s (channelIdToInt ch')")
    case None
    then show ?thesis using g ok co
      by (auto simp: onProcessingEnd_def flow_ok_def touched_def pending_def says_def)
  next
    case (Some ks)
    show ?thesis
    proof (cases "ks = []")
      case True
      then show ?thesis using g ok co Some
        by (auto simp: onProcessingEnd_def flow_ok_def touched_def pending_def says_def)
    next
      case False
      let ?u = "fold (updateSubscribers now m) (arrange ks) s"
      have set: "set (arrange ks) = set ks" using a mset_eq_setD by blast
      have e: "?e = ?u\<lparr>cp_updated := (cp_updated ?u)(channelIdToInt ch' \<mapsto> [])\<rparr>"
        using co Some False by (simp add: onProcessingEnd_def Let_def)
      have q: "pf_quote j ?e = pf_quote j ?u" "cp_qm ?e = cp_qm ?u" "cp_coalesce ?e = cp_coalesce ?u" "cp_normalOnly ?e = cp_normalOnly ?u" for j
        unfolding e by (simp_all add: pf_quote_def)
      have g': "flow_goes k sec conv n ch v p t ?u" by (rule flow_updates [OF g])
      have single: "\<not> qm_isMultithreaded (cp_qm s)" using ok by (simp add: flow_ok_def)
      have clear: "\<not> isTrade (qs_quote x)" if "channelIdToInt ch' = ?c" "pf_quote k ?u = Some x" for x
      proof
        assume tr: "isTrade (qs_quote x)"
        have "k \<notin> set ks" "pf_quote k s = Some x" using updates_pending [OF single that(2) tr] set by simp_all
        then show False using ok tr that(1) Some by (simp add: flow_ok_def touched_def)
      qed
      have t: "channelIdToInt ch' \<noteq> ?c \<Longrightarrow> touched ?c ?e = touched ?c ?u" unfolding e by (simp add: touched_def)
      have u: "flow_ok k sec conv n ch v ?u" using g' by (simp add: flow_goes_def)
      then obtain x where x: "pf_quote k ?u = Some x" by (auto simp: flow_ok_def)
      have "flow_ok k sec conv n ch v ?e"
        using u clear [OF _ x] t x unfolding flow_ok_def q by auto
      moreover have "passed_on k p ?e = passed_on k p ?u" "pending k p ?e = pending k p ?u"
        unfolding passed_on_def pending_def q by simp_all
      moreover have "pending k p ?u = 0" if "channelIdToInt ch' = ?c"
        using clear [OF that x] x by (simp add: pending_def says_def)
      ultimately show ?thesis using g' by (simp add: flow_goes_def)
    qed
  qed
  then show "flow_goes k sec conv n ch v p t ?e" "channelIdToInt ch' = ?c \<Longrightarrow> pending k p ?e = 0" by simp_all
qed

subsection \<open>A trade\<close>

lemma flow_other:
  assumes g: "flow_goes k sec conv n ch v p t s" and "j \<noteq> k" and "\<And>q. q_instrumentId (f q) = q_instrumentId q"
  shows "flow_goes k sec conv n ch v p t (pf_write j f s)"
proof -
  have "flow_ok k sec conv n ch v (pf_write j f s)" using assms by (auto simp: flow_goes_def flow_ok_def)
  then show ?thesis using assms by (simp add: flow_goes_def passed_on_def pending_def)
qed

definition sets_trade :: "ticks \<Rightarrow> int \<Rightarrow> ('d quote \<Rightarrow> 'd quote) \<Rightarrow> bool" where
  "sets_trade x n f \<longleftrightarrow> (\<forall>q. isTrade (f q) \<and> ps_price (q_trade (f q)) = x \<and> ps_size (q_trade (f q)) = n \<and>
     q_instrumentId (f q) = q_instrumentId q \<and> q_instrument (f q) = q_instrument q)"

lemma sets_trade_simps: "sets_trade x n (setTrade x n)" "sets_trade x n (\<lambda>q. setTrade x n (set_tick c q))"
  by (auto simp: sets_trade_def setTrade_def isTrade_def q_has_iff mask_bits_ohl q_mark_def bit_or_iff ps_set_def set_tick_def)

lemma flow_set:
  assumes g: "flow_goes k sec conv n ch v p t s" and y: "pf_quote k s = Some y" "\<not> isTrade (qs_quote y)"
    and k: "k \<in> touched (channelIdToInt ch) s" and f: "sets_trade x qty f" and "1 \<le> qty" "0 \<le> v"
  shows "flow_goes k sec conv n ch (v + qty) p (t + (if x = p then qty else 0)) (pf_write k f s)"
proof -
  have ok: "flow_ok k sec conv n ch v s" using g by (simp add: flow_goes_def)
  have "flow_ok k sec conv n ch (v + qty) (pf_write k f s)"
    using ok y f k assms(6,7) by (simp add: flow_ok_def sets_trade_def q_isValid_def isSubscribed_def)
  moreover have "q_instrumentId (qs_quote y) = k" using ok y by (simp add: flow_ok_def)
  then have "pending k p (pf_write k f s) = (if x = p then qty else 0)"
    using y f by (simp add: pending_def says_def sets_trade_def)
  moreover have "pending k p s = 0" using y by (simp add: pending_def says_def)
  ultimately show ?thesis using g by (simp add: flow_goes_def passed_on_def)
qed

lemma flow_grow:
  assumes g: "flow_goes k sec conv n ch v p t s" and y: "pf_quote k s = Some y" "isTrade (qs_quote y)"
    and x: "x = ps_price (q_trade (qs_quote y))" and "1 \<le> qty" and b: "v + qty \<le> INT32_MAX"
  shows "flow_goes k sec conv n ch (v + qty) p (t + (if x = p then qty else 0))
    (pf_write k (\<lambda>q. let q = set_tick c q in q\<lparr>q_trade := (q_trade q)\<lparr>ps_size := size_add_eq (ps_size (q_trade q)) qty\<rparr>\<rparr>) s)"
    (is "flow_goes _ _ _ _ _ _ _ _ (pf_write k ?f s)")
proof -
  have ok: "flow_ok k sec conv n ch v s" using g by (simp add: flow_goes_def)
  have id: "q_instrumentId (qs_quote y) = k" and sz: "0 \<le> ps_size (q_trade (qs_quote y))" "ps_size (q_trade (qs_quote y)) \<le> v"
    using ok y by (auto simp: flow_ok_def)
  have add: "size_add_eq (ps_size (q_trade (qs_quote y))) qty = ps_size (q_trade (qs_quote y)) + qty"
    using sz assms(5) b by (intro tw_exact) (auto simp: tw_ok_def in_s32_iff INT32_MIN_def INT32_MAX_def)
  have q: "isTrade (?f q) = isTrade q" "ps_price (q_trade (?f q)) = ps_price (q_trade q)"
    "ps_size (q_trade (?f q)) = size_add_eq (ps_size (q_trade q)) qty" "q_instrumentId (?f q) = q_instrumentId q"
    "q_instrument (?f q) = q_instrument q" for q
    by (simp_all add: set_tick_def isTrade_def q_has_def)
  have "flow_ok k sec conv n ch (v + qty) (pf_write k ?f s)"
    using ok y sz add assms(5) by (simp add: flow_ok_def q q_isValid_def isSubscribed_def del: Let_def)
  moreover have "pending k p (pf_write k ?f s) = pending k p s + (if x = p then qty else 0)"
    using y x id add by (simp add: pending_def says_def q)
  ultimately show ?thesis using g by (simp add: flow_goes_def passed_on_def)
qed

lemma trade_fields_same: "same_trade (checkGappedTrade x g (trade_fields t q)) q" "same_trade (set_tick c q) q" "same_trade (pf_stamp now q) q"
  by (simp_all add: same_trade_def checkGappedTrade_def trade_fields_def set_tick_def pf_stamp_def Let_def isTrade_def q_has_def)

lemma flow_coalesce_trade:
  assumes g: "flow_goes k sec conv n ch v p t s" and y: "pf_quote k s = Some y"
    and "1 \<le> qty" "0 \<le> v" "v + qty \<le> INT32_MAX"
  shows "flow_goes k sec conv n ch (v + qty) p (t + (if x = p then qty else 0)) (coalesce_trade now tr ch x qty prev k (qs_quote y) s)"
proof (cases "isTrade (qs_quote y)")
  case False
  have "flow_goes k sec conv n ch v p t (pf_touch ch k s)" by (rule flow_goes_touch [OF g])
  then have "flow_goes k sec conv n ch (v + qty) p (t + (if x = p then qty else 0)) (pf_write k (setTrade x qty) (pf_touch ch k s))"
    using y False assms(3,4) by (intro flow_set [where y = y]) (simp_all add: sets_trade_simps)
  moreover have "pf_write k f (pf_touch ch k s) = pf_touch ch k (pf_write k f s)" for f
    by (simp add: pf_write_def put_quote_def pf_touch_def pf_quote_def Let_def split: option.split)
  ultimately show ?thesis using False by (simp add: coalesce_trade_def)
next
  case True
  show ?thesis
  proof (cases "x = ps_price (q_trade (qs_quote y))")
    case same: True
    show ?thesis unfolding coalesce_trade_def using True same flow_grow [OF g y True same assms(3,5)] by simp
  next
    case False
    let ?w = "pf_write k (set_tick prev) s"
    let ?u = "updateSubscribers now (mdt_message tr) k ?w"
    have u: "flow_goes k sec conv n ch v p t ?u"
      by (intro flow_goes_update flow_goes_write g trade_fields_same)
    then obtain z where z: "pf_quote k ?u = Some z" by (auto simp: flow_goes_def flow_ok_def)
    have single: "\<not> qm_isMultithreaded (cp_qm ?w)" using g by (simp add: flow_goes_def flow_ok_def)
    have "\<not> isTrade (qs_quote z)" using update_pending [OF single z] by blast
    moreover have "k \<in> touched (channelIdToInt ch) ?u" using g y True by (auto simp: flow_goes_def flow_ok_def)
    ultimately have "flow_goes k sec conv n ch (v + qty) p (t + (if x = p then qty else 0))
        (pf_write k (\<lambda>q. setTrade x qty (set_tick (tr_tickDirection (q_trade (qs_quote y))) q)) ?u)"
      using u z assms(3,4) by (intro flow_set [where y = z]) (simp_all add: sets_trade_simps)
    then show ?thesis using True False by (simp add: coalesce_trade_def Let_def)
  qed
qed

lemma flow_goes_mono: "flow_goes k sec conv n ch v p t s \<Longrightarrow> v \<le> v' \<Longrightarrow> flow_goes k sec conv n ch v' p t s"
  by (auto simp: flow_goes_def intro: flow_mono)

lemma flow_trade:
  fixes tr :: "('d::floor_ceiling) md_trade"
  assumes g: "flow_goes k sec conv n ch v p t s" and c: "mdt_securityId tr = sec \<Longrightarrow> ch' = ch"
    and v: "0 \<le> v" "v + volume sec (CallTrade now tr ch') \<le> INT32_MAX"
  shows "flow_goes k sec conv n ch (v + volume sec (CallTrade now tr ch')) p (t + traded sec conv n p (CallTrade now tr ch'))
    (onTrade now tr ch' s)"
proof -
  have vol: "0 \<le> volume sec (CallTrade now tr ch')" by (simp split: option.split)
  have no: "cp_normalOnly s = n" and co: "cp_coalesce s" using g by (simp_all add: flow_goes_def flow_ok_def)
  show ?thesis unfolding onTrade_def Let_def
  proof (rule flow_listened [OF flow_goes_okD [OF g]], goal_cases)
    case (1 j x)
    show ?case
    proof (cases "j = k")
      case True
      then have sec: "mdt_securityId tr = sec" and cv: "qs_convert x = conv" using 1 by simp_all
      let ?s1 = "pf_write j (pf_stamp now) s"
      have g1: "flow_goes k sec conv n ch v p t ?s1" by (rule flow_goes_write [OF g trade_fields_same(3)])
      show ?thesis
      proof (cases "mdt_quantity tr")
        case None
        then show ?thesis using g1 by simp
      next
        case (Some qty)
        show ?thesis
        proof (cases "1 \<le> qty \<and> (n \<longrightarrow> mdt_condition tr = OtherCondition)")
          case acc: True
          let ?x = "tc_fromExchangePrice conv (mdt_price tr)"
          let ?s2 = "pf_write j (\<lambda>q. checkGappedTrade ?x MAX_GAP_FROM_PREVIOUS (trade_fields tr q)) ?s1"
          have g2: "flow_goes k sec conv n ch v p t ?s2" by (rule flow_goes_write [OF g1 trade_fields_same(1)])
          then obtain y where y: "pf_quote k ?s2 = Some y" by (auto simp: flow_goes_def flow_ok_def)
          have "flow_goes k sec conv n ch (v + qty) p (t + (if ?x = p then qty else 0))
              (coalesce_trade now tr ch' ?x qty (tr_tickDirection (q_trade (qs_quote x))) k (qs_quote y) ?s2)"
            using flow_coalesce_trade [OF g2 y] v Some sec acc c by simp
          then show ?thesis using True Some sec cv co no y acc
            by (cases n) (simp_all del: pf_write_simps(1))
        next
          case False
          then show ?thesis using flow_goes_mono [OF g1] True Some sec no vol by (auto simp del: pf_write_simps(1))
        qed
      qed
    next
      case False
      then have sec: "mdt_securityId tr \<noteq> sec" using 1 by simp
      then have z: "volume sec (CallTrade now tr ch') = 0" "traded sec conv n p (CallTrade now tr ch') = 0"
        by (simp_all split: option.split)
      have w: "flow_goes k sec conv n ch v p t s' \<Longrightarrow> flow_goes k sec conv n ch v p t (pf_write j f s')"
        if "\<And>q. q_instrumentId (f q) = q_instrumentId q" for s' f
        by (rule flow_other [OF _ False that])
      have ids: "q_instrumentId (pf_stamp now q) = q_instrumentId q" "q_instrumentId (checkGappedTrade a b (trade_fields tr q)) = q_instrumentId q"
        "q_instrumentId (setTrade a b' q) = q_instrumentId q" "q_instrumentId (set_tick d q) = q_instrumentId q" for q :: "'d quote" and a b b' d
        using trade_fields_same(3) [of now q] trade_fields_same(1) [of a b tr q] trade_fields_same(2) [of d q]
        by (simp_all add: same_trade_def setTrade_def q_mark_def)
      show ?thesis unfolding z
        using g by (auto simp: coalesce_trade_def Let_def ids simp del: pf_write_simps(1) split: option.split
            intro!: w flow_goes_touch flow_goes_update)
    qed
  next
    case 2
    then show ?case using g by (auto split: option.split)
  qed
qed

definition flow_ready :: "u32 \<Rightarrow> u32 \<Rightarrow> converter \<Rightarrow> ('d::{zero,ord}, 'c) channel_pf \<Rightarrow> bool" where
  "flow_ready k sec conv s \<longleftrightarrow>
     \<not> qm_isMultithreaded (cp_qm s) \<and> cp_coalesce s \<and>
     (\<forall>c. getQuoteByKeyNum1 (getStore (cp_qm s)) c = Some k \<longleftrightarrow> c = sec) \<and>
     (\<forall>j y. pf_quote j s = Some y \<longrightarrow> q_instrumentId (qs_quote y) = j) \<and>
     (\<exists>x. pf_quote k s = Some x \<and> q_isValid (qs_quote x) \<and> isSubscribed x \<and> qs_convert x = conv \<and> \<not> isTrade (qs_quote x))"

lemma flow_calls:
  fixes calls :: "('d::floor_ceiling) md_call list"
  assumes "flow_goes k sec conv n ch v p t s" and "\<forall>c \<in> set calls. on_channel sec ch c"
    and "0 \<le> v" and "v + sum_list (map (volume sec) calls) \<le> INT32_MAX"
  shows "flow_goes k sec conv n ch (v + sum_list (map (volume sec) calls)) p
    (t + sum_list (map (traded sec conv n p) calls) + echoed k sec p calls s) (fold md_apply calls s)"
  using assms
proof (induction calls arbitrary: v t s)
  case (Cons c calls)
  have vol: "0 \<le> volume sec d" for d :: "'d md_call" by (cases d) (simp_all split: option.split)
  then have rest: "0 \<le> sum_list (map (volume sec) calls)" by (intro sum_list_nonneg) auto
  have "flow_goes k sec conv n ch (v + volume sec c) p (t + traded sec conv n p c + echo k sec p c s) (md_apply c s)"
  proof (cases c)
    case (CallTrade now tr ch')
    then have "v + volume sec (CallTrade now tr ch') \<le> INT32_MAX" "mdt_securityId tr = sec \<Longrightarrow> ch' = ch"
      using Cons.prems rest by auto
    then show ?thesis using flow_trade [OF Cons.prems(1) _ Cons.prems(3), of tr ch' now] CallTrade by simp
  next
    case (CallEnd arrange now m ch')
    then show ?thesis using Cons.prems flow_end(1) [OF Cons.prems(1)] by simp
  next
    case (CallReset secId)
    then show ?thesis using flow_reset [OF Cons.prems(1)] by simp
  next
    case (CallNotice var1 now keys e ch')
    then show ?thesis using flow_notice [OF Cons.prems(1), of var1 now keys e ch'] by simp
  qed (use Cons.prems(1) in \<open>simp_all add: flow_book flow_statistics flow_status\<close>)
  from Cons.IH [OF this] show ?case using Cons.prems vol [of c] by (simp add: add.assoc add.left_commute)
qed simp

text \<open>
  C12: coalescing loses and invents no volume, but for one case. The manager of the quotes is single-threaded,
  \<open>coalesce\<close> is on, one security leads to the quote, which is valid, stays subscribed and starts without a trade, the trades
  of the security come on one channel and their quantities add up to at most the largest 32-bit number. Over any
  sequence of books, trades, statistics, their resets, states of the security, reports about channels and ends of
  messages that closes with the end of a message on the channel of the security, the sizes of the trades passed on
  for its quote at a price add up to the positive quantities reported at that price, however they were merged.
  With \<open>processNormalTradesOnly\<close>, which is the default, opening trades and those calculated by the exchange are left
  out. The one case, stated exactly: a reset of the statistics of the security, or a report with an error status about
  the channel of its instrument, passes the quote on as it is and leaves its trade in it, so that what is waiting
  at that time is passed on once more (\<open>echoed\<close>).
\<close>

theorem coalescing_conserves_volume:
  assumes ready: "flow_ready k sec conv s" and calls: "\<forall>c \<in> set calls. on_channel sec ch c"
    and small: "sum_list (map (volume sec) calls) \<le> INT32_MAX" and arr: "\<forall>ks. mset (arrange ks) = mset ks"
  shows "passed_on k p (onProcessingEnd arrange now m ch (fold md_apply calls s)) =
    passed_on k p s + sum_list (map (traded sec conv (cp_normalOnly s) p) calls) + echoed k sec p calls s"
proof -
  obtain x where x: "pf_quote k s = Some x" "\<not> isTrade (qs_quote x)" using ready by (auto simp: flow_ready_def)
  then have "pending k p s = 0" by (simp add: pending_def says_def)
  moreover have "flow_ok k sec conv (cp_normalOnly s) ch 0 s" using ready x by (auto simp: flow_ready_def flow_ok_def)
  ultimately have "flow_goes k sec conv (cp_normalOnly s) ch 0 p (passed_on k p s) s" by (simp add: flow_goes_def)
  from flow_calls [OF this calls] small
  have "flow_goes k sec conv (cp_normalOnly s) ch (sum_list (map (volume sec) calls)) p
      (passed_on k p s + sum_list (map (traded sec conv (cp_normalOnly s) p) calls) + echoed k sec p calls s) (fold md_apply calls s)" by simp
  from flow_end [OF this arr, where now = now and m = m and ch' = ch] show ?thesis by (simp add: flow_goes_def)
qed

subsection \<open>Books\<close>

definition level_after :: "converter \<Rightarrow> ('d::floor_ceiling) md_level \<Rightarrow> price_size_orders \<Rightarrow> price_size_orders" where
  "level_after conv v old =
     (if s32 (ml_quantity v) > 0
      then \<lparr>ps_price = tc_fromExchangePrice conv (ml_price v), ps_size = s32 (ml_quantity v), ps_numOrders = ml_numOrders v\<rparr> else old)"

lemma check_book [simp]: "q_book (checkGappedQuote a b g q) = q_book q"
  by (simp add: checkGappedQuote_def Let_def)

lemma apply_bid_book:
  assumes "l < SIZE" and "length (q_book q) = SIZE"
  shows "q_book (apply_bid conv l v q) = (q_book q)[l := (q_book q ! l)\<lparr>pl_bid := level_after conv v (pl_bid (q_book q ! l))\<rparr>]"
proof (cases "s32 (ml_quantity v) > 0")
  case True
  then show ?thesis
    using assms by (cases "pl_bid (q_book q ! l)") (auto simp: apply_bid_def level_after_def Let_def set_op_defs q_mark_def SIZE_def)
qed (simp add: apply_bid_def level_after_def)

lemma apply_ask_book:
  assumes "l < SIZE" and "length (q_book q) = SIZE"
  shows "q_book (apply_ask conv l v q) = (q_book q)[l := (q_book q ! l)\<lparr>pl_ask := level_after conv v (pl_ask (q_book q ! l))\<rparr>]"
proof (cases "s32 (ml_quantity v) > 0")
  case True
  then show ?thesis
    using assms by (cases "pl_ask (q_book q ! l)") (auto simp: apply_ask_def level_after_def Let_def set_op_defs q_mark_def SIZE_def)
qed (simp add: apply_ask_def level_after_def)

definition level_of :: "converter \<Rightarrow> ('d::floor_ceiling) md_book \<Rightarrow> nat \<Rightarrow> price_level \<Rightarrow> price_level" where
  "level_of conv b l old = (if l < mb_depth b
     then \<lparr>pl_bid = level_after conv (mb_bids b l) (pl_bid old), pl_ask = level_after conv (mb_asks b l) (pl_ask old)\<rparr> else old)"

lemma apply_book_levels:
  assumes "length (q_book q) = SIZE" and "l < SIZE"
  shows "q_book (apply_book conv b q) ! l = level_of conv b l (q_book q ! l)"
proof -
  have "length (q_book (fold (\<lambda>l q. apply_ask conv l (mb_asks b l) (apply_bid conv l (mb_bids b l) q)) [0..<n] q)) = SIZE \<and>
      (\<forall>l < SIZE. q_book (fold (\<lambda>l q. apply_ask conv l (mb_asks b l) (apply_bid conv l (mb_bids b l) q)) [0..<n] q) ! l =
        (if l < n then \<lparr>pl_bid = level_after conv (mb_bids b l) (pl_bid (q_book q ! l)), pl_ask = level_after conv (mb_asks b l) (pl_ask (q_book q ! l))\<rparr>
         else q_book q ! l))" if "n \<le> SIZE" for n
    using that by (induction n) (auto simp: assms(1) apply_bid_book apply_ask_book nth_list_update less_Suc_eq)
  from this [of "min (mb_depth b) SIZE"] show ?thesis using assms(2) by (simp add: apply_book_def level_of_def)
qed

lemma notify_books: "map_option (\<lambda>y. q_book (qs_quote y)) (pf_quote j (pf_notify k s)) = map_option (\<lambda>y. q_book (qs_quote y)) (pf_quote j s)"
  by (auto simp: pf_notify_def qm_onQuote_def pf_quote_def getStore_def Let_def sm_find_assign split: option.split)

lemma update_books: "map_option (\<lambda>y. q_book (qs_quote y)) (pf_quote j (updateSubscribers now m k s)) =
    map_option (\<lambda>y. q_book (qs_quote y)) (pf_quote j s)"
proof -
  have w: "map_option (\<lambda>y. q_book (qs_quote y)) (pf_quote j (pf_write i f s)) = map_option (\<lambda>y. q_book (qs_quote y)) (pf_quote j s)"
    if "\<And>q. q_book (f q) = q_book q" for f i s by (cases "pf_quote j s") (auto simp: that)
  show ?thesis by (simp add: updateSubscribers_def w notify_books del: pf_write_simps(1) split: option.split)
qed

text \<open>
  C19: after a book of the exchange each of the five levels of the quote that the book reports with a
  quantity has its price in ticks, its size and its number of orders. A level reported without a quantity, which
  is how the exchange takes a level away, and the levels below the depth of the book stay as they were.
\<close>

theorem book_follows_exchange:
  assumes "getQuoteByKeyNum1 (getStore (cp_qm s)) (mb_securityId b) = Some k" and "pf_quote k s = Some x"
    and "q_isValid (qs_quote x)" and "isSubscribed x" and "length (q_book (qs_quote x)) = SIZE" and "l < SIZE"
  shows "\<exists>y. pf_quote k (onDirectBookUpdated now b ch s) = Some y \<and>
    q_book (qs_quote y) ! l = level_of (qs_convert x) b l (q_book (qs_quote x) ! l)"
proof -
  let ?w = "pf_write k (\<lambda>q. apply_book (qs_convert x) b (pf_stamp now q)) s"
  have "q_book (pf_stamp now (qs_quote x)) = q_book (qs_quote x)" by (simp add: pf_stamp_def)
  then have lv: "q_book (apply_book (qs_convert x) b (pf_stamp now (qs_quote x))) ! l = level_of (qs_convert x) b l (q_book (qs_quote x) ! l)"
    using apply_book_levels [of "pf_stamp now (qs_quote x)" l] assms(5,6) by simp
  have e: "onDirectBookUpdated now b ch s = (if cp_coalesce s then pf_touch ch k ?w else updateSubscribers now (mb_message b) k ?w)"
    using assms(1-4) by (simp add: onDirectBookUpdated_def pf_listened_def Let_def del: pf_write_simps(1))
  have "map_option (\<lambda>y. q_book (qs_quote y)) (pf_quote k (onDirectBookUpdated now b ch s)) =
      map_option (\<lambda>y. q_book (qs_quote y)) (pf_quote k ?w)"
    unfolding e by (cases "cp_coalesce s") (simp_all add: update_books del: pf_write_simps(1))
  also have "\<dots> = Some (q_book (apply_book (qs_convert x) b (pf_stamp now (qs_quote x))))"
    using assms(2) by simp
  finally show ?thesis using lv by auto
qed

text \<open>
  C40: when trades are coalesced and one at another price comes in, the trade that waited is passed on with its own
  price, size and tick direction, but with the aggressor side, the condition and the action of the
  new one, which have been written by then.
\<close>

theorem waiting_trade_gets_new_side:
  assumes "getQuoteByKeyNum1 (getStore (cp_qm s)) (mdt_securityId t) = Some k" and x: "pf_quote k s = Some x"
    and "q_isValid (qs_quote x)" and "isSubscribed x" and single: "\<not> qm_isMultithreaded (cp_qm s)" and "cp_coalesce s"
    and tr: "isTrade (qs_quote x)" and n: "mdt_quantity t = Some n" "1 \<le> n"
    and "cp_normalOnly s \<longrightarrow> mdt_condition t = OtherCondition"
    and price: "tc_fromExchangePrice (qs_convert x) (mdt_price t) \<noteq> ps_price (q_trade (qs_quote x))"
  shows "\<exists>q. qm_out (cp_qm (onTrade now t ch s)) = qm_out (cp_qm s) @ [q] \<and>
    ps_price (q_trade q) = ps_price (q_trade (qs_quote x)) \<and> ps_size (q_trade q) = ps_size (q_trade (qs_quote x)) \<and>
    tr_tickDirection (q_trade q) = tr_tickDirection (q_trade (qs_quote x)) \<and>
    tr_aggressorSide (q_trade q) = trade_aggressor (mdt_aggressor t) \<and>
    tr_condition (q_trade q) = trade_condition (mdt_condition t) \<and> tr_updateAction (q_trade q) = trade_action (mdt_action t)"
proof -
  let ?x = "tc_fromExchangePrice (qs_convert x) (mdt_price t)" and ?d = "tr_tickDirection (q_trade (qs_quote x))"
  let ?f = "\<lambda>q. checkGappedTrade ?x MAX_GAP_FROM_PREVIOUS (trade_fields t q)"
  let ?s2 = "pf_write k ?f (pf_write k (pf_stamp now) s)"
  define y where "y = x\<lparr>qs_quote := ?f (pf_stamp now (qs_quote x))\<rparr>"
  have y: "pf_quote k ?s2 = Some y" using x by (simp add: y_def)
  have sm: "same_trade (qs_quote y) (qs_quote x)"
    using trade_fields_same(1,3) same_trade_left by (simp add: y_def) blast
  have tf: "tr_aggressorSide (q_trade (qs_quote y)) = trade_aggressor (mdt_aggressor t)"
    "tr_condition (q_trade (qs_quote y)) = trade_condition (mdt_condition t)" "tr_updateAction (q_trade (qs_quote y)) = trade_action (mdt_action t)"
    by (simp_all add: y_def checkGappedTrade_def trade_fields_def Let_def)
  have e: "onTrade now t ch s = coalesce_trade now t ch ?x n ?d k (qs_quote y) ?s2"
    using assms(1-4,6) n assms(10) y unfolding onTrade_def pf_listened_def Let_def
    by (cases "cp_normalOnly s") (simp_all del: pf_write_simps(1))
  have c: "isTrade (qs_quote y)" "?x \<noteq> ps_price (q_trade (qs_quote y))" using sm tr price by (simp_all add: same_trade_def)
  let ?w = "pf_write k (set_tick ?d) ?s2" and ?q = "set_tick ?d (qs_quote y)"
  have w: "\<not> qm_isMultithreaded (cp_qm ?w)" "pf_quote k ?w = Some (y\<lparr>qs_quote := ?q\<rparr>)"
    using single unfolding pf_write_simps(1) [of k k "set_tick ?d" ?s2] y by simp_all
  have "isChanged ?q" using c(1) by (auto simp: isTrade_def q_has_def isChanged_def set_tick_def)
  then have "qm_out (cp_qm (onTrade now t ch s)) = qm_out (cp_qm s) @ [message_stats now (mdt_message t) ?q]"
    unfolding e coalesce_trade_def Let_def using c updateSubscribers_single(2) [OF w] by simp
  then show ?thesis using sm tf by (auto simp: same_trade_def set_tick_def)
qed

subsection \<open>Subscriptions\<close>

definition subs_of :: "('d, 'c) quote_store \<Rightarrow> u32 \<Rightarrow> 'c list" where
  "subs_of st key = (case sm_find (st_quotes st) key of None \<Rightarrow> [] | Some q \<Rightarrow> qs_subscribers q)"

definition count_of :: "('d, 'c) pf_channel \<Rightarrow> u32 \<Rightarrow> u32" where
  "count_of s key = (case sm_find (ch_counts s) key of None \<Rightarrow> 0 | Some n \<Rightarrow> n)"

text \<open>A quote made by a look-up has no subscribers.\<close>

lemma new_quote_subs: "qs_subscribers (setStatsInterval n (setInstrument i (qs_new now fresh))) = []"
  by (simp add: setStatsInterval_def setInstrument_def qs_new_def Let_def split: option.split)

lemma getQuote_subs:
  assumes "getQuoteByKeyId now fresh m key st = (st', r)" and "sm_ok (st_quotes st)"
  shows "sm_ok (st_quotes st') \<and> subs_of st' j = subs_of st j \<and> (\<forall>k. r = Some k \<longrightarrow> k = key \<and> sm_find (st_quotes st') key \<noteq> None)"
proof (cases "getByKeyId m key")
  case None
  then show ?thesis using assms by (auto simp: getQuoteByKeyId_def im_instrument_def getQuote_def)
next
  case (Some p)
  then have key: "ins_keyId (im_heap m p) = key" using by_keyId.found_has_key by blast
  define x :: "('a, 'b) quote_subs" where "x = setStatsInterval (st_interval st) (setInstrument (im_heap m p) (qs_new now fresh))"
  have x: "qs_subscribers x = []" by (simp add: x_def new_quote_subs)
  show ?thesis
  proof (cases "sm_find (st_quotes st) key")
    case None
    then have "st_quotes st' = sm_insert (st_quotes st) key x" "r = Some key"
      using assms(1) Some key by (auto simp: getQuoteByKeyId_def im_instrument_def getQuote_def Let_def x_def)
    then show ?thesis using None assms(2) x by (simp add: subs_of_def sm_find_insert sm_ok_insert)
  next
    case (Some y)
    then show ?thesis using assms \<open>getByKeyId m key = Some p\<close> key
      by (auto simp: getQuoteByKeyId_def im_instrument_def getQuote_def)
  qed
qed

lemma on_subscribers_subs:
  assumes "on_subscribers f now fresh m key st = (st', ok)" and sm: "sm_ok (st_quotes st)"
  shows "sm_ok (st_quotes st') \<and> (\<forall>j. j \<noteq> key \<longrightarrow> subs_of st' j = subs_of st j) \<and>
    (f (subs_of st key) = (subs_of st' key, ok) \<or> \<not> ok \<and> subs_of st' key = subs_of st key)"
proof -
  obtain t r where g: "getQuoteByKeyId now fresh m key st = (t, r)" by (cases "getQuoteByKeyId now fresh m key st")
  have q: "sm_ok (st_quotes t)" "subs_of t j = subs_of st j" "\<And>k. r = Some k \<Longrightarrow> k = key \<and> sm_find (st_quotes t) key \<noteq> None" for j
    using getQuote_subs [OF g sm] by blast+
  show ?thesis
  proof (cases r)
    case None
    then have "st' = t" "\<not> ok" using assms(1) by (simp_all add: on_subscribers_def g)
    then show ?thesis using q(1,2) by simp
  next
    case (Some k)
    then obtain x where x: "k = key" "sm_find (st_quotes t) key = Some x" using q(3) by auto
    obtain cs b where cs: "f (qs_subscribers x) = (cs, b)" by (cases "f (qs_subscribers x)")
    have s: "subs_of st key = qs_subscribers x" using q(2) [of key] x unfolding subs_of_def [of t] by simp
    show ?thesis
    proof (cases "q_isValid (qs_quote x)")
      case True
      then have st': "st' = t\<lparr>st_quotes := sm_assign (st_quotes t) key (x\<lparr>qs_subscribers := cs\<rparr>)\<rparr>" "ok = b"
        using assms(1) Some x cs by (simp_all add: on_subscribers_def g)
      have "subs_of st' key = cs" "j \<noteq> key \<Longrightarrow> subs_of st' j = subs_of t j" for j
        using x by (simp_all add: st' subs_of_def sm_find_assign)
      then show ?thesis using q(1,2) s cs st' by (simp add: sm_ok_assign)
    next
      case False
      then have "st' = t" "\<not> ok" using assms(1) Some x by (simp_all add: on_subscribers_def g)
      then show ?thesis using q(1,2) by simp
    qed
  qed
qed

lemma findClient_less: "c \<in> set cs \<Longrightarrow> findClient cs c < length cs"
  by (induction cs) auto

lemma findClient_nth: "findClient cs c < length cs \<Longrightarrow> cs ! findClient cs c = c"
  by (induction cs) auto

text \<open>The clients that satisfy a predicate, when one is added or removed.\<close>

definition hits :: "('c \<Rightarrow> bool) \<Rightarrow> 'c option \<Rightarrow> bool" where
  "hits P client \<longleftrightarrow> (\<exists>c. client = Some c \<and> P c)"

lemma cm_add_filter:
  "cm_add client cs = (cs', ok) \<Longrightarrow> length (filter P cs') = length (filter P cs) + (if ok \<and> hits P client then 1 else 0)"
  by (auto simp: cm_add_def hits_def split: option.splits if_splits)

lemma cm_addFront_filter:
  "cm_addFront client cs = (cs', ok) \<Longrightarrow> length (filter P cs') = length (filter P cs) + (if ok \<and> hits P client then 1 else 0)"
  by (auto simp: cm_addFront_def hits_def split: option.splits if_splits)

lemma cm_rem_filter:
  assumes "cm_rem client cs = (cs', ok)"
  shows "length (filter P cs) = length (filter P cs') + (if ok \<and> hits P client then 1 else 0)"
proof (cases ok)
  case True
  then obtain c where c: "client = Some c" "findClient cs c \<noteq> length cs"
      "cs' = take (findClient cs c) cs @ drop (Suc (findClient cs c)) cs"
    using assms by (auto simp: cm_rem_def Let_def split: option.splits if_splits)
  have "findClient cs c < length cs" using c(2) findClient_end findClient_less by metis
  from id_take_nth_drop [OF this] findClient_nth [OF this]
  have "cs = take (findClient cs c) cs @ c # drop (Suc (findClient cs c)) cs" by simp
  then have "filter P cs = filter P (take (findClient cs c) cs) @ filter P (c # drop (Suc (findClient cs c)) cs)"
    by (metis filter_append)
  then show ?thesis using c True by (simp add: hits_def)
next
  case False
  then show ?thesis using assms by (auto simp: cm_rem_def Let_def split: option.splits if_splits)
qed

subsection \<open>Runs of a channel\<close>

text \<open>The clients of the channel among the subscribers of a quote.\<close>

definition clients_of :: "'c set \<Rightarrow> ('d, 'c) pf_channel \<Rightarrow> u32 \<Rightarrow> 'c list" where
  "clients_of D s key = filter (\<lambda>c. c \<notin> D) (subs_of (ch_store s) key)"

text \<open>
  The requests of the clients, the answers of the implementation with them; fewer clients than a count holds.
  The clients of \<open>D\<close> subscribe at the store itself, the others through the channel; market data and lookups
  change the quotes and leave the subscribers alone. The channel is cleared when the store has no client of it.
\<close>

inductive ch_run :: "'c set \<Rightarrow> ('d::{zero,ord}, 'c) pf_channel \<Rightarrow> bool" for D where
  start: "sm_ok (st_quotes (ch_store s)) \<Longrightarrow> \<forall>j. set (subs_of (ch_store s) j) \<subseteq> D \<Longrightarrow> ch_run D (ch_clear s)"
| inits: "ch_run D s \<Longrightarrow> ch_run D (fst (ch_init impl answer s))"
| starts: "ch_run D s \<Longrightarrow> ch_run D (fst (ch_start answer s))"
| stops: "ch_run D s \<Longrightarrow> ch_run D (ch_stop s)"
| subscribes: "ch_run D s \<Longrightarrow> \<not> hits (\<lambda>c. c \<in> D) client \<Longrightarrow>
    length (clients_of D s key) < 2 ^ 32 - 1 \<Longrightarrow>
    ch_run D (fst (ch_subscribe now fresh m answer key client s))"
| unsubscribes: "ch_run D s \<Longrightarrow> \<not> hits (\<lambda>c. c \<in> D) client \<Longrightarrow>
    ch_run D (fst (ch_unsubscribe now fresh m answer key client s))"
| direct: "ch_run D s \<Longrightarrow> \<not> hits (\<lambda>c. c \<notin> D) client \<Longrightarrow>
    ch_run D (s\<lparr>ch_store := fst (subscribe now fresh m key client (ch_store s))\<rparr>)"
| direct_front: "ch_run D s \<Longrightarrow> \<not> hits (\<lambda>c. c \<notin> D) client \<Longrightarrow>
    ch_run D (s\<lparr>ch_store := fst (subscribeFront now fresh m key client (ch_store s))\<rparr>)"
| direct_off: "ch_run D s \<Longrightarrow> \<not> hits (\<lambda>c. c \<notin> D) client \<Longrightarrow>
    ch_run D (s\<lparr>ch_store := fst (unsubscribe now fresh m key client (ch_store s))\<rparr>)"
| market_data: "ch_run D s \<Longrightarrow> sm_ok (st_quotes t) \<Longrightarrow> \<forall>j. subs_of t j = subs_of (ch_store s) j \<Longrightarrow>
    ch_run D (s\<lparr>ch_store := t\<rparr>)"

definition counts_ok :: "'c set \<Rightarrow> ('d, 'c) pf_channel \<Rightarrow> bool" where
  "counts_ok D s \<longleftrightarrow> sm_ok (st_quotes (ch_store s)) \<and> sm_ok (ch_counts s) \<and>
     (\<forall>j. unat (count_of s j) = length (clients_of D s j))"

lemma count_of_simps [simp]:
  "count_of (s\<lparr>ch_store := t\<rparr>) j = count_of s j" "count_of (s\<lparr>ch_isActive := b\<rparr>) j = count_of s j"
  "count_of (s\<lparr>ch_hasImpl := b\<rparr>) j = count_of s j"
  by (simp_all add: count_of_def)

lemma count_of_insert:
  "sm_find (ch_counts s) key = None \<Longrightarrow> sm_ok (ch_counts s) \<Longrightarrow>
   count_of (s\<lparr>ch_counts := sm_insert (ch_counts s) key n\<rparr>) j = (if j = key then n else count_of s j)"
  by (simp add: count_of_def sm_find_insert)

lemma count_of_assign:
  "sm_find (ch_counts s) key \<noteq> None \<Longrightarrow> count_of (s\<lparr>ch_counts := sm_assign (ch_counts s) key n\<rparr>) j = (if j = key then n else count_of s j)"
  by (auto simp: count_of_def sm_find_assign)

lemma count_of_erase:
  "sm_ok (ch_counts s) \<Longrightarrow> count_of (s\<lparr>ch_counts := sm_erase (ch_counts s) key\<rparr>) j = (if j = key then 0 else count_of s j)"
  by (simp add: count_of_def sm_find_erase)

text \<open>A request that has gone through finds the quote again.\<close>

lemma on_subscribers_again:
  assumes f: "on_subscribers f now fresh m key st = (st', True)" and sm: "sm_ok (st_quotes st)"
    and g: "on_subscribers g now' fresh' m key st' = (st2, b)"
  shows "g (subs_of st' key) = (subs_of st2 key, b)"
proof -
  obtain t r where q: "getQuoteByKeyId now fresh m key st = (t, r)" by (cases "getQuoteByKeyId now fresh m key st")
  have "r \<noteq> None" using f by (cases r) (simp_all add: on_subscribers_def q)
  then have r: "r = Some key" using getQuote_subs [OF q sm] by auto
  then obtain p where p: "getByKeyId m key = Some p" using q
    by (auto simp: getQuoteByKeyId_def im_instrument_def getQuote_def split: option.splits)
  have key: "ins_keyId (im_heap m p) = key" using by_keyId.found_has_key [OF p] by simp
  obtain x where x: "sm_find (st_quotes t) key = Some x" "q_isValid (qs_quote x)"
    and st': "st' = t\<lparr>st_quotes := sm_assign (st_quotes t) key (x\<lparr>qs_subscribers := fst (f (qs_subscribers x))\<rparr>)\<rparr>"
    using f r by (auto simp: on_subscribers_def q split: option.splits if_splits prod.splits)
  let ?y = "x\<lparr>qs_subscribers := fst (f (qs_subscribers x))\<rparr>"
  have y: "sm_find (st_quotes st') key = Some ?y" using x by (simp add: st' sm_find_assign)
  then have "getQuoteByKeyId now' fresh' m key st' = (st', Some key)"
    using p key by (simp add: getQuoteByKeyId_def im_instrument_def getQuote_def)
  then have "st2 = st'\<lparr>st_quotes := sm_assign (st_quotes st') key (?y\<lparr>qs_subscribers := fst (g (qs_subscribers ?y))\<rparr>)\<rparr>"
    "b = snd (g (qs_subscribers ?y))"
    using g y x by (simp_all add: on_subscribers_def case_prod_beta)
  then show ?thesis using y by (simp add: subs_of_def sm_find_assign)
qed

lemma cm_rem_after_add:
  assumes "cm_add c cs = (cs', True)" and "cm_rem c cs' = (cs'', b)"
  shows "length (filter P cs'') = length (filter P cs)"
proof -
  obtain d where d: "c = Some d" "cs' = cs @ [d]" using assms(1) by (auto simp: cm_add_def split: option.splits if_splits)
  have "findClient (cs @ [d]) d < length (cs @ [d])" by (rule findClient_less) simp
  then have b using assms(2) d by (auto simp: cm_rem_def Let_def)
  then show ?thesis using cm_rem_filter [OF assms(2), of P] cm_add_filter [OF assms(1), of P] by simp
qed

lemma counts_step:
  assumes "counts_ok D s" and "sm_ok (st_quotes t)" and "sm_ok cs"
    and "\<And>j. j \<noteq> key \<Longrightarrow> subs_of t j = subs_of (ch_store s) j"
    and "\<And>j. j \<noteq> key \<Longrightarrow> sm_find cs j = sm_find (ch_counts s) j"
    and "unat (case sm_find cs key of None \<Rightarrow> 0 | Some n \<Rightarrow> n) = length (filter (\<lambda>c. c \<notin> D) (subs_of t key))"
  shows "counts_ok D (s\<lparr>ch_store := t, ch_counts := cs\<rparr>)"
  using assms by (auto simp: counts_ok_def count_of_def clients_of_def) (metis)

text \<open>A change of the store that keeps the clients of the channel.\<close>

lemma counts_store:
  assumes "counts_ok D s" and "sm_ok (st_quotes t)"
    and "\<And>j. length (filter (\<lambda>c. c \<notin> D) (subs_of t j)) = length (clients_of D s j)"
  shows "counts_ok D (s\<lparr>ch_store := t\<rparr>)"
  using assms by (simp add: counts_ok_def count_of_def clients_of_def)

lemma counts_direct:
  assumes c: "counts_ok D s" and on: "on_subscribers f now fresh m key (ch_store s) = (t, ok)"
    and f: "\<And>cs cs' b. f cs = (cs', b) \<Longrightarrow> length (filter (\<lambda>c. c \<notin> D) cs') = length (filter (\<lambda>c. c \<notin> D) cs)"
  shows "counts_ok D (s\<lparr>ch_store := t\<rparr>)"
proof -
  have sm: "sm_ok (st_quotes (ch_store s))" using c by (simp add: counts_ok_def)
  note st = on_subscribers_subs [OF on sm]
  show ?thesis
  proof (rule counts_store [OF c])
    show "length (filter (\<lambda>c. c \<notin> D) (subs_of t j)) = length (clients_of D s j)" for j
      using st f by (cases "j = key") (auto simp: clients_of_def)
  qed (use st in simp)
qed

lemma counts_subscribe:
  assumes c: "counts_ok D s" and new: "\<not> hits (\<lambda>c. c \<in> D) client" and few: "length (clients_of D s key) < 2 ^ 32 - 1"
  shows "counts_ok D (fst (ch_subscribe now fresh m answer key client s))"
proof (cases "ch_isActive s")
  case False
  let ?F = "\<lambda>cs. length (filter (\<lambda>c. c \<notin> D) cs)"
  have sm: "sm_ok (st_quotes (ch_store s))" "sm_ok (ch_counts s)" and n: "unat (count_of s key) = ?F (subs_of (ch_store s) key)"
    using c by (simp_all add: counts_ok_def clients_of_def)
  obtain t ok where t: "subscribe now fresh m key client (ch_store s) = (t, ok)" by (cases "subscribe now fresh m key client (ch_store s)")
  note on = t [unfolded subscribe_def]
  note st = on_subscribers_subs [OF on sm(1)]
  show ?thesis
  proof (cases ok)
    case True
    then have add: "cm_add client (subs_of (ch_store s) key) = (subs_of t key, True)" using st by simp
    then have "hits (\<lambda>c. c \<notin> D) client" using new by (auto simp: cm_add_def hits_def split: option.splits)
    then have len: "?F (subs_of t key) = Suc (?F (subs_of (ch_store s) key))" using cm_add_filter [OF add] by simp
    show ?thesis
    proof (cases "sm_find (ch_counts s) key")
      case None
      then have z: "?F (subs_of (ch_store s) key) = 0" using n by (simp add: count_of_def)
      show ?thesis
      proof (cases "\<not> ch_hasImpl s \<or> \<not> answer")
        case refused: True
        obtain t2 b where t2: "unsubscribe now fresh m key client t = (t2, b)" by (cases "unsubscribe now fresh m key client t")
        note on2 = t2 [unfolded unsubscribe_def]
        have st2: "sm_ok (st_quotes t2)" "\<And>j. j \<noteq> key \<Longrightarrow> subs_of t2 j = subs_of t j"
          using on_subscribers_subs [OF on2] st by auto
        have "cm_rem client (subs_of t key) = (subs_of t2 key, b)"
          using on on2 True by (intro on_subscribers_again [OF _ sm(1)]) simp_all
        from cm_rem_after_add [OF add this] have "?F (subs_of t2 j) = length (clients_of D s j)" for j
          using st2(2) st by (cases "j = key") (simp_all add: clients_of_def)
        from counts_store [OF c st2(1) this] show ?thesis using False True None refused t t2 by (auto simp: ch_subscribe_def)
      next
        case ans: False
        have "sm_ok (st_quotes t)" "\<And>j. j \<noteq> key \<Longrightarrow> subs_of t j = subs_of (ch_store s) j" "unat (1 :: u32) = ?F (subs_of t key)"
          using st len z by simp_all
        then have "counts_ok D (s\<lparr>ch_store := t, ch_counts := sm_insert (ch_counts s) key 1\<rparr>)"
          using sm None by (intro counts_step [OF c, where key = key]) (simp_all add: sm_ok_insert sm_find_insert del: unsigned_1)
        then show ?thesis using False True None ans t by (simp add: ch_subscribe_def)
      qed
    next
      case (Some n')
      then have "unat (n' + 1) = Suc (?F (subs_of (ch_store s) key))"
        using n few by (subst unat_add_lem [THEN iffD1]) (simp_all add: count_of_def clients_of_def)
      then have "counts_ok D (s\<lparr>ch_store := t, ch_counts := sm_assign (ch_counts s) key (n' + 1)\<rparr>)"
        using st len sm Some by (intro counts_step [OF c, where key = key]) (simp_all add: sm_find_assign)
      then show ?thesis using False True Some t by (simp add: ch_subscribe_def)
    qed
  next
    case nok: False
    have "?F (subs_of t j) = length (clients_of D s j)" for j
      using st nok cm_add_filter [of client "subs_of (ch_store s) key" "subs_of t key" False "\<lambda>c. c \<notin> D"]
      by (cases "j = key") (auto simp: clients_of_def)
    from counts_store [OF c _ this] show ?thesis using False nok t st by (simp add: ch_subscribe_def)
  qed
qed (use c in \<open>simp add: ch_subscribe_def\<close>)

lemma counts_unsubscribe:
  assumes c: "counts_ok D s" and new: "\<not> hits (\<lambda>c. c \<in> D) client"
  shows "counts_ok D (fst (ch_unsubscribe now fresh m answer key client s))"
proof (cases "ch_isActive s")
  case False
  let ?F = "\<lambda>cs. length (filter (\<lambda>c. c \<notin> D) cs)"
  have sm: "sm_ok (st_quotes (ch_store s))" "sm_ok (ch_counts s)" and n: "unat (count_of s key) = ?F (subs_of (ch_store s) key)"
    using c by (simp_all add: counts_ok_def clients_of_def)
  obtain t ok where t: "unsubscribe now fresh m key client (ch_store s) = (t, ok)" by (cases "unsubscribe now fresh m key client (ch_store s)")
  note st = on_subscribers_subs [OF t [unfolded unsubscribe_def] sm(1)]
  show ?thesis
  proof (cases ok)
    case True
    then have rem: "cm_rem client (subs_of (ch_store s) key) = (subs_of t key, True)" using st by simp
    then have "hits (\<lambda>c. c \<notin> D) client" using new by (auto simp: cm_rem_def hits_def split: option.splits)
    then have len: "?F (subs_of (ch_store s) key) = Suc (?F (subs_of t key))" using cm_rem_filter [OF rem] by simp
    then have "sm_find (ch_counts s) key \<noteq> None" using n by (cases "sm_find (ch_counts s) key") (simp_all add: count_of_def)
    then obtain n' where f: "sm_find (ch_counts s) key = Some n'" by auto
    have u: "unat (n' - 1) = ?F (subs_of t key)"
    proof -
      have "unat n' = Suc (?F (subs_of t key))" using n len f by (simp add: count_of_def)
      moreover from this have "n' \<noteq> 0" by auto
      ultimately show ?thesis by (simp add: unat_minus_one)
    qed
    have a: "counts_ok D (s\<lparr>ch_store := t, ch_counts := sm_assign (ch_counts s) key (n' - 1)\<rparr>)"
      using st sm f u by (intro counts_step [OF c, where key = key]) (simp_all add: sm_find_assign)
    have "counts_ok D (s\<lparr>ch_store := t, ch_counts := sm_erase (sm_assign (ch_counts s) key (n' - 1)) key\<rparr>)" if "n' - 1 = 0"
      using st sm u that by (intro counts_step [OF c, where key = key]) (simp_all add: sm_find_assign sm_find_erase sm_ok_erase)
    then show ?thesis using a False True f t by (auto simp: ch_unsubscribe_def Let_def)
  next
    case nok: False
    have "?F (subs_of t j) = length (clients_of D s j)" for j
      using st nok cm_rem_filter [of client "subs_of (ch_store s) key" "subs_of t key" False "\<lambda>c. c \<notin> D"]
      by (cases "j = key") (auto simp: clients_of_def)
    from counts_store [OF c _ this] show ?thesis using False nok t st by (simp add: ch_unsubscribe_def)
  qed
qed (use c in \<open>simp add: ch_unsubscribe_def\<close>)

text \<open>A client of the store itself does not change the clients of the channel.\<close>

lemma direct_keeps:
  assumes "\<not> hits (\<lambda>c. c \<notin> D) client"
  shows "cm_add client cs = (cs', b) \<Longrightarrow> length (filter (\<lambda>c. c \<notin> D) cs') = length (filter (\<lambda>c. c \<notin> D) cs)"
    and "cm_addFront client cs = (cs', b) \<Longrightarrow> length (filter (\<lambda>c. c \<notin> D) cs') = length (filter (\<lambda>c. c \<notin> D) cs)"
    and "cm_rem client cs = (cs', b) \<Longrightarrow> length (filter (\<lambda>c. c \<notin> D) cs') = length (filter (\<lambda>c. c \<notin> D) cs)"
  using assms cm_add_filter [of client cs cs' b "\<lambda>c. c \<notin> D"] cm_addFront_filter [of client cs cs' b "\<lambda>c. c \<notin> D"]
    cm_rem_filter [of client cs cs' b "\<lambda>c. c \<notin> D"] by simp_all

text \<open>
  C26: the channel counts its clients. In any run of its requests, with whatever its implementation answers, the
  count kept for an instrument is the number of clients of the channel that are subscribed to its quote; a
  subscription refused by the implementation is undone. Other clients, those of \<open>D\<close>, may come and go at the store
  itself, where the bars, the market velocities, the books and the correlations subscribe; the clients of the
  channel use nothing but the channel. The channel is cleared only when it has no clients, and the store is not
  cleared while it has some: clearing forgets one side of the equation and not the other.
\<close>

theorem counts_are_clients:
  assumes "ch_run D s"
  shows "unat (count_of s key) = length (clients_of D s key)"
proof -
  have "counts_ok D s" using assms
  proof induction
    case (start s)
    then have "clients_of D (ch_clear s) j = []" for j by (auto simp: clients_of_def ch_clear_def filter_empty_conv)
    then show ?case using start by (simp add: counts_ok_def ch_clear_def count_of_def)
  next
    case (inits s impl answer)
    then show ?case by (simp add: counts_ok_def ch_init_def count_of_def clients_of_def Let_def)
  next
    case (starts s answer)
    then show ?case by (simp add: counts_ok_def ch_start_def count_of_def clients_of_def)
  next
    case (stops s)
    then show ?case by (simp add: counts_ok_def ch_stop_def count_of_def clients_of_def)
  next
    case (direct s client now fresh m key)
    then show ?case
      by (intro counts_direct [where f = "cm_add client" and ok = "snd (subscribe now fresh m key client (ch_store s))"])
        (simp_all add: subscribe_def direct_keeps)
  next
    case (direct_front s client now fresh m key)
    then show ?case
      by (intro counts_direct [where f = "cm_addFront client" and ok = "snd (subscribeFront now fresh m key client (ch_store s))"])
        (simp_all add: subscribeFront_def direct_keeps)
  next
    case (direct_off s client now fresh m key)
    then show ?case
      by (intro counts_direct [where f = "cm_rem client" and ok = "snd (unsubscribe now fresh m key client (ch_store s))"])
        (simp_all add: unsubscribe_def direct_keeps)
  next
    case (market_data s t)
    then show ?case by (intro counts_store) (simp_all add: clients_of_def)
  qed (simp_all add: counts_subscribe counts_unsubscribe)
  then show ?thesis by (simp add: counts_ok_def)
qed

subsection \<open>A run\<close>

definition wit_quote :: "(rat, nat) quote_subs" where
  "wit_quote = \<lparr>qs_quote = (q_clear 5 wit_fresh)\<lparr>q_instrument := Some (instrument.truncate (wit_loaded wit_future [])), q_instrumentId := 1\<rparr>,
     qs_subscribers = [7], qs_interval = 0, qs_samples = [], qs_convert = ConverterDenom 4\<rparr>"

definition wit_pf :: "(rat, nat) channel_pf" where
  "wit_pf = \<lparr>cp_qm = \<lparr>qm_isMultithreaded = False, qm_isDone = False, qm_thread = False, qm_pipe = \<lparr>tp_isDone = False, tp_size = 0\<rparr>,
      qm_main = wit_store0\<lparr>st_quotes := [(1, wit_quote)], st_index1 := [11 \<mapsto> 1]\<rparr>, qm_local = wit_store0, qm_null = wit_fresh,
      qm_changed = [], qm_pushing = 0, qm_consumer = CRead, qm_out = []\<rparr>,
    cp_coalesce = True, cp_normalOnly = False, cp_updated = (\<lambda>_. None)\<rparr>"

definition wit_message :: md_message where
  "wit_message = \<lparr>mg_seqNum = 3, mg_receiveTime = 8, mg_sendingTime = Some 7\<rparr>"

definition wit_md_trade :: "rat \<Rightarrow> int \<Rightarrow> rat md_trade" where
  "wit_md_trade p n = \<lparr>mdt_securityId = 11, mdt_quantity = Some n, mdt_condition = OtherCondition, mdt_action = ActionNew,
     mdt_tick = PlusTick, mdt_aggressor = AggressorSell, mdt_price = p, mdt_message = wit_message\<rparr>"

lemma wit_quote_facts:
  "q_isValid (qs_quote wit_quote)" "isSubscribed wit_quote" "qs_convert wit_quote = ConverterDenom 4" "\<not> isTrade (qs_quote wit_quote)"
  "q_instrumentId (qs_quote wit_quote) = 1" "length (q_book (qs_quote wit_quote)) = SIZE"
  by (simp_all add: wit_quote_def q_isValid_def ins_isValid_def isSubscribed_def isTrade_def q_has_def q_clear_def wit_loaded_def wit_future_def
      instrument.truncate_def)

lemma wit_pf_facts:
  "pf_quote k wit_pf = (if k = 1 then Some wit_quote else None)" "getQuoteByKeyNum1 (getStore (cp_qm wit_pf)) c = (if c = 11 then Some 1 else None)"
  "qm_out (cp_qm wit_pf) = []" "cp_coalesce wit_pf" "\<not> cp_normalOnly wit_pf" "\<not> qm_isMultithreaded (cp_qm wit_pf)"
  by (simp_all add: wit_pf_def pf_quote_def getStore_def getQuoteByKeyNum1_def)

lemma wit_price: "cast_int (2 * u32_val 4 + g_epsilon :: rat) = 8" "cast_int (3 * u32_val 4 + g_epsilon :: rat) = 12"
  by (simp_all add: u32_val_def cast_int_def g_epsilon_def floor_eq_iff)

text \<open>Three contracts wait when the statistics are reset: they are passed on twice.\<close>

lemma wit_pending: "pending 1 8 (onTrade 5 (wit_md_trade 2 3) ''7'' wit_pf) = 3"
proof -
  have id: "q_instrumentId (checkGappedTrade 8 g (trade_fields t (pf_stamp now (qs_quote wit_quote)))) = 1" for g now and t :: "rat md_trade"
    using trade_fields_same(1) [of 8 g t "pf_stamp now (qs_quote wit_quote)"] trade_fields_same(3) [of now "qs_quote wit_quote"] wit_quote_facts
    by (simp add: same_trade_def)
  have "\<not> isTrade (checkGappedTrade 8 g (trade_fields t (pf_stamp now (qs_quote wit_quote))))" for g now and t :: "rat md_trade"
    using trade_fields_same(1) [of 8 g t "pf_stamp now (qs_quote wit_quote)"] trade_fields_same(3) [of now "qs_quote wit_quote"] wit_quote_facts
    by (simp add: same_trade_def)
  moreover have "sets_trade 8 3 (setTrade 8 3 :: rat quote \<Rightarrow> rat quote)" by (rule sets_trade_simps)
  then have "isTrade (setTrade 8 3 q)" "ps_price (q_trade (setTrade 8 3 q)) = 8" "ps_size (q_trade (setTrade 8 3 q)) = 3"
    "q_instrumentId (setTrade 8 3 q) = q_instrumentId q" for q :: "rat quote"
    by (simp_all add: sets_trade_def)
  ultimately show ?thesis
    by (simp add: onTrade_def pf_listened_def coalesce_trade_def wit_pf_facts wit_quote_facts wit_md_trade_def wit_price pending_def says_def id)
qed

lemma coalescing_conserves_volume_witness:
  "passed_on 1 8 (onProcessingEnd id 9 wit_message ''7'' (fold md_apply
     [CallTrade 5 (wit_md_trade 2 3) ''7'', CallReset 11, CallTrade 6 (wit_md_trade 2 2) ''7'', CallTrade 7 (wit_md_trade 3 4) ''7''] wit_pf)) = 5 + 3"
proof -
  have r: "flow_ready 1 11 (ConverterDenom 4) wit_pf"
    using wit_quote_facts by (simp add: flow_ready_def wit_pf_facts)
  show ?thesis
    by (subst coalescing_conserves_volume [OF r])
      (simp_all add: wit_md_trade_def INT32_MAX_def wit_pf_facts passed_on_def wit_price wit_pending [unfolded wit_md_trade_def])
qed

definition wit_book :: "rat md_book" where
  "wit_book = \<lparr>mb_securityId = 11, mb_depth = 1, mb_bids = (\<lambda>_. \<lparr>ml_price = 2, ml_quantity = 6, ml_numOrders = 1\<rparr>),
     mb_asks = (\<lambda>_. \<lparr>ml_price = 3, ml_quantity = 0, ml_numOrders = 0\<rparr>), mb_message = wit_message\<rparr>"

lemma book_follows_exchange_witness:
  "\<exists>y. pf_quote 1 (onDirectBookUpdated 9 wit_book ''7'' wit_pf) = Some y \<and>
     pl_bid (q_book (qs_quote y) ! 0) = \<lparr>ps_price = 8, ps_size = 6, ps_numOrders = 1\<rparr> \<and>
     pl_ask (q_book (qs_quote y) ! 0) = pl_ask (q_book (qs_quote wit_quote) ! 0)"
proof -
  have "getQuoteByKeyNum1 (getStore (cp_qm wit_pf)) (mb_securityId wit_book) = Some 1" by (simp add: wit_pf_facts wit_book_def)
  moreover have "pf_quote 1 wit_pf = Some wit_quote" by (simp add: wit_pf_facts)
  ultimately obtain y where "pf_quote 1 (onDirectBookUpdated 9 wit_book ''7'' wit_pf) = Some y"
    "q_book (qs_quote y) ! 0 = level_of (ConverterDenom 4) wit_book 0 (q_book (qs_quote wit_quote) ! 0)"
    using book_follows_exchange [of wit_pf wit_book 1 wit_quote 0 9 "''7''"] wit_quote_facts by (auto simp: SIZE_def)
  then show ?thesis by (simp add: level_of_def level_after_def wit_book_def wit_price s32_def)
qed

definition wit_pf_trade :: "(rat, nat) channel_pf" where
  "wit_pf_trade = pf_write 1 (\<lambda>q. setTrade 8 3 (q\<lparr>q_trade := (q_trade q)\<lparr>tr_aggressorSide := kAggressorSideBuy\<rparr>\<rparr>)) wit_pf"

lemma waiting_trade_gets_new_side_witness:
  "\<exists>q. qm_out (cp_qm (onTrade 9 (wit_md_trade 3 4) ''7'' wit_pf_trade)) = [q] \<and>
     ps_price (q_trade q) = 8 \<and> ps_size (q_trade q) = 3 \<and> tr_aggressorSide (q_trade q) = kAggressorSideSell"
proof -
  let ?q = "setTrade 8 3 ((qs_quote wit_quote)\<lparr>q_trade := (q_trade (qs_quote wit_quote))\<lparr>tr_aggressorSide := kAggressorSideBuy\<rparr>\<rparr>)"
  have 1: "getQuoteByKeyNum1 (getStore (cp_qm wit_pf_trade)) (mdt_securityId (wit_md_trade 3 4)) = Some 1"
    by (simp add: wit_pf_trade_def wit_pf_facts wit_md_trade_def)
  have 2: "pf_quote 1 wit_pf_trade = Some (wit_quote\<lparr>qs_quote := ?q\<rparr>)" by (simp add: wit_pf_trade_def wit_pf_facts)
  have st: "sets_trade 8 3 (setTrade 8 3 :: rat quote \<Rightarrow> rat quote)" by (rule sets_trade_simps)
  have q: "q_isValid ?q" "isTrade ?q" "ps_price (q_trade ?q) = 8" "ps_size (q_trade ?q) = 3"
    using wit_quote_facts(1) st by (simp_all add: sets_trade_def q_isValid_def)
  have "\<exists>q. qm_out (cp_qm (onTrade 9 (wit_md_trade 3 4) ''7'' wit_pf_trade)) = qm_out (cp_qm wit_pf_trade) @ [q] \<and>
    ps_price (q_trade q) = ps_price (q_trade ?q) \<and> ps_size (q_trade q) = ps_size (q_trade ?q) \<and>
    tr_tickDirection (q_trade q) = tr_tickDirection (q_trade ?q) \<and>
    tr_aggressorSide (q_trade q) = trade_aggressor (mdt_aggressor (wit_md_trade 3 4)) \<and>
    tr_condition (q_trade q) = trade_condition (mdt_condition (wit_md_trade 3 4)) \<and> tr_updateAction (q_trade q) = trade_action (mdt_action (wit_md_trade 3 4))"
    using waiting_trade_gets_new_side [OF 1 2, of 4 9 "''7''"] q wit_quote_facts
    by (simp add: wit_pf_trade_def wit_pf_facts wit_md_trade_def wit_price isSubscribed_def)
  then show ?thesis using q by (auto simp: wit_pf_trade_def wit_pf_facts wit_md_trade_def)
qed

text \<open>Client 7 uses the channel, client 9 has subscribed at the store.\<close>

definition wit_channel :: "(rat, nat) pf_channel" where
  "wit_channel = (let s = fst (ch_subscribe 5 wit_fresh wit_im_run True 1 (Some 7) (fst (ch_init True True
       (ch_clear \<lparr>ch_store = wit_store0, ch_hasImpl = True, ch_counts = [], ch_isActive = True\<rparr>))))
     in s\<lparr>ch_store := fst (subscribeFront 6 wit_fresh wit_im_run 1 (Some 9) (ch_store s))\<rparr>)"

lemma wit_channel_run: "ch_run {9} wit_channel"
  unfolding wit_channel_def Let_def
  by (intro ch_run.direct_front ch_run.subscribes ch_run.inits ch_run.start)
    (simp_all add: wit_store0_def subs_of_def ch_init_def ch_clear_def clients_of_def hits_def)

lemma counts_are_clients_witness: "unat (count_of wit_channel 1) = length (clients_of {9} wit_channel 1)"
  by (rule counts_are_clients [OF wit_channel_run])

end
