(* ===== verification/Spec2Isabelle.thy ===== *)
theory Spec2Isabelle
  imports SystemSafety ExchangeSim StopFacts TheoValues Fractional FastStream IdFactory ChannelOnixFacts ChannelPfFacts
begin

text \<open>
  This library models the core of the trading system whose sources are under
  \<open>src/src/cpp/lib/tw\<close>: what happens to an order between a strategy and the exchange, the
  limits it has to pass, the profit and loss that follows from its fills, the simulated exchange it
  can be sent to, and the bars and stops a strategy trades by. Every theory names the file it
  translates in its section heading; records, enumerations and operations have the names of the
  source with a prefix per class. Names below are relative to \<open>src/src/cpp/lib/tw\<close>.

  \<^bold>\<open>The program and how its parts meet.\<close> A strategy registers with the strategy
  container (\<open>common_strat/strategy_container.cpp\<close>) and sends orders through it. The container
  owns two chains of processors built from the templates of \<open>channel_or/processor.h\<close>. A request
  goes outwards through message statistics, the order processor, throttle, wash trade prevention,
  risk and profit and loss to the exchange channel; when a later stage refuses, the stages before it
  are told and take back what they did. A response of the exchange is translated
  (\<open>channel_or/translator.cpp\<close>) and goes inwards through the other chain; the strategy is called
  back and may send requests from the callback. Fills change positions in the order processor and
  in the tree of profit and loss, from which the limits of the next request are computed. The
  exchange simulator (\<open>exchange_sim\<close>) receives FIX requests from such channels, keeps a matching
  engine per instrument and answers with acknowledgements, rejects and fills. Quotes
  (\<open>price/quote.h\<close>) feed the simulator, the theoretical values of the profit and loss, the bars
  manager (\<open>common_trade/bars_manager.h\<close>) and the stop processors of \<open>common_trade\<close>.

  \<^bold>\<open>Shared layer.\<close>
  \<^item> \<open>Prelude\<close>: 32-bit arithmetic (\<open>s32\<close>), truncating division, the collections
    \<open>wrap_simps\<close> and \<open>op_defs\<close>.
  \<^item> \<open>StdMap\<close>: \<open>std::map\<close> as a list with increasing keys, with the contract
    \<open>ordered_map\<close> that all components use it by.
  \<^item> \<open>TypeWrap\<close>: \<open>Ticks\<close> and \<open>Size\<close> (\<open>common/type_wrap.h\<close>) with their invalid
    value and the two families of operators.
  \<^item> \<open>OrDefs\<close>: orders, fills, rejects, accounts, instruments, as the XML descriptions under
    \<open>src/src/xml\<close> define them.
  \<^item> \<open>Fractional\<close>, \<open>TicksConverter\<close>: decimal fractions and tick arithmetic.

  \<^bold>\<open>Order processing.\<close>
  \<^item> \<open>OrdersTable\<close>, \<open>ProcessorOrders\<close>: the table of open orders, the counters of open
    quantities per account, strategy and instrument, every request and response handler.
    \<open>OpenOrderCounts\<close> states the invariant that the counters are sums over the table,
    \<open>OrderLifecycle\<close> proves it for each operation and for the step relation \<open>po_step\<close>,
    \<open>OrderStates\<close> reads the state diagram of an order off the operations: every call with any
    arguments (\<open>po_call\<close>), and the three moves the code makes without looking at the state
    (\<open>unguarded_edge\<close>). \<open>OrderFacts\<close> states the results.
  \<^item> \<open>ProcessorThrottle\<close>, \<open>ProcessorRisk\<close>, \<open>ProcessorWTP\<close>, \<open>ProcessorMessaging\<close>: one
    theory per stage, with its state, operations and properties.
  \<^item> \<open>PnL\<close>, \<open>ProcessorPnL\<close>, \<open>PnLTree\<close>: the object per instrument, the tree over strategies
    and account, and that the inner nodes are sums of the leaves.
  \<^item> \<open>Translator\<close>, \<open>ProcessorChain\<close>, \<open>StrategyContainer\<close>: the composition.
    \<open>ChainContracts\<close> gives each stage the contract \<open>guarded_stage\<close>, \<open>SystemSafety\<close>
    derives that no run leaves the position limits and what a new order can end in. The run
    \<open>sc_step\<close> has the new orders that are accepted, refused by a stage, or refused by the order
    processor without effect (\<open>new_moot\<close>); the ones whose refusal spoils the counters
    (\<open>sendNew_bad_price_drifts\<close>, \<open>sendNew_duplicate_evicts\<close>) and broken trades are not steps,
    as the limits do not hold behind them.

  \<^bold>\<open>Exchange simulator.\<close>
  \<^item> \<open>Quote\<close>: levels, last trade, and the word of change flags.
  \<^item> \<open>Matcher\<close>: the books and every operation on them. \<open>MatcherFacts\<close> proves the structural
    invariant through the contracts \<open>book_step\<close> and \<open>book_reducer\<close>.
  \<^item> \<open>MatcherRefine\<close>: an exchange with price and time priority over plain queues, and that the
    matcher implements it; what a new order trades.
  \<^item> \<open>ExchangeSim\<close>: the manager with its sessions, subscriptions and scripted rejects.

  \<^bold>\<open>The channel to the exchange.\<close>
  \<^item> \<open>IdFactory\<close>: client order identifiers and the factory with its thread.
  \<^item> \<open>CmeTranslator\<close>: orders into FIX messages and reports into responses
    (\<open>channel_or_cme/translator\<close>); the messages of the engine are the record \<open>fix_api\<close> with
    the laws \<open>fix_laws\<close>, of which \<open>plain_fix\<close> is an instance.
  \<^item> \<open>ChannelOnix\<close>: the channel with its table of identifiers
    (\<open>channel_or_cme/channel_or_onix\<close>); \<open>ChannelOnixFacts\<close>: runs of requests and answers, and
    what a response and a session reject are attributed to.
  \<^item> \<open>NumText\<close>, \<open>FastStream\<close>: the texts of numbers and the fixed buffer that log lines and
    reject texts are written to (\<open>common_str_util\<close>).

  \<^bold>\<open>Instruments and quotes.\<close>
  \<^item> \<open>InstrumentManager\<close>: the table of instruments with its six indices, loading and saving
    (\<open>instr/instrument_manager\<close>); the contract \<open>instrument_source\<close> is met by each look-up.
    \<open>InstrumentFacts\<close>: what a run of loads leaves in the table.
  \<^item> \<open>QuoteStore\<close>: containers of clients with the contract \<open>client_container\<close>, and the store of
    quotes with subscribers (\<open>price/client_container.h\<close>, \<open>price/quote_store.h\<close>), together with the
    instruments it is filled from: \<open>market_run\<close> loads and adds instruments, looks quotes up,
    subscribes, notifies and clears.
  \<^item> \<open>QuoteStoreManager\<close>: the hand-over of quotes from the market data thread to the consumer
    thread (\<open>price/quote_store_manager.h\<close>, \<open>common_thread/thread_pipe.h\<close>), each locked section a
    step of \<open>feed_step\<close>.
  \<^item> \<open>ChannelPf\<close>: the listeners of the market data channel of CME that write books, trades,
    statistics and states into the quotes, merging what belongs to one message
    (\<open>channel_pf_cme/channel_pf_onix_impl_upgrade.h\<close>), and the channel in front of it that counts
    subscriptions (\<open>channel_pf/channel.h\<close>). \<open>ChannelPfFacts\<close>: volume through a run of calls, with
    what is passed on a second time (\<open>echoed\<close>), the book after an update, and the counts of a run of
    \<open>ch_run\<close>, where other clients use the store itself.

  \<^bold>\<open>Bars and stops.\<close>
  \<^item> \<open>Atr\<close>, \<open>Bars\<close>, \<open>BarsManager\<close>: ranges, bars, the three pattern detectors, and the
    manager with its timer and restarts. \<open>BarsFacts\<close>: a bar is the summary of its trades.
    \<open>BarsSafety\<close>: every run is defined and every pattern lies inside its bars.
  \<^item> \<open>StopProcessors\<close>, \<open>StopFacts\<close>: the processors that move and trigger stops, with the
    contracts \<open>stop_slider\<close> and \<open>safe_slider\<close> they are instances of.
  \<^item> \<open>TheoValues\<close>: volume weighted average, size weighted price, pivot levels.

  \<^bold>\<open>How the code is represented.\<close> An \<open>int32_t\<close> is an integer whose results go through
  \<open>s32\<close>; unsigned integers are words, except positions in vectors of bars and patterns, which are
  natural numbers. A \<open>double\<close> is an element of an ordered field with floor, so rounding errors are
  outside the model; the witnesses compute with rationals. A shared pointer to an order is an address
  into a store that is part of the state, because the table, the processors and the strategy alias
  it. A refusal is \<open>Some\<close> reject, a null pointer, an access outside a vector, a division by zero
  and an uncaught exception are \<open>None\<close>, and the one place where the code may erase the end of a
  map sets the flag \<open>mt_ub\<close>. A handler that takes a lock is one step. Loops over containers are
  structural recursion; the matching loops recurse over the levels and orders they consume, the
  divisor loop is a partial function whose termination is a theorem, and there is no fuel.

  \<^bold>\<open>What is assumed of the surroundings.\<close> Code outside the repository, or that only does
  input and output, is an argument: the clock and the
  timers, the text of an instrument's row, the id generator, the database, the FIX engine, and the strategy's callbacks
  (record \<open>env\<close>, \<open>bars_env\<close>, \<open>fix_values\<close>). The hypotheses on them are named:
  \<open>channel_ok\<close> (the channel does not change the counted fields of an order), \<open>client_ok\<close> (a
  callback acts through requests and writes to other fields), \<open>cfg_ok\<close> (limits in range),
  \<open>resp_ok\<close> (an exchange answers orders of the table, does not fill more than is open and breaks no trade),
  \<open>slide_ok\<close> (a quote has an ask, bars have trade prices; for stops of sells),
  \<open>legs_first\<close> (a leg has a smaller id than its spread), \<open>known\<close> (the instrument found has
  the key asked for), \<open>px_ok\<close> (prices within 30 bits), \<open>rows_plain\<close> (parsing a row sets no field
  the row does not have), \<open>row_ok\<close> (a row is read back as it was written). Where order processing,
  profit and loss or the simulator look up an instrument or a quote, the look-up is an argument
  of its own; the theory \<open>InstrumentManager\<close> shows that the code's tables have the law asked for. Every property that has hypotheses is
  applied at a concrete input by the theorem with the suffix \<open>_witness\<close>.

  \<^bold>\<open>What the properties show.\<close> Invariants and safety: position limits, open counts, state
  diagram, throttling, wash trades, sums of the profit tree, price order of the books, positions of
  patterns, direction of stops. Functional behaviour and equivalences: what an accepted order, a
  fill, a cancel, a modify and a timeout do; the risk preview; mark to market; bars. Refinement:
  the matcher against price and time priority. Order identifiers never repeat, responses find their
  order, and a reused message is as good as a new one. Loaded instruments are well formed, every
  index finds what it should, and a waiting consumer thread has seen the last update of every quote.
  Merging trades conserves volume but for what is passed on twice, books follow the exchange, the
  clients of a channel are counted, loss limits act on the true totals.
  Round trips: prices, the texts of integers, a refused order, a saved table. Several properties and lemmas state defects as
  the code has them: counters that drift after a refused order, a duplicate id that evicts a live
  order, the modify that stays in state Modifying, negative prices, a filled order reported as
  cancelled, a busted fill counted twice, the erasure of an end iterator, a text one byte longer than
  its buffer, levels that depend on the logging flag, a refused row that takes over an index, a waiting trade
  that is passed on with the side of the next one or a second time with a status, a stop of a sell that an
  empty ask side makes invalid.

  \<^bold>\<open>Not modelled.\<close> Text output, logging and the onCommand reports; storage and audit
  files; of the market data channel the creation and start of the vendor's handlers, the variant for
  an older library and the replay of recorded files; settings, sockets, memory pools and
  delegates, and of threads all but the two hand-overs above; the rows and the writes of the
  instrument database; of the CME channel the start and stop of its sessions and their message files,
  and the bridge and drop copy, which are sessions of the same engine;
  the signal processors of single strategies, the statistics they read, and the executables. Of the
  strategy container the registration of strategies, the timers and the market data subscriptions
  are left out; of the simulator its start from settings and its shutdown.
\<close>

end
